(* ===== verification/Prelude.thy ===== *)
theory Prelude
  imports Complex_Main "HOL-Library.AList"
begin

text \<open>
  Shared vocabulary of the development: the JavaScript \<open>Map\<close> as an ordered association
  list, JSON-like run-time values, the results of fallible code, and the two locales every
  component is built on: a keyed store, and a machine that folds events into a state and keeps
  an invariant.
\<close>

section \<open>Collections of facts\<close>

named_theorems model_defs \<open>definitions of the operations, unfolded to compute\<close>
named_theorems inv_intros \<open>one preservation fact per operation\<close>

section \<open>Run-time values\<close>

text \<open>
  The values an \<open>unknown\<close> of the source can hold, as far as the code inspects them.
  \<open>JInt\<close> and \<open>JFloat\<close> are the finite numbers, \<open>JFloat\<close> those that are not
  integers. Objects keep their own enumerable keys in order; a key is a \<open>string\<close>, and the
  type of string values is a parameter, so that code which inspects characters beyond the first
  256 code units can use lists of code points.
\<close>

type_synonym ustr = "nat list"

datatype 's jval =
    JUndefined
  | JNull
  | JBool bool
  | JInt int
  | JFloat rat
  | JStr 's
  | JArr "'s jval list"
  | JObj "(string \<times> 's jval) list"

definition lit :: "string \<Rightarrow> ustr" where
  "lit s = map of_char s"

definition max_safe_integer :: int where
  "max_safe_integer = 9007199254740991"

definition is_safe_integer :: "int \<Rightarrow> bool" where
  "is_safe_integer i \<longleftrightarrow> - max_safe_integer \<le> i \<and> i \<le> max_safe_integer"

text \<open>Reading a property of an object; a missing property reads as \<open>undefined\<close>.\<close>

definition jfield :: "(string \<times> 's jval) list \<Rightarrow> string \<Rightarrow> 's jval" where
  "jfield fs k = (case map_of fs k of None \<Rightarrow> JUndefined | Some v \<Rightarrow> v)"

text \<open>The schema checks the source composes: \<open>z.string()\<close>, \<open>z.number().int()\<close> with a lower
  bound, \<open>.optional()\<close> and \<open>.nullable()\<close>. \<open>None\<close> is a failed check.\<close>

fun zstring :: "'s jval \<Rightarrow> 's option" where
  "zstring (JStr s) = Some s"
| "zstring _ = None"

fun zbool :: "'s jval \<Rightarrow> bool option" where
  "zbool (JBool b) = Some b"
| "zbool _ = None"

fun zint :: "'s jval \<Rightarrow> int option" where
  "zint (JInt i) = (if is_safe_integer i then Some i else None)"
| "zint _ = None"

definition zint_min :: "int \<Rightarrow> 's jval \<Rightarrow> int option" where
  "zint_min lo v = (case zint v of None \<Rightarrow> None | Some i \<Rightarrow> (if lo \<le> i then Some i else None))"

definition zoptional :: "('s jval \<Rightarrow> 'a option) \<Rightarrow> 's jval \<Rightarrow> 'a option option" where
  "zoptional f v = (if v = JUndefined then Some None else map_option Some (f v))"

definition znullable :: "('s jval \<Rightarrow> 'a option) \<Rightarrow> 's jval \<Rightarrow> 'a option option" where
  "znullable f v = (if v = JNull then Some None else map_option Some (f v))"

fun zobject :: "'s jval \<Rightarrow> (string \<times> 's jval) list option" where
  "zobject (JObj fs) = Some fs"
| "zobject _ = None"

section \<open>JavaScript maps\<close>

text \<open>
  A \<open>Map\<close> iterates in insertion order; \<open>set\<close> on a present key keeps its place.
  \<open>AList.update\<close> and \<open>AList.delete\<close> do exactly that on a list with distinct keys.
\<close>

type_synonym ('k, 'v) jsmap = "('k \<times> 'v) list"

definition jm_get :: "('k, 'v) jsmap \<Rightarrow> 'k \<Rightarrow> 'v option" where
  "jm_get m k = map_of m k"

definition jm_set :: "('k, 'v) jsmap \<Rightarrow> 'k \<Rightarrow> 'v \<Rightarrow> ('k, 'v) jsmap" where
  "jm_set m k v = AList.update k v m"

definition jm_delete :: "('k, 'v) jsmap \<Rightarrow> 'k \<Rightarrow> ('k, 'v) jsmap" where
  "jm_delete m k = AList.delete k m"

definition jm_wf :: "('k, 'v) jsmap \<Rightarrow> bool" where
  "jm_wf m \<longleftrightarrow> distinct (map fst m)"

definition jm_size :: "('k, 'v) jsmap \<Rightarrow> nat" where
  "jm_size m = length m"

locale keyed_store =
  fixes get :: "'m \<Rightarrow> 'k \<Rightarrow> 'v option"
    and put :: "'m \<Rightarrow> 'k \<Rightarrow> 'v \<Rightarrow> 'm"
    and del :: "'m \<Rightarrow> 'k \<Rightarrow> 'm"
    and empty :: 'm
  assumes get_empty: "get empty k = None"
    and get_put: "get (put m k v) k' = (if k' = k then Some v else get m k')"
    and get_del: "get (del m k) k' = (if k' = k then None else get m k')"
begin

lemma get_put_same [simp]: "get (put m k v) k = Some v"
  by (simp add: get_put)

lemma get_put_other [simp]: "k' \<noteq> k \<Longrightarrow> get (put m k v) k' = get m k'"
  by (simp add: get_put)

lemma get_del_same [simp]: "get (del m k) k = None"
  by (simp add: get_del)

text \<open>A property of every stored value survives a write of a value that has it, and a delete.\<close>

lemma put_all:
  assumes "\<And>k' v'. get m k' = Some v' \<Longrightarrow> P k' v'" and "P k v"
  shows "get (put m k v) k' = Some v' \<Longrightarrow> P k' v'"
  using assms by (auto simp: get_put split: if_splits)

lemma del_all:
  assumes "\<And>k' v'. get m k' = Some v' \<Longrightarrow> P k' v'"
  shows "get (del m k) k' = Some v' \<Longrightarrow> P k' v'"
  using assms by (auto simp: get_del split: if_splits)

end

interpretation jm: keyed_store jm_get jm_set jm_delete "[]"
  by unfold_locales
    (auto simp: jm_get_def jm_set_def jm_delete_def update_conv delete_conv')

lemma jm_wf_empty [simp]: "jm_wf []"
  by (simp add: jm_wf_def)

lemma jm_wf_set [simp]: "jm_wf m \<Longrightarrow> jm_wf (jm_set m k v)"
  by (simp add: jm_wf_def jm_set_def distinct_update)

lemma jm_wf_delete [simp]: "jm_wf m \<Longrightarrow> jm_wf (jm_delete m k)"
  by (simp add: jm_wf_def jm_delete_def distinct_delete)

lemma jm_get_set [simp]: "jm_get (jm_set m k v) k' = (if k' = k then Some v else jm_get m k')"
  by (rule jm.get_put)

lemma jm_get_delete [simp]:
  "jm_get (jm_delete m k) k' = (if k' = k then None else jm_get m k')"
  by (rule jm.get_del)

lemma jm_get_Nil [simp]: "jm_get [] k = None"
  by (rule jm.get_empty)

section \<open>Event-driven machines\<close>

text \<open>
  A component reacts to one event at a time. If each reaction keeps an invariant, every state
  the component can be driven to satisfies it.
\<close>

fun run_events :: "('s \<Rightarrow> 'e \<Rightarrow> 's) \<Rightarrow> 's \<Rightarrow> 'e list \<Rightarrow> 's" where
  "run_events step s [] = s"
| "run_events step s (e # es) = run_events step (step s e) es"

lemma run_events_append: "run_events step s (es @ fs) = run_events step (run_events step s es) fs"
  by (induction es arbitrary: s) auto

locale machine =
  fixes step :: "'s \<Rightarrow> 'e \<Rightarrow> 's"
    and start :: 's
    and inv :: "'s \<Rightarrow> bool"
  assumes inv_start: "inv start"
    and inv_step: "inv s \<Longrightarrow> inv (step s e)"
begin

lemma inv_run_from: "inv s \<Longrightarrow> inv (run_events step s es)"
  by (induction es arbitrary: s) (auto intro: inv_step)

lemma inv_run: "inv (run_events step start es)"
  by (rule inv_run_from) (rule inv_start)

end

section \<open>Strings\<close>

text \<open>White space of \<open>String.prototype.trim\<close>: the characters of WhiteSpace and
  LineTerminator.\<close>

definition is_js_space :: "nat \<Rightarrow> bool" where
  "is_js_space c \<longleftrightarrow> (9 \<le> c \<and> c \<le> 13) \<or> c = 32 \<or> c = 160 \<or> c = 5760 \<or>
     (8192 \<le> c \<and> c \<le> 8202) \<or> c = 8232 \<or> c = 8233 \<or> c = 8239 \<or> c = 8287 \<or> c = 12288 \<or> c = 65279"

definition trim :: "ustr \<Rightarrow> ustr" where
  "trim s = rev (dropWhile is_js_space (rev (dropWhile is_js_space s)))"

text \<open>\<open>toLowerCase\<close> on the letters that matter to the comparisons below.\<close>

definition toLowerCase :: "ustr \<Rightarrow> ustr" where
  "toLowerCase s = map (\<lambda>c. if 65 \<le> c \<and> c \<le> 90 then c + 32 else c) s"

definition nullish :: "'a option \<Rightarrow> 'a option \<Rightarrow> 'a option" where
  "nullish x y = (case x of Some v \<Rightarrow> Some v | None \<Rightarrow> y)"

definition orElse :: "'a option \<Rightarrow> 'a \<Rightarrow> 'a" where
  "orElse x d = (case x of Some v \<Rightarrow> v | None \<Rightarrow> d)"

section \<open>Decimal numerals\<close>

text \<open>Template literals print integers in decimal.\<close>

fun show_nat :: "nat \<Rightarrow> string" where
  "show_nat n =
     (if n < 10 then [char_of (48 + n)] else show_nat (n div 10) @ [char_of (48 + n mod 10)])"

declare show_nat.simps [simp del]

definition show_int :: "int \<Rightarrow> ustr" where
  "show_int i = lit ((if i < 0 then ''-'' else []) @ show_nat (nat \<bar>i\<bar>))"

fun read_digits :: "nat \<Rightarrow> string \<Rightarrow> nat" where
  "read_digits acc [] = acc"
| "read_digits acc (c # cs) = read_digits (10 * acc + (of_char c - 48)) cs"

lemma read_digits_snoc: "read_digits acc (cs @ [c]) = 10 * read_digits acc cs + (of_char c - 48)"
  by (induction cs arbitrary: acc) auto

lemma read_show_nat: "read_digits 0 (show_nat n) = n"
proof (induction n rule: show_nat.induct)
  case (1 n)
  show ?case
  proof (cases "n < 10")
    case True
    then show ?thesis by (simp add: show_nat.simps [of n])
  next
    case False
    with "1.IH" show ?thesis
      by (simp add: show_nat.simps [of n] read_digits_snoc)
  qed
qed

lemma show_nat_inj [simp]: "show_nat m = show_nat n \<longleftrightarrow> m = n"
  by (metis read_show_nat)

lemma show_nat_digits: "c \<in> set (show_nat n) \<Longrightarrow> of_char c \<in> {48..57 :: nat}"
proof (induction n rule: show_nat.induct)
  case (1 n)
  show ?case
  proof (cases "n < 10")
    case True
    with "1.prems" show ?thesis by (simp add: show_nat.simps [of n])
  next
    case False
    with 1 show ?thesis by (auto simp: show_nat.simps [of n])
  qed
qed

lemma jm_delete_set_absent: "jm_get m k = None \<Longrightarrow> jm_delete (jm_set m k v) k = m"
  by (simp add: jm_delete_def jm_set_def jm_get_def delete_update_same)
    (metis delete_id map_of_eq_None_iff)

lemma jm_delete_absent: "jm_get m k = None \<Longrightarrow> jm_delete m k = m"
  by (simp add: jm_delete_def jm_get_def) (metis delete_id map_of_eq_None_iff)

section \<open>Fallible operations on a state\<close>

text \<open>An \<open>async\<close> method that reads and writes a store and may throw: the error or the value it
  resolves to, with the state it leaves. A throw keeps what was written before it.\<close>

type_synonym ('s, 'e, 'a) fallible = "'s \<Rightarrow> ('e + 'a) \<times> 's"

definition ret :: "'a \<Rightarrow> ('s, 'e, 'a) fallible" where
  "ret x = (\<lambda>s. (Inr x, s))"

definition throw :: "'e \<Rightarrow> ('s, 'e, 'a) fallible" where
  "throw e = (\<lambda>s. (Inl e, s))"

definition andThen ::
    "('s, 'e, 'a) fallible \<Rightarrow> ('a \<Rightarrow> ('s, 'e, 'b) fallible) \<Rightarrow> ('s, 'e, 'b) fallible" where
  "andThen m f = (\<lambda>s. case m s of (Inl e, s') \<Rightarrow> (Inl e, s') | (Inr x, s') \<Rightarrow> f x s')"

lemma ret_apply [simp]: "ret x s = (Inr x, s)"
  by (simp add: ret_def)

lemma throw_apply [simp]: "throw e s = (Inl e, s)"
  by (simp add: throw_def)

lemma andThen_apply: "andThen m f s =
    (case m s of (Inl e, s') \<Rightarrow> (Inl e, s') | (Inr x, s') \<Rightarrow> f x s')"
  by (simp add: andThen_def)

lemma andThen_Inr [simp]: "m s = (Inr x, s') \<Longrightarrow> andThen m f s = f x s'"
  by (simp add: andThen_def)

lemma andThen_Inl [simp]: "m s = (Inl e, s') \<Longrightarrow> andThen m f s = (Inl e, s')"
  by (simp add: andThen_def)

text \<open>A relation between the states before and after that every part keeps is kept by the whole.\<close>

definition keeps :: "('s \<Rightarrow> 's \<Rightarrow> bool) \<Rightarrow> ('s, 'e, 'a) fallible \<Rightarrow> bool" where
  "keeps R m \<longleftrightarrow> (\<forall>s. R s (snd (m s)))"

lemma keeps_ret [intro]: "reflp R \<Longrightarrow> keeps R (ret x)"
  by (simp add: keeps_def reflp_def)

lemma keeps_throw [intro]: "reflp R \<Longrightarrow> keeps R (throw e)"
  by (simp add: keeps_def reflp_def)

lemma keeps_andThen:
  assumes "transp R" and "keeps R m" and "\<And>x. keeps R (f x)"
  shows "keeps R (andThen m f)"
  unfolding keeps_def
proof
  fix s
  obtain r s' where m: "m s = (r, s')" by (cases "m s")
  then have 1: "R s s'" using assms(2) unfolding keeps_def by (metis snd_conv)
  show "R s (snd (andThen m f s))"
  proof (cases r)
    case (Inl e)
    with m 1 show ?thesis by simp
  next
    case (Inr x)
    have "R s' (snd (f x s'))" using assms(3) by (simp add: keeps_def)
    with 1 m Inr show ?thesis using assms(1) by (simp add: transp_def)
  qed
qed

lemma keepsD: "\<lbrakk>keeps R m; m s = (r, s')\<rbrakk> \<Longrightarrow> R s s'"
  unfolding keeps_def by (metis snd_conv)

end
