(* ===== verification/RunLog.thy ===== *)
theory RunLog
  imports Prelude
begin

text \<open>
  Run logs, results and history entries and the helpers of \<open>src/utils/terminal-run.ts\<close>: what a log
  entry stands for, how a finished run becomes a result and a history entry. Texts are lists of
  UTF-16 code units; a missing \<open>scope\<close>, \<open>runId\<close> or \<open>code\<close> and a null one are both \<open>None\<close>. \<open>Date\<close>
  readings are the argument \<open>time_of\<close>, \<open>None\<close> for an invalid date; a number of milliseconds that is
  \<open>NaN\<close> is \<open>None\<close>.
\<close>

section \<open>Types of src/types/editor\<close>

datatype executor = Wsl

datatype log_level = LogInfo | LogSuccess | LogError

datatype log_scope = ScopeRun | ScopeWorkspace | ScopeEditor | ScopeSystem

record run_log =
  lg_id :: ustr
  lg_level :: log_level
  lg_title :: ustr
  lg_detail :: ustr
  lg_createdAt :: ustr
  lg_scope :: "log_scope option"
  lg_runId :: "ustr option"
  lg_code :: "ustr option"

record log_options =
  lo_scope :: "log_scope option"
  lo_runId :: "ustr option"
  lo_code :: "ustr option"

definition no_log_options :: log_options where
  "no_log_options = \<lparr>lo_scope = None, lo_runId = None, lo_code = None\<rparr>"

record active_run_summary =
  sm_runId :: ustr
  sm_documentName :: ustr
  sm_documentPath :: "ustr option"
  sm_commandLine :: ustr
  sm_executor :: executor
  sm_executorLabel :: ustr
  sm_startedAt :: ustr
  sm_usedTempFile :: bool

record run_result =
  res_runId :: "ustr option"
  res_success :: bool
  res_stdout :: ustr
  res_stderr :: ustr
  res_combinedOutput :: ustr
  res_exitCode :: "int option"
  res_executor :: executor
  res_executorLabel :: ustr
  res_durationMs :: "int option"
  res_startedAt :: ustr
  res_finishedAt :: ustr
  res_commandLine :: ustr
  res_logPath :: "ustr option"
  res_usedTempFile :: bool

datatype history_status = RunSuccess | RunFailed | RunCanceled

record history_entry =
  he_status :: history_status
  he_documentName :: ustr
  he_documentPath :: "ustr option"
  he_commandLine :: ustr
  he_executor :: executor
  he_executorLabel :: ustr
  he_startedAt :: ustr
  he_finishedAt :: ustr
  he_durationMs :: "int option"
  he_exitCode :: "int option"
  he_usedTempFile :: bool

section \<open>Helpers of src/utils/terminal-run.ts\<close>

record document_ref =
  ref_name :: ustr
  ref_path :: "ustr option"

record run_meta =
  met_runId :: ustr
  met_startedAt :: ustr
  met_commandLine :: ustr
  met_usedTempFile :: bool

fun getExecutorLabel :: "executor \<Rightarrow> ustr" where
  "getExecutorLabel Wsl = lit ''WSL2''"

datatype run_log_kind =
  KindStart | KindDispatched | KindTempFile | KindCompleted | KindFailed | KindTimeout | KindOther

text \<open>\<open>TERMINAL_RUN_LOG_CODES\<close>, by the kind that carries them.\<close>

fun TERMINAL_RUN_LOG_CODES :: "run_log_kind \<Rightarrow> ustr" where
  "TERMINAL_RUN_LOG_CODES KindStart = lit ''terminal-run/start''"
| "TERMINAL_RUN_LOG_CODES KindDispatched = lit ''terminal-run/dispatched''"
| "TERMINAL_RUN_LOG_CODES KindTempFile = lit ''terminal-run/temp-file''"
| "TERMINAL_RUN_LOG_CODES KindCompleted = lit ''terminal-run/completed''"
| "TERMINAL_RUN_LOG_CODES KindFailed = lit ''terminal-run/failed''"
| "TERMINAL_RUN_LOG_CODES KindTimeout = lit ''terminal-run/timeout''"
| "TERMINAL_RUN_LOG_CODES KindOther = []"

text \<open>\<open>TERMINAL_RUN_LOG_TITLES\<close>.\<close>

fun TERMINAL_RUN_LOG_TITLES :: "run_log_kind \<Rightarrow> ustr" where
  "TERMINAL_RUN_LOG_TITLES KindStart = [24320, 22987, 25191, 34892]"
| "TERMINAL_RUN_LOG_TITLES KindDispatched = [24050, 21457, 36865, 21040, 38598, 25104, 32456, 31471]"
| "TERMINAL_RUN_LOG_TITLES KindTempFile = [20020, 26102, 33050, 26412, 25991, 20214]"
| "TERMINAL_RUN_LOG_TITLES KindCompleted = [25191, 34892, 23436, 25104]"
| "TERMINAL_RUN_LOG_TITLES KindFailed = [25191, 34892, 22833, 36133]"
| "TERMINAL_RUN_LOG_TITLES KindTimeout = [32456, 31471, 36816, 34892, 36229, 26102]"
| "TERMINAL_RUN_LOG_TITLES KindOther = []"

definition run_log_kinds :: "run_log_kind list" where
  "run_log_kinds = [KindStart, KindDispatched, KindTempFile, KindCompleted, KindFailed, KindTimeout]"

definition resolveRunHistoryStatus :: "int option \<Rightarrow> history_status" where
  "resolveRunHistoryStatus exitCode =
     (if exitCode = Some 0 then RunSuccess
      else if exitCode = None \<or> exitCode = Some (- 1) \<or> exitCode = Some 130 then RunCanceled
      else RunFailed)"

definition buildRunSummary ::
    "ustr \<Rightarrow> document_ref \<Rightarrow> ustr \<Rightarrow> executor \<Rightarrow> ustr \<Rightarrow> bool \<Rightarrow> active_run_summary" where
  "buildRunSummary runId d commandLine ex startedAt usedTempFile =
     \<lparr>sm_runId = runId, sm_documentName = ref_name d, sm_documentPath = ref_path d,
      sm_commandLine = commandLine, sm_executor = ex, sm_executorLabel = getExecutorLabel ex,
      sm_startedAt = startedAt, sm_usedTempFile = usedTempFile\<rparr>"

definition buildPendingTerminalRunSummary ::
    "document_ref \<Rightarrow> ustr \<Rightarrow> ustr \<Rightarrow> executor \<Rightarrow> bool \<Rightarrow> active_run_summary" where
  "buildPendingTerminalRunSummary d runId startedAt ex usedTempFile =
     buildRunSummary runId d [27491, 22312, 21457, 36865, 21040, 38598, 25104, 32456, 31471, 8230] ex startedAt usedTempFile"

definition createActiveTerminalRunMeta :: "ustr \<Rightarrow> ustr \<Rightarrow> ustr \<Rightarrow> bool \<Rightarrow> run_meta" where
  "createActiveTerminalRunMeta runId startedAt commandLine usedTempFile =
     \<lparr>met_runId = runId, met_startedAt = startedAt, met_commandLine = commandLine,
      met_usedTempFile = usedTempFile\<rparr>"

definition buildDispatchedTerminalRunSummary ::
    "document_ref \<Rightarrow> run_meta \<Rightarrow> executor \<Rightarrow> active_run_summary" where
  "buildDispatchedTerminalRunSummary d m ex =
     buildRunSummary (met_runId m) d (met_commandLine m) ex (met_startedAt m) (met_usedTempFile m)"

text \<open>The duration: \<open>Math.max(0, NaN)\<close> is \<open>NaN\<close>.\<close>

definition run_duration :: "(ustr \<Rightarrow> int option) \<Rightarrow> ustr \<Rightarrow> run_meta option \<Rightarrow> int option" where
  "run_duration time_of finishedAt active =
     (case active of
        None \<Rightarrow> Some 0
      | Some m \<Rightarrow>
          (case (time_of finishedAt, time_of (met_startedAt m)) of
             (Some b, Some a) \<Rightarrow> Some (max 0 (b - a)) | _ \<Rightarrow> None))"

definition buildTerminalRunResult ::
    "(ustr \<Rightarrow> int option) \<Rightarrow> ustr \<Rightarrow> int option \<Rightarrow> ustr \<Rightarrow> executor \<Rightarrow> run_meta option \<Rightarrow>
     active_run_summary option \<Rightarrow> run_result" where
  "buildTerminalRunResult time_of shown exitCode finishedAt ex active summary =
     \<lparr>res_runId = nullish (map_option met_runId active) (map_option sm_runId summary),
      res_success = (exitCode = Some 0),
      res_stdout = shown,
      res_stderr = (if exitCode = Some 0 then [] else shown),
      res_combinedOutput = shown,
      res_exitCode = exitCode,
      res_executor = ex,
      res_executorLabel = getExecutorLabel ex,
      res_durationMs = run_duration time_of finishedAt active,
      res_startedAt = orElse (nullish (map_option met_startedAt active) (map_option sm_startedAt summary)) finishedAt,
      res_finishedAt = finishedAt,
      res_commandLine = orElse (nullish (map_option met_commandLine active)
        (map_option sm_commandLine summary)) (lit ''bash''),
      res_logPath = None,
      res_usedTempFile = orElse (nullish (map_option met_usedTempFile active)
        (map_option sm_usedTempFile summary)) False\<rparr>"

definition abnormal_title :: ustr where
  "abnormal_title = [32456, 31471, 25191, 34892, 29366, 24577, 24322, 24120]"

definition script_failed_title :: ustr where
  "script_failed_title = [33050, 26412, 25191, 34892, 22833, 36133]"

definition LEGACY_RUN_FLOW_LOG_TITLES :: "ustr list" where
  "LEGACY_RUN_FLOW_LOG_TITLES =
     map TERMINAL_RUN_LOG_TITLES [KindStart, KindDispatched, KindTempFile, KindCompleted, KindFailed] @
     [abnormal_title, script_failed_title]"

definition LEGACY_FINAL_RUN_LOG_TITLES :: "ustr list" where
  "LEGACY_FINAL_RUN_LOG_TITLES =
     map TERMINAL_RUN_LOG_TITLES [KindCompleted, KindFailed] @ [abnormal_title, script_failed_title]"

definition TERMINAL_RUN_LOG_CODE_SET :: "ustr list" where
  "TERMINAL_RUN_LOG_CODE_SET = map TERMINAL_RUN_LOG_CODES run_log_kinds"

definition TERMINAL_RUN_FINAL_LOG_CODE_SET :: "ustr list" where
  "TERMINAL_RUN_FINAL_LOG_CODE_SET = map TERMINAL_RUN_LOG_CODES [KindCompleted, KindFailed, KindTimeout]"

definition marked :: "run_log_kind \<Rightarrow> run_log \<Rightarrow> bool" where
  "marked k x \<longleftrightarrow> lg_code x = Some (TERMINAL_RUN_LOG_CODES k) \<or> lg_title x = TERMINAL_RUN_LOG_TITLES k"

definition isTerminalRunStartLog :: "run_log \<Rightarrow> bool" where
  "isTerminalRunStartLog = marked KindStart"

definition isTerminalRunDispatchedLog :: "run_log \<Rightarrow> bool" where
  "isTerminalRunDispatchedLog = marked KindDispatched"

definition isTerminalRunTempFileLog :: "run_log \<Rightarrow> bool" where
  "isTerminalRunTempFileLog = marked KindTempFile"

definition isTerminalRunCompletedLog :: "run_log \<Rightarrow> bool" where
  "isTerminalRunCompletedLog = marked KindCompleted"

definition isTerminalRunTimeoutLog :: "run_log \<Rightarrow> bool" where
  "isTerminalRunTimeoutLog = marked KindTimeout"

definition isTerminalRunFailedLog :: "run_log \<Rightarrow> bool" where
  "isTerminalRunFailedLog x \<longleftrightarrow>
     marked KindFailed x \<or> lg_title x = abnormal_title \<or> lg_title x = script_failed_title"

definition code_in :: "ustr list \<Rightarrow> run_log \<Rightarrow> bool" where
  "code_in cs x \<longleftrightarrow> (case lg_code x of Some c \<Rightarrow> c \<in> set cs | None \<Rightarrow> False)"

definition isTerminalRunFlowLog :: "run_log \<Rightarrow> bool" where
  "isTerminalRunFlowLog x \<longleftrightarrow> lg_scope x = Some ScopeRun \<or> code_in TERMINAL_RUN_LOG_CODE_SET x \<or>
     lg_title x \<in> set LEGACY_RUN_FLOW_LOG_TITLES"

definition isTerminalRunFinalLog :: "run_log \<Rightarrow> bool" where
  "isTerminalRunFinalLog x \<longleftrightarrow> code_in TERMINAL_RUN_FINAL_LOG_CODE_SET x \<or>
     lg_title x \<in> set LEGACY_FINAL_RUN_LOG_TITLES"

definition resolveTerminalRunLogKind :: "run_log \<Rightarrow> run_log_kind" where
  "resolveTerminalRunLogKind x =
     (if isTerminalRunStartLog x then KindStart
      else if isTerminalRunDispatchedLog x then KindDispatched
      else if isTerminalRunTempFileLog x then KindTempFile
      else if isTerminalRunCompletedLog x then KindCompleted
      else if isTerminalRunTimeoutLog x then KindTimeout
      else if isTerminalRunFailedLog x then KindFailed
      else KindOther)"

definition buildTerminalRunHistoryEntry ::
    "run_result \<Rightarrow> active_run_summary option \<Rightarrow> document_ref \<Rightarrow> history_entry" where
  "buildTerminalRunHistoryEntry r summary fallback =
     \<lparr>he_status = resolveRunHistoryStatus (res_exitCode r),
      he_documentName = orElse (map_option sm_documentName summary) (ref_name fallback),
      he_documentPath = (case map_option sm_documentPath summary of
        Some (Some p) \<Rightarrow> Some p | _ \<Rightarrow> ref_path fallback),
      he_commandLine = res_commandLine r, he_executor = res_executor r,
      he_executorLabel = res_executorLabel r, he_startedAt = res_startedAt r,
      he_finishedAt = res_finishedAt r, he_durationMs = res_durationMs r,
      he_exitCode = res_exitCode r, he_usedTempFile = res_usedTempFile r\<rparr>"

definition shown_number :: "int option \<Rightarrow> ustr" where
  "shown_number n = (case n of Some i \<Rightarrow> show_int i | None \<Rightarrow> lit ''NaN'')"

definition buildTerminalRunCompletionDetail :: "run_result \<Rightarrow> ustr" where
  "buildTerminalRunCompletionDetail r =
     [25191, 34892, 22120, 65306] @ res_executorLabel r @ [65292, 36864, 20986, 30721, 65306] @
     (case res_exitCode r of Some c \<Rightarrow> show_int c | None \<Rightarrow> [26410, 30693]) @ [65292, 32791, 26102, 65306] @
     shown_number (res_durationMs r) @ lit ''ms'' @ [12290]"

section \<open>Kinds and final entries\<close>

lemma code_inj: "k \<noteq> KindOther \<Longrightarrow> TERMINAL_RUN_LOG_CODES j = TERMINAL_RUN_LOG_CODES k \<longleftrightarrow> j = k"
  by (cases j; cases k) (simp_all add: lit_def)

lemmas log_tests = isTerminalRunStartLog_def isTerminalRunDispatchedLog_def isTerminalRunTempFileLog_def
  isTerminalRunCompletedLog_def isTerminalRunTimeoutLog_def isTerminalRunFailedLog_def
  isTerminalRunFlowLog_def isTerminalRunFinalLog_def marked_def code_in_def
  TERMINAL_RUN_LOG_CODE_SET_def TERMINAL_RUN_FINAL_LOG_CODE_SET_def run_log_kinds_def
  LEGACY_RUN_FLOW_LOG_TITLES_def LEGACY_FINAL_RUN_LOG_TITLES_def abnormal_title_def script_failed_title_def

text \<open>A log entry the composable writes for a run: its code decides what it is, whatever the title.\<close>

definition coded :: "run_log_kind \<Rightarrow> run_log \<Rightarrow> bool" where
  "coded k x \<longleftrightarrow> lg_code x = Some (TERMINAL_RUN_LOG_CODES k)"

definition final_kinds :: "run_log_kind list" where
  "final_kinds = [KindCompleted, KindFailed, KindTimeout]"

lemma final_if_coded: "coded k x \<Longrightarrow> k \<in> set final_kinds \<Longrightarrow> isTerminalRunFinalLog x"
  by (auto simp: coded_def final_kinds_def log_tests)

end
