(* ===== verification/Regex.thy ===== *)
theory Regex
  imports Prelude
begin

text \<open>
  ECMAScript regular expressions without groups that are read back, on UTF-16 code units: what the
  patterns of the program need. \<open>rests\<close> is the backtracking matcher: the rests a pattern leaves, the
  preferred one first. \<open>matches\<close> says which texts a pattern matches before which rest, and the matcher
  finds exactly those.
\<close>

datatype regex =
    Unit "nat \<Rightarrow> bool"
  | Look "ustr \<Rightarrow> bool"
  | Both regex regex
  | Either regex regex
  | Star regex
  | Lazy regex

text \<open>A repetition tries at most as often as there are units; an iteration that matches the empty text
  is refused, as the standard says.\<close>

fun greedy :: "(ustr \<Rightarrow> ustr list) \<Rightarrow> nat \<Rightarrow> ustr \<Rightarrow> ustr list" where
  "greedy f 0 s = [s]"
| "greedy f (Suc n) s = concat (map (greedy f n) (filter (\<lambda>t. length t < length s) (f s))) @ [s]"

fun lazy :: "(ustr \<Rightarrow> ustr list) \<Rightarrow> nat \<Rightarrow> ustr \<Rightarrow> ustr list" where
  "lazy f 0 s = [s]"
| "lazy f (Suc n) s = s # concat (map (lazy f n) (filter (\<lambda>t. length t < length s) (f s)))"

fun rests :: "regex \<Rightarrow> ustr \<Rightarrow> ustr list" where
  "rests (Unit P) s = (case s of c # t \<Rightarrow> if P c then [t] else [] | [] \<Rightarrow> [])"
| "rests (Look P) s = (if P s then [s] else [])"
| "rests (Both a b) s = concat (map (rests b) (rests a s))"
| "rests (Either a b) s = rests a s @ rests b s"
| "rests (Star a) s = greedy (rests a) (length s) s"
| "rests (Lazy a) s = lazy (rests a) (length s) s"

text \<open>Matching at the start, anywhere, and what \<open>match\<close> gives back.\<close>

definition at_start :: "regex \<Rightarrow> ustr \<Rightarrow> bool" where
  "at_start r s \<longleftrightarrow> rests r s \<noteq> []"

fun found :: "regex \<Rightarrow> ustr \<Rightarrow> bool" where
  "found r [] = at_start r []"
| "found r (c # s) = (at_start r (c # s) \<or> found r s)"

fun first_match :: "regex \<Rightarrow> ustr \<Rightarrow> (ustr \<times> ustr) option" where
  "first_match r s =
     (case rests r s of
        t # _ \<Rightarrow> Some (take (length s - length t) s, t)
      | [] \<Rightarrow> (case s of [] \<Rightarrow> None | c # s' \<Rightarrow> first_match r s'))"

declare first_match.simps [simp del]

text \<open>\<open>replace\<close> with a global pattern that never matches the empty text.\<close>

function replace_matches :: "regex \<Rightarrow> ustr \<Rightarrow> ustr \<Rightarrow> ustr" where
  "replace_matches r by s =
     (case s of
        [] \<Rightarrow> []
      | c # s' \<Rightarrow>
          (case rests r s of
             t # _ \<Rightarrow> (if length t < length s then by @ replace_matches r by t else c # replace_matches r by s')
           | [] \<Rightarrow> c # replace_matches r by s'))"
  by pat_completeness auto
termination by (relation "measure (\<lambda>(r, by, s). length s)") auto

declare replace_matches.simps [simp del]

section \<open>Building patterns\<close>

definition nothing :: regex where "nothing = Look (\<lambda>s. True)"

definition seq :: "regex list \<Rightarrow> regex" where "seq rs = foldr Both rs nothing"

definition any_of :: "regex list \<Rightarrow> regex" where "any_of rs = foldr Either rs (Look (\<lambda>s. False))"

definition many :: "regex \<Rightarrow> regex" where "many r = Both r (Star r)"

definition maybe :: "regex \<Rightarrow> regex" where "maybe r = Either r nothing"

definition at_end :: regex where "at_end = Look (\<lambda>s. s = [])"

definition exactly :: "ustr \<Rightarrow> regex" where
  "exactly w = seq (map (\<lambda>c. Unit (\<lambda>x. x = c)) w)"

text \<open>With the flag \<open>i\<close> an ASCII letter of a pattern matches both of its cases, and nothing else.\<close>

definition fold_letter :: "nat \<Rightarrow> nat" where
  "fold_letter c = (if 65 \<le> c \<and> c \<le> 90 then c + 32 else c)"

definition ignoring_case :: "ustr \<Rightarrow> regex" where
  "ignoring_case w = seq (map (\<lambda>c. Unit (\<lambda>x. fold_letter x = fold_letter c)) w)"

definition digit :: "nat \<Rightarrow> bool" where "digit c \<longleftrightarrow> 48 \<le> c \<and> c \<le> 57"

definition word_unit :: "nat \<Rightarrow> bool" where
  "word_unit c \<longleftrightarrow> digit c \<or> 65 \<le> c \<and> c \<le> 90 \<or> c = 95 \<or> 97 \<le> c \<and> c \<le> 122"

text \<open>The dot: anything but a line terminator.\<close>

definition dot :: "nat \<Rightarrow> bool" where "dot c \<longleftrightarrow> c \<notin> {10, 13, 0x2028, 0x2029}"

section \<open>The matcher decides the pattern\<close>

inductive matches :: "regex \<Rightarrow> ustr \<Rightarrow> ustr \<Rightarrow> bool" where
  unit: "P c \<Longrightarrow> matches (Unit P) [c] t"
| look: "P t \<Longrightarrow> matches (Look P) [] t"
| both: "matches a m (n @ t) \<Longrightarrow> matches b n t \<Longrightarrow> matches (Both a b) (m @ n) t"
| left: "matches a m t \<Longrightarrow> matches (Either a b) m t"
| right: "matches b m t \<Longrightarrow> matches (Either a b) m t"
| star_none: "matches (Star a) [] t"
| star_more: "matches a m (n @ t) \<Longrightarrow> m \<noteq> [] \<Longrightarrow> matches (Star a) n t \<Longrightarrow> matches (Star a) (m @ n) t"
| lazy_none: "matches (Lazy a) [] t"
| lazy_more: "matches a m (n @ t) \<Longrightarrow> m \<noteq> [] \<Longrightarrow> matches (Lazy a) n t \<Longrightarrow> matches (Lazy a) (m @ n) t"

inductive_cases unitE: "matches (Unit P) m t"
inductive_cases lookE: "matches (Look P) m t"
inductive_cases bothE: "matches (Both a b) m t"
inductive_cases eitherE: "matches (Either a b) m t"

lemma greedy_sound:
  assumes "\<And>s t. t \<in> set (rests a s) \<Longrightarrow> \<exists>m. s = m @ t \<and> matches a m t"
  shows "t \<in> set (greedy (rests a) n s) \<Longrightarrow> \<exists>m. s = m @ t \<and> matches (Star a) m t"
proof (induction n arbitrary: s)
  case 0
  then show ?case by (auto intro: star_none)
next
  case (Suc n)
  then consider "t = s" | u where "u \<in> set (rests a s)" "length u < length s" "t \<in> set (greedy (rests a) n u)" by auto
  then show ?case
  proof cases
    case 2
    obtain m where m: "s = m @ u" "matches a m u" using assms [OF 2(1)] by blast
    obtain k where k: "u = k @ t" "matches (Star a) k t" using Suc.IH [OF 2(3)] by blast
    have "m \<noteq> []" using m 2(2) by auto
    then have "matches (Star a) (m @ k) t" using m(2) k by (auto intro: star_more)
    then show ?thesis using m(1) k(1) by auto
  qed (auto intro: star_none)
qed

lemma lazy_sound:
  assumes "\<And>s t. t \<in> set (rests a s) \<Longrightarrow> \<exists>m. s = m @ t \<and> matches a m t"
  shows "t \<in> set (lazy (rests a) n s) \<Longrightarrow> \<exists>m. s = m @ t \<and> matches (Lazy a) m t"
proof (induction n arbitrary: s)
  case 0
  then show ?case by (auto intro: lazy_none)
next
  case (Suc n)
  then consider "t = s" | u where "u \<in> set (rests a s)" "length u < length s" "t \<in> set (lazy (rests a) n u)" by auto
  then show ?case
  proof cases
    case 2
    obtain m where m: "s = m @ u" "matches a m u" using assms [OF 2(1)] by blast
    obtain k where k: "u = k @ t" "matches (Lazy a) k t" using Suc.IH [OF 2(3)] by blast
    have "m \<noteq> []" using m 2(2) by auto
    then have "matches (Lazy a) (m @ k) t" using m(2) k by (auto intro: lazy_more)
    then show ?thesis using m(1) k(1) by auto
  qed (auto intro: lazy_none)
qed

lemma rests_sound: "t \<in> set (rests r s) \<Longrightarrow> \<exists>m. s = m @ t \<and> matches r m t"
proof (induction r arbitrary: s t)
  case (Unit P)
  then show ?case by (auto split: list.splits if_splits intro: unit)
next
  case (Look P)
  then show ?case by (auto split: if_splits intro: look)
next
  case (Both a b)
  then obtain u where u: "u \<in> set (rests a s)" "t \<in> set (rests b u)" by auto
  obtain m where m: "s = m @ u" "matches a m u" using Both.IH(1) [OF u(1)] by blast
  obtain n where n: "u = n @ t" "matches b n t" using Both.IH(2) [OF u(2)] by blast
  have "matches (Both a b) (m @ n) t" using m(2) n by (auto intro: both)
  then show ?case using m(1) n(1) by auto
next
  case (Either a b)
  then show ?case by (auto dest: left right) (metis left right)+
next
  case (Star a)
  then show ?case using greedy_sound [of a t "length s" s] by simp
next
  case (Lazy a)
  then show ?case using lazy_sound [of a t "length s" s] by simp
qed

lemma greedy_complete:
  assumes "\<And>m t. matches a m t \<Longrightarrow> t \<in> set (rests a (m @ t))"
  shows "matches r m t \<Longrightarrow> r = Star a \<Longrightarrow> length m \<le> n \<Longrightarrow> t \<in> set (greedy (rests a) n (m @ t))"
proof (induction arbitrary: n rule: matches.induct)
  case (star_none b t)
  show ?case by (cases n) auto
next
  case (star_more b m k t)
  then obtain n' where n: "n = Suc n'" by (cases n) auto
  have "length k \<le> n'" using star_more.prems(2) star_more.hyps(2) n by (cases m) auto
  then have "t \<in> set (greedy (rests a) n' (k @ t))" using star_more.IH(2) star_more.prems(1) by blast
  moreover have "k @ t \<in> set (rests a (m @ k @ t))" using assms star_more.hyps(1) star_more.prems(1) by simp
  moreover have "length (k @ t) < length (m @ k @ t)" using star_more.hyps(2) by simp
  ultimately show ?case unfolding n by auto
qed simp_all

lemma lazy_complete:
  assumes "\<And>m t. matches a m t \<Longrightarrow> t \<in> set (rests a (m @ t))"
  shows "matches r m t \<Longrightarrow> r = Lazy a \<Longrightarrow> length m \<le> n \<Longrightarrow> t \<in> set (lazy (rests a) n (m @ t))"
proof (induction arbitrary: n rule: matches.induct)
  case (lazy_none b t)
  show ?case by (cases n) auto
next
  case (lazy_more b m k t)
  then obtain n' where n: "n = Suc n'" by (cases n) auto
  have "length k \<le> n'" using lazy_more.prems(2) lazy_more.hyps(2) n by (cases m) auto
  then have "t \<in> set (lazy (rests a) n' (k @ t))" using lazy_more.IH(2) lazy_more.prems(1) by blast
  moreover have "k @ t \<in> set (rests a (m @ k @ t))" using assms lazy_more.hyps(1) lazy_more.prems(1) by simp
  moreover have "length (k @ t) < length (m @ k @ t)" using lazy_more.hyps(2) by simp
  ultimately show ?case unfolding n by auto
qed simp_all

lemma rests_complete: "matches r m t \<Longrightarrow> t \<in> set (rests r (m @ t))"
proof (induction r arbitrary: m t)
  case (Unit P)
  then show ?case by (auto elim: unitE)
next
  case (Look P)
  then show ?case by (auto elim: lookE)
next
  case (Both a b)
  from Both.prems show ?case by (rule bothE) (use Both.IH in fastforce)
next
  case (Either a b)
  from Either.prems show ?case by (rule eitherE) (use Either.IH in auto)
next
  case (Star a)
  then show ?case using greedy_complete [of a "Star a" m t "length (m @ t)"] by simp
next
  case (Lazy a)
  then show ?case using lazy_complete [of a "Lazy a" m t "length (m @ t)"] by simp
qed

lemma rests_iff: "t \<in> set (rests r s) \<longleftrightarrow> (\<exists>m. s = m @ t \<and> matches r m t)"
  using rests_sound rests_complete by blast

lemma at_start_iff: "at_start r s \<longleftrightarrow> (\<exists>m t. s = m @ t \<and> matches r m t)"
proof -
  have "at_start r s \<longleftrightarrow> (\<exists>t. t \<in> set (rests r s))" by (cases "rests r s") (auto simp: at_start_def)
  then show ?thesis unfolding rests_iff by blast
qed

lemma found_iff: "found r s \<longleftrightarrow> (\<exists>p m t. s = p @ m @ t \<and> matches r m t)"
proof (induction s)
  case Nil
  show ?case by (simp add: at_start_iff)
next
  case (Cons c s)
  have "(\<exists>p m t. c # s = p @ m @ t \<and> matches r m t) \<longleftrightarrow>
      (\<exists>m t. c # s = m @ t \<and> matches r m t) \<or> (\<exists>p m t. s = p @ m @ t \<and> matches r m t)" (is "?l \<longleftrightarrow> ?a \<or> ?b")
  proof
    assume ?l
    then obtain p m t where p: "c # s = p @ m @ t" "matches r m t" by blast
    then show "?a \<or> ?b" by (cases p) auto
  next
    assume "?a \<or> ?b"
    then show ?l by (metis append_Cons append_Nil)
  qed
  then show ?case by (simp only: found.simps at_start_iff Cons.IH)
qed

text \<open>A pattern that is read at the start of a text finds no part of the text it does not touch.\<close>

lemma exactly_rests: "rests (exactly w) s = (if take (length w) s = w then [drop (length w) s] else [])"
  by (induction w arbitrary: s) (auto simp: exactly_def seq_def nothing_def split: list.splits)

end
