(* ===== verification/Paths.thy ===== *)
theory Paths
  imports Prelude
begin

text \<open>
  File-system paths (\<open>src/utils/path.ts\<close>). The library \<open>pathe\<close> (\<open>normalize\<close>,
  \<open>basename\<close>, \<open>dirname\<close>) and the Unicode tables of \<open>toLowerCase\<close> are the fields of
  \<open>path_env\<close>; the regular expressions are written out.
\<close>

record path_env =
  pa_normalize :: "ustr \<Rightarrow> ustr"
  pa_basename :: "ustr \<Rightarrow> ustr"
  pa_dirname :: "ustr \<Rightarrow> ustr"
  pa_lower :: "ustr \<Rightarrow> ustr"

record normalize_options =
  no_collapse :: bool
  no_trim :: bool
  no_foldCase :: "bool option"

definition default_normalize :: normalize_options where
  "default_normalize = \<lparr>no_collapse = False, no_trim = False, no_foldCase = None\<rparr>"

definition trimming :: normalize_options where
  "trimming = \<lparr>no_collapse = False, no_trim = True, no_foldCase = None\<rparr>"

definition comparing :: normalize_options where
  "comparing = \<lparr>no_collapse = True, no_trim = True, no_foldCase = None\<rparr>"

section \<open>Patterns\<close>

definition is_slash :: "nat \<Rightarrow> bool" where
  "is_slash c \<longleftrightarrow> c = 47 \<or> c = 92"

definition is_letter :: "nat \<Rightarrow> bool" where
  "is_letter c \<longleftrightarrow> (65 \<le> c \<and> c \<le> 90) \<or> (97 \<le> c \<and> c \<le> 122)"

fun windows_path :: "ustr \<Rightarrow> bool" where
  "windows_path (c # d # e # _) \<longleftrightarrow> is_letter c \<and> d = 58 \<and> e = 47"
| "windows_path _ \<longleftrightarrow> False"

fun unc_path :: "ustr \<Rightarrow> bool" where
  "unc_path (c # d # _) \<longleftrightarrow> c = 47 \<and> d = 47"
| "unc_path _ \<longleftrightarrow> False"

fun windows_display_path :: "ustr \<Rightarrow> bool" where
  "windows_display_path (c # d # e # _) \<longleftrightarrow>
     (is_letter c \<and> d = 58 \<and> is_slash e) \<or> (is_slash c \<and> is_slash d \<and> \<not> is_slash e)"
| "windows_display_path _ \<longleftrightarrow> False"

definition absolute_posix_path :: "ustr \<Rightarrow> bool" where
  "absolute_posix_path s \<longleftrightarrow> (\<exists>t. s = 47 # t)"

lemma absolute_posix_path_code [code]:
  "absolute_posix_path s = (case s of [] \<Rightarrow> False | c # _ \<Rightarrow> c = 47)"
  by (auto simp: absolute_posix_path_def split: list.split)

definition windows_drive_root :: "ustr \<Rightarrow> bool" where
  "windows_drive_root s \<longleftrightarrow> length s = 3 \<and> windows_path s"

text \<open>\<open>//host/share\<close>, perhaps with one more slash: split the rest at its slashes.\<close>

definition unc_share_root :: "ustr \<Rightarrow> bool" where
  "unc_share_root s \<longleftrightarrow> unc_path s \<and>
     (let rest = drop 2 s; host = takeWhile (\<lambda>c. c \<noteq> 47) rest;
          after = drop (length host) rest;
          share = takeWhile (\<lambda>c. c \<noteq> 47) (tl after);
          end_part = drop (length share) (tl after)
      in host \<noteq> [] \<and> after \<noteq> [] \<and> share \<noteq> [] \<and> (end_part = [] \<or> end_part = [47]))"

definition is_unc_word :: "ustr \<Rightarrow> bool" where
  "is_unc_word s \<longleftrightarrow> length s = 3 \<and> map (\<lambda>c. if 97 \<le> c then c - 32 else c) s = lit ''UNC'' \<and>
     list_all is_letter s"

definition stripWindowsVerbatimPrefix :: "ustr \<Rightarrow> ustr" where
  "stripWindowsVerbatimPrefix s =
     (case s of
        a # b # q # d # rest \<Rightarrow>
          (if is_slash a \<and> b = a \<and> q = 63 \<and> is_slash d
           then (if is_unc_word (take 3 rest) \<and> drop 3 rest \<noteq> [] \<and> is_slash (rest ! 3)
                 then a # a # drop 4 rest
                 else rest)
           else s)
      | _ \<Rightarrow> s)"

text \<open>\<open>replace(/\/+/g, '/')\<close>\<close>

fun squeeze_slashes :: "ustr \<Rightarrow> ustr" where
  "squeeze_slashes [] = []"
| "squeeze_slashes [c] = [c]"
| "squeeze_slashes (c # d # s) =
     (if c = 47 \<and> d = 47 then squeeze_slashes (d # s) else c # squeeze_slashes (d # s))"

definition collapseDuplicateSeparators :: "ustr \<Rightarrow> ustr" where
  "collapseDuplicateSeparators s =
     (if unc_path s then [47, 47] @ squeeze_slashes (drop 2 s) else squeeze_slashes s)"

definition isWindowsStylePath :: "ustr \<Rightarrow> bool" where
  "isWindowsStylePath s \<longleftrightarrow> windows_path s \<or> unc_path s"

definition isAbsoluteDisplayPath :: "ustr \<Rightarrow> bool" where
  "isAbsoluteDisplayPath s \<longleftrightarrow> windows_display_path s \<or> absolute_posix_path s"

definition drop_end :: "(nat \<Rightarrow> bool) \<Rightarrow> ustr \<Rightarrow> ustr" where
  "drop_end P s = rev (dropWhile P (rev s))"

definition trimTrailingSeparator :: "ustr \<Rightarrow> ustr" where
  "trimTrailingSeparator s =
     (if s = [] \<or> s = [47] \<or> windows_drive_root s \<or> unc_share_root s then s
      else drop_end (\<lambda>c. c = 47) s)"

definition forward_slashes :: "ustr \<Rightarrow> ustr" where
  "forward_slashes s = map (\<lambda>c. if c = 92 then 47 else c) s"

section \<open>Operations\<close>

text \<open>A missing path and the empty one are both falsy; \<open>[]\<close> stands for either.\<close>

definition normalizeFileSystemPath :: "path_env \<Rightarrow> normalize_options \<Rightarrow> ustr \<Rightarrow> ustr" where
  "normalizeFileSystemPath env opts s =
     (if s = [] then []
      else (let n1 = stripWindowsVerbatimPrefix s;
                n2 = forward_slashes (pa_normalize env n1);
                n3 = stripWindowsVerbatimPrefix n2;
                n4 = (if no_collapse opts then collapseDuplicateSeparators n3 else n3);
                n5 = (if no_trim opts then trimTrailingSeparator n4 else n4);
                fold = (case no_foldCase opts of Some b \<Rightarrow> b | None \<Rightarrow> isWindowsStylePath n5)
            in if fold then pa_lower env n5 else n5))"

definition formatFileSystemPathForDisplay :: "ustr \<Rightarrow> ustr" where
  "formatFileSystemPathForDisplay s =
     (if s = [] then []
      else (let f1 = stripWindowsVerbatimPrefix s;
                f2 = stripWindowsVerbatimPrefix (forward_slashes f1)
            in if isWindowsStylePath f2
               then map (\<lambda>c. if c = 47 then 92 else c) (collapseDuplicateSeparators f2)
               else collapseDuplicateSeparators f2))"

text \<open>\<open>replace\<close> with a global pattern of fixed length: matches are found from the left and do not
  overlap.\<close>

fun replace_all :: "(ustr \<Rightarrow> bool) \<Rightarrow> nat \<Rightarrow> ustr \<Rightarrow> ustr \<Rightarrow> ustr" where
  "replace_all P n by s =
     (if s = [] then []
      else if 0 < n \<and> n \<le> length s \<and> P (take n s) then by @ replace_all P n by (drop n s)
      else hd s # replace_all P n by (tl s))"

declare replace_all.simps [simp del]

definition formatFileSystemTextForDisplay :: "ustr \<Rightarrow> ustr" where
  "formatFileSystemTextForDisplay s =
     (let unc = (\<lambda>a p. take 4 p = [a, a, 63, a] \<and> is_unc_word (take 3 (drop 4 p)) \<and> drop 7 p = [a]);
          t1 = replace_all (unc 92) 8 [92, 92] s;
          t2 = replace_all (\<lambda>p. p = [92, 92, 63, 92]) 4 [] t1;
          t3 = replace_all (unc 47) 8 [47, 47] t2
      in replace_all (\<lambda>p. p = [47, 47, 63, 47]) 4 [] t3)"

definition joinDisplayedPath :: "ustr \<Rightarrow> ustr \<Rightarrow> ustr" where
  "joinDisplayedPath prefix leaf =
     (let p = trim (formatFileSystemPathForDisplay prefix);
          l = dropWhile is_slash (trim (formatFileSystemPathForDisplay leaf))
      in if p = [] then l
         else if l = [] then p
         else if isAbsoluteDisplayPath p
           then drop_end is_slash p @ [if windows_display_path p then 92 else 47] @ l
         else p @ [32, 47, 32] @ l)"

definition areFileSystemPathsEqual :: "path_env \<Rightarrow> ustr \<Rightarrow> ustr \<Rightarrow> bool" where
  "areFileSystemPathsEqual env l r \<longleftrightarrow>
     normalizeFileSystemPath env comparing l = normalizeFileSystemPath env comparing r"

definition getPathBaseName :: "path_env \<Rightarrow> ustr \<Rightarrow> ustr" where
  "getPathBaseName env s =
     (let n = normalizeFileSystemPath env trimming s in if n = [] then [] else pa_basename env n)"

definition getRelativeFileSystemPath :: "path_env \<Rightarrow> ustr \<Rightarrow> ustr \<Rightarrow> ustr option" where
  "getRelativeFileSystemPath env full base =
     (let f = normalizeFileSystemPath env comparing full;
          r = normalizeFileSystemPath env comparing base;
          r_sep = (if r \<noteq> [] \<and> last r = 47 then r else r @ [47])
      in if f = [] \<or> r = [] then None
         else if f = r then Some []
         else if take (length r_sep) f = r_sep then Some (drop (length r_sep) f)
         else None)"

definition getPathDirectory :: "path_env \<Rightarrow> ustr \<Rightarrow> ustr" where
  "getPathDirectory env s =
     (let n = normalizeFileSystemPath env trimming s in
      if n = [] then []
      else (let d = pa_dirname env n in if d = [46] then [] else d @ [47]))"

section \<open>Display paths\<close>

text \<open>Squeezing leaves no two slashes in a row.\<close>

fun no_double_slash :: "ustr \<Rightarrow> bool" where
  "no_double_slash (c # d # s) \<longleftrightarrow> \<not> (c = 47 \<and> d = 47) \<and> no_double_slash (d # s)"
| "no_double_slash _ \<longleftrightarrow> True"

lemma hd_squeeze: "s \<noteq> [] \<Longrightarrow> \<exists>t. squeeze_slashes s = hd s # t"
  by (induction s rule: squeeze_slashes.induct) auto

lemma squeeze_no_double: "no_double_slash (squeeze_slashes s)"
proof (induction s rule: squeeze_slashes.induct)
  case (3 c d s)
  obtain t where "squeeze_slashes (d # s) = d # t" using hd_squeeze [of "d # s"] by auto
  with 3 show ?case by (cases "c = 47 \<and> d = 47") auto
qed simp_all

lemma squeeze_id: "no_double_slash s \<Longrightarrow> squeeze_slashes s = s"
  by (induction s rule: squeeze_slashes.induct) auto

definition no_backslash :: "ustr \<Rightarrow> bool" where
  "no_backslash s \<longleftrightarrow> 92 \<notin> set s"

definition backslashes :: "ustr \<Rightarrow> ustr" where
  "backslashes s = map (\<lambda>c. if c = 47 then 92 else c) s"

lemma forward_no_backslash [simp]: "no_backslash (forward_slashes s)"
  by (auto simp: no_backslash_def forward_slashes_def)

lemma forward_id: "no_backslash s \<Longrightarrow> forward_slashes s = s"
  by (induction s) (auto simp: no_backslash_def forward_slashes_def)

lemma forward_backslashes: "no_backslash s \<Longrightarrow> forward_slashes (backslashes s) = s"
  by (induction s) (auto simp: no_backslash_def forward_slashes_def backslashes_def)

lemma set_squeeze: "set (squeeze_slashes s) \<subseteq> set s"
  by (induction s rule: squeeze_slashes.induct) auto

lemma collapse_no_backslash: "no_backslash s \<Longrightarrow> no_backslash (collapseDuplicateSeparators s)"
  using set_squeeze [of s] set_squeeze [of "drop 2 s"] set_drop_subset [of 2 s]
  by (auto simp: no_backslash_def collapseDuplicateSeparators_def)

text \<open>A verbatim prefix, that is a prefix that is stripped.\<close>

definition verbatim :: "ustr \<Rightarrow> bool" where
  "verbatim s \<longleftrightarrow> (\<exists>a d rest. s = a # a # 63 # d # rest \<and> is_slash a \<and> is_slash d)"

lemma strip_not_verbatim: "\<not> verbatim s \<Longrightarrow> stripWindowsVerbatimPrefix s = s"
  by (auto simp: stripWindowsVerbatimPrefix_def verbatim_def split: list.split)

lemma strip_verbatim:
  "verbatim s \<Longrightarrow> length (stripWindowsVerbatimPrefix s) < length s"
  by (auto simp: stripWindowsVerbatimPrefix_def verbatim_def)

lemma strip_id_iff: "stripWindowsVerbatimPrefix s = s \<longleftrightarrow> \<not> verbatim s"
  using strip_verbatim [of s] strip_not_verbatim [of s] by fastforce

lemma set_strip: "set (stripWindowsVerbatimPrefix s) \<subseteq> set s"
  using set_drop_subset [of 4]
  by (auto simp: stripWindowsVerbatimPrefix_def split: list.split dest: in_set_dropD)

lemma strip_no_backslash: "no_backslash s \<Longrightarrow> no_backslash (stripWindowsVerbatimPrefix s)"
  using set_strip [of s] by (auto simp: no_backslash_def)

lemma verbatim_backslashes: "no_backslash s \<Longrightarrow> verbatim s \<Longrightarrow> verbatim (backslashes s)"
  by (auto simp: verbatim_def no_backslash_def backslashes_def is_slash_def)

lemma windows_path_slash [simp]: "\<not> windows_path (47 # s)"
  by (cases "47 # s" rule: windows_path.cases) (auto simp: is_letter_def)

lemma windows_path_squeeze: "windows_path (squeeze_slashes s) = windows_path s"
proof (cases s rule: windows_path.cases)
  case (1 c d e t)
  obtain u where "squeeze_slashes (e # t) = e # u" using hd_squeeze [of "e # t"] by auto
  with 1 show ?thesis
    by (cases "c = 47"; cases "d = 47"; cases u) (auto simp: is_letter_def split: if_splits)
qed auto

lemma windows_not_unc: "windows_path s \<Longrightarrow> \<not> unc_path s"
  by (cases s rule: windows_path.cases) (auto simp: is_letter_def)

lemma no_double_not_unc: "no_double_slash s \<Longrightarrow> \<not> unc_path s"
  by (cases s rule: unc_path.cases) auto

lemma collapse_idem:
  "windows_path s \<or> unc_path s \<Longrightarrow>
   collapseDuplicateSeparators (collapseDuplicateSeparators s) = collapseDuplicateSeparators s"
  by (auto simp: collapseDuplicateSeparators_def squeeze_id squeeze_no_double
      no_double_not_unc)

lemma collapse_windows_style:
  "isWindowsStylePath s \<Longrightarrow> isWindowsStylePath (collapseDuplicateSeparators s)"
  by (auto simp: isWindowsStylePath_def collapseDuplicateSeparators_def windows_path_squeeze)



lemma display_form:
  "let d = formatFileSystemPathForDisplay s in
     (list_all (\<lambda>c. c \<noteq> 47) d \<or> (list_all (\<lambda>c. c \<noteq> 92) d \<and> no_double_slash d)) \<and>
     (if stripWindowsVerbatimPrefix d = d then formatFileSystemPathForDisplay d = d else True)"
proof (cases "s = []")
  case False
  define f where "f = stripWindowsVerbatimPrefix (forward_slashes (stripWindowsVerbatimPrefix s))"
  have nb: "no_backslash f" by (simp add: f_def strip_no_backslash)
  note cb = collapse_no_backslash [OF nb]
  show ?thesis
  proof (cases "isWindowsStylePath f")
    case True
    define c where "c = collapseDuplicateSeparators f"
    have d: "formatFileSystemPathForDisplay s = backslashes c"
      using False True by (simp add: formatFileSystemPathForDisplay_def f_def c_def Let_def backslashes_def)
    have c: "isWindowsStylePath c" "collapseDuplicateSeparators c = c" "no_backslash c"
      using True cb collapse_windows_style collapse_idem [of f]
      by (simp_all add: c_def isWindowsStylePath_def)
    have "formatFileSystemPathForDisplay (backslashes c) = backslashes c"
      if s: "stripWindowsVerbatimPrefix (backslashes c) = backslashes c"
    proof -
      have "\<not> verbatim c" using s c(3) verbatim_backslashes by (auto simp: strip_id_iff)
      then show ?thesis
        using s c by (simp add: formatFileSystemPathForDisplay_def forward_backslashes
            strip_not_verbatim Let_def flip: backslashes_def)
    qed
    moreover have "list_all (\<lambda>c. c \<noteq> 47) (backslashes c)"
      by (auto simp: backslashes_def list_all_iff)
    ultimately show ?thesis by (simp add: d)
  next
    case posix: False
    have d: "formatFileSystemPathForDisplay s = squeeze_slashes f"
      using False posix by (auto simp: formatFileSystemPathForDisplay_def f_def Let_def
          collapseDuplicateSeparators_def isWindowsStylePath_def)
    have q: "no_double_slash (squeeze_slashes f)" "no_backslash (squeeze_slashes f)"
      "\<not> unc_path (squeeze_slashes f)" "\<not> windows_path (squeeze_slashes f)"
      using squeeze_no_double no_double_not_unc [OF squeeze_no_double] nb set_squeeze [of f] posix
      by (auto simp: no_backslash_def windows_path_squeeze isWindowsStylePath_def)
    have "\<not> verbatim (squeeze_slashes f)"
      using q(1,2) by (auto simp: verbatim_def no_backslash_def is_slash_def)
    then have "formatFileSystemPathForDisplay (squeeze_slashes f) = squeeze_slashes f"
      using q by (simp add: formatFileSystemPathForDisplay_def strip_not_verbatim forward_id Let_def
          isWindowsStylePath_def collapseDuplicateSeparators_def squeeze_id)
    moreover have "list_all (\<lambda>c. c \<noteq> 92) (squeeze_slashes f)"
      using q(2) unfolding no_backslash_def list_all_iff by blast
    ultimately show ?thesis using q(1) by (simp add: d)
  qed
qed (simp add: formatFileSystemPathForDisplay_def)

text \<open>A path formatted for display has one kind of separator only, with no separator doubled in a
  POSIX path; and formatting it again changes nothing, provided it does not begin with a verbatim
  prefix any more (it still does when three prefixes are nested in the input).\<close>

theorem displayed_path_is_stable:
  assumes "d = formatFileSystemPathForDisplay s" and "stripWindowsVerbatimPrefix d = d"
  shows "formatFileSystemPathForDisplay d = d \<and>
     (list_all (\<lambda>c. c \<noteq> 47) d \<or> (list_all (\<lambda>c. c \<noteq> 92) d \<and> no_double_slash d))"
  using display_form [of s] assms by (simp add: Let_def)

theorem displayed_path_is_stable_witness:
  "let d = formatFileSystemPathForDisplay (lit ''//?/C:/a//b'') in
     d = [67, 58, 92, 97, 92, 98] \<and> formatFileSystemPathForDisplay d = d"
proof -
  let ?d = "formatFileSystemPathForDisplay (lit ''//?/C:/a//b'')"
  have d: "?d = [67, 58, 92, 97, 92, 98]" by code_simp
  have "stripWindowsVerbatimPrefix ?d = ?d" unfolding d by code_simp
  from displayed_path_is_stable [OF refl this] d show ?thesis by (simp add: Let_def)
qed

end
