(* ===== verification/RunReport.thy ===== *)
theory RunReport
  imports RunLog Regex Paths
begin

text \<open>
  The structured report of a run (\<open>src/utils/structured-run-report.ts\<close>): the lines of terminal output
  that belong to the last run, the log entries of that run, the timeline made of both, and its
  summary. Texts are lists of UTF-16 code units, times are milliseconds. \<open>Date\<close>, the clock format and
  \<open>pathe\<close> are fields of \<open>report_env\<close>; \<open>rq_unordered\<close> is the order an engine gives to log entries when
  a date is invalid and the comparison is \<open>NaN\<close>. Divisions and the progress are computed in double
  precision, as the code does. Exit codes are below 2^53.
\<close>

section \<open>Types\<close>

datatype insight_tone = ToneNeutral | ToneSuccess | ToneWarning | ToneError | ToneRunning

datatype insight_status = StepDone | StepRunning | StepWarning | StepError

datatype insight_accent = Red | Orange | Yellow | Green | Teal | Blue

datatype detail_tone = DetailDefault | DetailSuccess | DetailWarning | DetailError | DetailMuted

record detail_line =
  de_text :: ustr
  de_tone :: detail_tone

record report_session =
  rs_pathPrefix :: ustr
  rs_fileLabel :: ustr
  rs_meta :: ustr

record status_counts =
  co_success :: nat
  co_warning :: nat
  co_error :: nat
  co_running :: nat

record report_summary =
  ru_tone :: insight_tone
  ru_statusLabel :: ustr
  ru_phaseLabel :: ustr
  ru_elapsedLabel :: ustr
  ru_progress :: int
  ru_counts :: status_counts

record internal_item =
  ii_id :: ustr
  ii_tag :: ustr
  ii_accent :: insight_accent
  ii_title :: ustr
  ii_description :: ustr
  ii_status :: insight_status
  ii_timestamp :: ustr
  ii_detailsLabel :: "ustr option"
  ii_details :: "detail_line list option"
  ii_createdAtMs :: "int option"

record timeline_item =
  it_id :: ustr
  it_tag :: ustr
  it_accent :: insight_accent
  it_title :: ustr
  it_description :: ustr
  it_status :: insight_status
  it_timestamp :: ustr
  it_detailsLabel :: "ustr option"
  it_details :: "detail_line list option"
  it_gapWeight :: nat

record run_report =
  rr_hasContent :: bool
  rr_session :: report_session
  rr_summary :: report_summary
  rr_timeline :: "timeline_item list"

record report_env =
  rq_paths :: path_env
  rq_time :: "ustr \<Rightarrow> int option"
  rq_clock :: "int \<Rightarrow> ustr"
  rq_now :: int
  rq_unordered :: "run_log list \<Rightarrow> run_log list"

section \<open>Double precision\<close>

fun bits :: "nat \<Rightarrow> nat" where
  "bits n = (if n = 0 then 0 else Suc (bits (n div 2)))"

declare bits.simps [simp del]

definition two_to :: "int \<Rightarrow> rat" where
  "two_to k = (if 0 \<le> k then 2 ^ nat k else 1 / 2 ^ nat (- k))"

text \<open>The nearest double to a number that is neither subnormal nor too big, ties to even.\<close>

definition half_even :: "rat \<Rightarrow> int" where
  "half_even x = (let f = \<lfloor>x\<rfloor>; r = x - of_int f in
     if r < 1 / 2 \<or> (r = 1 / 2 \<and> even f) then f else f + 1)"

definition nearest_double :: "rat \<Rightarrow> rat" where
  "nearest_double q =
     (if q \<le> 0 then q
      else
        (let (a, b) = quotient_of q;
             e0 = int (bits (nat a)) - int (bits (nat b)) - 53;
             e = (if 2 ^ 53 \<le> q / two_to e0 then e0 + 1 else e0)
         in of_int (half_even (q / two_to e)) * two_to e))"

section \<open>Patterns\<close>

definition spaces :: regex where "spaces = Star (Unit is_js_space)"

definition RUN_START_MARKER :: ustr where
  "RUN_START_MARKER = lit ''[sh-editor] Running current script...''"

definition EXIT_CODE_LINE_PATTERN :: regex where
  "EXIT_CODE_LINE_PATTERN = seq [ignoring_case (lit ''[sh-editor]''), spaces, ignoring_case (lit ''Exit code:''),
     spaces, maybe (exactly (lit ''-'')), many (Unit digit)]"

text \<open>Two-unit escapes, control sequences, and operating system commands up to a bell or a string
  terminator. The class of the first alternative, from a backslash to an underscore, has the closing
  bracket in it.\<close>

definition ANSI_PATTERN :: regex where
  "ANSI_PATTERN = seq [Unit (\<lambda>c. c = 27), any_of
     [Unit (\<lambda>c. 64 \<le> c \<and> c \<le> 90 \<or> 92 \<le> c \<and> c \<le> 95),
      seq [exactly (lit ''[''), Star (Unit (\<lambda>c. 48 \<le> c \<and> c \<le> 63)), Star (Unit (\<lambda>c. 32 \<le> c \<and> c \<le> 47)),
        Unit (\<lambda>c. 64 \<le> c \<and> c \<le> 126)],
      seq [exactly (lit '']''), Lazy (Unit (\<lambda>c. True)),
        any_of [Unit (\<lambda>c. c = 7), exactly [27, 92]]]]]"

definition step_brackets :: regex where
  "step_brackets = any_of
     [seq [exactly (lit ''[''), spaces, ignoring_case (lit ''step''), spaces, exactly (lit '']'')],
      seq [exactly (lit ''[''), spaces, many (Unit digit), exactly (lit ''/''), many (Unit digit), spaces, exactly (lit '']'')]]"

definition STEP_LINE_PATTERN :: regex where
  "STEP_LINE_PATTERN = any_of [step_brackets, seq [ignoring_case (lit ''step''), spaces, many (Unit digit)],
     exactly (lit ''==>''), exactly (lit ''->'')]"

definition name_unit :: "nat \<Rightarrow> bool" where "name_unit c \<longleftrightarrow> word_unit c \<or> c = 46 \<or> c = 45"

definition prompt :: regex where
  "prompt = seq [many (Unit name_unit), exactly (lit ''@''), many (Unit name_unit), exactly (lit '':''), Star (Unit dot),
     Unit (\<lambda>c. c = 36 \<or> c = 35)]"

definition COMMAND_PROMPT_PATTERN :: regex where
  "COMMAND_PROMPT_PATTERN = seq [prompt, many (Unit is_js_space)]"

definition PROMPT_ONLY_PATTERN :: regex where
  "PROMPT_ONLY_PATTERN = seq [prompt, spaces, at_end]"

definition CONTINUATION_PROMPT_PATTERN :: regex where
  "CONTINUATION_PROMPT_PATTERN = seq [Star (Unit name_unit), exactly (lit ''>''), spaces]"

definition HEREDOC_START_PATTERN :: regex where
  "HEREDOC_START_PATTERN = seq [ignoring_case (lit ''cat''), many (Unit is_js_space), exactly [60, 60, 39],
     ignoring_case (lit ''SH_EDITOR_EOF_''), many (Unit digit), exactly [39]]"

definition HEREDOC_END_PATTERN :: regex where
  "HEREDOC_END_PATTERN = seq [exactly (lit ''__SH_EDITOR_EOF_''), many (Unit digit), exactly (lit ''__''), at_end]"

definition TEMP_SCRIPT_PATTERN :: regex where
  "TEMP_SCRIPT_PATTERN = seq [ignoring_case (lit ''/tmp/''), many (Unit name_unit), ignoring_case (lit ''.tmp.sh'')]"

definition INTERNAL_SCRIPT_PATTERN :: regex where
  "INTERNAL_SCRIPT_PATTERN = any_of [ignoring_case (lit ''__sh_editor_status''),
     seq [ignoring_case (lit ''unset''), many (Unit is_js_space), ignoring_case (lit ''__sh_editor_status'')]]"

definition words :: "ustr list \<Rightarrow> regex" where "words ws = any_of (map ignoring_case ws)"

definition WARNING_PATTERN :: regex where
  "WARNING_PATTERN = words [lit ''warning'', lit ''warn'', lit ''deprecated'', [27880, 24847], [25552, 37266]]"

definition ERROR_PATTERN :: regex where
  "ERROR_PATTERN = words [lit ''error'', lit ''failed'', lit ''failure'', lit ''denied'', lit ''not found'',
     lit ''no such file'', lit ''syntax'', lit ''traceback'', lit ''exception'', [26410, 25214, 21040], [22833, 36133], [38169, 35823], [24322, 24120]]"

definition no_word_follows :: regex where
  "no_word_follows = Look (\<lambda>s. case s of c # _ \<Rightarrow> \<not> word_unit c | [] \<Rightarrow> True)"

definition success_start :: regex where
  "success_start = any_of [exactly [10003], exactly [10004], seq [ignoring_case (lit ''ok''), no_word_follows],
     seq [ignoring_case (lit ''success''), no_word_follows], exactly [23436, 25104], exactly [24050, 23436, 25104]]"

definition muted_start :: regex where
  "muted_start = any_of [exactly (lit ''$''), ignoring_case (lit ''[sh-editor]''),
     seq [exactly (lit ''#''), many (Unit is_js_space), words [lit ''stdout'', lit ''stderr'']]]"

definition step_words :: regex where
  "step_words = words [lit ''checking'', lit ''build'', lit ''deploy'', lit ''upload'', lit ''sync'', lit ''compile'',
     lit ''install'', lit ''test'', lit ''lint'', lit ''done'', [23436, 25104], [24320, 22987], [25191, 34892], [26657, 39564], [37096, 32626],
     lit ''error'', lit ''fail'', lit ''hello'']"

definition title_prefix :: regex where
  "title_prefix = seq [any_of [step_brackets,
       seq [ignoring_case (lit ''step''), spaces, many (Unit digit), spaces,
         maybe (Unit (\<lambda>c. c = 58 \<or> c = 0xFF1A \<or> c = 46 \<or> c = 45))],
       exactly (lit ''==>''), exactly (lit ''->'')], spaces]"

section \<open>Texts and times\<close>

definition stripAnsi :: "ustr \<Rightarrow> ustr" where
  "stripAnsi s = replace_matches ANSI_PATTERN [] s"

definition normalizeOutput :: "ustr \<Rightarrow> ustr" where
  "normalizeOutput s =
     trim (replace_matches (seq [exactly [10, 10, 10], Star (Unit (\<lambda>c. c = 10))]) [10, 10]
       (replace_matches (exactly [13]) [10] (replace_matches (exactly [13, 10]) [10] (stripAnsi s))))"

text \<open>The captured group is the sign and the digits the match ends with.\<close>

definition captured_number :: "ustr \<Rightarrow> int" where
  "captured_number m =
     (let ds = rev (takeWhile digit (rev m)); before = take (length m - length ds) m;
          n = int (foldl (\<lambda>n c. 10 * n + (c - 48)) 0 ds)
      in if before \<noteq> [] \<and> last before = 45 then - n else n)"

definition parseExitCodeFromOutput :: "ustr \<Rightarrow> int option" where
  "parseExitCodeFromOutput s = map_option (captured_number \<circ> fst) (first_match EXIT_CODE_LINE_PATTERN s)"

definition sortLogsAscending :: "report_env \<Rightarrow> run_log list \<Rightarrow> run_log list" where
  "sortLogsAscending env logs =
     (if list_all (\<lambda>x. rq_time env (lg_createdAt x) \<noteq> None) logs
      then sort_key (\<lambda>x. the (rq_time env (lg_createdAt x))) logs
      else rq_unordered env logs)"

definition parseTimestamp :: "report_env \<Rightarrow> ustr option \<Rightarrow> int option" where
  "parseTimestamp env v = (case v of None \<Rightarrow> None | Some t \<Rightarrow> if t = [] then None else rq_time env t)"

definition formatTime :: "report_env \<Rightarrow> ustr \<Rightarrow> ustr" where
  "formatTime env v = (case rq_time env v of Some t \<Rightarrow> rq_clock env t | None \<Rightarrow> v)"

definition pad_zero :: "nat \<Rightarrow> ustr \<Rightarrow> ustr" where
  "pad_zero n s = replicate (n - length s) 48 @ s"

text \<open>\<open>toFixed(1)\<close> of a number that is not negative.\<close>

definition to_fixed1 :: "rat \<Rightarrow> ustr" where
  "to_fixed1 x = (let n = nat \<lfloor>10 * x + 1 / 2\<rfloor> in lit (show_nat (n div 10) @ ''.'' @ show_nat (n mod 10)))"

definition formatElapsed :: "int option \<Rightarrow> ustr" where
  "formatElapsed durationMs =
     (case durationMs of
        None \<Rightarrow> [8212]
      | Some d \<Rightarrow>
          (if d < 0 then [8212]
           else
             (let totalSeconds = nearest_double (of_int d / 1000);
                  minutes = \<lfloor>nearest_double (totalSeconds / 60)\<rfloor>;
                  seconds = pad_zero 4 (to_fixed1 (totalSeconds - 60 * of_int \<lfloor>totalSeconds / 60\<rfloor>))
              in pad_zero 2 (show_int minutes) @ lit '':'' @ seconds @ lit ''s'')))"

definition resolveTimelineStatus :: "ustr \<Rightarrow> insight_status" where
  "resolveTimelineStatus s =
     (if found ERROR_PATTERN s then StepError else if found WARNING_PATTERN s then StepWarning else StepDone)"

definition resolveDetailTone :: "ustr \<Rightarrow> detail_tone" where
  "resolveDetailTone s =
     (if found ERROR_PATTERN s then DetailError
      else if found WARNING_PATTERN s then DetailWarning
      else if at_start success_start s then DetailSuccess
      else if at_start muted_start s then DetailMuted
      else DetailDefault)"

definition last_n :: "nat \<Rightarrow> 'a list \<Rightarrow> 'a list" where
  "last_n n xs = drop (length xs - n) xs"

definition buildDetailLines :: "ustr list \<Rightarrow> detail_line list" where
  "buildDetailLines ls =
     map (\<lambda>l. \<lparr>de_text = l, de_tone = resolveDetailTone l\<rparr>)
       (last_n 8 (filter (\<lambda>l. l \<noteq> []) (map (\<lambda>l. trim (formatFileSystemTextForDisplay l)) ls)))"

section \<open>The session\<close>

fun split_at :: "nat \<Rightarrow> ustr \<Rightarrow> ustr list" where
  "split_at sep [] = [[]]"
| "split_at sep (c # s) =
     (if c = sep then [] # split_at sep s
      else case split_at sep s of l # ls \<Rightarrow> (c # l) # ls | [] \<Rightarrow> [[c]])"

fun join_by :: "ustr \<Rightarrow> ustr list \<Rightarrow> ustr" where
  "join_by sep [] = []"
| "join_by sep [l] = l"
| "join_by sep (l # ls) = l @ sep @ join_by sep ls"

definition drop_exe :: "ustr \<Rightarrow> ustr" where
  "drop_exe s = (let n = length s - 4 in
     if 4 \<le> length s \<and> at_start (ignoring_case (lit ''.exe'')) (drop n s) then take n s else s)"

definition resolveShellName :: "ustr option \<Rightarrow> ustr option" where
  "resolveShellName commandLine =
     (case commandLine of
        None \<Rightarrow> None
      | Some c \<Rightarrow>
          (let firstToken = takeWhile (\<lambda>x. \<not> is_js_space x) (trim c) in
           if c = [] \<or> firstToken = [] then None
           else Some (drop_exe (last (split_at 47 firstToken)))))"

definition last_with :: "('a \<Rightarrow> bool) \<Rightarrow> 'a list \<Rightarrow> 'a option" where
  "last_with P xs = find P (rev xs)"

definition resolveCommandLine :: "run_result option \<Rightarrow> run_log list \<Rightarrow> ustr option" where
  "resolveCommandLine result logs =
     (case result of
        Some r \<Rightarrow> (if res_commandLine r \<noteq> [] then Some (res_commandLine r)
                  else map_option lg_detail (last_with isTerminalRunDispatchedLog logs))
      | None \<Rightarrow> map_option lg_detail (last_with isTerminalRunDispatchedLog logs))"

definition non_empty_or :: "ustr \<Rightarrow> ustr \<Rightarrow> ustr" where
  "non_empty_or s t = (if s \<noteq> [] then s else t)"

definition resolveSession ::
    "report_env \<Rightarrow> ustr \<Rightarrow> ustr option \<Rightarrow> ustr option \<Rightarrow> run_result option \<Rightarrow> run_log list \<Rightarrow> report_session" where
  "resolveSession env documentName documentPath workspaceRootPath result logs =
     (let leaf = (\<lambda>p. case p of Some q \<Rightarrow> getPathBaseName (rq_paths env) q | None \<Rightarrow> []);
          workspaceLabel = non_empty_or (leaf workspaceRootPath) [26410, 25171, 24320, 24037, 20316, 21306];
          fallback = non_empty_or (trim documentName) (non_empty_or (leaf documentPath) [26410, 36873, 25321, 25991, 20214]);
          relative = getRelativeFileSystemPath (rq_paths env) (orElse documentPath []) (orElse workspaceRootPath []);
          segments = (case relative of
              Some p \<Rightarrow> (if p = [] then [] else filter (\<lambda>x. x \<noteq> []) (split_at 47 p)) | None \<Rightarrow> []);
          shown = (if segments = [] then [fallback] else butlast segments @ [fallback]);
          label = (case result of Some r \<Rightarrow> res_executorLabel r | None \<Rightarrow> lit ''WSL'');
          shell = orElse (resolveShellName (resolveCommandLine result logs)) (lit ''terminal'')
      in \<lparr>rs_pathPrefix = join_by (lit '' / '') (workspaceLabel # butlast shown),
          rs_fileLabel = last shown,
          rs_meta = label @ [32, 183, 32] @ shell\<rparr>)"

section \<open>The logs of one run\<close>

definition non_empty_id :: "ustr option \<Rightarrow> ustr option" where
  "non_empty_id r = (if r = Some [] then None else r)"

definition resolveTargetRunId :: "run_result option \<Rightarrow> run_log list \<Rightarrow> ustr option" where
  "resolveTargetRunId result flow =
     (case (case result of Some r \<Rightarrow> non_empty_id (res_runId r) | None \<Rightarrow> None) of
        Some r \<Rightarrow> Some r
      | None \<Rightarrow>
          (case last_with (\<lambda>x. non_empty_id (lg_runId x) \<noteq> None) flow of
             Some x \<Rightarrow> lg_runId x | None \<Rightarrow> None))"

text \<open>What is behind the last element with a property, that element included.\<close>

fun from_last :: "('a \<Rightarrow> bool) \<Rightarrow> 'a list \<Rightarrow> 'a list option" where
  "from_last P [] = None"
| "from_last P (x # xs) = (case from_last P xs of Some ys \<Rightarrow> Some ys | None \<Rightarrow> if P x then Some (x # xs) else None)"

definition resolveScopedRunLogs :: "run_log list \<Rightarrow> run_log list \<Rightarrow> run_result option \<Rightarrow> run_log list" where
  "resolveScopedRunLogs ordered flow result =
     (if flow = [] then []
      else
        (let by_id = (case resolveTargetRunId result flow of
               Some r \<Rightarrow> filter (\<lambda>x. lg_runId x = Some r) flow | None \<Rightarrow> [])
         in if by_id \<noteq> [] then by_id
            else
              (case nullish (from_last isTerminalRunStartLog ordered)
                      (from_last isTerminalRunDispatchedLog ordered) of
                 None \<Rightarrow> last_n 6 flow
               | Some rest \<Rightarrow>
                   (let scoped = filter isTerminalRunFlowLog rest in
                    if scoped \<noteq> [] then scoped else last_n 6 flow))))"

section \<open>The output of the last run\<close>

definition has_text :: "ustr \<Rightarrow> ustr \<Rightarrow> bool" where
  "has_text w s = found (exactly w) s"

definition starts_by :: "ustr \<Rightarrow> ustr \<Rightarrow> bool" where
  "starts_by w s \<longleftrightarrow> take (length w) s = w"

definition extractCanonicalLine :: "ustr \<Rightarrow> ustr" where
  "extractCanonicalLine line =
     (if has_text RUN_START_MARKER line then RUN_START_MARKER
      else case first_match EXIT_CODE_LINE_PATTERN line of Some (m, _) \<Rightarrow> m | None \<Rightarrow> line)"

text \<open>Whether a line is skipped, and whether the next one is inside a here-document.\<close>

definition shouldSkipLine :: "ustr \<Rightarrow> bool \<Rightarrow> bool \<times> bool" where
  "shouldSkipLine line inHeredoc =
     (if inHeredoc then (True, \<not> at_start HEREDOC_END_PATTERN line)
      else if found HEREDOC_START_PATTERN line then (True, True)
      else if starts_by (lit ''# stdout'') line \<or> starts_by (lit ''# stderr'') line then (True, False)
      else if at_start HEREDOC_END_PATTERN line then (True, False)
      else if has_text (lit ''SH_EDITOR_EOF_'') line then (True, False)
      else if found TEMP_SCRIPT_PATTERN line \<or> found INTERNAL_SCRIPT_PATTERN line then (True, False)
      else if at_start PROMPT_ONLY_PATTERN line then (True, False)
      else if at_start COMMAND_PROMPT_PATTERN line \<and> has_text (lit ''printf'') line then (True, False)
      else if at_start COMMAND_PROMPT_PATTERN line \<and> has_text (lit ''cat <<'') line then (True, False)
      else if at_start CONTINUATION_PROMPT_PATTERN line then (True, False)
      else (False, False))"

fun sanitize :: "bool \<Rightarrow> ustr list \<Rightarrow> ustr list" where
  "sanitize inHeredoc [] = []"
| "sanitize inHeredoc (l # ls) =
     (let line = trim l in
      if line = [] then sanitize inHeredoc ls
      else if has_text RUN_START_MARKER line
      then RUN_START_MARKER # sanitize (inHeredoc \<or> found HEREDOC_START_PATTERN line) ls
      else
        (let canonical = extractCanonicalLine line in
         if found EXIT_CODE_LINE_PATTERN canonical then canonical # sanitize inHeredoc ls
         else
           (let (skip, next) = shouldSkipLine canonical inHeredoc in
            if skip then sanitize next ls else canonical # sanitize next ls)))"

definition sanitizeExecutionLines :: "ustr list \<Rightarrow> ustr list" where
  "sanitizeExecutionLines ls = sanitize False ls"

definition isMetaOutputLine :: "ustr \<Rightarrow> bool" where
  "isMetaOutputLine line \<longleftrightarrow> line = RUN_START_MARKER \<or> found EXIT_CODE_LINE_PATTERN line"

definition all_lines :: "ustr \<Rightarrow> ustr list" where
  "all_lines s = filter (\<lambda>l. l \<noteq> []) (map trim (split_at 10 s))"

definition collectExecutionOutputLines :: "ustr \<Rightarrow> ustr list" where
  "collectExecutionOutputLines terminalOutput =
     (let s = normalizeOutput terminalOutput in
      if s = [] then []
      else sanitizeExecutionLines
             (orElse (from_last (has_text RUN_START_MARKER) (all_lines s)) (all_lines s)))"

definition collectStepLines :: "ustr list \<Rightarrow> ustr list" where
  "collectStepLines ls =
     take 5 (filter (\<lambda>l. at_start STEP_LINE_PATTERN l \<or> found step_words l) (filter (\<lambda>l. \<not> isMetaOutputLine l) ls))"

definition resolveOutputTitle :: "ustr \<Rightarrow> ustr" where
  "resolveOutputTitle line =
     (let n = trim (case rests title_prefix line of t # _ \<Rightarrow> t | [] \<Rightarrow> line) in
      if n = [] then [32456, 31471, 21453, 39304]
      else if 26 < length n then take 26 n @ [8230] else n)"

section \<open>The timeline\<close>

definition unless_empty :: "'a \<Rightarrow> 'b list \<Rightarrow> 'a option" where
  "unless_empty x xs = (if xs = [] then None else Some x)"

text \<open>Tag, accent and status of a log entry.\<close>

definition log_look :: "run_log \<Rightarrow> string \<times> insight_accent \<times> insight_status" where
  "log_look x =
     (case resolveTerminalRunLogKind x of
        KindStart \<Rightarrow> (''start'', Red, StepDone)
      | KindTempFile \<Rightarrow> (''load'', Orange, StepWarning)
      | KindDispatched \<Rightarrow> (''exec'', Teal, StepDone)
      | KindCompleted \<Rightarrow> (''done'', Green, StepDone)
      | KindFailed \<Rightarrow> (''error'', Red, StepError)
      | KindTimeout \<Rightarrow> (''error'', Red, StepError)
      | KindOther \<Rightarrow>
          (if lg_level x = LogError \<or> found ERROR_PATTERN (lg_title x) then (''error'', Red, StepError)
           else if found WARNING_PATTERN (lg_title x) then (''warn'', Yellow, StepWarning)
           else (''trace'', Yellow, StepDone)))"

definition log_details :: "run_log \<Rightarrow> ustr list \<Rightarrow> detail_line list" where
  "log_details x output =
     (if isTerminalRunDispatchedLog x then buildDetailLines [lg_detail x]
      else if isTerminalRunFinalLog x then buildDetailLines (if output \<noteq> [] then output else [lg_detail x])
      else if 10 \<in> set (lg_detail x) then buildDetailLines (split_at 10 (lg_detail x))
      else [])"

definition show_command :: ustr where "show_command = [26597, 30475, 21629, 20196]"

definition show_output :: ustr where "show_output = [26597, 30475, 36755, 20986]"

definition live_now :: ustr where "live_now = [23454, 26102]"

definition buildLogTimelineItem :: "report_env \<Rightarrow> ustr list \<Rightarrow> run_log \<Rightarrow> internal_item" where
  "buildLogTimelineItem env output x =
     (let (tag, accent, status) = log_look x; details = log_details x output in
      \<lparr>ii_id = lg_id x, ii_tag = lit tag, ii_accent = accent, ii_title = lg_title x,
       ii_description = lg_detail x, ii_status = status, ii_timestamp = formatTime env (lg_createdAt x),
       ii_detailsLabel = unless_empty (if isTerminalRunDispatchedLog x then show_command else show_output) details,
       ii_details = unless_empty details details,
       ii_createdAtMs = parseTimestamp env (Some (lg_createdAt x))\<rparr>)"

definition output_item :: "bool \<Rightarrow> nat \<Rightarrow> ustr \<Rightarrow> internal_item" where
  "output_item isRunning index line =
     (let status = resolveTimelineStatus line in
      \<lparr>ii_id = lit (''output-step-'' @ show_nat index), ii_tag = lit ''check'',
       ii_accent = (if status = StepError then Red else Yellow), ii_title = resolveOutputTitle line,
       ii_description = line, ii_status = (if status = StepDone \<and> isRunning then StepRunning else status),
       ii_timestamp = live_now, ii_detailsLabel = None, ii_details = None, ii_createdAtMs = None\<rparr>)"

definition buildOutputTimelineItems :: "ustr list \<Rightarrow> bool \<Rightarrow> internal_item list" where
  "buildOutputTimelineItems output isRunning =
     (let ls = collectStepLines output in map2 (output_item isRunning) [0..<length ls] ls)"

definition result_item :: "report_env \<Rightarrow> run_result \<Rightarrow> int option \<Rightarrow> ustr list \<Rightarrow> internal_item" where
  "result_item env r fromOutput output =
     (let exitCode = nullish (res_exitCode r) fromOutput;
          details = (if output \<noteq> [] then buildDetailLines output
                     else if res_commandLine r \<noteq> [] then buildDetailLines [res_commandLine r] else [])
      in \<lparr>ii_id = lit ''synthetic-outcome-'' @ res_finishedAt r,
          ii_tag = (if res_success r then lit ''done'' else lit ''error''),
          ii_accent = (if res_success r then Green else Red),
          ii_title = TERMINAL_RUN_LOG_TITLES (if res_success r then KindCompleted else KindFailed),
          ii_description = [25191, 34892, 22120, 65306] @ res_executorLabel r @ [65292, 36864, 20986, 30721, 65306] @
            (case exitCode of Some c \<Rightarrow> show_int c | None \<Rightarrow> [26410, 30693]) @ [65292, 32791, 26102, 65306] @
            shown_number (res_durationMs r) @ lit ''ms'' @ [12290],
          ii_status = (if res_success r then StepDone else StepError),
          ii_timestamp = formatTime env (res_finishedAt r),
          ii_detailsLabel = unless_empty (if output \<noteq> [] then show_output else show_command) details,
          ii_details = unless_empty details details,
          ii_createdAtMs = parseTimestamp env (Some (res_finishedAt r))\<rparr>)"

definition exit_item :: "int \<Rightarrow> ustr list \<Rightarrow> internal_item" where
  "exit_item code output =
     \<lparr>ii_id = lit ''synthetic-outcome-'' @ show_int code,
      ii_tag = (if code = 0 then lit ''done'' else lit ''error''),
      ii_accent = (if code = 0 then Green else Red),
      ii_title = (if code = 0 then [32456, 31471, 25191, 34892, 23436, 25104] else [32456, 31471, 25191, 34892, 24322, 24120, 32467, 26463]),
      ii_description = (if code = 0 then [24050, 20174, 32456, 31471, 36755, 20986, 20013, 35782, 21035, 21040, 33050, 26412, 32467, 26463, 29366, 24577, 12290]
        else [32456, 31471, 36820, 22238, 38750, 38646, 36864, 20986, 30721, 32] @ show_int code @ [65292, 35831, 32487, 32493, 26816, 26597, 36755, 20986, 12290]),
      ii_status = (if code = 0 then StepDone else StepError),
      ii_timestamp = live_now,
      ii_detailsLabel = unless_empty show_output output,
      ii_details = unless_empty (buildDetailLines output) output,
      ii_createdAtMs = None\<rparr>"

definition buildSyntheticOutcomeItem ::
    "report_env \<Rightarrow> run_result option \<Rightarrow> int option \<Rightarrow> ustr list \<Rightarrow> internal_item option" where
  "buildSyntheticOutcomeItem env result fromOutput output =
     (case result of
        Some r \<Rightarrow> Some (result_item env r fromOutput output)
      | None \<Rightarrow> map_option (\<lambda>code. exit_item code output) fromOutput)"

definition buildRunningTimelineItem :: "ustr list \<Rightarrow> internal_item" where
  "buildRunningTimelineItem output =
     (let latest = last_with (\<lambda>l. \<not> isMetaOutputLine l) output;
          latest' = (if latest = Some [] then None else latest)
      in \<lparr>ii_id = lit ''running-now'', ii_tag = lit ''running'', ii_accent = Blue,
          ii_title = (case latest' of Some l \<Rightarrow> resolveOutputTitle l | None \<Rightarrow> [27491, 22312, 31561, 24453, 26356, 22810, 32456, 31471, 36755, 20986, 8230]),
          ii_description = (case latest' of Some l \<Rightarrow> [26368, 26032, 32456, 31471, 21453, 39304, 65306] @ l
            | None \<Rightarrow> [33050, 26412, 21629, 20196, 24050, 21457, 24448, 38598, 25104, 32456, 31471, 65292, 27491, 22312, 31561, 24453, 36864, 20986, 29366, 24577, 12290]),
          ii_status = StepRunning, ii_timestamp = live_now,
          ii_detailsLabel = unless_empty show_output output,
          ii_details = unless_empty (buildDetailLines output) output,
          ii_createdAtMs = None\<rparr>)"

definition gap_weight :: "int option \<Rightarrow> int option \<Rightarrow> nat" where
  "gap_weight a b =
     (case (a, b) of
        (Some x, Some y) \<Rightarrow> (let d = max 0 (y - x) in if 3000 \<le> d then 3 else if 1200 \<le> d then 2 else 1)
      | _ \<Rightarrow> 1)"

definition weighed :: "internal_item \<Rightarrow> nat \<Rightarrow> timeline_item" where
  "weighed x w = \<lparr>it_id = ii_id x, it_tag = ii_tag x, it_accent = ii_accent x, it_title = ii_title x,
     it_description = ii_description x, it_status = ii_status x, it_timestamp = ii_timestamp x,
     it_detailsLabel = ii_detailsLabel x, it_details = ii_details x, it_gapWeight = w\<rparr>"

fun assignGapWeights :: "internal_item list \<Rightarrow> timeline_item list" where
  "assignGapWeights [] = []"
| "assignGapWeights [x] = [weighed x 1]"
| "assignGapWeights (x # y # xs) =
     weighed x (gap_weight (ii_createdAtMs x) (ii_createdAtMs y)) # assignGapWeights (y # xs)"

text \<open>With a result, only the final entries that agree with it are kept.\<close>

definition agreeing_logs :: "run_result option \<Rightarrow> run_log list \<Rightarrow> run_log list" where
  "agreeing_logs result logs =
     (case result of
        None \<Rightarrow> logs
      | Some r \<Rightarrow> filter (\<lambda>x. \<not> isTerminalRunFinalLog x \<or>
          (if res_success r then isTerminalRunCompletedLog x
           else isTerminalRunFailedLog x \<or> isTerminalRunTimeoutLog x)) logs)"

definition internal_timeline ::
    "report_env \<Rightarrow> run_log list \<Rightarrow> ustr list \<Rightarrow> run_result option \<Rightarrow> int option \<Rightarrow> bool \<Rightarrow> internal_item list" where
  "internal_timeline env logs output result fromOutput isRunning =
     (let scoped = agreeing_logs result logs;
          item = buildLogTimelineItem env output;
          primary = map item (filter (\<lambda>x. \<not> isTerminalRunFinalLog x) scoped);
          final = map item (filter isTerminalRunFinalLog scoped);
          outcome = (case buildSyntheticOutcomeItem env result fromOutput output of
            Some x \<Rightarrow> (if final = [] then [x] else []) | None \<Rightarrow> [])
      in primary @ buildOutputTimelineItems output isRunning @ final @ outcome @
         (if isRunning then [buildRunningTimelineItem output] else []))"

definition buildTimeline ::
    "report_env \<Rightarrow> run_log list \<Rightarrow> ustr list \<Rightarrow> run_result option \<Rightarrow> int option \<Rightarrow> bool \<Rightarrow> timeline_item list" where
  "buildTimeline env logs output result fromOutput isRunning =
     assignGapWeights (internal_timeline env logs output result fromOutput isRunning)"

section \<open>The summary\<close>

definition first_or :: "'a list \<Rightarrow> 'a option" where
  "first_or xs = (case xs of x # _ \<Rightarrow> Some x | [] \<Rightarrow> None)"

text \<open>From the start to now, or to the end of the run.\<close>

definition elapsed_between :: "report_env \<Rightarrow> run_result option \<Rightarrow> run_log list \<Rightarrow> bool \<Rightarrow> int option" where
  "elapsed_between env result logs isRunning =
     (let started = nullish (parseTimestamp env (map_option res_startedAt result))
                      (parseTimestamp env (map_option lg_createdAt (first_or logs)));
          finished = nullish (parseTimestamp env (map_option res_finishedAt result))
                       (parseTimestamp env (map_option lg_createdAt (first_or (rev logs))))
      in case started of
           None \<Rightarrow> None
         | Some a \<Rightarrow> (if isRunning then Some (max 0 (rq_now env - a))
                     else map_option (\<lambda>b. max 0 (b - a)) finished))"

definition resolveElapsedMs :: "report_env \<Rightarrow> run_result option \<Rightarrow> run_log list \<Rightarrow> bool \<Rightarrow> int option" where
  "resolveElapsedMs env result logs isRunning =
     (case (case result of Some r \<Rightarrow> res_durationMs r | None \<Rightarrow> None) of
        Some d \<Rightarrow> (if 0 < d then Some d else elapsed_between env result logs isRunning)
      | None \<Rightarrow> elapsed_between env result logs isRunning)"

definition count_status :: "status_counts \<Rightarrow> timeline_item \<Rightarrow> status_counts" where
  "count_status n x =
     (case it_status x of
        StepDone \<Rightarrow> n\<lparr>co_success := co_success n + 1\<rparr>
      | StepWarning \<Rightarrow> n\<lparr>co_warning := co_warning n + 1\<rparr>
      | StepError \<Rightarrow> n\<lparr>co_error := co_error n + 1\<rparr>
      | StepRunning \<Rightarrow> n\<lparr>co_running := co_running n + 1\<rparr>)"

definition count_all :: "timeline_item list \<Rightarrow> status_counts" where
  "count_all = foldl count_status \<lparr>co_success = 0, co_warning = 0, co_error = 0, co_running = 0\<rparr>"

definition resolveSummaryTone ::
    "bool \<Rightarrow> run_result option \<Rightarrow> int option \<Rightarrow> status_counts \<Rightarrow> insight_tone" where
  "resolveSummaryTone isRunning result fromOutput n =
     (if isRunning \<or> 0 < co_running n then ToneRunning
      else case result of
        Some r \<Rightarrow> (if res_success r then ToneSuccess else ToneError)
      | None \<Rightarrow>
          (case fromOutput of
             Some c \<Rightarrow> (if c = 0 then ToneSuccess else ToneError)
           | None \<Rightarrow>
               (if 0 < co_error n then ToneError
                else if 0 < co_warning n then ToneWarning
                else if 0 < co_success n then ToneSuccess
                else ToneNeutral)))"

definition weighted_steps :: "status_counts \<Rightarrow> rat" where
  "weighted_steps n =
     nearest_double (of_nat (co_success n + co_warning n + co_error n) +
       (if 0 < co_running n then nearest_double (35 / 100) else 0))"

definition progress_of :: "nat \<Rightarrow> insight_tone \<Rightarrow> status_counts \<Rightarrow> int" where
  "progress_of steps tone n =
     (if steps = 0 then 0
      else if tone = ToneSuccess \<or> tone = ToneWarning \<or> tone = ToneError then 100
      else max 12 (min 92 \<lfloor>nearest_double (nearest_double (weighted_steps n / of_nat steps) * 100) + 1 / 2\<rfloor>))"

fun status_label :: "insight_tone \<Rightarrow> ustr" where
  "status_label ToneRunning = [36816, 34892, 20013]"
| "status_label ToneError = [25191, 34892, 24322, 24120]"
| "status_label ToneWarning = [24050, 23436, 25104]"
| "status_label ToneSuccess = [24050, 23436, 25104]"
| "status_label ToneNeutral = [24453, 25191, 34892]"

definition phase_label :: "nat \<Rightarrow> bool \<Rightarrow> ustr" where
  "phase_label steps isRunning =
     (let n = lit (show_nat steps) in
      if steps = 0 then [31561, 24453, 36816, 34892]
      else if isRunning then [31532, 32] @ n @ [32, 27493, 65292, 20849, 32] @ n @ [32, 27493]
      else [20849, 32] @ n @ [32, 27493])"

definition buildSummary ::
    "report_env \<Rightarrow> timeline_item list \<Rightarrow> run_log list \<Rightarrow> run_result option \<Rightarrow> int option \<Rightarrow> bool \<Rightarrow> report_summary" where
  "buildSummary env timeline logs result fromOutput isRunning =
     (let n = count_all timeline;
          tone = resolveSummaryTone isRunning result fromOutput n;
          steps = length timeline
      in \<lparr>ru_tone = tone, ru_statusLabel = status_label tone, ru_phaseLabel = phase_label steps isRunning,
          ru_elapsedLabel = formatElapsed (resolveElapsedMs env result logs isRunning),
          ru_progress = progress_of steps tone n, ru_counts = n\<rparr>)"

section \<open>The report\<close>

record report_options =
  op_terminalOutput :: ustr
  op_runLogs :: "run_log list"
  op_lastRunResult :: "run_result option"
  op_isRunning :: bool
  op_documentName :: ustr
  op_documentPath :: "ustr option"
  op_workspaceRootPath :: "ustr option"

definition scoped_logs :: "report_env \<Rightarrow> report_options \<Rightarrow> run_log list" where
  "scoped_logs env o' =
     (let ordered = sortLogsAscending env (op_runLogs o') in
      resolveScopedRunLogs ordered (filter isTerminalRunFlowLog ordered) (op_lastRunResult o'))"

definition exit_code_shown :: "ustr list \<Rightarrow> int option" where
  "exit_code_shown output = parseExitCodeFromOutput (join_by [10] output)"

definition buildStructuredRunReport :: "report_env \<Rightarrow> report_options \<Rightarrow> run_report" where
  "buildStructuredRunReport env o' =
     (let flow = filter isTerminalRunFlowLog (sortLogsAscending env (op_runLogs o'));
          logs = scoped_logs env o';
          output = collectExecutionOutputLines (op_terminalOutput o');
          fromOutput = exit_code_shown output;
          timeline = buildTimeline env logs output (op_lastRunResult o') fromOutput (op_isRunning o')
      in \<lparr>rr_hasContent = (logs \<noteq> [] \<or> flow \<noteq> [] \<or> output \<noteq> [] \<or> op_lastRunResult o' \<noteq> None \<or> op_isRunning o'),
          rr_session = resolveSession env (op_documentName o') (op_documentPath o') (op_workspaceRootPath o')
            (op_lastRunResult o') logs,
          rr_summary = buildSummary env timeline logs (op_lastRunResult o') fromOutput (op_isRunning o'),
          rr_timeline = timeline\<rparr>)"

section \<open>Counts and progress\<close>

lemma gap_status: "map it_status (assignGapWeights xs) = map ii_status xs"
  by (induction xs rule: assignGapWeights.induct) (simp_all add: weighed_def)

lemma gap_length [simp]: "length (assignGapWeights xs) = length xs"
  by (induction xs rule: assignGapWeights.induct) simp_all

definition with_status :: "insight_status \<Rightarrow> timeline_item list \<Rightarrow> nat" where
  "with_status st xs = length (filter (\<lambda>x. it_status x = st) xs)"

lemma count_from:
  "co_success (foldl count_status n xs) = co_success n + with_status StepDone xs \<and>
   co_warning (foldl count_status n xs) = co_warning n + with_status StepWarning xs \<and>
   co_error (foldl count_status n xs) = co_error n + with_status StepError xs \<and>
   co_running (foldl count_status n xs) = co_running n + with_status StepRunning xs"
proof (induction xs arbitrary: n)
  case (Cons x xs)
  then show ?case by (cases "it_status x") (simp_all add: with_status_def count_status_def)
qed (simp add: with_status_def)

lemma counts:
  "co_success (count_all xs) = with_status StepDone xs" "co_warning (count_all xs) = with_status StepWarning xs"
  "co_error (count_all xs) = with_status StepError xs" "co_running (count_all xs) = with_status StepRunning xs"
  using count_from [of "\<lparr>co_success = 0, co_warning = 0, co_error = 0, co_running = 0\<rparr>" xs]
  by (simp_all add: count_all_def)

lemma counts_sum:
  "with_status StepDone xs + with_status StepWarning xs + with_status StepError xs + with_status StepRunning xs = length xs"
proof (induction xs)
  case (Cons x xs)
  then show ?case by (cases "it_status x") (simp_all add: with_status_def)
qed (simp add: with_status_def)

lemma some_running: "0 < with_status st xs \<longleftrightarrow> st \<in> set (map it_status xs)"
  by (auto simp: with_status_def filter_empty_conv)

lemma log_not_running: "ii_status (buildLogTimelineItem env output x) \<noteq> StepRunning"
  by (cases "resolveTerminalRunLogKind x") (auto simp: buildLogTimelineItem_def log_look_def Let_def)

lemma output_running: "x \<in> set (buildOutputTimelineItems output isRunning) \<Longrightarrow> ii_status x = StepRunning \<Longrightarrow> isRunning"
  by (auto simp: buildOutputTimelineItems_def Let_def output_item_def resolveTimelineStatus_def in_set_zip
      split: if_splits)

lemma outcome_not_running:
  "buildSyntheticOutcomeItem env result c output = Some x \<Longrightarrow> ii_status x \<noteq> StepRunning"
  by (auto simp: buildSyntheticOutcomeItem_def result_item_def exit_item_def Let_def split: option.splits if_splits)

lemma running_item: "StepRunning \<in> ii_status ` set (internal_timeline env logs output result c isRunning) \<longleftrightarrow> isRunning"
proof -
  have "ii_status (buildRunningTimelineItem output) = StepRunning"
    by (simp add: buildRunningTimelineItem_def Let_def)
  moreover have "isRunning"
    if "x \<in> set (internal_timeline env logs output result c isRunning)" "ii_status x = StepRunning" for x
  proof (rule ccontr)
    assume not: "\<not> isRunning"
    have "ii_status x \<noteq> StepRunning"
      using that(1) not log_not_running output_running [of x "output" False] outcome_not_running [of env result c "output"]
      by (auto simp: internal_timeline_def Let_def split: option.splits if_splits)
    with that(2) show False by simp
  qed
  moreover have "buildRunningTimelineItem output \<in> set (internal_timeline env logs output result c isRunning)"
    if isRunning using that by (simp add: internal_timeline_def Let_def)
  ultimately show ?thesis by (metis image_iff)
qed

text \<open>C18: The summary fits the timeline: each of its four counts is the number of steps with that status,
  so every step is counted once; a step is running, and the tone says so, exactly while the script runs; the progress is then between 12 and 92, and
  otherwise 100, or 0 when there is nothing to show.\<close>

theorem report_summary_fits_timeline:
  "let r = buildStructuredRunReport env o'; s = rr_summary r; n = ru_counts s; steps = length (rr_timeline r) in
     co_success n = length (filter (\<lambda>x. it_status x = StepDone) (rr_timeline r)) \<and>
     co_warning n = length (filter (\<lambda>x. it_status x = StepWarning) (rr_timeline r)) \<and>
     co_error n = length (filter (\<lambda>x. it_status x = StepError) (rr_timeline r)) \<and>
     co_running n = length (filter (\<lambda>x. it_status x = StepRunning) (rr_timeline r)) \<and>
     co_success n + co_warning n + co_error n + co_running n = steps \<and>
     (0 < co_running n) = op_isRunning o' \<and>
     (ru_tone s = ToneRunning) = op_isRunning o' \<and>
     (if op_isRunning o' then 12 \<le> ru_progress s \<and> ru_progress s \<le> 92
      else ru_progress s = (if steps = 0 then 0 else 100))"
proof -
  define r where "r = buildStructuredRunReport env o'"
  define tl where "tl = rr_timeline r"
  obtain logs printed result c where tl: "tl = assignGapWeights (internal_timeline env logs printed result c (op_isRunning o'))"
    and s: "rr_summary r = buildSummary env tl logs result c (op_isRunning o')"
    by (simp add: tl_def r_def buildStructuredRunReport_def Let_def buildTimeline_def)
  have running: "0 < with_status StepRunning tl \<longleftrightarrow> op_isRunning o'"
    unfolding some_running tl gap_status using running_item by simp
  have sum: "with_status StepDone tl + with_status StepWarning tl + with_status StepError tl + with_status StepRunning tl
      = length tl" by (rule counts_sum)
  have tone: "(ru_tone (rr_summary r) = ToneRunning) = op_isRunning o'"
    using running by (simp add: s buildSummary_def Let_def resolveSummaryTone_def counts split: option.split)
  have "if op_isRunning o' then 12 \<le> ru_progress (rr_summary r) \<and> ru_progress (rr_summary r) \<le> 92
      else ru_progress (rr_summary r) = (if length tl = 0 then 0 else 100)"
    using running sum
    by (auto simp: s buildSummary_def Let_def progress_of_def resolveSummaryTone_def counts split: option.splits)
  with tone running sum show ?thesis
    unfolding r_def [symmetric] tl_def [symmetric] Let_def
    by (simp add: s buildSummary_def Let_def counts with_status_def)
qed

section \<open>Only the last run's own output\<close>

text \<open>The lines that belong to the last run: those behind the last line with the marker that a run begins,
  that line included, or all lines when no line has it.\<close>

definition begins_run :: "ustr \<Rightarrow> bool" where
  "begins_run l = has_text RUN_START_MARKER l"

definition last_run_lines :: "ustr \<Rightarrow> ustr list" where
  "last_run_lines s =
     (let ls = all_lines (normalizeOutput s);
          behind = length (takeWhile (\<lambda>l. \<not> begins_run l) (rev ls))
      in drop (length ls - behind - 1) ls)"

text \<open>A line with an exit code; a line that opens or closes a here-document; a line inside one, which is
  a line with an opening line before it and no closing line in between.\<close>

definition exit_line :: "ustr \<Rightarrow> bool" where
  "exit_line l \<longleftrightarrow> \<not> begins_run l \<and> found EXIT_CODE_LINE_PATTERN (extractCanonicalLine l)"

definition opens_heredoc :: "ustr \<Rightarrow> bool" where
  "opens_heredoc l \<longleftrightarrow> found HEREDOC_START_PATTERN (if begins_run l then l else extractCanonicalLine l) \<and> \<not> exit_line l"

definition closes_heredoc :: "ustr \<Rightarrow> bool" where
  "closes_heredoc l \<longleftrightarrow> at_start HEREDOC_END_PATTERN (extractCanonicalLine l) \<and> \<not> begins_run l \<and> \<not> exit_line l"

definition in_heredoc :: "ustr list \<Rightarrow> nat \<Rightarrow> bool" where
  "in_heredoc ls i \<longleftrightarrow> (\<exists>j < i. opens_heredoc (ls ! j) \<and> (\<forall>k. j < k \<and> k < i \<longrightarrow> \<not> closes_heredoc (ls ! k)))"

text \<open>A line of the machinery around the script: the ends of a here-document, stream headers, the temporary
  script, its status variable, an empty prompt, the prompt of a command that prints or writes a
  here-document, and a continuation prompt. The prompt of another command is no such line.\<close>

definition machinery :: "ustr \<Rightarrow> bool" where
  "machinery l \<longleftrightarrow> found HEREDOC_START_PATTERN l \<or> at_start HEREDOC_END_PATTERN l \<or>
     has_text (lit ''SH_EDITOR_EOF_'') l \<or> starts_by (lit ''# stdout'') l \<or> starts_by (lit ''# stderr'') l \<or>
     found TEMP_SCRIPT_PATTERN l \<or> found INTERNAL_SCRIPT_PATTERN l \<or> at_start PROMPT_ONLY_PATTERN l \<or>
     at_start COMMAND_PROMPT_PATTERN l \<and> (has_text (lit ''printf'') l \<or> has_text (lit ''cat <<'') l) \<or>
     at_start CONTINUATION_PROMPT_PATTERN l"

definition shown_at :: "ustr list \<Rightarrow> nat \<Rightarrow> bool" where
  "shown_at ls i \<longleftrightarrow> begins_run (ls ! i) \<or> exit_line (ls ! i) \<or>
     \<not> in_heredoc ls i \<and> \<not> machinery (extractCanonicalLine (ls ! i))"

lemma rests_head: "rests r s = u # us \<Longrightarrow> s = take (length s - length u) s @ u \<and> matches r (take (length s - length u) s) u"
  using rests_sound [of u r s] by auto

lemma first_match_part: "first_match r s = Some (m, t) \<Longrightarrow> (\<exists>p. s = p @ m @ t) \<and> matches r m t"
proof (induction s)
  case Nil
  then show ?case using rests_head [of r "[]"] by (auto simp: first_match.simps [of r "[]"] split: list.splits)
next
  case (Cons c s)
  show ?case
  proof (cases "rests r (c # s)")
    case Nil
    then have "first_match r s = Some (m, t)" using Cons.prems by (simp add: first_match.simps [of r "c # s"])
    from Cons.IH [OF this] show ?thesis by (metis append_Cons)
  next
    case rest: (Cons u us)
    have "m = take (length (c # s) - length u) (c # s)" "t = u"
      using Cons.prems rest by (auto simp: first_match.simps [of r "c # s"])
    with rests_head [OF rest] show ?thesis by (metis append_Nil)
  qed
qed

lemma exactly_matches: "matches (exactly w) m t \<longleftrightarrow> m = w"
proof
  assume "matches (exactly w) m t"
  then have "t \<in> set (rests (exactly w) (m @ t))" by (rule rests_complete)
  then have "take (length w) (m @ t) = w" "t = drop (length w) (m @ t)"
    by (auto simp: exactly_rests split: if_splits)
  then show "m = w" by (metis append_same_eq append_take_drop_id)
next
  assume "m = w"
  have "t \<in> set (rests (exactly w) (w @ t))" by (simp add: exactly_rests)
  from rests_sound [OF this] show "matches (exactly w) m t" using \<open>m = w\<close> by auto
qed

lemma has_text_iff: "has_text w s \<longleftrightarrow> (\<exists>p t. s = p @ w @ t)"
  by (simp add: has_text_def found_iff exactly_matches)

lemma canonical_marker: "\<not> has_text RUN_START_MARKER l \<Longrightarrow> extractCanonicalLine l \<noteq> RUN_START_MARKER"
proof
  assume no: "\<not> has_text RUN_START_MARKER l" and eq: "extractCanonicalLine l = RUN_START_MARKER"
  show False
  proof (cases "first_match EXIT_CODE_LINE_PATTERN l")
    case None
    then have "l = RUN_START_MARKER" using no eq by (simp add: extractCanonicalLine_def)
    then show False using no by (simp add: has_text_iff) (metis append_Nil append_Nil2)
  next
    case (Some mt)
    then obtain t where "first_match EXIT_CODE_LINE_PATTERN l = Some (RUN_START_MARKER, t)"
      using no eq by (cases mt) (auto simp: extractCanonicalLine_def)
    from first_match_part [OF this] show False using no by (auto simp: has_text_iff)
  qed
qed

lemma from_last_parts:
  "from_last P xs = Some ys \<Longrightarrow> ys \<noteq> [] \<and> P (hd ys) \<and> list_all (\<lambda>y. \<not> P y) (tl ys) \<and> (\<exists>zs. xs = zs @ ys)"
  "from_last P xs = None \<Longrightarrow> list_all (\<lambda>y. \<not> P y) xs"
proof (induction xs arbitrary: ys)
  case (Cons x xs)
  {
    case 1
    then show ?case
      using Cons.IH by (cases "from_last P xs") (auto split: if_splits intro: exI [of _ "[]"] dest: exI [of _ "x # _"])
  next
    case 2
    then show ?case using Cons.IH(2) by (auto split: option.splits if_splits)
  }
qed simp_all

text \<open>A line cannot both open and close a here-document.\<close>

lemma heredoc_start_part: "found HEREDOC_START_PATTERN l \<Longrightarrow> 60 \<in> set l"
proof -
  have "60 \<in> set m" if "matches HEREDOC_START_PATTERN m t" for m t
    using that by (auto simp: HEREDOC_START_PATTERN_def seq_def exactly_matches elim!: bothE)
  then show "found HEREDOC_START_PATTERN l \<Longrightarrow> 60 \<in> set l" by (auto simp: found_iff)
qed

lemma star_units: "matches r m t \<Longrightarrow> r = Star (Unit P) \<Longrightarrow> list_all P m"
  by (induction rule: matches.induct) (auto elim: unitE)

lemma heredoc_end_part: "at_start HEREDOC_END_PATTERN l \<Longrightarrow> 60 \<notin> set l"
proof -
  have digits: "60 \<notin> set m" if "matches (Star (Unit digit)) m t" for m t
    using star_units [OF that refl] by (auto simp: list_all_iff digit_def)
  have "60 \<notin> set m \<and> t = []" if "matches HEREDOC_END_PATTERN m t" for m t
    using that digits
    by (auto simp: HEREDOC_END_PATTERN_def seq_def many_def at_end_def nothing_def exactly_matches lit_def digit_def
        list_all_iff elim!: bothE unitE lookE)
  then show "60 \<notin> set l" if "at_start HEREDOC_END_PATTERN l" using that unfolding at_start_iff by fastforce
qed

lemma skipped_line:
  "shouldSkipLine l h = (h \<or> machinery l, found HEREDOC_START_PATTERN l \<or> h \<and> \<not> at_start HEREDOC_END_PATTERN l)"
proof (cases "at_start HEREDOC_END_PATTERN l")
  case True
  then have "\<not> found HEREDOC_START_PATTERN l" using heredoc_start_part heredoc_end_part by blast
  with True show ?thesis by (auto simp: shouldSkipLine_def machinery_def)
next
  case False
  then show ?thesis by (auto simp: shouldSkipLine_def machinery_def)
qed

lemma in_heredoc_Suc:
  "in_heredoc ls (Suc n) \<longleftrightarrow> opens_heredoc (ls ! n) \<or> in_heredoc ls n \<and> \<not> closes_heredoc (ls ! n)"
proof
  assume "in_heredoc ls (Suc n)"
  then obtain j where j: "j < Suc n" "opens_heredoc (ls ! j)" "\<And>k. j < k \<Longrightarrow> k < Suc n \<Longrightarrow> \<not> closes_heredoc (ls ! k)"
    by (auto simp: in_heredoc_def)
  then show "opens_heredoc (ls ! n) \<or> in_heredoc ls n \<and> \<not> closes_heredoc (ls ! n)"
    by (cases "j = n") (auto simp: in_heredoc_def intro!: exI [of _ j])
qed (auto simp: in_heredoc_def less_Suc_eq)

lemma sanitize_indices:
  assumes "\<And>l. l \<in> set ls \<Longrightarrow> trim l = l \<and> l \<noteq> []"
  shows "sanitize (in_heredoc (done @ ls) (length done)) ls =
    map (\<lambda>i. extractCanonicalLine ((done @ ls) ! i)) (filter (shown_at (done @ ls)) [length done..<length (done @ ls)])"
  using assms
proof (induction ls arbitrary: "done")
  case (Cons l ls)
  let ?all = "done @ l # ls" and ?n = "length done"
  have l: "trim l = l" "l \<noteq> []" using Cons.prems by simp_all
  define more where "more = map (\<lambda>i. extractCanonicalLine (?all ! i)) (filter (shown_at ?all) [Suc ?n..<length ?all])"
  have rest: "sanitize (in_heredoc ?all (Suc ?n)) ls = more"
    using Cons.IH [of "done @ [l]"] Cons.prems by (simp add: more_def)
  have "[?n..<length ?all] = ?n # [Suc ?n..<length ?all]" by (rule upt_conv_Cons) simp
  then have goal: "map (\<lambda>i. extractCanonicalLine (?all ! i)) (filter (shown_at ?all) [?n..<length ?all]) =
      (if shown_at ?all ?n then [extractCanonicalLine l] else []) @ more"
    by (simp add: more_def del: upt.simps)
  have at: "?all ! ?n = l" by simp
  note step = in_heredoc_Suc [of ?all ?n, unfolded at]
  define h where "h = in_heredoc ?all ?n"
  consider (marker) "begins_run l" | (exit) "\<not> begins_run l" "exit_line l" | (line) "\<not> begins_run l" "\<not> exit_line l" by blast
  then have "sanitize h (l # ls) = (if shown_at ?all ?n then [extractCanonicalLine l] else []) @
      sanitize (in_heredoc ?all (Suc ?n)) ls"
  proof cases
    case marker
    then show ?thesis
      using l unfolding step shown_at_def at h_def [symmetric]
      by (simp add: begins_run_def opens_heredoc_def closes_heredoc_def exit_line_def extractCanonicalLine_def
          disj_commute)
  next
    case exit
    then show ?thesis
      using l unfolding step shown_at_def at h_def [symmetric]
      by (simp add: begins_run_def opens_heredoc_def closes_heredoc_def exit_line_def)
  next
    case line
    then show ?thesis
      using l unfolding step shown_at_def at h_def [symmetric]
      by (simp add: begins_run_def opens_heredoc_def closes_heredoc_def exit_line_def skipped_line Let_def)
  qed
  then show ?case unfolding goal rest h_def .
qed simp

lemma trim_trim: "trim (trim s) = trim s"
proof -
  define u where "u = dropWhile is_js_space s"
  define v where "v = dropWhile is_js_space (rev u)"
  have v: "v = [] \<or> \<not> is_js_space (hd v)" unfolding v_def using hd_dropWhile by blast
  have u: "u = [] \<or> \<not> is_js_space (hd u)" unfolding u_def using hd_dropWhile by blast
  obtain w where "rev u = w @ v" unfolding v_def by (metis takeWhile_dropWhile_id)
  then have split: "u = rev v @ rev w" by (metis rev_append rev_rev_ident)
  have "dropWhile is_js_space (rev v) = rev v"
    using u split by (cases "rev v") auto
  moreover have "dropWhile is_js_space v = v" using v by (cases v) auto
  ultimately show ?thesis by (simp add: trim_def u_def [symmetric] v_def [symmetric])
qed

lemma tl_filtered: "set (tl (map f (filter P (x # xs)))) \<subseteq> f ` set xs"
  by (cases "filter P xs") (auto dest: filter_eq_ConsD)

lemma from_last_drop:
  "orElse (from_last P xs) xs = drop (length xs - length (takeWhile (\<lambda>x. \<not> P x) (rev xs)) - 1) xs"
proof (cases "from_last P xs")
  case None
  have "takeWhile (\<lambda>x. \<not> P x) (rev xs) = rev xs"
    using from_last_parts(2) [OF None] by (simp add: list_all_iff)
  then show ?thesis using None by (simp add: orElse_def del: takeWhile_eq_all_conv)
next
  case (Some ys)
  then obtain y us zs where parts: "ys = y # us" "P y" "\<forall>u \<in> set us. \<not> P u" "xs = zs @ ys"
    using from_last_parts(1) [OF Some] by (cases ys) (auto simp: list_all_iff)
  then have "takeWhile (\<lambda>x. \<not> P x) (rev xs) = rev us" by (simp, subst takeWhile_append2) auto
  then show ?thesis using Some parts by (simp add: orElse_def)
qed

text \<open>C17: The output shown is exactly what the last run has printed and no machinery: of the lines behind
  the last marker, that line included (all lines when there is no marker), it has, in their order
  and as often as they occur, the marker, the lines with an exit code, and every other line that is
  neither inside a here-document nor a line of the machinery around the script. So the marker is at
  most its first line.\<close>

theorem report_output_is_the_last_runs:
  "let ls = last_run_lines s; shown = collectExecutionOutputLines s in
     shown = map (\<lambda>i. extractCanonicalLine (ls ! i)) (filter (shown_at ls) [0..<length ls]) \<and>
     RUN_START_MARKER \<notin> set (tl shown)"
proof -
  let ?all = "all_lines (normalizeOutput s)" and ?ls = "last_run_lines s"
  have ls: "?ls = orElse (from_last (has_text RUN_START_MARKER) ?all) ?all"
    by (simp add: last_run_lines_def Let_def from_last_drop begins_run_def)
  have "set ?ls \<subseteq> set ?all" by (simp add: last_run_lines_def Let_def set_drop_subset)
  then have trimmed: "trim l = l \<and> l \<noteq> []" if "l \<in> set ?ls" for l
    using that trim_trim by (auto simp: all_lines_def)
  have "all_lines [] = []" by (simp add: all_lines_def trim_def)
  then have "collectExecutionOutputLines s = sanitize False ?ls"
    by (auto simp: ls collectExecutionOutputLines_def sanitizeExecutionLines_def Let_def orElse_def)
  then have shown: "collectExecutionOutputLines s =
      map (\<lambda>i. extractCanonicalLine (?ls ! i)) (filter (shown_at ?ls) [0..<length ?ls])"
    using sanitize_indices [of ?ls "[]"] trimmed by (simp add: in_heredoc_def)
  have first: "\<not> has_text RUN_START_MARKER l" if "l \<in> set (tl ?ls)" for l
  proof (cases "from_last (has_text RUN_START_MARKER) ?all")
    case None
    then show ?thesis using from_last_parts(2) [OF None] that list.set_sel(2) [of ?ls l]
      by (cases ?ls) (auto simp: ls list_all_iff orElse_def)
  next
    case (Some ys)
    then show ?thesis using from_last_parts(1) [OF Some] that by (simp add: ls list_all_iff orElse_def)
  qed
  have "RUN_START_MARKER \<notin> set (tl (collectExecutionOutputLines s))"
  proof (cases ?ls)
    case Nil
    then show ?thesis by (simp add: shown)
  next
    case (Cons y zs)
    have range: "[0..<length ?ls] = 0 # [Suc 0..<length ?ls]" by (rule upt_conv_Cons) (simp add: Cons)
    have "set (tl (collectExecutionOutputLines s)) \<subseteq> (\<lambda>i. extractCanonicalLine (?ls ! i)) ` set [Suc 0..<length ?ls]"
      unfolding shown range by (rule tl_filtered)
    also have "\<dots> \<subseteq> extractCanonicalLine ` set zs" by (auto simp: Cons nth_Cons')
    finally have "set (tl (collectExecutionOutputLines s)) \<subseteq> extractCanonicalLine ` set zs" .
    then show ?thesis using first canonical_marker by (fastforce simp: Cons)
  qed
  with shown show ?thesis by (simp add: Let_def)
qed

section \<open>The logs of one run\<close>

lemma scoped_logs_run:
  assumes "op_lastRunResult o' = Some r" and "res_runId r = Some i" and "i \<noteq> []"
    and "x \<in> set (op_runLogs o')" and "isTerminalRunFlowLog x" and "lg_runId x = Some i"
    and "list_all (\<lambda>x. rq_time env (lg_createdAt x) \<noteq> None) (op_runLogs o')"
  shows "scoped_logs env o' =
      sort_key (\<lambda>x. the (rq_time env (lg_createdAt x)))
        (filter (\<lambda>x. lg_runId x = Some i \<and> isTerminalRunFlowLog x) (op_runLogs o'))"
proof -
  let ?key = "\<lambda>x. the (rq_time env (lg_createdAt x))"
  have sorted: "sortLogsAscending env (op_runLogs o') = sort_key ?key (op_runLogs o')"
    using assms(7) by (simp add: sortLogsAscending_def)
  have target: "resolveTargetRunId (op_lastRunResult o') flow = Some i" for flow
    using assms(1-3) by (simp add: resolveTargetRunId_def non_empty_id_def)
  have mine: "filter (\<lambda>x. lg_runId x = Some i) (filter isTerminalRunFlowLog (sort_key ?key (op_runLogs o'))) =
      sort_key ?key (filter (\<lambda>x. lg_runId x = Some i \<and> isTerminalRunFlowLog x) (op_runLogs o'))"
    by (simp add: filter_sort conj_commute)
  have x: "x \<in> set (filter isTerminalRunFlowLog (sort_key ?key (op_runLogs o')))"
    using assms(4,5) by simp
  then have "x \<in> set (filter (\<lambda>x. lg_runId x = Some i) (filter isTerminalRunFlowLog (sort_key ?key (op_runLogs o'))))"
    using assms(6) by simp
  then have "filter (\<lambda>x. lg_runId x = Some i) (filter isTerminalRunFlowLog (sort_key ?key (op_runLogs o'))) \<noteq> []"
    "filter isTerminalRunFlowLog (sort_key ?key (op_runLogs o')) \<noteq> []"
    using x by (metis empty_iff empty_set)+
  then have "scoped_logs env o' =
      filter (\<lambda>x. lg_runId x = Some i) (filter isTerminalRunFlowLog (sort_key ?key (op_runLogs o')))"
    by (simp add: scoped_logs_def Let_def resolveScopedRunLogs_def sorted target del: filter_filter)
  then show ?thesis by (simp only: mine)
qed

text \<open>What a step says: its identifier, its title and its text.\<close>

definition item_text :: "internal_item \<Rightarrow> ustr \<times> ustr \<times> ustr" where
  "item_text x = (ii_id x, ii_title x, ii_description x)"

definition step_text :: "timeline_item \<Rightarrow> ustr \<times> ustr \<times> ustr" where
  "step_text x = (it_id x, it_title x, it_description x)"

definition log_text :: "run_log \<Rightarrow> ustr \<times> ustr \<times> ustr" where
  "log_text x = (lg_id x, lg_title x, lg_detail x)"

definition output_text :: "nat \<Rightarrow> ustr \<Rightarrow> ustr \<times> ustr \<times> ustr" where
  "output_text k l = (lit (''output-step-'' @ show_nat k), resolveOutputTitle l, l)"

text \<open>The entry a run ends with agrees with its result.\<close>

definition agrees :: "run_result \<Rightarrow> run_log \<Rightarrow> bool" where
  "agrees r x \<longleftrightarrow> (if res_success r then isTerminalRunCompletedLog x
     else isTerminalRunFailedLog x \<or> isTerminalRunTimeoutLog x)"

lemma gap_text: "map step_text (assignGapWeights xs) = map item_text xs"
  by (induction xs rule: assignGapWeights.induct) (simp_all add: weighed_def step_text_def item_text_def)

lemma log_item_text: "item_text (buildLogTimelineItem env out x) = log_text x"
  by (simp add: item_text_def log_text_def buildLogTimelineItem_def Let_def split: prod.split)

lemma output_item_text: "item_text (output_item b k l) = output_text k l"
  by (simp add: item_text_def output_text_def output_item_def Let_def)

lemma timeline_text:
  "map item_text (internal_timeline env logs out (Some r) code running) =
     map log_text (filter (\<lambda>x. \<not> isTerminalRunFinalLog x) logs) @
     map2 output_text [0..<length (collectStepLines out)] (collectStepLines out) @
     map log_text (filter (\<lambda>x. isTerminalRunFinalLog x \<and> agrees r x) logs) @
     (if filter (\<lambda>x. isTerminalRunFinalLog x \<and> agrees r x) logs = [] then [item_text (result_item env r code out)] else []) @
     (if running then [item_text (buildRunningTimelineItem out)] else [])"
proof -
  have agreeing: "agreeing_logs (Some r) logs = filter (\<lambda>x. isTerminalRunFinalLog x \<longrightarrow> agrees r x) logs"
    by (auto simp: agreeing_logs_def agrees_def intro!: filter_cong)
  have split: "filter (\<lambda>x. \<not> isTerminalRunFinalLog x \<and> (isTerminalRunFinalLog x \<longrightarrow> agrees r x)) logs =
      filter (\<lambda>x. \<not> isTerminalRunFinalLog x) logs"
    "filter (\<lambda>x. isTerminalRunFinalLog x \<and> (isTerminalRunFinalLog x \<longrightarrow> agrees r x)) logs =
      filter (\<lambda>x. isTerminalRunFinalLog x \<and> agrees r x) logs"
    by (rule filter_cong, simp, blast)+
  show ?thesis
    by (simp add: internal_timeline_def Let_def agreeing buildSyntheticOutcomeItem_def buildOutputTimelineItems_def
        comp_def log_item_text output_item_text case_prod_unfold conj_commute split)
qed

text \<open>C32: A report about a run that has entries of its own is made of that run and of no other: its flow
  entries that do not end it, in the order of their dates; the first steps of the output; the
  entries that end it and agree with the result (an entry that says the run succeeded is left out
  when the result says it failed, and the other way round), or one made from the result when there
  is none; and, while the script runs, the step that says so.\<close>

theorem report_timeline_is_the_runs:
  assumes "op_lastRunResult o' = Some r" and "res_runId r = Some i" and "i \<noteq> []"
    and "x \<in> set (op_runLogs o')" and "isTerminalRunFlowLog x" and "lg_runId x = Some i"
    and "list_all (\<lambda>x. rq_time env (lg_createdAt x) \<noteq> None) (op_runLogs o')"
  shows "let logs = sort_key (\<lambda>x. the (rq_time env (lg_createdAt x)))
           (filter (\<lambda>x. lg_runId x = Some i \<and> isTerminalRunFlowLog x) (op_runLogs o'));
         ends = filter (\<lambda>x. isTerminalRunFinalLog x \<and> agrees r x) logs;
         out = collectExecutionOutputLines (op_terminalOutput o')
       in map step_text (rr_timeline (buildStructuredRunReport env o')) =
         map log_text (filter (\<lambda>x. \<not> isTerminalRunFinalLog x) logs) @
         map2 output_text [0..<length (collectStepLines out)] (collectStepLines out) @
         map log_text ends @
         (if ends = [] then [item_text (result_item env r (exit_code_shown out) out)] else []) @
         (if op_isRunning o' then [item_text (buildRunningTimelineItem out)] else [])"
  using scoped_logs_run [OF assms]
  by (simp add: Let_def buildStructuredRunReport_def buildTimeline_def gap_text assms(1) timeline_text)

definition sample_log :: "nat \<Rightarrow> nat \<Rightarrow> nat \<Rightarrow> run_log" where
  "sample_log n run t = \<lparr>lg_id = [n], lg_level = LogInfo, lg_title = [116], lg_detail = [100], lg_createdAt = [t],
     lg_scope = Some ScopeRun, lg_runId = Some [run], lg_code = None\<rparr>"

text \<open>An entry that says the run failed.\<close>

definition sample_failure :: run_log where
  "sample_failure = (sample_log 52 97 53)\<lparr>lg_code := Some (TERMINAL_RUN_LOG_CODES KindFailed)\<rparr>"

definition sample_result :: run_result where
  "sample_result = buildTerminalRunResult (\<lambda>d. Some 0) [] (Some 0) [50] Wsl
     (Some \<lparr>met_runId = [97], met_startedAt = [48], met_commandLine = [98], met_usedTempFile = False\<rparr>) None"

definition sample_options :: report_options where
  "sample_options = \<lparr>op_terminalOutput = [], op_runLogs = [sample_log 49 97 51, sample_log 50 98 52, sample_log 51 97 50,
       sample_failure],
     op_lastRunResult = Some sample_result, op_isRunning = False, op_documentName = [], op_documentPath = None,
     op_workspaceRootPath = None\<rparr>"

definition sample_report_env :: report_env where
  "sample_report_env = \<lparr>rq_paths = \<lparr>pa_normalize = id, pa_basename = id, pa_dirname = id, pa_lower = id\<rparr>,
     rq_time = (\<lambda>t. Some (int (hd t))), rq_clock = (\<lambda>t. []), rq_now = 0, rq_unordered = id\<rparr>"

text \<open>The entry of the other run and the one that disagrees with the result are not in the report.\<close>

theorem report_timeline_is_the_runs_witness:
  "map fst (map step_text (rr_timeline (buildStructuredRunReport sample_report_env sample_options))) =
     [[51], [49], lit ''synthetic-outcome-'' @ [50]]"
proof -
  have out: "collectExecutionOutputLines (op_terminalOutput sample_options) = []" by code_simp
  have logs: "sort_key (\<lambda>x. the (rq_time sample_report_env (lg_createdAt x)))
      (filter (\<lambda>x. lg_runId x = Some [97] \<and> isTerminalRunFlowLog x) (op_runLogs sample_options)) =
      [sample_log 51 97 50, sample_log 49 97 51, sample_failure]"
    by (simp add: sample_options_def sample_failure_def sample_log_def isTerminalRunFlowLog_def sample_report_env_def)
  have kinds: "\<not> isTerminalRunFinalLog (sample_log a b c)" "isTerminalRunFinalLog sample_failure"
      "\<not> agrees sample_result sample_failure" for a b c
    by (simp_all add: sample_failure_def sample_log_def agrees_def sample_result_def buildTerminalRunResult_def log_tests lit_def)
  have result: "ii_id (result_item env sample_result code out) = lit ''synthetic-outcome-'' @ [50]" for env code out
    by (simp add: result_item_def Let_def sample_result_def buildTerminalRunResult_def)
  have "op_lastRunResult sample_options = Some sample_result" "res_runId sample_result = Some [97]"
    "sample_log 49 97 51 \<in> set (op_runLogs sample_options)" "isTerminalRunFlowLog (sample_log 49 97 51)"
    "lg_runId (sample_log 49 97 51) = Some [97]" "\<not> op_isRunning sample_options"
    "list_all (\<lambda>x. rq_time sample_report_env (lg_createdAt x) \<noteq> None) (op_runLogs sample_options)"
    by (simp_all add: sample_options_def sample_result_def buildTerminalRunResult_def nullish_def
        sample_log_def isTerminalRunFlowLog_def sample_report_env_def)
  note whole = report_timeline_is_the_runs [OF this(1,2) _ this(3-5,7), unfolded Let_def out logs] this(6)
  have "map step_text (rr_timeline (buildStructuredRunReport sample_report_env sample_options)) =
      [log_text (sample_log 51 97 50), log_text (sample_log 49 97 51),
       item_text (result_item sample_report_env sample_result (exit_code_shown []) [])]"
    using whole by (simp add: kinds collectStepLines_def)
  then show ?thesis by (simp only: list.map) (simp add: log_text_def item_text_def sample_log_def result)
qed

section \<open>Bounds\<close>

lemma detail_lines_bound: "length (buildDetailLines ls) \<le> 8"
  by (simp add: buildDetailLines_def last_n_def)

lemma title_bound: "length (resolveOutputTitle l) \<le> 27"
  by (simp add: resolveOutputTitle_def Let_def)

lemma gap_bounds: "gap_weight a b \<in> {1..3}"
  by (auto simp: gap_weight_def Let_def split: option.split)

lemma weights: "x \<in> set (assignGapWeights xs) \<Longrightarrow> it_gapWeight x \<in> {1..3} \<and> (\<exists>y \<in> set xs. it_details x = ii_details y)"
proof (induction xs rule: assignGapWeights.induct)
  case (3 a b xs)
  then show ?case using gap_bounds [of "ii_createdAtMs a" "ii_createdAtMs b"] by (auto simp: weighed_def)
qed (simp_all add: weighed_def)

fun few_details :: "detail_line list option \<Rightarrow> bool" where
  "few_details None = True"
| "few_details (Some ds) = (length ds \<le> 8)"

lemma few_unless: "length ds \<le> 8 \<Longrightarrow> few_details (unless_empty ds xs)"
  by (simp add: unless_empty_def)

lemma few_lines [simp]: "few_details (unless_empty (buildDetailLines ls) xs)" "few_details (unless_empty [] xs)"
  using detail_lines_bound by (simp_all add: few_unless)

lemma item_details:
  assumes "x \<in> set (internal_timeline env logs printed result c isRunning)"
  shows "few_details (ii_details x)"
proof -
  have "few_details (ii_details (buildLogTimelineItem env p l))" for l p
    by (simp add: buildLogTimelineItem_def Let_def log_details_def split: prod.split)
  moreover have "few_details (ii_details (output_item b n l))" for b n l by (simp add: output_item_def Let_def)
  moreover have "few_details (ii_details y)" if "buildSyntheticOutcomeItem env result c printed = Some y" for y
    using that
    by (auto simp: buildSyntheticOutcomeItem_def result_item_def exit_item_def Let_def split: option.splits)
  moreover have "few_details (ii_details (buildRunningTimelineItem printed))"
    by (simp add: buildRunningTimelineItem_def Let_def)
  ultimately show ?thesis using assms
    by (auto simp: internal_timeline_def Let_def buildOutputTimelineItems_def in_set_zip split: option.splits if_splits)
qed

text \<open>However long the output and however many the logs: a step shows at most eight lines, the space
  to the next step is one of three, at most five steps come from the output, and a title made of a
  line of output has at most 27 units.\<close>

theorem report_steps_bounded:
  "list_all (\<lambda>x. few_details (it_details x) \<and> it_gapWeight x \<in> {1..3}) (rr_timeline (buildStructuredRunReport env o')) \<and>
   length (buildOutputTimelineItems ls isRunning) \<le> 5 \<and>
   list_all (\<lambda>x. length (ii_title x) \<le> 27) (buildOutputTimelineItems ls isRunning)"
proof (intro conjI)
  show "list_all (\<lambda>x. few_details (it_details x) \<and> it_gapWeight x \<in> {1..3}) (rr_timeline (buildStructuredRunReport env o'))"
    by (auto simp: list_all_iff buildStructuredRunReport_def Let_def buildTimeline_def dest!: weights item_details)
  show "length (buildOutputTimelineItems ls isRunning) \<le> 5"
    by (simp add: buildOutputTimelineItems_def Let_def collectStepLines_def)
  show "list_all (\<lambda>x. length (ii_title x) \<le> 27) (buildOutputTimelineItems ls isRunning)"
    by (auto simp: list_all_iff buildOutputTimelineItems_def Let_def output_item_def title_bound in_set_zip)
qed

section \<open>Where the report goes wrong\<close>

text \<open>Just below a minute the seconds are rounded up to sixty.\<close>

lemma bits_double: "0 < n \<Longrightarrow> bits n = Suc (bits (n div 2))"
  by (subst bits.simps) simp

lemma quotient_of_ratio: "0 < b \<Longrightarrow> coprime a b \<Longrightarrow> quotient_of (of_int a / of_int b) = (a, b)"
  by (simp add: quotient_of_Fract normalize_def coprime_iff_gcd_eq_1 flip: Fract_of_int_quotient)

text \<open>The nearest double, from the exponent and the mantissa.\<close>

lemma nearest_double_at:
  assumes "0 < a" "0 < b" "coprime a b" and "int (bits (nat a)) - int (bits (nat b)) - 53 = - int e"
    and "of_int a / of_int b * 2 ^ e < (2 ^ 53 :: rat)" and "half_even (of_int a / of_int b * 2 ^ e) = m"
  shows "nearest_double (of_int a / of_int b) = of_int m / 2 ^ e"
proof -
  have pos: "0 < (of_int a / of_int b :: rat)" using assms(1,2) by simp
  have two: "two_to (- int e) = 1 / 2 ^ e" by (simp add: two_to_def)
  show ?thesis
    using assms(5,6) pos
    by (simp add: nearest_double_def quotient_of_ratio [OF assms(2,3)] assms(4) two Let_def not_le)
qed

lemma half_even_at:
  assumes "of_int n - 1 / 2 < x" and "x < of_int n + 1 / 2"
  shows "half_even x = n"
proof (cases "of_int n \<le> x")
  case True
  then have "\<lfloor>x\<rfloor> = n" using assms by (simp add: floor_eq_iff)
  then show ?thesis using assms by (simp add: half_even_def Let_def)
next
  case False
  then have "\<lfloor>x\<rfloor> = n - 1" using assms by (simp add: floor_eq_iff)
  then show ?thesis using assms by (simp add: half_even_def Let_def)
qed

lemma sixty_seconds: "formatElapsed (Some 59960) = lit ''00:60.0s''"
proof -
  have b: "bits 1499 = 11" "bits 25 = 5" "bits 8438619801785467 = 53" "bits 8444249301319680 = 53"
    by (simp_all add: bits_double bits.simps [of 0])
  have c: "coprime (1499 :: int) 25" "coprime (8438619801785467 :: int) 8444249301319680"
    by (code_simp, code_simp)
  have h1: "half_even (1499 / 25 * 2 ^ 47) = 8438619801785467"
    by (rule half_even_at) simp_all
  have h2: "half_even (8438619801785467 / 8444249301319680 * 2 ^ 53) = 9001194455237831"
    by (rule half_even_at) simp_all
  have seconds: "nearest_double (1499 / 25) = 8438619801785467 / 140737488355328"
    using nearest_double_at [of 1499 25 47 8438619801785467] c(1) b h1 by simp
  have minutes: "nearest_double (8438619801785467 / 8444249301319680) = 9001194455237831 / 9007199254740992"
    using nearest_double_at [of 8438619801785467 8444249301319680 53 9001194455237831] c(2) b h2 by simp
  have floors: "\<lfloor>9001194455237831 / 9007199254740992 :: rat\<rfloor> = 0" "\<lfloor>8438619801785467 / 8444249301319680 :: rat\<rfloor> = 0"
    "\<lfloor>10 * (8438619801785467 / 140737488355328) + 1 / 2 :: rat\<rfloor> = 600"
    by (simp_all add: floor_eq_iff)
  have fixed: "to_fixed1 (8438619801785467 / 140737488355328) = lit ''60.0''"
    unfolding to_fixed1_def floors(3) by (simp add: show_nat.simps lit_def Let_def)
  show ?thesis
    by (simp add: formatElapsed_def seconds minutes floors(1,2) fixed Let_def)
      (simp add: pad_zero_def show_int_def show_nat.simps lit_def)
qed

text \<open>The title a terminal is given stays in the output: the first alternative of the pattern takes the
  two units that begin an operating system command.\<close>

lemma no_escape: "27 \<notin> set t \<Longrightarrow> stripAnsi t = t"
proof (induction t)
  case Nil
  show ?case by (simp add: stripAnsi_def replace_matches.simps [of _ _ "[]"])
next
  case (Cons c t)
  then have "rests ANSI_PATTERN (c # t) = []" by (simp add: ANSI_PATTERN_def seq_def)
  then show ?case using Cons by (simp add: stripAnsi_def replace_matches.simps [of _ _ "c # t"])
qed

theorem title_command_is_left:
  assumes "27 \<notin> set t"
  shows "stripAnsi (27 # 93 # t) = t"
proof -
  obtain us where "rests ANSI_PATTERN (27 # 93 # t) = t # us"
    by (simp add: ANSI_PATTERN_def seq_def any_of_def nothing_def)
  then show ?thesis
    using no_escape [OF assms] by (simp add: stripAnsi_def replace_matches.simps [of _ _ "27 # _"])
qed

text \<open>A here-document is not closed by its own end word, only by a line with underscores around it, so
  what follows is taken for a part of it.\<close>

theorem end_word_does_not_end_heredoc:
  assumes "trim l = l" and "starts_by (lit ''SH_EDITOR_EOF_'') l" and "\<not> has_text RUN_START_MARKER l"
    and "\<not> found EXIT_CODE_LINE_PATTERN (extractCanonicalLine l)" and "extractCanonicalLine l = l"
  shows "sanitize True (l # ls) = sanitize True ls"
proof -
  obtain m where "l = 83 # m" using assms(2) by (cases l) (auto simp: starts_by_def lit_def)
  then have "\<not> at_start HEREDOC_END_PATTERN l"
    by (simp add: at_start_def HEREDOC_END_PATTERN_def exactly_def seq_def lit_def)
  then show ?thesis using assms by (simp add: Let_def shouldSkipLine_def)
qed

end
