(* ===== verification/TerminalOutput.thy ===== *)
theory TerminalOutput
  imports Prelude
begin

text \<open>
  The terminal output kept by the editor store (\<open>src/store/editor.ts\<close>,
  \<open>terminalOutputChunks\<close> and its three actions): a bounded buffer in chunks that must not be cut in
  the middle of a surrogate pair. Strings are lists of UTF-16 code units here.
\<close>

section \<open>Code units\<close>

definition low_surrogate :: "nat \<Rightarrow> bool" where
  "low_surrogate c \<longleftrightarrow> 0xdc00 \<le> c \<and> c \<le> 0xdfff"

definition high_surrogate :: "nat \<Rightarrow> bool" where
  "high_surrogate c \<longleftrightarrow> 0xd800 \<le> c \<and> c \<le> 0xdbff"

text \<open>Every low surrogate follows a high one, as in text that was decoded from UTF-8.\<close>

definition low_paired :: "ustr \<Rightarrow> bool" where
  "low_paired s \<longleftrightarrow>
     list_all (\<lambda>i. \<not> low_surrogate (s ! i) \<or> (0 < i \<and> high_surrogate (s ! (i - 1)))) [0..<length s]"

text \<open>\<open>Array.from(content).length\<close>: a surrogate pair is one character.\<close>

fun countCharacters :: "ustr \<Rightarrow> nat" where
  "countCharacters [] = 0"
| "countCharacters [c] = 1"
| "countCharacters (c # d # s) =
     (if high_surrogate c \<and> low_surrogate d then Suc (countCharacters s)
      else Suc (countCharacters (d # s)))"

definition drop_low :: "ustr \<Rightarrow> ustr" where
  "drop_low s = (if s \<noteq> [] \<and> low_surrogate (hd s) then tl s else s)"

definition clampToCodeUnitBoundary :: "ustr \<Rightarrow> nat \<Rightarrow> ustr" where
  "clampToCodeUnitBoundary s maxLength =
     (if length s \<le> maxLength then s else drop_low (drop (length s - maxLength) s))"

definition trimLeadingCodeUnitBoundary :: "ustr \<Rightarrow> nat \<Rightarrow> ustr" where
  "trimLeadingCodeUnitBoundary s startIndex =
     (if startIndex = 0 then s
      else if length s \<le> startIndex then []
      else drop_low (drop startIndex s))"

section \<open>The buffer\<close>

definition MAX_TERMINAL_OUTPUT_LENGTH :: nat where
  "MAX_TERMINAL_OUTPUT_LENGTH = 120000"

definition MAX_TERMINAL_OUTPUT_CHUNK_LENGTH :: nat where
  "MAX_TERMINAL_OUTPUT_CHUNK_LENGTH = 4096"

record terminal_output =
  to_chunks :: "ustr list"
  to_length :: int
  to_version :: nat

definition empty_output :: terminal_output where
  "empty_output = \<lparr>to_chunks = [], to_length = 0, to_version = 0\<rparr>"

definition getTerminalOutputSnapshot :: "terminal_output \<Rightarrow> ustr" where
  "getTerminalOutputSnapshot b = concat (to_chunks b)"

definition setTerminalOutputChunks :: "ustr list \<Rightarrow> terminal_output \<Rightarrow> terminal_output" where
  "setTerminalOutputChunks chunks b =
     (let sanitized = filter (\<lambda>c. c \<noteq> []) chunks in
      b\<lparr>to_chunks := sanitized, to_length := sum_list (map (int \<circ> length) sanitized),
        to_version := to_version b + 1\<rparr>)"

text \<open>The loop that makes room: whole chunks go while they fit into the overflow, then the first
  remaining one is cut.\<close>

fun make_room :: "int \<Rightarrow> ustr list \<Rightarrow> int \<Rightarrow> ustr list \<times> int" where
  "make_room overflow [] len = ([], len)"
| "make_room overflow (c # cs) len =
     (if 0 < overflow
      then (if int (length c) \<le> overflow
            then make_room (overflow - int (length c)) cs (len - int (length c))
            else (let t = trimLeadingCodeUnitBoundary c (nat overflow);
                      len' = len - (int (length c) - int (length t))
                  in (if t \<noteq> [] then t # cs else cs, len')))
      else (c # cs, len))"

definition add_chunk :: "ustr \<Rightarrow> ustr list \<Rightarrow> ustr list" where
  "add_chunk s cs =
     (if cs \<noteq> [] \<and> length (last cs) + length s \<le> MAX_TERMINAL_OUTPUT_CHUNK_LENGTH
      then butlast cs @ [last cs @ s] else cs @ [s])"

definition appendTerminalOutputChunk :: "ustr \<Rightarrow> terminal_output \<Rightarrow> terminal_output" where
  "appendTerminalOutputChunk s b =
     (if s = [] then b
      else (let len = to_length b + int (length s);
                (cs, len') = make_room (len - int MAX_TERMINAL_OUTPUT_LENGTH)
                               (add_chunk s (to_chunks b)) len
            in b\<lparr>to_chunks := cs, to_length := len', to_version := to_version b + 1\<rparr>))"

definition setTerminalOutput :: "ustr \<Rightarrow> terminal_output \<Rightarrow> terminal_output" where
  "setTerminalOutput s b =
     (let clamped = clampToCodeUnitBoundary s MAX_TERMINAL_OUTPUT_LENGTH in
      setTerminalOutputChunks (if clamped \<noteq> [] then [clamped] else []) b)"

datatype output_call = AppendOutput ustr | SetOutput ustr | ClearOutput

fun output_step :: "terminal_output \<Rightarrow> output_call \<Rightarrow> terminal_output" where
  "output_step b (AppendOutput s) = appendTerminalOutputChunk s b"
| "output_step b (SetOutput s) = setTerminalOutput s b"
| "output_step b ClearOutput = setTerminalOutputChunks [] b"

text \<open>What was written since the buffer was last set or cleared, without any limit.\<close>

fun written :: "ustr \<Rightarrow> output_call \<Rightarrow> ustr" where
  "written h (AppendOutput s) = h @ s"
| "written h (SetOutput s) = s"
| "written h ClearOutput = []"

fun call_text :: "output_call \<Rightarrow> ustr" where
  "call_text (AppendOutput s) = s"
| "call_text (SetOutput s) = s"
| "call_text ClearOutput = []"

section \<open>Surrogates stay paired\<close>

lemma low_paired_iff:
  "low_paired s \<longleftrightarrow>
     (\<forall>i < length s. low_surrogate (s ! i) \<longrightarrow> 0 < i \<and> high_surrogate (s ! (i - 1)))"
  by (auto simp: low_paired_def list_all_iff)

lemma high_not_low: "high_surrogate c \<Longrightarrow> \<not> low_surrogate c"
  by (simp add: high_surrogate_def low_surrogate_def)

lemma low_paired_Nil [simp]: "low_paired []"
  by (simp add: low_paired_def)

lemma low_paired_hd: "low_paired s \<Longrightarrow> s \<noteq> [] \<Longrightarrow> \<not> low_surrogate (hd s)"
  by (auto simp: low_paired_iff hd_conv_nth)

lemma low_paired_append: "low_paired s \<Longrightarrow> low_paired t \<Longrightarrow> low_paired (s @ t)"
  unfolding low_paired_iff
proof (intro allI impI)
  fix i
  assume s: "\<forall>i<length s. low_surrogate (s ! i) \<longrightarrow> 0 < i \<and> high_surrogate (s ! (i - 1))"
    and t: "\<forall>i<length t. low_surrogate (t ! i) \<longrightarrow> 0 < i \<and> high_surrogate (t ! (i - 1))"
    and i: "i < length (s @ t)" "low_surrogate ((s @ t) ! i)"
  show "0 < i \<and> high_surrogate ((s @ t) ! (i - 1))"
  proof (cases "i < length s")
    case True
    with s i have "0 < i" "high_surrogate (s ! (i - 1))" by (auto simp: nth_append)
    with True show ?thesis by (simp add: nth_append less_imp_diff_less)
  next
    case False
    with i have "i - length s < length t" "low_surrogate (t ! (i - length s))"
      by (auto simp: nth_append)
    with t have "0 < i - length s" "high_surrogate (t ! (i - length s - 1))" by blast+
    moreover from this have "(s @ t) ! (i - 1) = t ! (i - length s - 1)"
      by (auto simp: nth_append)
    ultimately show ?thesis by simp
  qed
qed

lemma low_paired_drop:
  assumes "low_paired s" and "n < length s" and "\<not> low_surrogate (s ! n)"
  shows "low_paired (drop n s)"
  unfolding low_paired_iff
proof (intro allI impI)
  fix i assume "i < length (drop n s)" "low_surrogate (drop n s ! i)"
  with assms have "n + i < length s" "low_surrogate (s ! (n + i))" "i \<noteq> 0" by (cases i; auto)+
  with assms(1) have "high_surrogate (s ! (n + i - 1))" unfolding low_paired_iff by blast
  with \<open>i \<noteq> 0\<close> \<open>n + i < length s\<close> show "0 < i \<and> high_surrogate (drop n s ! (i - 1))" by simp
qed

text \<open>Dropping a unit that would be left alone leaves paired text.\<close>

lemma low_paired_drop_low: "low_paired s \<Longrightarrow> low_paired (drop_low (drop n s))"
proof (cases "n < length s")
  case n: True
  assume s: "low_paired s"
  have hd: "drop n s \<noteq> []" "hd (drop n s) = s ! n" using n by (auto simp: hd_drop_conv_nth)
  show ?thesis
  proof (cases "low_surrogate (s ! n)")
    case False
    with low_paired_drop [OF s n] hd show ?thesis by (simp add: drop_low_def)
  next
    case True
    have t: "tl (drop n s) = drop (Suc n) s" by (simp add: drop_Suc tl_drop)
    have "low_paired (drop (Suc n) s)"
    proof (cases "Suc n < length s")
      case n': True
      have "\<not> low_surrogate (s ! Suc n)"
      proof
        assume "low_surrogate (s ! Suc n)"
        with s n' have "high_surrogate (s ! n)" by (auto simp: low_paired_iff)
        with True show False using high_not_low by blast
      qed
      then show ?thesis by (rule low_paired_drop [OF s n'])
    qed simp
    with True hd t show ?thesis by (simp add: drop_low_def)
  qed
qed (simp add: drop_low_def)

lemma low_paired_concat: "list_all low_paired cs \<Longrightarrow> low_paired (concat cs)"
  by (induction cs) (auto intro: low_paired_append)

lemma low_paired_clamp: "low_paired s \<Longrightarrow> low_paired (clampToCodeUnitBoundary s n)"
  by (simp add: clampToCodeUnitBoundary_def low_paired_drop_low)

lemma drop_low_paired: "low_paired s \<Longrightarrow> drop_low s = s"
  using low_paired_hd by (auto simp: drop_low_def)

section \<open>The buffer is the end of what was written\<close>

lemma length_drop_low: "length (drop_low s) \<le> length s"
  by (simp add: drop_low_def)

lemma length_clamp: "length (clampToCodeUnitBoundary s n) \<le> n"
  using length_drop_low [of "drop (length s - n) s"]
  by (auto simp: clampToCodeUnitBoundary_def)

lemma trim_is_drop_low:
  "0 < n \<Longrightarrow> n < length s \<Longrightarrow> trimLeadingCodeUnitBoundary s n = drop_low (drop n s)"
  by (simp add: trimLeadingCodeUnitBoundary_def)

lemma drop_low_append: "s \<noteq> [] \<Longrightarrow> drop_low (s @ t) = drop_low s @ t"
  by (cases s) (auto simp: drop_low_def)

text \<open>Making room cuts the text at the same place as cutting the whole would, whatever the chunks.\<close>

lemma make_room_correct:
  assumes "list_all low_paired cs" and "[] \<notin> set cs" and "0 \<le> k" and "nat k \<le> length (concat cs)"
    and "len = int (length (concat cs))"
  shows "concat (fst (make_room k cs len)) = drop_low (drop (nat k) (concat cs)) \<and>
    snd (make_room k cs len) = int (length (concat (fst (make_room k cs len)))) \<and>
    list_all low_paired (fst (make_room k cs len)) \<and> [] \<notin> set (fst (make_room k cs len))"
  using assms
proof (induction k cs len rule: make_room.induct)
  case (2 k c cs len)
  show ?case
  proof (cases "0 < k")
    case False
    with 2 have "k = 0" by simp
    moreover have "drop_low (concat (c # cs)) = concat (c # cs)"
      by (intro drop_low_paired low_paired_concat) (use 2 in simp)
    ultimately show ?thesis using 2 by simp
  next
    case pos: True
    show ?thesis
    proof (cases "int (length c) \<le> k")
      case True
      have "drop (nat k) (c @ concat cs) = drop (nat (k - int (length c))) (concat cs)"
        using True by (simp add: nat_diff_distrib)
      moreover have "nat (k - int (length c)) \<le> length (concat cs)"
        using 2(5) True by (simp add: nat_le_iff)
      ultimately show ?thesis using 2 pos True by simp
    next
      case False
      let ?t = "drop_low (drop (nat k) c)"
      have n: "0 < nat k" "nat k < length c" using pos False by linarith+
      have t: "trimLeadingCodeUnitBoundary c (nat k) = ?t" by (rule trim_is_drop_low [OF n])
      have "drop_low (drop (nat k) (concat (c # cs))) = ?t @ concat cs"
        using n drop_low_append [of "drop (nat k) c" "concat cs"] by simp
      moreover have "low_paired ?t" using 2(2) low_paired_drop_low [of c] by simp
      ultimately show ?thesis using 2 pos False t by (auto simp: Let_def)
    qed
  qed
qed (auto simp: drop_low_def)

lemma add_chunk_concat: "concat (add_chunk s cs) = concat cs @ s"
proof (cases "cs = []")
  case False
  then have "concat cs = concat (butlast cs) @ last cs"
    by (metis append_butlast_last_id concat_append concat.simps append_Nil2)
  then show ?thesis by (auto simp: add_chunk_def)
qed (simp add: add_chunk_def)

lemma add_chunk_all:
  assumes "list_all low_paired cs" and "low_paired s"
  shows "list_all low_paired (add_chunk s cs)"
proof -
  have "cs \<noteq> [] \<Longrightarrow> low_paired (last cs)" using assms(1) by (simp add: list_all_iff)
  moreover have "list_all low_paired (butlast cs)"
    using assms(1) by (auto simp: list_all_iff dest: in_set_butlastD)
  ultimately show ?thesis using assms by (auto simp: add_chunk_def intro: low_paired_append)
qed

lemma add_chunk_nonempty: "[] \<notin> set cs \<Longrightarrow> s \<noteq> [] \<Longrightarrow> [] \<notin> set (add_chunk s cs)"
  by (auto simp: add_chunk_def dest: in_set_butlastD)

definition output_ok :: "terminal_output \<Rightarrow> bool" where
  "output_ok b \<longleftrightarrow> list_all low_paired (to_chunks b) \<and> [] \<notin> set (to_chunks b) \<and>
     to_length b = int (length (getTerminalOutputSnapshot b)) \<and>
     length (getTerminalOutputSnapshot b) \<le> MAX_TERMINAL_OUTPUT_LENGTH"

lemma make_room_none: "k \<le> 0 \<Longrightarrow> make_room k cs len = (cs, len)"
  by (cases cs) auto

lemma append_output:
  assumes "output_ok b" and "low_paired s"
  shows "output_ok (appendTerminalOutputChunk s b)"
    and "getTerminalOutputSnapshot (appendTerminalOutputChunk s b) =
      clampToCodeUnitBoundary (getTerminalOutputSnapshot b @ s) MAX_TERMINAL_OUTPUT_LENGTH"
proof (atomize (full), cases "s = []")
  case True
  with assms(1) show "output_ok (appendTerminalOutputChunk s b) \<and>
      getTerminalOutputSnapshot (appendTerminalOutputChunk s b) =
      clampToCodeUnitBoundary (getTerminalOutputSnapshot b @ s) MAX_TERMINAL_OUTPUT_LENGTH"
    by (simp add: appendTerminalOutputChunk_def clampToCodeUnitBoundary_def output_ok_def)
next
  case False
  let ?M = MAX_TERMINAL_OUTPUT_LENGTH
  define cs where "cs = add_chunk s (to_chunks b)"
  define len where "len = to_length b + int (length s)"
  have cs: "list_all low_paired cs" "[] \<notin> set cs" "concat cs = getTerminalOutputSnapshot b @ s"
    "len = int (length (concat cs))"
    using assms False by (simp_all add: cs_def len_def add_chunk_all add_chunk_nonempty
        add_chunk_concat output_ok_def getTerminalOutputSnapshot_def)
  define r where "r = make_room (len - int ?M) cs len"
  have b': "appendTerminalOutputChunk s b =
      b\<lparr>to_chunks := fst r, to_length := snd r, to_version := to_version b + 1\<rparr>"
    using False by (simp add: appendTerminalOutputChunk_def Let_def cs_def len_def r_def split_def)
  have "concat (fst r) = clampToCodeUnitBoundary (concat cs) ?M \<and> snd r = int (length (concat (fst r))) \<and>
      list_all low_paired (fst r) \<and> [] \<notin> set (fst r)"
  proof (cases "length (concat cs) \<le> ?M")
    case True
    then show ?thesis using cs by (simp add: r_def make_room_none clampToCodeUnitBoundary_def)
  next
    case over: False
    have "nat (len - int ?M) = length (concat cs) - ?M" using cs(4) by simp
    then show ?thesis
      using make_room_correct [OF cs(1,2) _ _ cs(4), of "len - int ?M"] over cs(4)
      by (simp add: r_def clampToCodeUnitBoundary_def)
  qed
  then show "output_ok (appendTerminalOutputChunk s b) \<and>
      getTerminalOutputSnapshot (appendTerminalOutputChunk s b) =
      clampToCodeUnitBoundary (getTerminalOutputSnapshot b @ s) ?M"
    using length_clamp [of "concat cs" ?M]
    by (simp add: b' output_ok_def getTerminalOutputSnapshot_def [of "_\<lparr>to_chunks := _, to_length := _, to_version := _\<rparr>"] cs(3))
qed

lemma set_output:
  assumes "low_paired s"
  shows "output_ok (setTerminalOutput s b)"
    and "getTerminalOutputSnapshot (setTerminalOutput s b) =
      clampToCodeUnitBoundary s MAX_TERMINAL_OUTPUT_LENGTH"
  using low_paired_clamp [OF assms] length_clamp [of s MAX_TERMINAL_OUTPUT_LENGTH]
  by (auto simp: setTerminalOutput_def setTerminalOutputChunks_def output_ok_def
      getTerminalOutputSnapshot_def Let_def)

lemma clear_output:
  "output_ok (setTerminalOutputChunks [] b)" "getTerminalOutputSnapshot (setTerminalOutputChunks [] b) = []"
  by (simp_all add: setTerminalOutputChunks_def output_ok_def getTerminalOutputSnapshot_def Let_def)

text \<open>Clamping twice is clamping once: what the first cut off is cut off by the second.\<close>

lemma clamp_clamp:
  assumes "low_paired h" and "low_paired s"
  shows "clampToCodeUnitBoundary (clampToCodeUnitBoundary h n @ s) n = clampToCodeUnitBoundary (h @ s) n"
proof (cases "length h \<le> n \<or> s = []")
  case True
  then show ?thesis
    using length_clamp [of h n] by (auto simp: clampToCodeUnitBoundary_def)
next
  case False
  define d where "d = drop (length h - n) h"
  have d: "length d = n" using False by (simp add: d_def)
  have "drop (length (h @ s) - n) (h @ s) = drop (length s) (drop (length h - n) (h @ s))"
    using False by (simp add: add.commute)
  also have "\<dots> = drop (length s) (d @ s)" using False by (simp add: d_def)
  finally have whole: "clampToCodeUnitBoundary (h @ s) n = drop_low (drop (length s) (d @ s))"
    using False by (simp add: clampToCodeUnitBoundary_def)
  have cut: "clampToCodeUnitBoundary h n = drop_low d"
    using False by (simp add: clampToCodeUnitBoundary_def d_def)
  show ?thesis
  proof (cases "d \<noteq> [] \<and> low_surrogate (hd d)")
    case False
    then have "drop_low d = d" by (auto simp: drop_low_def)
    then show ?thesis using d \<open>\<not> (length h \<le> n \<or> s = [])\<close>
      unfolding cut whole by (simp add: clampToCodeUnitBoundary_def)
  next
    case True
    then obtain x xs where x: "d = x # xs" "drop_low d = xs" by (cases d) (auto simp: drop_low_def)
    obtain y ys where y: "s = y # ys" using False by (cases s) auto
    have "low_paired (xs @ s)"
      using low_paired_drop_low [OF assms(1), of "length h - n"] assms(2) x
      by (auto simp: d_def intro: low_paired_append)
    then have "drop_low (xs @ s) = xs @ s" by (rule drop_low_paired)
    then show ?thesis using x y d
      unfolding cut whole by (auto simp: clampToCodeUnitBoundary_def)
  qed
qed

lemma output_run:
  assumes "list_all (\<lambda>c. low_paired (call_text c)) cs"
  shows "output_ok (foldl output_step empty_output cs) \<and> low_paired (foldl written [] cs) \<and>
    getTerminalOutputSnapshot (foldl output_step empty_output cs) =
      clampToCodeUnitBoundary (foldl written [] cs) MAX_TERMINAL_OUTPUT_LENGTH"
  using assms
proof (induction cs rule: rev_induct)
  case Nil
  show ?case by (simp add: output_ok_def empty_output_def getTerminalOutputSnapshot_def
        clampToCodeUnitBoundary_def)
next
  case (snoc c cs)
  then have IH: "output_ok (foldl output_step empty_output cs)" "low_paired (foldl written [] cs)"
    "getTerminalOutputSnapshot (foldl output_step empty_output cs) =
      clampToCodeUnitBoundary (foldl written [] cs) MAX_TERMINAL_OUTPUT_LENGTH"
    and c: "low_paired (call_text c)" by auto
  show ?case
    using IH c append_output [OF IH(1)] set_output clear_output clamp_clamp [OF IH(2)]
    by (cases c) (auto simp: low_paired_append clampToCodeUnitBoundary_def)
qed

text \<open>C16: After any calls with text whose surrogates are paired, the buffer's snapshot is the end of all
  that was written since the last set or clear: everything where it fits into 120,000 units, else
  its last 120,000 units less a half surrogate pair at the cut. The recorded length is the length of
  the snapshot, and no chunk is empty or starts inside a pair.\<close>

theorem terminal_output_is_recent_text:
  assumes "list_all (\<lambda>c. low_paired (call_text c)) calls"
  shows "let b = foldl output_step empty_output calls; all = foldl written [] calls in
     getTerminalOutputSnapshot b = clampToCodeUnitBoundary all MAX_TERMINAL_OUTPUT_LENGTH \<and>
     to_length b = int (length (getTerminalOutputSnapshot b)) \<and>
     length (getTerminalOutputSnapshot b) \<le> MAX_TERMINAL_OUTPUT_LENGTH \<and>
     list_all (\<lambda>c. c \<noteq> [] \<and> low_paired c) (to_chunks b)"
  using output_run [OF assms] by (auto simp: output_ok_def Let_def list_all_iff)

theorem terminal_output_is_recent_text_witness:
  "let b = foldl output_step empty_output
     [AppendOutput [104, 105], SetOutput [0xd83d, 0xde00], AppendOutput [], AppendOutput [33]] in
   getTerminalOutputSnapshot b = [0xd83d, 0xde00, 33] \<and> to_length b = 3"
proof -
  let ?calls = "[AppendOutput [104, 105], SetOutput [0xd83d, 0xde00], AppendOutput [], AppendOutput [33]]"
  have "list_all (\<lambda>c. low_paired (call_text c)) ?calls"
    by (simp add: low_paired_iff low_surrogate_def high_surrogate_def less_Suc_eq)
  from terminal_output_is_recent_text [OF this] show ?thesis
    by (simp add: Let_def clampToCodeUnitBoundary_def MAX_TERMINAL_OUTPUT_LENGTH_def del: output_step.simps)
qed

end
