(* ===== verification/HashKeys.thy ===== *)
theory HashKeys
  imports Prelude "HOL-Library.Word"
begin

text \<open>
  The FNV-1a keys of \<open>src/utils/hash.ts\<close>. A string is the list of its code points (no lone
  surrogates); the 32-bit arithmetic of \<open>^\<close>, \<open>Math.imul\<close> and \<open>>>> 0\<close> is that of
  \<open>32 word\<close>, the sign being only a way to print the same bits.
\<close>

unbundle bit_operations_syntax

section \<open>Number to text\<close>

text \<open>\<open>Number.prototype.toString(radix)\<close> of a natural number, and \<open>padStart\<close>.\<close>

definition digit_char :: "nat \<Rightarrow> char" where
  "digit_char d = (if d < 10 then char_of (48 + d) else char_of (87 + d))"

fun radix_digits :: "nat \<Rightarrow> nat \<Rightarrow> string" where
  "radix_digits b n =
     (if n < b \<or> b < 2 then [digit_char n] else radix_digits b (n div b) @ [digit_char (n mod b)])"

declare radix_digits.simps [simp del]

definition padStart :: "string \<Rightarrow> nat \<Rightarrow> char \<Rightarrow> string" where
  "padStart s n c = replicate (n - length s) c @ s"

section \<open>FNV-1a\<close>

type_synonym hash32 = "32 word"

definition fnv_offset :: hash32 where
  "fnv_offset = 0x811c9dc5"

definition fnv_prime :: hash32 where
  "fnv_prime = 0x01000193"

definition fnv_step :: "hash32 \<Rightarrow> nat \<Rightarrow> hash32" where
  "fnv_step h c = (h XOR of_nat c) * fnv_prime"

definition computeFnv1a32CodePoints :: "ustr \<Rightarrow> nat" where
  "computeFnv1a32CodePoints s = unat (foldl fnv_step fnv_offset s)"

definition fnv1a32 :: "ustr \<Rightarrow> string" where
  "fnv1a32 s = padStart (radix_digits 16 (computeFnv1a32CodePoints s)) 8 CHR ''0''"

definition fnv1a32Base36 :: "ustr \<Rightarrow> nat \<Rightarrow> string" where
  "fnv1a32Base36 s n = padStart (radix_digits 36 (computeFnv1a32CodePoints s)) n CHR ''0''"

text \<open>\<open>TextEncoder.encode\<close>: the UTF-8 bytes of a code point.\<close>

definition utf8_encode :: "nat \<Rightarrow> nat list" where
  "utf8_encode c =
     (if c < 0x80 then [c]
      else if c < 0x800 then [0xc0 + c div 64, 0x80 + c mod 64]
      else if c < 0x10000 then [0xe0 + c div 4096, 0x80 + c div 64 mod 64, 0x80 + c mod 64]
      else [0xf0 + c div 262144, 0x80 + c div 4096 mod 64, 0x80 + c div 64 mod 64, 0x80 + c mod 64])"

definition fnv1a32Bytes :: "bool \<Rightarrow> ustr \<Rightarrow> string option" where
  "fnv1a32Bytes has_encoder s =
     (if \<not> has_encoder then None
      else Some (padStart (radix_digits 16
             (unat (foldl fnv_step fnv_offset (concat (map utf8_encode s))))) 8 CHR ''0''))"

section \<open>Reading digits back\<close>

definition char_digit :: "char \<Rightarrow> nat" where
  "char_digit c = (let n = of_char c in if n < 58 then n - 48 else n - 87)"

definition read_radix :: "nat \<Rightarrow> string \<Rightarrow> nat" where
  "read_radix b s = foldl (\<lambda>n c. n * b + char_digit c) 0 s"

lemma digit_roundtrip: "d < 36 \<Longrightarrow> char_digit (digit_char d) = d"
  by (auto simp: char_digit_def digit_char_def Let_def)

lemma read_radix_snoc: "read_radix b (s @ [c]) = read_radix b s * b + char_digit c"
  by (simp add: read_radix_def)

lemma read_radix_digits: "\<lbrakk>2 \<le> b; b \<le> 36\<rbrakk> \<Longrightarrow> read_radix b (radix_digits b n) = n"
proof (induction n rule: less_induct)
  case (less n)
  show ?case
  proof (cases "n < b")
    case True
    with less.prems show ?thesis
      by (simp add: radix_digits.simps [of b n] read_radix_def digit_roundtrip)
  next
    case False
    then have "n div b < n" using less.prems by (intro div_less_dividend) auto
    then have "read_radix b (radix_digits b (n div b)) = n div b" using less by blast
    moreover have "n mod b < 36" using less.prems mod_less_divisor [of b n] by linarith
    ultimately show ?thesis
      using False less.prems
      by (simp add: radix_digits.simps [of b n] read_radix_snoc digit_roundtrip)
  qed
qed

lemma read_radix_pad: "read_radix b (padStart s n CHR ''0'') = read_radix b s"
proof -
  have "foldl (\<lambda>n c. n * b + char_digit c) 0 (replicate k CHR ''0'') = 0" for k
    by (induction k) (simp_all add: char_digit_def)
  then show ?thesis by (simp add: read_radix_def padStart_def)
qed

lemma radix_length: "\<lbrakk>2 \<le> b; n < b ^ k; 0 < k\<rbrakk> \<Longrightarrow> length (radix_digits b n) \<le> k"
proof (induction k arbitrary: n)
  case (Suc k)
  show ?case
  proof (cases "n < b \<or> k = 0")
    case True
    with Suc.prems have "n < b" by auto
    then show ?thesis by (simp add: radix_digits.simps [of b n])
  next
    case False
    have "n div b < b ^ k" using Suc.prems by (intro less_mult_imp_div_less) (simp add: mult.commute)
    then show ?thesis
      using Suc.IH [of "n div b"] Suc.prems(1) False by (simp add: radix_digits.simps [of b n])
  qed
qed simp

lemma pad_length: "length s \<le> n \<Longrightarrow> length (padStart s n c) = n"
  by (simp add: padStart_def)

lemma compute_bound: "computeFnv1a32CodePoints s < 2 ^ 32"
  using unsigned_less [of "foldl fnv_step fnv_offset s"] by (simp add: computeFnv1a32CodePoints_def)

lemma ascii_bytes: "\<forall>c \<in> set s. c < 128 \<Longrightarrow> concat (map utf8_encode s) = s"
  by (induction s) (simp_all add: utf8_encode_def)

lemma pad_inj:
  assumes "2 \<le> b" and "b \<le> 36"
  shows "padStart (radix_digits b m) k CHR ''0'' = padStart (radix_digits b n) k CHR ''0'' \<longleftrightarrow> m = n"
  using read_radix_pad read_radix_digits [OF assms] by metis

section \<open>Properties\<close>

text \<open>Both renderings of a key lose nothing of the 32-bit hash and have a fixed length: 8 hexadecimal
  digits, and 7 digits in base 36 (a 32-bit number never needs more), so two texts get the same key
  exactly when their hashes agree, in either rendering.\<close>

theorem hash_keys_fixed_and_faithful:
  "length (fnv1a32 s) = 8 \<and> length (fnv1a32Base36 s 7) = 7 \<and>
   read_radix 16 (fnv1a32 s) = computeFnv1a32CodePoints s \<and>
   read_radix 36 (fnv1a32Base36 s n) = computeFnv1a32CodePoints s \<and>
   (fnv1a32 s = fnv1a32 t \<longleftrightarrow> computeFnv1a32CodePoints s = computeFnv1a32CodePoints t) \<and>
   (fnv1a32Base36 s n = fnv1a32Base36 t n \<longleftrightarrow> fnv1a32 s = fnv1a32 t)"
proof -
  have b: "computeFnv1a32CodePoints s < 16 ^ 8" "computeFnv1a32CodePoints s < 36 ^ 7"
    using compute_bound [of s] by simp_all
  have "length (fnv1a32 s) = 8" "length (fnv1a32Base36 s 7) = 7"
    unfolding fnv1a32_def fnv1a32Base36_def
    by (rule pad_length; rule radix_length; use b in simp)+
  then show ?thesis
    by (simp add: fnv1a32_def fnv1a32Base36_def read_radix_pad read_radix_digits pad_inj)
qed

text \<open>On ASCII text the code-point hash is the standard byte hash, whatever the environment
  offers; without a \<open>TextEncoder\<close> only the byte version fails.\<close>

theorem ascii_hash_is_standard:
  assumes "\<forall>c \<in> set s. c < 128"
  shows "fnv1a32Bytes has_encoder s = (if has_encoder then Some (fnv1a32 s) else None)"
  by (simp add: fnv1a32Bytes_def fnv1a32_def computeFnv1a32CodePoints_def ascii_bytes [OF assms])

lemma ascii_hash_is_standard_witness:
  "fnv1a32Bytes True [97] = Some (fnv1a32 [97]) \<and> computeFnv1a32CodePoints [97] = 0xe40c292c"
proof
  show "fnv1a32Bytes True [97] = Some (fnv1a32 [97])" by (simp add: ascii_hash_is_standard)
  show "computeFnv1a32CodePoints [97] = 0xe40c292c"
    by (simp add: computeFnv1a32CodePoints_def fnv_step_def fnv_offset_def fnv_prime_def)
qed

end
