(* ===== verification/Uri.thy ===== *)
theory Uri
  imports Paths TerminalOutput HashKeys
begin

text \<open>
  \<open>encodeURIComponent\<close> and \<open>decodeURIComponent\<close> on UTF-16 code units, and that the second undoes
  the first. References to diffs and patches, and the paths of diff tabs, are built with them.
\<close>

section \<open>UTF-16\<close>

text \<open>\<open>encodeURIComponent\<close> throws (\<open>None\<close>) on an unpaired surrogate.\<close>

definition pair_value :: "nat \<Rightarrow> nat \<Rightarrow> nat" where
  "pair_value c d = 0x10000 + (c - 0xd800) * 0x400 + (d - 0xdc00)"

fun decode_units :: "ustr \<Rightarrow> nat list option" where
  "decode_units [] = Some []"
| "decode_units [c] = (if high_surrogate c \<or> low_surrogate c then None else Some [c])"
| "decode_units (c # d # s) =
     (if high_surrogate c \<and> low_surrogate d
      then map_option (\<lambda>r. pair_value c d # r) (decode_units s)
      else if high_surrogate c \<or> low_surrogate c then None
      else map_option (\<lambda>r. c # r) (decode_units (d # s)))"

definition uri_unreserved :: "nat \<Rightarrow> bool" where
  "uri_unreserved c \<longleftrightarrow> is_letter c \<or> (48 \<le> c \<and> c \<le> 57) \<or>
     c \<in> {45, 95, 46, 33, 126, 42, 39, 40, 41}"

definition percent_byte :: "nat \<Rightarrow> ustr" where
  "percent_byte b = (let hex = (\<lambda>d. if d < 10 then 48 + d else 55 + d) in [37, hex (b div 16), hex (b mod 16)])"

definition encodeURIComponent :: "ustr \<Rightarrow> ustr option" where
  "encodeURIComponent s = map_option
     (\<lambda>cs. concat (map (\<lambda>c. if uri_unreserved c then [c] else concat (map percent_byte (utf8_encode c))) cs))
     (decode_units s)"

definition encode_units :: "nat \<Rightarrow> ustr" where
  "encode_units c =
     (if c < 0x10000 then [c]
      else [0xd800 + (c - 0x10000) div 0x400, 0xdc00 + (c - 0x10000) mod 0x400])"

text \<open>\<open>Array.from\<close> and \<open>codePointAt\<close>: code points, an unpaired surrogate being its own.\<close>

fun code_points :: "ustr \<Rightarrow> nat list" where
  "code_points [] = []"
| "code_points [c] = [c]"
| "code_points (c # d # s) =
     (if high_surrogate c \<and> low_surrogate d
      then pair_value c d # code_points s
      else c # code_points (d # s))"

section \<open>Decoding\<close>

definition hex_value :: "nat \<Rightarrow> nat option" where
  "hex_value c =
     (if 48 \<le> c \<and> c \<le> 57 then Some (c - 48)
      else if 65 \<le> c \<and> c \<le> 70 then Some (c - 55)
      else if 97 \<le> c \<and> c \<le> 102 then Some (c - 87) else None)"

fun percent_at :: "ustr \<Rightarrow> (nat \<times> ustr) option" where
  "percent_at (p # a # b # r) =
     (if p \<noteq> 37 then None
      else case (hex_value a, hex_value b) of
        (Some x, Some y) \<Rightarrow> Some (16 * x + y, r) | _ \<Rightarrow> None)"
| "percent_at _ = None"

fun continuation :: "nat \<Rightarrow> ustr \<Rightarrow> (nat list \<times> ustr) option" where
  "continuation 0 s = Some ([], s)"
| "continuation (Suc n) s =
     (case percent_at s of
        None \<Rightarrow> None
      | Some (b, r) \<Rightarrow>
          (if b < 0x80 \<or> 0xc0 \<le> b then None
           else map_option (\<lambda>(bs, t). ((b - 0x80) # bs, t)) (continuation n r)))"

text \<open>The length of a sequence by its first byte, and the code point of one that is well formed.\<close>

definition utf8_extra :: "nat \<Rightarrow> nat" where
  "utf8_extra b =
     (if b < 0xc0 then 0 else if b < 0xe0 then 1 else if b < 0xf0 then 2 else if b < 0xf8 then 3 else 0)"

definition utf8_value :: "nat \<Rightarrow> nat list \<Rightarrow> nat option" where
  "utf8_value b bs =
     (let first = (case length bs of Suc 0 \<Rightarrow> b - 0xc0 | Suc (Suc 0) \<Rightarrow> b - 0xe0 | _ \<Rightarrow> b - 0xf0);
          v = foldl (\<lambda>n x. n * 64 + x) first bs;
          least = (case length bs of Suc 0 \<Rightarrow> 0x80 | Suc (Suc 0) \<Rightarrow> 0x800 | _ \<Rightarrow> 0x10000)
      in if v < least \<or> 0x110000 \<le> v \<or> (0xd800 \<le> v \<and> v < 0xe000) then None else Some v)"

lemma percent_at_length: "percent_at s = Some (b, r) \<Longrightarrow> length r < length s"
  by (cases s rule: percent_at.cases) (auto split: if_splits option.splits)

lemma continuation_length: "continuation n s = Some (bs, r) \<Longrightarrow> length r \<le> length s"
  by (induction n arbitrary: s bs)
    (fastforce dest: percent_at_length split: option.splits if_splits)+

function decodeURIComponent :: "ustr \<Rightarrow> ustr option" where
  "decodeURIComponent [] = Some []"
| "decodeURIComponent (c # s) =
     (if c \<noteq> 37 then map_option (Cons c) (decodeURIComponent s)
      else case percent_at (c # s) of
        None \<Rightarrow> None
      | Some (b, r) \<Rightarrow>
          (if b < 0x80 then map_option (Cons b) (decodeURIComponent r)
           else if utf8_extra b = 0 then None
           else case continuation (utf8_extra b) r of
             None \<Rightarrow> None
           | Some (bs, t) \<Rightarrow>
               (case utf8_value b bs of
                  None \<Rightarrow> None
                | Some v \<Rightarrow> map_option ((@) (encode_units v)) (decodeURIComponent t))))"
  by pat_completeness auto
termination
  by (relation "measure length")
    (auto dest!: percent_at_length continuation_length simp del: percent_at.simps)

declare decodeURIComponent.simps [simp del]

section \<open>Round trip\<close>

definition scalar_value :: "nat \<Rightarrow> bool" where
  "scalar_value c \<longleftrightarrow> c < 0x110000 \<and> \<not> (0xd800 \<le> c \<and> c < 0xe000)"

lemma pair_value_units:
  assumes "high_surrogate c" and "low_surrogate d"
  shows "encode_units (pair_value c d) = [c, d]" and "scalar_value (pair_value c d)"
proof -
  obtain x y where xy: "c = 0xd800 + x" "d = 0xdc00 + y" "x < 0x400" "y < 0x400"
    using assms le_Suc_ex [of "0xd800" c] le_Suc_ex [of "0xdc00" d]
    by (auto simp: high_surrogate_def low_surrogate_def)
  then have "(x * 0x400 + y) div 0x400 = x" "(x * 0x400 + y) mod 0x400 = y" by simp_all
  then show "encode_units (pair_value c d) = [c, d]" "scalar_value (pair_value c d)"
    using xy by (simp_all add: pair_value_def encode_units_def scalar_value_def)
qed

lemma decode_units_scalar:
  "decode_units s = Some cs \<Longrightarrow> list_all (\<lambda>c. c < 0x10000) s \<Longrightarrow>
   list_all scalar_value cs \<and> concat (map encode_units cs) = s"
proof (induction s arbitrary: cs rule: decode_units.induct)
  case (3 c d s)
  then show ?case
    by (auto simp: pair_value_units split: if_splits)
      (auto simp: scalar_value_def encode_units_def high_surrogate_def low_surrogate_def)
qed (auto simp: scalar_value_def encode_units_def high_surrogate_def low_surrogate_def split: if_splits)

lemma percent_at_byte: "b < 256 \<Longrightarrow> percent_at (percent_byte b @ r) = Some (b, r)"
proof -
  assume b: "b < 256"
  have hex: "hex_value (if d < 10 then 48 + d else 55 + d) = Some d" if "d < 16" for d
    using that by (auto simp: hex_value_def)
  have "b div 16 < 16" "b mod 16 < 16" using b by auto
  then show ?thesis by (simp add: percent_byte_def Let_def hex)
qed

lemma decode_percent:
  assumes "b < 256"
  shows "decodeURIComponent (percent_byte b @ r) =
     (if b < 0x80 then map_option (Cons b) (decodeURIComponent r)
      else if utf8_extra b = 0 then None
      else case continuation (utf8_extra b) r of
        None \<Rightarrow> None
      | Some (bs, t) \<Rightarrow>
          (case utf8_value b bs of
             None \<Rightarrow> None
           | Some v \<Rightarrow> map_option ((@) (encode_units v)) (decodeURIComponent t)))"
proof -
  obtain h l where p: "percent_byte b = [37, h, l]" by (simp add: percent_byte_def Let_def)
  have "percent_at (37 # h # l # r) = Some (b, r)" using percent_at_byte [OF assms, of r] p by simp
  then show ?thesis unfolding p append.simps decodeURIComponent.simps(2) by simp
qed

lemma continuation_byte:
  "x < 64 \<Longrightarrow> continuation (Suc n) (percent_byte (0x80 + x) @ r) =
     map_option (\<lambda>(bs, t). (x # bs, t)) (continuation n r)"
  by (simp add: percent_at_byte)

lemma utf8_value_encode:
  assumes "scalar_value c"
  shows "0x80 \<le> c \<Longrightarrow> c < 0x800 \<Longrightarrow> utf8_value (0xc0 + c div 64) [c mod 64] = Some c"
    and "0x800 \<le> c \<Longrightarrow> c < 0x10000 \<Longrightarrow>
      utf8_value (0xe0 + c div 4096) [c div 64 mod 64, c mod 64] = Some c"
    and "0x10000 \<le> c \<Longrightarrow>
      utf8_value (0xf0 + c div 262144) [c div 4096 mod 64, c div 64 mod 64, c mod 64] = Some c"
proof -
  have s: "c < 0x110000" "\<not> (0xd800 \<le> c \<and> c < 0xe000)" using assms by (simp_all add: scalar_value_def)
  have d: "c div 4096 = c div 64 div 64" "c div 262144 = c div 4096 div 64"
    by (simp_all flip: div_mult2_eq)
  have v2: "c div 64 * 64 + c mod 64 = c" by simp
  have v3: "(c div 4096 * 64 + c div 64 mod 64) * 64 + c mod 64 = c"
    by (simp only: d(1) div_mult_mod_eq)
  have v4: "((c div 262144 * 64 + c div 4096 mod 64) * 64 + c div 64 mod 64) * 64 + c mod 64 = c"
    by (simp only: d div_mult_mod_eq)
  have value_ok: "utf8_value b bs = Some c"
    if "foldl (\<lambda>n x. n * 64 + x) (case length bs of Suc 0 \<Rightarrow> b - 0xc0 | Suc (Suc 0) \<Rightarrow> b - 0xe0 | _ \<Rightarrow> b - 0xf0) bs = c"
      "(case length bs of Suc 0 \<Rightarrow> 0x80 | Suc (Suc 0) \<Rightarrow> 0x800 | _ \<Rightarrow> 0x10000) \<le> c" for b bs
    using that s by (simp add: utf8_value_def Let_def)
  show "0x80 \<le> c \<Longrightarrow> c < 0x800 \<Longrightarrow> utf8_value (0xc0 + c div 64) [c mod 64] = Some c"
    using v2 by (intro value_ok) simp_all
  show "0x800 \<le> c \<Longrightarrow> c < 0x10000 \<Longrightarrow>
      utf8_value (0xe0 + c div 4096) [c div 64 mod 64, c mod 64] = Some c"
    using v3 by (intro value_ok) (simp_all only: list.size foldl.simps, simp_all)
  show "0x10000 \<le> c \<Longrightarrow>
      utf8_value (0xf0 + c div 262144) [c div 4096 mod 64, c div 64 mod 64, c mod 64] = Some c"
    using v4 by (intro value_ok) (simp_all only: list.size foldl.simps, simp_all)
qed

lemma decode_scalar:
  assumes "scalar_value c"
  shows "decodeURIComponent (concat (map percent_byte (utf8_encode c)) @ r) =
    map_option ((@) (encode_units c)) (decodeURIComponent r)"
proof -
  have lt: "c < 0x110000" using assms by (simp add: scalar_value_def)
  note decoded = utf8_value_encode [OF assms]
  consider "c < 0x80" | "0x80 \<le> c" "c < 0x800" | "0x800 \<le> c" "c < 0x10000" | "0x10000 \<le> c" by linarith
  then show ?thesis
  proof cases
    case 1
    moreover have "(@) [c] = Cons c" by (rule ext) simp
    ultimately show ?thesis by (simp add: utf8_encode_def decode_percent encode_units_def)
  next
    case 2
    then have "utf8_extra (0xc0 + c div 64) = 1" "0xc0 + c div 64 < 256" by (simp_all add: utf8_extra_def)
    then show ?thesis using 2 decoded(1) [OF 2]
      by (simp add: utf8_encode_def decode_percent continuation_byte del: continuation.simps(2))
  next
    case 3
    then have "utf8_extra (0xe0 + c div 4096) = 2" "0xe0 + c div 4096 < 256"
      by (simp_all add: utf8_extra_def)
    then show ?thesis using 3 decoded(2) [OF 3]
      by (simp add: utf8_encode_def decode_percent continuation_byte numeral_2_eq_2 del: continuation.simps(2))
  next
    case 4
    then have "utf8_extra (0xf0 + c div 262144) = 3" "0xf0 + c div 262144 < 256"
      using lt by (simp_all add: utf8_extra_def)
    then show ?thesis using 4 decoded(3) [OF 4]
      by (simp add: utf8_encode_def decode_percent continuation_byte numeral_3_eq_3 del: continuation.simps(2))
  qed
qed

lemma decode_plain: "c \<noteq> 37 \<Longrightarrow> decodeURIComponent (c # s) = map_option (Cons c) (decodeURIComponent s)"
  by (simp add: decodeURIComponent.simps)

lemma unreserved_plain: "uri_unreserved c \<Longrightarrow> c \<noteq> 37 \<and> c < 0x80"
  by (auto simp: uri_unreserved_def is_letter_def)

theorem uri_component_round_trip:
  assumes "encodeURIComponent s = Some u" and "list_all (\<lambda>c. c < 0x10000) s"
  shows "decodeURIComponent u = Some s"
proof -
  obtain cs where cs: "decode_units s = Some cs"
    "u = concat (map (\<lambda>c. if uri_unreserved c then [c] else concat (map percent_byte (utf8_encode c))) cs)"
    using assms(1) by (auto simp: encodeURIComponent_def)
  have "list_all scalar_value cs \<Longrightarrow>
    decodeURIComponent (concat (map (\<lambda>c. if uri_unreserved c then [c]
      else concat (map percent_byte (utf8_encode c))) cs)) = Some (concat (map encode_units cs))"
  proof (induction cs)
    case (Cons c cs)
    show ?case
    proof (cases "uri_unreserved c")
      case True
      then show ?thesis using Cons unreserved_plain [OF True] by (simp add: decode_plain encode_units_def)
    next
      case False
      then show ?thesis using Cons by (simp add: decode_scalar)
    qed
  qed (simp add: decodeURIComponent.simps)
  then show ?thesis using decode_units_scalar [OF cs(1) assms(2)] cs(2) by simp
qed

text \<open>The encoded text has no colon, slash or other delimiter.\<close>

lemma percent_byte_unreserved:
  assumes "b < 256"
  shows "list_all (\<lambda>c. uri_unreserved c \<or> c = 37) (percent_byte b)"
proof -
  have "uri_unreserved (if d < 10 then 48 + d else 55 + d)" if "d < 16" for d
    using that by (auto simp: uri_unreserved_def is_letter_def)
  moreover have "b div 16 < 16" "b mod 16 < 16" using assms by auto
  ultimately show ?thesis by (simp only: percent_byte_def Let_def list.pred_inject) simp
qed

lemma utf8_encode_bytes: "c < 0x110000 \<Longrightarrow> list_all (\<lambda>b. b < 256) (utf8_encode c)"
  by (auto simp: utf8_encode_def)

lemma encoded_unreserved:
  assumes "encodeURIComponent s = Some u" and "list_all (\<lambda>c. c < 0x10000) s"
  shows "list_all (\<lambda>c. uri_unreserved c \<or> c = 37) u"
proof -
  obtain cs where cs: "decode_units s = Some cs"
    "u = concat (map (\<lambda>c. if uri_unreserved c then [c] else concat (map percent_byte (utf8_encode c))) cs)"
    using assms(1) by (auto simp: encodeURIComponent_def)
  have "list_all (\<lambda>c. uri_unreserved c \<or> c = 37) (if uri_unreserved c then [c]
      else concat (map percent_byte (utf8_encode c)))" if "c \<in> set cs" for c
  proof -
    have "c < 0x110000"
      using decode_units_scalar [OF cs(1) assms(2)] that by (simp add: scalar_value_def list_all_iff)
    then have "list_all (\<lambda>c. uri_unreserved c \<or> c = 37) (percent_byte b)" if "b \<in> set (utf8_encode c)" for b
      using that utf8_encode_bytes by (intro percent_byte_unreserved) (auto simp: list_all_iff)
    then show ?thesis by (simp add: list_all_iff)
  qed
  then show ?thesis
    unfolding cs(2) list_all_iff set_concat set_map by (rule_tac ballI) (elim UN_E imageE, simp only:)
qed

section \<open>Codecs\<close>

text \<open>What a reference builder and its parser promise each other, on the values a builder accepts.\<close>

locale codec =
  fixes enc :: "'a \<Rightarrow> 'b option" and dec :: "'b \<Rightarrow> 'a option" and ok :: "'a \<Rightarrow> bool"
  assumes dec_enc: "ok x \<Longrightarrow> enc x = Some y \<Longrightarrow> dec y = Some x"
begin

lemma enc_inj: "ok x \<Longrightarrow> ok x' \<Longrightarrow> enc x = Some y \<Longrightarrow> enc x' = Some y \<Longrightarrow> x = x'"
  using dec_enc [of x y] dec_enc [of x' y] by simp

lemma dec_bind: "ok x \<Longrightarrow> enc x \<noteq> None \<Longrightarrow> Option.bind (enc x) dec = Some x"
  using dec_enc by (cases "enc x") auto

end

interpretation uri: codec encodeURIComponent decodeURIComponent "list_all (\<lambda>c. c < 0x10000)"
  by unfold_locales (rule uri_component_round_trip)

end
