(* ===== verification/Zod.thy ===== *)
theory Zod
  imports Prelude "HOL-Library.Monad_Syntax"
begin

text \<open>
  The parts of the schema library \<open>zod\<close> that the schemas of the program are composed of. A schema is
  a function that returns the parsed value, with defaults filled in and unknown keys dropped, or
  \<open>None\<close> when the check fails. Beside each parser stands what \<open>JSON.stringify\<close> writes for the values
  it produces.
\<close>

type_synonym json_value = "ustr jval"

definition zmin1 :: "json_value \<Rightarrow> ustr option" where
  "zmin1 v = (case v of JStr s \<Rightarrow> (if s = [] then None else Some s) | _ \<Rightarrow> None)"

fun zall :: "(json_value \<Rightarrow> 'a option) \<Rightarrow> json_value list \<Rightarrow> 'a list option" where
  "zall f [] = Some []"
| "zall f (v # vs) = do { x \<leftarrow> f v; xs \<leftarrow> zall f vs; Some (x # xs) }"

definition zarray :: "(json_value \<Rightarrow> 'a option) \<Rightarrow> json_value \<Rightarrow> 'a list option" where
  "zarray f v = (case v of JArr vs \<Rightarrow> zall f vs | _ \<Rightarrow> None)"

definition zdefault :: "'a \<Rightarrow> (json_value \<Rightarrow> 'a option) \<Rightarrow> json_value \<Rightarrow> 'a option" where
  "zdefault d f v = (if v = JUndefined then Some d else f v)"

definition zenum :: "('a \<times> string) list \<Rightarrow> json_value \<Rightarrow> 'a option" where
  "zenum tbl v = (case v of
     JStr s \<Rightarrow> map_option fst (find (\<lambda>(a, n). lit n = s) tbl) | _ \<Rightarrow> None)"

definition zmin_len1 :: "'a list option \<Rightarrow> 'a list option" where
  "zmin_len1 r = (case r of Some (x # xs) \<Rightarrow> Some (x # xs) | _ \<Rightarrow> None)"

definition enum_name :: "('a \<times> string) list \<Rightarrow> 'a \<Rightarrow> json_value" where
  "enum_name tbl a = (case map_of tbl a of Some n \<Rightarrow> JStr (lit n) | None \<Rightarrow> JUndefined)"

definition jopt :: "string \<Rightarrow> ('a \<Rightarrow> json_value) \<Rightarrow> 'a option \<Rightarrow> (string \<times> json_value) list" where
  "jopt k f x = (case x of None \<Rightarrow> [] | Some y \<Rightarrow> [(k, f y)])"

definition jstrings :: "ustr list \<Rightarrow> json_value" where
  "jstrings xs = JArr (map JStr xs)"

definition strings_valid :: "ustr list \<Rightarrow> bool" where
  "strings_valid xs \<longleftrightarrow> [] \<notin> set xs"

definition opt_all :: "('a \<Rightarrow> bool) \<Rightarrow> 'a option \<Rightarrow> bool" where
  "opt_all P x = (case x of None \<Rightarrow> True | Some y \<Rightarrow> P y)"

section \<open>What the parsers accept\<close>

lemma zall_strings: "zall zmin1 (map JStr xs) = (if strings_valid xs then Some xs else None)"
  by (induction xs) (auto simp: strings_valid_def zmin1_def)

lemma zall_min1_valid: "zall zmin1 vs = Some xs \<Longrightarrow> strings_valid xs"
  by (induction vs arbitrary: xs)
    (auto simp: strings_valid_def zmin1_def bind_eq_Some_conv split: jval.splits if_splits)

lemma zdefault_strings: "zdefault [] (zarray zmin1) v = Some xs \<Longrightarrow> strings_valid xs"
  by (auto simp: zdefault_def zarray_def strings_valid_def split: if_splits jval.splits
      dest: zall_min1_valid)

lemma zdefault_jstrings [simp]:
  "zdefault [] (zarray zmin1) (jstrings xs) = (if strings_valid xs then Some xs else None)"
  by (simp add: zdefault_def zarray_def jstrings_def zall_strings)

lemma zmin1_JStr [simp]: "zmin1 (JStr s) = (if s = [] then None else Some s)"
  by (simp add: zmin1_def)

lemma zmin1_SomeD: "zmin1 v = Some s \<Longrightarrow> s \<noteq> []"
  by (auto simp: zmin1_def split: jval.splits if_splits)

lemma lit_eq [simp]: "lit a = lit b \<longleftrightarrow> a = b"
proof -
  have "inj (of_char :: char \<Rightarrow> nat)" by (rule injI) simp
  then show ?thesis unfolding lit_def by (rule inj_map_eq_map)
qed

lemma zall_map: "(\<And>x. x \<in> set xs \<Longrightarrow> f (g x) = Some x) \<Longrightarrow> zall f (map g xs) = Some xs"
  by (induction xs) auto

lemma zall_all: "zall f vs = Some xs \<Longrightarrow> (\<And>v x. f v = Some x \<Longrightarrow> P x) \<Longrightarrow> x \<in> set xs \<Longrightarrow> P x"
  by (induction vs arbitrary: xs) (auto simp: bind_eq_Some_conv)

lemma zarray_SomeD: "zarray f v = Some xs \<Longrightarrow> \<exists>vs. v = JArr vs \<and> zall f vs = Some xs"
  by (auto simp: zarray_def split: jval.splits)

lemma zarray_all:
  assumes "zarray f v = Some xs" and "\<And>v x. f v = Some x \<Longrightarrow> P x"
  shows "\<forall>x \<in> set xs. P x"
  using zarray_SomeD [OF assms(1)] assms(2) by (auto intro: zall_all)

lemma zarray_min1_valid: "zarray zmin1 v = Some xs \<Longrightarrow> strings_valid xs"
  by (auto dest!: zarray_SomeD intro: zall_min1_valid)

lemma zoptional_min1: "zoptional zmin1 v = Some x \<Longrightarrow> x \<noteq> Some []"
  by (auto simp: zoptional_def split: if_splits dest: zmin1_SomeD)

lemma znullable_min1: "znullable zmin1 v = Some x \<Longrightarrow> x \<noteq> Some []"
  by (auto simp: znullable_def split: if_splits dest: zmin1_SomeD)

lemma zoptional_strings: "zoptional (zarray zmin1) v = Some x \<Longrightarrow> opt_all strings_valid x"
  by (auto simp: zoptional_def opt_all_def split: if_splits dest: zarray_min1_valid)

lemmas schema_facts = zmin1_SomeD zoptional_min1 znullable_min1 zoptional_strings
  zarray_min1_valid

end
