(* ===== verification/SessionSchema.thy ===== *)
theory SessionSchema
  imports Zod
begin

text \<open>
  The session snapshot (\<open>src/types/session/index.ts\<close>): open tabs, editor view states, the state
  of the workbench and the recent lists, with the schema that guards both ends of its persistence.
  \<open>isdt\<close> is the check of \<open>z.string().datetime()\<close>.
\<close>

datatype tab_kind = TabText | TabImage

definition tab_kind_names :: "(tab_kind \<times> string) list" where
  "tab_kind_names = [(TabText, ''text''), (TabImage, ''image'')]"

datatype sidebar_view = SbExplorer | SbSearch | SbSourceControl | SbRun | SbAi | SbExtensions

definition WORKBENCH_SIDEBAR_VIEWS :: "(sidebar_view \<times> string) list" where
  "WORKBENCH_SIDEBAR_VIEWS = [(SbExplorer, ''explorer''), (SbSearch, ''search''),
     (SbSourceControl, ''source-control''), (SbRun, ''run''), (SbAi, ''ai''),
     (SbExtensions, ''extensions'')]"

type_synonym view_state = "(string \<times> json_value) list"

record tab_state =
  tb_path :: ustr
  tb_pinned :: bool
  tb_order :: int
  tb_kind :: "tab_kind option"

record view_entry =
  ve_path :: ustr
  ve_viewState :: view_state
  ve_updatedAt :: ustr

record workbench_state =
  wb_activeSidebarView :: sidebar_view
  wb_explorerExpandedPaths :: "ustr list"
  wb_explorerSelectedPath :: "ustr option"
  wb_isTerminalVisible :: bool

record session_snapshot =
  sn_workspaceRoot :: "ustr option"
  sn_openTabs :: "tab_state list"
  sn_activeTabPath :: "ustr option"
  sn_viewStates :: "view_entry list"
  sn_workbench :: workbench_state
  sn_recentWorkspaces :: "ustr list"
  sn_recentFiles :: "ustr list"
  sn_savedAt :: ustr

section \<open>The schema\<close>

definition zmax_len :: "nat \<Rightarrow> 'a list option \<Rightarrow> 'a list option" where
  "zmax_len n r = (case r of Some xs \<Rightarrow> (if length xs \<le> n then Some xs else None) | None \<Rightarrow> None)"

definition zcheck :: "('a \<Rightarrow> bool) \<Rightarrow> 'a option \<Rightarrow> 'a option" where
  "zcheck P r = (case r of Some x \<Rightarrow> (if P x then Some x else None) | None \<Rightarrow> None)"

definition tabStateSchema :: "json_value \<Rightarrow> tab_state option" where
  "tabStateSchema v = do {
     fs \<leftarrow> zobject v;
     p \<leftarrow> zmin1 (jfield fs ''path'');
     pin \<leftarrow> zdefault False zbool (jfield fs ''pinned'');
     ord \<leftarrow> zint_min 0 (jfield fs ''order'');
     k \<leftarrow> zoptional (zenum tab_kind_names) (jfield fs ''kind'');
     Some \<lparr>tb_path = p, tb_pinned = pin, tb_order = ord, tb_kind = k\<rparr> }"

definition editorViewStateEntrySchema :: "(ustr \<Rightarrow> bool) \<Rightarrow> json_value \<Rightarrow> view_entry option" where
  "editorViewStateEntrySchema isdt v = do {
     fs \<leftarrow> zobject v;
     p \<leftarrow> zmin1 (jfield fs ''path'');
     vs \<leftarrow> zobject (jfield fs ''viewState'');
     t \<leftarrow> zcheck isdt (zstring (jfield fs ''updatedAt''));
     Some \<lparr>ve_path = p, ve_viewState = vs, ve_updatedAt = t\<rparr> }"

definition default_workbench :: workbench_state where
  "default_workbench = \<lparr>wb_activeSidebarView = SbExplorer, wb_explorerExpandedPaths = [],
     wb_explorerSelectedPath = None, wb_isTerminalVisible = True\<rparr>"

definition MAX_EXPANDED :: nat where
  "MAX_EXPANDED = 120"

definition workbench_object :: "json_value \<Rightarrow> workbench_state option" where
  "workbench_object v = do {
     fs \<leftarrow> zobject v;
     a \<leftarrow> zdefault SbExplorer (zenum WORKBENCH_SIDEBAR_VIEWS) (jfield fs ''activeSidebarView'');
     ex \<leftarrow> zdefault [] (\<lambda>v. zmax_len MAX_EXPANDED (zarray zmin1 v)) (jfield fs ''explorerExpandedPaths'');
     sel \<leftarrow> zdefault None (znullable zstring) (jfield fs ''explorerSelectedPath'');
     t \<leftarrow> zdefault True zbool (jfield fs ''isTerminalVisible'');
     Some \<lparr>wb_activeSidebarView = a, wb_explorerExpandedPaths = ex,
       wb_explorerSelectedPath = sel, wb_isTerminalVisible = t\<rparr> }"

definition sessionWorkbenchStateSchema :: "json_value \<Rightarrow> workbench_state option" where
  "sessionWorkbenchStateSchema = zdefault default_workbench workbench_object"

definition MAX_TABS :: nat where "MAX_TABS = 30"

definition MAX_VIEW_STATES :: nat where "MAX_VIEW_STATES = 30"

definition MAX_WORKSPACES :: nat where "MAX_WORKSPACES = 10"

definition MAX_FILES :: nat where "MAX_FILES = 50"

definition sessionSnapshotSchema :: "(ustr \<Rightarrow> bool) \<Rightarrow> json_value \<Rightarrow> session_snapshot option" where
  "sessionSnapshotSchema isdt v = do {
     fs \<leftarrow> zobject v;
     ver \<leftarrow> zcheck (\<lambda>i. i = 1) (zint (jfield fs ''schemaVersion''));
     root \<leftarrow> znullable zstring (jfield fs ''workspaceRoot'');
     tabs \<leftarrow> zmax_len MAX_TABS (zarray tabStateSchema (jfield fs ''openTabs''));
     active \<leftarrow> znullable zstring (jfield fs ''activeTabPath'');
     vs \<leftarrow> zmax_len MAX_VIEW_STATES (zarray (editorViewStateEntrySchema isdt) (jfield fs ''viewStates''));
     wb \<leftarrow> sessionWorkbenchStateSchema (jfield fs ''workbench'');
     rw \<leftarrow> zmax_len MAX_WORKSPACES (zarray zstring (jfield fs ''recentWorkspaces''));
     rf \<leftarrow> zmax_len MAX_FILES (zarray zstring (jfield fs ''recentFiles''));
     saved \<leftarrow> zcheck isdt (zstring (jfield fs ''savedAt''));
     Some \<lparr>sn_workspaceRoot = root, sn_openTabs = tabs, sn_activeTabPath = active,
       sn_viewStates = vs, sn_workbench = wb, sn_recentWorkspaces = rw, sn_recentFiles = rf,
       sn_savedAt = saved\<rparr> }"

section \<open>What \<open>JSON.stringify\<close> writes\<close>

definition jnull_or :: "ustr option \<Rightarrow> json_value" where
  "jnull_or x = (case x of None \<Rightarrow> JNull | Some s \<Rightarrow> JStr s)"

definition tab_json :: "tab_state \<Rightarrow> json_value" where
  "tab_json t = JObj ([(''path'', JStr (tb_path t)), (''pinned'', JBool (tb_pinned t)),
     (''order'', JInt (tb_order t))] @ jopt ''kind'' (enum_name tab_kind_names) (tb_kind t))"

definition view_json :: "view_entry \<Rightarrow> json_value" where
  "view_json e = JObj [(''path'', JStr (ve_path e)), (''viewState'', JObj (ve_viewState e)),
     (''updatedAt'', JStr (ve_updatedAt e))]"

definition workbench_json :: "workbench_state \<Rightarrow> json_value" where
  "workbench_json w = JObj
     [(''activeSidebarView'', enum_name WORKBENCH_SIDEBAR_VIEWS (wb_activeSidebarView w)),
      (''explorerExpandedPaths'', jstrings (wb_explorerExpandedPaths w)),
      (''explorerSelectedPath'', jnull_or (wb_explorerSelectedPath w)),
      (''isTerminalVisible'', JBool (wb_isTerminalVisible w))]"

definition snapshot_json :: "session_snapshot \<Rightarrow> json_value" where
  "snapshot_json s = JObj
     [(''schemaVersion'', JInt 1), (''workspaceRoot'', jnull_or (sn_workspaceRoot s)),
      (''openTabs'', JArr (map tab_json (sn_openTabs s))),
      (''activeTabPath'', jnull_or (sn_activeTabPath s)),
      (''viewStates'', JArr (map view_json (sn_viewStates s))),
      (''workbench'', workbench_json (sn_workbench s)),
      (''recentWorkspaces'', jstrings (sn_recentWorkspaces s)),
      (''recentFiles'', jstrings (sn_recentFiles s)), (''savedAt'', JStr (sn_savedAt s))]"

section \<open>What the schema accepts\<close>

definition tab_valid :: "tab_state \<Rightarrow> bool" where
  "tab_valid t \<longleftrightarrow> tb_path t \<noteq> [] \<and> 0 \<le> tb_order t \<and> is_safe_integer (tb_order t)"

definition view_valid :: "(ustr \<Rightarrow> bool) \<Rightarrow> view_entry \<Rightarrow> bool" where
  "view_valid isdt e \<longleftrightarrow> ve_path e \<noteq> [] \<and> isdt (ve_updatedAt e)"

definition workbench_valid :: "workbench_state \<Rightarrow> bool" where
  "workbench_valid w \<longleftrightarrow> strings_valid (wb_explorerExpandedPaths w) \<and>
     length (wb_explorerExpandedPaths w) \<le> MAX_EXPANDED"

definition snapshot_valid :: "(ustr \<Rightarrow> bool) \<Rightarrow> session_snapshot \<Rightarrow> bool" where
  "snapshot_valid isdt s \<longleftrightarrow>
     list_all tab_valid (sn_openTabs s) \<and> length (sn_openTabs s) \<le> MAX_TABS \<and>
     list_all (view_valid isdt) (sn_viewStates s) \<and> length (sn_viewStates s) \<le> MAX_VIEW_STATES \<and>
     workbench_valid (sn_workbench s) \<and> length (sn_recentWorkspaces s) \<le> MAX_WORKSPACES \<and>
     length (sn_recentFiles s) \<le> MAX_FILES \<and> isdt (sn_savedAt s)"

lemma znullable_jnull [simp]: "znullable zstring (jnull_or x) = Some x"
  by (cases x) (simp_all add: znullable_def jnull_or_def)

lemma jnull_defined [simp]: "jnull_or x \<noteq> JUndefined"
  by (cases x) (simp_all add: jnull_or_def)

lemma tab_kind_enum [simp]: "zenum tab_kind_names (enum_name tab_kind_names k) = Some k"
  by (cases k) (simp_all add: zenum_def enum_name_def tab_kind_names_def)

lemma tab_kind_defined [simp]: "enum_name tab_kind_names k \<noteq> JUndefined"
  by (cases k) (simp_all add: enum_name_def tab_kind_names_def)

lemma sidebar_enum [simp]:
  "zenum WORKBENCH_SIDEBAR_VIEWS (enum_name WORKBENCH_SIDEBAR_VIEWS k) = Some k"
  by (cases k) (simp_all add: zenum_def enum_name_def WORKBENCH_SIDEBAR_VIEWS_def)

lemma sidebar_defined [simp]: "enum_name WORKBENCH_SIDEBAR_VIEWS k \<noteq> JUndefined"
  by (cases k) (simp_all add: enum_name_def WORKBENCH_SIDEBAR_VIEWS_def)

lemma tab_round_trip: "tab_valid t \<Longrightarrow> tabStateSchema (tab_json t) = Some t"
  by (cases "tb_kind t")
    (simp_all add: tabStateSchema_def tab_json_def tab_valid_def jopt_def jfield_def zoptional_def
      zdefault_def zint_min_def)

lemma view_round_trip: "view_valid isdt e \<Longrightarrow> editorViewStateEntrySchema isdt (view_json e) = Some e"
  by (simp add: editorViewStateEntrySchema_def view_json_def view_valid_def jfield_def zcheck_def)

lemma zarray_min1_jstrings: "zarray zmin1 (jstrings xs) = (if strings_valid xs then Some xs else None)"
  by (simp add: zarray_def jstrings_def zall_strings)

lemma zarray_string_jstrings [simp]: "zarray zstring (jstrings xs) = Some xs"
  by (induction xs) (auto simp: zarray_def jstrings_def)

lemma jstrings_defined [simp]: "jstrings xs \<noteq> JUndefined"
  by (simp add: jstrings_def)

lemma workbench_round_trip:
  "workbench_valid w \<Longrightarrow> sessionWorkbenchStateSchema (workbench_json w) = Some w"
  by (simp add: sessionWorkbenchStateSchema_def workbench_object_def workbench_json_def
      workbench_valid_def jfield_def zdefault_def zarray_min1_jstrings zmax_len_def)

lemma snapshot_round_trip:
  assumes "snapshot_valid isdt s"
  shows "sessionSnapshotSchema isdt (snapshot_json s) = Some s"
proof -
  have "zarray tabStateSchema (JArr (map tab_json (sn_openTabs s))) = Some (sn_openTabs s)"
    using assms by (auto simp: zarray_def snapshot_valid_def list_all_iff intro!: zall_map tab_round_trip)
  moreover have "zarray (editorViewStateEntrySchema isdt) (JArr (map view_json (sn_viewStates s))) =
      Some (sn_viewStates s)"
    using assms by (auto simp: zarray_def snapshot_valid_def list_all_iff intro!: zall_map view_round_trip)
  ultimately show ?thesis
    using assms
    by (simp add: sessionSnapshotSchema_def snapshot_json_def snapshot_valid_def jfield_def
        zmax_len_def zcheck_def workbench_round_trip is_safe_integer_def max_safe_integer_def)
qed

lemma zmax_len_SomeD: "zmax_len n r = Some xs \<Longrightarrow> r = Some xs \<and> length xs \<le> n"
  by (auto simp: zmax_len_def split: option.splits if_splits)

lemma zcheck_SomeD: "zcheck P r = Some x \<Longrightarrow> P x"
  by (auto simp: zcheck_def split: option.splits if_splits)

lemma tab_schema_valid: "tabStateSchema v = Some t \<Longrightarrow> tab_valid t"
proof -
  assume "tabStateSchema v = Some t"
  then obtain fs where "zmin1 (jfield fs ''path'') = Some (tb_path t)"
    "zint_min 0 (jfield fs ''order'') = Some (tb_order t)"
    by (auto simp: tabStateSchema_def bind_eq_Some_conv)
  then show ?thesis
    by (cases "jfield fs ''order''")
      (auto simp: tab_valid_def zint_min_def dest: zmin1_SomeD split: if_splits)
qed

lemma view_schema_valid: "editorViewStateEntrySchema isdt v = Some e \<Longrightarrow> view_valid isdt e"
  by (auto simp: editorViewStateEntrySchema_def view_valid_def bind_eq_Some_conv
      dest: zmin1_SomeD zcheck_SomeD)

lemma default_workbench_valid: "workbench_valid default_workbench"
  by (simp add: workbench_valid_def default_workbench_def strings_valid_def)

lemma workbench_schema_valid: "sessionWorkbenchStateSchema v = Some w \<Longrightarrow> workbench_valid w"
proof (cases "v = JUndefined")
  assume w: "sessionWorkbenchStateSchema v = Some w" and "v \<noteq> JUndefined"
  then obtain fs where "zdefault [] (\<lambda>v. zmax_len MAX_EXPANDED (zarray zmin1 v))
      (jfield fs ''explorerExpandedPaths'') = Some (wb_explorerExpandedPaths w)"
    by (auto simp: sessionWorkbenchStateSchema_def zdefault_def [of default_workbench]
        workbench_object_def bind_eq_Some_conv)
  then show ?thesis
    by (auto simp: workbench_valid_def zdefault_def strings_valid_def split: if_splits
        dest!: zmax_len_SomeD dest: zarray_min1_valid)
qed (auto simp: sessionWorkbenchStateSchema_def zdefault_def default_workbench_valid)

lemma snapshot_schema_valid: "sessionSnapshotSchema isdt v = Some s \<Longrightarrow> snapshot_valid isdt s"
proof -
  assume "sessionSnapshotSchema isdt v = Some s"
  then obtain fs where
    f: "zmax_len MAX_TABS (zarray tabStateSchema (jfield fs ''openTabs'')) = Some (sn_openTabs s)"
    "zmax_len MAX_VIEW_STATES (zarray (editorViewStateEntrySchema isdt) (jfield fs ''viewStates'')) =
       Some (sn_viewStates s)"
    "sessionWorkbenchStateSchema (jfield fs ''workbench'') = Some (sn_workbench s)"
    "zmax_len MAX_WORKSPACES (zarray zstring (jfield fs ''recentWorkspaces'')) = Some (sn_recentWorkspaces s)"
    "zmax_len MAX_FILES (zarray zstring (jfield fs ''recentFiles'')) = Some (sn_recentFiles s)"
    "zcheck isdt (zstring (jfield fs ''savedAt'')) = Some (sn_savedAt s)"
    by (auto simp: sessionSnapshotSchema_def bind_eq_Some_conv)
  have "list_all tab_valid (sn_openTabs s)"
    using zarray_all [OF conjunct1 [OF zmax_len_SomeD [OF f(1)]] tab_schema_valid]
    by (simp add: list_all_iff)
  moreover have "list_all (view_valid isdt) (sn_viewStates s)"
    using zarray_all [OF conjunct1 [OF zmax_len_SomeD [OF f(2)]] view_schema_valid]
    by (simp add: list_all_iff)
  ultimately show ?thesis
    using f workbench_schema_valid [OF f(3)]
    by (auto simp: snapshot_valid_def dest: zmax_len_SomeD zcheck_SomeD)
qed

end
