(* ===== verification/EditorStore.thy ===== *)
theory EditorStore
  imports Uri SessionSchema RunLog
begin

text \<open>
  The editor store (\<open>src/store/editor.ts\<close>): open documents, the session snapshot that is persisted,
  terminal output, logs and run state. Strings are lists of UTF-16 code units. Fresh identifiers and
  clock readings (\<open>toISOString\<close>) are arguments; payloads the store only keeps are JSON values.
  Loading a stored session only replaces the snapshot, so a run starts from any snapshot. The
  executor, which has one value, is left out.
\<close>

section \<open>Documents\<close>

datatype document_kind = KText | KImage | KAiDiff | KGitDiff

datatype document_encoding = Utf8 | Utf8Bom | Gbk | Gb18030 | Utf16le | Utf16be

record ai_preview =
  av_id :: ustr
  av_title :: ustr
  av_rest :: json_value

record git_preview =
  gv_id :: ustr
  gv_title :: ustr
  gv_modifiedContent :: ustr
  gv_rest :: json_value

record editor_document =
  dc_id :: ustr
  dc_path :: "ustr option"
  dc_name :: ustr
  dc_kind :: document_kind
  dc_content :: ustr
  dc_encoding :: document_encoding
  dc_savedContent :: ustr
  dc_savedEncoding :: document_encoding
  dc_isDirty :: bool
  dc_lineCount :: nat
  dc_charCount :: nat
  dc_aiDiffPreview :: "ai_preview option"
  dc_gitDiffPreview :: "git_preview option"

record file_payload =
  sf_path :: ustr
  sf_name :: ustr
  sf_content :: ustr
  sf_encoding :: document_encoding

record overrides =
  ov_id :: "ustr option"
  ov_path :: "ustr option"
  ov_name :: "ustr option"
  ov_kind :: "document_kind option"
  ov_content :: "ustr option"
  ov_encoding :: "document_encoding option"
  ov_savedContent :: "ustr option"
  ov_savedEncoding :: "document_encoding option"
  ov_aiDiffPreview :: "ai_preview option"
  ov_gitDiffPreview :: "git_preview option"

definition no_overrides :: overrides where
  "no_overrides = \<lparr>ov_id = None, ov_path = None, ov_name = None, ov_kind = None, ov_content = None,
     ov_encoding = None, ov_savedContent = None, ov_savedEncoding = None, ov_aiDiffPreview = None,
     ov_gitDiffPreview = None\<rparr>"

definition DEFAULT_SCRIPT :: ustr where
  "DEFAULT_SCRIPT = lit ''#!/bin/bash'' @ [10, 10] @ lit ''set -euo pipefail'' @ [10, 10] @
     lit ''main() {'' @ [10] @ lit ''  echo '' @ [34] @ lit ''Hello SH Editor'' @ [34, 10] @
     lit ''}'' @ [10, 10] @ lit ''main '' @ [34, 36, 64, 34, 10]"

definition count_lines :: "ustr \<Rightarrow> nat" where
  "count_lines s = (if s = [] then 1 else Suc (length (filter (\<lambda>c. c = 10) s)))"

definition syncDocumentState :: "editor_document \<Rightarrow> editor_document" where
  "syncDocumentState d = d\<lparr>dc_lineCount := count_lines (dc_content d),
     dc_charCount := countCharacters (dc_content d),
     dc_isDirty := (dc_content d \<noteq> dc_savedContent d \<or> dc_encoding d \<noteq> dc_savedEncoding d)\<rparr>"

definition untitled_name :: "nat \<Rightarrow> ustr" where
  "untitled_name i = lit (''untitled-'' @ show_nat i @ ''.sh'')"

lemma untitled_name_inj: "untitled_name i = untitled_name j \<Longrightarrow> i = j"
  by (simp add: untitled_name_def)

lemma finite_untitled: "finite {j. i \<le> j \<and> untitled_name j \<in> set occupied}"
proof (rule finite_subset)
  show "{j. i \<le> j \<and> untitled_name j \<in> set occupied} \<subseteq> untitled_name -` set occupied" by auto
  show "finite (untitled_name -` set occupied)"
    by (rule finite_vimageI) (auto intro: injI untitled_name_inj)
qed

text \<open>The loop of \<open>resolveUntitledName\<close>: it ends because only finitely many names are taken.\<close>

function untitled_index :: "ustr list \<Rightarrow> nat \<Rightarrow> nat" where
  "untitled_index occupied i =
     (if untitled_name i \<in> set occupied then untitled_index occupied (Suc i) else i)"
  by pat_completeness auto
termination
proof (relation "measure (\<lambda>(occupied, i). card {j. i \<le> j \<and> untitled_name j \<in> set occupied})", goal_cases)
  case (2 occupied i)
  let ?later = "\<lambda>i. {j. i \<le> j \<and> untitled_name j \<in> set occupied}"
  have "?later (Suc i) \<subseteq> ?later i" by auto
  moreover have "i \<in> ?later i" "i \<notin> ?later (Suc i)" using 2 by auto
  ultimately have "?later (Suc i) \<subset> ?later i" by blast
  then show ?case using finite_untitled by (auto intro: psubset_card_mono)
qed simp

declare untitled_index.simps [simp del]

definition resolveUntitledName :: "path_env \<Rightarrow> editor_document list \<Rightarrow> ustr" where
  "resolveUntitledName env docs =
     (let occupied = map (\<lambda>d. pa_lower env (dc_name d))
            (filter (\<lambda>d. dc_path d = None \<or> dc_path d = Some []) docs)
      in if lit ''untitled.sh'' \<notin> set occupied then lit ''untitled.sh''
         else untitled_name (untitled_index occupied 1))"

definition createDocument ::
    "path_env \<Rightarrow> ustr \<Rightarrow> editor_document list \<Rightarrow> overrides \<Rightarrow> editor_document" where
  "createDocument env fresh docs ov =
     (let content = orElse (ov_content ov) DEFAULT_SCRIPT;
          enc = orElse (ov_encoding ov) Utf8
      in syncDocumentState
           \<lparr>dc_id = orElse (ov_id ov) fresh, dc_path = ov_path ov,
            dc_name = orElse (ov_name ov) (resolveUntitledName env docs),
            dc_kind = orElse (ov_kind ov) KText, dc_content = content, dc_encoding = enc,
            dc_savedContent = orElse (ov_savedContent ov) content,
            dc_savedEncoding = orElse (ov_savedEncoding ov) enc,
            dc_isDirty = False, dc_lineCount = 1, dc_charCount = 0,
            dc_aiDiffPreview = ov_aiDiffPreview ov, dc_gitDiffPreview = ov_gitDiffPreview ov\<rparr>)"

section \<open>State\<close>

record editor =
  ed_documents :: "editor_document list"
  ed_session :: session_snapshot
  ed_environment :: json_value
  ed_cursorLine :: int
  ed_cursorColumn :: int
  ed_selection :: "json_value option"
  ed_output :: terminal_output
  ed_runLogs :: "run_log list"
  ed_runHistory :: "(ustr \<times> history_entry) list"
  ed_lastRunResult :: "run_result option"
  ed_activeRunSummary :: "active_run_summary option"
  ed_isRunning :: bool
  ed_workspaceRootPath :: "ustr option"
  ed_protectedRoots :: "ustr list"
  ed_activeDocumentId :: ustr
  ed_pendingTerminalRunId :: "ustr option"
  ed_analysis :: "(ustr, json_value) jsmap"

definition MAX_RUN_LOG_ENTRIES :: nat where "MAX_RUN_LOG_ENTRIES = 500"

definition MAX_RUN_HISTORY_ENTRIES :: nat where "MAX_RUN_HISTORY_ENTRIES = 30"

definition MAX_OPEN_TABS :: nat where "MAX_OPEN_TABS = 30"

definition MAX_RECENT_WORKSPACES :: nat where "MAX_RECENT_WORKSPACES = 10"

definition MAX_RECENT_FILES :: nat where "MAX_RECENT_FILES = 50"

definition MAX_VIEW_STATE_ENTRIES :: nat where "MAX_VIEW_STATE_ENTRIES = 30"

definition MAX_EXPLORER_EXPANDED_PATHS :: nat where "MAX_EXPLORER_EXPANDED_PATHS = 120"

definition createEmptySessionSnapshot :: "ustr \<Rightarrow> session_snapshot" where
  "createEmptySessionSnapshot now = \<lparr>sn_workspaceRoot = None, sn_openTabs = [],
     sn_activeTabPath = None, sn_viewStates = [], sn_workbench = default_workbench,
     sn_recentWorkspaces = [], sn_recentFiles = [], sn_savedAt = now\<rparr>"

definition new_editor :: "session_snapshot \<Rightarrow> editor" where
  "new_editor snap = \<lparr>ed_documents = [], ed_session = snap, ed_environment = JObj [(''recommended'', JStr (lit ''wsl'')),
       (''hasAny'', JBool False), (''executors'', JArr [])],
     ed_cursorLine = 1, ed_cursorColumn = 1, ed_selection = None, ed_output = empty_output,
     ed_runLogs = [], ed_runHistory = [], ed_lastRunResult = None, ed_activeRunSummary = None,
     ed_isRunning = False, ed_workspaceRootPath = None, ed_protectedRoots = [],
     ed_activeDocumentId = [], ed_pendingTerminalRunId = None, ed_analysis = []\<rparr>"

section \<open>Session helpers\<close>

definition on_session :: "(session_snapshot \<Rightarrow> session_snapshot) \<Rightarrow> editor \<Rightarrow> editor" where
  "on_session f s = s\<lparr>ed_session := f (ed_session s)\<rparr>"

definition touchSessionSnapshot :: "ustr \<Rightarrow> editor \<Rightarrow> editor" where
  "touchSessionSnapshot now = on_session (\<lambda>n. n\<lparr>sn_savedAt := now\<rparr>)"

definition norm_path :: "path_env \<Rightarrow> ustr \<Rightarrow> ustr" where
  "norm_path env p = normalizeFileSystemPath env default_normalize p"

definition pushRecentEntry :: "path_env \<Rightarrow> ustr list \<Rightarrow> ustr \<Rightarrow> nat \<Rightarrow> ustr list option" where
  "pushRecentEntry env xs p n =
     (let q = norm_path env p in
      if q = [] then None
      else Some (take n (q # filter (\<lambda>x. norm_path env x \<noteq> q) xs)))"

definition pushRecentFile :: "path_env \<Rightarrow> ustr \<Rightarrow> editor \<Rightarrow> editor" where
  "pushRecentFile env p = on_session (\<lambda>n.
     case pushRecentEntry env (sn_recentFiles n) p MAX_RECENT_FILES of
       Some xs \<Rightarrow> n\<lparr>sn_recentFiles := xs\<rparr> | None \<Rightarrow> n)"

definition pushRecentWorkspace :: "path_env \<Rightarrow> ustr \<Rightarrow> editor \<Rightarrow> editor" where
  "pushRecentWorkspace env p = on_session (\<lambda>n.
     case pushRecentEntry env (sn_recentWorkspaces n) p MAX_RECENT_WORKSPACES of
       Some xs \<Rightarrow> n\<lparr>sn_recentWorkspaces := xs\<rparr> | None \<Rightarrow> n)"

fun persistable_kind :: "document_kind \<Rightarrow> tab_kind option" where
  "persistable_kind KText = Some TabText"
| "persistable_kind KImage = Some TabImage"
| "persistable_kind _ = None"

definition persistable :: "editor_document \<Rightarrow> bool" where
  "persistable d \<longleftrightarrow> dc_path d \<noteq> None \<and> dc_path d \<noteq> Some [] \<and> persistable_kind (dc_kind d) \<noteq> None"

definition tab_of :: "nat \<Rightarrow> editor_document \<Rightarrow> tab_state" where
  "tab_of i d = \<lparr>tb_path = the (dc_path d), tb_pinned = False, tb_order = int i,
     tb_kind = persistable_kind (dc_kind d)\<rparr>"

definition open_tabs :: "editor_document list \<Rightarrow> tab_state list" where
  "open_tabs docs = (let ps = take MAX_OPEN_TABS (filter persistable docs)
     in map2 tab_of [0..<length ps] ps)"

definition first_tab_path :: "tab_state list \<Rightarrow> ustr option" where
  "first_tab_path ts = (case ts of [] \<Rightarrow> None | t # _ \<Rightarrow> Some (tb_path t))"

definition syncSessionOpenTabs :: "path_env \<Rightarrow> editor \<Rightarrow> editor" where
  "syncSessionOpenTabs env s = on_session (\<lambda>n.
     let n1 = n\<lparr>sn_openTabs := open_tabs (ed_documents s)\<rparr> in
     case sn_activeTabPath n1 of
       None \<Rightarrow> n1
     | Some p \<Rightarrow>
         (if p \<noteq> [] \<and> \<not> list_ex (\<lambda>t. norm_path env (tb_path t) = norm_path env p) (sn_openTabs n1)
          then n1\<lparr>sn_activeTabPath := first_tab_path (sn_openTabs n1)\<rparr> else n1)) s"

text \<open>The watcher of \<open>[documents, activeDocumentId]\<close>, run at every assignment to either.\<close>

definition watch_active :: "editor \<Rightarrow> editor" where
  "watch_active s =
     (case ed_documents s of
        [] \<Rightarrow> s\<lparr>ed_activeDocumentId := []\<rparr>
      | d # _ \<Rightarrow> (if list_ex (\<lambda>x. dc_id x = ed_activeDocumentId s) (ed_documents s) then s
                 else s\<lparr>ed_activeDocumentId := dc_id d\<rparr>))"

definition find_id :: "ustr \<Rightarrow> editor \<Rightarrow> editor_document option" where
  "find_id i s = find (\<lambda>d. dc_id d = i) (ed_documents s)"

definition getDocumentById :: "ustr \<Rightarrow> editor \<Rightarrow> editor_document option" where
  "getDocumentById i s =
     (if i = [] then (if ed_activeDocumentId s = [] then None else find_id (ed_activeDocumentId s) s)
      else find_id i s)"

definition findDocumentByPath :: "path_env \<Rightarrow> ustr \<Rightarrow> editor \<Rightarrow> editor_document option" where
  "findDocumentByPath env p s =
     (let q = norm_path env p in
      if p = [] \<or> q = [] then None
      else find (\<lambda>d. case dc_path d of Some r \<Rightarrow> norm_path env r = q | None \<Rightarrow> False) (ed_documents s))"

section \<open>View state and workbench\<close>

definition saveEditorViewState :: "path_env \<Rightarrow> ustr \<Rightarrow> ustr \<Rightarrow> view_state \<Rightarrow> editor \<Rightarrow> editor" where
  "saveEditorViewState env now p vs s =
     (let q = norm_path env p in
      if q = [] then s
      else touchSessionSnapshot now (on_session (\<lambda>n.
        n\<lparr>sn_viewStates := take MAX_VIEW_STATE_ENTRIES
          (\<lparr>ve_path = q, ve_viewState = vs, ve_updatedAt = now\<rparr> #
           filter (\<lambda>e. norm_path env (ve_path e) \<noteq> q) (sn_viewStates n))\<rparr>) s))"

definition getEditorViewState :: "path_env \<Rightarrow> ustr \<Rightarrow> editor \<Rightarrow> view_state option" where
  "getEditorViewState env p s =
     (let q = norm_path env p in
      if q = [] then None
      else map_option ve_viewState
        (find (\<lambda>e. norm_path env (ve_path e) = q) (sn_viewStates (ed_session s))))"

record workbench_patch =
  wp_activeSidebarView :: "sidebar_view option"
  wp_explorerExpandedPaths :: "ustr list option"
  wp_explorerSelectedPath :: "ustr option option"
  wp_isTerminalVisible :: "bool option"

definition setWorkbenchSessionState :: "path_env \<Rightarrow> ustr \<Rightarrow> workbench_patch \<Rightarrow> editor \<Rightarrow> editor" where
  "setWorkbenchSessionState env now patch =
     touchSessionSnapshot now \<circ> on_session (\<lambda>n.
       let w = sn_workbench n in
       n\<lparr>sn_workbench :=
         \<lparr>wb_activeSidebarView = orElse (wp_activeSidebarView patch) (wb_activeSidebarView w),
          wb_explorerExpandedPaths = (case wp_explorerExpandedPaths patch of
             None \<Rightarrow> wb_explorerExpandedPaths w
           | Some ps \<Rightarrow> take MAX_EXPLORER_EXPANDED_PATHS
                         (filter (\<lambda>p. p \<noteq> []) (map (norm_path env) ps))),
          wb_explorerSelectedPath = (case wp_explorerSelectedPath patch of
             None \<Rightarrow> wb_explorerSelectedPath w
           | Some None \<Rightarrow> None
           | Some (Some p) \<Rightarrow> (if p = [] then None else Some (norm_path env p))),
          wb_isTerminalVisible = orElse (wp_isTerminalVisible patch) (wb_isTerminalVisible w)\<rparr>\<rparr>)"

section \<open>Opening and closing\<close>

definition reset_cursor :: "editor \<Rightarrow> editor" where
  "reset_cursor s = s\<lparr>ed_cursorLine := 1, ed_cursorColumn := 1, ed_selection := None\<rparr>"

definition setActiveDocument :: "ustr \<Rightarrow> ustr \<Rightarrow> editor \<Rightarrow> editor" where
  "setActiveDocument now i s =
     (case find_id i s of
        None \<Rightarrow> s
      | Some d \<Rightarrow> reset_cursor (touchSessionSnapshot now
          (on_session (\<lambda>n. n\<lparr>sn_activeTabPath := dc_path d\<rparr>)
            (watch_active (s\<lparr>ed_activeDocumentId := dc_id d\<rparr>)))))"

definition push_document :: "editor_document \<Rightarrow> editor \<Rightarrow> editor" where
  "push_document d s = s\<lparr>ed_documents := ed_documents s @ [d]\<rparr>"

text \<open>A new document: it is appended, activated and written to the session.\<close>

definition show_new :: "path_env \<Rightarrow> ustr \<Rightarrow> editor_document \<Rightarrow> editor \<Rightarrow> editor" where
  "show_new env now d s = touchSessionSnapshot now (syncSessionOpenTabs env
     (setActiveDocument now (dc_id d) (push_document d s)))"

definition createDocumentTab :: "path_env \<Rightarrow> ustr \<Rightarrow> ustr \<Rightarrow> overrides \<Rightarrow> editor \<Rightarrow> editor" where
  "createDocumentTab env now fresh ov s =
     show_new env now (createDocument env fresh (ed_documents s) ov) s"

text \<open>The common end of the two actions that open a file: show the tab that has the path, or a new
  one. The result is the document's id and whether it was open already.\<close>

definition open_path ::
    "path_env \<Rightarrow> ustr \<Rightarrow> ustr \<Rightarrow> ustr \<Rightarrow> overrides \<Rightarrow> editor \<Rightarrow> (ustr \<times> bool) \<times> editor" where
  "open_path env now fresh p ov s =
     (case findDocumentByPath env p s of
        Some d \<Rightarrow> ((dc_id d, True),
          touchSessionSnapshot now (pushRecentFile env p (setActiveDocument now (dc_id d) s)))
      | None \<Rightarrow>
          (let d = createDocument env fresh (ed_documents s) ov in
           ((dc_id d, False),
            touchSessionSnapshot now (syncSessionOpenTabs env (pushRecentFile env p
              (setActiveDocument now (dc_id d) (push_document d s)))))))"

definition openDocumentTab ::
    "path_env \<Rightarrow> ustr \<Rightarrow> ustr \<Rightarrow> file_payload \<Rightarrow> editor \<Rightarrow> (ustr \<times> bool) \<times> editor" where
  "openDocumentTab env now fresh f =
     open_path env now fresh (sf_path f)
       (no_overrides\<lparr>ov_path := Some (sf_path f), ov_name := Some (sf_name f),
          ov_content := Some (sf_content f), ov_encoding := Some (sf_encoding f),
          ov_savedContent := Some (sf_content f), ov_savedEncoding := Some (sf_encoding f)\<rparr>)"

definition openImageDocument ::
    "path_env \<Rightarrow> ustr \<Rightarrow> ustr \<Rightarrow> ustr \<Rightarrow> ustr \<Rightarrow> editor \<Rightarrow> (ustr \<times> bool) \<times> editor" where
  "openImageDocument env now fresh p name =
     open_path env now fresh p
       (no_overrides\<lparr>ov_path := Some p, ov_name := Some name, ov_kind := Some KImage,
          ov_content := Some [], ov_encoding := Some Utf8, ov_savedContent := Some [],
          ov_savedEncoding := Some Utf8\<rparr>)"

text \<open>The first document with a property is changed in place.\<close>

fun update_first :: "('a \<Rightarrow> bool) \<Rightarrow> ('a \<Rightarrow> 'a) \<Rightarrow> 'a list \<Rightarrow> 'a list" where
  "update_first P f [] = []"
| "update_first P f (x # xs) = (if P x then f x # xs else x # update_first P f xs)"

definition on_document :: "(editor_document \<Rightarrow> bool) \<Rightarrow> (editor_document \<Rightarrow> editor_document) \<Rightarrow>
    editor \<Rightarrow> editor" where
  "on_document P f s = s\<lparr>ed_documents := update_first P f (ed_documents s)\<rparr>"

definition openAiDiffDocument ::
    "path_env \<Rightarrow> ustr \<Rightarrow> ai_preview \<Rightarrow> editor \<Rightarrow> (ustr \<times> bool) option \<times> editor" where
  "openAiDiffDocument env now p s =
     (let same = (\<lambda>d. dc_kind d = KAiDiff \<and> map_option av_id (dc_aiDiffPreview d) = Some (av_id p)) in
      case find same (ed_documents s) of
        Some d \<Rightarrow> (Some (dc_id d, True),
          touchSessionSnapshot now (setActiveDocument now (dc_id d)
            (on_document same (\<lambda>d. d\<lparr>dc_aiDiffPreview := Some p, dc_name := av_title p\<rparr>) s)))
      | None \<Rightarrow>
          (case encodeURIComponent (av_id p) of
             None \<Rightarrow> (None, s)
           | Some u \<Rightarrow>
               (let d = createDocument env (av_id p) (ed_documents s)
                      (no_overrides\<lparr>ov_id := Some (av_id p), ov_path := Some (lit ''ai-diff://'' @ u),
                         ov_name := Some (av_title p), ov_kind := Some KAiDiff, ov_content := Some [],
                         ov_savedContent := Some [], ov_aiDiffPreview := Some p\<rparr>)
                in (Some (dc_id d, False), show_new env now d s))))"

definition openGitDiffDocument ::
    "path_env \<Rightarrow> ustr \<Rightarrow> git_preview \<Rightarrow> editor \<Rightarrow> (ustr \<times> bool) option \<times> editor" where
  "openGitDiffDocument env now p s =
     (let same = (\<lambda>d. dc_kind d = KGitDiff \<and> map_option gv_id (dc_gitDiffPreview d) = Some (gv_id p)) in
      case find same (ed_documents s) of
        Some d \<Rightarrow> (Some (dc_id d, True),
          touchSessionSnapshot now (setActiveDocument now (dc_id d)
            (on_document same (\<lambda>d. syncDocumentState (d\<lparr>dc_gitDiffPreview := Some p,
               dc_name := gv_title p, dc_content := gv_modifiedContent p,
               dc_savedContent := gv_modifiedContent p\<rparr>)) s)))
      | None \<Rightarrow>
          (case encodeURIComponent (gv_id p) of
             None \<Rightarrow> (None, s)
           | Some u \<Rightarrow>
               (let d = createDocument env (gv_id p) (ed_documents s)
                      (no_overrides\<lparr>ov_id := Some (gv_id p), ov_path := Some (lit ''git-diff://'' @ u),
                         ov_name := Some (gv_title p), ov_kind := Some KGitDiff,
                         ov_content := Some (gv_modifiedContent p),
                         ov_savedContent := Some (gv_modifiedContent p), ov_gitDiffPreview := Some p\<rparr>)
                in (Some (dc_id d, False), show_new env now d s))))"

definition applyDocumentPayload ::
    "path_env \<Rightarrow> ustr \<Rightarrow> ustr \<Rightarrow> ustr \<Rightarrow> file_payload \<Rightarrow> editor \<Rightarrow> editor" where
  "applyDocumentPayload env now fresh i f s =
     (case getDocumentById i s of
        None \<Rightarrow> snd (openDocumentTab env now fresh f s)
      | Some d \<Rightarrow>
          (let s1 = on_document (\<lambda>x. dc_id x = dc_id d) (\<lambda>x. syncDocumentState
                 (x\<lparr>dc_path := Some (sf_path f), dc_name := sf_name f, dc_kind := KText,
                    dc_content := sf_content f, dc_encoding := sf_encoding f,
                    dc_savedContent := sf_content f, dc_savedEncoding := sf_encoding f\<rparr>)) s
           in if sf_path f \<noteq> []
              then touchSessionSnapshot now (syncSessionOpenTabs env (pushRecentFile env (sf_path f) s1))
              else s1))"

definition edit_text :: "ustr \<Rightarrow> (editor_document \<Rightarrow> editor_document) \<Rightarrow> editor \<Rightarrow> editor" where
  "edit_text i f s =
     (case getDocumentById i s of
        None \<Rightarrow> s
      | Some d \<Rightarrow> (if dc_kind d = KText
                 then on_document (\<lambda>x. dc_id x = dc_id d) (\<lambda>x. syncDocumentState (f x)) s else s))"

definition updateDocumentContent :: "ustr \<Rightarrow> ustr \<Rightarrow> editor \<Rightarrow> editor" where
  "updateDocumentContent i content = edit_text i (\<lambda>d. d\<lparr>dc_content := content\<rparr>)"

definition updateDocumentEncoding :: "ustr \<Rightarrow> document_encoding \<Rightarrow> editor \<Rightarrow> editor" where
  "updateDocumentEncoding i enc = edit_text i (\<lambda>d. d\<lparr>dc_encoding := enc\<rparr>)"

text \<open>The active document, or the empty one, whose id is the empty string.\<close>

definition EMPTY_DOCUMENT :: editor_document where
  "EMPTY_DOCUMENT = \<lparr>dc_id = [], dc_path = None, dc_name = [26410, 25171, 24320, 25991, 20214],
     dc_kind = KText, dc_content = [], dc_encoding = Utf8, dc_savedContent = [],
     dc_savedEncoding = Utf8, dc_isDirty = False, dc_lineCount = 1, dc_charCount = 0,
     dc_aiDiffPreview = None, dc_gitDiffPreview = None\<rparr>"

definition active_document :: "editor \<Rightarrow> editor_document" where
  "active_document s = orElse (find_id (ed_activeDocumentId s) s) EMPTY_DOCUMENT"

definition active_document_id :: "editor \<Rightarrow> ustr" where
  "active_document_id s = dc_id (active_document s)"

definition updateActiveDocumentContent :: "ustr \<Rightarrow> editor \<Rightarrow> editor" where
  "updateActiveDocumentContent content s = updateDocumentContent (active_document_id s) content s"

definition updateActiveDocumentEncoding :: "document_encoding \<Rightarrow> editor \<Rightarrow> editor" where
  "updateActiveDocumentEncoding enc s = updateDocumentEncoding (active_document_id s) enc s"

definition clearDocumentAnalysis :: "ustr \<Rightarrow> editor \<Rightarrow> editor" where
  "clearDocumentAnalysis i s = s\<lparr>ed_analysis := jm_delete (ed_analysis s) i\<rparr>"

definition setDocumentAnalysis :: "ustr \<Rightarrow> json_value \<Rightarrow> editor \<Rightarrow> editor" where
  "setDocumentAnalysis i a s = s\<lparr>ed_analysis := jm_set (ed_analysis s) i a\<rparr>"

fun index_of :: "('a \<Rightarrow> bool) \<Rightarrow> 'a list \<Rightarrow> nat option" where
  "index_of P [] = None"
| "index_of P (x # xs) = (if P x then Some 0 else map_option Suc (index_of P xs))"

definition closeDocument :: "path_env \<Rightarrow> ustr \<Rightarrow> ustr \<Rightarrow> editor \<Rightarrow> editor" where
  "closeDocument env now i s =
     (case index_of (\<lambda>d. dc_id d = i) (ed_documents s) of
        None \<Rightarrow> s
      | Some k \<Rightarrow>
          (let wasActive = (dc_id (ed_documents s ! k) = ed_activeDocumentId s);
               s1 = clearDocumentAnalysis i s;
               s2 = s1\<lparr>ed_documents := take k (ed_documents s1) @ drop (Suc k) (ed_documents s1)\<rparr>;
               s3 = touchSessionSnapshot now (syncSessionOpenTabs env s2)
           in if ed_documents s3 = []
              then reset_cursor (on_session (\<lambda>n. n\<lparr>sn_activeTabPath := None\<rparr>)
                     (watch_active (s3\<lparr>ed_activeDocumentId := []\<rparr>)))
              else if wasActive
              then reset_cursor (watch_active
                     (s3\<lparr>ed_activeDocumentId := dc_id (ed_documents s3 ! (k - 1))\<rparr>))
              else s3))"

section \<open>Environment, logs and runs\<close>

definition setEnvironment :: "json_value \<Rightarrow> editor \<Rightarrow> editor" where
  "setEnvironment payload s = s\<lparr>ed_environment := payload\<rparr>"

definition setCursorPosition :: "rat \<Rightarrow> rat \<Rightarrow> editor \<Rightarrow> editor" where
  "setCursorPosition line column s = s\<lparr>ed_cursorLine := max 1 \<lfloor>line\<rfloor>, ed_cursorColumn := max 1 \<lfloor>column\<rfloor>\<rparr>"

definition setActiveSelectionSummary :: "json_value option \<Rightarrow> editor \<Rightarrow> editor" where
  "setActiveSelectionSummary x s = s\<lparr>ed_selection := x\<rparr>"

definition appendLog ::
    "ustr \<Rightarrow> ustr \<Rightarrow> log_level \<Rightarrow> ustr \<Rightarrow> ustr \<Rightarrow> log_options \<Rightarrow> editor \<Rightarrow> editor" where
  "appendLog now fresh level title detail options s =
     s\<lparr>ed_runLogs := take MAX_RUN_LOG_ENTRIES
        (\<lparr>lg_id = fresh, lg_level = level, lg_title = title,
          lg_detail = formatFileSystemTextForDisplay detail, lg_createdAt = now,
          lg_scope = lo_scope options, lg_runId = lo_runId options, lg_code = lo_code options\<rparr>
         # ed_runLogs s)\<rparr>"

definition appendRunHistory :: "ustr \<Rightarrow> history_entry \<Rightarrow> editor \<Rightarrow> editor" where
  "appendRunHistory fresh e s =
     s\<lparr>ed_runHistory := take MAX_RUN_HISTORY_ENTRIES ((fresh, e) # ed_runHistory s)\<rparr>"

definition setActiveRunSummary :: "active_run_summary option \<Rightarrow> editor \<Rightarrow> editor" where
  "setActiveRunSummary x s = s\<lparr>ed_activeRunSummary := x\<rparr>"

definition setWorkspaceRootPath :: "path_env \<Rightarrow> ustr \<Rightarrow> ustr option \<Rightarrow> editor \<Rightarrow> editor" where
  "setWorkspaceRootPath env now p s =
     (let s1 = on_session (\<lambda>n. n\<lparr>sn_workspaceRoot := p\<rparr>) (s\<lparr>ed_workspaceRootPath := p\<rparr>);
          s2 = (case p of Some q \<Rightarrow> (if q = [] then s1 else pushRecentWorkspace env q s1) | None \<Rightarrow> s1)
      in touchSessionSnapshot now s2)"

definition setProtectedWorkspaceRootPaths :: "ustr list \<Rightarrow> editor \<Rightarrow> editor" where
  "setProtectedWorkspaceRootPaths ps s = s\<lparr>ed_protectedRoots := ps\<rparr>"

definition clearDocuments :: "ustr \<Rightarrow> editor \<Rightarrow> editor" where
  "clearDocuments now s =
     (let s1 = watch_active ((watch_active (s\<lparr>ed_documents := []\<rparr>))\<lparr>ed_activeDocumentId := []\<rparr>);
          s2 = reset_cursor (on_session (\<lambda>n. n\<lparr>sn_openTabs := [], sn_activeTabPath := None\<rparr>) s1)
      in touchSessionSnapshot now (s2\<lparr>ed_analysis := []\<rparr>))"

definition clearLogs :: "editor \<Rightarrow> editor" where
  "clearLogs s = s\<lparr>ed_runLogs := [], ed_runHistory := [],
     ed_output := setTerminalOutputChunks [] (ed_output s), ed_lastRunResult := None\<rparr>"

definition setPendingTerminalRunId :: "ustr option \<Rightarrow> editor \<Rightarrow> editor" where
  "setPendingTerminalRunId x s = s\<lparr>ed_pendingTerminalRunId := x\<rparr>"

definition clearWorkspaceSession :: "ustr \<Rightarrow> editor \<Rightarrow> editor" where
  "clearWorkspaceSession now s =
     (let s1 = (clearDocuments now s)\<lparr>ed_workspaceRootPath := None\<rparr>;
          s2 = on_session (\<lambda>n. n\<lparr>sn_workspaceRoot := None,
                 sn_workbench := (sn_workbench n)\<lparr>wb_explorerExpandedPaths := [],
                   wb_explorerSelectedPath := None\<rparr>\<rparr>) s1
      in touchSessionSnapshot now ((clearLogs s2)\<lparr>ed_activeRunSummary := None,
           ed_isRunning := False, ed_pendingTerminalRunId := None\<rparr>))"

definition editor_output :: "output_call \<Rightarrow> editor \<Rightarrow> editor" where
  "editor_output c s = s\<lparr>ed_output := output_step (ed_output s) c\<rparr>"

section \<open>Getters\<close>

definition hasActiveDocument :: "editor \<Rightarrow> bool" where
  "hasActiveDocument s \<longleftrightarrow> ed_activeDocumentId s \<noteq> [] \<and> ed_documents s \<noteq> []"

definition dirtyDocuments :: "editor \<Rightarrow> editor_document list" where
  "dirtyDocuments s = filter dc_isDirty (ed_documents s)"

definition documentTitle :: "editor \<Rightarrow> ustr" where
  "documentTitle s = (let d = active_document s in
     if dc_isDirty d then dc_name d @ [32, 183, 32, 26410, 20445, 23384] else dc_name d)"

definition activeScriptAnalysis :: "editor \<Rightarrow> json_value" where
  "activeScriptAnalysis s = orElse (jm_get (ed_analysis s) (active_document_id s))
     (JObj [(''available'', JBool True), (''message'', JNull), (''dialect'', JStr (lit ''bash'')),
        (''diagnostics'', JArr [])])"

definition count_level :: "nat \<times> nat \<times> nat \<Rightarrow> json_value \<Rightarrow> nat \<times> nat \<times> nat" where
  "count_level n item =
     (let (errors, warnings, infos) = n;
          level = (case item of JObj fs \<Rightarrow> jfield fs ''level'' | _ \<Rightarrow> JUndefined)
      in if level = JStr (lit ''error'') then (errors + 1, warnings, infos)
         else if level = JStr (lit ''warning'') then (errors, warnings + 1, infos)
         else (errors, warnings, infos + 1))"

definition activeDiagnosticCounts :: "editor \<Rightarrow> nat \<times> nat \<times> nat" where
  "activeDiagnosticCounts s =
     (case activeScriptAnalysis s of
        JObj fs \<Rightarrow> (case jfield fs ''diagnostics'' of
                      JArr items \<Rightarrow> foldl count_level (0, 0, 0) items | _ \<Rightarrow> (0, 0, 0))
      | _ \<Rightarrow> (0, 0, 0))"

definition canOpenMoreTabs :: "editor \<Rightarrow> bool" where
  "canOpenMoreTabs s \<longleftrightarrow> length (ed_documents s) < MAX_OPEN_TABS"

definition hasRunArtifacts :: "editor \<Rightarrow> bool" where
  "hasRunArtifacts s \<longleftrightarrow> ed_activeRunSummary s \<noteq> None \<or> ed_lastRunResult s \<noteq> None \<or>
     ed_runLogs s \<noteq> [] \<or> ed_runHistory s \<noteq> [] \<or> 0 < to_length (ed_output s)"

section \<open>Calls\<close>

text \<open>Every action that changes the state; \<open>now\<close> and fresh identifiers are arguments.\<close>

datatype editor_call =
    SaveViewState ustr ustr view_state
  | SetWorkbench ustr workbench_patch
  | SetActive ustr ustr
  | CreateTab ustr ustr overrides
  | OpenFile ustr ustr file_payload
  | OpenImage ustr ustr ustr ustr
  | OpenAiDiff ustr ai_preview
  | OpenGitDiff ustr git_preview
  | ApplyPayload ustr ustr ustr file_payload
  | UpdateContent ustr ustr
  | UpdateActiveContent ustr
  | UpdateEncoding ustr document_encoding
  | UpdateActiveEncoding document_encoding
  | CloseDoc ustr ustr
  | SetEnvironment json_value
  | Output output_call
  | SetCursor rat rat
  | SetSelection "json_value option"
  | AppendLog ustr ustr log_level ustr ustr log_options
  | AppendHistory ustr history_entry
  | SetRunSummary "active_run_summary option"
  | SetRoot ustr "ustr option"
  | SetProtected "ustr list"
  | SetPendingRun "ustr option"
  | SetAnalysis ustr json_value
  | ClearAnalysis ustr
  | ClearDocuments ustr
  | ClearSession ustr
  | ClearLogs

fun editor_step :: "path_env \<Rightarrow> editor \<Rightarrow> editor_call \<Rightarrow> editor" where
  "editor_step env s (SaveViewState now p vs) = saveEditorViewState env now p vs s"
| "editor_step env s (SetWorkbench now p) = setWorkbenchSessionState env now p s"
| "editor_step env s (SetActive now i) = setActiveDocument now i s"
| "editor_step env s (CreateTab now fresh ov) = createDocumentTab env now fresh ov s"
| "editor_step env s (OpenFile now fresh f) = snd (openDocumentTab env now fresh f s)"
| "editor_step env s (OpenImage now fresh p n) = snd (openImageDocument env now fresh p n s)"
| "editor_step env s (OpenAiDiff now p) = snd (openAiDiffDocument env now p s)"
| "editor_step env s (OpenGitDiff now p) = snd (openGitDiffDocument env now p s)"
| "editor_step env s (ApplyPayload now fresh i f) = applyDocumentPayload env now fresh i f s"
| "editor_step env s (UpdateContent i c) = updateDocumentContent i c s"
| "editor_step env s (UpdateActiveContent c) = updateActiveDocumentContent c s"
| "editor_step env s (UpdateEncoding i e) = updateDocumentEncoding i e s"
| "editor_step env s (UpdateActiveEncoding e) = updateActiveDocumentEncoding e s"
| "editor_step env s (CloseDoc now i) = closeDocument env now i s"
| "editor_step env s (SetEnvironment e) = setEnvironment e s"
| "editor_step env s (Output c) = editor_output c s"
| "editor_step env s (SetCursor l c) = setCursorPosition l c s"
| "editor_step env s (SetSelection x) = setActiveSelectionSummary x s"
| "editor_step env s (AppendLog now fresh l t d ops) = appendLog now fresh l t d ops s"
| "editor_step env s (AppendHistory fresh e) = appendRunHistory fresh e s"
| "editor_step env s (SetRunSummary x) = setActiveRunSummary x s"
| "editor_step env s (SetRoot now p) = setWorkspaceRootPath env now p s"
| "editor_step env s (SetProtected ps) = setProtectedWorkspaceRootPaths ps s"
| "editor_step env s (SetPendingRun x) = setPendingTerminalRunId x s"
| "editor_step env s (SetAnalysis i a) = setDocumentAnalysis i a s"
| "editor_step env s (ClearAnalysis i) = clearDocumentAnalysis i s"
| "editor_step env s (ClearDocuments now) = clearDocuments now s"
| "editor_step env s (ClearSession now) = clearWorkspaceSession now s"
| "editor_step env s ClearLogs = clearLogs s"

section \<open>What the helpers leave alone\<close>

named_theorems editor_parts \<open>parts of the state an operation does not write\<close>

lemma session_parts [editor_parts]:
  "ed_session (on_session f s) = f (ed_session s)"
  "ed_documents (on_session f s) = ed_documents s"
  "ed_activeDocumentId (on_session f s) = ed_activeDocumentId s"
  "ed_runLogs (on_session f s) = ed_runLogs s" "ed_runHistory (on_session f s) = ed_runHistory s"
  by (simp_all add: on_session_def)

lemma touch_parts [editor_parts]:
  "ed_session (touchSessionSnapshot now s) = (ed_session s)\<lparr>sn_savedAt := now\<rparr>"
  "ed_documents (touchSessionSnapshot now s) = ed_documents s"
  "ed_activeDocumentId (touchSessionSnapshot now s) = ed_activeDocumentId s"
  "ed_runLogs (touchSessionSnapshot now s) = ed_runLogs s"
  "ed_runHistory (touchSessionSnapshot now s) = ed_runHistory s"
  by (simp_all add: touchSessionSnapshot_def editor_parts)

lemma recent_parts [editor_parts]:
  "ed_documents (pushRecentFile env p s) = ed_documents s"
  "ed_activeDocumentId (pushRecentFile env p s) = ed_activeDocumentId s"
  "ed_runLogs (pushRecentFile env p s) = ed_runLogs s"
  "ed_runHistory (pushRecentFile env p s) = ed_runHistory s"
  "ed_documents (pushRecentWorkspace env p s) = ed_documents s"
  "ed_activeDocumentId (pushRecentWorkspace env p s) = ed_activeDocumentId s"
  "ed_runLogs (pushRecentWorkspace env p s) = ed_runLogs s"
  "ed_runHistory (pushRecentWorkspace env p s) = ed_runHistory s"
  by (simp_all add: pushRecentFile_def pushRecentWorkspace_def editor_parts)

lemma sync_tabs_parts [editor_parts]:
  "ed_documents (syncSessionOpenTabs env s) = ed_documents s"
  "ed_activeDocumentId (syncSessionOpenTabs env s) = ed_activeDocumentId s"
  "ed_runLogs (syncSessionOpenTabs env s) = ed_runLogs s"
  "ed_runHistory (syncSessionOpenTabs env s) = ed_runHistory s"
  by (simp_all add: syncSessionOpenTabs_def editor_parts)

lemma watch_parts [editor_parts]:
  "ed_session (watch_active s) = ed_session s" "ed_documents (watch_active s) = ed_documents s"
  "ed_runLogs (watch_active s) = ed_runLogs s" "ed_runHistory (watch_active s) = ed_runHistory s"
  by (simp_all add: watch_active_def split: list.split)

lemma cursor_parts [editor_parts]:
  "ed_session (reset_cursor s) = ed_session s" "ed_documents (reset_cursor s) = ed_documents s"
  "ed_activeDocumentId (reset_cursor s) = ed_activeDocumentId s"
  "ed_runLogs (reset_cursor s) = ed_runLogs s" "ed_runHistory (reset_cursor s) = ed_runHistory s"
  by (simp_all add: reset_cursor_def)

lemma push_parts [editor_parts]:
  "ed_session (push_document d s) = ed_session s"
  "ed_documents (push_document d s) = ed_documents s @ [d]"
  "ed_activeDocumentId (push_document d s) = ed_activeDocumentId s"
  "ed_runLogs (push_document d s) = ed_runLogs s"
  "ed_runHistory (push_document d s) = ed_runHistory s"
  by (simp_all add: push_document_def)

lemma on_document_parts [editor_parts]:
  "ed_session (on_document P f s) = ed_session s"
  "ed_documents (on_document P f s) = update_first P f (ed_documents s)"
  "ed_activeDocumentId (on_document P f s) = ed_activeDocumentId s"
  "ed_runLogs (on_document P f s) = ed_runLogs s"
  "ed_runHistory (on_document P f s) = ed_runHistory s"
  by (simp_all add: on_document_def)

lemma analysis_parts [editor_parts]:
  "ed_session (clearDocumentAnalysis i s) = ed_session s"
  "ed_documents (clearDocumentAnalysis i s) = ed_documents s"
  "ed_activeDocumentId (clearDocumentAnalysis i s) = ed_activeDocumentId s"
  "ed_runLogs (clearDocumentAnalysis i s) = ed_runLogs s"
  "ed_runHistory (clearDocumentAnalysis i s) = ed_runHistory s"
  by (simp_all add: clearDocumentAnalysis_def)

lemma set_active_parts [editor_parts]:
  "ed_documents (setActiveDocument now i s) = ed_documents s"
  "ed_runLogs (setActiveDocument now i s) = ed_runLogs s"
  "ed_runHistory (setActiveDocument now i s) = ed_runHistory s"
  by (simp_all add: setActiveDocument_def editor_parts split: option.split)

section \<open>The snapshot stays valid\<close>

abbreviation session_ok :: "(ustr \<Rightarrow> bool) \<Rightarrow> editor \<Rightarrow> bool" where
  "session_ok isdt s \<equiv> snapshot_valid isdt (ed_session s)"

lemma touch_valid: "session_ok isdt s \<Longrightarrow> isdt now \<Longrightarrow> session_ok isdt (touchSessionSnapshot now s)"
  by (simp add: snapshot_valid_def editor_parts)

lemma pushRecentEntry_length: "pushRecentEntry env xs p n = Some ys \<Longrightarrow> length ys \<le> n"
  by (auto simp: pushRecentEntry_def Let_def split: if_splits)

lemma recent_valid:
  "session_ok isdt s \<Longrightarrow> session_ok isdt (pushRecentFile env p s)"
  "session_ok isdt s \<Longrightarrow> session_ok isdt (pushRecentWorkspace env p s)"
  by (auto simp: snapshot_valid_def pushRecentFile_def pushRecentWorkspace_def editor_parts
      MAX_RECENT_FILES_def MAX_FILES_def MAX_RECENT_WORKSPACES_def MAX_WORKSPACES_def
      dest: pushRecentEntry_length split: option.split)

lemma open_tabs_valid: "list_all tab_valid (open_tabs docs)" "length (open_tabs docs) \<le> MAX_TABS"
proof -
  define ps where "ps = take MAX_OPEN_TABS (filter persistable docs)"
  have ps: "length ps \<le> 30" "\<And>i. i < length ps \<Longrightarrow> persistable (ps ! i)"
  proof -
    show "length ps \<le> 30" by (simp add: ps_def MAX_OPEN_TABS_def)
    fix i assume "i < length ps"
    then have "ps ! i \<in> set ps" by (rule nth_mem)
    also have "set ps \<subseteq> set (filter persistable docs)" unfolding ps_def by (rule set_take_subset)
    finally show "persistable (ps ! i)" by simp
  qed
  have "tab_valid (tab_of i (ps ! i))" if "i < length ps" for i
    using that ps(1) ps(2) [OF that]
    by (auto simp: tab_valid_def tab_of_def persistable_def is_safe_integer_def max_safe_integer_def)
  then show "list_all tab_valid (open_tabs docs)"
    by (simp add: open_tabs_def Let_def ps_def [symmetric] list_all_length)
  show "length (open_tabs docs) \<le> MAX_TABS"
    using ps(1) by (simp add: open_tabs_def Let_def ps_def [symmetric] MAX_TABS_def)
qed

lemma sync_tabs_valid: "session_ok isdt s \<Longrightarrow> session_ok isdt (syncSessionOpenTabs env s)"
  by (auto simp: snapshot_valid_def syncSessionOpenTabs_def editor_parts Let_def open_tabs_valid
      split: option.split)

lemma set_active_valid: "session_ok isdt s \<Longrightarrow> isdt now \<Longrightarrow> session_ok isdt (setActiveDocument now i s)"
  by (auto simp: setActiveDocument_def snapshot_valid_def editor_parts split: option.split)

lemmas session_valids = touch_valid recent_valid sync_tabs_valid set_active_valid

lemma open_path_valid:
  "session_ok isdt s \<Longrightarrow> isdt now \<Longrightarrow> session_ok isdt (snd (open_path env now fresh p ov s))"
  by (auto simp: open_path_def Let_def push_parts(1) intro!: session_valids split: option.split)

lemma show_new_valid: "session_ok isdt s \<Longrightarrow> isdt now \<Longrightarrow> session_ok isdt (show_new env now d s)"
  by (simp add: show_new_def session_valids push_parts(1))

lemma view_state_valid:
  assumes "session_ok isdt s" and "isdt now"
  shows "session_ok isdt (saveEditorViewState env now p vs s)"
  using assms
  by (auto simp: saveEditorViewState_def Let_def snapshot_valid_def editor_parts list_all_iff
      view_valid_def MAX_VIEW_STATE_ENTRIES_def MAX_VIEW_STATES_def dest!: in_set_takeD)

lemma workbench_valid_step:
  assumes "session_ok isdt s" and "isdt now"
  shows "session_ok isdt (setWorkbenchSessionState env now p s)"
  using assms
  by (auto simp: setWorkbenchSessionState_def Let_def snapshot_valid_def editor_parts
      workbench_valid_def strings_valid_def MAX_EXPLORER_EXPANDED_PATHS_def MAX_EXPANDED_def
      dest: in_set_takeD split: option.split)

lemma close_valid:
  assumes "session_ok isdt s" and "isdt now"
  shows "session_ok isdt (closeDocument env now i s)"
proof (cases "index_of (\<lambda>d. dc_id d = i) (ed_documents s)")
  case (Some k)
  define s2 where "s2 = (clearDocumentAnalysis i s)\<lparr>ed_documents :=
    take k (ed_documents s) @ drop (Suc k) (ed_documents s)\<rparr>"
  have "session_ok isdt (touchSessionSnapshot now (syncSessionOpenTabs env s2))"
    using assms by (intro session_valids) (simp_all add: s2_def editor_parts)
  then show ?thesis
    unfolding closeDocument_def Some Let_def option.case analysis_parts(2) s2_def [symmetric]
    by (auto simp: editor_parts snapshot_valid_def)
qed (simp add: closeDocument_def assms)

lemma clear_documents_valid: "session_ok isdt s \<Longrightarrow> isdt now \<Longrightarrow> session_ok isdt (clearDocuments now s)"
  by (simp add: clearDocuments_def Let_def snapshot_valid_def editor_parts)

fun call_time :: "editor_call \<Rightarrow> ustr option" where
  "call_time (SaveViewState now _ _) = Some now"
| "call_time (SetWorkbench now _) = Some now"
| "call_time (SetActive now _) = Some now"
| "call_time (CreateTab now _ _) = Some now"
| "call_time (OpenFile now _ _) = Some now"
| "call_time (OpenImage now _ _ _) = Some now"
| "call_time (OpenAiDiff now _) = Some now"
| "call_time (OpenGitDiff now _) = Some now"
| "call_time (ApplyPayload now _ _ _) = Some now"
| "call_time (CloseDoc now _) = Some now"
| "call_time (SetRoot now _) = Some now"
| "call_time (ClearDocuments now) = Some now"
| "call_time (ClearSession now) = Some now"
| "call_time _ = None"

lemma set_root_valid:
  assumes "session_ok isdt s" and "isdt now"
  shows "session_ok isdt (setWorkspaceRootPath env now p s)"
proof -
  have "session_ok isdt (on_session (\<lambda>n. n\<lparr>sn_workspaceRoot := p\<rparr>) (s\<lparr>ed_workspaceRootPath := p\<rparr>))"
    using assms(1) by (simp add: snapshot_valid_def editor_parts)
  then show ?thesis
    using assms(2) unfolding setWorkspaceRootPath_def Let_def
    by (cases p; auto intro!: touch_valid recent_valid)
qed

lemma editor_step_valid:
  assumes ok: "session_ok isdt s" and t: "opt_all isdt (call_time c)"
  shows "session_ok isdt (editor_step env s c)"
proof (cases c)
  case (ClearSession now)
  with clear_documents_valid [OF ok, of now] t show ?thesis
    by (simp add: clearWorkspaceSession_def Let_def opt_all_def editor_parts snapshot_valid_def
        workbench_valid_def strings_valid_def clearLogs_def)
next
  case (ApplyPayload now fresh i f)
  with ok t show ?thesis
    by (auto simp: applyDocumentPayload_def openDocumentTab_def opt_all_def Let_def on_document_parts(1)
        intro!: open_path_valid session_valids split: option.split)
qed (use ok t in \<open>auto simp: opt_all_def view_state_valid workbench_valid_step set_active_valid
    createDocumentTab_def show_new_valid openDocumentTab_def openImageDocument_def open_path_valid
    openAiDiffDocument_def openGitDiffDocument_def Let_def touch_valid on_document_parts(1)
    updateActiveDocumentContent_def updateActiveDocumentEncoding_def updateDocumentContent_def
    updateDocumentEncoding_def edit_text_def close_valid clear_documents_valid setEnvironment_def
    editor_output_def setCursorPosition_def setActiveSelectionSummary_def appendLog_def
    appendRunHistory_def setActiveRunSummary_def setProtectedWorkspaceRootPaths_def
    set_root_valid setPendingTerminalRunId_def setDocumentAnalysis_def clearDocumentAnalysis_def clearLogs_def
    split: option.split\<close>)

lemma editor_run_valid:
  "session_ok isdt s \<Longrightarrow> list_all (\<lambda>c. opt_all isdt (call_time c)) cs \<Longrightarrow>
   session_ok isdt (run_events (editor_step env) s cs)"
  by (induction cs arbitrary: s) (auto intro: editor_step_valid)

text \<open>C12: Whatever the user does, in any order, starting from an empty session or any snapshot the schema
  accepted: the snapshot that is persisted passes the schema (at most 30 tabs with non-empty paths
  and natural order numbers, 30 view states, 120 expanded paths, 10 and 50 recent entries, dates
  that are dates), and writing it as JSON and parsing it gives it back unchanged.\<close>

theorem editor_session_always_valid:
  assumes "snapshot_valid isdt start" and "list_all (\<lambda>c. opt_all isdt (call_time c)) calls"
  shows "let snap = ed_session (run_events (editor_step env) (new_editor start) calls) in
     snapshot_valid isdt snap \<and> sessionSnapshotSchema isdt (snapshot_json snap) = Some snap"
  using editor_run_valid [of isdt "new_editor start" calls env] assms
  by (simp add: Let_def snapshot_round_trip new_editor_def)

definition plain_paths :: path_env where
  "plain_paths = \<lparr>pa_normalize = (\<lambda>p. p), pa_basename = (\<lambda>p. p), pa_dirname = (\<lambda>p. p),
     pa_lower = (\<lambda>p. p)\<rparr>"

theorem editor_session_always_valid_witness:
  "let start = createEmptySessionSnapshot [48];
       calls = [CreateTab [49] [100] no_overrides,
         OpenFile [50] [101] \<lparr>sf_path = [47, 97], sf_name = [97], sf_content = [], sf_encoding = Utf8\<rparr>] in
   sessionSnapshotSchema (\<lambda>s. s \<noteq> [])
     (snapshot_json (ed_session (run_events (editor_step plain_paths) (new_editor start) calls))) \<noteq> None"
proof -
  let ?start = "createEmptySessionSnapshot [48]"
  let ?calls = "[CreateTab [49] [100] no_overrides,
    OpenFile [50] [101] \<lparr>sf_path = [47, 97], sf_name = [97], sf_content = [], sf_encoding = Utf8\<rparr>]"
  have "snapshot_valid (\<lambda>s. s \<noteq> []) ?start"
    by (simp add: snapshot_valid_def createEmptySessionSnapshot_def default_workbench_valid)
  moreover have "list_all (\<lambda>c. opt_all (\<lambda>s. s \<noteq> []) (call_time c)) ?calls"
    by (simp add: opt_all_def)
  ultimately show ?thesis
    using editor_session_always_valid [of "\<lambda>s. s \<noteq> []" ?start ?calls plain_paths]
    unfolding Let_def by blast
qed

section \<open>Documents stay consistent\<close>

definition synced :: "editor_document \<Rightarrow> bool" where
  "synced d \<longleftrightarrow> syncDocumentState d = d"

definition active_ok :: "editor \<Rightarrow> bool" where
  "active_ok s \<longleftrightarrow> (if ed_documents s = [] then ed_activeDocumentId s = []
     else ed_activeDocumentId s \<in> set (map dc_id (ed_documents s)))"

definition docs_ok :: "editor \<Rightarrow> bool" where
  "docs_ok s \<longleftrightarrow> list_all synced (ed_documents s) \<and>
     length (ed_runLogs s) \<le> MAX_RUN_LOG_ENTRIES \<and> length (ed_runHistory s) \<le> MAX_RUN_HISTORY_ENTRIES"

lemma synced_sync [simp]: "synced (syncDocumentState d)"
  by (simp add: synced_def syncDocumentState_def)

lemma synced_create [simp]: "synced (createDocument env fresh docs ov)"
  by (simp add: createDocument_def Let_def)

lemma id_sync [simp]: "dc_id (syncDocumentState d) = dc_id d"
  by (simp add: syncDocumentState_def)

lemma update_first_all:
  "list_all P xs \<Longrightarrow> (\<And>x. P x \<Longrightarrow> P (f x)) \<Longrightarrow> list_all P (update_first Q f xs)"
  by (induction xs) auto

lemma update_first_ids: "(\<And>x. dc_id (f x) = dc_id x) \<Longrightarrow> map dc_id (update_first Q f xs) = map dc_id xs"
  by (induction xs) auto

lemma update_first_Nil [simp]: "update_first Q f xs = [] \<longleftrightarrow> xs = []"
  by (cases xs) auto

lemma find_id_in: "find_id i s = Some d \<Longrightarrow> d \<in> set (ed_documents s) \<and> dc_id d = i"
  by (auto simp: find_id_def find_Some_iff)

lemma find_id_ex: "i \<in> set (map dc_id (ed_documents s)) \<Longrightarrow> \<exists>d. find_id i s = Some d"
  by (auto simp: find_id_def find_None_iff simp flip: not_None_eq)

text \<open>The watcher has nothing to repair once the id was set to an existing document's.\<close>

lemma watch_active_id:
  "ed_activeDocumentId s \<in> set (map dc_id (ed_documents s)) \<Longrightarrow> watch_active s = s"
  by (auto simp: watch_active_def list_ex_iff split: list.split)

lemma set_active_id:
  assumes "i \<in> set (map dc_id (ed_documents s))"
  shows "ed_activeDocumentId (setActiveDocument now i s) = i"
proof -
  obtain d where d: "find_id i s = Some d" using find_id_ex [OF assms] by blast
  have "watch_active (s\<lparr>ed_activeDocumentId := i\<rparr>) = s\<lparr>ed_activeDocumentId := i\<rparr>"
    using assms by (intro watch_active_id) simp
  with d find_id_in [OF d] show ?thesis
    by (simp add: setActiveDocument_def editor_parts)
qed

lemma set_active_ok: "active_ok s \<Longrightarrow> active_ok (setActiveDocument now i s)"
proof (cases "i \<in> set (map dc_id (ed_documents s))")
  case True
  then show ?thesis by (auto simp: active_ok_def set_active_id editor_parts)
next
  case False
  then have "find_id i s = None" using find_id_in [of i s] by (cases "find_id i s") auto
  then show "active_ok s \<Longrightarrow> ?thesis" by (simp add: setActiveDocument_def)
qed

lemma push_active_ok: "active_ok (setActiveDocument now (dc_id d) (push_document d s))"
  by (simp add: active_ok_def set_active_id editor_parts)

text \<open>Operations that leave the documents and the active id alone.\<close>

lemma active_ok_cong:
  "ed_documents t = ed_documents s \<Longrightarrow> ed_activeDocumentId t = ed_activeDocumentId s \<Longrightarrow>
   active_ok t = active_ok s"
  by (simp add: active_ok_def)

lemma docs_ok_cong:
  "ed_documents t = ed_documents s \<Longrightarrow> ed_runLogs t = ed_runLogs s \<Longrightarrow>
   ed_runHistory t = ed_runHistory s \<Longrightarrow> docs_ok t = docs_ok s"
  by (simp add: docs_ok_def)

lemma quiet_ok:
  "active_ok (touchSessionSnapshot now s) = active_ok s" "docs_ok (touchSessionSnapshot now s) = docs_ok s"
  "active_ok (on_session f s) = active_ok s" "docs_ok (on_session f s) = docs_ok s"
  "active_ok (pushRecentFile env p s) = active_ok s" "docs_ok (pushRecentFile env p s) = docs_ok s"
  "active_ok (pushRecentWorkspace env p s) = active_ok s"
  "docs_ok (pushRecentWorkspace env p s) = docs_ok s"
  "active_ok (syncSessionOpenTabs env s) = active_ok s" "docs_ok (syncSessionOpenTabs env s) = docs_ok s"
  "active_ok (reset_cursor s) = active_ok s" "docs_ok (reset_cursor s) = docs_ok s"
  "active_ok (clearDocumentAnalysis i s) = active_ok s" "docs_ok (clearDocumentAnalysis i s) = docs_ok s"
  "docs_ok (setActiveDocument now i s) = docs_ok s" "docs_ok (watch_active s) = docs_ok s"
  by (simp_all add: active_ok_def docs_ok_def editor_parts)

lemma update_ok:
  "active_ok (s\<lparr>ed_environment := e\<rparr>) = active_ok s" "docs_ok (s\<lparr>ed_environment := e\<rparr>) = docs_ok s"
  "active_ok (s\<lparr>ed_output := o1\<rparr>) = active_ok s" "docs_ok (s\<lparr>ed_output := o1\<rparr>) = docs_ok s"
  "active_ok (s\<lparr>ed_cursorLine := l\<rparr>) = active_ok s" "docs_ok (s\<lparr>ed_cursorLine := l\<rparr>) = docs_ok s"
  "active_ok (s\<lparr>ed_cursorColumn := l\<rparr>) = active_ok s" "docs_ok (s\<lparr>ed_cursorColumn := l\<rparr>) = docs_ok s"
  "active_ok (s\<lparr>ed_selection := x\<rparr>) = active_ok s" "docs_ok (s\<lparr>ed_selection := x\<rparr>) = docs_ok s"
  "active_ok (s\<lparr>ed_lastRunResult := lr\<rparr>) = active_ok s" "docs_ok (s\<lparr>ed_lastRunResult := lr\<rparr>) = docs_ok s"
  "active_ok (s\<lparr>ed_activeRunSummary := sm\<rparr>) = active_ok s" "docs_ok (s\<lparr>ed_activeRunSummary := sm\<rparr>) = docs_ok s"
  "active_ok (s\<lparr>ed_isRunning := b\<rparr>) = active_ok s" "docs_ok (s\<lparr>ed_isRunning := b\<rparr>) = docs_ok s"
  "active_ok (s\<lparr>ed_workspaceRootPath := p\<rparr>) = active_ok s" "docs_ok (s\<lparr>ed_workspaceRootPath := p\<rparr>) = docs_ok s"
  "active_ok (s\<lparr>ed_protectedRoots := ps\<rparr>) = active_ok s" "docs_ok (s\<lparr>ed_protectedRoots := ps\<rparr>) = docs_ok s"
  "active_ok (s\<lparr>ed_pendingTerminalRunId := p\<rparr>) = active_ok s"
  "docs_ok (s\<lparr>ed_pendingTerminalRunId := p\<rparr>) = docs_ok s"
  "active_ok (s\<lparr>ed_analysis := a\<rparr>) = active_ok s" "docs_ok (s\<lparr>ed_analysis := a\<rparr>) = docs_ok s"
  "active_ok (s\<lparr>ed_runLogs := ls\<rparr>) = active_ok s"
  "active_ok (s\<lparr>ed_runHistory := hs\<rparr>) = active_ok s"
  "docs_ok s \<Longrightarrow> length ls \<le> MAX_RUN_LOG_ENTRIES \<Longrightarrow> docs_ok (s\<lparr>ed_runLogs := ls\<rparr>)"
  "docs_ok s \<Longrightarrow> length hs \<le> MAX_RUN_HISTORY_ENTRIES \<Longrightarrow> docs_ok (s\<lparr>ed_runHistory := hs\<rparr>)"
  by (simp_all add: active_ok_def docs_ok_def)

lemma push_docs_ok: "docs_ok s \<Longrightarrow> synced d \<Longrightarrow> docs_ok (push_document d s)"
  by (simp add: docs_ok_def editor_parts)

lemma on_document_active_ok:
  "(\<And>x. dc_id (f x) = dc_id x) \<Longrightarrow> active_ok (on_document P f s) = active_ok s"
  by (simp add: active_ok_def editor_parts update_first_ids)

lemma on_document_docs_ok:
  "docs_ok s \<Longrightarrow> (\<And>x. synced x \<Longrightarrow> synced (f x)) \<Longrightarrow> docs_ok (on_document P f s)"
  by (auto simp: docs_ok_def editor_parts intro: update_first_all)

lemma show_new_ok:
  "active_ok (show_new env now d s)" "docs_ok s \<Longrightarrow> synced d \<Longrightarrow> docs_ok (show_new env now d s)"
  by (simp_all add: show_new_def quiet_ok push_active_ok push_docs_ok)

lemma open_path_ok:
  "active_ok s \<Longrightarrow> active_ok (snd (open_path env now fresh p ov s))"
  "docs_ok s \<Longrightarrow> docs_ok (snd (open_path env now fresh p ov s))"
  by (simp_all add: open_path_def Let_def quiet_ok set_active_ok push_active_ok push_docs_ok
      split: option.split)

lemma index_of_Some:
  "index_of P xs = Some k \<Longrightarrow> k < length xs \<and> P (xs ! k)"
  by (induction xs arbitrary: k) (auto split: if_splits)

lemma edit_text_ok:
  assumes "\<And>x. dc_id (f x) = dc_id x"
  shows "active_ok s \<Longrightarrow> active_ok (edit_text i f s)" and "docs_ok s \<Longrightarrow> docs_ok (edit_text i f s)"
  using assms by (auto simp: edit_text_def on_document_active_ok intro!: on_document_docs_ok
      split: option.split)

lemma diff_tabs_ok:
  "active_ok s \<Longrightarrow> active_ok (snd (openAiDiffDocument env now p s))"
  "docs_ok s \<Longrightarrow> docs_ok (snd (openAiDiffDocument env now p s))"
  "active_ok s \<Longrightarrow> active_ok (snd (openGitDiffDocument env now g s))"
  "docs_ok s \<Longrightarrow> docs_ok (snd (openGitDiffDocument env now g s))"
proof -
  have keep: "synced x \<Longrightarrow> synced (x\<lparr>dc_aiDiffPreview := a, dc_name := n\<rparr>)" for x a n
    by (cases x) (simp add: synced_def syncDocumentState_def)
  show "active_ok s \<Longrightarrow> active_ok (snd (openAiDiffDocument env now p s))"
    "active_ok s \<Longrightarrow> active_ok (snd (openGitDiffDocument env now g s))"
    by (auto simp: openAiDiffDocument_def openGitDiffDocument_def Let_def quiet_ok
        on_document_active_ok show_new_ok intro!: set_active_ok split: option.split)
  show "docs_ok s \<Longrightarrow> docs_ok (snd (openAiDiffDocument env now p s))"
    "docs_ok s \<Longrightarrow> docs_ok (snd (openGitDiffDocument env now g s))"
    by (auto simp: openAiDiffDocument_def openGitDiffDocument_def Let_def quiet_ok
        show_new_ok keep intro!: on_document_docs_ok split: option.split)
qed

lemma close_ok:
  assumes "active_ok s" and "docs_ok s"
  shows "active_ok (closeDocument env now i s)" and "docs_ok (closeDocument env now i s)"
proof (atomize (full), cases "index_of (\<lambda>d. dc_id d = i) (ed_documents s)")
  case (Some k)
  define s2 where "s2 = (clearDocumentAnalysis i s)\<lparr>ed_documents :=
    take k (ed_documents s) @ drop (Suc k) (ed_documents s)\<rparr>"
  define s3 where "s3 = touchSessionSnapshot now (syncSessionOpenTabs env s2)"
  have k: "k < length (ed_documents s)" "dc_id (ed_documents s ! k) = i"
    using index_of_Some [OF Some] by auto
  have docs: "ed_documents s3 = take k (ed_documents s) @ drop (Suc k) (ed_documents s)"
    "ed_activeDocumentId s3 = ed_activeDocumentId s"
    by (simp_all add: s3_def s2_def editor_parts)
  have d3: "docs_ok s3"
    using assms(2) unfolding docs_ok_def docs
    by (auto simp: s3_def s2_def editor_parts list_all_iff dest: in_set_takeD in_set_dropD)
  have closed: "closeDocument env now i s = (if ed_documents s3 = []
      then reset_cursor (on_session (\<lambda>n. n\<lparr>sn_activeTabPath := None\<rparr>)
             (watch_active (s3\<lparr>ed_activeDocumentId := []\<rparr>)))
      else if dc_id (ed_documents s ! k) = ed_activeDocumentId s
      then reset_cursor (watch_active (s3\<lparr>ed_activeDocumentId := dc_id (ed_documents s3 ! (k - 1))\<rparr>))
      else s3)"
    unfolding closeDocument_def Some Let_def option.case analysis_parts(2) s2_def [symmetric]
      s3_def [symmetric] ..
  have stays: "active_ok s3" if "ed_documents s3 \<noteq> []" "i \<noteq> ed_activeDocumentId s"
  proof -
    have "set (ed_documents s) = set (take k (ed_documents s) @ ed_documents s ! k # drop (Suc k) (ed_documents s))"
      by (rule arg_cong [OF id_take_nth_drop [OF k(1)]])
    also have "\<dots> = insert (ed_documents s ! k) (set (ed_documents s3))"
      unfolding docs by simp
    finally have "set (map dc_id (ed_documents s)) = insert i (set (map dc_id (ed_documents s3)))"
      using k(2) by simp
    moreover have "ed_activeDocumentId s \<in> set (map dc_id (ed_documents s))"
      using assms(1) k(1) by (auto simp: active_ok_def split: if_splits)
    ultimately show ?thesis using that docs by (auto simp: active_ok_def)
  qed
  have next_doc: "active_ok (watch_active (s3\<lparr>ed_activeDocumentId := dc_id (ed_documents s3 ! (k - 1))\<rparr>))"
    if "ed_documents s3 \<noteq> []"
  proof -
    have "k - 1 < length (ed_documents s3)" using that k(1) by (auto simp: docs)
    then have "dc_id (ed_documents s3 ! (k - 1)) \<in> set (map dc_id (ed_documents s3))" by auto
    then show ?thesis using that by (subst watch_active_id) (simp_all add: active_ok_def)
  qed
  have "docs_ok (s3\<lparr>ed_activeDocumentId := a\<rparr>)" for a using d3 by (simp add: docs_ok_def)
  then show "active_ok (closeDocument env now i s) \<and> docs_ok (closeDocument env now i s)"
    using d3 stays next_doc k(2) unfolding closed
    by (auto simp: quiet_ok) (simp add: active_ok_def watch_active_def)
qed (simp add: closeDocument_def assms)

lemma clear_documents_ok:
  "active_ok (clearDocuments now s)" "docs_ok s \<Longrightarrow> docs_ok (clearDocuments now s)"
  by (simp_all add: clearDocuments_def Let_def active_ok_def docs_ok_def editor_parts watch_active_def)

lemma clear_session_ok:
  "active_ok (clearWorkspaceSession now s)" "docs_ok s \<Longrightarrow> docs_ok (clearWorkspaceSession now s)"
  using clear_documents_ok [where now = now and s = s]
  by (simp_all add: clearWorkspaceSession_def Let_def quiet_ok update_ok clearLogs_def
      docs_ok_def [of "_\<lparr>ed_runLogs := _, ed_runHistory := _, ed_output := _, ed_lastRunResult := _\<rparr>"])

lemma apply_payload_ok:
  "active_ok s \<Longrightarrow> active_ok (applyDocumentPayload env now fresh i f s)"
  "docs_ok s \<Longrightarrow> docs_ok (applyDocumentPayload env now fresh i f s)"
  by (auto simp: applyDocumentPayload_def openDocumentTab_def Let_def open_path_ok quiet_ok
      on_document_active_ok intro!: on_document_docs_ok split: option.split)

lemma editor_step_docs:
  assumes "active_ok s" and "docs_ok s"
  shows "active_ok (editor_step env s c) \<and> docs_ok (editor_step env s c)"
  using assms
  by (cases c)
    (simp_all add: saveEditorViewState_def setWorkbenchSessionState_def Let_def quiet_ok update_ok
    set_active_ok createDocumentTab_def show_new_ok openDocumentTab_def openImageDocument_def open_path_ok
    diff_tabs_ok apply_payload_ok updateActiveDocumentContent_def updateActiveDocumentEncoding_def
    updateDocumentContent_def updateDocumentEncoding_def edit_text_ok close_ok clear_documents_ok
    clear_session_ok setEnvironment_def editor_output_def setCursorPosition_def
    setActiveSelectionSummary_def appendLog_def appendRunHistory_def setActiveRunSummary_def
    setWorkspaceRootPath_def setProtectedWorkspaceRootPaths_def setPendingTerminalRunId_def
    setDocumentAnalysis_def clearDocumentAnalysis_def clearLogs_def split: option.split)

interpretation docs: machine "editor_step env" "new_editor snap" "\<lambda>s. active_ok s \<and> docs_ok s" for env snap
  by unfold_locales
    (simp_all add: editor_step_docs, simp add: active_ok_def docs_ok_def new_editor_def)

text \<open>C31: Whatever calls are made: the active id is that of an open document, or empty when none is open;
  the dirty flag, line count and character count of every document are those of its content; and the
  logs and the history keep to their limits.\<close>

theorem editor_documents_consistent:
  "let s = run_events (editor_step env) (new_editor snap) calls in
     (if ed_documents s = [] then ed_activeDocumentId s = []
      else ed_activeDocumentId s \<in> set (map dc_id (ed_documents s))) \<and>
     list_all (\<lambda>d. (dc_isDirty d = (\<not> (dc_content d = dc_savedContent d \<and> dc_encoding d = dc_savedEncoding d))) \<and>
       dc_lineCount d = count_lines (dc_content d) \<and> dc_charCount d = countCharacters (dc_content d))
       (ed_documents s) \<and>
     length (ed_runLogs s) \<le> MAX_RUN_LOG_ENTRIES \<and> length (ed_runHistory s) \<le> MAX_RUN_HISTORY_ENTRIES"
proof -
  define s where "s = run_events (editor_step env) (new_editor snap) calls"
  have ok: "active_ok s" "docs_ok s" unfolding s_def using docs.inv_run by blast+
  have "(dc_isDirty d = (\<not> (dc_content d = dc_savedContent d \<and> dc_encoding d = dc_savedEncoding d))) \<and>
      dc_lineCount d = count_lines (dc_content d) \<and> dc_charCount d = countCharacters (dc_content d)"
    if "synced d" for d
    using that by (cases d) (simp add: synced_def syncDocumentState_def)
  then show ?thesis
    using ok unfolding s_def [symmetric] Let_def active_ok_def docs_ok_def list_all_iff by blast
qed

section \<open>Names of new documents\<close>

lemma untitled_index_free: "untitled_name (untitled_index occupied i) \<notin> set occupied"
proof (induction occupied i rule: untitled_index.induct)
  case (1 occupied i)
  then show ?case
    by (cases "untitled_name i \<in> set occupied") (simp_all add: untitled_index.simps [of occupied i])
qed

lemma untitled_index_least:
  "i \<le> j \<Longrightarrow> j < untitled_index occupied i \<Longrightarrow> untitled_name j \<in> set occupied"
proof (induction occupied i rule: untitled_index.induct)
  case (1 occupied i)
  show ?case
  proof (cases "untitled_name i \<in> set occupied")
    case True
    with 1 show ?thesis
      by (cases "i = j") (auto simp: untitled_index.simps [of occupied i])
  next
    case False
    with 1(2,3) show ?thesis by (simp add: untitled_index.simps [of occupied i])
  qed
qed

lemma untitled_index_ge: "i \<le> untitled_index occupied i"
proof (induction occupied i rule: untitled_index.induct)
  case (1 occupied i)
  then show ?case
    by (cases "untitled_name i \<in> set occupied") (simp_all add: untitled_index.simps [of occupied i])
qed

text \<open>The search for a name ends, and the name given to a new document differs, whatever the case
  of the letters, from the name of every open document without a path; no smaller number was free.\<close>

theorem untitled_name_is_free:
  "let occupied = map (\<lambda>d. pa_lower env (dc_name d)) (filter (\<lambda>d. dc_path d = None \<or> dc_path d = Some []) docs);
       name = resolveUntitledName env docs in
     name \<notin> set occupied \<and>
     (name = lit ''untitled.sh'' \<or>
      (\<exists>k \<ge> 1. name = untitled_name k \<and> lit ''untitled.sh'' \<in> set occupied \<and>
         list_all (\<lambda>j. untitled_name j \<in> set occupied) [1..<k]))"
proof -
  define occ where "occ = map (\<lambda>d. pa_lower env (dc_name d))
    (filter (\<lambda>d. dc_path d = None \<or> dc_path d = Some []) docs)"
  have name: "resolveUntitledName env docs = (if lit ''untitled.sh'' \<notin> set occ then lit ''untitled.sh''
      else untitled_name (untitled_index occ 1))"
    by (simp only: resolveUntitledName_def Let_def occ_def)
  have "list_all (\<lambda>j. untitled_name j \<in> set occ) [1..<untitled_index occ 1]"
    using untitled_index_least [of 1 _ occ] by (simp add: list_all_iff)
  then show ?thesis
    using untitled_index_free [of occ 1] untitled_index_ge [of 1 occ]
    unfolding Let_def name occ_def [symmetric] by (cases "lit ''untitled.sh'' \<in> set occ") auto
qed

section \<open>The session's active tab\<close>

lemma index_of_append:
  "list_all (\<lambda>x. \<not> P x) xs \<Longrightarrow> P y \<Longrightarrow> index_of P (xs @ y # ys) = Some (length xs)"
  by (induction xs) auto

lemma open_tabs_Cons:
  "persistable d \<Longrightarrow> first_tab_path (open_tabs (d # docs)) = dc_path d"
  by (auto simp: open_tabs_def first_tab_path_def MAX_OPEN_TABS_def Let_def tab_of_def persistable_def
      upt_rec [of 0] split: list.split)

lemma open_tabs_paths:
  "t \<in> set (open_tabs docs) \<Longrightarrow> \<exists>d \<in> set docs. tb_path t = the (dc_path d)"
  by (auto simp: open_tabs_def Let_def tab_of_def dest!: set_zip_rightD in_set_takeD)

text \<open>When the active tab is the last of at least three and is closed, its left neighbour becomes the
  active document, but the session remembers the first tab: after a restart another file is shown.\<close>

theorem closing_last_tab_remembers_first:
  assumes docs: "ed_documents s = d # ds @ [e, x]" and "persistable d"
    and "list_all (\<lambda>y. dc_id y \<noteq> dc_id x) (d # ds @ [e])"
    and "list_all (\<lambda>y. norm_path env (the (dc_path y)) \<noteq> norm_path env p) (d # ds @ [e])"
    and "p \<noteq> []" and "ed_activeDocumentId s = dc_id x" and "sn_activeTabPath (ed_session s) = Some p"
  shows "let t = closeDocument env now (dc_id x) s in
     ed_activeDocumentId t = dc_id e \<and> sn_activeTabPath (ed_session t) = dc_path d"
proof -
  define s2 where "s2 = (clearDocumentAnalysis (dc_id x) s)\<lparr>ed_documents := d # ds @ [e]\<rparr>"
  define s3 where "s3 = touchSessionSnapshot now (syncSessionOpenTabs env s2)"
  have k: "index_of (\<lambda>y. dc_id y = dc_id x) (ed_documents s) = Some (length (d # ds @ [e]))"
    using index_of_append [of "\<lambda>y. dc_id y = dc_id x" "d # ds @ [e]" x "[]"] assms(3) docs by simp
  have t: "closeDocument env now (dc_id x) s = reset_cursor (watch_active
      (s3\<lparr>ed_activeDocumentId := dc_id (ed_documents s3 ! (length (d # ds @ [e]) - 1))\<rparr>))"
    unfolding closeDocument_def k using docs assms(6)
    by (simp add: Let_def s3_def s2_def editor_parts nth_append)
  have docs3: "ed_documents s3 = d # ds @ [e]" by (simp add: s3_def s2_def editor_parts)
  have e: "ed_documents s3 ! (length (d # ds @ [e]) - 1) = e" by (simp add: docs3 nth_append)
  have "watch_active (s3\<lparr>ed_activeDocumentId := dc_id e\<rparr>) = s3\<lparr>ed_activeDocumentId := dc_id e\<rparr>"
    by (intro watch_active_id) (simp add: docs3)
  moreover have "\<not> list_ex (\<lambda>t. norm_path env (tb_path t) = norm_path env p) (open_tabs (d # ds @ [e]))"
    using assms(4) by (auto simp: list_ex_iff list_all_iff dest!: open_tabs_paths)
  then have "sn_activeTabPath (ed_session s3) = dc_path d"
    using assms(5,7) open_tabs_Cons [OF assms(2), of "ds @ [e]"]
    by (simp add: s3_def s2_def editor_parts syncSessionOpenTabs_def Let_def)
  ultimately show ?thesis unfolding t e by (simp add: Let_def editor_parts)
qed

definition open_file :: "nat \<Rightarrow> editor_call" where
  "open_file c = OpenFile [c] [c] \<lparr>sf_path = [47, c], sf_name = [c], sf_content = [], sf_encoding = Utf8\<rparr>"

definition three_tabs :: editor where
  "three_tabs = run_events (editor_step plain_paths) (new_editor (createEmptySessionSnapshot []))
     [open_file 97, open_file 98, open_file 99]"

lemma three_tabs_facts:
  "length (ed_documents three_tabs) = 3"
  "map dc_id (ed_documents three_tabs) = [[97], [98], [99]]"
  "map dc_path (ed_documents three_tabs) = [Some [47, 97], Some [47, 98], Some [47, 99]]"
  "list_all persistable (ed_documents three_tabs)"
  "ed_activeDocumentId three_tabs = [99]" "sn_activeTabPath (ed_session three_tabs) = Some [47, 99]"
  "map (norm_path plain_paths) [[47, 97], [47, 98], [47, 99]] = [[47, 97], [47, 98], [47, 99]]"
  by code_simp+

theorem closing_last_tab_remembers_first_witness:
  "let t = closeDocument plain_paths [] [99] three_tabs in
     ed_activeDocumentId t = [98] \<and> sn_activeTabPath (ed_session t) = Some [47, 97]"
proof -
  obtain d e x where docs: "ed_documents three_tabs = d # [] @ [e, x]"
    using three_tabs_facts(1) by (auto simp: numeral_3_eq_3 length_Suc_conv)
  have ids: "dc_id d = [97]" "dc_id e = [98]" "dc_id x = [99]"
    and paths: "dc_path d = Some [47, 97]" "dc_path e = Some [47, 98]"
    using three_tabs_facts(2,3) by (simp_all add: docs)
  have "persistable d" using three_tabs_facts(4) by (simp add: docs)
  moreover have "list_all (\<lambda>y. dc_id y \<noteq> dc_id x) (d # [] @ [e])" by (simp add: ids)
  moreover have "list_all (\<lambda>y. norm_path plain_paths (the (dc_path y)) \<noteq> norm_path plain_paths [47, 99]) (d # [] @ [e])"
    using three_tabs_facts(7) by (simp add: paths)
  moreover have "ed_activeDocumentId three_tabs = dc_id x" by (simp add: ids three_tabs_facts(5))
  ultimately show ?thesis
    using closing_last_tab_remembers_first [OF docs, of plain_paths "[47, 99]" "[]"] three_tabs_facts(6)
    by (simp add: ids paths)
qed

end
