(* ===== verification/TextPreview.thy ===== *)
theory TextPreview
  imports Prelude
begin

text \<open>
  Clipping text for display (\<open>src/utils/text-preview.ts\<close>, first part): segmentation with and
  without \<open>Intl.Segmenter\<close>, the ellipsis budget, and \<open>clipTextPreview\<close>.

  A string is the list of its code points (no lone surrogates). \<open>Intl.Segmenter\<close> and
  \<open>normalize('NFC')\<close> are fields of the environment, because their tables are not in the
  source; a missing or throwing constructor is \<open>None\<close>. A JavaScript number is a rational, or
  \<open>None\<close> for \<open>NaN\<close> and the infinities. The ratios 0.45 and 0.68 are exact: for limits
  below \<open>2 ^ 40\<close> the double product rounds to the same floor.
\<close>

section \<open>Environment and numbers\<close>

datatype granularity = GrGrapheme | GrWord | GrSentence

datatype text_locale = LocaleOne ustr | LocaleMany "ustr list"

type_synonym segmenter = "ustr \<Rightarrow> ustr list"

record text_env =
  tx_construct :: "granularity \<Rightarrow> text_locale \<Rightarrow> segmenter option"
  tx_nfc :: "ustr \<Rightarrow> ustr"

type_synonym js_number = "rat option"

definition toSafeInteger :: "js_number \<Rightarrow> nat \<Rightarrow> nat" where
  "toSafeInteger v fallback = (case v of None \<Rightarrow> fallback | Some q \<Rightarrow> nat \<lfloor>q\<rfloor>)"

definition DEFAULT_MAX_GRAPHEMES :: nat where
  "DEFAULT_MAX_GRAPHEMES = 96"

definition ELLIPSIS :: ustr where
  "ELLIPSIS = lit ''...''"

definition DEFAULT_SEGMENT_LOCALE :: "ustr list" where
  "DEFAULT_SEGMENT_LOCALE = [lit ''zh-CN'', lit ''en'']"

section \<open>Segmenters and their cache\<close>

definition getEffectiveLocale :: "text_locale option \<Rightarrow> text_locale" where
  "getEffectiveLocale l = orElse l (LocaleMany DEFAULT_SEGMENT_LOCALE)"

fun join_texts :: "ustr \<Rightarrow> ustr list \<Rightarrow> ustr" where
  "join_texts sep [] = []"
| "join_texts sep [x] = x"
| "join_texts sep (x # y # xs) = x @ sep @ join_texts sep (y # xs)"

fun getLocaleCacheKey :: "text_locale \<Rightarrow> ustr" where
  "getLocaleCacheKey (LocaleMany ls) = join_texts [1] ls"
| "getLocaleCacheKey (LocaleOne l) = l"

fun granularity_name :: "granularity \<Rightarrow> string" where
  "granularity_name GrGrapheme = ''grapheme''"
| "granularity_name GrWord = ''word''"
| "granularity_name GrSentence = ''sentence''"

definition getSegmenterCacheKey :: "granularity \<Rightarrow> text_locale \<Rightarrow> ustr" where
  "getSegmenterCacheKey g l = lit (granularity_name g) @ [0] @ getLocaleCacheKey l"

text \<open>What \<open>createSegmenter\<close> computes when the cache has no entry.\<close>

definition segmenter_of :: "text_env \<Rightarrow> granularity \<Rightarrow> text_locale option \<Rightarrow> segmenter option" where
  "segmenter_of env g l = tx_construct env g (getEffectiveLocale l)"

type_synonym segmenter_cache = "(ustr, segmenter option) jsmap"

definition createSegmenter ::
    "text_env \<Rightarrow> granularity \<Rightarrow> text_locale option \<Rightarrow> segmenter_cache \<Rightarrow>
     segmenter option \<times> segmenter_cache" where
  "createSegmenter env g l cache =
     (let k = getSegmenterCacheKey g (getEffectiveLocale l) in
      case jm_get cache k of
        Some s \<Rightarrow> (s, cache)
      | None \<Rightarrow> (let s = segmenter_of env g l in (s, jm_set cache k s)))"

section \<open>Fallback segmentation\<close>

definition ZERO_WIDTH_JOINER :: nat where
  "ZERO_WIDTH_JOINER = 0x200d"

definition isCodePointInRanges :: "nat \<Rightarrow> (nat \<times> nat) list \<Rightarrow> bool" where
  "isCodePointInRanges c ranges = list_ex (\<lambda>(a, b). a \<le> c \<and> c \<le> b) ranges"

definition isCombiningMark :: "nat \<Rightarrow> bool" where
  "isCombiningMark c = isCodePointInRanges c
     [(0x0300, 0x036f), (0x1ab0, 0x1aff), (0x1dc0, 0x1dff), (0x20d0, 0x20ff), (0xfe20, 0xfe2f)]"

definition isVariationSelector :: "nat \<Rightarrow> bool" where
  "isVariationSelector c = isCodePointInRanges c [(0xfe00, 0xfe0f)]"

definition isEmojiModifier :: "nat \<Rightarrow> bool" where
  "isEmojiModifier c = isCodePointInRanges c [(0x1f3fb, 0x1f3ff)]"

definition extends_grapheme :: "ustr \<Rightarrow> nat \<Rightarrow> bool" where
  "extends_grapheme cur c \<longleftrightarrow> c = ZERO_WIDTH_JOINER \<or> (cur \<noteq> [] \<and> last cur = ZERO_WIDTH_JOINER) \<or>
     isCombiningMark c \<or> isVariationSelector c \<or> isEmojiModifier c"

fun graphemes_loop :: "ustr \<Rightarrow> ustr \<Rightarrow> ustr list" where
  "graphemes_loop cur [] = (if cur = [] then [] else [cur])"
| "graphemes_loop cur (c # cs) =
     (if cur = [] then graphemes_loop [c] cs
      else if extends_grapheme cur c then graphemes_loop (cur @ [c]) cs
      else cur # graphemes_loop [c] cs)"

definition splitGraphemesFallback :: "ustr \<Rightarrow> ustr list" where
  "splitGraphemesFallback s = graphemes_loop [] s"

definition sentence_ends :: "nat list" where
  "sentence_ends = [0x3002, 0xff01, 0xff1f, 33, 63, 0xff1b, 59]"

definition trailing_closers :: "nat list" where
  "trailing_closers = [0x201d, 0x2019, 0x300d, 0x300f, 0xff09, 0x300b, 0x3011, 0x3015, 0x3009,
     0x300b, 93, 125, 41]"

text \<open>The matches of the sentence pattern from left to right. Its first part is greedy and its other
  parts are optional, so a match never backtracks; a character no match starts at is skipped.\<close>

definition sentence_char :: "nat \<Rightarrow> bool" where
  "sentence_char c \<longleftrightarrow> c \<notin> set sentence_ends \<and> c \<noteq> 10"

definition after_sentence :: "ustr \<Rightarrow> ustr \<times> ustr" where
  "after_sentence s =
     (let (e, r) = (case s of c # cs \<Rightarrow> if c \<in> set sentence_ends then ([c], cs) else ([], s) | [] \<Rightarrow> ([], []))
      in (e @ takeWhile (\<lambda>c. c \<in> set trailing_closers) r,
          dropWhile (\<lambda>c. c \<in> set trailing_closers) r))"

lemma after_sentence_length: "length (snd (after_sentence s)) \<le> length s"
  by (auto simp: after_sentence_def split: list.split prod.splits
      intro: le_trans [OF length_dropWhile_le] le_SucI)

function sentence_matches :: "ustr \<Rightarrow> ustr list" where
  "sentence_matches [] = []"
| "sentence_matches (c # cs) =
     (if sentence_char c
      then (let body = takeWhile sentence_char (c # cs);
                tl = after_sentence (dropWhile sentence_char (c # cs))
            in (body @ fst tl) # sentence_matches (snd tl))
      else if c = 10
      then takeWhile ((=) 10) (c # cs) # sentence_matches (dropWhile ((=) 10) (c # cs))
      else sentence_matches cs)"
  by pat_completeness auto
termination
proof (relation "measure length", goal_cases)
  case (2 c cs x xa)
  have "length (snd (after_sentence (dropWhile sentence_char cs))) \<le> length cs"
    by (rule le_trans [OF after_sentence_length length_dropWhile_le])
  with 2 show ?case by simp
next
  case (3 c cs)
  then show ?case using length_dropWhile_le [of "(=) 10" cs] by simp
qed auto

definition splitSentencesFallback :: "ustr \<Rightarrow> ustr list" where
  "splitSentencesFallback s = (case sentence_matches s of [] \<Rightarrow> [s] | ms \<Rightarrow> ms)"

text \<open>\<open>value.split(/(\s+)/u).filter(Boolean)\<close>: the runs of white space and of other characters.\<close>

function space_runs :: "ustr \<Rightarrow> ustr list" where
  "space_runs [] = []"
| "space_runs (c # cs) =
     (c # takeWhile (\<lambda>d. is_js_space d = is_js_space c) cs) #
       space_runs (dropWhile (\<lambda>d. is_js_space d = is_js_space c) cs)"
  by pat_completeness auto
termination by (relation "measure length") (auto simp: le_imp_less_Suc length_dropWhile_le)

definition segmentText :: "text_env \<Rightarrow> text_locale option \<Rightarrow> granularity \<Rightarrow> ustr \<Rightarrow> ustr list" where
  "segmentText env l g s =
     (case segmenter_of env g l of
        Some f \<Rightarrow> f s
      | None \<Rightarrow>
          (case g of GrSentence \<Rightarrow> splitSentencesFallback s
           | GrWord \<Rightarrow> space_runs s
           | GrGrapheme \<Rightarrow> splitGraphemesFallback s))"

abbreviation graphemes :: "text_env \<Rightarrow> text_locale option \<Rightarrow> ustr \<Rightarrow> ustr list" where
  "graphemes env l \<equiv> segmentText env l GrGrapheme"

definition splitTextGraphemes :: "text_env \<Rightarrow> ustr \<Rightarrow> text_locale option \<Rightarrow> ustr list" where
  "splitTextGraphemes env s l = graphemes env l s"

section \<open>Normalisation and counting\<close>

function collapse_spaces :: "ustr \<Rightarrow> ustr" where
  "collapse_spaces [] = []"
| "collapse_spaces (c # cs) =
     (if is_js_space c then 32 # collapse_spaces (dropWhile is_js_space cs)
      else c # collapse_spaces cs)"
  by pat_completeness auto
termination by (relation "measure length") (auto simp: le_imp_less_Suc length_dropWhile_le)

definition normalizePreviewText :: "text_env \<Rightarrow> ustr \<Rightarrow> ustr" where
  "normalizePreviewText env s = trim (collapse_spaces (tx_nfc env s))"

definition normalizeOptionalPreviewText :: "text_env \<Rightarrow> ustr option \<Rightarrow> ustr option" where
  "normalizeOptionalPreviewText env s =
     (let n = normalizePreviewText env (orElse s []) in if n = [] then None else Some n)"

definition countSegmentedGraphemes :: "text_env \<Rightarrow> text_locale option \<Rightarrow> ustr \<Rightarrow> nat" where
  "countSegmentedGraphemes env l s = length (graphemes env l s)"

definition countRenderedGraphemes :: "text_env \<Rightarrow> text_locale option \<Rightarrow> ustr \<Rightarrow> nat" where
  "countRenderedGraphemes env l s = countSegmentedGraphemes env l (tx_nfc env s)"

text \<open>\<open>getEllipsisGraphemeCount\<close> with its cache; without the cache it is
  \<open>countRenderedGraphemes\<close> of the ellipsis.\<close>

definition getEllipsisGraphemeCount ::
    "text_env \<Rightarrow> text_locale option \<Rightarrow> ustr \<Rightarrow> (ustr, nat) jsmap \<Rightarrow> nat \<times> (ustr, nat) jsmap" where
  "getEllipsisGraphemeCount env l e cache =
     (let k = getLocaleCacheKey (getEffectiveLocale l) @ [0] @ e in
      case jm_get cache k of
        Some n \<Rightarrow> (n, cache)
      | None \<Rightarrow> (let n = countRenderedGraphemes env l e in (n, jm_set cache k n)))"

section \<open>Clipping\<close>

definition appendEllipsisWithinBudget ::
    "text_env \<Rightarrow> ustr \<Rightarrow> nat \<Rightarrow> text_locale option \<Rightarrow> ustr \<Rightarrow> ustr" where
  "appendEllipsisWithinBudget env s limit l ellipsis =
     (let n = normalizePreviewText env s; size = countRenderedGraphemes env l ellipsis in
      if n = [] \<or> limit = 0 then []
      else if size = 0 then trim (concat (take limit (graphemes env l n)))
      else if limit \<le> size then trim (concat (take limit (graphemes env l n)))
      else (let content = trim (concat (take (limit - size) (graphemes env l n)))
            in if content \<noteq> [] then content @ ellipsis else []))"

fun sentences_within :: "text_env \<Rightarrow> text_locale option \<Rightarrow> nat \<Rightarrow> ustr list \<Rightarrow> ustr \<Rightarrow> nat \<Rightarrow> ustr \<times> nat" where
  "sentences_within env l limit [] out used = (out, used)"
| "sentences_within env l limit (s # ss) out used =
     (let size = length (graphemes env l s) in
      if limit < used + size then (out, used)
      else sentences_within env l limit ss (out @ s) (used + size))"

definition clipBySentenceBoundary ::
    "text_env \<Rightarrow> ustr \<Rightarrow> nat \<Rightarrow> text_locale option \<Rightarrow> ustr option" where
  "clipBySentenceBoundary env s limit l =
     (if limit = 0 \<or> segmenter_of env GrSentence l = None then None
      else (let sentences = segmentText env l GrSentence s in
        if length sentences \<le> 1 then None
        else (let (out, used) = sentences_within env l limit sentences [] 0; t = trim out in
          if t = [] then None
          else if limit * 9 div 20 \<le> used then Some t else None)))"

definition is_trailing_closer :: "ustr \<Rightarrow> bool" where
  "is_trailing_closer g \<longleftrightarrow> g \<noteq> [] \<and> list_all (\<lambda>c. c \<in> set trailing_closers) g"

function includeTrailingClosers :: "ustr list \<Rightarrow> nat \<Rightarrow> nat \<Rightarrow> nat" where
  "includeTrailingClosers gs boundary limit =
     (if boundary < limit \<and> boundary < length gs \<and> is_trailing_closer (gs ! boundary)
      then includeTrailingClosers gs (boundary + 1) limit else boundary)"
  by pat_completeness auto
termination by (relation "measure (\<lambda>(gs, b, n). length gs - b)") auto

declare includeTrailingClosers.simps [simp del]

fun word_boundary_loop ::
    "text_env \<Rightarrow> text_locale option \<Rightarrow> nat \<Rightarrow> ustr list \<Rightarrow> nat \<Rightarrow> nat \<Rightarrow> nat" where
  "word_boundary_loop env l limit [] used boundary = boundary"
| "word_boundary_loop env l limit (s # ss) used boundary =
     (let next_used = used + length (graphemes env l s) in
      if limit < next_used then boundary
      else word_boundary_loop env l limit ss next_used
             (if limit * 17 div 25 \<le> next_used then next_used else boundary))"

definition findWordBoundary :: "text_env \<Rightarrow> ustr \<Rightarrow> nat \<Rightarrow> text_locale option \<Rightarrow> nat option" where
  "findWordBoundary env s limit l =
     (if limit = 0 then None
      else (case segmenter_of env GrWord l of
              None \<Rightarrow> None
            | Some seg \<Rightarrow>
                (let b = word_boundary_loop env l limit (seg s) 0 0
                 in if 0 < b then Some b else None)))"

definition soft_boundaries :: "nat list" where
  "soft_boundaries = [0xff0c, 44, 0x3001, 0xff1a, 58]"

definition is_preferred_boundary :: "ustr \<Rightarrow> bool" where
  "is_preferred_boundary g = list_ex (\<lambda>c. c \<in> set sentence_ends) g"

definition is_soft_boundary :: "ustr \<Rightarrow> bool" where
  "is_soft_boundary g = list_ex (\<lambda>c. c \<in> set soft_boundaries \<or> is_js_space c) g"

text \<open>The two searches run from the last clipped grapheme down to a least index.\<close>

definition search_back :: "(ustr \<Rightarrow> bool) \<Rightarrow> ustr list \<Rightarrow> nat \<Rightarrow> nat option" where
  "search_back P gs lo = find (\<lambda>i. P (gs ! i)) (rev [lo..<length gs])"

definition findSemanticBoundary :: "text_env \<Rightarrow> ustr \<Rightarrow> nat \<Rightarrow> text_locale option \<Rightarrow> nat" where
  "findSemanticBoundary env s limit l =
     (if limit = 0 then 0
      else (let gs = graphemes env l s; clipped = take limit gs in
        case search_back is_preferred_boundary clipped (limit * 9 div 20) of
          Some i \<Rightarrow> includeTrailingClosers gs (i + 1) limit
        | None \<Rightarrow>
            (case search_back is_soft_boundary clipped (limit * 17 div 25) of
               Some i \<Rightarrow> includeTrailingClosers gs (i + 1) limit
             | None \<Rightarrow>
                 (case findWordBoundary env s limit l of
                    Some b \<Rightarrow> includeTrailingClosers gs b limit
                  | None \<Rightarrow> length clipped))))"

record clip_options =
  co_maxGraphemes :: "js_number option"
  co_locale :: "text_locale option"
  co_ellipsis :: "ustr option"

definition clip_limit :: "clip_options \<Rightarrow> nat" where
  "clip_limit opts = toSafeInteger (orElse (co_maxGraphemes opts) (Some (of_nat DEFAULT_MAX_GRAPHEMES)))
     DEFAULT_MAX_GRAPHEMES"

definition clipTextPreview :: "text_env \<Rightarrow> ustr \<Rightarrow> clip_options \<Rightarrow> ustr" where
  "clipTextPreview env s opts =
     (let limit = clip_limit opts; l = co_locale opts; ellipsis = orElse (co_ellipsis opts) ELLIPSIS;
          n = normalizePreviewText env s
      in if n = [] \<or> limit = 0 then []
         else (let gs = graphemes env l n in
           if length gs \<le> limit then n
           else (let size = countRenderedGraphemes env l ellipsis in
             if size = 0 then trim (concat (take limit gs))
             else if limit \<le> size then trim (concat (take limit gs))
             else (case clipBySentenceBoundary env n (limit - size) l of
                 Some c \<Rightarrow> appendEllipsisWithinBudget env c limit l ellipsis
               | None \<Rightarrow>
                   (let boundary = findSemanticBoundary env n (limit - size) l;
                        clipped = trim (concat (take boundary gs));
                        fb = trim (concat (take (limit - size) gs))
                    in appendEllipsisWithinBudget env (if clipped \<noteq> [] then clipped else fb)
                         limit l ellipsis)))))"

section \<open>Laws of grapheme segmentation\<close>

text \<open>What the clipping code relies on: the segments join to the text, a run of leading segments is
  not cut finer on its own, joining two texts never creates a segment, and neither does trimming.\<close>

locale grapheme_segmenter =
  fixes seg :: segmenter
  assumes join: "concat (seg s) = s"
    and prefix: "length (seg (concat (take n (seg s)))) \<le> n"
    and append: "length (seg (a @ b)) \<le> length (seg a) + length (seg b)"
    and trimmed: "length (seg (trim s)) \<le> length (seg s)"
begin

lemma empty: "seg [] = []"
  using prefix [of 0 "[]"] by simp

lemma clipped: "length (seg (trim (concat (take n (seg s))))) \<le> n"
  using trimmed prefix by (rule le_trans)

lemma clipped_append: "length (seg (trim (concat (take n (seg s))) @ e)) \<le> n + length (seg e)"
  using append [of "trim (concat (take n (seg s)))" e] clipped [of n s] by simp

end

text \<open>The number of graphemes the fallback finds: one more than the breaks between neighbours.\<close>

definition breaks :: "nat \<Rightarrow> nat \<Rightarrow> bool" where
  "breaks p c \<longleftrightarrow> \<not> extends_grapheme [p] c"

fun grapheme_count :: "ustr \<Rightarrow> nat" where
  "grapheme_count [] = 0"
| "grapheme_count [c] = 1"
| "grapheme_count (c # d # cs) = (if breaks c d then 1 else 0) + grapheme_count (d # cs)"

lemma extends_last: "cur \<noteq> [] \<Longrightarrow> extends_grapheme cur c = (\<not> breaks (last cur) c)"
  by (simp add: extends_grapheme_def breaks_def)

lemma loop_count:
  "length (graphemes_loop cur cs) =
     (if cur = [] then grapheme_count cs else grapheme_count (last cur # cs))"
proof (induction cs arbitrary: cur)
  case (Cons c cs)
  then show ?case by (cases "cur = []") (simp_all add: extends_last)
qed simp

lemma fallback_count: "length (splitGraphemesFallback s) = grapheme_count s"
  by (simp add: splitGraphemesFallback_def loop_count)

lemma loop_join: "concat (graphemes_loop cur cs) = cur @ cs"
  by (induction cs arbitrary: cur) auto

lemma count_Cons: "grapheme_count cs \<le> grapheme_count (c # cs) \<and>
    grapheme_count (c # cs) \<le> Suc (grapheme_count cs)"
  by (cases cs) auto

lemma count_pos: "0 < grapheme_count (c # cs)"
proof (induction cs arbitrary: c)
  case (Cons d cs)
  then show ?case by simp
qed simp

lemma count_append: "grapheme_count (a @ b) \<le> grapheme_count a + grapheme_count b \<and>
    grapheme_count a \<le> grapheme_count (a @ b)"
proof (induction a rule: grapheme_count.induct)
  case (2 c)
  show ?case using count_Cons [of b c] count_pos [of c b] by auto
qed simp_all

lemma count_suffix: "grapheme_count b \<le> grapheme_count (a @ b)"
proof (induction a)
  case (Cons c a)
  then show ?case using count_Cons [of "a @ b" c] by simp
qed simp

lemma count_snoc: "cur \<noteq> [] \<Longrightarrow> grapheme_count (cur @ [c]) =
    grapheme_count cur + (if breaks (last cur) c then 1 else 0)"
  by (induction cur rule: grapheme_count.induct) auto

lemma loop_single:
  "grapheme_count cur \<le> 1 \<Longrightarrow> g \<in> set (graphemes_loop cur cs) \<Longrightarrow> grapheme_count g \<le> 1"
proof (induction cs arbitrary: cur)
  case (Cons c cs)
  show ?case
  proof (cases "cur \<noteq> [] \<and> extends_grapheme cur c")
    case True
    then have "grapheme_count (cur @ [c]) \<le> 1"
      using Cons.prems(1) extends_last [of cur c] by (simp add: count_snoc)
    with Cons True show ?thesis by auto
  next
    case False
    with Cons.prems Cons.IH [of "[c]"] show ?thesis by (auto split: if_splits)
  qed
qed (simp split: if_splits)

lemma count_concat: "(\<And>g. g \<in> set gs \<Longrightarrow> grapheme_count g \<le> 1) \<Longrightarrow> grapheme_count (concat gs) \<le> length gs"
proof (induction gs)
  case (Cons g gs)
  then have "grapheme_count g \<le> 1" "grapheme_count (concat gs) \<le> length gs" by simp_all
  then show ?case using count_append [of g "concat gs"] by simp
qed simp

lemma count_trim: "grapheme_count (trim s) \<le> grapheme_count s"
proof -
  let ?d = "dropWhile is_js_space s"
  have "grapheme_count (rev (dropWhile is_js_space (rev ?d))) \<le> grapheme_count ?d"
    using count_append [of "rev (dropWhile is_js_space (rev ?d))" "rev (takeWhile is_js_space (rev ?d))"]
    by (simp add: rev_append [symmetric])
  also have "\<dots> \<le> grapheme_count s"
    using count_suffix [of ?d "takeWhile is_js_space s"] by simp
  finally show ?thesis by (simp add: trim_def)
qed

interpretation fallback: grapheme_segmenter splitGraphemesFallback
proof
  show "concat (splitGraphemesFallback s) = s" for s
    by (simp add: splitGraphemesFallback_def loop_join)
  show "length (splitGraphemesFallback (concat (take n (splitGraphemesFallback s)))) \<le> n" for n s
  proof -
    have "grapheme_count (concat (take n (splitGraphemesFallback s))) \<le>
        length (take n (splitGraphemesFallback s))"
      unfolding splitGraphemesFallback_def
      by (rule count_concat, rule loop_single [of "[]"]) (auto dest: in_set_takeD)
    then show ?thesis by (simp add: fallback_count)
  qed
qed (simp_all add: fallback_count count_append count_trim)

section \<open>Bounds\<close>

text \<open>A condition under which lengths add up: the grapheme segmentation obeys the laws, and canonical
  composition keeps the number of graphemes. It is not true of every engine: where
  \<open>Intl.Segmenter\<close> is missing, the code's own fallback obeys the laws, but counts the parts of a
  decomposed Hangul syllable one by one, which composition then joins. The property below does
  without it.\<close>

definition well_segmented :: "text_env \<Rightarrow> text_locale option \<Rightarrow> bool" where
  "well_segmented env l \<longleftrightarrow> grapheme_segmenter (graphemes env l) \<and>
     (\<forall>s. length (graphemes env l (tx_nfc env s)) = length (graphemes env l s))"

lemma rendered_count: "well_segmented env l \<Longrightarrow> countRenderedGraphemes env l s = length (graphemes env l s)"
  by (simp add: well_segmented_def countRenderedGraphemes_def countSegmentedGraphemes_def)

lemma append_ellipsis_bound:
  assumes "well_segmented env l"
  shows "length (graphemes env l (appendEllipsisWithinBudget env s limit l e)) \<le> limit"
proof -
  have seg: "grapheme_segmenter (graphemes env l)" using assms by (simp add: well_segmented_def)
  have "length (graphemes env l (trim (concat (take (limit - length (graphemes env l e))
      (graphemes env l t))) @ e)) \<le> limit" if "length (graphemes env l e) < limit" for t
    using grapheme_segmenter.clipped_append [OF seg, of "limit - length (graphemes env l e)" t e] that
    by simp
  then show ?thesis
    using grapheme_segmenter.clipped [OF seg, of limit]
    by (simp add: appendEllipsisWithinBudget_def Let_def grapheme_segmenter.empty [OF seg]
        rendered_count [OF assms])
qed

lemma closers_bounds:
  "boundary \<le> includeTrailingClosers gs boundary limit \<and>
   (boundary \<le> limit \<longrightarrow> includeTrailingClosers gs boundary limit \<le> limit)"
proof (induction gs boundary limit rule: includeTrailingClosers.induct)
  case (1 gs boundary limit)
  then show ?case by (subst (1 2) includeTrailingClosers.simps) auto
qed

lemma search_back_bounds:
  assumes "search_back P gs lo = Some i"
  shows "lo \<le> i \<and> i < length gs \<and> P (gs ! i)"
proof -
  obtain k where "i = rev [lo..<length gs] ! k" "k < length (rev [lo..<length gs])" and P: "P (gs ! i)"
    using assms by (auto simp: search_back_def find_Some_iff)
  then have "i \<in> set (rev [lo..<length gs])" using nth_mem by metis
  with P show ?thesis by simp
qed

lemma word_loop_bounds:
  "b = 0 \<or> limit * 17 div 25 \<le> b \<and> b \<le> limit \<Longrightarrow>
   word_boundary_loop env l limit ss used b = 0 \<or>
     limit * 17 div 25 \<le> word_boundary_loop env l limit ss used b \<and>
     word_boundary_loop env l limit ss used b \<le> limit"
  by (induction ss arbitrary: used b) (simp_all add: Let_def)

lemma word_boundary_bounds:
  "findWordBoundary env s limit l = Some b \<Longrightarrow> limit * 17 div 25 \<le> b \<and> b \<le> limit \<and> 0 < b"
proof -
  assume "findWordBoundary env s limit l = Some b"
  then obtain seg where "b = word_boundary_loop env l limit (seg s) 0 0" "0 < b"
    by (auto simp: findWordBoundary_def Let_def split: if_splits option.splits)
  then show ?thesis using word_loop_bounds [of 0 limit env l "seg s" 0] by simp
qed

lemma ratio_mono: "limit * 9 div 20 \<le> limit * 17 div (25 :: nat)"
  by linarith

lemma clip_preview_ok:
  assumes "well_segmented env (co_locale opts)"
  shows "length (graphemes env (co_locale opts) (clipTextPreview env s opts)) \<le> clip_limit opts"
proof -
  have seg: "grapheme_segmenter (graphemes env (co_locale opts))"
    using assms by (simp add: well_segmented_def)
  show ?thesis
    using grapheme_segmenter.clipped [OF seg] append_ellipsis_bound [OF assms]
    by (simp add: clipTextPreview_def Let_def grapheme_segmenter.empty [OF seg] split: option.split)
qed

text \<open>What a clipped preview looks like: nothing, the text itself, or a non-empty start followed by the
  ellipsis, unless the ellipsis leaves no room.\<close>

lemma clip_preview_fits:
  "\<lbrakk>normalizePreviewText env s \<noteq> []; 0 < clip_limit opts;
    length (graphemes env (co_locale opts) (normalizePreviewText env s)) \<le> clip_limit opts\<rbrakk> \<Longrightarrow>
   clipTextPreview env s opts = normalizePreviewText env s"
  by (simp add: clipTextPreview_def Let_def)

section \<open>Properties\<close>

text \<open>The boundary the clipping looks for never passes the limit, and in a text longer than the
  limit it keeps at least 45 per cent of it, so a preview is never clipped to nothing because a
  sentence, a pause or a word ended early.\<close>

theorem semantic_boundary_bounds:
  assumes "0 < limit" and "limit < length (graphemes env l s)"
  shows "limit * 9 div 20 \<le> findSemanticBoundary env s limit l \<and>
    findSemanticBoundary env s limit l \<le> limit \<and> 0 < findSemanticBoundary env s limit l"
proof -
  let ?gs = "graphemes env l s"
  have len: "length (take limit ?gs) = limit" using assms by simp
  have found: "lo < includeTrailingClosers ?gs (i + 1) limit \<and>
      includeTrailingClosers ?gs (i + 1) limit \<le> limit"
    if "search_back P (take limit ?gs) lo = Some i" for P lo i
    using search_back_bounds [OF that] closers_bounds [of "i + 1" ?gs limit] len by linarith
  have word: "limit * 17 div 25 \<le> includeTrailingClosers ?gs b limit \<and>
      includeTrailingClosers ?gs b limit \<le> limit \<and> 0 < includeTrailingClosers ?gs b limit"
    if "findWordBoundary env s limit l = Some b" for b
    using word_boundary_bounds [OF that] closers_bounds [of b ?gs limit] by linarith
  let ?p = "search_back is_preferred_boundary (take limit ?gs) (limit * 9 div 20)"
  let ?q = "search_back is_soft_boundary (take limit ?gs) (limit * 17 div 25)"
  have b: "findSemanticBoundary env s limit l = (case ?p of
      Some i \<Rightarrow> includeTrailingClosers ?gs (i + 1) limit
    | None \<Rightarrow> (case ?q of Some i \<Rightarrow> includeTrailingClosers ?gs (i + 1) limit
      | None \<Rightarrow> (case findWordBoundary env s limit l of
          Some b \<Rightarrow> includeTrailingClosers ?gs b limit | None \<Rightarrow> limit)))"
    unfolding findSemanticBoundary_def Let_def len using assms(1) by simp
  note ratio = ratio_mono [of limit]
  show ?thesis
  proof (cases ?p)
    case (Some i)
    then show ?thesis using found [OF Some] b by simp
  next
    case p: None
    show ?thesis
    proof (cases ?q)
      case (Some i)
      then show ?thesis using found [OF Some] b p ratio by simp
    next
      case q: None
      show ?thesis
      proof (cases "findWordBoundary env s limit l")
        case None
        then have "findSemanticBoundary env s limit l = limit" using b p q by simp
        then show ?thesis using assms(1) by simp
      next
        case (Some w)
        then have "findSemanticBoundary env s limit l = includeTrailingClosers ?gs w limit"
          using b p q by simp
        then show ?thesis using word [OF Some] ratio by simp
      qed
    qed
  qed
qed

text \<open>The piece that is clipped when a text is too long, for a budget \<open>m\<close>: its first sentences, which
  use between 45 per cent of the budget and all of it, or its first graphemes, at least 45 per cent of
  the budget and no more than it allows.\<close>

definition leading_sentences :: "text_env \<Rightarrow> text_locale option \<Rightarrow> ustr \<Rightarrow> nat \<Rightarrow> ustr \<Rightarrow> bool" where
  "leading_sentences env l n m c \<longleftrightarrow>
     (\<exists>j. c = trim (concat (take j (segmentText env l GrSentence n))) \<and> c \<noteq> [] \<and>
        (let used = sum_list (map (\<lambda>s. length (graphemes env l s)) (take j (segmentText env l GrSentence n)))
         in m * 9 div 20 \<le> used \<and> used \<le> m))"

definition leading_graphemes :: "text_env \<Rightarrow> text_locale option \<Rightarrow> ustr \<Rightarrow> nat \<Rightarrow> ustr \<Rightarrow> bool" where
  "leading_graphemes env l n m c \<longleftrightarrow>
     (\<exists>b. m * 9 div 20 \<le> b \<and> b \<le> m \<and> 0 < b \<and> c = trim (concat (take b (graphemes env l n))))"

lemma sentences_within_taken:
  "used \<le> limit \<Longrightarrow> sentences_within env l limit ss out used = (out', used') \<Longrightarrow>
   \<exists>j. out' = out @ concat (take j ss) \<and>
     used' = used + sum_list (map (\<lambda>s. length (graphemes env l s)) (take j ss)) \<and> used' \<le> limit"
proof (induction ss arbitrary: out used)
  case (Cons s ss)
  show ?case
  proof (cases "limit < used + length (graphemes env l s)")
    case True
    with Cons.prems show ?thesis by (intro exI [of _ 0]) (simp add: Let_def)
  next
    case False
    with Cons.prems have "sentences_within env l limit ss (out @ s) (used + length (graphemes env l s)) = (out', used')"
      by (simp add: Let_def)
    from Cons.IH [OF _ this] False obtain j where "out' = out @ s @ concat (take j ss)"
      "used' = used + length (graphemes env l s) + sum_list (map (\<lambda>s. length (graphemes env l s)) (take j ss))"
      "used' \<le> limit" by auto
    then show ?thesis by (intro exI [of _ "Suc j"]) simp
  qed
qed simp

lemma sentence_clip_leads:
  assumes "clipBySentenceBoundary env n m l = Some c"
  shows "leading_sentences env l n m c"
proof -
  obtain out used where r: "sentences_within env l m (segmentText env l GrSentence n) [] 0 = (out, used)"
    by fastforce
  then have c: "c = trim out" "c \<noteq> []" "m * 9 div 20 \<le> used"
    using assms by (auto simp: clipBySentenceBoundary_def Let_def split: if_splits)
  from sentences_within_taken [OF _ r] c show ?thesis by (auto simp: leading_sentences_def Let_def)
qed

text \<open>C39: What a clipped preview is, for every segmenter, locale, limit and ellipsis. Nothing is shown
  of a blank text or under the limit 0; a text within the limit is shown as it is, normalised. A
  longer text is cut to as many graphemes as the limit allows when the ellipsis is empty or does not
  fit; otherwise the ellipsis, counted as a renderer counts it, is taken off the limit first, a
  leading piece of the text (whole sentences, or graphemes up to a boundary, at least 45 per cent of what is
  left) is normalised and cut to the graphemes that are left, and the ellipsis follows, once.\<close>

theorem clipped_preview_leads:
  "let l = co_locale opts; n = normalizePreviewText env s; limit = clip_limit opts;
       ellipsis = orElse (co_ellipsis opts) ELLIPSIS; size = countRenderedGraphemes env l ellipsis;
       r = clipTextPreview env s opts
   in if n = [] \<or> limit = 0 then r = []
      else if length (graphemes env l n) \<le> limit then r = n
      else if size = 0 \<or> limit \<le> size then r = trim (concat (take limit (graphemes env l n)))
      else (\<exists>c. (leading_sentences env l n (limit - size) c \<or> leading_graphemes env l n (limit - size) c) \<and>
        (let t = trim (concat (take (limit - size) (graphemes env l (normalizePreviewText env c))))
         in r = (if normalizePreviewText env c = [] \<or> t = [] then [] else t @ ellipsis)))"
proof -
  let ?l = "co_locale opts" and ?n = "normalizePreviewText env s" and ?limit = "clip_limit opts"
  let ?e = "orElse (co_ellipsis opts) ELLIPSIS"
  let ?size = "countRenderedGraphemes env ?l ?e"
  let ?gs = "graphemes env ?l ?n"
  let ?r = "clipTextPreview env s opts"
  have "\<exists>c. (leading_sentences env ?l ?n (?limit - ?size) c \<or> leading_graphemes env ?l ?n (?limit - ?size) c) \<and>
      ?r = appendEllipsisWithinBudget env c ?limit ?l ?e"
    if "?n \<noteq> []" "?limit < length ?gs" "0 < ?size" "?size < ?limit"
  proof (cases "clipBySentenceBoundary env ?n (?limit - ?size) ?l")
    case (Some c)
    with that have "?r = appendEllipsisWithinBudget env c ?limit ?l ?e"
      by (simp add: clipTextPreview_def Let_def)
    with sentence_clip_leads [OF Some] show ?thesis by blast
  next
    case None
    let ?m = "?limit - ?size"
    let ?b = "findSemanticBoundary env ?n ?m ?l"
    let ?c = "if trim (concat (take ?b ?gs)) \<noteq> [] then trim (concat (take ?b ?gs)) else trim (concat (take ?m ?gs))"
    have "?m * 9 div 20 \<le> ?b \<and> ?b \<le> ?m \<and> 0 < ?b"
      using semantic_boundary_bounds [of ?m env ?l ?n] that by simp
    then have "leading_graphemes env ?l ?n ?m ?c"
      unfolding leading_graphemes_def using that
      by (intro exI [of _ "if trim (concat (take ?b ?gs)) \<noteq> [] then ?b else ?m"]) auto
    moreover have "?r = appendEllipsisWithinBudget env ?c ?limit ?l ?e"
      using None that by (simp add: clipTextPreview_def Let_def)
    ultimately show ?thesis by blast
  qed
  then show ?thesis
    by (auto simp: Let_def not_le clip_preview_fits) (auto simp: clipTextPreview_def appendEllipsisWithinBudget_def Let_def)
qed

definition plain_env :: text_env where
  "plain_env = \<lparr>tx_construct = (\<lambda>_ _. None), tx_nfc = id\<rparr>"

lemma plain_graphemes [simp]: "graphemes plain_env l = splitGraphemesFallback"
  by (rule ext) (simp add: segmentText_def segmenter_of_def plain_env_def)

lemma plain_nfc [simp]: "tx_nfc plain_env s = s"
  by (simp add: plain_env_def)

lemma plain_env_ok [simp]: "well_segmented plain_env l"
  using fallback.grapheme_segmenter_axioms by (simp add: well_segmented_def)

lemmas grapheme_eval = splitGraphemesFallback_def extends_grapheme_def isCombiningMark_def
  isVariationSelector_def isEmojiModifier_def isCodePointInRanges_def ZERO_WIDTH_JOINER_def

lemma semantic_boundary_bounds_witness:
  "findSemanticBoundary plain_env [97, 98, 99, 32, 120, 121] 5 None \<in> {2..5}"
  using semantic_boundary_bounds [of 5 plain_env None "[97, 98, 99, 32, 120, 121]"]
  by (simp add: grapheme_eval)

fun serve_segmenters ::
    "text_env \<Rightarrow> (granularity \<times> text_locale option) list \<Rightarrow> segmenter_cache \<Rightarrow> segmenter option list" where
  "serve_segmenters env [] cache = []"
| "serve_segmenters env ((g, l) # rs) cache =
     (case createSegmenter env g l cache of (s, cache') \<Rightarrow> s # serve_segmenters env rs cache')"

lemma segmenter_key_inj:
  "getSegmenterCacheKey g l = getSegmenterCacheKey g' l' \<Longrightarrow>
   g = g' \<and> getLocaleCacheKey l = getLocaleCacheKey l'"
  by (cases g; cases g') (simp_all add: getSegmenterCacheKey_def lit_def)

text \<open>The segmenter cache is invisible: as long as locales with the same key mean the same to the
  constructor, any sequence of requests, from an empty cache, gets exactly the segmenters that
  constructing each one anew would give.\<close>

theorem segmenter_cache_transparent:
  assumes "\<And>k k' gr. getLocaleCacheKey k = getLocaleCacheKey k' \<Longrightarrow> tx_construct env gr k = tx_construct env gr k'"
  shows "serve_segmenters env requests [] = map (\<lambda>(g, l). segmenter_of env g l) requests"
proof -
  let ?ok = "\<lambda>cache. \<forall>g l. jm_get cache (getSegmenterCacheKey g l) \<in> {None, Some (tx_construct env g l)}"
  have same: "tx_construct env g l = tx_construct env g' l'"
    if "getSegmenterCacheKey g l = getSegmenterCacheKey g' l'" for g g' l l'
    using segmenter_key_inj [OF that] assms by blast
  have step: "fst (createSegmenter env g l cache) = segmenter_of env g l \<and>
      ?ok (snd (createSegmenter env g l cache))" if ok: "?ok cache" for g l cache
  proof (cases "jm_get cache (getSegmenterCacheKey g (getEffectiveLocale l))")
    case None
    let ?c = "jm_set cache (getSegmenterCacheKey g (getEffectiveLocale l)) (segmenter_of env g l)"
    have eq: "createSegmenter env g l cache = (segmenter_of env g l, ?c)"
      using None by (simp add: createSegmenter_def Let_def)
    have "jm_get ?c (getSegmenterCacheKey g' l') \<in> {None, Some (tx_construct env g' l')}" for g' l'
    proof (cases "getSegmenterCacheKey g' l' = getSegmenterCacheKey g (getEffectiveLocale l)")
      case True
      then show ?thesis using same [OF True] by (simp add: segmenter_of_def)
    next
      case False
      then show ?thesis using ok by simp
    qed
    then show ?thesis unfolding eq by simp
  next
    case (Some s)
    have "jm_get cache (getSegmenterCacheKey g (getEffectiveLocale l)) \<in>
        {None, Some (tx_construct env g (getEffectiveLocale l))}" using ok by blast
    then have "s = segmenter_of env g l" using Some by (simp add: segmenter_of_def)
    then show ?thesis using ok Some by (simp add: createSegmenter_def Let_def)
  qed
  have "?ok cache \<Longrightarrow> serve_segmenters env requests cache = map (\<lambda>(g, l). segmenter_of env g l) requests"
    for cache
  proof (induction requests arbitrary: cache)
    case (Cons r rs)
    obtain g l where r: "r = (g, l)" by fastforce
    obtain s cache' where c: "createSegmenter env g l cache = (s, cache')" by fastforce
    with step [OF Cons.prems, of g l] have "s = segmenter_of env g l" "?ok cache'" by simp_all
    then show ?case using Cons.IH [of cache'] c r by simp
  qed simp
  then show ?thesis by simp
qed

lemma segmenter_cache_transparent_witness:
  "serve_segmenters plain_env [(GrWord, None), (GrGrapheme, Some (LocaleOne [101])), (GrWord, None)] [] =
     [None, None, None]"
  using segmenter_cache_transparent [of plain_env]
  by (simp add: plain_env_def segmenter_of_def del: serve_segmenters.simps)

end
