(* ===== verification/ModelOutput.thy ===== *)
theory ModelOutput
  imports TextPreview
begin

text \<open>
  Compaction of tool results for the model (\<open>agent-sidecar/src/models/output-budget.ts\<close>).

  Run-time values live in a heap, so that an object can be shared or contain itself: a reference is
  an address, and objects the code builds on the way (the entries of a map, the fields of an error)
  are new and have none. Strings are lists of code points; a number is a rational, or
  \<open>None\<close> for \<open>NaN\<close> and the infinities. The text of opaque objects, dates, symbols and
  the like is data of the heap. \<open>Intl.Segmenter\<close> and the printing of numbers are parameters.
\<close>

section \<open>Values\<close>

datatype jsv =
    VString ustr
  | VNull
  | VNumber js_number
  | VBool bool
  | VUndefined
  | VFunction ustr
  | VSymbol ustr
  | VBigint int
  | VRef nat
  | VNew jsobj
and jsobj =
    ODate "ustr option"
  | ORegExp ustr
  | OError jsv jsv "jsv option"
  | OMap "(jsv \<times> jsv) list"
  | OSet "jsv list"
  | OView ustr "nat option"
  | OArray "jsv list"
  | ORecord "(ustr \<times> jsv) list"
  | OOpaque "ustr option" "ustr option"

type_synonym heap = "nat \<Rightarrow> jsobj"

text \<open>What compaction gives back is always a JSON value.\<close>

datatype out =
    NullOut
  | BoolOut bool
  | NumOut js_number
  | StrOut ustr
  | ArrOut "out list"
  | ObjOut "(ustr \<times> out) list"

section \<open>Options and notices\<close>

definition show_num :: "nat \<Rightarrow> ustr" where
  "show_num n = lit (show_nat n)"

definition toBoundedInteger :: "js_number option \<Rightarrow> int \<Rightarrow> int \<Rightarrow> int" where
  "toBoundedInteger v fallback lo =
     (let safe = max fallback lo in
      case v of
        None \<Rightarrow> safe
      | Some None \<Rightarrow> safe
      | Some (Some q) \<Rightarrow> (if lo \<le> \<lfloor>q\<rfloor> then \<lfloor>q\<rfloor> else safe))"

record compact_options =
  cp_maxTotalChars :: js_number
  cp_maxStringChars :: "js_number option"
  cp_maxArrayItems :: "js_number option"
  cp_maxObjectKeys :: "js_number option"
  cp_maxDepth :: "js_number option"
  cp_locale :: "ustr option"

record resolved_options =
  ro_maxTotalChars :: nat
  ro_maxStringChars :: nat
  ro_maxArrayItems :: nat
  ro_maxObjectKeys :: nat
  ro_maxDepth :: nat
  ro_locale :: ustr

definition DEFAULT_LOCALE :: ustr where
  "DEFAULT_LOCALE = lit ''zh-CN''"

definition resolveOptions :: "compact_options \<Rightarrow> resolved_options" where
  "resolveOptions o' =
     \<lparr>ro_maxTotalChars = nat (toBoundedInteger (Some (cp_maxTotalChars o')) 1200 0),
      ro_maxStringChars = nat (toBoundedInteger (cp_maxStringChars o') 1200 0),
      ro_maxArrayItems = nat (toBoundedInteger (cp_maxArrayItems o') 20 0),
      ro_maxObjectKeys = nat (toBoundedInteger (cp_maxObjectKeys o') 40 0),
      ro_maxDepth = nat (toBoundedInteger (cp_maxDepth o') 6 0),
      ro_locale = orElse (cp_locale o') DEFAULT_LOCALE\<rparr>"

definition OMITTED_ITEMS_KEY :: ustr where
  "OMITTED_ITEMS_KEY = lit ''__modelOutputOmittedItems__''"

definition OMITTED_KEYS_KEY :: ustr where
  "OMITTED_KEYS_KEY = lit ''__modelOutputOmittedKeys__''"

definition is_chinese :: "ustr \<Rightarrow> bool" where
  "is_chinese l \<longleftrightarrow> take 2 (toLowerCase l) = lit ''zh''"

definition formatTruncationNotice :: "nat \<Rightarrow> nat \<Rightarrow> ustr \<Rightarrow> ustr" where
  "formatTruncationNotice kept tot l =
     (if is_chinese l
      then [91, 20869, 23481, 24050, 25130, 26029, 65306, 26174, 31034, 21069, 32] @ show_num kept @
        [32, 47, 32] @ show_num tot @ [32, 23383, 31526, 12290, 93]
      else lit ''[Content truncated: showing '' @ show_num kept @ lit '' of '' @ show_num tot @
        lit '' characters.]'')"

definition formatDepthExceededNotice :: "ustr \<Rightarrow> ustr" where
  "formatDepthExceededNotice l =
     (if is_chinese l
      then [91, 20869, 23481, 24050, 30465, 30053, 65306, 36229, 36807, 26368, 22823, 32467, 26500,
        28145, 24230, 12290, 93]
      else lit ''[Content omitted: maximum structure depth exceeded.]'')"

definition formatCycleNotice :: "ustr \<Rightarrow> ustr" where
  "formatCycleNotice l =
     (if is_chinese l
      then [91, 20869, 23481, 24050, 30465, 30053, 65306, 26816, 27979, 21040, 24490, 29615, 24341,
        29992, 12290, 93]
      else lit ''[Content omitted: circular reference detected.]'')"

section \<open>Truncating text\<close>

text \<open>The per-locale cache only saves constructions: it maps a locale to what constructing a segmenter
  for it gave.\<close>

definition getGraphemeSegmenter ::
    "text_env \<Rightarrow> ustr \<Rightarrow> (ustr, segmenter option) jsmap \<Rightarrow>
     segmenter option \<times> (ustr, segmenter option) jsmap" where
  "getGraphemeSegmenter env l cache =
     (case jm_get cache l of
        Some s \<Rightarrow> (s, cache)
      | None \<Rightarrow> (let s = tx_construct env GrGrapheme (LocaleOne l) in (s, jm_set cache l s)))"

definition segmentGraphemes :: "text_env \<Rightarrow> ustr \<Rightarrow> ustr \<Rightarrow> ustr list" where
  "segmentGraphemes env l s =
     (case tx_construct env GrGrapheme (LocaleOne l) of
        Some f \<Rightarrow> f s
      | None \<Rightarrow> map (\<lambda>c. [c]) s)"

definition countModelOutputChars :: "text_env \<Rightarrow> ustr \<Rightarrow> ustr \<Rightarrow> nat" where
  "countModelOutputChars env s l = length (segmentGraphemes env l s)"

record truncation =
  tr_text :: ustr
  tr_truncated :: bool
  tr_originalCharCount :: nat
  tr_omittedCharCount :: nat

definition truncateModelOutputText :: "text_env \<Rightarrow> ustr \<Rightarrow> nat \<Rightarrow> bool \<Rightarrow> ustr \<Rightarrow> truncation" where
  "truncateModelOutputText env s maxc includeNotice l =
     (let gs = segmentGraphemes env l s; n = length gs in
      if n \<le> maxc
      then \<lparr>tr_text = s, tr_truncated = False, tr_originalCharCount = n, tr_omittedCharCount = 0\<rparr>
      else (let clipped = concat (take maxc gs); notice = formatTruncationNotice maxc n l in
        \<lparr>tr_text = (if \<not> includeNotice then clipped
           else if clipped \<noteq> [] then clipped @ [10] @ notice else notice),
         tr_truncated = True, tr_originalCharCount = n, tr_omittedCharCount = n - maxc\<rparr>))"

section \<open>Compaction\<close>

definition describeOpaqueObject :: "ustr option \<Rightarrow> ustr option \<Rightarrow> ustr" where
  "describeOpaqueObject ctor txt =
     (let tag = (case ctor of Some c \<Rightarrow> if c = [] \<or> c = lit ''Object'' then lit ''Object'' else c
                 | None \<Rightarrow> lit ''Object'') in
      case txt of
        None \<Rightarrow> [91] @ tag @ [93]
      | Some t \<Rightarrow> (if t = lit ''[object Object]'' then [91] @ tag @ [93]
                  else [91] @ tag @ [32] @ t @ [93]))"

definition compact_string :: "text_env \<Rightarrow> resolved_options \<Rightarrow> ustr \<Rightarrow> ustr" where
  "compact_string env opts s =
     tr_text (truncateModelOutputText env s (ro_maxStringChars opts) True (ro_locale opts))"

definition error_fields :: "jsv \<Rightarrow> jsv \<Rightarrow> jsv option \<Rightarrow> (ustr \<times> jsv) list" where
  "error_fields name message stack =
     [(lit ''name'', name), (lit ''message'', message)] @
     (case stack of Some st \<Rightarrow> if st = VString [] then [] else [(lit ''stack'', st)] | None \<Rightarrow> [])"

text \<open>\<open>compactValue\<close>: the heap object behind a reference is entered with its address added to
  \<open>seen\<close> (and taken out again afterwards, so \<open>seen\<close> is the path to the value).\<close>

function compactValue ::
    "text_env \<Rightarrow> heap \<Rightarrow> resolved_options \<Rightarrow> nat \<Rightarrow> nat set \<Rightarrow> jsv \<Rightarrow> out"
  and compactObject ::
    "text_env \<Rightarrow> heap \<Rightarrow> resolved_options \<Rightarrow> nat \<Rightarrow> nat set \<Rightarrow> jsobj \<Rightarrow> out" where
  "compactValue env h opts depth seen (VString s) = StrOut (compact_string env opts s)"
| "compactValue env h opts depth seen VNull = NullOut"
| "compactValue env h opts depth seen (VNumber n) = NumOut n"
| "compactValue env h opts depth seen (VBool b) = BoolOut b"
| "compactValue env h opts depth seen VUndefined = StrOut (lit ''[undefined]'')"
| "compactValue env h opts depth seen (VFunction name) =
     StrOut (lit ''[Function: '' @ (if name = [] then lit ''anonymous'' else name) @ [93])"
| "compactValue env h opts depth seen (VSymbol txt) = StrOut txt"
| "compactValue env h opts depth seen (VBigint i) = StrOut (show_int i @ [110])"
| "compactValue env h opts depth seen (VRef a) =
     (if a \<in> seen then StrOut (formatCycleNotice (ro_locale opts))
      else if ro_maxDepth opts \<le> depth then StrOut (formatDepthExceededNotice (ro_locale opts))
      else compactObject env h opts depth (insert a seen) (h a))"
| "compactValue env h opts depth seen (VNew ob) =
     (if ro_maxDepth opts \<le> depth then StrOut (formatDepthExceededNotice (ro_locale opts))
      else compactObject env h opts depth seen ob)"
| "compactObject env h opts depth seen (ODate dt) =
     StrOut (case dt of None \<Rightarrow> lit ''[Invalid Date]'' | Some t \<Rightarrow> t)"
| "compactObject env h opts depth seen (ORegExp txt) = StrOut txt"
| "compactObject env h opts depth seen (OError name message stack) =
     compactValue env h opts (depth + 1) seen (VNew (ORecord (error_fields name message stack)))"
| "compactObject env h opts depth seen (OMap entries) =
     compactValue env h opts (depth + 1) seen
       (VNew (OArray (map (\<lambda>(k, v). VNew (OArray [k, v])) entries)))"
| "compactObject env h opts depth seen (OSet vs) =
     compactValue env h opts (depth + 1) seen (VNew (OArray vs))"
| "compactObject env h opts depth seen (OView ctor n) =
     StrOut ([91] @ ctor @ lit ''(length='' @ (case n of Some k \<Rightarrow> show_num k | None \<Rightarrow> [63]) @ [41, 93])"
| "compactObject env h opts depth seen (OArray vs) =
     (let items = map (compactValue env h opts (depth + 1) seen) (take (ro_maxArrayItems opts) vs);
          omitted = length vs - length items
      in ArrOut (if 0 < omitted
           then items @ [ObjOut [(OMITTED_ITEMS_KEY, NumOut (Some (of_nat omitted)))]] else items))"
| "compactObject env h opts depth seen (ORecord es) =
     (let kept = map (\<lambda>(k, v). (k, compactValue env h opts (depth + 1) seen v))
            (take (ro_maxObjectKeys opts) es);
          omitted = length es - length kept
      in ObjOut (if 0 < omitted
           then jm_set kept OMITTED_KEYS_KEY (NumOut (Some (of_nat omitted))) else kept))"
| "compactObject env h opts depth seen (OOpaque ctor txt) = StrOut (describeOpaqueObject ctor txt)"
  by pat_completeness auto
termination
proof (relation "measure (\<lambda>x. case x of
    Inl (env, h, opts, depth, seen, v) \<Rightarrow> 2 * (ro_maxDepth opts - depth)
  | Inr (env, h, opts, depth, seen, ob) \<Rightarrow> 2 * (ro_maxDepth opts - depth - 1) + 1)", goal_cases)
qed auto

section \<open>Serialising and the result\<close>

fun hex_digit :: "nat \<Rightarrow> nat" where
  "hex_digit d = (if d < 10 then 48 + d else 87 + d)"

definition json_escape :: "nat \<Rightarrow> ustr" where
  "json_escape c =
     (if c = 34 then [92, 34] else if c = 92 then [92, 92]
      else if c = 8 then [92, 98] else if c = 9 then [92, 116] else if c = 10 then [92, 110]
      else if c = 12 then [92, 102] else if c = 13 then [92, 114]
      else if c < 32 then [92, 117, 48, 48, hex_digit (c div 16), hex_digit (c mod 16)]
      else [c])"

definition json_quote :: "ustr \<Rightarrow> ustr" where
  "json_quote s = [34] @ concat (map json_escape s) @ [34]"

text \<open>\<open>JSON.stringify\<close> of a JSON value; \<open>num_text\<close> prints a finite number.\<close>

fun json_stringify :: "(rat \<Rightarrow> ustr) \<Rightarrow> out \<Rightarrow> ustr" where
  "json_stringify num_text NullOut = lit ''null''"
| "json_stringify num_text (BoolOut b) = (if b then lit ''true'' else lit ''false'')"
| "json_stringify num_text (NumOut n) = (case n of None \<Rightarrow> lit ''null'' | Some q \<Rightarrow> num_text q)"
| "json_stringify num_text (StrOut s) = json_quote s"
| "json_stringify num_text (ArrOut vs) = [91] @ join_texts [44] (map (json_stringify num_text) vs) @ [93]"
| "json_stringify num_text (ObjOut es) =
     [123] @ join_texts [44] (map (\<lambda>(k, v). json_quote k @ [58] @ json_stringify num_text v) es) @ [125]"

datatype compact_result = UnderBudget out | OverBudget nat ustr

definition compactModelOutput ::
    "text_env \<Rightarrow> (rat \<Rightarrow> ustr) \<Rightarrow> heap \<Rightarrow> jsv \<Rightarrow> compact_options \<Rightarrow> compact_result" where
  "compactModelOutput env num_text h v options =
     (let opts = resolveOptions options;
          compacted = compactValue env h opts 0 {} v;
          serialized = json_stringify num_text compacted;
          count = countModelOutputChars env serialized (ro_locale opts)
      in if count \<le> ro_maxTotalChars opts then UnderBudget compacted
         else OverBudget count
           (tr_text (truncateModelOutputText env serialized (ro_maxTotalChars opts) True (ro_locale opts))))"

section \<open>Bounds\<close>

fun out_depth :: "out \<Rightarrow> nat" where
  "out_depth (ArrOut vs) = Suc (foldr max (map out_depth vs) 0)"
| "out_depth (ObjOut es) = Suc (foldr max (map (\<lambda>(k, v). out_depth v) es) 0)"
| "out_depth _ = 0"

fun out_width :: "nat \<Rightarrow> nat \<Rightarrow> out \<Rightarrow> bool" where
  "out_width a b (ArrOut vs) \<longleftrightarrow> length vs \<le> a \<and> list_all (out_width a b) vs"
| "out_width a b (ObjOut es) \<longleftrightarrow> length es \<le> b \<and> list_all (\<lambda>(k, v). out_width a b v) es"
| "out_width a b _ \<longleftrightarrow> True"

lemma foldr_max_le: "foldr max ns 0 \<le> (k :: nat) \<longleftrightarrow> (\<forall>n \<in> set ns. n \<le> k)"
  by (induction ns) auto

definition confined :: "resolved_options \<Rightarrow> nat \<Rightarrow> out \<Rightarrow> bool" where
  "confined opts n v \<longleftrightarrow> out_depth v \<le> n \<and>
     out_width (Suc (ro_maxArrayItems opts)) (Suc (ro_maxObjectKeys opts)) v"

lemma confined_leaf [simp]: "confined opts n (StrOut s)" "confined opts n NullOut" "confined opts n (NumOut q)"
  "confined opts n (BoolOut b)"
  by (simp_all add: confined_def)

lemma confined_array:
  "\<lbrakk>length vs \<le> Suc (ro_maxArrayItems opts); \<And>v. v \<in> set vs \<Longrightarrow> confined opts n v\<rbrakk> \<Longrightarrow>
   confined opts (Suc n) (ArrOut vs)"
  by (auto simp: confined_def foldr_max_le list_all_iff)

lemma confined_object:
  "\<lbrakk>length es \<le> Suc (ro_maxObjectKeys opts); \<And>k v. (k, v) \<in> set es \<Longrightarrow> confined opts n v\<rbrakk> \<Longrightarrow>
   confined opts (Suc n) (ObjOut es)"
  by (force simp: confined_def foldr_max_le list_all_iff)

lemma confined_mono: "\<lbrakk>confined opts m v; m \<le> n\<rbrakk> \<Longrightarrow> confined opts n v"
  by (simp add: confined_def)

lemma jm_set_length: "length (jm_set m k v) \<le> Suc (length m)"
  by (induction m) (auto simp: jm_set_def)

lemma jm_set_mem: "(k', v') \<in> set (jm_set m k v) \<Longrightarrow> v' = v \<or> (k', v') \<in> set m"
  by (induction m) (auto simp: jm_set_def split: if_splits)

lemma compact_confined:
  "confined opts (ro_maxDepth opts - depth + 1) (compactValue env h opts depth seen v)"
  "depth < ro_maxDepth opts \<Longrightarrow>
   confined opts (ro_maxDepth opts - depth + 1) (compactObject env h opts depth seen ob)"
proof (induction env h opts depth seen v and env h opts depth seen ob
    rule: compactValue_compactObject.induct)
  case (9 env h opts depth seen a)
  then show ?case by simp
next
  case (10 env h opts depth seen ob)
  then show ?case by simp
next
  case (13 env h opts depth seen name message stack)
  then show ?case by (auto intro: confined_mono simp del: compactValue.simps)
next
  case (14 env h opts depth seen entries)
  then show ?case by (auto intro: confined_mono simp del: compactValue.simps)
next
  case (15 env h opts depth seen vs)
  then show ?case by (auto intro: confined_mono simp del: compactValue.simps)
next
  case (17 env h opts depth seen vs)
  let ?n = "ro_maxDepth opts - depth"
  have n: "ro_maxDepth opts - depth + 1 = Suc ?n" "ro_maxDepth opts - (depth + 1) + 1 = ?n"
    using 17(2) by simp_all
  have marker: "confined opts ?n (ObjOut [(k, NumOut q)])" for k q
    using 17(2) confined_object [of "[(k, NumOut q)]" opts "?n - 1"] by (simp add: Suc_diff_Suc)
  have items: "confined opts ?n (compactValue env h opts (depth + 1) seen v)"
    if "v \<in> set (take (ro_maxArrayItems opts) vs)" for v
    using 17(1) [OF that] unfolding n by simp
  show ?case
    unfolding n compactObject.simps Let_def
    by (rule confined_array) (use items marker in \<open>auto split: if_splits\<close>)
next
  case (18 env h opts depth seen es)
  let ?n = "ro_maxDepth opts - depth"
  have n: "ro_maxDepth opts - depth + 1 = Suc ?n" "ro_maxDepth opts - (depth + 1) + 1 = ?n"
    using 18(2) by simp_all
  let ?kept = "map (\<lambda>(k, v). (k, compactValue env h opts (depth + 1) seen v))
    (take (ro_maxObjectKeys opts) es)"
  have kept: "confined opts ?n v" if kv: "(k, v) \<in> set ?kept" for k v
  proof -
    obtain x where "(k, x) \<in> set (take (ro_maxObjectKeys opts) es)"
      "v = compactValue env h opts (depth + 1) seen x" using kv by auto
    then show ?thesis using 18(1) [of "(k, x)" k x] unfolding n by simp
  qed
  have len: "length (jm_set ?kept OMITTED_KEYS_KEY q) \<le> Suc (ro_maxObjectKeys opts)" for q
    using jm_set_length [of ?kept OMITTED_KEYS_KEY q] by simp
  show ?case
    unfolding n compactObject.simps Let_def
    by (rule confined_object) (use kept len jm_set_mem in \<open>fastforce split: if_splits\<close>)+
qed simp_all

section \<open>Where the strings of the result come from\<close>

text \<open>The parts of a value that compaction prints: what is left when the containers are opened and the
  references followed.\<close>

fun container :: "jsv \<Rightarrow> bool" where
  "container (VRef a) = True"
| "container (VNew (OError name message stack)) = True"
| "container (VNew (OMap es)) = True"
| "container (VNew (OSet vs)) = True"
| "container (VNew (OArray vs)) = True"
| "container (VNew (ORecord es)) = True"
| "container v = False"

inductive leaf_of :: "heap \<Rightarrow> jsv \<Rightarrow> jsv \<Rightarrow> bool" for h :: heap where
  leaf_self: "\<not> container v \<Longrightarrow> leaf_of h v v"
| leaf_ref: "leaf_of h (VNew (h a)) w \<Longrightarrow> leaf_of h (VRef a) w"
| leaf_error: "\<lbrakk>(k, v) \<in> set (error_fields name message stack); leaf_of h v w\<rbrakk> \<Longrightarrow>
    leaf_of h (VNew (OError name message stack)) w"
| leaf_map: "\<lbrakk>(k, v) \<in> set es; leaf_of h k w \<or> leaf_of h v w\<rbrakk> \<Longrightarrow> leaf_of h (VNew (OMap es)) w"
| leaf_set: "\<lbrakk>v \<in> set vs; leaf_of h v w\<rbrakk> \<Longrightarrow> leaf_of h (VNew (OSet vs)) w"
| leaf_array: "\<lbrakk>v \<in> set vs; leaf_of h v w\<rbrakk> \<Longrightarrow> leaf_of h (VNew (OArray vs)) w"
| leaf_record: "\<lbrakk>(k, v) \<in> set es; leaf_of h v w\<rbrakk> \<Longrightarrow> leaf_of h (VNew (ORecord es)) w"

inductive_simps leaf_of_record: "leaf_of h (VNew (ORecord es)) w"
inductive_simps leaf_of_array: "leaf_of h (VNew (OArray vs)) w"

text \<open>The parts that are not strings and still print as text, which no limit applies to.\<close>

fun printed :: "jsv \<Rightarrow> ustr option" where
  "printed VUndefined = Some (lit ''[undefined]'')"
| "printed (VFunction name) = Some (lit ''[Function: '' @ (if name = [] then lit ''anonymous'' else name) @ [93])"
| "printed (VSymbol txt) = Some txt"
| "printed (VBigint i) = Some (show_int i @ [110])"
| "printed (VNew (ODate dt)) = Some (case dt of None \<Rightarrow> lit ''[Invalid Date]'' | Some t \<Rightarrow> t)"
| "printed (VNew (ORegExp txt)) = Some txt"
| "printed (VNew (OView ctor n)) =
     Some ([91] @ ctor @ lit ''(length='' @ (case n of Some k \<Rightarrow> show_num k | None \<Rightarrow> [63]) @ [41, 93])"
| "printed (VNew (OOpaque ctor txt)) = Some (describeOpaqueObject ctor txt)"
| "printed v = None"

text \<open>A string of the source as it may be shown: all of it if its characters are within the limit,
  otherwise its first characters up to the limit and a notice with both numbers.\<close>

definition shown_string :: "text_env \<Rightarrow> resolved_options \<Rightarrow> ustr \<Rightarrow> ustr" where
  "shown_string env opts t =
     (let gs = segmentGraphemes env (ro_locale opts) t; n = ro_maxStringChars opts;
          kept = concat (take n gs); notice = formatTruncationNotice n (length gs) (ro_locale opts) in
      if length gs \<le> n then t else if kept = [] then notice else kept @ [10] @ notice)"

fun out_strings :: "out \<Rightarrow> ustr set" where
  "out_strings (StrOut s) = {s}"
| "out_strings (ArrOut vs) = (\<Union>v \<in> set vs. out_strings v)"
| "out_strings (ObjOut es) = (\<Union>e \<in> set es. out_strings (snd e))"
| "out_strings _ = {}"

definition permitted :: "text_env \<Rightarrow> heap \<Rightarrow> resolved_options \<Rightarrow> jsv \<Rightarrow> ustr set" where
  "permitted env h opts v =
     {formatCycleNotice (ro_locale opts), formatDepthExceededNotice (ro_locale opts)} \<union>
     {s. \<exists>w. leaf_of h v w \<and> printed w = Some s} \<union>
     {s. \<exists>t. leaf_of h v (VString t) \<and> s = shown_string env opts t}"

lemma permitted_notice [simp]:
  "formatCycleNotice (ro_locale opts) \<in> permitted env h opts v"
  "formatDepthExceededNotice (ro_locale opts) \<in> permitted env h opts v"
  by (simp_all add: permitted_def)

lemma permitted_printed: "\<lbrakk>printed w = Some s; \<not> container w\<rbrakk> \<Longrightarrow> s \<in> permitted env h opts w"
  unfolding permitted_def using leaf_self by blast

lemma permitted_mono: "(\<And>w. leaf_of h v w \<Longrightarrow> leaf_of h v' w) \<Longrightarrow> permitted env h opts v \<subseteq> permitted env h opts v'"
  unfolding permitted_def by blast

lemma compact_string_shown: "compact_string env opts t = shown_string env opts t"
  by (simp add: compact_string_def truncateModelOutputText_def shown_string_def Let_def)

lemma permitted_string: "compact_string env opts t \<in> permitted env h opts (VString t)"
proof -
  have "leaf_of h (VString t) (VString t)" by (simp add: leaf_self)
  then show ?thesis unfolding permitted_def compact_string_shown by blast
qed

lemma out_strings_jm_set: "out_strings (ObjOut (jm_set m k v)) \<subseteq> out_strings (ObjOut m) \<union> out_strings v"
  using jm_set_mem by fastforce

lemma leaf_map_pairs:
  "leaf_of h (VNew (OArray (map (\<lambda>(k, v). VNew (OArray [k, v])) es))) w \<Longrightarrow> leaf_of h (VNew (OMap es)) w"
  by (auto simp: leaf_of_array intro: leaf_map)

lemma compact_strings:
  "out_strings (compactValue env h opts depth seen v) \<subseteq> permitted env h opts v"
  "out_strings (compactObject env h opts depth seen ob) \<subseteq> permitted env h opts (VNew ob)"
proof (induction env h opts depth seen v and env h opts depth seen ob
    rule: compactValue_compactObject.induct)
  case (1 env h opts depth seen s)
  then show ?case by (simp add: permitted_string)
next
  case (9 env h opts depth seen a)
  have "permitted env h opts (VNew (h a)) \<subseteq> permitted env h opts (VRef a)"
    by (rule permitted_mono) (rule leaf_ref)
  with 9 show ?case by auto
next
  case (10 env h opts depth seen ob)
  then show ?case by auto
next
  case (13 env h opts depth seen name message stack)
  have "permitted env h opts (VNew (ORecord (error_fields name message stack))) \<subseteq>
      permitted env h opts (VNew (OError name message stack))"
    by (rule permitted_mono) (auto simp: leaf_of_record intro: leaf_error)
  with 13 show ?case by (auto simp del: compactValue.simps)
next
  case (14 env h opts depth seen entries)
  have "permitted env h opts (VNew (OArray (map (\<lambda>(k, v). VNew (OArray [k, v])) entries))) \<subseteq>
      permitted env h opts (VNew (OMap entries))"
    by (rule permitted_mono) (rule leaf_map_pairs)
  with 14 show ?case by (auto simp del: compactValue.simps)
next
  case (15 env h opts depth seen vs)
  have "permitted env h opts (VNew (OArray vs)) \<subseteq> permitted env h opts (VNew (OSet vs))"
    by (rule permitted_mono) (auto simp: leaf_of_array intro: leaf_set)
  with 15 show ?case by (auto simp del: compactValue.simps)
next
  case (17 env h opts depth seen vs)
  have "out_strings (compactValue env h opts (depth + 1) seen v) \<subseteq> permitted env h opts (VNew (OArray vs))"
    if v: "v \<in> set (take (ro_maxArrayItems opts) vs)" for v
  proof -
    have "permitted env h opts v \<subseteq> permitted env h opts (VNew (OArray vs))"
      by (rule permitted_mono) (use v in_set_takeD leaf_array in fast)
    with 17 [OF v] show ?thesis by blast
  qed
  then show ?case by (simp add: Let_def UN_subset_iff)
next
  case (18 env h opts depth seen es)
  let ?kept = "map (\<lambda>(k, v). (k, compactValue env h opts (depth + 1) seen v))
    (take (ro_maxObjectKeys opts) es)"
  have "out_strings (compactValue env h opts (depth + 1) seen (snd e)) \<subseteq> permitted env h opts (VNew (ORecord es))"
    if e: "e \<in> set (take (ro_maxObjectKeys opts) es)" for e
  proof -
    obtain k v where kv: "e = (k, v)" by (cases e)
    with e have "permitted env h opts v \<subseteq> permitted env h opts (VNew (ORecord es))"
      by (intro permitted_mono) (use in_set_takeD leaf_record in fast)
    with 18 [OF e kv [symmetric]] kv show ?thesis by auto
  qed
  then have kept: "out_strings (ObjOut ?kept) \<subseteq> permitted env h opts (VNew (ORecord es))"
    by (simp add: UN_subset_iff split_def)
  have "out_strings (ObjOut (jm_set ?kept OMITTED_KEYS_KEY (NumOut q))) \<subseteq> permitted env h opts (VNew (ORecord es))" for q
    using out_strings_jm_set [of ?kept OMITTED_KEYS_KEY "NumOut q"] kept by auto
  with kept show ?case unfolding compactObject.simps Let_def by (simp only: split: if_split) blast
qed (auto intro!: permitted_printed)

section \<open>What a value stands for\<close>

text \<open>\<open>represents h v r\<close>: unfolding the references of \<open>v\<close> in the heap gives the finite JSON value
  \<open>r\<close>. It says nothing of cyclic values, and does not care how often an object is shared.\<close>

inductive represents :: "heap \<Rightarrow> jsv \<Rightarrow> out \<Rightarrow> bool"
  and represents_object :: "heap \<Rightarrow> jsobj \<Rightarrow> out \<Rightarrow> bool"
  and represents_all :: "heap \<Rightarrow> jsv list \<Rightarrow> out list \<Rightarrow> bool"
  and represents_entries :: "heap \<Rightarrow> (ustr \<times> jsv) list \<Rightarrow> (ustr \<times> out) list \<Rightarrow> bool"
  for h :: heap where
  rep_string: "represents h (VString s) (StrOut s)"
| rep_null: "represents h VNull NullOut"
| rep_number: "represents h (VNumber n) (NumOut n)"
| rep_bool: "represents h (VBool b) (BoolOut b)"
| rep_ref: "represents_object h (h a) r \<Longrightarrow> represents h (VRef a) r"
| rep_new: "represents_object h ob r \<Longrightarrow> represents h (VNew ob) r"
| rep_array: "represents_all h vs rs \<Longrightarrow> represents_object h (OArray vs) (ArrOut rs)"
| rep_record: "represents_entries h es rs \<Longrightarrow> represents_object h (ORecord es) (ObjOut rs)"
| rep_nil: "represents_all h [] []"
| rep_cons: "\<lbrakk>represents h v r; represents_all h vs rs\<rbrakk> \<Longrightarrow> represents_all h (v # vs) (r # rs)"
| rep_entries_nil: "represents_entries h [] []"
| rep_entries_cons: "\<lbrakk>represents h v r; represents_entries h es rs\<rbrakk> \<Longrightarrow>
    represents_entries h ((k, v) # es) ((k, r) # rs)"

inductive_simps represents_iff:
  "represents h (VString s) r" "represents h VNull r" "represents h (VNumber n) r"
  "represents h (VBool b) r" "represents h (VRef a) r" "represents h (VNew ob) r"
  "represents_object h (OArray vs) r" "represents_object h (ORecord es) r"
  "represents_all h [] rs" "represents_all h (v # vs) rs"
  "represents_entries h [] rs'" "represents_entries h (e # es) rs'"

lemma represents_unique:
  "represents h v r \<Longrightarrow> represents h v r' \<Longrightarrow> r' = r"
  "represents_object h ob r \<Longrightarrow> represents_object h ob r' \<Longrightarrow> r' = r"
  "represents_all h vs rs \<Longrightarrow> represents_all h vs rs' \<Longrightarrow> rs' = rs"
  "represents_entries h es ts \<Longrightarrow> represents_entries h es ts' \<Longrightarrow> ts' = ts"
proof (induction arbitrary: r' and r' and rs' and ts'
    rule: represents_represents_object_represents_all_represents_entries.inducts)
qed (blast dest: represents_iff [THEN iffD1])+

text \<open>The JSON values that fit the limits, from a depth on.\<close>

fun fits :: "text_env \<Rightarrow> resolved_options \<Rightarrow> nat \<Rightarrow> out \<Rightarrow> bool" where
  "fits env opts d (StrOut s) \<longleftrightarrow> length (segmentGraphemes env (ro_locale opts) s) \<le> ro_maxStringChars opts"
| "fits env opts d (ArrOut rs) \<longleftrightarrow> d < ro_maxDepth opts \<and> length rs \<le> ro_maxArrayItems opts \<and>
     list_all (fits env opts (Suc d)) rs"
| "fits env opts d (ObjOut es) \<longleftrightarrow> d < ro_maxDepth opts \<and> length es \<le> ro_maxObjectKeys opts \<and>
     list_all (\<lambda>(k, r). fits env opts (Suc d) r) es"
| "fits env opts d r \<longleftrightarrow> True"

lemma represents_all_length: "represents_all h vs rs \<Longrightarrow> length vs = length rs"
  by (induction vs arbitrary: rs) (auto simp: represents_iff)

lemma represents_entries_length: "represents_entries h es rs \<Longrightarrow> length es = length rs"
  by (induction es arbitrary: rs) (auto simp: represents_iff)

text \<open>No address on the path stands for something as small as the value that is entered.\<close>

definition path_above :: "heap \<Rightarrow> nat set \<Rightarrow> nat \<Rightarrow> bool" where
  "path_above h seen n \<longleftrightarrow> (\<forall>a \<in> seen. \<forall>r. represents h (VRef a) r \<longrightarrow> n < size r)"

lemma path_above_mono: "\<lbrakk>path_above h seen n; m \<le> n\<rbrakk> \<Longrightarrow> path_above h seen m"
  unfolding path_above_def by (meson le_less_trans)

lemma path_above_insert:
  assumes "path_above h seen (size r)" and "represents h (VRef a) r" and "m < size r"
  shows "path_above h (insert a seen) m"
  unfolding path_above_def
proof (intro ballI allI impI)
  fix b q
  assume b: "b \<in> insert a seen" and q: "represents h (VRef b) q"
  show "m < size q"
  proof (cases "b = a")
    case True
    then have "q = r" using represents_unique(1) [OF assms(2)] q by blast
    with assms(3) show ?thesis by simp
  next
    case False
    then have "size r < size q" using assms(1) b q unfolding path_above_def by blast
    with assms(3) show ?thesis by simp
  qed
qed

lemma fits_string: "length (segmentGraphemes env (ro_locale opts) s) \<le> ro_maxStringChars opts \<Longrightarrow>
    compact_string env opts s = s"
  by (simp add: compact_string_def truncateModelOutputText_def Let_def)

lemma compact_exact:
  "represents h v r \<Longrightarrow> fits env opts d r \<Longrightarrow> path_above h seen (size r) \<Longrightarrow>
     compactValue env h opts d seen v = r"
  "represents_object h ob r \<Longrightarrow> fits env opts d r \<Longrightarrow> path_above h seen (size r - 1) \<Longrightarrow>
     d < ro_maxDepth opts \<and> compactObject env h opts d seen ob = r"
  "represents_all h vs rs \<Longrightarrow> list_all (fits env opts d) rs \<Longrightarrow>
     path_above h seen (size_list size rs) \<Longrightarrow>
     map (compactValue env h opts d seen) vs = rs"
  "represents_entries h es ts \<Longrightarrow> list_all (\<lambda>(k, r). fits env opts d r) ts \<Longrightarrow>
     path_above h seen (size_list (size_prod (\<lambda>_. 0) size) ts) \<Longrightarrow>
     map (\<lambda>(k, v). (k, compactValue env h opts d seen v)) es = ts"
proof (induction arbitrary: d seen and d seen and d seen and d seen
    rule: represents_represents_object_represents_all_represents_entries.inducts)
  case (rep_ref a r)
  have rep: "represents h (VRef a) r" using rep_ref(1) by (rule represents_represents_object_represents_all_represents_entries.rep_ref)
  have "a \<notin> seen" using rep_ref.prems(2) rep unfolding path_above_def by blast
  moreover have "path_above h (insert a seen) (size r - 1)"
    by (rule path_above_insert [OF rep_ref.prems(2) rep])
      (use rep_ref(1) in \<open>cases rule: represents_object.cases; simp\<close>)
  ultimately have "d < ro_maxDepth opts \<and> compactObject env h opts d (insert a seen) (h a) = r"
    by (intro rep_ref.IH(2) rep_ref.prems(1))
  then show ?case using \<open>a \<notin> seen\<close> by simp
next
  case (rep_new ob r)
  have "path_above h seen (size r - 1)" by (rule path_above_mono [OF rep_new.prems(2)]) simp
  then have "d < ro_maxDepth opts \<and> compactObject env h opts d seen ob = r"
    by (intro rep_new.IH(2) rep_new.prems(1))
  then show ?case by simp
next
  case (rep_array vs rs)
  have "path_above h seen (size_list size rs)" using rep_array.prems(2) by simp
  then have "map (compactValue env h opts (Suc d) seen) vs = rs"
    using rep_array.IH(2) rep_array.prems(1) by simp
  then show ?case
    using rep_array.prems(1) represents_all_length [OF rep_array(1)] by (simp add: Let_def)
next
  case (rep_record es rs)
  have "path_above h seen (size_list (size_prod (\<lambda>_. 0) size) rs)"
    using rep_record.prems(2) by simp
  then have "map (\<lambda>(k, v). (k, compactValue env h opts (Suc d) seen v)) es = rs"
    using rep_record.IH(2) rep_record.prems(1) by simp
  then show ?case
    using rep_record.prems(1) represents_entries_length [OF rep_record(1)] by (simp add: Let_def)
next
  case (rep_cons v r vs rs)
  have "path_above h seen (size r)" "path_above h seen (size_list size rs)"
    using rep_cons.prems(2) by (auto elim: path_above_mono)
  then show ?case using rep_cons by simp
next
  case (rep_entries_cons v r es rs k)
  have "path_above h seen (size r)" "path_above h seen (size_list (size_prod (\<lambda>_. 0) size) rs)"
    using rep_entries_cons.prems(2) by (auto elim: path_above_mono)
  then show ?case using rep_entries_cons by simp
qed (simp_all add: fits_string)

section \<open>Properties\<close>

text \<open>C22: Compaction ends on every heap, cyclic ones included, and what it gives is a JSON value whose
  depth and breadth are bounded by the options alone: at most \<open>maxDepth\<close> levels and one for an
  omission marker, and at most one entry more than the limit in every array and object. Every string
  in it is one of the two notices, or a string found in the value, whole if it has at most
  \<open>maxStringChars\<close> characters and otherwise its first characters up to that limit and the truncation
  notice. The printed form of the parts that are neither strings nor containers (functions, symbols,
  big integers, dates, regular expressions, views, objects of unknown classes) is not cut, as in the
  code, nor are the keys of objects.\<close>

theorem compaction_bounded:
  "let r = compactValue env h opts 0 {} v; n = ro_maxStringChars opts; l = ro_locale opts in
     out_depth r \<le> ro_maxDepth opts + 1 \<and>
     out_width (Suc (ro_maxArrayItems opts)) (Suc (ro_maxObjectKeys opts)) r \<and>
     out_strings r \<subseteq>
       {formatCycleNotice l, formatDepthExceededNotice l} \<union>
       {s. \<exists>w. leaf_of h v w \<and> printed w = Some s} \<union>
       {s. \<exists>t gs. leaf_of h v (VString t) \<and> gs = segmentGraphemes env l t \<and>
          s = (if length gs \<le> n then t
               else if concat (take n gs) = [] then formatTruncationNotice n (length gs) l
               else concat (take n gs) @ [10] @ formatTruncationNotice n (length gs) l)}"
proof -
  have "permitted env h opts v \<subseteq> {formatCycleNotice (ro_locale opts), formatDepthExceededNotice (ro_locale opts)} \<union>
       {s. \<exists>w. leaf_of h v w \<and> printed w = Some s} \<union>
       {s. \<exists>t gs. leaf_of h v (VString t) \<and> gs = segmentGraphemes env (ro_locale opts) t \<and>
          s = (if length gs \<le> ro_maxStringChars opts then t
               else if concat (take (ro_maxStringChars opts) gs) = []
               then formatTruncationNotice (ro_maxStringChars opts) (length gs) (ro_locale opts)
               else concat (take (ro_maxStringChars opts) gs) @ [10] @
                 formatTruncationNotice (ro_maxStringChars opts) (length gs) (ro_locale opts))}"
    unfolding permitted_def shown_string_def Let_def by blast
  with compact_confined(1) [of opts 0 env h "{}" v] compact_strings(1) [of env h opts 0 "{}" v]
  show ?thesis unfolding confined_def Let_def by auto
qed

text \<open>A value that unfolds to a JSON value within the limits is passed on unchanged, however its
  objects are shared: only an object inside itself is taken for a cycle. With a budget that its text
  fits, the whole call returns it.\<close>

theorem compaction_keeps_small_values:
  assumes "represents h v r" and "fits env (resolveOptions options) 0 r"
  shows "compactModelOutput env num_text h v options =
    (let count = countModelOutputChars env (json_stringify num_text r) (ro_locale (resolveOptions options)) in
     if count \<le> ro_maxTotalChars (resolveOptions options) then UnderBudget r
     else OverBudget count (tr_text (truncateModelOutputText env (json_stringify num_text r)
       (ro_maxTotalChars (resolveOptions options)) True (ro_locale (resolveOptions options)))))"
proof -
  have "path_above h {} (size r)" by (simp add: path_above_def)
  then have "compactValue env h (resolveOptions options) 0 {} v = r"
    using compact_exact(1) [OF assms(1)] assms(2) by blast
  then show ?thesis by (simp add: compactModelOutput_def Let_def)
qed

definition shared_heap :: heap where
  "shared_heap a = (if a = 0 then OArray [VRef 1, VRef 1] else OArray [VNull])"

definition default_options :: compact_options where
  "default_options = \<lparr>cp_maxTotalChars = Some 100, cp_maxStringChars = None, cp_maxArrayItems = None,
     cp_maxObjectKeys = None, cp_maxDepth = None, cp_locale = None\<rparr>"

lemma compaction_keeps_small_values_witness:
  "compactModelOutput plain_env (\<lambda>_. []) shared_heap (VRef 0) default_options =
     UnderBudget (ArrOut [ArrOut [NullOut], ArrOut [NullOut]])"
proof -
  let ?r = "ArrOut [ArrOut [NullOut], ArrOut [NullOut]]"
  have 1: "represents shared_heap (VRef 0) ?r"
    by (simp add: represents_iff shared_heap_def)
  have opts: "ro_maxDepth (resolveOptions default_options) = 6"
    "ro_maxArrayItems (resolveOptions default_options) = 20"
    "ro_maxTotalChars (resolveOptions default_options) = 100"
    by (simp_all add: resolveOptions_def default_options_def toBoundedInteger_def Let_def)
  have 2: "fits plain_env (resolveOptions default_options) 0 ?r" by (simp add: opts)
  have "countModelOutputChars plain_env (json_stringify (\<lambda>_. []) ?r) l = 15" for l
    by (simp add: countModelOutputChars_def segmentGraphemes_def plain_env_def lit_def)
  then show ?thesis
    using compaction_keeps_small_values [OF 1 2, of "\<lambda>_. []"] by (simp add: opts Let_def)
qed

text \<open>Truncation accounts for every character: nothing is lost below the limit; above it the text is
  the first characters up to the limit and, if asked for, a notice with both numbers, and the omitted
  count is exactly what is missing.\<close>

theorem truncation_accounts:
  "let t = truncateModelOutputText env s n notice l; gs = segmentGraphemes env l s in
     tr_originalCharCount t = length gs \<and> tr_omittedCharCount t = length gs - n \<and>
     tr_truncated t = (n < length gs) \<and>
     (if n < length gs
      then take (length (concat (take n gs))) (tr_text t) = concat (take n gs) \<and>
        (tr_text t = concat (take n gs)) = (\<not> notice)
      else tr_text t = s)"
proof -
  have ne: "formatTruncationNotice a b l \<noteq> []" for a b
    by (simp add: formatTruncationNotice_def lit_def)
  have pick: "take (length c) (if \<not> notice then c else if c \<noteq> [] then c @ [10] @ k else k) = c \<and>
      ((if \<not> notice then c else if c \<noteq> [] then c @ [10] @ k else k) = c) = (\<not> notice)"
    if "k \<noteq> []" for c k :: ustr
    using that by auto
  show ?thesis
    using pick [OF ne [of n "length (segmentGraphemes env l s)"], of "concat (take n (segmentGraphemes env l s))"]
    by (simp add: truncateModelOutputText_def Let_def del: concat_eq_Nil_conv)
qed

end
