(* ===== verification/Json.thy ===== *)
theory Json
  imports ModelOutput "HOL-Library.Monad_Syntax" "HOL-Library.Multiset"
begin

text \<open>
  \<open>JSON.parse\<close> on code points, next to the \<open>JSON.stringify\<close> of \<open>ModelOutput\<close>. What a numeral denotes
  in double precision is the parameter \<open>num_read\<close> (no value for the infinities). Readers take fuel;
  \<open>JSON_parse\<close> gives twice the length of the text, which is always enough.
\<close>

section \<open>Strings\<close>

definition hex_value :: "nat \<Rightarrow> nat option" where
  "hex_value c = (if 48 \<le> c \<and> c \<le> 57 then Some (c - 48)
     else if 97 \<le> c \<and> c \<le> 102 then Some (c - 87)
     else if 65 \<le> c \<and> c \<le> 70 then Some (c - 55) else None)"

definition hex4 :: "nat \<Rightarrow> nat \<Rightarrow> nat \<Rightarrow> nat \<Rightarrow> nat option" where
  "hex4 a b c d = do { w \<leftarrow> hex_value a; x \<leftarrow> hex_value b; y \<leftarrow> hex_value c; z \<leftarrow> hex_value d;
     Some (4096 * w + 256 * x + 16 * y + z) }"

definition unescape :: "nat \<Rightarrow> nat option" where
  "unescape e = (if e = 34 \<or> e = 92 \<or> e = 47 then Some e else if e = 98 then Some 8
     else if e = 102 then Some 12 else if e = 110 then Some 10 else if e = 114 then Some 13
     else if e = 116 then Some 9 else None)"

fun read_chars :: "ustr \<Rightarrow> (ustr \<times> ustr) option" where
  "read_chars [] = None"
| "read_chars (c # s) =
     (if c = 34 then Some ([], s)
      else if c < 32 then None
      else if c \<noteq> 92 then map_option (\<lambda>(t, r). (c # t, r)) (read_chars s)
      else (case s of
          [] \<Rightarrow> None
        | e # u \<Rightarrow>
            (if e = 117
             then (case u of h1 # h2 # h3 # h4 # w \<Rightarrow>
                 (case hex4 h1 h2 h3 h4 of None \<Rightarrow> None
                  | Some n \<Rightarrow> map_option (\<lambda>(t, r). (n # t, r)) (read_chars w))
               | _ \<Rightarrow> None)
             else (case unescape e of None \<Rightarrow> None
               | Some d \<Rightarrow> map_option (\<lambda>(t, r). (d # t, r)) (read_chars u)))))"

text \<open>Two escapes that form a surrogate pair are one code point.\<close>

fun pair_surrogates :: "ustr \<Rightarrow> ustr" where
  "pair_surrogates (h # l # s) =
     (if 0xd800 \<le> h \<and> h \<le> 0xdbff \<and> 0xdc00 \<le> l \<and> l \<le> 0xdfff
      then (0x10000 + (h - 0xd800) * 0x400 + (l - 0xdc00)) # pair_surrogates s
      else h # pair_surrogates (l # s))"
| "pair_surrogates s = s"

definition read_string :: "ustr \<Rightarrow> (ustr \<times> ustr) option" where
  "read_string s = map_option (\<lambda>(t, r). (pair_surrogates t, r)) (read_chars s)"

section \<open>Numerals\<close>

definition is_digit :: "nat \<Rightarrow> bool" where
  "is_digit c \<longleftrightarrow> 48 \<le> c \<and> c \<le> 57"

definition read_digits1 :: "ustr \<Rightarrow> (ustr \<times> ustr) option" where
  "read_digits1 s = (case s of
     c # t \<Rightarrow> if is_digit c then Some (takeWhile is_digit s, dropWhile is_digit s) else None
   | [] \<Rightarrow> None)"

definition read_sign :: "nat list \<Rightarrow> ustr \<Rightarrow> ustr \<times> ustr" where
  "read_sign signs s = (case s of c # t \<Rightarrow> if c \<in> set signs then ([c], t) else ([], s) | [] \<Rightarrow> ([], s))"

definition read_integer :: "ustr \<Rightarrow> (ustr \<times> ustr) option" where
  "read_integer s = (case s of
     c # t \<Rightarrow> if c = 48 then Some ([c], t) else read_digits1 s
   | [] \<Rightarrow> None)"

definition read_fraction :: "ustr \<Rightarrow> (ustr \<times> ustr) option" where
  "read_fraction s = (case s of
     c # t \<Rightarrow> if c = 46 then map_option (\<lambda>(d, r). (c # d, r)) (read_digits1 t) else Some ([], s)
   | [] \<Rightarrow> Some ([], s))"

definition read_exponent :: "ustr \<Rightarrow> (ustr \<times> ustr) option" where
  "read_exponent s = (case s of
     c # t \<Rightarrow> if c = 101 \<or> c = 69
       then (let (g, u) = read_sign [43, 45] t in
             map_option (\<lambda>(d, r). (c # g @ d, r)) (read_digits1 u))
       else Some ([], s)
   | [] \<Rightarrow> Some ([], s))"

definition read_number :: "ustr \<Rightarrow> (ustr \<times> ustr) option" where
  "read_number s = (let (g, s1) = read_sign [45] s in do {
     (i, s2) \<leftarrow> read_integer s1;
     (f, s3) \<leftarrow> read_fraction s2;
     (e, s4) \<leftarrow> read_exponent s3;
     Some (g @ i @ f @ e, s4) })"

section \<open>Objects\<close>

text \<open>A repeated key keeps its first place and gets the last value; keys that are array indices come
  first, in numerical order.\<close>

fun decimal :: "nat \<Rightarrow> ustr \<Rightarrow> nat" where
  "decimal acc [] = acc"
| "decimal acc (c # cs) = decimal (10 * acc + (c - 48)) cs"

definition is_index :: "ustr \<Rightarrow> bool" where
  "is_index k \<longleftrightarrow> k \<noteq> [] \<and> list_all is_digit k \<and> (k = [48] \<or> hd k \<noteq> 48) \<and> decimal 0 k < 4294967295"

definition js_object :: "(ustr \<times> 'v) list \<Rightarrow> (ustr \<times> 'v) list" where
  "js_object es = (let m = foldl (\<lambda>m (k, v). jm_set m k v) [] es in
     sort_key (\<lambda>e. decimal 0 (fst e)) (filter (\<lambda>e. is_index (fst e)) m) @ filter (\<lambda>e. \<not> is_index (fst e)) m)"

section \<open>Values\<close>

definition skip_ws :: "ustr \<Rightarrow> ustr" where
  "skip_ws s = dropWhile (\<lambda>c. c = 9 \<or> c = 10 \<or> c = 13 \<or> c = 32) s"

definition read_word :: "ustr \<Rightarrow> (out \<times> ustr) option" where
  "read_word s =
     (if take 4 s = lit ''null'' then Some (NullOut, drop 4 s)
      else if take 4 s = lit ''true'' then Some (BoolOut True, drop 4 s)
      else if take 5 s = lit ''false'' then Some (BoolOut False, drop 5 s)
      else None)"

definition expect :: "nat \<Rightarrow> ustr \<Rightarrow> ustr option" where
  "expect c s = (case skip_ws s of d # t \<Rightarrow> if d = c then Some t else None | [] \<Rightarrow> None)"

fun read_value :: "(ustr \<Rightarrow> js_number) \<Rightarrow> nat \<Rightarrow> ustr \<Rightarrow> (out \<times> ustr) option"
  and read_items :: "(ustr \<Rightarrow> js_number) \<Rightarrow> nat \<Rightarrow> ustr \<Rightarrow> (out list \<times> ustr) option"
  and read_members :: "(ustr \<Rightarrow> js_number) \<Rightarrow> nat \<Rightarrow> ustr \<Rightarrow> ((ustr \<times> out) list \<times> ustr) option" where
  "read_value num 0 s = None"
| "read_value num (Suc n) s =
     (case skip_ws s of
        [] \<Rightarrow> None
      | c # t \<Rightarrow>
          (if c = 34 then map_option (\<lambda>(x, r). (StrOut x, r)) (read_string t)
           else if c = 91
           then (case expect 93 t of Some r \<Rightarrow> Some (ArrOut [], r)
                 | None \<Rightarrow> map_option (\<lambda>(vs, r). (ArrOut vs, r)) (read_items num n t))
           else if c = 123
           then (case expect 125 t of Some r \<Rightarrow> Some (ObjOut [], r)
                 | None \<Rightarrow> map_option (\<lambda>(es, r). (ObjOut (js_object es), r)) (read_members num n t))
           else (case read_word (c # t) of Some x \<Rightarrow> Some x
                 | None \<Rightarrow> map_option (\<lambda>(x, r). (NumOut (num x), r)) (read_number (c # t)))))"
| "read_items num 0 s = None"
| "read_items num (Suc n) s =
     (case read_value num n s of
        None \<Rightarrow> None
      | Some (v, r) \<Rightarrow>
          (case expect 44 r of Some t \<Rightarrow> map_option (\<lambda>(vs, r'). (v # vs, r')) (read_items num n t)
           | None \<Rightarrow> map_option (\<lambda>t. ([v], t)) (expect 93 r)))"
| "read_members num 0 s = None"
| "read_members num (Suc n) s =
     (case Option.bind (expect 34 s) read_string of
        None \<Rightarrow> None
      | Some (k, r) \<Rightarrow>
          (case Option.bind (expect 58 r) (read_value num n) of
             None \<Rightarrow> None
           | Some (v, q) \<Rightarrow>
               (case expect 44 q of Some t \<Rightarrow> map_option (\<lambda>(es, r'). ((k, v) # es, r')) (read_members num n t)
                | None \<Rightarrow> map_option (\<lambda>t. ([(k, v)], t)) (expect 125 q))))"

definition JSON_parse :: "(ustr \<Rightarrow> js_number) \<Rightarrow> ustr \<Rightarrow> out option" where
  "JSON_parse num s =
     (case read_value num (2 * length s + 1) s of
        Some (v, r) \<Rightarrow> if skip_ws r = [] then Some v else None
      | None \<Rightarrow> None)"

section \<open>Readers consume their input\<close>

lemma length_dropWhile_less [intro]: "P c \<Longrightarrow> length (dropWhile P (c # s)) \<le> length s"
  by (simp add: length_dropWhile_le)

lemma skip_ws_length: "length (skip_ws s) \<le> length s"
  by (simp add: skip_ws_def length_dropWhile_le)

lemma expect_length: "expect c s = Some t \<Longrightarrow> length t < length s"
  using skip_ws_length [of s] by (auto simp: expect_def split: list.splits if_splits)

lemma read_chars_length: "read_chars s = Some (t, r) \<Longrightarrow> length t + length r < length s"
proof (induction s arbitrary: t r rule: length_induct)
  case (1 s)
  have IH: "length t + length r < length u" if "read_chars u = Some (t, r)" "length u < length s" for u t r
    using 1 that by blast
  show ?case
  proof (cases s)
    case (Cons c u)
    consider "c = 34" | "c \<noteq> 34" "\<not> c < 32" "c \<noteq> 92" | "c = 92" "\<not> c < 32"
      using "1.prems" Cons by (fastforce split: if_splits)
    then show ?thesis
    proof cases
      case 3
      with "1.prems" Cons obtain e w where u: "u = e # w" by (auto split: list.splits)
      show ?thesis
      proof (cases "e = 117")
        case True
        with "1.prems" Cons 3 u obtain h1 h2 h3 h4 v n t' where "w = h1 # h2 # h3 # h4 # v"
            "t = n # t'" "read_chars v = Some (t', r)"
          by (auto split: list.splits option.splits)
        with IH [of v t' r] Cons u show ?thesis by simp
      next
        case False
        with "1.prems" Cons 3 u obtain d t' where "t = d # t'" "read_chars w = Some (t', r)"
          by (auto split: option.splits)
        with IH [of w t' r] Cons u show ?thesis by simp
      qed
    qed (use "1.prems" Cons IH [of u] in \<open>auto\<close>)
  qed (use "1.prems" in simp)
qed

lemma pair_surrogates_length: "length (pair_surrogates s) \<le> length s"
  by (induction s rule: pair_surrogates.induct) auto

lemma read_string_length:
  assumes "read_string s = Some (t, r)"
  shows "length t + length r < length s"
proof -
  obtain t' where "read_chars s = Some (t', r)" "t = pair_surrogates t'"
    using assms by (auto simp: read_string_def)
  with read_chars_length [of s t' r] pair_surrogates_length [of t'] show ?thesis by simp
qed

lemma read_digits1_length: "read_digits1 s = Some (d, r) \<Longrightarrow> length r < length s"
  by (auto simp: read_digits1_def le_imp_less_Suc length_dropWhile_le split: list.splits if_splits)

lemma read_sign_length: "length (snd (read_sign signs s)) \<le> length s"
  by (simp add: read_sign_def split: list.split)

lemma read_integer_length: "read_integer s = Some (d, r) \<Longrightarrow> length r < length s"
  by (auto simp: read_integer_def dest: read_digits1_length split: list.splits if_splits)

lemma read_fraction_length: "read_fraction s = Some (d, r) \<Longrightarrow> length r \<le> length s"
  by (auto simp: read_fraction_def dest!: read_digits1_length split: list.splits if_splits)

lemma read_exponent_length: "read_exponent s = Some (d, r) \<Longrightarrow> length r \<le> length s"
proof -
  assume *: "read_exponent s = Some (d, r)"
  show ?thesis
  proof (cases s)
    case (Cons c t)
    then show ?thesis
      using * read_sign_length [of "[43, 45]" t]
      by (auto simp: read_exponent_def dest!: read_digits1_length split: if_splits prod.splits)
  qed (use * in \<open>simp add: read_exponent_def\<close>)
qed

lemma read_number_length: "read_number s = Some (d, r) \<Longrightarrow> length r < length s"
  using read_sign_length [of "[45]" s]
  by (auto simp: read_number_def bind_eq_Some_conv split: prod.splits
      dest!: read_integer_length read_fraction_length read_exponent_length)

lemma read_word_length: "read_word s = Some (v, r) \<Longrightarrow> length r < length s"
  by (cases s) (auto simp: read_word_def lit_def split: if_splits)

text \<open>The characters a value holds: strings and brackets count as in the text they are read from.\<close>

fun weight :: "out \<Rightarrow> nat" where
  "weight (StrOut s) = Suc (length s)"
| "weight (ArrOut vs) = Suc (sum_list (map weight vs))"
| "weight (ObjOut es) = Suc (sum_list (map (\<lambda>(k, v). weight v) es))"
| "weight _ = 0"

lemma weight_update:
  "sum_list (map (\<lambda>(k, v). weight v) (jm_set m k v)) \<le> sum_list (map (\<lambda>(k, v). weight v) m) + weight v"
  unfolding jm_set_def by (induction m) (auto split: prod.splits)

lemma weight_object: "sum_list (map (\<lambda>(k, v). weight v) (js_object es)) \<le> sum_list (map (\<lambda>(k, v). weight v) es)"
proof -
  let ?w = "\<lambda>es. sum_list (map (\<lambda>(k :: ustr, v). weight v) es)"
  have fold: "?w (foldl (\<lambda>m (k, v). jm_set m k v) m es) \<le> ?w m + ?w es" for m
  proof (induction es arbitrary: m)
    case (Cons e es)
    obtain k v where e: "e = (k, v)" by (cases e)
    have "?w (foldl (\<lambda>m (k, v). jm_set m k v) m (e # es)) \<le> ?w (jm_set m k v) + ?w es"
      using Cons.IH [of "jm_set m k v"] e by simp
    also have "\<dots> \<le> ?w m + ?w (e # es)" using weight_update [of m k v] e by simp
    finally show ?case .
  qed simp
  have sorted: "?w (sort_key f xs) = ?w xs" for f :: "ustr \<times> out \<Rightarrow> nat" and xs
  proof -
    have "mset (map (\<lambda>(k, v). weight v) (sort_key f xs)) = mset (map (\<lambda>(k, v). weight v) xs)"
      by (simp only: mset_map mset_sort)
    then show ?thesis by (metis sum_mset_sum_list)
  qed
  have parts: "?w (filter P xs) + ?w (filter (\<lambda>e. \<not> P e) xs) = ?w xs" for P xs
    by (induction xs) auto
  show ?thesis
    using fold [of "[]"] parts [of "\<lambda>e. is_index (fst e)" "foldl (\<lambda>m (k, v). jm_set m k v) [] es"]
    by (simp add: js_object_def Let_def sorted)
qed

lemma read_weight:
  "read_value num n s = Some (v, r) \<Longrightarrow> weight v + length r \<le> length s \<and> length r < length s"
  "read_items num n s = Some (vs, r) \<Longrightarrow> sum_list (map weight vs) + length r < length s"
  "read_members num n s = Some (es, r) \<Longrightarrow> sum_list (map (\<lambda>(k, v). weight v) es) + length r < length s"
proof (induction num n s and num n s and num n s arbitrary: v r and vs r and es r
    rule: read_value_read_items_read_members.induct)
  case (2 num n s)
  from "2.prems" obtain c t where ct: "skip_ws s = c # t" by (auto split: list.splits)
  then have len: "Suc (length t) \<le> length s" using skip_ws_length [of s] by simp
  consider (str) "c = 34" | (arr) "c = 91" | (obj) "c = 123" | (leaf) "c \<noteq> 34" "c \<noteq> 91" "c \<noteq> 123"
    by blast
  then show ?case
  proof cases
    case str
    then obtain x where "read_string t = Some (x, r)" "v = StrOut x" using "2.prems" ct by auto
    with read_string_length [of t x r] len show ?thesis by simp
  next
    case arr
    show ?thesis
    proof (cases "expect 93 t")
      case None
      with "2.prems" ct arr obtain vs where vs: "read_items num n t = Some (vs, r)" "v = ArrOut vs"
        by auto
      have "sum_list (map weight vs) + length r < length t"
        by (rule "2.IH"(1) [OF ct _ arr None vs(1)]) (simp add: arr)
      with vs(2) len show ?thesis by simp
    next
      case (Some q)
      with "2.prems" ct arr len expect_length [OF Some] show ?thesis by auto
    qed
  next
    case obj
    show ?thesis
    proof (cases "expect 125 t")
      case None
      with "2.prems" ct obj obtain es where es: "read_members num n t = Some (es, r)" "v = ObjOut (js_object es)"
        by auto
      have "sum_list (map (\<lambda>(k, v). weight v) es) + length r < length t"
        by (rule "2.IH"(2) [OF ct _ _ obj None es(1)]) (simp_all add: obj)
      with es(2) len weight_object [of es] show ?thesis by simp
    next
      case (Some q)
      with "2.prems" ct obj len expect_length [OF Some] show ?thesis by auto
    qed
  next
    case leaf
    then have "(read_word (c # t) = Some (v, r)) \<or>
        (\<exists>x. read_number (c # t) = Some (x, r) \<and> v = NumOut (num x))"
      using "2.prems" ct by (auto split: option.splits)
    moreover have "read_word (c # t) = Some (v, r) \<Longrightarrow> weight v = 0"
      by (auto simp: read_word_def split: if_splits)
    ultimately show ?thesis
      using read_word_length [of "c # t" v r] read_number_length [of "c # t" _ r] len by fastforce
  qed
next
  case (4 num n s)
  from "4.prems" obtain v q where v: "read_value num n s = Some (v, q)" by (auto split: option.splits)
  note IH1 = "4.IH"(1) [OF v]
  show ?case
  proof (cases "expect 44 q")
    case None
    with "4.prems" v have "expect 93 q = Some r" "vs = [v]" by auto
    with IH1 expect_length [of 93 q r] show ?thesis by simp
  next
    case (Some t)
    with "4.prems" v obtain ws where ws: "read_items num n t = Some (ws, r)" "vs = v # ws" by auto
    from "4.IH"(2) [OF v refl Some ws(1)] IH1 expect_length [OF Some] ws(2) show ?thesis by simp
  qed
next
  case (6 num n s)
  from "6.prems" obtain k q where k: "Option.bind (expect 34 s) read_string = Some (k, q)"
    by (auto split: option.splits)
  then have q: "length q < length s"
    by (auto simp: bind_eq_Some_conv dest!: expect_length read_string_length)
  from "6.prems" k obtain v p where v: "Option.bind (expect 58 q) (read_value num n) = Some (v, p)"
    by (auto split: option.splits)
  then obtain q' where q': "expect 58 q = Some q'" "read_value num n q' = Some (v, p)"
    by (auto simp: bind_eq_Some_conv)
  note IH1 = "6.IH"(1) [OF k refl q'(1) q'(2)]
  note lens = q expect_length [OF q'(1)] IH1
  show ?case
  proof (cases "expect 44 p")
    case None
    with "6.prems" k v have "expect 125 p = Some r" "es = [(k, v)]" by auto
    with lens expect_length [of 125 p r] show ?thesis by simp
  next
    case (Some t)
    with "6.prems" k v obtain fs where fs: "read_members num n t = Some (fs, r)" "es = (k, v) # fs"
      by auto
    from "6.IH"(2) [OF k refl v refl Some fs(1)] lens expect_length [OF Some] fs(2) show ?thesis by simp
  qed
qed simp_all

section \<open>The fuel is enough\<close>

lemma more_fuel:
  "2 * length s < n \<Longrightarrow> n \<le> m \<Longrightarrow> read_value num m s = read_value num n s"
  "2 * length s + 1 < n \<Longrightarrow> n \<le> m \<Longrightarrow> read_items num m s = read_items num n s"
  "2 * length s + 1 < n \<Longrightarrow> n \<le> m \<Longrightarrow> read_members num m s = read_members num n s"
proof (induction num n s and num n s and num n s arbitrary: m and m and m
    rule: read_value_read_items_read_members.induct)
  case (2 num n s)
  from "2.prems" obtain k where m: "m = Suc k" "n \<le> k" by (cases m) auto
  show ?case
  proof (cases "skip_ws s")
    case (Cons c t)
    then have len: "Suc (length t) \<le> length s" using skip_ws_length [of s] by simp
    have items: "read_items num k t = read_items num n t" if "c = 91" "expect 93 t = None"
      by (rule "2.IH"(1) [OF Cons _ that]) (use that(1) "2.prems"(1) len m(2) in linarith)+
    have members: "read_members num k t = read_members num n t" if "c = 123" "expect 125 t = None"
      by (rule "2.IH"(2) [OF Cons _ _ that]) (use that(1) "2.prems"(1) len m(2) in linarith)+
    show ?thesis unfolding m(1) read_value.simps Cons list.case
      using items members by (simp split: option.split)
  qed (simp add: m(1))
next
  case (4 num n s)
  from "4.prems" obtain k where m: "m = Suc k" "n \<le> k" by (cases m) auto
  have v: "read_value num k s = read_value num n s"
    by (rule "4.IH"(1)) (use "4.prems"(1) m(2) in linarith)+
  have "read_items num k t = read_items num n t"
    if r: "read_value num n s = Some (v, r)" and t: "expect 44 r = Some t" for v r t
  proof -
    have "2 * length t + 1 < n"
      using read_weight(1) [OF r] expect_length [OF t] "4.prems"(1) by linarith
    from "4.IH"(2) [OF r refl t this m(2)] show ?thesis .
  qed
  then show ?case unfolding m(1) read_items.simps v
    by (intro option.case_cong refl) (simp split: prod.split option.split)
next
  case (6 num n s)
  from "6.prems" obtain k where m: "m = Suc k" "n \<le> k" by (cases m) auto
  have lens: "length q' < length s" if "Option.bind (expect 34 s) read_string = Some (x, q)" "expect 58 q = Some q'"
    for x q q'
  proof -
    from that obtain s' where s': "expect 34 s = Some s'" "read_string s' = Some (x, q)"
      by (auto simp: bind_eq_Some_conv)
    from expect_length [OF s'(1)] read_string_length [OF s'(2)] expect_length [OF that(2)]
    show ?thesis by simp
  qed
  have v: "Option.bind (expect 58 q) (read_value num k) = Option.bind (expect 58 q) (read_value num n)"
    if q: "Option.bind (expect 34 s) read_string = Some (x, q)" for x q
  proof (cases "expect 58 q")
    case (Some q')
    have "2 * length q' < n" using lens [OF q Some] "6.prems"(1) by linarith
    with Some show ?thesis by (simp only: Option.bind.simps "6.IH"(1) [OF q refl Some _ m(2)])
  qed simp
  have "read_members num k t = read_members num n t"
    if q: "Option.bind (expect 34 s) read_string = Some (x, q)"
      and w: "Option.bind (expect 58 q) (read_value num n) = Some (v, p)" and t: "expect 44 p = Some t"
    for x q v p t
  proof -
    from w obtain q' where q': "expect 58 q = Some q'" "read_value num n q' = Some (v, p)"
      by (auto simp: bind_eq_Some_conv)
    have "2 * length t + 1 < n"
      using lens [OF q q'(1)] read_weight(1) [OF q'(2)] expect_length [OF t] "6.prems"(1) by linarith
    from "6.IH"(2) [OF q refl w refl t this m(2)] show ?thesis .
  qed
  with v show ?case unfolding m(1) read_members.simps
    by (intro option.case_cong refl) (simp split: prod.split option.split)
qed auto

section \<open>Reading what was written\<close>

definition ends :: "ustr \<Rightarrow> bool" where
  "ends r \<longleftrightarrow> (case r of [] \<Rightarrow> True | c # _ \<Rightarrow> c = 44 \<or> c = 93 \<or> c = 125)"

lemma ends_simps [simp]: "ends []" "ends (44 # r)" "ends (93 # r)" "ends (125 # r)"
  by (simp_all add: ends_def)

lemma ends_not: "ends r \<Longrightarrow> r = [] \<or> (\<not> is_digit (hd r) \<and> hd r \<noteq> 46 \<and> hd r \<noteq> 101 \<and> hd r \<noteq> 69)"
  by (auto simp: ends_def is_digit_def split: list.splits)

lemma while_append:
  "r = [] \<or> \<not> P (hd r) \<Longrightarrow> takeWhile P (t @ r) = takeWhile P t \<and> dropWhile P (t @ r) = dropWhile P t @ r"
  by (induction t) (auto simp: takeWhile_eq_Nil_iff dropWhile_eq_self_iff)

lemma digits1_append:
  "\<lbrakk>ends r; read_digits1 t = Some (d, u)\<rbrakk> \<Longrightarrow> read_digits1 (t @ r) = Some (d, u @ r)"
  using while_append [of r is_digit t] ends_not [of r]
  by (cases t) (auto simp: read_digits1_def split: if_splits)

lemma integer_append:
  "\<lbrakk>ends r; read_integer t = Some (d, u)\<rbrakk> \<Longrightarrow> read_integer (t @ r) = Some (d, u @ r)"
  using digits1_append [of r t d u] by (cases t) (auto simp: read_integer_def split: if_splits)

lemma fraction_append:
  "\<lbrakk>ends r; read_fraction t = Some (d, u)\<rbrakk> \<Longrightarrow> read_fraction (t @ r) = Some (d, u @ r)"
proof (cases t)
  case Nil
  assume "ends r" "read_fraction t = Some (d, u)"
  with Nil show ?thesis using ends_not [of r] by (auto simp: read_fraction_def split: list.splits)
next
  case (Cons c w)
  assume "ends r" "read_fraction t = Some (d, u)"
  with Cons show ?thesis by (auto simp: read_fraction_def digits1_append split: if_splits)
qed

lemma sign_append: "read_digits1 (snd (read_sign g t)) = Some x \<Longrightarrow>
    read_sign g (t @ r) = (fst (read_sign g t), snd (read_sign g t) @ r)"
  by (cases t) (auto simp: read_sign_def read_digits1_def)

lemma sign_append_integer: "read_integer (snd (read_sign g t)) = Some x \<Longrightarrow>
    read_sign g (t @ r) = (fst (read_sign g t), snd (read_sign g t) @ r)"
  by (cases t) (auto simp: read_sign_def read_integer_def)

lemma exponent_append:
  assumes "ends r" "read_exponent t = Some (d, u)"
  shows "read_exponent (t @ r) = Some (d, u @ r)"
proof (cases t)
  case Nil
  with assms show ?thesis using ends_not [of r] by (auto simp: read_exponent_def split: list.splits)
next
  case (Cons c w)
  show ?thesis
  proof (cases "c = 101 \<or> c = 69")
    case True
    with assms(2) Cons obtain e where "read_digits1 (snd (read_sign [43, 45] w)) = Some (e, u)"
        "d = c # fst (read_sign [43, 45] w) @ e"
      by (auto simp: read_exponent_def split: prod.splits)
    with sign_append [OF this(1), of r] digits1_append [OF assms(1) this(1)] True Cons show ?thesis
      by (simp add: read_exponent_def)
  qed (use assms Cons in \<open>auto simp: read_exponent_def\<close>)
qed

lemma number_append:
  assumes "ends r" "read_number t = Some (d, u)"
  shows "read_number (t @ r) = Some (d, u @ r)"
proof -
  obtain i a f b e where
    *: "read_integer (snd (read_sign [45] t)) = Some (i, a)" "read_fraction a = Some (f, b)"
      "read_exponent b = Some (e, u)" "d = fst (read_sign [45] t) @ i @ f @ e"
    using assms(2) by (auto simp: read_number_def bind_eq_Some_conv split: prod.splits)
  show ?thesis
    using sign_append_integer [OF *(1), of r] integer_append [OF assms(1) *(1)]
      fraction_append [OF assms(1) *(2)] exponent_append [OF assms(1) *(3)] *(4)
    by (simp add: read_number_def)
qed

text \<open>Numbers print as numerals that denote them.\<close>

definition number_ok :: "(rat \<Rightarrow> ustr) \<Rightarrow> (ustr \<Rightarrow> js_number) \<Rightarrow> rat \<Rightarrow> bool" where
  "number_ok num_text num q \<longleftrightarrow> read_number (num_text q) = Some (num_text q, []) \<and> num (num_text q) = Some q"

definition text_ok :: "ustr \<Rightarrow> bool" where
  "text_ok s \<longleftrightarrow> list_all (\<lambda>c. c < 0xd800 \<or> 0xdfff < c) s"

fun json_ok :: "(rat \<Rightarrow> ustr) \<Rightarrow> (ustr \<Rightarrow> js_number) \<Rightarrow> out \<Rightarrow> bool" where
  "json_ok num_text num (NumOut n) \<longleftrightarrow> (case n of None \<Rightarrow> False | Some q \<Rightarrow> number_ok num_text num q)"
| "json_ok num_text num (StrOut s) \<longleftrightarrow> text_ok s"
| "json_ok num_text num (ArrOut vs) \<longleftrightarrow> list_all (json_ok num_text num) vs"
| "json_ok num_text num (ObjOut es) \<longleftrightarrow> js_object es = es \<and>
     list_all (\<lambda>(k, v). text_ok k \<and> json_ok num_text num v) es"
| "json_ok num_text num _ \<longleftrightarrow> True"

lemma hex_value_digit: "d < 16 \<Longrightarrow> hex_value (hex_digit d) = Some d"
  by (auto simp: hex_value_def)

lemma read_chars_escape:
  "read_chars (json_escape c @ s) = map_option (\<lambda>(t, r). (c # t, r)) (read_chars s)"
proof (cases "c < 32")
  case True
  have four: "hex4 48 48 (hex_digit (c div 16)) (hex_digit (c mod 16)) = Some c"
    using True hex_value_digit [of "c div 16"] hex_value_digit [of "c mod 16"]
    by (simp add: hex4_def hex_value_def [of 48] del: hex_digit.simps)
  show ?thesis
    using True four
    by (simp add: json_escape_def unescape_def del: hex_digit.simps)
qed (auto simp: json_escape_def unescape_def)

lemma read_chars_quoted: "read_chars (concat (map json_escape s) @ 34 # r) = Some (s, r)"
  by (induction s) (simp_all add: read_chars_escape)

lemma pair_surrogates_ok: "text_ok s \<Longrightarrow> pair_surrogates s = s"
  by (induction s rule: pair_surrogates.induct) (auto simp: text_ok_def)

lemma read_string_quoted: "text_ok s \<Longrightarrow> read_string (concat (map json_escape s) @ 34 # r) = Some (s, r)"
  by (simp add: read_string_def read_chars_quoted pair_surrogates_ok)

lemma number_head:
  assumes "read_number s = Some x"
  obtains c t where "s = c # t" "c = 45 \<or> is_digit c"
  using assms
  by (cases s) (auto simp: read_number_def read_sign_def read_integer_def read_digits1_def is_digit_def
      split: if_splits)

definition starts_value :: "ustr \<Rightarrow> bool" where
  "starts_value s \<longleftrightarrow> s \<noteq> [] \<and> hd s \<notin> {9, 10, 13, 32, 44, 93, 125}"

lemma stringify_starts: "json_ok nt num v \<Longrightarrow> starts_value (json_stringify nt v)"
  by (cases v) (auto simp: starts_value_def lit_def json_quote_def number_ok_def is_digit_def
      split: option.splits elim!: number_head)

lemma starts_skip: "starts_value s \<Longrightarrow> skip_ws (s @ r) = s @ r"
  by (cases s) (auto simp: starts_value_def skip_ws_def)

lemma starts_expect: "starts_value s \<Longrightarrow> c \<in> {44, 93, 125} \<Longrightarrow> expect c (s @ r) = None"
  by (cases s) (auto simp: expect_def starts_value_def skip_ws_def)

lemma expect_here [simp]: "c \<notin> {9, 10, 13, 32} \<Longrightarrow> expect d (c # r) = (if c = d then Some r else None)"
  by (simp add: expect_def skip_ws_def)

definition reads_back :: "(rat \<Rightarrow> ustr) \<Rightarrow> (ustr \<Rightarrow> js_number) \<Rightarrow> out \<Rightarrow> bool" where
  "reads_back nt num v \<longleftrightarrow> starts_value (json_stringify nt v) \<and>
     (\<forall>r n. ends r \<longrightarrow> 2 * length (json_stringify nt v @ r) < n \<longrightarrow>
       read_value num n (json_stringify nt v @ r) = Some (v, r))"

lemma join_texts_Cons2: "xs \<noteq> [] \<Longrightarrow> join_texts sep (x # xs) = x @ sep @ join_texts sep xs"
  by (cases xs) simp_all

lemma read_items_joined:
  assumes "vs \<noteq> []" "\<forall>v \<in> set vs. reads_back nt num v"
    and "2 * length (join_texts [44] (map (json_stringify nt) vs) @ 93 # r) + 1 < n"
  shows "read_items num n (join_texts [44] (map (json_stringify nt) vs) @ 93 # r) = Some (vs, r)"
  using assms
proof (induction vs arbitrary: n)
  case (Cons v vs)
  from Cons.prems(3) obtain k where n: "n = Suc k" by (cases n) auto
  show ?case
  proof (cases "vs = []")
    case True
    with Cons.prems n have "read_value num k (json_stringify nt v @ 93 # r) = Some (v, 93 # r)"
      by (simp add: reads_back_def)
    then show ?thesis using True n by simp
  next
    case False
    let ?rest = "join_texts [44] (map (json_stringify nt) vs) @ 93 # r"
    have joined: "join_texts [44] (map (json_stringify nt) (v # vs)) @ 93 # r =
        json_stringify nt v @ 44 # ?rest"
      using False by (simp add: join_texts_Cons2)
    have "read_value num k (json_stringify nt v @ 44 # ?rest) = Some (v, 44 # ?rest)"
      using Cons.prems n unfolding joined by (simp add: reads_back_def)
    moreover have "read_items num k ?rest = Some (vs, r)"
      using Cons.IH [OF False, of k] Cons.prems n unfolding joined by simp
    ultimately show ?thesis unfolding joined n read_items.simps by simp
  qed
qed simp

abbreviation member_text :: "(rat \<Rightarrow> ustr) \<Rightarrow> ustr \<times> out \<Rightarrow> ustr" where
  "member_text nt \<equiv> \<lambda>(k, v). json_quote k @ [58] @ json_stringify nt v"

lemma read_members_joined:
  assumes "es \<noteq> []" "\<forall>(k, v) \<in> set es. text_ok k \<and> reads_back nt num v"
    and "2 * length (join_texts [44] (map (member_text nt) es) @ 125 # r) + 1 < n"
  shows "read_members num n (join_texts [44] (map (member_text nt) es) @ 125 # r) = Some (es, r)"
  using assms
proof (induction es arbitrary: n)
  case (Cons e es)
  obtain k v where e: "e = (k, v)" by (cases e)
  from Cons.prems(3) obtain m where n: "n = Suc m" by (cases n) auto
  have ok: "text_ok k" "reads_back nt num v" using Cons.prems(2) e by auto
  have key: "Option.bind (expect 34 (json_quote k @ 58 # s)) read_string = Some (k, 58 # s)" for s
    using read_string_quoted [OF ok(1), of "58 # s"] by (simp add: json_quote_def)
  show ?case
  proof (cases "es = []")
    case True
    have "read_value num m (json_stringify nt v @ 125 # r) = Some (v, 125 # r)"
      using Cons.prems(3) ok(2) True e n by (simp add: reads_back_def)
    then show ?thesis using True n e key [of "json_stringify nt v @ 125 # r"] by simp
  next
    case False
    let ?rest = "join_texts [44] (map (member_text nt) es) @ 125 # r"
    have joined: "join_texts [44] (map (member_text nt) (e # es)) @ 125 # r =
        json_quote k @ 58 # json_stringify nt v @ 44 # ?rest"
      using False e by (simp add: join_texts_Cons2)
    have "read_value num m (json_stringify nt v @ 44 # ?rest) = Some (v, 44 # ?rest)"
      using Cons.prems(3) ok(2) n unfolding joined by (simp add: reads_back_def)
    moreover have "read_members num m ?rest = Some (es, r)"
      using Cons.IH [OF False, of m] Cons.prems n unfolding joined by simp
    ultimately show ?thesis
      unfolding joined n read_members.simps using key [of "json_stringify nt v @ 44 # ?rest"] by (simp add: e)
  qed
qed simp

lemma starts_joined: "starts_value x \<Longrightarrow> starts_value (join_texts sep (x # xs))"
  by (cases xs) (auto simp: starts_value_def)

lemma read_leaf:
  assumes "read_number (json_stringify nt (NumOut (Some q))) = Some (x, [])" "ends r" "0 < n"
  shows "read_value num n (json_stringify nt (NumOut (Some q)) @ r) = Some (NumOut (num x), r)"
proof -
  obtain m where n: "n = Suc m" using assms(3) by (cases n) auto
  obtain c t where c: "nt q = c # t" "c = 45 \<or> is_digit c"
    using assms(1) by (auto elim: number_head)
  have "skip_ws (nt q @ r) = nt q @ r" using c by (auto simp: skip_ws_def is_digit_def)
  moreover have "read_word (c # t @ r) = None" using c(2) by (auto simp: read_word_def lit_def is_digit_def)
  moreover have "c \<noteq> 34" "c \<noteq> 91" "c \<noteq> 123" using c(2) by (auto simp: is_digit_def)
  ultimately show ?thesis
    using number_append [OF assms(2), of "nt q" x "[]"] assms(1) c(1) n by simp
qed

lemma read_word_value:
  "\<lbrakk>read_word s = Some x; skip_ws s = s; s \<noteq> [] \<and> hd s \<notin> {34, 91, 123}; 0 < n\<rbrakk> \<Longrightarrow>
   read_value num n s = Some x"
  by (cases n; cases s) auto

lemma stringify_reads_back: "json_ok nt num v \<Longrightarrow> reads_back nt num v"
proof (induction v)
  case NullOut
  then show ?case
    by (auto simp: reads_back_def starts_value_def lit_def skip_ws_def read_word_def intro!: read_word_value)
next
  case (BoolOut b)
  then show ?case
    by (auto simp: reads_back_def starts_value_def lit_def skip_ws_def read_word_def intro!: read_word_value)
next
  case (NumOut x)
  then obtain q where q: "x = Some q" "number_ok nt num q" by (auto split: option.splits)
  then show ?case
    using stringify_starts [OF NumOut] read_leaf [of nt q "nt q" _ _ num]
    by (auto simp: reads_back_def number_ok_def)
next
  case (StrOut s)
  then have "read_string (concat (map json_escape s) @ 34 # r) = Some (s, r)" for r
    by (simp add: read_string_quoted)
  then show ?case
    using stringify_starts [OF StrOut]
    by (auto simp: reads_back_def json_quote_def skip_ws_def dest!: less_imp_Suc_add)
next
  case (ArrOut vs)
  then have all: "\<forall>v \<in> set vs. reads_back nt num v" by (simp add: list_all_iff)
  have "read_value num n (json_stringify nt (ArrOut vs) @ r) = Some (ArrOut vs, r)"
    if r: "ends r" and n: "2 * length (json_stringify nt (ArrOut vs) @ r) < n" for r n
  proof -
    obtain m where m: "n = Suc m" using n by (cases n) auto
    show ?thesis
    proof (cases vs)
      case (Cons w ws)
      let ?t = "join_texts [44] (map (json_stringify nt) vs)"
      have "starts_value ?t" using all Cons by (simp add: starts_joined reads_back_def)
      then have "expect 93 (?t @ 93 # r) = None" by (simp add: starts_expect)
      moreover have "read_items num m (?t @ 93 # r) = Some (vs, r)"
        by (rule read_items_joined) (use all Cons n m in auto)
      ultimately show ?thesis using m by (simp add: skip_ws_def)
    qed (simp add: m skip_ws_def)
  qed
  then show ?case by (simp add: reads_back_def starts_value_def)
next
  case (ObjOut es)
  then have all: "\<forall>(k, v) \<in> set es. text_ok k \<and> reads_back nt num v" and o: "js_object es = es"
    by (auto simp: list_all_iff)
  have "read_value num n (json_stringify nt (ObjOut es) @ r) = Some (ObjOut es, r)"
    if r: "ends r" and n: "2 * length (json_stringify nt (ObjOut es) @ r) < n" for r n
  proof -
    obtain m where m: "n = Suc m" using n by (cases n) auto
    show ?thesis
    proof (cases es)
      case (Cons w ws)
      let ?t = "join_texts [44] (map (member_text nt) es)"
      have "starts_value (member_text nt w)" by (simp add: starts_value_def json_quote_def split: prod.split)
      then have "starts_value ?t" using Cons by (simp add: starts_joined)
      then have "expect 125 (?t @ 125 # r) = None" by (simp add: starts_expect)
      moreover have "read_members num m (?t @ 125 # r) = Some (es, r)"
        by (rule read_members_joined) (use all Cons n m in auto)
      ultimately show ?thesis using m o by (simp add: skip_ws_def)
    qed (simp add: m skip_ws_def)
  qed
  then show ?case by (simp add: reads_back_def starts_value_def)
qed

text \<open>Reading what \<open>JSON.stringify\<close> wrote gives the value back, with any fuel from the one of
  \<open>JSON_parse\<close> on.\<close>

lemma parse_stringify:
  assumes "json_ok nt num v"
  shows "JSON_parse num (json_stringify nt v) = Some v"
proof -
  have "read_value num (2 * length (json_stringify nt v) + 1) (json_stringify nt v @ []) = Some (v, [])"
    using stringify_reads_back [OF assms] by (simp add: reads_back_def del: append_Nil2 read_value.simps)
  then show ?thesis by (simp add: JSON_parse_def skip_ws_def del: read_value.simps)
qed

lemma parse_fuel: "2 * length s < n \<Longrightarrow>
    read_value num n s = read_value num (2 * length s + 1) s"
  by (rule more_fuel) simp_all

lemma parse_weight: "JSON_parse num s = Some v \<Longrightarrow> weight v \<le> length s"
  by (auto simp: JSON_parse_def simp del: read_value.simps split: option.splits if_splits dest!: read_weight(1))

end
