(* ===== verification/TerminalRun.thy ===== *)
theory TerminalRun
  imports EditorStore Json
begin

text \<open>
  Running the current script in the integrated terminal (\<open>src/composables/useTerminalRun.ts\<close>): the
  buffered output, the watchdog timer, the listeners on the event bus and every call of \<open>runScript\<close>
  that is still awaiting something, over the editor store. One step is what runs between two awaits;
  what the awaited promises give back, the bus events, the timers and other users of the store are
  the events, in any order. Fresh identifiers and clock readings of a step are its \<open>tick\<close>.
\<close>

section \<open>Errors\<close>

text \<open>What a promise is rejected with: an \<open>Error\<close> with its message, a string, or anything else.\<close>

datatype js_error = JsError ustr | JsText ustr | JsOther

definition extractSerializedErrorMessage :: "(ustr \<Rightarrow> js_number) \<Rightarrow> ustr \<Rightarrow> ustr option" where
  "extractSerializedErrorMessage num s =
     (let trimmed = trim s in
      if take 1 trimmed \<noteq> [123] \<or> last trimmed \<noteq> 125 then None
      else (case JSON_parse num trimmed of
              Some (ObjOut fs) \<Rightarrow>
                (case map_of fs (lit ''message'') of
                   Some (StrOut m) \<Rightarrow> (if trim m \<noteq> [] then Some (trim m) else None)
                 | _ \<Rightarrow> None)
            | _ \<Rightarrow> None))"

definition toErrorMessage :: "(ustr \<Rightarrow> js_number) \<Rightarrow> js_error \<Rightarrow> ustr \<Rightarrow> ustr" where
  "toErrorMessage num e fallback =
     (case e of
        JsError m \<Rightarrow> (if trim m \<noteq> [] then orElse (extractSerializedErrorMessage num m) m else fallback)
      | JsText m \<Rightarrow> (if trim m \<noteq> [] then orElse (extractSerializedErrorMessage num m) m else fallback)
      | JsOther \<Rightarrow> fallback)"

section \<open>Documents that can be run\<close>

record run_env =
  rv_paths :: path_env
  rv_num :: "ustr \<Rightarrow> js_number"
  rv_time :: "ustr \<Rightarrow> int option"

definition getFileExtension :: "path_env \<Rightarrow> ustr \<Rightarrow> ustr" where
  "getFileExtension env path =
     (if path = [] then []
      else pa_lower env (rev (takeWhile (\<lambda>c. c \<noteq> 46)
        (rev (normalizeFileSystemPath env default_normalize path)))))"

definition isShellScriptPath :: "path_env \<Rightarrow> ustr \<Rightarrow> bool" where
  "isShellScriptPath env path \<longleftrightarrow> getFileExtension env path \<in> {lit ''sh'', lit ''bash''}"

definition isShellScriptDocument :: "path_env \<Rightarrow> editor_document \<Rightarrow> bool" where
  "isShellScriptDocument env d \<longleftrightarrow> dc_kind d = KText \<and> isShellScriptPath env (orElse (dc_path d) (dc_name d))"

definition has_any :: "editor \<Rightarrow> bool" where
  "has_any s \<longleftrightarrow> (case ed_environment s of JObj fs \<Rightarrow> jfield fs ''hasAny'' = JBool True | _ \<Rightarrow> False)"

definition canRun :: "path_env \<Rightarrow> editor \<Rightarrow> bool" where
  "canRun env s \<longleftrightarrow> hasActiveDocument s \<and> isShellScriptDocument env (active_document s) \<and>
     0 < dc_charCount (active_document s) \<and> has_any s"

definition shouldDispatchDocumentContent :: "editor_document \<Rightarrow> bool" where
  "shouldDispatchDocumentContent d \<longleftrightarrow> dc_isDirty d \<or> dc_path d = None \<or> dc_path d = Some []"

record dispatch_request =
  dq_sessionId :: ustr
  dq_path :: "ustr option"
  dq_workspaceRootPath :: "ustr option"
  dq_content :: ustr
  dq_isDirty :: bool
  dq_runId :: ustr

definition DEFAULT_TERMINAL_SESSION_ID :: ustr where
  "DEFAULT_TERMINAL_SESSION_ID = lit ''main-terminal''"

definition DEFAULT_EXECUTOR :: executor where "DEFAULT_EXECUTOR = Wsl"

definition buildTerminalDispatchRequest ::
    "editor_document \<Rightarrow> ustr \<Rightarrow> ustr option \<Rightarrow> dispatch_request" where
  "buildTerminalDispatchRequest d runId workspaceRoot =
     \<lparr>dq_sessionId = DEFAULT_TERMINAL_SESSION_ID, dq_path = dc_path d, dq_workspaceRootPath = workspaceRoot,
      dq_content = (if shouldDispatchDocumentContent d then dc_content d else []),
      dq_isDirty = dc_isDirty d, dq_runId = runId\<rparr>"

section \<open>State\<close>

record dispatch_reply =
  dy_commandLine :: ustr
  dy_usedTempFile :: bool
  dy_startedAt :: ustr

record run_output =
  rk_sessionId :: ustr
  rk_runId :: ustr
  rk_data :: ustr

record run_completed =
  rx_sessionId :: ustr
  rx_runId :: ustr
  rx_exitCode :: "int option"
  rx_finishedAt :: ustr

datatype notice = NoticeSuccess ustr | NoticeWarning ustr | NoticeError ustr

text \<open>Where a call of \<open>runScript\<close> waits.\<close>

datatype stage =
    AwaitRegistration
  | ListenersSettled "js_error option"
  | AwaitBridge editor_document
  | AwaitView editor_document
  | AwaitDispatch editor_document dispatch_request
  | AwaitRebridge editor_document dispatch_request
  | AwaitReview editor_document dispatch_request
  | AwaitRedispatch editor_document dispatch_request

text \<open>Where the registration of the listeners waits: for the desktop runtime, with the version it
  started from, or for the event bus.\<close>

datatype registration = RegRuntime nat | RegStart

record terminal_run =
  ut_editor :: editor
  ut_buffer :: ustr
  ut_bufferTimer :: bool
  ut_fallback :: "ustr option"
  ut_disposed :: bool
  ut_meta :: "run_meta option"
  ut_ensured :: bool
  ut_subscribed :: bool
  ut_listening :: bool
  ut_registration :: "registration option"
  ut_version :: nat
  ut_next :: nat
  ut_calls :: "(nat, stage) jsmap"
  ut_notices :: "notice list"

record tick =
  tk_now :: "nat \<Rightarrow> ustr"
  tk_id :: "nat \<Rightarrow> ustr"

definition use_terminal_run :: "editor \<Rightarrow> terminal_run" where
  "use_terminal_run ed = \<lparr>ut_editor = ed, ut_buffer = [], ut_bufferTimer = False, ut_fallback = None,
     ut_disposed = False, ut_meta = None, ut_ensured = False, ut_subscribed = False,
     ut_listening = False, ut_registration = None, ut_version = 0, ut_next = 0, ut_calls = [],
     ut_notices = []\<rparr>"

definition on_editor :: "(editor \<Rightarrow> editor) \<Rightarrow> terminal_run \<Rightarrow> terminal_run" where
  "on_editor f s = s\<lparr>ut_editor := f (ut_editor s)\<rparr>"

definition notify :: "notice \<Rightarrow> terminal_run \<Rightarrow> terminal_run" where
  "notify n s = s\<lparr>ut_notices := ut_notices s @ [n]\<rparr>"

section \<open>Operations\<close>

definition clearBufferedTerminalOutputTimer :: "terminal_run \<Rightarrow> terminal_run" where
  "clearBufferedTerminalOutputTimer s = s\<lparr>ut_bufferTimer := False\<rparr>"

definition clearTerminalRunFallbackTimer :: "terminal_run \<Rightarrow> terminal_run" where
  "clearTerminalRunFallbackTimer s = s\<lparr>ut_fallback := None\<rparr>"

definition flushBufferedTerminalOutput :: "terminal_run \<Rightarrow> terminal_run" where
  "flushBufferedTerminalOutput s =
     (let s1 = clearBufferedTerminalOutputTimer s in
      if ut_buffer s1 = [] then s1
      else if ut_disposed s1 then s1\<lparr>ut_buffer := []\<rparr>
      else (on_editor (editor_output (AppendOutput (ut_buffer s1))) s1)\<lparr>ut_buffer := []\<rparr>)"

definition resetBufferedTerminalOutput :: "terminal_run \<Rightarrow> terminal_run" where
  "resetBufferedTerminalOutput s = (clearBufferedTerminalOutputTimer s)\<lparr>ut_buffer := []\<rparr>"

definition clearActiveTerminalRunState :: "terminal_run \<Rightarrow> terminal_run" where
  "clearActiveTerminalRunState s =
     (on_editor (\<lambda>e. (setActiveRunSummary None (setPendingTerminalRunId None e))\<lparr>ed_isRunning := False\<rparr>) s)
       \<lparr>ut_meta := None\<rparr>"

definition clearTerminalRunEventListeners :: "terminal_run \<Rightarrow> terminal_run" where
  "clearTerminalRunEventListeners s =
     (if ut_listening s then s\<lparr>ut_listening := False, ut_subscribed := False\<rparr> else s)"

definition appendRunLifecycleLog ::
    "tick \<Rightarrow> nat \<Rightarrow> log_level \<Rightarrow> ustr \<Rightarrow> ustr \<Rightarrow> ustr option \<Rightarrow> ustr \<Rightarrow> terminal_run \<Rightarrow> terminal_run" where
  "appendRunLifecycleLog t n level title detail runId code =
     on_editor (appendLog (tk_now t n) (tk_id t n) level title detail
       \<lparr>lo_scope = Some ScopeRun, lo_runId = runId, lo_code = Some code\<rparr>)"

definition getCurrentTerminalRunId :: "terminal_run \<Rightarrow> ustr option" where
  "getCurrentTerminalRunId s =
     nullish (nullish (map_option met_runId (ut_meta s)) (ed_pendingTerminalRunId (ut_editor s)))
       (map_option sm_runId (ed_activeRunSummary (ut_editor s)))"

definition isIntegratedTerminalSession :: "ustr \<Rightarrow> bool" where
  "isIntegratedTerminalSession sessionId \<longleftrightarrow> sessionId = DEFAULT_TERMINAL_SESSION_ID"

definition resolveTerminalRunId :: "ustr \<Rightarrow> terminal_run \<Rightarrow> ustr option" where
  "resolveTerminalRunId runId s =
     (let n = trim runId in
      if n \<noteq> [] \<and> (ed_pendingTerminalRunId (ut_editor s) = Some n \<or>
            map_option met_runId (ut_meta s) = Some n \<or>
            map_option sm_runId (ed_activeRunSummary (ut_editor s)) = Some n)
      then Some n
      else if n = [] then getCurrentTerminalRunId s
      else None)"

definition isCurrentTerminalRun :: "ustr \<Rightarrow> terminal_run \<Rightarrow> bool" where
  "isCurrentTerminalRun runId s \<longleftrightarrow> resolveTerminalRunId runId s \<noteq> None"

definition hasFinalizedTerminalRun :: "ustr option \<Rightarrow> editor \<Rightarrow> bool" where
  "hasFinalizedTerminalRun runId e \<longleftrightarrow>
     runId \<noteq> None \<and> runId \<noteq> Some [] \<and>
     ((case ed_lastRunResult e of Some r \<Rightarrow> res_runId r = runId | None \<Rightarrow> False) \<or>
      list_ex (\<lambda>x. lg_runId x = runId \<and> isTerminalRunFinalLog x) (ed_runLogs e))"

definition failTerminalRun ::
    "run_env \<Rightarrow> tick \<Rightarrow> ustr \<Rightarrow> js_error \<Rightarrow> ustr \<Rightarrow> ustr \<Rightarrow> bool \<Rightarrow> terminal_run \<Rightarrow> terminal_run" where
  "failTerminalRun env t title err fallback logCode writeOutput s =
     (let message = (case err of JsText m \<Rightarrow> m | _ \<Rightarrow> toErrorMessage (rv_num env) err fallback);
          failedRunId = getCurrentTerminalRunId s
      in if hasFinalizedTerminalRun failedRunId (ut_editor s) then s
         else
           (let s1 = clearActiveTerminalRunState (clearTerminalRunFallbackTimer
                       (resetBufferedTerminalOutput s));
                s2 = (if writeOutput then on_editor (editor_output (SetOutput message)) s1 else s1)
            in notify (NoticeError message)
                 (appendRunLifecycleLog t 0 LogError title message failedRunId logCode s2)))"

definition scheduleTerminalRunCompletionTimeout :: "ustr \<Rightarrow> terminal_run \<Rightarrow> terminal_run" where
  "scheduleTerminalRunCompletionTimeout runId s = (clearTerminalRunFallbackTimer s)\<lparr>ut_fallback := Some runId\<rparr>"

definition timeout_message :: ustr where
  "timeout_message = [32456, 31471, 36816, 34892, 36229, 26102, 65292, 24050, 20572, 27490, 31561, 24453, 23436, 25104, 20107, 20214, 65292, 35831, 26816, 26597, 32456, 31471, 29366, 24577, 12290]"

text \<open>The callback of the watchdog.\<close>

definition completion_timeout :: "run_env \<Rightarrow> tick \<Rightarrow> terminal_run \<Rightarrow> terminal_run" where
  "completion_timeout env t s =
     (case ut_fallback s of
        None \<Rightarrow> s
      | Some runId \<Rightarrow>
          (let s1 = s\<lparr>ut_fallback := None\<rparr> in
           if ut_disposed s1 \<or> \<not> isCurrentTerminalRun runId s1 then s1
           else failTerminalRun env t (TERMINAL_RUN_LOG_TITLES KindTimeout) (JsText timeout_message)
                  (TERMINAL_RUN_LOG_TITLES KindTimeout) (TERMINAL_RUN_LOG_CODES KindTimeout) False s1))"

definition document_ref_of :: "editor_document \<Rightarrow> document_ref" where
  "document_ref_of d = \<lparr>ref_name = dc_name d, ref_path = dc_path d\<rparr>"

definition primeTerminalRun :: "tick \<Rightarrow> editor_document \<Rightarrow> terminal_run \<Rightarrow> terminal_run" where
  "primeTerminalRun t d s =
     (let runId = tk_id t 0; startedAt = tk_now t 0;
          usedTempFile = (dc_isDirty d \<or> dc_path d = None \<or> dc_path d = Some []);
          s1 = on_editor (\<lambda>e. setActiveRunSummary
                 (Some (buildPendingTerminalRunSummary (document_ref_of d) runId startedAt
                    DEFAULT_EXECUTOR usedTempFile))
                 (setPendingTerminalRunId (Some runId) e)) s;
          s2 = resetBufferedTerminalOutput s1;
          s3 = on_editor (\<lambda>e. editor_output (SetOutput []) (e\<lparr>ed_lastRunResult := None\<rparr>)) s2;
          s4 = s3\<lparr>ut_meta := Some (createActiveTerminalRunMeta runId startedAt (lit ''bash'') usedTempFile)\<rparr>;
          s5 = appendRunLifecycleLog t 1 LogInfo (TERMINAL_RUN_LOG_TITLES KindStart)
                 ([24403, 21069, 33050, 26412, 23558, 20351, 29992, 32] @ getExecutorLabel DEFAULT_EXECUTOR @ [32, 25191, 34892, 12290])
                 (Some runId) (TERMINAL_RUN_LOG_CODES KindStart) s4
      in scheduleTerminalRunCompletionTimeout runId s5)"

definition finalizeTerminalRun :: "run_env \<Rightarrow> tick \<Rightarrow> run_completed \<Rightarrow> terminal_run \<Rightarrow> terminal_run" where
  "finalizeTerminalRun env t p s =
     (if \<not> isIntegratedTerminalSession (rx_sessionId p) then s
      else
        (case resolveTerminalRunId (rx_runId p) s of
           None \<Rightarrow> s
         | Some resolved \<Rightarrow>
             if ut_disposed s \<or> resolved = [] then s
             else if hasFinalizedTerminalRun (Some resolved) (ut_editor s)
             then (if map_option met_runId (ut_meta s) = Some resolved
                   then clearActiveTerminalRunState s else s)
             else
               (let summary = ed_activeRunSummary (ut_editor s);
                    s1 = flushBufferedTerminalOutput (clearTerminalRunFallbackTimer s);
                    r = buildTerminalRunResult (rv_time env)
                          (getTerminalOutputSnapshot (ed_output (ut_editor s1))) (rx_exitCode p)
                          (rx_finishedAt p) DEFAULT_EXECUTOR (ut_meta s1) summary;
                    s2 = on_editor (\<lambda>e. appendRunHistory (tk_id t 0)
                           (buildTerminalRunHistoryEntry r summary (document_ref_of (active_document e)))
                           (e\<lparr>ed_lastRunResult := Some r\<rparr>)) s1;
                    s3 = clearActiveTerminalRunState s2;
                    k = (if res_success r then KindCompleted else KindFailed);
                    s4 = appendRunLifecycleLog t 1 (if res_success r then LogSuccess else LogError)
                           (TERMINAL_RUN_LOG_TITLES k) (buildTerminalRunCompletionDetail r)
                           (res_runId r) (TERMINAL_RUN_LOG_CODES k) s3
                in notify (if res_success r then NoticeSuccess [33050, 26412, 25191, 34892, 23436, 25104, 12290]
                           else NoticeError [33050, 26412, 25191, 34892, 22833, 36133, 65292, 35831, 26816, 26597, 32456, 31471, 36755, 20986, 12290]) s4)))"

definition handleIntegratedTerminalExit ::
    "run_env \<Rightarrow> tick \<Rightarrow> ustr \<Rightarrow> int option \<Rightarrow> terminal_run \<Rightarrow> terminal_run" where
  "handleIntegratedTerminalExit env t sessionId exitCode s =
     (if ut_disposed s \<or> \<not> isIntegratedTerminalSession sessionId then s
      else
        (let s1 = s\<lparr>ut_ensured := False\<rparr> in
         case getCurrentTerminalRunId s1 of
           None \<Rightarrow> s1
         | Some active \<Rightarrow>
             if active = [] then s1
             else finalizeTerminalRun env t \<lparr>rx_sessionId = sessionId, rx_runId = active,
                    rx_exitCode = exitCode, rx_finishedAt = tk_now t 2\<rparr> s1))"

definition appendTerminalOutput :: "run_output \<Rightarrow> terminal_run \<Rightarrow> terminal_run" where
  "appendTerminalOutput p s =
     (if ut_disposed s \<or> \<not> isIntegratedTerminalSession (rk_sessionId p) \<or> rk_data p = [] \<or>
         \<not> isCurrentTerminalRun (rk_runId p) s then s
      else s\<lparr>ut_buffer := ut_buffer s @ rk_data p, ut_bufferTimer := True\<rparr>)"

definition appendStructuredTerminalOutput :: "run_output \<Rightarrow> terminal_run \<Rightarrow> terminal_run" where
  "appendStructuredTerminalOutput p s =
     (if ut_disposed s \<or> \<not> isIntegratedTerminalSession (rk_sessionId p) \<or> rk_data p = [] \<or>
         \<not> isCurrentTerminalRun (rk_runId p) s then s
      else appendTerminalOutput p s)"

section \<open>Calls of runScript\<close>

definition put_call :: "nat \<Rightarrow> stage \<Rightarrow> terminal_run \<Rightarrow> terminal_run" where
  "put_call i g s = s\<lparr>ut_calls := jm_set (ut_calls s) i g\<rparr>"

definition end_call :: "nat \<Rightarrow> terminal_run \<Rightarrow> terminal_run" where
  "end_call i s = s\<lparr>ut_calls := jm_delete (ut_calls s) i\<rparr>"

text \<open>The catch clauses of \<open>runScript\<close> and of \<open>runScriptInIntegratedTerminal\<close>.\<close>

definition runScript_failed :: "run_env \<Rightarrow> tick \<Rightarrow> nat \<Rightarrow> js_error \<Rightarrow> terminal_run \<Rightarrow> terminal_run" where
  "runScript_failed env t i err s =
     failTerminalRun env t script_failed_title err script_failed_title (TERMINAL_RUN_LOG_CODES KindFailed)
       True (end_call i s)"

definition script_dispatch_failed ::
    "run_env \<Rightarrow> tick \<Rightarrow> nat \<Rightarrow> ustr \<Rightarrow> js_error \<Rightarrow> terminal_run \<Rightarrow> terminal_run" where
  "script_dispatch_failed env t i runId err s =
     (if ut_disposed s \<or> \<not> isCurrentTerminalRun runId s then end_call i s
      else runScript_failed env t i err s)"

text \<open>\<open>ensureTerminalRunEventListeners\<close>: the listeners are there, or a registration is joined, or begun.\<close>

definition ensureTerminalRunEventListeners :: "nat \<Rightarrow> terminal_run \<Rightarrow> terminal_run" where
  "ensureTerminalRunEventListeners i s =
     (if ut_listening s then put_call i (ListenersSettled None) s
      else
        (let s1 = (if ut_registration s = None
                   then s\<lparr>ut_registration := Some (RegRuntime (ut_version s))\<rparr> else s)
         in put_call i AwaitRegistration s1))"

definition wake :: "js_error option \<Rightarrow> stage \<Rightarrow> stage" where
  "wake r g = (if g = AwaitRegistration then ListenersSettled r else g)"

definition registration_settled :: "js_error option \<Rightarrow> terminal_run \<Rightarrow> terminal_run" where
  "registration_settled r s =
     s\<lparr>ut_registration := None, ut_calls := map (\<lambda>(i, g). (i, wake r g)) (ut_calls s)\<rparr>"

text \<open>The registration after \<open>waitForDesktopRuntime\<close>, and after \<open>terminalEventBus.start\<close>.\<close>

definition runtime_waited :: "bool \<Rightarrow> terminal_run \<Rightarrow> terminal_run" where
  "runtime_waited runtimeReady s =
     (case ut_registration s of
        Some (RegRuntime version) \<Rightarrow>
          (if \<not> runtimeReady \<or> ut_disposed s then registration_settled None s
           else if ut_version s \<noteq> version then registration_settled None s
           else s\<lparr>ut_subscribed := True, ut_registration := Some RegStart\<rparr>)
      | _ \<Rightarrow> s)"

definition bus_started :: "js_error option \<Rightarrow> terminal_run \<Rightarrow> terminal_run" where
  "bus_started r s =
     (case ut_registration s of
        Some RegStart \<Rightarrow>
          (case r of
             Some err \<Rightarrow> registration_settled (Some err) (s\<lparr>ut_subscribed := False\<rparr>)
           | None \<Rightarrow> registration_settled None (s\<lparr>ut_listening := True\<rparr>))
      | _ \<Rightarrow> s)"

definition runScript :: "run_env \<Rightarrow> terminal_run \<Rightarrow> terminal_run" where
  "runScript env s =
     (let ed = ut_editor s in
      if ed_isRunning ed
      then notify (NoticeWarning [24050, 26377, 33050, 26412, 27491, 22312, 36816, 34892, 65292, 35831, 31561, 24453, 23436, 25104, 25110, 20808, 20572, 27490, 24403, 21069, 36816, 34892, 12290]) s
      else if \<not> canRun (rv_paths env) ed
      then notify (NoticeWarning
             (if isShellScriptDocument (rv_paths env) (active_document ed)
              then [35831, 20808, 25552, 20379, 21487, 25191, 34892, 33050, 26412, 20869, 23481, 65292, 24182, 30830, 35748, 24403, 21069, 31995, 32479, 23384, 22312, 21487, 29992, 30340, 32, 87, 83, 76, 50, 32, 36816, 34892, 29615, 22659, 12290]
              else [24403, 21069, 25991, 20214, 19981, 26159, 33050, 26412, 25991, 20214, 65292, 20165, 25903, 25345, 36816, 34892, 32, 46, 115, 104, 32, 47, 32, 46, 98, 97, 115, 104, 32, 33050, 26412, 12290])) s
      else if \<not> has_any ed
      then notify (NoticeError [24403, 21069, 31995, 32479, 19981, 21487, 29992, 65306, 87, 83, 76, 50, 12290]) s
      else
        (let s1 = (on_editor (\<lambda>e. e\<lparr>ed_isRunning := True\<rparr>) s)\<lparr>ut_next := Suc (ut_next s)\<rparr>
         in ensureTerminalRunEventListeners (ut_next s) s1))"

definition not_a_script :: ustr where
  "not_a_script = [24403, 21069, 25991, 20214, 19981, 26159, 33050, 26412, 25991, 20214, 65292, 20165, 25903, 25345, 36816, 34892, 32, 46, 115, 104, 32, 47, 32, 46, 98, 97, 115, 104, 32, 33050, 26412, 12290]"

text \<open>The listeners are there: \<open>runScriptInIntegratedTerminal\<close> begins on the document that is active now.\<close>

definition listeners_ready :: "run_env \<Rightarrow> tick \<Rightarrow> nat \<Rightarrow> terminal_run \<Rightarrow> terminal_run" where
  "listeners_ready env t i s =
     (case jm_get (ut_calls s) i of
        Some (ListenersSettled (Some err)) \<Rightarrow> runScript_failed env t i err s
      | Some (ListenersSettled None) \<Rightarrow>
          (let d = active_document (ut_editor s) in
           if \<not> isShellScriptDocument (rv_paths env) d
           then runScript_failed env t i (JsError not_a_script) s
           else put_call i (AwaitBridge d) s)
      | _ \<Rightarrow> s)"

text \<open>The session is there: the run is primed and its script sent, or sent again.\<close>

definition start_dispatch :: "tick \<Rightarrow> nat \<Rightarrow> editor_document \<Rightarrow> terminal_run \<Rightarrow> terminal_run" where
  "start_dispatch t i d s =
     (let s1 = primeTerminalRun t d s in
      put_call i (AwaitDispatch d (buildTerminalDispatchRequest d (tk_id t 0)
        (ed_workspaceRootPath (ut_editor s1)))) s1)"

definition bridge_settled ::
    "run_env \<Rightarrow> tick \<Rightarrow> nat \<Rightarrow> js_error option \<Rightarrow> terminal_run \<Rightarrow> terminal_run" where
  "bridge_settled env t i r s =
     (case jm_get (ut_calls s) i of
        Some (AwaitBridge d) \<Rightarrow>
          (case r of
             Some err \<Rightarrow> runScript_failed env t i err s
           | None \<Rightarrow> (if ut_ensured s then start_dispatch t i d s else put_call i (AwaitView d) s))
      | Some (AwaitRebridge d q) \<Rightarrow>
          (case r of
             Some err \<Rightarrow> script_dispatch_failed env t i (dq_runId q) err s
           | None \<Rightarrow> put_call i (if ut_ensured s then AwaitRedispatch d q else AwaitReview d q) s)
      | _ \<Rightarrow> s)"

definition view_settled ::
    "run_env \<Rightarrow> tick \<Rightarrow> nat \<Rightarrow> js_error option \<Rightarrow> terminal_run \<Rightarrow> terminal_run" where
  "view_settled env t i r s =
     (case jm_get (ut_calls s) i of
        Some (AwaitView d) \<Rightarrow>
          (case r of
             Some err \<Rightarrow> runScript_failed env t i err s
           | None \<Rightarrow> start_dispatch t i d (s\<lparr>ut_ensured := True\<rparr>))
      | Some (AwaitReview d q) \<Rightarrow>
          (case r of
             Some err \<Rightarrow> script_dispatch_failed env t i (dq_runId q) err s
           | None \<Rightarrow> put_call i (AwaitRedispatch d q) (s\<lparr>ut_ensured := True\<rparr>))
      | _ \<Rightarrow> s)"

fun contains :: "ustr \<Rightarrow> ustr \<Rightarrow> bool" where
  "contains p [] = (p = [])"
| "contains p (c # s) = (take (length p) (c # s) = p \<or> contains p s)"

definition shouldReconnectIntegratedTerminal :: "run_env \<Rightarrow> js_error \<Rightarrow> bool" where
  "shouldReconnectIntegratedTerminal env err =
     contains [30446, 26631, 32456, 31471, 20250, 35805, 19981, 23384, 22312] (toErrorMessage (rv_num env) err [])"

definition script_dispatched ::
    "tick \<Rightarrow> nat \<Rightarrow> editor_document \<Rightarrow> ustr \<Rightarrow> dispatch_reply \<Rightarrow> terminal_run \<Rightarrow> terminal_run" where
  "script_dispatched t i d runId y s =
     (let s0 = end_call i s in
      if ut_disposed s0 \<or> \<not> isCurrentTerminalRun runId s0 then s0
      else
        (let m = createActiveTerminalRunMeta runId (dy_startedAt y) (dy_commandLine y) (dy_usedTempFile y);
             s1 = on_editor (setActiveRunSummary
                    (Some (buildDispatchedTerminalRunSummary (document_ref_of d) m DEFAULT_EXECUTOR)))
                    (s0\<lparr>ut_meta := Some m\<rparr>);
             s2 = appendRunLifecycleLog t 0 LogSuccess (TERMINAL_RUN_LOG_TITLES KindDispatched)
                    (dy_commandLine y) (Some runId) (TERMINAL_RUN_LOG_CODES KindDispatched) s1;
             s3 = (if dy_usedTempFile y
                   then appendRunLifecycleLog t 1 LogInfo (TERMINAL_RUN_LOG_TITLES KindTempFile)
                          [24403, 21069, 20869, 23481, 24050, 20889, 20837, 20020, 26102, 32, 115, 104, 101, 108, 108, 32, 33050, 26412, 25991, 20214, 21518, 25191, 34892, 12290] (Some runId)
                          (TERMINAL_RUN_LOG_CODES KindTempFile) s2
                   else s2)
         in notify (NoticeSuccess [33050, 26412, 24050, 21457, 36865, 21040, 38598, 25104, 32456, 31471, 12290]) s3))"

text \<open>A refused dispatch is sent once more when the session is gone.\<close>

definition dispatch_settled ::
    "run_env \<Rightarrow> tick \<Rightarrow> nat \<Rightarrow> js_error + dispatch_reply \<Rightarrow> terminal_run \<Rightarrow> terminal_run" where
  "dispatch_settled env t i r s =
     (case jm_get (ut_calls s) i of
        Some (AwaitDispatch d q) \<Rightarrow>
          (case r of
             Inr y \<Rightarrow> script_dispatched t i d (dq_runId q) y s
           | Inl err \<Rightarrow>
               (if shouldReconnectIntegratedTerminal env err
                then put_call i (AwaitRebridge d q) (s\<lparr>ut_ensured := False\<rparr>)
                else script_dispatch_failed env t i (dq_runId q) err s))
      | Some (AwaitRedispatch d q) \<Rightarrow>
          (case r of
             Inr y \<Rightarrow> script_dispatched t i d (dq_runId q) y s
           | Inl err \<Rightarrow> script_dispatch_failed env t i (dq_runId q) err s)
      | _ \<Rightarrow> s)"

text \<open>The scope is disposed.\<close>

definition dispose_run :: "terminal_run \<Rightarrow> terminal_run" where
  "dispose_run s =
     (let s1 = clearTerminalRunEventListeners (s\<lparr>ut_disposed := True, ut_version := Suc (ut_version s)\<rparr>)
      in clearActiveTerminalRunState (clearTerminalRunFallbackTimer (resetBufferedTerminalOutput s1)))"

section \<open>Events\<close>

text \<open>A document a call holds is the store's object, so an edit shows through it.\<close>

definition live :: "editor \<Rightarrow> editor_document \<Rightarrow> editor_document" where
  "live e d = orElse (find_id (dc_id d) e) d"

fun refresh :: "editor \<Rightarrow> stage \<Rightarrow> stage" where
  "refresh e (AwaitBridge d) = AwaitBridge (live e d)"
| "refresh e (AwaitView d) = AwaitView (live e d)"
| "refresh e (AwaitDispatch d q) = AwaitDispatch (live e d) q"
| "refresh e (AwaitRebridge d q) = AwaitRebridge (live e d) q"
| "refresh e (AwaitReview d q) = AwaitReview (live e d) q"
| "refresh e (AwaitRedispatch d q) = AwaitRedispatch (live e d) q"
| "refresh e g = g"

datatype terminal_run_event =
    RunScript
  | RuntimeWaited bool
  | BusStarted "js_error option"
  | ListenersReady tick nat
  | BridgeSettled tick nat "js_error option"
  | ViewSettled tick nat "js_error option"
  | DispatchSettled tick nat "js_error + dispatch_reply"
  | RunChunk run_output
  | FlushTimer
  | RunCompleted tick run_completed
  | OutputCall run_output
  | CompletedCall tick run_completed
  | SessionExited tick ustr "int option"
  | Watchdog tick
  | StoreCall editor_call
  | Dispose

definition store_call :: "path_env \<Rightarrow> editor_call \<Rightarrow> terminal_run \<Rightarrow> terminal_run" where
  "store_call paths c s =
     (let e = editor_step paths (ut_editor s) c in
      s\<lparr>ut_editor := e, ut_calls := map (\<lambda>(i, g). (i, refresh e g)) (ut_calls s)\<rparr>)"

fun terminal_run_step :: "run_env \<Rightarrow> terminal_run \<Rightarrow> terminal_run_event \<Rightarrow> terminal_run" where
  "terminal_run_step env s RunScript = runScript env s"
| "terminal_run_step env s (RuntimeWaited b) = runtime_waited b s"
| "terminal_run_step env s (BusStarted r) = bus_started r s"
| "terminal_run_step env s (ListenersReady t i) = listeners_ready env t i s"
| "terminal_run_step env s (BridgeSettled t i r) = bridge_settled env t i r s"
| "terminal_run_step env s (ViewSettled t i r) = view_settled env t i r s"
| "terminal_run_step env s (DispatchSettled t i r) = dispatch_settled env t i r s"
| "terminal_run_step env s (RunChunk p) = (if ut_subscribed s then appendStructuredTerminalOutput p s else s)"
| "terminal_run_step env s FlushTimer = (if ut_bufferTimer s then flushBufferedTerminalOutput s else s)"
| "terminal_run_step env s (RunCompleted t p) = (if ut_subscribed s then finalizeTerminalRun env t p s else s)"
| "terminal_run_step env s (OutputCall p) = appendTerminalOutput p s"
| "terminal_run_step env s (CompletedCall t p) = finalizeTerminalRun env t p s"
| "terminal_run_step env s (SessionExited t sid code) =
     (if ut_subscribed s then handleIntegratedTerminalExit env t sid code s else s)"
| "terminal_run_step env s (Watchdog t) = completion_timeout env t s"
| "terminal_run_step env s (StoreCall c) = store_call (rv_paths env) c s"
| "terminal_run_step env s Dispose = dispose_run s"

section \<open>What other users of the store leave alone\<close>

text \<open>The part of the store that belongs to the run.\<close>

definition run_part ::
    "editor \<Rightarrow> ustr option \<times> active_run_summary option \<times> bool \<times> run_result option \<times> run_log list \<times> terminal_output" where
  "run_part e = (ed_pendingTerminalRunId e, ed_activeRunSummary e, ed_isRunning e, ed_lastRunResult e,
     ed_runLogs e, ed_output e)"

named_theorems run_frame \<open>store operations that leave the run alone\<close>

lemma run_frame_session [run_frame]:
  "run_part (on_session f e) = run_part e" "run_part (touchSessionSnapshot now e) = run_part e"
  "run_part (pushRecentFile env p e) = run_part e" "run_part (pushRecentWorkspace env p e) = run_part e"
  "run_part (syncSessionOpenTabs env e) = run_part e"
  by (simp_all add: run_part_def on_session_def touchSessionSnapshot_def pushRecentFile_def
      pushRecentWorkspace_def syncSessionOpenTabs_def)

lemma run_frame_docs [run_frame]:
  "run_part (watch_active e) = run_part e" "run_part (reset_cursor e) = run_part e"
  "run_part (push_document d e) = run_part e" "run_part (on_document P f e) = run_part e"
  "run_part (clearDocumentAnalysis i e) = run_part e"
  by (simp_all add: run_part_def watch_active_def reset_cursor_def push_document_def on_document_def
      clearDocumentAnalysis_def split: list.split)

lemma run_frame_fields [run_frame]:
  "run_part (e\<lparr>ed_documents := ds\<rparr>) = run_part e" "run_part (e\<lparr>ed_activeDocumentId := i\<rparr>) = run_part e"
  "run_part (e\<lparr>ed_environment := x\<rparr>) = run_part e" "run_part (e\<lparr>ed_cursorLine := n\<rparr>) = run_part e"
  "run_part (e\<lparr>ed_cursorColumn := n\<rparr>) = run_part e" "run_part (e\<lparr>ed_selection := y\<rparr>) = run_part e"
  "run_part (e\<lparr>ed_workspaceRootPath := p\<rparr>) = run_part e" "run_part (e\<lparr>ed_protectedRoots := ps\<rparr>) = run_part e"
  "run_part (e\<lparr>ed_analysis := a\<rparr>) = run_part e"
  by (simp_all add: run_part_def)

lemma run_frame_active [run_frame]: "run_part (setActiveDocument now i e) = run_part e"
  by (simp add: setActiveDocument_def Let_def run_frame split: option.split)

lemma run_frame_tabs [run_frame]:
  "run_part (show_new env now d e) = run_part e"
  "run_part (snd (open_path env now fresh p ov e)) = run_part e"
  "run_part (edit_text i g e) = run_part e" "run_part (clearDocuments now e) = run_part e"
  by (simp_all add: show_new_def open_path_def edit_text_def clearDocuments_def Let_def run_frame split: option.split)

text \<open>What the rest of the program does with the store: everything but the calls that only
  \<open>useTerminalRun\<close> makes. Its logs carry no run.\<close>

fun foreign :: "editor_call \<Rightarrow> bool" where
  "foreign (SetRunSummary x) = False"
| "foreign (SetPendingRun x) = False"
| "foreign (AppendHistory i x) = False"
| "foreign (Output c) = False"
| "foreign (AppendLog now i l t d ops) = (ops = no_log_options)"
| "foreign _ = True"

fun clears_logs :: "editor_call \<Rightarrow> bool" where
  "clears_logs (ClearSession now) = True"
| "clears_logs ClearLogs = True"
| "clears_logs _ = False"

fun adds_log :: "editor_call \<Rightarrow> bool" where
  "adds_log (AppendLog now i l t d ops) = True"
| "adds_log _ = False"

lemma run_frame_step:
  "foreign c \<Longrightarrow> \<not> clears_logs c \<Longrightarrow> \<not> adds_log c \<Longrightarrow> run_part (editor_step env e c) = run_part e"
  by (cases c) (simp_all add: run_frame saveEditorViewState_def setWorkbenchSessionState_def
    createDocumentTab_def openDocumentTab_def openImageDocument_def openAiDiffDocument_def
    openGitDiffDocument_def applyDocumentPayload_def updateDocumentContent_def
    updateActiveDocumentContent_def updateDocumentEncoding_def updateActiveDocumentEncoding_def
    closeDocument_def setEnvironment_def setCursorPosition_def setActiveSelectionSummary_def
    setWorkspaceRootPath_def setProtectedWorkspaceRootPaths_def setDocumentAnalysis_def
    clearDocumentAnalysis_def Let_def split: option.split)

lemma run_part_cleared:
  "run_part (clearLogs e) = (ed_pendingTerminalRunId e, ed_activeRunSummary e, ed_isRunning e, None, [],
     setTerminalOutputChunks [] (ed_output e))"
  "run_part (clearWorkspaceSession now e) = (None, None, False, None, [],
     setTerminalOutputChunks [] (ed_output e))"
proof -
  have out: "ed_output (on_session f e) = ed_output e" for f e by (simp add: on_session_def)
  have docs: "ed_output (clearDocuments now e) = ed_output e"
    using run_frame_tabs(4) [of now e] by (simp add: run_part_def)
  show "run_part (clearLogs e) = (ed_pendingTerminalRunId e, ed_activeRunSummary e, ed_isRunning e, None, [],
     setTerminalOutputChunks [] (ed_output e))"
    by (simp add: run_part_def clearLogs_def)
  show "run_part (clearWorkspaceSession now e) = (None, None, False, None, [],
     setTerminalOutputChunks [] (ed_output e))"
    by (simp add: clearWorkspaceSession_def Let_def run_frame(2))
      (simp add: run_part_def clearLogs_def out docs)
qed

section \<open>The invariant\<close>

text \<open>The pending id and the summary in the store are those of the run the composable knows.\<close>

definition active_id :: "terminal_run \<Rightarrow> ustr option" where
  "active_id s = map_option met_runId (ut_meta s)"

definition linked :: "terminal_run \<Rightarrow> bool" where
  "linked s \<longleftrightarrow>
     (\<forall>r. ed_pendingTerminalRunId (ut_editor s) = Some r \<longrightarrow> active_id s = Some r) \<and>
     (\<forall>x. ed_activeRunSummary (ut_editor s) = Some x \<longrightarrow> active_id s = Some (sm_runId x))"

text \<open>Identifiers as \<open>createTerminalRunId\<close> makes them, not used by a run that has ended.\<close>

definition fresh_id :: "ustr \<Rightarrow> editor \<Rightarrow> bool" where
  "fresh_id r e \<longleftrightarrow> r \<noteq> [] \<and> trim r = r \<and> \<not> hasFinalizedTerminalRun (Some r) e"

definition unfinished :: "terminal_run \<Rightarrow> bool" where
  "unfinished s \<longleftrightarrow> (\<forall>r. active_id s = Some r \<longrightarrow> fresh_id r (ut_editor s))"

text \<open>A run that is active is watched.\<close>

definition watched :: "terminal_run \<Rightarrow> bool" where
  "watched s \<longleftrightarrow> (\<forall>r. \<not> ut_disposed s \<and> active_id s = Some r \<longrightarrow> ut_fallback s = Some r)"

text \<open>The run button is off only while a call is still starting its run or a run is active.\<close>

fun starting :: "stage \<Rightarrow> bool" where
  "starting AwaitRegistration = True"
| "starting (ListenersSettled r) = True"
| "starting (AwaitBridge d) = True"
| "starting (AwaitView d) = True"
| "starting _ = False"

definition owned :: "terminal_run \<Rightarrow> bool" where
  "owned s \<longleftrightarrow> (ed_isRunning (ut_editor s) \<and> \<not> ut_disposed s \<longrightarrow>
     active_id s \<noteq> None \<or> list_ex (\<lambda>(i, g). starting g) (ut_calls s))"

text \<open>A call that waits for the listeners waits for a registration that is under way.\<close>

definition joined :: "terminal_run \<Rightarrow> bool" where
  "joined s \<longleftrightarrow> (list_ex (\<lambda>(i, g). g = AwaitRegistration) (ut_calls s) \<longrightarrow> ut_registration s \<noteq> None)"

definition finals :: "ustr \<Rightarrow> run_log list \<Rightarrow> run_log list" where
  "finals r = filter (\<lambda>x. lg_runId x = Some r \<and> isTerminalRunFinalLog x)"

definition ends_once :: "terminal_run \<Rightarrow> bool" where
  "ends_once s \<longleftrightarrow> (\<forall>r. length (finals r (ed_runLogs (ut_editor s))) \<le> 1)"

text \<open>The requests under way carry ids as \<open>createTerminalRunId\<close> makes them.\<close>

fun named_stage :: "stage \<Rightarrow> bool" where
  "named_stage (AwaitDispatch d q) = (dq_runId q \<noteq> [] \<and> trim (dq_runId q) = dq_runId q)"
| "named_stage (AwaitRebridge d q) = (dq_runId q \<noteq> [] \<and> trim (dq_runId q) = dq_runId q)"
| "named_stage (AwaitReview d q) = (dq_runId q \<noteq> [] \<and> trim (dq_runId q) = dq_runId q)"
| "named_stage (AwaitRedispatch d q) = (dq_runId q \<noteq> [] \<and> trim (dq_runId q) = dq_runId q)"
| "named_stage g = True"

definition calls_ok :: "(nat, stage) jsmap \<Rightarrow> bool" where
  "calls_ok cs \<longleftrightarrow> jm_wf cs \<and> list_all (\<lambda>(i, g). named_stage g) cs"

definition run_ok :: "terminal_run \<Rightarrow> bool" where
  "run_ok s \<longleftrightarrow> linked s \<and> unfinished s \<and> watched s \<and> owned s \<and> joined s \<and> ends_once s \<and> calls_ok (ut_calls s)"

text \<open>Events as the program makes them.\<close>

fun event_ok :: "terminal_run \<Rightarrow> terminal_run_event \<Rightarrow> bool" where
  "event_ok s (BridgeSettled t i r) = fresh_id (tk_id t 0) (ut_editor s)"
| "event_ok s (ViewSettled t i r) = fresh_id (tk_id t 0) (ut_editor s)"
| "event_ok s (StoreCall c) = foreign c"
| "event_ok s (RunChunk p) = low_paired (rk_data p)"
| "event_ok s (OutputCall p) = low_paired (rk_data p)"
| "event_ok s _ = True"

section \<open>Log entries of a run\<close>

lemma kind_of_entry:
  "lg_title x = TERMINAL_RUN_LOG_TITLES k \<Longrightarrow> lg_code x = Some (TERMINAL_RUN_LOG_CODES k) \<Longrightarrow>
   k \<noteq> KindOther \<Longrightarrow> isTerminalRunFinalLog x = (k \<in> set final_kinds)"
  by (cases k) (simp_all add: log_tests final_kinds_def lit_def)

definition run_entry :: "tick \<Rightarrow> nat \<Rightarrow> log_level \<Rightarrow> run_log_kind \<Rightarrow> ustr \<Rightarrow> ustr \<Rightarrow> run_log" where
  "run_entry t n level k detail r = \<lparr>lg_id = tk_id t n, lg_level = level, lg_title = TERMINAL_RUN_LOG_TITLES k,
     lg_detail = formatFileSystemTextForDisplay detail, lg_createdAt = tk_now t n,
     lg_scope = Some ScopeRun, lg_runId = Some r, lg_code = Some (TERMINAL_RUN_LOG_CODES k)\<rparr>"

lemma run_entry_final: "k \<noteq> KindOther \<Longrightarrow> isTerminalRunFinalLog (run_entry t n level k detail r) = (k \<in> set final_kinds)"
  by (rule kind_of_entry) (simp_all add: run_entry_def)

lemma take_sub: "length (filter P (take n xs)) \<le> length (filter P xs)"
  by (metis append_take_drop_id filter_append length_append le_add1)

lemma list_ex_take: "list_ex P (take n xs) \<Longrightarrow> list_ex P xs"
  by (auto simp: list_ex_iff dest: in_set_takeD)

lemma finals_add:
  assumes "\<And>r. length (finals r xs) \<le> 1"
    and "\<And>r. lg_runId x = Some r \<Longrightarrow> isTerminalRunFinalLog x \<Longrightarrow> finals r xs = []"
  shows "length (finals r (take n (x # xs))) \<le> 1"
proof -
  have "length (finals r (x # xs)) \<le> 1" using assms(1) [of r] assms(2) [of r] by (auto simp: finals_def)
  then show ?thesis using take_sub [of "\<lambda>x. lg_runId x = Some r \<and> isTerminalRunFinalLog x" n "x # xs"]
    unfolding finals_def by (rule le_trans [rotated])
qed

lemma no_finals: "\<not> hasFinalizedTerminalRun (Some r) e \<Longrightarrow> r \<noteq> [] \<Longrightarrow> finals r (ed_runLogs e) = []"
  by (auto simp: hasFinalizedTerminalRun_def finals_def filter_empty_conv list_ex_iff)

section \<open>Calls that wait\<close>

abbreviation some_call :: "(stage \<Rightarrow> bool) \<Rightarrow> (nat, stage) jsmap \<Rightarrow> bool" where
  "some_call P cs \<equiv> list_ex (\<lambda>(i, g). P g) cs"

lemma some_call_delete: "some_call P (jm_delete cs i) \<Longrightarrow> some_call P cs"
  by (auto simp: list_ex_iff jm_delete_def AList.delete_eq)

lemma some_call_set: "P g \<Longrightarrow> some_call P (jm_set cs i g)"
  by (induction cs) (auto simp: jm_set_def)

lemma some_call_set_other: "some_call P (jm_set cs i g) \<Longrightarrow> \<not> P g \<Longrightarrow> some_call P cs"
  by (induction cs) (auto simp: jm_set_def split: if_splits)

lemma some_call_set_keep:
  "some_call P cs \<Longrightarrow> jm_get cs i = Some g0 \<Longrightarrow> \<not> P g0 \<Longrightarrow> some_call P (jm_set cs i g)"
  by (induction cs) (auto simp: jm_set_def jm_get_def split: if_splits)

lemma some_call_delete_keep:
  "jm_wf cs \<Longrightarrow> some_call P cs \<Longrightarrow> jm_get cs i = Some g0 \<Longrightarrow> \<not> P g0 \<Longrightarrow> some_call P (jm_delete cs i)"
  by (auto simp: list_ex_iff jm_delete_def AList.delete_eq jm_get_def jm_wf_def dest!: map_of_SomeD)
    (metis eq_key_imp_eq_value)

lemma some_call_map: "some_call P (map (\<lambda>(i, g). (i, f g)) cs) = some_call (\<lambda>g. P (f g)) cs"
  by (induction cs) auto

lemma some_call_False: "\<not> some_call (\<lambda>g. False) cs"
  by (induction cs) auto

lemma calls_map_wf [simp]: "jm_wf (map (\<lambda>(i, g). (i, f g)) cs) = jm_wf cs"
  by (simp add: jm_wf_def comp_def case_prod_unfold)

lemma calls_ok_set [simp]: "calls_ok cs \<Longrightarrow> named_stage g \<Longrightarrow> calls_ok (jm_set cs i g)"
  by (simp add: calls_ok_def) (induction cs; auto simp: jm_set_def jm_wf_def)

lemma calls_ok_delete [simp]: "calls_ok cs \<Longrightarrow> calls_ok (jm_delete cs i)"
  by (auto simp: calls_ok_def list_all_iff jm_delete_def AList.delete_eq jm_wf_def
      intro: distinct_map_filter)

lemma calls_ok_get: "calls_ok cs \<Longrightarrow> jm_get cs i = Some g \<Longrightarrow> named_stage g"
  by (auto simp: calls_ok_def list_all_iff jm_get_def dest!: map_of_SomeD)

lemma calls_ok_map: "(\<And>g. named_stage (f g) = named_stage g) \<Longrightarrow> calls_ok (map (\<lambda>(i, g). (i, f g)) cs) = calls_ok cs"
  by (simp add: calls_ok_def) (auto simp: list_all_iff)

lemma named_wake [simp]: "named_stage (wake r g) = named_stage g"
  by (cases g) (simp_all add: wake_def)

lemma named_refresh [simp]: "named_stage (refresh e g) = named_stage g"
  by (cases g) simp_all

lemma starting_wake [simp]: "starting (wake r g) = starting g"
  by (simp add: wake_def)

lemma starting_refresh [simp]: "starting (refresh e g) = starting g"
  by (cases g) simp_all

lemma waiting_wake [simp]: "wake r g \<noteq> AwaitRegistration"
  by (simp add: wake_def)

lemma waiting_refresh [simp]: "refresh e g = AwaitRegistration \<longleftrightarrow> g = AwaitRegistration"
  by (cases g) simp_all

section \<open>The operations keep the invariant\<close>

lemmas run_parts_defs = linked_def unfinished_def watched_def owned_def joined_def ends_once_def active_id_def
  fresh_id_def

text \<open>What holds while an operation is under way, of the run and of the waiting calls.\<close>

definition calm :: "terminal_run \<Rightarrow> bool" where
  "calm s \<longleftrightarrow> linked s \<and> unfinished s \<and> joined s \<and> ends_once s \<and> calls_ok (ut_calls s)"

lemma run_ok_calm: "run_ok s \<Longrightarrow> calm s"
  by (simp add: run_ok_def calm_def)

lemma calm_run_ok: "calm s \<Longrightarrow> watched s \<Longrightarrow> owned s \<Longrightarrow> run_ok s"
  by (simp add: run_ok_def calm_def)

lemma calm_end_call: "calm s \<Longrightarrow> calm (end_call i s)"
  by (auto simp: calm_def run_parts_defs end_call_def dest: some_call_delete)

lemma calm_put_call: "calm s \<Longrightarrow> g \<noteq> AwaitRegistration \<Longrightarrow> named_stage g \<Longrightarrow> calm (put_call i g s)"
  by (auto simp: calm_def run_parts_defs put_call_def dest: some_call_set_other)

lemma current_id: "linked s \<Longrightarrow> getCurrentTerminalRunId s = active_id s"
  by (cases "ut_meta s")
    (auto simp: linked_def active_id_def getCurrentTerminalRunId_def nullish_def split: option.splits)

lemma resolved_id:
  "linked s \<Longrightarrow> resolveTerminalRunId rid s =
     (if trim rid = [] then active_id s else if active_id s = Some (trim rid) then Some (trim rid) else None)"
  using current_id [of s] by (auto simp: resolveTerminalRunId_def Let_def linked_def active_id_def)

lemma not_finalized: "linked s \<Longrightarrow> unfinished s \<Longrightarrow> \<not> hasFinalizedTerminalRun (getCurrentTerminalRunId s) (ut_editor s)"
  by (cases "active_id s") (auto simp: current_id unfinished_def fresh_id_def hasFinalizedTerminalRun_def)

lemma idle_run_ok:
  assumes "ut_meta s = None" and "ed_pendingTerminalRunId (ut_editor s) = None"
    and "ed_activeRunSummary (ut_editor s) = None" and "\<not> ed_isRunning (ut_editor s)"
    and "ends_once s" "joined s" "calls_ok (ut_calls s)"
  shows "run_ok s"
  using assms by (simp add: run_ok_def linked_def unfinished_def watched_def owned_def active_id_def)

lemma cleared_ok: "calm s \<Longrightarrow> run_ok (clearActiveTerminalRunState s)"
  by (rule idle_run_ok) (simp_all add: calm_def clearActiveTerminalRunState_def on_editor_def
    setActiveRunSummary_def setPendingTerminalRunId_def ends_once_def joined_def)

text \<open>A failure ends the run, whatever the run was.\<close>

lemma fail_effect:
  assumes f: "f = failTerminalRun env t title err fallback code w s" and "calm s"
  shows "run_ok f"
    and "ut_meta f = None" and "\<not> ed_isRunning (ut_editor f)" and "ut_fallback f = None"
    and "ed_runLogs (ut_editor f) = take MAX_RUN_LOG_ENTRIES
      (\<lparr>lg_id = tk_id t 0, lg_level = LogError, lg_title = title,
        lg_detail = formatFileSystemTextForDisplay
          (case err of JsText m \<Rightarrow> m | _ \<Rightarrow> toErrorMessage (rv_num env) err fallback),
        lg_createdAt = tk_now t 0, lg_scope = Some ScopeRun, lg_runId = active_id s,
        lg_code = Some code\<rparr> # ed_runLogs (ut_editor s))"
proof -
  have lu: "linked s" "unfinished s" using assms(2) by (simp_all add: calm_def)
  note open_run = not_finalized [OF lu]
  show meta: "ut_meta f = None" and running: "\<not> ed_isRunning (ut_editor f)" and "ut_fallback f = None"
    using open_run by (simp_all add: f failTerminalRun_def Let_def notify_def appendRunLifecycleLog_def on_editor_def
        clearActiveTerminalRunState_def clearTerminalRunFallbackTimer_def appendLog_def
        editor_output_def)
  show logs: "ed_runLogs (ut_editor f) = take MAX_RUN_LOG_ENTRIES
      (\<lparr>lg_id = tk_id t 0, lg_level = LogError, lg_title = title,
        lg_detail = formatFileSystemTextForDisplay
          (case err of JsText m \<Rightarrow> m | _ \<Rightarrow> toErrorMessage (rv_num env) err fallback),
        lg_createdAt = tk_now t 0, lg_scope = Some ScopeRun, lg_runId = active_id s,
        lg_code = Some code\<rparr> # ed_runLogs (ut_editor s))"
    using open_run unfolding current_id [OF lu(1)]
    by (simp add: f failTerminalRun_def Let_def current_id [OF lu(1)] notify_def appendRunLifecycleLog_def
        on_editor_def clearActiveTerminalRunState_def clearTerminalRunFallbackTimer_def appendLog_def
        editor_output_def resetBufferedTerminalOutput_def clearBufferedTerminalOutputTimer_def
        setActiveRunSummary_def setPendingTerminalRunId_def)
  have "finals r (ed_runLogs (ut_editor s)) = []" if "active_id s = Some r" for r
    using lu(2) that by (simp add: unfinished_def fresh_id_def no_finals)
  then have "ends_once f"
    using assms(2) unfolding ends_once_def logs calm_def by (intro allI finals_add) simp_all
  moreover have "ut_calls f = ut_calls s" "ut_registration f = ut_registration s"
      "ed_pendingTerminalRunId (ut_editor f) = None" "ed_activeRunSummary (ut_editor f) = None"
    using open_run by (simp_all add: f failTerminalRun_def Let_def notify_def appendRunLifecycleLog_def on_editor_def
        clearActiveTerminalRunState_def clearTerminalRunFallbackTimer_def appendLog_def
        editor_output_def resetBufferedTerminalOutput_def clearBufferedTerminalOutputTimer_def
        setActiveRunSummary_def setPendingTerminalRunId_def)
  ultimately show "run_ok f"
    using assms(2) meta running by (intro idle_run_ok) (simp_all add: calm_def joined_def)
qed

lemma run_ok_fields [simp]:
  "run_ok (s\<lparr>ut_buffer := b\<rparr>) = run_ok s" "run_ok (s\<lparr>ut_bufferTimer := x\<rparr>) = run_ok s"
  "run_ok (s\<lparr>ut_ensured := x\<rparr>) = run_ok s" "run_ok (s\<lparr>ut_subscribed := x\<rparr>) = run_ok s"
  "run_ok (s\<lparr>ut_listening := x\<rparr>) = run_ok s" "run_ok (s\<lparr>ut_version := n\<rparr>) = run_ok s"
  "run_ok (s\<lparr>ut_next := n\<rparr>) = run_ok s" "run_ok (s\<lparr>ut_notices := ns\<rparr>) = run_ok s"
  by (simp_all add: run_ok_def run_parts_defs)

lemma calm_fields [simp]:
  "calm (s\<lparr>ut_buffer := b\<rparr>) = calm s" "calm (s\<lparr>ut_bufferTimer := x\<rparr>) = calm s"
  "calm (s\<lparr>ut_ensured := x\<rparr>) = calm s" "calm (s\<lparr>ut_fallback := y\<rparr>) = calm s"
  "calm (s\<lparr>ut_disposed := x\<rparr>) = calm s"
  by (simp_all add: calm_def run_parts_defs)

lemma output_ok [simp]: "run_ok (on_editor (editor_output c) s) = run_ok s"
  "calm (on_editor (editor_output c) s) = calm s"
  by (simp_all add: run_ok_def calm_def run_parts_defs on_editor_def editor_output_def hasFinalizedTerminalRun_def)

lemma flush_ok: "run_ok (flushBufferedTerminalOutput s) = run_ok s" "calm (flushBufferedTerminalOutput s) = calm s"
  by (simp_all add: flushBufferedTerminalOutput_def Let_def clearBufferedTerminalOutputTimer_def)

lemma chunk_ok:
  "run_ok (appendTerminalOutput p s) = run_ok s"
  "run_ok (appendStructuredTerminalOutput p s) = run_ok s"
proof -
  show plain: "run_ok (appendTerminalOutput p s) = run_ok s"
    by (simp add: appendTerminalOutput_def run_ok_def run_parts_defs)
  show "run_ok (appendStructuredTerminalOutput p s) = run_ok s"
    by (simp add: appendStructuredTerminalOutput_def plain)
qed

text \<open>A completion that is the run's ends it, with a result and one entry in the log.\<close>

definition run_end :: "run_env \<Rightarrow> run_completed \<Rightarrow> terminal_run \<Rightarrow> run_result" where
  "run_end env p s = buildTerminalRunResult (rv_time env)
     (getTerminalOutputSnapshot (ed_output (ut_editor (flushBufferedTerminalOutput s)))) (rx_exitCode p)
     (rx_finishedAt p) DEFAULT_EXECUTOR (ut_meta s) (ed_activeRunSummary (ut_editor s))"

lemma flush_parts [simp]:
  "ut_meta (flushBufferedTerminalOutput s) = ut_meta s" "ut_calls (flushBufferedTerminalOutput s) = ut_calls s"
  "ut_registration (flushBufferedTerminalOutput s) = ut_registration s"
  "ut_fallback (flushBufferedTerminalOutput s) = ut_fallback s"
  "ut_disposed (flushBufferedTerminalOutput s) = ut_disposed s"
  "ed_runLogs (ut_editor (flushBufferedTerminalOutput s)) = ed_runLogs (ut_editor s)"
  "ed_output (ut_editor (flushBufferedTerminalOutput (s\<lparr>ut_fallback := y\<rparr>))) =
     ed_output (ut_editor (flushBufferedTerminalOutput s))"
  by (simp_all add: flushBufferedTerminalOutput_def clearBufferedTerminalOutputTimer_def Let_def on_editor_def
      editor_output_def)

lemma finalize_effect:
  assumes f: "f = finalizeTerminalRun env t p s" and "calm s"
    and "resolveTerminalRunId (rx_runId p) s = Some r" and "\<not> ut_disposed s"
    and "isIntegratedTerminalSession (rx_sessionId p)"
  shows "run_ok f" and "ut_meta f = None" and "\<not> ed_isRunning (ut_editor f)" and "ut_fallback f = None"
    and "ed_lastRunResult (ut_editor f) = Some (run_end env p s)"
    and "ed_runLogs (ut_editor f) = take MAX_RUN_LOG_ENTRIES
      (\<lparr>lg_id = tk_id t 1, lg_level = (if rx_exitCode p = Some 0 then LogSuccess else LogError),
        lg_title = TERMINAL_RUN_LOG_TITLES (if rx_exitCode p = Some 0 then KindCompleted else KindFailed),
        lg_detail = formatFileSystemTextForDisplay (buildTerminalRunCompletionDetail (run_end env p s)),
        lg_createdAt = tk_now t 1, lg_scope = Some ScopeRun, lg_runId = Some r,
        lg_code = Some (TERMINAL_RUN_LOG_CODES (if rx_exitCode p = Some 0 then KindCompleted else KindFailed))\<rparr>
       # ed_runLogs (ut_editor s))"
proof -
  have lu: "linked s" "unfinished s" using assms(2) by (simp_all add: calm_def)
  have act: "active_id s = Some r"
    using assms(3) by (simp add: resolved_id [OF lu(1)] split: if_splits)
  then obtain m where m: "ut_meta s = Some m" "met_runId m = r" by (auto simp: active_id_def)
  have open_run: "\<not> hasFinalizedTerminalRun (Some r) (ut_editor s)" and ne: "r \<noteq> []"
    using lu(2) act by (simp_all add: unfinished_def fresh_id_def)
  note unfold_all = finalizeTerminalRun_def Let_def notify_def appendRunLifecycleLog_def on_editor_def
    clearActiveTerminalRunState_def clearTerminalRunFallbackTimer_def appendLog_def appendRunHistory_def
    setActiveRunSummary_def setPendingTerminalRunId_def run_end_def buildTerminalRunResult_def
  show meta: "ut_meta f = None" and running: "\<not> ed_isRunning (ut_editor f)" and "ut_fallback f = None"
    using open_run ne assms(3-5) by (simp_all add: f unfold_all)
  show "ed_lastRunResult (ut_editor f) = Some (run_end env p s)"
    using open_run ne assms(3-5) by (simp add: f unfold_all)
  show logs: "ed_runLogs (ut_editor f) = take MAX_RUN_LOG_ENTRIES
      (\<lparr>lg_id = tk_id t 1, lg_level = (if rx_exitCode p = Some 0 then LogSuccess else LogError),
        lg_title = TERMINAL_RUN_LOG_TITLES (if rx_exitCode p = Some 0 then KindCompleted else KindFailed),
        lg_detail = formatFileSystemTextForDisplay (buildTerminalRunCompletionDetail (run_end env p s)),
        lg_createdAt = tk_now t 1, lg_scope = Some ScopeRun, lg_runId = Some r,
        lg_code = Some (TERMINAL_RUN_LOG_CODES (if rx_exitCode p = Some 0 then KindCompleted else KindFailed))\<rparr>
       # ed_runLogs (ut_editor s))"
    using open_run ne assms(3-5) m by (simp add: f unfold_all nullish_def)
  have "ends_once f"
    using assms(2) no_finals [OF open_run ne] unfolding ends_once_def logs calm_def
    by (intro allI finals_add) simp_all
  moreover have "ut_calls f = ut_calls s" "ut_registration f = ut_registration s"
      "ed_pendingTerminalRunId (ut_editor f) = None" "ed_activeRunSummary (ut_editor f) = None"
    using open_run ne assms(3-5) by (simp_all add: f unfold_all)
  ultimately show "run_ok f"
    using assms(2) meta running by (intro idle_run_ok) (simp_all add: calm_def joined_def)
qed

lemma finalize_other:
  assumes "resolveTerminalRunId (rx_runId p) s = None \<or> ut_disposed s \<or>
    \<not> isIntegratedTerminalSession (rx_sessionId p)"
  shows "finalizeTerminalRun env t p s = s"
  using assms by (auto simp: finalizeTerminalRun_def split: option.split)

lemma finalize_ok: "run_ok s \<Longrightarrow> run_ok (finalizeTerminalRun env t p s)"
  using finalize_other [of p s env t] finalize_effect(1) [OF refl run_ok_calm, of s p _ env t]
  by (cases "resolveTerminalRunId (rx_runId p) s") metis+

lemma exit_ok: "run_ok s \<Longrightarrow> run_ok (handleIntegratedTerminalExit env t sid code s)"
  by (auto simp: handleIntegratedTerminalExit_def Let_def intro!: finalize_ok split: option.split)

lemma watchdog_ok:
  assumes "run_ok s"
  shows "run_ok (completion_timeout env t s)"
proof (cases "ut_fallback s")
  case (Some r)
  let ?s1 = "s\<lparr>ut_fallback := None\<rparr>"
  have calm: "calm ?s1" using run_ok_calm [OF assms] by simp
  have s1: "linked ?s1" "unfinished ?s1" "active_id ?s1 = active_id s" "owned ?s1"
    using assms by (simp_all add: run_ok_def run_parts_defs)
  show ?thesis
  proof (cases "ut_disposed s \<or> \<not> isCurrentTerminalRun r ?s1")
    case True
    have "watched ?s1"
    proof (cases "ut_disposed s")
      case False
      then have "active_id s \<noteq> Some r"
        using True s1(2) by (auto simp: isCurrentTerminalRun_def resolved_id [OF s1(1)] s1(3)
            unfinished_def fresh_id_def)
      then have "active_id s = None"
        using assms False Some by (cases "active_id s") (auto simp: run_ok_def watched_def)
      then show ?thesis by (simp add: watched_def active_id_def)
    qed (simp add: watched_def)
    moreover have "completion_timeout env t s = ?s1"
      using True Some by (auto simp: completion_timeout_def Let_def)
    ultimately show ?thesis using calm_run_ok [OF calm _ s1(4)] by simp
  next
    case False
    then show ?thesis using Some fail_effect(1) [OF refl calm] by (auto simp: completion_timeout_def Let_def)
  qed
qed (simp add: completion_timeout_def assms)

lemma failed_ok: "run_ok s \<Longrightarrow> run_ok (runScript_failed env t i err s)"
  unfolding runScript_failed_def by (rule fail_effect(1) [OF refl]) (rule calm_end_call [OF run_ok_calm])

lemma end_call_ok:
  "run_ok s \<Longrightarrow> jm_get (ut_calls s) i = Some g \<Longrightarrow> \<not> starting g \<Longrightarrow> run_ok (end_call i s)"
  using calm_end_call [of s i]
  by (auto intro!: calm_run_ok simp: run_ok_calm)
    (auto simp: run_ok_def watched_def owned_def end_call_def active_id_def calls_ok_def
      intro: some_call_delete_keep)

lemma dispatch_failed_ok:
  "run_ok s \<Longrightarrow> jm_get (ut_calls s) i = Some g \<Longrightarrow> \<not> starting g \<Longrightarrow>
   run_ok (script_dispatch_failed env t i r err s)"
  by (auto simp: script_dispatch_failed_def failed_ok end_call_ok)

lemma put_call_ok:
  assumes "run_ok s" and "jm_get (ut_calls s) i = Some g0" and "g \<noteq> AwaitRegistration"
    and "starting g0 \<Longrightarrow> starting g" and "named_stage g"
  shows "run_ok (put_call i g s)"
proof (rule calm_run_ok)
  show "calm (put_call i g s)" using calm_put_call [OF run_ok_calm [OF assms(1)] assms(3,5)] .
  show "watched (put_call i g s)" using assms(1) by (simp add: run_ok_def watched_def put_call_def active_id_def)
  have "some_call starting (jm_set (ut_calls s) i g)" if "some_call starting (ut_calls s)"
    using that assms(2,4) some_call_set_keep some_call_set by (cases "starting g0") blast+
  then show "owned (put_call i g s)"
    using assms(1) by (auto simp: run_ok_def owned_def put_call_def active_id_def)
qed

lemma prime_effect:
  assumes f: "f = primeTerminalRun t d s" and "calm s" and "fresh_id (tk_id t 0) (ut_editor s)"
  shows "run_ok f" and "active_id f = Some (tk_id t 0)" and "ut_calls f = ut_calls s"
    and "ut_fallback f = Some (tk_id t 0)" and "ut_buffer f = []"
    and "ed_output (ut_editor f) = output_step (ed_output (ut_editor s)) (SetOutput [])"
proof -
  note unfold_all = primeTerminalRun_def Let_def on_editor_def appendRunLifecycleLog_def appendLog_def
    scheduleTerminalRunCompletionTimeout_def clearTerminalRunFallbackTimer_def resetBufferedTerminalOutput_def
    clearBufferedTerminalOutputTimer_def setActiveRunSummary_def setPendingTerminalRunId_def editor_output_def
    createActiveTerminalRunMeta_def
  show act: "active_id f = Some (tk_id t 0)" and calls: "ut_calls f = ut_calls s"
    and fallback: "ut_fallback f = Some (tk_id t 0)" and "ut_buffer f = []"
    and "ed_output (ut_editor f) = output_step (ed_output (ut_editor s)) (SetOutput [])"
    by (simp_all add: f unfold_all active_id_def)
  obtain x where logs: "ed_runLogs (ut_editor f) = take MAX_RUN_LOG_ENTRIES (x # ed_runLogs (ut_editor s))"
    and x: "lg_title x = TERMINAL_RUN_LOG_TITLES KindStart"
      "lg_code x = Some (TERMINAL_RUN_LOG_CODES KindStart)"
    by (simp add: f unfold_all)
  have start: "\<not> isTerminalRunFinalLog x"
    using kind_of_entry [OF x] by (simp add: final_kinds_def)
  have last: "ed_lastRunResult (ut_editor f) = None" by (simp add: f unfold_all)
  have "linked f"
    by (simp add: f unfold_all linked_def active_id_def buildPendingTerminalRunSummary_def buildRunSummary_def)
  moreover have "unfinished f"
    using assms(3) start
    by (auto simp: unfinished_def fresh_id_def hasFinalizedTerminalRun_def logs act last dest!: list_ex_take)
  moreover have "ends_once f"
    using assms(2) start unfolding ends_once_def logs calm_def by (intro allI finals_add) simp_all
  moreover have "joined f" using assms(2) by (simp add: f unfold_all calm_def joined_def)
  ultimately have "calm f" using assms(2) calls by (simp add: calm_def)
  then show "run_ok f"
    by (rule calm_run_ok) (simp_all add: watched_def owned_def act fallback)
qed

lemma put_call_active:
  "run_ok s \<Longrightarrow> active_id s \<noteq> None \<Longrightarrow> g \<noteq> AwaitRegistration \<Longrightarrow> named_stage g \<Longrightarrow> run_ok (put_call i g s)"
  by (rule calm_run_ok, rule calm_put_call [OF run_ok_calm])
    (simp_all add: run_ok_def watched_def owned_def put_call_def active_id_def)

lemma start_dispatch_ok:
  "run_ok s \<Longrightarrow> fresh_id (tk_id t 0) (ut_editor s) \<Longrightarrow> run_ok (start_dispatch t i d s)"
  unfolding start_dispatch_def Let_def
  using prime_effect [OF refl run_ok_calm, of s t d]
  by (intro put_call_active) (simp_all add: buildTerminalDispatchRequest_def fresh_id_def)

lemma current_named: "run_ok s \<Longrightarrow> trim r = r \<Longrightarrow> r \<noteq> [] \<Longrightarrow> isCurrentTerminalRun r s = (active_id s = Some r)"
  by (simp add: isCurrentTerminalRun_def run_ok_def resolved_id)

lemma dispatched_ok:
  assumes "run_ok s" and "jm_get (ut_calls s) i = Some g" and "\<not> starting g" and "trim r = r" "r \<noteq> []"
  shows "run_ok (script_dispatched t i d r y s)"
proof -
  let ?s0 = "end_call i s"
  have ok: "run_ok ?s0" by (rule end_call_ok [OF assms(1-3)])
  show ?thesis
  proof (cases "ut_disposed ?s0 \<or> \<not> isCurrentTerminalRun r ?s0")
    case False
    then have act: "active_id ?s0 = Some r" using current_named [OF ok assms(4,5)] by simp
    define f where "f = script_dispatched t i d r y s"
    note unfold_all = f_def script_dispatched_def Let_def notify_def on_editor_def appendRunLifecycleLog_def
      appendLog_def setActiveRunSummary_def createActiveTerminalRunMeta_def
    have act': "active_id f = Some r"
      using False by (simp add: unfold_all active_id_def)
    have same: "ut_calls f = ut_calls ?s0" "ut_registration f = ut_registration ?s0"
        "ut_fallback f = ut_fallback ?s0" "ut_disposed f = ut_disposed ?s0"
        "ed_lastRunResult (ut_editor f) = ed_lastRunResult (ut_editor ?s0)"
        "ed_pendingTerminalRunId (ut_editor f) = ed_pendingTerminalRunId (ut_editor ?s0)"
      using False by (simp_all add: unfold_all)
    have summary: "map_option sm_runId (ed_activeRunSummary (ut_editor f)) = Some r"
      using False by (simp add: unfold_all buildDispatchedTerminalRunSummary_def buildRunSummary_def)
    let ?text = "[24403, 21069, 20869, 23481, 24050, 20889, 20837, 20020, 26102, 32, 115, 104, 101, 108, 108, 32, 33050, 26412, 25991, 20214, 21518, 25191, 34892, 12290]"
    define x where "x = run_entry t 0 LogSuccess KindDispatched (dy_commandLine y) r"
    define x' where "x' = run_entry t 1 LogInfo KindTempFile ?text r"
    have logs: "ed_runLogs (ut_editor f) =
        (if dy_usedTempFile y then take MAX_RUN_LOG_ENTRIES (x' # take MAX_RUN_LOG_ENTRIES (x # ed_runLogs (ut_editor ?s0)))
         else take MAX_RUN_LOG_ENTRIES (x # ed_runLogs (ut_editor ?s0)))"
      using False by (simp add: unfold_all x_def x'_def run_entry_def)
    have rest: "\<not> isTerminalRunFinalLog x" "\<not> isTerminalRunFinalLog x'"
      by (simp_all add: x_def x'_def run_entry_final final_kinds_def)
    have "ends_once f"
      using ok rest unfolding ends_once_def logs run_ok_def
      by (cases "dy_usedTempFile y"; simp only: if_True if_False; intro allI finals_add) simp_all
    moreover have "unfinished f"
      using ok act act' rest same(5)
      by (auto simp: run_ok_def unfinished_def fresh_id_def hasFinalizedTerminalRun_def logs
          split: if_splits dest!: list_ex_take)
    moreover have "linked f"
      using ok act act' same(6) summary by (auto simp: run_ok_def linked_def)
    ultimately have "run_ok f"
      using ok act act' same by (simp add: run_ok_def watched_def owned_def joined_def)
    then show ?thesis by (simp add: f_def)
  qed (simp add: script_dispatched_def Let_def ok)
qed

lemma listeners_ready_ok: "run_ok s \<Longrightarrow> run_ok (listeners_ready env t i s)"
  by (auto simp: listeners_ready_def Let_def failed_ok intro: put_call_ok split: option.splits stage.splits)

lemma bridge_ok:
  assumes "run_ok s" and "fresh_id (tk_id t 0) (ut_editor s)"
  shows "run_ok (bridge_settled env t i r s)"
proof -
  have named: "named_stage g" if "jm_get (ut_calls s) i = Some g" for g
    using assms(1) that calls_ok_get by (auto simp: run_ok_def)
  show ?thesis
    using assms named
    by (auto simp: bridge_settled_def failed_ok start_dispatch_ok intro!: dispatch_failed_ok put_call_ok
        split: option.splits stage.splits)
qed

lemma fresh_frame: "run_part e' = run_part e \<Longrightarrow> fresh_id r e' = fresh_id r e"
  by (simp add: fresh_id_def hasFinalizedTerminalRun_def run_part_def)

lemma view_ok:
  assumes "run_ok s" and "fresh_id (tk_id t 0) (ut_editor s)"
  shows "run_ok (view_settled env t i r s)"
proof -
  have named: "named_stage g" if "jm_get (ut_calls s) i = Some g" for g
    using assms(1) that calls_ok_get by (auto simp: run_ok_def)
  have "run_ok (start_dispatch t i d (s\<lparr>ut_ensured := True\<rparr>))" for d
    using assms by (intro start_dispatch_ok) simp_all
  then show ?thesis
    using assms named
    by (auto simp: view_settled_def failed_ok intro!: dispatch_failed_ok put_call_ok
        split: option.splits stage.splits)
qed

lemma dispatch_settled_ok:
  assumes "run_ok s"
  shows "run_ok (dispatch_settled env t i r s)"
proof -
  have named: "named_stage g" if "jm_get (ut_calls s) i = Some g" for g
    using assms that calls_ok_get by (auto simp: run_ok_def)
  show ?thesis
    using assms named
    by (auto simp: dispatch_settled_def intro!: dispatch_failed_ok dispatched_ok put_call_ok
        split: option.splits stage.splits sum.splits)
qed

lemma registration_settled_ok: "run_ok s \<Longrightarrow> run_ok (registration_settled r s)"
  by (simp add: run_ok_def run_parts_defs registration_settled_def some_call_map calls_ok_map some_call_False)

lemma waited_ok: "run_ok s \<Longrightarrow> run_ok (runtime_waited b s)" "run_ok s \<Longrightarrow> run_ok (bus_started r s)"
proof -
  have "run_ok (s\<lparr>ut_subscribed := True, ut_registration := Some RegStart\<rparr>)" if "run_ok s"
    using that by (simp add: run_ok_def run_parts_defs)
  then show "run_ok s \<Longrightarrow> run_ok (runtime_waited b s)" "run_ok s \<Longrightarrow> run_ok (bus_started r s)"
    by (simp_all add: runtime_waited_def bus_started_def registration_settled_ok
        split: option.split registration.split)
qed

lemma notify_ok [simp]: "run_ok (notify n s) = run_ok s"
  by (simp add: notify_def)

lemma runScript_ok:
  assumes "run_ok s"
  shows "run_ok (runScript env s)"
proof -
  have "run_ok (ensureTerminalRunEventListeners i
      ((on_editor (\<lambda>e. e\<lparr>ed_isRunning := True\<rparr>) s)\<lparr>ut_next := n\<rparr>))" for i n
    using assms
    by (simp add: run_ok_def run_parts_defs ensureTerminalRunEventListeners_def put_call_def on_editor_def
        hasFinalizedTerminalRun_def some_call_set) (auto dest: some_call_set_other)
  then show ?thesis using assms by (simp add: runScript_def Let_def)
qed

lemma dispose_ok: "run_ok s \<Longrightarrow> run_ok (dispose_run s)"
  unfolding dispose_run_def Let_def
  by (rule cleared_ok)
    (simp add: run_ok_calm resetBufferedTerminalOutput_def clearTerminalRunFallbackTimer_def
      clearBufferedTerminalOutputTimer_def clearTerminalRunEventListeners_def calm_def run_ok_def run_parts_defs)

lemma store_call_ok:
  assumes "run_ok s" and "foreign c"
  shows "run_ok (store_call paths c s)"
proof -
  let ?e = "editor_step paths (ut_editor s) c"
  have ok: "run_ok (s\<lparr>ut_editor := ?e\<rparr>)"
  proof (cases "clears_logs c")
    case True
    then show ?thesis using assms(1) run_part_cleared [where e = "ut_editor s"]
      by (cases c) (simp_all add: run_ok_def run_parts_defs run_part_def hasFinalizedTerminalRun_def finals_def)
  next
    case clears: False
    show ?thesis
    proof (cases "adds_log c")
      case True
      then obtain now i l t d where c: "c = AppendLog now i l t d no_log_options"
        using assms(2) by (cases c) auto
      have "finals r (take MAX_RUN_LOG_ENTRIES (x # xs)) = finals r (take (MAX_RUN_LOG_ENTRIES - 1) xs)"
        if "lg_runId x = None" for x xs r
        using that by (simp add: finals_def take_Cons' MAX_RUN_LOG_ENTRIES_def)
      then show ?thesis
        using assms(1)
        by (simp add: c appendLog_def run_ok_def run_parts_defs hasFinalizedTerminalRun_def no_log_options_def)
          (auto simp: finals_def intro: le_trans [OF take_sub] dest: list_ex_take
            simp: MAX_RUN_LOG_ENTRIES_def)
    next
      case False
      from run_frame_step [OF assms(2) clears False] have part: "run_part ?e = run_part (ut_editor s)" .
      then have "hasFinalizedTerminalRun x ?e = hasFinalizedTerminalRun x (ut_editor s)" for x
        by (simp add: hasFinalizedTerminalRun_def run_part_def)
      then show ?thesis using assms(1) part by (simp add: run_ok_def run_parts_defs run_part_def)
    qed
  qed
  then show ?thesis
    by (simp add: store_call_def Let_def run_ok_def run_parts_defs some_call_map calls_ok_map)
qed

lemma terminal_run_step_ok: "run_ok s \<Longrightarrow> event_ok s e \<Longrightarrow> run_ok (terminal_run_step env s e)"
  by (cases e) (simp_all add: runScript_ok waited_ok listeners_ready_ok bridge_ok view_ok dispatch_settled_ok
    chunk_ok flush_ok finalize_ok exit_ok watchdog_ok store_call_ok dispose_ok)

section \<open>Runs\<close>

text \<open>Events the program cannot make are passed over.\<close>

definition allowed_step :: "run_env \<Rightarrow> terminal_run \<Rightarrow> terminal_run_event \<Rightarrow> terminal_run" where
  "allowed_step env s e = (if event_ok s e then terminal_run_step env s e else s)"

lemma start_ok: "run_ok (use_terminal_run (new_editor snap))"
  by (simp add: run_ok_def run_parts_defs use_terminal_run_def new_editor_def finals_def calls_ok_def)

interpretation run: machine "allowed_step env" "use_terminal_run (new_editor snap)" run_ok for env snap
  by unfold_locales (simp_all add: start_ok allowed_step_def terminal_run_step_ok)

section \<open>What a run has printed\<close>

definition hears :: "terminal_run \<Rightarrow> run_output \<Rightarrow> bool" where
  "hears s p \<longleftrightarrow> \<not> ut_disposed s \<and> isIntegratedTerminalSession (rk_sessionId p) \<and>
     isCurrentTerminalRun (rk_runId p) s"

fun starts_run :: "terminal_run \<Rightarrow> terminal_run_event \<Rightarrow> bool" where
  "starts_run s (BridgeSettled t i r) =
     (r = None \<and> ut_ensured s \<and> (case jm_get (ut_calls s) i of Some (AwaitBridge d) \<Rightarrow> True | _ \<Rightarrow> False))"
| "starts_run s (ViewSettled t i r) =
     (r = None \<and> (case jm_get (ut_calls s) i of Some (AwaitView d) \<Rightarrow> True | _ \<Rightarrow> False))"
| "starts_run s e = False"

text \<open>The text the active run has printed since it began, or since the user cleared the output: what
  is heard after an event, from what was heard before.\<close>

definition heard :: "terminal_run \<Rightarrow> terminal_run_event \<Rightarrow> ustr \<Rightarrow> ustr" where
  "heard s e h =
     (case e of
        RunChunk p \<Rightarrow> (if ut_subscribed s \<and> hears s p then h @ rk_data p else h)
      | OutputCall p \<Rightarrow> (if hears s p then h @ rk_data p else h)
      | StoreCall c \<Rightarrow> (if clears_logs c then ut_buffer s else h)
      | _ \<Rightarrow> (if starts_run s e then [] else h))"

definition hearing_step :: "run_env \<Rightarrow> terminal_run \<times> ustr \<Rightarrow> terminal_run_event \<Rightarrow> terminal_run \<times> ustr" where
  "hearing_step env = (\<lambda>(s, h) e. if event_ok s e then (terminal_run_step env s e, heard s e h) else (s, h))"

lemma hearing_apply:
  "hearing_step env (s, h) e = (if event_ok s e then (terminal_run_step env s e, heard s e h) else (s, h))"
  by (simp add: hearing_step_def)

definition shows_text :: "terminal_output \<Rightarrow> ustr \<Rightarrow> bool" where
  "shows_text b w \<longleftrightarrow> output_ok b \<and> low_paired w \<and>
     getTerminalOutputSnapshot b = clampToCodeUnitBoundary w MAX_TERMINAL_OUTPUT_LENGTH"

definition printed_ok :: "terminal_run \<Rightarrow> ustr \<Rightarrow> bool" where
  "printed_ok s h \<longleftrightarrow> low_paired (ut_buffer s) \<and>
     (active_id s \<noteq> None \<and> \<not> ut_disposed s \<longrightarrow> (\<exists>w. shows_text (ed_output (ut_editor s)) w \<and> h = w @ ut_buffer s))"

lemma shows_append: "shows_text b w \<Longrightarrow> low_paired s \<Longrightarrow> shows_text (output_step b (AppendOutput s)) (w @ s)"
  using append_output [of b s] clamp_clamp [of w s]
  by (auto simp: shows_text_def low_paired_append)

lemma shows_clear: "shows_text (output_step b (SetOutput [])) []" "shows_text (setTerminalOutputChunks [] b) []"
  using set_output [of "[]" b] clear_output [of b] by (auto simp: shows_text_def clampToCodeUnitBoundary_def)

lemma text_idle: "low_paired (ut_buffer s) \<Longrightarrow> active_id s = None \<Longrightarrow> printed_ok s h"
  by (simp add: printed_ok_def)

lemma text_same:
  "printed_ok s h \<Longrightarrow> ut_buffer s' = ut_buffer s \<Longrightarrow> ed_output (ut_editor s') = ed_output (ut_editor s) \<Longrightarrow>
   ut_disposed s' = ut_disposed s \<Longrightarrow> (active_id s' \<noteq> None \<Longrightarrow> active_id s \<noteq> None) \<Longrightarrow> printed_ok s' h"
  by (auto simp: printed_ok_def)

lemma fail_buffer: "low_paired (ut_buffer s) \<Longrightarrow> low_paired (ut_buffer (failTerminalRun env t title err fallback code w s))"
  by (simp add: failTerminalRun_def Let_def notify_def appendRunLifecycleLog_def on_editor_def
      clearActiveTerminalRunState_def clearTerminalRunFallbackTimer_def resetBufferedTerminalOutput_def)

lemma fail_text: "calm s \<Longrightarrow> low_paired (ut_buffer s) \<Longrightarrow> printed_ok (failTerminalRun env t title err fallback code w s) h"
  using fail_effect(2) [OF refl, of s env t title err fallback code w] fail_buffer [of s]
  by (intro text_idle) (simp_all add: active_id_def)

lemma failed_text: "run_ok s \<Longrightarrow> printed_ok s h \<Longrightarrow> printed_ok (runScript_failed env t i err s) h'"
  unfolding runScript_failed_def
  by (rule fail_text [OF calm_end_call [OF run_ok_calm]]) (simp_all add: end_call_def printed_ok_def)

lemma end_call_text: "printed_ok s h \<Longrightarrow> printed_ok (end_call i s) h"
  by (erule text_same) (simp_all add: end_call_def active_id_def)

lemma dispatch_failed_text: "run_ok s \<Longrightarrow> printed_ok s h \<Longrightarrow> printed_ok (script_dispatch_failed env t i r err s) h"
  by (simp add: script_dispatch_failed_def failed_text end_call_text)

lemma put_call_text: "printed_ok s h \<Longrightarrow> printed_ok (put_call i g s) h"
  by (erule text_same) (simp_all add: put_call_def active_id_def)

lemma ensured_text: "printed_ok (s\<lparr>ut_ensured := x\<rparr>) h = printed_ok s h"
  by (simp add: printed_ok_def active_id_def)

lemma start_text: "printed_ok (start_dispatch t i d s) []"
proof -
  have parts: "ut_buffer (start_dispatch t i d s) = []"
    "ed_output (ut_editor (start_dispatch t i d s)) = output_step (ed_output (ut_editor s)) (SetOutput [])"
    by (simp_all add: start_dispatch_def put_call_def primeTerminalRun_def Let_def on_editor_def
        appendRunLifecycleLog_def appendLog_def scheduleTerminalRunCompletionTimeout_def
        clearTerminalRunFallbackTimer_def resetBufferedTerminalOutput_def editor_output_def
        clearBufferedTerminalOutputTimer_def setActiveRunSummary_def setPendingTerminalRunId_def)
  show ?thesis using shows_clear(1) [of "ed_output (ut_editor s)"] by (auto simp: printed_ok_def parts)
qed

lemma dispatched_text:
  assumes "run_ok s" and "printed_ok s h" and "trim r = r" "r \<noteq> []"
  shows "printed_ok (script_dispatched t i d r y s) h"
proof (cases "ut_disposed s \<or> \<not> isCurrentTerminalRun r (end_call i s)")
  case True
  then show ?thesis using end_call_text [OF assms(2)] by (auto simp: script_dispatched_def Let_def end_call_def)
next
  case False
  have "linked (end_call i s)" using calm_end_call [OF run_ok_calm [OF assms(1)]] by (simp add: calm_def)
  with False assms(3,4) have "active_id s \<noteq> None"
    by (auto simp: isCurrentTerminalRun_def resolved_id end_call_def active_id_def split: if_splits)
  then show ?thesis
    by (intro text_same [OF assms(2)])
      (simp_all add: script_dispatched_def Let_def notify_def on_editor_def appendRunLifecycleLog_def
        appendLog_def setActiveRunSummary_def end_call_def)
qed

lemma flush_text: "printed_ok s h \<Longrightarrow> printed_ok (flushBufferedTerminalOutput s) h"
  using shows_append [of "ed_output (ut_editor s)" _ "ut_buffer s"]
  by (auto simp: printed_ok_def flushBufferedTerminalOutput_def Let_def clearBufferedTerminalOutputTimer_def
      on_editor_def editor_output_def active_id_def)

lemma finalize_text:
  assumes "run_ok s" and "printed_ok s h"
  shows "printed_ok (finalizeTerminalRun env t p s) h"
proof (cases "resolveTerminalRunId (rx_runId p) s = None \<or> ut_disposed s \<or>
    \<not> isIntegratedTerminalSession (rx_sessionId p)")
  case False
  then obtain r where r: "resolveTerminalRunId (rx_runId p) s = Some r" by auto
  note effect = finalize_effect [OF refl run_ok_calm [OF assms(1)] r, of env t]
  have "low_paired (ut_buffer (finalizeTerminalRun env t p s))"
    using assms(2)
    by (simp add: printed_ok_def finalizeTerminalRun_def r Let_def notify_def appendRunLifecycleLog_def on_editor_def
        clearActiveTerminalRunState_def flushBufferedTerminalOutput_def clearBufferedTerminalOutputTimer_def
        clearTerminalRunFallbackTimer_def)
  then show ?thesis using effect(2) False by (intro text_idle) (simp_all add: active_id_def)
qed (simp add: finalize_other assms)

lemma exit_text: "run_ok s \<Longrightarrow> printed_ok s h \<Longrightarrow> printed_ok (handleIntegratedTerminalExit env t sid code s) h"
  by (auto simp: handleIntegratedTerminalExit_def Let_def ensured_text intro!: finalize_text split: option.split)

lemma watchdog_text:
  assumes "run_ok s" and "printed_ok s h"
  shows "printed_ok (completion_timeout env t s) h"
proof -
  have "calm (s\<lparr>ut_fallback := None\<rparr>)" using run_ok_calm [OF assms(1)] by simp
  moreover have "printed_ok (s\<lparr>ut_fallback := None\<rparr>) h" using assms(2) by (simp add: printed_ok_def active_id_def)
  ultimately show ?thesis
    using assms(2) fail_text by (auto simp: completion_timeout_def Let_def printed_ok_def split: option.split)
qed

lemma bridge_text:
  "run_ok s \<Longrightarrow> printed_ok s h \<Longrightarrow> printed_ok (bridge_settled env t i r s) (heard s (BridgeSettled t i r) h)"
  by (auto simp: bridge_settled_def heard_def start_text failed_text dispatch_failed_text put_call_text
      split: option.split stage.split)

lemma view_text:
  "run_ok s \<Longrightarrow> printed_ok s h \<Longrightarrow> printed_ok (view_settled env t i r s) (heard s (ViewSettled t i r) h)"
  by (auto simp: view_settled_def heard_def start_text failed_text dispatch_failed_text put_call_text ensured_text
      split: option.split stage.split)

lemma dispatch_text:
  assumes "run_ok s" and "printed_ok s h"
  shows "printed_ok (dispatch_settled env t i r s) h"
proof -
  have named: "named_stage g" if "jm_get (ut_calls s) i = Some g" for g
    using assms(1) that calls_ok_get by (auto simp: run_ok_def)
  show ?thesis
    using assms named
    by (auto simp: dispatch_settled_def ensured_text intro!: dispatch_failed_text dispatched_text put_call_text
        split: option.split stage.split sum.split)
qed

lemma listeners_text: "run_ok s \<Longrightarrow> printed_ok s h \<Longrightarrow> printed_ok (listeners_ready env t i s) h"
  by (auto simp: listeners_ready_def Let_def failed_text put_call_text split: option.split stage.split)

lemma store_text:
  assumes "printed_ok s h" and "foreign c"
  shows "printed_ok (store_call paths c s) (heard s (StoreCall c) h)"
proof (cases "clears_logs c")
  case True
  then have "ed_output (editor_step paths (ut_editor s) c) = setTerminalOutputChunks [] (ed_output (ut_editor s))"
    using run_part_cleared [where e = "ut_editor s"] by (cases c) (simp_all add: run_part_def)
  then show ?thesis using True assms(1) shows_clear(2) [of "ed_output (ut_editor s)"]
    by (auto simp: printed_ok_def heard_def store_call_def Let_def active_id_def)
next
  case False
  have "ed_output (editor_step paths (ut_editor s) c) = ed_output (ut_editor s)"
  proof (cases "adds_log c")
    case True
    then show ?thesis by (cases c) (simp_all add: appendLog_def)
  next
    case other: False
    from run_frame_step [OF assms(2) False other, of paths "ut_editor s"] show ?thesis by (simp add: run_part_def)
  qed
  then show ?thesis using False assms(1)
    by (simp add: printed_ok_def heard_def store_call_def Let_def active_id_def)
qed

lemma chunk_text:
  assumes "printed_ok s h" and "low_paired (rk_data p)"
  shows "printed_ok (terminal_run_step env s (RunChunk p)) (heard s (RunChunk p) h)"
    and "printed_ok (terminal_run_step env s (OutputCall p)) (heard s (OutputCall p) h)"
  using assms by (auto simp: printed_ok_def hears_def heard_def appendStructuredTerminalOutput_def
      appendTerminalOutput_def active_id_def low_paired_append)

lemma quiet_text:
  "printed_ok s h \<Longrightarrow> printed_ok (runScript env s) h" "printed_ok s h \<Longrightarrow> printed_ok (runtime_waited b s) h"
  "printed_ok s h \<Longrightarrow> printed_ok (bus_started r s) h"
  by (auto simp: runScript_def Let_def notify_def ensureTerminalRunEventListeners_def put_call_def on_editor_def
      runtime_waited_def bus_started_def registration_settled_def printed_ok_def active_id_def
      split: option.split registration.split)

lemma dispose_text: "printed_ok (dispose_run s) h"
  by (rule text_idle) (simp_all add: dispose_run_def Let_def clearActiveTerminalRunState_def on_editor_def
    clearTerminalRunFallbackTimer_def resetBufferedTerminalOutput_def active_id_def)

lemma text_step:
  assumes "run_ok s" and "printed_ok s h" and "event_ok s e"
  shows "printed_ok (terminal_run_step env s e) (heard s e h)"
proof (cases e)
  case (RunChunk p)
  then show ?thesis using chunk_text(1) assms(2,3) by simp
next
  case (OutputCall p)
  then show ?thesis using chunk_text(2) assms(2,3) by simp
next
  case (StoreCall c)
  then show ?thesis using store_text assms(2,3) by simp
next
  case (BridgeSettled t i r)
  then show ?thesis using bridge_text assms(1,2) by simp
next
  case (ViewSettled t i r)
  then show ?thesis using view_text assms(1,2) by simp
qed (simp_all add: heard_def assms quiet_text listeners_text dispatch_text flush_text finalize_text exit_text
  watchdog_text dispose_text)

interpretation hearing: machine "hearing_step env" "(use_terminal_run (new_editor snap), [])"
  "\<lambda>(s, h). run_ok s \<and> printed_ok s h" for env snap
proof (unfold_locales, goal_cases)
  case 1
  show ?case using start_ok by (simp add: printed_ok_def use_terminal_run_def active_id_def)
next
  case (2 sh e)
  then show ?case by (auto simp: hearing_step_def terminal_run_step_ok text_step split: if_splits prod.splits)
qed

section \<open>Properties\<close>

abbreviation run_after :: "run_env \<Rightarrow> session_snapshot \<Rightarrow> terminal_run_event list \<Rightarrow> terminal_run" where
  "run_after env snap es \<equiv> run_events (allowed_step env) (use_terminal_run (new_editor snap)) es"

lemma document_kept [simp]:
  "active_document (e\<lparr>ed_lastRunResult := x\<rparr>) = active_document e"
  "active_document (e\<lparr>ed_isRunning := b\<rparr>) = active_document e"
  "active_document (e\<lparr>ed_runHistory := hs\<rparr>) = active_document e"
  "active_document (e\<lparr>ed_runLogs := ls\<rparr>) = active_document e"
  "active_document (e\<lparr>ed_activeRunSummary := y\<rparr>) = active_document e"
  "active_document (e\<lparr>ed_pendingTerminalRunId := z\<rparr>) = active_document e"
  by (simp_all add: active_document_def Let_def find_id_def)

text \<open>The entry of a finished run stands in front of the history.\<close>

lemma finalize_history:
  assumes f: "f = finalizeTerminalRun env t p s"
    and "resolveTerminalRunId (rx_runId p) s = Some r" and "\<not> ut_disposed s"
    and "isIntegratedTerminalSession (rx_sessionId p)"
    and "\<not> hasFinalizedTerminalRun (Some r) (ut_editor s)" and "r \<noteq> []"
  shows "ed_runHistory (ut_editor f) = take MAX_RUN_HISTORY_ENTRIES
      ((tk_id t 0, buildTerminalRunHistoryEntry (run_end env p s) (ed_activeRunSummary (ut_editor s))
         (document_ref_of (active_document (ut_editor f)))) # ed_runHistory (ut_editor s))"
  using assms(2-)
  by (simp add: f finalizeTerminalRun_def Let_def notify_def appendRunLifecycleLog_def on_editor_def
      clearActiveTerminalRunState_def appendLog_def appendRunHistory_def setActiveRunSummary_def
      setPendingTerminalRunId_def clearTerminalRunFallbackTimer_def run_end_def
      flushBufferedTerminalOutput_def clearBufferedTerminalOutputTimer_def editor_output_def)

text \<open>C3: Whatever events come, in whatever order: the log holds at most one entry that ends a run; the
  pending id and the summary in the store are those of the active run; the run button is off only
  while a call is starting its run or a run is active; an active run has the watchdog armed; and a
  call that waits for the listeners waits for a registration that is under way.\<close>

theorem script_runs_are_watched:
  "let s = run_after env snap es; e = ut_editor s in
     (\<forall>r. length (finals r (ed_runLogs e)) \<le> 1) \<and>
     ed_pendingTerminalRunId e \<in> {None, active_id s} \<and>
     map_option sm_runId (ed_activeRunSummary e) \<in> {None, active_id s} \<and>
     (ed_isRunning e \<and> \<not> ut_disposed s \<longrightarrow>
       active_id s \<noteq> None \<or> list_ex (\<lambda>(i, g). starting g) (ut_calls s)) \<and>
     (active_id s \<noteq> None \<and> \<not> ut_disposed s \<longrightarrow> ut_fallback s = active_id s) \<and>
     (list_ex (\<lambda>(i, g). g = AwaitRegistration) (ut_calls s) \<longrightarrow> ut_registration s \<noteq> None)"
proof -
  define s where "s = run_after env snap es"
  have "run_ok s" unfolding s_def by (rule run.inv_run)
  then have ok: "ends_once s" "linked s" "owned s" "watched s" "joined s" by (simp_all add: run_ok_def)
  have "ed_pendingTerminalRunId (ut_editor s) \<in> {None, active_id s}"
    "map_option sm_runId (ed_activeRunSummary (ut_editor s)) \<in> {None, active_id s}"
    using ok(2) by (cases "ed_pendingTerminalRunId (ut_editor s)"; cases "ed_activeRunSummary (ut_editor s)";
        simp add: linked_def)+
  then show ?thesis
    using ok unfolding s_def [symmetric] Let_def
    by (auto simp: ends_once_def owned_def watched_def joined_def)
qed

text \<open>C13: A run whose end is never reported does not block the editor: when the watchdog fires, the run is
  over, the button is back and the log's newest entry says that this run timed out.\<close>

theorem watchdog_ends_the_run:
  assumes "s = run_after env snap es" and "\<not> ut_disposed s" and "active_id s = Some r"
    and "f = terminal_run_step env s (Watchdog t)"
  shows "active_id f = None \<and> \<not> ed_isRunning (ut_editor f) \<and> ut_fallback f = None \<and>
    (\<exists>x rest. ed_runLogs (ut_editor f) = x # rest \<and> lg_runId x = Some r \<and>
      resolveTerminalRunLogKind x = KindTimeout \<and> isTerminalRunFinalLog x) \<and>
    length (finals r (ed_runLogs (ut_editor f))) = 1"
proof -
  have ok: "run_ok s" unfolding assms(1) by (rule run.inv_run)
  let ?s1 = "s\<lparr>ut_fallback := None\<rparr>"
  have calm: "calm ?s1" using run_ok_calm [OF ok] by simp
  have same: "active_id ?s1 = Some r" "linked ?s1"
    using calm assms(3) by (simp_all add: active_id_def calm_def)
  have fresh: "trim r = r" "r \<noteq> []" using ok assms(3) by (simp_all add: run_ok_def unfinished_def fresh_id_def)
  have "ut_fallback s = Some r" using ok assms(2,3) by (simp add: run_ok_def watched_def)
  then have f: "f = failTerminalRun env t (TERMINAL_RUN_LOG_TITLES KindTimeout) (JsText timeout_message)
      (TERMINAL_RUN_LOG_TITLES KindTimeout) (TERMINAL_RUN_LOG_CODES KindTimeout) False ?s1"
    using assms(2,4) same fresh
    by (simp add: completion_timeout_def Let_def isCurrentTerminalRun_def resolved_id)
  note effect = fail_effect [OF f calm]
  define x where "x = run_entry t 0 LogError KindTimeout timeout_message r"
  have logs: "ed_runLogs (ut_editor f) = x # take (MAX_RUN_LOG_ENTRIES - 1) (ed_runLogs (ut_editor s))"
    unfolding effect(5) by (simp add: same x_def run_entry_def take_Cons' MAX_RUN_LOG_ENTRIES_def)
  have final: "isTerminalRunFinalLog x" "lg_runId x = Some r"
    by (simp_all add: x_def run_entry_final final_kinds_def) (simp add: run_entry_def)
  have kind: "resolveTerminalRunLogKind x = KindTimeout"
    by (simp add: resolveTerminalRunLogKind_def log_tests x_def run_entry_def lit_def)
  have "length (finals r (ed_runLogs (ut_editor f))) \<le> 1"
    using effect(1) by (simp add: run_ok_def ends_once_def)
  then have "length (finals r (ed_runLogs (ut_editor f))) = 1"
    by (simp add: logs finals_def final)
  then show ?thesis using effect(2-4) logs kind final by (auto simp: active_id_def)
qed

text \<open>C2: A run that is reported as completed, by the bus or by a direct call of the handler, gets a result
  with its id, its exit code and its output: the text of its chunks in the order they came, since the
  run began or the user cleared the output, what was still waiting for the timer included, cut to
  the last 120000 units. The history gets exactly one entry in front, made from that result, the log
  exactly one, which is the only one that ends this run, and the run is over.\<close>

theorem completed_run_keeps_its_output:
  assumes "(s, h) = run_events (hearing_step env) (use_terminal_run (new_editor snap), []) es"
    and "e = CompletedCall t p \<or> e = RunCompleted t p \<and> ut_subscribed s"
    and "\<not> ut_disposed s" and "isIntegratedTerminalSession (rx_sessionId p)"
    and "resolveTerminalRunId (rx_runId p) s = Some r"
    and "f = terminal_run_step env s e"
  shows "\<exists>res log.
    ed_lastRunResult (ut_editor f) = Some res \<and> res_runId res = Some r \<and> res_exitCode res = rx_exitCode p \<and>
    res_stdout res = clampToCodeUnitBoundary h MAX_TERMINAL_OUTPUT_LENGTH \<and>
    ed_runHistory (ut_editor f) = take MAX_RUN_HISTORY_ENTRIES
      ((tk_id t 0, buildTerminalRunHistoryEntry res (ed_activeRunSummary (ut_editor s))
         (document_ref_of (active_document (ut_editor f)))) # ed_runHistory (ut_editor s)) \<and>
    ed_runLogs (ut_editor f) = log # take (MAX_RUN_LOG_ENTRIES - 1) (ed_runLogs (ut_editor s)) \<and>
    finals r (ed_runLogs (ut_editor f)) = [log] \<and>
    active_id f = None \<and> \<not> ed_isRunning (ut_editor f)"
proof -
  have "case run_events (hearing_step env) (use_terminal_run (new_editor snap), []) es of
      (s, h) \<Rightarrow> run_ok s \<and> printed_ok s h" by (rule hearing.inv_run)
  then have ok: "run_ok s" "printed_ok s h" by (simp_all add: assms(1) [symmetric])
  have f: "f = finalizeTerminalRun env t p s" using assms(2,6) by auto
  note effect = finalize_effect [OF f run_ok_calm [OF ok(1)] assms(5,3,4)]
  have lu: "linked s" "unfinished s" using ok(1) by (simp_all add: run_ok_def)
  have act: "active_id s = Some r" using assms(5) by (simp add: resolved_id [OF lu(1)] split: if_splits)
  have open_run: "\<not> hasFinalizedTerminalRun (Some r) (ut_editor s)" "r \<noteq> []"
    using lu(2) act by (simp_all add: unfinished_def fresh_id_def)
  have "printed_ok (flushBufferedTerminalOutput s) h" by (rule flush_text [OF ok(2)])
  then obtain w where w: "shows_text (ed_output (ut_editor (flushBufferedTerminalOutput s))) w"
      "h = w @ ut_buffer (flushBufferedTerminalOutput s)"
    using act assms(3) by (auto simp: printed_ok_def active_id_def)
  have "ut_buffer (flushBufferedTerminalOutput s) = []"
    by (simp add: flushBufferedTerminalOutput_def Let_def clearBufferedTerminalOutputTimer_def)
  then have out: "res_stdout (run_end env p s) = clampToCodeUnitBoundary h MAX_TERMINAL_OUTPUT_LENGTH"
    using w by (simp add: run_end_def buildTerminalRunResult_def shows_text_def)
  have res: "res_runId (run_end env p s) = Some r" "res_exitCode (run_end env p s) = rx_exitCode p"
    using act by (auto simp: run_end_def buildTerminalRunResult_def nullish_def active_id_def)
  have "ed_runHistory (ut_editor f) = take MAX_RUN_HISTORY_ENTRIES
      ((tk_id t 0, buildTerminalRunHistoryEntry (run_end env p s) (ed_activeRunSummary (ut_editor s))
         (document_ref_of (active_document (ut_editor f)))) # ed_runHistory (ut_editor s))"
    by (rule finalize_history [OF f assms(5,3,4) open_run])
  moreover have "\<exists>log. ed_runLogs (ut_editor f) = log # take (MAX_RUN_LOG_ENTRIES - 1) (ed_runLogs (ut_editor s)) \<and>
      finals r (ed_runLogs (ut_editor f)) = [log]"
  proof -
    define k where "k = (if rx_exitCode p = Some 0 then KindCompleted else KindFailed)"
    define x where "x = run_entry t 1 (if rx_exitCode p = Some 0 then LogSuccess else LogError) k
      (buildTerminalRunCompletionDetail (run_end env p s)) r"
    have logs: "ed_runLogs (ut_editor f) = x # take (MAX_RUN_LOG_ENTRIES - 1) (ed_runLogs (ut_editor s))"
      unfolding effect(6) by (simp add: x_def run_entry_def k_def take_Cons' MAX_RUN_LOG_ENTRIES_def)
    have "lg_runId x = Some r \<and> isTerminalRunFinalLog x"
      by (simp add: x_def run_entry_final final_kinds_def k_def) (simp add: run_entry_def)
    moreover have "finals r (take n (ed_runLogs (ut_editor s))) = []" for n
      using no_finals [OF open_run] by (auto simp: finals_def filter_empty_conv dest: in_set_takeD)
    ultimately show ?thesis by (auto simp: logs finals_def)
  qed
  ultimately show ?thesis using effect(2,3,5) out res by (auto simp: active_id_def)
qed

section \<open>A run from the button to its end\<close>

definition sample_env :: run_env where
  "sample_env = \<lparr>rv_paths = plain_paths, rv_num = (\<lambda>w. None), rv_time = (\<lambda>d. Some 0)\<rparr>"

definition sample_tick :: tick where
  "sample_tick = \<lparr>tk_now = (\<lambda>n. [48 + n]), tk_id = (\<lambda>n. [114, 48 + n])\<rparr>"

definition sample_script :: "terminal_run_event list" where
  "sample_script =
     [StoreCall (SetEnvironment (JObj [(''hasAny'', JBool True)])),
      StoreCall (CreateTab [48] [100] (no_overrides\<lparr>ov_name := Some [97, 46, 115, 104], ov_content := Some [104]\<rparr>)),
      RunScript, RuntimeWaited True, BusStarted None, ListenersReady sample_tick 0,
      BridgeSettled sample_tick 0 None, ViewSettled sample_tick 0 None]"

definition sample_start :: terminal_run where
  "sample_start = use_terminal_run (new_editor (createEmptySessionSnapshot []))"

definition sample_document :: editor_document where
  "sample_document = createDocument plain_paths [100] [] (no_overrides\<lparr>ov_name := Some [97, 46, 115, 104], ov_content := Some [104]\<rparr>)"

lemma sample_can_run:
  "dc_id sample_document = [100]" "isShellScriptDocument plain_paths sample_document" "dc_charCount sample_document = 1"
  by (simp_all add: sample_document_def createDocument_def no_overrides_def syncDocumentState_def orElse_def
      isShellScriptDocument_def isShellScriptPath_def getFileExtension_def plain_paths_def Let_def
      normalizeFileSystemPath_def default_normalize_def stripWindowsVerbatimPrefix_def
      collapseDuplicateSeparators_def isWindowsStylePath_def lit_def trim_def is_js_space_def verbatim_def
      forward_slashes_def is_unc_word_def)

definition sample_editor :: editor where
  "sample_editor = editor_step plain_paths (editor_step plain_paths (new_editor (createEmptySessionSnapshot []))
     (SetEnvironment (JObj [(''hasAny'', JBool True)])))
     (CreateTab [48] [100] (no_overrides\<lparr>ov_name := Some [97, 46, 115, 104], ov_content := Some [104]\<rparr>))"

lemma sample_editor_facts:
  "run_part sample_editor = (None, None, False, None, [], empty_output)"
  "active_document sample_editor = sample_document" "canRun plain_paths sample_editor" "has_any sample_editor"
proof -
  have docs: "ed_documents sample_editor = [sample_document]"
    by (simp add: sample_editor_def createDocumentTab_def show_new_def Let_def setEnvironment_def editor_parts
        new_editor_def watch_active_def sample_document_def setActiveDocument_def split: option.split)
  have "run_part sample_editor = run_part (new_editor (createEmptySessionSnapshot []))"
    unfolding sample_editor_def by (simp add: run_frame_step del: editor_step.simps)
  then show "run_part sample_editor = (None, None, False, None, [], empty_output)"
    by (simp add: run_part_def new_editor_def)
  have "active_ok sample_editor"
    unfolding sample_editor_def
    by (intro editor_step_docs [THEN conjunct1] editor_step_docs [THEN conjunct2])
      (simp_all add: active_ok_def docs_ok_def new_editor_def)
  then have active: "ed_activeDocumentId sample_editor = [100]"
    using docs sample_can_run(1) by (simp add: active_ok_def)
  then show doc: "active_document sample_editor = sample_document"
    using docs sample_can_run(1) by (simp add: active_document_def find_id_def orElse_def)
  have "ed_environment sample_editor = JObj [(''hasAny'', JBool True)]"
    by (simp add: sample_editor_def createDocumentTab_def show_new_def Let_def setEnvironment_def
        new_editor_def watch_active_def setActiveDocument_def push_document_def touchSessionSnapshot_def on_session_def
        syncSessionOpenTabs_def pushRecentFile_def reset_cursor_def split: option.split list.split)
  then show env: "has_any sample_editor" by (simp add: has_any_def jfield_def)
  show "canRun plain_paths sample_editor"
    using docs active doc env sample_can_run by (simp add: canRun_def hasActiveDocument_def)
qed

definition sample_waiting :: terminal_run where
  "sample_waiting = (use_terminal_run (sample_editor\<lparr>ed_isRunning := True\<rparr>))\<lparr>ut_subscribed := True,
     ut_listening := True, ut_next := 1, ut_calls := [(0, AwaitView sample_document)]\<rparr>"

lemma sample_waits:
  "run_events (hearing_step sample_env) (sample_start, []) (butlast sample_script) = (sample_waiting, [])"
proof -
  have frame: "active_document (sample_editor\<lparr>ed_isRunning := True\<rparr>) = sample_document"
    using sample_editor_facts(2) by (simp add: active_document_def find_id_def)
  have "\<not> ed_isRunning sample_editor" using sample_editor_facts(1) by (simp add: run_part_def)
  moreover have "fresh_id [114, 48] (sample_editor\<lparr>ed_isRunning := True\<rparr>)"
    using sample_editor_facts(1) by (simp add: fresh_id_def hasFinalizedTerminalRun_def run_part_def trim_def is_js_space_def)
  ultimately show ?thesis
    using sample_editor_facts(2-4) sample_can_run(2)
    by (simp add: sample_script_def sample_start_def hearing_step_def sample_editor_def [symmetric]
        use_terminal_run_def store_call_def Let_def heard_def runScript_def sample_env_def on_editor_def
        ensureTerminalRunEventListeners_def put_call_def runtime_waited_def bus_started_def
        registration_settled_def wake_def listeners_ready_def jm_get_def jm_set_def frame bridge_settled_def
        sample_waiting_def sample_tick_def no_log_options_def del: editor_step.simps)
qed

definition sample_chunk :: run_output where
  "sample_chunk = \<lparr>rk_sessionId = DEFAULT_TERMINAL_SESSION_ID, rk_runId = [114, 48], rk_data = [104, 105]\<rparr>"

definition sample_running :: terminal_run where
  "sample_running = start_dispatch sample_tick 0 sample_document (sample_waiting\<lparr>ut_ensured := True\<rparr>)"

lemma sample_runs:
  "run_events (hearing_step sample_env) (sample_start, []) sample_script = (sample_running, [])"
  "run_events (allowed_step sample_env) sample_start sample_script = sample_running"
proof -
  have fresh: "fresh_id [114, 48] (ut_editor sample_waiting)"
    using sample_editor_facts(1) by (simp add: fresh_id_def hasFinalizedTerminalRun_def run_part_def trim_def
        is_js_space_def sample_waiting_def use_terminal_run_def)
  have "sample_script = butlast sample_script @ [ViewSettled sample_tick 0 None]"
    by (simp add: sample_script_def)
  then have "run_events (hearing_step sample_env) (sample_start, []) sample_script =
      hearing_step sample_env (sample_waiting, []) (ViewSettled sample_tick 0 None)"
    using sample_waits by (metis run_events_append run_events.simps)
  moreover have "hearing_step sample_env (sample_waiting, []) (ViewSettled sample_tick 0 None) = (sample_running, [])"
    using fresh by (simp add: hearing_apply heard_def view_settled_def sample_running_def sample_tick_def)
      (simp add: sample_waiting_def jm_get_def)
  ultimately show h: "run_events (hearing_step sample_env) (sample_start, []) sample_script = (sample_running, [])"
    by simp
  have "fst (run_events (hearing_step env) (s, g) es) = run_events (allowed_step env) s es" for env s g es
    by (induction es arbitrary: s g) (simp_all add: hearing_step_def allowed_step_def)
  from this [of sample_env sample_start "[]" sample_script]
  show "run_events (allowed_step sample_env) sample_start sample_script = sample_running"
    by (simp add: h)
qed

lemma sample_running_facts:
  "active_id sample_running = Some [114, 48]" "\<not> ut_disposed sample_running" "ut_subscribed sample_running"
  "linked sample_running"
proof -
  have "run_ok sample_running"
    unfolding sample_runs(2) [symmetric] sample_start_def by (rule run.inv_run)
  then show "linked sample_running" by (simp add: run_ok_def)
  show "active_id sample_running = Some [114, 48]" "\<not> ut_disposed sample_running" "ut_subscribed sample_running"
    by (simp_all add: sample_running_def start_dispatch_def put_call_def primeTerminalRun_def Let_def on_editor_def
        appendRunLifecycleLog_def scheduleTerminalRunCompletionTimeout_def clearTerminalRunFallbackTimer_def
        resetBufferedTerminalOutput_def clearBufferedTerminalOutputTimer_def active_id_def
        createActiveTerminalRunMeta_def sample_tick_def sample_waiting_def use_terminal_run_def)
qed

theorem script_runs_are_watched_witness:
  "let s = run_after sample_env (createEmptySessionSnapshot []) sample_script
   in active_id s = Some [114, 48] \<and> ut_fallback s = Some [114, 48] \<and>
     ed_pendingTerminalRunId (ut_editor s) \<in> {None, Some [114, 48]} \<and>
     length (finals [114, 48] (ed_runLogs (ut_editor s))) \<le> 1"
  using script_runs_are_watched [of sample_env "createEmptySessionSnapshot []" sample_script]
  unfolding sample_start_def [symmetric] sample_runs using sample_running_facts by (simp add: Let_def del: One_nat_def)

theorem watchdog_ends_the_run_witness:
  "let f = terminal_run_step sample_env (run_after sample_env (createEmptySessionSnapshot []) sample_script)
         (Watchdog sample_tick)
   in \<not> ed_isRunning (ut_editor f) \<and> length (finals [114, 48] (ed_runLogs (ut_editor f))) = 1"
  using watchdog_ends_the_run [OF refl _ _ refl, of sample_env "createEmptySessionSnapshot []" sample_script
      "[114, 48]" sample_tick]
  unfolding sample_start_def [symmetric] sample_runs using sample_running_facts by (simp add: Let_def del: One_nat_def)

theorem completed_run_keeps_its_output_witness:
  "let p = \<lparr>rx_sessionId = DEFAULT_TERMINAL_SESSION_ID, rx_runId = [114, 48], rx_exitCode = Some 0, rx_finishedAt = [57]\<rparr>;
       s = fst (run_events (hearing_step sample_env) (use_terminal_run (new_editor (createEmptySessionSnapshot [])), [])
         (sample_script @ [RunChunk sample_chunk]));
       f = terminal_run_step sample_env s (RunCompleted sample_tick p)
   in map_option res_stdout (ed_lastRunResult (ut_editor f)) = Some [104, 105]"
proof -
  let ?p = "\<lparr>rx_sessionId = DEFAULT_TERMINAL_SESSION_ID, rx_runId = [114, 48], rx_exitCode = Some 0, rx_finishedAt = [57]\<rparr>"
  let ?s = "terminal_run_step sample_env sample_running (RunChunk sample_chunk)"
  have paired: "low_paired [104, 105]" by (simp add: low_paired_def low_surrogate_def)
  have trims: "trim [114, 48] = [114, 48]" by (simp add: trim_def is_js_space_def)
  have hears: "hears sample_running sample_chunk"
    using sample_running_facts trims
    by (simp add: hears_def sample_chunk_def isIntegratedTerminalSession_def isCurrentTerminalRun_def resolved_id)
  have run: "run_events (hearing_step sample_env) (use_terminal_run (new_editor (createEmptySessionSnapshot [])), [])
      (sample_script @ [RunChunk sample_chunk]) = (?s, [104, 105])"
    using hears paired sample_running_facts(3)
    by (simp add: run_events_append sample_start_def [symmetric] sample_runs hearing_apply heard_def
        del: terminal_run_step.simps) (simp_all add: sample_chunk_def)
  have s: "ut_subscribed ?s" "\<not> ut_disposed ?s" "resolveTerminalRunId (rx_runId ?p) ?s = Some [114, 48]"
  proof -
    have "active_id ?s = Some [114, 48] \<and> linked ?s \<and> ut_subscribed ?s \<and> \<not> ut_disposed ?s"
      using sample_running_facts
      by (simp add: appendStructuredTerminalOutput_def appendTerminalOutput_def active_id_def linked_def)
    then show "ut_subscribed ?s" "\<not> ut_disposed ?s" "resolveTerminalRunId (rx_runId ?p) ?s = Some [114, 48]"
      using trims by (simp_all add: resolved_id del: terminal_run_step.simps)
  qed
  have "isIntegratedTerminalSession (rx_sessionId ?p)" by (simp add: isIntegratedTerminalSession_def)
  note whole = completed_run_keeps_its_output [OF run [symmetric] _ s(2) this s(3) refl]
  have "RunCompleted sample_tick ?p = CompletedCall sample_tick ?p \<or>
      RunCompleted sample_tick ?p = RunCompleted sample_tick ?p \<and> ut_subscribed ?s" using s(1) by blast
  from whole [OF this]
  show ?thesis unfolding run Let_def by (auto simp: clampToCodeUnitBoundary_def MAX_TERMINAL_OUTPUT_LENGTH_def)
qed

section \<open>Starts that are overtaken\<close>

lemma start_parts:
  "active_id (start_dispatch t i d s) = Some (tk_id t 0)"
  "ed_isRunning (ut_editor (start_dispatch t i d s)) = ed_isRunning (ut_editor s)"
  "ed_pendingTerminalRunId (ut_editor (start_dispatch t i d s)) = Some (tk_id t 0)"
  "ut_fallback (start_dispatch t i d s) = Some (tk_id t 0)" "ut_disposed (start_dispatch t i d s) = ut_disposed s"
  by (simp_all add: start_dispatch_def put_call_def primeTerminalRun_def Let_def on_editor_def active_id_def
      appendRunLifecycleLog_def appendLog_def scheduleTerminalRunCompletionTimeout_def
      clearTerminalRunFallbackTimer_def resetBufferedTerminalOutput_def editor_output_def
      clearBufferedTerminalOutputTimer_def setActiveRunSummary_def setPendingTerminalRunId_def
      createActiveTerminalRunMeta_def)

text \<open>Closing the workspace does not stop a call that waits for its terminal view: the script is still
  sent, and the run is active while the button is on.\<close>

theorem closed_workspace_still_starts:
  assumes "jm_get (ut_calls s) i = Some (AwaitView d)"
    and "f = terminal_run_step env (terminal_run_step env s (StoreCall (ClearSession now))) (ViewSettled t i None)"
  shows "active_id f = Some (tk_id t 0) \<and> \<not> ed_isRunning (ut_editor f) \<and>
    (\<exists>d' q. jm_get (ut_calls f) i = Some (AwaitDispatch d' q))"
proof -
  let ?s = "terminal_run_step env s (StoreCall (ClearSession now))"
  have call: "jm_get (ut_calls ?s) i = Some (AwaitView (live (ut_editor ?s) d))"
    using assms(1) by (simp add: store_call_def Let_def jm_get_def map_of_map_restrict map_of_map comp_def)
  have "\<not> ed_isRunning (ut_editor ?s)"
    using run_part_cleared(2) [of now "ut_editor s"] by (simp add: store_call_def Let_def run_part_def)
  then show ?thesis
    using call start_parts(1,2) by (simp add: assms(2) view_settled_def del: terminal_run_step.simps(13))
      (simp add: start_dispatch_def Let_def put_call_def)
qed

text \<open>A start that is overtaken by the disposal of the scope leaves its run pending in the store, and
  the watchdog it arms does not take it back.\<close>

theorem disposed_start_stays_pending:
  assumes "jm_get (ut_calls s) i = Some (AwaitView d)"
    and "f = run_events (terminal_run_step env) s [Dispose, ViewSettled t i None, Watchdog t']"
  shows "ed_pendingTerminalRunId (ut_editor f) = Some (tk_id t 0) \<and> ut_disposed f \<and> ut_fallback f = None"
proof -
  have call: "jm_get (ut_calls (dispose_run s)) i = Some (AwaitView d)" "ut_disposed (dispose_run s)"
    using assms(1) by (simp_all add: dispose_run_def Let_def clearActiveTerminalRunState_def on_editor_def
        clearTerminalRunFallbackTimer_def resetBufferedTerminalOutput_def clearBufferedTerminalOutputTimer_def
        clearTerminalRunEventListeners_def)
  then show ?thesis
    using start_parts by (simp add: assms(2) view_settled_def completion_timeout_def Let_def)
qed

end
