(* ===== verification/RunStore.thy ===== *)
theory RunStore
  imports Prelude "HOL-Library.Product_Lexorder" "HOL-Library.Multiset"
begin

text \<open>
  The terminal run store (\<open>src/services/terminal/runStore.ts\<close>, class
  \<open>TerminalRunStore\<close>): the output chunks of every run, with a cached joined output and a
  flag that lets \<open>getOutput\<close> skip the sort. A record that the source mutates in place is
  written back to the map under its key.
\<close>

section \<open>Data\<close>

record run_chunk =
  rc_seq :: "int option"
  rc_arrivalIndex :: nat
  rc_data :: string

record run_record =
  rr_runId :: string
  rr_sessionId :: string
  rr_startedAt :: "string option"
  rr_completedAt :: "string option"
  rr_exitCode :: "int option"
  rr_chunks :: "run_chunk list"
  rr_cachedOutput :: "string option"
  rr_chunksAreSorted :: bool

record run_store =
  rs_records :: "(string, run_record) jsmap"
  rs_nextArrivalIndex :: nat

text \<open>The payloads of \<open>src/types/terminal/index.ts\<close> that the terminal services exchange.\<close>

record run_chunk_payload =
  cp_sessionId :: string
  cp_runId :: string
  cp_data :: string
  cp_seq :: "int option"

record run_completed_payload =
  fp_sessionId :: string
  fp_runId :: string
  fp_exitCode :: "int option"
  fp_finishedAt :: string

record run_started_payload =
  sp_sessionId :: string
  sp_runId :: string
  sp_startedAtMs :: int
  sp_pid :: int

record run_handle =
  h_runId :: string
  h_sessionId :: string
  h_cwd :: string
  h_commandLine :: string
  h_usedTempFile :: bool
  h_startedAt :: string
  h_startedAtMs :: "int option"
  h_pid :: "int option"

record run_metadata =
  rm_runId :: string
  rm_sessionId :: string
  rm_startedAt :: "string option"
  rm_completedAt :: "string option"
  rm_exitCode :: "int option"
  rm_chunkCount :: nat

record run_snapshot = run_metadata +
  rm_output :: string

section \<open>Operations\<close>

definition empty_run_store :: run_store where
  "empty_run_store = \<lparr>rs_records = [], rs_nextArrivalIndex = 0\<rparr>"

definition fresh_run_record :: "string \<Rightarrow> string \<Rightarrow> string option \<Rightarrow> run_record" where
  "fresh_run_record rid sid started =
     \<lparr>rr_runId = rid, rr_sessionId = sid, rr_startedAt = started, rr_completedAt = None,
      rr_exitCode = None, rr_chunks = [], rr_cachedOutput = Some '''', rr_chunksAreSorted = True\<rparr>"

definition put_record :: "run_store \<Rightarrow> string \<Rightarrow> run_record \<Rightarrow> run_store" where
  "put_record st rid r = st\<lparr>rs_records := jm_set (rs_records st) rid r\<rparr>"

definition get_run_record :: "run_store \<Rightarrow> string \<Rightarrow> run_record option" where
  "get_run_record st rid = jm_get (rs_records st) rid"

definition startRun :: "run_store \<Rightarrow> run_handle \<Rightarrow> bool \<Rightarrow> run_store" where
  "startRun st h reset =
     (case get_run_record st (h_runId h) of
        Some r \<Rightarrow>
          (let r1 = r\<lparr>rr_sessionId := h_sessionId h, rr_startedAt := Some (h_startedAt h)\<rparr>;
               r2 = (if reset
                     then r1\<lparr>rr_completedAt := None, rr_exitCode := None, rr_chunks := [],
                             rr_cachedOutput := Some '''', rr_chunksAreSorted := True\<rparr>
                     else r1)
           in put_record st (h_runId h) r2)
      | None \<Rightarrow>
          put_record st (h_runId h)
            (fresh_run_record (h_runId h) (h_sessionId h) (Some (h_startedAt h))))"

definition getOrCreateRecord :: "run_store \<Rightarrow> string \<Rightarrow> string \<Rightarrow> run_record \<times> run_store" where
  "getOrCreateRecord st rid sid =
     (case get_run_record st rid of
        Some r \<Rightarrow> (r, st)
      | None \<Rightarrow>
          (let r = fresh_run_record rid sid None in (r, put_record st rid r)))"

definition breaks_order :: "run_chunk list \<Rightarrow> int option \<Rightarrow> bool" where
  "breaks_order cs sq =
     (case sq of
        None \<Rightarrow> True
      | Some n \<Rightarrow>
          cs \<noteq> [] \<and> (case rc_seq (last cs) of None \<Rightarrow> False | Some m \<Rightarrow> n < m))"

definition appendChunk :: "run_store \<Rightarrow> run_chunk_payload \<Rightarrow> run_store" where
  "appendChunk st p =
     (case getOrCreateRecord st (cp_runId p) (cp_sessionId p) of (r, st1) \<Rightarrow>
        (let sq = cp_seq p;
             c = \<lparr>rc_seq = sq, rc_arrivalIndex = rs_nextArrivalIndex st1, rc_data = cp_data p\<rparr>;
             st2 = st1\<lparr>rs_nextArrivalIndex := rs_nextArrivalIndex st1 + 1\<rparr>;
             sorted' = (if rr_chunksAreSorted r \<and> breaks_order (rr_chunks r) sq then False
                        else rr_chunksAreSorted r)
         in put_record st2 (cp_runId p)
              (r\<lparr>rr_chunksAreSorted := sorted', rr_chunks := rr_chunks r @ [c],
                 rr_cachedOutput := None\<rparr>)))"

definition completeRun :: "run_store \<Rightarrow> run_completed_payload \<Rightarrow> run_store" where
  "completeRun st p =
     (case getOrCreateRecord st (fp_runId p) (fp_sessionId p) of (r, st1) \<Rightarrow>
        (if rr_completedAt r \<noteq> None then st1
         else put_record st1 (fp_runId p)
                (r\<lparr>rr_completedAt := Some (fp_finishedAt p), rr_exitCode := fp_exitCode p\<rparr>)))"

definition seq_key :: "run_chunk \<Rightarrow> int \<times> nat" where
  "seq_key c = ((case rc_seq c of None \<Rightarrow> 0 | Some n \<Rightarrow> n), rc_arrivalIndex c)"

definition sort_chunks :: "run_chunk list \<Rightarrow> run_chunk list" where
  "sort_chunks cs =
     (if \<not> list_all (\<lambda>c. rc_seq c \<noteq> None) cs then sort_key rc_arrivalIndex cs
      else sort_key seq_key cs)"

definition resolveChunks :: "run_record \<Rightarrow> run_chunk list" where
  "resolveChunks r = (if rr_chunksAreSorted r then rr_chunks r else sort_chunks (rr_chunks r))"

definition joinChunks :: "run_chunk list \<Rightarrow> string" where
  "joinChunks cs =
     (case cs of [] \<Rightarrow> '''' | [c] \<Rightarrow> rc_data c | _ \<Rightarrow> concat (map rc_data cs))"

definition getOutput :: "run_store \<Rightarrow> string \<Rightarrow> string \<times> run_store" where
  "getOutput st rid =
     (case get_run_record st rid of
        None \<Rightarrow> ('''', st)
      | Some r \<Rightarrow>
          (case rr_cachedOutput r of
             Some out \<Rightarrow> (out, st)
           | None \<Rightarrow>
               (let out = joinChunks (resolveChunks r)
                in (out, put_record st rid (r\<lparr>rr_cachedOutput := Some out\<rparr>)))))"

definition getMetadata :: "run_store \<Rightarrow> string \<Rightarrow> run_metadata option" where
  "getMetadata st rid =
     (case get_run_record st rid of
        None \<Rightarrow> None
      | Some r \<Rightarrow> Some \<lparr>rm_runId = rr_runId r, rm_sessionId = rr_sessionId r,
          rm_startedAt = rr_startedAt r, rm_completedAt = rr_completedAt r,
          rm_exitCode = rr_exitCode r, rm_chunkCount = length (rr_chunks r)\<rparr>)"

definition getRecord :: "run_store \<Rightarrow> string \<Rightarrow> run_snapshot option \<times> run_store" where
  "getRecord st rid =
     (case get_run_record st rid of
        None \<Rightarrow> (None, st)
      | Some r \<Rightarrow>
          (case getOutput st rid of (out, st') \<Rightarrow>
             (Some \<lparr>rm_runId = rr_runId r, rm_sessionId = rr_sessionId r,
                rm_startedAt = rr_startedAt r, rm_completedAt = rr_completedAt r,
                rm_exitCode = rr_exitCode r, rm_chunkCount = length (rr_chunks r),
                rm_output = out\<rparr>, st')))"

definition deleteRun :: "run_store \<Rightarrow> string \<Rightarrow> bool \<times> run_store" where
  "deleteRun st rid =
     (get_run_record st rid \<noteq> None, st\<lparr>rs_records := jm_delete (rs_records st) rid\<rparr>)"

definition storeSize :: "run_store \<Rightarrow> nat" where
  "storeSize st = jm_size (rs_records st)"

definition clearStore :: "run_store \<Rightarrow> run_store" where
  "clearStore st = st\<lparr>rs_records := [], rs_nextArrivalIndex := 0\<rparr>"

lemmas run_store_defs [model_defs] =
  startRun_def appendChunk_def completeRun_def getOutput_def getRecord_def deleteRun_def
  clearStore_def getOrCreateRecord_def put_record_def get_run_record_def

section \<open>What the store promises\<close>

text \<open>
  The contract a caller sees: per run, the chunk payloads received since the run was last reset,
  deleted or cleared (\<open>history\<close>), joined in stable sequence order when every one carries a
  sequence number and in arrival order otherwise (\<open>spec_output\<close>).
\<close>

datatype run_event =
    EStart run_handle bool
  | EAppend run_chunk_payload
  | EComplete run_completed_payload
  | EOutput string
  | ERecord string
  | EDelete string
  | EClear

fun run_step :: "run_store \<Rightarrow> run_event \<Rightarrow> run_store" where
  "run_step st (EStart h reset) = startRun st h reset"
| "run_step st (EAppend p) = appendChunk st p"
| "run_step st (EComplete p) = completeRun st p"
| "run_step st (EOutput rid) = snd (getOutput st rid)"
| "run_step st (ERecord rid) = snd (getRecord st rid)"
| "run_step st (EDelete rid) = snd (deleteRun st rid)"
| "run_step st EClear = clearStore st"

fun history_step :: "string \<Rightarrow> run_chunk_payload list \<Rightarrow> run_event \<Rightarrow> run_chunk_payload list" where
  "history_step rid ps (EStart h reset) = (if reset \<and> h_runId h = rid then [] else ps)"
| "history_step rid ps (EAppend p) = (if cp_runId p = rid then ps @ [p] else ps)"
| "history_step rid ps (EComplete p) = ps"
| "history_step rid ps (EOutput r) = ps"
| "history_step rid ps (ERecord r) = ps"
| "history_step rid ps (EDelete r) = (if r = rid then [] else ps)"
| "history_step rid ps EClear = []"

definition history :: "string \<Rightarrow> run_event list \<Rightarrow> run_chunk_payload list" where
  "history rid es = run_events (history_step rid) [] es"

definition spec_output :: "run_chunk_payload list \<Rightarrow> string" where
  "spec_output ps =
     (if list_all (\<lambda>p. cp_seq p \<noteq> None) ps
      then concat (map cp_data (sort_key (\<lambda>p. the (cp_seq p)) ps))
      else concat (map cp_data ps))"

section \<open>Sorting\<close>

lemma joinChunks_concat: "joinChunks cs = concat (map rc_data cs)"
  by (auto simp: joinChunks_def split: list.splits)

lemma insort_key_cong_less:
  assumes "\<And>y. y \<in> set ys \<Longrightarrow> (f x \<le> f y) = (g x \<le> g y)"
  shows "insort_key f x ys = insort_key g x ys"
  using assms by (induction ys) auto

lemma sort_key_lex_stable:
  fixes f :: "'a \<Rightarrow> int" and g :: "'a \<Rightarrow> nat"
  assumes "sorted_wrt (<) (map g xs)"
  shows "sort_key (\<lambda>x. (f x, g x)) xs = sort_key f xs"
  using assms
proof (induction xs)
  case Nil
  then show ?case by simp
next
  case (Cons x xs)
  then have later: "\<And>y. y \<in> set xs \<Longrightarrow> g x < g y" by simp
  have "insort_key (\<lambda>x. (f x, g x)) x (sort_key f xs) = insort_key f x (sort_key f xs)"
    by (rule insort_key_cong_less) (use later in \<open>force simp: less_eq_prod_def\<close>)
  with Cons show ?case by simp
qed

lemma sort_key_cong_on: "(\<And>x. x \<in> set xs \<Longrightarrow> f x = g x) \<Longrightarrow> sort_key f xs = sort_key g xs"
  by (induction xs) (auto intro!: insort_key_cong_less)

lemma insort_key_map: "map h (insort_key (\<lambda>x. f (h x)) x xs) = insort_key f (h x) (map h xs)"
  by (induction xs) auto

lemma sort_key_map: "map h (sort_key (\<lambda>x. f (h x)) xs) = sort_key f (map h xs)"
  by (induction xs) (auto simp: insort_key_map)

lemma sort_key_sorted_id: "sorted (map f xs) \<Longrightarrow> sort_key f xs = xs"
  by (rule sort_key_id_if_sorted)

section \<open>The invariant\<close>

definition reference_output :: "run_chunk list \<Rightarrow> string" where
  "reference_output cs = concat (map rc_data (sort_chunks cs))"

definition chunks_ok :: "nat \<Rightarrow> run_chunk list \<Rightarrow> bool" where
  "chunks_ok n cs \<longleftrightarrow>
     sorted_wrt (<) (map rc_arrivalIndex cs) \<and> (\<forall>c \<in> set cs. rc_arrivalIndex c < n)"

definition fast_path_ok :: "run_chunk list \<Rightarrow> bool" where
  "fast_path_ok cs \<longleftrightarrow>
     list_all (\<lambda>c. rc_seq c \<noteq> None) cs \<and> sorted (map (\<lambda>c. the (rc_seq c)) cs)"

definition record_ok :: "nat \<Rightarrow> string \<Rightarrow> run_record \<Rightarrow> bool" where
  "record_ok n rid r \<longleftrightarrow>
     rr_runId r = rid \<and> chunks_ok n (rr_chunks r) \<and>
     (rr_chunksAreSorted r \<longrightarrow> fast_path_ok (rr_chunks r)) \<and>
     (\<forall>out. rr_cachedOutput r = Some out \<longrightarrow> out = reference_output (rr_chunks r))"

definition run_store_ok :: "run_store \<Rightarrow> bool" where
  "run_store_ok st \<longleftrightarrow>
     jm_wf (rs_records st) \<and>
     (\<forall>rid r. jm_get (rs_records st) rid = Some r \<longrightarrow>
        record_ok (rs_nextArrivalIndex st) rid r)"

lemma chunks_ok_snoc:
  "chunks_ok n cs \<Longrightarrow> rc_arrivalIndex c = n \<Longrightarrow> chunks_ok (n + 1) (cs @ [c])"
  by (auto simp: chunks_ok_def sorted_wrt_append intro: less_SucI)

lemma fast_path_ok_snoc:
  assumes "fast_path_ok cs" and "\<not> breaks_order cs (rc_seq c)"
  shows "fast_path_ok (cs @ [c])"
proof (cases cs rule: rev_cases)
  case Nil
  with assms show ?thesis by (auto simp: fast_path_ok_def breaks_order_def split: option.splits)
next
  case (snoc ds d)
  with assms show ?thesis
    by (fastforce simp: fast_path_ok_def breaks_order_def sorted_append split: option.splits)
qed

lemma sort_chunks_id: "chunks_ok n cs \<Longrightarrow> fast_path_ok cs \<Longrightarrow> sort_chunks cs = cs"
proof -
  assume ok: "chunks_ok n cs" and fp: "fast_path_ok cs"
  let ?f = "\<lambda>c. case rc_seq c of None \<Rightarrow> 0 | Some n \<Rightarrow> n"
  have eq: "map ?f cs = map (\<lambda>c. the (rc_seq c)) cs"
    using fp by (auto simp: fast_path_ok_def list_all_iff)
  have "sorted (map ?f cs)" unfolding eq using fp by (simp add: fast_path_ok_def)
  then have "sort_key ?f cs = cs" by (rule sort_key_id_if_sorted)
  moreover have "sort_key seq_key cs = sort_key ?f cs"
    using sort_key_lex_stable [of rc_arrivalIndex cs ?f] ok
    by (simp add: chunks_ok_def seq_key_def [abs_def])
  ultimately show ?thesis using fp by (simp add: sort_chunks_def fast_path_ok_def)
qed

lemma resolved_output:
  "record_ok n rid r \<Longrightarrow> joinChunks (resolveChunks r) = reference_output (rr_chunks r)"
  by (auto simp: record_ok_def resolveChunks_def joinChunks_concat reference_output_def
      dest: sort_chunks_id)

lemma record_ok_mono: "record_ok n rid r \<Longrightarrow> n \<le> m \<Longrightarrow> record_ok m rid r"
  by (auto simp: record_ok_def chunks_ok_def dest!: bspec)

lemma reference_output_Nil [simp]: "reference_output [] = ''''"
  by (simp add: reference_output_def sort_chunks_def)

lemma record_ok_empty: "rr_runId r = rid \<Longrightarrow> rr_chunks r = [] \<Longrightarrow> rr_cachedOutput r = Some '''' \<Longrightarrow>
  record_ok n rid r"
  by (simp add: record_ok_def chunks_ok_def fast_path_ok_def)

lemma record_ok_fresh [simp]: "record_ok n rid (fresh_run_record rid sid t)"
  by (rule record_ok_empty) (simp_all add: fresh_run_record_def)

lemma run_store_okD:
  "run_store_ok st \<Longrightarrow> get_run_record st rid = Some r \<Longrightarrow>
   record_ok (rs_nextArrivalIndex st) rid r"
  by (simp add: run_store_ok_def get_run_record_def)

lemma put_record_ok:
  "run_store_ok st \<Longrightarrow> record_ok (rs_nextArrivalIndex st) rid r \<Longrightarrow>
   run_store_ok (put_record st rid r)"
  by (auto simp: run_store_ok_def put_record_def)

lemma get_put_record [simp]:
  "get_run_record (put_record st rid r) rid' =
     (if rid' = rid then Some r else get_run_record st rid')"
  by (simp add: get_run_record_def put_record_def)

lemma put_record_next [simp]: "rs_nextArrivalIndex (put_record st rid r) = rs_nextArrivalIndex st"
  by (simp add: put_record_def)

lemma getOrCreateRecord_ok:
  assumes "run_store_ok st" and "getOrCreateRecord st rid sid = (r, st')"
  shows "run_store_ok st' \<and> record_ok (rs_nextArrivalIndex st') rid r \<and>
         rs_nextArrivalIndex st' = rs_nextArrivalIndex st"
  using assms
  by (auto simp: getOrCreateRecord_def Let_def put_record_ok dest: run_store_okD
      split: option.splits)

lemma record_ok_meta:
  "record_ok n rid r \<Longrightarrow> record_ok n rid (r\<lparr>rr_sessionId := sid, rr_startedAt := t\<rparr>)"
  "record_ok n rid r \<Longrightarrow> record_ok n rid (r\<lparr>rr_completedAt := t, rr_exitCode := c\<rparr>)"
  "record_ok n rid r \<Longrightarrow> record_ok n rid (r\<lparr>rr_cachedOutput := Some (reference_output (rr_chunks r))\<rparr>)"
  by (auto simp: record_ok_def)

lemma record_ok_runId: "record_ok n rid r \<Longrightarrow> rr_runId r = rid"
  by (simp add: record_ok_def)

lemma startRun_ok [inv_intros]:
  assumes ok: "run_store_ok st"
  shows "run_store_ok (startRun st h reset)"
proof (cases "get_run_record st (h_runId h)")
  case None
  then show ?thesis by (simp add: startRun_def put_record_ok ok)
next
  case (Some r)
  note r = run_store_okD [OF ok Some]
  show ?thesis
  proof (cases reset)
    case True
    with Some show ?thesis
      using record_ok_runId [OF r]
      by (simp add: startRun_def Let_def put_record_ok [OF ok] record_ok_empty)
  next
    case False
    with Some show ?thesis
      by (simp add: startRun_def Let_def put_record_ok [OF ok record_ok_meta(1) [OF r]])
  qed
qed

lemma record_ok_append:
  assumes "record_ok n rid r"
  shows "record_ok (n + 1) rid
     (r\<lparr>rr_chunksAreSorted := (if rr_chunksAreSorted r \<and> breaks_order (rr_chunks r) sq then False
                               else rr_chunksAreSorted r),
        rr_chunks := rr_chunks r @ [\<lparr>rc_seq = sq, rc_arrivalIndex = n, rc_data = d\<rparr>],
        rr_cachedOutput := None\<rparr>)"
  using assms
  by (auto simp: record_ok_def intro: chunks_ok_snoc [simplified] fast_path_ok_snoc)

lemma run_store_ok_next:
  "run_store_ok st \<Longrightarrow> n \<ge> rs_nextArrivalIndex st \<Longrightarrow>
   run_store_ok (st\<lparr>rs_nextArrivalIndex := n\<rparr>)"
  by (auto simp: run_store_ok_def intro: record_ok_mono)

lemma appendChunk_ok [inv_intros]: "run_store_ok st \<Longrightarrow> run_store_ok (appendChunk st p)"
proof -
  assume ok: "run_store_ok st"
  obtain r st1 where g: "getOrCreateRecord st (cp_runId p) (cp_sessionId p) = (r, st1)"
    by (cases "getOrCreateRecord st (cp_runId p) (cp_sessionId p)")
  note g1 = getOrCreateRecord_ok [OF ok g]
  then have r: "record_ok (rs_nextArrivalIndex st1) (cp_runId p) r"
    and ok2: "run_store_ok (st1\<lparr>rs_nextArrivalIndex := rs_nextArrivalIndex st1 + 1\<rparr>)"
    by (auto intro: run_store_ok_next)
  show ?thesis
    unfolding appendChunk_def g Let_def prod.case
    by (rule put_record_ok [OF ok2]) (use record_ok_append [OF r] in simp)
qed

lemma completeRun_ok [inv_intros]:
  assumes ok: "run_store_ok st"
  shows "run_store_ok (completeRun st p)"
proof -
  obtain r st1 where g: "getOrCreateRecord st (fp_runId p) (fp_sessionId p) = (r, st1)"
    by (cases "getOrCreateRecord st (fp_runId p) (fp_sessionId p)")
  have "run_store_ok st1" and "record_ok (rs_nextArrivalIndex st1) (fp_runId p) r"
    using getOrCreateRecord_ok [OF ok g] by blast+
  then show ?thesis
    by (simp add: completeRun_def g put_record_ok record_ok_meta(2))
qed

lemma getOutput_ok [inv_intros]:
  assumes ok: "run_store_ok st"
  shows "run_store_ok (snd (getOutput st rid))"
proof (cases "get_run_record st rid")
  case None
  then show ?thesis by (simp add: getOutput_def ok)
next
  case (Some r)
  note r = run_store_okD [OF ok Some]
  show ?thesis
    using Some ok record_ok_meta(3) [OF r] resolved_output [OF r]
    by (auto simp: getOutput_def Let_def intro: put_record_ok split: option.splits)
qed

lemma getRecord_snd: "snd (getRecord st rid) = snd (getOutput st rid)"
  by (auto simp: getRecord_def getOutput_def split: option.splits prod.splits)

lemma deleteRun_ok [inv_intros]: "run_store_ok st \<Longrightarrow> run_store_ok (snd (deleteRun st rid))"
  by (auto simp: deleteRun_def run_store_ok_def split: if_splits)

lemma clearStore_ok [inv_intros]: "run_store_ok (clearStore st)"
  by (simp add: clearStore_def run_store_ok_def)

lemma run_step_ok [inv_intros]: "run_store_ok st \<Longrightarrow> run_store_ok (run_step st e)"
  by (cases e) (simp_all add: inv_intros getRecord_snd)

lemma empty_run_store_ok: "run_store_ok empty_run_store"
  by (simp add: empty_run_store_def run_store_ok_def)

interpretation rs: machine run_step empty_run_store run_store_ok
  by unfold_locales (rule empty_run_store_ok, rule run_step_ok)

section \<open>Refinement of the contract\<close>

text \<open>
  The chunks of a run carry exactly the sequence numbers and data of its history, in arrival
  order; a run with no record has an empty history.
\<close>

definition chunk_view :: "run_chunk \<Rightarrow> int option \<times> string" where
  "chunk_view c = (rc_seq c, rc_data c)"

definition payload_view :: "run_chunk_payload \<Rightarrow> int option \<times> string" where
  "payload_view p = (cp_seq p, cp_data p)"

definition run_chunks :: "run_store \<Rightarrow> string \<Rightarrow> run_chunk list" where
  "run_chunks st rid = (case get_run_record st rid of None \<Rightarrow> [] | Some r \<Rightarrow> rr_chunks r)"

definition simulates :: "string \<Rightarrow> run_store \<Rightarrow> run_chunk_payload list \<Rightarrow> bool" where
  "simulates rid st ps \<longleftrightarrow> map chunk_view (run_chunks st rid) = map payload_view ps"

lemma run_chunks_put [simp]:
  "run_chunks (put_record st rid' r) rid = (if rid = rid' then rr_chunks r else run_chunks st rid)"
  by (simp add: run_chunks_def)

lemma run_chunks_next [simp]:
  "run_chunks (st\<lparr>rs_nextArrivalIndex := n\<rparr>) rid = run_chunks st rid"
  by (simp add: run_chunks_def get_run_record_def)

lemma run_chunks_startRun:
  "run_chunks (startRun st h reset) rid =
     (if reset \<and> h_runId h = rid then [] else run_chunks st rid)"
  by (auto simp: startRun_def Let_def fresh_run_record_def split: option.splits)
    (auto simp: run_chunks_def)

lemma getOrCreateRecord_chunks:
  "getOrCreateRecord st rid' sid = (r, st') \<Longrightarrow>
   run_chunks st' rid = run_chunks st rid \<and> rr_chunks r = run_chunks st rid'"
  by (auto simp: getOrCreateRecord_def Let_def fresh_run_record_def split: option.splits)
    (auto simp: run_chunks_def)

lemma run_chunks_appendChunk:
  "run_chunks (appendChunk st p) rid =
     (if cp_runId p = rid
      then run_chunks st rid @
           [\<lparr>rc_seq = cp_seq p, rc_arrivalIndex = rs_nextArrivalIndex st, rc_data = cp_data p\<rparr>]
      else run_chunks st rid)"
proof -
  obtain r st1 where g: "getOrCreateRecord st (cp_runId p) (cp_sessionId p) = (r, st1)"
    by (cases "getOrCreateRecord st (cp_runId p) (cp_sessionId p)")
  have n: "rs_nextArrivalIndex st1 = rs_nextArrivalIndex st"
    using g by (auto simp: getOrCreateRecord_def Let_def split: option.splits)
  show ?thesis
    using getOrCreateRecord_chunks [OF g]
    by (auto simp: appendChunk_def g Let_def n)
qed

lemma run_chunks_completeRun [simp]: "run_chunks (completeRun st p) rid = run_chunks st rid"
proof -
  obtain r st1 where g: "getOrCreateRecord st (fp_runId p) (fp_sessionId p) = (r, st1)"
    by (cases "getOrCreateRecord st (fp_runId p) (fp_sessionId p)")
  show ?thesis
    using getOrCreateRecord_chunks [OF g] by (auto simp: completeRun_def g)
qed

lemma run_chunks_getOutput [simp]: "run_chunks (snd (getOutput st r)) rid = run_chunks st rid"
  by (auto simp: getOutput_def Let_def split: option.splits) (auto simp: run_chunks_def)

lemma run_chunks_delete [simp]:
  "run_chunks (snd (deleteRun st r)) rid = (if r = rid then [] else run_chunks st rid)"
  by (auto simp: deleteRun_def run_chunks_def get_run_record_def)

lemma run_chunks_clear [simp]: "run_chunks (clearStore st) rid = []"
  by (simp add: clearStore_def run_chunks_def get_run_record_def)

lemma simulates_step:
  "simulates rid st ps \<Longrightarrow> simulates rid (run_step st e) (history_step rid ps e)"
  by (cases e) (auto simp: simulates_def getRecord_snd run_chunks_startRun run_chunks_appendChunk
      chunk_view_def payload_view_def)

lemma simulates_run:
  "simulates rid st ps \<Longrightarrow>
   simulates rid (run_events run_step st es) (run_events (history_step rid) ps es)"
  by (induction es arbitrary: st ps) (auto intro: simulates_step)

lemma simulates_history: "simulates rid (run_events run_step empty_run_store es) (history rid es)"
  unfolding history_def
  by (rule simulates_run)
    (simp add: simulates_def run_chunks_def get_run_record_def empty_run_store_def)

lemma sort_chunks_stable:
  assumes "chunks_ok n cs" and "list_all (\<lambda>c. rc_seq c \<noteq> None) cs"
  shows "sort_chunks cs = sort_key (\<lambda>c. the (rc_seq c)) cs"
proof -
  have "sort_key seq_key cs = sort_key (\<lambda>c. (the (rc_seq c), rc_arrivalIndex c)) cs"
    using assms(2) by (intro sort_key_cong_on) (auto simp: seq_key_def list_all_iff)
  also have "\<dots> = sort_key (\<lambda>c. the (rc_seq c)) cs"
    using assms(1) by (intro sort_key_lex_stable) (simp add: chunks_ok_def)
  finally show ?thesis using assms(2) by (simp add: sort_chunks_def)
qed

lemma sort_chunks_arrival:
  "chunks_ok n cs \<Longrightarrow> \<not> list_all (\<lambda>c. rc_seq c \<noteq> None) cs \<Longrightarrow> sort_chunks cs = cs"
  by (simp add: sort_chunks_def chunks_ok_def sort_key_id_if_sorted strict_sorted_imp_sorted)

lemma reference_output_view:
  assumes ok: "chunks_ok n cs" and sim: "map chunk_view cs = map payload_view ps"
  shows "reference_output cs = spec_output ps"
proof -
  have len: "list_all (\<lambda>c. rc_seq c \<noteq> None) cs = list_all (\<lambda>p. cp_seq p \<noteq> None) ps"
    using arg_cong [OF sim, of "list_all (\<lambda>v. fst v \<noteq> None)"]
    by (simp add: list_all_length chunk_view_def payload_view_def list.pred_map comp_def)
  have data: "map rc_data cs = map cp_data ps"
    using arg_cong [OF sim, of "map snd"]
    by (simp add: chunk_view_def payload_view_def comp_def)
  let ?key = "\<lambda>v :: int option \<times> string. the (fst v)"
  have sorted_data: "map rc_data (sort_key (\<lambda>c. the (rc_seq c)) cs) =
      map cp_data (sort_key (\<lambda>p. the (cp_seq p)) ps)"
    using arg_cong [OF sim, of "\<lambda>vs. map snd (sort_key ?key vs)"]
    by (simp add: sort_key_map [symmetric] chunk_view_def payload_view_def comp_def)
  show ?thesis
  proof (cases "list_all (\<lambda>c. rc_seq c \<noteq> None) cs")
    case True
    then show ?thesis
      using sorted_data len
      by (simp add: reference_output_def spec_output_def sort_chunks_stable [OF ok])
  next
    case False
    then show ?thesis
      using data len
      by (simp add: reference_output_def spec_output_def sort_chunks_arrival [OF ok])
  qed
qed

lemma getOutput_reference:
  assumes ok: "run_store_ok st"
  shows "fst (getOutput st rid) = reference_output (run_chunks st rid)"
proof (cases "get_run_record st rid")
  case None
  then show ?thesis by (simp add: getOutput_def run_chunks_def)
next
  case (Some r)
  note r = run_store_okD [OF ok Some]
  show ?thesis
    using Some r resolved_output [OF r]
    by (auto simp: getOutput_def run_chunks_def Let_def record_ok_def split: option.splits)
qed

lemma run_chunks_ok: "run_store_ok st \<Longrightarrow> chunks_ok (rs_nextArrivalIndex st) (run_chunks st rid)"
  by (auto simp: run_chunks_def chunks_ok_def dest!: run_store_okD simp: record_ok_def
      split: option.splits)

lemma output_refines:
  "fst (getOutput (run_events run_step empty_run_store es) rid) = spec_output (history rid es)"
proof -
  let ?st = "run_events run_step empty_run_store es"
  have ok: "run_store_ok ?st" by (rule rs.inv_run)
  have "reference_output (run_chunks ?st rid) = spec_output (history rid es)"
    by (rule reference_output_view [OF run_chunks_ok [OF ok]])
      (use simulates_history in \<open>simp add: simulates_def\<close>)
  then show ?thesis by (simp add: getOutput_reference [OF ok])
qed

lemma sort_key_mset_eq:
  assumes "mset xs = mset ys" and "distinct (map f xs)"
  shows "sort_key f xs = sort_key f ys"
proof -
  have eq: "mset (sort_key f xs) = mset (sort_key f ys)" using assms(1) by simp
  have inj: "inj_on f (set (sort_key f xs))" using assms(2) by (simp add: distinct_map)
  have "sort (map f xs) = sort (map f ys)"
    using assms(1) by (metis mset_map properties_for_sort sorted_sort mset_sort)
  then have "map f (sort_key f xs) = map f (sort_key f ys)"
    using sort_key_map [of f "\<lambda>x. x" xs] sort_key_map [of f "\<lambda>x. x" ys] by simp
  then show ?thesis
    using inj eq by (metis map_inj_on mset_eq_setD sup.idem)
qed

lemma spec_output_perm:
  assumes "mset ps = mset qs" and "\<forall>p \<in> set ps. cp_seq p \<noteq> None"
    and "distinct (map (\<lambda>p. the (cp_seq p)) ps)"
  shows "spec_output ps = spec_output qs"
proof -
  have "set ps = set qs" using assms(1) by (metis set_mset_mset)
  then have "list_all (\<lambda>p. cp_seq p \<noteq> None) ps" "list_all (\<lambda>p. cp_seq p \<noteq> None) qs"
    using assms(2) by (simp_all add: list_all_iff)
  with sort_key_mset_eq [OF assms(1,3)] show ?thesis by (simp add: spec_output_def)
qed

section \<open>Completion is written once\<close>

fun forgets :: "string \<Rightarrow> run_event \<Rightarrow> bool" where
  "forgets rid (EStart h reset) = (reset \<and> h_runId h = rid)"
| "forgets rid (EDelete r) = (r = rid)"
| "forgets rid EClear = True"
| "forgets rid _ = False"

definition completion :: "run_store \<Rightarrow> string \<Rightarrow> (string \<times> int option) option" where
  "completion st rid =
     (case getMetadata st rid of
        None \<Rightarrow> None
      | Some m \<Rightarrow> (case rm_completedAt m of None \<Rightarrow> None | Some t \<Rightarrow> Some (t, rm_exitCode m)))"

lemma completion_record:
  "completion st rid =
     (case get_run_record st rid of
        None \<Rightarrow> None
      | Some r \<Rightarrow> (case rr_completedAt r of None \<Rightarrow> None | Some t \<Rightarrow> Some (t, rr_exitCode r)))"
  by (simp add: completion_def getMetadata_def split: option.splits)

lemma get_run_record_next [simp]:
  "get_run_record (st\<lparr>rs_nextArrivalIndex := n\<rparr>) rid = get_run_record st rid"
  by (simp add: get_run_record_def)

lemma completion_step:
  assumes "completion st rid = Some c" and "\<not> forgets rid e"
  shows "completion (run_step st e) rid = Some c"
proof (cases e)
  case (EDelete r)
  with assms show ?thesis
    by (simp add: completion_record deleteRun_def get_run_record_def)
qed (use assms in \<open>auto simp: completion_record startRun_def appendChunk_def completeRun_def
    getRecord_snd getOutput_def getOrCreateRecord_def Let_def fresh_run_record_def
    split: option.splits if_splits\<close>)

lemma completion_run:
  "completion st rid = Some c \<Longrightarrow> list_all (\<lambda>e. \<not> forgets rid e) es \<Longrightarrow>
   completion (run_events run_step st es) rid = Some c"
  by (induction es arbitrary: st) (auto intro: completion_step)

section \<open>The interface the facade uses\<close>

text \<open>
  A client that only starts runs, appends chunks and completes runs can rely on a started run
  staying started.
\<close>

locale run_sink =
  fixes started :: "'st \<Rightarrow> string \<Rightarrow> bool"
    and start :: "'st \<Rightarrow> run_handle \<Rightarrow> bool \<Rightarrow> 'st"
    and append :: "'st \<Rightarrow> run_chunk_payload \<Rightarrow> 'st"
    and finish :: "'st \<Rightarrow> run_completed_payload \<Rightarrow> 'st"
  assumes started_start: "started (start st h reset) rid \<longleftrightarrow> rid = h_runId h \<or> started st rid"
    and started_append [simp]: "started (append st p) rid = started st rid"
    and started_finish [simp]: "started (finish st q) rid = started st rid"
begin

lemma start_starts [simp]: "started (start st h reset) (h_runId h)"
  by (simp add: started_start)

lemma started_mono: "started st rid \<Longrightarrow> started (start st h reset) rid"
  by (simp add: started_start)

end

definition run_started :: "run_store \<Rightarrow> string \<Rightarrow> bool" where
  "run_started st rid \<longleftrightarrow>
     (case get_run_record st rid of None \<Rightarrow> False | Some r \<Rightarrow> rr_startedAt r \<noteq> None)"

interpretation sink: run_sink run_started startRun appendChunk completeRun
  by unfold_locales
    (auto simp: run_started_def startRun_def appendChunk_def completeRun_def getOrCreateRecord_def
      Let_def fresh_run_record_def split: option.splits)

section \<open>Properties\<close>

text \<open>C15: The cached, fast-path output of any run, after any sequence of store operations, is the
  stable sequence-ordered (or, lacking a sequence number, arrival-ordered) concatenation of the
  chunks it received since it was last reset, deleted or cleared.\<close>

theorem run_output_refines_history:
  "fst (getOutput (run_events run_step empty_run_store es) rid) = spec_output (history rid es)"
  by (rule output_refines)

text \<open>Chunks that carry distinct sequence numbers give the same output in whatever order the
  events arrive, interleaved with anything else.\<close>

theorem run_output_arrival_independent:
  assumes "mset (history rid es) = mset (history rid fs)"
    and "\<forall>p \<in> set (history rid es). cp_seq p \<noteq> None"
    and "distinct (map (\<lambda>p. the (cp_seq p)) (history rid es))"
  shows "fst (getOutput (run_events run_step empty_run_store es) rid) =
         fst (getOutput (run_events run_step empty_run_store fs) rid)"
  unfolding output_refines by (rule spec_output_perm [OF assms])

definition demo_chunk :: "int \<Rightarrow> string \<Rightarrow> run_event" where
  "demo_chunk n d = EAppend \<lparr>cp_sessionId = ''s'', cp_runId = ''r'', cp_data = d, cp_seq = Some n\<rparr>"

theorem run_output_arrival_independent_witness:
  "fst (getOutput (run_events run_step empty_run_store [demo_chunk 1 ''a'', demo_chunk 2 ''b'']) ''r'') =
   fst (getOutput (run_events run_step empty_run_store
     [demo_chunk 2 ''b'', EOutput ''r'', demo_chunk 1 ''a'']) ''r'')"
  by (rule run_output_arrival_independent) (simp_all add: history_def demo_chunk_def)

text \<open>Once a run is recorded as completed, its completion time and exit code survive every
  later event that does not reset, delete or clear it, duplicate completions included.\<close>

theorem completion_first_write_wins:
  assumes "completion st rid = Some c" and "list_all (\<lambda>e. \<not> forgets rid e) es"
  shows "completion (run_events run_step st es) rid = Some c"
  by (rule completion_run [OF assms])

theorem completion_first_write_wins_witness:
  "completion (run_events run_step (completeRun empty_run_store
      \<lparr>fp_sessionId = ''s'', fp_runId = ''r'', fp_exitCode = Some 0, fp_finishedAt = ''t1''\<rparr>)
     [EComplete \<lparr>fp_sessionId = ''s'', fp_runId = ''r'', fp_exitCode = Some 1,
        fp_finishedAt = ''t2''\<rparr>, demo_chunk 1 ''late'']) ''r'' = Some (''t1'', Some 0)"
  by (rule completion_first_write_wins)
    (simp_all add: completion_record completeRun_def getOrCreateRecord_def put_record_def
      get_run_record_def empty_run_store_def fresh_run_record_def demo_chunk_def Let_def)

end
