(* ===== verification/RuntimeState.thy ===== *)
theory RuntimeState
  imports RunStore
begin

text \<open>
  The terminal runtime store (\<open>src/store/terminal.ts\<close>): the runtime state, the active run
  and the flow diagnostics, with one function per store action. A clock reading that an action
  takes (\<open>nowIso()\<close>) is an argument. Characters of a \<open>string\<close> are the code units up to
  255, so UTF-8 takes one byte below 128 and two above.
\<close>

section \<open>Data\<close>

datatype runtime_state =
  Booting | Idle_interactive | Switching_to_run | Running | Switching_to_idle

datatype cancel_mode = Graceful | Kill

datatype input_route = RouteInteractive | RouteRun | RouteBuffered | RouteDropped

datatype data_source = SrcInteractive | SrcRun | SrcInjectedReset | SrcInjectedSeparator

text \<open>\<open>ITerminalDataEvent\<close> and \<open>ITerminalVisualWritePayload\<close> have the same fields.\<close>

record terminal_data_event =
  td_sessionId :: string
  td_data :: string
  td_source :: "data_source option"
  td_seq :: "int option"
  td_runId :: "string option"
  td_runSeq :: "int option"

record buffer_diagnostic =
  bd_label :: string
  bd_at :: string
  bd_cursorX :: int
  bd_cursorY :: int
  bd_baseY :: int
  bd_viewportY :: int
  bd_rows :: int
  bd_cols :: int
  bd_bufferLength :: int
  bd_visible :: bool
  bd_activeRunId :: "string option"
  bd_pendingWriteChars :: int
  bd_hiddenBacklogChars :: int
  bd_hostWidth :: "int option"
  bd_hostHeight :: "int option"
  bd_writePreview :: "string option"
  bd_lastLines :: "string list"

record frame_diagnostic =
  fd_index :: nat
  fd_at :: string
  fd_source :: "data_source option"
  fd_seq :: "int option"
  fd_runId :: "string option"
  fd_runSeq :: "int option"
  fd_bytes :: nat
  fd_preview :: string

record flow_diagnostics =
  runChunkCount :: nat
  runChunkBytes :: nat
  terminalDataChunks :: nat
  terminalDataBytes :: nat
  visualWriteChunks :: nat
  visualWriteBytes :: nat
  injectedResetEvents :: nat
  injectedSeparatorEvents :: nat
  lastTerminalDataSeq :: "int option"
  recentTerminalData :: "frame_diagnostic list"
  recentVisualWrites :: "frame_diagnostic list"
  bufferDiagnostics :: "buffer_diagnostic list"
  preRunTerminalData :: "frame_diagnostic list"
  preRunVisualWrites :: "frame_diagnostic list"
  preRunBufferDiagnostics :: "buffer_diagnostic list"
  inputEvents :: nat
  droppedInputEvents :: nat
  lastInputRoute :: "input_route option"
  lastEventName :: "string option"
  lastEventAt :: "string option"
  lastRunId :: "string option"
  lastExitCode :: "int option"
  lastCompletedAt :: "string option"
  cancelRequestedAt :: "string option"
  cancelMode :: "cancel_mode option"

record runtime_store =
  rt_state :: runtime_state
  rt_activeRun :: "run_handle option"
  rt_interactiveReady :: bool
  rt_showRunSeparator :: bool
  rt_deepDiagnosticsEnabled :: bool
  rt_diagnostics :: flow_diagnostics

record state_changed_payload =
  sc_from :: runtime_state
  sc_to :: runtime_state
  sc_atMs :: int

section \<open>Helpers\<close>

definition MAX_RECENT_FRAMES :: nat where "MAX_RECENT_FRAMES = 12"
definition MAX_BUFFER_DIAGNOSTICS :: nat where "MAX_BUFFER_DIAGNOSTICS = 24"
definition FRAME_PREVIEW_MAX_LENGTH :: nat where "FRAME_PREVIEW_MAX_LENGTH = 120"

fun state_name :: "runtime_state \<Rightarrow> string" where
  "state_name Booting = ''booting''"
| "state_name Idle_interactive = ''idle_interactive''"
| "state_name Switching_to_run = ''switching_to_run''"
| "state_name Running = ''running''"
| "state_name Switching_to_idle = ''switching_to_idle''"

fun source_name :: "data_source \<Rightarrow> string" where
  "source_name SrcInteractive = ''interactive''"
| "source_name SrcRun = ''run''"
| "source_name SrcInjectedReset = ''injected_reset''"
| "source_name SrcInjectedSeparator = ''injected_separator''"

fun route_name :: "input_route \<Rightarrow> string" where
  "route_name RouteInteractive = ''interactive''"
| "route_name RouteRun = ''run''"
| "route_name RouteBuffered = ''buffered''"
| "route_name RouteDropped = ''dropped''"

definition measureBytes :: "string \<Rightarrow> nat" where
  "measureBytes s = sum_list (map (\<lambda>c. if of_char c < (128 :: nat) then 1 else 2) s)"

fun escape_char :: "char \<Rightarrow> string" where
  "escape_char c =
     (if c = CHR 0x0D then [CHR 0x5C, CHR ''r'']
      else if c = CHR 0x0A then [CHR 0x5C, CHR ''n'']
      else if c = CHR 0x1B then CHR 0x5C # ''x1b''
      else [c])"

definition previewFrameData :: "string \<Rightarrow> string" where
  "previewFrameData s = take FRAME_PREVIEW_MAX_LENGTH (concat (map escape_char s))"

definition appendCapped :: "'a list \<Rightarrow> 'a \<Rightarrow> nat \<Rightarrow> 'a list" where
  "appendCapped target item maxSize =
     (let pushed = target @ [item]
      in if length pushed > maxSize then drop (length pushed - maxSize) pushed else pushed)"

definition createFrameDiagnostic :: "string \<Rightarrow> terminal_data_event \<Rightarrow> nat \<Rightarrow> frame_diagnostic" where
  "createFrameDiagnostic now p index =
     \<lparr>fd_index = index, fd_at = now, fd_source = td_source p, fd_seq = td_seq p,
      fd_runId = td_runId p, fd_runSeq = td_runSeq p, fd_bytes = measureBytes (td_data p),
      fd_preview = previewFrameData (td_data p)\<rparr>"

definition pushRecentFrame ::
  "string \<Rightarrow> frame_diagnostic list \<Rightarrow> terminal_data_event \<Rightarrow> nat \<Rightarrow> frame_diagnostic list" where
  "pushRecentFrame now target p index =
     appendCapped target (createFrameDiagnostic now p index) MAX_RECENT_FRAMES"

definition or_str :: "string \<Rightarrow> string \<Rightarrow> string" where
  "or_str a b = (if a \<noteq> [] then a else b)"

definition or_else :: "'a option \<Rightarrow> 'a option \<Rightarrow> 'a option" where
  "or_else a b = (case a of None \<Rightarrow> b | Some x \<Rightarrow> Some x)"

definition mergeRunHandle :: "run_handle \<Rightarrow> run_handle \<Rightarrow> run_handle" where
  "mergeRunHandle cur nxt =
     \<lparr>h_runId = h_runId nxt,
      h_sessionId = or_str (h_sessionId nxt) (h_sessionId cur),
      h_cwd = or_str (h_cwd nxt) (h_cwd cur),
      h_commandLine = or_str (h_commandLine nxt) (h_commandLine cur),
      h_usedTempFile =
        (if h_commandLine nxt \<noteq> [] \<or> h_cwd nxt \<noteq> [] then h_usedTempFile nxt
         else h_usedTempFile cur),
      h_startedAt = or_str (h_startedAt nxt) (h_startedAt cur),
      h_startedAtMs = or_else (h_startedAtMs nxt) (h_startedAtMs cur),
      h_pid = or_else (h_pid nxt) (h_pid cur)\<rparr>"

definition createEmptyDiagnostics :: flow_diagnostics where
  "createEmptyDiagnostics =
     \<lparr>runChunkCount = 0, runChunkBytes = 0, terminalDataChunks = 0, terminalDataBytes = 0,
      visualWriteChunks = 0, visualWriteBytes = 0, injectedResetEvents = 0,
      injectedSeparatorEvents = 0, lastTerminalDataSeq = None, recentTerminalData = [],
      recentVisualWrites = [], bufferDiagnostics = [], preRunTerminalData = [],
      preRunVisualWrites = [], preRunBufferDiagnostics = [], inputEvents = 0,
      droppedInputEvents = 0, lastInputRoute = None, lastEventName = None, lastEventAt = None,
      lastRunId = None, lastExitCode = None, lastCompletedAt = None, cancelRequestedAt = None,
      cancelMode = None\<rparr>"

section \<open>Actions\<close>

definition initial_runtime :: runtime_store where
  "initial_runtime =
     \<lparr>rt_state = Booting, rt_activeRun = None, rt_interactiveReady = False,
      rt_showRunSeparator = True, rt_deepDiagnosticsEnabled = False,
      rt_diagnostics = createEmptyDiagnostics\<rparr>"

definition update_diagnostics ::
  "(flow_diagnostics \<Rightarrow> flow_diagnostics) \<Rightarrow> runtime_store \<Rightarrow> runtime_store" where
  "update_diagnostics f s = s\<lparr>rt_diagnostics := f (rt_diagnostics s)\<rparr>"

definition markEvent :: "string \<Rightarrow> string \<Rightarrow> runtime_store \<Rightarrow> runtime_store" where
  "markEvent now name s =
     (if \<not> rt_deepDiagnosticsEnabled s then s
      else update_diagnostics (\<lambda>d. d\<lparr>lastEventName := Some name, lastEventAt := Some now\<rparr>) s)"

definition markInteractiveReady :: "string \<Rightarrow> runtime_store \<Rightarrow> runtime_store" where
  "markInteractiveReady now s =
     markEvent now ''terminal:interactive-ready'' (s\<lparr>rt_interactiveReady := True\<rparr>)"

definition markInteractiveExited :: "string \<Rightarrow> runtime_store \<Rightarrow> runtime_store" where
  "markInteractiveExited now s =
     markEvent now ''terminal:interactive-exited'' (s\<lparr>rt_interactiveReady := False\<rparr>)"

definition markSwitchingToRun :: "string \<Rightarrow> runtime_store \<Rightarrow> runtime_store" where
  "markSwitchingToRun now s =
     markEvent now ''terminal:switching-to-run'' (s\<lparr>rt_state := Switching_to_run\<rparr>)"

definition is_active :: "runtime_store \<Rightarrow> string \<Rightarrow> bool" where
  "is_active s rid = (case rt_activeRun s of None \<Rightarrow> False | Some h \<Rightarrow> h_runId h = rid)"

definition markRunStarted :: "string \<Rightarrow> run_handle \<Rightarrow> runtime_store \<Rightarrow> runtime_store" where
  "markRunStarted now run s =
     (if is_active s (h_runId run)
      then markEvent now ''terminal:run-started''
             (update_diagnostics (\<lambda>d. d\<lparr>lastRunId := Some (h_runId run)\<rparr>)
               (s\<lparr>rt_activeRun := map_option (\<lambda>cur. mergeRunHandle cur run) (rt_activeRun s)\<rparr>))
      else s\<lparr>rt_activeRun := Some run,
             rt_diagnostics := createEmptyDiagnostics
               \<lparr>preRunTerminalData := recentTerminalData (rt_diagnostics s),
                preRunVisualWrites := recentVisualWrites (rt_diagnostics s),
                preRunBufferDiagnostics := bufferDiagnostics (rt_diagnostics s),
                lastRunId := Some (h_runId run),
                lastEventName := Some ''terminal:run-started'',
                lastEventAt := Some now\<rparr>\<rparr>)"

definition updateActiveRun :: "run_handle \<Rightarrow> runtime_store \<Rightarrow> runtime_store" where
  "updateActiveRun run s =
     (if \<not> is_active s (h_runId run) then s
      else s\<lparr>rt_activeRun := map_option (\<lambda>cur. mergeRunHandle cur run) (rt_activeRun s)\<rparr>)"

definition markSwitchingToIdle :: "string \<Rightarrow> runtime_store \<Rightarrow> runtime_store" where
  "markSwitchingToIdle now s =
     (if rt_activeRun s = None then s
      else markEvent now ''terminal:switching-to-idle'' (s\<lparr>rt_state := Switching_to_idle\<rparr>))"

definition markRunCompleted ::
  "string \<Rightarrow> string \<Rightarrow> int option \<Rightarrow> string \<Rightarrow> runtime_store \<Rightarrow> runtime_store" where
  "markRunCompleted now rid exitCode finishedAt s =
     markEvent now ''terminal:run-completed''
       (update_diagnostics
          (\<lambda>d. d\<lparr>lastRunId := Some rid, lastExitCode := exitCode,
                 lastCompletedAt := Some finishedAt\<rparr>)
          (if is_active s rid then s\<lparr>rt_activeRun := None\<rparr> else s))"

definition applyStateChanged :: "string \<Rightarrow> state_changed_payload \<Rightarrow> runtime_store \<Rightarrow> runtime_store" where
  "applyStateChanged now p s =
     (let s1 = s\<lparr>rt_state := sc_to p\<rparr>;
          s2 = (if sc_to p = Idle_interactive then s1\<lparr>rt_interactiveReady := True\<rparr>
                else if sc_to p = Booting then s1\<lparr>rt_interactiveReady := False\<rparr>
                else s1)
      in markEvent now
           (''terminal:state-changed:'' @ state_name (sc_from p) @ ''->'' @ state_name (sc_to p)) s2)"

definition recordTerminalData :: "string \<Rightarrow> terminal_data_event \<Rightarrow> runtime_store \<Rightarrow> runtime_store" where
  "recordTerminalData now p s =
     (if \<not> rt_deepDiagnosticsEnabled s then s
      else
        markEvent now
          (case td_source p of None \<Rightarrow> ''terminal:data''
           | Some src \<Rightarrow> ''terminal:data:'' @ source_name src)
          (update_diagnostics
            (\<lambda>d0.
              let n = terminalDataChunks d0 + 1;
                  d1 = d0\<lparr>terminalDataChunks := n,
                         terminalDataBytes := terminalDataBytes d0 + measureBytes (td_data p),
                         lastTerminalDataSeq := td_seq p,
                         recentTerminalData := pushRecentFrame now (recentTerminalData d0) p n\<rparr>
              in if td_source p = Some SrcInjectedReset
                 then d1\<lparr>injectedResetEvents := injectedResetEvents d1 + 1\<rparr>
                 else if td_source p = Some SrcInjectedSeparator
                 then d1\<lparr>injectedSeparatorEvents := injectedSeparatorEvents d1 + 1\<rparr>
                 else d1)
            s))"

definition recordVisualWrite :: "string \<Rightarrow> terminal_data_event \<Rightarrow> runtime_store \<Rightarrow> runtime_store" where
  "recordVisualWrite now p s =
     (if \<not> rt_deepDiagnosticsEnabled s then s
      else
        markEvent now
          (case td_source p of None \<Rightarrow> ''xterm:write''
           | Some src \<Rightarrow> ''xterm:write:'' @ source_name src)
          (update_diagnostics
            (\<lambda>d0.
              let n = visualWriteChunks d0 + 1
              in d0\<lparr>visualWriteChunks := n,
                    visualWriteBytes := visualWriteBytes d0 + measureBytes (td_data p),
                    recentVisualWrites := pushRecentFrame now (recentVisualWrites d0) p n\<rparr>)
            s))"

definition recordBufferDiagnostic ::
  "string \<Rightarrow> buffer_diagnostic \<Rightarrow> runtime_store \<Rightarrow> runtime_store" where
  "recordBufferDiagnostic now p s =
     (if \<not> rt_deepDiagnosticsEnabled s then s
      else
        markEvent now (''xterm:buffer:'' @ bd_label p)
          (update_diagnostics
            (\<lambda>d. d\<lparr>bufferDiagnostics :=
                      appendCapped (bufferDiagnostics d) p MAX_BUFFER_DIAGNOSTICS\<rparr>) s))"

definition recordRunChunk :: "string \<Rightarrow> string \<Rightarrow> string \<Rightarrow> runtime_store \<Rightarrow> runtime_store" where
  "recordRunChunk now rid data s =
     (if \<not> rt_deepDiagnosticsEnabled s then s
      else
        markEvent now ''terminal:run-chunk''
          (update_diagnostics
            (\<lambda>d. d\<lparr>lastRunId := Some rid, runChunkCount := runChunkCount d + 1,
                   runChunkBytes := runChunkBytes d + measureBytes data\<rparr>) s))"

definition recordCancelRequested :: "string \<Rightarrow> cancel_mode \<Rightarrow> runtime_store \<Rightarrow> runtime_store" where
  "recordCancelRequested now mode s =
     (if \<not> rt_deepDiagnosticsEnabled s then s
      else
        markEvent now ''cancel_terminal_run''
          (update_diagnostics (\<lambda>d. d\<lparr>cancelMode := Some mode, cancelRequestedAt := Some now\<rparr>) s))"

text \<open>The input is a byte array, of which the action needs the length only.\<close>

definition recordInputRoute :: "string \<Rightarrow> input_route \<Rightarrow> nat \<Rightarrow> runtime_store \<Rightarrow> runtime_store" where
  "recordInputRoute now route byteLength s =
     (if \<not> rt_deepDiagnosticsEnabled s then s
      else
        markEvent now (''terminal:input:'' @ route_name route @ '':'' @ show_nat byteLength)
          (update_diagnostics
            (\<lambda>d0.
              let d1 = d0\<lparr>inputEvents := inputEvents d0 + 1, lastInputRoute := Some route\<rparr>
              in if route = RouteDropped
                 then d1\<lparr>droppedInputEvents := droppedInputEvents d1 + 1\<rparr> else d1)
            s))"

definition setRunSeparatorVisible :: "string \<Rightarrow> bool \<Rightarrow> runtime_store \<Rightarrow> runtime_store" where
  "setRunSeparatorVisible now visible s =
     markEvent now (if visible then ''terminal:separator-visible'' else ''terminal:separator-hidden'')
       (s\<lparr>rt_showRunSeparator := visible\<rparr>)"

definition setDeepDiagnosticsEnabled :: "string \<Rightarrow> bool \<Rightarrow> runtime_store \<Rightarrow> runtime_store" where
  "setDeepDiagnosticsEnabled now enabled s =
     markEvent now ''terminal:diagnostics-enabled'' (s\<lparr>rt_deepDiagnosticsEnabled := enabled\<rparr>)"

definition reset_runtime :: "runtime_store \<Rightarrow> runtime_store" where
  "reset_runtime s =
     s\<lparr>rt_state := Booting, rt_activeRun := None, rt_interactiveReady := False,
       rt_diagnostics := createEmptyDiagnostics\<rparr>"

section \<open>Events and the invariant\<close>

datatype runtime_event =
    RInteractiveReady string
  | RInteractiveExited string
  | RSwitchingToRun string
  | RRunStarted string run_handle
  | RUpdateActive run_handle
  | RSwitchingToIdle string
  | RRunCompleted string string "int option" string
  | RStateChanged string state_changed_payload
  | RTerminalData string terminal_data_event
  | RVisualWrite string terminal_data_event
  | RBufferDiagnostic string buffer_diagnostic
  | RRunChunk string string string
  | RCancelRequested string cancel_mode
  | RInputRoute string input_route nat
  | RSeparator string bool
  | RDeepDiagnostics string bool
  | RReset

fun runtime_step :: "runtime_store \<Rightarrow> runtime_event \<Rightarrow> runtime_store" where
  "runtime_step s (RInteractiveReady now) = markInteractiveReady now s"
| "runtime_step s (RInteractiveExited now) = markInteractiveExited now s"
| "runtime_step s (RSwitchingToRun now) = markSwitchingToRun now s"
| "runtime_step s (RRunStarted now h) = markRunStarted now h s"
| "runtime_step s (RUpdateActive h) = updateActiveRun h s"
| "runtime_step s (RSwitchingToIdle now) = markSwitchingToIdle now s"
| "runtime_step s (RRunCompleted now rid code t) = markRunCompleted now rid code t s"
| "runtime_step s (RStateChanged now p) = applyStateChanged now p s"
| "runtime_step s (RTerminalData now p) = recordTerminalData now p s"
| "runtime_step s (RVisualWrite now p) = recordVisualWrite now p s"
| "runtime_step s (RBufferDiagnostic now p) = recordBufferDiagnostic now p s"
| "runtime_step s (RRunChunk now rid d) = recordRunChunk now rid d s"
| "runtime_step s (RCancelRequested now m) = recordCancelRequested now m s"
| "runtime_step s (RInputRoute now r n) = recordInputRoute now r n s"
| "runtime_step s (RSeparator now v) = setRunSeparatorVisible now v s"
| "runtime_step s (RDeepDiagnostics now v) = setDeepDiagnosticsEnabled now v s"
| "runtime_step s RReset = reset_runtime s"

text \<open>A capped buffer of frames holds the last \<open>min 12 n\<close> of the \<open>n\<close> frames counted, with
  consecutive indices ending at \<open>n\<close>.\<close>

definition frames_ok :: "frame_diagnostic list \<Rightarrow> nat \<Rightarrow> bool" where
  "frames_ok fs n \<longleftrightarrow> map fd_index fs = [Suc (n - MAX_RECENT_FRAMES)..<Suc n]"

definition diagnostics_ok :: "flow_diagnostics \<Rightarrow> bool" where
  "diagnostics_ok d \<longleftrightarrow>
     frames_ok (recentTerminalData d) (terminalDataChunks d) \<and>
     frames_ok (recentVisualWrites d) (visualWriteChunks d) \<and>
     length (bufferDiagnostics d) \<le> MAX_BUFFER_DIAGNOSTICS \<and>
     length (preRunTerminalData d) \<le> MAX_RECENT_FRAMES \<and>
     length (preRunVisualWrites d) \<le> MAX_RECENT_FRAMES \<and>
     length (preRunBufferDiagnostics d) \<le> MAX_BUFFER_DIAGNOSTICS \<and>
     injectedResetEvents d + injectedSeparatorEvents d \<le> terminalDataChunks d \<and>
     droppedInputEvents d \<le> inputEvents d"

definition runtime_ok :: "runtime_store \<Rightarrow> bool" where
  "runtime_ok s \<longleftrightarrow> diagnostics_ok (rt_diagnostics s)"

lemma appendCapped_drop: "appendCapped xs x m = drop (Suc (length xs) - m) (xs @ [x])"
  by (simp add: appendCapped_def Let_def)

lemma length_appendCapped: "length xs \<le> m \<Longrightarrow> 0 < m \<Longrightarrow> length (appendCapped xs x m) \<le> m"
  by (simp add: appendCapped_drop)

lemma frames_ok_length: "frames_ok fs n \<Longrightarrow> length fs \<le> MAX_RECENT_FRAMES"
  by (drule arg_cong [of _ _ length, OF frames_ok_def [THEN iffD1]])
    (simp add: MAX_RECENT_FRAMES_def del: upt_Suc)

lemma frames_ok_push:
  assumes "frames_ok fs n"
  shows "frames_ok (pushRecentFrame now fs p (Suc n)) (Suc n)"
proof -
  have len: "length fs = min MAX_RECENT_FRAMES n"
    using arg_cong [OF assms [unfolded frames_ok_def], of length]
    by (auto simp: MAX_RECENT_FRAMES_def)
  have "map fd_index (pushRecentFrame now fs p (Suc n)) =
      drop (Suc (length fs) - MAX_RECENT_FRAMES) ([Suc (n - MAX_RECENT_FRAMES)..<Suc n] @ [Suc n])"
    using assms
    by (simp add: pushRecentFrame_def appendCapped_drop frames_ok_def drop_map [symmetric]
        createFrameDiagnostic_def del: upt_Suc drop_append)
  also have "\<dots> = drop (Suc (length fs) - MAX_RECENT_FRAMES) [Suc (n - MAX_RECENT_FRAMES)..<Suc (Suc n)]"
    by simp
  also have "\<dots> = [Suc (Suc n - MAX_RECENT_FRAMES)..<Suc (Suc n)]"
  proof -
    have "Suc (n - MAX_RECENT_FRAMES) + (Suc (length fs) - MAX_RECENT_FRAMES) =
        Suc (Suc n - MAX_RECENT_FRAMES)"
      by (auto simp: len MAX_RECENT_FRAMES_def min_def)
    then show ?thesis by (simp only: drop_upt)
  qed
  finally show ?thesis by (simp add: frames_ok_def del: upt_Suc)
qed

lemma frames_ok_0 [simp]: "frames_ok [] 0"
  by (simp add: frames_ok_def)

lemma markEvent_ok [simp]: "runtime_ok (markEvent now name s) = runtime_ok s"
  by (simp add: markEvent_def update_diagnostics_def runtime_ok_def diagnostics_ok_def)

lemma runtime_ok_frame [simp]:
  "runtime_ok (s\<lparr>rt_activeRun := a\<rparr>) = runtime_ok s"
  "runtime_ok (s\<lparr>rt_state := t\<rparr>) = runtime_ok s"
  "runtime_ok (s\<lparr>rt_interactiveReady := b\<rparr>) = runtime_ok s"
  "runtime_ok (s\<lparr>rt_showRunSeparator := b\<rparr>) = runtime_ok s"
  "runtime_ok (s\<lparr>rt_deepDiagnosticsEnabled := b\<rparr>) = runtime_ok s"
  by (simp_all add: runtime_ok_def)

lemma createEmptyDiagnostics_ok: "diagnostics_ok createEmptyDiagnostics"
  by (simp add: diagnostics_ok_def createEmptyDiagnostics_def)

lemma update_diagnostics_ok:
  "(\<And>d. diagnostics_ok d \<Longrightarrow> diagnostics_ok (f d)) \<Longrightarrow> runtime_ok s \<Longrightarrow>
   runtime_ok (update_diagnostics f s)"
  by (simp add: runtime_ok_def update_diagnostics_def)

lemma lifecycle_ok [inv_intros]:
  "runtime_ok s \<Longrightarrow> runtime_ok (markInteractiveReady now s)"
  "runtime_ok s \<Longrightarrow> runtime_ok (markInteractiveExited now s)"
  "runtime_ok s \<Longrightarrow> runtime_ok (markSwitchingToRun now s)"
  "runtime_ok s \<Longrightarrow> runtime_ok (updateActiveRun h s)"
  "runtime_ok s \<Longrightarrow> runtime_ok (markSwitchingToIdle now s)"
  "runtime_ok s \<Longrightarrow> runtime_ok (applyStateChanged now p s)"
  "runtime_ok s \<Longrightarrow> runtime_ok (setRunSeparatorVisible now v s)"
  "runtime_ok s \<Longrightarrow> runtime_ok (setDeepDiagnosticsEnabled now v s)"
  by (simp_all add: markInteractiveReady_def markInteractiveExited_def markSwitchingToRun_def
      updateActiveRun_def markSwitchingToIdle_def applyStateChanged_def Let_def
      setRunSeparatorVisible_def setDeepDiagnosticsEnabled_def)

lemma markRunStarted_ok [inv_intros]: "runtime_ok s \<Longrightarrow> runtime_ok (markRunStarted now h s)"
proof (cases "is_active s (h_runId h)")
  case True
  assume "runtime_ok s"
  with True show ?thesis
    by (auto simp: markRunStarted_def intro!: update_diagnostics_ok) (simp add: diagnostics_ok_def)
next
  case False
  assume "runtime_ok s"
  with False show ?thesis
    by (auto simp: markRunStarted_def runtime_ok_def diagnostics_ok_def createEmptyDiagnostics_def
        dest: frames_ok_length)
qed

lemma markRunCompleted_ok [inv_intros]:
  "runtime_ok s \<Longrightarrow> runtime_ok (markRunCompleted now rid code t s)"
  by (auto simp: markRunCompleted_def intro!: update_diagnostics_ok) (simp_all add: diagnostics_ok_def)

lemma recordTerminalData_ok [inv_intros]:
  "runtime_ok s \<Longrightarrow> runtime_ok (recordTerminalData now p s)"
  by (auto simp: recordTerminalData_def intro!: update_diagnostics_ok)
    (auto simp: diagnostics_ok_def Let_def frames_ok_push)

lemma recordVisualWrite_ok [inv_intros]:
  "runtime_ok s \<Longrightarrow> runtime_ok (recordVisualWrite now p s)"
  by (auto simp: recordVisualWrite_def intro!: update_diagnostics_ok)
    (auto simp: diagnostics_ok_def Let_def frames_ok_push)

lemma recordBufferDiagnostic_ok [inv_intros]:
  "runtime_ok s \<Longrightarrow> runtime_ok (recordBufferDiagnostic now p s)"
  by (auto simp: recordBufferDiagnostic_def intro!: update_diagnostics_ok)
    (simp add: diagnostics_ok_def length_appendCapped MAX_BUFFER_DIAGNOSTICS_def)

lemma recordRunChunk_ok [inv_intros]: "runtime_ok s \<Longrightarrow> runtime_ok (recordRunChunk now rid d s)"
  by (auto simp: recordRunChunk_def intro!: update_diagnostics_ok) (simp add: diagnostics_ok_def)

lemma recordCancelRequested_ok [inv_intros]:
  "runtime_ok s \<Longrightarrow> runtime_ok (recordCancelRequested now m s)"
  by (auto simp: recordCancelRequested_def intro!: update_diagnostics_ok)
    (simp add: diagnostics_ok_def)

lemma recordInputRoute_ok [inv_intros]:
  "runtime_ok s \<Longrightarrow> runtime_ok (recordInputRoute now r n s)"
  by (auto simp: recordInputRoute_def intro!: update_diagnostics_ok)
    (auto simp: diagnostics_ok_def Let_def)

lemma reset_runtime_ok [inv_intros]: "runtime_ok (reset_runtime s)"
  by (simp add: reset_runtime_def runtime_ok_def createEmptyDiagnostics_ok)

lemma runtime_step_ok: "runtime_ok s \<Longrightarrow> runtime_ok (runtime_step s e)"
  by (cases e) (simp_all add: inv_intros)

lemma initial_runtime_ok: "runtime_ok initial_runtime"
  by (simp add: initial_runtime_def runtime_ok_def createEmptyDiagnostics_ok)

interpretation rt: machine runtime_step initial_runtime runtime_ok
  by unfold_locales (rule initial_runtime_ok, rule runtime_step_ok)

section \<open>The interface the facade uses\<close>

text \<open>
  Which run is active changes only when a run starts or the active run completes; patching the
  handle and everything else the facade calls leave it alone.
\<close>

locale active_run =
  fixes active :: "'st \<Rightarrow> string option"
    and begin_run :: "string \<Rightarrow> run_handle \<Rightarrow> 'st \<Rightarrow> 'st"
    and patch :: "run_handle \<Rightarrow> 'st \<Rightarrow> 'st"
    and end_run :: "string \<Rightarrow> string \<Rightarrow> int option \<Rightarrow> string \<Rightarrow> 'st \<Rightarrow> 'st"
  assumes active_begin [simp]: "active (begin_run now h s) = Some (h_runId h)"
    and active_patch [simp]: "active (patch h s) = active s"
    and active_end: "active (end_run now rid code t s) = (if active s = Some rid then None else active s)"
begin

lemma ended_not_active [simp]: "active (end_run now rid code t s) \<noteq> Some rid"
  by (simp add: active_end)

lemma active_end_other: "active (end_run now rid code t s) = Some r \<Longrightarrow> active s = Some r"
  by (simp add: active_end split: if_splits)

end

definition active_id :: "runtime_store \<Rightarrow> string option" where
  "active_id s = map_option h_runId (rt_activeRun s)"

lemma rt_activeRun_frame [simp]:
  "rt_activeRun (update_diagnostics f s) = rt_activeRun s"
  "rt_activeRun (markEvent now n s) = rt_activeRun s"
  by (simp_all add: markEvent_def update_diagnostics_def)

lemma active_id_markEvent [simp]:
  "active_id (update_diagnostics f s) = active_id s"
  "active_id (markEvent now n s) = active_id s"
  by (simp_all add: active_id_def)

lemma h_runId_merge [simp]: "h_runId (mergeRunHandle a b) = h_runId b"
  by (simp add: mergeRunHandle_def)

lemma is_active_iff: "is_active s rid \<longleftrightarrow> active_id s = Some rid"
  by (auto simp: is_active_def active_id_def split: option.splits)

interpretation act: active_run active_id markRunStarted updateActiveRun markRunCompleted
  by unfold_locales
    (auto simp: markRunStarted_def updateActiveRun_def markRunCompleted_def is_active_iff
      active_id_def)

lemma active_id_frame [simp]:
  "active_id (markInteractiveReady now s) = active_id s"
  "active_id (markInteractiveExited now s) = active_id s"
  "active_id (applyStateChanged now p s) = active_id s"
  "active_id (recordRunChunk now rid d s) = active_id s"
  "active_id (recordCancelRequested now m s) = active_id s"
  "active_id (recordInputRoute now r n s) = active_id s"
  by (simp_all add: markInteractiveReady_def markInteractiveExited_def applyStateChanged_def
      recordRunChunk_def recordCancelRequested_def recordInputRoute_def Let_def)
    (simp_all add: active_id_def)

section \<open>Properties\<close>

text \<open>In every state the runtime store can reach, each capped diagnostics buffer holds exactly
  the last frames counted, with consecutive indices, no buffer or pre-run snapshot exceeds its
  cap, and the injected and dropped counters stay below the totals they are part of.\<close>

theorem runtime_diagnostics_bounded:
  "diagnostics_ok (rt_diagnostics (run_events runtime_step initial_runtime es))"
  using rt.inv_run [of es] by (simp add: runtime_ok_def)

text \<open>Merging run handles is associative, so a run's handle is the same however the
  placeholder, dispatch and started handles were grouped as they arrived.\<close>

theorem mergeRunHandle_assoc:
  "mergeRunHandle (mergeRunHandle a b) c = mergeRunHandle a (mergeRunHandle b c)"
  by (auto simp: mergeRunHandle_def or_str_def or_else_def split: option.splits)

end
