(* ===== verification/TerminalFacade.thy ===== *)
theory TerminalFacade
  imports RuntimeState
begin

text \<open>
  The terminal facade (\<open>src/services/terminal/facade.ts\<close>, \<open>useTerminalFacade\<close>): the
  protocol that joins the reply of the dispatch call with the \<open>run-started\<close> event, the routing
  and buffering of input, and the subscription to the event bus. The facade drives the run store
  and the runtime store. One event is one uninterrupted stretch of JavaScript: a call up to its
  first \<open>await\<close>, a resumed continuation, a bus event, or a timer. Requests sent to the
  backend are recorded in \<open>fc_written\<close>; input that is discarded is recorded in
  \<open>fc_dropped\<close>, which the code only logs.

  The runtime store is a singleton that all facades and two components share, while every facade has
  a run store of its own. \<open>fc_runtime\<close> is the shared store as the facade's step sees it; the last
  machine of this theory, \<open>terminal_system\<close>, holds the store once and lends it to the facade that
  takes a step.
\<close>

section \<open>State\<close>

text \<open>An input is a byte array: what the decoder makes of it, and its length in bytes.\<close>

record term_input =
  in_text :: string
  in_byteLength :: nat

record dispatch_payload =
  dp_sessionId :: string
  dp_cwd :: string
  dp_commandLine :: string
  dp_usedTempFile :: bool
  dp_startedAt :: string

record facade =
  fc_interactiveSessionId :: string
  fc_runtime :: runtime_store
  fc_runs :: run_store
  fc_pendingHandles :: "(string, run_handle) jsmap"
  fc_pendingStarted :: "(string, run_started_payload) jsmap"
  fc_switchingBuffer :: "term_input list"
  fc_timer :: "nat option"
  fc_nextTimer :: nat
  fc_flushes :: "(string \<times> term_input list) list"
  fc_written :: "(string \<times> term_input) list"
  fc_dropped :: "term_input list"
  fc_subscribed :: bool
  fc_bridgeStarted :: bool
  fc_bridgePromise :: bool
  fc_startsInFlight :: nat
  fc_dataHandlers :: "nat list"
  fc_delivered :: "(nat \<times> terminal_data_event) list"

text \<open>A facade as it is made, before the first step lends it the shared runtime store.\<close>

definition initial_facade :: "string \<Rightarrow> facade" where
  "initial_facade sid =
     \<lparr>fc_interactiveSessionId = sid, fc_runtime = initial_runtime, fc_runs = empty_run_store,
      fc_pendingHandles = [], fc_pendingStarted = [], fc_switchingBuffer = [], fc_timer = None,
      fc_nextTimer = 0, fc_flushes = [], fc_written = [], fc_dropped = [], fc_subscribed = False,
      fc_bridgeStarted = False, fc_bridgePromise = False, fc_startsInFlight = 0,
      fc_dataHandlers = [], fc_delivered = []\<rparr>"

section \<open>Runs\<close>

definition buildRunStartedHandle :: "run_started_payload \<Rightarrow> run_handle \<Rightarrow> run_handle" where
  "buildRunStartedHandle p pending =
     \<lparr>h_runId = sp_runId p, h_sessionId = sp_sessionId p, h_cwd = h_cwd pending,
      h_commandLine = h_commandLine pending, h_usedTempFile = h_usedTempFile pending,
      h_startedAt = h_startedAt pending, h_startedAtMs = Some (sp_startedAtMs p),
      h_pid = Some (sp_pid p)\<rparr>"

definition activateStartedRun :: "string \<Rightarrow> run_started_payload \<Rightarrow> facade \<Rightarrow> facade" where
  "activateStartedRun now p f =
     (case jm_get (fc_pendingHandles f) (sp_runId p) of
        None \<Rightarrow> f
      | Some pending \<Rightarrow>
          (let h = buildRunStartedHandle p pending
           in f\<lparr>fc_runs := startRun (fc_runs f) h False,
                fc_runtime := markRunStarted now h (fc_runtime f),
                fc_pendingStarted := jm_delete (fc_pendingStarted f) (sp_runId p)\<rparr>))"

definition onRunStarted :: "string \<Rightarrow> run_started_payload \<Rightarrow> facade \<Rightarrow> facade" where
  "onRunStarted now p f =
     (if jm_get (fc_pendingHandles f) (sp_runId p) \<noteq> None then activateStartedRun now p f
      else f\<lparr>fc_pendingStarted := jm_set (fc_pendingStarted f) (sp_runId p) p\<rparr>)"

definition onRunChunk :: "string \<Rightarrow> run_chunk_payload \<Rightarrow> facade \<Rightarrow> facade" where
  "onRunChunk now p f =
     f\<lparr>fc_runtime := recordRunChunk now (cp_runId p) (cp_data p) (fc_runtime f),
       fc_runs := appendChunk (fc_runs f) p\<rparr>"

definition onRunCompleted :: "string \<Rightarrow> run_completed_payload \<Rightarrow> facade \<Rightarrow> facade" where
  "onRunCompleted now p f =
     f\<lparr>fc_runs := completeRun (fc_runs f) p,
       fc_runtime := markRunCompleted now (fp_runId p) (fp_exitCode p) (fp_finishedAt p) (fc_runtime f),
       fc_pendingHandles := jm_delete (fc_pendingHandles f) (fp_runId p),
       fc_pendingStarted := jm_delete (fc_pendingStarted f) (fp_runId p)\<rparr>"

definition dispatch_handle :: "string \<Rightarrow> dispatch_payload \<Rightarrow> run_handle" where
  "dispatch_handle rid p =
     \<lparr>h_runId = rid, h_sessionId = dp_sessionId p, h_cwd = dp_cwd p,
      h_commandLine = dp_commandLine p, h_usedTempFile = dp_usedTempFile p,
      h_startedAt = dp_startedAt p, h_startedAtMs = None, h_pid = None\<rparr>"

text \<open>\<open>dispatchScript\<close> after the dispatch call has returned, and after it has failed.\<close>

definition dispatch_returned :: "string \<Rightarrow> string \<Rightarrow> dispatch_payload \<Rightarrow> facade \<Rightarrow> facade" where
  "dispatch_returned now rid p f =
     (let h = dispatch_handle rid p;
          f1 = f\<lparr>fc_pendingHandles := jm_set (fc_pendingHandles f) rid h\<rparr>
      in case jm_get (fc_pendingStarted f1) rid of
           Some started \<Rightarrow> activateStartedRun now started f1
         | None \<Rightarrow> f1\<lparr>fc_runtime := updateActiveRun h (fc_runtime f1)\<rparr>)"

definition dispatch_failed :: "string \<Rightarrow> string \<Rightarrow> string \<Rightarrow> facade \<Rightarrow> facade" where
  "dispatch_failed now rid failedAt f =
     f\<lparr>fc_runtime := markRunCompleted now rid None failedAt (fc_runtime f),
       fc_pendingHandles := jm_delete (fc_pendingHandles f) rid,
       fc_pendingStarted := jm_delete (fc_pendingStarted f) rid\<rparr>"

definition cancelRun :: "string \<Rightarrow> cancel_mode \<Rightarrow> facade \<Rightarrow> facade" where
  "cancelRun now mode f = f\<lparr>fc_runtime := recordCancelRequested now mode (fc_runtime f)\<rparr>"

section \<open>Input\<close>

definition routeInput :: "facade \<Rightarrow> string option" where
  "routeInput f =
     (case rt_state (fc_runtime f) of
        Idle_interactive \<Rightarrow> Some (fc_interactiveSessionId f)
      | Running \<Rightarrow> map_option h_sessionId (rt_activeRun (fc_runtime f))
      | _ \<Rightarrow> None)"

text \<open>The code tests the routed session for truth, so an empty session id counts as none.\<close>

definition input_target :: "facade \<Rightarrow> string option" where
  "input_target f =
     (case routeInput f of Some sid \<Rightarrow> (if sid = [] then None else Some sid) | None \<Rightarrow> None)"

definition writeInput :: "string \<Rightarrow> term_input \<Rightarrow> facade \<Rightarrow> facade" where
  "writeInput sid d f = f\<lparr>fc_written := fc_written f @ [(sid, d)]\<rparr>"

definition clearInputBufferTimer :: "facade \<Rightarrow> facade" where
  "clearInputBufferTimer f = f\<lparr>fc_timer := None\<rparr>"

text \<open>
  The flush loop writes the first queued item at once and is suspended at its \<open>await\<close> with the
  rest; \<open>flush_continue\<close> resumes the \<open>i\<close>th suspended loop.
\<close>

definition flushSwitchingInputBuffer :: "facade \<Rightarrow> facade" where
  "flushSwitchingInputBuffer f0 =
     (let f = clearInputBufferTimer f0
      in case input_target f of
           None \<Rightarrow>
             f\<lparr>fc_dropped := fc_dropped f @ fc_switchingBuffer f, fc_switchingBuffer := []\<rparr>
         | Some sid \<Rightarrow>
             (case fc_switchingBuffer f of
                [] \<Rightarrow> f
              | d # ds \<Rightarrow>
                  (writeInput sid d f)
                    \<lparr>fc_switchingBuffer := [], fc_flushes := fc_flushes f @ [(sid, ds)]\<rparr>))"

definition remove_nth :: "nat \<Rightarrow> 'a list \<Rightarrow> 'a list" where
  "remove_nth i xs = take i xs @ drop (Suc i) xs"

definition flush_continue :: "nat \<Rightarrow> bool \<Rightarrow> facade \<Rightarrow> facade" where
  "flush_continue i ok f =
     (if length (fc_flushes f) \<le> i then f
      else case fc_flushes f ! i of (sid, ds) \<Rightarrow>
        (if \<not> ok
         then f\<lparr>fc_flushes := remove_nth i (fc_flushes f), fc_dropped := fc_dropped f @ ds\<rparr>
         else case ds of
                [] \<Rightarrow> f\<lparr>fc_flushes := remove_nth i (fc_flushes f)\<rparr>
              | d # ds' \<Rightarrow> (writeInput sid d f)\<lparr>fc_flushes := (fc_flushes f)[i := (sid, ds')]\<rparr>))"

definition scheduleSwitchingInputFlush :: "facade \<Rightarrow> facade" where
  "scheduleSwitchingInputFlush f0 =
     (let f = clearInputBufferTimer f0
      in f\<lparr>fc_timer := Some (fc_nextTimer f), fc_nextTimer := fc_nextTimer f + 1\<rparr>)"

definition record_route :: "string \<Rightarrow> input_route \<Rightarrow> term_input \<Rightarrow> facade \<Rightarrow> facade" where
  "record_route now r d f =
     f\<lparr>fc_runtime := recordInputRoute now r (in_byteLength d) (fc_runtime f)\<rparr>"

definition writeInputForCurrentState :: "string \<Rightarrow> term_input \<Rightarrow> facade \<Rightarrow> facade" where
  "writeInputForCurrentState now d f =
     (case input_target f of
        Some sid \<Rightarrow>
          writeInput sid d
            (record_route now
              (if rt_state (fc_runtime f) = Running then RouteRun else RouteInteractive) d f)
      | None \<Rightarrow>
          (if rt_state (fc_runtime f) = Switching_to_run \<or>
              rt_state (fc_runtime f) = Switching_to_idle
           then let f1 = record_route now RouteBuffered d f
                in scheduleSwitchingInputFlush
                     (f1\<lparr>fc_switchingBuffer := fc_switchingBuffer f1 @ [d]\<rparr>)
           else let f1 = record_route now RouteDropped d f
                in f1\<lparr>fc_dropped := fc_dropped f1 @ [d]\<rparr>))"

definition onStateChanged :: "string \<Rightarrow> state_changed_payload \<Rightarrow> facade \<Rightarrow> facade" where
  "onStateChanged now p f0 =
     (let f = f0\<lparr>fc_runtime := applyStateChanged now p (fc_runtime f0)\<rparr>
      in if fc_switchingBuffer f \<noteq> [] \<and> input_target f \<noteq> None
         then flushSwitchingInputBuffer f else f)"

section \<open>Subscription\<close>

text \<open>
  \<open>ensureEventBridge\<close> registers the seven bus handlers synchronously and then waits for
  \<open>eventBus.start()\<close>; \<open>fc_bridgePromise\<close> is the non-null \<open>eventBridgePromise\<close> and
  \<open>fc_startsInFlight\<close> counts the \<open>start()\<close> promises whose continuation has yet to run,
  which \<open>dispose\<close> does not cancel.
\<close>

definition ensureEventBridge :: "facade \<Rightarrow> facade" where
  "ensureEventBridge f =
     (if fc_bridgeStarted f \<or> fc_bridgePromise f then f
      else f\<lparr>fc_subscribed := True, fc_bridgePromise := True,
             fc_startsInFlight := fc_startsInFlight f + 1\<rparr>)"

definition bridge_resolved :: "facade \<Rightarrow> facade" where
  "bridge_resolved f =
     (if fc_startsInFlight f = 0 then f
      else f\<lparr>fc_bridgeStarted := True, fc_bridgePromise := False,
             fc_startsInFlight := fc_startsInFlight f - 1\<rparr>)"

definition bridge_rejected :: "facade \<Rightarrow> facade" where
  "bridge_rejected f =
     (if fc_startsInFlight f = 0 then f
      else f\<lparr>fc_subscribed := False, fc_bridgePromise := False,
             fc_startsInFlight := fc_startsInFlight f - 1\<rparr>)"

definition emitTerminalData :: "terminal_data_event \<Rightarrow> facade \<Rightarrow> facade" where
  "emitTerminalData p f =
     f\<lparr>fc_delivered := fc_delivered f @ map (\<lambda>h. (h, p)) (fc_dataHandlers f)\<rparr>"

definition onTerminalData :: "nat \<Rightarrow> facade \<Rightarrow> facade" where
  "onTerminalData h f =
     (if h \<in> set (fc_dataHandlers f) then f
      else f\<lparr>fc_dataHandlers := fc_dataHandlers f @ [h]\<rparr>)"

definition offTerminalData :: "nat \<Rightarrow> facade \<Rightarrow> facade" where
  "offTerminalData h f = f\<lparr>fc_dataHandlers := removeAll h (fc_dataHandlers f)\<rparr>"

definition dispose :: "facade \<Rightarrow> facade" where
  "dispose f0 =
     (let f = clearInputBufferTimer f0
      in f\<lparr>fc_dropped := fc_dropped f @ fc_switchingBuffer f, fc_switchingBuffer := [],
           fc_dataHandlers := [], fc_subscribed := False, fc_pendingHandles := [],
           fc_pendingStarted := [], fc_bridgeStarted := False, fc_bridgePromise := False\<rparr>)"

section \<open>Events\<close>

datatype facade_event =
    FEnsureBridge
  | FBridgeResolved
  | FBridgeRejected
  | FDispatched string string dispatch_payload
  | FDispatchFailed string string string
  | FCancel string cancel_mode
  | FRunStarted string run_started_payload
  | FRunChunk string run_chunk_payload
  | FRunCompleted string run_completed_payload
  | FInteractiveReady string
  | FInteractiveExited string string "int option"
  | FStateChanged string state_changed_payload
  | FTerminalData terminal_data_event
  | FInput string term_input
  | FFlushTimer
  | FWriteSettled nat bool
  | FAddDataHandler nat
  | FRemoveDataHandler nat
  | FDispose

text \<open>A bus event reaches the facade only while its handlers are registered.\<close>

fun facade_step :: "facade \<Rightarrow> facade_event \<Rightarrow> facade" where
  "facade_step f FEnsureBridge = ensureEventBridge f"
| "facade_step f FBridgeResolved = bridge_resolved f"
| "facade_step f FBridgeRejected = bridge_rejected f"
| "facade_step f (FDispatched now rid p) = dispatch_returned now rid p f"
| "facade_step f (FDispatchFailed now rid t) = dispatch_failed now rid t f"
| "facade_step f (FCancel now m) = cancelRun now m f"
| "facade_step f (FRunStarted now p) = (if fc_subscribed f then onRunStarted now p f else f)"
| "facade_step f (FRunChunk now p) = (if fc_subscribed f then onRunChunk now p f else f)"
| "facade_step f (FRunCompleted now p) = (if fc_subscribed f then onRunCompleted now p f else f)"
| "facade_step f (FInteractiveReady now) =
     (if fc_subscribed f then f\<lparr>fc_runtime := markInteractiveReady now (fc_runtime f)\<rparr> else f)"
| "facade_step f (FInteractiveExited now sid code) =
     (if fc_subscribed f \<and> sid = fc_interactiveSessionId f
      then f\<lparr>fc_runtime := markInteractiveExited now (fc_runtime f)\<rparr> else f)"
| "facade_step f (FStateChanged now p) = (if fc_subscribed f then onStateChanged now p f else f)"
| "facade_step f (FTerminalData p) = (if fc_subscribed f then emitTerminalData p f else f)"
| "facade_step f (FInput now d) = writeInputForCurrentState now d f"
| "facade_step f FFlushTimer = (if fc_timer f = None then f else flushSwitchingInputBuffer f)"
| "facade_step f (FWriteSettled i ok) = flush_continue i ok f"
| "facade_step f (FAddDataHandler h) = onTerminalData h f"
| "facade_step f (FRemoveDataHandler h) = offTerminalData h f"
| "facade_step f FDispose = dispose f"

section \<open>The protocol invariant\<close>

text \<open>
  Both stores keep their own invariants; each pending map is keyed by the run id of its entries;
  no run waits on both sides at once; and buffered input always has a timer that will flush or drop
  it. Nothing is said of the active run here: another facade may have started it.
\<close>

definition protocol_ok :: "facade \<Rightarrow> bool" where
  "protocol_ok f \<longleftrightarrow>
     (\<forall>rid h. jm_get (fc_pendingHandles f) rid = Some h \<longrightarrow> h_runId h = rid) \<and>
     (\<forall>rid p. jm_get (fc_pendingStarted f) rid = Some p \<longrightarrow> sp_runId p = rid) \<and>
     (\<forall>rid. jm_get (fc_pendingHandles f) rid = None \<or> jm_get (fc_pendingStarted f) rid = None)"

definition buffer_ok :: "facade \<Rightarrow> bool" where
  "buffer_ok f \<longleftrightarrow> (fc_switchingBuffer f \<noteq> [] \<longrightarrow> fc_timer f \<noteq> None)"

text \<open>The part of the invariant that is the facade's own, and the whole of it.\<close>

definition own_ok :: "facade \<Rightarrow> bool" where
  "own_ok f \<longleftrightarrow> run_store_ok (fc_runs f) \<and> protocol_ok f \<and> buffer_ok f"

definition facade_ok :: "facade \<Rightarrow> bool" where
  "facade_ok f \<longleftrightarrow> own_ok f \<and> runtime_ok (fc_runtime f)"

text \<open>Handlers that do not touch the maps keep the protocol part.\<close>

lemma protocol_frame:
  assumes "protocol_ok f"
    and "fc_pendingHandles g = fc_pendingHandles f" and "fc_pendingStarted g = fc_pendingStarted f"
  shows "protocol_ok g"
  using assms by (auto simp: protocol_ok_def)

lemma h_runId_built [simp]: "h_runId (buildRunStartedHandle p h) = sp_runId p"
  by (simp add: buildRunStartedHandle_def)

lemma h_runId_dispatch [simp]: "h_runId (dispatch_handle rid p) = rid"
  by (simp add: dispatch_handle_def)

lemma onRunStarted_protocol: "protocol_ok f \<Longrightarrow> protocol_ok (onRunStarted now p f)"
  by (cases "jm_get (fc_pendingHandles f) (sp_runId p)")
    (auto simp: onRunStarted_def activateStartedRun_def Let_def protocol_ok_def
      sink.started_start split: if_splits)

lemma dispatch_returned_protocol:
  assumes "protocol_ok f"
  shows "protocol_ok (dispatch_returned now rid p f)"
proof (cases "jm_get (fc_pendingStarted f) rid")
  case None
  with assms show ?thesis
    by (auto simp: dispatch_returned_def Let_def protocol_ok_def split: if_splits)
next
  case (Some q)
  with assms have "sp_runId q = rid" by (simp add: protocol_ok_def)
  with assms Some show ?thesis
    by (auto simp: dispatch_returned_def activateStartedRun_def Let_def protocol_ok_def
        sink.started_start split: if_splits)
qed

lemma onRunCompleted_protocol: "protocol_ok f \<Longrightarrow> protocol_ok (onRunCompleted now p f)"
  by (auto simp: onRunCompleted_def protocol_ok_def dest: act.active_end_other split: if_splits)

lemma dispatch_failed_protocol: "protocol_ok f \<Longrightarrow> protocol_ok (dispatch_failed now rid t f)"
  by (auto simp: dispatch_failed_def protocol_ok_def dest: act.active_end_other split: if_splits)

lemma dispose_protocol: "protocol_ok f \<Longrightarrow> protocol_ok (dispose f)"
  by (simp add: dispose_def clearInputBufferTimer_def Let_def protocol_ok_def)

lemmas facade_defs =
  ensureEventBridge_def bridge_resolved_def bridge_rejected_def cancelRun_def onRunChunk_def
  emitTerminalData_def onTerminalData_def offTerminalData_def writeInput_def
  clearInputBufferTimer_def flushSwitchingInputBuffer_def flush_continue_def
  scheduleSwitchingInputFlush_def record_route_def writeInputForCurrentState_def
  onStateChanged_def

lemma flush_protocol [simp]:
  "protocol_ok (flushSwitchingInputBuffer f) = protocol_ok f"
  "fc_runs (flushSwitchingInputBuffer f) = fc_runs f"
  "fc_runtime (flushSwitchingInputBuffer f) = fc_runtime f"
  "fc_switchingBuffer (flushSwitchingInputBuffer f) = []"
  by (auto simp: flushSwitchingInputBuffer_def clearInputBufferTimer_def Let_def writeInput_def
      protocol_ok_def split: option.splits list.splits)

lemma flush_continue_frame [simp]:
  "fc_pendingHandles (flush_continue i ok f) = fc_pendingHandles f"
  "fc_pendingStarted (flush_continue i ok f) = fc_pendingStarted f"
  "fc_runs (flush_continue i ok f) = fc_runs f"
  "fc_runtime (flush_continue i ok f) = fc_runtime f"
  "fc_switchingBuffer (flush_continue i ok f) = fc_switchingBuffer f"
  "fc_timer (flush_continue i ok f) = fc_timer f"
  by (auto simp: flush_continue_def writeInput_def split: prod.splits list.splits)

lemma writeInputForCurrentState_frame [simp]:
  "fc_pendingHandles (writeInputForCurrentState now d f) = fc_pendingHandles f"
  "fc_pendingStarted (writeInputForCurrentState now d f) = fc_pendingStarted f"
  "fc_runs (writeInputForCurrentState now d f) = fc_runs f"
  "active_id (fc_runtime (writeInputForCurrentState now d f)) = active_id (fc_runtime f)"
  by (auto simp: writeInputForCurrentState_def writeInput_def record_route_def Let_def
      scheduleSwitchingInputFlush_def clearInputBufferTimer_def split: option.splits)

lemma facade_step_protocol: "protocol_ok f \<Longrightarrow> protocol_ok (facade_step f e)"
proof (cases e)
  case (FStateChanged now p)
  assume "protocol_ok f"
  then have "protocol_ok (f\<lparr>fc_runtime := applyStateChanged now p (fc_runtime f)\<rparr>)"
    by (rule protocol_frame) simp_all
  with \<open>protocol_ok f\<close> FStateChanged show ?thesis
    by (simp add: onStateChanged_def Let_def)
qed (auto simp: onRunStarted_protocol dispatch_returned_protocol onRunCompleted_protocol
    dispatch_failed_protocol dispose_protocol elim!: protocol_frame
    simp: ensureEventBridge_def bridge_resolved_def bridge_rejected_def cancelRun_def
      onRunChunk_def emitTerminalData_def onTerminalData_def offTerminalData_def)

lemma facade_step_stores:
  assumes "run_store_ok (fc_runs f)" and "runtime_ok (fc_runtime f)"
  shows "run_store_ok (fc_runs (facade_step f e)) \<and> runtime_ok (fc_runtime (facade_step f e))"
  using assms
  by (cases e)
    (auto simp: inv_intros onRunStarted_def activateStartedRun_def dispatch_returned_def Let_def
      onRunCompleted_def dispatch_failed_def dispose_def clearInputBufferTimer_def
      ensureEventBridge_def bridge_resolved_def bridge_rejected_def cancelRun_def onRunChunk_def
      emitTerminalData_def onTerminalData_def offTerminalData_def onStateChanged_def
      writeInputForCurrentState_def writeInput_def record_route_def scheduleSwitchingInputFlush_def
      split: option.splits)

lemma facade_step_buffer: "buffer_ok f \<Longrightarrow> buffer_ok (facade_step f e)"
  by (cases e)
    (auto simp: buffer_ok_def onRunStarted_def activateStartedRun_def dispatch_returned_def Let_def
      onRunCompleted_def dispatch_failed_def dispose_def clearInputBufferTimer_def
      ensureEventBridge_def bridge_resolved_def bridge_rejected_def cancelRun_def onRunChunk_def
      emitTerminalData_def onTerminalData_def offTerminalData_def onStateChanged_def
      writeInputForCurrentState_def writeInput_def record_route_def scheduleSwitchingInputFlush_def
      split: option.splits)

lemma facade_step_ok: "facade_ok f \<Longrightarrow> facade_ok (facade_step f e)"
  by (simp add: facade_ok_def own_ok_def facade_step_stores facade_step_protocol facade_step_buffer)

lemma active_id_initial [simp]: "active_id initial_runtime = None"
  by (simp add: active_id_def initial_runtime_def)

lemma initial_facade_ok: "facade_ok (initial_facade sid)"
  by (simp add: facade_ok_def own_ok_def initial_facade_def empty_run_store_ok initial_runtime_ok
      protocol_ok_def buffer_ok_def)

interpretation fc: machine facade_step "initial_facade sid" facade_ok for sid
  by unfold_locales (rule initial_facade_ok, rule facade_step_ok)

section \<open>Input is conserved\<close>

text \<open>Where an input can be: written to the backend, buffered, waiting in a suspended flush, or
  dropped.\<close>

definition all_input :: "facade \<Rightarrow> term_input multiset" where
  "all_input f =
     mset (map snd (fc_written f)) + mset (fc_switchingBuffer f) +
     mset (concat (map snd (fc_flushes f))) + mset (fc_dropped f)"

fun event_input :: "facade_event \<Rightarrow> term_input multiset" where
  "event_input (FInput now d) = {#d#}"
| "event_input _ = {#}"

lemma mset_remove_nth:
  "i < length xs \<Longrightarrow> mset (concat (map g xs)) = mset (g (xs ! i)) + mset (concat (map g (remove_nth i xs)))"
  by (subst id_take_nth_drop [of i xs]) (simp_all add: remove_nth_def)

lemma mset_update_nth:
  "i < length xs \<Longrightarrow>
   mset (concat (map g (xs[i := y]))) = mset (g y) + mset (concat (map g (remove_nth i xs)))"
  by (simp add: upd_conv_take_nth_drop remove_nth_def)

lemma flush_input [simp]: "all_input (flushSwitchingInputBuffer f) = all_input f"
  by (auto simp: flushSwitchingInputBuffer_def clearInputBufferTimer_def Let_def writeInput_def
      all_input_def split: option.splits list.splits)

lemma flush_continue_input [simp]: "all_input (flush_continue i ok f) = all_input f"
proof (cases "i < length (fc_flushes f)")
  case False
  then show ?thesis by (simp add: flush_continue_def)
next
  case True
  obtain sid ds where fl: "fc_flushes f ! i = (sid, ds)" by (cases "fc_flushes f ! i")
  have whole: "mset (concat (map snd (fc_flushes f))) =
      mset ds + mset (concat (map snd (remove_nth i (fc_flushes f))))"
    using mset_remove_nth [OF True, of snd] by (simp add: fl)
  show ?thesis
    using True mset_update_nth [OF True, of snd]
    by (auto simp: flush_continue_def fl all_input_def writeInput_def whole split: list.splits)
qed

lemma facade_step_input: "all_input (facade_step f e) = all_input f + event_input e"
proof (cases e)
  case (FStateChanged now p)
  have "all_input (f\<lparr>fc_runtime := r\<rparr>) = all_input f" for r by (simp add: all_input_def)
  with FStateChanged show ?thesis by (simp add: onStateChanged_def Let_def)
next
  case FFlushTimer
  then show ?thesis by simp
next
  case (FWriteSettled i ok)
  then show ?thesis by simp
qed (auto simp: all_input_def onRunStarted_def activateStartedRun_def dispatch_returned_def Let_def
      onRunCompleted_def dispatch_failed_def dispose_def clearInputBufferTimer_def
      ensureEventBridge_def bridge_resolved_def bridge_rejected_def cancelRun_def onRunChunk_def
      emitTerminalData_def onTerminalData_def offTerminalData_def
      writeInputForCurrentState_def writeInput_def record_route_def scheduleSwitchingInputFlush_def
      split: option.splits)

lemma facade_run_input:
  "all_input (run_events facade_step f es) = all_input f + sum_list (map event_input es)"
  by (induction es arbitrary: f) (simp_all add: facade_step_input)

section \<open>Facades that share the runtime store\<close>

text \<open>Which run is active changes only to one that the facade has just started in its run store, and a
  facade never forgets a run it started.\<close>

lemma facade_step_active:
  "active_id (fc_runtime (facade_step f e)) = Some rid \<Longrightarrow>
   active_id (fc_runtime f) = Some rid \<or> run_started (fc_runs (facade_step f e)) rid"
  by (cases e)
    (auto simp: onRunStarted_def activateStartedRun_def dispatch_returned_def Let_def
      onRunCompleted_def dispatch_failed_def dispose_def clearInputBufferTimer_def
      ensureEventBridge_def bridge_resolved_def bridge_rejected_def cancelRun_def onRunChunk_def
      emitTerminalData_def onTerminalData_def offTerminalData_def onStateChanged_def
      sink.started_start dest: act.active_end_other split: option.splits if_splits)

lemma facade_step_started: "run_started (fc_runs f) rid \<Longrightarrow> run_started (fc_runs (facade_step f e)) rid"
  by (cases e)
    (auto simp: onRunStarted_def activateStartedRun_def dispatch_returned_def Let_def
      onRunCompleted_def dispatch_failed_def dispose_def clearInputBufferTimer_def
      ensureEventBridge_def bridge_resolved_def bridge_rejected_def cancelRun_def onRunChunk_def
      emitTerminalData_def onTerminalData_def offTerminalData_def onStateChanged_def
      sink.started_start split: option.splits)

record terminal_system =
  ts_runtime :: runtime_store
  ts_facades :: "facade list"

text \<open>A component makes a facade, a facade takes a step, or a component calls one of the actions of
  the store that components call: \<open>useIntegratedTerminal.ts\<close> records what it draws, the flow panel
  sets its two switches.\<close>

datatype system_event =
    UseTerminalFacade string
  | AtFacade nat facade_event
  | AtStore runtime_event

fun component_action :: "runtime_event \<Rightarrow> bool" where
  "component_action (RInputRoute now r n) = True"
| "component_action (RTerminalData now p) = True"
| "component_action (RVisualWrite now p) = True"
| "component_action (RBufferDiagnostic now p) = True"
| "component_action (RSeparator now v) = True"
| "component_action (RDeepDiagnostics now v) = True"
| "component_action e = False"

fun system_step :: "terminal_system \<Rightarrow> system_event \<Rightarrow> terminal_system" where
  "system_step s (UseTerminalFacade sid) = s\<lparr>ts_facades := ts_facades s @ [initial_facade sid]\<rparr>"
| "system_step s (AtFacade i e) =
     (if i < length (ts_facades s)
      then (let f = facade_step ((ts_facades s ! i)\<lparr>fc_runtime := ts_runtime s\<rparr>) e
            in s\<lparr>ts_runtime := fc_runtime f, ts_facades := (ts_facades s)[i := f]\<rparr>)
      else s)"
| "system_step s (AtStore e) =
     (if component_action e then s\<lparr>ts_runtime := runtime_step (ts_runtime s) e\<rparr> else s)"

definition no_facades :: terminal_system where
  "no_facades = \<lparr>ts_runtime = initial_runtime, ts_facades = []\<rparr>"

definition active_started :: "terminal_system \<Rightarrow> bool" where
  "active_started s \<longleftrightarrow>
     (\<forall>rid. active_id (ts_runtime s) = Some rid \<longrightarrow> list_ex (\<lambda>f. run_started (fc_runs f) rid) (ts_facades s))"

definition system_ok :: "terminal_system \<Rightarrow> bool" where
  "system_ok s \<longleftrightarrow> runtime_ok (ts_runtime s) \<and> list_all own_ok (ts_facades s) \<and> active_started s"

lemma own_ok_lent [simp]: "own_ok (f\<lparr>fc_runtime := r\<rparr>) = own_ok f"
  by (simp add: own_ok_def protocol_ok_def buffer_ok_def)

lemma component_action_active: "component_action e \<Longrightarrow> active_id (runtime_step s e) = active_id s"
  by (cases e) (simp_all add: active_id_def recordTerminalData_def recordVisualWrite_def recordBufferDiagnostic_def
      setRunSeparatorVisible_def setDeepDiagnosticsEnabled_def recordInputRoute_def Let_def)

lemma list_ex_update: "list_ex P xs \<Longrightarrow> (P (xs ! i) \<Longrightarrow> P x) \<Longrightarrow> i < length xs \<Longrightarrow> list_ex P (xs[i := x])"
  by (induction xs arbitrary: i) (auto split: nat.splits)

lemma lent_step_ok:
  assumes "system_ok s" and "i < length (ts_facades s)"
  shows "system_ok (system_step s (AtFacade i e))"
proof -
  let ?f = "(ts_facades s ! i)\<lparr>fc_runtime := ts_runtime s\<rparr>"
  have "own_ok (ts_facades s ! i)" using assms by (simp add: system_ok_def list_all_length)
  then have "facade_ok ?f" using assms(1) by (simp add: facade_ok_def system_ok_def)
  then have ok: "facade_ok (facade_step ?f e)" by (rule facade_step_ok)
  have others: "list_all own_ok ((ts_facades s)[i := facade_step ?f e])"
    using assms ok by (auto simp: system_ok_def facade_ok_def list_all_iff dest!: subsetD [OF set_update_subset_insert])
  have "list_ex (\<lambda>f. run_started (fc_runs f) rid) ((ts_facades s)[i := facade_step ?f e])"
    if new: "active_id (fc_runtime (facade_step ?f e)) = Some rid" for rid
  proof (cases "run_started (fc_runs (facade_step ?f e)) rid")
    case True
    then show ?thesis using assms(2) by (auto simp: list_ex_iff set_update_memI intro!: bexI [OF _ set_update_memI])
  next
    case False
    then have "active_id (ts_runtime s) = Some rid" using facade_step_active [OF new] by simp
    then have "list_ex (\<lambda>f. run_started (fc_runs f) rid) (ts_facades s)"
      using assms(1) by (simp add: system_ok_def active_started_def)
    then show ?thesis by (rule list_ex_update) (use assms(2) facade_step_started [of ?f rid e] in simp_all)
  qed
  then show ?thesis using assms ok others by (simp add: system_ok_def active_started_def facade_ok_def Let_def)
qed

lemma shared_step_ok: "system_ok s \<Longrightarrow> system_ok (system_step s e)"
proof (cases e)
  case (AtFacade i f)
  then show "system_ok s \<Longrightarrow> ?thesis" using lent_step_ok [of s i f] by (cases "i < length (ts_facades s)") simp_all
next
  case (UseTerminalFacade sid)
  have "own_ok (initial_facade sid)" using initial_facade_ok by (simp add: facade_ok_def)
  with UseTerminalFacade show "system_ok s \<Longrightarrow> ?thesis" by (simp add: system_ok_def active_started_def)
next
  case (AtStore a)
  then show "system_ok s \<Longrightarrow> ?thesis"
    using runtime_step_ok [of "ts_runtime s" a] component_action_active [of a "ts_runtime s"]
    by (simp add: system_ok_def active_started_def)
qed

interpretation shared: machine system_step no_facades system_ok
  by unfold_locales (simp_all add: shared_step_ok,
    simp add: system_ok_def no_facades_def active_started_def initial_runtime_ok)

section \<open>Properties\<close>

text \<open>C1: However many facades there are and however their steps interleave over the runtime store they
  share: in every facade the two pending maps are keyed by the run ids of their entries, no run
  waits for both its dispatch reply and its \<open>run-started\<close> event, and buffered input always has a
  timer pending; the stores keep their own invariants; and the active run has been started in the
  run store of one of the facades.\<close>

theorem facade_protocol_invariant:
  "let s = run_events system_step no_facades es in
     runtime_ok (ts_runtime s) \<and> list_all (\<lambda>f. run_store_ok (fc_runs f) \<and> protocol_ok f \<and> buffer_ok f) (ts_facades s) \<and>
     active_started s"
  using shared.inv_run [of es] by (simp add: Let_def system_ok_def own_ok_def [abs_def])

text \<open>C33: The two sides of the start protocol commute: whether the \<open>run-started\<close> event or the
  dispatch reply comes first, the facade ends in the same state, with the run activated once.\<close>

theorem dispatch_started_commute:
  assumes "fc_subscribed f" and "sp_runId p = rid"
    and "jm_get (fc_pendingHandles f) rid = None" and "jm_get (fc_pendingStarted f) rid = None"
    and "active_id (fc_runtime f) \<noteq> Some rid"
  shows "run_events facade_step f [FRunStarted t1 p, FDispatched t2 rid d] =
         run_events facade_step f [FDispatched t1 rid d, FRunStarted t2 p]"
  using assms
  by (simp add: onRunStarted_def dispatch_returned_def activateStartedRun_def Let_def
      jm_delete_set_absent jm_delete_absent updateActiveRun_def is_active_iff)

definition demo_started :: run_started_payload where
  "demo_started = \<lparr>sp_sessionId = ''run-1'', sp_runId = ''r1'', sp_startedAtMs = 5, sp_pid = 42\<rparr>"

definition demo_dispatch :: dispatch_payload where
  "demo_dispatch = \<lparr>dp_sessionId = ''main'', dp_cwd = ''/w'', dp_commandLine = ''bash a.sh'',
     dp_usedTempFile = False, dp_startedAt = ''t0''\<rparr>"

definition demo_facade :: facade where
  "demo_facade = facade_step (initial_facade ''main'') FEnsureBridge"

lemmas demo_facade_simps =
  demo_facade_def initial_facade_def ensureEventBridge_def demo_started_def demo_dispatch_def
  initial_runtime_def active_id_def

theorem dispatch_started_commute_witness:
  "run_events facade_step demo_facade [FRunStarted ''t1'' demo_started, FDispatched ''t2'' ''r1'' demo_dispatch] =
   run_events facade_step demo_facade [FDispatched ''t1'' ''r1'' demo_dispatch, FRunStarted ''t2'' demo_started]"
  by (rule dispatch_started_commute) (simp_all add: demo_facade_simps)

text \<open>No keystroke is lost silently or duplicated: after any events, what was written to the
  backend, what is buffered, what a suspended flush still holds and what was dropped are together
  exactly the inputs received.\<close>

theorem facade_input_conserved:
  "all_input (run_events facade_step (initial_facade sid) es) = sum_list (map event_input es)"
  by (simp add: facade_run_input) (simp add: all_input_def initial_facade_def)

lemma deaf_step:
  "fc_bridgeStarted f \<Longrightarrow> \<not> fc_subscribed f \<Longrightarrow> e \<noteq> FDispose \<Longrightarrow>
   fc_bridgeStarted (facade_step f e) \<and> \<not> fc_subscribed (facade_step f e)"
  by (cases e) (auto simp: facade_defs dispatch_returned_def activateStartedRun_def Let_def
      dispatch_failed_def split: option.splits list.splits prod.splits)

lemma deaf_run:
  "fc_bridgeStarted f \<Longrightarrow> \<not> fc_subscribed f \<Longrightarrow> list_all (\<lambda>e. e \<noteq> FDispose) es \<Longrightarrow>
   fc_bridgeStarted (run_events facade_step f es) \<and> \<not> fc_subscribed (run_events facade_step f es)"
  by (induction es arbitrary: f) (simp_all add: deaf_step)

text \<open>A facade disposed while its bus subscription is still starting never listens again: the
  late continuation marks the bridge as started although every handler is gone, so no later
  \<open>ensureEventBridge\<close> resubscribes it.\<close>

theorem dispose_during_start_goes_deaf:
  assumes "list_all (\<lambda>e. e \<noteq> FDispose) es"
  shows "fc_bridgeStarted (run_events facade_step (initial_facade sid)
           ([FEnsureBridge, FDispose, FBridgeResolved] @ es)) \<and>
         \<not> fc_subscribed (run_events facade_step (initial_facade sid)
           ([FEnsureBridge, FDispose, FBridgeResolved] @ es))"
  unfolding run_events_append
  by (rule deaf_run [OF _ _ assms])
    (simp_all add: initial_facade_def ensureEventBridge_def dispose_def bridge_resolved_def
      clearInputBufferTimer_def Let_def)

theorem dispose_during_start_goes_deaf_witness:
  "\<not> fc_subscribed (run_events facade_step (initial_facade ''main'')
     ([FEnsureBridge, FDispose, FBridgeResolved] @ [FEnsureBridge, FBridgeResolved]))"
  by (rule dispose_during_start_goes_deaf [THEN conjunct2]) simp

text \<open>A run that starts and completes before its dispatch reply arrives is never started in the
  run store and leaves its handle in the pending map: the completion has already thrown the cached
  \<open>run-started\<close> payload away.\<close>

theorem fast_run_leaves_stale_handle:
  assumes "fc_subscribed f" and "sp_runId p = rid" and "fp_runId c = rid"
    and "jm_get (fc_pendingHandles f) rid = None" and "\<not> run_started (fc_runs f) rid"
  shows "jm_get (fc_pendingHandles (run_events facade_step f
           [FRunStarted t1 p, FRunCompleted t2 c, FDispatched t3 rid d])) rid =
         Some (dispatch_handle rid d) \<and>
         \<not> run_started (fc_runs (run_events facade_step f
           [FRunStarted t1 p, FRunCompleted t2 c, FDispatched t3 rid d])) rid"
  using assms
  by (simp add: onRunStarted_def onRunCompleted_def dispatch_returned_def Let_def)

theorem fast_run_leaves_stale_handle_witness:
  "\<not> run_started (fc_runs (run_events facade_step demo_facade
     [FRunStarted ''t1'' demo_started,
      FRunCompleted ''t2'' \<lparr>fp_sessionId = ''run-1'', fp_runId = ''r1'', fp_exitCode = Some 0,
        fp_finishedAt = ''t2''\<rparr>,
      FDispatched ''t3'' ''r1'' demo_dispatch])) ''r1''"
  by (rule fast_run_leaves_stale_handle [THEN conjunct2])
    (simp_all add: demo_facade_simps run_started_def get_run_record_def empty_run_store_def)

definition keystroke :: "string \<Rightarrow> term_input" where
  "keystroke s = \<lparr>in_text = s, in_byteLength = length s\<rparr>"

definition switch_to :: "runtime_state \<Rightarrow> runtime_state \<Rightarrow> facade_event" where
  "switch_to a b = FStateChanged ''t'' \<lparr>sc_from = a, sc_to = b, sc_atMs = 0\<rparr>"

definition overtaking_trace :: "facade_event list" where
  "overtaking_trace =
     [FEnsureBridge, switch_to Idle_interactive Switching_to_run,
      FInput ''t'' (keystroke ''a''), FInput ''t'' (keystroke ''b''),
      switch_to Switching_to_run Idle_interactive,
      FInput ''t'' (keystroke ''c''), FWriteSettled 0 True]"

text \<open>Buffered keystrokes can reach the backend out of order: while a flush waits for its first
  write, a new keystroke is written at once and overtakes the rest of the buffer.\<close>

theorem buffered_input_can_be_overtaken:
  "map (in_text \<circ> snd) (fc_written (run_events facade_step (initial_facade ''main'') overtaking_trace)) =
   [''a'', ''c'', ''b'']"
  by (simp add: overtaking_trace_def switch_to_def keystroke_def initial_facade_def facade_defs
      Let_def input_target_def routeInput_def applyStateChanged_def initial_runtime_def
      markEvent_def recordInputRoute_def)

end
