(* ===== verification/EventBus.thy ===== *)
theory EventBus
  imports RuntimeState "HOL-Library.Monad_Syntax"
begin

text \<open>
  The terminal event bus (\<open>src/services/terminal/eventBus.ts\<close>,
  \<open>createTerminalEventBus\<close>): payload validation, fan-out to handlers, and the asynchronous
  registration of seven backend listeners guarded by a start epoch. \<open>eb_live\<close> holds the
  listeners the backend currently has; a handler is a number, and \<open>eb_delivered\<close> records the
  calls made to handlers.
\<close>

section \<open>Channels and payloads\<close>

datatype bus_channel =
    ChTerminalData | ChRunChunk | ChRunStarted | ChRunCompleted
  | ChInteractiveReady | ChInteractiveExited | ChStateChanged

definition all_channels :: "bus_channel list" where
  "all_channels = [ChTerminalData, ChRunChunk, ChRunStarted, ChRunCompleted,
     ChInteractiveReady, ChInteractiveExited, ChStateChanged]"

record exit_event =
  ex_sessionId :: string
  ex_exitCode :: "int option"

datatype bus_payload =
    PTerminalData terminal_data_event
  | PRunChunk run_chunk_payload
  | PRunStarted run_started_payload
  | PRunCompleted run_completed_payload
  | PInteractiveReady
  | PInteractiveExited exit_event
  | PStateChanged state_changed_payload

type_synonym json = "string jval"

section \<open>Schemas\<close>

fun parse_source :: "json \<Rightarrow> data_source option" where
  "parse_source (JStr s) =
     (if s = ''interactive'' then Some SrcInteractive
      else if s = ''run'' then Some SrcRun
      else if s = ''injected_reset'' then Some SrcInjectedReset
      else if s = ''injected_separator'' then Some SrcInjectedSeparator
      else None)"
| "parse_source _ = None"

definition terminalDataEventSchema :: "json \<Rightarrow> terminal_data_event option" where
  "terminalDataEventSchema v = do {
     fs \<leftarrow> zobject v;
     sid \<leftarrow> zstring (jfield fs ''sessionId'');
     d \<leftarrow> zstring (jfield fs ''data'');
     src \<leftarrow> zoptional parse_source (jfield fs ''source'');
     sq \<leftarrow> zoptional (zint_min 0) (jfield fs ''seq'');
     rid \<leftarrow> zoptional zstring (jfield fs ''runId'');
     rsq \<leftarrow> zoptional (zint_min 1) (jfield fs ''runSeq'');
     Some \<lparr>td_sessionId = sid, td_data = d, td_source = src, td_seq = sq, td_runId = rid,
           td_runSeq = rsq\<rparr> }"

definition terminalRunChunkEventSchema :: "json \<Rightarrow> run_chunk_payload option" where
  "terminalRunChunkEventSchema v = do {
     fs \<leftarrow> zobject v;
     sid \<leftarrow> zstring (jfield fs ''sessionId'');
     rid \<leftarrow> zstring (jfield fs ''runId'');
     d \<leftarrow> zstring (jfield fs ''data'');
     sq \<leftarrow> zoptional (zint_min 0) (jfield fs ''seq'');
     Some \<lparr>cp_sessionId = sid, cp_runId = rid, cp_data = d, cp_seq = sq\<rparr> }"

definition terminalRunCompletedEventSchema :: "json \<Rightarrow> run_completed_payload option" where
  "terminalRunCompletedEventSchema v = do {
     fs \<leftarrow> zobject v;
     sid \<leftarrow> zstring (jfield fs ''sessionId'');
     rid \<leftarrow> zstring (jfield fs ''runId'');
     code \<leftarrow> znullable zint (jfield fs ''exitCode'');
     t \<leftarrow> zstring (jfield fs ''finishedAt'');
     Some \<lparr>fp_sessionId = sid, fp_runId = rid, fp_exitCode = code, fp_finishedAt = t\<rparr> }"

definition terminalRunStartedEventSchema :: "json \<Rightarrow> run_started_payload option" where
  "terminalRunStartedEventSchema v = do {
     fs \<leftarrow> zobject v;
     sid \<leftarrow> zstring (jfield fs ''sessionId'');
     rid \<leftarrow> zstring (jfield fs ''runId'');
     ms \<leftarrow> zint_min 0 (jfield fs ''startedAtMs'');
     pid \<leftarrow> zint_min 0 (jfield fs ''pid'');
     Some \<lparr>sp_sessionId = sid, sp_runId = rid, sp_startedAtMs = ms, sp_pid = pid\<rparr> }"

fun terminalRuntimeStateSchema :: "json \<Rightarrow> runtime_state option" where
  "terminalRuntimeStateSchema (JStr s) =
     (if s = ''booting'' then Some Booting
      else if s = ''idle_interactive'' then Some Idle_interactive
      else if s = ''switching_to_run'' then Some Switching_to_run
      else if s = ''running'' then Some Running
      else if s = ''switching_to_idle'' then Some Switching_to_idle
      else None)"
| "terminalRuntimeStateSchema _ = None"

definition terminalStateChangedEventSchema :: "json \<Rightarrow> state_changed_payload option" where
  "terminalStateChangedEventSchema v = do {
     fs \<leftarrow> zobject v;
     a \<leftarrow> terminalRuntimeStateSchema (jfield fs ''from'');
     b \<leftarrow> terminalRuntimeStateSchema (jfield fs ''to'');
     ms \<leftarrow> zint_min 0 (jfield fs ''atMs'');
     Some \<lparr>sc_from = a, sc_to = b, sc_atMs = ms\<rparr> }"

definition terminalExitEventSchema :: "json \<Rightarrow> exit_event option" where
  "terminalExitEventSchema v = do {
     fs \<leftarrow> zobject v;
     sid \<leftarrow> zstring (jfield fs ''sessionId'');
     code \<leftarrow> znullable zint (jfield fs ''exitCode'');
     Some \<lparr>ex_sessionId = sid, ex_exitCode = code\<rparr> }"

text \<open>The schema each channel is wired with; \<open>interactive-ready\<close> carries no payload.\<close>

fun parse_payload :: "bus_channel \<Rightarrow> json \<Rightarrow> bus_payload option" where
  "parse_payload ChTerminalData v = map_option PTerminalData (terminalDataEventSchema v)"
| "parse_payload ChRunChunk v = map_option PRunChunk (terminalRunChunkEventSchema v)"
| "parse_payload ChRunStarted v = map_option PRunStarted (terminalRunStartedEventSchema v)"
| "parse_payload ChRunCompleted v = map_option PRunCompleted (terminalRunCompletedEventSchema v)"
| "parse_payload ChInteractiveReady v = Some PInteractiveReady"
| "parse_payload ChInteractiveExited v = map_option PInteractiveExited (terminalExitEventSchema v)"
| "parse_payload ChStateChanged v = map_option PStateChanged (terminalStateChangedEventSchema v)"

section \<open>The bus\<close>

type_synonym listener = "nat \<times> bus_channel"

record event_bus =
  eb_handlers :: "bus_channel \<Rightarrow> nat list"
  eb_unlisteners :: "listener list"
  eb_startPromise :: "nat option"
  eb_startEpoch :: nat
  eb_settled :: "(bus_channel \<times> listener option) list"
  eb_live :: "listener list"
  eb_nextListener :: nat
  eb_delivered :: "(nat \<times> bus_payload) list"
  eb_isolated :: nat

definition createTerminalEventBus :: event_bus where
  "createTerminalEventBus =
     \<lparr>eb_handlers = (\<lambda>_. []), eb_unlisteners = [], eb_startPromise = None, eb_startEpoch = 0,
      eb_settled = [], eb_live = [], eb_nextListener = 0, eb_delivered = [], eb_isolated = 0\<rparr>"

text \<open>A handler that throws is isolated: the loop goes on with the next handler.\<close>

fun emitToHandlers :: "(nat \<Rightarrow> bool) \<Rightarrow> nat list \<Rightarrow> bus_payload \<Rightarrow> event_bus \<Rightarrow> event_bus" where
  "emitToHandlers throws [] p b = b"
| "emitToHandlers throws (h # hs) p b =
     (let b1 = b\<lparr>eb_delivered := eb_delivered b @ [(h, p)]\<rparr>;
          b2 = (if throws h then b1\<lparr>eb_isolated := eb_isolated b1 + 1\<rparr> else b1)
      in emitToHandlers throws hs p b2)"

definition parseAndEmit :: "(nat \<Rightarrow> bool) \<Rightarrow> bus_channel \<Rightarrow> json \<Rightarrow> event_bus \<Rightarrow> event_bus" where
  "parseAndEmit throws ch v b =
     (case parse_payload ch v of
        None \<Rightarrow> b
      | Some p \<Rightarrow> emitToHandlers throws (eb_handlers b ch) p b)"

text \<open>The backend calls every live listener of the channel.\<close>

definition backend_event :: "(nat \<Rightarrow> bool) \<Rightarrow> bus_channel \<Rightarrow> json \<Rightarrow> event_bus \<Rightarrow> event_bus" where
  "backend_event throws ch v b =
     fold (\<lambda>l. parseAndEmit throws ch v) (filter (\<lambda>l. snd l = ch) (eb_live b)) b"

definition bus_start :: "event_bus \<Rightarrow> event_bus" where
  "bus_start b =
     (if eb_unlisteners b \<noteq> [] then b
      else if eb_startPromise b \<noteq> None then b
      else b\<lparr>eb_startEpoch := eb_startEpoch b + 1,
             eb_startPromise := Some (eb_startEpoch b + 1), eb_settled := []\<rparr>)"

definition unlisten_all :: "listener list \<Rightarrow> event_bus \<Rightarrow> event_bus" where
  "unlisten_all ls b = b\<lparr>eb_live := filter (\<lambda>l. l \<notin> set ls) (eb_live b)\<rparr>"

text \<open>The fulfilled results of \<open>Promise.allSettled\<close>, in the order of its argument.\<close>

definition succeeded :: "(bus_channel \<times> listener option) list \<Rightarrow> listener list" where
  "succeeded rs = List.map_filter (\<lambda>ch. Option.bind (map_of rs ch) (\<lambda>l. l)) all_channels"

text \<open>The continuation of \<open>Promise.allSettled\<close>, with the epoch the start captured.\<close>

definition start_settled :: "nat \<Rightarrow> event_bus \<Rightarrow> event_bus" where
  "start_settled epoch b =
     (let ok = succeeded (eb_settled b);
          failed = (\<exists>r \<in> set (eb_settled b). snd r = None);
          b1 = (if epoch \<noteq> eb_startEpoch b then unlisten_all ok b
                else if failed then unlisten_all ok b
                else b\<lparr>eb_unlisteners := ok\<rparr>)
      in b1\<lparr>eb_startPromise := None, eb_settled := []\<rparr>)"

text \<open>One of the seven registrations settles; the last one runs the continuation.\<close>

definition listen_settled :: "bus_channel \<Rightarrow> bool \<Rightarrow> event_bus \<Rightarrow> event_bus" where
  "listen_settled ch ok b =
     (case eb_startPromise b of
        None \<Rightarrow> b
      | Some epoch \<Rightarrow>
          if ch \<in> fst ` set (eb_settled b) then b
          else
            let l = (eb_nextListener b, ch);
                b1 = (if ok
                      then b\<lparr>eb_live := eb_live b @ [l], eb_nextListener := eb_nextListener b + 1,
                             eb_settled := eb_settled b @ [(ch, Some l)]\<rparr>
                      else b\<lparr>eb_settled := eb_settled b @ [(ch, None)]\<rparr>)
            in if length (eb_settled b1) = length all_channels then start_settled epoch b1 else b1)"

definition bus_stop :: "event_bus \<Rightarrow> event_bus" where
  "bus_stop b =
     (unlisten_all (eb_unlisteners b) (b\<lparr>eb_startEpoch := eb_startEpoch b + 1\<rparr>))
       \<lparr>eb_unlisteners := []\<rparr>"

definition bus_on :: "bus_channel \<Rightarrow> nat \<Rightarrow> event_bus \<Rightarrow> event_bus" where
  "bus_on ch h b =
     (if h \<in> set (eb_handlers b ch) then b
      else b\<lparr>eb_handlers := (eb_handlers b)(ch := eb_handlers b ch @ [h])\<rparr>)"

definition removeHandler :: "bus_channel \<Rightarrow> nat \<Rightarrow> event_bus \<Rightarrow> event_bus" where
  "removeHandler ch h b =
     b\<lparr>eb_handlers := (eb_handlers b)(ch := removeAll h (eb_handlers b ch))\<rparr>"

datatype bus_event =
    BStart
  | BStop
  | BListenSettled bus_channel bool
  | BBackend bus_channel json
  | BOn bus_channel nat
  | BOff bus_channel nat

fun bus_step :: "(nat \<Rightarrow> bool) \<Rightarrow> event_bus \<Rightarrow> bus_event \<Rightarrow> event_bus" where
  "bus_step throws b BStart = bus_start b"
| "bus_step throws b BStop = bus_stop b"
| "bus_step throws b (BListenSettled ch ok) = listen_settled ch ok b"
| "bus_step throws b (BBackend ch v) = backend_event throws ch v b"
| "bus_step throws b (BOn ch h) = bus_on ch h b"
| "bus_step throws b (BOff ch h) = removeHandler ch h b"

section \<open>The invariant\<close>

text \<open>
  The backend's live listeners are those the bus can still unregister: its unlisteners, one per
  channel or none at all, or those of the start in flight, of which each channel has at most one.
\<close>

definition pending_listeners :: "event_bus \<Rightarrow> listener set" where
  "pending_listeners b = {l. \<exists>ch. (ch, Some l) \<in> set (eb_settled b)}"

definition bus_ok :: "event_bus \<Rightarrow> bool" where
  "bus_ok b \<longleftrightarrow>
     distinct (eb_live b) \<and> (\<forall>l \<in> set (eb_live b). fst l < eb_nextListener b) \<and>
     set (eb_live b) = set (eb_unlisteners b) \<union> pending_listeners b \<and>
     distinct (map fst (eb_settled b)) \<and> (\<forall>ch l. (ch, Some l) \<in> set (eb_settled b) \<longrightarrow> snd l = ch) \<and>
     (eb_startPromise b = None \<longrightarrow> eb_settled b = []) \<and>
     (eb_startPromise b \<noteq> None \<longrightarrow> eb_unlisteners b = []) \<and>
     (eb_unlisteners b \<noteq> [] \<longrightarrow> map snd (eb_unlisteners b) = all_channels) \<and>
     (\<forall>ch. distinct (eb_handlers b ch)) \<and>
     (\<forall>e. eb_startPromise b = Some e \<longrightarrow> e \<le> eb_startEpoch b)"

lemma channels_UNIV: "set all_channels = UNIV"
  by (auto simp: all_channels_def) (metis bus_channel.exhaust)

lemma length_all_channels [simp]: "length all_channels = 7"
  by (simp add: all_channels_def)

lemma distinct_all_channels: "distinct all_channels"
  by (simp add: all_channels_def)

lemma settled_complete:
  assumes "distinct (map fst rs)" and "length rs = length all_channels"
  shows "fst ` set rs = (UNIV :: bus_channel set)"
proof -
  have "card (fst ` set rs) = card (set all_channels)"
    using assms distinct_all_channels by (metis distinct_card length_map list.set_map)
  then have "card (fst ` set rs) = card (UNIV :: bus_channel set)"
    by (simp only: channels_UNIV)
  moreover have "finite (UNIV :: bus_channel set)"
    by (simp only: channels_UNIV [symmetric] finite_set)
  ultimately show ?thesis by (intro card_subset_eq) simp_all
qed

lemma mem_map_filter: "y \<in> set (List.map_filter f xs) \<longleftrightarrow> (\<exists>x \<in> set xs. f x = Some y)"
  by (induction xs) (auto simp: map_filter_simps split: option.splits)

lemma set_succeeded:
  "distinct (map fst rs) \<Longrightarrow> set (succeeded rs) = {l. \<exists>ch. (ch, Some l) \<in> set rs}"
  by (auto simp: succeeded_def mem_map_filter channels_UNIV bind_eq_Some_conv
      map_of_eq_Some_iff)

lemma snd_succeeded:
  assumes "distinct (map fst rs)" and "fst ` set rs = UNIV" and "\<forall>r \<in> set rs. snd r \<noteq> None"
    and "\<forall>ch l. (ch, Some l) \<in> set rs \<longrightarrow> snd l = ch"
  shows "map snd (succeeded rs) = all_channels"
proof -
  have some: "\<exists>l. map_of rs ch = Some (Some l) \<and> snd l = ch" for ch
  proof -
    have "ch \<in> fst ` set rs" using assms(2) by simp
    then obtain r where "(ch, r) \<in> set rs" by auto
    moreover from this obtain l where "r = Some l" using assms(3) by force
    ultimately show ?thesis using assms(1,4) by (metis map_of_eq_Some_iff)
  qed
  have "map snd (List.map_filter (\<lambda>ch. Option.bind (map_of rs ch) (\<lambda>l. l)) chs) = chs" for chs
  proof (induction chs)
    case Nil
    then show ?case by (simp add: map_filter_simps)
  next
    case (Cons ch chs)
    then show ?case using some [of ch] by (auto simp: map_filter_simps)
  qed
  then show ?thesis by (simp add: succeeded_def)
qed

lemma emit_frame [simp]:
  "eb_live (emitToHandlers throws hs p b) = eb_live b"
  "eb_unlisteners (emitToHandlers throws hs p b) = eb_unlisteners b"
  "eb_settled (emitToHandlers throws hs p b) = eb_settled b"
  "eb_startPromise (emitToHandlers throws hs p b) = eb_startPromise b"
  "eb_startEpoch (emitToHandlers throws hs p b) = eb_startEpoch b"
  "eb_nextListener (emitToHandlers throws hs p b) = eb_nextListener b"
  "eb_handlers (emitToHandlers throws hs p b) = eb_handlers b"
  "eb_delivered (emitToHandlers throws hs p b) = eb_delivered b @ map (\<lambda>h. (h, p)) hs"
  by (induction hs arbitrary: b) (simp_all add: Let_def)

lemma parseAndEmit_frame [simp]:
  "eb_live (parseAndEmit throws ch v b) = eb_live b"
  "eb_unlisteners (parseAndEmit throws ch v b) = eb_unlisteners b"
  "eb_settled (parseAndEmit throws ch v b) = eb_settled b"
  "eb_startPromise (parseAndEmit throws ch v b) = eb_startPromise b"
  "eb_startEpoch (parseAndEmit throws ch v b) = eb_startEpoch b"
  "eb_nextListener (parseAndEmit throws ch v b) = eb_nextListener b"
  "eb_handlers (parseAndEmit throws ch v b) = eb_handlers b"
  by (simp_all add: parseAndEmit_def split: option.splits)

lemma fold_emit_frame [simp]:
  "eb_live (fold (\<lambda>l. parseAndEmit throws ch v) ls b) = eb_live b"
  "eb_unlisteners (fold (\<lambda>l. parseAndEmit throws ch v) ls b) = eb_unlisteners b"
  "eb_settled (fold (\<lambda>l. parseAndEmit throws ch v) ls b) = eb_settled b"
  "eb_startPromise (fold (\<lambda>l. parseAndEmit throws ch v) ls b) = eb_startPromise b"
  "eb_startEpoch (fold (\<lambda>l. parseAndEmit throws ch v) ls b) = eb_startEpoch b"
  "eb_nextListener (fold (\<lambda>l. parseAndEmit throws ch v) ls b) = eb_nextListener b"
  "eb_handlers (fold (\<lambda>l. parseAndEmit throws ch v) ls b) = eb_handlers b"
  by (induction ls arbitrary: b) simp_all

lemma backend_event_ok: "bus_ok b \<Longrightarrow> bus_ok (backend_event throws ch v b)"
  by (simp add: bus_ok_def pending_listeners_def backend_event_def)

lemma bus_start_ok: "bus_ok b \<Longrightarrow> bus_ok (bus_start b)"
  by (auto simp: bus_start_def bus_ok_def pending_listeners_def)

lemma bus_stop_ok: "bus_ok b \<Longrightarrow> bus_ok (bus_stop b)"
  by (cases "eb_startPromise b")
    (auto simp: bus_stop_def bus_ok_def pending_listeners_def unlisten_all_def)

lemma bus_on_ok: "bus_ok b \<Longrightarrow> bus_ok (bus_on ch h b)"
  by (auto simp: bus_on_def bus_ok_def pending_listeners_def)

lemma removeHandler_ok: "bus_ok b \<Longrightarrow> bus_ok (removeHandler ch h b)"
  by (auto simp: removeHandler_def bus_ok_def pending_listeners_def distinct_removeAll)

text \<open>The continuation runs on a state that has all seven results.\<close>

lemma start_settled_ok:
  assumes ok: "bus_ok b" and full: "length (eb_settled b) = length all_channels"
  shows "bus_ok (start_settled epoch b)"
proof -
  have pr: "eb_startPromise b \<noteq> None"
    using ok full by (auto simp: bus_ok_def)
  then have un: "eb_unlisteners b = []" using ok by (simp add: bus_ok_def)
  have dist: "distinct (map fst (eb_settled b))" using ok by (simp add: bus_ok_def)
  have succ: "set (succeeded (eb_settled b)) = pending_listeners b"
    by (simp add: set_succeeded [OF dist] pending_listeners_def)
  have live: "set (eb_live b) = pending_listeners b" using ok un by (simp add: bus_ok_def)
  show ?thesis
  proof (cases "epoch \<noteq> eb_startEpoch b \<or> (\<exists>r \<in> set (eb_settled b). snd r = None)")
    case True
    then have "start_settled epoch b =
        (unlisten_all (succeeded (eb_settled b)) b)\<lparr>eb_startPromise := None, eb_settled := []\<rparr>"
      by (auto simp: start_settled_def Let_def)
    with ok succ live un show ?thesis
      by (auto simp: bus_ok_def unlisten_all_def pending_listeners_def)
  next
    case False
    then have eq: "start_settled epoch b =
        b\<lparr>eb_unlisteners := succeeded (eb_settled b), eb_startPromise := None, eb_settled := []\<rparr>"
      by (auto simp: start_settled_def Let_def)
    have "map snd (succeeded (eb_settled b)) = all_channels"
      using ok False by (intro snd_succeeded [OF dist settled_complete [OF dist full]])
        (auto simp: bus_ok_def)
    with ok succ live show ?thesis
      by (auto simp: eq bus_ok_def pending_listeners_def)
  qed
qed

lemma listen_settled_ok:
  assumes ok: "bus_ok b"
  shows "bus_ok (listen_settled ch res b)"
proof (cases "eb_startPromise b = None \<or> ch \<in> fst ` set (eb_settled b)")
  case True
  with ok show ?thesis by (auto simp: listen_settled_def split: option.splits)
next
  case False
  then obtain epoch where pr: "eb_startPromise b = Some epoch"
    and new: "ch \<notin> fst ` set (eb_settled b)" by auto
  let ?l = "(eb_nextListener b, ch)"
  let ?b1 = "if res
     then b\<lparr>eb_live := eb_live b @ [?l], eb_nextListener := eb_nextListener b + 1,
            eb_settled := eb_settled b @ [(ch, Some ?l)]\<rparr>
     else b\<lparr>eb_settled := eb_settled b @ [(ch, None)]\<rparr>"
  have un: "eb_unlisteners b = []" using ok pr by (simp add: bus_ok_def)
  have fresh: "\<And>l. l \<in> pending_listeners b \<Longrightarrow> fst l < eb_nextListener b"
    using ok un by (simp add: bus_ok_def)
  then have "?l \<notin> pending_listeners b" by fastforce
  moreover have "\<And>l. l \<in> pending_listeners b \<Longrightarrow> fst l < Suc (eb_nextListener b)"
    using fresh less_SucI by blast
  ultimately have "bus_ok ?b1"
    using ok pr new un fresh
    by (auto simp: bus_ok_def pending_listeners_def)
  then show ?thesis
    using pr new start_settled_ok [of ?b1 epoch] by (simp add: listen_settled_def Let_def)
qed

lemma bus_step_ok: "bus_ok b \<Longrightarrow> bus_ok (bus_step throws b e)"
  by (cases e) (simp_all add: bus_start_ok bus_stop_ok listen_settled_ok backend_event_ok
      bus_on_ok removeHandler_ok)

lemma createTerminalEventBus_ok: "bus_ok createTerminalEventBus"
  by (simp add: bus_ok_def createTerminalEventBus_def pending_listeners_def)

interpretation eb: machine "bus_step throws" createTerminalEventBus bus_ok for throws
  by unfold_locales (rule createTerminalEventBus_ok, rule bus_step_ok)

section \<open>Delivery\<close>

text \<open>A distinct list of listeners whose channels are all seven has one listener per channel.\<close>

lemma one_listener:
  assumes "distinct ls" and "map snd us = all_channels" and "set ls = set us"
  shows "\<exists>l. filter (\<lambda>l. snd l = ch) ls = [l]"
proof -
  have "ch \<in> snd ` set us"
    by (metis assms(2) channels_UNIV UNIV_I list.set_map)
  then obtain l where l: "l \<in> set us" "snd l = ch" by auto
  have inj: "inj_on snd (set us)"
    by (metis assms(2) distinct_all_channels distinct_map)
  have "{x \<in> set ls. snd x = ch} = {l}"
    using l inj assms(3) by (auto simp: inj_on_def)
  then have "set (filter (\<lambda>l. snd l = ch) ls) = {l}" by simp
  moreover have "distinct (filter (\<lambda>l. snd l = ch) ls)" using assms(1) by simp
  ultimately show ?thesis
    by (metis distinct_card card_1_singleton_iff length_0_conv length_Suc_conv One_nat_def
        card.empty card.insert empty_iff finite.emptyI)
qed

lemma parseAndEmit_delivered:
  "parse_payload ch v = Some p \<Longrightarrow>
   eb_delivered (parseAndEmit throws ch v b) =
     eb_delivered b @ map (\<lambda>h. (h, p)) (eb_handlers b ch)"
  by (simp add: parseAndEmit_def)

lemma invalid_ignored:
  "parse_payload ch v = None \<Longrightarrow> backend_event throws ch v b = b"
proof -
  assume "parse_payload ch v = None"
  then have "fold (\<lambda>l. parseAndEmit throws ch v) ls b = b" for ls :: "listener list"
    by (induction ls) (simp_all add: parseAndEmit_def)
  then show ?thesis by (simp add: backend_event_def)
qed

lemma started_delivers:
  assumes "bus_ok b" and "eb_unlisteners b \<noteq> []" and "parse_payload ch v = Some p"
  shows "eb_delivered (backend_event throws ch v b) =
         eb_delivered b @ map (\<lambda>h. (h, p)) (eb_handlers b ch)"
proof -
  have "eb_startPromise b = None" using assms(1,2) by (auto simp: bus_ok_def)
  then have "pending_listeners b = {}"
    using assms(1) by (simp add: bus_ok_def pending_listeners_def)
  then obtain l where "filter (\<lambda>l. snd l = ch) (eb_live b) = [l]"
    using assms(1,2) one_listener [of "eb_live b" "eb_unlisteners b" ch]
    by (auto simp: bus_ok_def)
  then show ?thesis
    by (simp add: backend_event_def parseAndEmit_delivered [OF assms(3)])
qed

lemma not_started_silent:
  assumes "bus_ok b" and "eb_unlisteners b = []" and "eb_startPromise b = None"
  shows "eb_live b = []" and "backend_event throws ch v b = b"
proof -
  have "eb_settled b = []" and "set (eb_live b) = pending_listeners b"
    using assms by (auto simp: bus_ok_def)
  then show "eb_live b = []" by (simp add: pending_listeners_def)
  then show "backend_event throws ch v b = b" by (simp add: backend_event_def)
qed

text \<open>A start that was overtaken by a stop: its continuation unregisters all it registered.\<close>

fun is_settlement :: "bus_event \<Rightarrow> bool" where
  "is_settlement (BListenSettled ch ok) = True"
| "is_settlement _ = False"

lemma stale_step:
  assumes "bus_ok b" and "eb_startPromise b = Some e" and "e \<noteq> eb_startEpoch b"
  shows "(eb_startPromise (listen_settled ch res b) = Some e \<and>
          eb_startEpoch (listen_settled ch res b) = eb_startEpoch b) \<or>
         (eb_startPromise (listen_settled ch res b) = None \<and>
          eb_unlisteners (listen_settled ch res b) = [])"
  using assms
  by (auto simp: listen_settled_def start_settled_def unlisten_all_def bus_ok_def Let_def)

lemma idle_settlements:
  "\<lbrakk>\<forall>x \<in> set es. is_settlement x; eb_startPromise b = None\<rbrakk> \<Longrightarrow>
   run_events (bus_step throws) b es = b"
proof (induction es)
  case (Cons x es)
  then show ?case by (cases x) (auto simp: listen_settled_def)
qed simp

lemma stale_start_settles:
  assumes "bus_ok b" and "eb_startPromise b = Some e" and "e \<noteq> eb_startEpoch b"
    and "\<forall>x \<in> set es. is_settlement x"
    and "eb_startPromise (run_events (bus_step throws) b es) = None"
  shows "eb_unlisteners (run_events (bus_step throws) b es) = []"
  using assms
proof (induction es arbitrary: b)
  case Nil
  then show ?case by simp
next
  case (Cons x es)
  then obtain ch res where x: "x = BListenSettled ch res" by (cases x) auto
  let ?b = "listen_settled ch res b"
  have ok: "bus_ok ?b" by (rule listen_settled_ok) (rule Cons.prems(1))
  from stale_step [OF Cons.prems(1-3), of ch res]
  show ?case
  proof
    assume "eb_startPromise ?b = Some e \<and> eb_startEpoch ?b = eb_startEpoch b"
    with Cons ok x show ?thesis by simp
  next
    assume "eb_startPromise ?b = None \<and> eb_unlisteners ?b = []"
    with Cons.prems(4) x show ?thesis by (simp add: idle_settlements)
  qed
qed

text \<open>What may happen while a start settles: everything but a stop and a registration that fails.\<close>

fun undisturbed :: "bus_event \<Rightarrow> bool" where
  "undisturbed BStop = False"
| "undisturbed (BListenSettled ch ok) = ok"
| "undisturbed _ = True"

definition starting :: "event_bus \<Rightarrow> bool" where
  "starting b \<longleftrightarrow> bus_ok b \<and>
     (eb_unlisteners b \<noteq> [] \<or>
      eb_startPromise b = Some (eb_startEpoch b) \<and> length (eb_settled b) < length all_channels \<and>
      (\<forall>r \<in> set (eb_settled b). snd r \<noteq> None))"

definition registered :: "event_bus \<Rightarrow> bus_channel \<Rightarrow> bool" where
  "registered b ch \<longleftrightarrow> eb_unlisteners b \<noteq> [] \<or> ch \<in> fst ` set (eb_settled b)"

lemma bus_start_starting: "\<lbrakk>bus_ok b; eb_startPromise b = None\<rbrakk> \<Longrightarrow> starting (bus_start b)"
  using bus_start_ok [of b] by (auto simp: starting_def bus_start_def)

lemma settled_registration:
  assumes "starting b" and "eb_startPromise b = Some e"
  shows "(eb_unlisteners (listen_settled ch True b) \<noteq> [] \<or>
      eb_startPromise (listen_settled ch True b) = Some (eb_startEpoch (listen_settled ch True b)) \<and>
      length (eb_settled (listen_settled ch True b)) < length all_channels \<and>
      (\<forall>r \<in> set (eb_settled (listen_settled ch True b)). snd r \<noteq> None)) \<and>
    registered (listen_settled ch True b) ch \<and> (registered b d \<longrightarrow> registered (listen_settled ch True b) d)"
proof -
  have un: "eb_unlisteners b = []" and e: "e = eb_startEpoch b" and ok: "bus_ok b"
    using assms by (auto simp: starting_def bus_ok_def)
  show ?thesis
  proof (cases "ch \<in> fst ` set (eb_settled b)")
    case True
    with assms un show ?thesis by (auto simp: listen_settled_def starting_def registered_def)
  next
    case new: False
    let ?b = "b\<lparr>eb_live := eb_live b @ [(eb_nextListener b, ch)], eb_nextListener := eb_nextListener b + 1,
      eb_settled := eb_settled b @ [(ch, Some (eb_nextListener b, ch))]\<rparr>"
    have all: "\<forall>r \<in> set (eb_settled ?b). snd r \<noteq> None" using assms un by (auto simp: starting_def)
    show ?thesis
    proof (cases "length (eb_settled ?b) = length all_channels")
      case True
      have dist: "distinct (map fst (eb_settled ?b))" using ok new by (auto simp: bus_ok_def)
      have "map snd (succeeded (eb_settled ?b)) = all_channels"
        by (rule snd_succeeded [OF dist settled_complete [OF dist True] all]) (use ok in \<open>auto simp: bus_ok_def\<close>)
      then have "succeeded (eb_settled ?b) \<noteq> []" by (auto simp: all_channels_def)
      moreover have "listen_settled ch True b = start_settled e ?b"
        using assms(2) new True by (simp add: listen_settled_def Let_def)
      ultimately show ?thesis using all by (auto simp: start_settled_def e Let_def registered_def)
    next
      case False
      then have "listen_settled ch True b = ?b"
        using assms(2) new by (simp add: listen_settled_def Let_def)
      with False all assms un e show ?thesis by (auto simp: starting_def registered_def)
    qed
  qed
qed

lemma starting_step:
  assumes "starting b" and "undisturbed x"
  shows "starting (bus_step throws b x)" and "registered b d \<Longrightarrow> registered (bus_step throws b x) d"
    and "registered (listen_settled ch True b) ch"
proof -
  have idle: "listen_settled ch True b = b" if "eb_startPromise b = None" for ch
    using that by (simp add: listen_settled_def)
  have on: "eb_unlisteners b \<noteq> []" if "eb_startPromise b = None"
    using that assms(1) by (simp add: starting_def)
  have ok: "bus_ok (bus_step throws b x)" using assms(1) by (simp add: starting_def bus_step_ok)
  have reg: "starting (listen_settled ch True b) \<and> (registered b d \<longrightarrow> registered (listen_settled ch True b) d) \<and>
      registered (listen_settled ch True b) ch" for ch
  proof (cases "eb_startPromise b")
    case None
    with idle on assms(1) show ?thesis by (simp add: registered_def)
  next
    case (Some e)
    with assms(1) settled_registration [OF assms(1) Some, of ch] listen_settled_ok [of b ch True] show ?thesis
      by (simp add: starting_def)
  qed
  then show "registered (listen_settled ch True b) ch" by blast
  show "starting (bus_step throws b x)"
    using assms ok reg by (cases x) (auto simp: starting_def bus_start_def backend_event_def bus_on_def removeHandler_def)
  show "registered (bus_step throws b x) d" if "registered b d"
    using assms that reg
    by (cases x) (auto simp: registered_def starting_def bus_start_def backend_event_def bus_on_def removeHandler_def)
qed

lemma starting_run:
  "\<lbrakk>starting b; list_all undisturbed fs\<rbrakk> \<Longrightarrow>
   starting (run_events (bus_step throws) b fs) \<and>
   (\<forall>ch. registered b ch \<or> BListenSettled ch True \<in> set fs \<longrightarrow> registered (run_events (bus_step throws) b fs) ch)"
proof (induction fs arbitrary: b)
  case (Cons x fs)
  then have x: "undisturbed x" and fs: "list_all undisturbed fs" by simp_all
  note step = starting_step [OF Cons.prems(1) x]
  have "registered b ch \<or> BListenSettled ch True \<in> set (x # fs) \<Longrightarrow>
      registered (bus_step throws b x) ch \<or> BListenSettled ch True \<in> set fs" for ch
    using step(2,3) [of ch] by auto
  with Cons.IH [OF step(1) fs, of throws] show ?case by auto
qed simp

lemma started_after_settlements:
  assumes "starting b" and "list_all undisturbed fs" and "\<forall>ch. BListenSettled ch True \<in> set fs"
  shows "eb_unlisteners (run_events (bus_step throws) b fs) \<noteq> []"
proof
  let ?b = "run_events (bus_step throws) b fs"
  assume none: "eb_unlisteners ?b = []"
  from starting_run [OF assms(1,2), of throws] assms(3)
  have st: "starting ?b" and reg: "\<And>ch. registered ?b ch" by auto
  then have "set (map fst (eb_settled ?b)) = UNIV" using none by (auto simp: registered_def)
  then have "set all_channels \<subseteq> set (map fst (eb_settled ?b))" by simp
  then have "card (set all_channels) \<le> length (map fst (eb_settled ?b))"
    by (meson card_length card_mono finite_set le_trans)
  moreover have "card (set all_channels) = length all_channels"
    by (rule distinct_card) (rule distinct_all_channels)
  ultimately have "length all_channels \<le> length (eb_settled ?b)" by simp
  with st none show False by (simp add: starting_def)
qed

section \<open>Properties\<close>

text \<open>C20: When no start is in flight, after whatever history, the backend's live listeners are exactly those
  the bus can unregister, so none leaks, and if there are none an event reaches nobody. A start called then
  takes effect: once each of the seven registrations has succeeded, in any order and between whatever
  subscriptions, removals, backend events and further starts, and as long as none fails and no stop
  comes, the bus has one listener per channel, and a valid payload is delivered exactly once to each
  handler subscribed to its channel, in the order of subscription, whichever of them throw; an
  invalid one reaches none.\<close>

theorem bus_delivers_exactly_once:
  assumes "b0 = run_events (bus_step throws) createTerminalEventBus es"
    and "eb_startPromise b0 = None"
    and "list_all undisturbed fs" and "\<forall>ch. BListenSettled ch True \<in> set fs"
    and "b = run_events (bus_step throws) (bus_start b0) fs"
  shows "set (eb_live b0) = set (eb_unlisteners b0) \<and>
    (eb_unlisteners b0 = [] \<longrightarrow> backend_event throws ch v b0 = b0) \<and>
    map snd (eb_unlisteners b) = all_channels \<and> set (eb_live b) = set (eb_unlisteners b) \<and>
    distinct (eb_live b) \<and> distinct (eb_handlers b ch) \<and>
    eb_delivered (backend_event throws ch v b) = eb_delivered b @
      (case parse_payload ch v of None \<Rightarrow> []
       | Some p \<Rightarrow> map (\<lambda>h. (h, p)) (eb_handlers b ch))"
proof -
  have ok0: "bus_ok b0" unfolding assms(1) by (rule eb.inv_run)
  then have live0: "set (eb_live b0) = set (eb_unlisteners b0)"
    using assms(2) by (simp add: bus_ok_def pending_listeners_def)
  have ok: "bus_ok b" unfolding assms(5) by (rule eb.inv_run_from) (rule bus_start_ok [OF ok0])
  have un: "eb_unlisteners b \<noteq> []"
    unfolding assms(5) by (rule started_after_settlements [OF bus_start_starting [OF ok0 assms(2)] assms(3,4)])
  with ok have "eb_startPromise b = None" and chans: "map snd (eb_unlisteners b) = all_channels"
    by (auto simp: bus_ok_def)
  with ok have "set (eb_live b) = set (eb_unlisteners b)" "distinct (eb_live b)" "distinct (eb_handlers b ch)"
    by (simp_all add: bus_ok_def pending_listeners_def)
  with live0 not_started_silent [OF ok0 _ assms(2)] chans started_delivers [OF ok un] show ?thesis
    by (auto simp: invalid_ignored split: option.splits)
qed

text \<open>Two handlers, one of which throws; the seven registrations settle while a third handler comes
  and goes and a payload arrives that no listener hears yet.\<close>

definition example_chunk :: json where
  "example_chunk = JObj [(''sessionId'', JStr ''s''), (''runId'', JStr ''r''),
     (''data'', JStr ''x''), (''seq'', JInt 3)]"

definition example_subscriptions :: "bus_event list" where
  "example_subscriptions = [BOn ChRunChunk 4, BOn ChRunChunk 9, BOn ChRunChunk 4]"

definition example_settlements :: "bus_event list" where
  "example_settlements = [BOn ChRunChunk 5, BBackend ChRunChunk example_chunk, BOff ChRunChunk 5, BStart] @
     map (\<lambda>ch. BListenSettled ch True) (rev all_channels)"

theorem bus_delivers_exactly_once_witness:
  "eb_delivered (run_events (bus_step (\<lambda>h. h = 4)) createTerminalEventBus
      (example_subscriptions @ [BStart] @ example_settlements @ [BBackend ChRunChunk example_chunk])) =
   [(4, PRunChunk \<lparr>cp_sessionId = ''s'', cp_runId = ''r'', cp_data = ''x'', cp_seq = Some 3\<rparr>),
    (9, PRunChunk \<lparr>cp_sessionId = ''s'', cp_runId = ''r'', cp_data = ''x'', cp_seq = Some 3\<rparr>)]"
proof -
  let ?step = "bus_step (\<lambda>h. h = (4::nat))"
  let ?c = "run_events ?step createTerminalEventBus example_subscriptions"
  let ?b = "run_events ?step (bus_start ?c) example_settlements"
  have 1: "eb_startPromise ?c = None" by code_simp
  have 2: "list_all undisturbed example_settlements" by code_simp
  have 3: "parse_payload ChRunChunk example_chunk = Some (PRunChunk
     \<lparr>cp_sessionId = ''s'', cp_runId = ''r'', cp_data = ''x'', cp_seq = Some 3\<rparr>)"
    by code_simp
  have 4: "\<forall>ch. BListenSettled ch True \<in> set example_settlements"
    using channels_UNIV by (auto simp: example_settlements_def)
  have 5: "eb_delivered ?b = []" by code_simp
  have 6: "eb_handlers ?b ChRunChunk = [4, 9]" by code_simp
  show ?thesis
    using bus_delivers_exactly_once [OF refl 1 2 4 refl, of ChRunChunk example_chunk]
    by (simp add: run_events_append 3 5 6 del: parse_payload.simps)
qed

text \<open>A \<open>start()\<close> called after a \<open>stop()\<close> while the previous start is still
  registering changes nothing: it gets the old promise. Once that promise settles the bus has no
  listener at all, although the caller of the second \<open>start()\<close> waited for it and no stop
  came after.\<close>

theorem restart_during_start_ends_deaf:
  assumes "b = run_events (bus_step throws) createTerminalEventBus es"
    and "eb_startPromise b = Some e"
    and "\<forall>x \<in> set fs. is_settlement x"
    and "b' = run_events (bus_step throws) b ([BStop, BStart] @ fs)"
    and "eb_startPromise b' = None"
  shows "eb_live b' = [] \<and> eb_unlisteners b' = [] \<and> backend_event throws ch v b' = b'"
proof -
  have ok: "bus_ok b" unfolding assms(1) by (rule eb.inv_run)
  let ?s = "bus_stop b"
  have "bus_start ?s = ?s" and pr: "eb_startPromise ?s = Some e"
    and "eb_startEpoch ?s = Suc (eb_startEpoch b)"
    using assms(2) by (simp_all add: bus_start_def bus_stop_def unlisten_all_def)
  then have b': "b' = run_events (bus_step throws) ?s fs" and "e \<noteq> eb_startEpoch ?s"
    using ok assms(2,4) by (auto simp: bus_ok_def)
  then have un: "eb_unlisteners b' = []"
    using stale_start_settles [OF bus_stop_ok [OF ok] pr _ assms(3)] assms(5) by simp
  have "bus_ok b'" unfolding b' by (rule eb.inv_run_from) (rule bus_stop_ok [OF ok])
  then show ?thesis using not_started_silent un assms(5) by auto
qed

theorem restart_during_start_ends_deaf_witness:
  "eb_live (run_events (bus_step (\<lambda>_. False)) createTerminalEventBus
     ([BStart] @ [BStop, BStart] @ map (\<lambda>ch. BListenSettled ch True) all_channels)) = []"
proof -
  let ?b = "run_events (bus_step (\<lambda>_. False)) createTerminalEventBus [BStart]"
  have 1: "eb_startPromise ?b = Some 1" by code_simp
  have 2: "\<forall>x \<in> set (map (\<lambda>ch. BListenSettled ch True) all_channels). is_settlement x"
    by (simp add: all_channels_def)
  have 3: "eb_startPromise (run_events (bus_step (\<lambda>_. False)) ?b
     ([BStop, BStart] @ map (\<lambda>ch. BListenSettled ch True) all_channels)) = None"
    by code_simp
  show ?thesis
    unfolding run_events_append [of _ _ "[BStart]"]
    using restart_during_start_ends_deaf [OF refl 1 2 refl 3] by simp
qed

end
