(* ===== verification/ShadowCompare.thy ===== *)
theory ShadowCompare
  imports RuntimeState
begin

text \<open>
  The legacy/shadow comparison store (\<open>src/services/terminal/shadowCompare.ts\<close>): what two
  parallel implementations of a run produced, and the comparison of the two channels. Output data
  are strings of code units below 256; the byte count of a string is that of \<open>TextEncoder\<close>.
\<close>

section \<open>Records\<close>

datatype shadow_channel = Legacy | Shadow

record channel_record =
  ch_startedAtMs :: "int option"
  ch_completedAtMs :: "int option"
  ch_chunks :: "string list"
  ch_states :: "string list"

record shadow_run_record =
  sr_runId :: string
  sr_legacy :: channel_record
  sr_shadow :: channel_record

record shadow_comparison =
  cmp_runId :: string
  cmp_outputEqual :: bool
  cmp_byteDiff :: nat
  cmp_legacyBytes :: nat
  cmp_shadowBytes :: nat
  cmp_durationDeltaMs :: "int option"
  cmp_stateSequenceEqual :: bool

type_synonym shadow_store = "(string, shadow_run_record) jsmap"

definition createChannelRecord :: channel_record where
  "createChannelRecord =
     \<lparr>ch_startedAtMs = None, ch_completedAtMs = None, ch_chunks = [], ch_states = []\<rparr>"

section \<open>Operations\<close>

definition fresh_shadow_record :: "string \<Rightarrow> shadow_run_record" where
  "fresh_shadow_record rid =
     \<lparr>sr_runId = rid, sr_legacy = createChannelRecord, sr_shadow = createChannelRecord\<rparr>"

definition getOrCreateShadow :: "shadow_store \<Rightarrow> string \<Rightarrow> shadow_run_record" where
  "getOrCreateShadow m rid =
     (case jm_get m rid of Some r \<Rightarrow> r | None \<Rightarrow> fresh_shadow_record rid)"

fun channel_of :: "shadow_channel \<Rightarrow> shadow_run_record \<Rightarrow> channel_record" where
  "channel_of Legacy r = sr_legacy r"
| "channel_of Shadow r = sr_shadow r"

fun set_channel ::
    "shadow_channel \<Rightarrow> channel_record \<Rightarrow> shadow_run_record \<Rightarrow> shadow_run_record" where
  "set_channel Legacy c r = r\<lparr>sr_legacy := c\<rparr>"
| "set_channel Shadow c r = r\<lparr>sr_shadow := c\<rparr>"

text \<open>Every mutation fetches or creates the record and writes to one of its channels.\<close>

definition on_channel ::
    "(channel_record \<Rightarrow> channel_record) \<Rightarrow> shadow_store \<Rightarrow> string \<Rightarrow> shadow_channel \<Rightarrow>
     shadow_store" where
  "on_channel f m rid ch =
     (let r = getOrCreateShadow m rid
      in jm_set m rid (set_channel ch (f (channel_of ch r)) r))"

definition shadow_start :: "shadow_store \<Rightarrow> string \<Rightarrow> shadow_channel \<Rightarrow> int \<Rightarrow> shadow_store" where
  "shadow_start m rid ch atMs =
     on_channel (\<lambda>c. if ch_startedAtMs c \<noteq> None then c else c\<lparr>ch_startedAtMs := Some atMs\<rparr>)
       m rid ch"

definition appendOutput ::
    "shadow_store \<Rightarrow> string \<Rightarrow> shadow_channel \<Rightarrow> string \<Rightarrow> shadow_store" where
  "appendOutput m rid ch d = on_channel (\<lambda>c. c\<lparr>ch_chunks := ch_chunks c @ [d]\<rparr>) m rid ch"

definition shadow_complete ::
    "shadow_store \<Rightarrow> string \<Rightarrow> shadow_channel \<Rightarrow> int \<Rightarrow> shadow_store" where
  "shadow_complete m rid ch atMs =
     on_channel (\<lambda>c. if ch_completedAtMs c \<noteq> None then c else c\<lparr>ch_completedAtMs := Some atMs\<rparr>)
       m rid ch"

definition pushState :: "shadow_store \<Rightarrow> string \<Rightarrow> shadow_channel \<Rightarrow> string \<Rightarrow> shadow_store" where
  "pushState m rid ch st = on_channel (\<lambda>c. c\<lparr>ch_states := ch_states c @ [st]\<rparr>) m rid ch"

definition resolveDuration :: "channel_record \<Rightarrow> int option" where
  "resolveDuration c =
     (case (ch_startedAtMs c, ch_completedAtMs c) of
        (Some a, Some b) \<Rightarrow> Some (max 0 (b - a))
      | _ \<Rightarrow> None)"

text \<open>The element loop of \<open>statesEqual\<close>, from index \<open>i\<close>.\<close>

function states_loop :: "string list \<Rightarrow> string list \<Rightarrow> nat \<Rightarrow> bool" where
  "states_loop l r i =
     (if i < length l then (if l ! i \<noteq> r ! i then False else states_loop l r (i + 1)) else True)"
  by pat_completeness auto
termination by (relation "measure (\<lambda>(l, r, i). length l - i)") auto

definition statesEqual :: "string list \<Rightarrow> string list \<Rightarrow> bool" where
  "statesEqual l r = (if length l \<noteq> length r then False else states_loop l r 0)"

definition shadow_compare :: "shadow_store \<Rightarrow> string \<Rightarrow> shadow_comparison option" where
  "shadow_compare m rid =
     (case jm_get m rid of
        None \<Rightarrow> None
      | Some r \<Rightarrow>
          (let lo = concat (ch_chunks (sr_legacy r));
               so = concat (ch_chunks (sr_shadow r));
               lb = measureBytes lo;
               sb = measureBytes so
           in Some \<lparr>cmp_runId = rid, cmp_outputEqual = (lo = so),
                cmp_byteDiff = nat \<bar>int lb - int sb\<bar>, cmp_legacyBytes = lb, cmp_shadowBytes = sb,
                cmp_durationDeltaMs =
                  (case (resolveDuration (sr_legacy r), resolveDuration (sr_shadow r)) of
                     (Some a, Some b) \<Rightarrow> Some (b - a) | _ \<Rightarrow> None),
                cmp_stateSequenceEqual =
                  statesEqual (ch_states (sr_legacy r)) (ch_states (sr_shadow r))\<rparr>))"

definition listComparisons :: "shadow_store \<Rightarrow> shadow_comparison list" where
  "listComparisons m = List.map_filter (shadow_compare m) (map fst m)"

definition shadow_delete :: "shadow_store \<Rightarrow> string \<Rightarrow> bool \<times> shadow_store" where
  "shadow_delete m rid = (jm_get m rid \<noteq> None, jm_delete m rid)"

definition shadow_size :: "shadow_store \<Rightarrow> nat" where
  "shadow_size m = jm_size m"

definition createTerminalShadowCompareStore :: shadow_store where
  "createTerminalShadowCompareStore = []"

definition shadow_clear :: "shadow_store \<Rightarrow> shadow_store" where
  "shadow_clear m = []"

datatype shadow_event =
    ShStart string shadow_channel int
  | ShOutput string shadow_channel string
  | ShComplete string shadow_channel int
  | ShState string shadow_channel string
  | ShDelete string
  | ShClear

fun shadow_step :: "shadow_store \<Rightarrow> shadow_event \<Rightarrow> shadow_store" where
  "shadow_step m (ShStart rid ch t) = shadow_start m rid ch t"
| "shadow_step m (ShOutput rid ch d) = appendOutput m rid ch d"
| "shadow_step m (ShComplete rid ch t) = shadow_complete m rid ch t"
| "shadow_step m (ShState rid ch st) = pushState m rid ch st"
| "shadow_step m (ShDelete rid) = snd (shadow_delete m rid)"
| "shadow_step m ShClear = shadow_clear m"

section \<open>Refinement to the event history\<close>

text \<open>What the events say of one channel of one run, read off the sequence since the last event
  that forgot the run.\<close>

definition relevant :: "string \<Rightarrow> shadow_event list \<Rightarrow> shadow_event list" where
  "relevant rid es = foldl (\<lambda>acc e. case e of
       ShDelete r \<Rightarrow> if r = rid then [] else acc
     | ShClear \<Rightarrow> []
     | ShStart r _ _ \<Rightarrow> if r = rid then acc @ [e] else acc
     | ShOutput r _ _ \<Rightarrow> if r = rid then acc @ [e] else acc
     | ShComplete r _ _ \<Rightarrow> if r = rid then acc @ [e] else acc
     | ShState r _ _ \<Rightarrow> if r = rid then acc @ [e] else acc) [] es"

definition spec_starts :: "shadow_channel \<Rightarrow> shadow_event list \<Rightarrow> int list" where
  "spec_starts ch es = List.map_filter
     (\<lambda>e. case e of ShStart _ c t \<Rightarrow> if c = ch then Some t else None | _ \<Rightarrow> None) es"

definition spec_completes :: "shadow_channel \<Rightarrow> shadow_event list \<Rightarrow> int list" where
  "spec_completes ch es = List.map_filter
     (\<lambda>e. case e of ShComplete _ c t \<Rightarrow> if c = ch then Some t else None | _ \<Rightarrow> None) es"

definition spec_chunks :: "shadow_channel \<Rightarrow> shadow_event list \<Rightarrow> string list" where
  "spec_chunks ch es = List.map_filter
     (\<lambda>e. case e of ShOutput _ c d \<Rightarrow> if c = ch then Some d else None | _ \<Rightarrow> None) es"

definition spec_states :: "shadow_channel \<Rightarrow> shadow_event list \<Rightarrow> string list" where
  "spec_states ch es = List.map_filter
     (\<lambda>e. case e of ShState _ c d \<Rightarrow> if c = ch then Some d else None | _ \<Rightarrow> None) es"

definition first :: "'a list \<Rightarrow> 'a option" where
  "first xs = (case xs of [] \<Rightarrow> None | x # _ \<Rightarrow> Some x)"

definition spec_channel :: "shadow_channel \<Rightarrow> shadow_event list \<Rightarrow> channel_record" where
  "spec_channel ch es =
     \<lparr>ch_startedAtMs = first (spec_starts ch es), ch_completedAtMs = first (spec_completes ch es),
      ch_chunks = spec_chunks ch es, ch_states = spec_states ch es\<rparr>"

definition spec_record :: "string \<Rightarrow> shadow_event list \<Rightarrow> shadow_run_record option" where
  "spec_record rid es =
     (if es = [] then None
      else Some \<lparr>sr_runId = rid, sr_legacy = spec_channel Legacy es,
                 sr_shadow = spec_channel Shadow es\<rparr>)"

lemma map_filter_append [simp]:
  "List.map_filter f (xs @ ys) = List.map_filter f xs @ List.map_filter f ys"
  by (induction xs) (auto simp: map_filter_simps split: option.splits)

lemma first_append: "first (xs @ ys) = (case first xs of None \<Rightarrow> first ys | Some x \<Rightarrow> Some x)"
  by (auto simp: first_def split: list.splits)

lemmas spec_defs = spec_channel_def spec_starts_def spec_completes_def spec_chunks_def
  spec_states_def map_filter_simps

lemma spec_channel_Nil [simp]: "spec_channel ch [] = createChannelRecord"
  by (simp add: spec_defs createChannelRecord_def first_def)

lemma spec_channel_snoc:
  "spec_channel ch (es @ [ShStart r c t]) =
     (let s = spec_channel ch es in
      if c = ch \<and> ch_startedAtMs s = None then s\<lparr>ch_startedAtMs := Some t\<rparr> else s)"
  "spec_channel ch (es @ [ShComplete r c t]) =
     (let s = spec_channel ch es in
      if c = ch \<and> ch_completedAtMs s = None then s\<lparr>ch_completedAtMs := Some t\<rparr> else s)"
  "spec_channel ch (es @ [ShOutput r c d]) =
     (let s = spec_channel ch es in if c = ch then s\<lparr>ch_chunks := ch_chunks s @ [d]\<rparr> else s)"
  "spec_channel ch (es @ [ShState r c d]) =
     (let s = spec_channel ch es in if c = ch then s\<lparr>ch_states := ch_states s @ [d]\<rparr> else s)"
  by (auto simp: spec_defs first_append Let_def split: option.splits)
    (simp_all add: first_def)

lemma fresh_is_spec: "fresh_shadow_record rid =
    \<lparr>sr_runId = rid, sr_legacy = spec_channel Legacy [], sr_shadow = spec_channel Shadow []\<rparr>"
  by (simp add: fresh_shadow_record_def)

lemma on_channel_get:
  "jm_get (on_channel f m r c) rid =
     (if rid = r then Some (set_channel c (f (channel_of c (getOrCreateShadow m r)))
        (getOrCreateShadow m r)) else jm_get m rid)"
  by (simp add: on_channel_def Let_def)

lemma relevant_snoc: "relevant rid (es @ [e]) = (case e of
       ShDelete r \<Rightarrow> if r = rid then [] else relevant rid es
     | ShClear \<Rightarrow> []
     | ShStart r _ _ \<Rightarrow> if r = rid then relevant rid es @ [e] else relevant rid es
     | ShOutput r _ _ \<Rightarrow> if r = rid then relevant rid es @ [e] else relevant rid es
     | ShComplete r _ _ \<Rightarrow> if r = rid then relevant rid es @ [e] else relevant rid es
     | ShState r _ _ \<Rightarrow> if r = rid then relevant rid es @ [e] else relevant rid es)"
  by (cases e) (simp_all add: relevant_def)

lemma getOrCreate_spec:
  "jm_get m rid = spec_record rid es \<Longrightarrow> getOrCreateShadow m rid =
     \<lparr>sr_runId = rid, sr_legacy = spec_channel Legacy es, sr_shadow = spec_channel Shadow es\<rparr>"
  by (cases "es = []") (simp_all add: getOrCreateShadow_def spec_record_def fresh_is_spec)

lemma shadow_refines:
  "jm_get (run_events shadow_step createTerminalShadowCompareStore es) rid =
     spec_record rid (relevant rid es)"
proof (induction es rule: rev_induct)
  case Nil
  show ?case by (simp add: createTerminalShadowCompareStore_def spec_record_def relevant_def)
next
  case (snoc e es)
  note g = getOrCreate_spec [OF snoc]
  show ?case
  proof (cases e)
    case (ShStart r c t)
    with snoc g show ?thesis
      by (cases c) (auto simp: run_events_append relevant_snoc shadow_start_def on_channel_get
        spec_record_def spec_channel_snoc Let_def)
  next
    case (ShOutput r c d)
    with snoc g show ?thesis
      by (cases c) (auto simp: run_events_append relevant_snoc appendOutput_def on_channel_get
        spec_record_def spec_channel_snoc Let_def)
  next
    case (ShComplete r c t)
    with snoc g show ?thesis
      by (cases c) (auto simp: run_events_append relevant_snoc shadow_complete_def on_channel_get
        spec_record_def spec_channel_snoc Let_def)
  next
    case (ShState r c d)
    with snoc g show ?thesis
      by (cases c) (auto simp: run_events_append relevant_snoc pushState_def on_channel_get
        spec_record_def spec_channel_snoc Let_def)
  next
    case (ShDelete r)
    with snoc show ?thesis
      by (simp add: run_events_append relevant_snoc shadow_delete_def spec_record_def)
  next
    case ShClear
    then show ?thesis
      by (simp add: run_events_append relevant_snoc shadow_clear_def spec_record_def)
  qed
qed

section \<open>Comparison\<close>

lemma states_loop_drop:
  "length l = length r \<Longrightarrow> states_loop l r i \<longleftrightarrow> drop i l = drop i r"
proof (induction l r i rule: states_loop.induct)
  case (1 l r i)
  show ?case
  proof (cases "i < length l")
    case True
    then have "drop i l = l ! i # drop (Suc i) l" "drop i r = r ! i # drop (Suc i) r"
      using "1.prems" by (simp_all add: Cons_nth_drop_Suc)
    with True 1 show ?thesis by (simp add: states_loop.simps [of l r i])
  next
    case False
    with "1.prems" show ?thesis by (simp add: states_loop.simps [of l r i])
  qed
qed

declare states_loop.simps [simp del]

lemma statesEqual_eq [simp]: "statesEqual l r \<longleftrightarrow> l = r"
  by (auto simp: statesEqual_def states_loop_drop)

definition elapsed :: "shadow_channel \<Rightarrow> shadow_event list \<Rightarrow> int option" where
  "elapsed ch es =
     (case (spec_starts ch es, spec_completes ch es) of
        (a # _, b # _) \<Rightarrow> Some (max 0 (b - a)) | _ \<Rightarrow> None)"

lemma elapsed_spec: "resolveDuration (spec_channel ch es) = elapsed ch es"
  by (simp add: resolveDuration_def spec_channel_def elapsed_def first_def split: list.splits)

text \<open>C37: The comparison of a run is a function of the events since it was last forgotten: the
  outputs are the concatenations in arrival order, the state sequences are compared as lists, the
  durations are taken from the first start and the first completion of each channel, and equal
  outputs have a byte difference of zero. A run with no such event has no comparison.\<close>

theorem shadow_compare_refines_history:
  "shadow_compare (run_events shadow_step createTerminalShadowCompareStore es) rid =
     (let h = relevant rid es;
          lo = concat (spec_chunks Legacy h); so = concat (spec_chunks Shadow h) in
      if h = [] then None
      else Some \<lparr>cmp_runId = rid, cmp_outputEqual = (lo = so),
        cmp_byteDiff = (if lo = so then 0 else
          max (measureBytes lo) (measureBytes so) - min (measureBytes lo) (measureBytes so)),
        cmp_legacyBytes = measureBytes lo, cmp_shadowBytes = measureBytes so,
        cmp_durationDeltaMs = (case (elapsed Legacy h, elapsed Shadow h) of
            (Some a, Some b) \<Rightarrow> Some (b - a) | _ \<Rightarrow> None),
        cmp_stateSequenceEqual = (spec_states Legacy h = spec_states Shadow h)\<rparr>)"
  by (auto simp: shadow_compare_def shadow_refines spec_record_def elapsed_spec Let_def)
    (auto simp: spec_channel_def)

section \<open>Listing\<close>

lemma shadow_wf: "jm_wf m \<Longrightarrow> jm_wf (shadow_step m e)"
  by (cases e) (simp_all add: shadow_start_def appendOutput_def shadow_complete_def pushState_def
      on_channel_def shadow_delete_def shadow_clear_def Let_def)

interpretation sc: machine shadow_step createTerminalShadowCompareStore jm_wf
  by unfold_locales (simp_all add: createTerminalShadowCompareStore_def shadow_wf)

lemma compare_some: "jm_get m rid \<noteq> None \<Longrightarrow> \<exists>c. shadow_compare m rid = Some c \<and> cmp_runId c = rid"
  by (auto simp: shadow_compare_def Let_def)

lemma list_runIds:
  "jm_wf m \<Longrightarrow> map cmp_runId (listComparisons m) = map fst m"
proof -
  have "map cmp_runId (List.map_filter (shadow_compare m) ks) = ks"
    if "\<forall>k \<in> set ks. jm_get m k \<noteq> None" for ks
    using that
  proof (induction ks)
    case (Cons k ks)
    then show ?case using compare_some [of m k] by (auto simp: map_filter_simps)
  qed (simp add: map_filter_simps)
  moreover have "\<forall>k \<in> set (map fst m). jm_get m k \<noteq> None"
    by (auto simp: jm_get_def intro: weak_map_of_SomeI)
  ultimately show ?thesis unfolding listComparisons_def by simp
qed

end
