(* ===== verification/PlanSchema.thy ===== *)
theory PlanSchema
  imports Zod
begin

text \<open>
  The plan schemas of the agent sidecar (\<open>agent-sidecar/src/schemas/plan.ts\<close>): steps, plans,
  the lenient schemas for generated plans, and the persisted plan record with its status rules.
  Strings are lists of code points. A schema is a function that returns the parsed value, with
  defaults filled in and unknown keys dropped, or \<open>None\<close> when the check fails.
\<close>

section \<open>Statuses\<close>

datatype plan_status =
  PsDraft | PsPendingApproval | PsApproved | PsRejected | PsExecuting | PsCompleted | PsFailed

datatype step_status = StPending | StRunning | StDone | StFailed | StSkipped | StCancelled

datatype risk_level = RLow | RMedium | RHigh

definition step_status_names :: "(step_status \<times> string) list" where
  "step_status_names = [(StPending, ''pending''), (StRunning, ''running''), (StDone, ''done''),
     (StFailed, ''failed''), (StSkipped, ''skipped''), (StCancelled, ''cancelled'')]"

definition risk_level_names :: "(risk_level \<times> string) list" where
  "risk_level_names = [(RLow, ''low''), (RMedium, ''medium''), (RHigh, ''high'')]"

datatype step_bucket = BucketCompleted | BucketFailed | BucketAborted | BucketInProgress

fun PLAN_STEP_TERMINAL_BUCKET :: "step_status \<Rightarrow> step_bucket" where
  "PLAN_STEP_TERMINAL_BUCKET StDone = BucketCompleted"
| "PLAN_STEP_TERMINAL_BUCKET StSkipped = BucketCompleted"
| "PLAN_STEP_TERMINAL_BUCKET StFailed = BucketFailed"
| "PLAN_STEP_TERMINAL_BUCKET StCancelled = BucketAborted"
| "PLAN_STEP_TERMINAL_BUCKET StPending = BucketInProgress"
| "PLAN_STEP_TERMINAL_BUCKET StRunning = BucketInProgress"

section \<open>Steps and plans\<close>

record plan_step =
  st_id :: ustr
  st_title :: ustr
  st_goal :: ustr
  st_description :: "ustr option"
  st_status :: step_status
  st_tools :: "ustr list"
  st_files :: "ustr list"
  st_commands :: "ustr list"
  st_risks :: "ustr list"
  st_acceptanceCriteria :: "ustr list"
  st_riskLevel :: risk_level
  st_requiresApproval :: bool
  st_expectedOutput :: ustr

record agent_plan =
  pl_goal :: ustr
  pl_summary :: "ustr option"
  pl_requiresApproval :: "bool option"
  pl_steps :: "plan_step list"

definition agentPlanStepSchema :: "json_value \<Rightarrow> plan_step option" where
  "agentPlanStepSchema v = do {
     fs \<leftarrow> zobject v;
     i \<leftarrow> zmin1 (jfield fs ''id'');
     t \<leftarrow> zmin1 (jfield fs ''title'');
     g \<leftarrow> zmin1 (jfield fs ''goal'');
     d \<leftarrow> zoptional zmin1 (jfield fs ''description'');
     s \<leftarrow> zenum step_status_names (jfield fs ''status'');
     tl \<leftarrow> zdefault [] (zarray zmin1) (jfield fs ''tools'');
     fl \<leftarrow> zdefault [] (zarray zmin1) (jfield fs ''files'');
     cm \<leftarrow> zdefault [] (zarray zmin1) (jfield fs ''commands'');
     rk \<leftarrow> zdefault [] (zarray zmin1) (jfield fs ''risks'');
     ac \<leftarrow> zdefault [] (zarray zmin1) (jfield fs ''acceptanceCriteria'');
     rl \<leftarrow> zenum risk_level_names (jfield fs ''riskLevel'');
     ra \<leftarrow> zbool (jfield fs ''requiresApproval'');
     eo \<leftarrow> zmin1 (jfield fs ''expectedOutput'');
     Some \<lparr>st_id = i, st_title = t, st_goal = g, st_description = d, st_status = s,
       st_tools = tl, st_files = fl, st_commands = cm, st_risks = rk,
       st_acceptanceCriteria = ac, st_riskLevel = rl, st_requiresApproval = ra,
       st_expectedOutput = eo\<rparr> }"

definition agentPlanSchema :: "json_value \<Rightarrow> agent_plan option" where
  "agentPlanSchema v = do {
     fs \<leftarrow> zobject v;
     g \<leftarrow> zmin1 (jfield fs ''goal'');
     s \<leftarrow> zoptional zmin1 (jfield fs ''summary'');
     r \<leftarrow> zoptional zbool (jfield fs ''requiresApproval'');
     st \<leftarrow> zmin_len1 (zarray agentPlanStepSchema (jfield fs ''steps''));
     Some \<lparr>pl_goal = g, pl_summary = s, pl_requiresApproval = r, pl_steps = st\<rparr> }"

text \<open>The checks the schemas make on values that already have the type.\<close>

definition step_valid :: "plan_step \<Rightarrow> bool" where
  "step_valid s \<longleftrightarrow> st_id s \<noteq> [] \<and> st_title s \<noteq> [] \<and> st_goal s \<noteq> [] \<and>
     st_description s \<noteq> Some [] \<and> strings_valid (st_tools s) \<and> strings_valid (st_files s) \<and>
     strings_valid (st_commands s) \<and> strings_valid (st_risks s) \<and>
     strings_valid (st_acceptanceCriteria s) \<and> st_expectedOutput s \<noteq> []"

definition plan_valid :: "agent_plan \<Rightarrow> bool" where
  "plan_valid p \<longleftrightarrow> pl_goal p \<noteq> [] \<and> pl_summary p \<noteq> Some [] \<and> pl_steps p \<noteq> [] \<and>
     (\<forall>s \<in> set (pl_steps p). step_valid s)"

text \<open>The JSON value of a parsed plan: what \<open>JSON.stringify\<close> writes, keys in schema order.\<close>

definition step_to_json :: "plan_step \<Rightarrow> json_value" where
  "step_to_json s = JObj ([(''id'', JStr (st_id s)), (''title'', JStr (st_title s)),
     (''goal'', JStr (st_goal s))] @ jopt ''description'' JStr (st_description s) @
     [(''status'', enum_name step_status_names (st_status s)),
      (''tools'', jstrings (st_tools s)), (''files'', jstrings (st_files s)),
      (''commands'', jstrings (st_commands s)), (''risks'', jstrings (st_risks s)),
      (''acceptanceCriteria'', jstrings (st_acceptanceCriteria s)),
      (''riskLevel'', enum_name risk_level_names (st_riskLevel s)),
      (''requiresApproval'', JBool (st_requiresApproval s)),
      (''expectedOutput'', JStr (st_expectedOutput s))])"

definition plan_to_json :: "agent_plan \<Rightarrow> json_value" where
  "plan_to_json p = JObj ([(''goal'', JStr (pl_goal p))] @ jopt ''summary'' JStr (pl_summary p) @
     jopt ''requiresApproval'' JBool (pl_requiresApproval p) @
     [(''steps'', JArr (map step_to_json (pl_steps p)))])"

section \<open>Generated plans\<close>

text \<open>The lenient schemas keep their input (\<open>passthrough\<close>), so they are predicates.\<close>

definition opt_ok :: "(json_value \<Rightarrow> bool) \<Rightarrow> json_value \<Rightarrow> bool" where
  "opt_ok P v \<longleftrightarrow> v = JUndefined \<or> P v"

definition is_min1 :: "json_value \<Rightarrow> bool" where
  "is_min1 v \<longleftrightarrow> zmin1 v \<noteq> None"

definition stringOrStringArraySchema :: "json_value \<Rightarrow> bool" where
  "stringOrStringArraySchema v \<longleftrightarrow> is_min1 v \<or> zarray zmin1 v \<noteq> None"

definition booleanOrStringSchema :: "json_value \<Rightarrow> bool" where
  "booleanOrStringSchema v \<longleftrightarrow> zbool v \<noteq> None \<or> is_min1 v"

definition agentPlanGenerationStepSchema :: "json_value \<Rightarrow> bool" where
  "agentPlanGenerationStepSchema v \<longleftrightarrow> (case v of JObj fs \<Rightarrow>
     list_all (\<lambda>k. opt_ok is_min1 (jfield fs k))
       [''id'', ''title'', ''goal'', ''description'', ''status'', ''riskLevel'',
        ''expectedOutput''] \<and>
     list_all (\<lambda>k. opt_ok stringOrStringArraySchema (jfield fs k))
       [''tools'', ''files'', ''commands'', ''risks'', ''acceptanceCriteria''] \<and>
     opt_ok booleanOrStringSchema (jfield fs ''requiresApproval'')
   | _ \<Rightarrow> False)"

definition generation_steps_ok :: "json_value \<Rightarrow> bool" where
  "generation_steps_ok v \<longleftrightarrow> (case v of
     JArr vs \<Rightarrow> vs \<noteq> [] \<and> list_all agentPlanGenerationStepSchema vs | _ \<Rightarrow> False)"

definition agentPlanGenerationPlanSchema :: "json_value \<Rightarrow> bool" where
  "agentPlanGenerationPlanSchema v \<longleftrightarrow> (case v of JObj fs \<Rightarrow>
     opt_ok is_min1 (jfield fs ''goal'') \<and> opt_ok is_min1 (jfield fs ''summary'') \<and>
     opt_ok booleanOrStringSchema (jfield fs ''requiresApproval'') \<and>
     opt_ok generation_steps_ok (jfield fs ''steps'')
   | _ \<Rightarrow> False)"

definition agentPlanGenerationSchema :: "json_value \<Rightarrow> bool" where
  "agentPlanGenerationSchema v \<longleftrightarrow> (case v of JObj fs \<Rightarrow>
     agentPlanGenerationPlanSchema v \<and>
     list_all (\<lambda>k. opt_ok agentPlanGenerationPlanSchema (jfield fs k))
       [''plan'', ''result'', ''data'']
   | _ \<Rightarrow> False)"

section \<open>Persisted records\<close>

text \<open>The object handed to \<open>agentPlanRecordSchema\<close>; \<open>pr_schemaVersion\<close> is \<open>None\<close> when the
  key is missing. \<open>isdt\<close> is the check of \<open>z.string().datetime()\<close>.\<close>

record plan_record =
  pr_schemaVersion :: "int option"
  pr_planId :: ustr
  pr_threadId :: ustr
  pr_version :: int
  pr_status :: plan_status
  pr_userRequest :: ustr
  pr_plan :: agent_plan
  pr_createdAt :: ustr
  pr_updatedAt :: ustr
  pr_approvedAt :: "ustr option"
  pr_executedAt :: "ustr option"
  pr_rejectionReason :: "ustr option"
  pr_errorMessage :: "ustr option"

definition AGENT_PLAN_RECORD_SCHEMA_VERSION :: int where
  "AGENT_PLAN_RECORD_SCHEMA_VERSION = 1"

definition POST_APPROVAL :: "plan_status list" where
  "POST_APPROVAL = [PsApproved, PsExecuting, PsCompleted, PsFailed]"

definition POST_EXECUTION :: "plan_status list" where
  "POST_EXECUTION = [PsExecuting, PsCompleted, PsFailed]"

text \<open>The four refinements, each a biconditional between a nullable column and the status.\<close>

definition record_refinements ::
    "plan_status \<Rightarrow> ustr option \<Rightarrow> ustr option \<Rightarrow> ustr option \<Rightarrow> ustr option \<Rightarrow> bool" where
  "record_refinements s approvedAt executedAt rejection err \<longleftrightarrow>
     (if s = PsRejected then rejection \<noteq> None else rejection = None) \<and>
     (if s = PsFailed then err \<noteq> None else err = None) \<and>
     (if s \<in> set POST_APPROVAL then approvedAt \<noteq> None else approvedAt = None) \<and>
     (if s \<in> set POST_EXECUTION then executedAt \<noteq> None else executedAt = None)"

definition agentPlanRecordSchema :: "(ustr \<Rightarrow> bool) \<Rightarrow> plan_record \<Rightarrow> bool" where
  "agentPlanRecordSchema isdt r \<longleftrightarrow>
     pr_schemaVersion r = Some AGENT_PLAN_RECORD_SCHEMA_VERSION \<and>
     pr_planId r \<noteq> [] \<and> pr_threadId r \<noteq> [] \<and> 0 < pr_version r \<and>
     is_safe_integer (pr_version r) \<and> plan_valid (pr_plan r) \<and>
     isdt (pr_createdAt r) \<and> isdt (pr_updatedAt r) \<and>
     opt_all isdt (pr_approvedAt r) \<and> opt_all isdt (pr_executedAt r) \<and>
     pr_rejectionReason r \<noteq> Some [] \<and> pr_errorMessage r \<noteq> Some [] \<and>
     record_refinements (pr_status r) (pr_approvedAt r) (pr_executedAt r)
       (pr_rejectionReason r) (pr_errorMessage r)"

section \<open>Parsing is checking\<close>

lemma status_enum [simp]:
  "zenum step_status_names (enum_name step_status_names s) = Some s"
  by (cases s) (simp_all add: zenum_def enum_name_def step_status_names_def)

lemma risk_enum [simp]:
  "zenum risk_level_names (enum_name risk_level_names r) = Some r"
  by (cases r) (simp_all add: zenum_def enum_name_def risk_level_names_def)

lemma schema_step_valid: "agentPlanStepSchema v = Some s \<Longrightarrow> step_valid s"
  by (auto simp: agentPlanStepSchema_def step_valid_def bind_eq_Some_conv zoptional_def
      dest!: zmin1_SomeD zdefault_strings split: if_splits)

lemma step_round_trip: "step_valid s \<Longrightarrow> agentPlanStepSchema (step_to_json s) = Some s"
  by (cases "st_description s")
    (simp_all add: agentPlanStepSchema_def step_to_json_def step_valid_def jopt_def jfield_def
      zoptional_def)

lemma schema_plan_valid:
  assumes "agentPlanSchema v = Some p"
  shows "plan_valid p"
proof -
  from assms obtain fs st where "zmin1 (jfield fs ''goal'') = Some (pl_goal p)"
    "zoptional zmin1 (jfield fs ''summary'') = Some (pl_summary p)"
    "zmin_len1 (zarray agentPlanStepSchema (jfield fs ''steps'')) = Some (pl_steps p)"
    by (auto simp: agentPlanSchema_def bind_eq_Some_conv)
  then show ?thesis
    by (auto simp: plan_valid_def zoptional_def zmin_len1_def zarray_def
        dest: zmin1_SomeD split: if_splits option.splits list.splits jval.splits
        intro: zall_all [where P = step_valid] schema_step_valid)
qed

lemma plan_round_trip: "plan_valid p \<Longrightarrow> agentPlanSchema (plan_to_json p) = Some p"
  by (cases "pl_summary p"; cases "pl_requiresApproval p")
    (auto simp: agentPlanSchema_def plan_to_json_def plan_valid_def jopt_def jfield_def
      zoptional_def zarray_def zall_map step_round_trip zmin_len1_def split: list.splits)

lemma plan_to_json_inj: "\<lbrakk>plan_valid p; plan_valid q; plan_to_json p = plan_to_json q\<rbrakk> \<Longrightarrow> p = q"
  by (metis plan_round_trip option.inject)

section \<open>Properties\<close>

text \<open>The plans the schema can produce are exactly the valid ones, and writing a valid plan as
  JSON and parsing it again gives the same plan back; an invalid plan never survives the trip. So a
  plan that was stored is read back as it was written.\<close>

theorem plan_codec_exact:
  "(agentPlanSchema (plan_to_json p) = Some p \<longleftrightarrow> plan_valid p) \<and>
   ((\<exists>v. agentPlanSchema v = Some p) \<longleftrightarrow> plan_valid p)"
  using plan_round_trip schema_plan_valid by blast

end
