(* ===== verification/PlanWorkflowSchema.thy ===== *)
theory PlanWorkflowSchema
  imports PlanSchema
begin

text \<open>
  The workflow schemas of the agent sidecar (\<open>agent-sidecar/src/schemas/plan-workflow.ts\<close>):
  the workflow state with its sub-objects and refinements, validation reports, plan deltas, and
  the events of the workflow log. Values the store builds itself are typed records with a check;
  reports and deltas, which come from a model, also have their parsers.
\<close>

section \<open>JSON values\<close>

fun jsonValueSchema :: "json_value \<Rightarrow> bool" where
  "jsonValueSchema JUndefined = False"
| "jsonValueSchema (JArr vs) = list_all jsonValueSchema vs"
| "jsonValueSchema (JObj fs) = list_all (\<lambda>kv. jsonValueSchema (snd kv)) fs"
| "jsonValueSchema _ = True"

section \<open>Enumerations\<close>

datatype workflow_status =
  WsWaitingApproval | WsApproved | WsExecuting | WsCompleted | WsFailed | WsRejected | WsCancelled

datatype workflow_phase = PhApprovalGate | PhExecutePlan | PhValidateResult | PhReplan | PhFinish

datatype suspend_reason =
  SrPlanApproval | SrValidatorNeedsReplan | SrAskUser | SrToolExternalWait

datatype validator_status = VPending | VRunning | VPassed | VFailed | VNeedsReplan | VSkipped

datatype heartbeat_phase = HbBeforeTool | HbAfterTool | HbStepStart | HbStepEnd

definition AGENT_PLAN_WORKFLOW_TERMINAL_STATUSES :: "workflow_status list" where
  "AGENT_PLAN_WORKFLOW_TERMINAL_STATUSES = [WsCompleted, WsFailed, WsRejected, WsCancelled]"

section \<open>State\<close>

record approval_substate =
  ap_required :: bool
  ap_approved :: bool
  ap_rejected :: bool
  ap_reason :: "ustr option"

record suspend_substate =
  su_reason :: "suspend_reason option"
  su_token :: "ustr option"
  su_payload :: "json_value option"
  su_expiresAt :: "ustr option"
  su_resumeContract :: "ustr list option"

record validator_substate =
  vd_status :: validator_status
  vd_summary :: "ustr option"
  vd_needsReplan :: bool

record workflow_state =
  ws_planId :: ustr
  ws_planVersion :: int
  ws_threadId :: ustr
  ws_stepIds :: "ustr list"
  ws_stepIdempotencyKeys :: "(ustr, ustr) jsmap"
  ws_executionCursor :: nat
  ws_approvedPlanHash :: ustr
  ws_currentStepId :: "ustr option"
  ws_completedStepIds :: "ustr list"
  ws_failedStepIds :: "ustr list"
  ws_lastHeartbeatAt :: "ustr option"
  ws_parentRunId :: "ustr option"
  ws_replanOfVersion :: "int option"
  ws_suspend :: suspend_substate
  ws_approval :: approval_substate
  ws_validator :: validator_substate

definition approvalSubstateSchema :: "approval_substate \<Rightarrow> bool" where
  "approvalSubstateSchema a \<longleftrightarrow> ap_reason a \<noteq> Some [] \<and>
     \<not> (ap_approved a \<and> ap_rejected a) \<and> (ap_rejected a \<longrightarrow> ap_reason a \<noteq> None)"

definition suspendSubstateSchema :: "(ustr \<Rightarrow> bool) \<Rightarrow> suspend_substate \<Rightarrow> bool" where
  "suspendSubstateSchema isdt s \<longleftrightarrow>
     su_token s \<noteq> Some [] \<and> opt_all jsonValueSchema (su_payload s) \<and>
     opt_all isdt (su_expiresAt s) \<and> opt_all strings_valid (su_resumeContract s) \<and>
     (if su_reason s = None
      then su_token s = None \<and> su_payload s = None \<and> su_expiresAt s = None \<and>
           su_resumeContract s = None
      else su_token s \<noteq> None \<and> su_resumeContract s \<noteq> None)"

definition validatorSubstateSchema :: "validator_substate \<Rightarrow> bool" where
  "validatorSubstateSchema v \<longleftrightarrow> vd_summary v \<noteq> Some []"

definition agentPlanWorkflowStateSchema :: "(ustr \<Rightarrow> bool) \<Rightarrow> workflow_state \<Rightarrow> bool" where
  "agentPlanWorkflowStateSchema isdt s \<longleftrightarrow>
     ws_planId s \<noteq> [] \<and> 0 < ws_planVersion s \<and> is_safe_integer (ws_planVersion s) \<and>
     ws_threadId s \<noteq> [] \<and> strings_valid (ws_stepIds s) \<and>
     (\<forall>kv \<in> set (ws_stepIdempotencyKeys s). fst kv \<noteq> [] \<and> snd kv \<noteq> []) \<and>
     ws_approvedPlanHash s \<noteq> [] \<and> ws_currentStepId s \<noteq> Some [] \<and>
     strings_valid (ws_completedStepIds s) \<and> strings_valid (ws_failedStepIds s) \<and>
     opt_all isdt (ws_lastHeartbeatAt s) \<and> ws_parentRunId s \<noteq> Some [] \<and>
     opt_all (\<lambda>v. 0 < v \<and> is_safe_integer v) (ws_replanOfVersion s) \<and>
     suspendSubstateSchema isdt (ws_suspend s) \<and> approvalSubstateSchema (ws_approval s) \<and>
     validatorSubstateSchema (ws_validator s) \<and>
     ws_executionCursor s \<le> length (ws_stepIds s) \<and>
     (\<forall>kv \<in> set (ws_stepIdempotencyKeys s). fst kv \<in> set (ws_stepIds s))"

section \<open>Workflow records\<close>

record workflow_record =
  wr_workflowRunId :: ustr
  wr_planId :: ustr
  wr_planVersion :: int
  wr_threadId :: ustr
  wr_status :: workflow_status
  wr_phase :: workflow_phase
  wr_currentStepId :: "ustr option"
  wr_mastraRunId :: "ustr option"
  wr_createdAt :: ustr
  wr_updatedAt :: ustr
  wr_suspendedAt :: "ustr option"
  wr_resumedAt :: "ustr option"
  wr_finishedAt :: "ustr option"
  wr_errorMessage :: "ustr option"
  wr_state :: workflow_state

definition agentPlanWorkflowRecordSchema :: "(ustr \<Rightarrow> bool) \<Rightarrow> workflow_record \<Rightarrow> bool" where
  "agentPlanWorkflowRecordSchema isdt r \<longleftrightarrow>
     wr_workflowRunId r \<noteq> [] \<and> wr_planId r \<noteq> [] \<and> 0 < wr_planVersion r \<and>
     is_safe_integer (wr_planVersion r) \<and> wr_threadId r \<noteq> [] \<and>
     wr_currentStepId r \<noteq> Some [] \<and> wr_mastraRunId r \<noteq> Some [] \<and>
     isdt (wr_createdAt r) \<and> isdt (wr_updatedAt r) \<and> opt_all isdt (wr_suspendedAt r) \<and>
     opt_all isdt (wr_resumedAt r) \<and> opt_all isdt (wr_finishedAt r) \<and>
     wr_errorMessage r \<noteq> Some [] \<and> agentPlanWorkflowStateSchema isdt (wr_state r)"

section \<open>Validation reports\<close>

datatype report_status = RpPassed | RpFailed | RpNeedsReplan

record report_finding =
  rf_stepId :: "ustr option"
  rf_severity :: risk_level
  rf_title :: ustr
  rf_detail :: ustr
  rf_retryable :: bool

record report_acceptance =
  ra_criterion :: ustr
  ra_passed :: bool
  ra_detail :: ustr

record validation_report =
  vr_status :: report_status
  vr_summary :: ustr
  vr_checkedStepIds :: "ustr list"
  vr_needsReplan :: bool
  vr_findings :: "report_finding list"
  vr_acceptance :: "report_acceptance list"

definition report_status_names :: "(report_status \<times> string) list" where
  "report_status_names =
     [(RpPassed, ''passed''), (RpFailed, ''failed''), (RpNeedsReplan, ''needs_replan'')]"

definition reportFindingSchema :: "json_value \<Rightarrow> report_finding option" where
  "reportFindingSchema v = do {
     fs \<leftarrow> zobject v;
     i \<leftarrow> znullable zmin1 (jfield fs ''stepId'');
     s \<leftarrow> zenum risk_level_names (jfield fs ''severity'');
     t \<leftarrow> zmin1 (jfield fs ''title'');
     d \<leftarrow> zmin1 (jfield fs ''detail'');
     r \<leftarrow> zbool (jfield fs ''retryable'');
     Some \<lparr>rf_stepId = i, rf_severity = s, rf_title = t, rf_detail = d, rf_retryable = r\<rparr> }"

definition reportAcceptanceSchema :: "json_value \<Rightarrow> report_acceptance option" where
  "reportAcceptanceSchema v = do {
     fs \<leftarrow> zobject v;
     c \<leftarrow> zmin1 (jfield fs ''criterion'');
     p \<leftarrow> zbool (jfield fs ''passed'');
     d \<leftarrow> zmin1 (jfield fs ''detail'');
     Some \<lparr>ra_criterion = c, ra_passed = p, ra_detail = d\<rparr> }"

definition agentPlanValidationReportSchema :: "json_value \<Rightarrow> validation_report option" where
  "agentPlanValidationReportSchema v = do {
     fs \<leftarrow> zobject v;
     st \<leftarrow> zenum report_status_names (jfield fs ''status'');
     su \<leftarrow> zmin1 (jfield fs ''summary'');
     ck \<leftarrow> zarray zmin1 (jfield fs ''checkedStepIds'');
     nr \<leftarrow> zbool (jfield fs ''needsReplan'');
     fd \<leftarrow> zarray reportFindingSchema (jfield fs ''findings'');
     ac \<leftarrow> zarray reportAcceptanceSchema (jfield fs ''acceptance'');
     Some \<lparr>vr_status = st, vr_summary = su, vr_checkedStepIds = ck, vr_needsReplan = nr,
       vr_findings = fd, vr_acceptance = ac\<rparr> }"

definition report_valid :: "validation_report \<Rightarrow> bool" where
  "report_valid r \<longleftrightarrow> vr_summary r \<noteq> [] \<and> strings_valid (vr_checkedStepIds r) \<and>
     (\<forall>f \<in> set (vr_findings r). rf_stepId f \<noteq> Some [] \<and> rf_title f \<noteq> [] \<and> rf_detail f \<noteq> []) \<and>
     (\<forall>a \<in> set (vr_acceptance r). ra_criterion a \<noteq> [] \<and> ra_detail a \<noteq> [])"

section \<open>Deltas\<close>

record step_patch =
  sp_title :: "ustr option"
  sp_goal :: "ustr option"
  sp_description :: "ustr option"
  sp_tools :: "ustr list option"
  sp_files :: "ustr list option"
  sp_commands :: "ustr list option"
  sp_risks :: "ustr list option"
  sp_acceptanceCriteria :: "ustr list option"
  sp_riskLevel :: "risk_level option"
  sp_requiresApproval :: "bool option"
  sp_expectedOutput :: "ustr option"

record plan_delta =
  dl_summary :: ustr
  dl_added :: "plan_step list"
  dl_modified :: "(ustr \<times> step_patch) list"
  dl_removed :: "ustr list"

definition agentPlanStepPatchSchema :: "json_value \<Rightarrow> step_patch option" where
  "agentPlanStepPatchSchema v = do {
     fs \<leftarrow> zobject v;
     t \<leftarrow> zoptional zmin1 (jfield fs ''title'');
     g \<leftarrow> zoptional zmin1 (jfield fs ''goal'');
     d \<leftarrow> zoptional zmin1 (jfield fs ''description'');
     tl \<leftarrow> zoptional (zarray zmin1) (jfield fs ''tools'');
     fl \<leftarrow> zoptional (zarray zmin1) (jfield fs ''files'');
     cm \<leftarrow> zoptional (zarray zmin1) (jfield fs ''commands'');
     rk \<leftarrow> zoptional (zarray zmin1) (jfield fs ''risks'');
     ac \<leftarrow> zoptional (zarray zmin1) (jfield fs ''acceptanceCriteria'');
     rl \<leftarrow> zoptional (zenum risk_level_names) (jfield fs ''riskLevel'');
     ra \<leftarrow> zoptional zbool (jfield fs ''requiresApproval'');
     eo \<leftarrow> zoptional zmin1 (jfield fs ''expectedOutput'');
     Some \<lparr>sp_title = t, sp_goal = g, sp_description = d, sp_tools = tl, sp_files = fl,
       sp_commands = cm, sp_risks = rk, sp_acceptanceCriteria = ac, sp_riskLevel = rl,
       sp_requiresApproval = ra, sp_expectedOutput = eo\<rparr> }"

definition deltaModificationSchema :: "json_value \<Rightarrow> (ustr \<times> step_patch) option" where
  "deltaModificationSchema v = do {
     fs \<leftarrow> zobject v;
     i \<leftarrow> zmin1 (jfield fs ''id'');
     p \<leftarrow> agentPlanStepPatchSchema (jfield fs ''patch'');
     Some (i, p) }"

definition agentPlanDeltaSchema :: "json_value \<Rightarrow> plan_delta option" where
  "agentPlanDeltaSchema v = do {
     fs \<leftarrow> zobject v;
     s \<leftarrow> zmin1 (jfield fs ''summary'');
     a \<leftarrow> zarray agentPlanStepSchema (jfield fs ''added'');
     m \<leftarrow> zarray deltaModificationSchema (jfield fs ''modified'');
     r \<leftarrow> zarray zmin1 (jfield fs ''removed'');
     Some \<lparr>dl_summary = s, dl_added = a, dl_modified = m, dl_removed = r\<rparr> }"

definition patch_valid :: "step_patch \<Rightarrow> bool" where
  "patch_valid p \<longleftrightarrow> sp_title p \<noteq> Some [] \<and> sp_goal p \<noteq> Some [] \<and> sp_description p \<noteq> Some [] \<and>
     opt_all strings_valid (sp_tools p) \<and> opt_all strings_valid (sp_files p) \<and>
     opt_all strings_valid (sp_commands p) \<and> opt_all strings_valid (sp_risks p) \<and>
     opt_all strings_valid (sp_acceptanceCriteria p) \<and> sp_expectedOutput p \<noteq> Some []"

definition delta_valid :: "plan_delta \<Rightarrow> bool" where
  "delta_valid d \<longleftrightarrow> dl_summary d \<noteq> [] \<and> (\<forall>s \<in> set (dl_added d). step_valid s) \<and>
     (\<forall>m \<in> set (dl_modified d). fst m \<noteq> [] \<and> patch_valid (snd m)) \<and> strings_valid (dl_removed d)"

section \<open>Events\<close>

datatype workflow_event =
    PlanGenerated ustr int ustr ustr "ustr list"
      \<comment> \<open>plan id, version, thread id, plan hash, step ids\<close>
  | PlanApproved int ustr "ustr option" \<comment> \<open>version, approved hash, approved by\<close>
  | StepStarted ustr ustr "ustr option" \<comment> \<open>step id, idempotency key, mastra run id\<close>
  | StepCompleted ustr ustr "ustr option" \<comment> \<open>step id, idempotency key, result reference\<close>
  | StepFailed ustr ustr ustr bool \<comment> \<open>step id, idempotency key, error, retryable\<close>
  | ValidatorReported validation_report
  | ReplanIssued int int "ustr option" plan_delta \<comment> \<open>from, to, delta reference, delta\<close>
  | Suspended suspend_reason ustr "json_value option" "ustr option" "ustr list"
      \<comment> \<open>reason, token, payload, expiry, allowed fields\<close>
  | Resumed ustr
  | Heartbeat "ustr option" heartbeat_phase
  | PlanFinished workflow_status "ustr option"

definition positive_int :: "int \<Rightarrow> bool" where
  "positive_int v \<longleftrightarrow> 0 < v \<and> is_safe_integer v"

fun agentPlanWorkflowEventSchema :: "(ustr \<Rightarrow> bool) \<Rightarrow> workflow_event \<Rightarrow> bool" where
  "agentPlanWorkflowEventSchema isdt (PlanGenerated pid v tid h ids) \<longleftrightarrow>
     pid \<noteq> [] \<and> positive_int v \<and> tid \<noteq> [] \<and> h \<noteq> [] \<and> strings_valid ids"
| "agentPlanWorkflowEventSchema isdt (PlanApproved v h byw) \<longleftrightarrow>
     positive_int v \<and> h \<noteq> [] \<and> byw \<noteq> Some []"
| "agentPlanWorkflowEventSchema isdt (StepStarted sid k m) \<longleftrightarrow> sid \<noteq> [] \<and> k \<noteq> [] \<and> m \<noteq> Some []"
| "agentPlanWorkflowEventSchema isdt (StepCompleted sid k r) \<longleftrightarrow>
     sid \<noteq> [] \<and> k \<noteq> [] \<and> r \<noteq> Some []"
| "agentPlanWorkflowEventSchema isdt (StepFailed sid k e rt) \<longleftrightarrow> sid \<noteq> [] \<and> k \<noteq> [] \<and> e \<noteq> []"
| "agentPlanWorkflowEventSchema isdt (ValidatorReported r) \<longleftrightarrow> report_valid r"
| "agentPlanWorkflowEventSchema isdt (ReplanIssued a b ref d) \<longleftrightarrow>
     positive_int a \<and> positive_int b \<and> ref \<noteq> Some [] \<and> delta_valid d"
| "agentPlanWorkflowEventSchema isdt (Suspended r t p x allowed) \<longleftrightarrow>
     t \<noteq> [] \<and> opt_all jsonValueSchema p \<and> opt_all isdt x \<and> strings_valid allowed"
| "agentPlanWorkflowEventSchema isdt (Resumed t) \<longleftrightarrow> t \<noteq> []"
| "agentPlanWorkflowEventSchema isdt (Heartbeat sid ph) \<longleftrightarrow> sid \<noteq> Some []"
| "agentPlanWorkflowEventSchema isdt (PlanFinished s e) \<longleftrightarrow>
     s \<in> set AGENT_PLAN_WORKFLOW_TERMINAL_STATUSES \<and> e \<noteq> Some []"

text \<open>The object handed to \<open>agentPlanWorkflowEventRecordSchema\<close>; \<open>er_eventSchemaVersion\<close> is
  \<open>None\<close> when the key is missing.\<close>

record event_record =
  er_eventId :: ustr
  er_eventSchemaVersion :: "int option"
  er_workflowRunId :: ustr
  er_planId :: ustr
  er_planVersion :: int
  er_seq :: nat
  er_createdAt :: ustr
  er_event :: workflow_event

definition AGENT_PLAN_WORKFLOW_EVENT_SCHEMA_VERSION :: int where
  "AGENT_PLAN_WORKFLOW_EVENT_SCHEMA_VERSION = 1"

definition agentPlanWorkflowEventRecordSchema :: "(ustr \<Rightarrow> bool) \<Rightarrow> event_record \<Rightarrow> bool" where
  "agentPlanWorkflowEventRecordSchema isdt r \<longleftrightarrow>
     er_eventId r \<noteq> [] \<and>
     er_eventSchemaVersion r = Some AGENT_PLAN_WORKFLOW_EVENT_SCHEMA_VERSION \<and>
     er_workflowRunId r \<noteq> [] \<and> er_planId r \<noteq> [] \<and> positive_int (er_planVersion r) \<and>
     isdt (er_createdAt r) \<and> agentPlanWorkflowEventSchema isdt (er_event r)"

section \<open>What the parsers accept is valid\<close>

lemma patch_schema_valid: "agentPlanStepPatchSchema v = Some p \<Longrightarrow> patch_valid p"
  by (auto simp: agentPlanStepPatchSchema_def patch_valid_def bind_eq_Some_conv
      dest: schema_facts)

lemma modification_schema_valid:
  "deltaModificationSchema v = Some m \<Longrightarrow> fst m \<noteq> [] \<and> patch_valid (snd m)"
  by (auto simp: deltaModificationSchema_def bind_eq_Some_conv dest: schema_facts
      patch_schema_valid)

lemma delta_schema_valid:
  assumes "agentPlanDeltaSchema v = Some d"
  shows "delta_valid d"
proof -
  from assms obtain fs where "zmin1 (jfield fs ''summary'') = Some (dl_summary d)"
    and a: "zarray agentPlanStepSchema (jfield fs ''added'') = Some (dl_added d)"
    and m: "zarray deltaModificationSchema (jfield fs ''modified'') = Some (dl_modified d)"
    and "zarray zmin1 (jfield fs ''removed'') = Some (dl_removed d)"
    by (auto simp: agentPlanDeltaSchema_def bind_eq_Some_conv)
  moreover have "\<forall>s \<in> set (dl_added d). step_valid s"
    using a schema_step_valid by (rule zarray_all)
  moreover have "\<forall>x \<in> set (dl_modified d). fst x \<noteq> [] \<and> patch_valid (snd x)"
    using m modification_schema_valid by (rule zarray_all)
  ultimately show ?thesis by (auto simp: delta_valid_def dest: schema_facts)
qed

lemma report_schema_valid:
  assumes "agentPlanValidationReportSchema v = Some r"
  shows "report_valid r"
proof -
  from assms obtain fs where "zmin1 (jfield fs ''summary'') = Some (vr_summary r)"
    and "zarray zmin1 (jfield fs ''checkedStepIds'') = Some (vr_checkedStepIds r)"
    and f: "zarray reportFindingSchema (jfield fs ''findings'') = Some (vr_findings r)"
    and a: "zarray reportAcceptanceSchema (jfield fs ''acceptance'') = Some (vr_acceptance r)"
    by (auto simp: agentPlanValidationReportSchema_def bind_eq_Some_conv)
  moreover have "\<forall>x \<in> set (vr_findings r). rf_stepId x \<noteq> Some [] \<and> rf_title x \<noteq> [] \<and> rf_detail x \<noteq> []"
    using f by (rule zarray_all)
      (auto simp: reportFindingSchema_def bind_eq_Some_conv dest: schema_facts)
  moreover have "\<forall>x \<in> set (vr_acceptance r). ra_criterion x \<noteq> [] \<and> ra_detail x \<noteq> []"
    using a by (rule zarray_all)
      (auto simp: reportAcceptanceSchema_def bind_eq_Some_conv dest: schema_facts)
  ultimately show ?thesis by (auto simp: report_valid_def dest: schema_facts)
qed

end
