(* ===== verification/PlanUtils.thy ===== *)
theory PlanUtils
  imports PlanWorkflowSchema
begin

text \<open>
  Normalisation of generated plans and plan deltas
  (\<open>agent-sidecar/src/engines/plan/plan-utils.ts\<close> and the two value helpers of
  \<open>agent-sidecar/src/engines/utils.ts\<close> it uses).
\<close>

section \<open>Value helpers\<close>

fun toRecord :: "json_value \<Rightarrow> (string \<times> json_value) list option" where
  "toRecord (JObj fs) = Some fs"
| "toRecord _ = None"

fun toNonEmptyString :: "json_value \<Rightarrow> ustr option" where
  "toNonEmptyString (JStr s) = (let t = trim s in if length t > 0 then Some t else None)"
| "toNonEmptyString _ = None"

section \<open>Normalising\<close>

definition PLAN_WRAPPER_KEYS :: "string list" where
  "PLAN_WRAPPER_KEYS = [''plan'', ''result'', ''data'']"

definition unwrapGeneratedPlanCandidate :: "json_value \<Rightarrow> json_value" where
  "unwrapGeneratedPlanCandidate v =
     (case toRecord v of
        None \<Rightarrow> v
      | Some fs \<Rightarrow>
          (case find (\<lambda>k. toRecord (jfield fs k) \<noteq> None) PLAN_WRAPPER_KEYS of
             Some k \<Rightarrow> jfield fs k
           | None \<Rightarrow> v))"

definition toStringArray :: "json_value \<Rightarrow> ustr list option" where
  "toStringArray v =
     (if v = JNull \<or> v = JUndefined then None
      else (case toNonEmptyString v of
              Some s \<Rightarrow> Some [s]
            | None \<Rightarrow>
                (case v of
                   JArr vs \<Rightarrow>
                     (let xs = List.map_filter toNonEmptyString vs
                      in if length xs > 0 then Some xs else None)
                 | _ \<Rightarrow> None)))"

fun toBoolean :: "json_value \<Rightarrow> bool option" where
  "toBoolean (JBool b) = Some b"
| "toBoolean v =
     (let text = map_option toLowerCase (toNonEmptyString v)
      in if text = Some (lit ''true'') \<or> text = Some (lit ''yes'') \<or> text = Some [0x662F]
         then Some True
         else if text = Some (lit ''false'') \<or> text = Some (lit ''no'') \<or> text = Some [0x5426]
         then Some False
         else None)"

definition normalizePlanStepStatus :: "json_value \<Rightarrow> step_status" where
  "normalizePlanStepStatus v =
     (let s = toNonEmptyString v
      in if s = Some (lit ''running'') then StRunning
         else if s = Some (lit ''done'') then StDone
         else if s = Some (lit ''failed'') then StFailed
         else if s = Some (lit ''skipped'') then StSkipped
         else if s = Some (lit ''cancelled'') then StCancelled
         else StPending)"

definition normalizePlanStepRiskLevel :: "json_value \<Rightarrow> risk_level" where
  "normalizePlanStepRiskLevel v =
     (let s = toNonEmptyString v
      in if s = Some (lit ''low'') then RLow
         else if s = Some (lit ''high'') then RHigh
         else RMedium)"

text \<open>Object spread: \<open>{...fs, k: v}\<close> overwrites or appends.\<close>

definition spread :: "(string \<times> json_value) list \<Rightarrow> (string \<times> json_value) list \<Rightarrow>
    (string \<times> json_value) list" where
  "spread fs gs = foldl (\<lambda>m kv. jm_set m (fst kv) (snd kv)) fs gs"

definition optional_strings :: "string \<Rightarrow> ustr list option \<Rightarrow> (string \<times> json_value) list" where
  "optional_strings k xs = (case xs of None \<Rightarrow> [] | Some ys \<Rightarrow> [(k, jstrings ys)])"

definition join_lines :: "ustr list \<Rightarrow> ustr" where
  "join_lines xs = (case xs of [] \<Rightarrow> [] | y # ys \<Rightarrow> y @ concat (map (\<lambda>s. 10 # s) ys))"

definition step_label :: "nat \<Rightarrow> ustr" where
  "step_label index = [0x6B65, 0x9AA4, 32] @ lit (show_nat (index + 1))"

definition normalizeGeneratedAgentPlanStep ::
    "json_value \<Rightarrow> nat \<Rightarrow> (string \<times> json_value) list option" where
  "normalizeGeneratedAgentPlanStep v index =
     (case toRecord v of
        None \<Rightarrow> None
      | Some fs \<Rightarrow>
          (let str = (\<lambda>k. toNonEmptyString (jfield fs k));
               title = orElse (nullish (str ''title'') (nullish (str ''goal'')
                   (str ''description''))) (step_label index);
               goal = orElse (nullish (str ''goal'') (str ''description'')) title;
               riskLevel = normalizePlanStepRiskLevel (jfield fs ''riskLevel'');
               tools = orElse (toStringArray (jfield fs ''tools'')) [];
               files = toStringArray (jfield fs ''files'');
               commands = toStringArray (jfield fs ''commands'');
               risks = toStringArray (jfield fs ''risks'');
               acceptanceCriteria = toStringArray (jfield fs ''acceptanceCriteria'');
               expectedOutput = orElse (nullish (str ''expectedOutput'')
                   (map_option join_lines acceptanceCriteria)) goal
           in Some (spread fs
                ([(''id'', JStr (orElse (str ''id'')
                     (lit ''step-'' @ lit (show_nat (index + 1))))),
                  (''title'', JStr title), (''goal'', JStr goal),
                  (''status'', enum_name step_status_names
                     (normalizePlanStepStatus (jfield fs ''status''))),
                  (''tools'', jstrings tools)] @
                 optional_strings ''files'' files @ optional_strings ''commands'' commands @
                 optional_strings ''risks'' risks @
                 optional_strings ''acceptanceCriteria'' acceptanceCriteria @
                 [(''riskLevel'', enum_name risk_level_names riskLevel),
                  (''requiresApproval'', JBool (orElse (toBoolean (jfield fs ''requiresApproval''))
                     (riskLevel \<noteq> RLow))),
                  (''expectedOutput'', JStr expectedOutput)]))))"

text \<open>\<open>steps.map((step, index) => ...)\<close> followed by dropping the \<open>null\<close>s.\<close>

fun normalize_steps :: "nat \<Rightarrow> json_value list \<Rightarrow> json_value list" where
  "normalize_steps i [] = []"
| "normalize_steps i (v # vs) =
     (case normalizeGeneratedAgentPlanStep v i of
        None \<Rightarrow> normalize_steps (i + 1) vs
      | Some fs \<Rightarrow> JObj fs # normalize_steps (i + 1) vs)"

definition normalizeGeneratedAgentPlan :: "json_value \<Rightarrow> ustr \<Rightarrow> agent_plan option" where
  "normalizeGeneratedAgentPlan v fallbackGoal =
     (if \<not> agentPlanGenerationSchema v then None
      else (case toRecord (unwrapGeneratedPlanCandidate v) of
              None \<Rightarrow> None
            | Some fs \<Rightarrow>
                agentPlanSchema (JObj (spread fs
                  ([(''goal'', JStr (orElse (toNonEmptyString (jfield fs ''goal'')) fallbackGoal)),
                    (''requiresApproval'',
                       JBool (orElse (toBoolean (jfield fs ''requiresApproval'')) True))] @
                   (case jfield fs ''steps'' of
                      JArr vs \<Rightarrow> [(''steps'', JArr (normalize_steps 0 vs))]
                    | _ \<Rightarrow> []))))))"

definition parseValidationReport :: "json_value \<Rightarrow> validation_report option" where
  "parseValidationReport v = agentPlanValidationReportSchema v"

definition parsePlanDelta :: "json_value \<Rightarrow> plan_delta option" where
  "parsePlanDelta v = agentPlanDeltaSchema v"

section \<open>Deltas\<close>

text \<open>The patched step before \<open>agentPlanStepSchema.parse\<close> checks it.\<close>

definition patched_step :: "plan_step \<Rightarrow> step_patch \<Rightarrow> plan_step" where
  "patched_step s p = s\<lparr>
     st_title := orElse (sp_title p) (st_title s),
     st_goal := orElse (sp_goal p) (st_goal s),
     st_description := nullish (sp_description p) (st_description s),
     st_tools := orElse (sp_tools p) (st_tools s),
     st_files := orElse (sp_files p) (st_files s),
     st_commands := orElse (sp_commands p) (st_commands s),
     st_risks := orElse (sp_risks p) (st_risks s),
     st_acceptanceCriteria := orElse (sp_acceptanceCriteria p) (st_acceptanceCriteria s),
     st_riskLevel := orElse (sp_riskLevel p) (st_riskLevel s),
     st_requiresApproval := orElse (sp_requiresApproval p) (st_requiresApproval s),
     st_expectedOutput := orElse (sp_expectedOutput p) (st_expectedOutput s),
     st_status := StPending\<rparr>"

text \<open>\<open>None\<close> is the exception of \<open>parse\<close>.\<close>

definition applyStepPatch :: "plan_step \<Rightarrow> step_patch \<Rightarrow> plan_step option" where
  "applyStepPatch s p = (let s' = patched_step s p in if step_valid s' then Some s' else None)"

fun patch_steps :: "(ustr, step_patch) jsmap \<Rightarrow> plan_step list \<Rightarrow> plan_step list option" where
  "patch_steps m [] = Some []"
| "patch_steps m (s # ss) = do {
     s' \<leftarrow> (case jm_get m (st_id s) of Some p \<Rightarrow> applyStepPatch s p | None \<Rightarrow> Some s);
     ss' \<leftarrow> patch_steps m ss;
     Some (s' # ss') }"

text \<open>The outer option is the exception, the inner one the \<open>null\<close> of a failed \<open>safeParse\<close>.\<close>

definition applyAgentPlanDelta :: "agent_plan \<Rightarrow> plan_delta \<Rightarrow> agent_plan option option" where
  "applyAgentPlanDelta plan delta =
     (let removedIds = set (dl_removed delta);
          modifiedById = foldl (\<lambda>m kv. jm_set m (fst kv) (snd kv)) [] (dl_modified delta);
          addedIds = set (map st_id (dl_added delta))
      in map_option (\<lambda>kept.
           (let plan' = plan\<lparr>pl_summary := Some (dl_summary delta),
                  pl_steps := filter (\<lambda>s. st_id s \<notin> addedIds) kept @ dl_added delta,
                  pl_requiresApproval := Some True\<rparr>
            in if plan_valid plan' then Some plan' else None))
         (patch_steps modifiedById (filter (\<lambda>s. st_id s \<notin> removedIds) (pl_steps plan))))"

section \<open>Facts about normalising\<close>

lemma toNonEmptyString_ne: "toNonEmptyString v = Some s \<Longrightarrow> s \<noteq> []"
  by (cases v) (auto simp: Let_def split: if_splits)

lemma toNonEmptyString_Nil [simp]: "toNonEmptyString v \<noteq> Some []"
  using toNonEmptyString_ne by blast

lemma orElse_ne: "\<lbrakk>\<And>s. x = Some s \<Longrightarrow> s \<noteq> []; d \<noteq> []\<rbrakk> \<Longrightarrow> orElse x d \<noteq> []"
  by (simp add: orElse_def split: option.splits)

lemma nullish_eq [simp]: "nullish x y = Some s \<longleftrightarrow> x = Some s \<or> (x = None \<and> y = Some s)"
  by (auto simp: nullish_def split: option.splits)

lemma map_filter_ne: "strings_valid (List.map_filter toNonEmptyString vs)"
  by (induction vs) (auto simp: strings_valid_def map_filter_simps split: option.splits)

lemma toStringArray_valid: "toStringArray v = Some xs \<Longrightarrow> strings_valid xs \<and> xs \<noteq> []"
  using map_filter_ne
  by (auto simp: toStringArray_def Let_def strings_valid_def
      split: if_splits option.splits jval.splits)

lemma join_lines_ne: "strings_valid xs \<Longrightarrow> xs \<noteq> [] \<Longrightarrow> join_lines xs \<noteq> []"
  by (cases xs) (auto simp: join_lines_def strings_valid_def)

lemma jfield_spread_Nil [simp]: "spread fs [] = fs"
  by (simp add: spread_def)

lemma spread_snoc: "spread fs (gs @ [kv]) = jm_set (spread fs gs) (fst kv) (snd kv)"
  by (simp add: spread_def)

lemma jfield_spread:
  "jfield (spread fs gs) k = (case map_of (rev gs) k of Some v \<Rightarrow> v | None \<Rightarrow> jfield fs k)"
proof (induction gs rule: rev_induct)
  case (snoc kv gs)
  have "jfield (jm_set m k' v) k = (if k = k' then v else jfield m k)" for m :: "(string \<times> json_value) list" and k' v
    by (simp add: jfield_def jm_set_def update_conv)
  with snoc show ?case by (simp add: spread_snoc)
qed simp

lemma map_of_optional [simp]:
  "map_of (optional_strings k xs) k' = (if k' = k then map_option jstrings xs else None)"
  by (auto simp: optional_strings_def split: option.splits)

lemma rev_optional [simp]: "rev (optional_strings k xs) = optional_strings k xs"
  by (auto simp: optional_strings_def split: option.splits)

text \<open>The only way a list field survives unnormalised and is rejected by the strict schema.\<close>

definition blank_string :: "json_value \<Rightarrow> bool" where
  "blank_string v \<longleftrightarrow> (case v of JStr s \<Rightarrow> trim s = [] | _ \<Rightarrow> False)"

lemma kept_field:
  assumes "opt_ok stringOrStringArraySchema v"
  shows "zdefault [] (zarray zmin1)
      (case map_option jstrings (toStringArray v) of Some w \<Rightarrow> w | None \<Rightarrow> v) = None
    \<longleftrightarrow> blank_string v"
proof (cases "toStringArray v")
  case (Some xs)
  then have "strings_valid xs" by (simp add: toStringArray_valid)
  moreover have "\<not> blank_string v"
    using Some by (auto simp: toStringArray_def blank_string_def split: jval.splits)
  ultimately show ?thesis using Some by simp
next
  case None
  show ?thesis
  proof (cases v)
    case (JStr s)
    with None have "trim s = []"
      by (auto simp: toStringArray_def Let_def split: if_splits)
    with JStr None show ?thesis by (simp add: blank_string_def zdefault_def zarray_def)
  qed (use assms None in \<open>auto simp: opt_ok_def stringOrStringArraySchema_def is_min1_def zmin1_def
      zdefault_def zarray_def blank_string_def\<close>)
qed

definition list_fields :: "string list" where
  "list_fields = [''files'', ''commands'', ''risks'', ''acceptanceCriteria'']"

lemma step_label_ne [simp]: "step_label i \<noteq> []"
  by (simp add: step_label_def)

lemma step_schema_None:
  "agentPlanStepSchema (JObj gs) = None \<longleftrightarrow>
     zmin1 (jfield gs ''id'') = None \<or> zmin1 (jfield gs ''title'') = None \<or>
     zmin1 (jfield gs ''goal'') = None \<or> zoptional zmin1 (jfield gs ''description'') = None \<or>
     zenum step_status_names (jfield gs ''status'') = None \<or>
     zdefault [] (zarray zmin1) (jfield gs ''tools'') = None \<or>
     (\<exists>k \<in> set list_fields. zdefault [] (zarray zmin1) (jfield gs k) = None) \<or>
     zenum risk_level_names (jfield gs ''riskLevel'') = None \<or>
     zbool (jfield gs ''requiresApproval'') = None \<or>
     zmin1 (jfield gs ''expectedOutput'') = None"
  by (auto simp: agentPlanStepSchema_def bind_eq_None_conv list_fields_def)

lemma description_kept:
  "opt_ok is_min1 v \<Longrightarrow> \<exists>d. zoptional zmin1 v = Some d"
  by (auto simp: opt_ok_def is_min1_def zoptional_def)

lemma expected_ne:
  "goal \<noteq> [] \<Longrightarrow>
   orElse (nullish (toNonEmptyString v) (map_option join_lines (toStringArray w))) goal \<noteq> []"
  by (rule orElse_ne)
    (auto dest: toStringArray_valid simp: join_lines_ne)

text \<open>The strict schema rejects a normalised step exactly when a list field is blank text.\<close>

lemma normalized_step_accepted:
  assumes "agentPlanGenerationStepSchema (JObj fs)"
  shows "\<exists>gs. normalizeGeneratedAgentPlanStep (JObj fs) i = Some gs \<and>
    (agentPlanStepSchema (JObj gs) = None \<longleftrightarrow>
     (\<exists>k \<in> set list_fields. blank_string (jfield fs k)))"
proof -
  obtain gs where gs: "normalizeGeneratedAgentPlanStep (JObj fs) i = Some gs"
    by (simp add: normalizeGeneratedAgentPlanStep_def Let_def)
  let ?str = "\<lambda>k. toNonEmptyString (jfield fs k)"
  let ?title = "orElse (nullish (?str ''title'') (nullish (?str ''goal'')
      (?str ''description''))) (step_label i)"
  have title: "?title \<noteq> []" by (rule orElse_ne) auto
  let ?goal = "orElse (nullish (?str ''goal'') (?str ''description'')) ?title"
  have goal: "?goal \<noteq> []" using title by (intro orElse_ne) auto
  note exp = expected_ne [OF goal]
  have fields: "zdefault [] (zarray zmin1) (jfield gs k) = None \<longleftrightarrow> blank_string (jfield fs k)"
    if "k \<in> set list_fields" for k
  proof -
    have "jfield gs k =
        (case map_option jstrings (toStringArray (jfield fs k)) of Some w \<Rightarrow> w
         | None \<Rightarrow> jfield fs k)"
      using gs that
      by (auto simp: normalizeGeneratedAgentPlanStep_def Let_def jfield_spread list_fields_def
          map_add_def split: option.splits)
    moreover have "opt_ok stringOrStringArraySchema (jfield fs k)"
      using assms that by (auto simp: agentPlanGenerationStepSchema_def list_fields_def)
    ultimately show ?thesis using kept_field by simp
  qed
  have "opt_ok is_min1 (jfield fs ''description'')"
    using assms by (simp add: agentPlanGenerationStepSchema_def)
  then have "zoptional zmin1 (jfield gs ''description'') \<noteq> None"
    using gs description_kept
    by (auto simp: normalizeGeneratedAgentPlanStep_def Let_def jfield_spread map_add_def)
  moreover have "strings_valid (orElse (toStringArray (jfield fs ''tools'')) [])"
    using toStringArray_valid by (auto simp: orElse_def strings_valid_def split: option.splits)
  moreover have "orElse (?str ''id'') (lit ''step-'' @ lit (show_nat (i + 1))) \<noteq> []"
    by (rule orElse_ne) (auto simp: lit_def)
  ultimately have "agentPlanStepSchema (JObj gs) = None \<longleftrightarrow>
      (\<exists>k \<in> set list_fields. zdefault [] (zarray zmin1) (jfield gs k) = None)"
    using gs title goal exp
    by (auto simp: step_schema_None normalizeGeneratedAgentPlanStep_def Let_def jfield_spread
        map_add_def)
  with gs fields show ?thesis by auto
qed

section \<open>Whole plans\<close>

lemma generation_object: "agentPlanGenerationStepSchema v \<Longrightarrow> \<exists>fs. v = JObj fs"
  by (auto simp: agentPlanGenerationStepSchema_def split: jval.splits)

definition blank_step :: "json_value \<Rightarrow> bool" where
  "blank_step v \<longleftrightarrow>
     (case v of JObj fs \<Rightarrow> (\<exists>k \<in> set list_fields. blank_string (jfield fs k)) | _ \<Rightarrow> False)"

lemma zall_None: "zall f vs = None \<longleftrightarrow> (\<exists>v \<in> set vs. f v = None)"
  by (induction vs) (auto simp: bind_eq_None_conv)

lemma normalize_steps_accepted:
  "list_all agentPlanGenerationStepSchema vs \<Longrightarrow>
   length (normalize_steps i vs) = length vs \<and>
   (zall agentPlanStepSchema (normalize_steps i vs) = None \<longleftrightarrow> (\<exists>v \<in> set vs. blank_step v))"
proof (induction vs arbitrary: i)
  case (Cons v vs)
  from Cons.prems obtain fs where v: "v = JObj fs" using generation_object [of v] by auto
  from Cons.prems v have g: "agentPlanGenerationStepSchema (JObj fs)" by simp
  obtain gs where "normalizeGeneratedAgentPlanStep (JObj fs) i = Some gs"
    "agentPlanStepSchema (JObj gs) = None \<longleftrightarrow> blank_step v"
    using normalized_step_accepted [OF g, of i] v by (auto simp: blank_step_def)
  then show ?case using Cons v by (auto simp: zall_None simp del: zall.simps)
qed simp

lemma zall_length: "zall f vs = Some xs \<Longrightarrow> length xs = length vs"
  by (induction vs arbitrary: xs) (auto simp: bind_eq_Some_conv)

definition candidate_fields :: "json_value \<Rightarrow> (string \<times> json_value) list" where
  "candidate_fields v = orElse (toRecord (unwrapGeneratedPlanCandidate v)) []"

lemma unwrap_generation:
  assumes "agentPlanGenerationSchema v"
  shows "\<exists>fs. unwrapGeneratedPlanCandidate v = JObj fs \<and> agentPlanGenerationPlanSchema (JObj fs)"
proof -
  from assms obtain fs where v: "v = JObj fs"
    and nested: "\<forall>k \<in> set PLAN_WRAPPER_KEYS. opt_ok agentPlanGenerationPlanSchema (jfield fs k)"
    and top: "agentPlanGenerationPlanSchema v"
    by (auto simp: agentPlanGenerationSchema_def PLAN_WRAPPER_KEYS_def split: jval.splits)
  show ?thesis
  proof (cases "find (\<lambda>k. toRecord (jfield fs k) \<noteq> None) PLAN_WRAPPER_KEYS")
    case None
    with v top show ?thesis by (simp add: unwrapGeneratedPlanCandidate_def)
  next
    case (Some k)
    then have "k \<in> set PLAN_WRAPPER_KEYS" and "toRecord (jfield fs k) \<noteq> None"
      by (auto simp: find_Some_iff)
    moreover from this obtain gs where "jfield fs k = JObj gs" by (cases "jfield fs k") auto
    ultimately show ?thesis
      using Some nested v by (auto simp: unwrapGeneratedPlanCandidate_def opt_ok_def)
  qed
qed

lemma plan_schema_None:
  "agentPlanSchema (JObj gs) = None \<longleftrightarrow>
     zmin1 (jfield gs ''goal'') = None \<or> zoptional zmin1 (jfield gs ''summary'') = None \<or>
     zoptional zbool (jfield gs ''requiresApproval'') = None \<or>
     zmin_len1 (zarray agentPlanStepSchema (jfield gs ''steps'')) = None"
  by (auto simp: agentPlanSchema_def bind_eq_None_conv)

lemma zall_Nil [simp]: "zall f vs = Some [] \<longleftrightarrow> vs = []"
  by (cases vs) (auto simp: bind_eq_Some_conv)

lemma zmin_len1_None: "zmin_len1 r = None \<longleftrightarrow> r = None \<or> r = Some []"
  by (auto simp: zmin_len1_def split: option.splits list.splits)

text \<open>A generated plan that passes the lenient schema becomes a valid plan exactly when its
  candidate object has steps and none of them has a list field (\<open>files\<close>, \<open>commands\<close>,
  \<open>risks\<close>, \<open>acceptanceCriteria\<close>) that is white-space text; every other gap is filled in,
  and the plan that comes out passes every check of the strict schema.\<close>

theorem normalize_plan_total:
  assumes "agentPlanGenerationSchema v" and "fallbackGoal \<noteq> []"
  shows "(case normalizeGeneratedAgentPlan v fallbackGoal of
      Some p \<Rightarrow> plan_valid p \<and>
        (\<exists>vs. jfield (candidate_fields v) ''steps'' = JArr vs \<and> length (pl_steps p) = length vs \<and>
           \<not> list_ex blank_step vs)
    | None \<Rightarrow> (case jfield (candidate_fields v) ''steps'' of
        JArr vs \<Rightarrow> list_ex blank_step vs | _ \<Rightarrow> True))"
proof -
  obtain fs where u: "unwrapGeneratedPlanCandidate v = JObj fs"
    and gen: "agentPlanGenerationPlanSchema (JObj fs)"
    using unwrap_generation [OF assms(1)] by blast
  have cf: "candidate_fields v = fs" by (simp add: candidate_fields_def u orElse_def)
  let ?goal = "orElse (toNonEmptyString (jfield fs ''goal'')) fallbackGoal"
  define gs where "gs = spread fs ([(''goal'', JStr ?goal),
      (''requiresApproval'', JBool (orElse (toBoolean (jfield fs ''requiresApproval'')) True))] @
      (case jfield fs ''steps'' of JArr vs \<Rightarrow> [(''steps'', JArr (normalize_steps 0 vs))] | _ \<Rightarrow> []))"
  have norm: "normalizeGeneratedAgentPlan v fallbackGoal = agentPlanSchema (JObj gs)"
    using assms(1) by (simp add: normalizeGeneratedAgentPlan_def u gs_def)
  have goal: "?goal \<noteq> []" using assms(2) by (intro orElse_ne) auto
  have f: "jfield gs ''goal'' = JStr ?goal" "jfield gs ''summary'' = jfield fs ''summary''"
    "jfield gs ''requiresApproval'' =
       JBool (orElse (toBoolean (jfield fs ''requiresApproval'')) True)"
    "jfield gs ''steps'' = (case jfield fs ''steps'' of
       JArr vs \<Rightarrow> JArr (normalize_steps 0 vs) | w \<Rightarrow> w)"
    by (simp_all add: jfield_spread gs_def split: jval.splits)
  have sum: "zoptional zmin1 (jfield fs ''summary'') \<noteq> None"
    using gen by (auto simp: agentPlanGenerationPlanSchema_def opt_ok_def is_min1_def zoptional_def)
  have st: "opt_ok generation_steps_ok (jfield fs ''steps'')"
    using gen by (simp add: agentPlanGenerationPlanSchema_def)
  have none: "agentPlanSchema (JObj gs) = None \<longleftrightarrow>
      zmin_len1 (zarray agentPlanStepSchema (jfield gs ''steps'')) = None"
    unfolding plan_schema_None f using goal sum by (auto simp: zoptional_def)
  show ?thesis
  proof (cases "jfield fs ''steps''")
    case (JArr vs)
    with st have vs: "vs \<noteq> []" "list_all agentPlanGenerationStepSchema vs"
      by (auto simp: opt_ok_def generation_steps_ok_def)
    note acc = normalize_steps_accepted [OF vs(2), of 0]
    have steps: "jfield gs ''steps'' = JArr (normalize_steps 0 vs)" using f(4) JArr by simp
    have blank: "agentPlanSchema (JObj gs) = None \<longleftrightarrow> list_ex blank_step vs"
      using acc vs(1) by (auto simp: none steps zmin_len1_None zarray_def list_ex_iff)
    have len: "length (pl_steps p) = length vs" if "agentPlanSchema (JObj gs) = Some p" for p
    proof -
      from that have "zmin_len1 (zarray agentPlanStepSchema (jfield gs ''steps'')) = Some (pl_steps p)"
        by (auto simp: agentPlanSchema_def bind_eq_Some_conv)
      then have "zall agentPlanStepSchema (normalize_steps 0 vs) = Some (pl_steps p)"
        unfolding steps by (auto simp: zmin_len1_def zarray_def split: option.splits list.splits)
      then show ?thesis using acc zall_length by metis
    qed
    show ?thesis
      using blank len schema_plan_valid JArr
      by (auto simp: norm cf split: option.split)
  qed (use none f st in \<open>auto simp: norm cf zarray_def zmin_len1_def opt_ok_def
      generation_steps_ok_def\<close>)
qed

definition example_generated :: json_value where
  "example_generated = JObj [(''data'', JObj [(''steps'', JArr
     [JObj [(''title'', JStr (lit '' build '')), (''files'', JStr (lit ''a.ts''))],
      JObj [(''goal'', JStr (lit ''test'')), (''requiresApproval'', JStr [0x5426])]])])]"

lemmas generation_defs = agentPlanGenerationSchema_def agentPlanGenerationPlanSchema_def
  generation_steps_ok_def agentPlanGenerationStepSchema_def opt_ok_def is_min1_def zmin1_def
  stringOrStringArraySchema_def booleanOrStringSchema_def jfield_def

theorem normalize_plan_total_witness:
  "\<exists>p. normalizeGeneratedAgentPlan example_generated (lit ''g'') = Some p \<and> plan_valid p \<and>
     length (pl_steps p) = 2"
proof -
  have 1: "agentPlanGenerationSchema example_generated"
    by (simp add: generation_defs example_generated_def lit_def)
  have 2: "lit ''g'' \<noteq> []" by (simp add: lit_def)
  obtain v w where s: "jfield (candidate_fields example_generated) ''steps'' = JArr [v, w]"
    and b: "\<not> list_ex blank_step [v, w]"
    by (simp add: candidate_fields_def unwrapGeneratedPlanCandidate_def PLAN_WRAPPER_KEYS_def
        example_generated_def jfield_def orElse_def blank_step_def blank_string_def list_fields_def
        lit_def trim_def is_js_space_def)
  from normalize_plan_total [OF 1 2] s b obtain p
    where "normalizeGeneratedAgentPlan example_generated (lit ''g'') = Some p"
    by (cases "normalizeGeneratedAgentPlan example_generated (lit ''g'')") simp_all
  with normalize_plan_total [OF 1 2] s show ?thesis by auto
qed

section \<open>Applying a delta\<close>

lemma patched_valid: "\<lbrakk>step_valid s; patch_valid p\<rbrakk> \<Longrightarrow> step_valid (patched_step s p)"
  by (auto simp: step_valid_def patch_valid_def patched_step_def orElse_def opt_all_def
      nullish_def split: option.splits)

lemma patched_id [simp]: "st_id (patched_step s p) = st_id s"
  by (simp add: patched_step_def)

definition patch_of :: "plan_delta \<Rightarrow> (ustr, step_patch) jsmap" where
  "patch_of d = foldl (\<lambda>m kv. jm_set m (fst kv) (snd kv)) [] (dl_modified d)"

lemma patch_of_get: "jm_get (patch_of d) k = map_of (rev (dl_modified d)) k"
proof -
  have "jm_get (foldl (\<lambda>m kv. jm_set m (fst kv) (snd kv)) [] ms) k = map_of (rev ms) k" for ms
    by (induction ms rule: rev_induct) auto
  then show ?thesis by (simp add: patch_of_def)
qed

definition apply_patch :: "plan_delta \<Rightarrow> plan_step \<Rightarrow> plan_step" where
  "apply_patch d s = (case map_of (rev (dl_modified d)) (st_id s) of
     Some p \<Rightarrow> patched_step s p | None \<Rightarrow> s)"

lemma apply_patch_id [simp]: "st_id (apply_patch d s) = st_id s"
  by (simp add: apply_patch_def split: option.splits)

lemma apply_patch_valid:
  "\<lbrakk>delta_valid d; step_valid s\<rbrakk> \<Longrightarrow> step_valid (apply_patch d s)"
  by (force simp: apply_patch_def delta_valid_def dest!: map_of_SomeD split: option.splits
      intro!: patched_valid)

lemma patch_steps_map:
  "\<lbrakk>delta_valid d; \<forall>s \<in> set ss. step_valid s\<rbrakk> \<Longrightarrow>
   patch_steps (patch_of d) ss = Some (map (apply_patch d) ss)"
proof (induction ss)
  case (Cons s ss)
  have "(case jm_get (patch_of d) (st_id s) of Some p \<Rightarrow> applyStepPatch s p | None \<Rightarrow> Some s) =
      Some (apply_patch d s)"
    using apply_patch_valid [OF Cons.prems(1), of s] Cons.prems(2)
    by (auto simp: patch_of_get apply_patch_def applyStepPatch_def Let_def split: option.splits)
  with Cons show ?case by simp
qed simp

definition survivors :: "agent_plan \<Rightarrow> plan_delta \<Rightarrow> plan_step list" where
  "survivors plan d =
     filter (\<lambda>s. st_id s \<notin> set (dl_removed d) \<and> st_id s \<notin> st_id ` set (dl_added d)) (pl_steps plan)"



definition delta_result :: "agent_plan \<Rightarrow> plan_delta \<Rightarrow> agent_plan" where
  "delta_result plan d = plan\<lparr>pl_summary := Some (dl_summary d),
     pl_steps := map (apply_patch d) (survivors plan d) @ dl_added d,
     pl_requiresApproval := Some True\<rparr>"

lemma delta_result_valid:
  assumes "plan_valid plan" and "delta_valid d"
  shows "plan_valid (delta_result plan d) \<longleftrightarrow> survivors plan d \<noteq> [] \<or> dl_added d \<noteq> []"
proof -
  have "\<forall>s \<in> set (survivors plan d). step_valid (apply_patch d s)"
    using assms apply_patch_valid by (auto simp: survivors_def plan_valid_def)
  with assms show ?thesis
    by (auto simp: delta_result_def plan_valid_def delta_valid_def)
qed

lemma applyAgentPlanDelta_eq:
  assumes "plan_valid plan" and "delta_valid d"
  shows "applyAgentPlanDelta plan d = Some
    (if survivors plan d = [] \<and> dl_added d = [] then None else Some (delta_result plan d))"
proof -
  have v: "\<forall>s \<in> set (filter (\<lambda>s. st_id s \<notin> set (dl_removed d)) (pl_steps plan)). step_valid s"
    using assms(1) by (simp add: plan_valid_def)
  have "filter (\<lambda>s. st_id s \<notin> set (map st_id (dl_added d)))
      (map (apply_patch d) (filter (\<lambda>s. st_id s \<notin> set (dl_removed d)) (pl_steps plan))) =
      map (apply_patch d) (survivors plan d)"
    by (simp add: filter_map o_def survivors_def conj_commute)
  then have "applyAgentPlanDelta plan d =
      Some (if plan_valid (delta_result plan d) then Some (delta_result plan d) else None)"
    by (simp add: applyAgentPlanDelta_def patch_of_def [symmetric] Let_def delta_result_def
        patch_steps_map [OF assms(2) v])
  then show ?thesis using delta_result_valid [OF assms] by simp
qed

text \<open>C40: Applying a valid delta to a valid plan never throws. It fails only when nothing is left;
  otherwise it gives a valid plan, in the old order followed by the added steps, where removed and
  re-added ids are dropped, a modified step has its last patch and is pending again, an unmodified
  one is unchanged, the plan needs approval again, and distinct ids stay distinct.\<close>

theorem delta_application:
  assumes "plan_valid plan" and "delta_valid d"
  shows "case applyAgentPlanDelta plan d of
      None \<Rightarrow> False
    | Some None \<Rightarrow> survivors plan d = [] \<and> dl_added d = []
    | Some (Some plan') \<Rightarrow>
        plan_valid plan' \<and> pl_requiresApproval plan' = Some True \<and> pl_goal plan' = pl_goal plan \<and>
        pl_steps plan' = map (apply_patch d) (survivors plan d) @ dl_added d \<and>
        (\<forall>s \<in> set (survivors plan d).
           if st_id s \<in> fst ` set (dl_modified d) then st_status (apply_patch d s) = StPending
           else apply_patch d s = s) \<and>
        (distinct (map st_id (pl_steps plan)) \<and> distinct (map st_id (dl_added d)) \<longrightarrow>
           distinct (map st_id (pl_steps plan')))"
proof -
  have "map st_id (map (apply_patch d) (survivors plan d)) = map st_id (survivors plan d)"
    by simp
  then have dist: "distinct (map st_id (map (apply_patch d) (survivors plan d) @ dl_added d))"
    if "distinct (map st_id (pl_steps plan))" "distinct (map st_id (dl_added d))"
    using that by (auto simp: survivors_def distinct_map_filter simp del: map_map)
  have status: "if st_id s \<in> fst ` set (dl_modified d) then st_status (apply_patch d s) = StPending
      else apply_patch d s = s" for s
  proof (cases "map_of (rev (dl_modified d)) (st_id s)")
    case None
    then have "st_id s \<notin> fst ` set (dl_modified d)" by (simp add: map_of_eq_None_iff)
    with None show ?thesis by (simp add: apply_patch_def)
  next
    case (Some p)
    then have "st_id s \<in> fst ` set (dl_modified d)" by (force dest: map_of_SomeD)
    with Some show ?thesis by (simp add: apply_patch_def patched_step_def)
  qed
  show ?thesis
  proof (cases "survivors plan d = [] \<and> dl_added d = []")
    case True
    then show ?thesis by (simp add: applyAgentPlanDelta_eq [OF assms])
  next
    case False
    then have "plan_valid (delta_result plan d)" using delta_result_valid [OF assms] by blast
    with False dist status show ?thesis
      by (simp add: applyAgentPlanDelta_eq [OF assms]) (simp add: delta_result_def)
  qed
qed

definition example_step :: "ustr \<Rightarrow> plan_step" where
  "example_step i = \<lparr>st_id = i, st_title = i, st_goal = i, st_description = None,
     st_status = StDone, st_tools = [], st_files = [], st_commands = [], st_risks = [],
     st_acceptanceCriteria = [], st_riskLevel = RLow, st_requiresApproval = False,
     st_expectedOutput = i\<rparr>"

definition example_plan :: agent_plan where
  "example_plan = \<lparr>pl_goal = [1], pl_summary = None, pl_requiresApproval = None,
     pl_steps = [example_step [1], example_step [2], example_step [3]]\<rparr>"

definition example_delta :: plan_delta where
  "example_delta = \<lparr>dl_summary = [9], dl_added = [example_step [4]], dl_modified =
     [([2], \<lparr>sp_title = Some [7], sp_goal = None, sp_description = None, sp_tools = None,
        sp_files = None, sp_commands = None, sp_risks = None, sp_acceptanceCriteria = None,
        sp_riskLevel = None, sp_requiresApproval = None, sp_expectedOutput = None\<rparr>)],
     dl_removed = [[1]]\<rparr>"

lemmas example_defs = example_plan_def example_delta_def example_step_def survivors_def
  apply_patch_def patched_step_def orElse_def nullish_def

theorem delta_application_witness:
  "\<exists>p. applyAgentPlanDelta example_plan example_delta = Some (Some p) \<and>
     map st_title (pl_steps p) = [[7], [3], [4]] \<and>
     map st_status (pl_steps p) = [StPending, StDone, StDone]"
proof -
  have 1: "plan_valid example_plan"
    by (simp add: example_defs plan_valid_def step_valid_def strings_valid_def)
  have 2: "delta_valid example_delta"
    by (simp add: example_defs delta_valid_def step_valid_def patch_valid_def strings_valid_def
        opt_all_def)
  let ?p = "delta_result example_plan example_delta"
  have ne: "survivors example_plan example_delta \<noteq> []" by (simp add: example_defs)
  have p: "applyAgentPlanDelta example_plan example_delta = Some (Some ?p)"
    using ne by (simp add: applyAgentPlanDelta_eq [OF 1 2])
  have s: "pl_steps ?p = map (apply_patch example_delta) (survivors example_plan example_delta) @
      dl_added example_delta"
    using delta_application [OF 1 2] unfolding p option.case by (elim conjE)
  have "map st_title (pl_steps ?p) = [[7], [3], [4]]"
    "map st_status (pl_steps ?p) = [StPending, StDone, StDone]"
    unfolding s by (simp_all add: example_defs)
  with p show ?thesis by (intro exI [of _ ?p] conjI)
qed

end
