(* ===== verification/PlanStore.thy ===== *)
theory PlanStore
  imports PlanUtils
begin

text \<open>
  The plan store of the agent sidecar (\<open>agent-sidecar/src/engines/plan/plan-store.ts\<close>): one
  table of versioned plans with a status, updated by compare-and-set. The table is the list of its
  rows in insertion order; each SQL statement of the source is one function on it; a JSON column
  holds the JSON value it denotes. The clock, the UUID source and the check of ISO date-times are
  parameters. \<open>pe_schemaVersion\<close> is the \<open>schemaVersion\<close> key of the object \<open>toPlanRecord\<close>
  builds: the source builds none, so the code is the case \<open>None\<close>; the other cases say what the
  store does once the key is supplied.
\<close>

section \<open>The table\<close>

record plan_env =
  pe_now :: "nat \<Rightarrow> ustr"
  pe_uuid :: "nat \<Rightarrow> ustr"
  pe_isDatetime :: "ustr \<Rightarrow> bool"
  pe_schemaVersion :: "int option"

record plan_row =
  pw_planId :: ustr
  pw_threadId :: ustr
  pw_version :: int
  pw_status :: plan_status
  pw_userRequest :: ustr
  pw_planJson :: json_value
  pw_createdAt :: ustr
  pw_updatedAt :: ustr
  pw_approvedAt :: "ustr option"
  pw_executedAt :: "ustr option"
  pw_rejectionReason :: "ustr option"
  pw_errorMessage :: "ustr option"

record plan_db =
  pd_rows :: "plan_row list"
  pd_closed :: bool
  pd_clock :: nat
  pd_uuids :: nat

definition empty_plan_db :: plan_db where
  "empty_plan_db = \<lparr>pd_rows = [], pd_closed = False, pd_clock = 0, pd_uuids = 0\<rparr>"

datatype plan_error =
    StoreClosed
  | SchemaError
  | ColumnError
  | PlanNotFound
  | VersionMismatch int
  | WrongStatus plan_status
  | StepMissing
  | CasFailed plan_status "plan_status option"

type_synonym 'a plan_op = "(plan_db, plan_error, 'a) fallible"

section \<open>Helpers\<close>

definition nonEmptyString :: "ustr option \<Rightarrow> ustr option" where
  "nonEmptyString v = (case v of
     None \<Rightarrow> None
   | Some s \<Rightarrow> (let t = trim s in if length t > 0 then Some t else None))"

definition serializePlan :: "agent_plan \<Rightarrow> json_value option" where
  "serializePlan p = (if plan_valid p then Some (plan_to_json p) else None)"

definition parsePlan :: "json_value \<Rightarrow> agent_plan option" where
  "parsePlan v = agentPlanSchema v"

definition record_of_row :: "plan_env \<Rightarrow> plan_row \<Rightarrow> agent_plan \<Rightarrow> plan_record" where
  "record_of_row env w p =
     \<lparr>pr_schemaVersion = pe_schemaVersion env, pr_planId = pw_planId w,
      pr_threadId = pw_threadId w, pr_version = pw_version w, pr_status = pw_status w,
      pr_userRequest = pw_userRequest w, pr_plan = p, pr_createdAt = pw_createdAt w,
      pr_updatedAt = pw_updatedAt w, pr_approvedAt = pw_approvedAt w,
      pr_executedAt = pw_executedAt w, pr_rejectionReason = pw_rejectionReason w,
      pr_errorMessage = pw_errorMessage w\<rparr>"

definition toPlanRecord :: "plan_env \<Rightarrow> plan_row \<Rightarrow> plan_error + plan_record" where
  "toPlanRecord env w =
     (if pw_version w < 1 then Inl ColumnError
      else (case parsePlan (pw_planJson w) of
              None \<Rightarrow> Inl SchemaError
            | Some p \<Rightarrow>
                (let r = record_of_row env w p
                 in if agentPlanRecordSchema (pe_isDatetime env) r then Inr r
                    else Inl SchemaError)))"

definition findPlanStep :: "plan_record \<Rightarrow> ustr \<Rightarrow> plan_step option" where
  "findPlanStep r sid = find (\<lambda>s. st_id s = sid) (pl_steps (pr_plan r))"

definition isPositiveVersion :: "int option \<Rightarrow> bool" where
  "isPositiveVersion v = (case v of None \<Rightarrow> False | Some n \<Rightarrow> 0 < n)"

definition read_clock :: "plan_env \<Rightarrow> ustr plan_op" where
  "read_clock env = (\<lambda>s. (Inr (pe_now env (pd_clock s)), s\<lparr>pd_clock := pd_clock s + 1\<rparr>))"

definition fresh_uuid :: "plan_env \<Rightarrow> ustr plan_op" where
  "fresh_uuid env = (\<lambda>s. (Inr (pe_uuid env (pd_uuids s)), s\<lparr>pd_uuids := pd_uuids s + 1\<rparr>))"

definition assertOpen :: "unit plan_op" where
  "assertOpen = (\<lambda>s. if pd_closed s then (Inl StoreClosed, s) else (Inr (), s))"

definition lift_result :: "plan_error + 'a \<Rightarrow> 'a plan_op" where
  "lift_result x = (case x of Inl e \<Rightarrow> throw e | Inr a \<Rightarrow> ret a)"

section \<open>Statements\<close>

text \<open>\<open>SELECT COALESCE(MAX(version), 0) ... WHERE plan_id = ?\<close>\<close>

definition latest_version :: "ustr \<Rightarrow> plan_row list \<Rightarrow> int" where
  "latest_version pid rows =
     foldr max (map pw_version (filter (\<lambda>w. pw_planId w = pid) rows)) 0"

text \<open>\<open>SELECT ... WHERE plan_id = ? AND version = ? LIMIT 1\<close>\<close>

definition select_version :: "ustr \<Rightarrow> int \<Rightarrow> plan_row list \<Rightarrow> plan_row option" where
  "select_version pid v rows = find (\<lambda>w. pw_planId w = pid \<and> pw_version w = v) rows"

text \<open>\<open>SELECT ... WHERE plan_id = ? ORDER BY version DESC\<close>\<close>

definition select_versions :: "ustr \<Rightarrow> plan_row list \<Rightarrow> plan_row list" where
  "select_versions pid rows =
     rev (sort_key pw_version (filter (\<lambda>w. pw_planId w = pid) rows))"

record status_update =
  up_expected :: plan_status
  up_next :: plan_status
  up_approvedAt :: "ustr option"
  up_executedAt :: "ustr option"
  up_rejectionReason :: "ustr option option"
  up_errorMessage :: "ustr option option"

text \<open>The \<open>SET\<close> clause: \<open>COALESCE\<close> keeps a column when the argument is null, the
  \<open>CASE\<close> keeps it when the caller did not give the field.\<close>

definition set_clause :: "status_update \<Rightarrow> ustr \<Rightarrow> plan_row \<Rightarrow> plan_row" where
  "set_clause u t w = w\<lparr>
     pw_status := up_next u,
     pw_updatedAt := t,
     pw_approvedAt := (case up_approvedAt u of Some a \<Rightarrow> Some a | None \<Rightarrow> pw_approvedAt w),
     pw_executedAt := (case up_executedAt u of Some a \<Rightarrow> Some a | None \<Rightarrow> pw_executedAt w),
     pw_rejectionReason := (case up_rejectionReason u of Some r \<Rightarrow> r | None \<Rightarrow> pw_rejectionReason w),
     pw_errorMessage := (case up_errorMessage u of Some r \<Rightarrow> r | None \<Rightarrow> pw_errorMessage w)\<rparr>"

definition cas_matches :: "ustr \<Rightarrow> int \<Rightarrow> status_update \<Rightarrow> plan_row \<Rightarrow> bool" where
  "cas_matches pid v u w \<longleftrightarrow>
     pw_planId w = pid \<and> pw_version w = v \<and> pw_status w = up_expected u"

definition update_rows ::
    "ustr \<Rightarrow> int \<Rightarrow> status_update \<Rightarrow> ustr \<Rightarrow> plan_row list \<Rightarrow> plan_row list" where
  "update_rows pid v u t rows =
     map (\<lambda>w. if cas_matches pid v u w then set_clause u t w else w) rows"

section \<open>Operations\<close>

record create_input =
  ci_planId :: "ustr option"
  ci_threadId :: ustr
  ci_userRequest :: ustr
  ci_plan :: agent_plan

definition pending_row ::
    "ustr \<Rightarrow> ustr \<Rightarrow> int \<Rightarrow> ustr \<Rightarrow> json_value \<Rightarrow> ustr \<Rightarrow> plan_row" where
  "pending_row pid tid v req js t =
     \<lparr>pw_planId = pid, pw_threadId = tid, pw_version = v, pw_status = PsPendingApproval,
      pw_userRequest = req, pw_planJson = js, pw_createdAt = t, pw_updatedAt = t,
      pw_approvedAt = None, pw_executedAt = None, pw_rejectionReason = None,
      pw_errorMessage = None\<rparr>"

definition insert_row :: "plan_row \<Rightarrow> plan_db \<Rightarrow> plan_db" where
  "insert_row w s = s\<lparr>pd_rows := pd_rows s @ [w]\<rparr>"

text \<open>The row is committed before \<open>toPlanRecord\<close> reads it back; a rollback after the commit
  changes nothing.\<close>

definition createPendingPlan :: "plan_env \<Rightarrow> create_input \<Rightarrow> plan_record plan_op" where
  "createPendingPlan env inp =
     andThen assertOpen (\<lambda>_.
     andThen (case nonEmptyString (ci_planId inp) of Some i \<Rightarrow> ret i | None \<Rightarrow> fresh_uuid env) (\<lambda>pid.
     (let tid = orElse (nonEmptyString (Some (ci_threadId inp))) pid
      in case serializePlan (ci_plan inp) of
           None \<Rightarrow> throw SchemaError
         | Some js \<Rightarrow>
             andThen (read_clock env) (\<lambda>t s.
               (let v = latest_version pid (pd_rows s) + 1;
                    w = pending_row pid tid v (ci_userRequest inp) js t
                in (toPlanRecord env w, insert_row w s))))))"

definition getPlanByVersion :: "plan_env \<Rightarrow> ustr \<Rightarrow> int \<Rightarrow> plan_record option plan_op" where
  "getPlanByVersion env pid v = (\<lambda>s.
     (case select_version pid v (pd_rows s) of
        None \<Rightarrow> (Inr None, s)
      | Some w \<Rightarrow> (map_sum id Some (toPlanRecord env w), s)))"

definition getLatestPlan :: "plan_env \<Rightarrow> ustr \<Rightarrow> plan_record option plan_op" where
  "getLatestPlan env pid = (\<lambda>s.
     (case select_versions pid (pd_rows s) of
        [] \<Rightarrow> (Inr None, s)
      | w # _ \<Rightarrow> (map_sum id Some (toPlanRecord env w), s)))"

definition getPlanByVersionOrThrow :: "plan_env \<Rightarrow> ustr \<Rightarrow> int \<Rightarrow> plan_record plan_op" where
  "getPlanByVersionOrThrow env pid v =
     andThen (getPlanByVersion env pid v) (\<lambda>r. case r of
       Some rec \<Rightarrow> ret rec
     | None \<Rightarrow> andThen (getLatestPlan env pid) (\<lambda>l. case l of
         Some rec \<Rightarrow> throw (VersionMismatch (pr_version rec))
       | None \<Rightarrow> throw PlanNotFound))"

definition getPlan :: "plan_env \<Rightarrow> ustr \<Rightarrow> int option \<Rightarrow> plan_record plan_op" where
  "getPlan env pid v =
     andThen assertOpen (\<lambda>_.
       if isPositiveVersion v then getPlanByVersionOrThrow env pid (the v)
       else andThen (getLatestPlan env pid) (\<lambda>l. case l of
              Some rec \<Rightarrow> ret rec
            | None \<Rightarrow> throw PlanNotFound))"

fun map_rows :: "plan_env \<Rightarrow> plan_row list \<Rightarrow> plan_error + plan_record list" where
  "map_rows env [] = Inr []"
| "map_rows env (w # ws) =
     (case toPlanRecord env w of
        Inl e \<Rightarrow> Inl e
      | Inr r \<Rightarrow> map_sum id (Cons r) (map_rows env ws))"

definition listPlanVersions :: "plan_env \<Rightarrow> ustr \<Rightarrow> plan_record list plan_op" where
  "listPlanVersions env pid =
     andThen assertOpen (\<lambda>_ s. (map_rows env (select_versions pid (pd_rows s)), s))"

definition updatePlanStatus ::
    "plan_env \<Rightarrow> ustr \<Rightarrow> int \<Rightarrow> status_update \<Rightarrow> plan_record plan_op" where
  "updatePlanStatus env pid v u =
     andThen (read_clock env) (\<lambda>t s.
       (let s' = s\<lparr>pd_rows := update_rows pid v u t (pd_rows s)\<rparr>
        in case find (cas_matches pid v u) (pd_rows s) of
             Some w \<Rightarrow> (toPlanRecord env (set_clause u t w), s')
           | None \<Rightarrow>
               andThen (getPlanByVersion env pid v)
                 (\<lambda>l. throw (CasFailed (up_expected u) (map_option pr_status l))) s'))"

text \<open>Each transition decides on the record it read: an error, nothing to do, or an update.\<close>

definition approve_guard :: "plan_record \<Rightarrow> plan_error + bool" where
  "approve_guard r =
     (if pr_status r \<in> {PsApproved, PsExecuting, PsCompleted} then Inr False
      else if pr_status r \<noteq> PsPendingApproval then Inl (WrongStatus (pr_status r))
      else Inr True)"

definition approve_update :: "plan_record \<Rightarrow> ustr \<Rightarrow> status_update" where
  "approve_update r t = \<lparr>up_expected = pr_status r, up_next = PsApproved, up_approvedAt = Some t,
     up_executedAt = None, up_rejectionReason = None, up_errorMessage = None\<rparr>"

definition approvePlan :: "plan_env \<Rightarrow> ustr \<Rightarrow> int \<Rightarrow> plan_record plan_op" where
  "approvePlan env pid v =
     andThen assertOpen (\<lambda>_.
     andThen (getPlanByVersionOrThrow env pid v) (\<lambda>r.
       case approve_guard r of
         Inl e \<Rightarrow> throw e
       | Inr False \<Rightarrow> ret r
       | Inr True \<Rightarrow>
           andThen (read_clock env) (\<lambda>t. updatePlanStatus env pid v (approve_update r t))))"

definition reject_guard :: "plan_record \<Rightarrow> plan_error + bool" where
  "reject_guard r =
     (if pr_status r = PsRejected then Inr False
      else if pr_status r \<in> {PsExecuting, PsCompleted, PsFailed}
      then Inl (WrongStatus (pr_status r))
      else Inr True)"

definition reject_update :: "plan_record \<Rightarrow> ustr option \<Rightarrow> status_update" where
  "reject_update r reason = \<lparr>up_expected = pr_status r, up_next = PsRejected,
     up_approvedAt = None, up_executedAt = None,
     up_rejectionReason = Some (nonEmptyString reason), up_errorMessage = None\<rparr>"

definition rejectPlan :: "plan_env \<Rightarrow> ustr \<Rightarrow> int \<Rightarrow> ustr option \<Rightarrow> plan_record plan_op" where
  "rejectPlan env pid v reason =
     andThen assertOpen (\<lambda>_.
     andThen (getPlanByVersionOrThrow env pid v) (\<lambda>r.
       case reject_guard r of
         Inl e \<Rightarrow> throw e
       | Inr False \<Rightarrow> ret r
       | Inr True \<Rightarrow> updatePlanStatus env pid v (reject_update r reason)))"

text \<open>\<open>failed\<close> selects between the two final statuses a caller may ask for.\<close>

definition finish_status :: "bool \<Rightarrow> plan_status" where
  "finish_status failed = (if failed then PsFailed else PsCompleted)"

definition finish_guard :: "bool \<Rightarrow> plan_record \<Rightarrow> plan_error + bool" where
  "finish_guard failed r =
     (if pr_status r = finish_status failed then Inr False
      else if pr_status r \<in> {PsRejected, PsCompleted, PsFailed}
      then Inl (WrongStatus (pr_status r))
      else Inr True)"

definition finish_update :: "bool \<Rightarrow> ustr option \<Rightarrow> plan_record \<Rightarrow> ustr \<Rightarrow> status_update" where
  "finish_update failed err r t = \<lparr>up_expected = pr_status r, up_next = finish_status failed,
     up_approvedAt = None, up_executedAt = Some t, up_rejectionReason = None,
     up_errorMessage = Some (if failed then nonEmptyString err else None)\<rparr>"

definition finishPlan ::
    "plan_env \<Rightarrow> ustr \<Rightarrow> int \<Rightarrow> bool \<Rightarrow> ustr option \<Rightarrow> plan_record plan_op" where
  "finishPlan env pid v failed err =
     andThen assertOpen (\<lambda>_.
     andThen (getPlanByVersionOrThrow env pid v) (\<lambda>r.
       case finish_guard failed r of
         Inl e \<Rightarrow> throw e
       | Inr False \<Rightarrow> ret r
       | Inr True \<Rightarrow>
           andThen (case pr_executedAt r of Some t \<Rightarrow> ret t | None \<Rightarrow> read_clock env)
             (\<lambda>t. updatePlanStatus env pid v (finish_update failed err r t))))"

definition prepare_update :: "plan_record \<Rightarrow> ustr \<Rightarrow> status_update" where
  "prepare_update r t = \<lparr>up_expected = pr_status r, up_next = PsExecuting, up_approvedAt = None,
     up_executedAt = Some t, up_rejectionReason = None, up_errorMessage = None\<rparr>"

definition prepareExecution ::
    "plan_env \<Rightarrow> ustr \<Rightarrow> int \<Rightarrow> ustr \<Rightarrow> (plan_record \<times> plan_step) plan_op" where
  "prepareExecution env pid v sid =
     andThen assertOpen (\<lambda>_.
     andThen (getPlanByVersionOrThrow env pid v) (\<lambda>r.
       if pr_status r \<noteq> PsApproved \<and> pr_status r \<noteq> PsExecuting
       then throw (WrongStatus (pr_status r))
       else (case findPlanStep r sid of
               None \<Rightarrow> throw StepMissing
             | Some step \<Rightarrow>
                 if pr_status r = PsExecuting then ret (r, step)
                 else andThen (read_clock env) (\<lambda>t.
                      andThen (updatePlanStatus env pid v (prepare_update r t))
                        (\<lambda>r'. ret (r', step))))))"

definition close_plan_store :: "unit plan_op" where
  "close_plan_store = (\<lambda>s. (Inr (), if pd_closed s then s else s\<lparr>pd_closed := True\<rparr>))"

section \<open>The status machine\<close>

text \<open>The edges the guards allow.\<close>

fun plan_next :: "plan_status \<Rightarrow> plan_status list" where
  "plan_next PsDraft = [PsRejected, PsCompleted, PsFailed]"
| "plan_next PsPendingApproval = [PsApproved, PsRejected, PsCompleted, PsFailed]"
| "plan_next PsApproved = [PsRejected, PsExecuting, PsCompleted, PsFailed]"
| "plan_next PsExecuting = [PsCompleted, PsFailed]"
| "plan_next _ = []"

definition plan_edge :: "plan_status \<Rightarrow> plan_status \<Rightarrow> bool" where
  "plan_edge a b \<longleftrightarrow> b \<in> set (plan_next a)"

definition final_status :: "plan_status \<Rightarrow> bool" where
  "final_status a \<longleftrightarrow> a \<in> {PsRejected, PsCompleted, PsFailed}"

definition update_allowed :: "status_update \<Rightarrow> bool" where
  "update_allowed u \<longleftrightarrow> plan_edge (up_expected u) (up_next u)"

lemma approve_allowed: "approve_guard r = Inr True \<Longrightarrow> update_allowed (approve_update r t)"
  by (auto simp: approve_guard_def approve_update_def update_allowed_def plan_edge_def
      split: if_splits)

lemma reject_allowed: "reject_guard r = Inr True \<Longrightarrow> update_allowed (reject_update r reason)"
  by (cases "pr_status r")
    (auto simp: reject_guard_def reject_update_def update_allowed_def plan_edge_def
      split: if_splits)

lemma finish_allowed:
  "finish_guard failed r = Inr True \<Longrightarrow> update_allowed (finish_update failed err r t)"
  by (cases "pr_status r"; cases failed)
    (auto simp: finish_guard_def finish_update_def finish_status_def update_allowed_def
      plan_edge_def split: if_splits)

lemma prepare_allowed: "pr_status r = PsApproved \<Longrightarrow> update_allowed (prepare_update r t)"
  by (simp add: prepare_update_def update_allowed_def plan_edge_def)

text \<open>What may happen to a row: its identity stays, its status moves along edges, a row in a
  final status is never written again.\<close>

definition same_plan :: "plan_row \<Rightarrow> plan_row \<Rightarrow> bool" where
  "same_plan w w' \<longleftrightarrow> pw_planId w' = pw_planId w \<and> pw_threadId w' = pw_threadId w \<and>
     pw_version w' = pw_version w \<and> pw_userRequest w' = pw_userRequest w \<and>
     pw_planJson w' = pw_planJson w \<and> pw_createdAt w' = pw_createdAt w"

definition row_evolves :: "plan_row \<Rightarrow> plan_row \<Rightarrow> bool" where
  "row_evolves w w' \<longleftrightarrow> same_plan w w' \<and> plan_edge\<^sup>*\<^sup>* (pw_status w) (pw_status w') \<and>
     (final_status (pw_status w) \<longrightarrow> w' = w)"

definition rows_evolve :: "plan_row list \<Rightarrow> plan_row list \<Rightarrow> bool" where
  "rows_evolve rows rows' \<longleftrightarrow> length rows \<le> length rows' \<and>
     (\<forall>i < length rows. row_evolves (rows ! i) (rows' ! i))"

lemma row_evolves_refl [simp]: "row_evolves w w"
  by (simp add: row_evolves_def same_plan_def)

lemma row_evolves_trans: "\<lbrakk>row_evolves a b; row_evolves b c\<rbrakk> \<Longrightarrow> row_evolves a c"
  by (auto simp: row_evolves_def same_plan_def)

lemma rows_evolve_refl [simp]: "rows_evolve rows rows"
  by (simp add: rows_evolve_def)

lemma rows_evolve_trans: "\<lbrakk>rows_evolve a b; rows_evolve b c\<rbrakk> \<Longrightarrow> rows_evolve a c"
  unfolding rows_evolve_def by (meson le_trans less_le_trans row_evolves_trans)

lemma rows_evolve_insert [simp]: "rows_evolve rows (rows @ [w])"
  by (simp add: rows_evolve_def nth_append)

lemma set_clause_evolves:
  "\<lbrakk>update_allowed u; cas_matches pid v u w\<rbrakk> \<Longrightarrow> row_evolves w (set_clause u t w)"
  by (auto simp: row_evolves_def same_plan_def set_clause_def update_allowed_def cas_matches_def
      final_status_def plan_edge_def)

lemma rows_evolve_update: "update_allowed u \<Longrightarrow> rows_evolve rows (update_rows pid v u t rows)"
  by (simp add: rows_evolve_def update_rows_def set_clause_evolves)

section \<open>Interleaved operations\<close>

text \<open>
  Between the read of a transition and its compare-and-set other operations may run. The system
  keeps the updates that were decided and not yet executed; every step is one statement.
\<close>

record plan_system =
  sy_db :: plan_db
  sy_inflight :: "(ustr \<times> int \<times> status_update) list"

inductive plan_system_step :: "plan_env \<Rightarrow> plan_system \<Rightarrow> plan_system \<Rightarrow> bool" for env where
  create: "createPendingPlan env inp db = (res, db') \<Longrightarrow>
    plan_system_step env \<lparr>sy_db = db, sy_inflight = us\<rparr> \<lparr>sy_db = db', sy_inflight = us\<rparr>"
| clock: "read_clock env db = (res, db') \<Longrightarrow>
    plan_system_step env \<lparr>sy_db = db, sy_inflight = us\<rparr> \<lparr>sy_db = db', sy_inflight = us\<rparr>"
| read_approve: "\<lbrakk>getPlanByVersionOrThrow env pid v db = (Inr r, db');
      approve_guard r = Inr True\<rbrakk> \<Longrightarrow>
    plan_system_step env \<lparr>sy_db = db, sy_inflight = us\<rparr>
      \<lparr>sy_db = db', sy_inflight = (pid, v, approve_update r t) # us\<rparr>"
| read_reject: "\<lbrakk>getPlanByVersionOrThrow env pid v db = (Inr r, db');
      reject_guard r = Inr True\<rbrakk> \<Longrightarrow>
    plan_system_step env \<lparr>sy_db = db, sy_inflight = us\<rparr>
      \<lparr>sy_db = db', sy_inflight = (pid, v, reject_update r reason) # us\<rparr>"
| read_finish: "\<lbrakk>getPlanByVersionOrThrow env pid v db = (Inr r, db');
      finish_guard failed r = Inr True\<rbrakk> \<Longrightarrow>
    plan_system_step env \<lparr>sy_db = db, sy_inflight = us\<rparr>
      \<lparr>sy_db = db', sy_inflight = (pid, v, finish_update failed err r t) # us\<rparr>"
| read_prepare: "\<lbrakk>getPlanByVersionOrThrow env pid v db = (Inr r, db'); pr_status r = PsApproved;
      findPlanStep r sid \<noteq> None\<rbrakk> \<Longrightarrow>
    plan_system_step env \<lparr>sy_db = db, sy_inflight = us\<rparr>
      \<lparr>sy_db = db', sy_inflight = (pid, v, prepare_update r t) # us\<rparr>"
| cas_write: "updatePlanStatus env pid v u db = (res, db') \<Longrightarrow>
    plan_system_step env \<lparr>sy_db = db, sy_inflight = us @ (pid, v, u) # us'\<rparr>
      \<lparr>sy_db = db', sy_inflight = us @ us'\<rparr>"

inductive_cases plan_system_stepE: "plan_system_step env x y"

definition initial_system :: plan_system where
  "initial_system = \<lparr>sy_db = empty_plan_db, sy_inflight = []\<rparr>"

definition versions_ok :: "plan_row list \<Rightarrow> bool" where
  "versions_ok rows \<longleftrightarrow> (\<forall>pid. \<exists>n.
     map pw_version (filter (\<lambda>w. pw_planId w = pid) rows) = map int [1..<Suc n])"

definition system_ok :: "plan_system \<Rightarrow> bool" where
  "system_ok x \<longleftrightarrow> (\<forall>(pid, v, u) \<in> set (sy_inflight x). update_allowed u) \<and>
     versions_ok (pd_rows (sy_db x))"

lemma read_clock_rows [simp]: "pd_rows (snd (read_clock env s)) = pd_rows s"
  by (simp add: read_clock_def)

lemma getPlanByVersion_state [simp]: "snd (getPlanByVersion env pid v s) = s"
  by (simp add: getPlanByVersion_def split: option.splits)

lemma getLatestPlan_state [simp]: "snd (getLatestPlan env pid s) = s"
  by (simp add: getLatestPlan_def split: list.splits)

lemma getPlanByVersionOrThrow_state [simp]: "snd (getPlanByVersionOrThrow env pid v s) = s"
  using getPlanByVersion_state [of env pid v s] getLatestPlan_state [of env pid s]
  by (auto simp: getPlanByVersionOrThrow_def andThen_apply simp del: getPlanByVersion_state
      getLatestPlan_state split: prod.splits sum.splits option.splits)

lemma read_keeps: "getPlanByVersionOrThrow env pid v s = (r, s') \<Longrightarrow> s' = s"
  using getPlanByVersionOrThrow_state [of env pid v s] by simp

lemma updatePlanStatus_rows:
  "\<exists>t. pd_rows (snd (updatePlanStatus env pid v u s)) = update_rows pid v u t (pd_rows s)"
  by (auto simp: updatePlanStatus_def andThen_apply read_clock_def Let_def getPlanByVersion_def
      split: option.splits prod.splits sum.splits)

lemma create_rows:
  "pd_rows (snd (createPendingPlan env inp s)) = pd_rows s \<or>
   (\<exists>pid tid t js. pd_rows (snd (createPendingPlan env inp s)) =
      pd_rows s @ [pending_row pid tid (latest_version pid (pd_rows s) + 1) (ci_userRequest inp) js t])"
  by (auto simp: createPendingPlan_def andThen_apply assertOpen_def fresh_uuid_def read_clock_def
      insert_row_def Let_def split: option.splits prod.splits sum.splits if_splits)

lemma update_ident:
  "map pw_version (filter (\<lambda>w. pw_planId w = p) (update_rows pid v u t rows)) =
   map pw_version (filter (\<lambda>w. pw_planId w = p) rows)"
  by (induction rows) (auto simp: update_rows_def set_clause_def)

lemma foldr_max_upt: "foldr max (map int [1..<Suc n]) 0 = int n"
proof -
  have "foldr max (map int [1..<Suc n]) a = max a (int n)" if "0 \<le> a" for a
    using that by (induction n arbitrary: a) auto
  then show ?thesis by simp
qed

lemma versions_ok_insert:
  assumes "versions_ok rows"
  shows "versions_ok (rows @ [pending_row pid tid (latest_version pid rows + 1) req js t])"
  unfolding versions_ok_def
proof
  fix p
  obtain n where n: "map pw_version (filter (\<lambda>w. pw_planId w = p) rows) = map int [1..<Suc n]"
    using assms unfolding versions_ok_def by blast
  show "\<exists>n. map pw_version (filter (\<lambda>w. pw_planId w = p)
      (rows @ [pending_row pid tid (latest_version pid rows + 1) req js t])) = map int [1..<Suc n]"
  proof (cases "p = pid")
    case True
    then have "latest_version pid rows = int n"
      using n foldr_max_upt [of n] by (simp add: latest_version_def del: upt_Suc)
    with n True show ?thesis by (intro exI [of _ "Suc n"]) (simp add: pending_row_def)
  next
    case False
    with n show ?thesis by (intro exI [of _ n]) (simp add: pending_row_def)
  qed
qed

lemma versions_ok_update: "versions_ok rows \<Longrightarrow> versions_ok (update_rows pid v u t rows)"
  by (simp add: versions_ok_def update_ident)

lemma system_step_ok:
  assumes "plan_system_step env x y" and "system_ok x"
  shows "system_ok y \<and> rows_evolve (pd_rows (sy_db x)) (pd_rows (sy_db y))"
  using assms
proof (induction rule: plan_system_step.induct)
  case (create inp db res db' us)
  then show ?case
    using create_rows [of env inp db] versions_ok_insert
    by (auto simp: system_ok_def)
next
  case (clock db res db' us)
  then show ?case using read_clock_rows [of env db] by (simp add: system_ok_def)
next
  case (cas_write pid v u db res db' us us')
  then have "update_allowed u" by (simp add: system_ok_def)
  moreover obtain t where "pd_rows db' = update_rows pid v u t (pd_rows db)"
    using updatePlanStatus_rows [of env pid v u db] cas_write.hyps by auto
  ultimately show ?case
    using cas_write.prems rows_evolve_update versions_ok_update by (auto simp: system_ok_def)
qed (auto simp: system_ok_def dest!: read_keeps intro: approve_allowed reject_allowed
    finish_allowed prepare_allowed)

lemma initial_system_ok: "system_ok initial_system"
  by (simp add: system_ok_def initial_system_def empty_plan_db_def versions_ok_def)
    presburger

lemma system_run_ok:
  assumes "(plan_system_step env)\<^sup>*\<^sup>* x y" and "system_ok x"
  shows "system_ok y \<and> rows_evolve (pd_rows (sy_db x)) (pd_rows (sy_db y))"
  using assms
proof (induction rule: rtranclp_induct)
  case base
  then show ?case by simp
next
  case (step y z)
  then show ?case using system_step_ok rows_evolve_trans by blast
qed

section \<open>The sequential operations are runs of the system\<close>

lemma plan_steps2:
  "\<lbrakk>plan_system_step env x y; plan_system_step env y z\<rbrakk> \<Longrightarrow> (plan_system_step env)\<^sup>*\<^sup>* x z"
  by (meson converse_rtranclp_into_rtranclp r_into_rtranclp)

lemma plan_steps3:
  "\<lbrakk>plan_system_step env x y; plan_system_step env y z; plan_system_step env z z'\<rbrakk> \<Longrightarrow>
   (plan_system_step env)\<^sup>*\<^sup>* x z'"
  by (meson converse_rtranclp_into_rtranclp plan_steps2)

definition system_of :: "plan_db \<Rightarrow> plan_system" where
  "system_of db = \<lparr>sy_db = db, sy_inflight = []\<rparr>"

lemma cas_write1: "updatePlanStatus env pid v u db = (res, db') \<Longrightarrow>
    plan_system_step env \<lparr>sy_db = db, sy_inflight = [(pid, v, u)]\<rparr> (system_of db')"
  using cas_write [of env pid v u db res db' "[]" "[]"] by (simp add: system_of_def)

lemma clock_step: "plan_system_step env \<lparr>sy_db = db, sy_inflight = us\<rparr>
    \<lparr>sy_db = snd (read_clock env db), sy_inflight = us\<rparr>"
  by (rule clock [of env _ "fst (read_clock env db)"]) simp

lemma assertOpen_cases: "assertOpen s = (Inl StoreClosed, s) \<or> assertOpen s = (Inr (), s)"
  by (simp add: assertOpen_def)

lemma approvePlan_run:
  "(plan_system_step env)\<^sup>*\<^sup>* (system_of db) (system_of (snd (approvePlan env pid v db)))"
proof (cases "assertOpen db = (Inr (), db) \<and> (\<exists>r. getPlanByVersionOrThrow env pid v db = (Inr r, db) \<and>
    approve_guard r = Inr True)")
  case True
  then obtain r where o: "assertOpen db = (Inr (), db)"
    and g: "getPlanByVersionOrThrow env pid v db = (Inr r, db)"
    and a: "approve_guard r = Inr True" by blast
  let ?t = "pe_now env (pd_clock db)" and ?db = "snd (read_clock env db)"
  have "snd (approvePlan env pid v db) = snd (updatePlanStatus env pid v (approve_update r ?t) ?db)"
    by (simp add: approvePlan_def o g a andThen_apply read_clock_def)
  then have w: "plan_system_step env \<lparr>sy_db = ?db, sy_inflight = [(pid, v, approve_update r ?t)]\<rparr>
      (system_of (snd (approvePlan env pid v db)))"
    by (intro cas_write1 [of _ _ _ _ _ "fst (updatePlanStatus env pid v (approve_update r ?t) ?db)"])
      simp
  show ?thesis
    by (rule plan_steps3 [OF read_approve [OF g a, of "[]", folded system_of_def] clock_step w])
next
  case False
  then have "snd (approvePlan env pid v db) = db"
    using assertOpen_cases [of db] read_keeps [of env pid v db]
    by (auto simp: approvePlan_def andThen_apply split: prod.splits sum.splits bool.splits)
  then show ?thesis by simp
qed

lemma rejectPlan_run:
  "(plan_system_step env)\<^sup>*\<^sup>* (system_of db) (system_of (snd (rejectPlan env pid v reason db)))"
proof (cases "assertOpen db = (Inr (), db) \<and> (\<exists>r. getPlanByVersionOrThrow env pid v db = (Inr r, db) \<and>
    reject_guard r = Inr True)")
  case True
  then obtain r where o: "assertOpen db = (Inr (), db)"
    and g: "getPlanByVersionOrThrow env pid v db = (Inr r, db)"
    and a: "reject_guard r = Inr True" by blast
  have "snd (rejectPlan env pid v reason db) =
      snd (updatePlanStatus env pid v (reject_update r reason) db)"
    by (simp add: rejectPlan_def o g a)
  then have w: "plan_system_step env \<lparr>sy_db = db, sy_inflight = [(pid, v, reject_update r reason)]\<rparr>
      (system_of (snd (rejectPlan env pid v reason db)))"
    by (intro cas_write1 [of _ _ _ _ _ "fst (updatePlanStatus env pid v (reject_update r reason) db)"])
      simp
  show ?thesis
    by (rule plan_steps2 [OF read_reject [OF g a, of "[]", folded system_of_def] w])
next
  case False
  then have "snd (rejectPlan env pid v reason db) = db"
    using assertOpen_cases [of db] read_keeps [of env pid v db]
    by (auto simp: rejectPlan_def andThen_apply split: prod.splits sum.splits bool.splits)
  then show ?thesis by simp
qed

lemma prepareExecution_run:
  "(plan_system_step env)\<^sup>*\<^sup>* (system_of db) (system_of (snd (prepareExecution env pid v sid db)))"
proof (cases "assertOpen db = (Inr (), db) \<and> (\<exists>r. getPlanByVersionOrThrow env pid v db = (Inr r, db) \<and>
    pr_status r = PsApproved \<and> findPlanStep r sid \<noteq> None)")
  case True
  then obtain r step where o: "assertOpen db = (Inr (), db)"
    and g: "getPlanByVersionOrThrow env pid v db = (Inr r, db)"
    and a: "pr_status r = PsApproved" "findPlanStep r sid = Some step" by blast
  let ?t = "pe_now env (pd_clock db)" and ?db = "snd (read_clock env db)"
  let ?u = "updatePlanStatus env pid v (prepare_update r ?t) ?db"
  have "snd (prepareExecution env pid v sid db) = snd ?u"
    by (simp add: prepareExecution_def o g a andThen_apply read_clock_def split: prod.split sum.split)
  then have w: "plan_system_step env \<lparr>sy_db = ?db, sy_inflight = [(pid, v, prepare_update r ?t)]\<rparr>
      (system_of (snd (prepareExecution env pid v sid db)))"
    by (intro cas_write1 [of _ _ _ _ _ "fst ?u"]) simp
  have s: "findPlanStep r sid \<noteq> None" by (simp add: a)
  show ?thesis
    by (rule plan_steps3 [OF read_prepare [OF g a(1) s, of "[]", folded system_of_def] clock_step w])
next
  case False
  then have "snd (prepareExecution env pid v sid db) = db"
    using assertOpen_cases [of db] read_keeps [of env pid v db]
    by (auto simp: prepareExecution_def andThen_apply split: prod.splits sum.splits option.splits)
  then show ?thesis by simp
qed

section \<open>Compare and set\<close>

lemma update_rows_twice:
  assumes "up_expected u' = up_expected u" and "up_next u \<noteq> up_expected u"
  shows "update_rows pid v u' t' (update_rows pid v u t rows) = update_rows pid v u t rows"
    and "find (cas_matches pid v u') (update_rows pid v u t rows) = None"
proof -
  have "pw_status (set_clause u t w) = up_next u" for w by (simp add: set_clause_def)
  then have hit: "\<not> cas_matches pid v u' (set_clause u t w)"
    and miss: "\<not> cas_matches pid v u w \<Longrightarrow> \<not> cas_matches pid v u' w" for w
    using assms by (simp_all add: cas_matches_def)
  show "update_rows pid v u' t' (update_rows pid v u t rows) = update_rows pid v u t rows"
    and "find (cas_matches pid v u') (update_rows pid v u t rows) = None"
    unfolding update_rows_def by (induction rows) (auto simp: hit miss)
qed

lemma edge_irrefl: "plan_edge a b \<Longrightarrow> b \<noteq> a"
  by (cases a) (auto simp: plan_edge_def)

lemma updatePlanStatus_miss:
  "find (cas_matches pid v u) (pd_rows s) = None \<Longrightarrow>
   \<exists>e. fst (updatePlanStatus env pid v u s) = Inl e"
  by (auto simp: updatePlanStatus_def andThen_apply read_clock_def Let_def split: prod.splits
      sum.splits)

section \<open>Readable rows\<close>

definition readable :: "plan_env \<Rightarrow> plan_row \<Rightarrow> bool" where
  "readable env w \<longleftrightarrow> (\<exists>r. toPlanRecord env w = Inr r)"

definition env_ok :: "plan_env \<Rightarrow> bool" where
  "env_ok env \<longleftrightarrow> pe_schemaVersion env = Some AGENT_PLAN_RECORD_SCHEMA_VERSION \<and>
     (\<forall>n. pe_isDatetime env (pe_now env n))"

lemma toPlanRecord_Inr:
  "toPlanRecord env w = Inr r \<longleftrightarrow> 1 \<le> pw_version w \<and>
     (\<exists>p. agentPlanSchema (pw_planJson w) = Some p \<and> r = record_of_row env w p) \<and>
     agentPlanRecordSchema (pe_isDatetime env) r"
  by (auto simp: toPlanRecord_def parsePlan_def Let_def split: option.splits)

lemma record_fields [simp]:
  "pr_status (record_of_row env w p) = pw_status w"
  "pr_executedAt (record_of_row env w p) = pw_executedAt w"
  "pr_version (record_of_row env w p) = pw_version w"
  "pr_plan (record_of_row env w p) = p"
  by (simp_all add: record_of_row_def)

lemma readable_update:
  assumes "readable env w" and "pe_isDatetime env t"
    and "opt_all (pe_isDatetime env) (up_approvedAt u)"
    and "opt_all (pe_isDatetime env) (up_executedAt u)"
    and "up_rejectionReason u \<noteq> Some (Some [])" and "up_errorMessage u \<noteq> Some (Some [])"
  shows "readable env (set_clause u t w) \<longleftrightarrow>
    record_refinements (up_next u)
      (nullish (up_approvedAt u) (pw_approvedAt w)) (nullish (up_executedAt u) (pw_executedAt w))
      (orElse (up_rejectionReason u) (pw_rejectionReason w))
      (orElse (up_errorMessage u) (pw_errorMessage w))"
proof -
  have schema: "agentPlanRecordSchema (pe_isDatetime env) (record_of_row env (set_clause u t w) p) \<longleftrightarrow>
    record_refinements (up_next u)
      (nullish (up_approvedAt u) (pw_approvedAt w)) (nullish (up_executedAt u) (pw_executedAt w))
      (orElse (up_rejectionReason u) (pw_rejectionReason w))
      (orElse (up_errorMessage u) (pw_errorMessage w))"
    if "agentPlanRecordSchema (pe_isDatetime env) (record_of_row env w p)" for p
    using that assms(2-6)
    by (cases "up_approvedAt u"; cases "up_executedAt u"; cases "up_rejectionReason u";
        cases "up_errorMessage u")
      (simp_all add: agentPlanRecordSchema_def record_of_row_def set_clause_def nullish_def
        orElse_def opt_all_def)
  have "pw_version (set_clause u t w) = pw_version w"
    "pw_planJson (set_clause u t w) = pw_planJson w"
    by (simp_all add: set_clause_def)
  with assms(1) schema show ?thesis unfolding readable_def toPlanRecord_Inr by auto
qed

lemma readable_refinements:
  "readable env w \<Longrightarrow> record_refinements (pw_status w) (pw_approvedAt w) (pw_executedAt w)
     (pw_rejectionReason w) (pw_errorMessage w)"
  by (auto simp: readable_def toPlanRecord_Inr agentPlanRecordSchema_def record_of_row_def)

lemma nonEmptyString_ne: "nonEmptyString v \<noteq> Some []"
  by (auto simp: nonEmptyString_def Let_def split: option.splits)

section \<open>A transition on a readable row\<close>

lemma select_cas:
  "\<lbrakk>select_version pid v rows = Some w; pw_status w = up_expected u\<rbrakk> \<Longrightarrow>
   find (cas_matches pid v u) rows = Some w \<and>
   select_version pid v (update_rows pid v u t rows) = Some (set_clause u t w)"
  by (induction rows)
    (auto simp: select_version_def update_rows_def cas_matches_def set_clause_def split: if_splits)

lemma update_hit:
  assumes "select_version pid v (pd_rows s) = Some w" and "pw_status w = up_expected u"
  shows "fst (updatePlanStatus env pid v u s) =
      toPlanRecord env (set_clause u (pe_now env (pd_clock s)) w)"
    and "select_version pid v (pd_rows (snd (updatePlanStatus env pid v u s))) =
      Some (set_clause u (pe_now env (pd_clock s)) w)"
    and "pd_closed (snd (updatePlanStatus env pid v u s)) = pd_closed s"
  using select_cas [OF assms]
  by (simp_all add: updatePlanStatus_def andThen_apply read_clock_def Let_def)

lemma read_hit:
  assumes "select_version pid v (pd_rows s) = Some w" and "toPlanRecord env w = Inr r"
  shows "getPlanByVersionOrThrow env pid v s = (Inr r, s)"
  using assms by (simp add: getPlanByVersionOrThrow_def getPlanByVersion_def andThen_apply)

lemma readableE:
  assumes "readable env w"
  obtains r where "toPlanRecord env w = Inr r" and "pr_status r = pw_status w"
    and "pr_executedAt r = pw_executedAt w" and "pr_version r = pw_version w"
    and "agentPlanSchema (pw_planJson w) = Some (pr_plan r)"
proof -
  from assms obtain r p where r: "toPlanRecord env w = Inr r" "r = record_of_row env w p"
    "agentPlanSchema (pw_planJson w) = Some p"
    by (auto simp: readable_def toPlanRecord_Inr)
  then show thesis by (intro that [of r]) simp_all
qed

lemma readable_iff: "readable env w \<longleftrightarrow> \<not> isl (toPlanRecord env w)"
  by (cases "toPlanRecord env w") (auto simp: readable_def)

text \<open>What \<open>createPendingPlan\<close> and the transitions do when the record can be read.\<close>

lemma approve_hit:
  assumes "env_ok env" and "\<not> pd_closed s" and "select_version pid v (pd_rows s) = Some w"
    and "readable env w" and "pw_status w = PsPendingApproval"
  obtains r w' where "fst (approvePlan env pid v s) = Inr r" and "pr_status r = PsApproved"
    and "select_version pid v (pd_rows (snd (approvePlan env pid v s))) = Some w'"
    and "readable env w'" and "pw_status w' = PsApproved" and "pw_planJson w' = pw_planJson w"
    and "\<not> pd_closed (snd (approvePlan env pid v s))"
proof -
  obtain r where r: "toPlanRecord env w = Inr r" "pr_status r = pw_status w"
    using assms(4) by (rule readableE)
  let ?t = "pe_now env (pd_clock s)" and ?s = "snd (read_clock env s)"
  let ?u = "approve_update r ?t"
  let ?w = "set_clause ?u (pe_now env (pd_clock ?s)) w"
  have eq: "approvePlan env pid v s = updatePlanStatus env pid v ?u ?s"
    using assms(2,5) r read_hit [OF assms(3) r(1)]
    by (simp add: approvePlan_def assertOpen_def andThen_apply approve_guard_def read_clock_def)
  have sel: "select_version pid v (pd_rows ?s) = Some w" using assms(3) by simp
  have st: "pw_status w = up_expected ?u" by (simp add: approve_update_def r)
  note hit = update_hit [OF sel st, of env]
  have "readable env ?w"
    using assms(1,5) readable_refinements [OF assms(4)]
    by (subst readable_update [OF assms(4)])
      (auto simp: env_ok_def approve_update_def opt_all_def nullish_def orElse_def
        record_refinements_def POST_APPROVAL_def POST_EXECUTION_def)
  moreover from this obtain r' where "toPlanRecord env ?w = Inr r'" "pr_status r' = PsApproved"
    by (rule readableE) (simp add: set_clause_def approve_update_def)
  ultimately show thesis
    using hit assms(2) unfolding eq [symmetric]
    by (intro that [of r' ?w]) (simp_all add: set_clause_def approve_update_def read_clock_def)
qed

lemma reject_hit:
  assumes "env_ok env" and "\<not> pd_closed s" and "select_version pid v (pd_rows s) = Some w"
    and "readable env w" and "pw_status w \<in> {PsDraft, PsPendingApproval, PsApproved}"
  obtains w' where "fst (rejectPlan env pid v reason s) = toPlanRecord env w'"
    and "select_version pid v (pd_rows (snd (rejectPlan env pid v reason s))) = Some w'"
    and "pw_status w' = PsRejected"
    and "readable env w' \<longleftrightarrow> pw_status w \<noteq> PsApproved \<and> nonEmptyString reason \<noteq> None"
proof -
  obtain r where r: "toPlanRecord env w = Inr r" "pr_status r = pw_status w"
    using assms(4) by (rule readableE)
  let ?u = "reject_update r reason"
  let ?w = "set_clause ?u (pe_now env (pd_clock s)) w"
  have eq: "rejectPlan env pid v reason s = updatePlanStatus env pid v ?u s"
    using assms(2,5) r read_hit [OF assms(3) r(1)]
    by (auto simp: rejectPlan_def assertOpen_def andThen_apply reject_guard_def)
  have st: "pw_status w = up_expected ?u" by (simp add: reject_update_def r)
  note hit = update_hit [OF assms(3) st, of env]
  have "readable env ?w \<longleftrightarrow> pw_status w \<noteq> PsApproved \<and> nonEmptyString reason \<noteq> None"
    using assms(1,5) readable_refinements [OF assms(4)] nonEmptyString_ne [of reason]
    by (subst readable_update [OF assms(4)])
      (auto simp: env_ok_def reject_update_def opt_all_def nullish_def orElse_def
        record_refinements_def POST_APPROVAL_def POST_EXECUTION_def)
  with hit show thesis
    unfolding eq [symmetric]
    by (intro that [of ?w]) (simp_all add: set_clause_def reject_update_def)
qed

lemma finish_hit:
  assumes "env_ok env" and "\<not> pd_closed s" and "select_version pid v (pd_rows s) = Some w"
    and "readable env w" and "\<not> final_status (pw_status w)"
  obtains w' where "fst (finishPlan env pid v failed err s) = toPlanRecord env w'"
    and "select_version pid v (pd_rows (snd (finishPlan env pid v failed err s))) = Some w'"
    and "pw_status w' = finish_status failed"
    and "readable env w' \<longleftrightarrow> pw_status w \<in> {PsApproved, PsExecuting} \<and>
      (failed \<longrightarrow> nonEmptyString err \<noteq> None)"
proof -
  obtain r where r: "toPlanRecord env w = Inr r" "pr_status r = pw_status w"
    "pr_executedAt r = pw_executedAt w"
    using assms(4) by (rule readableE)
  obtain t s' where t: "(case pr_executedAt r of Some t \<Rightarrow> ret t | None \<Rightarrow> read_clock env) s =
      (Inr t, s')" and s': "pd_rows s' = pd_rows s" "pd_closed s' = pd_closed s"
    and isdt: "pe_isDatetime env t"
  proof (cases "pr_executedAt r")
    case None
    with assms(1) show ?thesis
      by (intro that [of "pe_now env (pd_clock s)" "snd (read_clock env s)"])
        (auto simp: read_clock_def env_ok_def)
  next
    case (Some t)
    have "opt_all (pe_isDatetime env) (pw_executedAt w)"
      using assms(4) by (auto simp: readable_def toPlanRecord_Inr agentPlanRecordSchema_def
          record_of_row_def)
    with Some r(3) show ?thesis by (intro that [of t s]) (auto simp: opt_all_def)
  qed
  let ?u = "finish_update failed err r t"
  let ?w = "set_clause ?u (pe_now env (pd_clock s')) w"
  have "finish_guard failed r = Inr True"
    using assms(5) r(2) by (cases "pw_status w"; cases failed)
      (auto simp: finish_guard_def finish_status_def final_status_def)
  then have eq: "finishPlan env pid v failed err s = updatePlanStatus env pid v ?u s'"
    using assms(2) t read_hit [OF assms(3) r(1)]
    by (simp add: finishPlan_def assertOpen_def andThen_apply)
  have sel: "select_version pid v (pd_rows s') = Some w" using assms(3) s' by simp
  have st: "pw_status w = up_expected ?u" by (simp add: finish_update_def r)
  note hit = update_hit [OF sel st, of env]
  have "readable env ?w \<longleftrightarrow> pw_status w \<in> {PsApproved, PsExecuting} \<and>
      (failed \<longrightarrow> nonEmptyString err \<noteq> None)"
    using assms(1,5) readable_refinements [OF assms(4)] nonEmptyString_ne [of err] isdt
    by (subst readable_update [OF assms(4)]; cases "pw_status w"; cases failed)
      (auto simp: env_ok_def finish_update_def finish_status_def opt_all_def nullish_def orElse_def
        record_refinements_def POST_APPROVAL_def POST_EXECUTION_def final_status_def)
  with hit show thesis
    unfolding eq [symmetric]
    by (intro that [of ?w]) (simp_all add: set_clause_def finish_update_def)
qed

lemma create_hit:
  assumes "env_ok env" and "\<not> pd_closed s" and "plan_valid (ci_plan inp)"
    and "nonEmptyString (ci_planId inp) = Some pid" and "versions_ok (pd_rows s)"
    and "is_safe_integer (latest_version pid (pd_rows s) + 1)"
  obtains r w where "fst (createPendingPlan env inp s) = Inr r"
    and "pr_status r = PsPendingApproval" and "pr_version r = latest_version pid (pd_rows s) + 1"
    and "select_version pid (latest_version pid (pd_rows s) + 1)
      (pd_rows (snd (createPendingPlan env inp s))) = Some w"
    and "readable env w" and "pw_status w = PsPendingApproval"
    and "agentPlanSchema (pw_planJson w) = Some (ci_plan inp)"
    and "\<not> pd_closed (snd (createPendingPlan env inp s))"
proof -
  let ?v = "latest_version pid (pd_rows s) + 1"
  let ?tid = "orElse (nonEmptyString (Some (ci_threadId inp))) pid"
  let ?w = "pending_row pid ?tid ?v (ci_userRequest inp) (plan_to_json (ci_plan inp))
     (pe_now env (pd_clock s))"
  obtain n where n: "map pw_version (filter (\<lambda>w. pw_planId w = pid) (pd_rows s)) = map int [1..<Suc n]"
    using assms(5) unfolding versions_ok_def by blast
  then have lv: "latest_version pid (pd_rows s) = int n"
    using foldr_max_upt [of n] by (simp add: latest_version_def del: upt_Suc)
  have "\<forall>w \<in> set (pd_rows s). \<not> (pw_planId w = pid \<and> pw_version w = ?v)"
  proof (intro ballI notI)
    fix w assume w: "w \<in> set (pd_rows s)" "pw_planId w = pid \<and> pw_version w = ?v"
    then have "w \<in> set (filter (\<lambda>w. pw_planId w = pid) (pd_rows s))" by simp
    then have "pw_version w \<in> set (map pw_version (filter (\<lambda>w. pw_planId w = pid) (pd_rows s)))"
      unfolding list.set_map by (rule imageI)
    with w lv show False unfolding n by auto
  qed
  then have new: "find (\<lambda>w. pw_planId w = pid \<and> pw_version w = ?v) (pd_rows s) = None"
    by (simp add: find_None_iff)
  have find_snoc: "find P xs = None \<Longrightarrow> find P (xs @ [x]) = (if P x then Some x else None)" for P xs and x :: plan_row
    by (induction xs) (auto split: if_splits)
  have ne: "pid \<noteq> []" "?tid \<noteq> []"
    using assms(4) nonEmptyString_ne by (auto simp: orElse_def split: option.splits)
  have rec: "agentPlanRecordSchema (pe_isDatetime env) (record_of_row env ?w (ci_plan inp))"
    using assms(1,3,6) ne lv
    by (simp add: agentPlanRecordSchema_def record_of_row_def pending_row_def env_ok_def opt_all_def
        record_refinements_def POST_APPROVAL_def POST_EXECUTION_def)
  have js: "agentPlanSchema (pw_planJson ?w) = Some (ci_plan inp)"
    using plan_round_trip [OF assms(3)] by (simp add: pending_row_def)
  have r: "toPlanRecord env ?w = Inr (record_of_row env ?w (ci_plan inp))"
    unfolding toPlanRecord_Inr using js rec lv by (simp add: pending_row_def)
  have eq: "createPendingPlan env inp s =
      (toPlanRecord env ?w, insert_row ?w (snd (read_clock env s)))"
    using assms(2-4)
    by (simp add: createPendingPlan_def andThen_apply assertOpen_def serializePlan_def
        read_clock_def Let_def)
  show thesis
  proof (rule that)
    show "fst (createPendingPlan env inp s) = Inr (record_of_row env ?w (ci_plan inp))"
      by (simp add: eq r)
    show "readable env ?w" using r by (auto simp: readable_def)
    show "agentPlanSchema (pw_planJson ?w) = Some (ci_plan inp)" by (rule js)
    show "select_version pid ?v (pd_rows (snd (createPendingPlan env inp s))) = Some ?w"
      using find_snoc [OF new, of ?w]
      by (simp add: eq insert_row_def select_version_def) (simp add: pending_row_def)
    show "\<not> pd_closed (snd (createPendingPlan env inp s))"
      using assms(2) by (simp add: eq insert_row_def read_clock_def)
  qed (simp_all add: pending_row_def)
qed

lemma prepare_hit:
  assumes "env_ok env" and "\<not> pd_closed s" and "select_version pid v (pd_rows s) = Some w"
    and "readable env w" and "pw_status w = PsApproved"
    and "agentPlanSchema (pw_planJson w) = Some p" and "find (\<lambda>x. st_id x = sid) (pl_steps p) = Some step"
  obtains r w' where "fst (prepareExecution env pid v sid s) = Inr (r, step)"
    and "pr_status r = PsExecuting"
    and "select_version pid v (pd_rows (snd (prepareExecution env pid v sid s))) = Some w'"
    and "readable env w'" and "pw_status w' = PsExecuting"
    and "\<not> pd_closed (snd (prepareExecution env pid v sid s))"
proof -
  obtain r where r: "toPlanRecord env w = Inr r" "pr_status r = pw_status w"
    "agentPlanSchema (pw_planJson w) = Some (pr_plan r)"
    using assms(4) by (rule readableE)
  let ?t = "pe_now env (pd_clock s)" and ?s = "snd (read_clock env s)"
  let ?u = "prepare_update r ?t"
  let ?w = "set_clause ?u (pe_now env (pd_clock ?s)) w"
  have step: "findPlanStep r sid = Some step" using r(3) assms(6,7) by (simp add: findPlanStep_def)
  have eq: "prepareExecution env pid v sid s =
      andThen (updatePlanStatus env pid v ?u) (\<lambda>r'. ret (r', step)) ?s"
    using assms(2,5) r step read_hit [OF assms(3) r(1)]
    by (simp add: prepareExecution_def assertOpen_def andThen_apply read_clock_def)
  have sel: "select_version pid v (pd_rows ?s) = Some w" using assms(3) by simp
  have st: "pw_status w = up_expected ?u" by (simp add: prepare_update_def r)
  note hit = update_hit [OF sel st, of env]
  have rd: "readable env ?w"
    using assms(1,5) readable_refinements [OF assms(4)]
    by (subst readable_update [OF assms(4)])
      (auto simp: env_ok_def prepare_update_def opt_all_def nullish_def orElse_def
        record_refinements_def POST_APPROVAL_def POST_EXECUTION_def)
  then obtain r' where r': "toPlanRecord env ?w = Inr r'" "pr_status r' = PsExecuting"
    by (rule readableE) (simp add: set_clause_def prepare_update_def)
  obtain s' where s': "updatePlanStatus env pid v ?u ?s = (Inr r', s')"
    using hit(1) r'(1) by (cases "updatePlanStatus env pid v ?u ?s") simp
  then have run: "prepareExecution env pid v sid s = (Inr (r', step), s')" by (simp add: eq)
  show thesis
  proof (rule that [of r' ?w])
    show "select_version pid v (pd_rows (snd (prepareExecution env pid v sid s))) = Some ?w"
      using hit(2) by (simp add: run s')
    show "\<not> pd_closed (snd (prepareExecution env pid v sid s))"
      using hit(3) assms(2) unfolding s' by (simp add: run read_clock_def)
    show "readable env ?w" by (rule rd)
    show "pw_status ?w = PsExecuting" by (simp add: set_clause_def prepare_update_def)
  qed (simp_all add: run r')
qed

section \<open>Properties\<close>

lemma executing_ends:
  assumes "plan_edge\<^sup>*\<^sup>* PsExecuting b"
  shows "b = PsExecuting \<or> b = PsCompleted \<or> b = PsFailed"
  using assms by (induction rule: rtranclp_induct) (auto simp: plan_edge_def)

text \<open>C7: However transitions interleave, between two points of a run every row keeps its
  identity, its status moves along the allowed edges only, a rejected, completed or failed plan is
  never written again, and the versions of each plan are 1, 2, ..., n in insertion order. In
  particular a plan that is being executed stays so until it is completed or has failed: it never goes
  back to \<open>approved\<close>, as a comment of the schema says it does when its workflow is cancelled. This
  holds with and without the schema version that the code forgets to supply.\<close>

theorem plan_status_history:
  assumes "(plan_system_step env)\<^sup>*\<^sup>* initial_system x" and "(plan_system_step env)\<^sup>*\<^sup>* x y"
  shows "rows_evolve (pd_rows (sy_db x)) (pd_rows (sy_db y)) \<and> versions_ok (pd_rows (sy_db y)) \<and>
    (\<forall>i < length (pd_rows (sy_db x)). pw_status (pd_rows (sy_db x) ! i) = PsExecuting \<longrightarrow>
      pw_status (pd_rows (sy_db y) ! i) \<in> {PsExecuting, PsCompleted, PsFailed})"
proof -
  have "system_ok x" using system_run_ok [OF assms(1) initial_system_ok] by simp
  then have "rows_evolve (pd_rows (sy_db x)) (pd_rows (sy_db y))" "versions_ok (pd_rows (sy_db y))"
    using system_run_ok [OF assms(2)] by (simp_all add: system_ok_def)
  then show ?thesis by (auto simp: rows_evolve_def row_evolves_def dest!: spec executing_ends)
qed

definition example_env :: plan_env where
  "example_env = \<lparr>pe_now = (\<lambda>n. [n]), pe_uuid = (\<lambda>n. [n]), pe_isDatetime = (\<lambda>_. True),
     pe_schemaVersion = Some 1\<rparr>"

definition example_input :: create_input where
  "example_input = \<lparr>ci_planId = Some [112], ci_threadId = [116], ci_userRequest = [],
     ci_plan = example_plan\<rparr>"

lemma example_env_ok [simp]: "env_ok example_env"
  by (simp add: env_ok_def example_env_def AGENT_PLAN_RECORD_SCHEMA_VERSION_def)

lemma example_plan_valid [simp]: "plan_valid example_plan"
  by (simp add: example_defs plan_valid_def step_valid_def strings_valid_def)

text \<open>C38: Of two decided transitions of one plan version that expect the same status, whichever
  update runs first, the second one throws and leaves every row as it is.\<close>

theorem plan_cas_single_winner:
  assumes "update_allowed u" and "up_expected u' = up_expected u"
    and "updatePlanStatus env pid v u s = (res, s')"
    and "updatePlanStatus env pid v u' s' = (res', s'')"
    and "pd_rows s' \<noteq> pd_rows s"
  shows "pd_rows s'' = pd_rows s' \<and> isl res'"
proof -
  have ne: "up_next u \<noteq> up_expected u"
    using assms(1) by (auto simp: update_allowed_def dest: edge_irrefl)
  obtain t where t: "pd_rows s' = update_rows pid v u t (pd_rows s)"
    using updatePlanStatus_rows [of env pid v u s] assms(3) by auto
  obtain t' where t': "pd_rows s'' = update_rows pid v u' t' (pd_rows s')"
    using updatePlanStatus_rows [of env pid v u' s'] assms(4) by auto
  have "find (cas_matches pid v u') (pd_rows s') = None"
    unfolding t by (rule update_rows_twice(2) [OF assms(2) ne])
  then have "\<exists>e. res' = Inl e" using updatePlanStatus_miss [of pid v u' s' env] assms(4) by simp
  moreover have "pd_rows s'' = pd_rows s'"
    unfolding t' unfolding t by (rule update_rows_twice(1) [OF assms(2) ne])
  ultimately show ?thesis by auto
qed

definition example_db :: plan_db where
  "example_db = \<lparr>pd_rows = [pending_row [112] [116] 1 [] JNull [0]], pd_closed = False,
     pd_clock = 1, pd_uuids = 0\<rparr>"

definition example_record :: plan_record where
  "example_record = record_of_row example_env (pending_row [112] [116] 1 [] JNull [0]) example_plan"

theorem plan_cas_single_winner_witness:
  "pd_rows (snd (updatePlanStatus example_env [112] 1 (reject_update example_record None)
     (snd (updatePlanStatus example_env [112] 1 (approve_update example_record [5]) example_db)))) =
   pd_rows (snd (updatePlanStatus example_env [112] 1 (approve_update example_record [5]) example_db))"
proof -
  let ?u = "approve_update example_record [5]" and ?u' = "reject_update example_record None"
  have 1: "update_allowed ?u"
    by (simp add: approve_update_def example_record_def pending_row_def update_allowed_def
        plan_edge_def)
  have 2: "up_expected ?u' = up_expected ?u" by (simp add: approve_update_def reject_update_def)
  have 3: "pd_rows (snd (updatePlanStatus example_env [112] 1 ?u example_db)) \<noteq> pd_rows example_db"
    by (simp add: updatePlanStatus_def andThen_apply read_clock_def example_db_def Let_def
        pending_row_def update_rows_def cas_matches_def set_clause_def approve_update_def
        example_record_def record_of_row_def)
  show ?thesis
    using plan_cas_single_winner [OF 1 2 prod.collapse [symmetric] prod.collapse [symmetric] 3]
    by blast
qed

text \<open>The code gives \<open>agentPlanRecordSchema\<close> no \<open>schemaVersion\<close>, which the schema
  requires. So no row can be read back: creating a valid plan stores the row and throws, and every
  other operation on a stored plan throws and changes nothing.\<close>

theorem plan_store_cannot_read_its_rows:
  assumes "pe_schemaVersion env = None" and "\<not> pd_closed s"
  shows "(plan_valid (ci_plan inp) \<longrightarrow>
      isl (fst (createPendingPlan env inp s)) \<and>
      length (pd_rows (snd (createPendingPlan env inp s))) = Suc (length (pd_rows s))) \<and>
    isl (fst (getPlan env pid ver s)) \<and>
    (\<forall>w \<in> set (pd_rows s). pw_planId w = pid \<longrightarrow> isl (fst (listPlanVersions env pid s))) \<and>
    isl (fst (approvePlan env pid v s)) \<and> pd_rows (snd (approvePlan env pid v s)) = pd_rows s \<and>
    isl (fst (rejectPlan env pid v reason s)) \<and>
    pd_rows (snd (rejectPlan env pid v reason s)) = pd_rows s \<and>
    isl (fst (finishPlan env pid v failed err s)) \<and>
    pd_rows (snd (finishPlan env pid v failed err s)) = pd_rows s \<and>
    isl (fst (prepareExecution env pid v sid s)) \<and>
    pd_rows (snd (prepareExecution env pid v sid s)) = pd_rows s"
proof -
  have unreadable: "\<exists>e. toPlanRecord env w = Inl e" for w
  proof (cases "toPlanRecord env w")
    case (Inr r)
    then show ?thesis
      using assms(1) by (auto simp: toPlanRecord_Inr agentPlanRecordSchema_def record_of_row_def)
  qed auto
  have no_record: "map_sum id Some (toPlanRecord env w) \<noteq> Inr x" for w x
    using unreadable [of w] by auto
  have read: "\<exists>e. getPlanByVersionOrThrow env pid v s = (Inl e, s)" for v
  proof -
    have "isl (fst (getPlanByVersionOrThrow env pid v s))"
      using unreadable
      by (auto simp: getPlanByVersionOrThrow_def getPlanByVersion_def getLatestPlan_def
          andThen_apply split: option.splits list.splits prod.splits sum.splits)
        (metis sum.distinct(1) map_sum.simps(1) old.sum.inject(1))+
    then show ?thesis
      using read_keeps [of env pid v s]
      by (cases "getPlanByVersionOrThrow env pid v s") (auto simp: isl_def)
  qed
  have create: "isl (fst (createPendingPlan env inp s)) \<and>
      length (pd_rows (snd (createPendingPlan env inp s))) = Suc (length (pd_rows s))"
    if "plan_valid (ci_plan inp)"
    using unreadable that assms(2)
    by (auto simp: createPendingPlan_def andThen_apply assertOpen_def fresh_uuid_def read_clock_def
        insert_row_def Let_def serializePlan_def isl_def split: option.splits)
  have latest: "isl (fst (getPlan env pid ver s))"
  proof -
    have "isl (fst (andThen (getLatestPlan env pid) (\<lambda>l. case l of
        Some rec \<Rightarrow> ret rec | None \<Rightarrow> throw PlanNotFound) s))"
      using unreadable
      by (cases "select_versions pid (pd_rows s)")
        (auto simp: getLatestPlan_def andThen_apply isl_def no_record split: sum.splits prod.splits)
    moreover have "isl (fst (getPlanByVersionOrThrow env pid (the ver) s))"
      using read [of "the ver"] by auto
    moreover have "assertOpen s = (Inr (), s)" using assms(2) by (simp add: assertOpen_def)
    ultimately show ?thesis by (simp add: getPlan_def)
  qed
  have list: "isl (fst (listPlanVersions env pid s))"
    if "w \<in> set (pd_rows s)" "pw_planId w = pid" for w
  proof -
    have "w \<in> set (select_versions pid (pd_rows s))"
      using that by (simp add: select_versions_def)
    then obtain x xs where "select_versions pid (pd_rows s) = x # xs"
      by (cases "select_versions pid (pd_rows s)") auto
    then show ?thesis using unreadable [of x] assms(2)
      by (auto simp: listPlanVersions_def assertOpen_def andThen_apply)
  qed
  obtain e where e: "getPlanByVersionOrThrow env pid v s = (Inl e, s)" using read by blast
  have o: "assertOpen s = (Inr (), s)" using assms(2) by (simp add: assertOpen_def)
  show ?thesis
    using create latest list
    by (auto simp: approvePlan_def rejectPlan_def finishPlan_def prepareExecution_def o e)
qed

theorem plan_store_cannot_read_its_rows_witness:
  "isl (fst (createPendingPlan (example_env\<lparr>pe_schemaVersion := None\<rparr>) example_input empty_plan_db)) \<and>
   length (pd_rows (snd (createPendingPlan (example_env\<lparr>pe_schemaVersion := None\<rparr>) example_input
     empty_plan_db))) = 1"
  using plan_store_cannot_read_its_rows [of "example_env\<lparr>pe_schemaVersion := None\<rparr>" empty_plan_db
      example_input]
  by (simp add: empty_plan_db_def example_input_def)

text \<open>With the key supplied, rejecting a readable plan leaves a record that can never be read
  again when no reason is given or the plan was already approved, although the guard lets both
  through; the call then throws after the row has been written.\<close>

theorem reject_readable_iff:
  assumes "env_ok env" and "\<not> pd_closed s" and "select_version pid v (pd_rows s) = Some w"
    and "readable env w" and "pw_status w \<in> {PsDraft, PsPendingApproval, PsApproved}"
  shows "\<exists>w'. select_version pid v (pd_rows (snd (rejectPlan env pid v reason s))) = Some w' \<and>
    pw_status w' = PsRejected \<and> isl (fst (rejectPlan env pid v reason s)) = (\<not> readable env w') \<and>
    (readable env w' \<longleftrightarrow> pw_status w \<noteq> PsApproved \<and> nonEmptyString reason \<noteq> None)"
  by (rule reject_hit [OF assms, of reason]) (auto simp: readable_iff)

text \<open>With the key supplied, finishing a readable, unfinished plan leaves a readable record
  exactly when the plan was approved or executing and a failure comes with a message; a plan that
  waits for approval can be finished, which makes its record unreadable.\<close>

theorem finish_readable_iff:
  assumes "env_ok env" and "\<not> pd_closed s" and "select_version pid v (pd_rows s) = Some w"
    and "readable env w" and "\<not> final_status (pw_status w)"
  shows "\<exists>w'. select_version pid v (pd_rows (snd (finishPlan env pid v failed err s))) = Some w' \<and>
    pw_status w' = finish_status failed \<and>
    isl (fst (finishPlan env pid v failed err s)) = (\<not> readable env w') \<and>
    (readable env w' \<longleftrightarrow> pw_status w \<in> {PsApproved, PsExecuting} \<and>
       (failed \<longrightarrow> nonEmptyString err \<noteq> None))"
  by (rule finish_hit [OF assms, of failed err]) (auto simp: readable_iff)

text \<open>With the key supplied the intended life of a plan succeeds: create, approve, start one
  of its steps and complete, each call returning the record with the new status.\<close>

theorem plan_lifecycle:
  assumes "env_ok env" and "\<not> pd_closed s" and "plan_valid (ci_plan inp)"
    and "nonEmptyString (ci_planId inp) = Some pid" and "versions_ok (pd_rows s)"
    and "is_safe_integer (latest_version pid (pd_rows s) + 1)"
    and "findPlanStep (record_of_row env w0 (ci_plan inp)) sid = Some step"
    and "v = latest_version pid (pd_rows s) + 1"
    and "s1 = snd (createPendingPlan env inp s)" and "s2 = snd (approvePlan env pid v s1)"
    and "s3 = snd (prepareExecution env pid v sid s2)"
  shows "\<exists>r1 r2 r3 r4. fst (createPendingPlan env inp s) = Inr r1 \<and>
    pr_status r1 = PsPendingApproval \<and> pr_version r1 = v \<and>
    fst (approvePlan env pid v s1) = Inr r2 \<and> pr_status r2 = PsApproved \<and>
    fst (prepareExecution env pid v sid s2) = Inr (r3, step) \<and> pr_status r3 = PsExecuting \<and>
    fst (finishPlan env pid v False None s3) = Inr r4 \<and> pr_status r4 = PsCompleted"
proof -
  obtain r1 w1 where 1: "fst (createPendingPlan env inp s) = Inr r1" "pr_status r1 = PsPendingApproval"
    "pr_version r1 = v" "select_version pid v (pd_rows s1) = Some w1" "readable env w1"
    "pw_status w1 = PsPendingApproval" "agentPlanSchema (pw_planJson w1) = Some (ci_plan inp)"
    "\<not> pd_closed s1"
    unfolding assms(8,9) using create_hit [OF assms(1-6)] by metis
  obtain r2 w2 where 2: "fst (approvePlan env pid v s1) = Inr r2" "pr_status r2 = PsApproved"
    "select_version pid v (pd_rows s2) = Some w2" "readable env w2" "pw_status w2 = PsApproved"
    "pw_planJson w2 = pw_planJson w1" "\<not> pd_closed s2"
    unfolding assms(10) using approve_hit [OF assms(1) 1(8,4,5,6)] by metis
  have step: "find (\<lambda>x. st_id x = sid) (pl_steps (ci_plan inp)) = Some step"
    using assms(7) by (simp add: findPlanStep_def)
  obtain r3 w3 where 3: "fst (prepareExecution env pid v sid s2) = Inr (r3, step)"
    "pr_status r3 = PsExecuting" "select_version pid v (pd_rows s3) = Some w3" "readable env w3"
    "pw_status w3 = PsExecuting" "\<not> pd_closed s3"
    unfolding assms(11)
    using prepare_hit [OF assms(1) 2(7,3,4,5) 1(7) [folded 2(6)] step] by metis
  have "\<not> final_status (pw_status w3)" by (simp add: 3 final_status_def)
  then obtain w4 where 4: "fst (finishPlan env pid v False None s3) = toPlanRecord env w4"
    "pw_status w4 = finish_status False" "readable env w4"
    using finish_hit [OF assms(1) 3(6,3,4), of False None] 3(5) by auto
  from 4(3) obtain r4 where "toPlanRecord env w4 = Inr r4" "pr_status r4 = pw_status w4"
    by (rule readableE)
  with 1 2 3 4 show ?thesis by (auto simp: finish_status_def)
qed

lemma example_pid: "nonEmptyString (ci_planId example_input) = Some [112]"
  by (simp add: nonEmptyString_def example_input_def trim_def is_js_space_def)

lemma example_start:
  obtains w where "select_version [112] 1
      (pd_rows (snd (createPendingPlan example_env example_input empty_plan_db))) = Some w"
    and "readable example_env w" and "pw_status w = PsPendingApproval"
    and "\<not> pd_closed (snd (createPendingPlan example_env example_input empty_plan_db))"
    and "agentPlanSchema (pw_planJson w) = Some example_plan"
proof -
  have v: "versions_ok (pd_rows empty_plan_db)"
    using initial_system_ok by (simp add: system_ok_def initial_system_def)
  have l: "latest_version [112] (pd_rows empty_plan_db) = 0"
    by (simp add: latest_version_def empty_plan_db_def)
  have p: "plan_valid (ci_plan example_input)" by (simp add: example_input_def)
  have c: "\<not> pd_closed empty_plan_db" by (simp add: empty_plan_db_def)
  have i: "is_safe_integer (latest_version [112] (pd_rows empty_plan_db) + 1)"
    by (simp add: l is_safe_integer_def max_safe_integer_def)
  show thesis
    using create_hit [OF example_env_ok c p example_pid v i] that by (metis l add_0 create_input.select_convs(4) example_input_def)
qed

theorem reject_readable_iff_witness:
  "\<exists>w'. select_version [112] 1 (pd_rows (snd (rejectPlan example_env [112] 1 None
      (snd (createPendingPlan example_env example_input empty_plan_db))))) = Some w' \<and>
    pw_status w' = PsRejected \<and> \<not> readable example_env w'"
proof (rule example_start)
  let ?s = "snd (createPendingPlan example_env example_input empty_plan_db)"
  fix w assume w: "select_version [112] 1 (pd_rows ?s) = Some w" "readable example_env w"
    "pw_status w = PsPendingApproval" "\<not> pd_closed ?s"
  then show ?thesis
    using reject_readable_iff [OF example_env_ok w(4) w(1) w(2), of None]
    by (auto simp: nonEmptyString_def)
qed

theorem finish_readable_iff_witness:
  "\<exists>w'. select_version [112] 1 (pd_rows (snd (finishPlan example_env [112] 1 False None
      (snd (createPendingPlan example_env example_input empty_plan_db))))) = Some w' \<and>
    pw_status w' = PsCompleted \<and> \<not> readable example_env w'"
proof (rule example_start)
  let ?s = "snd (createPendingPlan example_env example_input empty_plan_db)"
  fix w assume w: "select_version [112] 1 (pd_rows ?s) = Some w" "readable example_env w"
    "pw_status w = PsPendingApproval" "\<not> pd_closed ?s"
  then have f: "\<not> final_status (pw_status w)" by (simp add: final_status_def)
  show ?thesis
    using finish_readable_iff [OF example_env_ok w(4) w(1) w(2) f, of False None] w(3)
    by (auto simp: finish_status_def)
qed

theorem plan_lifecycle_witness:
  "\<exists>r. fst (approvePlan example_env [112] 1
      (snd (createPendingPlan example_env example_input empty_plan_db))) = Inr r \<and>
    pr_status r = PsApproved"
proof -
  have v: "versions_ok (pd_rows empty_plan_db)"
    using initial_system_ok by (simp add: system_ok_def initial_system_def)
  have l: "latest_version [112] (pd_rows empty_plan_db) = 0"
    by (simp add: latest_version_def empty_plan_db_def)
  have p: "plan_valid (ci_plan example_input)" by (simp add: example_input_def)
  have c: "\<not> pd_closed empty_plan_db" by (simp add: empty_plan_db_def)
  have i: "is_safe_integer (latest_version [112] (pd_rows empty_plan_db) + 1)"
    by (simp add: l is_safe_integer_def max_safe_integer_def)
  have f: "findPlanStep (record_of_row example_env (pending_row [] [] 1 [] JNull [])
      (ci_plan example_input)) [2] = Some (example_step [2])"
    by (simp add: findPlanStep_def example_input_def example_plan_def example_step_def)
  have one: "1 = latest_version [112] (pd_rows empty_plan_db) + 1" by (simp add: l)
  from plan_lifecycle [OF example_env_ok c p example_pid v i f one refl refl refl]
  show ?thesis by blast
qed

text \<open>A plan is created, approved and put to execution.\<close>

theorem plan_status_history_witness:
  "\<exists>x y. (plan_system_step example_env)\<^sup>*\<^sup>* initial_system x \<and> (plan_system_step example_env)\<^sup>*\<^sup>* x y \<and>
    map_option pw_status (select_version [112] 1 (pd_rows (sy_db x))) = Some PsPendingApproval \<and>
    map_option pw_status (select_version [112] 1 (pd_rows (sy_db y))) = Some PsExecuting \<and>
    rows_evolve (pd_rows (sy_db x)) (pd_rows (sy_db y)) \<and> versions_ok (pd_rows (sy_db y))"
proof (rule example_start)
  let ?s1 = "snd (createPendingPlan example_env example_input empty_plan_db)"
  let ?s2 = "snd (approvePlan example_env [112] 1 ?s1)"
  let ?s3 = "snd (prepareExecution example_env [112] 1 [2] ?s2)"
  fix w assume w: "select_version [112] 1 (pd_rows ?s1) = Some w" "readable example_env w"
    "pw_status w = PsPendingApproval" "\<not> pd_closed ?s1" "agentPlanSchema (pw_planJson w) = Some example_plan"
  obtain w2 where w2: "select_version [112] 1 (pd_rows ?s2) = Some w2" "readable example_env w2"
    "pw_status w2 = PsApproved" "pw_planJson w2 = pw_planJson w" "\<not> pd_closed ?s2"
    using approve_hit [OF example_env_ok w(4) w(1-3)] by metis
  have step: "find (\<lambda>x. st_id x = [2]) (pl_steps example_plan) = Some (example_step [2])"
    by (simp add: example_plan_def example_step_def)
  obtain w3 where w3: "select_version [112] 1 (pd_rows ?s3) = Some w3" "pw_status w3 = PsExecuting"
    using prepare_hit [OF example_env_ok w2(5) w2(1-3) w(5) [folded w2(4)] step] by metis
  have new: "plan_system_step example_env initial_system (system_of ?s1)"
    unfolding initial_system_def system_of_def
    by (rule create [of _ _ _ "fst (createPendingPlan example_env example_input empty_plan_db)"]) simp
  have moved: "(plan_system_step example_env)\<^sup>*\<^sup>* (system_of ?s1) (system_of ?s3)"
    by (rule rtranclp_trans [OF approvePlan_run prepareExecution_run])
  from plan_status_history [OF r_into_rtranclp [of "plan_system_step example_env", OF new] moved] new moved w w3
  show ?thesis
    by (intro exI [of _ "system_of ?s1"] exI [of _ "system_of ?s3"])
      (auto simp: system_of_def intro: r_into_rtranclp)
qed

end
