(* ===== verification/PlanProjection.thy ===== *)
theory PlanProjection
  imports PlanWorkflowSchema
begin

text \<open>
  The event-sourced projection of a plan workflow (\<open>projectWorkflow\<close> in
  \<open>agent-sidecar/src/engines/plan/plan-workflow-store.ts\<close>): a fold of the event log over a
  state. The store folds the whole log over the state it saved last time, so the projection must
  absorb events it has already seen; the main lemma says that it does.
\<close>

section \<open>The projection\<close>

record workflow_projection =
  pj_status :: workflow_status
  pj_phase :: workflow_phase
  pj_currentStepId :: "ustr option"
  pj_mastraRunId :: "ustr option"
  pj_suspendedAt :: "ustr option"
  pj_resumedAt :: "ustr option"
  pj_finishedAt :: "ustr option"
  pj_errorMessage :: "ustr option"
  pj_state :: workflow_state

definition initial_projection :: "workflow_state \<Rightarrow> workflow_projection" where
  "initial_projection s =
     \<lparr>pj_status = WsWaitingApproval, pj_phase = PhApprovalGate, pj_currentStepId = None,
      pj_mastraRunId = None, pj_suspendedAt = None, pj_resumedAt = None, pj_finishedAt = None,
      pj_errorMessage = None, pj_state = s\<rparr>"

text \<open>\<open>[...new Set(xs)]\<close>: the first occurrences, in order.\<close>

fun js_unique :: "'a list \<Rightarrow> 'a list" where
  "js_unique [] = []"
| "js_unique (x # xs) = x # js_unique (filter (\<lambda>y. y \<noteq> x) xs)"

definition add_unique :: "'a list \<Rightarrow> 'a \<Rightarrow> 'a list" where
  "add_unique xs x = js_unique (xs @ [x])"

text \<open>\<open>stepIds.reduce\<close> with the index.\<close>

fun cursor_from :: "nat \<Rightarrow> nat \<Rightarrow> ustr list \<Rightarrow> ustr list \<Rightarrow> nat" where
  "cursor_from cursor index [] completed = cursor"
| "cursor_from cursor index (x # xs) completed =
     cursor_from (if x \<in> set completed then max cursor (index + 1) else cursor) (index + 1) xs
       completed"

definition execution_cursor :: "ustr list \<Rightarrow> ustr list \<Rightarrow> nat" where
  "execution_cursor stepIds completed = cursor_from 0 0 stepIds completed"

definition no_suspend :: suspend_substate where
  "no_suspend = \<lparr>su_reason = None, su_token = None, su_payload = None, su_expiresAt = None,
     su_resumeContract = None\<rparr>"

fun report_to_validator :: "report_status \<Rightarrow> validator_status" where
  "report_to_validator RpPassed = VPassed"
| "report_to_validator RpFailed = VFailed"
| "report_to_validator RpNeedsReplan = VNeedsReplan"

text \<open>One event of the log, created at \<open>t\<close>.\<close>

fun project_event :: "ustr \<times> workflow_event \<Rightarrow> workflow_projection \<Rightarrow> workflow_projection" where
  "project_event (t, PlanGenerated pid v tid h ids) p =
     p\<lparr>pj_status := WsWaitingApproval, pj_phase := PhApprovalGate,
       pj_state := (pj_state p)\<lparr>ws_approvedPlanHash := h, ws_stepIds := ids\<rparr>\<rparr>"
| "project_event (t, PlanApproved v h byw) p =
     p\<lparr>pj_status := WsApproved, pj_phase := PhExecutePlan,
       pj_state := (pj_state p)\<lparr>
         ws_approval := (ws_approval (pj_state p))\<lparr>ap_approved := True\<rparr>,
         ws_approvedPlanHash := h\<rparr>\<rparr>"
| "project_event (t, StepStarted sid k m) p =
     p\<lparr>pj_status := WsExecuting, pj_phase := PhExecutePlan, pj_currentStepId := Some sid,
       pj_mastraRunId := m,
       pj_state := (pj_state p)\<lparr>ws_currentStepId := Some sid,
         ws_stepIdempotencyKeys := jm_set (ws_stepIdempotencyKeys (pj_state p)) sid k,
         ws_lastHeartbeatAt := Some t\<rparr>\<rparr>"
| "project_event (t, StepCompleted sid k ref) p =
     (let s = pj_state p;
          completed = add_unique (ws_completedStepIds s) sid;
          cursor = execution_cursor (ws_stepIds s) completed;
          s1 = s\<lparr>ws_completedStepIds := completed,
                 ws_failedStepIds := filter (\<lambda>x. x \<noteq> sid) (ws_failedStepIds s),
                 ws_executionCursor := cursor, ws_lastHeartbeatAt := Some t\<rparr>;
          p1 = (if pj_currentStepId p = Some sid
                then p\<lparr>pj_currentStepId := None, pj_state := s1\<lparr>ws_currentStepId := None\<rparr>\<rparr>
                else p\<lparr>pj_state := s1\<rparr>)
      in if cursor \<ge> length (ws_stepIds s) then p1\<lparr>pj_phase := PhValidateResult\<rparr> else p1)"
| "project_event (t, StepFailed sid k e retryable) p =
     p\<lparr>pj_status := WsFailed, pj_phase := PhExecutePlan, pj_errorMessage := Some e,
       pj_state := (pj_state p)\<lparr>
         ws_failedStepIds := add_unique (ws_failedStepIds (pj_state p)) sid,
         ws_lastHeartbeatAt := Some t\<rparr>\<rparr>"
| "project_event (t, ValidatorReported r) p =
     p\<lparr>pj_phase := PhValidateResult,
       pj_state := (pj_state p)\<lparr>ws_validator :=
         \<lparr>vd_status = report_to_validator (vr_status r), vd_summary = Some (vr_summary r),
          vd_needsReplan = vr_needsReplan r\<rparr>\<rparr>\<rparr>"
| "project_event (t, ReplanIssued a b ref d) p =
     p\<lparr>pj_phase := PhReplan, pj_state := (pj_state p)\<lparr>ws_replanOfVersion := Some a\<rparr>\<rparr>"
| "project_event (t, Suspended r tok pl x allowed) p =
     (let p1 = (if r = SrValidatorNeedsReplan then p\<lparr>pj_phase := PhReplan\<rparr> else p)
      in p1\<lparr>pj_suspendedAt := Some t,
            pj_state := (pj_state p1)\<lparr>ws_suspend := \<lparr>su_reason = Some r, su_token = Some tok,
              su_payload = pl, su_expiresAt = x, su_resumeContract = Some allowed\<rparr>\<rparr>\<rparr>)"
| "project_event (t, Resumed tok) p =
     p\<lparr>pj_resumedAt := Some t, pj_state := (pj_state p)\<lparr>ws_suspend := no_suspend\<rparr>\<rparr>"
| "project_event (t, Heartbeat sid ph) p =
     p\<lparr>pj_state := (pj_state p)\<lparr>ws_lastHeartbeatAt := Some t\<rparr>\<rparr>"
| "project_event (t, PlanFinished st e) p =
     p\<lparr>pj_status := st, pj_phase := PhFinish, pj_finishedAt := Some t, pj_errorMessage := e,
       pj_state := (pj_state p)\<lparr>ws_approval :=
         (ws_approval (pj_state p))\<lparr>ap_rejected := (st = WsRejected)\<rparr>\<rparr>\<rparr>"

definition projectWorkflow ::
    "workflow_state \<Rightarrow> (ustr \<times> workflow_event) list \<Rightarrow> workflow_projection" where
  "projectWorkflow s es = fold project_event es (initial_projection s)"

section \<open>Lists without duplicates\<close>

lemma set_js_unique [simp]: "set (js_unique xs) = set xs"
  by (induction xs rule: js_unique.induct) auto

lemma js_unique_distinct [simp]: "distinct (js_unique xs)"
  by (induction xs rule: js_unique.induct) auto

lemma js_unique_id: "distinct xs \<Longrightarrow> js_unique xs = xs"
proof (induction xs)
  case (Cons x xs)
  then have "filter (\<lambda>y. y \<noteq> x) xs = xs" by (auto simp: filter_id_conv)
  with Cons show ?case by simp
qed simp

lemma add_unique_distinct:
  "distinct xs \<Longrightarrow> add_unique xs x = (if x \<in> set xs then xs else xs @ [x])"
proof -
  have snoc: "js_unique (xs @ [x]) = (if x \<in> set xs then js_unique xs else js_unique xs @ [x])"
    by (induction xs rule: js_unique.induct) auto
  assume "distinct xs"
  then show ?thesis by (simp add: add_unique_def snoc js_unique_id)
qed

lemma set_add_unique [simp]: "set (add_unique xs x) = insert x (set xs)"
  by (auto simp: add_unique_def)

lemma distinct_add_unique [simp]: "distinct (add_unique xs x)"
  by (simp add: add_unique_def)

section \<open>The cursor\<close>

lemma cursor_from_snoc:
  "cursor_from c i (xs @ [x]) done =
     (if x \<in> set done then max (cursor_from c i xs done) (i + length xs + 1)
      else cursor_from c i xs done)"
  by (induction xs arbitrary: c i) auto

lemma cursor_bound: "c \<le> i \<Longrightarrow> cursor_from c i xs done \<le> i + length xs"
  by (induction xs rule: rev_induct) (auto simp: cursor_from_snoc)

lemma execution_cursor_le: "execution_cursor ids done \<le> length ids"
  using cursor_bound [of 0 0 ids "done"] by (simp add: execution_cursor_def)

lemma execution_cursor_full:
  "length ids \<le> execution_cursor ids done \<longleftrightarrow> ids = [] \<or> last ids \<in> set done"
proof (cases ids rule: rev_cases)
  case Nil
  then show ?thesis by (simp add: execution_cursor_def)
next
  case (snoc xs x)
  have "cursor_from 0 0 xs done \<le> length xs" using cursor_bound [of 0 0 xs "done"] by simp
  with snoc show ?thesis by (simp add: execution_cursor_def cursor_from_snoc)
qed

lemma execution_cursor_mono:
  "set done \<subseteq> set done' \<Longrightarrow> execution_cursor ids done \<le> execution_cursor ids done'"
  unfolding execution_cursor_def
  by (induction ids rule: rev_induct) (auto simp: cursor_from_snoc subset_iff intro: le_max_iff_disj [THEN iffD2])

lemma execution_cursor_set:
  "set done = set done' \<Longrightarrow> execution_cursor ids done = execution_cursor ids done'"
  by (simp add: eq_iff execution_cursor_mono)

section \<open>Folding a log over its own result\<close>

text \<open>The log of one workflow generates the step ids its state starts with.\<close>

fun log_ids :: "ustr list \<Rightarrow> ustr \<times> workflow_event \<Rightarrow> bool" where
  "log_ids ids (t, PlanGenerated pid v tid h ids') = (ids' = ids)"
| "log_ids ids e = True"

fun completes :: "ustr \<times> workflow_event \<Rightarrow> ustr option" where
  "completes (t, StepCompleted sid k ref) = Some sid"
| "completes e = None"

definition fresh_state :: "workflow_state \<Rightarrow> bool" where
  "fresh_state s \<longleftrightarrow> ws_completedStepIds s = [] \<and> ws_executionCursor s = 0"

text \<open>What every projection of a fresh state satisfies.\<close>

definition projected :: "ustr list \<Rightarrow> workflow_projection \<Rightarrow> bool" where
  "projected ids p \<longleftrightarrow> ws_stepIds (pj_state p) = ids \<and> distinct (ws_completedStepIds (pj_state p)) \<and>
     ws_executionCursor (pj_state p) = execution_cursor ids (ws_completedStepIds (pj_state p))"

lemma execution_cursor_Nil [simp]: "execution_cursor ids [] = 0"
proof -
  have "cursor_from c i ids [] = c" for c i by (induction ids arbitrary: i) auto
  then show ?thesis by (simp add: execution_cursor_def)
qed

lemma projected_initial:
  "fresh_state s \<Longrightarrow> projected (ws_stepIds s) (initial_projection s)"
  by (simp add: projected_def fresh_state_def initial_projection_def)

lemma projected_event:
  assumes "projected ids p" and "log_ids ids e"
  shows "projected ids (project_event e p) \<and>
    set (ws_completedStepIds (pj_state p)) \<subseteq> set (ws_completedStepIds (pj_state (project_event e p))) \<and>
    (\<forall>sid. completes e = Some sid \<longrightarrow>
       sid \<in> set (ws_completedStepIds (pj_state (project_event e p))))"
  using assms by (cases "(e, p)" rule: project_event.cases) (auto simp: projected_def Let_def)

lemma projected_fold:
  assumes "projected ids p" and "\<forall>e \<in> set es. log_ids ids e"
  shows "projected ids (fold project_event es p) \<and>
    set (ws_completedStepIds (pj_state p)) \<subseteq>
      set (ws_completedStepIds (pj_state (fold project_event es p))) \<and>
    (\<forall>e \<in> set es. \<forall>sid. completes e = Some sid \<longrightarrow>
       sid \<in> set (ws_completedStepIds (pj_state (fold project_event es p))))"
  using assms
proof (induction es arbitrary: p)
  case Nil
  then show ?case by simp
next
  case (Cons e es)
  have e: "projected ids (project_event e p)" using projected_event Cons.prems by simp
  from Cons.IH [OF e] Cons.prems projected_event [of ids p e] show ?case by auto
qed

text \<open>Equality of projections, where the failed steps are a set and the keys are a map.\<close>

definition state_agrees :: "workflow_state \<Rightarrow> workflow_state \<Rightarrow> bool" where
  "state_agrees x y \<longleftrightarrow>
     y\<lparr>ws_failedStepIds := [], ws_stepIdempotencyKeys := []\<rparr> =
       x\<lparr>ws_failedStepIds := [], ws_stepIdempotencyKeys := []\<rparr> \<and>
     set (ws_failedStepIds y) = set (ws_failedStepIds x) \<and>
     jm_get (ws_stepIdempotencyKeys y) = jm_get (ws_stepIdempotencyKeys x)"

definition projection_agrees :: "workflow_projection \<Rightarrow> workflow_projection \<Rightarrow> bool" where
  "projection_agrees a b \<longleftrightarrow>
     b\<lparr>pj_state := pj_state a\<rparr> = a \<and> state_agrees (pj_state a) (pj_state b)"

text \<open>An attribute every event either sets to a value of its own or leaves alone: so does a log.\<close>

definition last_write :: "(workflow_projection \<Rightarrow> 'a) \<Rightarrow> bool" where
  "last_write g \<longleftrightarrow> (\<forall>e. (\<exists>c. \<forall>p. g (project_event e p) = c) \<or>
     (\<forall>p. g (project_event e p) = g p))"

lemma last_write_fold:
  "last_write g \<Longrightarrow> (\<exists>c. \<forall>p. g (fold project_event es p) = c) \<or>
     (\<forall>p. g (fold project_event es p) = g p)"
proof (induction es)
  case (Cons e es)
  then consider (const) c where "\<forall>p. g (fold project_event es p) = c"
    | (id) "\<forall>p. g (fold project_event es p) = g p" by blast
  then show ?case
  proof cases
    case const
    then show ?thesis by auto
  next
    case id
    have "(\<exists>c. \<forall>p. g (project_event e p) = c) \<or> (\<forall>p. g (project_event e p) = g p)"
      using Cons.prems unfolding last_write_def by (rule spec)
    with id show ?thesis by simp
  qed
qed simp

lemma last_write_again:
  assumes "last_write g" and "g q = g (fold project_event es p)"
  shows "g (fold project_event es q) = g (fold project_event es p)"
  using last_write_fold [OF assms(1), of es] assms(2) by metis

lemma last_writeI:
  assumes "\<And>e. (\<exists>c. \<forall>p. g (project_event e p) = c) \<or> (\<forall>p. g (project_event e p) = g p)"
  shows "last_write g"
  using assms by (simp add: last_write_def)

lemma event_cases:
  obtains (generated) t pid v tid h ids where "e = (t, PlanGenerated pid v tid h ids)"
  | (approved) t v h byw where "e = (t, PlanApproved v h byw)"
  | (started) t sid k m where "e = (t, StepStarted sid k m)"
  | (completed) t sid k ref where "e = (t, StepCompleted sid k ref)"
  | (failed) t sid k err rt where "e = (t, StepFailed sid k err rt)"
  | (reported) t r where "e = (t, ValidatorReported r)"
  | (replanned) t a b ref d where "e = (t, ReplanIssued a b ref d)"
  | (suspended) t r tok pl x al where "e = (t, Suspended r tok pl x al)"
  | (resumed) t tok where "e = (t, Resumed tok)"
  | (heartbeat) t sid ph where "e = (t, Heartbeat sid ph)"
  | (finished) t st err where "e = (t, PlanFinished st err)"
  by (metis surj_pair workflow_event.exhaust)

lemma last_writes:
  "last_write pj_status" "last_write pj_mastraRunId" "last_write pj_suspendedAt"
  "last_write pj_resumedAt" "last_write pj_finishedAt" "last_write pj_errorMessage"
  "last_write (\<lambda>p. ws_planId (pj_state p))" "last_write (\<lambda>p. ws_planVersion (pj_state p))"
  "last_write (\<lambda>p. ws_threadId (pj_state p))" "last_write (\<lambda>p. ws_parentRunId (pj_state p))"
  "last_write (\<lambda>p. ws_stepIds (pj_state p))"
  "last_write (\<lambda>p. ws_approvedPlanHash (pj_state p))"
  "last_write (\<lambda>p. ws_lastHeartbeatAt (pj_state p))"
  "last_write (\<lambda>p. ws_replanOfVersion (pj_state p))"
  "last_write (\<lambda>p. ws_suspend (pj_state p))" "last_write (\<lambda>p. ws_validator (pj_state p))"
  "last_write (\<lambda>p. ap_required (ws_approval (pj_state p)))"
  "last_write (\<lambda>p. ap_reason (ws_approval (pj_state p)))"
  by (rule last_writeI, case_tac e rule: event_cases; simp add: Let_def)+

lemma last_write_approval:
  "last_write (\<lambda>p. ap_approved (ws_approval (pj_state p)))"
  "last_write (\<lambda>p. ap_rejected (ws_approval (pj_state p)))"
  by (rule last_writeI, case_tac e rule: event_cases; auto simp: Let_def)+

lemma last_write_failed: "last_write (\<lambda>p. i \<in> set (ws_failedStepIds (pj_state p)))"
proof (rule last_writeI)
  fix e :: "ustr \<times> workflow_event"
  show "(\<exists>c. \<forall>p. (i \<in> set (ws_failedStepIds (pj_state (project_event e p)))) = c) \<or>
    (\<forall>p. (i \<in> set (ws_failedStepIds (pj_state (project_event e p)))) =
      (i \<in> set (ws_failedStepIds (pj_state p))))"
    by (cases e rule: event_cases; cases "completes e = Some i") (auto simp: Let_def)
qed

lemma last_write_keys: "last_write (\<lambda>p. jm_get (ws_stepIdempotencyKeys (pj_state p)) i)"
proof (rule last_writeI)
  fix e :: "ustr \<times> workflow_event"
  show "(\<exists>c. \<forall>p. jm_get (ws_stepIdempotencyKeys (pj_state (project_event e p))) i = c) \<or>
    (\<forall>p. jm_get (ws_stepIdempotencyKeys (pj_state (project_event e p))) i =
      jm_get (ws_stepIdempotencyKeys (pj_state p)) i)"
    by (cases e rule: event_cases) (simp_all add: Let_def)
qed

text \<open>The current step is two attributes: the projection's and the state's.\<close>

fun current_event :: "ustr \<times> workflow_event \<Rightarrow> ustr option \<times> ustr option \<Rightarrow>
    ustr option \<times> ustr option" where
  "current_event (t, StepStarted sid k m) c = (Some sid, Some sid)"
| "current_event (t, StepCompleted sid k ref) c = (if fst c = Some sid then (None, None) else c)"
| "current_event e c = c"

lemma current_fold:
  "(pj_currentStepId (fold project_event es p), ws_currentStepId (pj_state (fold project_event es p))) =
   fold current_event es (pj_currentStepId p, ws_currentStepId (pj_state p))"
proof (induction es arbitrary: p)
  case (Cons e es)
  have "(pj_currentStepId (project_event e p), ws_currentStepId (pj_state (project_event e p))) =
      current_event e (pj_currentStepId p, ws_currentStepId (pj_state p))"
    by (cases "(e, p)" rule: project_event.cases) (simp_all add: Let_def)
  with Cons [of "project_event e p"] show ?case by simp
qed simp

lemma current_again:
  "(\<exists>c. \<forall>x. fold current_event es (None, x) = c) \<or>
   (\<forall>x. fold current_event es (None, x) = (None, x))"
proof (induction es)
  case (Cons e es)
  show ?case
  proof (cases "\<exists>t sid k m. e = (t, StepStarted sid k m)")
    case True
    then show ?thesis by auto
  next
    case False
    then have "current_event e (None, x) = (None, x)" for x
      by (cases "(e, (None :: ustr option, x))" rule: current_event.cases) auto
    with Cons show ?thesis by simp
  qed
qed simp

text \<open>The phase: a run over the final set of completed steps can be ahead, never behind.\<close>

definition phase_ahead :: "ustr list \<Rightarrow> ustr list \<Rightarrow> workflow_projection \<Rightarrow> workflow_projection \<Rightarrow> bool" where
  "phase_ahead ids completed a b \<longleftrightarrow>
     projected ids a \<and> projected ids b \<and> ws_completedStepIds (pj_state b) = completed \<and>
     set (ws_completedStepIds (pj_state a)) \<subseteq> set completed \<and>
     (pj_phase b = pj_phase a \<or>
      execution_cursor ids (ws_completedStepIds (pj_state a)) < length ids \<and>
      length ids \<le> execution_cursor ids completed)"

lemma phase_ahead_event:
  assumes "phase_ahead ids completed a b" and "log_ids ids e"
    and "\<forall>sid. completes e = Some sid \<longrightarrow> sid \<in> set completed"
  shows "phase_ahead ids completed (project_event e a) (project_event e b)"
proof (cases "\<exists>t sid k ref. e = (t, StepCompleted sid k ref)")
  case False
  with assms projected_event show ?thesis
    by (cases "(e, a)" rule: project_event.cases) (auto simp: phase_ahead_def projected_def Let_def)
next
  case True
  then obtain t sid k ref where e: "e = (t, StepCompleted sid k ref)" by blast
  let ?x = "pj_state a" and ?y = "pj_state b"
  have pa: "projected ids a" "projected ids b" and compl: "ws_completedStepIds ?y = completed"
    and sub: "set (ws_completedStepIds ?x) \<subseteq> set completed"
    and ph: "pj_phase b = pj_phase a \<or> execution_cursor ids (ws_completedStepIds ?x) < length ids \<and>
      length ids \<le> execution_cursor ids completed"
    using assms(1) by (auto simp: phase_ahead_def)
  have sid: "sid \<in> set completed" using assms(3) e by simp
  let ?c = "add_unique (ws_completedStepIds ?x) sid"
  have yc: "add_unique completed sid = completed"
    using sid pa(2) compl by (simp add: projected_def add_unique_distinct)
  have le: "execution_cursor ids ?c \<le> execution_cursor ids completed"
    using sub sid by (intro execution_cursor_mono) auto
  have compl': "ws_completedStepIds (pj_state (project_event e b)) = completed"
    and c': "ws_completedStepIds (pj_state (project_event e a)) = ?c"
    by (simp_all add: e Let_def compl yc)
  have "pj_phase (project_event e b) = pj_phase (project_event e a) \<or>
      execution_cursor ids ?c < length ids \<and> length ids \<le> execution_cursor ids completed"
    using ph le pa by (auto simp: e Let_def compl yc projected_def)
  then show ?thesis
    using projected_event [OF pa(1) assms(2)] projected_event [OF pa(2) assms(2)] sub sid
    by (auto simp: phase_ahead_def compl' c')
qed

lemma phase_ahead_fold:
  assumes "phase_ahead ids completed a b" and "\<forall>e \<in> set es. log_ids ids e"
    and "\<forall>e \<in> set es. \<forall>sid. completes e = Some sid \<longrightarrow> sid \<in> set completed"
  shows "phase_ahead ids completed (fold project_event es a) (fold project_event es b)"
  using assms
proof (induction es arbitrary: a b)
  case (Cons e es)
  then show ?case using phase_ahead_event [OF Cons.prems(1), of e] by simp
qed simp

lemma completed_again:
  assumes "\<forall>e \<in> set es. \<forall>sid. completes e = Some sid \<longrightarrow> sid \<in> set (ws_completedStepIds (pj_state p))"
    and "distinct (ws_completedStepIds (pj_state p))"
  shows "ws_completedStepIds (pj_state (fold project_event es p)) = ws_completedStepIds (pj_state p)"
  using assms
proof (induction es arbitrary: p)
  case (Cons e es)
  have "ws_completedStepIds (pj_state (project_event e p)) = ws_completedStepIds (pj_state p)"
    using Cons.prems by (cases e rule: event_cases) (auto simp: Let_def add_unique_distinct)
  with Cons show ?case by simp
qed simp

lemma state_agreesI:
  assumes "ws_planId y = ws_planId x" "ws_planVersion y = ws_planVersion x"
    "ws_threadId y = ws_threadId x" "ws_stepIds y = ws_stepIds x"
    "ws_executionCursor y = ws_executionCursor x" "ws_approvedPlanHash y = ws_approvedPlanHash x"
    "ws_currentStepId y = ws_currentStepId x" "ws_completedStepIds y = ws_completedStepIds x"
    "ws_lastHeartbeatAt y = ws_lastHeartbeatAt x" "ws_parentRunId y = ws_parentRunId x"
    "ws_replanOfVersion y = ws_replanOfVersion x" "ws_suspend y = ws_suspend x"
    "ws_approval y = ws_approval x" "ws_validator y = ws_validator x"
    "set (ws_failedStepIds y) = set (ws_failedStepIds x)"
    "jm_get (ws_stepIdempotencyKeys y) = jm_get (ws_stepIdempotencyKeys x)"
  shows "state_agrees x (y :: workflow_state)"
  using assms by (cases x; cases y) (simp add: state_agrees_def)

text \<open>Projecting a log over the state it produced gives the same projection.\<close>

lemma project_again:
  assumes fresh: "fresh_state s0" and log: "\<forall>e \<in> set es. log_ids (ws_stepIds s0) e"
    and cur: "ws_currentStepId s0 = None"
  defines "a \<equiv> projectWorkflow s0 es"
  defines "b \<equiv> projectWorkflow (pj_state a) es"
  shows "projection_agrees a b"
proof -
  let ?ids = "ws_stepIds s0" and ?s = "pj_state a"
  let ?a0 = "initial_projection s0" and ?b0 = "initial_projection ?s"
  have a: "a = fold project_event es ?a0" and b: "b = fold project_event es ?b0"
    by (simp_all add: a_def b_def projectWorkflow_def)
  have init: "projected ?ids ?a0" by (rule projected_initial [OF fresh])
  note pa = projected_fold [OF init log, folded a]
  then have binit: "projected ?ids ?b0" by (simp add: projected_def initial_projection_def)
  have b0s: "pj_state ?b0 = ?s" by (simp add: initial_projection_def)
  have again: "g b = g a" if "last_write g" "g ?b0 = g a" for g :: "workflow_projection \<Rightarrow> 'z"
    unfolding a b using last_write_again [OF that(1), of ?b0 es ?a0] that(2) by (simp add: a)
  have same: "g b = g a" if "last_write g" "g ?b0 = g ?a0" for g :: "workflow_projection \<Rightarrow> 'z"
    using last_write_fold [OF that(1), of es] that(2) unfolding a b by metis
  have compl: "ws_completedStepIds (pj_state b) = ws_completedStepIds ?s"
    unfolding b using pa by (subst completed_again) (auto simp: projected_def b0s)
  have pb: "projected ?ids b" unfolding b using projected_fold [OF binit log] by blast
  have "phase_ahead ?ids (ws_completedStepIds ?s) ?a0 ?b0"
    using init binit fresh by (simp add: phase_ahead_def initial_projection_def fresh_state_def)
  then have "phase_ahead ?ids (ws_completedStepIds ?s) a b"
    unfolding a b using log pa by (intro phase_ahead_fold) (auto simp: a)
  then have phase: "pj_phase b = pj_phase a" by (auto simp: phase_ahead_def)
  have pairs: "(pj_currentStepId a, ws_currentStepId ?s) = fold current_event es (None, None)"
    "(pj_currentStepId b, ws_currentStepId (pj_state b)) =
      fold current_event es (None, ws_currentStepId ?s)"
    unfolding a b using current_fold [of es ?a0] current_fold [of es ?b0] cur
    by (simp_all add: initial_projection_def a)
  have current: "pj_currentStepId b = pj_currentStepId a \<and>
      ws_currentStepId (pj_state b) = ws_currentStepId ?s"
    using current_again [of es] pairs by (metis prod.inject)
  have state: "state_agrees ?s (pj_state b)"
  proof (rule state_agreesI)
    show "ws_approval (pj_state b) = ws_approval ?s"
      using again [OF last_writes(17)] again [OF last_writes(18)] again [OF last_write_approval(1)]
        again [OF last_write_approval(2)]
      by (intro approval_substate.equality) (simp_all add: b0s)
    show "set (ws_failedStepIds (pj_state b)) = set (ws_failedStepIds ?s)"
      using again [OF last_write_failed] by (auto simp: b0s)
    show "jm_get (ws_stepIdempotencyKeys (pj_state b)) = jm_get (ws_stepIdempotencyKeys ?s)"
      using again [OF last_write_keys] by (auto simp: b0s)
    show "ws_executionCursor (pj_state b) = ws_executionCursor ?s"
      using pa pb compl by (simp add: projected_def)
  qed (use again [OF last_writes(7)] again [OF last_writes(8)] again [OF last_writes(9)]
      again [OF last_writes(10)] again [OF last_writes(11)] again [OF last_writes(12)]
      again [OF last_writes(13)] again [OF last_writes(14)] again [OF last_writes(15)]
      again [OF last_writes(16)] current compl in \<open>simp_all add: b0s\<close>)
  moreover have "b\<lparr>pj_state := pj_state a\<rparr> = a"
    using same [OF last_writes(1)] same [OF last_writes(2)] same [OF last_writes(3)]
      same [OF last_writes(4)] same [OF last_writes(5)] same [OF last_writes(6)] phase current
    by (intro workflow_projection.equality) (simp_all add: initial_projection_def)
  ultimately show ?thesis by (simp add: projection_agrees_def)
qed

section \<open>Agreement is kept by further events\<close>

lemma js_unique_Nil [simp]: "js_unique xs = [] \<longleftrightarrow> xs = []"
  by (cases xs) auto

lemma state_agreesD:
  assumes "state_agrees x y"
  shows "ws_planId y = ws_planId x" "ws_planVersion y = ws_planVersion x"
    "ws_threadId y = ws_threadId x" "ws_stepIds y = ws_stepIds x"
    "ws_executionCursor y = ws_executionCursor x" "ws_approvedPlanHash y = ws_approvedPlanHash x"
    "ws_currentStepId y = ws_currentStepId x" "ws_completedStepIds y = ws_completedStepIds x"
    "ws_lastHeartbeatAt y = ws_lastHeartbeatAt x" "ws_parentRunId y = ws_parentRunId x"
    "ws_replanOfVersion y = ws_replanOfVersion x" "ws_suspend y = ws_suspend x"
    "ws_approval y = ws_approval x" "ws_validator y = ws_validator x"
    "set (ws_failedStepIds y) = set (ws_failedStepIds x)"
    "jm_get (ws_stepIdempotencyKeys y) = jm_get (ws_stepIdempotencyKeys x)"
  using assms by (cases x; cases y; simp add: state_agrees_def)+

lemma projection_agreesD:
  assumes "projection_agrees a b"
  shows "pj_status b = pj_status a" "pj_phase b = pj_phase a"
    "pj_currentStepId b = pj_currentStepId a" "pj_mastraRunId b = pj_mastraRunId a"
    "pj_suspendedAt b = pj_suspendedAt a" "pj_resumedAt b = pj_resumedAt a"
    "pj_finishedAt b = pj_finishedAt a" "pj_errorMessage b = pj_errorMessage a"
    "state_agrees (pj_state a) (pj_state b)"
  using assms by (cases a; cases b; simp add: projection_agrees_def)+

lemma projection_agreesI:
  assumes "pj_status b = pj_status a" "pj_phase b = pj_phase a"
    "pj_currentStepId b = pj_currentStepId a" "pj_mastraRunId b = pj_mastraRunId a"
    "pj_suspendedAt b = pj_suspendedAt a" "pj_resumedAt b = pj_resumedAt a"
    "pj_finishedAt b = pj_finishedAt a" "pj_errorMessage b = pj_errorMessage a"
    "state_agrees (pj_state a) (pj_state b)"
  shows "projection_agrees a (b :: workflow_projection)"
  using assms by (cases a; cases b) (simp add: projection_agrees_def)

lemma agrees_event:
  assumes "projection_agrees a b"
  shows "projection_agrees (project_event e a) (project_event e b)"
  using projection_agreesD [OF assms] state_agreesD [OF projection_agreesD(9) [OF assms]]
  by (cases e rule: event_cases)
    (auto simp: Let_def fun_eq_iff intro!: projection_agreesI state_agreesI)

lemma agrees_fold:
  "projection_agrees a b \<Longrightarrow>
   projection_agrees (fold project_event es a) (fold project_event es b)"
  by (induction es arbitrary: a b) (auto intro: agrees_event)

lemma agrees_trans: "\<lbrakk>projection_agrees a b; projection_agrees b c\<rbrakk> \<Longrightarrow> projection_agrees a c"
  by (rule projection_agreesI; (rule state_agreesI)?)
    (simp_all add: projection_agreesD state_agreesD [OF projection_agreesD(9)])

lemma agrees_initial: "state_agrees x y \<Longrightarrow> projection_agrees (initial_projection x) (initial_projection y)"
  by (simp add: projection_agrees_def initial_projection_def)

section \<open>Properties\<close>

text \<open>The states the store saves: after each batch of events it folds the log so far over the
  state it saved last.\<close>

fun saved_state :: "workflow_state \<Rightarrow> (ustr \<times> workflow_event) list \<Rightarrow>
    (ustr \<times> workflow_event) list list \<Rightarrow> workflow_state" where
  "saved_state s done [] = s"
| "saved_state s done (batch # bs) =
     saved_state (pj_state (projectWorkflow s (done @ batch))) (done @ batch) bs"

lemma projection_agrees_refl [simp]: "projection_agrees a a"
  by (simp add: projection_agrees_def state_agrees_def)

lemma reproject_step:
  assumes "fresh_state s0" and "ws_currentStepId s0 = None"
    and "\<forall>e \<in> set done. log_ids (ws_stepIds s0) e"
    and "done = [] \<and> s = s0 \<or> state_agrees (pj_state (projectWorkflow s0 done)) s"
  shows "projection_agrees (projectWorkflow s0 (done @ batch)) (projectWorkflow s (done @ batch))"
proof (cases "done = [] \<and> s = s0")
  case False
  let ?a = "projectWorkflow s0 done"
  have "projection_agrees ?a (projectWorkflow (pj_state ?a) done)"
    by (rule project_again [OF assms(1,3,2)])
  moreover have "projection_agrees (projectWorkflow (pj_state ?a) done) (projectWorkflow s done)"
    using False assms(4) unfolding projectWorkflow_def
    by (intro agrees_fold agrees_initial) blast
  ultimately have "projection_agrees ?a (projectWorkflow s done)" by (rule agrees_trans)
  then show ?thesis using agrees_fold unfolding projectWorkflow_def by fastforce
qed simp

lemma saved_state_agrees:
  assumes "fresh_state s0" and "ws_currentStepId s0 = None"
    and "\<forall>e \<in> set (done @ concat bs). log_ids (ws_stepIds s0) e"
    and "done = [] \<and> s = s0 \<or> state_agrees (pj_state (projectWorkflow s0 done)) s"
  shows "projection_agrees (projectWorkflow s0 (done @ concat bs))
    (projectWorkflow (saved_state s done bs) (done @ concat bs))"
  using assms(3,4)
proof (induction bs arbitrary: "done" s)
  case Nil
  then show ?case using reproject_step [OF assms(1,2), of "done" s "[]"] by simp
next
  case (Cons batch bs)
  have "projection_agrees (projectWorkflow s0 (done @ batch)) (projectWorkflow s (done @ batch))"
    using Cons.prems by (intro reproject_step [OF assms(1,2)]) auto
  then have "state_agrees (pj_state (projectWorkflow s0 (done @ batch)))
      (pj_state (projectWorkflow s (done @ batch)))"
    by (rule projection_agreesD(9))
  then show ?case
    using Cons.IH [of "done @ batch" "pj_state (projectWorkflow s (done @ batch))"] Cons.prems
    by simp
qed

text \<open>However the log is cut into batches, re-projecting the whole log over the state saved
  after each batch agrees with projecting the log once over the first state: same status, phase
  and state, with the failed steps compared as a set and the idempotency keys as a map. Events
  that were already folded in are absorbed.\<close>

theorem reprojection_converges:
  assumes "fresh_state s0" and "ws_currentStepId s0 = None"
    and "\<forall>e \<in> set (concat bs). log_ids (ws_stepIds s0) e"
  shows "projection_agrees (projectWorkflow s0 (concat bs))
    (projectWorkflow (saved_state s0 [] bs) (concat bs))"
  using saved_state_agrees [OF assms(1,2), of "[]" bs s0] assms(3) by simp

definition example_state :: workflow_state where
  "example_state = \<lparr>ws_planId = [112], ws_planVersion = 1, ws_threadId = [116],
     ws_stepIds = [[1], [2]], ws_stepIdempotencyKeys = [], ws_executionCursor = 0,
     ws_approvedPlanHash = [104], ws_currentStepId = None, ws_completedStepIds = [],
     ws_failedStepIds = [], ws_lastHeartbeatAt = None, ws_parentRunId = None,
     ws_replanOfVersion = None, ws_suspend = no_suspend,
     ws_approval = \<lparr>ap_required = True, ap_approved = False, ap_rejected = False, ap_reason = None\<rparr>,
     ws_validator = \<lparr>vd_status = VPending, vd_summary = None, vd_needsReplan = False\<rparr>\<rparr>"

definition example_batches :: "(ustr \<times> workflow_event) list list" where
  "example_batches =
     [[([5], PlanGenerated [112] 1 [116] [104] [[1], [2]])], [([6], PlanApproved 1 [104] None)],
      [([7], StepStarted [1] [9] None)], [([8], StepFailed [1] [9] [33] True)],
      [([9], StepCompleted [1] [9] None)]]"

theorem reprojection_converges_witness:
  "pj_status (projectWorkflow (saved_state example_state [] example_batches) (concat example_batches))
    = WsFailed"
proof -
  have 1: "fresh_state example_state" by (simp add: fresh_state_def example_state_def)
  have 2: "ws_currentStepId example_state = None" by (simp add: example_state_def)
  have 3: "\<forall>e \<in> set (concat example_batches). log_ids (ws_stepIds example_state) e"
    by (simp add: example_batches_def example_state_def)
  have "pj_status (projectWorkflow example_state (concat example_batches)) = WsFailed"
    by (simp add: projectWorkflow_def example_batches_def initial_projection_def Let_def)
  then show ?thesis using projection_agreesD(1) [OF reprojection_converges [OF 1 2 3]] by simp
qed

text \<open>Completing a step moves the workflow to the validation phase exactly when the last step
  of the plan is completed (or there are no steps): the cursor counts up to the furthest completed
  step, so steps before it may still be open.\<close>

theorem validation_starts_with_last_step:
  "pj_phase (project_event (t, StepCompleted sid k ref) p) = PhValidateResult \<longleftrightarrow>
     pj_phase p = PhValidateResult \<or> ws_stepIds (pj_state p) = [] \<or>
     last (ws_stepIds (pj_state p)) \<in> insert sid (set (ws_completedStepIds (pj_state p)))"
  by (auto simp: Let_def execution_cursor_full)

end
