(* ===== verification/PlanWorkflowStore.thy ===== *)
theory PlanWorkflowStore
  imports PlanProjection PlanStore
begin

text \<open>
  The workflow store of the agent sidecar
  (\<open>agent-sidecar/src/engines/plan/plan-workflow-store.ts\<close>): one row per plan version with the
  projected columns and the saved state, and an append-only log of events. Tables, clock, UUIDs
  and date-times are modelled as in the plan store; SHA-256 is a parameter.
  \<open>we_eventSchemaVersion\<close> is the \<open>eventSchemaVersion\<close> key of the object
  \<open>toWorkflowEventRecord\<close> builds: the source builds none, so the code is the case \<open>None\<close>.
\<close>

section \<open>Tables\<close>

record workflow_env =
  we_now :: "nat \<Rightarrow> ustr"
  we_uuid :: "nat \<Rightarrow> ustr"
  we_isDatetime :: "ustr \<Rightarrow> bool"
  we_sha256 :: "json_value \<Rightarrow> ustr"
  we_eventSchemaVersion :: "int option"

record workflow_row =
  wx_workflowRunId :: ustr
  wx_planId :: ustr
  wx_planVersion :: int
  wx_threadId :: ustr
  wx_status :: workflow_status
  wx_phase :: workflow_phase
  wx_currentStepId :: "ustr option"
  wx_executionCursor :: nat
  wx_approvedPlanHash :: ustr
  wx_lastHeartbeatAt :: "ustr option"
  wx_parentRunId :: "ustr option"
  wx_replanOfVersion :: "int option"
  wx_suspendReason :: "suspend_reason option"
  wx_suspendToken :: "ustr option"
  wx_mastraRunId :: "ustr option"
  wx_createdAt :: ustr
  wx_updatedAt :: ustr
  wx_suspendedAt :: "ustr option"
  wx_resumedAt :: "ustr option"
  wx_finishedAt :: "ustr option"
  wx_errorMessage :: "ustr option"
  wx_stateJson :: workflow_state
  wx_revision :: nat

record event_row =
  ev_eventId :: ustr
  ev_workflowRunId :: ustr
  ev_planId :: ustr
  ev_planVersion :: int
  ev_seq :: nat
  ev_createdAt :: ustr
  ev_eventJson :: workflow_event

record workflow_db =
  wd_runs :: "workflow_row list"
  wd_events :: "event_row list"
  wd_closed :: bool
  wd_clock :: nat
  wd_uuids :: nat

definition empty_workflow_db :: workflow_db where
  "empty_workflow_db =
     \<lparr>wd_runs = [], wd_events = [], wd_closed = False, wd_clock = 0, wd_uuids = 0\<rparr>"

datatype workflow_error =
    WClosed
  | WSchema
  | WColumn
  | WNotFound
  | WInactive workflow_status
  | WHashMismatch
  | WUnique
  | WNoRevision

type_synonym 'a wf_op = "(workflow_db, workflow_error, 'a) fallible"

section \<open>Helpers\<close>

definition ACTIVE_STATUSES :: "workflow_status list" where
  "ACTIVE_STATUSES = [WsWaitingApproval, WsApproved, WsExecuting]"

definition show_version :: "int \<Rightarrow> ustr" where
  "show_version v = lit ((if v < 0 then ''-'' else []) @ show_nat (nat \<bar>v\<bar>))"

definition createStepIdempotencyKey :: "ustr \<Rightarrow> int \<Rightarrow> ustr \<Rightarrow> ustr" where
  "createStepIdempotencyKey pid v sid = pid @ lit '':v'' @ show_version v @ lit '':step:'' @ sid"

fun suspend_reason_name :: "suspend_reason \<Rightarrow> string" where
  "suspend_reason_name SrPlanApproval = ''plan_approval''"
| "suspend_reason_name SrValidatorNeedsReplan = ''validator_needs_replan''"
| "suspend_reason_name SrAskUser = ''ask_user''"
| "suspend_reason_name SrToolExternalWait = ''tool_external_wait''"

definition wf_clock :: "workflow_env \<Rightarrow> ustr wf_op" where
  "wf_clock env = (\<lambda>s. (Inr (we_now env (wd_clock s)), s\<lparr>wd_clock := wd_clock s + 1\<rparr>))"

definition wf_uuid :: "workflow_env \<Rightarrow> ustr wf_op" where
  "wf_uuid env = (\<lambda>s. (Inr (we_uuid env (wd_uuids s)), s\<lparr>wd_uuids := wd_uuids s + 1\<rparr>))"

definition createSuspendToken :: "workflow_env \<Rightarrow> ustr \<Rightarrow> int \<Rightarrow> suspend_reason \<Rightarrow> ustr wf_op" where
  "createSuspendToken env pid v r =
     andThen (wf_uuid env) (\<lambda>u. ret (pid @ lit '':v'' @ show_version v @ lit '':suspend:'' @
       lit (suspend_reason_name r) @ lit '':'' @ u))"

definition buildDefaultResumeContract :: "ustr list" where
  "buildDefaultResumeContract = map lit [''decision'', ''approvedBy'', ''reason'']"

definition hashApprovedPlan :: "workflow_env \<Rightarrow> plan_record \<Rightarrow> workflow_error + ustr" where
  "hashApprovedPlan env r =
     (if plan_valid (pr_plan r) then Inr (we_sha256 env (plan_to_json (pr_plan r)))
      else Inl WSchema)"

text \<open>\<open>JSON.stringify(agentPlanWorkflowStateSchema.parse(state))\<close> and back: a saved state is
  the state, checked on the way in and on the way out.\<close>

definition serializeWorkflowState ::
    "workflow_env \<Rightarrow> workflow_state \<Rightarrow> workflow_error + workflow_state" where
  "serializeWorkflowState env s =
     (if agentPlanWorkflowStateSchema (we_isDatetime env) s then Inr s else Inl WSchema)"

definition record_of_run :: "workflow_row \<Rightarrow> workflow_record" where
  "record_of_run w =
     \<lparr>wr_workflowRunId = wx_workflowRunId w, wr_planId = wx_planId w,
      wr_planVersion = wx_planVersion w, wr_threadId = wx_threadId w, wr_status = wx_status w,
      wr_phase = wx_phase w, wr_currentStepId = wx_currentStepId w,
      wr_mastraRunId = wx_mastraRunId w, wr_createdAt = wx_createdAt w,
      wr_updatedAt = wx_updatedAt w, wr_suspendedAt = wx_suspendedAt w,
      wr_resumedAt = wx_resumedAt w, wr_finishedAt = wx_finishedAt w,
      wr_errorMessage = wx_errorMessage w, wr_state = wx_stateJson w\<rparr>"

definition toWorkflowRecord :: "workflow_env \<Rightarrow> workflow_row \<Rightarrow> workflow_error + workflow_record" where
  "toWorkflowRecord env w =
     (if wx_planVersion w < 1 then Inl WColumn
      else if agentPlanWorkflowRecordSchema (we_isDatetime env) (record_of_run w)
      then Inr (record_of_run w) else Inl WSchema)"

definition toWorkflowEventRecord :: "workflow_env \<Rightarrow> event_row \<Rightarrow> workflow_error + event_record" where
  "toWorkflowEventRecord env w =
     (if ev_planVersion w < 1 then Inl WColumn
      else
        (let r = \<lparr>er_eventId = ev_eventId w, er_eventSchemaVersion = we_eventSchemaVersion env,
               er_workflowRunId = ev_workflowRunId w, er_planId = ev_planId w,
               er_planVersion = ev_planVersion w, er_seq = ev_seq w,
               er_createdAt = ev_createdAt w, er_event = ev_eventJson w\<rparr>
         in if agentPlanWorkflowEventRecordSchema (we_isDatetime env) r then Inr r
            else Inl WSchema))"

definition step_keys :: "ustr \<Rightarrow> int \<Rightarrow> ustr list \<Rightarrow> (ustr, ustr) jsmap" where
  "step_keys pid v ids = foldl (\<lambda>m sid. jm_set m sid (createStepIdempotencyKey pid v sid)) [] ids"

definition createInitialState ::
    "workflow_env \<Rightarrow> plan_record \<Rightarrow> ustr \<Rightarrow> ustr option \<Rightarrow> int option \<Rightarrow>
     workflow_error + workflow_state" where
  "createInitialState env r planHash parent replanOf =
     (let ids = map st_id (pl_steps (pr_plan r));
          s = \<lparr>ws_planId = pr_planId r, ws_planVersion = pr_version r,
               ws_threadId = pr_threadId r, ws_stepIds = ids,
               ws_stepIdempotencyKeys = step_keys (pr_planId r) (pr_version r) ids,
               ws_executionCursor = 0, ws_approvedPlanHash = planHash, ws_currentStepId = None,
               ws_completedStepIds = [], ws_failedStepIds = [], ws_lastHeartbeatAt = None,
               ws_parentRunId = parent, ws_replanOfVersion = replanOf, ws_suspend = no_suspend,
               ws_approval = \<lparr>ap_required = True, ap_approved = False, ap_rejected = False,
                 ap_reason = None\<rparr>,
               ws_validator = \<lparr>vd_status = VPending, vd_summary = None, vd_needsReplan = False\<rparr>\<rparr>
      in serializeWorkflowState env s)"

section \<open>Statements\<close>

definition wf_assertOpen :: "unit wf_op" where
  "wf_assertOpen = (\<lambda>s. if wd_closed s then (Inl WClosed, s) else (Inr (), s))"

definition select_run :: "ustr \<Rightarrow> int \<Rightarrow> workflow_db \<Rightarrow> workflow_row option" where
  "select_run pid v s = find (\<lambda>w. wx_planId w = pid \<and> wx_planVersion w = v) (wd_runs s)"

definition select_events :: "ustr \<Rightarrow> int \<Rightarrow> workflow_db \<Rightarrow> event_row list" where
  "select_events pid v s =
     sort_key ev_seq (filter (\<lambda>w. ev_planId w = pid \<and> ev_planVersion w = v) (wd_events s))"

text \<open>\<open>COALESCE(MAX(seq), -1) + 1\<close>\<close>

definition next_seq :: "ustr \<Rightarrow> workflow_db \<Rightarrow> nat" where
  "next_seq rid s =
     foldr max (map (\<lambda>w. ev_seq w + 1) (filter (\<lambda>w. ev_workflowRunId w = rid) (wd_events s))) 0"

definition getWorkflowOrNull :: "workflow_env \<Rightarrow> ustr \<Rightarrow> int \<Rightarrow> workflow_record option wf_op" where
  "getWorkflowOrNull env pid v =
     andThen wf_assertOpen (\<lambda>_ s.
       (case select_run pid v s of
          None \<Rightarrow> (Inr None, s)
        | Some w \<Rightarrow> (map_sum id Some (toWorkflowRecord env w), s)))"

definition getWorkflow :: "workflow_env \<Rightarrow> ustr \<Rightarrow> int \<Rightarrow> workflow_record wf_op" where
  "getWorkflow env pid v =
     andThen (getWorkflowOrNull env pid v)
       (\<lambda>r. case r of Some w \<Rightarrow> ret w | None \<Rightarrow> throw WNotFound)"

definition getActiveWorkflow :: "workflow_env \<Rightarrow> ustr \<Rightarrow> int \<Rightarrow> workflow_record wf_op" where
  "getActiveWorkflow env pid v =
     andThen (getWorkflow env pid v) (\<lambda>w.
       if wr_status w \<notin> set ACTIVE_STATUSES then throw (WInactive (wr_status w)) else ret w)"

fun map_events :: "workflow_env \<Rightarrow> event_row list \<Rightarrow> workflow_error + event_record list" where
  "map_events env [] = Inr []"
| "map_events env (w # ws) =
     (case toWorkflowEventRecord env w of
        Inl e \<Rightarrow> Inl e
      | Inr r \<Rightarrow> map_sum id (Cons r) (map_events env ws))"

definition listEvents :: "workflow_env \<Rightarrow> ustr \<Rightarrow> int \<Rightarrow> event_record list wf_op" where
  "listEvents env pid v =
     andThen wf_assertOpen (\<lambda>_ s. (map_events env (select_events pid v s), s))"

text \<open>\<open>appendEventInTransaction\<close> in a loop: the first event that fails its schema rolls the
  transaction back, so \<open>insert_events\<close> gives no new rows at all, and so does an event id that is
  taken (\<open>ids\<close>: the primary key). The UUIDs are drawn from \<open>u\<close>.\<close>

fun insert_events ::
    "workflow_env \<Rightarrow> ustr list \<Rightarrow> ustr \<Rightarrow> ustr \<Rightarrow> int \<Rightarrow> nat \<Rightarrow> ustr \<Rightarrow> nat \<Rightarrow> workflow_event list \<Rightarrow>
     workflow_error + event_row list" where
  "insert_events env ids rid pid v sq t u [] = Inr []"
| "insert_events env ids rid pid v sq t u (e # es) =
     (if \<not> agentPlanWorkflowEventSchema (we_isDatetime env) e then Inl WSchema
      else if we_uuid env u \<in> set ids then Inl WUnique
      else map_sum id
        (Cons \<lparr>ev_eventId = we_uuid env u, ev_workflowRunId = rid, ev_planId = pid,
               ev_planVersion = v, ev_seq = sq, ev_createdAt = t, ev_eventJson = e\<rparr>)
        (insert_events env (we_uuid env u # ids) rid pid v (sq + 1) t (u + 1) es))"

definition commit_events :: "event_row list \<Rightarrow> workflow_db \<Rightarrow> workflow_db" where
  "commit_events rows s =
     s\<lparr>wd_events := wd_events s @ rows, wd_uuids := wd_uuids s + length rows\<rparr>"

definition appendEvents ::
    "workflow_env \<Rightarrow> ustr \<Rightarrow> int \<Rightarrow> workflow_event list \<Rightarrow> unit wf_op" where
  "appendEvents env pid v es =
     (if es = [] then ret ()
      else andThen (getWorkflow env pid v) (\<lambda>w.
           andThen (wf_clock env) (\<lambda>t s.
             (case insert_events env (map ev_eventId (wd_events s)) (wr_workflowRunId w) pid v
                     (next_seq (wr_workflowRunId w) s) t (wd_uuids s) es of
                Inl e \<Rightarrow> (Inl e, s)
              | Inr rows \<Rightarrow> (Inr (), commit_events rows s)))))"

section \<open>Reprojection\<close>

definition logged :: "event_record list \<Rightarrow> (ustr \<times> workflow_event) list" where
  "logged es = map (\<lambda>r. (er_createdAt r, er_event r)) es"

definition write_projection ::
    "workflow_projection \<Rightarrow> ustr \<Rightarrow> workflow_state \<Rightarrow> workflow_row \<Rightarrow> workflow_row" where
  "write_projection p t saved w =
     w\<lparr>wx_status := pj_status p, wx_phase := pj_phase p,
       wx_currentStepId := pj_currentStepId p,
       wx_executionCursor := ws_executionCursor (pj_state p),
       wx_approvedPlanHash := ws_approvedPlanHash (pj_state p),
       wx_lastHeartbeatAt := ws_lastHeartbeatAt (pj_state p),
       wx_parentRunId := ws_parentRunId (pj_state p),
       wx_replanOfVersion := ws_replanOfVersion (pj_state p),
       wx_suspendReason := su_reason (ws_suspend (pj_state p)),
       wx_suspendToken := su_token (ws_suspend (pj_state p)),
       wx_mastraRunId := pj_mastraRunId p, wx_updatedAt := t,
       wx_suspendedAt := pj_suspendedAt p, wx_resumedAt := pj_resumedAt p,
       wx_finishedAt := pj_finishedAt p, wx_errorMessage := pj_errorMessage p,
       wx_stateJson := saved, wx_revision := wx_revision w + 1\<rparr>"

definition readRevision :: "ustr \<Rightarrow> nat wf_op" where
  "readRevision rid = (\<lambda>s.
     (case find (\<lambda>w. wx_workflowRunId w = rid) (wd_runs s) of
        None \<Rightarrow> (Inl WNoRevision, s)
      | Some w \<Rightarrow> (Inr (wx_revision w), s)))"

text \<open>\<open>UPDATE ... WHERE workflow_run_id = ? AND revision = ?\<close>\<close>

definition update_run ::
    "ustr \<Rightarrow> nat \<Rightarrow> workflow_projection \<Rightarrow> ustr \<Rightarrow> workflow_state \<Rightarrow> workflow_db \<Rightarrow> workflow_db" where
  "update_run rid revn p t saved s =
     s\<lparr>wd_runs := map (\<lambda>w. if wx_workflowRunId w = rid \<and> wx_revision w = revn
        then write_projection p t saved w else w) (wd_runs s)\<rparr>"

text \<open>The half of \<open>reproject\<close> after the projection was computed.\<close>

definition store_projection ::
    "workflow_env \<Rightarrow> ustr \<Rightarrow> int \<Rightarrow> ustr \<Rightarrow> workflow_projection \<Rightarrow> workflow_record wf_op" where
  "store_projection env pid v rid p =
     andThen (wf_clock env) (\<lambda>t.
     andThen (readRevision rid) (\<lambda>revn s.
       (case serializeWorkflowState env (pj_state p) of
          Inl e \<Rightarrow> (Inl e, s)
        | Inr saved \<Rightarrow> getWorkflow env pid v (update_run rid revn p t saved s))))"

definition reproject :: "workflow_env \<Rightarrow> ustr \<Rightarrow> int \<Rightarrow> workflow_record wf_op" where
  "reproject env pid v =
     andThen (getWorkflow env pid v) (\<lambda>w.
     andThen (listEvents env pid v) (\<lambda>es.
       store_projection env pid v (wr_workflowRunId w) (projectWorkflow (wr_state w) (logged es))))"

section \<open>Operations\<close>

definition initial_run ::
    "plan_record \<Rightarrow> ustr \<Rightarrow> ustr \<Rightarrow> ustr \<Rightarrow> workflow_state \<Rightarrow> workflow_row" where
  "initial_run r rid planHash t st =
     \<lparr>wx_workflowRunId = rid, wx_planId = pr_planId r, wx_planVersion = pr_version r,
      wx_threadId = pr_threadId r, wx_status = WsWaitingApproval, wx_phase = PhApprovalGate,
      wx_currentStepId = None, wx_executionCursor = 0, wx_approvedPlanHash = planHash,
      wx_lastHeartbeatAt = None, wx_parentRunId = ws_parentRunId st,
      wx_replanOfVersion = ws_replanOfVersion st, wx_suspendReason = None,
      wx_suspendToken = None, wx_mastraRunId = None, wx_createdAt = t, wx_updatedAt = t,
      wx_suspendedAt = None, wx_resumedAt = None, wx_finishedAt = None, wx_errorMessage = None,
      wx_stateJson = st, wx_revision = 0\<rparr>"

definition creation_events :: "plan_record \<Rightarrow> ustr \<Rightarrow> workflow_state \<Rightarrow> ustr \<Rightarrow> workflow_event list" where
  "creation_events r planHash st token =
     [PlanGenerated (pr_planId r) (pr_version r) (pr_threadId r) planHash (ws_stepIds st),
      Suspended SrPlanApproval token
        (Some (JObj [(''planId'', JStr (pr_planId r)), (''version'', JInt (pr_version r))]))
        None buildDefaultResumeContract]"

text \<open>The transaction of \<open>createForPlan\<close>: the row and its first two events, or nothing.\<close>

definition create_run ::
    "workflow_env \<Rightarrow> plan_record \<Rightarrow> ustr \<Rightarrow> ustr \<Rightarrow> ustr \<Rightarrow> workflow_state \<Rightarrow> ustr \<Rightarrow> unit wf_op" where
  "create_run env r rid t planHash st token = (\<lambda>s.
     if select_run (pr_planId r) (pr_version r) s \<noteq> None \<or>
        rid \<in> wx_workflowRunId ` set (wd_runs s)
     then (Inl WUnique, s)
     else (case serializeWorkflowState env st of
             Inl e \<Rightarrow> (Inl e, s)
           | Inr saved \<Rightarrow>
               (case insert_events env (map ev_eventId (wd_events s)) rid (pr_planId r) (pr_version r) 0 t (wd_uuids s)
                       (creation_events r planHash st token) of
                  Inl e \<Rightarrow> (Inl e, s)
                | Inr rows \<Rightarrow>
                    (Inr (), commit_events rows
                       (s\<lparr>wd_runs := wd_runs s @ [initial_run r rid planHash t saved]\<rparr>)))))"

definition lift_wf :: "workflow_error + 'a \<Rightarrow> 'a wf_op" where
  "lift_wf x = (case x of Inl e \<Rightarrow> throw e | Inr a \<Rightarrow> ret a)"

definition createForPlan ::
    "workflow_env \<Rightarrow> plan_record \<Rightarrow> ustr option \<Rightarrow> int option \<Rightarrow> workflow_record wf_op" where
  "createForPlan env r parent replanOf =
     andThen wf_assertOpen (\<lambda>_.
     andThen (getWorkflowOrNull env (pr_planId r) (pr_version r)) (\<lambda>existing.
       case existing of
         Some w \<Rightarrow> ret w
       | None \<Rightarrow>
           andThen (wf_uuid env) (\<lambda>rid.
           andThen (wf_clock env) (\<lambda>t.
           andThen (lift_wf (hashApprovedPlan env r)) (\<lambda>planHash.
           andThen (lift_wf (createInitialState env r planHash (nonEmptyString parent) replanOf)) (\<lambda>st.
           andThen (createSuspendToken env (pr_planId r) (pr_version r) SrPlanApproval) (\<lambda>token.
           andThen (create_run env r rid t planHash st token) (\<lambda>_.
             reproject env (pr_planId r) (pr_version r)))))))))"

text \<open>The continuation most operations share: append events, then re-project.\<close>

definition append_and_reproject ::
    "workflow_env \<Rightarrow> ustr \<Rightarrow> int \<Rightarrow> workflow_event list \<Rightarrow> workflow_record wf_op" where
  "append_and_reproject env pid v es =
     andThen (appendEvents env pid v es) (\<lambda>_. reproject env pid v)"

definition finishWorkflow ::
    "workflow_env \<Rightarrow> ustr \<Rightarrow> int \<Rightarrow> workflow_status \<Rightarrow> ustr option \<Rightarrow> workflow_record wf_op" where
  "finishWorkflow env pid v status err =
     andThen (getWorkflow env pid v) (\<lambda>w.
       if wr_status w = status then ret w
       else append_and_reproject env pid v [PlanFinished status (nonEmptyString err)])"

definition approveWorkflow ::
    "workflow_env \<Rightarrow> plan_record \<Rightarrow> ustr option \<Rightarrow> workflow_record wf_op" where
  "approveWorkflow env r approvedBy =
     andThen (createForPlan env r None None) (\<lambda>_.
     andThen (getWorkflow env (pr_planId r) (pr_version r)) (\<lambda>w.
     andThen (lift_wf (hashApprovedPlan env r)) (\<lambda>approvedHash.
       if ws_approvedPlanHash (wr_state w) \<noteq> approvedHash then throw WHashMismatch
       else if wr_status w \<in> {WsApproved, WsExecuting, WsCompleted} then ret w
       else append_and_reproject env (pr_planId r) (pr_version r)
         (PlanApproved (pr_version r) approvedHash (nonEmptyString approvedBy) #
          (case su_token (ws_suspend (wr_state w)) of
             Some token \<Rightarrow> if token = [] then [] else [Resumed token]
           | None \<Rightarrow> [])))))"

definition rejectWorkflow ::
    "workflow_env \<Rightarrow> plan_record \<Rightarrow> ustr option \<Rightarrow> workflow_record wf_op" where
  "rejectWorkflow env r reason =
     andThen (createForPlan env r None None) (\<lambda>_.
       finishWorkflow env (pr_planId r) (pr_version r) WsRejected reason)"

definition step_key :: "workflow_record \<Rightarrow> ustr \<Rightarrow> int \<Rightarrow> ustr \<Rightarrow> ustr" where
  "step_key w pid v sid =
     (case jm_get (ws_stepIdempotencyKeys (wr_state w)) sid of
        Some k \<Rightarrow> k | None \<Rightarrow> createStepIdempotencyKey pid v sid)"

definition startStep ::
    "workflow_env \<Rightarrow> ustr \<Rightarrow> int \<Rightarrow> ustr \<Rightarrow> ustr option \<Rightarrow> workflow_record wf_op" where
  "startStep env pid v sid mastraRunId =
     andThen (getActiveWorkflow env pid v) (\<lambda>w.
       if sid \<in> set (ws_completedStepIds (wr_state w)) then ret w
       else append_and_reproject env pid v
         [StepStarted sid (step_key w pid v sid) (nonEmptyString mastraRunId),
          Heartbeat (Some sid) HbStepStart])"

definition completeStep ::
    "workflow_env \<Rightarrow> ustr \<Rightarrow> int \<Rightarrow> ustr \<Rightarrow> ustr option \<Rightarrow> workflow_record wf_op" where
  "completeStep env pid v sid resultRef =
     andThen (getActiveWorkflow env pid v) (\<lambda>w.
       if sid \<in> set (ws_completedStepIds (wr_state w)) then ret w
       else append_and_reproject env pid v
         [StepCompleted sid (step_key w pid v sid) (nonEmptyString resultRef),
          Heartbeat (Some sid) HbStepEnd])"

definition failStep ::
    "workflow_env \<Rightarrow> ustr \<Rightarrow> int \<Rightarrow> ustr \<Rightarrow> ustr \<Rightarrow> bool \<Rightarrow> workflow_record wf_op" where
  "failStep env pid v sid err retryable =
     andThen (getActiveWorkflow env pid v) (\<lambda>w.
       append_and_reproject env pid v [StepFailed sid (step_key w pid v sid) err retryable])"

definition heartbeat ::
    "workflow_env \<Rightarrow> ustr \<Rightarrow> int \<Rightarrow> ustr option \<Rightarrow> heartbeat_phase \<Rightarrow> workflow_record wf_op" where
  "heartbeat env pid v sid ph =
     andThen (getActiveWorkflow env pid v) (\<lambda>_.
       append_and_reproject env pid v [Heartbeat (nonEmptyString sid) ph])"

definition suspend_workflow ::
    "workflow_env \<Rightarrow> ustr \<Rightarrow> int \<Rightarrow> suspend_reason \<Rightarrow> json_value option \<Rightarrow> ustr option \<Rightarrow>
     ustr list option \<Rightarrow> workflow_record wf_op" where
  "suspend_workflow env pid v reason payload expiresAt allowed =
     andThen (getActiveWorkflow env pid v) (\<lambda>_.
     andThen (createSuspendToken env pid v reason) (\<lambda>token.
       append_and_reproject env pid v
         [Suspended reason token payload (nonEmptyString expiresAt)
            (orElse allowed buildDefaultResumeContract)]))"

text \<open>The payload is the report as JSON.\<close>

definition finding_to_json :: "report_finding \<Rightarrow> json_value" where
  "finding_to_json f = JObj [(''stepId'', case rf_stepId f of Some i \<Rightarrow> JStr i | None \<Rightarrow> JNull),
     (''severity'', enum_name risk_level_names (rf_severity f)),
     (''title'', JStr (rf_title f)), (''detail'', JStr (rf_detail f)),
     (''retryable'', JBool (rf_retryable f))]"

definition acceptance_to_json :: "report_acceptance \<Rightarrow> json_value" where
  "acceptance_to_json a = JObj [(''criterion'', JStr (ra_criterion a)),
     (''passed'', JBool (ra_passed a)), (''detail'', JStr (ra_detail a))]"

definition report_to_json :: "validation_report \<Rightarrow> json_value" where
  "report_to_json r = JObj [(''status'', enum_name report_status_names (vr_status r)),
     (''summary'', JStr (vr_summary r)), (''checkedStepIds'', jstrings (vr_checkedStepIds r)),
     (''needsReplan'', JBool (vr_needsReplan r)),
     (''findings'', JArr (map finding_to_json (vr_findings r))),
     (''acceptance'', JArr (map acceptance_to_json (vr_acceptance r)))]"

definition reportValidator ::
    "workflow_env \<Rightarrow> ustr \<Rightarrow> int \<Rightarrow> validation_report \<Rightarrow> workflow_record wf_op" where
  "reportValidator env pid v report =
     andThen (getActiveWorkflow env pid v) (\<lambda>_.
       if vr_needsReplan report
       then andThen (createSuspendToken env pid v SrValidatorNeedsReplan) (\<lambda>token.
         append_and_reproject env pid v
           [ValidatorReported report,
            Suspended SrValidatorNeedsReplan token
              (Some (JObj [(''report'', report_to_json report)])) None
              (map lit [''decision'', ''replanInstruction''])])
       else append_and_reproject env pid v [ValidatorReported report])"

definition issueReplan ::
    "workflow_env \<Rightarrow> ustr \<Rightarrow> int \<Rightarrow> int \<Rightarrow> plan_delta \<Rightarrow> ustr option \<Rightarrow> workflow_record wf_op" where
  "issueReplan env pid v toVersion delta deltaRef =
     andThen (getActiveWorkflow env pid v) (\<lambda>_.
       append_and_reproject env pid v
         [ReplanIssued v toVersion (nonEmptyString deltaRef) delta])"

definition close_workflow_store :: "unit wf_op" where
  "close_workflow_store = (\<lambda>s. (Inr (), if wd_closed s then s else s\<lparr>wd_closed := True\<rparr>))"

section \<open>Reading\<close>

lemma wf_assertOpen_state [simp]: "snd (wf_assertOpen s) = s"
  by (simp add: wf_assertOpen_def)

lemma toWorkflowRecord_Inr:
  "toWorkflowRecord env w = Inr r \<longleftrightarrow> 1 \<le> wx_planVersion w \<and> r = record_of_run w \<and>
     agentPlanWorkflowRecordSchema (we_isDatetime env) r"
  by (auto simp: toWorkflowRecord_def)

lemma getWorkflowOrNull_state: "snd (getWorkflowOrNull env pid v s) = s"
  by (simp add: getWorkflowOrNull_def andThen_apply wf_assertOpen_def split: option.splits)

lemma getWorkflowOrNull_Inr:
  assumes "getWorkflowOrNull env pid v s = (Inr r, s')"
  shows "s' = s \<and> (case r of None \<Rightarrow> select_run pid v s = None
    | Some rec \<Rightarrow> (\<exists>w. select_run pid v s = Some w \<and> rec = record_of_run w))"
proof (cases "select_run pid v s")
  case None
  with assms show ?thesis
    by (auto simp: getWorkflowOrNull_def andThen_apply wf_assertOpen_def split: if_splits)
next
  case (Some w)
  have rec: "\<And>x. toWorkflowRecord env w = Inr x \<Longrightarrow> x = record_of_run w"
    by (simp add: toWorkflowRecord_Inr)
  show ?thesis
    using assms Some rec
    by (cases "toWorkflowRecord env w")
      (auto simp: getWorkflowOrNull_def andThen_apply wf_assertOpen_def split: if_splits)
qed

lemma getWorkflow_state: "snd (getWorkflow env pid v s) = s"
  using getWorkflowOrNull_state [of env pid v s]
  by (auto simp: getWorkflow_def andThen_apply split: prod.splits sum.splits option.splits)

lemma getWorkflow_Inr:
  assumes "getWorkflow env pid v s = (Inr r, s')"
  shows "s' = s \<and> (\<exists>w. select_run pid v s = Some w \<and> r = record_of_run w)"
proof -
  from assms obtain x where "getWorkflowOrNull env pid v s = (Inr x, s')" "x = Some r"
    by (auto simp: getWorkflow_def andThen_apply split: prod.splits sum.splits option.splits)
  then show ?thesis using getWorkflowOrNull_Inr by fastforce
qed

lemma getActiveWorkflow_state: "snd (getActiveWorkflow env pid v s) = s"
  using getWorkflow_state [of env pid v s]
  by (auto simp: getActiveWorkflow_def andThen_apply split: prod.splits sum.splits)

lemma listEvents_state: "snd (listEvents env pid v s) = s"
  by (simp add: listEvents_def andThen_apply wf_assertOpen_def)

lemma map_events_Inr:
  "map_events env ws = Inr rs \<Longrightarrow> logged rs = map (\<lambda>w. (ev_createdAt w, ev_eventJson w)) ws"
proof (induction ws arbitrary: rs)
  case Nil
  then show ?case by (simp add: logged_def)
next
  case (Cons w ws)
  then obtain r rs' where r: "toWorkflowEventRecord env w = Inr r"
    and "map_events env ws = Inr rs'" "rs = r # rs'"
    by (cases "toWorkflowEventRecord env w"; cases "map_events env ws") auto
  moreover have "er_createdAt r = ev_createdAt w" "er_event r = ev_eventJson w"
    using r by (auto simp: toWorkflowEventRecord_def Let_def split: if_splits)
  ultimately show ?case using Cons.IH by (simp add: logged_def)
qed

lemma listEvents_Inr:
  "listEvents env pid v s = (Inr es, s') \<Longrightarrow>
   logged es = map (\<lambda>w. (ev_createdAt w, ev_eventJson w)) (select_events pid v s)"
  by (auto simp: listEvents_def andThen_apply wf_assertOpen_def split: if_splits
      intro: map_events_Inr)

section \<open>The invariant\<close>

text \<open>
  Runs have distinct keys, every event belongs to a run of its plan version, the log of a run is
  numbered 0, 1, 2, ..., and the saved state of a run is the projection of some prefix of its log
  over a fresh state without a rejection reason.
\<close>

definition log_rows :: "ustr \<Rightarrow> workflow_db \<Rightarrow> event_row list" where
  "log_rows rid s = filter (\<lambda>e. ev_workflowRunId e = rid) (wd_events s)"

definition log_of :: "ustr \<Rightarrow> workflow_db \<Rightarrow> (ustr \<times> workflow_event) list" where
  "log_of rid s = map (\<lambda>e. (ev_createdAt e, ev_eventJson e)) (log_rows rid s)"

definition start_state :: "workflow_state \<Rightarrow> bool" where
  "start_state s0 \<longleftrightarrow> fresh_state s0 \<and> ws_currentStepId s0 = None \<and>
     ap_reason (ws_approval s0) = None"

definition follows_log :: "workflow_state \<Rightarrow> (ustr \<times> workflow_event) list \<Rightarrow> workflow_state \<Rightarrow> bool" where
  "follows_log s0 lg st \<longleftrightarrow> start_state s0 \<and> (\<forall>e \<in> set lg. log_ids (ws_stepIds s0) e) \<and>
     (\<exists>done rest. lg = done @ rest \<and>
        (done = [] \<and> st = s0 \<or> state_agrees (pj_state (projectWorkflow s0 done)) st))"

definition run_ok :: "workflow_db \<Rightarrow> workflow_row \<Rightarrow> bool" where
  "run_ok s w \<longleftrightarrow> wx_status w \<noteq> WsRejected \<and>
     (\<exists>s0. follows_log s0 (log_of (wx_workflowRunId w) s) (wx_stateJson w))"

definition run_key :: "workflow_row \<Rightarrow> ustr \<times> int" where
  "run_key w = (wx_planId w, wx_planVersion w)"

definition workflow_ok :: "workflow_db \<Rightarrow> bool" where
  "workflow_ok s \<longleftrightarrow>
     distinct (map run_key (wd_runs s)) \<and> distinct (map wx_workflowRunId (wd_runs s)) \<and>
     (\<forall>e \<in> set (wd_events s). \<exists>w \<in> set (wd_runs s).
        wx_workflowRunId w = ev_workflowRunId e \<and> run_key w = (ev_planId e, ev_planVersion e)) \<and>
     (\<forall>rid. \<exists>n. map ev_seq (log_rows rid s) = [0..<n]) \<and>
     (\<forall>w \<in> set (wd_runs s). run_ok s w)"

lemma workflow_ok_frame:
  "workflow_ok (s\<lparr>wd_clock := n\<rparr>) = workflow_ok s"
  "workflow_ok (s\<lparr>wd_uuids := n\<rparr>) = workflow_ok s"
  "workflow_ok (s\<lparr>wd_closed := c\<rparr>) = workflow_ok s"
  by (simp_all add: workflow_ok_def run_ok_def log_of_def log_rows_def)

lemma workflow_okI:
  assumes "distinct (map run_key (wd_runs s))" and "distinct (map wx_workflowRunId (wd_runs s))"
    and "\<And>e. e \<in> set (wd_events s) \<Longrightarrow> \<exists>w \<in> set (wd_runs s).
        wx_workflowRunId w = ev_workflowRunId e \<and> run_key w = (ev_planId e, ev_planVersion e)"
    and "\<And>rid. \<exists>n. map ev_seq (log_rows rid s) = [0..<n]"
    and "\<And>w. w \<in> set (wd_runs s) \<Longrightarrow> run_ok s w"
  shows "workflow_ok s"
  unfolding workflow_ok_def by (intro conjI ballI allI) (rule assms; assumption?)+

lemma workflow_ok_owner:
  assumes "workflow_ok s" and "e \<in> set (wd_events s)"
  shows "\<exists>w \<in> set (wd_runs s). wx_workflowRunId w = ev_workflowRunId e \<and>
    run_key w = (ev_planId e, ev_planVersion e)"
  using assms unfolding workflow_ok_def by (elim conjE) (rule bspec)

lemma workflow_okD:
  assumes "workflow_ok s"
  shows "distinct (map run_key (wd_runs s))" and "distinct (map wx_workflowRunId (wd_runs s))"
    and "\<exists>n. map ev_seq (log_rows rid s) = [0..<n]"
    and "w \<in> set (wd_runs s) \<Longrightarrow> run_ok s w"
  using assms unfolding workflow_ok_def by blast+

lemma select_run_mem:
  "select_run pid v s = Some w \<Longrightarrow> w \<in> set (wd_runs s) \<and> run_key w = (pid, v)"
  unfolding select_run_def run_key_def by (auto simp: find_Some_iff)

text \<open>The events of a plan version are the log of its run, in insertion order.\<close>

lemma select_events_log:
  assumes "workflow_ok s" and "w \<in> set (wd_runs s)" and "run_key w = (pid, v)"
  shows "select_events pid v s = log_rows (wx_workflowRunId w) s"
proof -
  have "ev_planId e = pid \<and> ev_planVersion e = v \<longleftrightarrow> ev_workflowRunId e = wx_workflowRunId w"
    if e: "e \<in> set (wd_events s)" for e
  proof -
    obtain w' where w': "w' \<in> set (wd_runs s)" "wx_workflowRunId w' = ev_workflowRunId e"
      "run_key w' = (ev_planId e, ev_planVersion e)"
      using assms(1) e unfolding workflow_ok_def by blast
    have k: "inj_on run_key (set (wd_runs s))" and i: "inj_on wx_workflowRunId (set (wd_runs s))"
      using assms(1) by (auto simp: workflow_ok_def distinct_map)
    show ?thesis
    proof
      assume "ev_planId e = pid \<and> ev_planVersion e = v"
      then have "run_key w' = run_key w" using w' assms(3) by simp
      then have "w' = w" using k w'(1) assms(2) by (auto simp: inj_on_def)
      then show "ev_workflowRunId e = wx_workflowRunId w" using w'(2) by simp
    next
      assume "ev_workflowRunId e = wx_workflowRunId w"
      then have "w' = w" using i w' assms(2) by (auto simp: inj_on_def)
      then show "ev_planId e = pid \<and> ev_planVersion e = v" using w'(3) assms(3) by simp
    qed
  qed
  then have "filter (\<lambda>e. ev_planId e = pid \<and> ev_planVersion e = v) (wd_events s) =
      log_rows (wx_workflowRunId w) s"
    unfolding log_rows_def by (intro filter_cong) auto
  moreover obtain n where "map ev_seq (log_rows (wx_workflowRunId w) s) = [0..<n]"
    using assms(1) unfolding workflow_ok_def by blast
  then have "sorted (map ev_seq (log_rows (wx_workflowRunId w) s))" by simp
  ultimately show ?thesis by (simp add: select_events_def sort_key_id_if_sorted)
qed

section \<open>Preservation\<close>

lemma next_seq_log:
  assumes "map ev_seq (log_rows rid s) = [0..<n]"
  shows "next_seq rid s = n"
proof -
  have "foldr max (map Suc [0..<n]) a = max a n" for a
    by (induction n arbitrary: a) auto
  moreover have "map (\<lambda>w. ev_seq w + 1) (log_rows rid s) = map Suc [0..<n]"
    unfolding assms [symmetric] by simp
  ultimately show ?thesis unfolding next_seq_def log_rows_def [symmetric] by simp
qed

lemma insert_events_Inr:
  "insert_events env ids rid pid v sq t u es = Inr rows \<Longrightarrow>
     map ev_seq rows = [sq..<sq + length es] \<and> map ev_eventJson rows = es \<and>
     (\<forall>e \<in> set rows. ev_workflowRunId e = rid \<and> ev_planId e = pid \<and> ev_planVersion e = v \<and>
        ev_createdAt e = t)"
proof (induction es arbitrary: ids sq u rows)
  case (Cons e es)
  then obtain rows' where "insert_events env (we_uuid env u # ids) rid pid v (sq + 1) t (u + 1) es = Inr rows'"
    "rows = \<lparr>ev_eventId = we_uuid env u, ev_workflowRunId = rid, ev_planId = pid,
               ev_planVersion = v, ev_seq = sq, ev_createdAt = t, ev_eventJson = e\<rparr> # rows'"
    by (cases "insert_events env (we_uuid env u # ids) rid pid v (sq + 1) t (u + 1) es") (auto split: if_splits)
  with Cons.IH [of "we_uuid env u # ids" "sq + 1" "u + 1" rows'] have IH: "map ev_seq rows' = [sq + 1..<sq + 1 + length es]"
    "map ev_eventJson rows' = es"
    "\<forall>e \<in> set rows'. ev_workflowRunId e = rid \<and> ev_planId e = pid \<and> ev_planVersion e = v \<and>
        ev_createdAt e = t"
    and rows: "rows = \<lparr>ev_eventId = we_uuid env u, ev_workflowRunId = rid, ev_planId = pid,
               ev_planVersion = v, ev_seq = sq, ev_createdAt = t, ev_eventJson = e\<rparr> # rows'"
    by auto
  have "[sq..<sq + length (e # es)] = sq # [sq + 1..<sq + 1 + length es]"
    using upt_conv_Cons [of sq "sq + length (e # es)"] by (simp del: upt.simps)
  with IH show ?case unfolding rows by (simp del: upt.simps)
qed simp

fun generates :: "workflow_event \<Rightarrow> bool" where
  "generates (PlanGenerated pid v tid h ids) = True"
| "generates e = False"

lemma log_ids_other: "\<not> generates e \<Longrightarrow> log_ids ids (t, e)"
  by (cases e) simp_all

lemma follows_log_append:
  assumes "follows_log s0 lg st" and "\<forall>e \<in> set es. \<not> generates (snd e)"
  shows "follows_log s0 (lg @ es) st"
proof -
  have ids: "\<forall>e \<in> set (lg @ es). log_ids (ws_stepIds s0) e"
    using assms log_ids_other by (force simp: follows_log_def)
  obtain xs ys where "lg = xs @ ys"
    and "xs = [] \<and> st = s0 \<or> state_agrees (pj_state (projectWorkflow s0 xs)) st"
    using assms(1) by (auto simp: follows_log_def)
  then have "\<exists>ds rest. lg @ es = ds @ rest \<and>
      (ds = [] \<and> st = s0 \<or> state_agrees (pj_state (projectWorkflow s0 ds)) st)"
    by (intro exI [of _ xs] exI [of _ "ys @ es"]) simp
  with ids assms(1) show ?thesis by (simp add: follows_log_def)
qed

lemma log_rows_commit:
  assumes "insert_events env ids r pid v sq t u es = Inr rows"
  shows "log_rows rid (commit_events rows s) =
    log_rows rid s @ (if rid = r then rows else [])"
  using insert_events_Inr [OF assms]
  by (auto simp: log_rows_def commit_events_def filter_empty_conv filter_id_conv)

lemma log_of_commit:
  assumes "insert_events env ids r pid v sq t u es = Inr rows"
  shows "log_of rid (commit_events rows s) =
    log_of rid s @ (if rid = r then map (\<lambda>e. (t, e)) es else [])"
proof -
  note ins = insert_events_Inr [OF assms]
  have "map (\<lambda>e. (ev_createdAt e, ev_eventJson e)) rows = map (\<lambda>e. (t, e)) (map ev_eventJson rows)"
    unfolding map_map by (rule map_cong) (use ins in auto)
  then have "map (\<lambda>e. (ev_createdAt e, ev_eventJson e)) rows = map (\<lambda>e. (t, e)) es"
    using ins by (simp only:)
  then show ?thesis unfolding log_of_def log_rows_commit [OF assms] by simp
qed

lemma commit_ok:
  assumes ok: "workflow_ok s" and w: "w \<in> set (wd_runs s)" "run_key w = (pid, v)"
    and ins: "insert_events env ids (wx_workflowRunId w) pid v (next_seq (wx_workflowRunId w) s) t u es =
      Inr rows"
    and gen: "\<forall>e \<in> set es. \<not> generates e"
  shows "workflow_ok (commit_events rows s)"
proof -
  let ?rid = "wx_workflowRunId w" and ?s = "commit_events rows s"
  have runs: "wd_runs ?s = wd_runs s" by (simp add: commit_events_def)
  have events: "wd_events ?s = wd_events s @ rows" by (simp add: commit_events_def)
  note rows = insert_events_Inr [OF ins]
  have seqs: "\<exists>n. map ev_seq (log_rows rid ?s) = [0..<n]" for rid
  proof -
    obtain n where n: "map ev_seq (log_rows rid s) = [0..<n]"
      using ok unfolding workflow_ok_def by blast
    show ?thesis
    proof (cases "rid = ?rid")
      case True
      then have "map ev_seq rows = [n..<n + length es]"
        using n next_seq_log rows by simp
      with n True show ?thesis
        by (intro exI [of _ "n + length es"])
          (simp add: log_rows_commit [OF ins] upt_add_eq_append [of 0 n])
    next
      case False
      with n show ?thesis by (intro exI [of _ n]) (simp add: log_rows_commit [OF ins])
    qed
  qed
  have run: "run_ok ?s x" if x: "x \<in> set (wd_runs s)" for x
  proof -
    obtain s0 where s0: "follows_log s0 (log_of (wx_workflowRunId x) s) (wx_stateJson x)"
      and "wx_status x \<noteq> WsRejected"
      using ok x unfolding workflow_ok_def run_ok_def by blast
    moreover have "follows_log s0 (log_of (wx_workflowRunId x) ?s) (wx_stateJson x)"
      unfolding log_of_commit [OF ins] using s0 gen by (intro follows_log_append) auto
    ultimately show ?thesis unfolding run_ok_def by blast
  qed
  have owner: "\<exists>x \<in> set (wd_runs s). wx_workflowRunId x = ev_workflowRunId e \<and>
      run_key x = (ev_planId e, ev_planVersion e)" if "e \<in> set (wd_events ?s)" for e
    using that ok rows w unfolding events workflow_ok_def by auto
  show ?thesis
    using ok run seqs owner unfolding workflow_ok_def runs by blast
qed

lemma projection_rejected:
  "pj_status p = WsRejected \<longrightarrow> ap_rejected (ws_approval (pj_state p)) \<Longrightarrow>
   pj_status (project_event e p) = WsRejected \<longrightarrow>
     ap_rejected (ws_approval (pj_state (project_event e p)))"
  by (cases e rule: event_cases) (auto simp: Let_def)

lemma project_rejected:
  "pj_status (projectWorkflow s es) = WsRejected \<Longrightarrow>
   ap_rejected (ws_approval (pj_state (projectWorkflow s es)))"
proof -
  have "pj_status (fold project_event es p) = WsRejected \<longrightarrow>
      ap_rejected (ws_approval (pj_state (fold project_event es p)))"
    if "pj_status p = WsRejected \<longrightarrow> ap_rejected (ws_approval (pj_state p))" for p
    using that by (induction es arbitrary: p) (simp_all add: projection_rejected)
  then show "pj_status (projectWorkflow s es) = WsRejected \<Longrightarrow>
      ap_rejected (ws_approval (pj_state (projectWorkflow s es)))"
    by (simp add: projectWorkflow_def initial_projection_def)
qed

lemma project_reason:
  "ap_reason (ws_approval (pj_state (projectWorkflow s es))) = ap_reason (ws_approval s)"
proof -
  have "ap_reason (ws_approval (pj_state (project_event e p))) = ap_reason (ws_approval (pj_state p))"
    for e p by (cases e rule: event_cases) (auto simp: Let_def)
  then have "ap_reason (ws_approval (pj_state (fold project_event es p))) =
      ap_reason (ws_approval (pj_state p))" for p
    by (induction es arbitrary: p) simp_all
  then show ?thesis by (simp add: projectWorkflow_def initial_projection_def)
qed

lemma follows_log_reason:
  assumes "follows_log s0 lg st"
  shows "ap_reason (ws_approval st) = None"
proof -
  obtain ds where "start_state s0"
    and "ds = [] \<and> st = s0 \<or> state_agrees (pj_state (projectWorkflow s0 ds)) st"
    using assms unfolding follows_log_def by blast
  then show ?thesis
    using project_reason [of s0 ds] state_agreesD(13) by (auto simp: start_state_def)
qed

lemma serialize_Inr: "serializeWorkflowState env st = Inr st' \<Longrightarrow>
    st' = st \<and> agentPlanWorkflowStateSchema (we_isDatetime env) st"
  by (auto simp: serializeWorkflowState_def split: if_splits)

text \<open>A projection that says \<open>rejected\<close> has no reason, so it cannot be saved.\<close>

lemma saved_not_rejected:
  assumes "follows_log s0 lg st" and "serializeWorkflowState env (pj_state (projectWorkflow st es)) = Inr st'"
  shows "pj_status (projectWorkflow st es) \<noteq> WsRejected"
proof
  assume "pj_status (projectWorkflow st es) = WsRejected"
  then have "ap_rejected (ws_approval (pj_state (projectWorkflow st es)))" by (rule project_rejected)
  moreover have "ap_reason (ws_approval (pj_state (projectWorkflow st es))) = None"
    using follows_log_reason [OF assms(1)] by (simp add: project_reason)
  ultimately show False
    using serialize_Inr [OF assms(2)]
    by (simp add: agentPlanWorkflowStateSchema_def approvalSubstateSchema_def)
qed

lemma projected_follows:
  assumes "follows_log s0 lg st"
  shows "follows_log s0 lg (pj_state (projectWorkflow st lg))"
    and "projection_agrees (projectWorkflow s0 lg) (projectWorkflow st lg)"
proof -
  obtain ds rest where start: "start_state s0" and ids: "\<forall>e \<in> set lg. log_ids (ws_stepIds s0) e"
    and lg: "lg = ds @ rest"
    and st: "ds = [] \<and> st = s0 \<or> state_agrees (pj_state (projectWorkflow s0 ds)) st"
    using assms unfolding follows_log_def by blast
  show agrees: "projection_agrees (projectWorkflow s0 lg) (projectWorkflow st lg)"
    unfolding lg using start ids st lg
    by (intro reproject_step) (auto simp: start_state_def)
  have "state_agrees (pj_state (projectWorkflow s0 lg)) (pj_state (projectWorkflow st lg))"
    using agrees by (rule projection_agreesD(9))
  then show "follows_log s0 lg (pj_state (projectWorkflow st lg))"
    using start ids unfolding follows_log_def by (metis append_Nil2)
qed

lemma distinct_run: "\<lbrakk>workflow_ok s; w \<in> set (wd_runs s); w' \<in> set (wd_runs s);
    wx_workflowRunId w' = wx_workflowRunId w\<rbrakk> \<Longrightarrow> w' = w"
  by (auto simp: workflow_ok_def distinct_map inj_on_def)

lemma update_run_ok:
  assumes ok: "workflow_ok s" and w: "w \<in> set (wd_runs s)"
    and p: "p = projectWorkflow (wx_stateJson w) (log_of (wx_workflowRunId w) s)"
    and ser: "serializeWorkflowState env (pj_state p) = Inr saved"
  shows "workflow_ok (update_run (wx_workflowRunId w) n p t saved s)"
proof -
  let ?f = "\<lambda>x. if wx_workflowRunId x = wx_workflowRunId w \<and> wx_revision x = n
      then write_projection p t saved x else x"
  let ?s = "update_run (wx_workflowRunId w) n p t saved s"
  have runs: "wd_runs ?s = map ?f (wd_runs s)" and ev: "wd_events ?s = wd_events s"
    by (simp_all add: update_run_def)
  have key: "run_key (?f x) = run_key x" "wx_workflowRunId (?f x) = wx_workflowRunId x" for x
    by (simp_all add: run_key_def write_projection_def)
  have logs: "log_rows rid ?s = log_rows rid s" "log_of rid ?s = log_of rid s" for rid
    by (simp_all add: log_rows_def log_of_def ev)
  obtain s0 where s0: "follows_log s0 (log_of (wx_workflowRunId w) s) (wx_stateJson w)"
    using ok w unfolding workflow_ok_def run_ok_def by blast
  have run: "run_ok ?s (?f x)" if x: "x \<in> set (wd_runs s)" for x
  proof (cases "wx_workflowRunId x = wx_workflowRunId w \<and> wx_revision x = n")
    case True
    then have "x = w" using distinct_run [OF ok w x] by simp
    have "pj_status p \<noteq> WsRejected"
      unfolding p by (rule saved_not_rejected [OF s0 ser [unfolded p]])
    moreover have "follows_log s0 (log_of (wx_workflowRunId w) s) saved"
      using projected_follows(1) [OF s0] serialize_Inr [OF ser] by (simp add: p)
    ultimately show ?thesis
      using True unfolding run_ok_def logs by (auto simp: write_projection_def)
  next
    case False
    then have "?f x = x" by (rule if_not_P)
    moreover have "run_ok s x" using ok x unfolding workflow_ok_def by blast
    ultimately show ?thesis unfolding run_ok_def logs by simp
  qed
  have maps: "map run_key (wd_runs ?s) = map run_key (wd_runs s)"
    "map wx_workflowRunId (wd_runs ?s) = map wx_workflowRunId (wd_runs s)"
    unfolding runs map_map by (rule map_cong; simp add: key)+
  have owner: "\<exists>x \<in> set (wd_runs ?s). wx_workflowRunId x = ev_workflowRunId e \<and>
      run_key x = (ev_planId e, ev_planVersion e)" if e: "e \<in> set (wd_events s)" for e
  proof -
    obtain x where x: "x \<in> set (wd_runs s)" "wx_workflowRunId x = ev_workflowRunId e"
      "run_key x = (ev_planId e, ev_planVersion e)"
      using ok e unfolding workflow_ok_def by blast
    have "?f x \<in> set (wd_runs ?s)" unfolding runs list.set_map using x(1) by (rule imageI)
    then show ?thesis using x(2,3) key [of x] by (intro bexI [of _ "?f x"] conjI) (simp_all only:)
  qed
  have runs_ok: "\<forall>x \<in> set (wd_runs ?s). run_ok ?s x"
    unfolding runs list.set_map using run by blast
  show ?thesis
  proof (rule workflow_okI)
    show "distinct (map run_key (wd_runs ?s))" "distinct (map wx_workflowRunId (wd_runs ?s))"
      unfolding maps by (rule workflow_okD [OF ok])+
    show "\<exists>n. map ev_seq (log_rows rid ?s) = [0..<n]" for rid
      unfolding logs by (rule workflow_okD [OF ok])
    show "run_ok ?s x" if "x \<in> set (wd_runs ?s)" for x
      using runs_ok that by (rule bspec)
    show "\<exists>x \<in> set (wd_runs ?s). wx_workflowRunId x = ev_workflowRunId e \<and>
        run_key x = (ev_planId e, ev_planVersion e)" if "e \<in> set (wd_events ?s)" for e
      using that unfolding ev by (rule owner)
  qed
qed

text \<open>Creation: a new run with its two events, or nothing.\<close>

lemma fresh_log: "\<lbrakk>workflow_ok s; rid \<notin> wx_workflowRunId ` set (wd_runs s)\<rbrakk> \<Longrightarrow> log_rows rid s = []"
proof -
  assume a: "workflow_ok s" "rid \<notin> wx_workflowRunId ` set (wd_runs s)"
  have "ev_workflowRunId e \<noteq> rid" if e: "e \<in> set (wd_events s)" for e
  proof -
    obtain w where "w \<in> set (wd_runs s)" "wx_workflowRunId w = ev_workflowRunId e"
      using workflow_ok_owner [OF a(1) e] by blast
    then show ?thesis using a(2) imageI [of w "set (wd_runs s)" wx_workflowRunId] by auto
  qed
  then show ?thesis by (simp add: log_rows_def filter_empty_conv)
qed

lemma follows_log_start:
  assumes "start_state s0" and "\<forall>e \<in> set lg. log_ids (ws_stepIds s0) e"
  shows "follows_log s0 lg s0"
proof -
  have "\<exists>ds rest. lg = ds @ rest \<and>
      (ds = [] \<and> s0 = s0 \<or> state_agrees (pj_state (projectWorkflow s0 ds)) s0)"
    by (intro exI [of _ "[]"] exI [of _ lg]) simp
  with assms show ?thesis by (simp add: follows_log_def)
qed

lemma create_run_ok:
  assumes ok: "workflow_ok s" and st: "start_state st"
  shows "workflow_ok (snd (create_run env r rid t planHash st token s))"
proof (cases "snd (create_run env r rid t planHash st token s) = s")
  case False
  then obtain rows where new: "select_run (pr_planId r) (pr_version r) s = None"
      "rid \<notin> wx_workflowRunId ` set (wd_runs s)"
    and ser: "serializeWorkflowState env st = Inr st"
    and ins: "insert_events env (map ev_eventId (wd_events s)) rid (pr_planId r) (pr_version r) 0 t (wd_uuids s)
      (creation_events r planHash st token) = Inr rows"
    and s': "snd (create_run env r rid t planHash st token s) = commit_events rows
      (s\<lparr>wd_runs := wd_runs s @ [initial_run r rid planHash t st]\<rparr>)"
    by (auto simp: create_run_def serializeWorkflowState_def split: if_splits sum.splits)
  let ?w = "initial_run r rid planHash t st"
  let ?s = "s\<lparr>wd_runs := wd_runs s @ [?w]\<rparr>"
  have w: "wx_workflowRunId ?w = rid" "run_key ?w = (pr_planId r, pr_version r)"
    "wx_stateJson ?w = st" "wx_status ?w \<noteq> WsRejected"
    by (simp_all add: initial_run_def run_key_def)
  have empty: "log_rows rid s = []" by (rule fresh_log [OF ok new(2)])
  have logs: "log_rows i ?s = log_rows i s" "log_of i ?s = log_of i s" for i
    by (simp_all add: log_rows_def log_of_def)
  note rows = insert_events_Inr [OF ins]
  have key: "run_key ?w \<notin> run_key ` set (wd_runs s)"
    using new(1) by (auto simp: select_run_def find_None_iff run_key_def initial_run_def)
  have runs: "wd_runs (commit_events rows ?s) = wd_runs s @ [?w]" by (simp add: commit_events_def)
  have events: "wd_events (commit_events rows ?s) = wd_events s @ rows" by (simp add: commit_events_def)
  have log_new: "log_of rid (commit_events rows ?s) =
      map (\<lambda>e. (t, e)) (creation_events r planHash st token)"
    unfolding log_of_commit [OF ins] logs using empty by (simp add: log_of_def)
  have log_old: "log_of i (commit_events rows ?s) = log_of i s" if "i \<noteq> rid" for i
    unfolding log_of_commit [OF ins] logs using that by simp
  have "follows_log st (log_of rid (commit_events rows ?s)) st"
    unfolding log_new using st by (rule follows_log_start) (auto simp: creation_events_def)
  then have new_ok: "run_ok (commit_events rows ?s) ?w" unfolding run_ok_def using w by auto
  have old_ok: "run_ok (commit_events rows ?s) x" if x: "x \<in> set (wd_runs s)" for x
  proof -
    have "wx_workflowRunId x \<noteq> rid" using new(2) x by blast
    then show ?thesis using ok x log_old unfolding workflow_ok_def run_ok_def by auto
  qed
  have seqs: "\<exists>n. map ev_seq (log_rows i (commit_events rows ?s)) = [0..<n]" for i
  proof (cases "i = rid")
    case True
    then show ?thesis using rows empty by (auto simp: log_rows_commit [OF ins] logs)
  next
    case False
    then show ?thesis using ok unfolding workflow_ok_def by (auto simp: log_rows_commit [OF ins] logs)
  qed
  have owner: "\<exists>x \<in> set (wd_runs s @ [?w]). wx_workflowRunId x = ev_workflowRunId e \<and>
      run_key x = (ev_planId e, ev_planVersion e)" if e: "e \<in> set (wd_events s @ rows)" for e
  proof (cases "e \<in> set rows")
    case True
    then show ?thesis using rows w by auto
  next
    case False
    then have "e \<in> set (wd_events s)" using e by simp
    then show ?thesis using ok unfolding workflow_ok_def by fastforce
  qed
  show ?thesis
    unfolding s' workflow_ok_def runs events
    using ok key new(2) w new_ok old_ok seqs owner unfolding workflow_ok_def by auto
qed (use ok in simp)

section \<open>Calls\<close>

datatype workflow_call =
    CallCreate plan_record "ustr option" "int option"
  | CallApprove plan_record "ustr option"
  | CallReject plan_record "ustr option"
  | CallStart ustr int ustr "ustr option"
  | CallComplete ustr int ustr "ustr option"
  | CallFail ustr int ustr ustr bool
  | CallHeartbeat ustr int "ustr option" heartbeat_phase
  | CallSuspend ustr int suspend_reason "json_value option" "ustr option" "ustr list option"
  | CallReport ustr int validation_report
  | CallReplan ustr int int plan_delta "ustr option"
  | CallFinish ustr int workflow_status "ustr option"
  | CallReproject ustr int
  | CallClose

fun run_call :: "workflow_env \<Rightarrow> workflow_call \<Rightarrow> workflow_record option wf_op" where
  "run_call env (CallCreate r p o') = andThen (createForPlan env r p o') (\<lambda>w. ret (Some w))"
| "run_call env (CallApprove r byw) = andThen (approveWorkflow env r byw) (\<lambda>w. ret (Some w))"
| "run_call env (CallReject r reason) = andThen (rejectWorkflow env r reason) (\<lambda>w. ret (Some w))"
| "run_call env (CallStart pid v sid m) = andThen (startStep env pid v sid m) (\<lambda>w. ret (Some w))"
| "run_call env (CallComplete pid v sid r) =
     andThen (completeStep env pid v sid r) (\<lambda>w. ret (Some w))"
| "run_call env (CallFail pid v sid e rt) =
     andThen (failStep env pid v sid e rt) (\<lambda>w. ret (Some w))"
| "run_call env (CallHeartbeat pid v sid ph) =
     andThen (heartbeat env pid v sid ph) (\<lambda>w. ret (Some w))"
| "run_call env (CallSuspend pid v r pl x al) =
     andThen (suspend_workflow env pid v r pl x al) (\<lambda>w. ret (Some w))"
| "run_call env (CallReport pid v rp) = andThen (reportValidator env pid v rp) (\<lambda>w. ret (Some w))"
| "run_call env (CallReplan pid v n d ref) =
     andThen (issueReplan env pid v n d ref) (\<lambda>w. ret (Some w))"
| "run_call env (CallFinish pid v st e) =
     andThen (finishWorkflow env pid v st e) (\<lambda>w. ret (Some w))"
| "run_call env (CallReproject pid v) = andThen (reproject env pid v) (\<lambda>w. ret (Some w))"
| "run_call env CallClose = andThen close_workflow_store (\<lambda>_. ret None)"

definition exec_call :: "workflow_env \<Rightarrow> workflow_db \<Rightarrow> workflow_call \<Rightarrow> workflow_db" where
  "exec_call env s c = snd (run_call env c s)"

section \<open>Relations every call keeps\<close>

lemma keeps_state: "\<lbrakk>reflp R; \<And>s. snd (m s) = s\<rbrakk> \<Longrightarrow> keeps R m"
  by (simp add: keeps_def reflp_def)

lemma andThen_lift:
  "andThen (lift_wf (Inl e)) f = throw e" "andThen (lift_wf (Inr x)) g = g x"
  by (rule ext, simp add: lift_wf_def)+

text \<open>A relation between the database before and after that the basic steps keep is kept by
  every call.\<close>

locale workflow_steps =
  fixes env :: workflow_env
    and R :: "workflow_db \<Rightarrow> workflow_db \<Rightarrow> bool"
  assumes refl: "reflp R" and trans: "transp R"
    and clock: "keeps R (wf_clock env)"
    and uuid: "keeps R (wf_uuid env)"
    and close: "keeps R close_workflow_store"
    and append: "\<forall>e \<in> set es. \<not> generates e \<Longrightarrow> keeps R (appendEvents env pid v es)"
    and reproject: "keeps R (reproject env pid v)"
    and create: "createInitialState env r h p n = Inr st \<Longrightarrow>
      keeps R (create_run env r rid t h st token)"
begin

lemma seq: "\<lbrakk>keeps R m; \<And>x. keeps R (f x)\<rbrakk> \<Longrightarrow> keeps R (andThen m f)"
  using trans by (rule keeps_andThen)

lemma branch: "\<lbrakk>keeps R a; keeps R b\<rbrakk> \<Longrightarrow> keeps R (if c then a else b)"
  by simp

lemma reads:
  "keeps R (ret x)" "keeps R (throw e)" "keeps R wf_assertOpen"
  "keeps R (getWorkflow env pid v)" "keeps R (getWorkflowOrNull env pid v)"
  "keeps R (getActiveWorkflow env pid v)" "keeps R (lift_wf y)"
  using refl
  by (auto intro: keeps_state simp: getWorkflow_state getWorkflowOrNull_state
      getActiveWorkflow_state lift_wf_def split: sum.splits)

lemma token: "keeps R (createSuspendToken env pid v rs)"
  unfolding createSuspendToken_def by (intro seq uuid reads)

lemma append_reproject:
  "\<forall>e \<in> set es. \<not> generates e \<Longrightarrow> keeps R (append_and_reproject env pid v es)"
  unfolding append_and_reproject_def by (intro seq append reproject)

lemma create_call: "keeps R (createForPlan env r parent replanOf)"
proof -
  have step: "keeps R (andThen (lift_wf (createInitialState env r h p n)) (\<lambda>st.
      andThen (createSuspendToken env i v SrPlanApproval) (\<lambda>tok.
      andThen (create_run env r rid t h st tok) (\<lambda>_. reproject env i v))))" for h p n i v rid t
  proof (cases "createInitialState env r h p n")
    case (Inl e)
    then show ?thesis by (simp add: andThen_lift reads)
  next
    case (Inr st)
    then show ?thesis
      unfolding Inr andThen_lift by (intro seq token reproject create [OF Inr])
  qed
  show ?thesis
    unfolding createForPlan_def
    by (intro seq reads) (auto split: option.splits intro!: seq reads uuid clock step)
qed

lemmas steps = seq branch reads token append_reproject create_call

lemma finish_call: "keeps R (finishWorkflow env pid v st e)"
  unfolding finishWorkflow_def by (intro steps) auto

lemma approve_call: "keeps R (approveWorkflow env r byw)"
  unfolding approveWorkflow_def by (intro steps) (auto split: option.splits)

lemma report_call: "keeps R (reportValidator env pid v rp)"
  unfolding reportValidator_def by (intro steps) auto

lemma step_calls:
  "keeps R (startStep env pid v sid m)" "keeps R (completeStep env pid v sid ref)"
  "keeps R (failStep env pid v sid e rt)" "keeps R (heartbeat env pid v hs ph)"
  "keeps R (suspend_workflow env pid v rs pl x al)" "keeps R (issueReplan env pid v n d dr)"
  unfolding startStep_def completeStep_def failStep_def heartbeat_def suspend_workflow_def
    issueReplan_def
  by (intro steps; auto)+

lemma call: "R s (exec_call env s c)"
proof -
  have "keeps R (run_call env c)"
    by (cases c) (auto simp: rejectWorkflow_def intro!: seq reads create_call approve_call
        finish_call step_calls report_call reproject close)
  then show ?thesis by (simp add: keeps_def exec_call_def)
qed

end

section \<open>Every call keeps the invariant\<close>

definition keeps_ok :: "'a wf_op \<Rightarrow> bool" where
  "keeps_ok m \<longleftrightarrow> keeps (\<lambda>s s'. workflow_ok s \<longrightarrow> workflow_ok s') m"

lemma keeps_okI: "(\<And>s. workflow_ok s \<Longrightarrow> workflow_ok (snd (m s))) \<Longrightarrow> keeps_ok m"
  by (simp add: keeps_ok_def keeps_def)

lemma appendEvents_ok:
  assumes "\<forall>e \<in> set es. \<not> generates e"
  shows "keeps_ok (appendEvents env pid v es)"
proof (rule keeps_okI)
  fix s assume ok: "workflow_ok s"
  show "workflow_ok (snd (appendEvents env pid v es s))"
  proof (cases "getWorkflow env pid v s")
    case (Pair x s1)
    show ?thesis
    proof (cases x)
      case (Inl e)
      then show ?thesis using Pair getWorkflow_state [of env pid v s] ok
        by (simp add: appendEvents_def)
    next
      case (Inr rec)
      then obtain w where s1: "s1 = s" and sel: "select_run pid v s = Some w"
        and rec: "rec = record_of_run w"
        using getWorkflow_Inr Pair by blast
      let ?s = "snd (wf_clock env s)" and ?t = "we_now env (wd_clock s)"
      have ok': "workflow_ok ?s" using ok by (simp add: wf_clock_def workflow_ok_frame)
      have w: "w \<in> set (wd_runs ?s)" "run_key w = (pid, v)"
        using select_run_mem [OF sel] by (simp_all add: wf_clock_def)
      have rid: "wr_workflowRunId rec = wx_workflowRunId w" by (simp add: rec record_of_run_def)
      have clk: "wf_clock env s = (Inr ?t, ?s)" by (simp add: wf_clock_def)
      have run: "appendEvents env pid v es s = (if es = [] then (Inr (), s) else
          (case insert_events env (map ev_eventId (wd_events ?s)) (wx_workflowRunId w) pid v
             (next_seq (wx_workflowRunId w) ?s) ?t
             (wd_uuids ?s) es of
             Inl e \<Rightarrow> (Inl e, ?s) | Inr rows \<Rightarrow> (Inr (), commit_events rows ?s)))"
        using Pair Inr s1 rid clk by (simp add: appendEvents_def)
      show ?thesis
        unfolding run using ok ok' commit_ok [OF ok' w _ assms]
        by (auto split: sum.splits)
    qed
  qed
qed

lemma reproject_ok: "keeps_ok (reproject env pid v)"
proof (rule keeps_okI)
  fix s assume ok: "workflow_ok s"
  show "workflow_ok (snd (reproject env pid v s))"
  proof (cases "\<exists>rec es. getWorkflow env pid v s = (Inr rec, s) \<and> listEvents env pid v s = (Inr es, s)")
    case False
    then have "snd (reproject env pid v s) = s"
      using getWorkflow_state [of env pid v s] listEvents_state [of env pid v s]
      by (cases "getWorkflow env pid v s"; cases "fst (getWorkflow env pid v s)";
          cases "listEvents env pid v s"; cases "fst (listEvents env pid v s)")
        (auto simp: reproject_def)
    with ok show ?thesis by simp
  next
    case True
    then obtain rec es where g: "getWorkflow env pid v s = (Inr rec, s)"
      and l: "listEvents env pid v s = (Inr es, s)" by blast
    obtain w where sel: "select_run pid v s = Some w" and rec: "rec = record_of_run w"
      using getWorkflow_Inr [OF g] by blast
    note w = select_run_mem [OF sel]
    have lg: "logged es = log_of (wx_workflowRunId w) s"
      using listEvents_Inr [OF l] select_events_log [OF ok conjunct1 [OF w] conjunct2 [OF w]]
      by (simp add: log_of_def)
    let ?p = "projectWorkflow (wx_stateJson w) (log_of (wx_workflowRunId w) s)"
    have run: "reproject env pid v s = store_projection env pid v (wx_workflowRunId w) ?p s"
      using g l by (simp add: reproject_def lg rec record_of_run_def)
    let ?s = "snd (wf_clock env s)"
    have ok': "workflow_ok ?s" using ok by (simp add: wf_clock_def workflow_ok_frame)
    have w': "w \<in> set (wd_runs ?s)" and lg': "log_of (wx_workflowRunId w) ?s = log_of (wx_workflowRunId w) s"
      using w by (simp_all add: wf_clock_def log_of_def log_rows_def)
    have "workflow_ok (update_run (wx_workflowRunId w) n ?p t saved ?s)"
      if "serializeWorkflowState env (pj_state ?p) = Inr saved" for n t saved
      using update_run_ok [OF ok' w' _ that] by (simp add: lg')
    then show ?thesis
      unfolding run store_projection_def andThen_apply readRevision_def
      using ok ok' getWorkflow_state
      by (auto simp: wf_clock_def split: sum.splits option.splits)
  qed
qed

lemma createInitialState_start:
  "createInitialState env r h p o' = Inr st \<Longrightarrow> start_state st"
  by (auto simp: createInitialState_def Let_def start_state_def fresh_state_def dest!: serialize_Inr)

interpretation kept: workflow_steps env "\<lambda>s s'. workflow_ok s \<longrightarrow> workflow_ok s'" for env
proof (unfold_locales, goal_cases)
  case (6 es pid v)
  then show ?case using appendEvents_ok unfolding keeps_ok_def by blast
next
  case (7 pid v)
  then show ?case using reproject_ok unfolding keeps_ok_def by blast
next
  case (8 r h p n st rid t token)
  then show ?case using create_run_ok [OF _ createInitialState_start] by (auto simp: keeps_def)
qed (auto simp: reflp_def transp_def keeps_def wf_clock_def wf_uuid_def close_workflow_store_def
    workflow_ok_frame)

lemma exec_call_ok: "workflow_ok s \<Longrightarrow> workflow_ok (exec_call env s c)"
  using kept.call by blast

lemma empty_workflow_ok: "workflow_ok empty_workflow_db"
  by (auto simp: workflow_ok_def empty_workflow_db_def log_rows_def intro: exI [of _ 0])

interpretation wf: machine "exec_call env" empty_workflow_db workflow_ok for env
  by unfold_locales (rule empty_workflow_ok, rule exec_call_ok)

lemma find_key:
  "\<lbrakk>distinct (map f xs); x \<in> set xs\<rbrakk> \<Longrightarrow> find (\<lambda>y. f y = f x) xs = Some x"
  by (induction xs) auto

text \<open>What a saved projection looks like when it is read back.\<close>

lemma store_projection_result:
  assumes ok: "workflow_ok s" and w: "w \<in> set (wd_runs s)" "run_key w = (pid, v)"
    and run: "store_projection env pid v (wx_workflowRunId w) q s = (Inr r, s')"
  shows "wr_status r = pj_status q \<and> wr_phase r = pj_phase q \<and>
     wr_currentStepId r = pj_currentStepId q \<and> wr_mastraRunId r = pj_mastraRunId q \<and>
     wr_suspendedAt r = pj_suspendedAt q \<and> wr_resumedAt r = pj_resumedAt q \<and>
     wr_finishedAt r = pj_finishedAt q \<and> wr_errorMessage r = pj_errorMessage q \<and>
     wr_state r = pj_state q"
proof -
  let ?t = "we_now env (wd_clock s)" and ?s = "snd (wf_clock env s)"
  have runs: "wd_runs ?s = wd_runs s" by (simp add: wf_clock_def)
  have rev: "readRevision (wx_workflowRunId w) ?s = (Inr (wx_revision w), ?s)"
    using find_key [OF workflow_okD(2) [OF ok] w(1)] by (simp add: readRevision_def runs)
  have clk: "wf_clock env s = (Inr ?t, ?s)" by (simp add: wf_clock_def)
  obtain saved where ser: "serializeWorkflowState env (pj_state q) = Inr saved"
    and get: "getWorkflow env pid v
      (update_run (wx_workflowRunId w) (wx_revision w) q ?t saved ?s) = (Inr r, s')"
    using run clk rev by (auto simp: store_projection_def split: sum.splits)
  let ?u = "update_run (wx_workflowRunId w) (wx_revision w) q ?t saved ?s"
  obtain x where x: "select_run pid v ?u = Some x" "r = record_of_run x"
    using getWorkflow_Inr [OF get] by blast
  have "x \<in> set (wd_runs ?u)" "run_key x = (pid, v)" using select_run_mem [OF x(1)] by auto
  then obtain y where y: "y \<in> set (wd_runs s)"
    and x': "x = (if wx_workflowRunId y = wx_workflowRunId w \<and> wx_revision y = wx_revision w
      then write_projection q ?t saved y else y)"
    by (auto simp: update_run_def runs)
  have "run_key y = run_key x" unfolding x' by (simp add: run_key_def write_projection_def)
  then have "y = w"
    using workflow_okD(1) [OF ok] y w \<open>run_key x = (pid, v)\<close> by (auto simp: distinct_map inj_on_def)
  then have "x = write_projection q ?t saved w" using x' by simp
  then show ?thesis
    using x(2) serialize_Inr [OF ser] by (simp add: record_of_run_def write_projection_def)
qed

section \<open>Appending and re-projecting, result by result\<close>

lemma insert_events_valid:
  "insert_events env ids rid pid v sq t u es = Inr rows \<Longrightarrow>
   \<forall>e \<in> set es. agentPlanWorkflowEventSchema (we_isDatetime env) e"
proof (induction es arbitrary: ids sq u rows)
  case (Cons e es)
  then show ?case
    by (cases "insert_events env (we_uuid env u # ids) rid pid v (sq + 1) t (u + 1) es")
      (auto split: if_splits)
qed simp

lemma appendEvents_Inr:
  assumes "appendEvents env pid v es s = (Inr (), s')" and "es \<noteq> []"
  obtains w t where "select_run pid v s = Some w" and "wd_runs s' = wd_runs s"
    and "log_of (wx_workflowRunId w) s' = log_of (wx_workflowRunId w) s @ map (\<lambda>e. (t, e)) es"
proof -
  obtain rec where g: "getWorkflow env pid v s = (Inr rec, s)"
    using assms getWorkflow_state [of env pid v s]
    by (cases "getWorkflow env pid v s"; cases "fst (getWorkflow env pid v s)")
      (auto simp: appendEvents_def)
  then obtain w where w: "select_run pid v s = Some w" "rec = record_of_run w"
    using getWorkflow_Inr by blast
  let ?s = "snd (wf_clock env s)" and ?t = "we_now env (wd_clock s)"
  have clk: "wf_clock env s = (Inr ?t, ?s)" by (simp add: wf_clock_def)
  obtain rows where ins: "insert_events env (map ev_eventId (wd_events ?s)) (wx_workflowRunId w) pid v
      (next_seq (wx_workflowRunId w) ?s) ?t (wd_uuids ?s) es = Inr rows"
    and s': "s' = commit_events rows ?s"
    using assms g w(2) clk by (auto simp: appendEvents_def record_of_run_def split: sum.splits)
  show thesis
  proof (rule that)
    show "wd_runs s' = wd_runs s" by (simp add: s' commit_events_def wf_clock_def)
    have "log_of (wx_workflowRunId w) ?s = log_of (wx_workflowRunId w) s"
      by (simp add: log_of_def log_rows_def wf_clock_def)
    then show "log_of (wx_workflowRunId w) s' = log_of (wx_workflowRunId w) s @ map (\<lambda>e. (?t, e)) es"
      unfolding s' log_of_commit [OF ins] by simp
  qed (rule w(1))
qed

lemma appendEvents_Inl:
  assumes "appendEvents env pid v es s = (Inl e, s')"
  shows "wd_runs s' = wd_runs s \<and> wd_events s' = wd_events s"
proof (cases "getWorkflow env pid v s")
  case (Pair x s1)
  then show ?thesis
    using assms getWorkflow_state [of env pid v s]
    by (cases x) (auto simp: appendEvents_def andThen_apply wf_clock_def split: if_splits sum.splits)
qed

lemma append_and_reproject_Inl:
  assumes "appendEvents env pid v es s = (x, s1)" and "isl (fst (reproject env pid v s1))"
  shows "isl (fst (append_and_reproject env pid v es s))"
  using assms by (cases x) (simp_all add: append_and_reproject_def)

text \<open>What a successful re-projection did.\<close>

lemma reproject_Inr:
  assumes ok: "workflow_ok s" and run: "reproject env pid v s = (Inr r, s')"
  obtains w where "w \<in> set (wd_runs s)" and "run_key w = (pid, v)"
    and "\<exists>saved. serializeWorkflowState env (pj_state (projectWorkflow (wx_stateJson w)
      (log_of (wx_workflowRunId w) s))) = Inr saved"
proof -
  obtain rec where g: "getWorkflow env pid v s = (Inr rec, s)"
    using run getWorkflow_Inr
    by (auto simp: reproject_def andThen_apply split: prod.splits sum.splits)
  obtain es where l: "listEvents env pid v s = (Inr es, s)"
    using run g listEvents_state [of env pid v s]
    by (auto simp: reproject_def andThen_apply split: prod.splits sum.splits)
  obtain w where sel: "select_run pid v s = Some w" and rec: "rec = record_of_run w"
    using getWorkflow_Inr [OF g] by blast
  have w: "w \<in> set (wd_runs s)" "run_key w = (pid, v)" using select_run_mem [OF sel] by auto
  have lg: "logged es = log_of (wx_workflowRunId w) s"
    using listEvents_Inr [OF l] select_events_log [OF ok w] by (simp add: log_of_def)
  let ?q = "projectWorkflow (wx_stateJson w) (log_of (wx_workflowRunId w) s)"
  have "store_projection env pid v (wx_workflowRunId w) ?q s = (Inr r, s')"
    using run g l by (simp add: reproject_def lg rec record_of_run_def)
  then have "\<exists>saved. serializeWorkflowState env (pj_state ?q) = Inr saved"
    by (auto simp: store_projection_def andThen_apply split: prod.splits sum.splits)
  with w show thesis by (rule that)
qed

section \<open>Rejection\<close>

lemma project_snoc: "projectWorkflow st (lg @ [e]) = project_event e (projectWorkflow st lg)"
  by (simp add: projectWorkflow_def)

lemma finish_rejected_fails:
  assumes ok: "workflow_ok s"
  shows "isl (fst (finishWorkflow env pid v WsRejected reason s))"
proof (cases "getWorkflow env pid v s")
  case (Pair x s1)
  show ?thesis
  proof (cases x)
    case (Inl e)
    with Pair show ?thesis by (simp add: finishWorkflow_def)
  next
    case (Inr rec)
    then obtain w where s1: "s1 = s" and sel: "select_run pid v s = Some w"
      and rec: "rec = record_of_run w"
      using getWorkflow_Inr Pair by blast
    have w: "w \<in> set (wd_runs s)" "run_key w = (pid, v)" using select_run_mem [OF sel] by auto
    have "wr_status rec \<noteq> WsRejected"
      using workflow_okD(4) [OF ok w(1)] by (simp add: run_ok_def rec record_of_run_def)
    then have run: "finishWorkflow env pid v WsRejected reason s =
        append_and_reproject env pid v [PlanFinished WsRejected (nonEmptyString reason)] s"
      using Pair Inr s1 by (simp add: finishWorkflow_def)
    obtain y s2 where app: "appendEvents env pid v [PlanFinished WsRejected (nonEmptyString reason)] s =
        (y, s2)" by fastforce
    show ?thesis
    proof (cases y)
      case (Inl e)
      then show ?thesis using app by (simp add: run append_and_reproject_def)
    next
      case (Inr u)
      obtain w' t where w': "select_run pid v s = Some w'" and runs: "wd_runs s2 = wd_runs s"
        and lg: "log_of (wx_workflowRunId w') s2 =
          log_of (wx_workflowRunId w') s @ [(t, PlanFinished WsRejected (nonEmptyString reason))]"
        using appendEvents_Inr [of env pid v _ s s2] app Inr by force
      have ok2: "workflow_ok s2"
        using appendEvents_ok [of "[PlanFinished WsRejected (nonEmptyString reason)]" env pid v] ok app
        by (simp add: keeps_ok_def keeps_def) (metis snd_conv)
      have "\<not> (\<exists>r s'. reproject env pid v s2 = (Inr r, s'))"
      proof
        assume "\<exists>r s'. reproject env pid v s2 = (Inr r, s')"
        then obtain r s' where "reproject env pid v s2 = (Inr r, s')" by blast
        then obtain x where x: "x \<in> set (wd_runs s2)" "run_key x = (pid, v)"
          and ser: "\<exists>saved. serializeWorkflowState env (pj_state (projectWorkflow (wx_stateJson x)
            (log_of (wx_workflowRunId x) s2))) = Inr saved"
          by (rule reproject_Inr [OF ok2])
        have "x = w'"
          using x w' select_run_mem workflow_okD(1) [OF ok] runs
          by (fastforce simp: distinct_map inj_on_def)
        then have "pj_status (projectWorkflow (wx_stateJson x) (log_of (wx_workflowRunId x) s2)) =
            WsRejected"
          using lg by (simp add: project_snoc)
        moreover obtain s0 where "follows_log s0 (log_of (wx_workflowRunId x) s2) (wx_stateJson x)"
          using workflow_okD(4) [OF ok2 x(1)] unfolding run_ok_def by blast
        ultimately show False using saved_not_rejected ser by blast
      qed
      then have "isl (fst (reproject env pid v s2))"
        by (cases "reproject env pid v s2"; cases "fst (reproject env pid v s2)") auto
      then show ?thesis using append_and_reproject_Inl [OF app] by (simp add: run)
    qed
  qed
qed

lemma rejectWorkflow_fails:
  assumes "workflow_ok s"
  shows "isl (fst (rejectWorkflow env r reason s))"
proof (cases "createForPlan env r None None s")
  case (Pair x s1)
  then have "workflow_ok s1"
    using kept.create_call [of env r None None] assms by (simp add: keeps_def) (metis snd_conv)
  with Pair show ?thesis
    by (cases x) (simp_all add: rejectWorkflow_def finish_rejected_fails)
qed

section \<open>Steps that are not in the plan\<close>

lemma fold_stepIds:
  "\<lbrakk>\<forall>e \<in> set es. log_ids ids e; ws_stepIds (pj_state p) = ids\<rbrakk> \<Longrightarrow>
   ws_stepIds (pj_state (fold project_event es p)) = ids"
proof (induction es arbitrary: p)
  case (Cons e es)
  have "ws_stepIds (pj_state (project_event e p)) = ids"
    using Cons.prems by (cases e rule: event_cases) (auto simp: Let_def)
  with Cons show ?case by simp
qed simp

lemma fold_keys:
  "jm_get (ws_stepIdempotencyKeys (pj_state p)) sid \<noteq> None \<or>
     (\<exists>t k m. (t, StepStarted sid k m) \<in> set es) \<Longrightarrow>
   jm_get (ws_stepIdempotencyKeys (pj_state (fold project_event es p))) sid \<noteq> None"
proof (induction es arbitrary: p)
  case (Cons e es)
  have "jm_get (ws_stepIdempotencyKeys (pj_state (project_event e p))) sid \<noteq> None \<or>
      (\<exists>t k m. (t, StepStarted sid k m) \<in> set es)"
    using Cons.prems by (cases e rule: event_cases) (auto simp: Let_def)
  with Cons.IH show ?case by simp
qed simp

lemma follows_log_stepIds:
  assumes "follows_log s0 lg st"
  shows "ws_stepIds st = ws_stepIds s0"
proof -
  obtain ds rest where ids: "\<forall>e \<in> set lg. log_ids (ws_stepIds s0) e" and lg: "lg = ds @ rest"
    and st: "ds = [] \<and> st = s0 \<or> state_agrees (pj_state (projectWorkflow s0 ds)) st"
    using assms unfolding follows_log_def by blast
  have "ws_stepIds (pj_state (projectWorkflow s0 ds)) = ws_stepIds s0"
    unfolding projectWorkflow_def using ids lg
    by (intro fold_stepIds) (auto simp: initial_projection_def)
  with st show ?thesis using state_agreesD(4) by metis
qed

lemma unknown_step_unsavable:
  assumes f: "follows_log s0 lg st" and "(t, StepStarted sid k m) \<in> set lg"
    and "sid \<notin> set (ws_stepIds st)"
  shows "serializeWorkflowState env (pj_state (projectWorkflow st lg)) = Inl WSchema"
proof -
  let ?s = "pj_state (projectWorkflow st lg)"
  have "\<forall>e \<in> set lg. log_ids (ws_stepIds st) e"
    using f follows_log_stepIds [OF f] by (simp add: follows_log_def)
  then have ids: "ws_stepIds ?s = ws_stepIds st"
    unfolding projectWorkflow_def by (rule fold_stepIds) (simp add: initial_projection_def)
  have "jm_get (ws_stepIdempotencyKeys ?s) sid \<noteq> None"
    unfolding projectWorkflow_def using assms(2) by (intro fold_keys) blast
  then obtain k' where "(sid, k') \<in> set (ws_stepIdempotencyKeys ?s)"
    by (auto simp: jm_get_def dest: map_of_SomeD)
  then have "\<not> (\<forall>kv \<in> set (ws_stepIdempotencyKeys ?s). fst kv \<in> set (ws_stepIds ?s))"
    using assms(3) ids by force
  then have "\<not> agentPlanWorkflowStateSchema (we_isDatetime env) ?s"
    unfolding agentPlanWorkflowStateSchema_def by blast
  then show ?thesis by (simp add: serializeWorkflowState_def)
qed

lemma unknown_step_poisons:
  assumes ok: "workflow_ok s" and w: "w \<in> set (wd_runs s)" "run_key w = (pid, v)"
    and "(t, StepStarted sid k m) \<in> set (log_of (wx_workflowRunId w) s)"
    and "sid \<notin> set (ws_stepIds (wx_stateJson w))"
  shows "isl (fst (reproject env pid v s))"
proof (rule ccontr)
  assume "\<not> isl (fst (reproject env pid v s))"
  then obtain r s' where "reproject env pid v s = (Inr r, s')"
    by (cases "reproject env pid v s"; cases "fst (reproject env pid v s)") auto
  then obtain x where x: "x \<in> set (wd_runs s)" "run_key x = (pid, v)"
    and ser: "\<exists>saved. serializeWorkflowState env (pj_state (projectWorkflow (wx_stateJson x)
      (log_of (wx_workflowRunId x) s))) = Inr saved"
    by (rule reproject_Inr [OF ok])
  have "x = w" using workflow_okD(1) [OF ok] x w by (auto simp: distinct_map inj_on_def)
  moreover obtain s0 where "follows_log s0 (log_of (wx_workflowRunId w) s) (wx_stateJson w)"
    using workflow_okD(4) [OF ok w(1)] unfolding run_ok_def by blast
  ultimately show False using unknown_step_unsavable [of s0 _ "wx_stateJson w" t sid k m env] assms(4,5) ser
    by fastforce
qed

section \<open>Events without a schema version\<close>

text \<open>\<open>toWorkflowEventRecord\<close> builds its record without an \<open>eventSchemaVersion\<close>, which the
  schema requires: that is \<open>we_eventSchemaVersion env = None\<close>. A run that has an event can then never
  be re-projected.\<close>

definition frozen :: "workflow_db \<Rightarrow> bool" where
  "frozen s \<longleftrightarrow> workflow_ok s \<and> (\<forall>w \<in> set (wd_runs s). wx_status w = WsWaitingApproval \<and>
     wx_phase w = PhApprovalGate \<and> wx_revision w = 0 \<and> log_rows (wx_workflowRunId w) s \<noteq> [])"

lemma frozen_frame:
  "frozen (s\<lparr>wd_clock := n\<rparr>) = frozen s" "frozen (s\<lparr>wd_uuids := n\<rparr>) = frozen s"
  "frozen (s\<lparr>wd_closed := c\<rparr>) = frozen s"
  by (simp_all add: frozen_def workflow_ok_frame log_rows_def)

lemma map_events_versionless:
  "\<lbrakk>we_eventSchemaVersion env = None; ws \<noteq> []\<rbrakk> \<Longrightarrow> \<exists>e. map_events env ws = Inl e"
  by (cases ws) (auto simp: toWorkflowEventRecord_def agentPlanWorkflowEventRecordSchema_def Let_def)

lemma frozen_reproject:
  assumes "we_eventSchemaVersion env = None" and fr: "frozen s"
  shows "isl (fst (reproject env pid v s)) \<and> snd (reproject env pid v s) = s"
proof (cases "getWorkflow env pid v s")
  case (Pair x s1)
  have s1: "s1 = s" using Pair getWorkflow_state [of env pid v s] by simp
  show ?thesis
  proof (cases x)
    case (Inl e)
    then show ?thesis using Pair s1 by (simp add: reproject_def)
  next
    case (Inr rec)
    then obtain w where sel: "select_run pid v s = Some w" using getWorkflow_Inr Pair by blast
    note w = select_run_mem [OF sel]
    have ok: "workflow_ok s" using fr by (simp add: frozen_def)
    have "select_events pid v s \<noteq> []"
      using select_events_log [OF ok] w fr by (auto simp: frozen_def)
    then obtain e where "listEvents env pid v s = (Inl e, s)"
      using map_events_versionless [OF assms(1)]
      by (fastforce simp: listEvents_def andThen_apply wf_assertOpen_def)
    then show ?thesis using Pair Inr s1 by (simp add: reproject_def)
  qed
qed

lemma frozen_extend:
  assumes "frozen s" and "workflow_ok s'" and "wd_runs s' = wd_runs s"
    and "wd_events s' = wd_events s @ rows"
  shows "frozen s'"
  using assms by (auto simp: frozen_def log_rows_def)

lemma appendEvents_extends:
  obtains rows where "wd_runs (snd (appendEvents env pid v es s)) = wd_runs s"
    and "wd_events (snd (appendEvents env pid v es s)) = wd_events s @ rows"
proof (cases "getWorkflow env pid v s")
  case (Pair x s1)
  then have "s1 = s" using getWorkflow_state [of env pid v s] by simp
  with Pair have "wd_runs (snd (appendEvents env pid v es s)) = wd_runs s \<and>
      (\<exists>rows. wd_events (snd (appendEvents env pid v es s)) = wd_events s @ rows)"
    by (cases x) (auto simp: appendEvents_def andThen_apply wf_clock_def commit_events_def
        split: sum.splits)
  then show thesis using that by blast
qed

lemma create_run_frozen:
  assumes fr: "frozen s" and st: "start_state st"
  shows "frozen (snd (create_run env r rid t planHash st token s))"
proof (cases "snd (create_run env r rid t planHash st token s) = s")
  case False
  then obtain rows where new: "rid \<notin> wx_workflowRunId ` set (wd_runs s)"
    and ins: "insert_events env (map ev_eventId (wd_events s)) rid (pr_planId r) (pr_version r) 0 t (wd_uuids s)
      (creation_events r planHash st token) = Inr rows"
    and s': "snd (create_run env r rid t planHash st token s) = commit_events rows
      (s\<lparr>wd_runs := wd_runs s @ [initial_run r rid planHash t st]\<rparr>)"
    by (auto simp: create_run_def serializeWorkflowState_def split: if_splits sum.splits)
  have ok: "workflow_ok (snd (create_run env r rid t planHash st token s))"
    using fr st by (intro create_run_ok) (simp_all add: frozen_def)
  have "map ev_eventJson rows \<noteq> []" using insert_events_Inr [OF ins] by (simp add: creation_events_def)
  then have "log_rows rid (snd (create_run env r rid t planHash st token s)) \<noteq> []"
    unfolding s' log_rows_commit [OF ins] by simp
  with fr ok show ?thesis
    unfolding frozen_def s' by (auto simp: commit_events_def initial_run_def log_rows_def)
qed (use fr in simp)

lemma versionless_steps:
  assumes "we_eventSchemaVersion env = None"
  shows "workflow_steps env (\<lambda>s s'. frozen s \<longrightarrow> frozen s')"
proof (unfold_locales, goal_cases)
  case (6 es pid v)
  have "frozen (snd (appendEvents env pid v es s))" if "frozen s" for s
  proof -
    have ok: "workflow_ok (snd (appendEvents env pid v es s))"
      using appendEvents_ok [OF 6, of env pid v] that by (simp add: keeps_ok_def keeps_def frozen_def)
    obtain rows where "wd_runs (snd (appendEvents env pid v es s)) = wd_runs s"
      "wd_events (snd (appendEvents env pid v es s)) = wd_events s @ rows"
      by (rule appendEvents_extends)
    then show ?thesis by (rule frozen_extend [OF that ok])
  qed
  then show ?case by (simp add: keeps_def)
next
  case (7 pid v)
  then show ?case using frozen_reproject [OF assms] by (simp add: keeps_def)
next
  case (8 r h p n st rid t token)
  then show ?case using create_run_frozen [OF _ createInitialState_start] by (simp add: keeps_def)
qed (auto simp: reflp_def transp_def keeps_def wf_clock_def wf_uuid_def close_workflow_store_def
    frozen_frame)

interpretation versionless: workflow_steps "env\<lparr>we_eventSchemaVersion := None\<rparr>"
    "\<lambda>s s'. frozen s \<longrightarrow> frozen s'" for env
  by (rule versionless_steps) simp

lemma frozen_run:
  assumes "we_eventSchemaVersion env = None"
  shows "frozen (run_events (exec_call env) empty_workflow_db cs)"
proof -
  have "env\<lparr>we_eventSchemaVersion := None\<rparr> = env" using assms by (cases env) simp
  then have "frozen s \<Longrightarrow> frozen (exec_call env s c)" for s c
    using versionless.call [of s env c] by simp
  then have "frozen s \<Longrightarrow> frozen (run_events (exec_call env) s cs)" for s
    by (induction cs arbitrary: s) auto
  moreover have "frozen empty_workflow_db"
    using empty_workflow_ok by (simp add: frozen_def empty_workflow_db_def)
  ultimately show ?thesis by blast
qed

lemma versionless_approve_fails:
  assumes none: "we_eventSchemaVersion env = None" and fr: "frozen s"
  shows "isl (fst (approveWorkflow env r byw s))"
proof -
  have env: "env\<lparr>we_eventSchemaVersion := None\<rparr> = env" using none by (cases env) simp
  obtain x s1 where c: "createForPlan env r None None s = (x, s1)" by fastforce
  have fr1: "frozen s1"
    using versionless.create_call [of env r None None] fr c
    by (simp add: env keeps_def) (metis snd_conv)
  obtain y s2 where g: "getWorkflow env (pr_planId r) (pr_version r) s1 = (y, s2)" by fastforce
  have s2: "s2 = s1" using g getWorkflow_state [of env "pr_planId r" "pr_version r" s1] by simp
  show ?thesis
  proof (cases "isl x \<or> isl y \<or> isl (hashApprovedPlan env r)")
    case True
    then show ?thesis
      using c g by (cases x; cases y; cases "hashApprovedPlan env r")
        (simp_all add: approveWorkflow_def andThen_lift)
  next
    case False
    then obtain a rec h where x: "x = Inr a" and y: "y = Inr rec" and h: "hashApprovedPlan env r = Inr h"
      by (metis isl_def sum.exhaust_sel)
    obtain w where w: "select_run (pr_planId r) (pr_version r) s1 = Some w" "rec = record_of_run w"
      using getWorkflow_Inr g y by blast
    have "wr_status rec = WsWaitingApproval"
      using fr1 select_run_mem [OF w(1)] w(2) by (auto simp: frozen_def record_of_run_def)
    moreover have "isl (fst (append_and_reproject env pid v es s1))"
      if "\<forall>e \<in> set es. \<not> generates e" for es pid v
    proof -
      obtain z s3 where a: "appendEvents env pid v es s1 = (z, s3)" by fastforce
      have "frozen s3"
        using versionless.append [OF that, of env pid v] fr1 a
        by (simp add: env keeps_def) (metis snd_conv)
      then show ?thesis using append_and_reproject_Inl [OF a] frozen_reproject [OF none] by blast
    qed
    ultimately show ?thesis
      using c g x y h s2 by (simp add: approveWorkflow_def andThen_lift split: option.splits)
  qed
qed

lemma start_unknown_fails:
  assumes ok: "workflow_ok s" and w: "w \<in> set (wd_runs s)" "run_key w = (pid, v)"
    and sid: "sid \<notin> set (ws_stepIds (wx_stateJson w))"
    and new: "sid \<notin> set (ws_completedStepIds (wx_stateJson w))"
  shows "isl (fst (startStep env pid v sid mastra s))"
proof -
  obtain x s1 where g: "getActiveWorkflow env pid v s = (x, s1)" by fastforce
  have s1: "s1 = s" using g getActiveWorkflow_state [of env pid v s] by simp
  show ?thesis
  proof (cases x)
    case (Inl e)
    then show ?thesis using g by (simp add: startStep_def)
  next
    case (Inr rec)
    then have "getWorkflow env pid v s = (Inr rec, s)"
      using g getWorkflow_state [of env pid v s]
      by (auto simp: getActiveWorkflow_def andThen_apply split: prod.splits sum.splits if_splits)
    then obtain w' where w': "select_run pid v s = Some w'" "rec = record_of_run w'"
      using getWorkflow_Inr by blast
    have "w' = w"
      using select_run_mem [OF w'(1)] w workflow_okD(1) [OF ok] by (auto simp: distinct_map inj_on_def)
    then have rec: "wr_state rec = wx_stateJson w" using w'(2) by (simp add: record_of_run_def)
    let ?es = "[StepStarted sid (step_key rec pid v sid) (nonEmptyString mastra),
      Heartbeat (Some sid) HbStepStart]"
    have run: "startStep env pid v sid mastra s = append_and_reproject env pid v ?es s"
      using g Inr s1 new rec by (simp add: startStep_def)
    obtain y s2 where app: "appendEvents env pid v ?es s = (y, s2)" by fastforce
    show ?thesis
    proof (cases y)
      case (Inl e)
      then show ?thesis using app by (simp add: run append_and_reproject_def)
    next
      case (Inr u)
      obtain a t where "select_run pid v s = Some a" and runs: "wd_runs s2 = wd_runs s"
        and lg: "log_of (wx_workflowRunId a) s2 =
          log_of (wx_workflowRunId a) s @ map (\<lambda>e. (t, e)) ?es"
        using appendEvents_Inr [of env pid v ?es s s2] app Inr by auto
      then have a: "a = w" using w'(1) \<open>w' = w\<close> by simp
      have "workflow_ok s2"
        using appendEvents_ok [of ?es env pid v] ok app
        by (simp add: keeps_ok_def keeps_def) (metis snd_conv)
      then have "isl (fst (reproject env pid v s2))"
        using w sid lg runs unfolding a by (intro unknown_step_poisons) auto
      then show ?thesis using append_and_reproject_Inl [OF app] by (simp add: run)
    qed
  qed
qed

text \<open>A small example: one plan version, created and approved.\<close>

definition example_wenv :: workflow_env where
  "example_wenv = \<lparr>we_now = (\<lambda>n. [n + 1]), we_uuid = (\<lambda>n. [n + 1]), we_isDatetime = (\<lambda>_. True),
     we_sha256 = (\<lambda>_. [104]), we_eventSchemaVersion = Some 1\<rparr>"

definition versionless_wenv :: workflow_env where
  "versionless_wenv = example_wenv\<lparr>we_eventSchemaVersion := None\<rparr>"

definition example_wrecord :: plan_record where
  "example_wrecord = \<lparr>pr_schemaVersion = Some 1, pr_planId = [112], pr_threadId = [116], pr_version = 1,
     pr_status = PsPendingApproval, pr_userRequest = [], pr_plan = example_plan, pr_createdAt = [1],
     pr_updatedAt = [1], pr_approvedAt = None, pr_executedAt = None, pr_rejectionReason = None,
     pr_errorMessage = None\<rparr>"

definition example_workflow_db :: workflow_db where
  "example_workflow_db = run_events (exec_call example_wenv) empty_workflow_db
     [CallCreate example_wrecord None None, CallApprove example_wrecord None]"

lemma example_workflow_facts:
  "let s = example_workflow_db; w = hd (wd_runs s) in
     length (wd_runs s) = 1 \<and> run_key w = ([112], 1) \<and> [120] \<notin> set (ws_stepIds (wx_stateJson w)) \<and>
     [120] \<notin> set (ws_completedStepIds (wx_stateJson w)) \<and>
     \<not> isl (fst (reproject example_wenv [112] 1 s))"
  by code_simp

lemma example_run_mem: "hd (wd_runs example_workflow_db) \<in> set (wd_runs example_workflow_db)"
  using example_workflow_facts by (cases "wd_runs example_workflow_db") (simp_all add: Let_def)

definition example_reprojected :: workflow_record where
  "example_reprojected = projr (fst (reproject example_wenv [112] 1 example_workflow_db))"

section \<open>Properties\<close>

text \<open>C36: After any sequence of calls the log of a plan version is numbered 0, 1, 2, ... in the
  order of insertion, so \<open>listEvents\<close> reads it in the order it was written and the \<open>UNIQUE\<close>
  key of run and number never fails; run ids and plan versions are unique.\<close>

theorem workflow_log_gapless:
  assumes "s = run_events (exec_call env) empty_workflow_db cs"
    and "w \<in> set (wd_runs s)"
  shows "select_events (wx_planId w) (wx_planVersion w) s =
      filter (\<lambda>e. ev_workflowRunId e = wx_workflowRunId w) (wd_events s) \<and>
    (\<exists>n. map ev_seq (select_events (wx_planId w) (wx_planVersion w) s) = [0..<n]) \<and>
    select_run (wx_planId w) (wx_planVersion w) s = Some w"
proof -
  have ok: "workflow_ok s" unfolding assms(1) by (rule wf.inv_run)
  have ev: "select_events (wx_planId w) (wx_planVersion w) s = log_rows (wx_workflowRunId w) s"
    by (rule select_events_log [OF ok assms(2)]) (simp add: run_key_def)
  obtain n where n: "map ev_seq (log_rows (wx_workflowRunId w) s) = [0..<n]"
    using workflow_okD(3) [OF ok] by blast
  have "select_run (wx_planId w) (wx_planVersion w) s \<noteq> None"
    using assms(2) by (auto simp: select_run_def find_None_iff)
  then obtain w' where sel: "select_run (wx_planId w) (wx_planVersion w) s = Some w'" by blast
  have "w' \<in> set (wd_runs s)" "run_key w' = run_key w"
    using select_run_mem [OF sel] by (simp_all add: run_key_def)
  then have "w' = w"
    using workflow_okD(1) [OF ok] assms(2) by (auto simp: distinct_map inj_on_def)
  with sel ev n show ?thesis by (auto simp: log_rows_def)
qed

lemma workflow_log_gapless_witness:
  "\<exists>w n. w \<in> set (wd_runs example_workflow_db) \<and>
     map ev_seq (select_events (wx_planId w) (wx_planVersion w) example_workflow_db) = [0..<n]"
  using workflow_log_gapless [OF example_workflow_db_def example_run_mem] example_run_mem by blast

text \<open>Whenever re-projecting a workflow succeeds, what it returns is the projection of the whole
  log over a fresh state of the plan: same status, phase and times, and a state that agrees up to
  the order of failed steps and keys. So the saved state never drifts from the log.\<close>

theorem reproject_refines_log:
  assumes "s = run_events (exec_call env) empty_workflow_db cs"
    and "reproject env pid v s = (Inr r, s')"
  shows "\<exists>w s0. w \<in> set (wd_runs s) \<and> run_key w = (pid, v) \<and> start_state s0 \<and>
    (let p = projectWorkflow s0 (log_of (wx_workflowRunId w) s) in
     wr_status r = pj_status p \<and> wr_phase r = pj_phase p \<and>
     wr_currentStepId r = pj_currentStepId p \<and> wr_mastraRunId r = pj_mastraRunId p \<and>
     wr_suspendedAt r = pj_suspendedAt p \<and> wr_resumedAt r = pj_resumedAt p \<and>
     wr_finishedAt r = pj_finishedAt p \<and> wr_errorMessage r = pj_errorMessage p \<and>
     state_agrees (pj_state p) (wr_state r))"
proof -
  have ok: "workflow_ok s" unfolding assms(1) by (rule wf.inv_run)
  obtain rec where g: "getWorkflow env pid v s = (Inr rec, s)"
    using assms(2) getWorkflow_Inr
    by (auto simp: reproject_def andThen_apply split: prod.splits sum.splits)
  obtain es where l: "listEvents env pid v s = (Inr es, s)"
    using assms(2) g listEvents_state [of env pid v s]
    by (auto simp: reproject_def andThen_apply split: prod.splits sum.splits)
  obtain w where sel: "select_run pid v s = Some w" and rec: "rec = record_of_run w"
    using getWorkflow_Inr [OF g] by blast
  have w: "w \<in> set (wd_runs s)" "run_key w = (pid, v)" using select_run_mem [OF sel] by auto
  have lg: "logged es = log_of (wx_workflowRunId w) s"
    using listEvents_Inr [OF l] select_events_log [OF ok w] by (simp add: log_of_def)
  obtain s0 where s0: "follows_log s0 (log_of (wx_workflowRunId w) s) (wx_stateJson w)"
    using workflow_okD(4) [OF ok w(1)] unfolding run_ok_def by blast
  let ?q = "projectWorkflow (wx_stateJson w) (log_of (wx_workflowRunId w) s)"
  let ?t = "we_now env (wd_clock s)"
  have run: "store_projection env pid v (wx_workflowRunId w) ?q s = (Inr r, s')"
    using assms(2) g l by (simp add: reproject_def lg rec record_of_run_def)
  have "wr_status r = pj_status ?q \<and> wr_phase r = pj_phase ?q \<and>
     wr_currentStepId r = pj_currentStepId ?q \<and> wr_mastraRunId r = pj_mastraRunId ?q \<and>
     wr_suspendedAt r = pj_suspendedAt ?q \<and> wr_resumedAt r = pj_resumedAt ?q \<and>
     wr_finishedAt r = pj_finishedAt ?q \<and> wr_errorMessage r = pj_errorMessage ?q \<and>
     wr_state r = pj_state ?q"
    by (rule store_projection_result [OF ok w run])
  moreover note projected_follows(2) [OF s0]
  moreover have "start_state s0" using s0 by (simp add: follows_log_def)
  ultimately show ?thesis
    using w projection_agreesD by (intro exI [of _ w] exI [of _ s0]) (simp add: Let_def)
qed

lemma reproject_refines_log_witness:
  "\<exists>w s0. w \<in> set (wd_runs example_workflow_db) \<and> run_key w = ([112], 1) \<and> start_state s0 \<and>
    (let p = projectWorkflow s0 (log_of (wx_workflowRunId w) example_workflow_db) in
     wr_status example_reprojected = pj_status p \<and> wr_phase example_reprojected = pj_phase p \<and>
     wr_currentStepId example_reprojected = pj_currentStepId p \<and>
     wr_mastraRunId example_reprojected = pj_mastraRunId p \<and>
     wr_suspendedAt example_reprojected = pj_suspendedAt p \<and>
     wr_resumedAt example_reprojected = pj_resumedAt p \<and>
     wr_finishedAt example_reprojected = pj_finishedAt p \<and>
     wr_errorMessage example_reprojected = pj_errorMessage p \<and>
     state_agrees (pj_state p) (wr_state example_reprojected))"
proof (rule reproject_refines_log [OF example_workflow_db_def])
  show "reproject example_wenv [112] 1 example_workflow_db = (Inr example_reprojected,
      snd (reproject example_wenv [112] 1 example_workflow_db))"
    using example_workflow_facts
    by (cases "reproject example_wenv [112] 1 example_workflow_db")
      (auto simp: example_reprojected_def isl_def Let_def)
qed

text \<open>A workflow can never be rejected: the projection of \<open>PlanFinished rejected\<close> raises the
  \<open>rejected\<close> flag but never sets the reason that the state schema then requires, so in every
  reachable database \<open>rejectWorkflow\<close> and \<open>finishWorkflow(.., 'rejected')\<close> throw, and no row is
  ever \<open>rejected\<close>.\<close>

theorem workflow_cannot_be_rejected:
  assumes "s = run_events (exec_call env) empty_workflow_db cs"
  shows "isl (fst (rejectWorkflow env r reason s)) \<and>
    isl (fst (finishWorkflow env pid v WsRejected reason s)) \<and>
    list_all (\<lambda>w. wx_status w \<noteq> WsRejected) (wd_runs s)"
proof -
  have ok: "workflow_ok s" unfolding assms by (rule wf.inv_run)
  then have "list_all (\<lambda>w. wx_status w \<noteq> WsRejected) (wd_runs s)"
    using workflow_okD(4) by (auto simp: list_all_iff run_ok_def)
  with rejectWorkflow_fails [OF ok] finish_rejected_fails [OF ok] show ?thesis by blast
qed

lemma workflow_cannot_be_rejected_witness:
  "length (wd_runs example_workflow_db) = 1 \<and>
   isl (fst (rejectWorkflow example_wenv example_wrecord (Some [110]) example_workflow_db))"
  using workflow_cannot_be_rejected [OF example_workflow_db_def] example_workflow_facts
  unfolding Let_def by blast

text \<open>Starting a step that is not in the plan throws in every reachable database, and once its
  event is in the log, re-projecting that run throws for good: the schema wants every idempotency
  key to belong to a step of the plan, but the event is committed before the schema is asked.\<close>

theorem unknown_step_poisons_run:
  assumes "s = run_events (exec_call env) empty_workflow_db cs"
    and "w \<in> set (wd_runs s)" and "run_key w = (pid, v)"
    and "sid \<notin> set (ws_stepIds (wx_stateJson w))"
  shows "(sid \<notin> set (ws_completedStepIds (wx_stateJson w)) \<longrightarrow>
      isl (fst (startStep env pid v sid mastra s))) \<and>
    ((t, StepStarted sid k m) \<in> set (log_of (wx_workflowRunId w) s) \<longrightarrow>
      isl (fst (reproject env pid v s)))"
proof (intro conjI impI)
  have ok: "workflow_ok s" unfolding assms(1) by (rule wf.inv_run)
  show "isl (fst (reproject env pid v s))"
    if "(t, StepStarted sid k m) \<in> set (log_of (wx_workflowRunId w) s)"
    by (rule unknown_step_poisons [OF ok assms(2,3) that assms(4)])
  assume new: "sid \<notin> set (ws_completedStepIds (wx_stateJson w))"
  show "isl (fst (startStep env pid v sid mastra s))"
    using start_unknown_fails [OF ok assms(2,3,4) new] by simp
qed

lemma unknown_step_poisons_run_witness:
  "isl (fst (startStep example_wenv [112] 1 [120] None example_workflow_db))"
  using unknown_step_poisons_run [OF example_workflow_db_def example_run_mem] example_workflow_facts
  unfolding Let_def by blast

text \<open>C5: As the code reads its events back, without a schema version, no workflow gets past the
  approval gate. In every reachable database every run still waits at the approval gate with
  revision 0, no run can have its events listed, every re-projection throws and changes nothing, and
  so approving throws, for every plan.\<close>

theorem workflow_never_advances:
  assumes "we_eventSchemaVersion env = None"
    and "s = run_events (exec_call env) empty_workflow_db cs"
  shows "list_all (\<lambda>w. wx_status w = WsWaitingApproval \<and> wx_phase w = PhApprovalGate \<and>
      wx_revision w = 0 \<and> isl (fst (listEvents env (wx_planId w) (wx_planVersion w) s))) (wd_runs s) \<and>
    isl (fst (reproject env pid v s)) \<and> snd (reproject env pid v s) = s \<and>
    isl (fst (approveWorkflow env r byw s))"
proof -
  have fr: "frozen s" unfolding assms(2) by (rule frozen_run [OF assms(1)])
  moreover have "isl (fst (listEvents env (wx_planId w) (wx_planVersion w) s))" if "w \<in> set (wd_runs s)" for w
  proof -
    have "select_events (wx_planId w) (wx_planVersion w) s \<noteq> []"
      using select_events_log [of s w "wx_planId w" "wx_planVersion w"] that fr
      by (auto simp: frozen_def run_key_def)
    then show ?thesis
      using map_events_versionless [OF assms(1)] by (fastforce simp: listEvents_def andThen_apply wf_assertOpen_def)
  qed
  ultimately show ?thesis
    using versionless_approve_fails [OF assms(1) fr] frozen_reproject [OF assms(1) fr]
    by (auto simp: frozen_def list_all_iff)
qed

lemma workflow_never_advances_witness:
  "let s = run_events (exec_call versionless_wenv) empty_workflow_db
     [CallCreate example_wrecord None None, CallApprove example_wrecord None] in
   length (wd_runs s) = 1 \<and> isl (fst (approveWorkflow versionless_wenv example_wrecord None s))"
proof -
  have "length (wd_runs (run_events (exec_call versionless_wenv) empty_workflow_db
     [CallCreate example_wrecord None None, CallApprove example_wrecord None])) = 1" by code_simp
  moreover have "isl (fst (approveWorkflow versionless_wenv example_wrecord None
      (run_events (exec_call versionless_wenv) empty_workflow_db
        [CallCreate example_wrecord None None, CallApprove example_wrecord None])))"
    by (rule workflow_never_advances [OF _ refl, THEN conjunct2, THEN conjunct2, THEN conjunct2])
      (simp add: versionless_wenv_def)
  ultimately show ?thesis by (simp only: Let_def)
qed

end
