(* ===== verification/FieldPreview.thy ===== *)
theory FieldPreview
  imports TextPreview
begin

text \<open>
  Previews of several labelled fields (\<open>src/utils/text-preview.ts\<close>, second part): which fields
  are shown, how the grapheme budget is shared between them, and
  \<open>formatPrioritizedFieldPreview\<close>. Weights are computed exactly; for integer priorities whose
  products stay below \<open>2 ^ 53\<close> doubles give the same floor.
\<close>

section \<open>Fields and their order\<close>

record preview_field =
  pf_value :: ustr
  pf_priority :: js_number
  pf_label :: "ustr option"
  pf_minGraphemes :: "js_number option"
  pf_maxGraphemes :: "js_number option"

record normalized_field = preview_field +
  nf_index :: nat

definition DEFAULT_MAX_PREVIEW_FIELDS :: nat where
  "DEFAULT_MAX_PREVIEW_FIELDS = 3"

definition DEFAULT_FIELD_MIN_GRAPHEMES :: nat where
  "DEFAULT_FIELD_MIN_GRAPHEMES = 8"

definition DEFAULT_FIELD_SEPARATOR :: ustr where
  "DEFAULT_FIELD_SEPARATOR = [32, 0xb7, 32]"

definition DEFAULT_LABEL_SEPARATOR :: ustr where
  "DEFAULT_LABEL_SEPARATOR = [0xff1a]"

definition getSafePriority :: "js_number \<Rightarrow> rat" where
  "getSafePriority p = (case p of None \<Rightarrow> 1 | Some q \<Rightarrow> max 1 q)"

definition comparePriorityAsc :: "js_number \<Rightarrow> js_number \<Rightarrow> int" where
  "comparePriorityAsc a b =
     (if getSafePriority a = getSafePriority b then 0
      else if getSafePriority a < getSafePriority b then - 1 else 1)"

definition comparePriorityDesc :: "js_number \<Rightarrow> js_number \<Rightarrow> int" where
  "comparePriorityDesc a b = comparePriorityAsc b a"

text \<open>The comparator of the field order: higher priority first, then the smaller index; as a linear
  order on ranks, so that the library's sort applies.\<close>

definition compare_fields :: "js_number \<times> nat \<Rightarrow> js_number \<times> nat \<Rightarrow> int" where
  "compare_fields l r =
     (let c = comparePriorityDesc (fst l) (fst r)
      in if c \<noteq> 0 then c else int (snd l) - int (snd r))"

datatype field_rank = FieldRank rat nat

instantiation field_rank :: linorder
begin

fun less_eq_field_rank :: "field_rank \<Rightarrow> field_rank \<Rightarrow> bool" where
  "less_eq_field_rank (FieldRank p i) (FieldRank q j) \<longleftrightarrow> q < p \<or> q = p \<and> i \<le> j"

definition less_field_rank :: "field_rank \<Rightarrow> field_rank \<Rightarrow> bool" where
  "less_field_rank a b \<longleftrightarrow> a \<le> b \<and> \<not> b \<le> a"

instance
proof
  fix a b c :: field_rank
  show "a < b \<longleftrightarrow> a \<le> b \<and> \<not> b \<le> a" by (rule less_field_rank_def)
  show "a \<le> a" by (cases a) simp
  show "a \<le> b \<Longrightarrow> b \<le> c \<Longrightarrow> a \<le> c" by (cases a; cases b; cases c) auto
  show "a \<le> b \<Longrightarrow> b \<le> a \<Longrightarrow> a = b" by (cases a; cases b) auto
  show "a \<le> b \<or> b \<le> a" by (cases a; cases b) auto
qed

end

definition rank_of :: "js_number \<times> nat \<Rightarrow> field_rank" where
  "rank_of x = FieldRank (getSafePriority (fst x)) (snd x)"

lemma compare_fields_rank: "compare_fields a b \<le> 0 \<longleftrightarrow> rank_of a \<le> rank_of b"
  by (auto simp: compare_fields_def rank_of_def comparePriorityDesc_def comparePriorityAsc_def Let_def)

section \<open>Choosing fields\<close>

definition createFieldIdentity :: "text_env \<Rightarrow> 'a preview_field_scheme \<Rightarrow> ustr" where
  "createFieldIdentity env f =
     normalizePreviewText env (orElse (pf_label f) []) @ [0] @ normalizePreviewText env (pf_value f)"

definition normalize_field :: "text_env \<Rightarrow> nat \<Rightarrow> preview_field \<Rightarrow> normalized_field" where
  "normalize_field env i f =
     \<lparr>pf_value = normalizePreviewText env (pf_value f),
      pf_priority = Some (getSafePriority (pf_priority f)),
      pf_label = normalizeOptionalPreviewText env (pf_label f),
      pf_minGraphemes = pf_minGraphemes f, pf_maxGraphemes = pf_maxGraphemes f, nf_index = i\<rparr>"

fun unseen_fields ::
    "text_env \<Rightarrow> ustr list \<Rightarrow> normalized_field list \<Rightarrow> normalized_field list" where
  "unseen_fields env seen [] = []"
| "unseen_fields env seen (f # fs) =
     (if pf_value f = [] then unseen_fields env seen fs
      else if createFieldIdentity env f \<in> set seen then unseen_fields env seen fs
      else f # unseen_fields env (createFieldIdentity env f # seen) fs)"

definition field_rank_of :: "normalized_field \<Rightarrow> field_rank" where
  "field_rank_of f = rank_of (pf_priority f, nf_index f)"

definition candidate_field_list :: "text_env \<Rightarrow> preview_field list \<Rightarrow> normalized_field list" where
  "candidate_field_list env fds =
     unseen_fields env [] (map (\<lambda>(i, f). normalize_field env i f) (enumerate 0 fds))"

definition normalizePrioritizedFields ::
    "text_env \<Rightarrow> preview_field list \<Rightarrow> nat \<Rightarrow> normalized_field list" where
  "normalizePrioritizedFields env fds maxFields =
     (if maxFields = 0 then []
      else take maxFields (sort_key field_rank_of (candidate_field_list env fds)))"

section \<open>Needs and budgets\<close>

definition getFieldPrefix :: "'a preview_field_scheme \<Rightarrow> ustr \<Rightarrow> ustr" where
  "getFieldPrefix f sep = (case pf_label f of Some l \<Rightarrow> (if l = [] then [] else l @ sep) | None \<Rightarrow> [])"

definition getFixedFieldPreviewGraphemes ::
    "text_env \<Rightarrow> normalized_field list \<Rightarrow> ustr \<Rightarrow> ustr \<Rightarrow> text_locale option \<Rightarrow> nat" where
  "getFixedFieldPreviewGraphemes env fs sep lsep l =
     foldl (\<lambda>n f. n + countRenderedGraphemes env l (getFieldPrefix f lsep))
       ((length fs - 1) * countRenderedGraphemes env l sep) fs"

definition getFieldNeed :: "text_env \<Rightarrow> text_locale option \<Rightarrow> 'a preview_field_scheme \<Rightarrow> nat" where
  "getFieldNeed env l f =
     (let raw = countSegmentedGraphemes env l (normalizePreviewText env (pf_value f)) in
      case pf_maxGraphemes f of None \<Rightarrow> raw | Some m \<Rightarrow> min raw (toSafeInteger m raw))"

definition getFieldMinBudget :: "text_env \<Rightarrow> text_locale option \<Rightarrow> 'a preview_field_scheme \<Rightarrow> nat" where
  "getFieldMinBudget env l f =
     min (getFieldNeed env l f)
       (toSafeInteger (orElse (pf_minGraphemes f) (Some (of_nat DEFAULT_FIELD_MIN_GRAPHEMES)))
          DEFAULT_FIELD_MIN_GRAPHEMES)"

definition getInitialFieldBudget ::
    "text_env \<Rightarrow> text_locale option \<Rightarrow> nat \<Rightarrow> rat \<Rightarrow> 'a preview_field_scheme \<Rightarrow> nat" where
  "getInitialFieldBudget env l available tot f =
     (let need = getFieldNeed env l f in
      if available = 0 \<or> need = 0 then 0
      else min need (max 1 (max (getFieldMinBudget env l f)
             (nat \<lfloor>of_nat available * getSafePriority (pf_priority f) / tot\<rfloor>))))"

definition getMinimumRequiredBudget ::
    "text_env \<Rightarrow> text_locale option \<Rightarrow> normalized_field list \<Rightarrow> nat" where
  "getMinimumRequiredBudget env l fs = foldl (\<lambda>n f. n + getFieldMinBudget env l f) 0 fs"

text \<open>The first element of the positions with a property, in an order; \<open>budgets\<close> has one entry
  per field throughout.\<close>

definition position_ranks :: "js_number list \<Rightarrow> nat \<Rightarrow> field_rank" where
  "position_ranks prios i = rank_of (prios ! i, i)"

definition removableIndex :: "js_number list \<Rightarrow> nat list \<Rightarrow> nat option" where
  "removableIndex prios budgets =
     (case rev (sort_key (position_ranks prios) (filter (\<lambda>i. 0 < budgets ! i) [0..<length budgets])) of
        [] \<Rightarrow> None | i # _ \<Rightarrow> Some i)"

definition expandableIndex :: "js_number list \<Rightarrow> nat list \<Rightarrow> nat list \<Rightarrow> nat option" where
  "expandableIndex prios needs budgets =
     (case sort_key (position_ranks prios)
             (filter (\<lambda>i. budgets ! i < needs ! i) [0..<length budgets]) of
        [] \<Rightarrow> None | i # _ \<Rightarrow> Some i)"

lemma sorted_filter_mem:
  "set ys = set (sort_key k (filter P xs)) \<Longrightarrow> ys = i # r \<Longrightarrow> i \<in> set xs \<and> P i"
proof -
  assume eq: "set ys = set (sort_key k (filter P xs))" and ys: "ys = i # r"
  have "i \<in> set (sort_key k (filter P xs))" unfolding eq [symmetric] ys by simp
  then show ?thesis by simp
qed

lemma removableIndex_Some:
  "removableIndex prios budgets = Some i \<Longrightarrow> i < length budgets \<and> 0 < budgets ! i"
  using sorted_filter_mem [OF set_rev, of "position_ranks prios" "\<lambda>i. 0 < budgets ! i" "[0..<length budgets]" i]
  by (simp add: removableIndex_def split: list.splits)

lemma expandableIndex_Some:
  "expandableIndex prios needs budgets = Some i \<Longrightarrow> i < length budgets \<and> budgets ! i < needs ! i"
  using sorted_filter_mem [OF refl, of "position_ranks prios" "\<lambda>i. budgets ! i < needs ! i"
      "[0..<length budgets]" i]
  by (simp add: expandableIndex_def split: list.splits)

lemma sum_list_dec: "\<lbrakk>i < length xs; 0 < xs ! i\<rbrakk> \<Longrightarrow> sum_list (xs[i := xs ! i - 1]) + 1 = sum_list (xs :: nat list)"
  by (induction xs arbitrary: i) (auto split: nat.splits)

lemma sum_list_inc: "i < length xs \<Longrightarrow> sum_list (xs[i := xs ! i + 1]) = sum_list (xs :: nat list) + 1"
  by (induction xs arbitrary: i) (auto split: nat.splits)

function shrink_budgets :: "js_number list \<Rightarrow> nat \<Rightarrow> nat list \<Rightarrow> nat list" where
  "shrink_budgets prios available budgets =
     (if available < sum_list budgets
      then (case removableIndex prios budgets of
              None \<Rightarrow> budgets
            | Some i \<Rightarrow> shrink_budgets prios available (budgets[i := budgets ! i - 1]))
      else budgets)"
  by pat_completeness auto
termination
proof (relation "measure (\<lambda>(prios, available, budgets). sum_list budgets)", goal_cases)
  case (2 prios available budgets i)
  then show ?case using removableIndex_Some [of prios budgets i] sum_list_dec [of i budgets] by auto
qed simp

function grow_budgets :: "js_number list \<Rightarrow> nat list \<Rightarrow> nat \<Rightarrow> nat list \<Rightarrow> nat list" where
  "grow_budgets prios needs available budgets =
     (if sum_list budgets < available
      then (case expandableIndex prios needs budgets of
              None \<Rightarrow> budgets
            | Some i \<Rightarrow> grow_budgets prios needs available (budgets[i := budgets ! i + 1]))
      else budgets)"
  by pat_completeness auto
termination
proof (relation "measure (\<lambda>(prios, needs, available, budgets). available - sum_list budgets)", goal_cases)
  case (2 prios needs available budgets i)
  then show ?case using expandableIndex_Some [of prios needs budgets i] sum_list_inc [of i budgets] by auto
qed simp

declare shrink_budgets.simps [simp del] grow_budgets.simps [simp del]

definition allocateFieldBudgets ::
    "text_env \<Rightarrow> normalized_field list \<Rightarrow> nat \<Rightarrow> text_locale option \<Rightarrow> nat list" where
  "allocateFieldBudgets env fs available l =
     (if fs = [] then []
      else if available = 0 then map (\<lambda>_. 0) fs
      else (let prios = map pf_priority fs;
                tot = max 1 (sum_list (map getSafePriority prios));
                needs = map (getFieldNeed env l) fs;
                budgets = map (getInitialFieldBudget env l available tot) fs
            in grow_budgets prios needs available (shrink_budgets prios available budgets)))"

section \<open>Formatting\<close>

definition budget_clip :: "text_env \<Rightarrow> ustr \<Rightarrow> nat \<Rightarrow> text_locale option \<Rightarrow> ustr \<Rightarrow> ustr" where
  "budget_clip env s n l ellipsis =
     clipTextPreview env s \<lparr>co_maxGraphemes = Some (Some (of_nat n)), co_locale = l, co_ellipsis = Some ellipsis\<rparr>"

text \<open>The last fields are dropped while the others cannot get their least budget; \<open>fixed\<close> is what
  the separators (and labels) take.\<close>

function drop_fields ::
    "text_env \<Rightarrow> text_locale option \<Rightarrow> (normalized_field list \<Rightarrow> nat) \<Rightarrow> nat \<Rightarrow>
     normalized_field list \<Rightarrow> normalized_field list" where
  "drop_fields env l fixed maxg fs =
     (if 1 < length fs
      then (if int (getMinimumRequiredBudget env l fs) \<le> int maxg - int (fixed fs) then fs
            else drop_fields env l fixed maxg (butlast fs))
      else fs)"
  by pat_completeness auto
termination by (relation "measure (\<lambda>(env, l, fixed, maxg, fs). length fs)") auto

declare drop_fields.simps [simp del]

definition separator_budget :: "text_env \<Rightarrow> text_locale option \<Rightarrow> ustr \<Rightarrow> normalized_field list \<Rightarrow> nat" where
  "separator_budget env l sep fs = (length fs - 1) * countRenderedGraphemes env l sep"

text \<open>The last step of both formats: a preview that is still too long is clipped as a whole.\<close>

definition fit_preview :: "text_env \<Rightarrow> text_locale option \<Rightarrow> ustr \<Rightarrow> nat \<Rightarrow> ustr \<Rightarrow> ustr" where
  "fit_preview env l ellipsis maxg preview =
     (if maxg < countRenderedGraphemes env l preview then budget_clip env preview maxg l ellipsis
      else preview)"

definition formatValueOnlyPreview ::
    "text_env \<Rightarrow> normalized_field list \<Rightarrow> nat \<Rightarrow> ustr \<Rightarrow> text_locale option \<Rightarrow> ustr \<Rightarrow> ustr" where
  "formatValueOnlyPreview env fds maxg sep l ellipsis =
     (let fs = drop_fields env l (separator_budget env l sep) maxg fds in
      if fs = [] \<or> maxg = 0 then []
      else (let budgets = allocateFieldBudgets env fs (maxg - separator_budget env l sep fs) l
            in fit_preview env l ellipsis maxg
                 (join_texts sep (map (\<lambda>(f, b). budget_clip env (pf_value f) b l ellipsis) (zip fs budgets)))))"

record format_options =
  fo_maxFields :: "js_number option"
  fo_maxGraphemes :: "js_number option"
  fo_separator :: "ustr option"
  fo_labelSeparator :: "ustr option"
  fo_locale :: "text_locale option"
  fo_ellipsis :: "ustr option"

definition format_limit :: "format_options \<Rightarrow> nat" where
  "format_limit opts = toSafeInteger (orElse (fo_maxGraphemes opts) (Some (of_nat DEFAULT_MAX_GRAPHEMES)))
     DEFAULT_MAX_GRAPHEMES"

definition format_max_fields :: "format_options \<Rightarrow> nat" where
  "format_max_fields opts =
     toSafeInteger (orElse (fo_maxFields opts) (Some (of_nat DEFAULT_MAX_PREVIEW_FIELDS)))
       DEFAULT_MAX_PREVIEW_FIELDS"

definition formatPrioritizedFieldPreview ::
    "text_env \<Rightarrow> preview_field list \<Rightarrow> format_options \<Rightarrow> ustr" where
  "formatPrioritizedFieldPreview env fds opts =
     (let maxg = format_limit opts; l = fo_locale opts;
          sep = orElse (fo_separator opts) DEFAULT_FIELD_SEPARATOR;
          lsep = orElse (fo_labelSeparator opts) DEFAULT_LABEL_SEPARATOR;
          ellipsis = orElse (fo_ellipsis opts) ELLIPSIS;
          selected = normalizePrioritizedFields env fds (format_max_fields opts)
      in if maxg = 0 \<or> selected = [] then []
         else (let fixed = (\<lambda>gs. getFixedFieldPreviewGraphemes env gs sep lsep l);
                   fs = drop_fields env l fixed maxg selected
           in if fs = [] then []
              else if maxg \<le> fixed fs then formatValueOnlyPreview env fs maxg sep l ellipsis
              else (let budgets = allocateFieldBudgets env fs (maxg - fixed fs) l
                    in fit_preview env l ellipsis maxg
                         (join_texts sep (map (\<lambda>(f, b). getFieldPrefix f lsep @
                            budget_clip env (pf_value f) b l ellipsis) (zip fs budgets))))))"

section \<open>Sharing the budget\<close>

lemma removableIndex_None:
  "removableIndex prios budgets = None \<Longrightarrow> sum_list budgets = 0"
proof -
  assume "removableIndex prios budgets = None"
  then have "filter (\<lambda>i. 0 < budgets ! i) [0..<length budgets] = []"
    by (auto simp: removableIndex_def split: list.splits) (metis set_empty2 set_sort)
  then have "\<forall>b \<in> set budgets. b = 0" by (auto simp: filter_empty_conv in_set_conv_nth)
  then show ?thesis by (rule sum_list_eq_0_iff [THEN iffD2])
qed

lemma shrink_sum:
  "length (shrink_budgets prios available budgets) = length budgets \<and>
   sum_list (shrink_budgets prios available budgets) = min available (sum_list budgets) \<and>
   (\<forall>i < length budgets. shrink_budgets prios available budgets ! i \<le> budgets ! i)"
proof (induction prios available budgets rule: shrink_budgets.induct)
  case (1 prios available budgets)
  show ?case
  proof (cases "available < sum_list budgets")
    case True
    have "removableIndex prios budgets \<noteq> None"
    proof
      assume "removableIndex prios budgets = None"
      then have "sum_list budgets = 0" by (rule removableIndex_None)
      with True show False by (simp only: not_less0)
    qed
    then obtain i where i: "removableIndex prios budgets = Some i" by blast
    let ?b = "budgets[i := budgets ! i - 1]"
    note in_range = removableIndex_Some [OF i]
    have step: "shrink_budgets prios available budgets = shrink_budgets prios available ?b"
      using True i by (subst shrink_budgets.simps) simp
    have sum: "sum_list ?b + 1 = sum_list budgets" by (rule sum_list_dec) (use in_range in auto)
    have "?b ! j \<le> budgets ! j" for j by (cases "j = i") (use in_range in auto)
    then show ?thesis using 1 [OF True i] True sum unfolding step by (fastforce intro: le_trans)
  next
    case False
    then have "shrink_budgets prios available budgets = budgets"
      by (subst shrink_budgets.simps) simp
    with False show ?thesis by simp
  qed
qed

lemma expandableIndex_None:
  assumes "expandableIndex prios needs budgets = None" and "i < length budgets"
  shows "needs ! i \<le> budgets ! i"
proof -
  from assms(1) have "filter (\<lambda>i. budgets ! i < needs ! i) [0..<length budgets] = []"
    by (auto simp: expandableIndex_def split: list.splits) (metis set_empty2 set_sort)
  with assms(2) show ?thesis by (auto simp: filter_empty_conv not_less)
qed

lemma sum_list_pointwise:
  assumes "length xs = length ys" and "\<And>i. i < length xs \<Longrightarrow> xs ! i \<le> (ys ! i :: nat)"
  shows "sum_list xs \<le> sum_list ys"
  using assms by (intro sum_list_mono2) auto

lemma grow_sum:
  "\<lbrakk>length needs = length budgets; \<forall>i < length budgets. budgets ! i \<le> needs ! i;
    sum_list budgets \<le> available\<rbrakk> \<Longrightarrow>
   length (grow_budgets prios needs available budgets) = length budgets \<and>
   sum_list (grow_budgets prios needs available budgets) = min available (sum_list needs) \<and>
   (\<forall>i < length budgets. grow_budgets prios needs available budgets ! i \<le> needs ! i)"
proof (induction prios needs available budgets rule: grow_budgets.induct)
  case (1 prios needs available budgets)
  have le: "sum_list budgets \<le> sum_list needs" using 1 by (intro sum_list_pointwise) auto
  show ?case
  proof (cases "sum_list budgets < available")
    case False
    then have "grow_budgets prios needs available budgets = budgets"
      by (subst grow_budgets.simps) simp
    with 1 False le show ?thesis by simp
  next
    case less: True
    show ?thesis
    proof (cases "expandableIndex prios needs budgets")
      case None
      then have "grow_budgets prios needs available budgets = budgets"
        by (subst grow_budgets.simps) simp
      moreover have "sum_list needs \<le> sum_list budgets"
        using 1 expandableIndex_None [OF None] by (intro sum_list_pointwise) auto
      ultimately show ?thesis using 1 less le by simp
    next
      case (Some i)
      let ?b = "budgets[i := budgets ! i + 1]"
      note in_range = expandableIndex_Some [OF Some]
      have step: "grow_budgets prios needs available budgets = grow_budgets prios needs available ?b"
        using less Some by (subst grow_budgets.simps) simp
      have sum: "sum_list ?b = sum_list budgets + 1"
        by (rule sum_list_inc) (rule conjunct1 [OF in_range])
      have "\<forall>j < length ?b. ?b ! j \<le> needs ! j"
        using 1 in_range by (auto simp: nth_list_update)
      then show ?thesis
        using "1.IH" [OF less Some] "1.prems" less sum unfolding step by simp
    qed
  qed
qed

lemma initial_budget_need: "getInitialFieldBudget env l available tot f \<le> getFieldNeed env l f"
  by (simp add: getInitialFieldBudget_def Let_def)

section \<open>Choosing\<close>

lemma unseen_mem:
  "f \<in> set (unseen_fields env seen fs) \<Longrightarrow>
   createFieldIdentity env f \<notin> set seen \<and> pf_value f \<noteq> [] \<and> f \<in> set fs"
proof (induction fs arbitrary: seen)
  case (Cons g fs)
  show ?case
  proof (cases "pf_value g = [] \<or> createFieldIdentity env g \<in> set seen")
    case True
    then have "f \<in> set (unseen_fields env seen fs)" using Cons.prems by (simp split: if_splits)
    then show ?thesis using Cons.IH by simp
  next
    case False
    then have "f = g \<or> f \<in> set (unseen_fields env (createFieldIdentity env g # seen) fs)"
      using Cons.prems by simp
    then show ?thesis using Cons.IH [of "createFieldIdentity env g # seen"] False by auto
  qed
qed simp

lemma unseen_distinct: "distinct (map (createFieldIdentity env) (unseen_fields env seen fs))"
proof (induction fs arbitrary: seen)
  case (Cons g fs)
  have "createFieldIdentity env g \<notin>
      createFieldIdentity env ` set (unseen_fields env (createFieldIdentity env g # seen) fs)"
    using unseen_mem [of _ env "createFieldIdentity env g # seen" fs] by fastforce
  with Cons show ?case by simp
qed simp

lemma distinct_take_sorted:
  assumes "distinct (map g xs)"
  shows "distinct (map g (take n (sort_key k xs)))"
proof -
  have "distinct (map g (sort_key k xs))"
    using assms by (metis distinct_map distinct_sort set_sort)
  then show ?thesis by (simp add: take_map [symmetric])
qed

section \<open>Properties\<close>

text \<open>C23: The budget of the fields is shared out exactly: the shares add up to the smaller of what is
  available and what the fields need, no field gets more than it needs, and so the two loops that
  correct the first, rounded shares always stop.\<close>

theorem allocate_budgets_exact:
  "list_all2 (\<lambda>b f. b \<le> getFieldNeed env l f) (allocateFieldBudgets env fs available l) fs \<and>
   sum_list (allocateFieldBudgets env fs available l) =
     min available (sum_list (map (getFieldNeed env l) fs))"
proof (cases "fs = [] \<or> available = 0")
  case True
  then show ?thesis
    by (auto simp: allocateFieldBudgets_def map_replicate_const list_all2_conv_all_nth)
next
  case False
  let ?prios = "map pf_priority fs" and ?needs = "map (getFieldNeed env l) fs"
  let ?init = "map (getInitialFieldBudget env l available
      (max 1 (sum_list (map getSafePriority ?prios)))) fs"
  let ?sh = "shrink_budgets ?prios available ?init"
  have alloc: "allocateFieldBudgets env fs available l = grow_budgets ?prios ?needs available ?sh"
    using False by (simp add: allocateFieldBudgets_def Let_def)
  note shrunk = shrink_sum [of ?prios available ?init]
  have sh: "length ?sh = length fs" "sum_list ?sh \<le> available" using shrunk by simp_all
  have "?sh ! i \<le> ?needs ! i" if "i < length fs" for i
  proof -
    have "?sh ! i \<le> ?init ! i" using shrunk that by simp
    also have "\<dots> \<le> ?needs ! i" using that by (simp add: initial_budget_need)
    finally show ?thesis .
  qed
  then show ?thesis
    unfolding alloc using grow_sum [of ?needs ?sh available ?prios] sh
    by (simp add: list_all2_conv_all_nth)
qed

text \<open>The fields that are shown are sorted by priority and then by position, none is blank and no
  two say the same thing, there are at most as many as asked for, and a field is left out only for
  fields that come before it in that order.\<close>

theorem shown_fields_are_the_best:
  "sorted (map field_rank_of (normalizePrioritizedFields env fds n)) \<and>
   distinct (map (createFieldIdentity env) (normalizePrioritizedFields env fds n)) \<and>
   length (normalizePrioritizedFields env fds n) = min n (length (candidate_field_list env fds)) \<and>
   list_all (\<lambda>f. pf_value f \<noteq> [] \<and> f \<in> set (candidate_field_list env fds))
     (normalizePrioritizedFields env fds n) \<and>
   list_all (\<lambda>f. list_all (\<lambda>g. field_rank_of g \<le> field_rank_of f) (normalizePrioritizedFields env fds n))
     (filter (\<lambda>f. f \<notin> set (normalizePrioritizedFields env fds n)) (candidate_field_list env fds))"
proof -
  let ?c = "candidate_field_list env fds"
  let ?s = "sort_key field_rank_of ?c"
  have norm: "normalizePrioritizedFields env fds n = take n ?s"
    by (simp add: normalizePrioritizedFields_def)
  have dist: "distinct (map (createFieldIdentity env) ?c)"
    using unseen_distinct unfolding candidate_field_list_def by blast
  have split: "map field_rank_of (take n ?s) @ map field_rank_of (drop n ?s) = map field_rank_of ?s"
    by (metis append_take_drop_id map_append)
  have sorted: "sorted (map field_rank_of (take n ?s) @ map field_rank_of (drop n ?s))"
    unfolding split by simp
  have best: "field_rank_of g \<le> field_rank_of f"
    if "f \<in> set ?c" "f \<notin> set (take n ?s)" "g \<in> set (take n ?s)" for f g
  proof -
    have "f \<in> set ?s" using that(1) by simp
    then have "f \<in> set (take n ?s) \<union> set (drop n ?s)" by (metis append_take_drop_id set_append)
    then have "f \<in> set (drop n ?s)" using that(2) by blast
    with that(3) sorted show ?thesis by (auto simp: sorted_append)
  qed
  have sub: "set (take n ?s) \<subseteq> set ?c" by (metis set_sort set_take_subset)
  have srt: "sorted (map field_rank_of (take n ?s))" using sorted by (simp add: sorted_append)
  have nonblank: "pf_value f \<noteq> []" if "f \<in> set ?c" for f
    using unseen_mem that unfolding candidate_field_list_def by blast
  show ?thesis unfolding norm
  proof (intro conjI)
    show "distinct (map (createFieldIdentity env) (take n ?s))"
      by (rule distinct_take_sorted [OF dist])
    show "length (take n ?s) = min n (length ?c)" by simp
  qed (use best srt sub nonblank in \<open>auto simp: list_all_iff\<close>)
qed

lemma fit_preview_bound:
  assumes "well_segmented env l"
  shows "countRenderedGraphemes env l (fit_preview env l e n s) \<le> n"
proof -
  let ?o = "\<lparr>co_maxGraphemes = Some (Some (of_nat n)), co_locale = l, co_ellipsis = Some e\<rparr>"
  have "clip_limit ?o = n" by (simp add: clip_limit_def toSafeInteger_def orElse_def)
  then have "length (graphemes env l (clipTextPreview env s ?o)) \<le> n"
    using clip_preview_ok [of env ?o s] assms by simp
  then show ?thesis
    by (simp add: fit_preview_def budget_clip_def rendered_count [OF assms])
qed

lemma empty_bound: "well_segmented env l \<Longrightarrow> countRenderedGraphemes env l [] = 0"
  by (simp add: rendered_count) (simp add: well_segmented_def grapheme_segmenter.empty)

text \<open>Whatever the fields, their labels, priorities and limits, the formatted line has at most the
  grapheme limit of its options, as a renderer counts it.\<close>

theorem field_preview_bounded:
  assumes "well_segmented env (fo_locale opts)"
  shows "countRenderedGraphemes env (fo_locale opts) (formatPrioritizedFieldPreview env fds opts) \<le>
    format_limit opts"
  using fit_preview_bound [OF assms] empty_bound [OF assms]
  by (simp add: formatPrioritizedFieldPreview_def formatValueOnlyPreview_def Let_def)

definition example_fields :: "preview_field list" where
  "example_fields = [\<lparr>pf_value = [97, 98, 99, 100, 101, 102], pf_priority = Some 1, pf_label = Some [120],
      pf_minGraphemes = None, pf_maxGraphemes = None\<rparr>,
    \<lparr>pf_value = [103, 104, 105, 106], pf_priority = Some 2, pf_label = None,
      pf_minGraphemes = None, pf_maxGraphemes = None\<rparr>]"

lemma field_preview_bounded_witness:
  "countRenderedGraphemes plain_env None (formatPrioritizedFieldPreview plain_env example_fields
     \<lparr>fo_maxFields = None, fo_maxGraphemes = Some (Some 6), fo_separator = None,
      fo_labelSeparator = None, fo_locale = None, fo_ellipsis = None\<rparr>) \<le> 6"
proof -
  let ?o = "\<lparr>fo_maxFields = None, fo_maxGraphemes = Some (Some 6), fo_separator = None,
      fo_labelSeparator = None, fo_locale = None, fo_ellipsis = None\<rparr>"
  have "format_limit ?o = 6" by (simp add: format_limit_def toSafeInteger_def orElse_def)
  then show ?thesis using field_preview_bounded [of plain_env ?o example_fields] by simp
qed

end
