(* ===== verification/Budget.thy ===== *)
theory Budget
  imports Prelude
begin

text \<open>
  The token estimate and the payload event sink of \<open>agent-sidecar/src/engines/budget/budget.ts\<close>.
  A string is the list of its code points. The runtime event factory is an argument: it turns a
  draft into an event, and each attached factory is known by a number.
\<close>

section \<open>Counting\<close>

definition countTextChars :: "ustr \<Rightarrow> nat" where
  "countTextChars s = length s"

text \<open>\<open>Math.ceil(n / 4)\<close>\<close>

definition quarter :: "nat \<Rightarrow> nat" where
  "quarter n = (n + 3) div 4"

fun estimate_loop :: "ustr \<Rightarrow> nat \<Rightarrow> nat \<Rightarrow> nat" where
  "estimate_loop [] run tokens = (if 0 < run then tokens + quarter run else tokens)"
| "estimate_loop (c # cs) run tokens =
     (if c \<le> 0x7f then estimate_loop cs (run + 1) tokens
      else estimate_loop cs 0 ((if 0 < run then tokens + quarter run else tokens) + 1))"

definition estimateInputTokensByChars :: "ustr \<Rightarrow> nat" where
  "estimateInputTokensByChars s = max (estimate_loop s 0 0) 1"

text \<open>The estimate by maximal runs: every character outside ASCII is a token, and every run of ASCII
  characters costs a quarter of its length, rounded up.\<close>

function token_runs :: "ustr \<Rightarrow> nat" where
  "token_runs [] = 0"
| "token_runs (c # cs) =
     (if c \<le> 0x7f
      then quarter (length (takeWhile (\<lambda>d. d \<le> 0x7f) (c # cs))) + token_runs (dropWhile (\<lambda>d. d \<le> 0x7f) cs)
      else 1 + token_runs cs)"
  by pat_completeness auto
termination by (relation "measure length") (auto simp: le_imp_less_Suc length_dropWhile_le)

lemma quarter_0 [simp]: "quarter 0 = 0"
  by (simp add: quarter_def)

lemma quarter_add: "quarter (a + b) \<le> quarter a + quarter b"
  by (simp add: quarter_def)

lemma quarter_bounds: "n \<le> 4 * quarter n \<and> quarter n \<le> n"
  unfolding quarter_def by presburger

lemma loop_runs:
  "estimate_loop s run tokens =
     tokens + quarter (run + length (takeWhile (\<lambda>d. d \<le> 0x7f) s)) + token_runs (dropWhile (\<lambda>d. d \<le> 0x7f) s)"
proof (induction s arbitrary: run tokens)
  case (Cons c cs)
  have "token_runs cs = quarter (length (takeWhile (\<lambda>d. d \<le> 0x7f) cs)) +
      token_runs (dropWhile (\<lambda>d. d \<le> 0x7f) cs)"
    by (cases cs) simp_all
  with Cons show ?case by simp
qed simp

lemma token_runs_split: "token_runs s = quarter (length (takeWhile (\<lambda>d. d \<le> 0x7f) s)) +
    token_runs (dropWhile (\<lambda>d. d \<le> 0x7f) s)"
  by (cases s) simp_all

lemma loop_token_runs: "estimate_loop s 0 0 = token_runs s"
  using loop_runs [of s 0 0] token_runs_split [of s] by simp

lemma loop_append:
  "estimate_loop (a @ b) run tokens \<le> estimate_loop a run tokens + token_runs b"
proof (induction a arbitrary: run tokens)
  case Nil
  show ?case
    using loop_runs [of b run tokens] token_runs_split [of b]
      quarter_add [of run "length (takeWhile (\<lambda>d. d \<le> 0x7f) b)"] by simp
qed simp

lemma token_runs_bounds: "length s \<le> 4 * token_runs s \<and> token_runs s \<le> length s"
proof (induction s rule: token_runs.induct)
  case (2 c cs)
  show ?case
  proof (cases "c \<le> 0x7f")
    case True
    have "length cs = length (takeWhile (\<lambda>d. d \<le> 0x7f) cs) + length (dropWhile (\<lambda>d. d \<le> 0x7f) cs)"
      by (metis length_append takeWhile_dropWhile_id)
    with 2(1) [OF True] True quarter_bounds [of "Suc (length (takeWhile (\<lambda>d. d \<le> 0x7f) cs))"]
    show ?thesis by simp
  next
    case False
    with 2(2) show ?thesis by simp
  qed
qed simp

section \<open>The payload event sink\<close>

record 'stats payload_draft =
  dr_stats :: 'stats
  dr_requestIndex :: nat

record 'stats payload_sink =
  sk_pending :: "'stats payload_draft list"
  sk_factory :: "nat option"
  sk_requestIndex :: nat
  sk_events :: "(nat \<times> 'stats payload_draft) list"

definition createDeepSeekPayloadEventSink :: "'stats payload_sink" where
  "createDeepSeekPayloadEventSink =
     \<lparr>sk_pending = [], sk_factory = None, sk_requestIndex = 0, sk_events = []\<rparr>"

definition pushDraft :: "'stats payload_draft \<Rightarrow> 'stats payload_sink \<Rightarrow> 'stats payload_sink" where
  "pushDraft d s =
     (case sk_factory s of
        None \<Rightarrow> s\<lparr>sk_pending := sk_pending s @ [d]\<rparr>
      | Some f \<Rightarrow> s\<lparr>sk_events := sk_events s @ [(f, d)]\<rparr>)"

definition onRequestPayload :: "'stats \<Rightarrow> 'stats payload_sink \<Rightarrow> 'stats payload_sink" where
  "onRequestPayload st s =
     (let s1 = s\<lparr>sk_requestIndex := sk_requestIndex s + 1\<rparr>
      in pushDraft \<lparr>dr_stats = st, dr_requestIndex = sk_requestIndex s1\<rparr> s1)"

fun drain_pending :: "nat \<Rightarrow> 'stats payload_draft list \<Rightarrow> 'stats payload_sink \<Rightarrow> 'stats payload_sink" where
  "drain_pending f [] s = s\<lparr>sk_pending := []\<rparr>"
| "drain_pending f (d # ds) s =
     drain_pending f ds (s\<lparr>sk_pending := ds, sk_events := sk_events s @ [(f, d)]\<rparr>)"

definition attachRuntimeEventFactory :: "nat \<Rightarrow> 'stats payload_sink \<Rightarrow> 'stats payload_sink" where
  "attachRuntimeEventFactory f s = drain_pending f (sk_pending s) (s\<lparr>sk_factory := Some f\<rparr>)"

datatype 'stats sink_event = SinkPayload 'stats | SinkAttach nat

fun sink_step :: "'stats payload_sink \<Rightarrow> 'stats sink_event \<Rightarrow> 'stats payload_sink" where
  "sink_step s (SinkPayload st) = onRequestPayload st s"
| "sink_step s (SinkAttach f) = attachRuntimeEventFactory f s"

fun payloads :: "'stats sink_event list \<Rightarrow> 'stats list" where
  "payloads [] = []"
| "payloads (SinkPayload st # es) = st # payloads es"
| "payloads (SinkAttach f # es) = payloads es"

fun is_attach :: "'stats sink_event \<Rightarrow> bool" where
  "is_attach (SinkAttach f) = True"
| "is_attach (SinkPayload st) = False"

definition number_drafts :: "nat \<Rightarrow> 'stats list \<Rightarrow> 'stats payload_draft list" where
  "number_drafts k xs = map (\<lambda>(i, st). \<lparr>dr_stats = st, dr_requestIndex = i\<rparr>) (enumerate (Suc k) xs)"

lemma drain_pending_eq:
  "drain_pending f ds s = s\<lparr>sk_pending := [], sk_events := sk_events s @ map (Pair f) ds\<rparr>"
  by (induction ds arbitrary: s) simp_all

definition all_drafts :: "'stats payload_sink \<Rightarrow> 'stats payload_draft list" where
  "all_drafts s = map snd (sk_events s) @ sk_pending s"

lemma sink_run:
  "(sk_factory s = None \<or> sk_pending s = []) \<Longrightarrow>
   all_drafts (run_events sink_step s es) = all_drafts s @ number_drafts (sk_requestIndex s) (payloads es) \<and>
   (sk_factory (run_events sink_step s es) = None \<or> sk_pending (run_events sink_step s es) = []) \<and>
   (sk_factory (run_events sink_step s es) = None \<longleftrightarrow>
      sk_factory s = None \<and> \<not> list_ex is_attach es)"
proof (induction es arbitrary: s)
  case (Cons e es)
  show ?case
  proof (cases e)
    case (SinkPayload st)
    have "sk_factory (onRequestPayload st s) = sk_factory s"
      "sk_requestIndex (onRequestPayload st s) = Suc (sk_requestIndex s)"
      "sk_factory s = None \<or> sk_pending (onRequestPayload st s) = []"
      "all_drafts (onRequestPayload st s) =
         all_drafts s @ [\<lparr>dr_stats = st, dr_requestIndex = Suc (sk_requestIndex s)\<rparr>]"
      using Cons.prems
      by (auto simp: onRequestPayload_def pushDraft_def Let_def all_drafts_def split: option.split)
    then show ?thesis
      using Cons.IH [of "onRequestPayload st s"] SinkPayload by (auto simp: number_drafts_def)
  next
    case (SinkAttach f)
    have "sk_pending (attachRuntimeEventFactory f s) = []"
      "sk_factory (attachRuntimeEventFactory f s) = Some f"
      "sk_requestIndex (attachRuntimeEventFactory f s) = sk_requestIndex s"
      "all_drafts (attachRuntimeEventFactory f s) = all_drafts s"
      by (simp_all add: attachRuntimeEventFactory_def drain_pending_eq all_drafts_def comp_def)
    then show ?thesis
      using Cons.IH [of "attachRuntimeEventFactory f s"] SinkAttach by auto
  qed
qed (simp add: number_drafts_def)

section \<open>Properties\<close>

text \<open>The one-pass estimate is the estimate by maximal runs, never 0, at least a quarter of the
  characters and at most their number, and estimating a text in two parts never gives less than
  estimating it as a whole.\<close>

theorem token_estimate_exact:
  "estimateInputTokensByChars s = max (token_runs s) 1 \<and>
   length s \<le> 4 * estimateInputTokensByChars s \<and>
   estimateInputTokensByChars s \<le> max (length s) 1 \<and>
   estimateInputTokensByChars (s @ t) \<le> estimateInputTokensByChars s + estimateInputTokensByChars t"
proof -
  have "token_runs (s @ t) \<le> token_runs s + token_runs t"
    using loop_append [of s t 0 0] by (simp add: loop_token_runs)
  then show ?thesis
    using token_runs_bounds [of s] by (auto simp: estimateInputTokensByChars_def loop_token_runs)
qed

text \<open>Whenever the event factory is attached, every payload is reported once, in the order the
  requests were made and numbered 1, 2, ...; nothing waits once a factory is there.\<close>

theorem payload_sink_loses_nothing:
  "let s = run_events sink_step createDeepSeekPayloadEventSink es in
     map snd (sk_events s) @ sk_pending s = number_drafts 0 (payloads es) \<and>
     (if list_ex is_attach es
      then map snd (sk_events s) = number_drafts 0 (payloads es)
      else sk_events s = [])"
proof -
  let ?s0 = "createDeepSeekPayloadEventSink :: 'a payload_sink"
  have s0: "sk_factory ?s0 = None" "all_drafts ?s0 = []" "sk_requestIndex ?s0 = 0" "sk_events ?s0 = []"
    by (simp_all add: createDeepSeekPayloadEventSink_def all_drafts_def)
  have quiet: "\<not> list_ex is_attach es \<Longrightarrow> sk_factory s = None \<Longrightarrow>
      sk_events (run_events sink_step s es) = sk_events s" for s :: "'a payload_sink" and es
  proof (induction es arbitrary: s)
    case (Cons e es)
    then show ?case by (cases e) (simp_all add: onRequestPayload_def pushDraft_def Let_def)
  qed simp
  show ?thesis
    using sink_run [of ?s0 es] s0 quiet [of es ?s0] by (auto simp: Let_def all_drafts_def)
qed

end
