(* ===== verification/McpTools.thy ===== *)
theory McpTools
  imports Prelude
begin

text \<open>
  Which tools of an MCP server a run may see and call, and which calls need approval: the pure part
  of \<open>agent-sidecar/src/tools/mcp-gateway.ts\<close>. Tool names are ASCII, so the case-insensitive
  patterns are tests on the lower-cased name; the tools of a bundle are an object, that is a list of
  named tools in order, without the names of \<open>Object.prototype\<close>.
\<close>

section \<open>Servers\<close>

datatype mcp_server = SvGit | SvProbe | SvMemory | SvSequentialThinking | SvGithub | SvContext7
  | SvLogoscope | SvHooks | SvSqlite | SvTavily

definition MCP_SERVER_NAMES :: "mcp_server list" where
  "MCP_SERVER_NAMES = [SvGit, SvProbe, SvMemory, SvSequentialThinking, SvGithub, SvContext7,
     SvLogoscope, SvHooks, SvSqlite, SvTavily]"

fun server_name :: "mcp_server \<Rightarrow> string" where
  "server_name SvGit = ''git''"
| "server_name SvProbe = ''probe''"
| "server_name SvMemory = ''memory''"
| "server_name SvSequentialThinking = ''sequential-thinking''"
| "server_name SvGithub = ''github''"
| "server_name SvContext7 = ''context7''"
| "server_name SvLogoscope = ''logoscope''"
| "server_name SvHooks = ''hooks-mcp''"
| "server_name SvSqlite = ''sqlite-mcp''"
| "server_name SvTavily = ''tavily-mcp''"

datatype tool_profile = ReadonlyProfile | WriteProfile

section \<open>Patterns\<close>

definition starts_with :: "ustr \<Rightarrow> ustr \<Rightarrow> bool" where
  "starts_with w s \<longleftrightarrow> take (length w) s = w"

definition ends_with :: "ustr \<Rightarrow> ustr \<Rightarrow> bool" where
  "ends_with w s \<longleftrightarrow> starts_with (rev w) (rev s)"

definition contains :: "ustr \<Rightarrow> ustr \<Rightarrow> bool" where
  "contains w s \<longleftrightarrow> list_ex (\<lambda>i. starts_with w (drop i s)) [0..<Suc (length s)]"

text \<open>One of the words at the start, then the end or one of the delimiters.\<close>

definition word_at_start :: "nat list \<Rightarrow> string list \<Rightarrow> ustr \<Rightarrow> bool" where
  "word_at_start delims ws s \<longleftrightarrow>
     list_ex (\<lambda>w. starts_with (lit w) s \<and>
       (case drop (length w) s of [] \<Rightarrow> True | c # _ \<Rightarrow> c \<in> set delims)) ws"

text \<open>The same anywhere after the start or a delimiter.\<close>

definition delimited_word :: "nat list \<Rightarrow> string list \<Rightarrow> ustr \<Rightarrow> bool" where
  "delimited_word delims ws s \<longleftrightarrow>
     list_ex (\<lambda>i. (i = 0 \<or> s ! (i - 1) \<in> set delims) \<and> word_at_start delims ws (drop i s))
       [0..<length s]"

definition READONLY_MCP_TOOL_DENY_PREFIXES :: "string list" where
  "READONLY_MCP_TOOL_DENY_PREFIXES = [''write'', ''edit'', ''create'', ''delete'', ''remove'', ''move'',
     ''install'', ''apply'', ''drop'', ''upload'', ''insert'', ''replace'', ''update'', ''reset'',
     ''patch'', ''put'', ''post'']"

definition READONLY_MCP_TOOL_DENY_EXACT :: "string list" where
  "READONLY_MCP_TOOL_DENY_EXACT = [''commit'', ''push'', ''merge'', ''pull'', ''rebase'', ''stash'',
     ''add'', ''checkout'', ''send'', ''run'', ''exec'', ''execute'', ''git_commit'', ''git_push'',
     ''git_merge'', ''git_pull'', ''git_rebase'', ''git_stash'', ''git_add'', ''git_checkout'',
     ''git_reset'', ''merge_pr'', ''merge_pull_request'', ''merge_merge_request'', ''close_pr'',
     ''close_pull_request'', ''close_merge_request'', ''send_message'', ''send_email'',
     ''send_request'', ''send_notification'', ''post_message'', ''post_comment'', ''reply'',
     ''run_command'', ''run_shell'', ''exec_command'', ''execute_command'', ''shell_exec'',
     ''shell_run'', ''bash'', ''sh'']"

definition GIT_NATIVE_FILE_DUPLICATES :: "string list" where
  "GIT_NATIVE_FILE_DUPLICATES = [''read_file'', ''write_file'', ''edit_file'', ''create_directory'',
     ''move_file'', ''delete_file'', ''grep'']"

definition PROBE_NATIVE_FILE_DUPLICATES :: "string list" where
  "PROBE_NATIVE_FILE_DUPLICATES = [''grep'', ''search_code'', ''search_files'', ''extract_code'',
     ''read_file'', ''list_files'']"

definition MCP_APPROVAL_EXACT_TOOL_NAMES :: "string list" where
  "MCP_APPROVAL_EXACT_TOOL_NAMES = [''git_commit'', ''git_push'', ''git_merge'', ''git_rebase'',
     ''git_reset'', ''git_checkout'', ''git_add'', ''git_stash'', ''bash'', ''sh'', ''run_command'',
     ''exec_command'', ''execute_command'', ''send_message'', ''send_email'', ''send_request'',
     ''send_notification'', ''post_message'', ''post_comment'', ''reply'']"

definition isWriteishToolName :: "ustr \<Rightarrow> bool" where
  "isWriteishToolName name \<longleftrightarrow>
     toLowerCase name \<in> set (map lit READONLY_MCP_TOOL_DENY_EXACT) \<or>
     word_at_start [95, 45] READONLY_MCP_TOOL_DENY_PREFIXES (toLowerCase name)"

definition isNativeFilePrimitiveDuplicateTool :: "mcp_server \<Rightarrow> ustr \<Rightarrow> bool" where
  "isNativeFilePrimitiveDuplicateTool sv name =
     (case sv of
        SvGit \<Rightarrow> delimited_word [95, 42, 45] GIT_NATIVE_FILE_DUPLICATES (toLowerCase name)
      | SvProbe \<Rightarrow> delimited_word [95, 42, 45] PROBE_NATIVE_FILE_DUPLICATES (toLowerCase name)
      | _ \<Rightarrow> False)"

definition requiresMcpToolApproval :: "mcp_server \<Rightarrow> ustr \<Rightarrow> bool" where
  "requiresMcpToolApproval sv name =
     (let n = toLowerCase (trim name) in
      if n \<in> set (map lit MCP_APPROVAL_EXACT_TOOL_NAMES) then True
      else (case sv of
          SvProbe \<Rightarrow> isWriteishToolName n \<or>
            list_ex (\<lambda>w. contains (lit w) n) [''command'', ''shell'', ''exec'', ''write'', ''edit'',
              ''delete'', ''move'', ''create'', ''patch'']
        | SvGithub \<Rightarrow> isWriteishToolName n \<or>
            list_ex (\<lambda>w. contains (lit w) n) [''issue'', ''pull'', ''comment'', ''review'', ''merge'',
              ''branch'', ''commit'', ''release'', ''label'', ''secret'']
        | _ \<Rightarrow> isWriteishToolName n))"

section \<open>Tools of a bundle\<close>

type_synonym 't tools = "(ustr \<times> 't) list"

definition filterNativeFilePrimitiveDuplicates :: "mcp_server \<Rightarrow> 't tools \<Rightarrow> 't tools" where
  "filterNativeFilePrimitiveDuplicates sv tools =
     filter (\<lambda>(n, t). \<not> isNativeFilePrimitiveDuplicateTool sv n) tools"

definition filterMcpToolsForProfile :: "mcp_server \<Rightarrow> 't tools \<Rightarrow> tool_profile \<Rightarrow> 't tools" where
  "filterMcpToolsForProfile sv tools profile =
     (let native = filterNativeFilePrimitiveDuplicates sv tools in
      case profile of
        WriteProfile \<Rightarrow> native
      | ReadonlyProfile \<Rightarrow> filter (\<lambda>(n, t). \<not> isWriteishToolName n) native)"

definition normalizeMcpServerToolPrefix :: "mcp_server \<Rightarrow> ustr" where
  "normalizeMcpServerToolPrefix sv = map (\<lambda>c. if c = 45 then 95 else c) (lit (server_name sv))"

definition resolveMcpGatewayTool :: "'t tools \<Rightarrow> mcp_server \<Rightarrow> ustr \<Rightarrow> (ustr \<times> 't) option" where
  "resolveMcpGatewayTool tools sv name =
     (case map_of tools name of
        Some t \<Rightarrow> Some (name, t)
      | None \<Rightarrow>
          (let prefixed = normalizeMcpServerToolPrefix sv @ [95] @ name in
           case map_of tools prefixed of
             Some t \<Rightarrow> Some (prefixed, t)
           | None \<Rightarrow>
               (case filter (\<lambda>(n, t). ends_with (95 # name) n) tools of
                  [m] \<Rightarrow> Some m
                | _ \<Rightarrow> None)))"

section \<open>Bundles and catalogs\<close>

text \<open>A tool is looked at only through its description, if it is a string.\<close>

record 't mcp_bundle =
  bu_tools :: "'t tools"
  bu_configs :: "nat option"
  bu_errors :: "ustr list option"

definition readErrors :: "'t mcp_bundle \<Rightarrow> ustr list" where
  "readErrors b = orElse (bu_errors b) []"

definition readConfigCount :: "'t mcp_bundle \<Rightarrow> nat" where
  "readConfigCount b = orElse (bu_configs b) 0"

datatype unavailable_reason = TakenByNativeTools | NotInReadonlyProfile | ServerDisabled | NoTools

definition createUnavailableReason ::
    "mcp_server \<Rightarrow> 't mcp_bundle \<Rightarrow> tool_profile \<Rightarrow> nat \<Rightarrow> unavailable_reason option" where
  "createUnavailableReason sv b profile filtered =
     (let raw = length (bu_tools b);
          native = length (filterNativeFilePrimitiveDuplicates sv (bu_tools b))
      in if 0 < raw \<and> native = 0 then Some TakenByNativeTools
         else if 0 < native \<and> filtered = 0 \<and> profile = ReadonlyProfile then Some NotInReadonlyProfile
         else if raw = 0 \<and> readConfigCount b = 0 \<and> readErrors b \<noteq> [] then Some ServerDisabled
         else if raw = 0 then Some NoTools
         else None)"

record mcp_catalog =
  ca_server :: mcp_server
  ca_profile :: tool_profile
  ca_tools :: "(ustr \<times> ustr) list"
  ca_errors :: "ustr list"

text \<open>\<open>getToolDescription\<close> reads the description; white space is collapsed before it is shown.\<close>

function squeeze_spaces :: "ustr \<Rightarrow> ustr" where
  "squeeze_spaces [] = []"
| "squeeze_spaces (c # cs) =
     (if is_js_space c then 32 # squeeze_spaces (dropWhile is_js_space cs)
      else c # squeeze_spaces cs)"
  by pat_completeness auto
termination by (relation "measure length") (auto simp: le_imp_less_Suc length_dropWhile_le)

definition createToolDescription :: "('t \<Rightarrow> ustr option) \<Rightarrow> 't \<Rightarrow> ustr \<Rightarrow> ustr" where
  "createToolDescription describe t name =
     (let raw = trim (squeeze_spaces (orElse (describe t) [])) in
      if raw \<noteq> [] then raw else lit ''(no description for '' @ name @ lit '')'')"

definition createCatalogFromBundle ::
    "('t \<Rightarrow> ustr option) \<Rightarrow> mcp_server \<Rightarrow> tool_profile \<Rightarrow> 't mcp_bundle \<Rightarrow> mcp_catalog" where
  "createCatalogFromBundle describe sv profile b =
     \<lparr>ca_server = sv, ca_profile = profile,
      ca_tools = map (\<lambda>(n, t). (n, createToolDescription describe t n))
        (filterMcpToolsForProfile sv (bu_tools b) profile),
      ca_errors = readErrors b\<rparr>"

section \<open>Lemmas\<close>

lemma filter_profile_sub: "set (filterMcpToolsForProfile sv tools profile) \<subseteq> set tools"
  by (auto simp: filterMcpToolsForProfile_def filterNativeFilePrimitiveDuplicates_def Let_def
      split: tool_profile.split)

lemma filter_profile_mem:
  "(n, t) \<in> set (filterMcpToolsForProfile sv tools profile) \<longleftrightarrow>
   (n, t) \<in> set tools \<and> \<not> isNativeFilePrimitiveDuplicateTool sv n \<and>
   (profile = WriteProfile \<or> \<not> isWriteishToolName n)"
  by (auto simp: filterMcpToolsForProfile_def filterNativeFilePrimitiveDuplicates_def Let_def
      split: tool_profile.split)

lemma resolve_mem:
  assumes "resolveMcpGatewayTool tools sv name = Some (n, t)"
  shows "(n, t) \<in> set tools \<and>
    (n = name \<or> n = normalizeMcpServerToolPrefix sv @ [95] @ name \<or> ends_with (95 # name) n)"
proof (cases "map_of tools name")
  case (Some t')
  with assms show ?thesis by (auto simp: resolveMcpGatewayTool_def dest: map_of_SomeD)
next
  case none: None
  let ?p = "normalizeMcpServerToolPrefix sv @ [95] @ name"
  let ?ms = "filter (\<lambda>(n, t). ends_with (95 # name) n) tools"
  show ?thesis
  proof (cases "map_of tools ?p")
    case (Some t')
    with assms none show ?thesis
      by (auto simp: resolveMcpGatewayTool_def Let_def dest: map_of_SomeD)
  next
    case None
    with assms none have "?ms = [(n, t)]"
      by (auto simp: resolveMcpGatewayTool_def Let_def split: list.splits)
    then have "(n, t) \<in> set ?ms" by simp
    then show ?thesis by simp
  qed
qed

lemma starts_with_append [simp]: "starts_with w (w @ s)"
  by (simp add: starts_with_def)

lemma ends_with_append [simp]: "ends_with w (s @ w)"
  by (simp add: ends_with_def)

text \<open>No server name starts with a forbidden verb, and only git tools are forbidden under their full
  name.\<close>

lemma namespaced_not_verb:
  "\<not> word_at_start [95, 45] READONLY_MCP_TOOL_DENY_PREFIXES
     (toLowerCase (normalizeMcpServerToolPrefix sv @ 95 # name))"
  by (cases sv) (simp_all add: word_at_start_def READONLY_MCP_TOOL_DENY_PREFIXES_def
      normalizeMcpServerToolPrefix_def lit_def toLowerCase_def starts_with_def)

lemma namespaced_not_exact:
  "sv \<noteq> SvGit \<Longrightarrow> toLowerCase (normalizeMcpServerToolPrefix sv @ 95 # name) \<notin>
     set (map lit READONLY_MCP_TOOL_DENY_EXACT)"
  by (cases sv) (simp_all add: READONLY_MCP_TOOL_DENY_EXACT_def
      normalizeMcpServerToolPrefix_def lit_def toLowerCase_def)

section \<open>Properties\<close>

text \<open>A tool is called only if the bundle has it under the requested name, under the name with the
  server's prefix, or under the one name that ends with it; never one that the built-in file tools
  replace, and in the readonly profile never one whose own name is on the deny list.\<close>

theorem resolved_tool_is_allowed:
  assumes "resolveMcpGatewayTool (filterMcpToolsForProfile sv tools profile) sv name = Some (n, t)"
  shows "(n, t) \<in> set tools \<and> \<not> isNativeFilePrimitiveDuplicateTool sv n \<and>
    (n = name \<or> n = normalizeMcpServerToolPrefix sv @ [95] @ name \<or> ends_with (95 # name) n) \<and>
    (profile = ReadonlyProfile \<longrightarrow> \<not> isWriteishToolName n)"
  using resolve_mem [OF assms] by (auto simp: filter_profile_mem)

lemma resolved_tool_is_allowed_witness:
  "(lit ''b_x'', True) \<in> set [(lit ''write_x'', False), (lit ''b_x'', True)] \<and>
   resolveMcpGatewayTool (filterMcpToolsForProfile SvMemory [(lit ''write_x'', False), (lit ''b_x'', True)]
     ReadonlyProfile) SvMemory (lit ''x'') = Some (lit ''b_x'', True)"
proof -
  have "resolveMcpGatewayTool (filterMcpToolsForProfile SvMemory [(lit ''write_x'', False), (lit ''b_x'', True)]
     ReadonlyProfile) SvMemory (lit ''x'') = Some (lit ''b_x'', True)"
    by (simp add: resolveMcpGatewayTool_def filterMcpToolsForProfile_def Let_def
        filterNativeFilePrimitiveDuplicates_def isNativeFilePrimitiveDuplicateTool_def
        isWriteishToolName_def word_at_start_def starts_with_def ends_with_def lit_def toLowerCase_def
        READONLY_MCP_TOOL_DENY_PREFIXES_def READONLY_MCP_TOOL_DENY_EXACT_def
        normalizeMcpServerToolPrefix_def)
  with resolved_tool_is_allowed [OF this] show ?thesis by blast
qed

text \<open>The readonly profile does not see through the server's prefix: for every server but git, a tool
  listed as \<open>server_tool\<close> passes the deny list whatever it does, and a call of the plain name
  finds it.\<close>

theorem readonly_profile_blind_to_prefix:
  assumes "sv \<noteq> SvGit"
    and "\<not> isNativeFilePrimitiveDuplicateTool sv (normalizeMcpServerToolPrefix sv @ [95] @ name)"
    and "tools = [(normalizeMcpServerToolPrefix sv @ [95] @ name, t)]"
  shows "filterMcpToolsForProfile sv tools ReadonlyProfile = tools \<and>
    resolveMcpGatewayTool (filterMcpToolsForProfile sv tools ReadonlyProfile) sv name =
      Some (normalizeMcpServerToolPrefix sv @ [95] @ name, t)"
proof -
  have "\<not> isWriteishToolName (normalizeMcpServerToolPrefix sv @ 95 # name)"
    using namespaced_not_verb namespaced_not_exact [OF assms(1)] by (simp add: isWriteishToolName_def)
  then have f: "filterMcpToolsForProfile sv tools ReadonlyProfile = tools"
    using assms(2,3)
    by (simp add: filterMcpToolsForProfile_def filterNativeFilePrimitiveDuplicates_def Let_def)
  have "name \<noteq> normalizeMcpServerToolPrefix sv @ 95 # name"
    by (metis append_is_Nil_conv list.discI append_self_conv2 append_Cons append_assoc append_Nil)
  with f show ?thesis by (simp add: resolveMcpGatewayTool_def Let_def assms(3))
qed

lemma readonly_profile_blind_to_prefix_witness:
  "isWriteishToolName (lit ''delete_entities'') \<and>
   resolveMcpGatewayTool (filterMcpToolsForProfile SvMemory
     [(normalizeMcpServerToolPrefix SvMemory @ [95] @ lit ''delete_entities'', ())] ReadonlyProfile)
     SvMemory (lit ''delete_entities'') =
     Some (normalizeMcpServerToolPrefix SvMemory @ [95] @ lit ''delete_entities'', ())"
proof
  show "isWriteishToolName (lit ''delete_entities'')"
    by (simp add: isWriteishToolName_def word_at_start_def starts_with_def lit_def toLowerCase_def
        READONLY_MCP_TOOL_DENY_PREFIXES_def READONLY_MCP_TOOL_DENY_EXACT_def)
qed (rule conjunct2 [OF readonly_profile_blind_to_prefix [OF _ _ refl]],
    simp_all add: isNativeFilePrimitiveDuplicateTool_def)

lemma trim_keeps:
  assumes "\<not> is_js_space c" and "xs \<noteq> []" and "\<not> is_js_space (last xs)"
  shows "trim (c # xs) = c # xs"
proof -
  obtain ys y where xs: "xs = ys @ [y]" using assms(2) by (metis rev_exhaust)
  with assms show ?thesis by (simp add: trim_def)
qed

text \<open>Approval is asked for the name of the request, but the tool that runs is the one the name
  resolves to: a request that needs no approval can run a tool that does, because a plain name
  finds the one tool that ends with it.\<close>

theorem approval_is_for_the_wrong_name:
  assumes "\<not> requiresMcpToolApproval sv name" and "name \<noteq> []" and "\<not> is_js_space (last name)"
    and "\<not> isNativeFilePrimitiveDuplicateTool sv (lit ''delete'' @ [95] @ name)"
    and "tools = [(lit ''delete'' @ [95] @ name, t)]"
  shows "resolveMcpGatewayTool (filterMcpToolsForProfile sv tools WriteProfile) sv name =
      Some (lit ''delete'' @ [95] @ name, t) \<and>
    requiresMcpToolApproval sv (lit ''delete'' @ [95] @ name)"
proof
  let ?n = "lit ''delete'' @ [95] @ name"
  have f: "filterMcpToolsForProfile sv tools WriteProfile = tools"
    using assms(4,5)
    by (simp add: filterMcpToolsForProfile_def filterNativeFilePrimitiveDuplicates_def)
  have "ends_with (95 # name) ?n" using ends_with_append [of "95 # name" "lit ''delete''"] by simp
  moreover have "name \<noteq> ?n" by (metis append_assoc append_self_conv2 append_is_Nil_conv list.discI)
  moreover have "normalizeMcpServerToolPrefix sv @ [95] @ name \<noteq> ?n"
    by (cases sv) (simp_all add: normalizeMcpServerToolPrefix_def lit_def)
  ultimately show "resolveMcpGatewayTool (filterMcpToolsForProfile sv tools WriteProfile) sv name =
      Some (?n, t)"
    unfolding f by (simp add: resolveMcpGatewayTool_def Let_def assms(5))
  have "trim ?n = ?n"
    using assms(2,3) trim_keeps [of 100 "[101, 108, 101, 116, 101, 95] @ name"]
    by (simp add: lit_def is_js_space_def)
  then have "isWriteishToolName (toLowerCase (trim ?n))"
    by (simp add: isWriteishToolName_def word_at_start_def starts_with_def lit_def toLowerCase_def
        READONLY_MCP_TOOL_DENY_PREFIXES_def)
  then show "requiresMcpToolApproval sv ?n"
    by (simp add: requiresMcpToolApproval_def Let_def split: mcp_server.split)
qed

lemma approval_is_for_the_wrong_name_witness:
  "\<not> requiresMcpToolApproval SvTavily (lit ''index'') \<and>
   requiresMcpToolApproval SvTavily (lit ''delete'' @ [95] @ lit ''index'') \<and>
   resolveMcpGatewayTool (filterMcpToolsForProfile SvTavily
     [(lit ''delete'' @ [95] @ lit ''index'', ())] WriteProfile) SvTavily (lit ''index'') =
     Some (lit ''delete'' @ [95] @ lit ''index'', ())"
proof -
  have 1: "\<not> requiresMcpToolApproval SvTavily (lit ''index'')"
    by (simp add: requiresMcpToolApproval_def isWriteishToolName_def word_at_start_def
        starts_with_def lit_def toLowerCase_def trim_def is_js_space_def Let_def
        READONLY_MCP_TOOL_DENY_PREFIXES_def READONLY_MCP_TOOL_DENY_EXACT_def
        MCP_APPROVAL_EXACT_TOOL_NAMES_def)
  show ?thesis
    using 1 approval_is_for_the_wrong_name [OF 1 _ _ _ refl, where t = "()"]
    by (simp add: isNativeFilePrimitiveDuplicateTool_def lit_def is_js_space_def)
qed

end
