(* ===== verification/McpPool.thy ===== *)
theory McpPool
  imports McpTools "HOL-Library.Multiset"
begin

text \<open>
  The pool of warm MCP servers (\<open>McpGatewayWarmPool\<close> in
  \<open>agent-sidecar/src/tools/mcp-gateway.ts\<close>) as a machine. A step is one stretch of code between
  two awaits, so calls, boots, timers and evictions interleave as the event loop lets them. Pool
  entries are objects that closures keep hold of after they left the map, so they live in a list and
  are known by their index; a bundle is known by a number, given in the order of booting. The clock
  reading of a step is an argument.
\<close>

section \<open>State\<close>

datatype pool_key = GlobalKey mcp_server | WorkspaceKey "ustr option" mcp_server

record pool_entry =
  pe_key :: pool_key
  pe_server :: mcp_server
  pe_bundle :: "nat option"
  pe_creating :: bool
  pe_activeCount :: nat
  pe_lastUsedAt :: int
  pe_idleTimer :: bool

datatype call_phase =
    CpEvicting mcp_server "ustr option"
  | CpBooting nat
  | CpReady nat
  | CpRunning nat

record pool_options =
  op_maxWarm :: nat
  op_ttlIdleMs :: int
  op_pinnedServers :: "mcp_server list"
  op_pinnedServersIgnoreWorkspace :: "mcp_server list"
  op_resolve :: "ustr \<Rightarrow> ustr"

definition DEFAULT_MCP_GATEWAY_MAX_WARM :: nat where
  "DEFAULT_MCP_GATEWAY_MAX_WARM = 4"

definition DEFAULT_MCP_GATEWAY_TTL_IDLE_MS :: int where
  "DEFAULT_MCP_GATEWAY_TTL_IDLE_MS = 5 * 60000"

definition default_pool_options :: "(ustr \<Rightarrow> ustr) \<Rightarrow> pool_options" where
  "default_pool_options resolve_path =
     \<lparr>op_maxWarm = DEFAULT_MCP_GATEWAY_MAX_WARM, op_ttlIdleMs = DEFAULT_MCP_GATEWAY_TTL_IDLE_MS,
      op_pinnedServers = [SvMemory], op_pinnedServersIgnoreWorkspace = [SvMemory],
      op_resolve = resolve_path\<rparr>"

text \<open>\<open>po_disconnected\<close> lists the bundles whose \<open>disconnectAll\<close> was called;
  \<open>po_evictions\<close> holds the overflow evictions that wait for a disconnect, each with the
  candidates it has left; \<open>po_catalog\<close> maps a server to the bundle its cached catalogs (one per
  profile) were made from.\<close>

record warm_pool =
  po_objects :: "pool_entry list"
  po_entries :: "(pool_key, nat) jsmap"
  po_catalog :: "(mcp_server, nat) jsmap"
  po_disconnected :: "nat list"
  po_nextBundle :: nat
  po_calls :: "(nat, call_phase) jsmap"
  po_evictions :: "nat list list"

definition empty_pool :: warm_pool where
  "empty_pool = \<lparr>po_objects = [], po_entries = [], po_catalog = [], po_disconnected = [],
     po_nextBundle = 0, po_calls = [], po_evictions = []\<rparr>"

definition createPoolKey :: "pool_options \<Rightarrow> ustr option \<Rightarrow> mcp_server \<Rightarrow> pool_key" where
  "createPoolKey opts ws sv =
     (if sv \<in> set (op_pinnedServersIgnoreWorkspace opts) then GlobalKey sv
      else WorkspaceKey (case ws of Some w \<Rightarrow> (if w = [] then None else Some (op_resolve opts w))
        | None \<Rightarrow> None) sv)"

section \<open>Entries\<close>

definition entry :: "warm_pool \<Rightarrow> nat \<Rightarrow> pool_entry" where
  "entry s e = po_objects s ! e"

definition on_entry :: "nat \<Rightarrow> (pool_entry \<Rightarrow> pool_entry) \<Rightarrow> warm_pool \<Rightarrow> warm_pool" where
  "on_entry e f s = s\<lparr>po_objects := (po_objects s)[e := f (entry s e)]\<rparr>"

definition pooled :: "warm_pool \<Rightarrow> nat list" where
  "pooled s = map snd (po_entries s)"

definition countWarmBundles :: "warm_pool \<Rightarrow> nat" where
  "countWarmBundles s = length (filter (\<lambda>e. pe_bundle (entry s e) \<noteq> None) (pooled s))"

definition countActiveBundles :: "warm_pool \<Rightarrow> nat" where
  "countActiveBundles s = length (filter (\<lambda>e. 0 < pe_activeCount (entry s e)) (pooled s))"

definition clearIdleTimer :: "nat \<Rightarrow> warm_pool \<Rightarrow> warm_pool" where
  "clearIdleTimer e = on_entry e (\<lambda>x. x\<lparr>pe_idleTimer := False\<rparr>)"

definition scheduleIdleDisconnect :: "pool_options \<Rightarrow> nat \<Rightarrow> warm_pool \<Rightarrow> warm_pool" where
  "scheduleIdleDisconnect opts e s =
     (let s1 = clearIdleTimer e s in
      if pe_bundle (entry s1 e) = None \<or> pe_server (entry s1 e) \<in> set (op_pinnedServers opts) then s1
      else on_entry e (\<lambda>x. x\<lparr>pe_idleTimer := True\<rparr>) s1)"

text \<open>The synchronous part of \<open>disconnectEntry\<close>, up to the await of the bundle's disconnect.\<close>

definition disconnectEntry :: "nat \<Rightarrow> warm_pool \<Rightarrow> warm_pool" where
  "disconnectEntry e s =
     (let s1 = clearIdleTimer e s;
          s2 = s1\<lparr>po_entries := jm_delete (po_entries s1) (pe_key (entry s1 e))\<rparr>
      in case pe_bundle (entry s2 e) of
           None \<Rightarrow> s2
         | Some b \<Rightarrow> on_entry e (\<lambda>x. x\<lparr>pe_bundle := None\<rparr>)
                      (s2\<lparr>po_disconnected := po_disconnected s2 @ [b]\<rparr>))"

section \<open>Eviction\<close>

definition evictable :: "pool_options \<Rightarrow> warm_pool \<Rightarrow> nat \<Rightarrow> bool" where
  "evictable opts s e \<longleftrightarrow> pe_bundle (entry s e) \<noteq> None \<and> pe_activeCount (entry s e) = 0 \<and>
     pe_server (entry s e) \<notin> set (op_pinnedServers opts)"

definition evictExpired :: "pool_options \<Rightarrow> int \<Rightarrow> warm_pool \<Rightarrow> warm_pool" where
  "evictExpired opts t s =
     fold disconnectEntry
       (filter (\<lambda>e. evictable opts s e \<and> op_ttlIdleMs opts \<le> t - pe_lastUsedAt (entry s e)) (pooled s)) s"

text \<open>One turn of the loop of \<open>evictOverflow\<close>: it ends, or disconnects the next candidate and
  waits with the rest.\<close>

definition evict_turn :: "pool_options \<Rightarrow> nat list \<Rightarrow> warm_pool \<Rightarrow> warm_pool" where
  "evict_turn opts candidates s =
     (if op_maxWarm opts < countWarmBundles s
      then (case candidates of
              [] \<Rightarrow> s
            | e # es \<Rightarrow> (let s1 = disconnectEntry e s in s1\<lparr>po_evictions := po_evictions s1 @ [es]\<rparr>))
      else s)"

definition evictOverflow :: "pool_options \<Rightarrow> warm_pool \<Rightarrow> warm_pool" where
  "evictOverflow opts s =
     evict_turn opts (sort_key (\<lambda>e. pe_lastUsedAt (entry s e)) (filter (evictable opts s) (pooled s))) s"

section \<open>Steps\<close>

definition set_phase :: "nat \<Rightarrow> call_phase \<Rightarrow> warm_pool \<Rightarrow> warm_pool" where
  "set_phase c p s = s\<lparr>po_calls := jm_set (po_calls s) c p\<rparr>"

definition end_call :: "nat \<Rightarrow> warm_pool \<Rightarrow> warm_pool" where
  "end_call c s = s\<lparr>po_calls := jm_delete (po_calls s) c\<rparr>"

text \<open>\<open>withServer\<close> up to its first await, in \<open>evictExpired\<close>.\<close>

definition start_call ::
    "pool_options \<Rightarrow> nat \<Rightarrow> mcp_server \<Rightarrow> ustr option \<Rightarrow> int \<Rightarrow> warm_pool \<Rightarrow> warm_pool" where
  "start_call opts c sv ws t s = set_phase c (CpEvicting sv ws) (evictExpired opts t s)"

text \<open>\<open>ensureEntry\<close> after the eviction: a warm entry, one that is booting, or a new one.\<close>

definition ensureEntry ::
    "pool_options \<Rightarrow> nat \<Rightarrow> mcp_server \<Rightarrow> ustr option \<Rightarrow> int \<Rightarrow> warm_pool \<Rightarrow> warm_pool" where
  "ensureEntry opts c sv ws t s =
     (let k = createPoolKey opts ws sv;
          fresh = \<lparr>pe_key = k, pe_server = sv, pe_bundle = None, pe_creating = True,
            pe_activeCount = 0, pe_lastUsedAt = t, pe_idleTimer = False\<rparr>;
          new = length (po_objects s);
          boot = set_phase c (CpBooting new)
            (s\<lparr>po_objects := po_objects s @ [fresh], po_entries := jm_set (po_entries s) k new\<rparr>)
      in case jm_get (po_entries s) k of
           None \<Rightarrow> boot
         | Some e \<Rightarrow>
             (if pe_bundle (entry s e) \<noteq> None
              then set_phase c (CpReady e) (on_entry e (\<lambda>x. x\<lparr>pe_lastUsedAt := t\<rparr>) s)
              else if pe_creating (entry s e) then set_phase c (CpBooting e) s
              else boot))"

text \<open>The calls that wait for a boot go on when it ends.\<close>

definition booted_calls :: "nat \<Rightarrow> (nat, call_phase) jsmap \<Rightarrow> (nat, call_phase) jsmap" where
  "booted_calls e calls = map (\<lambda>(c, p). (c, if p = CpBooting e then CpReady e else p)) calls"

definition rejected_calls :: "nat \<Rightarrow> (nat, call_phase) jsmap \<Rightarrow> (nat, call_phase) jsmap" where
  "rejected_calls e calls = filter (\<lambda>(c, p). p \<noteq> CpBooting e) calls"

text \<open>A boot that succeeds: the continuation up to the first turn of \<open>evictOverflow\<close>. The metric sink,
  which the caller supplies, is taken not to throw.\<close>

definition boot_succeeded :: "pool_options \<Rightarrow> nat \<Rightarrow> int \<Rightarrow> warm_pool \<Rightarrow> warm_pool" where
  "boot_succeeded opts e t s =
     (let b = po_nextBundle s;
          s1 = on_entry e (\<lambda>x. x\<lparr>pe_bundle := Some b, pe_creating := False, pe_lastUsedAt := t\<rparr>) s;
          s2 = s1\<lparr>po_nextBundle := b + 1,
            po_catalog := jm_set (po_catalog s1) (pe_server (entry s1 e)) b,
            po_calls := booted_calls e (po_calls s1)\<rparr>
      in evictOverflow opts (scheduleIdleDisconnect opts e s2))"

definition boot_failed :: "nat \<Rightarrow> warm_pool \<Rightarrow> warm_pool" where
  "boot_failed e s =
     on_entry e (\<lambda>x. x\<lparr>pe_creating := False\<rparr>)
       (s\<lparr>po_entries := jm_delete (po_entries s) (pe_key (entry s e)),
          po_calls := rejected_calls e (po_calls s)\<rparr>)"

text \<open>The \<open>finally\<close> of \<open>withServer\<close>.\<close>

definition release :: "pool_options \<Rightarrow> nat \<Rightarrow> int \<Rightarrow> warm_pool \<Rightarrow> warm_pool" where
  "release opts e t s =
     evictOverflow opts (scheduleIdleDisconnect opts e
       (on_entry e (\<lambda>x. x\<lparr>pe_activeCount := pe_activeCount x - 1, pe_lastUsedAt := t\<rparr>) s))"

text \<open>\<open>withServer\<close> with its entry in hand: it runs the action, or throws when the bundle is gone.\<close>

definition acquire :: "pool_options \<Rightarrow> nat \<Rightarrow> nat \<Rightarrow> int \<Rightarrow> warm_pool \<Rightarrow> warm_pool" where
  "acquire opts c e t s =
     (let s1 = clearIdleTimer e (on_entry e (\<lambda>x. x\<lparr>pe_activeCount := pe_activeCount x + 1\<rparr>) s) in
      if pe_bundle (entry s1 e) = None then release opts e t (end_call c s1)
      else set_phase c (CpRunning e) s1)"

definition idle_timer_fired :: "pool_options \<Rightarrow> nat \<Rightarrow> int \<Rightarrow> warm_pool \<Rightarrow> warm_pool" where
  "idle_timer_fired opts e t s =
     (let s1 = on_entry e (\<lambda>x. x\<lparr>pe_idleTimer := False\<rparr>) s in
      if 0 < pe_activeCount (entry s1 e) \<or> pe_bundle (entry s1 e) = None then s1
      else if t - pe_lastUsedAt (entry s1 e) < op_ttlIdleMs opts then scheduleIdleDisconnect opts e s1
      else disconnectEntry e s1)"

definition disconnect_all_entry :: "nat \<Rightarrow> warm_pool \<Rightarrow> warm_pool" where
  "disconnect_all_entry e s =
     (let s1 = clearIdleTimer e s in
      case pe_bundle (entry s1 e) of
        None \<Rightarrow> s1
      | Some b \<Rightarrow> s1\<lparr>po_disconnected := po_disconnected s1 @ [b]\<rparr>)"

definition disconnectAll :: "warm_pool \<Rightarrow> warm_pool" where
  "disconnectAll s = fold disconnect_all_entry (pooled s) (s\<lparr>po_entries := [], po_catalog := []\<rparr>)"

text \<open>What may happen next. An event that does not apply changes nothing.\<close>

datatype pool_event =
    EvCall nat mcp_server "ustr option" int
  | EvEnsure nat int
  | EvBooted nat int
  | EvBootFailed nat
  | EvAcquire nat int
  | EvFinish nat int
  | EvTimer nat int
  | EvResume nat
  | EvDisconnectAll

fun pool_step :: "pool_options \<Rightarrow> warm_pool \<Rightarrow> pool_event \<Rightarrow> warm_pool" where
  "pool_step opts s (EvCall c sv ws t) =
     (if jm_get (po_calls s) c = None then start_call opts c sv ws t s else s)"
| "pool_step opts s (EvEnsure c t) =
     (case jm_get (po_calls s) c of
        Some (CpEvicting sv ws) \<Rightarrow> ensureEntry opts c sv ws t s
      | _ \<Rightarrow> s)"
| "pool_step opts s (EvBooted e t) =
     (if e < length (po_objects s) \<and> pe_creating (entry s e) then boot_succeeded opts e t s else s)"
| "pool_step opts s (EvBootFailed e) =
     (if e < length (po_objects s) \<and> pe_creating (entry s e) then boot_failed e s else s)"
| "pool_step opts s (EvAcquire c t) =
     (case jm_get (po_calls s) c of
        Some (CpReady e) \<Rightarrow> acquire opts c e t s
      | _ \<Rightarrow> s)"
| "pool_step opts s (EvFinish c t) =
     (case jm_get (po_calls s) c of
        Some (CpRunning e) \<Rightarrow> release opts e t (end_call c s)
      | _ \<Rightarrow> s)"
| "pool_step opts s (EvTimer e t) =
     (if e < length (po_objects s) \<and> pe_idleTimer (entry s e) then idle_timer_fired opts e t s else s)"
| "pool_step opts s (EvResume k) =
     (if k < length (po_evictions s)
      then evict_turn opts (po_evictions s ! k)
             (s\<lparr>po_evictions := take k (po_evictions s) @ drop (Suc k) (po_evictions s)\<rparr>)
      else s)"
| "pool_step opts s EvDisconnectAll = disconnectAll s"

section \<open>Reading an entry after a write\<close>

named_theorems pool_effects \<open>what each operation of the pool leaves in each part of the state\<close>

lemma on_entry_parts [pool_effects]:
  "length (po_objects (on_entry e f s)) = length (po_objects s)"
  "po_entries (on_entry e f s) = po_entries s" "po_catalog (on_entry e f s) = po_catalog s"
  "po_disconnected (on_entry e f s) = po_disconnected s"
  "po_nextBundle (on_entry e f s) = po_nextBundle s" "po_calls (on_entry e f s) = po_calls s"
  "po_evictions (on_entry e f s) = po_evictions s"
  by (simp_all add: on_entry_def)

lemma entry_on_entry [pool_effects]:
  "e < length (po_objects s) \<Longrightarrow>
   entry (on_entry e f s) e' = (if e' = e then f (entry s e) else entry s e')"
  by (simp add: on_entry_def entry_def)

lemma entry_other_parts [pool_effects]:
  "entry (s\<lparr>po_entries := m\<rparr>) e = entry s e" "entry (s\<lparr>po_catalog := ct\<rparr>) e = entry s e"
  "entry (s\<lparr>po_disconnected := d\<rparr>) e = entry s e" "entry (s\<lparr>po_nextBundle := n\<rparr>) e = entry s e"
  "entry (s\<lparr>po_calls := cl\<rparr>) e = entry s e" "entry (s\<lparr>po_evictions := ev\<rparr>) e = entry s e"
  by (simp_all add: entry_def)

lemma clearIdleTimer_parts [pool_effects]:
  "length (po_objects (clearIdleTimer e s)) = length (po_objects s)"
  "po_entries (clearIdleTimer e s) = po_entries s" "po_catalog (clearIdleTimer e s) = po_catalog s"
  "po_disconnected (clearIdleTimer e s) = po_disconnected s"
  "po_nextBundle (clearIdleTimer e s) = po_nextBundle s" "po_calls (clearIdleTimer e s) = po_calls s"
  "po_evictions (clearIdleTimer e s) = po_evictions s"
  by (simp_all add: clearIdleTimer_def pool_effects)

lemma entry_clearIdleTimer [pool_effects]:
  "e < length (po_objects s) \<Longrightarrow>
   entry (clearIdleTimer e s) e' =
     (if e' = e then (entry s e)\<lparr>pe_idleTimer := False\<rparr> else entry s e')"
  by (simp add: clearIdleTimer_def pool_effects)

lemma schedule_parts [pool_effects]:
  "length (po_objects (scheduleIdleDisconnect opts e s)) = length (po_objects s)"
  "po_entries (scheduleIdleDisconnect opts e s) = po_entries s"
  "po_catalog (scheduleIdleDisconnect opts e s) = po_catalog s"
  "po_disconnected (scheduleIdleDisconnect opts e s) = po_disconnected s"
  "po_nextBundle (scheduleIdleDisconnect opts e s) = po_nextBundle s"
  "po_calls (scheduleIdleDisconnect opts e s) = po_calls s"
  "po_evictions (scheduleIdleDisconnect opts e s) = po_evictions s"
  by (simp_all add: scheduleIdleDisconnect_def Let_def pool_effects)

lemma entry_schedule [pool_effects]:
  "e < length (po_objects s) \<Longrightarrow>
   entry (scheduleIdleDisconnect opts e s) e' =
     (if e' = e
      then (entry s e)\<lparr>pe_idleTimer := pe_bundle (entry s e) \<noteq> None \<and>
              pe_server (entry s e) \<notin> set (op_pinnedServers opts)\<rparr>
      else entry s e')"
  by (simp add: scheduleIdleDisconnect_def Let_def pool_effects)

lemma disconnectEntry_parts [pool_effects]:
  "length (po_objects (disconnectEntry e s)) = length (po_objects s)"
  "po_catalog (disconnectEntry e s) = po_catalog s"
  "po_nextBundle (disconnectEntry e s) = po_nextBundle s"
  "po_calls (disconnectEntry e s) = po_calls s" "po_evictions (disconnectEntry e s) = po_evictions s"
  by (simp_all add: disconnectEntry_def Let_def pool_effects split: option.split)

lemma disconnectEntry_log [pool_effects]:
  "e < length (po_objects s) \<Longrightarrow>
   po_disconnected (disconnectEntry e s) =
     po_disconnected s @ (case pe_bundle (entry s e) of None \<Rightarrow> [] | Some b \<Rightarrow> [b])"
  by (simp add: disconnectEntry_def Let_def pool_effects split: option.split)

lemma disconnectEntry_entries [pool_effects]:
  "e < length (po_objects s) \<Longrightarrow>
   po_entries (disconnectEntry e s) = jm_delete (po_entries s) (pe_key (entry s e))"
  by (simp add: disconnectEntry_def Let_def pool_effects split: option.split)

lemma entry_disconnectEntry [pool_effects]:
  "e < length (po_objects s) \<Longrightarrow>
   entry (disconnectEntry e s) e' =
     (if e' = e then (entry s e)\<lparr>pe_idleTimer := False, pe_bundle := None\<rparr> else entry s e')"
  by (cases "pe_bundle (entry s e)") (simp_all add: disconnectEntry_def Let_def pool_effects)

section \<open>The invariant\<close>

definition running :: "nat \<Rightarrow> (nat, call_phase) jsmap \<Rightarrow> nat" where
  "running e calls = length (filter (\<lambda>(c, p). p = CpRunning e) calls)"

fun phase_entry :: "call_phase \<Rightarrow> nat option" where
  "phase_entry (CpEvicting _ _) = None"
| "phase_entry (CpBooting e) = Some e"
| "phase_entry (CpReady e) = Some e"
| "phase_entry (CpRunning e) = Some e"

text \<open>References stay in range; a booting entry has no bundle; the bundles booted so far are those
  held and those disconnected, and no two entries hold the same one.\<close>

definition pool_refs :: "warm_pool \<Rightarrow> bool" where
  "pool_refs s \<longleftrightarrow> jm_wf (po_calls s) \<and>
     (\<forall>c p e. jm_get (po_calls s) c = Some p \<longrightarrow> phase_entry p = Some e \<longrightarrow> e < length (po_objects s)) \<and>
     set (pooled s) \<subseteq> {..<length (po_objects s)} \<and>
     (\<forall>es \<in> set (po_evictions s). set es \<subseteq> {..<length (po_objects s)})"

definition pool_bundles :: "warm_pool \<Rightarrow> bool" where
  "pool_bundles s \<longleftrightarrow>
     (\<forall>e < length (po_objects s). pe_creating (entry s e) \<longrightarrow> pe_bundle (entry s e) = None) \<and>
     (\<forall>b. b < po_nextBundle s \<longleftrightarrow> b \<in> set (po_disconnected s) \<or>
        (\<exists>e < length (po_objects s). pe_bundle (entry s e) = Some b)) \<and>
     (\<forall>e < length (po_objects s). \<forall>e' < length (po_objects s). \<forall>b.
        pe_bundle (entry s e) = Some b \<longrightarrow> pe_bundle (entry s e') = Some b \<longrightarrow> e = e')"

text \<open>An entry counts the calls that run on it.\<close>

definition pool_counts :: "warm_pool \<Rightarrow> bool" where
  "pool_counts s \<longleftrightarrow>
     (\<forall>e < length (po_objects s). pe_activeCount (entry s e) = running e (po_calls s))"

text \<open>An idle bundle of a server that is not pinned has its timer pending, or was disconnected by
  \<open>disconnectAll\<close>; the entries of \<open>X\<close> are exempt while an operation is under way.\<close>

definition pool_timers :: "pool_options \<Rightarrow> nat set \<Rightarrow> warm_pool \<Rightarrow> bool" where
  "pool_timers opts X s \<longleftrightarrow>
     (\<forall>e < length (po_objects s). \<forall>b. e \<notin> X \<longrightarrow> pe_bundle (entry s e) = Some b \<longrightarrow>
        pe_activeCount (entry s e) = 0 \<longrightarrow> pe_server (entry s e) \<notin> set (op_pinnedServers opts) \<longrightarrow>
        pe_idleTimer (entry s e) \<or> b \<in> set (po_disconnected s))"

definition pool_ok :: "pool_options \<Rightarrow> warm_pool \<Rightarrow> bool" where
  "pool_ok opts s \<longleftrightarrow> pool_refs s \<and> pool_bundles s \<and> pool_counts s \<and> pool_timers opts {} s"

text \<open>Without \<open>disconnectAll\<close> no bundle is disconnected twice, or held after that.\<close>

definition pool_ledger :: "warm_pool \<Rightarrow> bool" where
  "pool_ledger s \<longleftrightarrow> distinct (po_disconnected s) \<and>
     (\<forall>e < length (po_objects s). \<forall>b. pe_bundle (entry s e) = Some b \<longrightarrow> b \<notin> set (po_disconnected s))"

lemma empty_pool_ok: "pool_ok opts empty_pool" "pool_ledger empty_pool"
  by (simp_all add: pool_ok_def pool_refs_def pool_bundles_def pool_counts_def pool_timers_def
      pool_ledger_def empty_pool_def pooled_def)

section \<open>Every step keeps the invariant\<close>

lemma pooled_delete: "set (map snd (jm_delete m k)) \<subseteq> set (map snd m)"
  by (induction m) (auto simp: jm_delete_def)

lemma pooled_set: "set (map snd (jm_set m k v)) \<subseteq> insert v (set (map snd m))"
  by (induction m) (auto simp: jm_set_def split: if_splits)

lemma pool_refs_disconnect:
  "pool_refs s \<Longrightarrow> e < length (po_objects s) \<Longrightarrow> pool_refs (disconnectEntry e s)"
  using pooled_delete [of "po_entries s" "pe_key (entry s e)"]
  by (fastforce simp: pool_refs_def pooled_def pool_effects)

lemma pool_bundles_disconnect:
  assumes "pool_bundles s" and "e < length (po_objects s)"
  shows "pool_bundles (disconnectEntry e s)"
proof -
  let ?B = "\<lambda>e'. pe_bundle (entry s e')" and ?n = "length (po_objects s)"
  have now: "pe_bundle (entry (disconnectEntry e s) e') = (if e' = e then None else ?B e')" for e'
    using assms(2) by (simp add: pool_effects)
  have boots: "b < po_nextBundle s \<longleftrightarrow> b \<in> set (po_disconnected s) \<or> (\<exists>e < ?n. ?B e = Some b)" for b
    using assms(1) by (auto simp: pool_bundles_def)
  have "(\<exists>e' < ?n. ?B e' = Some b) \<longleftrightarrow> ?B e = Some b \<or> (\<exists>e' < ?n. e' \<noteq> e \<and> ?B e' = Some b)" for b
    using assms(2) by metis
  then have "b < po_nextBundle s \<longleftrightarrow>
      b \<in> set (po_disconnected (disconnectEntry e s)) \<or> (\<exists>e' < ?n. e' \<noteq> e \<and> ?B e' = Some b)" for b
    using assms(2) boots [of b] by (auto simp: pool_effects split: option.splits)
  then have "b < po_nextBundle s \<longleftrightarrow> b \<in> set (po_disconnected (disconnectEntry e s)) \<or>
      (\<exists>e' < ?n. pe_bundle (entry (disconnectEntry e s) e') = Some b)" for b
    by (auto simp: now)
  moreover have "pe_creating (entry (disconnectEntry e s) e') = pe_creating (entry s e')" for e'
    using assms(2) by (simp add: pool_effects)
  ultimately show ?thesis
    using assms(1) unfolding pool_bundles_def
    by (simp add: now disconnectEntry_parts)
qed

lemma pool_counts_disconnect:
  "pool_counts s \<Longrightarrow> e < length (po_objects s) \<Longrightarrow> pool_counts (disconnectEntry e s)"
  by (simp add: pool_counts_def pool_effects)

lemma pool_timers_disconnect:
  "pool_timers opts X s \<Longrightarrow> e < length (po_objects s) \<Longrightarrow> pool_timers opts X (disconnectEntry e s)"
  by (auto simp: pool_timers_def pool_effects)

lemma pool_ledger_disconnect:
  assumes "pool_ledger s" and "pool_bundles s" and "e < length (po_objects s)"
  shows "pool_ledger (disconnectEntry e s)"
  using assms
  by (cases "pe_bundle (entry s e)") (auto simp: pool_ledger_def pool_bundles_def pool_effects)

lemma pool_okD:
  assumes "pool_ok opts s"
  shows "pool_refs s" "pool_bundles s" "pool_counts s" "pool_timers opts {} s"
  using assms by (simp_all add: pool_ok_def)

lemma pool_ok_disconnect:
  "pool_ok opts s \<Longrightarrow> e < length (po_objects s) \<Longrightarrow> pool_ok opts (disconnectEntry e s)"
  by (simp add: pool_ok_def pool_refs_disconnect pool_bundles_disconnect pool_counts_disconnect
      pool_timers_disconnect)

lemma disconnect_many:
  assumes "set es \<subseteq> {..<length (po_objects s)}" and "pool_ok opts s"
  shows "pool_ok opts (fold disconnectEntry es s)"
    and "pool_ledger s \<Longrightarrow> pool_ledger (fold disconnectEntry es s)"
    and "length (po_objects (fold disconnectEntry es s)) = length (po_objects s)"
    and "po_calls (fold disconnectEntry es s) = po_calls s"
  using assms
proof (induction es arbitrary: s)
  case (Cons e es)
  { case 1 then show ?case using Cons(1) by (simp add: pool_ok_disconnect pool_effects) }
  { case 2 then show ?case using Cons(2)
      by (simp add: pool_ok_disconnect pool_effects pool_ledger_disconnect pool_okD) }
  { case 3 then show ?case using Cons(3) by (simp add: pool_ok_disconnect pool_effects) }
  { case 4 then show ?case using Cons(4) by (simp add: pool_ok_disconnect pool_effects) }
qed simp_all

lemma pooled_in_range: "pool_ok opts s \<Longrightarrow> e \<in> set (pooled s) \<Longrightarrow> e < length (po_objects s)"
  by (auto simp: pool_ok_def pool_refs_def)

lemma evictExpired_ok:
  assumes "pool_ok opts s"
  shows "pool_ok opts (evictExpired opts t s)"
    and "pool_ledger s \<Longrightarrow> pool_ledger (evictExpired opts t s)"
    and "length (po_objects (evictExpired opts t s)) = length (po_objects s)"
    and "po_calls (evictExpired opts t s) = po_calls s"
  using assms
  by (auto simp: evictExpired_def intro!: disconnect_many dest: pooled_in_range)

lemma evictions_only:
  "pool_bundles (s\<lparr>po_evictions := ev\<rparr>) = pool_bundles s"
  "pool_counts (s\<lparr>po_evictions := ev\<rparr>) = pool_counts s"
  "pool_timers opts X (s\<lparr>po_evictions := ev\<rparr>) = pool_timers opts X s"
  "pool_ledger (s\<lparr>po_evictions := ev\<rparr>) = pool_ledger s"
  "pooled (s\<lparr>po_evictions := ev\<rparr>) = pooled s"
  by (simp_all add: pool_bundles_def pool_counts_def pool_timers_def pool_ledger_def pooled_def
      pool_effects)

lemma pool_refs_evictions:
  "pool_refs s \<Longrightarrow> (\<And>es. es \<in> set ev \<Longrightarrow> set es \<subseteq> {..<length (po_objects s)}) \<Longrightarrow>
   pool_refs (s\<lparr>po_evictions := ev\<rparr>)"
  by (auto simp: pool_refs_def evictions_only)

lemma pool_ok_evictions:
  "pool_ok opts s \<Longrightarrow> (\<And>es. es \<in> set ev \<Longrightarrow> set es \<subseteq> {..<length (po_objects s)}) \<Longrightarrow>
   pool_ok opts (s\<lparr>po_evictions := ev\<rparr>)"
  by (simp add: pool_ok_def evictions_only pool_refs_evictions)

lemma waiting_in_range:
  "pool_ok opts s \<Longrightarrow> es \<in> set (po_evictions s) \<Longrightarrow> set es \<subseteq> {..<length (po_objects s)}"
  by (auto simp: pool_ok_def pool_refs_def)

lemma evict_turn_ok:
  assumes "pool_ok opts s" and "set cs \<subseteq> {..<length (po_objects s)}"
  shows "pool_ok opts (evict_turn opts cs s)"
    and "pool_ledger s \<Longrightarrow> pool_ledger (evict_turn opts cs s)"
  using assms waiting_in_range [OF assms(1)]
  by (cases cs; auto simp: evict_turn_def Let_def evictions_only pool_effects pool_ledger_disconnect
      pool_okD intro!: pool_ok_evictions pool_ok_disconnect)+

lemma evictOverflow_ok:
  assumes "pool_ok opts s"
  shows "pool_ok opts (evictOverflow opts s)"
    and "pool_ledger s \<Longrightarrow> pool_ledger (evictOverflow opts s)"
  using assms by (auto simp: evictOverflow_def intro!: evict_turn_ok dest: pooled_in_range)

lemma running_card: "jm_wf m \<Longrightarrow> running e m = card {c. jm_get m c = Some (CpRunning e)}"
proof -
  assume "jm_wf m"
  then have d: "distinct (map fst m)" by (simp add: jm_wf_def)
  let ?l = "filter (\<lambda>(c, p). p = CpRunning e) m"
  have "{c. jm_get m c = Some (CpRunning e)} = set (map fst ?l)"
    using d by (force simp: jm_get_def map_of_eq_Some_iff)
  moreover have "distinct (map fst ?l)" using d by (simp add: distinct_map_filter)
  ultimately show ?thesis unfolding running_def by (metis distinct_card length_map)
qed

lemma finite_running: "finite {c. jm_get m c = Some p}"
  by (rule finite_subset [OF _ finite_dom_map_of [of m]]) (auto simp: jm_get_def)

lemma running_quiet:
  assumes "jm_wf m" and "jm_get m c \<noteq> Some (CpRunning e)"
  shows "p \<noteq> CpRunning e \<Longrightarrow> running e (jm_set m c p) = running e m"
    and "running e (jm_delete m c) = running e m"
  using assms by (auto simp: running_card intro: arg_cong [where f = card])

lemma running_start:
  assumes "jm_wf m" and "jm_get m c \<noteq> Some (CpRunning e)"
  shows "running e (jm_set m c (CpRunning e)) = Suc (running e m)"
proof -
  have "{c'. jm_get (jm_set m c (CpRunning e)) c' = Some (CpRunning e)} =
      insert c {c'. jm_get m c' = Some (CpRunning e)}"
    by auto
  then show ?thesis using assms by (simp add: running_card finite_running)
qed

lemma running_end:
  assumes "jm_wf m" and "jm_get m c = Some (CpRunning e)"
  shows "running e (jm_delete m c) = running e m - 1" and "0 < running e m"
proof -
  have "{c'. jm_get (jm_delete m c) c' = Some (CpRunning e)} =
      {c'. jm_get m c' = Some (CpRunning e)} - {c}"
    by auto
  with assms show "running e (jm_delete m c) = running e m - 1"
    by (simp add: running_card finite_running)
  show "0 < running e m"
    using assms by (auto simp: running_card card_gt_0_iff finite_running)
qed

lemma get_booted_calls [simp]:
  "jm_get (booted_calls e m) c = map_option (\<lambda>p. if p = CpBooting e then CpReady e else p) (jm_get m c)"
proof (induction m)
  case (Cons a m)
  then show ?case by (cases a) (simp add: jm_get_def booted_calls_def)
qed (simp add: jm_get_def booted_calls_def)

lemma wf_booted_calls [simp]: "jm_wf (booted_calls e m) = jm_wf m"
  by (simp add: jm_wf_def booted_calls_def split_def o_def)

lemma running_booted [simp]: "running e (booted_calls e' m) = running e m"
  by (induction m) (auto simp: running_def booted_calls_def split: if_splits)

lemma wf_rejected_calls [simp]: "jm_wf m \<Longrightarrow> jm_wf (rejected_calls e m)"
  by (simp add: jm_wf_def rejected_calls_def distinct_map_filter)

lemma get_rejected_calls:
  "jm_wf m \<Longrightarrow> jm_get (rejected_calls e m) c = Some p \<Longrightarrow> jm_get m c = Some p"
  by (auto simp: jm_wf_def jm_get_def rejected_calls_def map_of_eq_Some_iff distinct_map_filter)

lemma running_rejected [simp]: "running e (rejected_calls e' m) = running e m"
  by (induction m) (auto simp: running_def rejected_calls_def)

text \<open>Writing an entry, or the calls.\<close>

lemma pool_refs_on_entry: "pool_refs (on_entry e f s) = pool_refs s"
  by (simp add: pool_refs_def pooled_def pool_effects)

lemma pool_bundles_on_entry:
  "e < length (po_objects s) \<Longrightarrow> pe_bundle (f (entry s e)) = pe_bundle (entry s e) \<Longrightarrow>
   (pe_creating (f (entry s e)) \<Longrightarrow> pe_creating (entry s e)) \<Longrightarrow>
   pool_bundles s \<Longrightarrow> pool_bundles (on_entry e f s)"
  by (simp add: pool_bundles_def pool_effects cong: conj_cong) (smt (verit))

lemma pool_ledger_on_entry:
  "e < length (po_objects s) \<Longrightarrow> pe_bundle (f (entry s e)) = pe_bundle (entry s e) \<Longrightarrow>
   pool_ledger (on_entry e f s) = pool_ledger s"
  by (auto simp: pool_ledger_def pool_effects)

lemma calls_only:
  "pool_bundles (s\<lparr>po_calls := m\<rparr>) = pool_bundles s"
  "pool_timers opts X (s\<lparr>po_calls := m\<rparr>) = pool_timers opts X s"
  "pool_ledger (s\<lparr>po_calls := m\<rparr>) = pool_ledger s"
  "pooled (s\<lparr>po_calls := m\<rparr>) = pooled s"
  by (simp_all add: pool_bundles_def pool_timers_def pool_ledger_def pooled_def pool_effects)

lemma pool_ok_quiet_phase:
  assumes "pool_ok opts s" and "\<And>e. jm_get (po_calls s) c \<noteq> Some (CpRunning e)"
    and "\<And>e. p \<noteq> CpRunning e" and "\<And>e. phase_entry p = Some e \<Longrightarrow> e < length (po_objects s)"
  shows "pool_ok opts (set_phase c p s)"
  using assms
  by (auto simp: pool_ok_def set_phase_def calls_only pool_counts_def pool_refs_def pool_effects
      running_quiet)

lemma start_call_ok:
  assumes "pool_ok opts s" and "jm_get (po_calls s) c = None"
  shows "pool_ok opts (start_call opts c sv ws t s)"
    and "pool_ledger s \<Longrightarrow> pool_ledger (start_call opts c sv ws t s)"
proof -
  show "pool_ok opts (start_call opts c sv ws t s)"
    unfolding start_call_def
    by (rule pool_ok_quiet_phase) (simp_all add: evictExpired_ok assms)
  show "pool_ledger s \<Longrightarrow> pool_ledger (start_call opts c sv ws t s)"
    by (simp add: start_call_def set_phase_def calls_only evictExpired_ok assms)
qed

text \<open>A new entry has no bundle, and no call knows it yet.\<close>

definition add_entry :: "pool_entry \<Rightarrow> warm_pool \<Rightarrow> warm_pool" where
  "add_entry x s = s\<lparr>po_objects := po_objects s @ [x],
     po_entries := jm_set (po_entries s) (pe_key x) (length (po_objects s))\<rparr>"

lemma entry_add_entry:
  "entry (add_entry x s) e =
     (if e < length (po_objects s) then entry s e
      else if e = length (po_objects s) then x else [] ! (e - length (po_objects s) - 1))"
  by (auto simp: entry_def add_entry_def nth_append nth_Cons')

lemma add_entry_parts:
  "length (po_objects (add_entry x s)) = Suc (length (po_objects s))"
  "po_calls (add_entry x s) = po_calls s" "po_disconnected (add_entry x s) = po_disconnected s"
  "po_nextBundle (add_entry x s) = po_nextBundle s" "po_evictions (add_entry x s) = po_evictions s"
  by (simp_all add: add_entry_def)

lemma no_call_yet:
  assumes "pool_refs s"
  shows "running (length (po_objects s)) (po_calls s) = 0"
proof -
  have none: "jm_get (po_calls s) c \<noteq> Some (CpRunning (length (po_objects s)))" for c
    using assms by (auto simp: pool_refs_def dest!: spec [of _ c])
  then show ?thesis using assms by (simp add: running_card pool_refs_def)
qed

lemma add_entry_ok:
  assumes "pool_ok opts s" and "pe_bundle x = None" and "pe_activeCount x = 0"
  shows "pool_ok opts (add_entry x s)" and "pool_ledger (add_entry x s) = pool_ledger s"
proof -
  have "set (pooled (add_entry x s)) \<subseteq> insert (length (po_objects s)) (set (pooled s))"
    using pooled_set by (simp add: pooled_def add_entry_def)
  then have "pool_refs (add_entry x s)"
    using pool_okD(1) [OF assms(1)]
    by (fastforce simp: pool_refs_def add_entry_parts less_Suc_eq)
  moreover have held: "e < Suc (length (po_objects s)) \<and> pe_bundle (entry (add_entry x s) e) = Some b \<longleftrightarrow>
      e < length (po_objects s) \<and> pe_bundle (entry s e) = Some b" for e b
    using assms(2) by (auto simp: entry_add_entry less_Suc_eq)
  have "pool_bundles (add_entry x s)"
    unfolding pool_bundles_def add_entry_parts
  proof (intro conjI allI impI)
    fix e assume "e < Suc (length (po_objects s))" "pe_creating (entry (add_entry x s) e)"
    then show "pe_bundle (entry (add_entry x s) e) = None"
      using pool_okD(2) [OF assms(1)] assms(2)
      by (auto simp: entry_add_entry less_Suc_eq pool_bundles_def split: if_splits)
  next
    fix b
    show "b < po_nextBundle s \<longleftrightarrow> b \<in> set (po_disconnected s) \<or>
        (\<exists>e < Suc (length (po_objects s)). pe_bundle (entry (add_entry x s) e) = Some b)"
      using pool_okD(2) [OF assms(1)] by (simp add: held pool_bundles_def)
  next
    fix e e' b
    assume "e < Suc (length (po_objects s))" "e' < Suc (length (po_objects s))"
      and "pe_bundle (entry (add_entry x s) e) = Some b" "pe_bundle (entry (add_entry x s) e') = Some b"
    then show "e = e'"
      using pool_okD(2) [OF assms(1)] held [of e b] held [of e' b]
      unfolding pool_bundles_def by blast
  qed
  moreover have "pool_counts (add_entry x s)"
    using pool_okD(3) [OF assms(1)] no_call_yet [OF pool_okD(1) [OF assms(1)]] assms(3)
    by (auto simp: pool_counts_def add_entry_parts entry_add_entry less_Suc_eq)
  moreover have "pool_timers opts {} (add_entry x s)"
    using pool_okD(4) [OF assms(1)] assms(2)
    by (auto simp: pool_timers_def add_entry_parts entry_add_entry less_Suc_eq)
  ultimately show "pool_ok opts (add_entry x s)" by (simp add: pool_ok_def)
  show "pool_ledger (add_entry x s) = pool_ledger s"
    using assms(2) by (auto simp: pool_ledger_def add_entry_parts entry_add_entry less_Suc_eq)
qed

lemma pool_ok_touch:
  assumes "pool_ok opts s" and "e < length (po_objects s)"
  shows "pool_ok opts (on_entry e (\<lambda>x. x\<lparr>pe_lastUsedAt := t\<rparr>) s)"
proof -
  have "pool_counts (on_entry e (\<lambda>x. x\<lparr>pe_lastUsedAt := t\<rparr>) s)"
    using pool_okD(3) [OF assms(1)] assms(2) by (simp add: pool_counts_def pool_effects)
  moreover have "pool_timers opts {} (on_entry e (\<lambda>x. x\<lparr>pe_lastUsedAt := t\<rparr>) s)"
    using pool_okD(4) [OF assms(1)] assms(2) by (simp add: pool_timers_def pool_effects)
  ultimately show ?thesis
    using pool_okD [OF assms(1)] assms(2)
      pool_bundles_on_entry [of e s "\<lambda>x. x\<lparr>pe_lastUsedAt := t\<rparr>"]
    by (simp add: pool_ok_def pool_refs_on_entry)
qed

lemma ensureEntry_ok:
  assumes "pool_ok opts s" and "jm_get (po_calls s) c = Some (CpEvicting sv ws)"
  shows "pool_ok opts (ensureEntry opts c sv ws t s)"
    and "pool_ledger s \<Longrightarrow> pool_ledger (ensureEntry opts c sv ws t s)"
proof -
  define k where "k = createPoolKey opts ws sv"
  define fresh where "fresh = \<lparr>pe_key = k, pe_server = sv, pe_bundle = None, pe_creating = True,
    pe_activeCount = 0, pe_lastUsedAt = t, pe_idleTimer = False\<rparr>"
  let ?boot = "set_phase c (CpBooting (length (po_objects s))) (add_entry fresh s)"
  have key: "pe_key fresh = k" by (simp add: fresh_def)
  have cases: "ensureEntry opts c sv ws t s =
    (case jm_get (po_entries s) k of None \<Rightarrow> ?boot
     | Some e \<Rightarrow> if pe_bundle (entry s e) \<noteq> None
         then set_phase c (CpReady e) (on_entry e (\<lambda>x. x\<lparr>pe_lastUsedAt := t\<rparr>) s)
         else if pe_creating (entry s e) then set_phase c (CpBooting e) s else ?boot)"
    unfolding ensureEntry_def Let_def add_entry_def key k_def [symmetric] fresh_def [symmetric]
    by (rule refl)
  have added: "pool_ok opts (add_entry fresh s)" "pool_ledger (add_entry fresh s) = pool_ledger s"
    using assms by (simp_all add: add_entry_ok fresh_def)
  have boot: "pool_ok opts ?boot"
    using assms(2) added(1) by (intro pool_ok_quiet_phase) (simp_all add: add_entry_parts)
  have boot': "pool_ledger s \<Longrightarrow> pool_ledger ?boot"
    by (simp add: set_phase_def calls_only added)
  have range: "e < length (po_objects s)" if "jm_get (po_entries s) k = Some e" for e
    using that pooled_in_range [OF assms(1), of e]
    by (force simp: jm_get_def pooled_def dest: map_of_SomeD)
  show "pool_ok opts (ensureEntry opts c sv ws t s)"
    using boot range assms
    by (auto simp: cases pool_effects intro!: pool_ok_quiet_phase pool_ok_touch split: option.split)
  show "pool_ledger (ensureEntry opts c sv ws t s)" if "pool_ledger s"
    using boot' range that
    by (auto simp: cases set_phase_def calls_only pool_ledger_on_entry split: option.split)
qed

text \<open>An idle timer is set again for the one entry that may lack it.\<close>

lemma schedule_timers:
  "pool_timers opts {e} s \<Longrightarrow> e < length (po_objects s) \<Longrightarrow>
   pool_timers opts {} (scheduleIdleDisconnect opts e s)"
  by (auto simp: pool_timers_def pool_effects)

lemma schedule_keeps:
  assumes "e < length (po_objects s)"
  shows "pool_refs (scheduleIdleDisconnect opts e s) = pool_refs s"
    and "pool_bundles (scheduleIdleDisconnect opts e s) = pool_bundles s"
    and "pool_counts (scheduleIdleDisconnect opts e s) = pool_counts s"
    and "pool_ledger (scheduleIdleDisconnect opts e s) = pool_ledger s"
proof -
  have e: "pe_bundle (entry (scheduleIdleDisconnect opts e s) e') = pe_bundle (entry s e')"
    "pe_creating (entry (scheduleIdleDisconnect opts e s) e') = pe_creating (entry s e')"
    "pe_activeCount (entry (scheduleIdleDisconnect opts e s) e') = pe_activeCount (entry s e')" for e'
    using assms by (simp_all add: pool_effects)
  show "pool_refs (scheduleIdleDisconnect opts e s) = pool_refs s"
    by (simp add: pool_refs_def pooled_def schedule_parts)
  show "pool_bundles (scheduleIdleDisconnect opts e s) = pool_bundles s"
    by (simp add: pool_bundles_def e schedule_parts)
  show "pool_counts (scheduleIdleDisconnect opts e s) = pool_counts s"
    by (simp add: pool_counts_def e schedule_parts)
  show "pool_ledger (scheduleIdleDisconnect opts e s) = pool_ledger s"
    by (simp add: pool_ledger_def e schedule_parts)
qed

lemma schedule_ok:
  assumes "e < length (po_objects s)" and "pool_refs s" "pool_bundles s" "pool_counts s"
    and "pool_timers opts {e} s"
  shows "pool_ok opts (scheduleIdleDisconnect opts e s)"
  using assms by (simp add: pool_ok_def schedule_keeps schedule_timers)

text \<open>The boot puts a new bundle into its entry.\<close>

definition install :: "nat \<Rightarrow> int \<Rightarrow> warm_pool \<Rightarrow> warm_pool" where
  "install e t s =
     (let s1 = on_entry e (\<lambda>x. x\<lparr>pe_bundle := Some (po_nextBundle s), pe_creating := False,
                 pe_lastUsedAt := t\<rparr>) s
      in s1\<lparr>po_nextBundle := po_nextBundle s + 1,
            po_catalog := jm_set (po_catalog s1) (pe_server (entry s1 e)) (po_nextBundle s),
            po_calls := booted_calls e (po_calls s1)\<rparr>)"

lemma boot_succeeded_install:
  "boot_succeeded opts e t s = evictOverflow opts (scheduleIdleDisconnect opts e (install e t s))"
  by (simp add: boot_succeeded_def install_def Let_def)

lemma install_effects:
  "length (po_objects (install e t s)) = length (po_objects s)"
  "po_entries (install e t s) = po_entries s" "po_disconnected (install e t s) = po_disconnected s"
  "po_nextBundle (install e t s) = Suc (po_nextBundle s)"
  "po_calls (install e t s) = booted_calls e (po_calls s)"
  "po_evictions (install e t s) = po_evictions s"
  "e < length (po_objects s) \<Longrightarrow> entry (install e t s) e' =
     (if e' = e then (entry s e)\<lparr>pe_bundle := Some (po_nextBundle s), pe_creating := False,
        pe_lastUsedAt := t\<rparr> else entry s e')"
  by (simp_all add: install_def Let_def pool_effects)

lemma install_bundles:
  assumes "pool_bundles s" and "e < length (po_objects s)" and "pe_bundle (entry s e) = None"
  shows "pool_bundles (install e t s)"
    and "pool_ledger s \<Longrightarrow> pool_ledger (install e t s)"
proof -
  let ?n = "length (po_objects s)" and ?B = "\<lambda>e'. pe_bundle (entry s e')"
  have boots: "b < po_nextBundle s \<longleftrightarrow> b \<in> set (po_disconnected s) \<or> (\<exists>e' < ?n. ?B e' = Some b)" for b
    using assms(1) by (auto simp: pool_bundles_def)
  have now: "pe_bundle (entry (install e t s) e') = Some b \<longleftrightarrow>
      (if e' = e then b = po_nextBundle s else ?B e' = Some b)" for e' b
    using assms(2) by (auto simp: install_effects)
  have new: "e' < ?n \<Longrightarrow> ?B e' \<noteq> Some (po_nextBundle s)" for e'
    using boots [of "po_nextBundle s"] by auto
  have cr: "pe_creating (entry (install e t s) e') \<Longrightarrow> e' \<noteq> e \<and> pe_creating (entry s e')" for e'
    using assms(2) by (simp add: install_effects split: if_splits)
  show "pool_bundles (install e t s)"
    unfolding pool_bundles_def install_effects(1,3,4)
  proof (intro conjI allI impI)
    fix e' assume "e' < ?n" "pe_creating (entry (install e t s) e')"
    with cr [of e'] assms(1) have "e' \<noteq> e" "?B e' = None" by (auto simp: pool_bundles_def)
    then show "pe_bundle (entry (install e t s) e') = None"
      using assms(2) by (simp add: install_effects)
  next
    fix b
    have "(\<exists>e' < ?n. pe_bundle (entry (install e t s) e') = Some b) \<longleftrightarrow>
        b = po_nextBundle s \<or> (\<exists>e' < ?n. ?B e' = Some b)"
      unfolding now using assms(2,3) by (metis option.distinct(1))
    then show "b < Suc (po_nextBundle s) \<longleftrightarrow> b \<in> set (po_disconnected s) \<or>
        (\<exists>e' < ?n. pe_bundle (entry (install e t s) e') = Some b)"
      using boots [of b] by (auto simp: less_Suc_eq)
  next
    fix e1 e2 b
    assume "e1 < ?n" "e2 < ?n" and "pe_bundle (entry (install e t s) e1) = Some b"
      and "pe_bundle (entry (install e t s) e2) = Some b"
    then show "e1 = e2"
      using assms(1) new unfolding now pool_bundles_def by (metis (full_types))
  qed
  show "pool_ledger (install e t s)" if "pool_ledger s"
    using that boots [of "po_nextBundle s"] unfolding pool_ledger_def install_effects(1,3) now
    by (auto split: if_splits)
qed

lemma boot_succeeded_ok:
  assumes ok: "pool_ok opts s" and e: "e < length (po_objects s)" "pe_creating (entry s e)"
  shows "pool_ok opts (boot_succeeded opts e t s)"
    and "pool_ledger s \<Longrightarrow> pool_ledger (boot_succeeded opts e t s)"
proof -
  have none: "pe_bundle (entry s e) = None"
    using pool_okD(2) [OF ok] e by (simp add: pool_bundles_def)
  let ?i = "install e t s"
  have "phase_entry p = Some e' \<Longrightarrow> e' < length (po_objects s)"
    if "jm_get (booted_calls e (po_calls s)) c = Some p" for c p e'
    using that pool_okD(1) [OF ok] e(1) by (fastforce simp: pool_refs_def split: if_splits)
  then have "pool_refs ?i"
    using pool_okD(1) [OF ok]
    unfolding pool_refs_def pooled_def install_effects(1,2,5,6) by simp
  moreover have "pool_counts ?i"
    using pool_okD(3) [OF ok] e(1) by (simp add: pool_counts_def install_effects)
  moreover have "pool_timers opts {e} ?i"
    using pool_okD(4) [OF ok] e(1) by (simp add: pool_timers_def install_effects)
  ultimately have sched: "pool_ok opts (scheduleIdleDisconnect opts e ?i)"
    using e(1) install_bundles(1) [OF pool_okD(2) [OF ok] e(1) none]
    by (intro schedule_ok) (simp_all add: install_effects(1))
  then show "pool_ok opts (boot_succeeded opts e t s)"
    by (simp add: boot_succeeded_install evictOverflow_ok)
  show "pool_ledger (boot_succeeded opts e t s)" if "pool_ledger s"
    using that sched e(1) install_bundles(2) [OF pool_okD(2) [OF ok] e(1) none]
    by (simp add: boot_succeeded_install evictOverflow_ok schedule_keeps install_effects(1))
qed

lemma boot_failed_ok:
  assumes ok: "pool_ok opts s" and e: "e < length (po_objects s)"
  shows "pool_ok opts (boot_failed e s)"
    and "pool_ledger s \<Longrightarrow> pool_ledger (boot_failed e s)"
proof -
  let ?s = "s\<lparr>po_entries := jm_delete (po_entries s) (pe_key (entry s e)),
    po_calls := rejected_calls e (po_calls s)\<rparr>"
  have ent: "entry ?s e' = entry s e'" for e' by (simp add: entry_def)
  have "pool_refs ?s"
    using pool_okD(1) [OF ok] pooled_delete [of "po_entries s" "pe_key (entry s e)"]
    by (fastforce simp: pool_refs_def pooled_def dest: get_rejected_calls)
  moreover have "pool_bundles ?s" "pool_counts ?s" "pool_timers opts {} ?s"
    and led: "pool_ledger ?s = pool_ledger s"
    using pool_okD [OF ok]
    by (simp_all add: pool_bundles_def pool_counts_def pool_timers_def pool_ledger_def ent)
  moreover have "pool_counts (on_entry e (\<lambda>x. x\<lparr>pe_creating := False\<rparr>) ?s)"
    using calculation(3) e by (simp add: pool_counts_def pool_effects)
  moreover have "pool_timers opts {} (on_entry e (\<lambda>x. x\<lparr>pe_creating := False\<rparr>) ?s)"
    using calculation(4) e by (simp add: pool_timers_def pool_effects)
  moreover have "pool_bundles (on_entry e (\<lambda>x. x\<lparr>pe_creating := False\<rparr>) ?s)"
    using calculation(2) e by (intro pool_bundles_on_entry) simp_all
  ultimately show "pool_ok opts (boot_failed e s)"
    by (simp add: pool_ok_def boot_failed_def pool_refs_on_entry)
  show "pool_ledger s \<Longrightarrow> pool_ledger (boot_failed e s)"
    using e led by (simp add: boot_failed_def pool_ledger_on_entry)
qed

text \<open>The end of a call: one fewer call runs on the entry, and its timer is set.\<close>

lemma release_ok:
  assumes "pool_refs s" "pool_bundles s" "pool_timers opts {e} s" "e < length (po_objects s)"
    and "\<And>e'. e' < length (po_objects s) \<Longrightarrow>
      pe_activeCount (entry s e') = running e' (po_calls s) + (if e' = e then 1 else 0)"
  shows "pool_ok opts (release opts e t s)"
    and "pool_ledger s \<Longrightarrow> pool_ledger (release opts e t s)"
proof -
  let ?f = "\<lambda>x. x\<lparr>pe_activeCount := pe_activeCount x - 1, pe_lastUsedAt := t\<rparr>"
  have "pool_counts (on_entry e ?f s)"
    using assms(4,5) by (simp add: pool_counts_def pool_effects)
  moreover have "pool_timers opts {e} (on_entry e ?f s)"
    using assms(3,4) by (simp add: pool_timers_def pool_effects)
  moreover have "pool_bundles (on_entry e ?f s)"
    using assms(2,4) by (intro pool_bundles_on_entry) simp_all
  ultimately have "pool_ok opts (scheduleIdleDisconnect opts e (on_entry e ?f s))"
    using assms(1,4) by (intro schedule_ok) (simp_all add: pool_refs_on_entry pool_effects)
  then show "pool_ok opts (release opts e t s)"
    and "pool_ledger s \<Longrightarrow> pool_ledger (release opts e t s)"
    using assms(4)
    by (simp_all add: release_def evictOverflow_ok schedule_keeps pool_effects pool_ledger_on_entry)
qed

lemma pool_refs_less_calls:
  "pool_refs s \<Longrightarrow> jm_wf m \<Longrightarrow>
   (\<And>c p. jm_get m c = Some p \<Longrightarrow> jm_get (po_calls s) c = Some p) \<Longrightarrow> pool_refs (s\<lparr>po_calls := m\<rparr>)"
  unfolding pool_refs_def calls_only by (simp; blast)

lemma call_entry:
  assumes "pool_ok opts s" and "jm_get (po_calls s) c = Some p" and "phase_entry p = Some e"
  shows "e < length (po_objects s)"
  using assms by (auto simp: pool_ok_def pool_refs_def)

lemma end_call_refs: "pool_refs s \<Longrightarrow> pool_refs (end_call c s)"
  unfolding end_call_def
  by (rule pool_refs_less_calls) (auto simp: pool_refs_def split: if_splits)

lemma finish_ok:
  assumes ok: "pool_ok opts s" and c: "jm_get (po_calls s) c = Some (CpRunning e)"
  shows "pool_ok opts (release opts e t (end_call c s))"
    and "pool_ledger s \<Longrightarrow> pool_ledger (release opts e t (end_call c s))"
proof -
  have e: "e < length (po_objects s)" using call_entry [OF ok c] by simp
  have wf: "jm_wf (po_calls s)" using pool_okD(1) [OF ok] by (simp add: pool_refs_def)
  have count: "pe_activeCount (entry (end_call c s) e') =
      running e' (po_calls (end_call c s)) + (if e' = e then 1 else 0)"
    if "e' < length (po_objects s)" for e'
    using that pool_okD(3) [OF ok] running_end [OF wf c] running_quiet(2) [OF wf, of c e'] c
    by (auto simp: pool_counts_def end_call_def pool_effects)
  have t: "pool_timers opts {e} (end_call c s)"
    using pool_okD(4) [OF ok] by (simp add: end_call_def pool_timers_def pool_effects)
  have b: "pool_bundles (end_call c s)" "pool_ledger (end_call c s) = pool_ledger s"
    using pool_okD(2) [OF ok] by (simp_all add: end_call_def calls_only)
  have n: "length (po_objects (end_call c s)) = length (po_objects s)"
    by (simp add: end_call_def)
  note r = release_ok [OF end_call_refs [OF pool_okD(1) [OF ok]] b(1) t]
  show "pool_ok opts (release opts e t (end_call c s))"
    using e count n by (intro r(1)) auto
  show "pool_ledger s \<Longrightarrow> pool_ledger (release opts e t (end_call c s))"
    using e count n b(2) by (intro r(2)) auto
qed

lemma acquire_ok:
  assumes ok: "pool_ok opts s" and c: "jm_get (po_calls s) c = Some (CpReady e)"
  shows "pool_ok opts (acquire opts c e t s)"
    and "pool_ledger s \<Longrightarrow> pool_ledger (acquire opts c e t s)"
proof -
  let ?f = "\<lambda>x. x\<lparr>pe_activeCount := pe_activeCount x + 1\<rparr>"
  define s1 where "s1 = clearIdleTimer e (on_entry e ?f s)"
  have e: "e < length (po_objects s)" using call_entry [OF ok c] by simp
  have wf: "jm_wf (po_calls s)" using pool_okD(1) [OF ok] by (simp add: pool_refs_def)
  have ent: "entry s1 e' = (if e' = e then (entry s e)\<lparr>pe_activeCount := pe_activeCount (entry s e) + 1,
      pe_idleTimer := False\<rparr> else entry s e')" for e'
    using e by (simp add: s1_def pool_effects)
  have n: "length (po_objects s1) = length (po_objects s)" "po_calls s1 = po_calls s"
    "po_disconnected s1 = po_disconnected s" "po_nextBundle s1 = po_nextBundle s"
    by (simp_all add: s1_def pool_effects)
  have same: "pe_bundle (entry s1 e') = pe_bundle (entry s e')"
    "pe_creating (entry s1 e') = pe_creating (entry s e')" for e'
    using ent by simp_all
  have refs: "pool_refs s1"
    using pool_okD(1) [OF ok] by (simp add: s1_def clearIdleTimer_def pool_refs_on_entry)
  have bundles: "pool_bundles s1" and led: "pool_ledger s1 = pool_ledger s"
    using pool_okD(2) [OF ok] by (simp_all add: pool_bundles_def pool_ledger_def n same)
  have timers: "pool_timers opts {e} s1"
    using pool_okD(4) [OF ok] by (simp add: pool_timers_def n ent)
  have count: "pe_activeCount (entry s1 e') = running e' (po_calls s) + (if e' = e then 1 else 0)"
    if "e' < length (po_objects s)" for e'
    using that pool_okD(3) [OF ok] by (simp add: ent pool_counts_def)
  have nr: "jm_get (po_calls s) c \<noteq> Some (CpRunning e')" for e' using c by simp
  have ended: "pool_refs (end_call c s1)" "pool_bundles (end_call c s1)"
    "pool_timers opts {e} (end_call c s1)" "e < length (po_objects (end_call c s1))"
    "pool_ledger (end_call c s1) = pool_ledger s1"
    using refs bundles timers e by (simp_all add: end_call_refs) (simp_all add: end_call_def calls_only n)
  have "pe_activeCount (entry (end_call c s1) e') =
      running e' (po_calls (end_call c s1)) + (if e' = e then 1 else 0)"
    if "e' < length (po_objects (end_call c s1))" for e'
    using that count wf nr by (simp add: end_call_def pool_effects n running_quiet)
  note thrown = release_ok [OF ended(1-4) this, unfolded ended(5)]
  have "pool_refs (set_phase c (CpRunning e) s1)"
    using refs e by (auto simp: set_phase_def pool_refs_def calls_only n)
  moreover have "pool_counts (set_phase c (CpRunning e) s1)"
    using count wf nr
    by (auto simp: set_phase_def pool_counts_def pool_effects n running_quiet running_start)
  moreover have "pool_timers opts {} (set_phase c (CpRunning e) s1)"
    using timers e by (auto simp: set_phase_def pool_timers_def n ent pool_effects)
  ultimately have runs: "pool_ok opts (set_phase c (CpRunning e) s1)"
    using bundles by (simp add: pool_ok_def set_phase_def calls_only)
  have two: "acquire opts c e t s = (if pe_bundle (entry s e) = None
      then release opts e t (end_call c s1) else set_phase c (CpRunning e) s1)"
    unfolding acquire_def Let_def s1_def [symmetric] same ..
  show "pool_ok opts (acquire opts c e t s)" using thrown(1) runs by (simp add: two)
  show "pool_ledger s \<Longrightarrow> pool_ledger (acquire opts c e t s)"
    using thrown(2) led by (simp add: two set_phase_def calls_only)
qed

lemma idle_timer_ok:
  assumes ok: "pool_ok opts s" and e: "e < length (po_objects s)"
  shows "pool_ok opts (idle_timer_fired opts e t s)"
    and "pool_ledger s \<Longrightarrow> pool_ledger (idle_timer_fired opts e t s)"
proof -
  define s1 where "s1 = on_entry e (\<lambda>x. x\<lparr>pe_idleTimer := False\<rparr>) s"
  have n: "length (po_objects s1) = length (po_objects s)" by (simp add: s1_def pool_effects)
  have refs: "pool_refs s1" and led: "pool_ledger s1 = pool_ledger s"
    using pool_okD(1) [OF ok] e by (simp_all add: s1_def pool_refs_on_entry pool_ledger_on_entry)
  have bundles: "pool_bundles s1"
    unfolding s1_def using pool_okD(2) [OF ok] e by (intro pool_bundles_on_entry) simp_all
  have counts: "pool_counts s1"
    using pool_okD(3) [OF ok] e by (simp add: s1_def pool_counts_def pool_effects)
  have timers: "pool_timers opts {e} s1"
    using pool_okD(4) [OF ok] e by (simp add: s1_def pool_timers_def pool_effects)
  then have stays: "pool_ok opts s1" if "0 < pe_activeCount (entry s1 e) \<or> pe_bundle (entry s1 e) = None"
    using that refs bundles counts unfolding pool_ok_def pool_timers_def by fastforce
  have again: "pool_ok opts (scheduleIdleDisconnect opts e s1)"
    using refs bundles counts timers e n by (intro schedule_ok) simp_all
  have gone: "pool_ok opts (disconnectEntry e s1)"
    using refs bundles counts timers e n pool_timers_disconnect [OF timers, of e]
    unfolding pool_ok_def
    by (auto simp: pool_refs_disconnect pool_bundles_disconnect pool_counts_disconnect)
      (auto simp: pool_timers_def pool_effects)
  show "pool_ok opts (idle_timer_fired opts e t s)"
    using stays again gone unfolding idle_timer_fired_def Let_def s1_def [symmetric] by simp
  show "pool_ledger s \<Longrightarrow> pool_ledger (idle_timer_fired opts e t s)"
    unfolding idle_timer_fired_def Let_def s1_def [symmetric]
    using e n led bundles by (simp add: schedule_keeps pool_ledger_disconnect)
qed

lemma disconnect_all_entry_ok:
  assumes ok: "pool_ok opts s" and e: "e < length (po_objects s)"
  shows "pool_ok opts (disconnect_all_entry e s)"
    and "length (po_objects (disconnect_all_entry e s)) = length (po_objects s)"
proof -
  let ?s = "disconnect_all_entry e s"
  have ent: "entry ?s e' =
      (if e' = e then (entry s e)\<lparr>pe_idleTimer := False\<rparr> else entry s e')" for e'
    using e by (simp add: disconnect_all_entry_def Let_def pool_effects split: option.split)
  have parts: "length (po_objects ?s) = length (po_objects s)" "po_calls ?s = po_calls s"
    "po_entries ?s = po_entries s" "po_evictions ?s = po_evictions s"
    "po_nextBundle ?s = po_nextBundle s"
    by (simp_all add: disconnect_all_entry_def Let_def pool_effects split: option.split)
  have log: "po_disconnected ?s =
      po_disconnected s @ (case pe_bundle (entry s e) of None \<Rightarrow> [] | Some b \<Rightarrow> [b])"
    using e by (simp add: disconnect_all_entry_def Let_def pool_effects split: option.split)
  have same: "pe_bundle (entry ?s e') = pe_bundle (entry s e')"
    "pe_creating (entry ?s e') = pe_creating (entry s e')" for e'
    using ent by simp_all
  show "length (po_objects ?s) = length (po_objects s)" by (rule parts(1))
  have "pool_refs ?s"
    using pool_okD(1) [OF ok] by (simp add: pool_refs_def pooled_def parts)
  moreover have "b < po_nextBundle s \<longleftrightarrow> b \<in> set (po_disconnected ?s) \<or>
      (\<exists>e' < length (po_objects s). pe_bundle (entry s e') = Some b)" for b
    using pool_okD(2) [OF ok] e
    by (cases "pe_bundle (entry s e)") (auto simp: pool_bundles_def log)
  then have "pool_bundles ?s"
    using pool_okD(2) [OF ok] by (simp add: pool_bundles_def parts same)
  moreover have "pool_counts ?s"
    using pool_okD(3) [OF ok] by (simp add: pool_counts_def parts ent)
  moreover have "pool_timers opts {} ?s"
    using pool_okD(4) [OF ok] by (auto simp: pool_timers_def parts ent log)
  ultimately show "pool_ok opts ?s" by (simp add: pool_ok_def)
qed

lemma disconnect_all_many:
  "set es \<subseteq> {..<length (po_objects s)} \<Longrightarrow> pool_ok opts s \<Longrightarrow>
   pool_ok opts (fold disconnect_all_entry es s)"
  by (induction es arbitrary: s) (auto simp: disconnect_all_entry_ok)

lemma disconnectAll_ok: "pool_ok opts s \<Longrightarrow> pool_ok opts (disconnectAll s)"
proof -
  assume ok: "pool_ok opts s"
  let ?s = "s\<lparr>po_entries := [], po_catalog := []\<rparr>"
  have ent: "entry ?s e = entry s e" for e by (simp add: entry_def)
  have "pool_ok opts ?s"
    using ok by (simp add: pool_ok_def pool_refs_def pool_bundles_def pool_counts_def
        pool_timers_def pooled_def ent)
  then show ?thesis
    using pool_okD(1) [OF ok] by (auto simp: disconnectAll_def pool_refs_def intro!: disconnect_all_many)
qed

lemma resume_ok:
  assumes ok: "pool_ok opts s"
  shows "pool_ok opts (pool_step opts s (EvResume k))"
    and "pool_ledger s \<Longrightarrow> pool_ledger (pool_step opts s (EvResume k))"
proof (atomize (full), cases "k < length (po_evictions s)")
  case k: True
  let ?s = "s\<lparr>po_evictions := take k (po_evictions s) @ drop (Suc k) (po_evictions s)\<rparr>"
  have "pool_ok opts ?s"
    using waiting_in_range [OF ok]
    by (intro pool_ok_evictions [OF ok]) (auto dest: in_set_takeD in_set_dropD)
  moreover have "set (po_evictions s ! k) \<subseteq> {..<length (po_objects ?s)}"
    using waiting_in_range [OF ok, of "po_evictions s ! k"] k by auto
  ultimately show "pool_ok opts (pool_step opts s (EvResume k)) \<and>
      (pool_ledger s \<longrightarrow> pool_ledger (pool_step opts s (EvResume k)))"
    using k by (simp add: evict_turn_ok evictions_only)
qed (simp add: ok)

lemma pool_step_ok: "pool_ok opts s \<Longrightarrow> pool_ok opts (pool_step opts s ev)"
  by (cases ev)
    (auto simp: start_call_ok ensureEntry_ok boot_succeeded_ok boot_failed_ok acquire_ok finish_ok
      idle_timer_ok disconnectAll_ok simp del: pool_step.simps(8) intro: resume_ok(1)
      split: option.split call_phase.split)

lemma pool_step_ledger:
  "pool_ok opts s \<Longrightarrow> pool_ledger s \<Longrightarrow> ev \<noteq> EvDisconnectAll \<Longrightarrow>
   pool_ledger (pool_step opts s ev)"
  by (cases ev)
    (auto simp: start_call_ok ensureEntry_ok boot_succeeded_ok boot_failed_ok acquire_ok finish_ok
      idle_timer_ok simp del: pool_step.simps(8) intro: resume_ok(2)
      split: option.split call_phase.split)

interpretation pool: machine "pool_step opts" empty_pool "pool_ok opts" for opts
  by unfold_locales (simp_all add: empty_pool_ok pool_step_ok)

lemma pool_ledger_run:
  assumes "EvDisconnectAll \<notin> set evs"
  shows "pool_ledger (run_events (pool_step opts) empty_pool evs)"
  using assms
proof (induction evs rule: rev_induct)
  case (snoc ev evs)
  then show ?case
    using pool_step_ledger [OF pool.inv_run] by (auto simp: run_events_append)
qed (simp add: empty_pool_ok)

section \<open>What the pool promises\<close>

definition held_bundles :: "warm_pool \<Rightarrow> nat list" where
  "held_bundles s = List.map_filter pe_bundle (po_objects s)"

lemma set_map_filter_nth:
  "x \<in> set (List.map_filter f xs) \<longleftrightarrow> (\<exists>i < length xs. f (xs ! i) = Some x)"
proof -
  have "x \<in> set (List.map_filter f xs) \<longleftrightarrow> Some x \<in> f ` set xs"
  proof (induction xs)
    case (Cons a xs)
    then show ?case by (cases "f a") (auto simp: map_filter_simps)
  qed (simp add: map_filter_simps)
  also have "\<dots> \<longleftrightarrow> (\<exists>i < length xs. f (xs ! i) = Some x)"
    by (auto simp: image_iff in_set_conv_nth) (metis nth_mem)
  finally show ?thesis .
qed

lemma distinct_map_filter_nth:
  assumes "\<And>i j x. i < length xs \<Longrightarrow> j < length xs \<Longrightarrow> f (xs ! i) = Some x \<Longrightarrow> f (xs ! j) = Some x \<Longrightarrow> i = j"
  shows "distinct (List.map_filter f xs)"
  using assms
proof (induction xs)
  case (Cons a xs)
  have "distinct (List.map_filter f xs)"
  proof (rule Cons.IH)
    fix i j x assume "i < length xs" "j < length xs" "f (xs ! i) = Some x" "f (xs ! j) = Some x"
    with Cons.prems [of "Suc i" "Suc j" x] show "i = j" by simp
  qed
  moreover have "x \<notin> set (List.map_filter f xs)" if "f a = Some x" for x
    using that Cons.prems [of 0 "Suc i" x for i] by (fastforce simp: set_map_filter_nth)
  ultimately show ?case by (cases "f a") (simp_all add: map_filter_simps)
qed (simp add: map_filter_simps)

lemma held_bundles_ok:
  assumes "pool_bundles s"
  shows "distinct (held_bundles s)"
    and "set (held_bundles s) \<union> set (po_disconnected s) = {..<po_nextBundle s}"
proof -
  have "\<forall>b. b < po_nextBundle s \<longleftrightarrow> b \<in> set (po_disconnected s) \<or> b \<in> set (held_bundles s)"
    using assms unfolding pool_bundles_def held_bundles_def entry_def set_map_filter_nth by simp
  then show "set (held_bundles s) \<union> set (po_disconnected s) = {..<po_nextBundle s}"
    by auto
  show "distinct (held_bundles s)"
    unfolding held_bundles_def
    by (rule distinct_map_filter_nth) (use assms in \<open>unfold pool_bundles_def entry_def, blast\<close>)
qed

lemma same_set_same_mset:
  assumes "distinct xs" and "set xs = set ys" and "distinct ys"
  shows "mset xs = mset ys"
  using assms(2) set_eq_iff_mset_eq_distinct [OF assms(1,3)] by simp

lemma held_bundles_ledger:
  assumes "pool_bundles s" and "pool_ledger s"
  shows "mset (held_bundles s) + mset (po_disconnected s) = mset [0..<po_nextBundle s]"
proof -
  have "set (held_bundles s) \<inter> set (po_disconnected s) = {}"
    using assms(2) unfolding pool_ledger_def held_bundles_def entry_def
    by (auto simp: set_map_filter_nth)
  then have d: "distinct (held_bundles s @ po_disconnected s)"
    using assms(2) held_bundles_ok(1) [OF assms(1)] by (simp add: pool_ledger_def)
  have "set (held_bundles s @ po_disconnected s) = set [0..<po_nextBundle s]"
    unfolding set_append set_upt atLeast0LessThan by (rule held_bundles_ok(2) [OF assms(1)])
  from same_set_same_mset [OF d this distinct_upt] show ?thesis
    unfolding mset_append .
qed

text \<open>C21: Whatever calls, boots, failures, timers, evictions and shutdowns do, in any order: every
  server process booted so far is held by exactly one pool entry or its disconnect was called;
  while nobody called \<open>disconnectAll\<close> the two exclude each other and no process is disconnected
  twice. An entry counts exactly the calls that run on it, and an idle process that is not pinned
  has its idle timer pending (or was disconnected), so none is left running for ever.\<close>

theorem pool_accounts_for_every_server:
  "let s = run_events (pool_step opts) empty_pool evs in
     distinct (held_bundles s) \<and>
     set (held_bundles s) \<union> set (po_disconnected s) = {..<po_nextBundle s} \<and>
     (EvDisconnectAll \<in> set evs \<or>
        mset (held_bundles s) + mset (po_disconnected s) = mset [0..<po_nextBundle s]) \<and>
     list_all (\<lambda>e. pe_activeCount (entry s e) = running e (po_calls s)) [0..<length (po_objects s)] \<and>
     list_all (\<lambda>x. pe_bundle x = None \<or> 0 < pe_activeCount x \<or>
          pe_server x \<in> set (op_pinnedServers opts) \<or> pe_idleTimer x \<or>
          the (pe_bundle x) \<in> set (po_disconnected s)) (po_objects s)"
proof -
  define s where "s = run_events (pool_step opts) empty_pool evs"
  have ok: "pool_ok opts s" unfolding s_def by (rule pool.inv_run)
  note b = held_bundles_ok [OF pool_okD(2) [OF ok]]
  have led: "EvDisconnectAll \<in> set evs \<or>
      mset (held_bundles s) + mset (po_disconnected s) = mset [0..<po_nextBundle s]"
    using held_bundles_ledger [OF pool_okD(2) [OF ok]] pool_ledger_run unfolding s_def by blast
  have counts: "list_all (\<lambda>e. pe_activeCount (entry s e) = running e (po_calls s))
      [0..<length (po_objects s)]"
    using pool_okD(3) [OF ok] by (simp add: pool_counts_def list_all_iff)
  have "list_all (\<lambda>x. pe_bundle x = None \<or> 0 < pe_activeCount x \<or>
      pe_server x \<in> set (op_pinnedServers opts) \<or> pe_idleTimer x \<or>
      the (pe_bundle x) \<in> set (po_disconnected s)) (po_objects s)"
    using pool_okD(4) [OF ok] unfolding list_all_length pool_timers_def entry_def by auto
  with b led counts show ?thesis unfolding s_def [symmetric] Let_def by blast
qed

text \<open>A new process that finds the pool full of processes in use or pinned is itself the only
  candidate for the overflow eviction that its own boot starts.\<close>

lemma sole_candidate:
  assumes "e \<in> set xs" and "\<And>x. x \<in> set xs \<Longrightarrow> P x \<longleftrightarrow> x = e"
  obtains es where "sort_key f (filter P xs) = e # es"
proof -
  have "set (sort_key f (filter P xs)) = {e}" using assms by auto
  then show ?thesis using that by (cases "sort_key f (filter P xs)") auto
qed

lemma length_filter_mono:
  assumes "\<And>x. P x \<Longrightarrow> Q x"
  shows "length (filter P xs) \<le> length (filter Q xs)"
  using assms by (induction xs) auto

lemma length_filter_gain:
  assumes "\<And>x. P x \<Longrightarrow> Q x" and "e \<in> set xs" and "Q e" and "\<not> P e"
  shows "length (filter P xs) < length (filter Q xs)"
  using assms(2)
proof (induction xs)
  case (Cons x xs)
  then show ?case
    using assms(1,3,4) length_filter_mono [of P Q xs] by (auto simp: less_Suc_eq_le)
qed simp

lemma warm_after_install:
  assumes "e \<in> set (pooled s)" and "e < length (po_objects s)" and "pe_bundle (entry s e) = None"
  shows "countWarmBundles s < countWarmBundles (install e t s)"
proof -
  have "pooled (install e t s) = pooled s" by (simp add: pooled_def install_effects)
  then show ?thesis
    unfolding countWarmBundles_def
    by (simp only:) (rule length_filter_gain [OF _ assms(1)]; use assms(2,3) in \<open>simp add: install_effects\<close>)
qed

lemma boot_into_full_pool:
  assumes e: "e < length (po_objects s)" "e \<in> set (pooled s)"
    and booting: "pe_creating (entry s e)" "pe_bundle (entry s e) = None"
      "pe_activeCount (entry s e) = 0" "pe_server (entry s e) \<notin> set (op_pinnedServers opts)"
    and full: "op_maxWarm opts \<le> countWarmBundles s"
    and busy: "\<And>x. x \<in> set (pooled s) \<Longrightarrow> x \<noteq> e \<Longrightarrow> \<not> evictable opts s x"
  shows "\<exists>es. boot_succeeded opts e t s =
    (let s1 = disconnectEntry e (scheduleIdleDisconnect opts e (install e t s)) in
     s1\<lparr>po_evictions := po_evictions s1 @ [es]\<rparr>)"
proof -
  let ?s = "scheduleIdleDisconnect opts e (install e t s)"
  have ent: "pe_bundle (entry ?s x) = pe_bundle (entry (install e t s) x)" for x
    using e by (simp add: pool_effects install_effects)
  have "op_maxWarm opts < countWarmBundles ?s"
    using full warm_after_install [OF e(2,1) booting(2), of t]
    by (simp add: countWarmBundles_def ent pooled_def schedule_parts)
  moreover have "evictable opts ?s x \<longleftrightarrow> x = e" if "x \<in> set (pooled s)" for x
    using that e booting busy [of x] by (auto simp: evictable_def pool_effects install_effects)
  then obtain es where
    "sort_key (\<lambda>e. pe_lastUsedAt (entry ?s e)) (filter (evictable opts ?s) (pooled s)) = e # es"
    by (rule sole_candidate [OF e(2)])
  ultimately show ?thesis
    by (auto simp: boot_succeeded_install evictOverflow_def evict_turn_def Let_def pooled_def
        schedule_parts install_effects)
qed

text \<open>When a server boots while \<open>maxWarm\<close> other processes are warm and all of them are pinned
  or running a call, the new process is disconnected in the very step that reports it, and the
  call that waited for it throws without running, so a pool full of pinned and busy processes
  serves no other server.\<close>

theorem full_pool_evicts_the_newcomer:
  assumes "e < length (po_objects s)" and "e \<in> set (pooled s)"
    and "pe_creating (entry s e)" and "pe_bundle (entry s e) = None"
    and "pe_activeCount (entry s e) = 0" and "pe_server (entry s e) \<notin> set (op_pinnedServers opts)"
    and "op_maxWarm opts \<le> countWarmBundles s"
    and "\<And>x. x \<in> set (pooled s) \<Longrightarrow> x \<noteq> e \<Longrightarrow> \<not> evictable opts s x"
    and "jm_get (po_calls s) c = Some (CpBooting e)"
  shows "let s1 = pool_step opts s (EvBooted e t); s2 = pool_step opts s1 (EvAcquire c t') in
     po_nextBundle s \<in> set (po_disconnected s1) \<and> pe_bundle (entry s1 e) = None \<and>
     jm_get (po_calls s1) c = Some (CpReady e) \<and> jm_get (po_calls s2) c = None"
proof -
  obtain es where boot: "boot_succeeded opts e t s =
      (let s1 = disconnectEntry e (scheduleIdleDisconnect opts e (install e t s)) in
       s1\<lparr>po_evictions := po_evictions s1 @ [es]\<rparr>)"
    using boot_into_full_pool [OF assms(1-8)] by blast
  define s1 where "s1 = pool_step opts s (EvBooted e t)"
  have s1: "s1 = boot_succeeded opts e t s" using assms(1,3) by (simp add: s1_def)
  have gone: "pe_bundle (entry s1 e) = None" "po_nextBundle s \<in> set (po_disconnected s1)"
    "jm_get (po_calls s1) c = Some (CpReady e)" "e < length (po_objects s1)"
    using assms(1,9) by (simp_all add: s1 boot Let_def pool_effects install_effects)
  have evict: "po_calls (evictOverflow opts x) = po_calls x" for x
    by (simp add: evictOverflow_def evict_turn_def Let_def pool_effects split: list.split)
  have "jm_get (po_calls (pool_step opts s1 (EvAcquire c t'))) c = None"
    using gone by (simp add: acquire_def Let_def pool_effects release_def evict end_call_def)
  with gone show ?thesis unfolding s1_def Let_def by blast
qed

text \<open>A call that is served: it starts, finds or boots its entry, and runs.\<close>

definition served_call :: "nat \<Rightarrow> mcp_server \<Rightarrow> nat \<Rightarrow> int \<Rightarrow> pool_event list" where
  "served_call c sv e t = [EvCall c sv None t, EvEnsure c t, EvBooted e t, EvAcquire c t]"

definition plain_options :: pool_options where
  "plain_options = default_pool_options (\<lambda>p. p)"

definition full_pool :: warm_pool where
  "full_pool = run_events (pool_step plain_options) empty_pool
     (served_call 0 SvMemory 0 1 @ [EvFinish 0 2] @ served_call 1 SvGit 1 3 @
      served_call 2 SvGithub 2 4 @ served_call 3 SvTavily 3 5 @
      [EvCall 4 SvSqlite None 6, EvEnsure 4 6])"

lemma full_pool_facts:
  "4 < length (po_objects full_pool)" "4 \<in> set (pooled full_pool)"
  "pe_creating (entry full_pool 4)" "pe_bundle (entry full_pool 4) = None"
  "pe_activeCount (entry full_pool 4) = 0"
  "pe_server (entry full_pool 4) \<notin> set (op_pinnedServers plain_options)"
  "op_maxWarm plain_options \<le> countWarmBundles full_pool"
  "list_all (\<lambda>x. x = 4 \<or> \<not> evictable plain_options full_pool x) (pooled full_pool)"
  "jm_get (po_calls full_pool) 4 = Some (CpBooting 4)"
  "po_nextBundle full_pool = 4"
  by code_simp+

theorem full_pool_evicts_the_newcomer_witness:
  "let s1 = pool_step plain_options full_pool (EvBooted 4 7);
       s2 = pool_step plain_options s1 (EvAcquire 4 8) in
     4 \<in> set (po_disconnected s1) \<and> jm_get (po_calls s2) 4 = None"
  using full_pool_evicts_the_newcomer [OF full_pool_facts(1-7) _ full_pool_facts(9), of 7 8]
    full_pool_facts(8)
  unfolding full_pool_facts(10) Let_def by (force simp: list_all_iff)

text \<open>An eviction that waits for a process to stop goes on with the candidates it chose before:
  if the pool is still too full when it resumes, it disconnects the next candidate even where a
  call has meanwhile been given that process, and the call goes on running on it.\<close>

theorem stale_eviction_stops_running_call:
  assumes "k < length (po_evictions s)" and "po_evictions s ! k = e # es"
    and "op_maxWarm opts < countWarmBundles s" and "e < length (po_objects s)"
    and "pe_bundle (entry s e) = Some b" and "jm_get (po_calls s) c = Some (CpRunning e)"
  shows "let s1 = pool_step opts s (EvResume k) in
     b \<in> set (po_disconnected s1) \<and> pe_bundle (entry s1 e) = None \<and>
     jm_get (po_calls s1) c = Some (CpRunning e)"
proof -
  let ?s = "s\<lparr>po_evictions := take k (po_evictions s) @ drop (Suc k) (po_evictions s)\<rparr>"
  have "countWarmBundles ?s = countWarmBundles s"
    by (simp add: countWarmBundles_def evictions_only pool_effects)
  with assms show ?thesis
    by (simp add: evict_turn_def Let_def pool_effects)
qed

text \<open>Five servers with room for four: the fifth boot evicts the first process and waits for it to
  stop. Meanwhile the four others are called again and the pinned server boots, so the pool is
  over its limit once more when the eviction resumes.\<close>

definition stale_pool :: warm_pool where
  "stale_pool = run_events (pool_step plain_options) empty_pool
     (served_call 0 SvGit 0 1 @ [EvFinish 0 2] @ served_call 1 SvGithub 1 3 @ [EvFinish 1 4] @
      served_call 2 SvTavily 2 5 @ [EvFinish 2 6] @ served_call 3 SvSqlite 3 7 @ [EvFinish 3 8] @
      served_call 4 SvHooks 4 9 @ served_call 5 SvGithub 1 10 @ served_call 6 SvTavily 2 11 @
      served_call 7 SvSqlite 3 12 @ [EvCall 8 SvMemory None 13, EvEnsure 8 13, EvBooted 5 14])"

lemma stale_pool_facts:
  "0 < length (po_evictions stale_pool)" "po_evictions stale_pool ! 0 = 1 # [2, 3, 4]"
  "op_maxWarm plain_options < countWarmBundles stale_pool" "1 < length (po_objects stale_pool)"
  "pe_bundle (entry stale_pool 1) = Some 1" "jm_get (po_calls stale_pool) 5 = Some (CpRunning 1)"
  by code_simp+

theorem stale_eviction_stops_running_call_witness:
  "let s1 = pool_step plain_options stale_pool (EvResume 0) in
     1 \<in> set (po_disconnected s1) \<and> pe_bundle (entry s1 1) = None \<and>
     jm_get (po_calls s1) 5 = Some (CpRunning 1)"
  by (rule stale_eviction_stops_running_call [OF stale_pool_facts])

end
