(* ===== verification/SessionStorage.thy ===== *)
theory SessionStorage
  imports SessionSchema
begin

text \<open>
  Persistence of the session (\<open>src/services/session/store.ts\<close> and
  \<open>src/store/plugins/tauriSessionStorage.ts\<close>). The main store is the Tauri store plugin, whose
  functions are a parameter (\<open>store_api\<close>): a file, and its copy in memory once it is open; the fallback is \<open>localStorage\<close>. What fails during a call
  is an argument. JSON text is represented by the value it parses to, or by \<open>None\<close> when it does
  not parse.
\<close>

section \<open>The session service\<close>

record session_io =
  io_load :: bool
  io_access :: bool
  io_save :: bool
  io_window :: bool
  io_write :: bool

text \<open>The Tauri store plugin, a parameter: what opening reads from the file, the key \<open>session-snapshot\<close>
  of the copy in memory, and what \<open>save\<close> puts into the file.\<close>

record ('m, 'f) store_api =
  st_open :: "'f \<Rightarrow> 'm"
  st_get :: "'m \<Rightarrow> json_value option"
  st_set :: "json_value \<Rightarrow> 'm \<Rightarrow> 'm"
  st_delete :: "'m \<Rightarrow> 'm"
  st_save :: "'m \<Rightarrow> 'f"

definition store_laws :: "('m, 'f) store_api \<Rightarrow> bool" where
  "store_laws api \<longleftrightarrow>
     (\<forall>v m. st_get api (st_set api v m) = Some v) \<and> (\<forall>m. st_get api (st_delete api m) = None) \<and>
     (\<forall>m. st_get api (st_open api (st_save api m)) = st_get api m)"

record ('m, 'f) session_disk =
  ss_memory :: "'m option"
  ss_file :: 'f
  ss_fallback :: "json_value option option"

datatype session_error = SessionValidationFailed | SessionPersistFailed

text \<open>\<open>getStore\<close>: a failed load is not cached.\<close>

definition getStore ::
    "('m, 'f) store_api \<Rightarrow> session_io \<Rightarrow> ('m, 'f) session_disk \<Rightarrow> 'm option \<times> ('m, 'f) session_disk" where
  "getStore api io s =
     (case ss_memory s of
        Some m \<Rightarrow> (Some m, s)
      | None \<Rightarrow>
          (if io_load io
           then (let m = st_open api (ss_file s) in (Some m, s\<lparr>ss_memory := Some m\<rparr>))
           else (None, s)))"

definition readFallbackSnapshot :: "session_io \<Rightarrow> ('m, 'f) session_disk \<Rightarrow> json_value option" where
  "readFallbackSnapshot io s =
     (if \<not> io_window io then None
      else case ss_fallback s of None \<Rightarrow> None | Some txt \<Rightarrow> txt)"

definition writeFallbackSnapshot ::
    "session_io \<Rightarrow> session_snapshot \<Rightarrow> ('m, 'f) session_disk \<Rightarrow> bool \<times> ('m, 'f) session_disk" where
  "writeFallbackSnapshot io snap s =
     (if io_window io \<and> io_write io then (True, s\<lparr>ss_fallback := Some (Some (snapshot_json snap))\<rparr>)
      else (False, s))"

definition clearFallbackSnapshot :: "session_io \<Rightarrow> ('m, 'f) session_disk \<Rightarrow> ('m, 'f) session_disk" where
  "clearFallbackSnapshot io s = (if io_window io then s\<lparr>ss_fallback := None\<rparr> else s)"

definition migrate_snapshot :: "json_value \<Rightarrow> json_value option" where
  "migrate_snapshot raw =
     (case raw of
        JObj fs \<Rightarrow> (if jfield fs ''schemaVersion'' = JInt 1 then Some raw else None)
      | _ \<Rightarrow> None)"

definition validateRawSnapshot :: "(ustr \<Rightarrow> bool) \<Rightarrow> json_value \<Rightarrow> session_snapshot option" where
  "validateRawSnapshot isdt raw =
     (case migrate_snapshot raw of None \<Rightarrow> None | Some v \<Rightarrow> sessionSnapshotSchema isdt v)"

definition validate_value :: "(ustr \<Rightarrow> bool) \<Rightarrow> json_value option \<Rightarrow> session_snapshot option" where
  "validate_value isdt v =
     (case v of None \<Rightarrow> None | Some raw \<Rightarrow> (if raw = JNull then None else validateRawSnapshot isdt raw))"

definition loadSession ::
    "('m, 'f) store_api \<Rightarrow> (ustr \<Rightarrow> bool) \<Rightarrow> session_io \<Rightarrow> ('m, 'f) session_disk \<Rightarrow>
     session_snapshot option \<times> ('m, 'f) session_disk" where
  "loadSession api isdt io s =
     (let (store, s1) = getStore api io s in
      case (if io_access io then store else None) of
        Some m \<Rightarrow> (validate_value isdt (st_get api m), s1)
      | None \<Rightarrow> (validate_value isdt (readFallbackSnapshot io s1), s1))"

text \<open>Writing the main store: \<open>set\<close> or \<open>delete\<close> changes the copy in memory, \<open>save\<close> the file.\<close>

definition write_main ::
    "('m, 'f) store_api \<Rightarrow> session_io \<Rightarrow> ('m \<Rightarrow> 'm) \<Rightarrow> ('m, 'f) session_disk \<Rightarrow>
     bool \<times> ('m, 'f) session_disk" where
  "write_main api io change s =
     (let (store, s1) = getStore api io s in
      case (if io_access io then store else None) of
        None \<Rightarrow> (False, s1)
      | Some m \<Rightarrow>
          (let s2 = s1\<lparr>ss_memory := Some (change m)\<rparr> in
           if io_save io then (True, s2\<lparr>ss_file := st_save api (change m)\<rparr>) else (False, s2)))"

definition saveSession ::
    "('m, 'f) store_api \<Rightarrow> (ustr \<Rightarrow> bool) \<Rightarrow> session_io \<Rightarrow> json_value \<Rightarrow>
     (('m, 'f) session_disk, session_error, unit) fallible" where
  "saveSession api isdt io raw s =
     (case sessionSnapshotSchema isdt raw of
        None \<Rightarrow> (Inl SessionValidationFailed, s)
      | Some snap \<Rightarrow>
          (let (stored, s1) = write_main api io (st_set api (snapshot_json snap)) s;
               (mirrored, s2) = writeFallbackSnapshot io snap s1
           in if stored \<or> mirrored then (Inr (), s2) else (Inl SessionPersistFailed, s2)))"

definition clearSession ::
    "('m, 'f) store_api \<Rightarrow> session_io \<Rightarrow> ('m, 'f) session_disk \<Rightarrow> ('m, 'f) session_disk" where
  "clearSession api io s = clearFallbackSnapshot io (snd (write_main api io (st_delete api) s))"

text \<open>A new process starts with the file and the fallback.\<close>

definition restart :: "('m, 'f) session_disk \<Rightarrow> ('m, 'f) session_disk" where
  "restart s = s\<lparr>ss_memory := None\<rparr>"

definition main_reads :: "session_io \<Rightarrow> ('m, 'f) session_disk \<Rightarrow> bool" where
  "main_reads io s \<longleftrightarrow> (ss_memory s \<noteq> None \<or> io_load io) \<and> io_access io"

definition main_writes :: "session_io \<Rightarrow> ('m, 'f) session_disk \<Rightarrow> bool" where
  "main_writes io s \<longleftrightarrow> main_reads io s \<and> io_save io"

text \<open>What the main store holds: the copy in memory, once it is open.\<close>

definition main_value :: "('m, 'f) store_api \<Rightarrow> ('m, 'f) session_disk \<Rightarrow> json_value option" where
  "main_value api s =
     st_get api (case ss_memory s of Some m \<Rightarrow> m | None \<Rightarrow> st_open api (ss_file s))"

section \<open>What was saved comes back\<close>

lemma migrate_snapshot_json: "migrate_snapshot (snapshot_json snap) = Some (snapshot_json snap)"
  by (simp add: migrate_snapshot_def snapshot_json_def jfield_def)

lemma snapshot_json_not_null: "snapshot_json snap \<noteq> JNull"
  by (simp add: snapshot_json_def)

lemma validate_snapshot_json:
  "snapshot_valid isdt snap \<Longrightarrow> validate_value isdt (Some (snapshot_json snap)) = Some snap"
  by (simp add: validate_value_def snapshot_json_not_null validateRawSnapshot_def
      migrate_snapshot_json snapshot_round_trip)

lemma load_main:
  "main_reads io s \<Longrightarrow> fst (loadSession api isdt io s) = validate_value isdt (main_value api s)"
  by (auto simp: loadSession_def getStore_def main_reads_def main_value_def Let_def split: option.split)

lemma load_fallback:
  "\<not> main_reads io s \<Longrightarrow> fst (loadSession api isdt io s) =
     validate_value isdt (if io_window io then (case ss_fallback s of None \<Rightarrow> None | Some txt \<Rightarrow> txt) else None)"
  by (auto simp: loadSession_def getStore_def main_reads_def Let_def readFallbackSnapshot_def
      split: option.split)

lemma write_main_result:
  assumes "store_laws api" and "\<And>m. st_get api (change m) = v"
    and "(ok, t) = write_main api io change s"
  shows "ok \<longleftrightarrow> main_writes io s"
    and "main_writes io s \<Longrightarrow> main_value api t = v \<and> main_value api (restart t) = v"
    and "\<not> main_writes io s \<Longrightarrow> main_value api (restart t) = main_value api (restart s)"
    and "ss_fallback t = ss_fallback s"
  using assms
  by (auto simp: write_main_def getStore_def main_writes_def main_reads_def main_value_def
      restart_def store_laws_def Let_def split: if_splits option.splits)

lemma restart_fallback [simp]: "ss_fallback (restart s) = ss_fallback s"
  by (simp add: restart_def)

lemma main_value_fallback [simp]:
  "main_value api (s\<lparr>ss_fallback := f\<rparr>) = main_value api s"
  "main_value api (restart (s\<lparr>ss_fallback := f\<rparr>)) = main_value api (restart s)"
  by (simp_all add: main_value_def restart_def split: option.split)

lemma save_result:
  assumes "store_laws api" and "snapshot_valid isdt snap"
    and "saveSession api isdt io (snapshot_json snap) s = (r, t)"
  shows "main_writes io s \<Longrightarrow> r = Inr () \<and> main_value api t = Some (snapshot_json snap) \<and>
      main_value api (restart t) = Some (snapshot_json snap)"
    and "\<not> main_writes io s \<Longrightarrow> main_value api (restart t) = main_value api (restart s)"
    and "io_window io \<and> io_write io \<Longrightarrow> ss_fallback t = Some (Some (snapshot_json snap))"
proof -
  obtain ok s1 where w: "(ok, s1) = write_main api io (st_set api (snapshot_json snap)) s"
    by (metis surj_pair)
  have "\<And>m. st_get api (st_set api (snapshot_json snap) m) = Some (snapshot_json snap)"
    using assms(1) by (simp add: store_laws_def)
  note wr = write_main_result [OF assms(1) this w]
  have sv: "saveSession api isdt io (snapshot_json snap) s =
     (let (mirrored, s2) = writeFallbackSnapshot io snap s1
      in if ok \<or> mirrored then (Inr (), s2) else (Inl SessionPersistFailed, s2))"
    by (simp add: saveSession_def snapshot_round_trip [OF assms(2)] w [symmetric])
  show "main_writes io s \<Longrightarrow> r = Inr () \<and> main_value api t = Some (snapshot_json snap) \<and>
      main_value api (restart t) = Some (snapshot_json snap)"
    using sv assms(3) wr by (auto simp: writeFallbackSnapshot_def split: if_splits)
  show "\<not> main_writes io s \<Longrightarrow> main_value api (restart t) = main_value api (restart s)"
    using sv assms(3) wr by (auto simp: writeFallbackSnapshot_def split: if_splits)
  show "io_window io \<and> io_write io \<Longrightarrow> ss_fallback t = Some (Some (snapshot_json snap))"
    using sv assms(3) by (auto simp: writeFallbackSnapshot_def split: if_splits)
qed

lemma clear_result:
  assumes "store_laws api" and "main_writes io s"
  shows "main_value api (clearSession api io s) = None"
    "main_value api (restart (clearSession api io s)) = None"
proof -
  obtain ok s1 where w: "(ok, s1) = write_main api io (st_delete api) s" by (metis surj_pair)
  have "\<And>m. st_get api (st_delete api m) = None" using assms(1) by (simp add: store_laws_def)
  note wr = write_main_result [OF assms(1) this w]
  show "main_value api (clearSession api io s) = None"
    "main_value api (restart (clearSession api io s)) = None"
    using wr(2) assms(2) by (simp_all add: clearSession_def w [symmetric] clearFallbackSnapshot_def)
qed

text \<open>C34: A save that reports success is found by the next load, in the same process or after a restart,
  whenever the load reads a store the save could write: the main store if it works both times, and
  the fallback if the main store cannot be read and the fallback was reachable both times.\<close>

theorem saved_session_comes_back:
  assumes "store_laws api" and "snapshot_valid isdt snap"
    and "saveSession api isdt io (snapshot_json snap) s = (Inr (), t)"
    and "t' = (if again then restart t else t)"
    and "if main_reads io' t' then main_writes io s
         else io_window io \<and> io_write io \<and> io_window io'"
  shows "fst (loadSession api isdt io' t') = Some snap"
proof (cases "main_reads io' t'")
  case True
  with assms(5) save_result(1) [OF assms(1-3)]
  have "main_value api t' = Some (snapshot_json snap)" by (simp add: assms(4))
  then show ?thesis by (simp add: load_main [OF True] validate_snapshot_json [OF assms(2)])
next
  case False
  with assms(5) save_result(3) [OF assms(1-3)]
  have "ss_fallback t' = Some (Some (snapshot_json snap))" "io_window io'" by (simp_all add: assms(4))
  then show ?thesis by (simp add: load_fallback [OF False] validate_snapshot_json [OF assms(2)])
qed

definition small_snapshot :: session_snapshot where
  "small_snapshot = \<lparr>sn_workspaceRoot = Some [47], sn_openTabs = [], sn_activeTabPath = None,
     sn_viewStates = [], sn_workbench = default_workbench, sn_recentWorkspaces = [],
     sn_recentFiles = [[47, 97]], sn_savedAt = [48]\<rparr>"

lemma small_snapshot_valid: "snapshot_valid (\<lambda>s. s \<noteq> []) small_snapshot"
  by (simp add: snapshot_valid_def small_snapshot_def default_workbench_valid MAX_FILES_def)

definition all_works :: session_io where
  "all_works = \<lparr>io_load = True, io_access = True, io_save = True, io_window = True, io_write = True\<rparr>"

definition main_down :: session_io where
  "main_down = \<lparr>io_load = False, io_access = False, io_save = False, io_window = True, io_write = True\<rparr>"

definition plain_store :: "(json_value option, json_value option) store_api" where
  "plain_store = \<lparr>st_open = (\<lambda>f. f), st_get = (\<lambda>m. m), st_set = (\<lambda>v m. Some v),
     st_delete = (\<lambda>m. None), st_save = (\<lambda>m. m)\<rparr>"

definition fresh_disk :: "(json_value option, json_value option) session_disk" where
  "fresh_disk = \<lparr>ss_memory = None, ss_file = None, ss_fallback = None\<rparr>"

lemma plain_store_laws: "store_laws plain_store"
  by (simp add: store_laws_def plain_store_def)

lemma io_facts:
  "main_reads all_works s" "main_writes all_works s" "\<not> main_reads main_down (restart s)"
  "\<not> main_writes main_down fresh_disk" "io_window all_works" "io_write all_works" "io_window main_down"
  by (simp_all add: main_writes_def main_reads_def all_works_def main_down_def restart_def fresh_disk_def)

lemma save_small:
  "\<exists>t. saveSession plain_store (\<lambda>s. s \<noteq> []) io (snapshot_json small_snapshot) s = (Inr (), t)"
  if "io_window io" "io_write io"
  using that by (auto simp: saveSession_def snapshot_round_trip [OF small_snapshot_valid]
      writeFallbackSnapshot_def Let_def split: prod.split)

theorem saved_session_comes_back_witness:
  "let t = snd (saveSession plain_store (\<lambda>s. s \<noteq> []) all_works (snapshot_json small_snapshot) fresh_disk) in
   fst (loadSession plain_store (\<lambda>s. s \<noteq> []) all_works (restart t)) = Some small_snapshot \<and>
   fst (loadSession plain_store (\<lambda>s. s \<noteq> []) main_down (restart t)) = Some small_snapshot"
proof -
  obtain t where t: "saveSession plain_store (\<lambda>s. s \<noteq> []) all_works (snapshot_json small_snapshot) fresh_disk = (Inr (), t)"
    using save_small io_facts by blast
  show ?thesis
    using saved_session_comes_back [OF plain_store_laws small_snapshot_valid t, of "restart t" True all_works]
      saved_session_comes_back [OF plain_store_laws small_snapshot_valid t, of "restart t" True main_down]
    by (simp add: t io_facts)
qed

text \<open>When the main store cannot be written, \<open>saveSession\<close> still reports success once the fallback
  took the snapshot; but after a restart with the main store back, the load returns what the main
  store held before: the saved session is lost.\<close>

theorem fallback_save_is_shadowed:
  assumes "store_laws api" and "snapshot_valid isdt snap"
    and "saveSession api isdt io (snapshot_json snap) s = (Inr (), t)"
    and "\<not> main_writes io s" and "main_reads io' (restart t)"
  shows "fst (loadSession api isdt io' (restart t)) = fst (loadSession api isdt io' (restart s))"
proof -
  have "main_reads io' (restart s)" using assms(5) by (simp add: main_reads_def restart_def)
  with save_result(2) [OF assms(1-4)] assms(5) show ?thesis by (simp add: load_main)
qed

theorem fallback_save_is_shadowed_witness:
  "let t = snd (saveSession plain_store (\<lambda>s. s \<noteq> []) main_down (snapshot_json small_snapshot) fresh_disk) in
   fst (loadSession plain_store (\<lambda>s. s \<noteq> []) all_works (restart t)) = None"
proof -
  obtain t where t: "saveSession plain_store (\<lambda>s. s \<noteq> []) main_down (snapshot_json small_snapshot) fresh_disk = (Inr (), t)"
    using save_small by (fastforce simp: main_down_def)
  have "fst (loadSession plain_store (\<lambda>s. s \<noteq> []) all_works (restart fresh_disk)) = None"
    by (simp add: load_main io_facts main_value_def restart_def fresh_disk_def plain_store_def validate_value_def)
  with fallback_save_is_shadowed [OF plain_store_laws small_snapshot_valid t io_facts(4) io_facts(1)]
  show ?thesis by (simp add: t)
qed

end
