(* ===== verification/SessionPlugin.thy ===== *)
theory SessionPlugin
  imports SessionStorage
begin

text \<open>
  The storage adapter the editor store is persisted with
  (\<open>src/store/plugins/tauriSessionStorage.ts\<close>): the cached snapshot, the timer of the debounced save
  and the queue that runs one save or clear at a time, over the session service of
  \<open>SessionStorage\<close>. \<open>last_request\<close> is its specification: the file ends up with what was last asked.
\<close>

section \<open>The adapter\<close>

datatype persist_op = SaveSnapshot session_snapshot | ClearSnapshot

record ('m, 'f) plugin =
  pl_cache :: "session_snapshot option"
  pl_ready :: bool
  pl_timer :: "session_snapshot option"
  pl_queue :: "persist_op list"
  pl_disk :: "('m, 'f) session_disk"

definition EDITOR_SESSION_KEY :: string where
  "EDITOR_SESSION_KEY = ''shell-ide:editor''"

definition start_process :: "('m, 'f) session_disk \<Rightarrow> ('m, 'f) plugin" where
  "start_process d = \<lparr>pl_cache = None, pl_ready = False, pl_timer = None, pl_queue = [],
     pl_disk = restart d\<rparr>"

definition persistedEditorStoreSchema :: "(ustr \<Rightarrow> bool) \<Rightarrow> json_value \<Rightarrow> session_snapshot option" where
  "persistedEditorStoreSchema isdt v = do {
     fs \<leftarrow> zobject v;
     sessionSnapshotSchema isdt (jfield fs ''sessionSnapshot'') }"

definition enqueuePersistOperation :: "persist_op \<Rightarrow> ('m, 'f) plugin \<Rightarrow> ('m, 'f) plugin" where
  "enqueuePersistOperation op p = p\<lparr>pl_queue := pl_queue p @ [op]\<rparr>"

definition clearSaveTimer :: "('m, 'f) plugin \<Rightarrow> ('m, 'f) plugin" where
  "clearSaveTimer p = p\<lparr>pl_timer := None\<rparr>"

definition schedulePersist :: "session_snapshot \<Rightarrow> ('m, 'f) plugin \<Rightarrow> ('m, 'f) plugin" where
  "schedulePersist snap p = (clearSaveTimer p)\<lparr>pl_timer := Some snap\<rparr>"

text \<open>The callback of the timer, and the operation at the head of the queue, whose errors are logged.\<close>

definition timer_fires :: "('m, 'f) plugin \<Rightarrow> ('m, 'f) plugin" where
  "timer_fires p =
     (case pl_timer p of
        None \<Rightarrow> p
      | Some snap \<Rightarrow> enqueuePersistOperation (SaveSnapshot snap) (p\<lparr>pl_timer := None\<rparr>))"

definition run_persist_op ::
    "('m, 'f) store_api \<Rightarrow> (ustr \<Rightarrow> bool) \<Rightarrow> session_io \<Rightarrow> persist_op \<Rightarrow>
     ('m, 'f) session_disk \<Rightarrow> ('m, 'f) session_disk" where
  "run_persist_op api isdt io op d =
     (case op of
        SaveSnapshot snap \<Rightarrow> snd (saveSession api isdt io (snapshot_json snap) d)
      | ClearSnapshot \<Rightarrow> clearSession api io d)"

definition queue_runs ::
    "('m, 'f) store_api \<Rightarrow> (ustr \<Rightarrow> bool) \<Rightarrow> session_io \<Rightarrow> ('m, 'f) plugin \<Rightarrow> ('m, 'f) plugin" where
  "queue_runs api isdt io p =
     (case pl_queue p of
        [] \<Rightarrow> p
      | op # ops \<Rightarrow> p\<lparr>pl_queue := ops, pl_disk := run_persist_op api isdt io op (pl_disk p)\<rparr>)"

datatype hydrate_status = HydrateLoaded | HydrateEmpty | HydrateTimeout

text \<open>\<open>hydrateSessionStorage\<close>: \<open>in_time\<close> says whether the load resolves before the timeout.\<close>

definition hydrateSessionStorage ::
    "('m, 'f) store_api \<Rightarrow> (ustr \<Rightarrow> bool) \<Rightarrow> session_io \<Rightarrow> bool \<Rightarrow> ('m, 'f) plugin \<Rightarrow>
     hydrate_status \<times> ('m, 'f) plugin" where
  "hydrateSessionStorage api isdt io in_time p =
     (let (result, d) = loadSession api isdt io (pl_disk p);
          q = p\<lparr>pl_ready := True, pl_disk := d\<rparr>
      in if \<not> in_time then (HydrateTimeout, q\<lparr>pl_cache := None\<rparr>)
         else ((if result = None then HydrateEmpty else HydrateLoaded), q\<lparr>pl_cache := result\<rparr>))"

definition plugin_getItem :: "string \<Rightarrow> ('m, 'f) plugin \<Rightarrow> json_value option" where
  "plugin_getItem key p =
     (if \<not> pl_ready p \<or> key \<noteq> EDITOR_SESSION_KEY then None
      else case pl_cache p of
        None \<Rightarrow> None
      | Some snap \<Rightarrow> Some (JObj [(''sessionSnapshot'', snapshot_json snap)]))"

definition plugin_setItem ::
    "(ustr \<Rightarrow> bool) \<Rightarrow> string \<Rightarrow> json_value option \<Rightarrow> ('m, 'f) plugin \<Rightarrow> ('m, 'f) plugin" where
  "plugin_setItem isdt key value p =
     (if key \<noteq> EDITOR_SESSION_KEY then p
      else case Option.bind value (persistedEditorStoreSchema isdt) of
        None \<Rightarrow> p
      | Some snap \<Rightarrow> schedulePersist snap (p\<lparr>pl_cache := Some snap\<rparr>))"

definition plugin_removeItem :: "string \<Rightarrow> ('m, 'f) plugin \<Rightarrow> ('m, 'f) plugin" where
  "plugin_removeItem key p =
     (if key \<noteq> EDITOR_SESSION_KEY then p
      else enqueuePersistOperation ClearSnapshot ((clearSaveTimer p)\<lparr>pl_cache := None\<rparr>))"

datatype plugin_event =
  Hydrate session_io bool
  | SetItem string "json_value option"
  | RemoveItem string
  | TimerFires
  | QueueRuns session_io

fun plugin_step ::
    "('m, 'f) store_api \<Rightarrow> (ustr \<Rightarrow> bool) \<Rightarrow> ('m, 'f) plugin \<Rightarrow> plugin_event \<Rightarrow> ('m, 'f) plugin" where
  "plugin_step api isdt p (Hydrate io in_time) = snd (hydrateSessionStorage api isdt io in_time p)"
| "plugin_step api isdt p (SetItem key value) = plugin_setItem isdt key value p"
| "plugin_step api isdt p (RemoveItem key) = plugin_removeItem key p"
| "plugin_step api isdt p TimerFires = timer_fires p"
| "plugin_step api isdt p (QueueRuns io) = queue_runs api isdt io p"

section \<open>What was last asked for\<close>

fun last_request :: "(ustr \<Rightarrow> bool) \<Rightarrow> json_value option \<Rightarrow> plugin_event \<Rightarrow> json_value option" where
  "last_request isdt v (SetItem key value) =
     (if key \<noteq> EDITOR_SESSION_KEY then v
      else case Option.bind value (persistedEditorStoreSchema isdt) of
        None \<Rightarrow> v | Some snap \<Rightarrow> Some (snapshot_json snap))"
| "last_request isdt v (RemoveItem key) = (if key \<noteq> EDITOR_SESSION_KEY then v else None)"
| "last_request isdt v _ = v"

fun store_works :: "plugin_event \<Rightarrow> bool" where
  "store_works (QueueRuns io) = (io_load io \<and> io_access io \<and> io_save io)"
| "store_works _ = True"

fun requested_by :: "persist_op \<Rightarrow> json_value option \<Rightarrow> json_value option" where
  "requested_by (SaveSnapshot snap) v = Some (snapshot_json snap)"
| "requested_by ClearSnapshot v = None"

definition stored_value :: "('m, 'f) store_api \<Rightarrow> ('m, 'f) plugin \<Rightarrow> json_value option" where
  "stored_value api p = main_value api (restart (pl_disk p))"

definition eventual :: "('m, 'f) store_api \<Rightarrow> ('m, 'f) plugin \<Rightarrow> json_value option" where
  "eventual api p =
     (case pl_timer p of
        Some snap \<Rightarrow> Some (snapshot_json snap)
      | None \<Rightarrow> fold requested_by (pl_queue p) (stored_value api p))"

fun op_valid :: "(ustr \<Rightarrow> bool) \<Rightarrow> persist_op \<Rightarrow> bool" where
  "op_valid isdt (SaveSnapshot snap) = snapshot_valid isdt snap"
| "op_valid isdt ClearSnapshot = True"

definition plugin_valid :: "(ustr \<Rightarrow> bool) \<Rightarrow> ('m, 'f) plugin \<Rightarrow> bool" where
  "plugin_valid isdt p \<longleftrightarrow>
     opt_all (snapshot_valid isdt) (pl_timer p) \<and> list_all (op_valid isdt) (pl_queue p)"

lemma schema_snapshot_valid:
  "persistedEditorStoreSchema isdt v = Some snap \<Longrightarrow> snapshot_valid isdt snap"
  by (auto simp: persistedEditorStoreSchema_def bind_eq_Some_conv dest: snapshot_schema_valid)

lemma load_keeps_disk:
  "main_value api (restart (snd (loadSession api isdt io d))) = main_value api (restart d)"
  by (simp add: loadSession_def getStore_def main_value_def restart_def Let_def split: option.split)

lemma plugin_step_valid:
  "plugin_valid isdt p \<Longrightarrow> plugin_valid isdt (plugin_step api isdt p c)"
  by (cases c) (auto simp: plugin_valid_def hydrateSessionStorage_def plugin_setItem_def
      plugin_removeItem_def schedulePersist_def clearSaveTimer_def enqueuePersistOperation_def
      timer_fires_def queue_runs_def opt_all_def Let_def bind_eq_Some_conv
      intro: schema_snapshot_valid split: option.splits list.splits prod.splits)

lemma run_op_stored:
  assumes "store_laws api" and "op_valid isdt op" and "main_writes io d"
  shows "main_value api (restart (run_persist_op api isdt io op d)) = requested_by op v"
proof (cases op)
  case (SaveSnapshot snap)
  obtain r t where "saveSession api isdt io (snapshot_json snap) d = (r, t)" by (metis surj_pair)
  with save_result(1) [OF assms(1) _ this assms(3)] assms(2) SaveSnapshot show ?thesis
    by (simp add: run_persist_op_def)
qed (use clear_result [OF assms(1,3)] in \<open>simp add: run_persist_op_def\<close>)

lemma queue_step_eventual:
  assumes "store_laws api" and "plugin_valid isdt p" and "io_load io" "io_access io" "io_save io"
  shows "eventual api (queue_runs api isdt io p) = eventual api p"
proof (cases "pl_queue p")
  case (Cons op ops)
  have "main_writes io (pl_disk p)" using assms(3-5) by (simp add: main_writes_def main_reads_def)
  with run_op_stored [OF assms(1), of isdt op io "pl_disk p"] assms(2) Cons
  show ?thesis by (simp add: queue_runs_def eventual_def stored_value_def plugin_valid_def split: option.split)
qed (simp add: queue_runs_def)

lemma plugin_step_eventual:
  assumes "store_laws api" and "plugin_valid isdt p" and "store_works c"
  shows "eventual api (plugin_step api isdt p c) = last_request isdt (eventual api p) c"
proof (cases c)
  case (QueueRuns io)
  with queue_step_eventual [OF assms(1,2)] assms(3) show ?thesis by simp
next
  case (Hydrate io in_time)
  then show ?thesis
    using load_keeps_disk [of api isdt io "pl_disk p"]
    by (cases "loadSession api isdt io (pl_disk p)")
      (auto simp: hydrateSessionStorage_def eventual_def stored_value_def Let_def split: option.split)
qed (auto simp: plugin_setItem_def plugin_removeItem_def schedulePersist_def clearSaveTimer_def
    enqueuePersistOperation_def timer_fires_def eventual_def stored_value_def split: option.split)

lemma plugin_run_eventual:
  assumes "store_laws api" and "plugin_valid isdt p" and "list_all store_works cs"
  shows "plugin_valid isdt (run_events (plugin_step api isdt) p cs) \<and>
    eventual api (run_events (plugin_step api isdt) p cs) = foldl (last_request isdt) (eventual api p) cs"
  using assms(2,3)
  by (induction cs arbitrary: p) (simp_all add: plugin_step_valid plugin_step_eventual [OF assms(1)])

section \<open>The last request is what the file holds\<close>

text \<open>The debounce has passed and the queue has run dry.\<close>

definition settle :: "session_io \<Rightarrow> ('m, 'f) plugin \<Rightarrow> plugin_event list" where
  "settle io p = TimerFires # replicate (Suc (length (pl_queue p))) (QueueRuns io)"

lemma queue_drains:
  "pl_timer p = None \<Longrightarrow> length (pl_queue p) \<le> n \<Longrightarrow>
   (let q = run_events (plugin_step api isdt) p (replicate n (QueueRuns io)) in
      pl_timer q = None \<and> pl_queue q = [])"
proof (induction n arbitrary: p)
  case (Suc n)
  then show ?case
    using Suc.IH [of "queue_runs api isdt io p"]
    by (cases "pl_queue p") (auto simp: queue_runs_def Let_def)
qed simp

lemma settle_quiet:
  "let q = run_events (plugin_step api isdt) p (settle io p) in pl_timer q = None \<and> pl_queue q = []"
  using queue_drains [of "timer_fires p" "Suc (length (pl_queue p))" api isdt io]
  by (simp add: settle_def timer_fires_def enqueuePersistOperation_def split: option.splits)

lemma start_eventual: "eventual api (start_process d) = main_value api (restart d)"
  by (simp add: eventual_def start_process_def stored_value_def restart_def)

lemma start_valid: "plugin_valid isdt (start_process d)"
  by (simp add: plugin_valid_def start_process_def opt_all_def)

lemma settle_requests: "foldl (last_request isdt) v (settle io p) = v"
proof -
  have "foldl (last_request isdt) v (replicate n (QueueRuns io)) = v" for n by (induction n) simp_all
  then show ?thesis by (simp add: settle_def)
qed

lemma settle_works: "io_load io \<Longrightarrow> io_access io \<Longrightarrow> io_save io \<Longrightarrow> list_all store_works (settle io p)"
  by (simp add: settle_def list_all_iff)

text \<open>C11: Whatever the adapter is asked in any order -- hydrating, valid and invalid saves, removals, timers
  that fire between them, saves and clears running late -- with a store that works, once the debounce
  has passed and the queue has drained, the file holds the snapshot of the last accepted save, or
  nothing if a removal came after it, or what it held before: no late save brings back a removed
  session or overwrites a newer one.\<close>

theorem last_request_is_stored:
  assumes "store_laws api" and "list_all store_works events"
    and "io_load io" "io_access io" "io_save io"
    and "p = run_events (plugin_step api isdt) (start_process d) events"
    and "q = run_events (plugin_step api isdt) p (settle io p)"
  shows "pl_timer q = None \<and> pl_queue q = [] \<and>
    main_value api (restart (pl_disk q)) =
      foldl (last_request isdt) (main_value api (restart d)) events"
proof -
  note run = plugin_run_eventual [OF assms(1)]
  from run [OF start_valid [of isdt d] assms(2)] assms(6) have "plugin_valid isdt p"
    "eventual api p = foldl (last_request isdt) (main_value api (restart d)) events"
    by (simp_all add: start_eventual)
  moreover from run [OF this(1) settle_works [OF assms(3-5), of p]] assms(7)
  have "eventual api q = eventual api p" by (simp add: settle_requests)
  moreover have "pl_timer q = None \<and> pl_queue q = []"
    using settle_quiet [of api isdt p io] assms(7) by (simp add: Let_def)
  ultimately show ?thesis by (simp add: eventual_def stored_value_def)
qed

definition saved_small :: "json_value option" where
  "saved_small = Some (JObj [(''sessionSnapshot'', snapshot_json small_snapshot)])"

lemma schema_snapshot_json:
  "snapshot_valid isdt snap \<Longrightarrow>
   persistedEditorStoreSchema isdt (JObj [(''sessionSnapshot'', snapshot_json snap)]) = Some snap"
  by (simp add: persistedEditorStoreSchema_def jfield_def snapshot_round_trip)

theorem last_request_is_stored_witness:
  "let step = plugin_step plain_store (\<lambda>s. s \<noteq> []);
       saved = [Hydrate all_works True, SetItem EDITOR_SESSION_KEY saved_small];
       p1 = run_events step (start_process fresh_disk) saved;
       p2 = run_events step (start_process fresh_disk) (saved @ [TimerFires, RemoveItem EDITOR_SESSION_KEY])
   in main_value plain_store (restart (pl_disk (run_events step p1 (settle all_works p1)))) =
        Some (snapshot_json small_snapshot) \<and>
      main_value plain_store (restart (pl_disk (run_events step p2 (settle all_works p2)))) = None"
proof -
  let ?saved = "[Hydrate all_works True, SetItem EDITOR_SESSION_KEY saved_small]"
  let ?removed = "?saved @ [TimerFires, RemoveItem EDITOR_SESSION_KEY]"
  have "list_all store_works ?saved" "list_all store_works ?removed"
    "io_load all_works" "io_access all_works" "io_save all_works"
    by (simp_all add: all_works_def)
  note hyps = plain_store_laws this(1) this(3-5) refl refl
  note hyps' = plain_store_laws \<open>list_all store_works ?removed\<close> hyps(3-5) refl refl
  show ?thesis
    using last_request_is_stored [OF hyps, of "\<lambda>s. s \<noteq> []" fresh_disk]
      last_request_is_stored [OF hyps', of "\<lambda>s. s \<noteq> []" fresh_disk]
    by (simp add: Let_def saved_small_def schema_snapshot_json [OF small_snapshot_valid])
qed

section \<open>A snapshot survives a restart\<close>

lemma hydrate_restores:
  assumes "main_value api (restart d) = Some (snapshot_json snap)" and "snapshot_valid isdt snap"
    and "io_load io" "io_access io"
  shows "plugin_getItem EDITOR_SESSION_KEY (plugin_step api isdt (start_process d) (Hydrate io True)) =
    Some (JObj [(''sessionSnapshot'', snapshot_json snap)])"
proof -
  have "main_reads io (restart d)" using assms(3,4) by (simp add: main_reads_def)
  from load_main [OF this, of api isdt] assms(1) have "fst (loadSession api isdt io (restart d)) = Some snap"
    by (simp add: validate_snapshot_json [OF assms(2)])
  then show ?thesis
    by (cases "loadSession api isdt io (restart d)")
      (simp add: start_process_def hydrateSessionStorage_def plugin_getItem_def restart_def Let_def)
qed

text \<open>The adapter's run as a whole: whatever happened before, a save of a valid snapshot that is not
  followed by another request comes back in the next process.\<close>

lemma set_then_restart:
  assumes "store_laws api" and "snapshot_valid isdt snap" and "list_all store_works events"
    and "io_load io" "io_access io" "io_save io"
    and "p = run_events (plugin_step api isdt) (start_process d)
      (events @ [SetItem EDITOR_SESSION_KEY (Some (JObj [(''sessionSnapshot'', snapshot_json snap)]))])"
    and "q = run_events (plugin_step api isdt) p (settle io p)"
  shows "plugin_getItem EDITOR_SESSION_KEY
      (plugin_step api isdt (start_process (pl_disk q)) (Hydrate io True)) =
    Some (JObj [(''sessionSnapshot'', snapshot_json snap)])"
proof -
  let ?set = "SetItem EDITOR_SESSION_KEY (Some (JObj [(''sessionSnapshot'', snapshot_json snap)]))"
  note run = plugin_run_eventual [OF assms(1)]
  have "list_all store_works (events @ [?set])" using assms(3) by simp
  from run [OF start_valid [of isdt d] this] assms(7)
  have p: "plugin_valid isdt p" "eventual api p = Some (snapshot_json snap)"
    by (simp_all add: schema_snapshot_json [OF assms(2)])
  from run [OF p(1) settle_works [OF assms(4-6), of p]] assms(8) p(2)
  have "eventual api q = Some (snapshot_json snap)" by (simp add: settle_requests)
  moreover have "pl_timer q = None \<and> pl_queue q = []"
    using settle_quiet [of api isdt p io] assms(8) by (simp add: Let_def)
  ultimately have "main_value api (restart (pl_disk q)) = Some (snapshot_json snap)"
    by (simp add: eventual_def stored_value_def)
  from hydrate_restores [OF this assms(2,4,5)] show ?thesis .
qed

end
