(* ===== verification/PatchPreview.thy ===== *)
theory PatchPreview
  imports Uri
begin

text \<open>
  Patch previews of the assistant (\<open>src/components/business/ai/edit/patch-preview.ts\<close>): the lines
  of each hunk with their numbers, and the two texts a diff view compares, rebuilt from the hunks
  alone. Strings are UTF-16 code units; line numbers are naturals, as the schema requires.
\<close>

section \<open>Patches\<close>

record patch_hunk =
  ph_oldStart :: nat
  ph_oldLines :: nat
  ph_newStart :: nat
  ph_newLines :: nat
  ph_lines :: "ustr list"

record patch_file =
  pf_path :: ustr
  pf_originalHash :: ustr
  pf_hunks :: "patch_hunk list"

definition starts_with :: "ustr \<Rightarrow> ustr \<Rightarrow> bool" where
  "starts_with p s \<longleftrightarrow> take (length p) s = p"

fun join_with :: "nat \<Rightarrow> ustr list \<Rightarrow> ustr" where
  "join_with c [] = []"
| "join_with c [l] = l"
| "join_with c (l # ls) = l @ c # join_with c ls"

abbreviation join_lines :: "ustr list \<Rightarrow> ustr" where
  "join_lines \<equiv> join_with 10"

section \<open>Paths and names\<close>

definition keeping_case :: normalize_options where
  "keeping_case = \<lparr>no_collapse = True, no_trim = True, no_foldCase = Some False\<rparr>"

definition folding_case :: normalize_options where
  "folding_case = \<lparr>no_collapse = True, no_trim = True, no_foldCase = Some True\<rparr>"

definition formatAiPatchDisplayPath :: "path_env \<Rightarrow> ustr \<Rightarrow> ustr" where
  "formatAiPatchDisplayPath env p =
     (let n = normalizeFileSystemPath env keeping_case p in if n = [] then p else n)"

definition toComparablePath :: "path_env \<Rightarrow> ustr \<Rightarrow> ustr" where
  "toComparablePath env p = normalizeFileSystemPath env folding_case p"

definition getPatchRelativePath :: "path_env \<Rightarrow> ustr \<Rightarrow> ustr \<Rightarrow> ustr" where
  "getPatchRelativePath env filePath workspaceRoot =
     (let displayPath = formatAiPatchDisplayPath env filePath;
          displayRoot = formatAiPatchDisplayPath env workspaceRoot;
          comparablePath = toComparablePath env displayPath;
          comparableRoot = toComparablePath env displayRoot
      in if displayRoot = [] then displayPath
         else if areFileSystemPathsEqual env displayPath displayRoot then []
         else if comparablePath = comparableRoot then []
         else if starts_with (comparableRoot @ [47]) comparablePath
              then drop (length displayRoot + 1) displayPath
         else displayPath)"

definition number :: "nat \<Rightarrow> ustr" where
  "number n = lit (show_nat n)"

definition formatPatchRange :: "nat \<Rightarrow> nat \<Rightarrow> ustr" where
  "formatPatchRange start lines = (if lines = 1 then number start else number start @ [44] @ number lines)"

definition buildPatchHunkHeader :: "patch_hunk \<Rightarrow> ustr" where
  "buildPatchHunkHeader h =
     lit ''@@ -'' @ formatPatchRange (ph_oldStart h) (ph_oldLines h) @ lit '' +'' @
     formatPatchRange (ph_newStart h) (ph_newLines h) @ lit '' @@''"

definition buildPatchDiffRef :: "ustr \<Rightarrow> ustr option" where
  "buildPatchDiffRef displayPath = map_option ((@) (lit ''patch-preview:'')) (encodeURIComponent displayPath)"

definition buildPatchDiffPreviewId :: "patch_file \<Rightarrow> ustr \<Rightarrow> ustr" where
  "buildPatchDiffPreviewId f displayPath =
     (let source = join_lines (displayPath # pf_originalHash f #
            concat (map (\<lambda>h. number (ph_oldStart h) # number (ph_oldLines h) #
              number (ph_newStart h) # number (ph_newLines h) # ph_lines h) (pf_hunks f)))
      in lit ''patch-diff:'' @ lit (fnv1a32 (code_points source)))"

section \<open>Lines of a unified diff\<close>

datatype diff_line = SkipLine | AddLine ustr | DeleteLine ustr | ContextLine ustr

definition classifyDiffLine :: "ustr \<Rightarrow> diff_line" where
  "classifyDiffLine l =
     (if l = [] then SkipLine
      else if starts_with (lit ''+++'') l \<or> starts_with (lit ''---'') l \<or> starts_with [92] l then SkipLine
      else if starts_with [43] l then AddLine (drop 1 l)
      else if starts_with [45] l then DeleteLine (drop 1 l)
      else if starts_with [32] l then ContextLine (drop 1 l)
      else ContextLine l)"

datatype preview_kind = PAdd | PDelete | PContext

record preview_line =
  pw_id :: ustr
  pw_kind :: preview_kind
  pw_content :: ustr
  pw_oldLineNumber :: "nat option"
  pw_newLineNumber :: "nat option"

text \<open>The cursor is the pair of the next old and the next new line number.\<close>

definition buildLinePreview ::
    "ustr \<Rightarrow> nat \<Rightarrow> ustr \<Rightarrow> nat \<Rightarrow> nat \<times> nat \<Rightarrow> preview_line option \<times> (nat \<times> nat)" where
  "buildLinePreview filePathForId hunkIndex line lineIndex cursor =
     (let (old, new) = cursor;
          i = filePathForId @ [58] @ number hunkIndex @ [58] @ number lineIndex
      in case classifyDiffLine line of
           SkipLine \<Rightarrow> (None, cursor)
         | AddLine c \<Rightarrow>
             (Some \<lparr>pw_id = i, pw_kind = PAdd, pw_content = c, pw_oldLineNumber = None,
                    pw_newLineNumber = Some new\<rparr>, (old, new + 1))
         | DeleteLine c \<Rightarrow>
             (Some \<lparr>pw_id = i, pw_kind = PDelete, pw_content = c, pw_oldLineNumber = Some old,
                    pw_newLineNumber = None\<rparr>, (old + 1, new))
         | ContextLine c \<Rightarrow>
             (Some \<lparr>pw_id = i, pw_kind = PContext, pw_content = c, pw_oldLineNumber = Some old,
                    pw_newLineNumber = Some new\<rparr>, (old + 1, new + 1)))"

fun preview_lines :: "ustr \<Rightarrow> nat \<Rightarrow> nat \<Rightarrow> nat \<times> nat \<Rightarrow> ustr list \<Rightarrow> preview_line list" where
  "preview_lines fid hi li cursor [] = []"
| "preview_lines fid hi li cursor (l # ls) =
     (let (item, next) = buildLinePreview fid hi l li cursor;
          rest = preview_lines fid hi (li + 1) next ls
      in case item of None \<Rightarrow> rest | Some x \<Rightarrow> x # rest)"

record hunk_preview =
  hv_id :: ustr
  hv_filePath :: ustr
  hv_diffRef :: ustr
  hv_header :: ustr
  hv_lines :: "preview_line list"

definition preview_hunk :: "ustr \<Rightarrow> ustr \<Rightarrow> nat \<Rightarrow> patch_hunk \<Rightarrow> hunk_preview" where
  "preview_hunk displayPath diffRef hunkIndex h =
     \<lparr>hv_id = displayPath @ [58] @ number (ph_oldStart h) @ [58] @ number (ph_newStart h) @ [58] @
        number hunkIndex,
      hv_filePath = displayPath, hv_diffRef = diffRef, hv_header = buildPatchHunkHeader h,
      hv_lines = preview_lines displayPath hunkIndex 0 (ph_oldStart h, ph_newStart h) (ph_lines h)\<rparr>"

text \<open>\<open>None\<close> when the path has an unpaired surrogate: \<open>encodeURIComponent\<close> throws.\<close>

definition buildPatchPreviewHunks :: "patch_file \<Rightarrow> ustr \<Rightarrow> hunk_preview list option" where
  "buildPatchPreviewHunks f displayPath =
     map_option (\<lambda>r. map2 (preview_hunk displayPath r) [0..<length (pf_hunks f)] (pf_hunks f))
       (buildPatchDiffRef displayPath)"

section \<open>The two texts\<close>

function padLinesTo :: "ustr list \<Rightarrow> nat \<Rightarrow> nat \<Rightarrow> ustr list \<times> nat" where
  "padLinesTo lines cursor target =
     (if cursor < target then padLinesTo (lines @ [[]]) (cursor + 1) target else (lines, cursor))"
  by pat_completeness auto
termination by (relation "measure (\<lambda>(lines, cursor, target). target - cursor)") auto

declare padLinesTo.simps [simp del]

record materialized =
  mt_original :: "ustr list"
  mt_modified :: "ustr list"
  mt_originalCursor :: nat
  mt_modifiedCursor :: nat
  mt_hasMaterialChange :: bool

definition materialize_line :: "materialized \<Rightarrow> ustr \<Rightarrow> materialized" where
  "materialize_line m line =
     (case classifyDiffLine line of
        SkipLine \<Rightarrow> m
      | AddLine c \<Rightarrow> m\<lparr>mt_modified := mt_modified m @ [c],
          mt_modifiedCursor := mt_modifiedCursor m + 1, mt_hasMaterialChange := True\<rparr>
      | DeleteLine c \<Rightarrow> m\<lparr>mt_original := mt_original m @ [c],
          mt_originalCursor := mt_originalCursor m + 1, mt_hasMaterialChange := True\<rparr>
      | ContextLine c \<Rightarrow> m\<lparr>mt_original := mt_original m @ [c], mt_modified := mt_modified m @ [c],
          mt_originalCursor := mt_originalCursor m + 1, mt_modifiedCursor := mt_modifiedCursor m + 1\<rparr>)"

definition materialize_hunk :: "materialized \<Rightarrow> patch_hunk \<Rightarrow> materialized" where
  "materialize_hunk m h =
     (let (olds, oc) = padLinesTo (mt_original m) (mt_originalCursor m) (ph_oldStart h);
          (news, nc) = padLinesTo (mt_modified m) (mt_modifiedCursor m) (ph_newStart h)
      in foldl materialize_line
           (m\<lparr>mt_original := olds, mt_originalCursor := oc, mt_modified := news,
              mt_modifiedCursor := nc\<rparr>) (ph_lines h))"

definition materialize_start :: materialized where
  "materialize_start = \<lparr>mt_original = [], mt_modified = [], mt_originalCursor = 1,
     mt_modifiedCursor = 1, mt_hasMaterialChange = False\<rparr>"

definition materializePatchContent :: "patch_file \<Rightarrow> ustr \<times> ustr \<times> bool" where
  "materializePatchContent f =
     (let m = foldl materialize_hunk materialize_start (pf_hunks f)
      in (join_lines (mt_original m), join_lines (mt_modified m), mt_hasMaterialChange m))"

section \<open>Payloads\<close>

record diff_payload =
  dp_id :: ustr
  dp_repositoryRootPath :: ustr
  dp_path :: ustr
  dp_relativePath :: ustr
  dp_title :: ustr
  dp_mode :: string
  dp_originalContent :: ustr
  dp_modifiedContent :: ustr
  dp_isEmpty :: bool

definition buildGitDiffPreview :: "path_env \<Rightarrow> patch_file \<Rightarrow> ustr \<Rightarrow> ustr \<Rightarrow> diff_payload" where
  "buildGitDiffPreview env f displayPath workspaceRoot =
     (let relativePath = getPatchRelativePath env (pf_path f) workspaceRoot;
          (original, modified, changed) = materializePatchContent f
      in \<lparr>dp_id = buildPatchDiffPreviewId f displayPath,
          dp_repositoryRootPath = formatAiPatchDisplayPath env workspaceRoot,
          dp_path = displayPath, dp_relativePath = relativePath,
          dp_title = (if relativePath = [] then displayPath else relativePath) @ [32, 183, 32] @
            lit ''Patch Diff'',
          dp_mode = ''worktree'', dp_originalContent = original, dp_modifiedContent = modified,
          dp_isEmpty = (\<not> changed)\<rparr>)"

record preview_file =
  vf_path :: ustr
  vf_displayPath :: ustr
  vf_hunks :: "hunk_preview list"
  vf_gitDiffPreview :: diff_payload

definition preview_of_file :: "path_env \<Rightarrow> ustr \<Rightarrow> patch_file \<Rightarrow> preview_file option" where
  "preview_of_file env workspaceRoot f =
     (let displayPath = formatAiPatchDisplayPath env (pf_path f) in
      map_option (\<lambda>hs. \<lparr>vf_path = pf_path f, vf_displayPath = displayPath, vf_hunks = hs,
          vf_gitDiffPreview = buildGitDiffPreview env f displayPath workspaceRoot\<rparr>)
        (buildPatchPreviewHunks f displayPath))"

definition buildAiPatchPreviewFiles :: "path_env \<Rightarrow> ustr \<Rightarrow> patch_file list \<Rightarrow> preview_file list option" where
  "buildAiPatchPreviewFiles env workspaceRoot fs = those (map (preview_of_file env workspaceRoot) fs)"

section \<open>Both sides of a hunk\<close>

definition old_side :: "ustr list \<Rightarrow> ustr list" where
  "old_side ls = concat (map (\<lambda>l. case classifyDiffLine l of
     DeleteLine c \<Rightarrow> [c] | ContextLine c \<Rightarrow> [c] | _ \<Rightarrow> []) ls)"

definition new_side :: "ustr list \<Rightarrow> ustr list" where
  "new_side ls = concat (map (\<lambda>l. case classifyDiffLine l of
     AddLine c \<Rightarrow> [c] | ContextLine c \<Rightarrow> [c] | _ \<Rightarrow> []) ls)"

definition changes :: "ustr \<Rightarrow> bool" where
  "changes l \<longleftrightarrow> (case classifyDiffLine l of AddLine c \<Rightarrow> True | DeleteLine c \<Rightarrow> True | _ \<Rightarrow> False)"

lemma sides_simps [simp]:
  "old_side [] = []" "new_side [] = []"
  "old_side (l # ls) = (case classifyDiffLine l of
     DeleteLine c \<Rightarrow> [c] | ContextLine c \<Rightarrow> [c] | _ \<Rightarrow> []) @ old_side ls"
  "new_side (l # ls) = (case classifyDiffLine l of
     AddLine c \<Rightarrow> [c] | ContextLine c \<Rightarrow> [c] | _ \<Rightarrow> []) @ new_side ls"
  by (simp_all add: old_side_def new_side_def)

lemma padLinesTo_closed: "padLinesTo lines c t = (lines @ replicate (t - c) [], max c t)"
proof (induction lines c t rule: padLinesTo.induct)
  case (1 lines c t)
  show ?case
  proof (cases "c < t")
    case True
    then have "t - c = Suc (t - (c + 1))" by simp
    with 1 True show ?thesis by (simp add: padLinesTo.simps [of lines c t])
  qed (simp add: padLinesTo.simps [of lines c t])
qed

lemma materialize_lines:
  "foldl materialize_line m ls = m\<lparr>mt_original := mt_original m @ old_side ls,
     mt_modified := mt_modified m @ new_side ls,
     mt_originalCursor := mt_originalCursor m + length (old_side ls),
     mt_modifiedCursor := mt_modifiedCursor m + length (new_side ls),
     mt_hasMaterialChange := (mt_hasMaterialChange m \<or> list_ex changes ls)\<rparr>"
  by (induction ls arbitrary: m)
    (auto simp: materialize_line_def changes_def split: diff_line.split)

lemma materialize_hunk_closed:
  "materialize_hunk m h = m\<lparr>
     mt_original := mt_original m @ replicate (ph_oldStart h - mt_originalCursor m) [] @ old_side (ph_lines h),
     mt_modified := mt_modified m @ replicate (ph_newStart h - mt_modifiedCursor m) [] @ new_side (ph_lines h),
     mt_originalCursor := max (mt_originalCursor m) (ph_oldStart h) + length (old_side (ph_lines h)),
     mt_modifiedCursor := max (mt_modifiedCursor m) (ph_newStart h) + length (new_side (ph_lines h)),
     mt_hasMaterialChange := (mt_hasMaterialChange m \<or> list_ex changes (ph_lines h))\<rparr>"
  by (simp add: materialize_hunk_def padLinesTo_closed materialize_lines)

text \<open>A previewed line is the line of its side that its number says, counted from the hunk's start.\<close>

definition numbered :: "ustr list \<Rightarrow> nat \<Rightarrow> nat option \<Rightarrow> ustr \<Rightarrow> bool" where
  "numbered side start n c \<longleftrightarrow>
     (case n of None \<Rightarrow> True
      | Some k \<Rightarrow> start \<le> k \<and> k - start < length side \<and> side ! (k - start) = c)"

lemma numbered_shift: "numbered side (Suc s) n c \<Longrightarrow> numbered (x # side) s n c"
  by (auto simp: numbered_def nth_Cons split: option.splits nat.splits)
    (metis Suc_diff_le Suc_le_D Suc_less_eq diff_Suc_Suc less_Suc_eq_0_disj nat.inject not_less_eq)

lemma preview_lines_numbered:
  "x \<in> set (preview_lines fid hi li (old, new) ls) \<Longrightarrow>
   numbered (old_side ls) old (pw_oldLineNumber x) (pw_content x) \<and>
   numbered (new_side ls) new (pw_newLineNumber x) (pw_content x)"
proof (induction ls arbitrary: li old new)
  case (Cons l ls)
  then show ?case
    by (cases "classifyDiffLine l")
      (auto simp: buildLinePreview_def intro: numbered_shift, auto simp: numbered_def)
qed simp

section \<open>Previewed lines and the diff agree\<close>

text \<open>The hunks come in order: a side that has lines starts where the file has not been written yet.\<close>

fun hunks_aligned :: "nat \<Rightarrow> nat \<Rightarrow> patch_hunk list \<Rightarrow> bool" where
  "hunks_aligned old new [] \<longleftrightarrow> True"
| "hunks_aligned old new (h # hs) \<longleftrightarrow>
     (if old_side (ph_lines h) = [] then True else old \<le> ph_oldStart h) \<and>
     (if new_side (ph_lines h) = [] then True else new \<le> ph_newStart h) \<and>
     hunks_aligned (max old (ph_oldStart h) + length (old_side (ph_lines h)))
       (max new (ph_newStart h) + length (new_side (ph_lines h))) hs"

fun split_lines :: "ustr \<Rightarrow> ustr list" where
  "split_lines [] = [[]]"
| "split_lines (c # s) =
     (if c = 10 then [] # split_lines s
      else case split_lines s of l # ls \<Rightarrow> (c # l) # ls | [] \<Rightarrow> [[c]])"

definition shown_at :: "ustr list \<Rightarrow> nat option \<Rightarrow> ustr \<Rightarrow> bool" where
  "shown_at ls n c \<longleftrightarrow>
     (case n of None \<Rightarrow> True | Some k \<Rightarrow> 1 \<le> k \<and> k \<le> length ls \<and> ls ! (k - 1) = c)"

lemma split_lines_append:
  "10 \<notin> set l \<Longrightarrow> split_lines (l @ 10 # s) = l # split_lines s" "10 \<notin> set l \<Longrightarrow> split_lines l = [l]"
  by (induction l) auto

lemma split_join:
  "ls \<noteq> [] \<Longrightarrow> list_all (\<lambda>l. 10 \<notin> set l) ls \<Longrightarrow> split_lines (join_lines ls) = ls"
  by (induction "10 :: nat" ls rule: join_with.induct) (simp_all add: split_lines_append)

lemma materialize_extends:
  "\<exists>olds news. mt_original (foldl materialize_hunk m hs) = mt_original m @ olds \<and>
     mt_modified (foldl materialize_hunk m hs) = mt_modified m @ news"
proof (induction hs arbitrary: m)
  case (Cons h hs)
  from Cons.IH [of "materialize_hunk m h"] show ?case by (auto simp: materialize_hunk_closed)
qed simp

lemma shown_at_append:
  assumes "numbered side start n c" and "length pre + 1 = start"
  shows "shown_at (pre @ side @ post) n c"
proof (cases n)
  case (Some k)
  then obtain j where "k = start + j" "j < length side" "side ! j = c"
    using assms(1) by (auto simp: numbered_def le_iff_add)
  with Some assms(2) show ?thesis by (auto simp: shown_at_def nth_append)
qed (simp add: shown_at_def)

lemma numbered_Nil: "numbered [] start n c \<Longrightarrow> n = None"
  by (auto simp: numbered_def split: option.splits)

lemma shown_at_None [simp]: "shown_at ls None c"
  by (simp add: shown_at_def)

lemma materialize_shows:
  assumes "h \<in> set hs" and "numbered (old_side (ph_lines h)) (ph_oldStart h) n c"
    and "numbered (new_side (ph_lines h)) (ph_newStart h) n' c"
    and "mt_originalCursor m = length (mt_original m) + 1"
    and "mt_modifiedCursor m = length (mt_modified m) + 1"
    and "hunks_aligned (mt_originalCursor m) (mt_modifiedCursor m) hs"
  shows "shown_at (mt_original (foldl materialize_hunk m hs)) n c \<and>
    shown_at (mt_modified (foldl materialize_hunk m hs)) n' c"
  using assms(1,4-6)
proof (induction hs arbitrary: m)
  case (Cons g hs)
  show ?case
  proof (cases "h \<in> set hs")
    case True
    have "mt_originalCursor (materialize_hunk m g) = length (mt_original (materialize_hunk m g)) + 1"
      "mt_modifiedCursor (materialize_hunk m g) = length (mt_modified (materialize_hunk m g)) + 1"
      using Cons.prems by (simp_all add: materialize_hunk_closed)
    moreover have "hunks_aligned (mt_originalCursor (materialize_hunk m g))
      (mt_modifiedCursor (materialize_hunk m g)) hs"
      using Cons.prems by (simp add: materialize_hunk_closed)
    ultimately show ?thesis using Cons.IH [OF True] by simp
  next
    case False
    with Cons.prems have g: "g = h" by simp
    obtain olds news where ext:
      "mt_original (foldl materialize_hunk (materialize_hunk m h) hs) = mt_original (materialize_hunk m h) @ olds"
      "mt_modified (foldl materialize_hunk (materialize_hunk m h) hs) = mt_modified (materialize_hunk m h) @ news"
      using materialize_extends [of "materialize_hunk m h" hs] by blast
    let ?pre = "mt_original m @ replicate (ph_oldStart h - mt_originalCursor m) []"
    let ?pre' = "mt_modified m @ replicate (ph_newStart h - mt_modifiedCursor m) []"
    have "shown_at (?pre @ old_side (ph_lines h) @ olds) n c"
    proof (cases "old_side (ph_lines h) = []")
      case True
      then show ?thesis using assms(2) numbered_Nil by fastforce
    next
      case False
      then have "length ?pre + 1 = ph_oldStart h" using Cons.prems g by simp
      from shown_at_append [OF assms(2) this] show ?thesis .
    qed
    moreover have "shown_at (?pre' @ new_side (ph_lines h) @ news) n' c"
    proof (cases "new_side (ph_lines h) = []")
      case True
      then show ?thesis using assms(3) numbered_Nil by fastforce
    next
      case False
      then have "length ?pre' + 1 = ph_newStart h" using Cons.prems g by simp
      from shown_at_append [OF assms(3) this] show ?thesis .
    qed
    ultimately show ?thesis
      unfolding g foldl.simps ext by (simp add: materialize_hunk_closed)
  qed
qed simp

lemma classify_no_newline:
  "10 \<notin> set l \<Longrightarrow> list_all (\<lambda>c. 10 \<notin> set c) (old_side [l]) \<and> list_all (\<lambda>c. 10 \<notin> set c) (new_side [l])"
  by (auto simp: classifyDiffLine_def dest: in_set_dropD)

lemma sides_no_newline:
  "list_all (\<lambda>l. 10 \<notin> set l) ls \<Longrightarrow>
   list_all (\<lambda>c. 10 \<notin> set c) (old_side ls) \<and> list_all (\<lambda>c. 10 \<notin> set c) (new_side ls)"
  using classify_no_newline by (induction ls) (simp, fastforce)

lemma materialize_no_newline:
  "list_all (\<lambda>h. list_all (\<lambda>l. 10 \<notin> set l) (ph_lines h)) hs \<Longrightarrow>
   list_all (\<lambda>c. 10 \<notin> set c) (mt_original m) \<Longrightarrow> list_all (\<lambda>c. 10 \<notin> set c) (mt_modified m) \<Longrightarrow>
   list_all (\<lambda>c. 10 \<notin> set c) (mt_original (foldl materialize_hunk m hs)) \<and>
   list_all (\<lambda>c. 10 \<notin> set c) (mt_modified (foldl materialize_hunk m hs))"
proof (induction hs arbitrary: m)
  case (Cons h hs)
  have "list_all (\<lambda>l. 10 \<notin> set l) (ph_lines h)" using Cons.prems(1) by simp
  from sides_no_newline [OF this] Cons.prems(2,3)
  have "list_all (\<lambda>c. 10 \<notin> set c) (mt_original (materialize_hunk m h))"
    "list_all (\<lambda>c. 10 \<notin> set c) (mt_modified (materialize_hunk m h))"
    by (auto simp: materialize_hunk_closed list_all_iff)
  with Cons.IH [of "materialize_hunk m h"] Cons.prems(1) show ?case by simp
qed simp

lemma materialize_changed:
  "mt_hasMaterialChange (foldl materialize_hunk m hs) \<longleftrightarrow>
   mt_hasMaterialChange m \<or> list_ex (\<lambda>h. list_ex changes (ph_lines h)) hs"
  by (induction hs arbitrary: m) (auto simp: materialize_hunk_closed)

lemma shown_at_text:
  "shown_at ls n c \<Longrightarrow> list_all (\<lambda>l. 10 \<notin> set l) ls \<Longrightarrow> shown_at (split_lines (join_lines ls)) n c"
  by (cases "ls = []") (auto simp: shown_at_def split_join split: option.splits)

text \<open>C19: For a patch whose hunks come in order, every line the preview shows stands in the two texts of
  the diff view under its own numbers: an old line number k means the k-th line of the original
  text, a new one the k-th line of the modified text, gaps between hunks included; and the diff is
  marked empty exactly if no hunk has an added or removed line.\<close>

theorem preview_agrees_with_diff:
  assumes "hunks_aligned 1 1 (pf_hunks f)"
    and "list_all (\<lambda>h. list_all (\<lambda>l. 10 \<notin> set l) (ph_lines h)) (pf_hunks f)"
    and "preview_of_file env workspaceRoot f = Some v" and "hv \<in> set (vf_hunks v)"
    and "x \<in> set (hv_lines hv)"
  shows "let d = vf_gitDiffPreview v in
    shown_at (split_lines (dp_originalContent d)) (pw_oldLineNumber x) (pw_content x) \<and>
    shown_at (split_lines (dp_modifiedContent d)) (pw_newLineNumber x) (pw_content x) \<and>
    dp_isEmpty d = (\<not> list_ex (\<lambda>h. list_ex changes (ph_lines h)) (pf_hunks f))"
proof -
  let ?m = "foldl materialize_hunk materialize_start (pf_hunks f)"
  obtain r where r: "buildPatchDiffRef (formatAiPatchDisplayPath env (pf_path f)) = Some r"
    using assms(3) by (auto simp: preview_of_file_def Let_def buildPatchPreviewHunks_def)
  then have v: "vf_hunks v = map2 (preview_hunk (vf_displayPath v) r) [0..<length (pf_hunks f)] (pf_hunks f)"
    and d: "dp_originalContent (vf_gitDiffPreview v) = join_lines (mt_original ?m)"
      "dp_modifiedContent (vf_gitDiffPreview v) = join_lines (mt_modified ?m)"
      "dp_isEmpty (vf_gitDiffPreview v) = (\<not> mt_hasMaterialChange ?m)"
    using assms(3) by (auto simp: preview_of_file_def Let_def buildPatchPreviewHunks_def
        buildGitDiffPreview_def materializePatchContent_def)
  obtain i h where h: "h \<in> set (pf_hunks f)" "hv = preview_hunk (vf_displayPath v) r i h"
    using assms(4) v by (auto dest: set_zip_rightD)
  from assms(5) have "numbered (old_side (ph_lines h)) (ph_oldStart h) (pw_oldLineNumber x) (pw_content x)"
    "numbered (new_side (ph_lines h)) (ph_newStart h) (pw_newLineNumber x) (pw_content x)"
    using preview_lines_numbered by (simp_all add: h(2) preview_hunk_def)
  from materialize_shows [OF h(1) this, of materialize_start] assms(1)
  have "shown_at (mt_original ?m) (pw_oldLineNumber x) (pw_content x)"
    "shown_at (mt_modified ?m) (pw_newLineNumber x) (pw_content x)"
    by (simp_all add: materialize_start_def)
  with materialize_no_newline [OF assms(2), of materialize_start] show ?thesis
    by (simp add: Let_def d shown_at_text materialize_changed) (simp add: materialize_start_def shown_at_text)
qed

definition two_hunks :: patch_file where
  "two_hunks = \<lparr>pf_path = lit ''/w/a.sh'', pf_originalHash = [],
     pf_hunks = [\<lparr>ph_oldStart = 2, ph_oldLines = 2, ph_newStart = 2, ph_newLines = 3,
        ph_lines = [lit '' one'', lit ''-two'', lit ''+2'', lit ''+3'']\<rparr>,
      \<lparr>ph_oldStart = 9, ph_oldLines = 1, ph_newStart = 10, ph_newLines = 1, ph_lines = [lit ''-nine'', lit ''+9'']\<rparr>]\<rparr>"

definition plain_env :: path_env where
  "plain_env = \<lparr>pa_normalize = (\<lambda>p. p), pa_basename = (\<lambda>p. p), pa_dirname = (\<lambda>p. p), pa_lower = (\<lambda>p. p)\<rparr>"

theorem preview_agrees_with_diff_witness:
  "let v = the (preview_of_file plain_env (lit ''/w'') two_hunks); x = hv_lines (vf_hunks v ! 1) ! 0 in
     pw_oldLineNumber x = Some 9 \<and> pw_content x = lit ''nine'' \<and>
     shown_at (split_lines (dp_originalContent (vf_gitDiffPreview v))) (Some 9) (lit ''nine'')"
proof -
  define v where "v = the (preview_of_file plain_env (lit ''/w'') two_hunks)"
  have path: "formatAiPatchDisplayPath plain_env (pf_path two_hunks) = lit ''/w/a.sh''" by code_simp
  have "encodeURIComponent (lit ''/w/a.sh'') = Some (lit ''%2Fw%2Fa.sh'')"
    by (simp add: lit_def encodeURIComponent_def high_surrogate_def low_surrogate_def uri_unreserved_def
        is_letter_def utf8_encode_def percent_byte_def)
  then obtain r where r: "buildPatchDiffRef (lit ''/w/a.sh'') = Some r"
    by (simp add: buildPatchDiffRef_def)
  then have v: "preview_of_file plain_env (lit ''/w'') two_hunks = Some v"
    and hunks: "vf_hunks v = map2 (preview_hunk (lit ''/w/a.sh'') r) [0..<2] (pf_hunks two_hunks)"
    by (simp_all add: v_def preview_of_file_def Let_def buildPatchPreviewHunks_def path)
      (simp add: two_hunks_def upt_rec)
  let ?hv = "vf_hunks v ! 1" and ?x = "hv_lines (vf_hunks v ! 1) ! 0"
  have lines: "hv_lines ?hv = preview_lines (lit ''/w/a.sh'') 1 0 (9, 10) [lit ''-nine'', lit ''+9'']"
    by (simp add: hunks two_hunks_def preview_hunk_def upt_rec)
  have "length (vf_hunks v) = 2" by (simp add: hunks two_hunks_def)
  moreover have "length (hv_lines ?hv) = 2" "pw_oldLineNumber ?x = Some 9" "pw_content ?x = lit ''nine''"
    unfolding lines by code_simp+
  moreover have "?hv \<in> set (vf_hunks v)" "?x \<in> set (hv_lines ?hv)"
    using calculation by simp_all
  moreover have "hunks_aligned 1 1 (pf_hunks two_hunks)"
    "list_all (\<lambda>h. list_all (\<lambda>l. 10 \<notin> set l) (ph_lines h)) (pf_hunks two_hunks)"
    by code_simp+
  ultimately show ?thesis
    using preview_agrees_with_diff [of two_hunks plain_env "lit ''/w''" v ?hv ?x] v
    unfolding v_def [symmetric] Let_def by auto
qed

end
