(* ===== verification/PatchSummary.thy ===== *)
theory PatchSummary
  imports PatchPreview "HOL-Library.Monad_Syntax"
begin

text \<open>
  Summaries of applied patches (\<open>src/components/business/ai/edit/patch-summary.ts\<close>) and the
  references they carry (\<open>diff-ref.ts\<close>). A builder that calls \<open>encodeURIComponent\<close> returns
  \<open>None\<close> where the call throws; a \<open>null\<close> result is an inner \<open>None\<close>.
\<close>

section \<open>References\<close>

definition AED_DIFF_REF_PREFIX :: ustr where
  "AED_DIFF_REF_PREFIX = lit ''aed-diff:''"

definition AED_PATCH_REF_PREFIX :: ustr where
  "AED_PATCH_REF_PREFIX = lit ''aed-patch:''"

record diff_target =
  rt_taskId :: ustr
  rt_path :: ustr

definition buildAiAedDiffRef :: "diff_target \<Rightarrow> ustr option" where
  "buildAiAedDiffRef t = do {
     a \<leftarrow> encodeURIComponent (rt_taskId t);
     b \<leftarrow> encodeURIComponent (rt_path t);
     Some (AED_DIFF_REF_PREFIX @ a @ 58 # b) }"

definition parseAiAedDiffRef :: "ustr \<Rightarrow> diff_target option" where
  "parseAiAedDiffRef r =
     (if \<not> starts_with AED_DIFF_REF_PREFIX r then None
      else let payload = drop (length AED_DIFF_REF_PREFIX) r;
               separator = length (takeWhile (\<lambda>c. c \<noteq> 58) payload)
           in if 58 \<notin> set payload \<or> separator = 0 \<or> length payload \<le> separator + 1 then None
              else do {
                a \<leftarrow> decodeURIComponent (take separator payload);
                b \<leftarrow> decodeURIComponent (drop (separator + 1) payload);
                if trim a = [] \<or> trim b = [] then None
                else Some \<lparr>rt_taskId = trim a, rt_path = trim b\<rparr> })"

definition isAiAedDiffRef :: "ustr \<Rightarrow> bool" where
  "isAiAedDiffRef r = starts_with AED_DIFF_REF_PREFIX r"

definition buildAiAedPatchRef :: "ustr \<Rightarrow> ustr option" where
  "buildAiAedPatchRef taskId = map_option ((@) AED_PATCH_REF_PREFIX) (encodeURIComponent taskId)"

definition parseAiAedPatchRef :: "ustr \<Rightarrow> ustr option" where
  "parseAiAedPatchRef r =
     (if \<not> starts_with AED_PATCH_REF_PREFIX r then None
      else let encoded = drop (length AED_PATCH_REF_PREFIX) r in
        if encoded = [] then None
        else do {
          taskId \<leftarrow> decodeURIComponent encoded;
          if trim taskId = [] then None else Some (trim taskId) })"

section \<open>Changed files\<close>

datatype changed_status = Added | Modified | Deleted | Renamed

record changed_file =
  cf_path :: ustr
  cf_status :: changed_status
  cf_additions :: nat
  cf_deletions :: nat
  cf_diffRef :: ustr
  cf_rollbackRef :: "ustr option"

record patch_summary =
  ps_id :: ustr
  ps_runId :: ustr
  ps_stepId :: ustr
  ps_files :: "changed_file list"
  ps_totalAdditions :: nat
  ps_totalDeletions :: nat
  ps_patchRef :: ustr
  ps_appliedAt :: "ustr option"
  ps_revertedAt :: "ustr option"

definition count_line :: "nat \<times> nat \<Rightarrow> ustr \<Rightarrow> nat \<times> nat" where
  "count_line n line =
     (let (additions, deletions) = n in
      if line = [] then n
      else if starts_with (lit ''+++'') line \<or> starts_with (lit ''---'') line then n
      else if hd line = 0x2b then (additions + 1, deletions)
      else if hd line = 0x2d then (additions, deletions + 1)
      else n)"

definition countAiPatchFileLineStats :: "patch_file \<Rightarrow> nat \<times> nat" where
  "countAiPatchFileLineStats f =
     foldl (\<lambda>n h. foldl count_line n (ph_lines h)) (0, 0) (pf_hunks f)"

definition inferChangedFileStatusFromPatch :: "patch_file \<Rightarrow> nat \<times> nat \<Rightarrow> changed_status" where
  "inferChangedFileStatusFromPatch f stats =
     (let (additions, deletions) = stats; hs = pf_hunks f in
      if 0 < additions \<and> deletions = 0 \<and> hs \<noteq> [] \<and> list_all (\<lambda>h. ph_oldLines h = 0) hs then Added
      else if 0 < deletions \<and> additions = 0 \<and> hs \<noteq> [] \<and> list_all (\<lambda>h. ph_newLines h = 0) hs
        then Deleted
      else Modified)"

datatype edit_kind = EditModify | EditCreate | EditDelete | EditRename

fun inferChangedFileStatusFromAedKind :: "edit_kind \<Rightarrow> changed_status" where
  "inferChangedFileStatusFromAedKind EditCreate = Added"
| "inferChangedFileStatusFromAedKind EditDelete = Deleted"
| "inferChangedFileStatusFromAedKind EditRename = Renamed"
| "inferChangedFileStatusFromAedKind EditModify = Modified"

definition mergeFileStatus :: "changed_status \<Rightarrow> changed_status \<Rightarrow> changed_status" where
  "mergeFileStatus prev next =
     (if prev = next then prev
      else if prev = Deleted \<or> next = Deleted then Deleted
      else if prev = Added \<or> next = Added then Added
      else if prev = Renamed \<or> next = Renamed then Renamed
      else Modified)"

definition isAppliedPatchFile :: "path_env \<Rightarrow> patch_file \<Rightarrow> ustr list \<Rightarrow> bool" where
  "isAppliedPatchFile env f applied = list_ex (\<lambda>p. areFileSystemPathsEqual env p (pf_path f)) applied"

definition computeChangedFileTotals :: "changed_file list \<Rightarrow> nat \<times> nat" where
  "computeChangedFileTotals fs =
     foldl (\<lambda>(a, d) f. (a + cf_additions f, d + cf_deletions f)) (0, 0) fs"

section \<open>Identifiers\<close>

fun status_name :: "changed_status \<Rightarrow> string" where
  "status_name Added = ''added''"
| "status_name Modified = ''modified''"
| "status_name Deleted = ''deleted''"
| "status_name Renamed = ''renamed''"

record summary_keys =
  sk_runId :: ustr
  sk_stepId :: ustr
  sk_taskId :: ustr
  sk_appliedAt :: ustr

definition buildSummaryIdPayload :: "summary_keys \<Rightarrow> changed_file list \<Rightarrow> ustr" where
  "buildSummaryIdPayload keys fs =
     join_lines (sk_runId keys # sk_stepId keys # sk_taskId keys # sk_appliedAt keys #
       map (\<lambda>f. join_with 124 [cf_path f, lit (status_name (cf_status f)), number (cf_additions f),
              number (cf_deletions f), cf_diffRef f]) fs)"

definition makeSummaryId :: "ustr \<Rightarrow> string \<Rightarrow> ustr" where
  "makeSummaryId payload namespace =
     lit ''patch-summary:'' @ (if namespace = '''' then [] else lit namespace @ [58]) @
     lit (fnv1a32Base36 (code_points payload) 7)"

section \<open>Building\<close>

definition trimmed_keys :: "summary_keys \<Rightarrow> summary_keys" where
  "trimmed_keys k = \<lparr>sk_runId = trim (sk_runId k), sk_stepId = trim (sk_stepId k),
     sk_taskId = trim (sk_taskId k), sk_appliedAt = trim (sk_appliedAt k)\<rparr>"

definition some_key_missing :: "summary_keys \<Rightarrow> bool" where
  "some_key_missing k \<longleftrightarrow> sk_taskId k = [] \<or> sk_runId k = [] \<or> sk_stepId k = [] \<or> sk_appliedAt k = []"

definition summary_of :: "summary_keys \<Rightarrow> string \<Rightarrow> changed_file list \<Rightarrow> ustr \<Rightarrow> patch_summary" where
  "summary_of keys namespace fs patchRef =
     (let (additions, deletions) = computeChangedFileTotals fs in
      \<lparr>ps_id = makeSummaryId (buildSummaryIdPayload keys fs) namespace,
       ps_runId = sk_runId keys, ps_stepId = sk_stepId keys, ps_files = fs,
       ps_totalAdditions = additions, ps_totalDeletions = deletions, ps_patchRef = patchRef,
       ps_appliedAt = Some (sk_appliedAt keys), ps_revertedAt = None\<rparr>)"

definition applied_file :: "ustr \<Rightarrow> patch_file \<Rightarrow> changed_file option" where
  "applied_file taskId f =
     (let (additions, deletions) = countAiPatchFileLineStats f in
      map_option (\<lambda>r. \<lparr>cf_path = pf_path f,
          cf_status = inferChangedFileStatusFromPatch f (additions, deletions),
          cf_additions = additions, cf_deletions = deletions, cf_diffRef = r, cf_rollbackRef = None\<rparr>)
        (buildAiAedDiffRef \<lparr>rt_taskId = taskId, rt_path = pf_path f\<rparr>))"

definition buildAiAgentPatchSummaryFromApplyResult ::
    "path_env \<Rightarrow> summary_keys \<Rightarrow> patch_file list \<Rightarrow> ustr list \<Rightarrow> patch_summary option option" where
  "buildAiAgentPatchSummaryFromApplyResult env input patch applied =
     (let keys = trimmed_keys input in
      if some_key_missing keys \<or> applied = [] then Some None
      else do {
        fs \<leftarrow> those (map (applied_file (sk_taskId keys))
                (filter (\<lambda>f. isAppliedPatchFile env f applied) patch));
        if fs = [] then Some None
        else map_option (\<lambda>r. Some (summary_of keys '''' fs r)) (buildAiAedPatchRef (sk_taskId keys)) })"

record edit_diff =
  eb_path :: ustr
  eb_operationId :: ustr
  eb_kind :: edit_kind
  eb_additions :: nat
  eb_deletions :: nat
  eb_hunks :: "patch_hunk list"

definition buildAiPatchSetFromAedDiff :: "edit_diff \<Rightarrow> (ustr \<times> patch_file list) option" where
  "buildAiPatchSetFromAedDiff d =
     (if eb_hunks d = [] then None
      else Some ([24050, 20462, 25913, 32] @ eb_path d,
        [\<lparr>pf_path = eb_path d, pf_originalHash = lit ''aed:'' @ eb_operationId d, pf_hunks = eb_hunks d\<rparr>]))"

definition edited_file :: "ustr \<Rightarrow> edit_diff \<Rightarrow> changed_file option" where
  "edited_file taskId d =
     map_option (\<lambda>r. \<lparr>cf_path = eb_path d, cf_status = inferChangedFileStatusFromAedKind (eb_kind d),
         cf_additions = eb_additions d, cf_deletions = eb_deletions d, cf_diffRef = r,
         cf_rollbackRef = None\<rparr>)
       (buildAiAedDiffRef \<lparr>rt_taskId = taskId, rt_path = eb_path d\<rparr>)"

definition buildAiAgentPatchSummaryFromAedDiffs ::
    "summary_keys \<Rightarrow> edit_diff list \<Rightarrow> patch_summary option option" where
  "buildAiAgentPatchSummaryFromAedDiffs input edits =
     (let keys = trimmed_keys input in
      if some_key_missing keys \<or> edits = [] then Some None
      else do {
        fs \<leftarrow> those (map (edited_file (sk_taskId keys)) (filter (\<lambda>d. eb_hunks d \<noteq> []) edits));
        if fs = [] then Some None
        else map_option (\<lambda>r. Some (summary_of keys ''aed-diff'' fs r))
               (buildAiAedPatchRef (sk_taskId keys)) })"

section \<open>Merging\<close>

definition file_key :: "path_env \<Rightarrow> changed_file \<Rightarrow> ustr" where
  "file_key env f = toComparablePath env (cf_path f)"

definition truthy :: "ustr option \<Rightarrow> bool" where
  "truthy s \<longleftrightarrow> s \<noteq> None \<and> s \<noteq> Some []"

definition merge_into :: "changed_file \<Rightarrow> changed_file \<Rightarrow> changed_file" where
  "merge_into old f = old\<lparr>cf_status := mergeFileStatus (cf_status old) (cf_status f),
     cf_additions := cf_additions old + cf_additions f,
     cf_deletions := cf_deletions old + cf_deletions f, cf_diffRef := cf_diffRef f,
     cf_rollbackRef := (if truthy (cf_rollbackRef f) then cf_rollbackRef f else cf_rollbackRef old)\<rparr>"

definition merge_file ::
    "path_env \<Rightarrow> changed_file list \<times> (ustr, nat) jsmap \<Rightarrow> changed_file \<Rightarrow>
     changed_file list \<times> (ustr, nat) jsmap" where
  "merge_file env s f =
     (let (files, indexByKey) = s; key = file_key env f in
      case jm_get indexByKey key of
        None \<Rightarrow> (files @ [f], jm_set indexByKey key (length files))
      | Some i \<Rightarrow> (files[i := merge_into (files ! i) f], indexByKey))"

definition first_text :: "ustr option \<Rightarrow> ustr option \<Rightarrow> ustr option" where
  "first_text a b = (let x = (if truthy a then a else b) in if truthy x then x else None)"

definition mergeAiAgentPatchSummaries :: "path_env \<Rightarrow> patch_summary list \<Rightarrow> patch_summary option" where
  "mergeAiAgentPatchSummaries env summaries =
     (case summaries of
        [] \<Rightarrow> None
      | s # _ \<Rightarrow>
          (let files = fst (foldl (\<lambda>st x. foldl (merge_file env) st (ps_files x)) ([], []) summaries);
               e = last summaries;
               (additions, deletions) = computeChangedFileTotals files
           in if files = [] then None
              else Some \<lparr>ps_id = makeSummaryId (join_lines (map ps_id summaries)) ''merged'',
                     ps_runId = ps_runId s, ps_stepId = ps_stepId s, ps_files = files,
                     ps_totalAdditions = additions, ps_totalDeletions = deletions,
                     ps_patchRef = ps_patchRef s,
                     ps_appliedAt = first_text (ps_appliedAt e) (ps_appliedAt s),
                     ps_revertedAt = first_text (ps_revertedAt e) (ps_revertedAt s)\<rparr>))"

section \<open>References read back\<close>

text \<open>Texts a reference can carry: white space around them is trimmed away, and the empty one is refused.\<close>

definition ref_text :: "ustr \<Rightarrow> bool" where
  "ref_text s \<longleftrightarrow> s \<noteq> [] \<and> trim s = s \<and> list_all (\<lambda>c. c < 0x10000) s"

definition ref_target :: "diff_target \<Rightarrow> bool" where
  "ref_target t \<longleftrightarrow> ref_text (rt_taskId t) \<and> ref_text (rt_path t)"

lemma starts_with_prefix [simp]: "starts_with p (p @ s)"
  by (simp add: starts_with_def)

lemma encoded_text:
  assumes "ref_text s" and "encodeURIComponent s = Some u"
  shows "58 \<notin> set u" "u \<noteq> []" "decodeURIComponent u = Some s"
proof -
  have b: "list_all (\<lambda>c. c < 0x10000) s" using assms(1) by (simp add: ref_text_def)
  show d: "decodeURIComponent u = Some s" using uri.dec_enc [OF b assms(2)] .
  show "58 \<notin> set u"
    using encoded_unreserved [OF assms(2) b]
    by (auto simp: list_all_iff uri_unreserved_def is_letter_def)
  show "u \<noteq> []" using d assms(1) by (auto simp: ref_text_def decodeURIComponent.simps)
qed

lemma split_at_colon:
  "58 \<notin> set a \<Longrightarrow> takeWhile (\<lambda>c. c \<noteq> 58) (a @ 58 # b) = a"
  by (induction a) auto

lemma diff_ref_parses:
  assumes "ref_target t" and "buildAiAedDiffRef t = Some r"
  shows "parseAiAedDiffRef r = Some t"
proof -
  obtain a b where r: "r = AED_DIFF_REF_PREFIX @ a @ 58 # b"
    and e: "encodeURIComponent (rt_taskId t) = Some a" "encodeURIComponent (rt_path t) = Some b"
    using assms(2) by (auto simp: buildAiAedDiffRef_def bind_eq_Some_conv)
  note t = encoded_text [OF _ e(1)] and p = encoded_text [OF _ e(2)]
  from assms(1) have ok: "ref_text (rt_taskId t)" "ref_text (rt_path t)" by (simp_all add: ref_target_def)
  show ?thesis
    using t [OF ok(1)] p [OF ok(2)] ok split_at_colon [OF t(1) [OF ok(1)], of b]
    by (simp add: parseAiAedDiffRef_def r ref_text_def Let_def)
qed

lemma patch_ref_parses:
  assumes "ref_text t" and "buildAiAedPatchRef t = Some r"
  shows "parseAiAedPatchRef r = Some t"
proof -
  obtain u where u: "encodeURIComponent t = Some u" "r = AED_PATCH_REF_PREFIX @ u"
    using assms(2) by (auto simp: buildAiAedPatchRef_def)
  from encoded_text [OF assms(1) u(1)] assms(1) show ?thesis
    by (simp add: parseAiAedPatchRef_def u(2) ref_text_def)
qed

interpretation diff_ref: codec buildAiAedDiffRef parseAiAedDiffRef ref_target
  by unfold_locales (rule diff_ref_parses)

interpretation patch_ref: codec buildAiAedPatchRef parseAiAedPatchRef ref_text
  by unfold_locales (rule patch_ref_parses)

text \<open>The reference to the diff of a file in a task reads back to exactly that task and file, whatever
  characters they contain (colons, percent signs, characters outside the basic plane), and so does
  the reference to the task's patch; two targets never share a reference.\<close>

theorem references_read_back:
  assumes "ref_target t" and "buildAiAedDiffRef t = Some r" and "buildAiAedPatchRef (rt_taskId t) = Some q"
    and "ref_target t'" and "buildAiAedDiffRef t' = Some r'"
  shows "parseAiAedDiffRef r = Some t \<and> parseAiAedPatchRef q = Some (rt_taskId t) \<and>
    isAiAedDiffRef r \<and> (r' = r \<longleftrightarrow> t' = t)"
proof -
  have "isAiAedDiffRef r"
    using assms(2) by (auto simp: isAiAedDiffRef_def buildAiAedDiffRef_def bind_eq_Some_conv)
  moreover have "r' = r \<longleftrightarrow> t' = t" using diff_ref.enc_inj assms(1,2,4,5) by auto
  ultimately show ?thesis
    using diff_ref.dec_enc [OF assms(1,2)] patch_ref.dec_enc [OF _ assms(3)] assms(1)
    by (simp add: ref_target_def)
qed

theorem references_read_back_witness:
  "parseAiAedDiffRef (lit ''aed-diff:t%3A1:%25%F0%9F%98%80'') =
     Some \<lparr>rt_taskId = lit ''t:1'', rt_path = [37, 0xd83d, 0xde00]\<rparr>"
proof -
  let ?t = "\<lparr>rt_taskId = lit ''t:1'', rt_path = [37, 0xd83d, 0xde00]\<rparr>"
  let ?t' = "\<lparr>rt_taskId = lit ''t:1'', rt_path = [37]\<rparr>"
  note evals = lit_def encodeURIComponent_def high_surrogate_def low_surrogate_def uri_unreserved_def
    is_letter_def utf8_encode_def percent_byte_def pair_value_def
  have "encodeURIComponent (lit ''t:1'') = Some (lit ''t%3A1'')"
    "encodeURIComponent [37, 0xd83d, 0xde00] = Some (lit ''%25%F0%9F%98%80'')"
    "encodeURIComponent [37] = Some (lit ''%25'')"
    by (simp_all add: evals)
  then have "buildAiAedDiffRef ?t = Some (lit ''aed-diff:t%3A1:%25%F0%9F%98%80'')"
    "buildAiAedDiffRef ?t' = Some (lit ''aed-diff:t%3A1:%25'')"
    "buildAiAedPatchRef (rt_taskId ?t) = Some (lit ''aed-patch:t%3A1'')"
    by (simp_all add: buildAiAedDiffRef_def buildAiAedPatchRef_def AED_DIFF_REF_PREFIX_def
        AED_PATCH_REF_PREFIX_def lit_def)
  moreover have "ref_target ?t" "ref_target ?t'"
    by (simp_all add: ref_target_def ref_text_def trim_def is_js_space_def lit_def)
  ultimately show ?thesis using references_read_back [of ?t _ _ ?t'] by blast
qed

section \<open>Merging groups files by path\<close>

definition add_key :: "'k list \<Rightarrow> 'k \<Rightarrow> 'k list" where
  "add_key ks k = (if k \<in> set ks then ks else ks @ [k])"

definition first_keys :: "'k list \<Rightarrow> 'k list" where
  "first_keys = foldl add_key []"

definition merge_group :: "changed_file list \<Rightarrow> changed_file" where
  "merge_group g = foldl merge_into (hd g) (tl g)"

definition with_key :: "path_env \<Rightarrow> ustr \<Rightarrow> changed_file list \<Rightarrow> changed_file list" where
  "with_key env k = filter (\<lambda>f. file_key env f = k)"

lemma first_keys_snoc: "first_keys (ks @ [k]) = add_key (first_keys ks) k"
  by (simp add: first_keys_def)

lemma first_keys_set [simp]: "set (first_keys ks) = set ks" and first_keys_distinct: "distinct (first_keys ks)"
proof -
  have "set (first_keys ks) = set ks \<and> distinct (first_keys ks)"
    by (induction ks rule: rev_induct) (auto simp: first_keys_snoc add_key_def, auto simp: first_keys_def)
  then show "set (first_keys ks) = set ks" "distinct (first_keys ks)" by auto
qed

lemma with_key_snoc:
  "with_key env k (fs @ [f]) = with_key env k fs @ (if file_key env f = k then [f] else [])"
  by (simp add: with_key_def)

lemma with_key_Nil: "with_key env k fs = [] \<longleftrightarrow> k \<notin> set (map (file_key env) fs)"
  by (auto simp: with_key_def filter_empty_conv)

lemma merge_group_snoc: "g \<noteq> [] \<Longrightarrow> merge_group (g @ [f]) = merge_into (merge_group g) f"
  by (cases g) (simp_all add: merge_group_def)

text \<open>The state of the loop after the files \<open>fs\<close>.\<close>

definition merged_state :: "path_env \<Rightarrow> changed_file list \<Rightarrow> changed_file list \<times> (ustr, nat) jsmap \<Rightarrow> bool" where
  "merged_state env fs s \<longleftrightarrow>
     (let ks = first_keys (map (file_key env) fs) in
      fst s = map (\<lambda>k. merge_group (with_key env k fs)) ks \<and>
      (\<forall>k i. jm_get (snd s) k = Some i \<longleftrightarrow> i < length ks \<and> ks ! i = k))"

lemma merged_state_step:
  assumes "merged_state env fs s"
  shows "merged_state env (fs @ [f]) (merge_file env s f)"
proof -
  define ks where "ks = first_keys (map (file_key env) fs)"
  define k where "k = file_key env f"
  obtain files idx where s: "s = (files, idx)" by (cases s)
  have files: "files = map (\<lambda>k. merge_group (with_key env k fs)) ks"
    and idx: "\<And>k i. jm_get idx k = Some i \<longleftrightarrow> i < length ks \<and> ks ! i = k"
    using assms by (simp_all add: merged_state_def s ks_def Let_def)
  have ks': "first_keys (map (file_key env) (fs @ [f])) = add_key ks k"
    by (simp add: first_keys_snoc ks_def k_def)
  have dist: "distinct ks" by (simp add: ks_def first_keys_distinct)
  show ?thesis
  proof (cases "jm_get idx k")
    case None
    then have new: "k \<notin> set ks" using idx by (metis in_set_conv_nth option.distinct(1))
    then have "with_key env k fs = []" by (simp add: with_key_Nil ks_def)
    moreover have "with_key env k' (fs @ [f]) = with_key env k' fs" if "k' \<in> set ks" for k'
      using that new by (auto simp: with_key_snoc k_def)
    ultimately have "fst (merge_file env s f) = map (\<lambda>k. merge_group (with_key env k (fs @ [f]))) (ks @ [k])"
      using None by (simp add: s merge_file_def k_def [symmetric] files)
        (simp add: with_key_snoc k_def [symmetric] merge_group_def)
    moreover have "jm_get (snd (merge_file env s f)) k' = Some i \<longleftrightarrow>
        i < length (ks @ [k]) \<and> (ks @ [k]) ! i = k'" for k' i
      using None new by (auto simp: s merge_file_def k_def [symmetric] files idx nth_append in_set_conv_nth less_Suc_eq)
    ultimately show ?thesis
      unfolding merged_state_def ks' Let_def using new by (simp add: add_key_def)
  next
    case (Some i)
    then have i: "i < length ks" "ks ! i = k" using idx by auto
    then have old: "k \<in> set ks" by auto
    then have ne: "with_key env k fs \<noteq> []" by (simp add: with_key_Nil ks_def)
    have "files[i := merge_into (files ! i) f] = map (\<lambda>k. merge_group (with_key env k (fs @ [f]))) ks"
    proof (rule nth_equalityI)
      fix j assume "j < length (files[i := merge_into (files ! i) f])"
      then have j: "j < length ks" by (simp add: files)
      show "files[i := merge_into (files ! i) f] ! j = map (\<lambda>k. merge_group (with_key env k (fs @ [f]))) ks ! j"
      proof (cases "j = i")
        case True
        then show ?thesis
          using i j ne by (simp add: files with_key_snoc k_def [symmetric] merge_group_snoc)
      next
        case False
        then have "ks ! j \<noteq> k" using dist i j by (auto simp: nth_eq_iff_index_eq)
        then show ?thesis using False j by (simp add: files with_key_snoc k_def)
      qed
    qed (simp add: files)
    moreover have "merge_file env s f = (files[i := merge_into (files ! i) f], idx)"
      using Some by (simp add: s merge_file_def k_def [symmetric])
    ultimately show ?thesis
      unfolding merged_state_def ks' Let_def using old idx by (simp add: add_key_def)
  qed
qed

lemma merged_state_run: "merged_state env fs (foldl (merge_file env) ([], []) fs)"
proof (induction fs rule: rev_induct)
  case Nil
  show ?case by (simp add: merged_state_def first_keys_def)
next
  case (snoc f fs)
  then show ?case by (simp add: merged_state_step)
qed

fun status_rank :: "changed_status \<Rightarrow> nat" where
  "status_rank Deleted = 3"
| "status_rank Added = 2"
| "status_rank Renamed = 1"
| "status_rank Modified = 0"

lemma merge_rank: "status_rank (mergeFileStatus a b) = max (status_rank a) (status_rank b)"
  by (cases a; cases b) (simp_all add: mergeFileStatus_def)

text \<open>A group that is merged: the counts are summed, the latest reference and the highest status stay.\<close>

lemma merge_into_parts [simp]:
  "cf_path (merge_into a b) = cf_path a" "cf_diffRef (merge_into a b) = cf_diffRef b"
  "cf_additions (merge_into a b) = cf_additions a + cf_additions b"
  "cf_deletions (merge_into a b) = cf_deletions a + cf_deletions b"
  "status_rank (cf_status (merge_into a b)) = max (status_rank (cf_status a)) (status_rank (cf_status b))"
  by (simp_all add: merge_into_def merge_rank)

definition is_merge_of :: "changed_file \<Rightarrow> changed_file list \<Rightarrow> bool" where
  "is_merge_of f g \<longleftrightarrow> cf_path f = cf_path (hd g) \<and>
     cf_additions f = sum_list (map cf_additions g) \<and> cf_deletions f = sum_list (map cf_deletions g) \<and>
     cf_diffRef f = cf_diffRef (last g) \<and>
     status_rank (cf_status f) = Max (set (map (status_rank \<circ> cf_status) g))"

lemma merge_group_ok: "g \<noteq> [] \<Longrightarrow> is_merge_of (merge_group g) g"
proof (induction g rule: rev_nonempty_induct)
  case (single x)
  show ?case by (simp add: is_merge_of_def merge_group_def)
next
  case (snoc x g)
  then show ?case by (auto simp: is_merge_of_def merge_group_snoc max.commute)
qed

lemma totals_sum: "computeChangedFileTotals fs = (sum_list (map cf_additions fs), sum_list (map cf_deletions fs))"
proof -
  have "foldl (\<lambda>(a, d) f. (a + cf_additions f, d + cf_deletions f)) (a, d) fs =
    (a + sum_list (map cf_additions fs), d + sum_list (map cf_deletions fs))" for a d
    by (induction fs arbitrary: a d) simp_all
  then show ?thesis by (simp add: computeChangedFileTotals_def)
qed

lemma sum_over_groups:
  "distinct ks \<Longrightarrow> set (map (file_key env) fs) \<subseteq> set ks \<Longrightarrow>
   sum_list (map (\<lambda>k. sum_list (map p (with_key env k fs))) ks) = (sum_list (map p fs) :: nat)"
proof (induction fs)
  case (Cons f fs)
  let ?k = "file_key env f"
  have "sum_list (map (\<lambda>k. sum_list (map p (with_key env k (f # fs)))) ks) =
    sum_list (map (\<lambda>k. (if k = ?k then p f else 0) + sum_list (map p (with_key env k fs))) ks)"
    by (rule arg_cong [of _ _ sum_list]) (simp add: with_key_def)
  also have "\<dots> = sum_list (map (\<lambda>k. if k = ?k then p f else 0) ks) + sum_list (map p fs)"
    using Cons by (simp add: sum_list_addf)
  also have "sum_list (map (\<lambda>k. if k = ?k then p f else 0) ks) = p f"
    using Cons.prems by (simp add: sum_list_distinct_conv_sum_set)
  finally show ?case by simp
qed (simp add: with_key_def)

lemma merge_all_files:
  "foldl (\<lambda>st x. foldl (merge_file env) st (ps_files x)) s summaries =
   foldl (merge_file env) s (concat (map ps_files summaries))"
  by (induction summaries arbitrary: s) simp_all

text \<open>C30: Merging summaries groups their files by path: the merged files are one per path, in the order the
  paths first appear; each has the sums of the added and removed lines of its group, the diff
  reference of the latest entry and the highest of their states (deleted, added, renamed, modified);
  and the totals are the sums over all files of all summaries.\<close>

theorem merge_groups_by_path:
  assumes "mergeAiAgentPatchSummaries env summaries = Some r"
    and "files = concat (map ps_files summaries)"
  shows "map (file_key env) (ps_files r) = first_keys (map (file_key env) files) \<and>
    distinct (map (file_key env) (ps_files r)) \<and>
    list_all (\<lambda>f. is_merge_of f (with_key env (file_key env f) files)) (ps_files r) \<and>
    ps_totalAdditions r = sum_list (map cf_additions files) \<and>
    ps_totalDeletions r = sum_list (map cf_deletions files)"
proof -
  let ?ks = "first_keys (map (file_key env) files)"
  have pf: "ps_files r = fst (foldl (merge_file env) ([], []) files)"
    and totals: "(ps_totalAdditions r, ps_totalDeletions r) = computeChangedFileTotals (ps_files r)"
    using assms unfolding mergeAiAgentPatchSummaries_def merge_all_files
    by (auto split: list.splits if_splits simp: Let_def split_beta)
  then have fs: "ps_files r = map (\<lambda>k. merge_group (with_key env k files)) ?ks"
    using merged_state_run [of env files] by (simp add: merged_state_def Let_def)
  have group: "is_merge_of (merge_group (with_key env k files)) (with_key env k files) \<and>
      file_key env (merge_group (with_key env k files)) = k" if "k \<in> set ?ks" for k
  proof -
    have ne: "with_key env k files \<noteq> []" using that by (simp add: with_key_Nil)
    then have "hd (with_key env k files) \<in> set (with_key env k files)" by simp
    then have "file_key env (hd (with_key env k files)) = k" by (simp only: with_key_def) simp
    with merge_group_ok [OF ne] show ?thesis by (simp add: is_merge_of_def file_key_def)
  qed
  have keys: "map (file_key env) (ps_files r) = ?ks"
    unfolding fs map_map using group by (auto intro: map_idI)
  moreover have "list_all (\<lambda>f. is_merge_of f (with_key env (file_key env f) files)) (ps_files r)"
    unfolding fs using group by (auto simp: list_all_iff)
  moreover have "map cf_additions (ps_files r) = map (\<lambda>k. sum_list (map cf_additions (with_key env k files))) ?ks"
    "map cf_deletions (ps_files r) = map (\<lambda>k. sum_list (map cf_deletions (with_key env k files))) ?ks"
    unfolding fs map_map by (rule map_cong, simp, use group in \<open>simp add: is_merge_of_def\<close>)+
  then have "sum_list (map cf_additions (ps_files r)) = sum_list (map cf_additions files)"
    "sum_list (map cf_deletions (ps_files r)) = sum_list (map cf_deletions files)"
    using sum_over_groups [OF first_keys_distinct, of env files "map (file_key env) files"] by simp_all
  ultimately show ?thesis using totals first_keys_distinct by (simp add: totals_sum)
qed

definition edited :: "ustr \<Rightarrow> changed_status \<Rightarrow> nat \<Rightarrow> changed_file" where
  "edited path st n = \<lparr>cf_path = path, cf_status = st, cf_additions = n, cf_deletions = 1,
     cf_diffRef = number n, cf_rollbackRef = None\<rparr>"

definition small_summary :: "changed_file list \<Rightarrow> patch_summary" where
  "small_summary fs = \<lparr>ps_id = [49], ps_runId = [], ps_stepId = [], ps_files = fs, ps_totalAdditions = 0,
     ps_totalDeletions = 0, ps_patchRef = [], ps_appliedAt = None, ps_revertedAt = None\<rparr>"

lemma merge_small:
  "\<exists>r. mergeAiAgentPatchSummaries env (small_summary (f # fs) # ss) = Some r"
proof -
  have "fst (foldl (merge_file env) ([], []) (f # fs @ gs)) \<noteq> []" for gs
    using merged_state_run [of env "f # fs @ gs"] first_keys_set [of "map (file_key env) (f # fs @ gs)"]
    by (auto simp: merged_state_def Let_def simp del: first_keys_set)
  then show ?thesis
    unfolding mergeAiAgentPatchSummaries_def merge_all_files
    by (auto simp: small_summary_def split_beta Let_def)
qed

theorem merge_groups_by_path_witness:
  "ps_totalAdditions (the (mergeAiAgentPatchSummaries plain_env
     [small_summary [edited [97] Added 2, edited [98] Modified 3], small_summary [edited [97] Modified 4]])) = 9"
proof -
  obtain r where r: "mergeAiAgentPatchSummaries plain_env
      [small_summary [edited [97] Added 2, edited [98] Modified 3], small_summary [edited [97] Modified 4]] = Some r"
    using merge_small by blast
  from merge_groups_by_path [OF r refl] r show ?thesis
    by (simp add: small_summary_def edited_def)
qed

section \<open>Lines that begin with dashes\<close>

text \<open>A removed line whose text begins with two dashes (a SQL or Lua comment, a command-line flag) is
  taken for a file header: the preview leaves it out and gives the next line its number, the
  statistics count nothing, and a patch that only removes such lines is marked empty.\<close>

theorem removed_dashes_vanish:
  "let h = \<lparr>ph_oldStart = n, ph_oldLines = 2, ph_newStart = n, ph_newLines = 1,
         ph_lines = [45 # lit ''--'' @ a, 32 # b]\<rparr>;
       f = \<lparr>pf_path = path, pf_originalHash = hash, pf_hunks = [h]\<rparr>
   in map (\<lambda>x. (pw_kind x, pw_content x, pw_oldLineNumber x)) (hv_lines (preview_hunk path r 0 h)) =
        [(PContext, b, Some n)] \<and>
      countAiPatchFileLineStats f = (0, 0) \<and>
      dp_isEmpty (buildGitDiffPreview env f path base)"
proof -
  have "classifyDiffLine (45 # lit ''--'' @ a) = SkipLine" "classifyDiffLine (32 # b) = ContextLine b"
    "\<And>m. count_line m (45 # lit ''--'' @ a) = m" "\<And>m. count_line m (32 # b) = m"
    by (simp_all add: classifyDiffLine_def starts_with_def lit_def count_line_def split_beta)
  then show ?thesis
    by (simp add: Let_def preview_hunk_def buildLinePreview_def countAiPatchFileLineStats_def
        buildGitDiffPreview_def materializePatchContent_def materialize_hunk_closed changes_def
        materialize_start_def)
qed

end
