(* ===== verification/GitStore.thy ===== *)
theory GitStore
  imports Paths Zod
begin

text \<open>
  The Git store (\<open>src/store/git.ts\<close>). Every action that waits for the backend is cut at its
  \<open>await\<close>: the first stretch appends a call to \<open>gi_calls\<close>, and the event \<open>Settle\<close> runs the rest of
  it with the backend's reply, in any order. Request tokens, the epoch of the baseline cache and the
  map of pending baseline requests are as in the source. Commits, branches, stashes, baselines and
  what the store only passes on of a status are JSON values.
\<close>

section \<open>State\<close>

record git_status =
  gs_available :: bool
  gs_message :: "ustr option"
  gs_repositoryRootPath :: "ustr option"
  gs_stagedCount :: nat
  gs_unstagedCount :: nat
  gs_untrackedCount :: nat
  gs_conflictedCount :: nat
  gs_rest :: json_value

definition createEmptyGitRepositoryStatus :: git_status where
  "createEmptyGitRepositoryStatus = \<lparr>gs_available = False, gs_message = None,
     gs_repositoryRootPath = None, gs_stagedCount = 0, gs_unstagedCount = 0, gs_untrackedCount = 0,
     gs_conflictedCount = 0,
     gs_rest = JObj [(''repositoryName'', JNull), (''gitDirPath'', JNull), (''headBranchName'', JNull),
       (''headShortName'', JNull), (''headShortOid'', JNull), (''isDetached'', JBool False),
       (''isClean'', JBool True), (''ahead'', JInt 0), (''behind'', JInt 0), (''files'', JArr []),
       (''lastCommit'', JNull)]\<rparr>"

definition createEmptyPullRequestSupport :: json_value where
  "createEmptyPullRequestSupport = JObj [(''available'', JBool False), (''remoteName'', JNull),
     (''provider'', JStr (lit ''unknown'')), (''repositoryUrl'', JNull), (''pullRequestsUrl'', JNull),
     (''createPullRequestUrl'', JNull)]"

text \<open>A resource with its request token and loading flag.\<close>

record 'a slot =
  sl_value :: 'a
  sl_token :: nat
  sl_loading :: bool

record history =
  hi_entries :: "json_value list"
  hi_hasMore :: bool
  hi_nextOffset :: "nat option"

definition empty_history :: history where
  "empty_history = \<lparr>hi_entries = [], hi_hasMore = False, hi_nextOffset = Some 0\<rparr>"

datatype load_kind = LHistory bool | LBranches | LStashes | LPullRequests

datatype git_call =
    StatusCall nat ustr bool
  | LoadCall load_kind nat ustr
  | BaselineCall ustr nat
  | PathsCall "ustr list" bool
  | CommitCall
  | CheckoutCall
  | CreateBranchCall bool
  | SaveStashCall
  | ApplyStashCall
  | DropStashCall

record git =
  gi_status :: git_status
  gi_statusToken :: nat
  gi_isLoading :: bool
  gi_isCommitting :: bool
  gi_cache :: "(ustr, json_value) jsmap"
  gi_epoch :: nat
  gi_pending :: "(ustr, nat) jsmap"
  gi_history :: "history slot"
  gi_branches :: "json_value list slot"
  gi_stashes :: "json_value list slot"
  gi_pullRequests :: "json_value slot"
  gi_calls :: "git_call list"

definition new_slot :: "'a \<Rightarrow> 'a slot" where
  "new_slot v = \<lparr>sl_value = v, sl_token = 0, sl_loading = False\<rparr>"

definition new_git :: git where
  "new_git = \<lparr>gi_status = createEmptyGitRepositoryStatus, gi_statusToken = 0, gi_isLoading = False,
     gi_isCommitting = False, gi_cache = [], gi_epoch = 0, gi_pending = [],
     gi_history = new_slot empty_history, gi_branches = new_slot [], gi_stashes = new_slot [],
     gi_pullRequests = new_slot createEmptyPullRequestSupport, gi_calls = []\<rparr>"

section \<open>Slots\<close>

definition begin_slot :: "'a slot \<Rightarrow> 'a slot" where
  "begin_slot sl = sl\<lparr>sl_token := sl_token sl + 1, sl_loading := True\<rparr>"

definition finish_slot :: "nat \<Rightarrow> ('a \<Rightarrow> 'a) \<Rightarrow> 'a slot \<Rightarrow> 'a slot" where
  "finish_slot requestId f sl =
     (if requestId = sl_token sl then sl\<lparr>sl_value := f (sl_value sl), sl_loading := False\<rparr> else sl)"

definition reset_slot :: "'a \<Rightarrow> 'a slot \<Rightarrow> 'a slot" where
  "reset_slot v sl = sl\<lparr>sl_value := v, sl_token := sl_token sl + 1\<rparr>"

text \<open>A loader that throws before it sends its request, and \<open>reset\<close>, leave the slot stopped.\<close>

definition stop_slot :: "'a slot \<Rightarrow> 'a slot" where
  "stop_slot sl = sl\<lparr>sl_token := sl_token sl + 1, sl_loading := False\<rparr>"

section \<open>Resets and the baseline cache\<close>

definition clearBaselineCache :: "git \<Rightarrow> git" where
  "clearBaselineCache s = s\<lparr>gi_cache := [], gi_epoch := gi_epoch s + 1\<rparr>"

definition resetCommitHistory :: "git \<Rightarrow> git" where
  "resetCommitHistory s = s\<lparr>gi_history := reset_slot empty_history (gi_history s)\<rparr>"

definition resetBranches :: "git \<Rightarrow> git" where
  "resetBranches s = s\<lparr>gi_branches := reset_slot [] (gi_branches s)\<rparr>"

definition resetStashes :: "git \<Rightarrow> git" where
  "resetStashes s = s\<lparr>gi_stashes := reset_slot [] (gi_stashes s)\<rparr>"

definition resetPullRequestSupport :: "git \<Rightarrow> git" where
  "resetPullRequestSupport s =
     s\<lparr>gi_pullRequests := reset_slot createEmptyPullRequestSupport (gi_pullRequests s)\<rparr>"

definition resetSupplementaryData :: "git \<Rightarrow> git" where
  "resetSupplementaryData s =
     resetPullRequestSupport (resetStashes (resetBranches (resetCommitHistory s)))"

definition git_key :: "path_env \<Rightarrow> ustr \<Rightarrow> ustr" where
  "git_key env p = normalizeFileSystemPath env default_normalize p"

definition invalidateFileBaseline :: "path_env \<Rightarrow> ustr \<Rightarrow> git \<Rightarrow> git" where
  "invalidateFileBaseline env p s =
     (let key = git_key env p in
      if key = [] then s
      else if jm_get (gi_cache s) key = None \<and> jm_get (gi_pending s) key = None then s
      else s\<lparr>gi_cache := jm_delete (gi_cache s) key, gi_epoch := gi_epoch s + 1\<rparr>)"

text \<open>What a caller of \<open>getFileBaseline\<close> waits for: a cached payload, or the request made at an
  epoch.\<close>

datatype baseline_answer = CachedBaseline json_value | PendingBaseline nat

definition getFileBaseline :: "path_env \<Rightarrow> ustr \<Rightarrow> git \<Rightarrow> baseline_answer \<times> git" where
  "getFileBaseline env p s =
     (let key = git_key env p in
      case jm_get (gi_cache s) key of
        Some payload \<Rightarrow> (CachedBaseline payload, s)
      | None \<Rightarrow>
          (case jm_get (gi_pending s) key of
             Some epoch \<Rightarrow> (PendingBaseline epoch, s)
           | None \<Rightarrow> (PendingBaseline (gi_epoch s),
               s\<lparr>gi_pending := jm_set (gi_pending s) key (gi_epoch s),
                 gi_calls := gi_calls s @ [BaselineCall key (gi_epoch s)]\<rparr>)))"

definition git_reset :: "git \<Rightarrow> git" where
  "git_reset s = resetSupplementaryData (clearBaselineCache
     (s\<lparr>gi_statusToken := gi_statusToken s + 1, gi_isLoading := False, gi_isCommitting := False,
        gi_history := stop_slot (gi_history s), gi_branches := stop_slot (gi_branches s),
        gi_stashes := stop_slot (gi_stashes s), gi_pullRequests := stop_slot (gi_pullRequests s),
        gi_status := createEmptyGitRepositoryStatus\<rparr>))"

section \<open>Status\<close>

definition root_key :: "path_env \<Rightarrow> git_status \<Rightarrow> ustr" where
  "root_key env st = git_key env (orElse (gs_repositoryRootPath st) [])"

definition applyStatus :: "path_env \<Rightarrow> git_status \<Rightarrow> git \<Rightarrow> git" where
  "applyStatus env payload s =
     (let s1 = s\<lparr>gi_status := payload\<rparr> in
      if root_key env (gi_status s) \<noteq> root_key env payload \<or> \<not> gs_available payload
      then resetSupplementaryData (clearBaselineCache s1) else s1)"

datatype git_error = InitNoRepository "ustr option" | InitMismatch ustr ustr | NoRepository

definition requireRepositoryRootPath :: "git \<Rightarrow> ustr option" where
  "requireRepositoryRootPath s =
     (case gs_repositoryRootPath (gi_status s) of None \<Rightarrow> None | Some r \<Rightarrow> if r = [] then None else Some r)"

definition assertInitializedRepositoryStatus :: "path_env \<Rightarrow> git_status \<Rightarrow> ustr \<Rightarrow> git_error option" where
  "assertInitializedRepositoryStatus env payload workspaceRoot =
     (case gs_repositoryRootPath payload of
        None \<Rightarrow> Some (InitNoRepository (gs_message payload))
      | Some r \<Rightarrow>
          (if \<not> gs_available payload \<or> r = [] then Some (InitNoRepository (gs_message payload))
           else if \<not> areFileSystemPathsEqual env r workspaceRoot then Some (InitMismatch workspaceRoot r)
           else None))"

text \<open>\<open>runStatusRequest\<close> up to its \<open>await\<close>; the flag is set for \<open>initRepository\<close>.\<close>

definition runStatusRequest :: "ustr \<Rightarrow> bool \<Rightarrow> git \<Rightarrow> git" where
  "runStatusRequest workspaceRoot validate s =
     (if workspaceRoot = [] then git_reset s
      else s\<lparr>gi_statusToken := gi_statusToken s + 1, gi_isLoading := True,
             gi_calls := gi_calls s @ [StatusCall (gi_statusToken s + 1) workspaceRoot validate]\<rparr>)"

definition status_settled ::
    "path_env \<Rightarrow> nat \<Rightarrow> ustr \<Rightarrow> bool \<Rightarrow> git_status option \<Rightarrow> git \<Rightarrow> git" where
  "status_settled env requestId workspaceRoot validate reply s =
     (if requestId \<noteq> gi_statusToken s then s
      else (case reply of
              None \<Rightarrow> s
            | Some payload \<Rightarrow>
                (if validate \<and> assertInitializedRepositoryStatus env payload workspaceRoot \<noteq> None
                 then s else applyStatus env payload s))\<lparr>gi_isLoading := False\<rparr>)"

section \<open>Paths, commits, branches and stashes\<close>

fun dedup_paths :: "path_env \<Rightarrow> ustr set \<Rightarrow> ustr list \<Rightarrow> ustr list" where
  "dedup_paths env seen [] = []"
| "dedup_paths env seen (p # ps) =
     (let key = git_key env p in
      if key = [] \<or> key \<in> seen then dedup_paths env seen ps
      else p # dedup_paths env (insert key seen) ps)"

definition deduplicatePaths :: "path_env \<Rightarrow> ustr list \<Rightarrow> ustr list" where
  "deduplicatePaths env ps = dedup_paths env {} ps"

text \<open>An action that needs the repository: without one it throws before anything is sent.\<close>

definition send_call :: "git_call \<Rightarrow> git \<Rightarrow> git" where
  "send_call c s = (if requireRepositoryRootPath s = None then s else s\<lparr>gi_calls := gi_calls s @ [c]\<rparr>)"

definition runPathsMutation :: "path_env \<Rightarrow> ustr list \<Rightarrow> bool \<Rightarrow> git \<Rightarrow> git" where
  "runPathsMutation env ps discard s =
     (let ds = deduplicatePaths env ps in if ds = [] then s else send_call (PathsCall ds discard) s)"

definition paths_settled :: "path_env \<Rightarrow> ustr list \<Rightarrow> bool \<Rightarrow> git_status \<Rightarrow> git \<Rightarrow> git" where
  "paths_settled env ds discard payload s =
     applyStatus env payload
       (if discard then foldl (\<lambda>s p. invalidateFileBaseline env p s) s ds else s)"

definition commitIndex :: "git \<Rightarrow> git" where
  "commitIndex s =
     (if requireRepositoryRootPath s = None then s\<lparr>gi_isCommitting := False\<rparr>
      else s\<lparr>gi_isCommitting := True, gi_calls := gi_calls s @ [CommitCall]\<rparr>)"

definition commit_settled :: "path_env \<Rightarrow> git_status option \<Rightarrow> git \<Rightarrow> git" where
  "commit_settled env reply s =
     (case reply of None \<Rightarrow> s | Some payload \<Rightarrow> clearBaselineCache (applyStatus env payload s))
       \<lparr>gi_isCommitting := False\<rparr>"

definition checkout_settled :: "path_env \<Rightarrow> git_status \<Rightarrow> git \<Rightarrow> git" where
  "checkout_settled env payload s = applyStatus env payload (resetBranches (clearBaselineCache s))"

definition createBranch_settled :: "path_env \<Rightarrow> bool \<Rightarrow> git_status \<Rightarrow> git \<Rightarrow> git" where
  "createBranch_settled env checkout payload s =
     applyStatus env payload (resetBranches (if checkout then clearBaselineCache s else s))"

definition stash_settled :: "path_env \<Rightarrow> git_status \<Rightarrow> git \<Rightarrow> git" where
  "stash_settled env payload s = applyStatus env payload (resetStashes (clearBaselineCache s))"

definition dropStash_settled :: "path_env \<Rightarrow> git_status \<Rightarrow> git \<Rightarrow> git" where
  "dropStash_settled env payload s = applyStatus env payload (resetStashes s)"

section \<open>Loaders\<close>

definition loadCommitHistory :: "bool \<Rightarrow> git \<Rightarrow> git" where
  "loadCommitHistory appending s =
     (if appending \<and> hi_nextOffset (sl_value (gi_history s)) = None then s
      else case requireRepositoryRootPath s of
        None \<Rightarrow> s\<lparr>gi_history := stop_slot (gi_history s)\<rparr>
      | Some r \<Rightarrow> s\<lparr>gi_history := begin_slot (gi_history s),
          gi_calls := gi_calls s @ [LoadCall (LHistory appending) (sl_token (gi_history s) + 1) r]\<rparr>)"

definition loadBranches :: "git \<Rightarrow> git" where
  "loadBranches s =
     (case requireRepositoryRootPath s of
        None \<Rightarrow> s\<lparr>gi_branches := stop_slot (gi_branches s)\<rparr>
      | Some r \<Rightarrow> s\<lparr>gi_branches := begin_slot (gi_branches s),
          gi_calls := gi_calls s @ [LoadCall LBranches (sl_token (gi_branches s) + 1) r]\<rparr>)"

definition loadStashes :: "git \<Rightarrow> git" where
  "loadStashes s =
     (case requireRepositoryRootPath s of
        None \<Rightarrow> s\<lparr>gi_stashes := stop_slot (gi_stashes s)\<rparr>
      | Some r \<Rightarrow> s\<lparr>gi_stashes := begin_slot (gi_stashes s),
          gi_calls := gi_calls s @ [LoadCall LStashes (sl_token (gi_stashes s) + 1) r]\<rparr>)"

definition loadPullRequestSupport :: "git \<Rightarrow> git" where
  "loadPullRequestSupport s =
     (case requireRepositoryRootPath s of
        None \<Rightarrow> s\<lparr>gi_pullRequests := stop_slot (gi_pullRequests s)\<rparr>
      | Some r \<Rightarrow> s\<lparr>gi_pullRequests := begin_slot (gi_pullRequests s),
          gi_calls := gi_calls s @ [LoadCall LPullRequests (sl_token (gi_pullRequests s) + 1) r]\<rparr>)"

text \<open>A reply: a rejection, a status, a list (with the paging data of a history), or one value. A reply
  of the wrong kind is rejected by the contract check of the service.\<close>

datatype git_reply =
    Rejected
  | StatusReply git_status
  | ListReply "json_value list" bool "nat option"
  | ValueReply json_value

definition history_reply :: "bool \<Rightarrow> git_reply \<Rightarrow> history \<Rightarrow> history" where
  "history_reply appending reply h =
     (case reply of
        ListReply es hasMore next \<Rightarrow>
          \<lparr>hi_entries = (if appending then hi_entries h @ es else es), hi_hasMore = hasMore, hi_nextOffset = next\<rparr>
      | _ \<Rightarrow> h)"

definition list_reply :: "git_reply \<Rightarrow> json_value list \<Rightarrow> json_value list" where
  "list_reply reply v = (case reply of ListReply es hasMore next \<Rightarrow> es | _ \<Rightarrow> v)"

definition value_reply :: "git_reply \<Rightarrow> json_value \<Rightarrow> json_value" where
  "value_reply reply v = (case reply of ValueReply x \<Rightarrow> x | _ \<Rightarrow> v)"

fun load_settled :: "load_kind \<Rightarrow> nat \<Rightarrow> git_reply \<Rightarrow> git \<Rightarrow> git" where
  "load_settled (LHistory appending) requestId reply s =
     s\<lparr>gi_history := finish_slot requestId (history_reply appending reply) (gi_history s)\<rparr>"
| "load_settled LBranches requestId reply s =
     s\<lparr>gi_branches := finish_slot requestId (list_reply reply) (gi_branches s)\<rparr>"
| "load_settled LStashes requestId reply s =
     s\<lparr>gi_stashes := finish_slot requestId (list_reply reply) (gi_stashes s)\<rparr>"
| "load_settled LPullRequests requestId reply s =
     s\<lparr>gi_pullRequests := finish_slot requestId (value_reply reply) (gi_pullRequests s)\<rparr>"

definition baseline_settled :: "ustr \<Rightarrow> nat \<Rightarrow> git_reply \<Rightarrow> git \<Rightarrow> git" where
  "baseline_settled key epochAtRequest reply s =
     (case reply of
        ValueReply payload \<Rightarrow>
          (if epochAtRequest = gi_epoch s then s\<lparr>gi_cache := jm_set (gi_cache s) key payload\<rparr> else s)
      | _ \<Rightarrow> s)\<lparr>gi_pending := jm_delete (gi_pending s) key\<rparr>"

section \<open>Events\<close>

definition status_of :: "git_reply \<Rightarrow> git_status option" where
  "status_of reply = (case reply of StatusReply st \<Rightarrow> Some st | _ \<Rightarrow> None)"

definition on_status :: "(git_status \<Rightarrow> git \<Rightarrow> git) \<Rightarrow> git_reply \<Rightarrow> git \<Rightarrow> git" where
  "on_status f reply s = (case status_of reply of None \<Rightarrow> s | Some st \<Rightarrow> f st s)"

fun call_settled :: "path_env \<Rightarrow> git_call \<Rightarrow> git_reply \<Rightarrow> git \<Rightarrow> git" where
  "call_settled env (StatusCall i r v) reply s = status_settled env i r v (status_of reply) s"
| "call_settled env (LoadCall k i r) reply s = load_settled k i reply s"
| "call_settled env (BaselineCall key e) reply s = baseline_settled key e reply s"
| "call_settled env (PathsCall ds d) reply s = on_status (paths_settled env ds d) reply s"
| "call_settled env CommitCall reply s = commit_settled env (status_of reply) s"
| "call_settled env CheckoutCall reply s = on_status (checkout_settled env) reply s"
| "call_settled env (CreateBranchCall b) reply s = on_status (createBranch_settled env b) reply s"
| "call_settled env SaveStashCall reply s = on_status (stash_settled env) reply s"
| "call_settled env ApplyStashCall reply s = on_status (stash_settled env) reply s"
| "call_settled env DropStashCall reply s = on_status (dropStash_settled env) reply s"

datatype git_event =
    RefreshStatus ustr
  | InitRepository ustr
  | StagePaths "ustr list"
  | UnstagePaths "ustr list"
  | DiscardPaths "ustr list"
  | CommitIndex
  | LoadHistory bool
  | LoadBranches
  | LoadStashes
  | LoadPullRequests
  | CheckoutBranch
  | CreateBranch bool
  | SaveStash
  | ApplyStash
  | DropStash
  | GetBaseline ustr
  | InvalidateBaseline ustr
  | ClearBaselines
  | ResetGit
  | Settle nat git_reply

definition remove_call :: "nat \<Rightarrow> git \<Rightarrow> git" where
  "remove_call i s = s\<lparr>gi_calls := take i (gi_calls s) @ drop (Suc i) (gi_calls s)\<rparr>"

fun git_step :: "path_env \<Rightarrow> git \<Rightarrow> git_event \<Rightarrow> git" where
  "git_step env s (RefreshStatus r) = runStatusRequest r False s"
| "git_step env s (InitRepository r) = runStatusRequest r True s"
| "git_step env s (StagePaths ps) = runPathsMutation env ps False s"
| "git_step env s (UnstagePaths ps) = runPathsMutation env ps False s"
| "git_step env s (DiscardPaths ps) = runPathsMutation env ps True s"
| "git_step env s CommitIndex = commitIndex s"
| "git_step env s (LoadHistory appending) = loadCommitHistory appending s"
| "git_step env s LoadBranches = loadBranches s"
| "git_step env s LoadStashes = loadStashes s"
| "git_step env s LoadPullRequests = loadPullRequestSupport s"
| "git_step env s CheckoutBranch = send_call CheckoutCall s"
| "git_step env s (CreateBranch b) = send_call (CreateBranchCall b) s"
| "git_step env s SaveStash = send_call SaveStashCall s"
| "git_step env s ApplyStash = send_call ApplyStashCall s"
| "git_step env s DropStash = send_call DropStashCall s"
| "git_step env s (GetBaseline p) = snd (getFileBaseline env p s)"
| "git_step env s (InvalidateBaseline p) = invalidateFileBaseline env p s"
| "git_step env s ClearBaselines = clearBaselineCache s"
| "git_step env s ResetGit = git_reset s"
| "git_step env s (Settle i reply) =
     (if i < length (gi_calls s) then call_settled env (gi_calls s ! i) reply (remove_call i s) else s)"

section \<open>Getters\<close>

definition hasRepository :: "git \<Rightarrow> bool" where
  "hasRepository s \<longleftrightarrow> gs_available (gi_status s) \<and> requireRepositoryRootPath s \<noteq> None"

definition totalChangeCount :: "git \<Rightarrow> nat" where
  "totalChangeCount s = (let st = gi_status s in
     gs_stagedCount st + gs_unstagedCount st + gs_untrackedCount st + gs_conflictedCount st)"

definition canLoadMoreCommitHistory :: "git \<Rightarrow> bool" where
  "canLoadMoreCommitHistory s \<longleftrightarrow>
     hi_hasMore (sl_value (gi_history s)) \<and> hi_nextOffset (sl_value (gi_history s)) \<noteq> None"

section \<open>Data of the current repository\<close>

fun load_token :: "load_kind \<Rightarrow> git \<Rightarrow> nat" where
  "load_token (LHistory appending) s = sl_token (gi_history s)"
| "load_token LBranches s = sl_token (gi_branches s)"
| "load_token LStashes s = sl_token (gi_stashes s)"
| "load_token LPullRequests s = sl_token (gi_pullRequests s)"

text \<open>\<open>P r x\<close>: the datum x belongs to the repository with key r. What a slot shows belongs to r, or is
  its empty value.\<close>

definition shows_only :: "(ustr \<Rightarrow> json_value \<Rightarrow> bool) \<Rightarrow> ustr \<Rightarrow> git \<Rightarrow> bool" where
  "shows_only P r s \<longleftrightarrow> list_all (P r) (hi_entries (sl_value (gi_history s))) \<and>
     list_all (P r) (sl_value (gi_branches s)) \<and> list_all (P r) (sl_value (gi_stashes s)) \<and>
     (sl_value (gi_pullRequests s) = createEmptyPullRequestSupport \<or> P r (sl_value (gi_pullRequests s)))"

text \<open>A load in flight is superseded, or was sent for the repository that is shown.\<close>

fun call_current :: "path_env \<Rightarrow> git \<Rightarrow> git_call \<Rightarrow> bool" where
  "call_current env s (LoadCall k i r) \<longleftrightarrow>
     i < load_token k s \<or> (i = load_token k s \<and> git_key env r = root_key env (gi_status s))"
| "call_current env s _ \<longleftrightarrow> True"

definition repo_ok :: "path_env \<Rightarrow> (ustr \<Rightarrow> json_value \<Rightarrow> bool) \<Rightarrow> git \<Rightarrow> bool" where
  "repo_ok env P s \<longleftrightarrow> list_all (call_current env s) (gi_calls s) \<and>
     shows_only P (root_key env (gi_status s)) s"

fun reply_belongs :: "(ustr \<Rightarrow> json_value \<Rightarrow> bool) \<Rightarrow> ustr \<Rightarrow> git_reply \<Rightarrow> bool" where
  "reply_belongs P r (ListReply es hasMore next) \<longleftrightarrow> list_all (P r) es"
| "reply_belongs P r (ValueReply x) \<longleftrightarrow> P r x"
| "reply_belongs P r _ \<longleftrightarrow> True"

text \<open>The backend answers a load with data of the repository it was asked for.\<close>

fun honest_event :: "path_env \<Rightarrow> (ustr \<Rightarrow> json_value \<Rightarrow> bool) \<Rightarrow> git \<Rightarrow> git_event \<Rightarrow> bool" where
  "honest_event env P s (Settle i reply) \<longleftrightarrow>
     (if i < length (gi_calls s)
      then (case gi_calls s ! i of LoadCall k t r \<Rightarrow> reply_belongs P (git_key env r) reply | _ \<Rightarrow> True)
      else True)"
| "honest_event env P s _ \<longleftrightarrow> True"

fun honest :: "path_env \<Rightarrow> (ustr \<Rightarrow> json_value \<Rightarrow> bool) \<Rightarrow> git \<Rightarrow> git_event list \<Rightarrow> bool" where
  "honest env P s [] \<longleftrightarrow> True"
| "honest env P s (e # es) \<longleftrightarrow> honest_event env P s e \<and> honest env P (git_step env s e) es"

lemmas reset_defs = resetSupplementaryData_def resetPullRequestSupport_def resetStashes_def
  resetBranches_def resetCommitHistory_def reset_slot_def clearBaselineCache_def empty_history_def

lemma call_current_mono:
  assumes "call_current env s c" and "\<And>k. load_token k s \<le> load_token k t"
    and "root_key env (gi_status t) = root_key env (gi_status s) \<or> (\<forall>k. load_token k s < load_token k t)"
  shows "call_current env t c"
proof (cases c)
  case (LoadCall k i r)
  then show ?thesis using assms(1,3) assms(2) [of k] by fastforce
qed simp_all

lemma repo_ok_mono:
  assumes "repo_ok env P s"
    and "\<And>c. c \<in> set (gi_calls t) \<Longrightarrow> c \<in> set (gi_calls s) \<or> call_current env t c"
    and "\<And>k. load_token k s \<le> load_token k t"
    and "root_key env (gi_status t) = root_key env (gi_status s) \<or> (\<forall>k. load_token k s < load_token k t)"
    and "shows_only P (root_key env (gi_status t)) t"
  shows "repo_ok env P t"
  using assms call_current_mono [of env s _ t] by (fastforce simp: repo_ok_def list_all_iff)

lemma supplementary_reset:
  "load_token k s < load_token k (resetSupplementaryData s)" "shows_only P r (resetSupplementaryData s)"
  "gi_calls (resetSupplementaryData s) = gi_calls s" "gi_status (resetSupplementaryData s) = gi_status s"
  by (cases k, simp_all add: reset_defs shows_only_def)

lemma baseline_parts [simp]:
  "load_token k (clearBaselineCache s) = load_token k s" "gi_calls (clearBaselineCache s) = gi_calls s"
  "gi_status (clearBaselineCache s) = gi_status s"
  "load_token k (s\<lparr>gi_status := st\<rparr>) = load_token k s"
  "load_token k (s\<lparr>gi_isLoading := b\<rparr>) = load_token k s"
  "load_token k (s\<lparr>gi_isCommitting := b\<rparr>) = load_token k s"
  by (cases k; simp add: clearBaselineCache_def)+

lemma apply_status_ok:
  assumes "repo_ok env P s"
  shows "repo_ok env P (applyStatus env st s)"
proof (cases "root_key env (gi_status s) \<noteq> root_key env st \<or> \<not> gs_available st")
  case True
  then have t: "applyStatus env st s = resetSupplementaryData (clearBaselineCache (s\<lparr>gi_status := st\<rparr>))"
    by (auto simp: applyStatus_def Let_def)
  have lt: "load_token k s < load_token k (applyStatus env st s)" for k
    using supplementary_reset(1) [of k "clearBaselineCache (s\<lparr>gi_status := st\<rparr>)"] by (simp add: t)
  show ?thesis
    by (rule repo_ok_mono [OF assms]) (use lt in \<open>auto simp: t supplementary_reset less_imp_le\<close>)
next
  case False
  then have "applyStatus env st s = s\<lparr>gi_status := st\<rparr>" by (simp add: applyStatus_def Let_def)
  with False assms show ?thesis
    by (intro repo_ok_mono [OF assms]) (auto simp: repo_ok_def shows_only_def)
qed

lemma invalidate_parts [simp]:
  "load_token k (invalidateFileBaseline env p s) = load_token k s"
  "gi_calls (invalidateFileBaseline env p s) = gi_calls s"
  "gi_status (invalidateFileBaseline env p s) = gi_status s"
  "shows_only P r (invalidateFileBaseline env p s) = shows_only P r s"
  by (cases k; simp add: invalidateFileBaseline_def Let_def shows_only_def)+

lemma invalidate_all_parts [simp]:
  "load_token k (foldl (\<lambda>s p. invalidateFileBaseline env p s) s ds) = load_token k s"
  "gi_calls (foldl (\<lambda>s p. invalidateFileBaseline env p s) s ds) = gi_calls s"
  "gi_status (foldl (\<lambda>s p. invalidateFileBaseline env p s) s ds) = gi_status s"
  "shows_only P r (foldl (\<lambda>s p. invalidateFileBaseline env p s) s ds) = shows_only P r s"
  by (induction ds arbitrary: s) simp_all

lemma slot_reset_parts:
  "load_token k s \<le> load_token k (resetBranches s)" "load_token k s \<le> load_token k (resetStashes s)"
  "gi_calls (resetBranches s) = gi_calls s" "gi_calls (resetStashes s) = gi_calls s"
  "gi_status (resetBranches s) = gi_status s" "gi_status (resetStashes s) = gi_status s"
  "shows_only P r s \<Longrightarrow> shows_only P r (resetBranches s)"
  "shows_only P r s \<Longrightarrow> shows_only P r (resetStashes s)"
  by (cases k; simp add: reset_defs shows_only_def)+

lemma shows_only_parts [simp]:
  "shows_only P r (s\<lparr>gi_isLoading := b\<rparr>) = shows_only P r s"
  "shows_only P r (s\<lparr>gi_isCommitting := b\<rparr>) = shows_only P r s"
  "shows_only P r (s\<lparr>gi_calls := cs\<rparr>) = shows_only P r s"
  "shows_only P r (clearBaselineCache s) = shows_only P r s"
  by (simp_all add: shows_only_def clearBaselineCache_def)

lemma calls_token [simp]:
  "load_token k (s\<lparr>gi_calls := cs\<rparr>) = load_token k s"
  "load_token k (s\<lparr>gi_pending := ps\<rparr>) = load_token k s"
  "load_token k (s\<lparr>gi_statusToken := n\<rparr>) = load_token k s"
  by (cases k; simp)+

lemma repo_ok_shows: "repo_ok env P s \<Longrightarrow> shows_only P (root_key env (gi_status s)) s"
  by (simp add: repo_ok_def)

lemma quiet_repo_ok:
  assumes "repo_ok env P s"
  shows "repo_ok env P (s\<lparr>gi_isLoading := b\<rparr>)" "repo_ok env P (s\<lparr>gi_isCommitting := b\<rparr>)"
    "repo_ok env P (clearBaselineCache s)" "repo_ok env P (invalidateFileBaseline env p s)"
    "repo_ok env P (foldl (\<lambda>s p. invalidateFileBaseline env p s) s ds)"
    "repo_ok env P (resetBranches s)" "repo_ok env P (resetStashes s)"
    "repo_ok env P (remove_call i s)"
  by (rule repo_ok_mono [OF assms]; use repo_ok_shows [OF assms] in
      \<open>auto simp: slot_reset_parts remove_call_def dest: in_set_takeD in_set_dropD\<close>)+

lemma send_repo_ok: "repo_ok env P s \<Longrightarrow> (\<And>k i r. c \<noteq> LoadCall k i r) \<Longrightarrow> repo_ok env P (send_call c s)"
  by (cases c) (auto simp: send_call_def intro!: repo_ok_mono [of env P s] dest: repo_ok_shows)

lemma git_reset_ok: "repo_ok env P s \<Longrightarrow> repo_ok env P (git_reset s)"
proof -
  assume ok: "repo_ok env P s"
  have lt: "load_token k s < load_token k (git_reset s)" for k
    by (cases k) (simp_all add: git_reset_def reset_defs stop_slot_def)
  show ?thesis
    by (rule repo_ok_mono [OF ok]) (use lt in \<open>auto simp: git_reset_def supplementary_reset less_imp_le\<close>)
qed

lemma required_root: "requireRepositoryRootPath s = Some r \<Longrightarrow> git_key env r = root_key env (gi_status s)"
  by (auto simp: requireRepositoryRootPath_def root_key_def orElse_def split: option.splits if_splits)

lemma load_repo_ok:
  assumes "repo_ok env P s"
  shows "repo_ok env P (loadCommitHistory appending s)" "repo_ok env P (loadBranches s)"
    "repo_ok env P (loadStashes s)" "repo_ok env P (loadPullRequestSupport s)"
proof -
  note showing = repo_ok_shows [OF assms]
  note defs = loadCommitHistory_def loadBranches_def loadStashes_def loadPullRequestSupport_def
    begin_slot_def stop_slot_def shows_only_def
  have tok: "load_token k s \<le> load_token k (loadCommitHistory appending s)"
    "load_token k s \<le> load_token k (loadBranches s)" "load_token k s \<le> load_token k (loadStashes s)"
    "load_token k s \<le> load_token k (loadPullRequestSupport s)" for k
    by (cases k; simp add: defs split: option.split)+
  show "repo_ok env P (loadCommitHistory appending s)"
    by (rule repo_ok_mono [OF assms]) (use showing tok in \<open>auto simp: defs required_root split: option.splits if_splits\<close>)
  show "repo_ok env P (loadBranches s)"
    by (rule repo_ok_mono [OF assms]) (use showing tok in \<open>auto simp: defs required_root split: option.splits\<close>)
  show "repo_ok env P (loadStashes s)"
    by (rule repo_ok_mono [OF assms]) (use showing tok in \<open>auto simp: defs required_root split: option.splits\<close>)
  show "repo_ok env P (loadPullRequestSupport s)"
    by (rule repo_ok_mono [OF assms]) (use showing tok in \<open>auto simp: defs required_root split: option.splits\<close>)
qed

lemma load_settled_ok:
  assumes "repo_ok env P s" and "call_current env s (LoadCall k i r)" and "reply_belongs P (git_key env r) reply"
  shows "repo_ok env P (load_settled k i reply s)"
proof (rule repo_ok_mono [OF assms(1)])
  have same: "gi_status (load_settled k i reply s) = gi_status s" by (cases k) simp_all
  show "c \<in> set (gi_calls (load_settled k i reply s)) \<Longrightarrow>
      c \<in> set (gi_calls s) \<or> call_current env (load_settled k i reply s) c" for c
    by (cases k) simp_all
  show "load_token k' s \<le> load_token k' (load_settled k i reply s)" for k'
    by (cases k; cases k') (simp_all add: finish_slot_def)
  show "root_key env (gi_status (load_settled k i reply s)) = root_key env (gi_status s) \<or>
      (\<forall>k'. load_token k' s < load_token k' (load_settled k i reply s))"
    by (simp add: same)
  show "shows_only P (root_key env (gi_status (load_settled k i reply s))) (load_settled k i reply s)"
    unfolding same using repo_ok_shows [OF assms(1)] assms(2,3)
    by (cases k; cases reply)
      (auto simp: shows_only_def finish_slot_def history_reply_def list_reply_def value_reply_def)
qed

lemma baseline_settled_ok: "repo_ok env P s \<Longrightarrow> repo_ok env P (baseline_settled key e reply s)"
proof -
  assume ok: "repo_ok env P s"
  have tok: "load_token k (baseline_settled key e reply s) = load_token k s" for k
    by (cases k) (simp_all add: baseline_settled_def split: git_reply.split)
  show ?thesis
    by (rule repo_ok_mono [OF ok]) (use repo_ok_shows [OF ok] tok in
      \<open>auto simp: baseline_settled_def shows_only_def split: git_reply.splits if_splits\<close>)
qed

lemma call_settled_ok:
  assumes ok: "repo_ok env P s" and "call_current env s c"
    and "\<And>k i r. c = LoadCall k i r \<Longrightarrow> reply_belongs P (git_key env r) reply"
  shows "repo_ok env P (call_settled env c reply s)"
  using assms(2,3)
  by (cases c) (auto simp: on_status_def status_settled_def paths_settled_def commit_settled_def
      checkout_settled_def createBranch_settled_def stash_settled_def dropStash_settled_def
      intro!: apply_status_ok quiet_repo_ok ok load_settled_ok [OF ok] baseline_settled_ok [OF ok]
      split: option.split)

lemma remove_call_current: "call_current env (remove_call i s) c = call_current env s c"
  by (cases c) (simp_all add: remove_call_def)

lemma git_call_ok:
  assumes "repo_ok env P s"
  shows "repo_ok env P (runStatusRequest r v s)" "repo_ok env P (commitIndex s)"
  unfolding runStatusRequest_def commitIndex_def
  using repo_ok_shows [OF assms]
  by (auto simp: shows_only_def intro!: git_reset_ok quiet_repo_ok repo_ok_mono [OF assms] assms)

lemma git_step_repo_ok:
  assumes ok: "repo_ok env P s" and honest: "honest_event env P s e"
  shows "repo_ok env P (git_step env s e)"
proof (cases e)
  case (Settle i reply)
  show ?thesis
  proof (cases "i < length (gi_calls s)")
    case True
    then have "call_current env s (gi_calls s ! i)" using ok by (simp add: repo_ok_def list_all_length)
    then have "call_current env (remove_call i s) (gi_calls s ! i)" by (simp add: remove_call_current)
    from call_settled_ok [OF quiet_repo_ok(8) [OF ok] this] show ?thesis
      using Settle True honest by (auto split: git_call.splits)
  qed (use Settle ok in simp)
next
  case (GetBaseline p)
  then show ?thesis
    using repo_ok_shows [OF ok]
    by (auto simp: getFileBaseline_def Let_def shows_only_def split: option.split
        intro!: ok repo_ok_mono [OF ok])
qed (use ok in \<open>auto simp: runPathsMutation_def Let_def
    intro!: git_call_ok git_reset_ok send_repo_ok load_repo_ok quiet_repo_ok\<close>)

lemma git_run_repo_ok:
  "repo_ok env P s \<Longrightarrow> honest env P s events \<Longrightarrow> repo_ok env P (run_events (git_step env) s events)"
  by (induction events arbitrary: s) (simp_all add: git_step_repo_ok)

lemma new_git_repo_ok: "repo_ok env P new_git"
  by (simp add: repo_ok_def shows_only_def new_git_def new_slot_def empty_history_def)

text \<open>C6: The history, branches, stashes and pull-request support that are shown always belong to the
  repository that is shown, although requests of several repositories are in flight at once and
  settle in any order: data that arrives after a switch is dropped. (The backend is trusted to
  answer a request with data of the repository it names.)\<close>

theorem git_shows_current_repository:
  assumes "honest env P new_git events"
  shows "let s = run_events (git_step env) new_git events in
    shows_only P (root_key env (gi_status s)) s"
  using git_run_repo_ok [OF new_git_repo_ok assms] by (simp add: repo_ok_def Let_def)

definition git_env :: path_env where
  "git_env = \<lparr>pa_normalize = (\<lambda>p. p), pa_basename = (\<lambda>p. p), pa_dirname = (\<lambda>p. p), pa_lower = (\<lambda>p. p)\<rparr>"

definition repo_at :: "nat \<Rightarrow> git_status" where
  "repo_at c = createEmptyGitRepositoryStatus\<lparr>gs_available := True, gs_repositoryRootPath := Some [c]\<rparr>"

lemma git_key_letter: "git_key git_env [c] = [if c = 92 then 47 else c]" "git_key git_env [] = []"
  by (simp_all add: git_key_def normalizeFileSystemPath_def default_normalize_def git_env_def
      stripWindowsVerbatimPrefix_def forward_slashes_def isWindowsStylePath_def)

definition switching :: "git_event list" where
  "switching = [RefreshStatus [97], Settle 0 (StatusReply (repo_at 97)), LoadBranches,
     RefreshStatus [98], Settle 1 (StatusReply (repo_at 98)), Settle 0 (ListReply [JStr [97]] False None)]"

lemmas git_evals = switching_def new_git_def new_slot_def runStatusRequest_def remove_call_def
  status_of_def status_settled_def applyStatus_def root_key_def orElse_def repo_at_def
  createEmptyGitRepositoryStatus_def git_key_letter loadBranches_def requireRepositoryRootPath_def
  begin_slot_def reset_defs finish_slot_def

theorem git_shows_current_repository_witness:
  "let s = run_events (git_step git_env) new_git switching in
     shows_only (\<lambda>r x. x = JStr r) (root_key git_env (gi_status s)) s \<and>
     root_key git_env (gi_status s) = [98] \<and> sl_value (gi_branches s) = []"
proof -
  have "honest git_env (\<lambda>r x. x = JStr r) new_git switching"
    by (simp add: git_evals)
  moreover have "root_key git_env (gi_status (run_events (git_step git_env) new_git switching)) = [98]"
    "sl_value (gi_branches (run_events (git_step git_env) new_git switching)) = []"
    by (simp_all add: git_evals)
  ultimately show ?thesis
    using git_shows_current_repository [of git_env "\<lambda>r x. x = JStr r" switching]
    unfolding Let_def by blast
qed

section \<open>Loading flags\<close>

text \<open>The status flag is up exactly while the latest status request is in flight.\<close>

definition status_ids :: "git \<Rightarrow> nat list" where
  "status_ids s = concat (map (\<lambda>c. case c of StatusCall i r v \<Rightarrow> [i] | _ \<Rightarrow> []) (gi_calls s))"

definition status_flag_ok :: "git \<Rightarrow> bool" where
  "status_flag_ok s \<longleftrightarrow> distinct (status_ids s) \<and> list_all (\<lambda>i. i \<le> gi_statusToken s) (status_ids s) \<and>
     gi_isLoading s = (gi_statusToken s \<in> set (status_ids s))"

fun status_id :: "git_call \<Rightarrow> nat list" where
  "status_id (StatusCall i r v) = [i]"
| "status_id _ = []"

lemma status_ids_fold: "status_ids s = concat (map status_id (gi_calls s))"
proof -
  have "(case c of StatusCall i r v \<Rightarrow> [i] | _ \<Rightarrow> []) = status_id c" for c by (cases c) simp_all
  then show ?thesis by (simp add: status_ids_def)
qed

text \<open>The rest of a call changes neither the status token nor the calls in flight, and only a status call
  changes the flag.\<close>

definition same_status_requests :: "git \<Rightarrow> git \<Rightarrow> bool" where
  "same_status_requests s t \<longleftrightarrow> gi_statusToken t = gi_statusToken s \<and> gi_calls t = gi_calls s \<and>
     gi_isLoading t = gi_isLoading s"

lemma apply_status_parts [simp]:
  "gi_statusToken (applyStatus env st s) = gi_statusToken s" "gi_calls (applyStatus env st s) = gi_calls s"
  "gi_isLoading (applyStatus env st s) = gi_isLoading s"
  by (simp_all add: applyStatus_def Let_def reset_defs)

lemma invalidate_status_parts [simp]:
  "same_status_requests s (foldl (\<lambda>s p. invalidateFileBaseline env p s) s ds)"
  by (induction ds arbitrary: s)
    (auto simp: same_status_requests_def invalidateFileBaseline_def Let_def)

lemma settled_status_parts:
  "(\<And>i r v. c \<noteq> StatusCall i r v) \<Longrightarrow> same_status_requests s (call_settled env c reply s)"
proof (cases c)
  case (LoadCall k i r)
  then show ?thesis by (cases k) (simp_all add: same_status_requests_def)
next
  case (PathsCall ds d)
  then show ?thesis
    using invalidate_status_parts [of s env ds]
    by (auto simp: same_status_requests_def on_status_def paths_settled_def split: option.split)
qed (auto simp: same_status_requests_def on_status_def commit_settled_def checkout_settled_def
    createBranch_settled_def stash_settled_def dropStash_settled_def baseline_settled_def reset_defs
    split: option.split git_reply.split)

lemma status_flag_calls:
  assumes "status_flag_ok s" and "gi_statusToken t = gi_statusToken s" and "gi_isLoading t = gi_isLoading s"
    and "status_ids t = status_ids s"
  shows "status_flag_ok t"
  using assms by (simp add: status_flag_ok_def)

lemma next_status_ok:
  assumes "status_flag_ok s" and "gi_statusToken t = Suc (gi_statusToken s)"
    and "(status_ids t = status_ids s \<and> \<not> gi_isLoading t) \<or>
      (status_ids t = status_ids s @ [Suc (gi_statusToken s)] \<and> gi_isLoading t)"
  shows "status_flag_ok t"
proof -
  have "\<forall>i\<in>set (status_ids s). i \<le> gi_statusToken s" "distinct (status_ids s)"
    using assms(1) by (simp_all add: status_flag_ok_def list_all_iff)
  then show ?thesis using assms(2,3) by (fastforce simp: status_flag_ok_def list_all_iff)
qed

lemma reset_status_ok: "status_flag_ok s \<Longrightarrow> status_flag_ok (git_reset s)"
  by (rule next_status_ok) (simp_all add: git_reset_def reset_defs status_ids_fold)

lemma begin_status_ok: "status_flag_ok s \<Longrightarrow> status_flag_ok (runStatusRequest r v s)"
  by (cases "r = []") (auto simp: runStatusRequest_def reset_status_ok status_ids_fold intro: next_status_ok)

lemma settle_status_ok:
  assumes ok: "status_flag_ok s" and i: "i < length (gi_calls s)"
  shows "status_flag_ok (call_settled env (gi_calls s ! i) reply (remove_call i s))"
proof -
  let ?c = "gi_calls s ! i"
  have split: "gi_calls s = take i (gi_calls s) @ ?c # drop (Suc i) (gi_calls s)"
    using i by (simp add: id_take_nth_drop)
  define A where "A = concat (map status_id (take i (gi_calls s)))"
  define B where "B = concat (map status_id (drop (Suc i) (gi_calls s)))"
  have ids: "status_ids s = A @ status_id ?c @ B"
    unfolding A_def B_def status_ids_fold by (subst split) simp
  have removed: "status_ids (remove_call i s) = A @ B"
    by (simp add: A_def B_def status_ids_fold remove_call_def)
  show ?thesis
  proof (cases "status_id ?c")
    case Nil
    then have "status_flag_ok (remove_call i s)"
      by (intro status_flag_calls [OF ok]) (simp_all add: ids removed, simp_all add: remove_call_def)
    moreover have "same_status_requests (remove_call i s) (call_settled env ?c reply (remove_call i s))"
      using Nil by (intro settled_status_parts) auto
    ultimately show ?thesis
      by (auto simp: same_status_requests_def status_ids_fold intro: status_flag_calls [of "remove_call i s"])
  next
    case (Cons n ns)
    then obtain r v where c: "?c = StatusCall n r v" by (cases ?c) auto
    let ?t = "call_settled env ?c reply (remove_call i s)"
    have t: "gi_statusToken ?t = gi_statusToken s" "status_ids ?t = A @ B"
      "gi_isLoading ?t = (gi_isLoading s \<and> n \<noteq> gi_statusToken s)"
      using removed by (auto simp: c status_settled_def status_ids_fold remove_call_def split: option.split)
    then show ?thesis using ok ids c by (auto simp: status_flag_ok_def)
  qed
qed

lemma send_status_ids:
  "status_id c = [] \<Longrightarrow> status_flag_ok s \<Longrightarrow> status_flag_ok (send_call c s)"
  by (simp add: send_call_def status_flag_ok_def status_ids_fold)

lemma load_status_ids:
  "status_flag_ok s \<Longrightarrow> status_flag_ok (loadCommitHistory appending s)"
  "status_flag_ok s \<Longrightarrow> status_flag_ok (loadBranches s)"
  "status_flag_ok s \<Longrightarrow> status_flag_ok (loadStashes s)"
  "status_flag_ok s \<Longrightarrow> status_flag_ok (loadPullRequestSupport s)"
  "status_flag_ok s \<Longrightarrow> status_flag_ok (commitIndex s)"
  "status_flag_ok s \<Longrightarrow> status_flag_ok (snd (getFileBaseline env p s))"
  "status_flag_ok s \<Longrightarrow> status_flag_ok (invalidateFileBaseline env p s)"
  "status_flag_ok s \<Longrightarrow> status_flag_ok (clearBaselineCache s)"
  by (simp_all add: status_flag_ok_def status_ids_fold loadCommitHistory_def loadBranches_def
      loadStashes_def loadPullRequestSupport_def commitIndex_def getFileBaseline_def Let_def
      invalidateFileBaseline_def clearBaselineCache_def split: option.split)

lemma git_step_status_ok: "status_flag_ok s \<Longrightarrow> status_flag_ok (git_step env s e)"
  by (cases e) (simp_all add: begin_status_ok reset_status_ok settle_status_ok runPathsMutation_def Let_def
      send_status_ids load_status_ids)

interpretation status_requests: machine "git_step env" new_git status_flag_ok for env
  by unfold_locales (simp_all add: git_step_status_ok, simp add: status_flag_ok_def status_ids_fold new_git_def)

text \<open>The status indicator is up exactly while the latest refresh or initialisation is in flight,
  whatever was started, superseded, reset or settled before.\<close>

theorem status_flag_follows_latest_request:
  "let s = run_events (git_step env) new_git events in
     gi_isLoading s = (gi_statusToken s \<in> set (status_ids s)) \<and> distinct (status_ids s)"
  using status_requests.inv_run [of env events] by (simp add: status_flag_ok_def Let_def)

text \<open>The flags of the other resources can stay up with no request in flight.\<close>

definition branch_call_below :: "nat \<Rightarrow> git_call \<Rightarrow> bool" where
  "branch_call_below n c \<longleftrightarrow> (case c of LoadCall k i r \<Rightarrow> (if k = LBranches then i < n else True) | _ \<Rightarrow> True)"

definition orphaned_branches :: "git \<Rightarrow> bool" where
  "orphaned_branches s \<longleftrightarrow> sl_loading (gi_branches s) \<and>
     list_all (branch_call_below (sl_token (gi_branches s))) (gi_calls s)"

fun keeps_branches_waiting :: "git_event \<Rightarrow> bool" where
  "keeps_branches_waiting LoadBranches \<longleftrightarrow> False"
| "keeps_branches_waiting ResetGit \<longleftrightarrow> False"
| "keeps_branches_waiting (RefreshStatus r) \<longleftrightarrow> r \<noteq> []"
| "keeps_branches_waiting (InitRepository r) \<longleftrightarrow> r \<noteq> []"
| "keeps_branches_waiting _ \<longleftrightarrow> True"

definition branches_kept :: "git \<Rightarrow> git \<Rightarrow> bool" where
  "branches_kept s t \<longleftrightarrow> sl_loading (gi_branches t) = sl_loading (gi_branches s) \<and>
     sl_token (gi_branches s) \<le> sl_token (gi_branches t)"

lemma branches_kept_apply: "branches_kept s t \<Longrightarrow> branches_kept s (applyStatus env st t)"
  by (simp add: branches_kept_def applyStatus_def Let_def reset_defs)

lemma branches_kept_invalidate:
  "branches_kept s t \<Longrightarrow> branches_kept s (foldl (\<lambda>s p. invalidateFileBaseline env p s) t ds)"
  by (induction ds arbitrary: t) (simp_all add: branches_kept_def invalidateFileBaseline_def Let_def)

lemma orphaned_step:
  assumes "orphaned_branches s" and "branches_kept s t"
    and "\<And>c. c \<in> set (gi_calls t) \<Longrightarrow> c \<in> set (gi_calls s) \<or> branch_call_below 0 c"
  shows "orphaned_branches t"
proof -
  have "branch_call_below n c \<Longrightarrow> n \<le> m \<Longrightarrow> branch_call_below m c" for n m c
    by (auto simp: branch_call_below_def split: git_call.splits if_splits)
  then show ?thesis using assms by (fastforce simp: orphaned_branches_def branches_kept_def list_all_iff)
qed

lemma settled_branches_kept:
  assumes "branch_call_below (sl_token (gi_branches s)) c"
  shows "branches_kept s (call_settled env c reply s)"
proof (cases c)
  case (LoadCall k i r)
  then show ?thesis using assms by (cases k) (auto simp: branches_kept_def finish_slot_def branch_call_below_def)
qed (auto simp: on_status_def status_settled_def paths_settled_def commit_settled_def
    checkout_settled_def createBranch_settled_def stash_settled_def dropStash_settled_def
    baseline_settled_def intro!: branches_kept_apply branches_kept_invalidate split: option.split git_reply.split,
    auto simp: branches_kept_def reset_defs applyStatus_def Let_def)

lemma call_settled_calls: "gi_calls (call_settled env c reply s) = gi_calls s"
proof (cases "\<exists>i r v. c = StatusCall i r v")
  case True
  then show ?thesis by (auto simp: status_settled_def split: option.split)
next
  case False
  then show ?thesis using settled_status_parts [of c s env reply] by (auto simp: same_status_requests_def)
qed

lemma orphaned_git_step:
  assumes o: "orphaned_branches s" and e: "keeps_branches_waiting e"
  shows "orphaned_branches (git_step env s e)"
proof (cases e)
  case (Settle i reply)
  show ?thesis
  proof (cases "i < length (gi_calls s)")
    case True
    have "orphaned_branches (remove_call i s)"
      by (rule orphaned_step [OF o])
        (auto simp: remove_call_def branches_kept_def dest: in_set_takeD in_set_dropD)
    moreover have "branch_call_below (sl_token (gi_branches (remove_call i s))) (gi_calls s ! i)"
      using o True by (simp add: orphaned_branches_def list_all_length remove_call_def)
    ultimately show ?thesis
      using Settle True by (auto intro: orphaned_step settled_branches_kept simp: call_settled_calls)
  qed (use Settle o in simp)
qed (rule orphaned_step [OF o]; use e in \<open>auto simp: branches_kept_def runStatusRequest_def
    runPathsMutation_def send_call_def commitIndex_def loadCommitHistory_def loadStashes_def
    loadPullRequestSupport_def getFileBaseline_def invalidateFileBaseline_def clearBaselineCache_def
    branch_call_below_def Let_def split: option.splits if_splits\<close>)+

lemma orphaned_run:
  "orphaned_branches s \<Longrightarrow> list_all keeps_branches_waiting es \<Longrightarrow>
   orphaned_branches (run_events (git_step env) s es)"
  by (induction es arbitrary: s) (simp_all add: orphaned_git_step)

text \<open>When a branch is checked out while the branch list is loading, the list's loading flag stays up
  after both have settled, and through everything else the user does, until the branches are loaded
  again or the store is reset: the reset inside the checkout supersedes the load, and a superseded
  load does not clear the flag.\<close>

theorem checkout_leaves_branches_loading:
  assumes "s = run_events (git_step env) new_git before" and "requireRepositoryRootPath s \<noteq> None"
    and "n = length (gi_calls s)" and "list_all keeps_branches_waiting rest"
  shows "sl_loading (gi_branches (run_events (git_step env) s
     ([LoadBranches, CheckoutBranch, Settle (Suc n) (StatusReply st), Settle n reply] @ rest)))"
proof -
  obtain r where r: "requireRepositoryRootPath s = Some r" using assms(2) by auto
  have "honest env (\<lambda>_ _. True) t es" for t es
  proof (induction es arbitrary: t)
    case (Cons e es)
    have "reply_belongs (\<lambda>_ _. True) k reply" for k reply
      by (cases reply) (simp_all add: list_all_iff)
    then show ?case using Cons by (cases e) (auto split: git_call.split)
  qed simp
  from git_run_repo_ok [OF new_git_repo_ok this] have "repo_ok env (\<lambda>_ _. True) s"
    by (simp add: assms(1))
  then have cur: "list_all (call_current env s) (gi_calls s)" by (simp add: repo_ok_def)
  have low: "branch_call_below m c" if "c \<in> set (gi_calls s)" "sl_token (gi_branches s) < m" for c m
    using that cur by (auto simp: branch_call_below_def list_all_iff split: git_call.splits if_splits
        dest!: bspec)
  let ?b = "gi_branches s"
  define s1 where "s1 = git_step env (git_step env s LoadBranches) CheckoutBranch"
  have req: "requireRepositoryRootPath (loadBranches s) = Some r"
    using r by (simp add: loadBranches_def requireRepositoryRootPath_def)
  have s1: "gi_calls s1 = gi_calls s @ [LoadCall LBranches (sl_token ?b + 1) r, CheckoutCall]"
    "sl_loading (gi_branches s1)" "sl_token (gi_branches s1) = sl_token ?b + 1"
    using req by (simp_all add: s1_def send_call_def, simp_all add: loadBranches_def r begin_slot_def)
  define s2 where "s2 = git_step env s1 (Settle (Suc n) (StatusReply st))"
  have s2: "s2 = checkout_settled env st (remove_call (Suc n) s1)"
    using s1(1) assms(3) by (simp add: s2_def on_status_def status_of_def nth_append)
  have calls2: "gi_calls s2 = gi_calls s @ [LoadCall LBranches (sl_token ?b + 1) r]"
    using s1(1) assms(3) by (simp add: s2 checkout_settled_def reset_defs remove_call_def)
  have "branches_kept s1 (resetBranches (clearBaselineCache (remove_call (Suc n) s1)))"
    "sl_token (gi_branches (resetBranches (clearBaselineCache (remove_call (Suc n) s1)))) = sl_token ?b + 2"
    using s1(3) by (simp_all add: branches_kept_def reset_defs remove_call_def)
  then have "sl_loading (gi_branches s2)" "sl_token ?b + 2 \<le> sl_token (gi_branches s2)"
    using s1(2) branches_kept_apply [of "resetBranches (clearBaselineCache (remove_call (Suc n) s1))" _ env st]
    by (auto simp: s2 checkout_settled_def branches_kept_def)
  then have "orphaned_branches s2"
    using low by (auto simp: orphaned_branches_def calls2 list_all_iff branch_call_below_def)
  then have "orphaned_branches (run_events (git_step env) s2 (Settle n reply # rest))"
    using assms(4) by (intro orphaned_run) simp_all
  then show ?thesis by (simp add: orphaned_branches_def s2_def s1_def)
qed

theorem checkout_leaves_branches_loading_witness:
  "let s = run_events (git_step git_env) new_git [RefreshStatus [97], Settle 0 (StatusReply (repo_at 97))] in
   sl_loading (gi_branches (run_events (git_step git_env) s
     ([LoadBranches, CheckoutBranch, Settle 1 (StatusReply (repo_at 97)), Settle 0 (ListReply [] False None)] @
      [RefreshStatus [97], LoadStashes])))"
proof -
  let ?before = "[RefreshStatus [97], Settle 0 (StatusReply (repo_at 97))]"
  let ?s = "run_events (git_step git_env) new_git ?before"
  have "requireRepositoryRootPath ?s \<noteq> None" "0 = length (gi_calls ?s)" by (simp_all add: git_evals)
  moreover have "list_all keeps_branches_waiting [RefreshStatus [97], LoadStashes]" by simp
  ultimately show ?thesis
    using checkout_leaves_branches_loading [of ?s git_env ?before 0 "[RefreshStatus [97], LoadStashes]"]
    unfolding Let_def One_nat_def by blast
qed

section \<open>Overtaken refreshes\<close>

text \<open>A refresh that was started before files were staged, and whose reply arrives after the reply of
  the staging, overwrites the newer status with its older one: only refreshes carry a token.\<close>

theorem older_refresh_overwrites_staging:
  assumes "requireRepositoryRootPath s \<noteq> None" and "n = length (gi_calls s)" and "path \<noteq> []"
    and "deduplicatePaths env ps \<noteq> []"
  shows "gi_status (run_events (git_step env) s
    [RefreshStatus path, StagePaths ps, Settle (Suc n) (StatusReply newer), Settle n (StatusReply older)]) = older"
proof -
  define s1 where "s1 = git_step env (git_step env s (RefreshStatus path)) (StagePaths ps)"
  have "requireRepositoryRootPath (runStatusRequest path False s) \<noteq> None"
    using assms(1,3) by (simp add: runStatusRequest_def requireRepositoryRootPath_def)
  then have s1: "gi_calls s1 = gi_calls s @ [StatusCall (gi_statusToken s + 1) path False,
      PathsCall (deduplicatePaths env ps) False]" "gi_statusToken s1 = gi_statusToken s + 1"
    using assms(3,4) by (simp_all add: s1_def runPathsMutation_def Let_def send_call_def,
        simp_all add: runStatusRequest_def)
  define s2 where "s2 = git_step env s1 (Settle (Suc n) (StatusReply newer))"
  have s2: "gi_calls s2 = gi_calls s @ [StatusCall (gi_statusToken s + 1) path False]"
    "gi_statusToken s2 = gi_statusToken s + 1"
    using s1 assms(2) by (simp_all add: s2_def on_status_def status_of_def paths_settled_def nth_append)
      (simp_all add: remove_call_def)
  have "gi_status (git_step env s2 (Settle n (StatusReply older))) = older"
    using s2 assms(2) by (simp add: status_settled_def status_of_def remove_call_def applyStatus_def Let_def reset_defs)
  then show ?thesis by (simp add: s2_def s1_def)
qed

theorem older_refresh_overwrites_staging_witness:
  "let s = run_events (git_step git_env) new_git [RefreshStatus [97], Settle 0 (StatusReply (repo_at 97))] in
   gi_status (run_events (git_step git_env) s [RefreshStatus [97], StagePaths [[99]],
     Settle 1 (StatusReply ((repo_at 97)\<lparr>gs_stagedCount := 1\<rparr>)), Settle 0 (StatusReply (repo_at 97))]) = repo_at 97"
proof -
  let ?s = "run_events (git_step git_env) new_git [RefreshStatus [97], Settle 0 (StatusReply (repo_at 97))]"
  have "requireRepositoryRootPath ?s \<noteq> None" "0 = length (gi_calls ?s)" by (simp_all add: git_evals)
  moreover have "deduplicatePaths git_env [[99]] \<noteq> []"
    by (simp add: deduplicatePaths_def Let_def git_key_letter)
  ultimately show ?thesis
    using older_refresh_overwrites_staging [of ?s 0 "[97]" git_env "[[99]]"]
    unfolding Let_def One_nat_def by blast
qed

section \<open>Baselines in flight\<close>

fun baseline_id :: "git_call \<Rightarrow> (ustr \<times> nat) list" where
  "baseline_id (BaselineCall key e) = [(key, e)]"
| "baseline_id _ = []"

definition baseline_ids :: "git \<Rightarrow> (ustr \<times> nat) list" where
  "baseline_ids s = concat (map baseline_id (gi_calls s))"

text \<open>One request per file is in flight, and \<open>pendingBaselineRequests\<close> has exactly these.\<close>

definition pending_ok :: "git \<Rightarrow> bool" where
  "pending_ok s \<longleftrightarrow> distinct (map fst (baseline_ids s)) \<and>
     (\<forall>key e. (key, e) \<in> set (baseline_ids s) \<longleftrightarrow> jm_get (gi_pending s) key = Some e) \<and>
     (\<forall>(key, e) \<in> set (baseline_ids s). e \<le> gi_epoch s)"

text \<open>What everything but the baseline requests does: the cache can only lose entries.\<close>

definition baseline_quiet :: "git \<Rightarrow> git \<Rightarrow> bool" where
  "baseline_quiet s t \<longleftrightarrow> gi_pending t = gi_pending s \<and> baseline_ids t = baseline_ids s \<and>
     gi_epoch s \<le> gi_epoch t \<and>
     (\<forall>key. jm_get (gi_cache t) key = None \<or> jm_get (gi_cache t) key = jm_get (gi_cache s) key)"

lemma quiet_refl: "baseline_quiet s s"
  by (simp add: baseline_quiet_def)

lemma quiet_trans: "baseline_quiet s t \<Longrightarrow> baseline_quiet t u \<Longrightarrow> baseline_quiet s u"
  by (auto simp: baseline_quiet_def) (metis order_trans)+

lemma quiet_pending_ok: "pending_ok s \<Longrightarrow> baseline_quiet s t \<Longrightarrow> pending_ok t"
  by (fastforce simp: pending_ok_def baseline_quiet_def)

lemma quiet_ops:
  "baseline_quiet s (clearBaselineCache s)" "baseline_quiet s (resetSupplementaryData s)"
  "baseline_quiet s (resetBranches s)" "baseline_quiet s (resetStashes s)"
  "baseline_quiet s (invalidateFileBaseline env p s)" "baseline_quiet s (s\<lparr>gi_status := st\<rparr>)"
  "baseline_quiet s (s\<lparr>gi_isLoading := b\<rparr>)" "baseline_quiet s (s\<lparr>gi_isCommitting := b\<rparr>)"
  by (simp_all add: baseline_quiet_def baseline_ids_def reset_defs invalidateFileBaseline_def Let_def)

lemma quiet_apply: "baseline_quiet s (applyStatus env st s)"
  unfolding applyStatus_def Let_def
  using quiet_ops(6) quiet_trans [OF quiet_trans [OF quiet_ops(6) quiet_ops(1)] quiet_ops(2)] by auto

lemma quiet_invalidate_all: "baseline_quiet s (foldl (\<lambda>s p. invalidateFileBaseline env p s) s ds)"
  by (induction ds arbitrary: s) (auto intro: quiet_refl quiet_trans [OF quiet_ops(5)])

lemma quiet_settled:
  assumes "baseline_id c = []"
  shows "baseline_quiet s (call_settled env c reply s)"
proof -
  have commit: "baseline_quiet s (commit_settled env x s)" for x
    unfolding commit_settled_def
    by (cases x) (auto intro: quiet_ops quiet_trans [OF quiet_trans [OF quiet_apply quiet_ops(1)] quiet_ops(8)])
  have status: "baseline_quiet s (status_settled env i r v x s)" for i r v x
    unfolding status_settled_def
    by (cases x) (auto intro: quiet_refl quiet_ops quiet_trans [OF quiet_apply quiet_ops(7)])
  have load: "baseline_quiet s (load_settled k i reply s)" for k i
    by (cases k) (simp_all add: baseline_quiet_def baseline_ids_def)
  have twice: "baseline_quiet s (applyStatus env st (f (clearBaselineCache s)))"
      "baseline_quiet s (applyStatus env st (f s))"
    if "\<And>t. baseline_quiet t (f t)" for f st
    using quiet_trans [OF quiet_trans [OF quiet_ops(1) that] quiet_apply] quiet_trans [OF that quiet_apply]
    by auto
  show ?thesis
    using assms
    by (cases c) (auto simp: on_status_def paths_settled_def checkout_settled_def createBranch_settled_def
        stash_settled_def dropStash_settled_def status load commit
        intro: quiet_refl quiet_apply twice quiet_ops quiet_trans [OF quiet_invalidate_all quiet_apply]
        split: option.split)
qed

lemma quiet_step:
  assumes "\<And>i reply. e \<noteq> Settle i reply" and "\<And>p. e \<noteq> GetBaseline p"
  shows "baseline_quiet s (git_step env s e)"
proof -
  have send: "baseline_id c = [] \<Longrightarrow> baseline_quiet s (send_call c s)" for c
    by (simp add: send_call_def baseline_quiet_def baseline_ids_def)
  have reset: "baseline_quiet s (git_reset s)"
    by (simp add: baseline_quiet_def baseline_ids_def git_reset_def reset_defs)
  show ?thesis
    using assms
    by (cases e) (auto simp: runPathsMutation_def Let_def send reset quiet_ops quiet_refl runStatusRequest_def,
      auto simp: baseline_quiet_def baseline_ids_def commitIndex_def loadCommitHistory_def loadBranches_def
        loadStashes_def loadPullRequestSupport_def split: option.split)
qed

lemma settle_baseline_ids:
  assumes "i < length (gi_calls s)"
  obtains A B where "baseline_ids s = A @ baseline_id (gi_calls s ! i) @ B"
    "baseline_ids (remove_call i s) = A @ B"
proof
  let ?A = "concat (map baseline_id (take i (gi_calls s)))"
  let ?B = "concat (map baseline_id (drop (Suc i) (gi_calls s)))"
  show "baseline_ids s = ?A @ baseline_id (gi_calls s ! i) @ ?B"
    unfolding baseline_ids_def by (subst id_take_nth_drop [OF assms]) simp
  show "baseline_ids (remove_call i s) = ?A @ ?B" by (simp add: baseline_ids_def remove_call_def)
qed

text \<open>What a step can do to the requests and the cache.\<close>

datatype baseline_change =
    Quiet
  | Started ustr
  | Finished ustr nat

definition baseline_changes :: "baseline_change \<Rightarrow> git \<Rightarrow> git \<Rightarrow> bool" where
  "baseline_changes ch s t \<longleftrightarrow>
     (case ch of
        Quiet \<Rightarrow> baseline_quiet s t
      | Started key \<Rightarrow> jm_get (gi_pending s) key = None \<and> gi_epoch t = gi_epoch s \<and>
          gi_pending t = jm_set (gi_pending s) key (gi_epoch s) \<and>
          baseline_ids t = baseline_ids s @ [(key, gi_epoch s)] \<and> gi_cache t = gi_cache s
      | Finished key e \<Rightarrow> gi_epoch t = gi_epoch s \<and> gi_pending t = jm_delete (gi_pending s) key \<and>
          (\<exists>A B. baseline_ids s = A @ (key, e) # B \<and> baseline_ids t = A @ B) \<and>
          (\<forall>k. jm_get (gi_cache t) k = jm_get (gi_cache s) k \<or> (k = key \<and> e = gi_epoch s)))"

lemma baseline_step: "\<exists>ch. baseline_changes ch s (git_step env s e)"
proof (cases e)
  case (GetBaseline p)
  show ?thesis
  proof (cases "jm_get (gi_cache s) (git_key env p) = None \<and> jm_get (gi_pending s) (git_key env p) = None")
    case True
    then have "baseline_changes (Started (git_key env p)) s (git_step env s e)"
      by (simp add: GetBaseline getFileBaseline_def Let_def baseline_changes_def baseline_ids_def)
    then show ?thesis ..
  next
    case False
    then have "git_step env s e = s"
      by (auto simp: GetBaseline getFileBaseline_def Let_def split: option.split)
    then show ?thesis by (auto simp: baseline_changes_def quiet_refl intro!: exI [of _ Quiet])
  qed
next
  case (Settle i reply)
  show ?thesis
  proof (cases "i < length (gi_calls s)")
    case True
    obtain A B where ids: "baseline_ids s = A @ baseline_id (gi_calls s ! i) @ B"
      "baseline_ids (remove_call i s) = A @ B"
      using settle_baseline_ids [OF True] .
    show ?thesis
    proof (cases "baseline_id (gi_calls s ! i)")
      case Nil
      have "baseline_quiet s (remove_call i s)"
        using ids Nil by (simp add: baseline_quiet_def) (simp add: remove_call_def)
      with quiet_settled [OF Nil] have "baseline_quiet s (git_step env s e)"
        using Settle True by (auto intro: quiet_trans)
      then show ?thesis by (auto simp: baseline_changes_def intro!: exI [of _ Quiet])
    next
      case (Cons x xs)
      then obtain key n where c: "gi_calls s ! i = BaselineCall key n" by (cases "gi_calls s ! i") auto
      have "baseline_ids (git_step env s e) = baseline_ids (remove_call i s)"
        using True by (simp add: Settle baseline_ids_def call_settled_calls)
      moreover have "gi_epoch (git_step env s e) = gi_epoch s"
        "gi_pending (git_step env s e) = jm_delete (gi_pending s) key"
        "jm_get (gi_cache (git_step env s e)) k = jm_get (gi_cache s) k \<or> (k = key \<and> n = gi_epoch s)" for k
        using True by (auto simp: Settle c baseline_settled_def remove_call_def split: git_reply.split)
      ultimately have "baseline_changes (Finished key n) s (git_step env s e)"
        using ids c by (auto simp: baseline_changes_def)
      then show ?thesis ..
    qed
  qed (auto simp: Settle baseline_changes_def quiet_refl intro!: exI [of _ Quiet])
qed (rule exI [of _ Quiet]; simp only: baseline_changes_def baseline_change.case; rule quiet_step; simp)+

lemma pending_ok_change:
  assumes ok: "pending_ok s" and ch: "baseline_changes ch s t"
  shows "pending_ok t"
proof (cases ch)
  case Quiet
  with ok ch quiet_pending_ok show ?thesis by (simp add: baseline_changes_def)
next
  case (Started key)
  then have "key \<notin> fst ` set (baseline_ids s)"
    using ok ch by (force simp: pending_ok_def baseline_changes_def)
  then show ?thesis using ok ch Started by (auto simp: pending_ok_def baseline_changes_def)
next
  case (Finished key e)
  then obtain A B where ids: "baseline_ids s = A @ (key, e) # B" "baseline_ids t = A @ B"
    and t: "gi_pending t = jm_delete (gi_pending s) key" "gi_epoch t = gi_epoch s"
    using ch by (auto simp: baseline_changes_def)
  have pend: "(k, n) \<in> set (baseline_ids s) \<longleftrightarrow> jm_get (gi_pending s) k = Some n" for k n
    using ok by (simp add: pending_ok_def)
  have dist: "distinct (map fst (A @ (key, e) # B))" using ok by (simp add: pending_ok_def ids)
  then have "(key, n) \<notin> set (A @ B)" for n by (force simp: rev_image_eqI)
  then have "(k, n) \<in> set (A @ B) \<longleftrightarrow> jm_get (jm_delete (gi_pending s) key) k = Some n" for k n
    using pend [of k n] by (cases "k = key") (auto simp: ids)
  moreover have "\<forall>(k, n) \<in> set (A @ B). n \<le> gi_epoch t"
    using ok t(2) by (auto simp: pending_ok_def ids)
  ultimately show ?thesis using dist by (simp add: pending_ok_def ids(2) t)
qed

interpretation baselines: machine "git_step env" new_git pending_ok for env
proof
  show "pending_ok new_git" by (simp add: pending_ok_def new_git_def baseline_ids_def)
  show "pending_ok s \<Longrightarrow> pending_ok (git_step env s e)" for s e
    using baseline_step pending_ok_change by blast
qed

text \<open>A request made before its file was invalidated.\<close>

definition outdated :: "ustr \<Rightarrow> nat \<Rightarrow> git \<Rightarrow> bool" where
  "outdated key e s \<longleftrightarrow> e < gi_epoch s \<and>
     ((key, e) \<in> set (baseline_ids s) \<longrightarrow> jm_get (gi_cache s) key = None)"

lemma outdated_change:
  assumes "pending_ok s" and "outdated key e s" and "baseline_changes ch s t"
  shows "outdated key e t"
proof (cases ch)
  case Quiet
  then show ?thesis using assms(2,3) by (auto simp: outdated_def baseline_changes_def baseline_quiet_def)
next
  case (Started key')
  then show ?thesis using assms(2,3) by (auto simp: outdated_def baseline_changes_def)
next
  case (Finished key' e')
  then obtain A B where ids: "baseline_ids s = A @ (key', e') # B" "baseline_ids t = A @ B"
    using assms(3) by (auto simp: baseline_changes_def)
  have t: "gi_epoch t = gi_epoch s"
    "jm_get (gi_cache t) key = jm_get (gi_cache s) key \<or> (key = key' \<and> e' = gi_epoch s)"
    using assms(3) Finished by (simp_all add: baseline_changes_def)
  have "key' \<noteq> key" if "(key, e) \<in> set (A @ B)"
  proof -
    have "distinct (map fst (A @ (key', e') # B))" using assms(1) by (simp add: pending_ok_def ids)
    then have "key' \<notin> fst ` set (A @ B)" by auto
    with that show ?thesis by (metis fst_conv image_eqI)
  qed
  moreover have "set (A @ B) \<subseteq> set (baseline_ids s)" by (auto simp: ids)
  ultimately show ?thesis using assms(2) t by (auto simp: outdated_def ids(2))
qed

lemma outdated_run:
  "pending_ok s \<Longrightarrow> outdated key e s \<Longrightarrow> pending_ok (run_events (git_step env) s es) \<and>
   outdated key e (run_events (git_step env) s es)"
proof (induction es arbitrary: s)
  case (Cons x es)
  obtain ch where ch: "baseline_changes ch s (git_step env s x)" using baseline_step by blast
  from Cons.IH [OF pending_ok_change [OF Cons.prems(1) ch] outdated_change [OF Cons.prems ch]]
  show ?case by simp
qed simp

lemma baseline_in_flight: "BaselineCall key e \<in> set (gi_calls s) \<Longrightarrow> (key, e) \<in> set (baseline_ids s)"
  by (force simp: baseline_ids_def)

text \<open>A baseline request that is in flight when its file is invalidated never fills the cache, whatever
  happens until it settles; but until then every later caller that asks for the file is handed this
  outdated request instead of a new one.\<close>

theorem invalidated_baseline_is_not_cached_but_joined:
  assumes "s = run_events (git_step env) new_git before" and "BaselineCall key e \<in> set (gi_calls s)"
    and "git_key env p = key" and "key \<noteq> []"
    and "t = run_events (git_step env) s (InvalidateBaseline p # rest)"
    and "BaselineCall key e \<in> set (gi_calls t)"
  shows "jm_get (gi_cache (baseline_settled key e reply t)) key = None \<and>
    getFileBaseline env p t = (PendingBaseline e, t) \<and> e < gi_epoch t"
proof -
  have ok: "pending_ok s" using baselines.inv_run assms(1) by simp
  then have s: "jm_get (gi_pending s) key = Some e" "e \<le> gi_epoch s"
    using baseline_in_flight [OF assms(2)] by (auto simp: pending_ok_def)
  define s1 where "s1 = invalidateFileBaseline env p s"
  have "outdated key e s1"
    using s assms(3,4) by (simp add: s1_def outdated_def invalidateFileBaseline_def Let_def)
  moreover have "pending_ok s1" using quiet_pending_ok [OF ok] quiet_ops(5) by (simp add: s1_def)
  ultimately have t: "pending_ok t" "outdated key e t"
    using outdated_run [of s1 key e env rest] assms(5) by (simp_all add: s1_def)
  with baseline_in_flight [OF assms(6)]
  have "jm_get (gi_cache t) key = None" "e < gi_epoch t" "jm_get (gi_pending t) key = Some e"
    by (auto simp: outdated_def pending_ok_def)
  then show ?thesis
    by (auto simp: baseline_settled_def getFileBaseline_def assms(3) split: git_reply.split)
qed

theorem invalidated_baseline_is_not_cached_but_joined_witness:
  "let t = run_events (git_step git_env) new_git [GetBaseline [99], InvalidateBaseline [99], ClearBaselines] in
     getFileBaseline git_env [99] t = (PendingBaseline 0, t) \<and> gi_epoch t = 2"
proof -
  let ?s = "run_events (git_step git_env) new_git [GetBaseline [99]]"
  let ?t = "run_events (git_step git_env) ?s (InvalidateBaseline [99] # [ClearBaselines])"
  note evals = git_evals getFileBaseline_def invalidateFileBaseline_def jm_get_def jm_set_def
  have "BaselineCall [99] 0 \<in> set (gi_calls ?s)" "git_key git_env [99] = [99]"
    "BaselineCall [99] 0 \<in> set (gi_calls ?t)" "gi_epoch ?t = 2"
    by (simp_all add: evals Let_def)
  then show ?thesis
    using invalidated_baseline_is_not_cached_but_joined [OF refl _ _ _ refl,
      of "[99]" 0 git_env "[GetBaseline [99]]" "[99]" "[ClearBaselines]"]
    unfolding Let_def by simp
qed

end
