(* ===== verification/AgentStore.thy ===== *)
theory AgentStore
  imports PlanSchema
begin

text \<open>
  The agent store (\<open>src/store/aiAgent.ts\<close>): the plan shown, the runs, token usage, what the steps of a
  run produced, tool activities and the pending confirmation, and what a restart makes of the persisted
  part. Times are arguments. What the store only passes on is a JSON value, and the part of the schemas
  that checks such a value is a parameter of type \<open>rest_schema\<close>. Objects that are used as maps keep their keys in
  insertion order, which for run identifiers (never digits only) is the order of JavaScript.
\<close>

section \<open>Data\<close>

definition AI_AGENT_TOOL_NAMES :: "string list" where
  "AI_AGENT_TOOL_NAMES = [''read_current_file'', ''read_selected_text'', ''search_files'', ''search_text'',
     ''search_symbols'', ''get_diagnostics'', ''get_git_diff'', ''get_terminal_log'', ''web_search'',
     ''web_fetch'', ''propose_patch'', ''auto_apply_patch'', ''run_test'', ''run_command'', ''stage_file'',
     ''create_commit'', ''get_project_tree'', ''read_file'', ''list_open_files'', ''get_package_scripts'',
     ''get_test_targets'']"

datatype agent_mode = ChatMode | PlanMode | AgentMode

datatype network_permission = NetworkOff | NetworkAsk | NetworkAllowed

datatype task_class = SimpleTask | ComplexTask

datatype run_status =
    WaitingForPlanApproval | RunningPlan | RunningStep | WaitingForToolConfirmation | PausedRun
  | CompletedRun | FailedRun | CancelledRun

datatype activity_state =
    ActStarting | ActRunning | ActWaiting | ActSucceeded | ActFailed | ActCancelled

record task_step =
  ts_id :: ustr
  ts_status :: step_status
  ts_tools :: "string list"
  ts_isActive :: "bool option"
  ts_rest :: json_value

record agent_run =
  ru_id :: ustr
  ru_status :: run_status
  ru_steps :: "task_step list"
  ru_currentStepId :: "ustr option"
  ru_updatedAt :: ustr
  ru_rest :: json_value

record input_details =
  id_noCacheTokens :: "nat option"
  id_cacheReadTokens :: "nat option"
  id_cacheWriteTokens :: "nat option"

record output_details =
  od_textTokens :: "nat option"
  od_reasoningTokens :: "nat option"

record usage =
  us_inputTokens :: nat
  us_inputTokenDetails :: "input_details option"
  us_outputTokens :: nat
  us_outputTokenDetails :: "output_details option"
  us_totalTokens :: nat
  us_cachedInputTokens :: "nat option"
  us_reasoningTokens :: "nat option"

record plan_metadata =
  md_planId :: ustr
  md_threadId :: "ustr option"
  md_version :: int
  md_status :: plan_status
  md_createdAt :: "ustr option"
  md_updatedAt :: "ustr option"
  md_approvedAt :: "ustr option option"
  md_executedAt :: "ustr option option"
  md_rejectionReason :: "ustr option option"
  md_errorMessage :: "ustr option option"
  md_summary :: "ustr option"
  md_requiresApproval :: "bool option"
  md_userRequest :: "ustr option"

record step_detail =
  sd_runId :: ustr
  sd_stepId :: ustr
  sd_webSources :: "json_value list"
  sd_toolResults :: "json_value list"
  sd_updatedAt :: ustr

record final_answer =
  fa_id :: ustr
  fa_runId :: ustr
  fa_rest :: json_value

record run_patch =
  rp_id :: ustr
  rp_runId :: ustr
  rp_rest :: json_value

record tool_activity =
  ta_id :: ustr
  ta_stepId :: ustr
  ta_toolName :: string
  ta_state :: activity_state
  ta_rest :: json_value

record confirmation =
  co_id :: ustr
  co_rest :: json_value

section \<open>State\<close>

record plan_shown =
  gp_approvedAt :: "ustr option"
  gp_planId :: "ustr option"
  gp_planVersion :: "int option"
  gp_planStatus :: "plan_status option"
  gp_planSummary :: ustr
  gp_requiresApproval :: bool
  gp_threadId :: "ustr option"
  gp_createdAt :: "ustr option"
  gp_updatedAt :: "ustr option"
  gp_executedAt :: "ustr option"
  gp_rejectionReason :: "ustr option"
  gp_errorMessage :: "ustr option"
  gp_versions :: "plan_metadata list"

record usage_state =
  ug_latestResolved :: bool
  ug_latest :: "usage option"
  ug_totalResolved :: bool
  ug_total :: "usage option"

record agent =
  ag_mode :: agent_mode
  ag_network :: network_permission
  ag_goal :: ustr
  ag_steps :: "task_step list"
  ag_classification :: "task_class option"
  ag_reason :: ustr
  ag_enterPlan :: bool
  ag_isClassifying :: bool
  ag_isPlanning :: bool
  ag_isApproving :: bool
  ag_plan :: plan_shown
  ag_activeRunId :: "ustr option"
  ag_runs :: "agent_run list"
  ag_usage :: usage_state
  ag_stepDetails :: "(ustr, step_detail) jsmap"
  ag_finalAnswers :: "(ustr, final_answer list) jsmap"
  ag_patches :: "(ustr, run_patch list) jsmap"
  ag_activities :: "(ustr, tool_activity list) jsmap"
  ag_confirmation :: "confirmation option"
  ag_session :: "json_value option"
  ag_error :: ustr

definition no_plan :: plan_shown where
  "no_plan = \<lparr>gp_approvedAt = None, gp_planId = None, gp_planVersion = None, gp_planStatus = None,
     gp_planSummary = [], gp_requiresApproval = True, gp_threadId = None, gp_createdAt = None,
     gp_updatedAt = None, gp_executedAt = None, gp_rejectionReason = None, gp_errorMessage = None,
     gp_versions = []\<rparr>"

definition no_usage :: usage_state where
  "no_usage = \<lparr>ug_latestResolved = False, ug_latest = None, ug_totalResolved = False, ug_total = None\<rparr>"

definition new_agent :: agent where
  "new_agent = \<lparr>ag_mode = AgentMode, ag_network = NetworkAsk, ag_goal = [], ag_steps = [],
     ag_classification = None, ag_reason = [], ag_enterPlan = False, ag_isClassifying = False,
     ag_isPlanning = False, ag_isApproving = False, ag_plan = no_plan, ag_activeRunId = None,
     ag_runs = [], ag_usage = no_usage, ag_stepDetails = [], ag_finalAnswers = [], ag_patches = [],
     ag_activities = [], ag_confirmation = None, ag_session = None, ag_error = []\<rparr>"

section \<open>Usage\<close>

definition addTokenCounts :: "nat option \<Rightarrow> nat option \<Rightarrow> nat option" where
  "addTokenCounts l r = (if l = None \<and> r = None then None else Some (orElse l 0 + orElse r 0))"

definition addRequiredTokenCounts :: "nat option \<Rightarrow> nat option \<Rightarrow> nat" where
  "addRequiredTokenCounts l r = orElse l 0 + orElse r 0"

definition addOfficialUsage :: "usage option \<Rightarrow> usage \<Rightarrow> usage" where
  "addOfficialUsage current next =
     (let detail = (\<lambda>d f. Option.bind d f);
          ci = Option.bind current us_inputTokenDetails; ni = us_inputTokenDetails next;
          co = Option.bind current us_outputTokenDetails; no = us_outputTokenDetails next
      in \<lparr>us_inputTokens = addRequiredTokenCounts (map_option us_inputTokens current) (Some (us_inputTokens next)),
          us_inputTokenDetails = Some
            \<lparr>id_noCacheTokens = Some (orElse (addTokenCounts (detail ci id_noCacheTokens) (detail ni id_noCacheTokens)) 0),
             id_cacheReadTokens = Some (orElse (addTokenCounts (detail ci id_cacheReadTokens) (detail ni id_cacheReadTokens)) 0),
             id_cacheWriteTokens = Some (orElse (addTokenCounts (detail ci id_cacheWriteTokens) (detail ni id_cacheWriteTokens)) 0)\<rparr>,
          us_outputTokens = addRequiredTokenCounts (map_option us_outputTokens current) (Some (us_outputTokens next)),
          us_outputTokenDetails = Some
            \<lparr>od_textTokens = Some (orElse (addTokenCounts (Option.bind co od_textTokens) (Option.bind no od_textTokens)) 0),
             od_reasoningTokens = Some (orElse (addTokenCounts (Option.bind co od_reasoningTokens) (Option.bind no od_reasoningTokens)) 0)\<rparr>,
          us_totalTokens = addRequiredTokenCounts (map_option us_totalTokens current) (Some (us_totalTokens next)),
          us_cachedInputTokens = addTokenCounts (Option.bind current us_cachedInputTokens) (us_cachedInputTokens next),
          us_reasoningTokens = addTokenCounts (Option.bind current us_reasoningTokens) (us_reasoningTokens next)\<rparr>)"

definition setLatestOfficialUsage :: "usage option \<Rightarrow> agent \<Rightarrow> agent" where
  "setLatestOfficialUsage u s =
     (let g = (ag_usage s)\<lparr>ug_latestResolved := True, ug_latest := u\<rparr> in
      s\<lparr>ag_usage := (case u of None \<Rightarrow> g
         | Some x \<Rightarrow> g\<lparr>ug_totalResolved := True, ug_total := Some (addOfficialUsage (ug_total g) x)\<rparr>)\<rparr>)"

definition clearLatestOfficialUsage :: "agent \<Rightarrow> agent" where
  "clearLatestOfficialUsage s = s\<lparr>ag_usage := no_usage\<rparr>"

section \<open>Plans\<close>

definition resetPlanScaffold :: "agent \<Rightarrow> agent" where
  "resetPlanScaffold s = s\<lparr>ag_steps := [], ag_plan := no_plan, ag_activeRunId := None, ag_usage := no_usage\<rparr>"

definition setClassification :: "task_class \<Rightarrow> bool \<Rightarrow> ustr \<Rightarrow> agent \<Rightarrow> agent" where
  "setClassification c enter reason s =
     s\<lparr>ag_classification := Some c, ag_enterPlan := enter, ag_reason := reason\<rparr>"

definition beginPlanning :: "ustr \<Rightarrow> agent \<Rightarrow> agent" where
  "beginPlanning goal s = (resetPlanScaffold s)\<lparr>ag_goal := goal, ag_classification := None, ag_reason := [],
     ag_enterPlan := False, ag_confirmation := None, ag_session := None, ag_error := []\<rparr>"

definition failPlanning :: "ustr \<Rightarrow> ustr \<Rightarrow> agent \<Rightarrow> agent" where
  "failPlanning goal message s = (resetPlanScaffold s)\<lparr>ag_goal := goal, ag_enterPlan := False,
     ag_confirmation := None, ag_session := None, ag_error := message, ag_mode := PlanMode\<rparr>"

definition clearPlan :: "agent \<Rightarrow> agent" where
  "clearPlan s = (resetPlanScaffold s)\<lparr>ag_goal := [], ag_classification := None, ag_reason := [],
     ag_enterPlan := False, ag_isClassifying := False, ag_isPlanning := False, ag_isApproving := False,
     ag_error := []\<rparr>"

definition join_null :: "'a option option \<Rightarrow> 'a option" where
  "join_null x = (case x of Some y \<Rightarrow> y | None \<Rightarrow> None)"

definition setPlan :: "ustr \<Rightarrow> task_step list \<Rightarrow> plan_metadata option \<Rightarrow> agent \<Rightarrow> agent" where
  "setPlan goal steps metadata s =
     s\<lparr>ag_goal := goal, ag_steps := steps, ag_activeRunId := None,
       ag_plan := (case metadata of None \<Rightarrow> no_plan
         | Some m \<Rightarrow> \<lparr>gp_approvedAt = None, gp_planId = Some (md_planId m), gp_planVersion = Some (md_version m),
             gp_planStatus = Some (md_status m), gp_planSummary = orElse (md_summary m) [],
             gp_requiresApproval = orElse (md_requiresApproval m) True, gp_threadId = md_threadId m,
             gp_createdAt = md_createdAt m, gp_updatedAt = md_updatedAt m,
             gp_executedAt = join_null (md_executedAt m), gp_rejectionReason = join_null (md_rejectionReason m),
             gp_errorMessage = join_null (md_errorMessage m), gp_versions = [m]\<rparr>)\<rparr>"

text \<open>\<open>versions\<close> is \<open>None\<close> when the argument is left out.\<close>

definition applyPlanMetadata :: "plan_metadata \<Rightarrow> plan_metadata list option \<Rightarrow> agent \<Rightarrow> agent" where
  "applyPlanMetadata m versions s =
     (let p = ag_plan s in
      s\<lparr>ag_plan := \<lparr>gp_approvedAt = orElse (md_approvedAt m) (gp_approvedAt p), gp_planId = Some (md_planId m),
          gp_planVersion = Some (md_version m), gp_planStatus = Some (md_status m),
          gp_planSummary = orElse (md_summary m) (gp_planSummary p),
          gp_requiresApproval = orElse (md_requiresApproval m) (gp_requiresApproval p),
          gp_threadId = nullish (md_threadId m) (gp_threadId p), gp_createdAt = nullish (md_createdAt m) (gp_createdAt p),
          gp_updatedAt = nullish (md_updatedAt m) (gp_updatedAt p),
          gp_executedAt = orElse (md_executedAt m) (gp_executedAt p),
          gp_rejectionReason = orElse (md_rejectionReason m) (gp_rejectionReason p),
          gp_errorMessage = orElse (md_errorMessage m) (gp_errorMessage p),
          gp_versions = orElse versions (gp_versions p)\<rparr>\<rparr>)"

definition setPlanStatus :: "plan_status \<Rightarrow> ustr option option \<Rightarrow> agent \<Rightarrow> agent" where
  "setPlanStatus status approvedAt s =
     s\<lparr>ag_plan := (ag_plan s)\<lparr>gp_planStatus := Some status,
         gp_approvedAt := orElse approvedAt (gp_approvedAt (ag_plan s))\<rparr>\<rparr>"

definition reopen_plan :: "task_step list \<Rightarrow> agent \<Rightarrow> agent" where
  "reopen_plan steps s = s\<lparr>ag_steps := steps, ag_activeRunId := None,
     ag_plan := (ag_plan s)\<lparr>gp_approvedAt := None,
       gp_planStatus := (if gp_planStatus (ag_plan s) = Some PsApproved then Some PsPendingApproval
                         else gp_planStatus (ag_plan s))\<rparr>\<rparr>"

definition replaceStep :: "ustr \<Rightarrow> task_step \<Rightarrow> agent \<Rightarrow> agent" where
  "replaceStep i t s = reopen_plan (map (\<lambda>x. if ts_id x = i then t else x) (ag_steps s)) s"

definition removeStep :: "ustr \<Rightarrow> agent \<Rightarrow> agent" where
  "removeStep i s = reopen_plan (filter (\<lambda>x. ts_id x \<noteq> i) (ag_steps s)) s"

section \<open>Runs\<close>

definition upsertRun :: "agent_run \<Rightarrow> agent \<Rightarrow> agent" where
  "upsertRun r s = s\<lparr>ag_activeRunId := Some (ru_id r),
     ag_runs := r # filter (\<lambda>x. ru_id x \<noteq> ru_id r) (ag_runs s), ag_steps := ru_steps r\<rparr>"

definition find_run :: "ustr option \<Rightarrow> agent_run list \<Rightarrow> agent_run option" where
  "find_run i rs = find (\<lambda>r. Some (ru_id r) = i) rs"

definition known_run :: "agent_run list \<Rightarrow> ustr option \<Rightarrow> ustr option" where
  "known_run rs i = (if i \<noteq> None \<and> i \<noteq> Some [] \<and> find_run i rs \<noteq> None then i else None)"

definition setRuns :: "agent_run list \<Rightarrow> agent \<Rightarrow> agent" where
  "setRuns rs s = s\<lparr>ag_runs := rs,
     ag_activeRunId := (if ag_activeRunId s = Some [] then ag_activeRunId s
                        else known_run rs (ag_activeRunId s))\<rparr>"

definition put_step :: "task_step \<Rightarrow> task_step list \<Rightarrow> task_step list" where
  "put_step t ts = map (\<lambda>x. if ts_id x = ts_id t then t else x) ts"

definition upsertRunStep :: "ustr \<Rightarrow> ustr \<Rightarrow> task_step \<Rightarrow> agent \<Rightarrow> agent" where
  "upsertRunStep now runId t s =
     (case find_run (Some runId) (ag_runs s) of
        None \<Rightarrow> s\<lparr>ag_steps := put_step t (ag_steps s)\<rparr>
      | Some r \<Rightarrow> upsertRun (r\<lparr>ru_steps := put_step t (ru_steps r), ru_updatedAt := now,
          ru_currentStepId := (if ts_status t = StRunning then Some (ts_id t)
            else if ru_currentStepId r = Some (ts_id t) then None else ru_currentStepId r)\<rparr>) s)"

section \<open>What the steps of a run produced\<close>

definition getStepDetailKey :: "ustr \<Rightarrow> ustr \<Rightarrow> ustr" where
  "getStepDetailKey runId stepId = runId @ [58] @ stepId"

definition createStepDetail :: "ustr \<Rightarrow> ustr \<Rightarrow> ustr \<Rightarrow> step_detail" where
  "createStepDetail now runId stepId = \<lparr>sd_runId = runId, sd_stepId = stepId, sd_webSources = [],
     sd_toolResults = [], sd_updatedAt = now\<rparr>"

definition getStepDetail :: "ustr \<Rightarrow> ustr \<Rightarrow> agent \<Rightarrow> step_detail option" where
  "getStepDetail runId stepId s = jm_get (ag_stepDetails s) (getStepDetailKey runId stepId)"

definition upsertStepDetail :: "ustr \<Rightarrow> step_detail \<Rightarrow> agent \<Rightarrow> agent" where
  "upsertStepDetail now d s = s\<lparr>ag_stepDetails := jm_set (ag_stepDetails s)
     (getStepDetailKey (sd_runId d) (sd_stepId d)) (d\<lparr>sd_updatedAt := now\<rparr>)\<rparr>"

definition previous_detail :: "ustr \<Rightarrow> ustr \<Rightarrow> ustr \<Rightarrow> agent \<Rightarrow> step_detail" where
  "previous_detail now runId stepId s =
     orElse (getStepDetail runId stepId s) (createStepDetail now runId stepId)"

definition setStepWebSources :: "ustr \<Rightarrow> ustr \<Rightarrow> ustr \<Rightarrow> json_value list \<Rightarrow> agent \<Rightarrow> agent" where
  "setStepWebSources now runId stepId sources s =
     upsertStepDetail now ((previous_detail now runId stepId s)\<lparr>sd_webSources := sources\<rparr>) s"

definition appendStepToolResults :: "ustr \<Rightarrow> ustr \<Rightarrow> ustr \<Rightarrow> json_value list \<Rightarrow> agent \<Rightarrow> agent" where
  "appendStepToolResults now runId stepId results s =
     (if results = [] then s
      else let d = previous_detail now runId stepId s in
        upsertStepDetail now (d\<lparr>sd_toolResults := sd_toolResults d @ results\<rparr>) s)"

definition getPatchSummaries :: "ustr \<Rightarrow> agent \<Rightarrow> run_patch list" where
  "getPatchSummaries runId s = orElse (jm_get (ag_patches s) runId) []"

definition getStepFinalAnswers :: "ustr \<Rightarrow> agent \<Rightarrow> final_answer list" where
  "getStepFinalAnswers runId s = orElse (jm_get (ag_finalAnswers s) runId) []"

definition getToolActivities :: "ustr \<Rightarrow> agent \<Rightarrow> tool_activity list" where
  "getToolActivities runId s = orElse (jm_get (ag_activities s) runId) []"

text \<open>\<open>slice(-50)\<close>\<close>

definition last_fifty :: "'a list \<Rightarrow> 'a list" where
  "last_fifty xs = drop (length xs - 50) xs"

definition appendStepFinalAnswer :: "final_answer \<Rightarrow> agent \<Rightarrow> agent" where
  "appendStepFinalAnswer a s = s\<lparr>ag_finalAnswers := jm_set (ag_finalAnswers s) (fa_runId a)
     (last_fifty (filter (\<lambda>x. fa_id x \<noteq> fa_id a) (getStepFinalAnswers (fa_runId a) s) @ [a]))\<rparr>"

definition appendPatchSummary :: "run_patch \<Rightarrow> agent \<Rightarrow> agent" where
  "appendPatchSummary p s = s\<lparr>ag_patches := jm_set (ag_patches s) (rp_runId p)
     (filter (\<lambda>x. rp_id x \<noteq> rp_id p) (getPatchSummaries (rp_runId p) s) @ [p])\<rparr>"

definition isActiveToolActivity :: "tool_activity \<Rightarrow> bool" where
  "isActiveToolActivity a \<longleftrightarrow> ta_state a = ActStarting \<or> ta_state a = ActRunning \<or> ta_state a = ActWaiting"

definition findLatestActiveToolActivity :: "tool_activity list \<Rightarrow> tool_activity option" where
  "findLatestActiveToolActivity as = find isActiveToolActivity (rev as)"

definition isSameToolActivity :: "tool_activity \<Rightarrow> tool_activity \<Rightarrow> bool" where
  "isSameToolActivity a b \<longleftrightarrow>
     ta_id a = ta_id b \<or> (ta_stepId a = ta_stepId b \<and> ta_toolName a = ta_toolName b)"

definition appendToolActivity :: "ustr \<Rightarrow> tool_activity \<Rightarrow> agent \<Rightarrow> agent" where
  "appendToolActivity runId a s = s\<lparr>ag_activities := jm_set (ag_activities s) runId
     (last_fifty (filter (\<lambda>x. \<not> isSameToolActivity x a) (getToolActivities runId s) @ [a]))\<rparr>"

definition clearPendingToolConfirmation :: "ustr option \<Rightarrow> agent \<Rightarrow> agent" where
  "clearPendingToolConfirmation i s =
     (if i = None \<or> i = Some [] \<or> map_option co_id (ag_confirmation s) = i
      then s\<lparr>ag_confirmation := None, ag_session := None\<rparr> else s)"

section \<open>Getters\<close>

definition hasPlan :: "agent \<Rightarrow> bool" where
  "hasPlan s \<longleftrightarrow> ag_steps s \<noteq> []"

definition activeRun :: "agent \<Rightarrow> agent_run option" where
  "activeRun s = find_run (ag_activeRunId s) (ag_runs s)"

definition activeToolActivity :: "agent \<Rightarrow> tool_activity option" where
  "activeToolActivity s =
     (if ag_confirmation s \<noteq> None then None
      else case (case ag_activeRunId s of
                   None \<Rightarrow> None
                 | Some i \<Rightarrow> (if i = [] then None else findLatestActiveToolActivity (getToolActivities i s))) of
             Some a \<Rightarrow> Some a
           | None \<Rightarrow> findLatestActiveToolActivity (concat (map snd (ag_activities s))))"

section \<open>The persisted part\<close>

text \<open>What the storage holds of a state: the fields of \<open>pick\<close>; the others start anew.\<close>

definition persisted :: "agent \<Rightarrow> agent" where
  "persisted s = s\<lparr>ag_isClassifying := False, ag_isPlanning := False, ag_isApproving := False,
     ag_plan := (ag_plan s)\<lparr>gp_versions := []\<rparr>, ag_patches := []\<rparr>"

text \<open>The schemas, field by field; \<open>rest n\<close> is the part of the schema named \<open>n\<close> that concerns the values
  kept as JSON. \<open>z.string().trim().min(1)\<close> returns the trimmed text.\<close>

type_synonym rest_schema = "string \<Rightarrow> json_value \<Rightarrow> json_value option"

definition trimmed1 :: "ustr \<Rightarrow> ustr option" where
  "trimmed1 s = (if trim s = [] then None else Some (trim s))"

definition opt_parse :: "('a \<Rightarrow> 'b option) \<Rightarrow> 'a option \<Rightarrow> 'b option option" where
  "opt_parse f x = (case x of None \<Rightarrow> Some None | Some y \<Rightarrow> map_option Some (f y))"

fun all_parse :: "('a \<Rightarrow> 'b option) \<Rightarrow> 'a list \<Rightarrow> 'b list option" where
  "all_parse f [] = Some []"
| "all_parse f (x # xs) = do { y \<leftarrow> f x; ys \<leftarrow> all_parse f xs; Some (y # ys) }"

definition sized :: "nat \<Rightarrow> nat \<Rightarrow> 'a list \<Rightarrow> 'a list option" where
  "sized lo hi xs = (if lo \<le> length xs \<and> length xs \<le> hi then Some xs else None)"

definition check :: "bool \<Rightarrow> unit option" where
  "check b = (if b then Some () else None)"

definition AI_AGENT_PLAN_MIN_STEPS :: nat where "AI_AGENT_PLAN_MIN_STEPS = 2"

definition AI_AGENT_PLAN_MAX_STEPS :: nat where "AI_AGENT_PLAN_MAX_STEPS = 6"

definition step_schema :: "rest_schema \<Rightarrow> task_step \<Rightarrow> task_step option" where
  "step_schema rest t = do {
     i \<leftarrow> trimmed1 (ts_id t);
     check (ts_tools t \<noteq> [] \<and> list_all (\<lambda>n. n \<in> set AI_AGENT_TOOL_NAMES) (ts_tools t));
     r \<leftarrow> rest ''aiTaskPlanStepSchema'' (ts_rest t);
     Some (t\<lparr>ts_id := i, ts_rest := r\<rparr>) }"

definition run_schema :: "rest_schema \<Rightarrow> agent_run \<Rightarrow> agent_run option" where
  "run_schema rest x = do {
     i \<leftarrow> trimmed1 (ru_id x);
     ts \<leftarrow> sized AI_AGENT_PLAN_MIN_STEPS AI_AGENT_PLAN_MAX_STEPS (ru_steps x);
     ts' \<leftarrow> all_parse (step_schema rest) ts;
     c \<leftarrow> opt_parse trimmed1 (ru_currentStepId x);
     u \<leftarrow> trimmed1 (ru_updatedAt x);
     r \<leftarrow> rest ''aiAgentRunSchema'' (ru_rest x);
     Some \<lparr>ru_id = i, ru_status = ru_status x, ru_steps = ts', ru_currentStepId = c, ru_updatedAt = u,
       ru_rest = r\<rparr> }"

definition usage_valid :: "usage \<Rightarrow> bool" where
  "usage_valid u \<longleftrightarrow>
     opt_all (\<lambda>d. id_noCacheTokens d \<noteq> None \<and> id_cacheReadTokens d \<noteq> None \<and> id_cacheWriteTokens d \<noteq> None)
       (us_inputTokenDetails u) \<and>
     opt_all (\<lambda>d. od_textTokens d \<noteq> None \<and> od_reasoningTokens d \<noteq> None) (us_outputTokenDetails u)"

definition detail_schema :: "rest_schema \<Rightarrow> step_detail \<Rightarrow> step_detail option" where
  "detail_schema rest d = do {
     i \<leftarrow> trimmed1 (sd_runId d);
     j \<leftarrow> trimmed1 (sd_stepId d);
     ws \<leftarrow> all_parse (rest ''aiAgentStepWebSourceSummarySchema'') (sd_webSources d);
     rs \<leftarrow> all_parse (rest ''aiAgentStepToolResultSummarySchema'') (sd_toolResults d);
     u \<leftarrow> trimmed1 (sd_updatedAt d);
     Some \<lparr>sd_runId = i, sd_stepId = j, sd_webSources = ws, sd_toolResults = rs, sd_updatedAt = u\<rparr> }"

definition answer_schema :: "rest_schema \<Rightarrow> final_answer \<Rightarrow> final_answer option" where
  "answer_schema rest a = do {
     check (fa_id a \<noteq> [] \<and> fa_runId a \<noteq> []);
     r \<leftarrow> rest ''aiAgentStepFinalAnswerSchema'' (fa_rest a);
     Some (a\<lparr>fa_rest := r\<rparr>) }"

definition activity_schema :: "rest_schema \<Rightarrow> tool_activity \<Rightarrow> tool_activity option" where
  "activity_schema rest a = do {
     check (ta_id a \<noteq> [] \<and> ta_stepId a \<noteq> [] \<and> ta_toolName a \<in> set AI_AGENT_TOOL_NAMES);
     r \<leftarrow> rest ''aiToolActivityInlineSchema'' (ta_rest a);
     Some (a\<lparr>ta_rest := r\<rparr>) }"

definition confirmation_schema :: "rest_schema \<Rightarrow> confirmation \<Rightarrow> confirmation option" where
  "confirmation_schema rest c = do {
     i \<leftarrow> trimmed1 (co_id c);
     r \<leftarrow> rest ''aiToolConfirmationRequestSchema'' (co_rest c);
     Some \<lparr>co_id = i, co_rest = r\<rparr> }"

definition map_schema :: "('v \<Rightarrow> 'w option) \<Rightarrow> (ustr, 'v) jsmap \<Rightarrow> (ustr, 'w) jsmap option" where
  "map_schema f m = all_parse (\<lambda>(k, v). map_option (Pair k) (f v)) m"

definition plan_texts :: "plan_shown \<Rightarrow> ustr option list" where
  "plan_texts p = [gp_approvedAt p, gp_planId p, gp_threadId p, gp_createdAt p, gp_updatedAt p,
     gp_executedAt p, gp_rejectionReason p, gp_errorMessage p]"

definition shown_plan_valid :: "plan_shown \<Rightarrow> bool" where
  "shown_plan_valid p \<longleftrightarrow> Some [] \<notin> set (plan_texts p) \<and>
     opt_all (\<lambda>v. 0 < v \<and> is_safe_integer v) (gp_planVersion p)"

definition aiAgentPersistSchema :: "rest_schema \<Rightarrow> agent \<Rightarrow> agent option" where
  "aiAgentPersistSchema rest s = do {
     ts \<leftarrow> sized 0 6 (ag_steps s);
     ts' \<leftarrow> all_parse (step_schema rest) ts;
     check (shown_plan_valid (ag_plan s) \<and> ag_activeRunId s \<noteq> Some []);
     rs \<leftarrow> sized 0 20 (ag_runs s);
     rs' \<leftarrow> all_parse (run_schema rest) rs;
     check (opt_all usage_valid (ug_latest (ag_usage s)) \<and> opt_all usage_valid (ug_total (ag_usage s)));
     ds \<leftarrow> map_schema (detail_schema rest) (ag_stepDetails s);
     fs \<leftarrow> map_schema (\<lambda>as. Option.bind (sized 0 50 as) (all_parse (answer_schema rest))) (ag_finalAnswers s);
     as \<leftarrow> map_schema (\<lambda>as. Option.bind (sized 0 50 as) (all_parse (activity_schema rest))) (ag_activities s);
     c \<leftarrow> opt_parse (confirmation_schema rest) (ag_confirmation s);
     x \<leftarrow> opt_parse (rest ''aiPersistedSidecarAgentSessionSchema'') (ag_session s);
     Some (s\<lparr>ag_steps := ts', ag_runs := rs', ag_stepDetails := ds, ag_finalAnswers := fs, ag_activities := as,
       ag_confirmation := c, ag_session := x\<rparr>) }"

definition in_progress :: "run_status \<Rightarrow> bool" where
  "in_progress st \<longleftrightarrow> st = RunningPlan \<or> st = RunningStep \<or> st = WaitingForToolConfirmation"

definition normalizeHydratedRun :: "ustr \<Rightarrow> agent_run \<Rightarrow> agent_run" where
  "normalizeHydratedRun now r =
     (if \<not> in_progress (ru_status r) then r
      else r\<lparr>ru_status := PausedRun, ru_updatedAt := now,
        ru_steps := map (\<lambda>t. t\<lparr>ts_status := (if ts_status t = StRunning then StPending else ts_status t),
          ts_isActive := Some False\<rparr>) (ru_steps r)\<rparr>)"

definition normalizeHydratedAgentState :: "ustr \<Rightarrow> agent \<Rightarrow> agent" where
  "normalizeHydratedAgentState now s =
     (let rs = map (normalizeHydratedRun now) (ag_runs s) in
      s\<lparr>ag_runs := rs, ag_activeRunId := known_run rs (ag_activeRunId s),
        ag_session := (if ag_confirmation s = None then None else ag_session s)\<rparr>)"

text \<open>The state after a restart: the plugin first puts the stored fields into the store as they are, then
  calls \<open>afterHydrate\<close>.\<close>

definition afterHydrate :: "rest_schema \<Rightarrow> ustr \<Rightarrow> agent \<Rightarrow> agent" where
  "afterHydrate rest now s =
     (case aiAgentPersistSchema rest s of None \<Rightarrow> s | Some p \<Rightarrow> normalizeHydratedAgentState now p)"

definition agent_restart :: "rest_schema \<Rightarrow> ustr \<Rightarrow> agent \<Rightarrow> agent" where
  "agent_restart rest now s = afterHydrate rest now (persisted s)"

section \<open>Events\<close>

text \<open>A plan record that is shown while there is an active run: \<open>useAiAgentPlan.ts\<close> writes the goal and the
  steps of that run into the store, without an action.\<close>

definition show_active_run :: "ustr \<Rightarrow> agent \<Rightarrow> agent" where
  "show_active_run goal s =
     (case activeRun s of Some r \<Rightarrow> s\<lparr>ag_goal := goal, ag_steps := ru_steps r\<rparr> | None \<Rightarrow> s)"

datatype agent_event =
    SetMode agent_mode
  | SetError ustr
  | SetBusy bool bool bool
  | SetNetwork network_permission
  | Classify task_class bool ustr
  | BeginPlanning ustr
  | FailPlanning ustr ustr
  | ClearPlan
  | SetPlan ustr "task_step list" "plan_metadata option"
  | ApplyMetadata plan_metadata "plan_metadata list option"
  | SetPlanStatus plan_status "ustr option option"
  | ShowActiveRun ustr
  | ReplaceStep ustr task_step
  | RemoveStep ustr
  | UpsertRun agent_run
  | UpsertRunStep ustr ustr task_step
  | SetRuns "agent_run list"
  | SetUsage "usage option"
  | ClearUsage
  | UpsertDetail ustr step_detail
  | SetWebSources ustr ustr ustr "json_value list"
  | AppendToolResults ustr ustr ustr "json_value list"
  | AppendAnswer final_answer
  | AppendPatch run_patch
  | AppendActivity ustr tool_activity
  | SetConfirmation confirmation
  | ClearConfirmation "ustr option"
  | SetSession json_value
  | ClearSession

fun agent_step :: "agent \<Rightarrow> agent_event \<Rightarrow> agent" where
  "agent_step s (SetMode m) = s\<lparr>ag_mode := m\<rparr>"
| "agent_step s (SetError e) = s\<lparr>ag_error := e\<rparr>"
| "agent_step s (SetBusy c p a) = s\<lparr>ag_isClassifying := c, ag_isPlanning := p, ag_isApproving := a\<rparr>"
| "agent_step s (SetNetwork p) = s\<lparr>ag_network := p\<rparr>"
| "agent_step s (Classify c enter reason) = setClassification c enter reason s"
| "agent_step s (BeginPlanning goal) = beginPlanning goal s"
| "agent_step s (FailPlanning goal message) = failPlanning goal message s"
| "agent_step s ClearPlan = clearPlan s"
| "agent_step s (SetPlan goal steps m) = setPlan goal steps m s"
| "agent_step s (ApplyMetadata m vs) = applyPlanMetadata m vs s"
| "agent_step s (SetPlanStatus st a) = setPlanStatus st a s"
| "agent_step s (ShowActiveRun goal) = show_active_run goal s"
| "agent_step s (ReplaceStep i t) = replaceStep i t s"
| "agent_step s (RemoveStep i) = removeStep i s"
| "agent_step s (UpsertRun r) = upsertRun r s"
| "agent_step s (UpsertRunStep now i t) = upsertRunStep now i t s"
| "agent_step s (SetRuns rs) = setRuns rs s"
| "agent_step s (SetUsage u) = setLatestOfficialUsage u s"
| "agent_step s ClearUsage = clearLatestOfficialUsage s"
| "agent_step s (UpsertDetail now d) = upsertStepDetail now d s"
| "agent_step s (SetWebSources now i j ws) = setStepWebSources now i j ws s"
| "agent_step s (AppendToolResults now i j rs) = appendStepToolResults now i j rs s"
| "agent_step s (AppendAnswer a) = appendStepFinalAnswer a s"
| "agent_step s (AppendPatch p) = appendPatchSummary p s"
| "agent_step s (AppendActivity i a) = appendToolActivity i a s"
| "agent_step s (SetConfirmation c) = s\<lparr>ag_confirmation := Some c\<rparr>"
| "agent_step s (ClearConfirmation i) = clearPendingToolConfirmation i s"
| "agent_step s (SetSession x) = s\<lparr>ag_session := Some x\<rparr>"
| "agent_step s ClearSession = s\<lparr>ag_session := None\<rparr>"

section \<open>The invariant\<close>

definition no_same_activity :: "tool_activity list \<Rightarrow> bool" where
  "no_same_activity as \<longleftrightarrow> sorted_wrt (\<lambda>a b. \<not> isSameToolActivity a b) as"

definition activities_ok :: "tool_activity list \<Rightarrow> bool" where
  "activities_ok as \<longleftrightarrow> length as \<le> 50 \<and> no_same_activity as"

definition answers_ok :: "ustr \<Rightarrow> final_answer list \<Rightarrow> bool" where
  "answers_ok i as \<longleftrightarrow> length as \<le> 50 \<and> distinct (map fa_id as) \<and> list_all (\<lambda>a. fa_runId a = i) as"

definition patches_ok :: "ustr \<Rightarrow> run_patch list \<Rightarrow> bool" where
  "patches_ok i ps \<longleftrightarrow> distinct (map rp_id ps) \<and> list_all (\<lambda>p. rp_runId p = i) ps"

definition map_ok :: "('k \<Rightarrow> 'v \<Rightarrow> bool) \<Rightarrow> ('k, 'v) jsmap \<Rightarrow> bool" where
  "map_ok P m \<longleftrightarrow> (\<forall>k v. jm_get m k = Some v \<longrightarrow> P k v)"

definition detail_at :: "ustr \<Rightarrow> step_detail \<Rightarrow> bool" where
  "detail_at k d \<longleftrightarrow> k = getStepDetailKey (sd_runId d) (sd_stepId d)"

definition active_run_ok :: "agent \<Rightarrow> bool" where
  "active_run_ok s \<longleftrightarrow> ag_activeRunId s \<in> {None, Some []} \<or> activeRun s \<noteq> None"

definition agent_ok :: "agent \<Rightarrow> bool" where
  "agent_ok s \<longleftrightarrow> active_run_ok s \<and> map_ok (\<lambda>k. activities_ok) (ag_activities s) \<and>
     map_ok answers_ok (ag_finalAnswers s) \<and> map_ok patches_ok (ag_patches s) \<and>
     map_ok detail_at (ag_stepDetails s)"

lemma map_ok_set [intro]: "map_ok P m \<Longrightarrow> P k v \<Longrightarrow> map_ok P (jm_set m k v)"
  by (simp add: map_ok_def)

lemma map_ok_Nil [simp]: "map_ok P []"
  by (simp add: map_ok_def)

lemma map_ok_read: "map_ok P m \<Longrightarrow> P k d \<Longrightarrow> P k (orElse (jm_get m k) d)"
  by (auto simp: map_ok_def orElse_def split: option.split)

lemma last_fifty_length [simp]: "length (last_fifty xs) \<le> 50"
  by (simp add: last_fifty_def)

lemma last_fifty_set: "x \<in> set (last_fifty xs) \<Longrightarrow> x \<in> set xs"
  by (auto simp: last_fifty_def dest: in_set_dropD)

lemma append_activity_ok: "activities_ok as \<Longrightarrow>
    activities_ok (last_fifty (filter (\<lambda>x. \<not> isSameToolActivity x a) as @ [a]))"
  unfolding activities_ok_def no_same_activity_def last_fifty_def
  by (intro conjI sorted_wrt_drop) (auto simp: sorted_wrt_append sorted_wrt_filter)

lemma append_answer_ok: "answers_ok i as \<Longrightarrow> fa_runId a = i \<Longrightarrow>
    answers_ok i (last_fifty (filter (\<lambda>x. fa_id x \<noteq> fa_id a) as @ [a]))"
  by (auto simp: answers_ok_def list_all_iff distinct_map_filter last_fifty_def distinct_drop
      simp flip: drop_map dest!: in_set_dropD)

lemma append_patch_ok: "patches_ok i ps \<Longrightarrow> rp_runId p = i \<Longrightarrow>
    patches_ok i (filter (\<lambda>x. rp_id x \<noteq> rp_id p) ps @ [p])"
  by (auto simp: patches_ok_def list_all_iff distinct_map_filter)

lemma find_run_same [simp]: "find_run (Some (ru_id r)) (r # rs) = Some r"
  by (simp add: find_run_def)

lemma find_run_id: "find_run i rs = Some r \<Longrightarrow> Some (ru_id r) = i"
  by (auto simp: find_run_def find_Some_iff)

lemma known_run_exists: "known_run rs i \<noteq> None \<Longrightarrow> find_run (known_run rs i) rs \<noteq> None"
  by (auto simp: known_run_def split: if_splits)

text \<open>An operation that leaves the maps alone keeps the invariant if it keeps the active run.\<close>

lemma agent_ok_frame:
  "agent_ok s \<Longrightarrow> active_run_ok t \<Longrightarrow> ag_activities t = ag_activities s \<Longrightarrow>
   ag_finalAnswers t = ag_finalAnswers s \<Longrightarrow> ag_patches t = ag_patches s \<Longrightarrow>
   ag_stepDetails t = ag_stepDetails s \<Longrightarrow> agent_ok t"
  by (simp add: agent_ok_def)

lemma upsert_run_ok: "agent_ok s \<Longrightarrow> agent_ok (upsertRun r s)"
  by (rule agent_ok_frame) (simp_all add: upsertRun_def active_run_ok_def activeRun_def)

lemma set_runs_ok: "agent_ok s \<Longrightarrow> agent_ok (setRuns rs s)"
  by (rule agent_ok_frame)
    (use known_run_exists [of rs "ag_activeRunId s"] in
     \<open>auto simp: setRuns_def active_run_ok_def activeRun_def\<close>)

lemma upsert_detail_ok: "agent_ok s \<Longrightarrow> agent_ok (upsertStepDetail now d s)"
  by (auto simp: agent_ok_def upsertStepDetail_def active_run_ok_def activeRun_def detail_at_def intro!: map_ok_set)

lemma no_active_run_ok: "agent_ok s \<Longrightarrow> ag_activeRunId t = None \<Longrightarrow> ag_activities t = ag_activities s \<Longrightarrow>
   ag_finalAnswers t = ag_finalAnswers s \<Longrightarrow> ag_patches t = ag_patches s \<Longrightarrow>
   ag_stepDetails t = ag_stepDetails s \<Longrightarrow> agent_ok t"
  by (rule agent_ok_frame) (simp_all add: active_run_ok_def)

lemma same_run_ok: "agent_ok s \<Longrightarrow> ag_activeRunId t = ag_activeRunId s \<Longrightarrow> ag_runs t = ag_runs s \<Longrightarrow>
   ag_activities t = ag_activities s \<Longrightarrow> ag_finalAnswers t = ag_finalAnswers s \<Longrightarrow>
   ag_patches t = ag_patches s \<Longrightarrow> ag_stepDetails t = ag_stepDetails s \<Longrightarrow> agent_ok t"
  by (simp add: agent_ok_def active_run_ok_def activeRun_def)

lemmas plan_ops = resetPlanScaffold_def beginPlanning_def failPlanning_def clearPlan_def setPlan_def
  reopen_plan_def replaceStep_def removeStep_def

lemmas quiet_agent_ops = setClassification_def applyPlanMetadata_def setPlanStatus_def setLatestOfficialUsage_def
  clearLatestOfficialUsage_def clearPendingToolConfirmation_def Let_def

lemma agent_step_ok: "agent_ok s \<Longrightarrow> agent_ok (agent_step s e)"
proof (cases e)
  case (AppendActivity i a)
  assume "agent_ok s"
  then have "activities_ok (getToolActivities i s)"
    using map_ok_read [of "\<lambda>k. activities_ok" "ag_activities s" i "[]"]
    by (simp add: getToolActivities_def agent_ok_def activities_ok_def no_same_activity_def)
  with AppendActivity \<open>agent_ok s\<close> show ?thesis
    by (auto simp: agent_ok_def appendToolActivity_def active_run_ok_def activeRun_def
        intro!: map_ok_set append_activity_ok)
next
  case (AppendAnswer a)
  assume "agent_ok s"
  then have "answers_ok (fa_runId a) (getStepFinalAnswers (fa_runId a) s)"
    using map_ok_read [of answers_ok "ag_finalAnswers s" "fa_runId a" "[]"]
    by (simp add: getStepFinalAnswers_def agent_ok_def answers_ok_def)
  with AppendAnswer \<open>agent_ok s\<close> show ?thesis
    by (auto simp: agent_ok_def appendStepFinalAnswer_def active_run_ok_def activeRun_def
        intro!: map_ok_set append_answer_ok)
next
  case (AppendPatch p)
  assume "agent_ok s"
  then have "patches_ok (rp_runId p) (getPatchSummaries (rp_runId p) s)"
    using map_ok_read [of patches_ok "ag_patches s" "rp_runId p" "[]"]
    by (simp add: getPatchSummaries_def agent_ok_def patches_ok_def)
  with AppendPatch \<open>agent_ok s\<close> show ?thesis
    by (auto simp: agent_ok_def appendPatchSummary_def active_run_ok_def activeRun_def
        intro!: map_ok_set append_patch_ok)
next
  case (ShowActiveRun goal)
  assume ok: "agent_ok s"
  show ?thesis by (auto simp: ShowActiveRun show_active_run_def intro: same_run_ok [OF ok] split: option.split)
next
  case (UpsertRunStep now i t)
  assume ok: "agent_ok s"
  show ?thesis
  proof (cases "find_run (Some i) (ag_runs s)")
    case None
    then show ?thesis using UpsertRunStep by (auto simp: upsertRunStep_def intro: same_run_ok [OF ok])
  qed (simp add: UpsertRunStep upsertRunStep_def upsert_run_ok ok)
qed (auto simp: plan_ops quiet_agent_ops setStepWebSources_def appendStepToolResults_def
    intro: upsert_run_ok set_runs_ok upsert_detail_ok no_active_run_ok same_run_ok split: option.split)

interpretation agent_store: machine agent_step new_agent agent_ok
  by unfold_locales (simp_all add: agent_step_ok, simp add: agent_ok_def active_run_ok_def new_agent_def)

text \<open>C8: After any sequence of actions the agent store is consistent: an active run identifier names one of
  the runs, a run keeps at most fifty tool activities, no two of them with the same identifier or for the
  same tool in the same step, at most fifty final answers with different identifiers, each filed under
  its own run, and each step detail stands under the key of its run and step.\<close>

theorem agent_store_consistent:
  "let s = run_events agent_step new_agent es in
   (ag_activeRunId s \<in> {None, Some []} \<or> map_option ru_id (activeRun s) = ag_activeRunId s) \<and>
   length (getToolActivities k s) \<le> 50 \<and>
   sorted_wrt (\<lambda>a b. \<not> isSameToolActivity a b) (getToolActivities k s) \<and>
   length (getStepFinalAnswers k s) \<le> 50 \<and> distinct (map fa_id (getStepFinalAnswers k s)) \<and>
   list_all (\<lambda>a. fa_runId a = k) (getStepFinalAnswers k s) \<and>
   distinct (map rp_id (getPatchSummaries k s)) \<and>
   map_option (\<lambda>d. getStepDetailKey (sd_runId d) (sd_stepId d)) (jm_get (ag_stepDetails s) k) \<in> {None, Some k}"
proof -
  let ?s = "run_events agent_step new_agent es"
  have ok: "agent_ok ?s" by (rule agent_store.inv_run)
  have "activities_ok (getToolActivities k ?s)" "answers_ok k (getStepFinalAnswers k ?s)"
      "patches_ok k (getPatchSummaries k ?s)"
    using ok map_ok_read [of "\<lambda>k. activities_ok" "ag_activities ?s" k "[]"]
      map_ok_read [of answers_ok "ag_finalAnswers ?s" k "[]"] map_ok_read [of patches_ok "ag_patches ?s" k "[]"]
    by (simp_all add: agent_ok_def getToolActivities_def getStepFinalAnswers_def getPatchSummaries_def
        activities_ok_def no_same_activity_def answers_ok_def patches_ok_def)
  moreover have "map_option ru_id (activeRun ?s) = ag_activeRunId ?s" if "activeRun ?s \<noteq> None"
    using that find_run_id by (fastforce simp: activeRun_def)
  moreover have "map_option (\<lambda>d. getStepDetailKey (sd_runId d) (sd_stepId d)) (jm_get (ag_stepDetails ?s) k) \<in> {None, Some k}"
    using ok by (cases "jm_get (ag_stepDetails ?s) k") (auto simp: agent_ok_def map_ok_def detail_at_def)
  ultimately show ?thesis
    using ok by (auto simp: Let_def agent_ok_def active_run_ok_def activities_ok_def no_same_activity_def
        answers_ok_def patches_ok_def)
qed

section \<open>The usage shown is the sum of what was reported\<close>

fun reported :: "usage list \<Rightarrow> agent_event \<Rightarrow> usage list" where
  "reported us (SetUsage (Some u)) = us @ [u]"
| "reported us ClearUsage = []"
| "reported us (BeginPlanning goal) = []"
| "reported us (FailPlanning goal message) = []"
| "reported us ClearPlan = []"
| "reported us e = us"

definition counted :: "(usage \<Rightarrow> nat option) \<Rightarrow> usage list \<Rightarrow> nat" where
  "counted f us = sum_list (map (\<lambda>u. orElse (f u) 0) us)"

definition counted_opt :: "(usage \<Rightarrow> nat option) \<Rightarrow> usage list \<Rightarrow> nat option" where
  "counted_opt f us = (if list_all (\<lambda>u. f u = None) us then None else Some (counted f us))"

definition usage_sum :: "usage list \<Rightarrow> usage" where
  "usage_sum us = \<lparr>us_inputTokens = sum_list (map us_inputTokens us),
     us_inputTokenDetails = Some
       \<lparr>id_noCacheTokens = Some (counted (\<lambda>u. Option.bind (us_inputTokenDetails u) id_noCacheTokens) us),
        id_cacheReadTokens = Some (counted (\<lambda>u. Option.bind (us_inputTokenDetails u) id_cacheReadTokens) us),
        id_cacheWriteTokens = Some (counted (\<lambda>u. Option.bind (us_inputTokenDetails u) id_cacheWriteTokens) us)\<rparr>,
     us_outputTokens = sum_list (map us_outputTokens us),
     us_outputTokenDetails = Some
       \<lparr>od_textTokens = Some (counted (\<lambda>u. Option.bind (us_outputTokenDetails u) od_textTokens) us),
        od_reasoningTokens = Some (counted (\<lambda>u. Option.bind (us_outputTokenDetails u) od_reasoningTokens) us)\<rparr>,
     us_totalTokens = sum_list (map us_totalTokens us),
     us_cachedInputTokens = counted_opt us_cachedInputTokens us,
     us_reasoningTokens = counted_opt us_reasoningTokens us\<rparr>"

definition total_of :: "usage list \<Rightarrow> usage option" where
  "total_of us = (if us = [] then None else Some (usage_sum us))"

lemma counted_snoc: "counted f (us @ [u]) = counted f us + orElse (f u) 0"
  by (simp add: counted_def)

lemma counted_opt_add: "counted_opt f (us @ [u]) = addTokenCounts (counted_opt f us) (f u)"
  by (cases "f u") (auto simp: counted_opt_def counted_def addTokenCounts_def orElse_def list_all_iff
      split: option.splits)

lemma orElse_add: "orElse (addTokenCounts l r) 0 = orElse l 0 + orElse r 0"
  by (simp add: addTokenCounts_def orElse_def split: option.split)

lemma add_usage_sum: "addOfficialUsage (total_of us) u = usage_sum (us @ [u])"
proof (cases "us = []")
  case True
  then show ?thesis
    using counted_opt_add [of us_cachedInputTokens "[]" u] counted_opt_add [of us_reasoningTokens "[]" u]
    by (simp add: total_of_def addOfficialUsage_def usage_sum_def orElse_add addRequiredTokenCounts_def Let_def)
      (simp add: counted_def orElse_def counted_opt_def)
next
  case False
  then show ?thesis
    by (simp add: total_of_def addOfficialUsage_def usage_sum_def orElse_add counted_snoc counted_opt_add
        addRequiredTokenCounts_def Let_def) (simp add: orElse_def)
qed

lemma usage_step:
  assumes "ug_total (ag_usage s) = total_of us \<and> ug_totalResolved (ag_usage s) = (us \<noteq> [])"
  shows "ug_total (ag_usage (agent_step s e)) = total_of (reported us e) \<and>
    ug_totalResolved (ag_usage (agent_step s e)) = (reported us e \<noteq> [])"
proof (cases e)
  case (SetUsage x)
  then show ?thesis using assms
    by (cases x) (simp_all add: setLatestOfficialUsage_def Let_def add_usage_sum, simp add: total_of_def)
qed (use assms in \<open>auto simp: plan_ops setClassification_def applyPlanMetadata_def setPlanStatus_def
    clearLatestOfficialUsage_def clearPendingToolConfirmation_def Let_def upsertRun_def upsertRunStep_def
    setRuns_def upsertStepDetail_def setStepWebSources_def appendStepToolResults_def
    appendStepFinalAnswer_def appendPatchSummary_def appendToolActivity_def show_active_run_def no_usage_def
    total_of_def split: option.split\<close>)

lemma usage_run:
  "ug_total (ag_usage s) = total_of us \<and> ug_totalResolved (ag_usage s) = (us \<noteq> []) \<Longrightarrow>
   ug_total (ag_usage (run_events agent_step s es)) = total_of (foldl reported us es) \<and>
   ug_totalResolved (ag_usage (run_events agent_step s es)) = (foldl reported us es \<noteq> [])"
proof (induction es arbitrary: s us)
  case (Cons e es)
  from Cons.IH [OF usage_step [OF Cons.prems]] show ?case by simp
qed simp

text \<open>C25: The total usage refines the history of reports: it is the sum, field by field, of all usages
  reported since the last plan was begun, failed or cleared or the usage was cleared; a count a report
  leaves out adds nothing, and an optional count is absent only if every report left it out.\<close>

theorem official_usage_is_sum:
  "let s = run_events agent_step new_agent es; us = foldl reported [] es in
   ug_total (ag_usage s) = total_of us \<and> ug_totalResolved (ag_usage s) = (us \<noteq> [])"
  using usage_run [of new_agent "[]" es] by (simp add: Let_def new_agent_def no_usage_def total_of_def)

section \<open>Restarts\<close>

lemma all_parse_id: "all_parse f xs = Some xs \<longleftrightarrow> (\<forall>x \<in> set xs. f x = Some x)"
  by (induction xs) (auto simp: bind_eq_Some_conv)

lemma check_Some [simp]: "check b = Some u \<longleftrightarrow> b"
  by (simp add: check_def)

lemma sized_Some [simp]: "sized lo hi xs = Some ys \<longleftrightarrow> ys = xs \<and> lo \<le> length xs \<and> length xs \<le> hi"
  by (auto simp: sized_def)

lemma schema_fixed:
  "aiAgentPersistSchema rest s = Some s \<longleftrightarrow>
     length (ag_steps s) \<le> 6 \<and> all_parse (step_schema rest) (ag_steps s) = Some (ag_steps s) \<and>
     shown_plan_valid (ag_plan s) \<and> ag_activeRunId s \<noteq> Some [] \<and>
     length (ag_runs s) \<le> 20 \<and> all_parse (run_schema rest) (ag_runs s) = Some (ag_runs s) \<and>
     opt_all usage_valid (ug_latest (ag_usage s)) \<and> opt_all usage_valid (ug_total (ag_usage s)) \<and>
     map_schema (detail_schema rest) (ag_stepDetails s) = Some (ag_stepDetails s) \<and>
     map_schema (\<lambda>as. Option.bind (sized 0 50 as) (all_parse (answer_schema rest))) (ag_finalAnswers s) =
       Some (ag_finalAnswers s) \<and>
     map_schema (\<lambda>as. Option.bind (sized 0 50 as) (all_parse (activity_schema rest))) (ag_activities s) =
       Some (ag_activities s) \<and>
     opt_parse (confirmation_schema rest) (ag_confirmation s) = Some (ag_confirmation s) \<and>
     opt_parse (rest ''aiPersistedSidecarAgentSessionSchema'') (ag_session s) = Some (ag_session s)"
  by (cases s) (auto simp: aiAgentPersistSchema_def bind_eq_Some_conv)

lemma run_schema_fixed:
  "run_schema rest r = Some r \<longleftrightarrow>
     trimmed1 (ru_id r) = Some (ru_id r) \<and> 2 \<le> length (ru_steps r) \<and> length (ru_steps r) \<le> 6 \<and>
     all_parse (step_schema rest) (ru_steps r) = Some (ru_steps r) \<and>
     opt_parse trimmed1 (ru_currentStepId r) = Some (ru_currentStepId r) \<and>
     trimmed1 (ru_updatedAt r) = Some (ru_updatedAt r) \<and>
     rest ''aiAgentRunSchema'' (ru_rest r) = Some (ru_rest r)"
  by (cases r) (auto simp: run_schema_def bind_eq_Some_conv AI_AGENT_PLAN_MIN_STEPS_def
      AI_AGENT_PLAN_MAX_STEPS_def)

lemma step_schema_fixed:
  "step_schema rest t = Some t \<longleftrightarrow> trimmed1 (ts_id t) = Some (ts_id t) \<and> ts_tools t \<noteq> [] \<and>
     list_all (\<lambda>n. n \<in> set AI_AGENT_TOOL_NAMES) (ts_tools t) \<and>
     rest ''aiTaskPlanStepSchema'' (ts_rest t) = Some (ts_rest t)"
  by (cases t) (auto simp: step_schema_def bind_eq_Some_conv)

lemma normalized_run_fixed:
  "run_schema rest r = Some r \<Longrightarrow> trimmed1 now = Some now \<Longrightarrow>
   run_schema rest (normalizeHydratedRun now r) = Some (normalizeHydratedRun now r)"
  by (simp add: run_schema_fixed normalizeHydratedRun_def all_parse_id step_schema_fixed)

lemma normalized_run_again [simp]:
  "\<not> in_progress (ru_status (normalizeHydratedRun now r))"
  "normalizeHydratedRun now' (normalizeHydratedRun now r) = normalizeHydratedRun now r"
  "ru_id (normalizeHydratedRun now r) = ru_id r"
  by (simp_all add: normalizeHydratedRun_def in_progress_def)

lemma find_run_map: "find_run i (map (normalizeHydratedRun now) rs) =
    map_option (normalizeHydratedRun now) (find_run i rs)"
  unfolding find_run_def by (induction rs) auto

lemma known_run_again [simp]: "known_run rs (known_run rs i) = known_run rs i"
  by (simp add: known_run_def)

lemma known_run_not_empty [simp]: "known_run rs i \<noteq> Some []"
  by (simp add: known_run_def)

lemma normalized_storable:
  assumes "aiAgentPersistSchema rest s = Some s" and "trimmed1 now = Some now"
  shows "aiAgentPersistSchema rest (normalizeHydratedAgentState now s) = Some (normalizeHydratedAgentState now s)"
proof -
  have "all_parse (run_schema rest) (map (normalizeHydratedRun now) (ag_runs s)) =
      Some (map (normalizeHydratedRun now) (ag_runs s))"
    using assms by (auto simp: schema_fixed all_parse_id intro: normalized_run_fixed)
  with assms show ?thesis
    by (simp add: schema_fixed normalizeHydratedAgentState_def Let_def)
      (simp add: opt_parse_def)
qed

lemma normalized_again:
  "normalizeHydratedAgentState now' (normalizeHydratedAgentState now s) = normalizeHydratedAgentState now s"
  by (simp add: normalizeHydratedAgentState_def Let_def comp_def)

lemma persisted_normalized:
  "persisted (normalizeHydratedAgentState now (persisted s)) = normalizeHydratedAgentState now (persisted s)"
  by (simp add: persisted_def normalizeHydratedAgentState_def Let_def)

lemma all_parse_list: "all_parse f xs = Some ys \<Longrightarrow> list_all2 (\<lambda>x y. f x = Some y) xs ys"
  by (induction xs arbitrary: ys) (auto simp: bind_eq_Some_conv)

text \<open>What the schema leaves as it is: everything but texts it trims and the keys it does not know, in the
  runs, steps, details, answers, activities, the confirmation and the sidecar session.\<close>

lemma schema_keeps:
  assumes "aiAgentPersistSchema rest s = Some p"
  shows "p\<lparr>ag_steps := ag_steps s, ag_runs := ag_runs s, ag_stepDetails := ag_stepDetails s,
      ag_finalAnswers := ag_finalAnswers s, ag_activities := ag_activities s,
      ag_confirmation := ag_confirmation s, ag_session := ag_session s\<rparr> = s"
    and "list_all2 (\<lambda>r x. ru_id x = trim (ru_id r) \<and> ru_status x = ru_status r \<and>
      map ts_status (ru_steps x) = map ts_status (ru_steps r)) (ag_runs s) (ag_runs p)"
proof -
  obtain ts ds fs as c x rs where p: "p = s\<lparr>ag_steps := ts, ag_runs := rs, ag_stepDetails := ds, ag_finalAnswers := fs,
      ag_activities := as, ag_confirmation := c, ag_session := x\<rparr>"
    and runs: "all_parse (run_schema rest) (ag_runs s) = Some rs"
    using assms by (auto simp: aiAgentPersistSchema_def bind_eq_Some_conv)
  show "p\<lparr>ag_steps := ag_steps s, ag_runs := ag_runs s, ag_stepDetails := ag_stepDetails s,
      ag_finalAnswers := ag_finalAnswers s, ag_activities := ag_activities s,
      ag_confirmation := ag_confirmation s, ag_session := ag_session s\<rparr> = s"
    by (simp add: p)
  have step: "ts_status u = ts_status t" if "step_schema rest t = Some u" for t u
    using that by (auto simp: step_schema_def bind_eq_Some_conv)
  have "ru_id y = trim (ru_id r) \<and> ru_status y = ru_status r \<and> map ts_status (ru_steps y) = map ts_status (ru_steps r)"
    if y: "run_schema rest r = Some y" for r y
  proof -
    have "all_parse (step_schema rest) (ru_steps r) = Some (ru_steps y)" and "ru_status y = ru_status r"
        "trimmed1 (ru_id r) = Some (ru_id y)"
      using y by (auto simp: run_schema_def bind_eq_Some_conv)
    moreover from all_parse_list [OF this(1)] have "list_all2 (\<lambda>t u. ts_status u = ts_status t) (ru_steps r) (ru_steps y)"
      by (rule list_all2_mono) (rule step)
    then have "map ts_status (ru_steps y) = map ts_status (ru_steps r)"
      by (auto simp: list_all2_conv_all_nth intro: nth_equalityI)
    ultimately show ?thesis by (auto simp: trimmed1_def split: if_splits)
  qed
  with all_parse_list [OF runs] show "list_all2 (\<lambda>r x. ru_id x = trim (ru_id r) \<and> ru_status x = ru_status r \<and>
      map ts_status (ru_steps x) = map ts_status (ru_steps r)) (ag_runs s) (ag_runs p)"
    by (auto simp: p elim!: list_all2_mono)
qed

text \<open>A step of a paused run: it waits where it was running, it is not active, and nothing else of it has
  changed.\<close>

definition step_paused :: "task_step \<Rightarrow> task_step \<Rightarrow> bool" where
  "step_paused t t' \<longleftrightarrow> ts_id t' = ts_id t \<and> ts_tools t' = ts_tools t \<and> ts_rest t' = ts_rest t \<and>
     ts_isActive t' = Some False \<and> ts_status t' = (if ts_status t = StRunning then StPending else ts_status t)"

definition run_paused :: "ustr \<Rightarrow> agent_run \<Rightarrow> agent_run \<Rightarrow> bool" where
  "run_paused now r r' \<longleftrightarrow> ru_id r' = ru_id r \<and> ru_status r' = PausedRun \<and> ru_updatedAt r' = now \<and>
     ru_currentStepId r' = ru_currentStepId r \<and> ru_rest r' = ru_rest r \<and>
     list_all2 step_paused (ru_steps r) (ru_steps r')"

text \<open>C26: A restart pauses what was in progress. Let \<open>p\<close> be what the schema reads from the stored state, in
  which the runs have their identifiers (trimmed) and the statuses of run and steps. Afterwards every
  run is the one of \<open>p\<close>, in the same order, except that a run in progress is paused at the time of the
  restart: its running steps are pending, its other steps keep their status, none is active, and its
  identifier, current step and other data are kept. An active run is still active if it exists; a suspended
  sidecar session is kept only together with its confirmation; nothing else of \<open>p\<close> changes. And when
  the schema leaves \<open>p\<close> as it is, another restart changes nothing.\<close>

theorem restart_pauses_runs:
  assumes "aiAgentPersistSchema rest (persisted s) = Some p" and "aiAgentPersistSchema rest p = Some p"
    and "trimmed1 now = Some now"
  shows "let s' = agent_restart rest now s in
    list_all2 (\<lambda>r x. ru_id x = trim (ru_id r) \<and> ru_status x = ru_status r \<and>
      map ts_status (ru_steps x) = map ts_status (ru_steps r)) (ag_runs s) (ag_runs p) \<and>
    list_all2 (\<lambda>r r'. if in_progress (ru_status r) then run_paused now r r' else r' = r) (ag_runs p) (ag_runs s') \<and>
    ag_activeRunId s' = known_run (ag_runs p) (ag_activeRunId s) \<and>
    ag_session s' = (if ag_confirmation s = None then None else ag_session p) \<and>
    s'\<lparr>ag_runs := ag_runs p, ag_activeRunId := ag_activeRunId p, ag_session := ag_session p\<rparr> = p \<and>
    agent_restart rest now' s' = s'"
proof -
  let ?s' = "normalizeHydratedAgentState now p"
  have s': "agent_restart rest now s = ?s'" using assms(1) by (simp add: agent_restart_def afterHydrate_def)
  obtain ts rs ds fs as c x where p: "p = (persisted s)\<lparr>ag_steps := ts, ag_runs := rs, ag_stepDetails := ds,
      ag_finalAnswers := fs, ag_activities := as, ag_confirmation := c, ag_session := x\<rparr>"
    and c: "opt_parse (confirmation_schema rest) (ag_confirmation s) = Some c"
    using assms(1) by (auto simp: aiAgentPersistSchema_def bind_eq_Some_conv persisted_def)
  have confirmed: "ag_confirmation p = None \<longleftrightarrow> ag_confirmation s = None"
    using c by (cases "ag_confirmation s") (auto simp: p opt_parse_def)
  have "persisted ?s' = ?s'" by (simp add: p persisted_def normalizeHydratedAgentState_def Let_def)
  then have again: "agent_restart rest now' ?s' = ?s'"
    using normalized_storable [OF assms(2,3)] by (simp add: agent_restart_def afterHydrate_def normalized_again)
  have "known_run (map (normalizeHydratedRun now) rs) i = known_run rs i" for rs i
    by (simp add: known_run_def find_run_map)
  moreover have "list_all2 (\<lambda>r r'. if in_progress (ru_status r) then run_paused now r r' else r' = r) rs
      (map (normalizeHydratedRun now) rs)" for rs
    by (auto simp: list_all2_map2 normalizeHydratedRun_def run_paused_def step_paused_def intro!: list_all2_refl)
  moreover have "ag_activeRunId p = ag_activeRunId s" by (simp add: p persisted_def)
  ultimately show ?thesis
    unfolding s' Let_def using again schema_keeps(2) [OF assms(1)] confirmed
    by (simp add: normalizeHydratedAgentState_def Let_def) (simp add: persisted_def)
qed

definition plain_step :: "nat \<Rightarrow> step_status \<Rightarrow> task_step" where
  "plain_step n st = \<lparr>ts_id = [n], ts_status = st, ts_tools = [''read_file''], ts_isActive = Some True,
     ts_rest = JNull\<rparr>"

definition plain_run :: "task_step list \<Rightarrow> agent_run" where
  "plain_run ts = \<lparr>ru_id = [97], ru_status = RunningStep, ru_steps = ts, ru_currentStepId = Some [49],
     ru_updatedAt = [48], ru_rest = JNull\<rparr>"

definition any_rest :: rest_schema where
  "any_rest n v = Some v"

lemma trim_digit [simp]: "n < 58 \<Longrightarrow> 47 < n \<Longrightarrow> trimmed1 [n] = Some [n]"
  by (simp add: trimmed1_def trim_def is_js_space_def)

lemma trim_a [simp]: "trimmed1 [97] = Some [97]"
  by (simp add: trimmed1_def trim_def is_js_space_def)

lemma plain_step_fixed: "n < 58 \<Longrightarrow> 47 < n \<Longrightarrow> step_schema any_rest (plain_step n st) = Some (plain_step n st)"
  by (simp add: step_schema_fixed plain_step_def any_rest_def AI_AGENT_TOOL_NAMES_def)

lemma plain_run_fixed:
  "run_schema any_rest (plain_run [plain_step 49 StRunning, plain_step 50 StPending]) =
   Some (plain_run [plain_step 49 StRunning, plain_step 50 StPending])"
  by (simp add: run_schema_fixed plain_run_def plain_step_fixed all_parse_id opt_parse_def any_rest_def)

lemma done_run_fixed:
  "run_schema any_rest (plain_run [plain_step 49 StRunning, plain_step 50 StDone]) =
   Some (plain_run [plain_step 49 StRunning, plain_step 50 StDone])"
  by (simp add: run_schema_fixed plain_run_def plain_step_fixed all_parse_id opt_parse_def any_rest_def)

definition one_run :: agent where
  "one_run = run_events agent_step new_agent [UpsertRun (plain_run [plain_step 49 StRunning, plain_step 50 StDone])]"

lemma one_run_storable: "aiAgentPersistSchema any_rest (persisted one_run) = Some (persisted one_run)"
  using done_run_fixed
  by (simp add: one_run_def schema_fixed plain_step_fixed persisted_def new_agent_def upsertRun_def
      no_plan_def no_usage_def shown_plan_valid_def plan_texts_def opt_all_def opt_parse_def map_schema_def)
    (simp add: plain_run_def plain_step_fixed)

lemma one_run_restarts: "map ru_status (ag_runs (agent_restart any_rest [51] one_run)) = [PausedRun]"
  by (simp add: agent_restart_def afterHydrate_def one_run_storable)
    (simp add: one_run_def upsertRun_def new_agent_def plain_run_def persisted_def normalizeHydratedAgentState_def
      normalizeHydratedRun_def in_progress_def Let_def)

theorem restart_pauses_runs_witness:
  "map (\<lambda>r. (ru_status r, map ts_status (ru_steps r))) (ag_runs (agent_restart any_rest [51] one_run))
   = [(PausedRun, [StPending, StDone])]"
  using restart_pauses_runs [OF one_run_storable one_run_storable, of "[51]" "[51]"]
  by (auto simp: Let_def one_run_def upsertRun_def new_agent_def plain_run_def persisted_def in_progress_def
      list_all2_Cons1 run_paused_def step_paused_def plain_step_def)

text \<open>Values that the store accepts and shows but its own schema refuses: a run with a single step (the
  sidecar's plans may have one), a step without tools, a usage whose output details are empty (what
  \<open>normalizeLanguageModelUsage\<close> makes of a usage without them), and more than twenty runs.\<close>

definition refused_run :: "agent_run \<Rightarrow> bool" where
  "refused_run r \<longleftrightarrow> length (ru_steps r) < 2 \<or> list_ex (\<lambda>t. ts_tools t = []) (ru_steps r)"

definition empty_output_details :: output_details where
  "empty_output_details = \<lparr>od_textTokens = None, od_reasoningTokens = None\<rparr>"

definition refused :: "agent \<Rightarrow> bool" where
  "refused s \<longleftrightarrow> list_ex refused_run (ag_runs s) \<or> 20 < length (ag_runs s) \<or>
     Option.bind (ug_latest (ag_usage s)) us_outputTokenDetails = Some empty_output_details"

lemma all_parse_None: "x \<in> set xs \<Longrightarrow> f x = None \<Longrightarrow> all_parse f xs = None"
  by (induction xs) (auto split: option.split simp: bind_eq_None_conv)

lemma step_without_tools: "ts_tools t = [] \<Longrightarrow> step_schema rest t = None"
  by (simp add: step_schema_def check_def split: option.split)

lemma refused_run_None:
  assumes "refused_run r"
  shows "run_schema rest r = None"
proof (cases "length (ru_steps r) < 2")
  case True
  then show ?thesis
    by (cases "trimmed1 (ru_id r)") (simp_all add: run_schema_def sized_def AI_AGENT_PLAN_MIN_STEPS_def)
next
  case False
  with assms obtain t where "t \<in> set (ru_steps r)" "ts_tools t = []" by (auto simp: refused_run_def list_ex_iff)
  then have "all_parse (step_schema rest) (ru_steps r) = None" by (intro all_parse_None step_without_tools)
  then show ?thesis by (cases "trimmed1 (ru_id r)") (simp_all add: run_schema_def sized_def)
qed

lemma refused_schema:
  assumes "refused s"
  shows "aiAgentPersistSchema rest s = None"
proof (rule ccontr)
  assume "aiAgentPersistSchema rest s \<noteq> None"
  then have n: "length (ag_runs s) \<le> 20" "all_parse (run_schema rest) (ag_runs s) \<noteq> None"
    and u: "opt_all usage_valid (ug_latest (ag_usage s))"
    by (auto simp: aiAgentPersistSchema_def bind_eq_Some_conv)
  from assms consider r where "r \<in> set (ag_runs s)" "refused_run r"
    | "Option.bind (ug_latest (ag_usage s)) us_outputTokenDetails = Some empty_output_details"
    using n(1) by (auto simp: refused_def list_ex_iff)
  then show False
  proof cases
    case 1
    then have "run_schema rest r = None" by (simp add: refused_run_None)
    with all_parse_None [of r "ag_runs s" "run_schema rest"] 1(1) n(2) show False by simp
  next
    case 2
    with u show False
      by (auto simp: bind_eq_Some_conv opt_all_def usage_valid_def empty_output_details_def)
  qed
qed

text \<open>One such value in the store and no run is paused at any later start: hydration gives up
  silently, so a run that was in progress is shown as in progress although nothing executes it, a
  suspended session without its confirmation stays, and the stored state is kept as it is.\<close>

theorem refused_state_is_never_normalised:
  assumes "refused s"
  shows "agent_restart rest now s = persisted s \<and> agent_restart rest now' (agent_restart rest now s) = persisted s \<and>
    map ru_status (ag_runs (agent_restart rest now s)) = map ru_status (ag_runs s) \<and>
    ag_session (agent_restart rest now s) = ag_session s"
proof -
  have "refused (persisted s)" "persisted (persisted s) = persisted s"
    using assms by (simp_all add: refused_def persisted_def)
  then show ?thesis using refused_schema [of "persisted s" rest]
    by (simp add: agent_restart_def afterHydrate_def) (simp add: persisted_def)
qed

theorem refused_state_is_never_normalised_witness:
  "map ru_status (ag_runs (agent_restart any_rest [51]
     (run_events agent_step new_agent [UpsertRun (plain_run [plain_step 49 StRunning])]))) = [RunningStep]"
proof -
  let ?s = "run_events agent_step new_agent [UpsertRun (plain_run [plain_step 49 StRunning])]"
  have "refused ?s" by (simp add: refused_def refused_run_def upsertRun_def plain_run_def)
  then have "map ru_status (ag_runs (agent_restart any_rest [51] ?s)) = map ru_status (ag_runs ?s)"
    using refused_state_is_never_normalised by blast
  then show ?thesis by (simp add: upsertRun_def new_agent_def plain_run_def)
qed

end
