(* ===== verification/AiConversation.thy ===== *)
theory AiConversation
  imports Uri Zod
begin

text \<open>
  The conversation store (\<open>src/store/aiConversation.ts\<close>): threads of chat messages, the active
  thread, titles. Strings are UTF-16 code units; Unicode normalisation (\<open>normalize('NFC')\<close>), fresh
  identifiers and clock readings are arguments, and what the store does not inspect of a message is a
  JSON value. The schema check of a stored state is left to the caller of \<open>hydrate\<close>.
\<close>

section \<open>State\<close>

datatype message_role = RUser | RAssistant | RSystem | RTool

datatype stream_status = Streaming | WaitingConfirmation | Completed | Cancelled

record chat_message =
  cm_role :: message_role
  cm_content :: ustr
  cm_createdAt :: ustr
  cm_stream :: "stream_status option"
  cm_rest :: json_value

datatype title_status = Temporary | Generating | Generated | Failed

record thread =
  th_id :: ustr
  th_title :: ustr
  th_titleStatus :: title_status
  th_updatedAt :: ustr
  th_createdAt :: ustr
  th_messages :: "chat_message list"
  th_scrollState :: "json_value option"

record conversation =
  cv_threads :: "thread list"
  cv_active :: "ustr option"

definition AI_CONVERSATION_HISTORY_LIMIT :: nat where "AI_CONVERSATION_HISTORY_LIMIT = 20"

definition TEMPORARY_TITLE_MAX_CHARS :: nat where "TEMPORARY_TITLE_MAX_CHARS = 24"

definition GENERATED_TITLE_MAX_CHARS :: nat where "GENERATED_TITLE_MAX_CHARS = 10"

section \<open>Titles\<close>

text \<open>\<open>Array.from\<close>: the characters, a surrogate pair being one.\<close>

fun characters :: "ustr \<Rightarrow> ustr list" where
  "characters [] = []"
| "characters [c] = [[c]]"
| "characters (c # d # s) =
     (if high_surrogate c \<and> low_surrogate d then [c, d] # characters s else [c] # characters (d # s))"

text \<open>\<open>replace(/\s+/gu, ' ')\<close>\<close>

fun squeeze_spaces :: "ustr \<Rightarrow> ustr" where
  "squeeze_spaces [] = []"
| "squeeze_spaces (c # s) =
     (if is_js_space c
      then (case s of d # _ \<Rightarrow> (if is_js_space d then squeeze_spaces s else 32 # squeeze_spaces s) | [] \<Rightarrow> [32])
      else c # squeeze_spaces s)"

definition normalizeTitleSource :: "(ustr \<Rightarrow> ustr) \<Rightarrow> ustr \<Rightarrow> ustr" where
  "normalizeTitleSource nfc s = trim (squeeze_spaces (nfc s))"

definition ellipsis :: nat where "ellipsis = 0x2026"

definition clipUnicodeText :: "ustr \<Rightarrow> nat \<Rightarrow> ustr" where
  "clipUnicodeText s n =
     (let cs = characters s in if length cs \<le> n then s else concat (take n cs) @ [ellipsis])"

definition default_title :: ustr where "default_title = [26032, 23545, 35805]"

definition deriveTemporaryConversationTitle :: "(ustr \<Rightarrow> ustr) \<Rightarrow> chat_message list \<Rightarrow> ustr" where
  "deriveTemporaryConversationTitle nfc ms =
     (let source = (case find (\<lambda>m. cm_role m = RUser \<and> trim (cm_content m) \<noteq> []) ms of
                      Some m \<Rightarrow> trim (cm_content m)
                    | None \<Rightarrow> (case ms of [] \<Rightarrow> [] | m # _ \<Rightarrow> trim (cm_content m)))
      in if source = [] then default_title
         else clipUnicodeText (normalizeTitleSource nfc source) TEMPORARY_TITLE_MAX_CHARS)"

definition title_trim :: "nat \<Rightarrow> bool" where
  "title_trim c \<longleftrightarrow> is_js_space c \<or> c \<in> {34, 39, 8220, 8221, 8216, 8217, 12298, 12299, 12304, 12305,
     12300, 12301, 12302, 12303}"

definition drop_final :: "nat \<Rightarrow> ustr \<Rightarrow> ustr" where
  "drop_final c s = (if s \<noteq> [] \<and> last s = c then butlast s else s)"

definition normalizeGeneratedTitle :: "(ustr \<Rightarrow> ustr) \<Rightarrow> ustr \<Rightarrow> ustr" where
  "normalizeGeneratedTitle nfc title =
     (let n = drop_end title_trim (dropWhile title_trim (normalizeTitleSource nfc title))
      in drop_final ellipsis (clipUnicodeText n GENERATED_TITLE_MAX_CHARS))"

section \<open>Threads\<close>

definition last_time :: "chat_message list \<Rightarrow> ustr \<Rightarrow> ustr" where
  "last_time ms t = (if ms = [] then t else cm_createdAt (last ms))"

definition createThread :: "(ustr \<Rightarrow> ustr) \<Rightarrow> ustr \<Rightarrow> ustr \<Rightarrow> chat_message list \<Rightarrow> thread" where
  "createThread nfc fresh now ms =
     \<lparr>th_id = fresh, th_title = deriveTemporaryConversationTitle nfc ms, th_titleStatus = Temporary,
      th_updatedAt = last_time ms now, th_createdAt = now, th_messages = ms, th_scrollState = None\<rparr>"

definition syncThreadMeta :: "(ustr \<Rightarrow> ustr) \<Rightarrow> thread \<Rightarrow> thread" where
  "syncThreadMeta nfc t =
     (let generated = (if th_titleStatus t = Generated then normalizeGeneratedTitle nfc (th_title t) else [])
      in t\<lparr>th_title := (if generated \<noteq> [] then generated
                       else deriveTemporaryConversationTitle nfc (th_messages t)),
           th_titleStatus := (if generated \<noteq> [] then Generated else th_titleStatus t),
           th_updatedAt := last_time (th_messages t) (th_updatedAt t)\<rparr>)"

definition usable_reply :: "chat_message \<Rightarrow> bool" where
  "usable_reply m \<longleftrightarrow> cm_role m = RAssistant \<and> trim (cm_content m) \<noteq> [] \<and>
     cm_stream m \<noteq> Some Streaming \<and> cm_stream m \<noteq> Some Cancelled"

definition getFirstRoundFromMessages :: "(ustr \<Rightarrow> ustr) \<Rightarrow> chat_message list \<Rightarrow> (ustr \<times> ustr) option" where
  "getFirstRoundFromMessages nfc ms =
     (case dropWhile (\<lambda>m. \<not> (cm_role m = RUser \<and> trim (cm_content m) \<noteq> [])) ms of
        [] \<Rightarrow> None
      | u # rest \<Rightarrow>
          (case find usable_reply rest of
             None \<Rightarrow> None
           | Some a \<Rightarrow> Some (normalizeTitleSource nfc (cm_content u), normalizeTitleSource nfc (cm_content a))))"

definition find_thread :: "ustr option \<Rightarrow> thread list \<Rightarrow> thread option" where
  "find_thread i ts = find (\<lambda>t. Some (th_id t) = i) ts"

definition trimThreads :: "thread list \<Rightarrow> ustr option \<Rightarrow> thread list" where
  "trimThreads ts active =
     (let activeThread = (if active = Some [] then None else find_thread active ts);
          nonEmpty = filter (\<lambda>t. th_messages t \<noteq> []) ts;
          kept = drop (length nonEmpty - AI_CONVERSATION_HISTORY_LIMIT) nonEmpty
      in case activeThread of
           Some t \<Rightarrow> (if th_messages t = [] then kept @ [t] else kept)
         | None \<Rightarrow> kept)"

definition normalizeThreads :: "(ustr \<Rightarrow> ustr) \<Rightarrow> thread list \<Rightarrow> ustr option \<Rightarrow> thread list" where
  "normalizeThreads nfc ts active = trimThreads (map (syncThreadMeta nfc) ts) active"

definition ensureActiveThread ::
    "(ustr \<Rightarrow> ustr) \<Rightarrow> ustr \<Rightarrow> ustr \<Rightarrow> ustr option \<Rightarrow> thread list \<Rightarrow> conversation" where
  "ensureActiveThread nfc fresh now active ts =
     (if ts = [] then \<lparr>cv_threads = [createThread nfc fresh now []], cv_active = Some fresh\<rparr>
      else \<lparr>cv_threads = ts,
        cv_active = (if active \<noteq> None \<and> active \<noteq> Some [] \<and> find_thread active ts \<noteq> None then active
                     else Some (th_id (last ts)))\<rparr>)"

section \<open>Hydration\<close>

definition normalizeHydratedMessage :: "chat_message \<Rightarrow> chat_message" where
  "normalizeHydratedMessage m = (if cm_stream m = Some Streaming then m\<lparr>cm_stream := Some Cancelled\<rparr> else m)"

definition normalizeMessages :: "chat_message list \<Rightarrow> chat_message list" where
  "normalizeMessages ms = map normalizeHydratedMessage ms"

definition normalizeHydratedThreads :: "(ustr \<Rightarrow> ustr) \<Rightarrow> thread list \<Rightarrow> ustr option \<Rightarrow> thread list" where
  "normalizeHydratedThreads nfc ts active =
     trimThreads (map (\<lambda>t. syncThreadMeta nfc (t\<lparr>th_messages := normalizeMessages (th_messages t)\<rparr>)) ts) active"

definition migrateLegacyMessages :: "(ustr \<Rightarrow> ustr) \<Rightarrow> ustr \<Rightarrow> ustr \<Rightarrow> chat_message list \<Rightarrow> conversation" where
  "migrateLegacyMessages nfc fresh now ms =
     (let t = createThread nfc fresh now (normalizeMessages ms)
      in \<lparr>cv_threads = [t], cv_active = Some (th_id t)\<rparr>)"

text \<open>What \<open>afterHydrate\<close> makes of the stored state, from the results of the two schema checks.\<close>

definition hydrate ::
    "(ustr \<Rightarrow> ustr) \<Rightarrow> ustr \<Rightarrow> ustr \<Rightarrow> (ustr option \<times> thread list) option \<Rightarrow> chat_message list option \<Rightarrow>
     conversation" where
  "hydrate nfc fresh now current legacy =
     (case current of
        Some (active, ts) \<Rightarrow> ensureActiveThread nfc fresh now active (normalizeHydratedThreads nfc ts active)
      | None \<Rightarrow>
          (case legacy of
             Some ms \<Rightarrow> migrateLegacyMessages nfc fresh now ms
           | None \<Rightarrow> ensureActiveThread nfc fresh now None []))"

section \<open>Actions\<close>

definition new_conversation :: "(ustr \<Rightarrow> ustr) \<Rightarrow> ustr \<Rightarrow> ustr \<Rightarrow> conversation" where
  "new_conversation nfc fresh now =
     \<lparr>cv_threads = [createThread nfc fresh now []], cv_active = Some fresh\<rparr>"

definition activeThread :: "conversation \<Rightarrow> thread option" where
  "activeThread s = find_thread (cv_active s) (cv_threads s)"

definition activeMessages :: "conversation \<Rightarrow> chat_message list" where
  "activeMessages s = (case activeThread s of Some t \<Rightarrow> th_messages t | None \<Rightarrow> [])"

definition historyThreads :: "conversation \<Rightarrow> thread list" where
  "historyThreads s = filter (\<lambda>t. th_messages t \<noteq> []) (cv_threads s)"

definition hasMessages :: "conversation \<Rightarrow> bool" where
  "hasMessages s \<longleftrightarrow> activeMessages s \<noteq> []"

definition replaceThreadsState ::
    "(ustr \<Rightarrow> ustr) \<Rightarrow> ustr \<Rightarrow> ustr \<Rightarrow> ustr option \<Rightarrow> thread list \<Rightarrow> conversation" where
  "replaceThreadsState nfc fresh now active ts =
     ensureActiveThread nfc fresh now active (normalizeThreads nfc ts active)"

definition has_thread :: "ustr \<Rightarrow> conversation \<Rightarrow> bool" where
  "has_thread i s \<longleftrightarrow> list_ex (\<lambda>t. th_id t = i) (cv_threads s)"

definition map_thread :: "ustr \<Rightarrow> (thread \<Rightarrow> thread) \<Rightarrow> thread list \<Rightarrow> thread list" where
  "map_thread i f ts = map (\<lambda>t. if th_id t = i then f t else t) ts"

definition patchActiveThread ::
    "(ustr \<Rightarrow> ustr) \<Rightarrow> ustr \<Rightarrow> ustr \<Rightarrow> (thread \<Rightarrow> thread) \<Rightarrow> conversation \<Rightarrow> conversation" where
  "patchActiveThread nfc fresh now f s =
     (let s1 = (if activeThread s = None
                then replaceThreadsState nfc fresh now (Some fresh)
                       (cv_threads s @ [createThread nfc fresh now []])
                else s)
      in case activeThread s1 of
           None \<Rightarrow> s1
         | Some t \<Rightarrow> replaceThreadsState nfc fresh now (Some (th_id t))
             (map_thread (th_id t) (\<lambda>t. syncThreadMeta nfc (f t)) (cv_threads s1)))"

definition patchThread ::
    "(ustr \<Rightarrow> ustr) \<Rightarrow> ustr \<Rightarrow> ustr \<Rightarrow> ustr \<Rightarrow> (thread \<Rightarrow> thread) \<Rightarrow> conversation \<Rightarrow> conversation" where
  "patchThread nfc fresh now i f s =
     (if has_thread i s
      then replaceThreadsState nfc fresh now (cv_active s) (map_thread i f (cv_threads s)) else s)"

definition appendMessage :: "(ustr \<Rightarrow> ustr) \<Rightarrow> ustr \<Rightarrow> ustr \<Rightarrow> chat_message \<Rightarrow> conversation \<Rightarrow> conversation" where
  "appendMessage nfc fresh now m =
     patchActiveThread nfc fresh now (\<lambda>t. t\<lparr>th_messages := th_messages t @ [m]\<rparr>)"

definition replaceMessages ::
    "(ustr \<Rightarrow> ustr) \<Rightarrow> ustr \<Rightarrow> ustr \<Rightarrow> chat_message list \<Rightarrow> conversation \<Rightarrow> conversation" where
  "replaceMessages nfc fresh now ms = patchActiveThread nfc fresh now (\<lambda>t. t\<lparr>th_messages := ms\<rparr>)"

definition replaceThreadMessages ::
    "(ustr \<Rightarrow> ustr) \<Rightarrow> ustr \<Rightarrow> ustr \<Rightarrow> ustr \<Rightarrow> chat_message list \<Rightarrow> conversation \<Rightarrow> conversation" where
  "replaceThreadMessages nfc fresh now i ms =
     patchThread nfc fresh now i (\<lambda>t. syncThreadMeta nfc (t\<lparr>th_messages := ms\<rparr>))"

definition switchThread :: "ustr \<Rightarrow> conversation \<Rightarrow> conversation" where
  "switchThread i s = (if has_thread i s then s\<lparr>cv_active := Some i\<rparr> else s)"

definition startNewThread :: "(ustr \<Rightarrow> ustr) \<Rightarrow> ustr \<Rightarrow> ustr \<Rightarrow> conversation \<Rightarrow> conversation" where
  "startNewThread nfc fresh now s =
     replaceThreadsState nfc fresh now (Some fresh) (cv_threads s @ [createThread nfc fresh now []])"

definition clearActiveThread :: "(ustr \<Rightarrow> ustr) \<Rightarrow> ustr \<Rightarrow> ustr \<Rightarrow> conversation \<Rightarrow> conversation" where
  "clearActiveThread nfc fresh now s =
     (case activeThread s of
        None \<Rightarrow> startNewThread nfc fresh now s
      | Some t \<Rightarrow> replaceThreadsState nfc fresh now (Some fresh)
          (filter (\<lambda>x. th_id x \<noteq> th_id t) (cv_threads s) @ [createThread nfc fresh now []]))"

definition updateThreadScrollState ::
    "(ustr \<Rightarrow> ustr) \<Rightarrow> ustr \<Rightarrow> ustr \<Rightarrow> ustr \<Rightarrow> json_value \<Rightarrow> conversation \<Rightarrow> conversation" where
  "updateThreadScrollState nfc fresh now i x =
     patchThread nfc fresh now i (\<lambda>t. t\<lparr>th_scrollState := Some x\<rparr>)"

definition deleteThread :: "(ustr \<Rightarrow> ustr) \<Rightarrow> ustr \<Rightarrow> ustr \<Rightarrow> ustr \<Rightarrow> conversation \<Rightarrow> bool \<times> conversation" where
  "deleteThread nfc fresh now i s =
     (if \<not> has_thread i s then (False, s)
      else (let remaining = filter (\<lambda>t. th_id t \<noteq> i) (cv_threads s);
                next = (if cv_active s = Some i
                        then (if remaining = [] then None else Some (th_id (last remaining)))
                        else cv_active s)
            in (True, replaceThreadsState nfc fresh now next remaining)))"

definition getThreadTitleStatus :: "ustr \<Rightarrow> conversation \<Rightarrow> title_status" where
  "getThreadTitleStatus i s =
     (case find_thread (Some i) (cv_threads s) of Some t \<Rightarrow> th_titleStatus t | None \<Rightarrow> Temporary)"

definition getFirstRoundForTitle :: "(ustr \<Rightarrow> ustr) \<Rightarrow> ustr \<Rightarrow> conversation \<Rightarrow> (ustr \<times> ustr) option" where
  "getFirstRoundForTitle nfc i s =
     (case find_thread (Some i) (cv_threads s) of
        Some t \<Rightarrow> getFirstRoundFromMessages nfc (th_messages t) | None \<Rightarrow> None)"

definition markThreadTitleGenerating ::
    "(ustr \<Rightarrow> ustr) \<Rightarrow> ustr \<Rightarrow> ustr \<Rightarrow> ustr \<Rightarrow> conversation \<Rightarrow> conversation" where
  "markThreadTitleGenerating nfc fresh now i =
     patchThread nfc fresh now i
       (\<lambda>t. t\<lparr>th_titleStatus := (if th_titleStatus t = Generated then Generated else Generating)\<rparr>)"

definition completeThreadTitleGeneration ::
    "(ustr \<Rightarrow> ustr) \<Rightarrow> ustr \<Rightarrow> ustr \<Rightarrow> ustr \<Rightarrow> ustr \<Rightarrow> conversation \<Rightarrow> conversation" where
  "completeThreadTitleGeneration nfc fresh now i title =
     (let normalized = normalizeGeneratedTitle nfc title in
      patchThread nfc fresh now i
        (\<lambda>t. if normalized = [] then t\<lparr>th_titleStatus := Failed\<rparr>
             else t\<lparr>th_title := normalized, th_titleStatus := Generated\<rparr>))"

definition failThreadTitleGeneration ::
    "(ustr \<Rightarrow> ustr) \<Rightarrow> ustr \<Rightarrow> ustr \<Rightarrow> ustr \<Rightarrow> conversation \<Rightarrow> conversation" where
  "failThreadTitleGeneration nfc fresh now i =
     patchThread nfc fresh now i
       (\<lambda>t. t\<lparr>th_titleStatus := (if th_titleStatus t = Generated then Generated else Failed)\<rparr>)"

section \<open>Events\<close>

text \<open>An event carries a fresh identifier and the time.\<close>

datatype conversation_event =
    AppendMessage ustr ustr chat_message
  | ReplaceMessages ustr ustr "chat_message list"
  | ReplaceThreadMessages ustr ustr ustr "chat_message list"
  | SwitchThread ustr
  | StartNewThread ustr ustr
  | ClearActiveThread ustr ustr
  | UpdateScroll ustr ustr ustr json_value
  | DeleteThread ustr ustr ustr
  | MarkTitleGenerating ustr ustr ustr
  | CompleteTitle ustr ustr ustr ustr
  | FailTitle ustr ustr ustr

fun conversation_step :: "(ustr \<Rightarrow> ustr) \<Rightarrow> conversation \<Rightarrow> conversation_event \<Rightarrow> conversation" where
  "conversation_step nfc s (AppendMessage f now m) = appendMessage nfc f now m s"
| "conversation_step nfc s (ReplaceMessages f now ms) = replaceMessages nfc f now ms s"
| "conversation_step nfc s (ReplaceThreadMessages f now i ms) = replaceThreadMessages nfc f now i ms s"
| "conversation_step nfc s (SwitchThread i) = switchThread i s"
| "conversation_step nfc s (StartNewThread f now) = startNewThread nfc f now s"
| "conversation_step nfc s (ClearActiveThread f now) = clearActiveThread nfc f now s"
| "conversation_step nfc s (UpdateScroll f now i x) = updateThreadScrollState nfc f now i x s"
| "conversation_step nfc s (DeleteThread f now i) = snd (deleteThread nfc f now i s)"
| "conversation_step nfc s (MarkTitleGenerating f now i) = markThreadTitleGenerating nfc f now i s"
| "conversation_step nfc s (CompleteTitle f now i title) = completeThreadTitleGeneration nfc f now i title s"
| "conversation_step nfc s (FailTitle f now i) = failThreadTitleGeneration nfc f now i s"

section \<open>Title bounds\<close>

lemma characters_Cons:
  "length (characters (d # s)) \<le> Suc (length (characters s)) \<and>
   length (characters s) \<le> length (characters (d # s))"
  by (induction s arbitrary: d) (simp, force)

lemma characters_append: "length (characters (a @ b)) \<le> length (characters a) + length (characters b)"
proof (induction a rule: characters.induct)
  case (2 c)
  then show ?case using characters_Cons [of c b] by simp
qed auto

lemma character_single: "x \<in> set (characters s) \<Longrightarrow> length (characters x) \<le> 1"
  by (induction s rule: characters.induct) (auto split: if_splits)

lemma characters_concat:
  "(\<And>x. x \<in> set xs \<Longrightarrow> length (characters x) \<le> 1) \<Longrightarrow> length (characters (concat xs)) \<le> length xs"
proof (induction xs)
  case (Cons x xs)
  then have "length (characters x) \<le> 1" "length (characters (concat xs)) \<le> length xs" by simp_all
  with characters_append [of x "concat xs"] show ?case by simp
qed simp

lemma clip_length: "length (characters (clipUnicodeText s n)) \<le> Suc n"
proof (cases "length (characters s) \<le> n")
  case False
  let ?k = "take n (characters s)"
  have "length (characters (concat ?k)) \<le> length ?k"
    by (intro characters_concat character_single) (rule in_set_takeD)
  with characters_append [of "concat ?k" "[ellipsis]"] False show ?thesis
    by (simp add: clipUnicodeText_def)
qed (simp add: clipUnicodeText_def)

lemma drop_final_length: "length (characters (drop_final c s)) \<le> length (characters s)"
proof (cases "s \<noteq> [] \<and> last s = c")
  case True
  have "length (characters a) \<le> length (characters (a @ [c]))" for a
    by (induction a rule: characters.induct) (use characters_Cons in auto)
  from this [of "butlast s"] True have "length (characters (butlast s)) \<le> length (characters s)"
    by (metis append_butlast_last_id)
  with True show ?thesis by (simp add: drop_final_def)
qed (auto simp: drop_final_def)

definition title_ok :: "thread \<Rightarrow> bool" where
  "title_ok t \<longleftrightarrow> length (characters (th_title t)) \<le> Suc TEMPORARY_TITLE_MAX_CHARS"

lemma temporary_title_length:
  "length (characters (deriveTemporaryConversationTitle nfc ms)) \<le> Suc TEMPORARY_TITLE_MAX_CHARS"
proof -
  have "length (characters default_title) \<le> Suc TEMPORARY_TITLE_MAX_CHARS"
    by (simp add: default_title_def TEMPORARY_TITLE_MAX_CHARS_def)
  then show ?thesis by (simp add: deriveTemporaryConversationTitle_def Let_def clip_length)
qed

lemma generated_title_length:
  "length (characters (normalizeGeneratedTitle nfc s)) \<le> Suc GENERATED_TITLE_MAX_CHARS"
  unfolding normalizeGeneratedTitle_def Let_def by (rule order_trans [OF drop_final_length clip_length])

lemma sync_title_ok [simp]: "title_ok (syncThreadMeta nfc t)"
  using temporary_title_length [of nfc "th_messages t"] generated_title_length [of nfc "th_title t"]
  by (simp add: title_ok_def syncThreadMeta_def Let_def TEMPORARY_TITLE_MAX_CHARS_def GENERATED_TITLE_MAX_CHARS_def)

lemma created_title_ok [simp]: "title_ok (createThread nfc f now ms)"
  using temporary_title_length [of nfc ms] by (simp add: title_ok_def createThread_def)

section \<open>The well-formedness invariant\<close>

definition conversation_ok :: "conversation \<Rightarrow> bool" where
  "conversation_ok s \<longleftrightarrow> cv_threads s \<noteq> [] \<and>
     (\<forall>t \<in> set (butlast (cv_threads s)). th_messages t \<noteq> []) \<and>
     length (historyThreads s) \<le> AI_CONVERSATION_HISTORY_LIMIT \<and>
     (\<exists>t \<in> set (cv_threads s). cv_active s = Some (th_id t)) \<and>
     (\<forall>t \<in> set (cv_threads s). title_ok t)"

lemma set_drop_filter: "x \<in> set (drop n (filter P xs)) \<Longrightarrow> x \<in> set xs \<and> P x"
  by (auto dest: in_set_dropD)

lemma find_thread_some: "find_thread i ts = Some t \<Longrightarrow> t \<in> set ts \<and> i = Some (th_id t)"
  by (auto simp: find_thread_def find_Some_iff)

lemma find_thread_none: "find_thread i ts = None \<longleftrightarrow> (\<forall>t \<in> set ts. i \<noteq> Some (th_id t))"
  by (auto simp: find_thread_def find_None_iff)

lemma trimmed_members: "t \<in> set (trimThreads ts i) \<Longrightarrow> t \<in> set ts"
  by (auto simp: trimThreads_def Let_def split: option.splits if_splits
      dest: set_drop_filter find_thread_some)

lemma trimmed_titles:
  "t \<in> set (trimThreads (map f ts) i) \<Longrightarrow> (\<And>t. title_ok (f t)) \<Longrightarrow> title_ok t"
  by (auto dest!: trimmed_members)

lemma trimmed_front: "t \<in> set (butlast (trimThreads ts i)) \<Longrightarrow> th_messages t \<noteq> []"
  by (auto simp: trimThreads_def Let_def split: option.splits if_splits
      dest: set_drop_filter in_set_butlastD)

lemma filter_drop_filter: "filter P (drop n (filter P xs)) = drop n (filter P xs)"
  by (auto simp: filter_id_conv dest: set_drop_filter)

lemma trimmed_history:
  "length (filter (\<lambda>t. th_messages t \<noteq> []) (trimThreads ts i)) \<le> AI_CONVERSATION_HISTORY_LIMIT"
  by (auto simp: trimThreads_def Let_def filter_drop_filter split: option.split)

lemma ensured_ok:
  assumes "\<forall>t \<in> set (butlast ts). th_messages t \<noteq> []"
    and "length (filter (\<lambda>t. th_messages t \<noteq> []) ts) \<le> AI_CONVERSATION_HISTORY_LIMIT"
    and "\<forall>t \<in> set ts. title_ok t"
  shows "conversation_ok (ensureActiveThread nfc f now i ts)"
proof (cases "ts = []")
  case True
  then show ?thesis
    by (simp add: ensureActiveThread_def conversation_ok_def historyThreads_def createThread_def [where ms = "[]"]
        flip: created_title_ok) (simp flip: createThread_def)
next
  case False
  with assms show ?thesis
    by (auto simp: ensureActiveThread_def conversation_ok_def historyThreads_def find_thread_none)
qed

lemma replaced_ok: "conversation_ok (replaceThreadsState nfc f now i ts)"
  unfolding replaceThreadsState_def normalizeThreads_def
  by (intro ensured_ok) (auto simp: trimmed_history dest: trimmed_front elim: trimmed_titles)

lemma hydrated_ok: "conversation_ok (ensureActiveThread nfc f now i (normalizeHydratedThreads nfc ts i))"
  unfolding normalizeHydratedThreads_def
  by (intro ensured_ok) (auto simp: trimmed_history dest: trimmed_front elim: trimmed_titles)

lemma created_ok: "conversation_ok \<lparr>cv_threads = [createThread nfc f now ms],
    cv_active = Some (th_id (createThread nfc f now ms))\<rparr>"
  by (simp add: conversation_ok_def historyThreads_def AI_CONVERSATION_HISTORY_LIMIT_def)

lemma new_ok: "conversation_ok (new_conversation nfc f now)"
  using created_ok [of nfc f now "[]"] by (simp add: new_conversation_def createThread_def)

lemma hydrate_ok: "conversation_ok (hydrate nfc f now current legacy)"
  using created_ok [of nfc f now] ensured_ok [of "[]" nfc f now None]
  by (auto simp: hydrate_def migrateLegacyMessages_def Let_def hydrated_ok split: option.split)

lemma switched_ok: "conversation_ok s \<Longrightarrow> conversation_ok (switchThread i s)"
  by (auto simp: conversation_ok_def switchThread_def has_thread_def historyThreads_def list_ex_iff)

lemma patched_ok:
  "conversation_ok s \<Longrightarrow> conversation_ok (patchActiveThread nfc f now g s)"
  "conversation_ok s \<Longrightarrow> conversation_ok (patchThread nfc f now i g s)"
  by (auto simp: patchActiveThread_def patchThread_def Let_def replaced_ok split: option.split)

interpretation conversations: machine "conversation_step nfc" "hydrate nfc f now current legacy" conversation_ok
proof
  show "conversation_ok (hydrate nfc f now current legacy)" by (rule hydrate_ok)
next
  fix s :: conversation and e assume "conversation_ok s"
  then show "conversation_ok (conversation_step nfc s e)"
    by (cases e) (simp_all add: appendMessage_def replaceMessages_def replaceThreadMessages_def
        startNewThread_def clearActiveThread_def updateThreadScrollState_def deleteThread_def
        markThreadTitleGenerating_def completeThreadTitleGeneration_def failThreadTitleGeneration_def
        Let_def patched_ok switched_ok replaced_ok split: option.split)
qed

text \<open>C24: After hydration from any stored snapshot and any sequence of actions, the conversation store
  is never empty, only its last thread may be without messages, it keeps at most twenty threads with
  messages, the active identifier names one of its threads, and no title is longer than twenty-five
  characters.\<close>

theorem conversation_always_well_formed:
  "let s = run_events (conversation_step nfc) (hydrate nfc f now current legacy) es in
    cv_threads s \<noteq> [] \<and>
    filter (\<lambda>t. th_messages t = []) (butlast (cv_threads s)) = [] \<and>
    length (historyThreads s) \<le> 20 \<and>
    activeThread s \<noteq> None \<and>
    list_all (\<lambda>t. length (characters (th_title t)) \<le> 25) (cv_threads s)"
  using conversations.inv_run [of nfc f now current legacy es]
  by (auto simp: Let_def conversation_ok_def activeThread_def find_thread_none title_ok_def list_all_iff
      AI_CONVERSATION_HISTORY_LIMIT_def TEMPORARY_TITLE_MAX_CHARS_def filter_empty_conv)

section \<open>Appending a message\<close>

definition visible :: "conversation \<Rightarrow> thread list" where
  "visible s = filter (\<lambda>t. th_messages t \<noteq> [] \<or> Some (th_id t) = cv_active s) (cv_threads s)"

definition messages_of :: "thread \<Rightarrow> ustr \<times> chat_message list" where
  "messages_of t = (th_id t, th_messages t)"

definition appended :: "(ustr \<Rightarrow> ustr) \<Rightarrow> ustr \<Rightarrow> chat_message \<Rightarrow> thread \<Rightarrow> thread" where
  "appended nfc i m t = syncThreadMeta nfc
     (if th_id t = i then syncThreadMeta nfc (t\<lparr>th_messages := th_messages t @ [m]\<rparr>) else t)"

lemma sync_fields [simp]: "th_id (syncThreadMeta nfc t) = th_id t"
  "th_messages (syncThreadMeta nfc t) = th_messages t"
  by (simp_all add: syncThreadMeta_def Let_def)

lemma appended_fields [simp]: "th_id (appended nfc i m t) = th_id t"
  "th_messages (appended nfc i m t) = (if th_id t = i then th_messages t @ [m] else th_messages t)"
  by (simp_all add: appended_def)

lemma append_state:
  "activeThread s = Some a \<Longrightarrow> appendMessage nfc f now m s =
     ensureActiveThread nfc f now (Some (th_id a))
       (trimThreads (map (appended nfc (th_id a) m) (cv_threads s)) (Some (th_id a)))"
  by (simp add: appendMessage_def patchActiveThread_def replaceThreadsState_def normalizeThreads_def
      map_thread_def appended_def [abs_def] comp_def)

lemma found_unique:
  assumes "distinct (map th_id ts)" and "a \<in> set ts"
  shows "find_thread (Some (th_id a)) ts = Some a"
proof (cases "find_thread (Some (th_id a)) ts")
  case None
  with assms show ?thesis by (auto simp: find_thread_none)
next
  case (Some b)
  with find_thread_some [OF Some] assms show ?thesis by (auto simp: distinct_map inj_on_def)
qed

text \<open>The active thread survives the limit: with messages it is one of at most twenty, without it is
  the last.\<close>

lemma active_is_kept:
  assumes ok: "conversation_ok s" and d: "distinct (map th_id (cv_threads s))" and act: "activeThread s = Some a"
  shows "a \<in> set (drop (length (visible s) - AI_CONVERSATION_HISTORY_LIMIT) (visible s))"
proof -
  from act have a: "a \<in> set (cv_threads s)" "cv_active s = Some (th_id a)"
    by (auto simp: activeThread_def dest: find_thread_some)
  from ok have ts: "cv_threads s = butlast (cv_threads s) @ [last (cv_threads s)]"
    by (simp add: conversation_ok_def)
  show ?thesis
  proof (cases "th_messages a = []")
    case True
    with ok have "a \<notin> set (butlast (cv_threads s))" by (auto simp: conversation_ok_def)
    with a(1) ts have l: "last (cv_threads s) = a" by (metis Un_iff empty_iff insertE list.set set_append)
    have "visible s = filter (\<lambda>t. th_messages t \<noteq> [] \<or> Some (th_id t) = cv_active s)
        (butlast (cv_threads s)) @ [a]"
      unfolding visible_def by (subst ts) (simp add: l a(2))
    then show ?thesis by (simp add: AI_CONVERSATION_HISTORY_LIMIT_def)
  next
    case False
    with a d have "visible s = historyThreads s"
      unfolding visible_def historyThreads_def by (intro filter_cong) (auto simp: distinct_map inj_on_def)
    with ok have "length (visible s) \<le> AI_CONVERSATION_HISTORY_LIMIT" by (simp add: conversation_ok_def)
    with a False show ?thesis by (simp add: visible_def)
  qed
qed

lemma append_threads:
  assumes ok: "conversation_ok s" and d: "distinct (map th_id (cv_threads s))" and act: "activeThread s = Some a"
    and ne: "th_id a \<noteq> []"
  shows "appendMessage nfc f now m s = \<lparr>cv_threads = map (appended nfc (th_id a) m)
      (drop (length (visible s) - AI_CONVERSATION_HISTORY_LIMIT) (visible s)), cv_active = cv_active s\<rparr>"
proof -
  let ?g = "appended nfc (th_id a) m" and ?kept = "drop (length (visible s) - AI_CONVERSATION_HISTORY_LIMIT) (visible s)"
  from act have a: "a \<in> set (cv_threads s)" "cv_active s = Some (th_id a)"
    by (auto simp: activeThread_def dest: find_thread_some)
  have "find_thread (Some (th_id a)) (map ?g (cv_threads s)) = Some (?g a)"
    using found_unique [of "map ?g (cv_threads s)" "?g a"] a d by (simp add: comp_def)
  moreover have "filter (\<lambda>t. th_messages t \<noteq> []) (map ?g (cv_threads s)) = map ?g (visible s)"
    using a by (auto simp: filter_map comp_def visible_def intro!: arg_cong [of _ _ "map _"] filter_cong)
  ultimately have "trimThreads (map ?g (cv_threads s)) (Some (th_id a)) = map ?g ?kept"
    using ne by (simp add: trimThreads_def Let_def drop_map)
  moreover have "?g a \<in> set (map ?g ?kept)" using active_is_kept [OF ok d act] by simp
  then have "map ?g ?kept \<noteq> [] \<and> find_thread (Some (th_id a)) (map ?g ?kept) \<noteq> None"
    by (metis appended_fields(1) empty_iff find_thread_none list.set(1))
  ultimately show ?thesis using a ne by (simp add: append_state [OF act] ensureActiveThread_def)
qed

text \<open>C14: Appending a message extends the active conversation by exactly that message, leaves it active
  and keeps every other conversation as it is, except that conversations beyond the twenty most recent
  and empty ones that are not active are dropped, never the active one.\<close>

theorem append_extends_active_thread:
  assumes "s = run_events (conversation_step nfc) (hydrate nfc f now current legacy) es"
    and "distinct (map th_id (cv_threads s))" and "[] \<notin> set (map th_id (cv_threads s))"
  shows "activeMessages (appendMessage nfc f' now' m s) = activeMessages s @ [m] \<and>
    cv_active (appendMessage nfc f' now' m s) = cv_active s \<and>
    map messages_of (cv_threads (appendMessage nfc f' now' m s)) =
      map (\<lambda>t. (th_id t, if Some (th_id t) = cv_active s then th_messages t @ [m] else th_messages t))
        (drop (length (visible s) - 20) (visible s))"
proof -
  have ok: "conversation_ok s" using conversations.inv_run assms(1) by blast
  then obtain a where act: "activeThread s = Some a"
    by (auto simp: conversation_ok_def activeThread_def) (metis find_thread_none not_Some_eq)
  let ?kept = "drop (length (visible s) - AI_CONVERSATION_HISTORY_LIMIT) (visible s)"
  from act have a: "a \<in> set (cv_threads s)" "cv_active s = Some (th_id a)"
    by (auto simp: activeThread_def dest: find_thread_some)
  with assms(3) have ne: "th_id a \<noteq> []" by (metis imageI list.set_map)
  note s' = append_threads [OF ok assms(2) act ne, of nfc f' now' m]
  have "distinct (map th_id ?kept)" using assms(2)
    by (simp add: visible_def distinct_map_filter flip: drop_map)
  then have "find_thread (Some (th_id a)) (map (appended nfc (th_id a) m) ?kept) = Some (appended nfc (th_id a) m a)"
    using found_unique [of "map (appended nfc (th_id a) m) ?kept" "appended nfc (th_id a) m a"]
      active_is_kept [OF ok assms(2) act] by (simp add: comp_def)
  with s' act a show ?thesis
    by (simp add: activeMessages_def activeThread_def messages_of_def comp_def
        AI_CONVERSATION_HISTORY_LIMIT_def)
qed

definition sample_message :: chat_message where
  "sample_message = \<lparr>cm_role = RUser, cm_content = [104, 105], cm_createdAt = [49], cm_stream = None,
    cm_rest = JNull\<rparr>"

theorem append_extends_active_thread_witness:
  "activeMessages (appendMessage id [70] [50] sample_message
      (new_conversation id [69] [48])) = [sample_message]"
proof -
  let ?s = "new_conversation id [69] [48]"
  have r: "?s = run_events (conversation_step id) (hydrate id [69] [48] None None) []"
    by (simp add: new_conversation_def hydrate_def ensureActiveThread_def)
  have i: "distinct (map th_id (cv_threads ?s))" "[] \<notin> set (map th_id (cv_threads ?s))"
    by (simp_all add: new_conversation_def createThread_def)
  have e: "activeMessages ?s = []"
    by (simp add: new_conversation_def createThread_def activeMessages_def activeThread_def find_thread_def)
  show ?thesis
    using append_extends_active_thread [OF r i, of "[70]" "[50]" sample_message] by (simp add: e)
qed

section \<open>Writing to a thread that is not active\<close>

text \<open>The limit does not protect an active conversation that has messages: with twenty conversations
  and the oldest of them active, writing the first messages of a new one in the background drops the
  active conversation and makes the new one active.\<close>

theorem background_write_evicts_active_thread:
  assumes ts: "cv_threads s = old # mid @ [new]" and n: "length mid = 19"
    and full: "filter (\<lambda>t. th_messages t = []) (old # mid) = []" and "th_messages new = []"
    and d: "distinct (map th_id (cv_threads s))" and act: "cv_active s = Some (th_id old)"
    and ne: "th_id old \<noteq> []" and ms: "ms \<noteq> []"
  shows "let s' = replaceThreadMessages nfc f now (th_id new) ms s in
    \<not> has_thread (th_id old) s' \<and> cv_active s' = Some (th_id new) \<and> activeMessages s' = ms"
proof -
  define g where "g t = syncThreadMeta nfc
    (if th_id t = th_id new then syncThreadMeta nfc (t\<lparr>th_messages := ms\<rparr>) else t)" for t
  have g: "th_id (g t) = th_id t" "th_messages (g t) = (if th_id t = th_id new then ms else th_messages t)" for t
    by (simp_all add: g_def)
  let ?s' = "replaceThreadMessages nfc f now (th_id new) ms s"
  have h: "has_thread (th_id new) s" by (simp add: has_thread_def ts)
  have m: "map (syncThreadMeta nfc) (map_thread (th_id new) (\<lambda>t. syncThreadMeta nfc (t\<lparr>th_messages := ms\<rparr>)) xs)
      = map g xs" for xs
    by (simp add: map_thread_def g_def)
  have e: "?s' = ensureActiveThread nfc f now (cv_active s) (trimThreads (map g (cv_threads s)) (cv_active s))"
    by (simp add: replaceThreadMessages_def patchThread_def h replaceThreadsState_def normalizeThreads_def m)
  have full': "th_messages t \<noteq> []" if "t \<in> set (old # mid)" for t
    using full that by (simp only: filter_empty_conv) blast
  have "find_thread (Some (th_id old)) (map g (cv_threads s)) = Some (g old)"
    using ts by (simp add: find_thread_def g)
  moreover have "filter (\<lambda>t. th_messages t \<noteq> []) (map g (cv_threads s)) = map g (cv_threads s)"
    using ms full' by (auto simp: g ts filter_id_conv)
  moreover have "length (map g (cv_threads s)) = Suc 20" using ts n by simp
  ultimately have "trimThreads (map g (cv_threads s)) (cv_active s) =
      (case Some (g old) of Some t \<Rightarrow> if th_messages t = [] then drop 1 (map g (cv_threads s)) @ [t]
         else drop 1 (map g (cv_threads s)) | None \<Rightarrow> [])"
    using act ne by (simp add: trimThreads_def Let_def AI_CONVERSATION_HISTORY_LIMIT_def)
  then have t: "trimThreads (map g (cv_threads s)) (cv_active s) = map g (mid @ [new])"
    using full' ms by (simp add: g ts)
  have gone: "find_thread (Some (th_id old)) (map g (mid @ [new])) = None"
    using d ts by (auto simp: find_thread_none g)
  have e': "?s' = ensureActiveThread nfc f now (Some (th_id old)) (map g (mid @ [new]))"
    using e t act by simp
  have s': "cv_threads ?s' = map g (mid @ [new])" "cv_active ?s' = Some (th_id new)"
    unfolding e' using gone by (simp_all add: ensureActiveThread_def g)
  have "find_thread (Some (th_id (g new))) (map g (mid @ [new])) = Some (g new)"
    using d ts by (intro found_unique) (auto simp: g comp_def)
  then have "activeMessages ?s' = ms" by (simp add: activeMessages_def activeThread_def s' g)
  moreover have "\<not> has_thread (th_id old) ?s'" using gone by (auto simp: has_thread_def s' list_ex_iff find_thread_none)
  ultimately show ?thesis by (simp add: s' Let_def)
qed

definition numbered_thread :: "nat \<Rightarrow> thread" where
  "numbered_thread n = \<lparr>th_id = [n], th_title = default_title, th_titleStatus = Temporary, th_updatedAt = [49],
    th_createdAt = [49], th_messages = (if n < 20 then [sample_message] else []), th_scrollState = None\<rparr>"

theorem background_write_evicts_active_thread_witness:
  "\<not> has_thread [0] (replaceThreadMessages id [99] [50] [20] [sample_message]
      \<lparr>cv_threads = map numbered_thread [0..<21], cv_active = Some [0]\<rparr>)"
proof -
  let ?s = "\<lparr>cv_threads = map numbered_thread [0..<21], cv_active = Some [0]\<rparr>"
  have "[0..<21] = 0 # [1..<20] @ [20::nat]" by (simp add: upt_conv_Cons flip: upt_Suc_append)
  then have "cv_threads ?s = numbered_thread 0 # map numbered_thread [1..<20] @ [numbered_thread 20]"
    by simp
  from background_write_evicts_active_thread [OF this, of "[sample_message]" id "[99]" "[50]"]
  show ?thesis by (simp add: numbered_thread_def Let_def filter_empty_conv comp_def distinct_map inj_on_def)
qed

end
