(* ===== verification/SidecarEvents.thy ===== *)
theory SidecarEvents
  imports AgentStore Json Paths
begin

text \<open>
  What the assistant shows of a sidecar's answer (\<open>src/composables/ai/sidecar-events.ts\<close>), first part:
  the events, the tables of tools, how a plan becomes task steps, how JSON values of tools are read,
  described and summarised. Not in the source, and fields of the environment: \<open>Intl.Segmenter\<close> and
  NFC (\<open>text_env\<close>), \<open>pathe\<close> (\<open>path_env\<close>), the conversion between numerals and doubles, and the host
  name that \<open>new URL\<close> finds. JSON values are the type \<open>out\<close>; a number without a value is the infinity that
  an overlong numeral denotes.
\<close>

record sidecar_env =
  sc_text :: text_env
  sc_paths :: path_env
  sc_read :: "ustr \<Rightarrow> js_number"
  sc_show :: "rat \<Rightarrow> ustr"
  sc_hostname :: "ustr \<Rightarrow> ustr option"

section \<open>Events\<close>

text \<open>Runtime events: what the projections read. The other fields of an event are not touched.\<close>

datatype runtime_type =
    RunStartedEvent | TextDeltaEvent | ReasoningDeltaEvent | ModelStartedEvent | ModelCompletedEvent
  | ToolStartedEvent | ToolProgressEvent | ToolCompletedEvent | EnvelopeInjectedEvent
  | EnvelopeReplacedEvent | TokenCheckedEvent | ProviderPayloadCheckedEvent | ToolSummaryEvent
  | MemoryCompressedEvent | CheckpointCreatedEvent | CheckpointFailedEvent | RestoreStartedEvent
  | RestoreCompletedEvent | RestoreFailedEvent | SideEffectRecordedEvent | SideEffectWarningEvent
  | MessageAddedEvent | RunCompletedEvent | RunErrorEvent | DebugEvent

datatype visibility = UserVisible | DebugVisible

record tool_run =
  tr_toolUseId :: "ustr option"
  tr_toolName :: ustr
  tr_preview :: "ustr option"

datatype runtime_body =
    ToolStarted tool_run
  | ToolCompleted tool_run bool "ustr option"
  | OtherRuntime runtime_type

record sidecar_runtime_event =
  re_id :: ustr
  re_visibility :: visibility
  re_body :: runtime_body

fun re_type :: "runtime_body \<Rightarrow> runtime_type" where
  "re_type (ToolStarted _) = ToolStartedEvent"
| "re_type (ToolCompleted _ _ _) = ToolCompletedEvent"
| "re_type (OtherRuntime t) = t"

record approval_request =
  aq_id :: ustr
  aq_toolName :: ustr
  aq_question :: ustr
  aq_summary :: ustr
  aq_riskLevel :: risk_level
  aq_reversible :: bool
  aq_createdAt :: ustr

record plan_ready =
  py_planId :: ustr
  py_threadId :: "ustr option"
  py_version :: int
  py_status :: plan_status
  py_createdAt :: "ustr option"
  py_updatedAt :: "ustr option"
  py_approvedAt :: "ustr option option"
  py_executedAt :: "ustr option option"
  py_rejectionReason :: "ustr option option"
  py_errorMessage :: "ustr option option"
  py_plan :: agent_plan

datatype ui_event =
    MessageDelta ustr
  | AgentEvent sidecar_runtime_event
  | PlanReadyEvent plan_ready
  | PlanRecordEvent plan_record "plan_record list"
  | ToolStart ustr out
  | ToolResult ustr out
  | ApprovalRequired approval_request
  | DiffReady json_value
  | Done ustr "usage option"
  | ErrorEvent ustr

record sidecar_response =
  sr_sessionId :: ustr
  sr_events :: "ui_event list"
  sr_result :: "ustr option"

section \<open>Tables\<close>

definition one_of :: "string list \<Rightarrow> ustr \<Rightarrow> bool" where
  "one_of names n \<longleftrightarrow> list_ex (\<lambda>s. lit s = n) names"

definition look_up :: "(string \<times> 'v) list \<Rightarrow> ustr \<Rightarrow> 'v option" where
  "look_up tbl n = map_option snd (find (\<lambda>e. lit (fst e) = n) tbl)"

definition SIDECAR_FILE_MUTATION_TOOL_NAMES :: "string list" where
  "SIDECAR_FILE_MUTATION_TOOL_NAMES = [''write_file'', ''edit_file'', ''apply_file_edits'',
     ''propose_file_patch'', ''mastra_workspace_edit_file'', ''mastra_workspace_write_file'',
     ''mastra_workspace_ast_edit'', ''create_directory'', ''move_file'', ''delete_file'']"

definition SIDECAR_FILE_PATH_KEYS :: "string list" where
  "SIDECAR_FILE_PATH_KEYS = [''path'', ''file'', ''filePath'', ''relativePath'', ''targetPath'', ''sourcePath'',
     ''destinationPath'', ''newPath'']"

definition TIMELINE_DEBUG_EVENT_TYPES :: "runtime_type list" where
  "TIMELINE_DEBUG_EVENT_TYPES = [TokenCheckedEvent, ProviderPayloadCheckedEvent]"

definition SIDECAR_QUERY_KEYS :: "string list" where
  "SIDECAR_QUERY_KEYS = [''query'', ''q'', ''pattern'', ''keyword'', ''keywords'', ''search'', ''searchTerm'',
     ''search_term'']"

definition SIDECAR_COMMAND_KEYS :: "string list" where
  "SIDECAR_COMMAND_KEYS = [''command'', ''cmd'', ''script'']"

definition SIDECAR_URL_KEYS :: "string list" where
  "SIDECAR_URL_KEYS = [''url'', ''uri'', ''href'']"

definition SIDECAR_DOMAIN_KEYS :: "string list" where
  "SIDECAR_DOMAIN_KEYS = [''domain'', ''domains'', ''site'', ''sites'', ''includeDomains'', ''include_domains'',
     ''includeDomain'', ''include_domain'']"

definition SIDECAR_PATH_SCOPE_KEYS :: "string list" where
  "SIDECAR_PATH_SCOPE_KEYS = SIDECAR_FILE_PATH_KEYS @ [''path'', ''paths'', ''root'', ''directory'', ''dir'',
     ''folder'', ''cwd'', ''basePath'', ''base_path'']"

definition WEB_SEARCH_TOOL_NAMES :: "string list" where
  "WEB_SEARCH_TOOL_NAMES = [''web_search'', ''tavily-search'', ''tavily-map'', ''tavily_search'', ''tavily_map'',
     ''tavily_research'']"

definition WEB_FETCH_TOOL_NAMES :: "string list" where
  "WEB_FETCH_TOOL_NAMES = [''web_fetch'', ''tavily-extract'', ''tavily-crawl'', ''tavily_extract'',
     ''tavily_crawl'']"

definition FILE_SEARCH_TOOL_NAMES :: "string list" where
  "FILE_SEARCH_TOOL_NAMES = [''search_files'', ''search_text'', ''search_symbols'', ''search_project_files'',
     ''search_nodes'', ''grep_in_files'', ''mastra_workspace_grep'']"

definition FILE_READ_TOOL_NAMES :: "string list" where
  "FILE_READ_TOOL_NAMES = [''read_text_file'', ''read_media_file'', ''read_multiple_files'', ''read_current_file'',
     ''read_file_window'', ''read_selected_text'', ''read_file'', ''read_project_file'', ''get_file_info'',
     ''open_nodes'', ''mastra_workspace_read_file'', ''mastra_workspace_lsp_inspect'']"

definition DIRECTORY_TOOL_NAMES :: "string list" where
  "DIRECTORY_TOOL_NAMES = [''mastra_workspace_list_files'', ''list_dir'', ''list_directory'',
     ''list_directory_with_sizes'', ''directory_tree'', ''list_allowed_directories'', ''list_project_files'',
     ''get_project_tree'']"

definition GIT_TOOL_NAMES :: "string list" where
  "GIT_TOOL_NAMES = [''git_status'', ''git_diff_unstaged'', ''git_diff_staged'', ''git_log'', ''git_show'',
     ''get_git_diff'']"

text \<open>The words shown to the user, as code points.\<close>

datatype ui_word =
    WebSearchWord | WebReadWord | WebPageWord | WorkspaceWord | FileWord | ProjectWord | GitWord
  | RepositoryWord | PlatformLabel | QueryLabel | SiteLabel | UrlLabel | SearchLabel | ScopeLabel
  | DirectoryLabel | CommandLabel | TaskWord | ExecutingWord | ToolFailedWord | AwaitApproval
  | FindingWord | CriterionWord | RollbackHint | ListSeparator | MoreBefore | MoreAfter | Colon | Dot

fun word :: "ui_word \<Rightarrow> ustr" where
  "word WebSearchWord = [32852, 32593, 25628, 32034]"
| "word WebReadWord = [32593, 39029, 35835, 21462]"
| "word WebPageWord = [32593, 39029]"
| "word WorkspaceWord = [24037, 20316, 21306]"
| "word FileWord = [25991, 20214]"
| "word ProjectWord = [39033, 30446, 32467, 26500]"
| "word GitWord = [71, 105, 116, 32, 21464, 26356]"
| "word RepositoryWord = [24403, 21069, 20179, 24211]"
| "word PlatformLabel = [24179, 21488]"
| "word QueryLabel = [26597, 35810]"
| "word SiteLabel = [31449, 28857]"
| "word UrlLabel = [32593, 22336]"
| "word SearchLabel = [25628, 32034]"
| "word ScopeLabel = [33539, 22260]"
| "word DirectoryLabel = [30446, 24405]"
| "word CommandLabel = [21629, 20196]"
| "word TaskWord = [20219, 21153]"
| "word ExecutingWord = [27491, 22312, 25191, 34892]"
| "word ToolFailedWord = [24037, 20855, 25191, 34892, 22833, 36133]"
| "word AwaitApproval = [31561, 24453, 23457, 25209, 65306]"
| "word FindingWord = [39564, 35777, 21457, 29616]"
| "word CriterionWord = [39564, 25910, 39033]"
| "word RollbackHint = [25191, 34892, 21069, 30001, 21518, 31471, 29983, 25104, 24555, 29031, 65292, 22833, 36133, 25110, 29992, 25143, 19981, 28385, 24847, 26102, 21487, 25353, 20219, 21153, 22238, 28378, 12290]"
| "word ListSeparator = [12289]"
| "word MoreBefore = [32, 31561, 32]"
| "word MoreAfter = [32, 39033]"
| "word Colon = [65306]"
| "word Dot = [32, 183, 32]"

definition TOOL_PLATFORM_BY_NAME :: "(string \<times> ustr) list" where
  "TOOL_PLATFORM_BY_NAME = map (\<lambda>n. (n, lit ''Tavily'')) [''tavily-search'', ''tavily-extract'', ''tavily-map'',
       ''tavily-crawl'', ''tavily_search'', ''tavily_extract'', ''tavily_map'', ''tavily_crawl'',
       ''tavily_research''] @
     [(''web_search'', word WebSearchWord), (''web_fetch'', word WebReadWord)]"

definition getToolPlatform :: "ustr \<Rightarrow> ustr option" where
  "getToolPlatform n = look_up TOOL_PLATFORM_BY_NAME n"

definition SIDECAR_TOOL_TO_AI_TOOL :: "(string \<times> string) list" where
  "SIDECAR_TOOL_TO_AI_TOOL = [
    (''read_text_file'', ''read_file''), (''read_media_file'', ''read_file''),
    (''read_multiple_files'', ''read_file''), (''list_directory'', ''get_project_tree''),
    (''list_directory_with_sizes'', ''get_project_tree''), (''list_dir'', ''get_project_tree''),
    (''directory_tree'', ''get_project_tree''), (''search_files'', ''search_text''),
    (''grep_in_files'', ''search_text''), (''search_symbols'', ''search_symbols''),
    (''get_file_info'', ''read_file''), (''read_file_window'', ''read_file''),
    (''list_allowed_directories'', ''get_project_tree''),
    (''list_project_files'', ''get_project_tree''), (''read_project_file'', ''read_file''),
    (''search_project_files'', ''search_text''), (''apply_file_edits'', ''auto_apply_patch''),
    (''propose_file_patch'', ''auto_apply_patch''),
    (''mastra_workspace_edit_file'', ''auto_apply_patch''),
    (''mastra_workspace_write_file'', ''auto_apply_patch''),
    (''mastra_workspace_ast_edit'', ''auto_apply_patch''),
    (''mastra_workspace_list_files'', ''get_project_tree''),
    (''mastra_workspace_lsp_inspect'', ''get_diagnostics''),
    (''mastra_workspace_grep'', ''search_text''), (''mastra_workspace_read_file'', ''read_file''),
    (''mastra_workspace_execute_command'', ''run_command''),
    (''mastra_workspace_delete'', ''run_command''), (''mastra_workspace_mkdir'', ''auto_apply_patch''),
    (''write_file'', ''auto_apply_patch''), (''edit_file'', ''auto_apply_patch''),
    (''create_directory'', ''auto_apply_patch''), (''move_file'', ''auto_apply_patch''),
    (''delete_file'', ''run_command''), (''run_shell_command'', ''run_command''),
    (''install_package'', ''run_command''), (''git_status'', ''get_git_diff''),
    (''git_diff_unstaged'', ''get_git_diff''), (''git_diff_staged'', ''get_git_diff''),
    (''git_log'', ''get_git_diff''), (''git_show'', ''get_git_diff''), (''git_add'', ''stage_file''),
    (''git_reset'', ''run_command''), (''git_create_branch'', ''run_command''),
    (''git_checkout'', ''run_command''), (''git_init'', ''run_command''),
    (''git_commit'', ''create_commit''), (''tavily-search'', ''web_search''),
    (''tavily-extract'', ''web_fetch''), (''tavily-map'', ''web_search''),
    (''tavily-crawl'', ''web_fetch''), (''tavily_search'', ''web_search''),
    (''tavily_extract'', ''web_fetch''), (''tavily_map'', ''web_search''),
    (''tavily_crawl'', ''web_fetch''), (''tavily_research'', ''web_search''),
    (''create_entities'', ''get_project_tree''), (''create_relations'', ''get_project_tree''),
    (''add_observations'', ''get_project_tree''), (''delete_entities'', ''run_command''),
    (''delete_observations'', ''run_command''), (''delete_relations'', ''run_command''),
    (''read_graph'', ''get_project_tree''), (''search_nodes'', ''search_text''),
    (''open_nodes'', ''read_file''), (''sequentialthinking'', ''get_diagnostics''),
    (''get_current_time'', ''get_diagnostics''), (''convert_time'', ''get_diagnostics'')]"

definition isAiAgentToolName :: "ustr \<Rightarrow> string option" where
  "isAiAgentToolName n = find (\<lambda>s. lit s = n) AI_AGENT_TOOL_NAMES"

definition mapSidecarToolNameToAiToolName :: "ustr \<Rightarrow> string" where
  "mapSidecarToolNameToAiToolName n = (case isAiAgentToolName n of
     Some s \<Rightarrow> s | None \<Rightarrow> orElse (look_up SIDECAR_TOOL_TO_AI_TOOL n) ''get_project_tree'')"

section \<open>Plans as task steps\<close>

definition inferStepKind :: "ustr list \<Rightarrow> string" where
  "inferStepKind tools =
     (if list_ex (one_of [''search_project_files'', ''search_files'', ''search_text'', ''search_symbols'',
          ''grep_in_files'', ''mastra_workspace_grep'', ''tavily-search'', ''tavily-map'', ''tavily_search'',
          ''tavily_map'', ''tavily_research'', ''search_nodes'']) tools then ''search''
      else if list_ex (one_of [''write_file'', ''edit_file'', ''apply_file_edits'', ''propose_file_patch'',
          ''mastra_workspace_edit_file'', ''mastra_workspace_write_file'', ''mastra_workspace_ast_edit'',
          ''create_directory'', ''move_file'', ''delete_file'', ''propose_patch'', ''auto_apply_patch'']) tools
        then ''edit''
      else if list_ex (one_of [''run_shell_command'', ''install_package'', ''run_command'', ''run_test'']) tools
        then ''verify''
      else if list_ex (one_of [''git_commit'', ''git_status'', ''git_log'', ''git_show'', ''git_diff_unstaged'',
          ''git_diff_staged'', ''create_commit'', ''stage_file'']) tools then ''summarize''
      else ''inspect'')"

text \<open>An optional list that is missing and an empty one are the same to the mapping; so are a missing
  description and the empty one. The fields the agent store reads are its own, the others are kept as
  a value, in the order of the source.\<close>

definition listed :: "string \<Rightarrow> ustr list \<Rightarrow> (string \<times> json_value) list" where
  "listed k xs = (if xs = [] then [] else [(k, jstrings xs)])"

definition mapped_step :: "nat \<Rightarrow> plan_step \<Rightarrow> task_step" where
  "mapped_step index s =
     \<lparr>ts_id = st_id s, ts_status = st_status s,
      ts_tools = map mapSidecarToolNameToAiToolName (st_tools s), ts_isActive = None,
      ts_rest = JObj ([(''index'', JInt (int index)), (''title'', JStr (st_title s)), (''goal'', JStr (st_goal s))] @
        (if orElse (st_description s) [] = [] then [] else jopt ''description'' JStr (st_description s)) @
        [(''kind'', JStr (lit (inferStepKind (st_tools s)))), (''expectedOutput'', JStr (st_expectedOutput s))] @
        listed ''files'' (st_files s) @ listed ''commands'' (st_commands s) @ listed ''risks'' (st_risks s) @
        listed ''acceptanceCriteria'' (st_acceptanceCriteria s) @
        [(''requiresUserApproval'', JBool (st_requiresApproval s)),
         (''riskLevel'', enum_name risk_level_names (st_riskLevel s))] @
        (if st_requiresApproval s then [(''rollbackStrategy'', JStr (word RollbackHint))] else []))\<rparr>"

definition mapSidecarPlanToTaskSteps :: "agent_plan \<Rightarrow> task_step list" where
  "mapSidecarPlanToTaskSteps p = map (\<lambda>(i, s). mapped_step i s) (enumerate 0 (pl_steps p))"

section \<open>JSON helpers\<close>

definition stringifyJsonValue :: "sidecar_env \<Rightarrow> out \<Rightarrow> ustr" where
  "stringifyJsonValue env v = json_stringify (sc_show env) v"

fun toJsonValueOrNull :: "out \<Rightarrow> out" where
  "toJsonValueOrNull (ArrOut vs) = ArrOut (map toJsonValueOrNull vs)"
| "toJsonValueOrNull (ObjOut es) = ObjOut (map (\<lambda>(k, v). (k, toJsonValueOrNull v)) es)"
| "toJsonValueOrNull v = v"

definition parseJsonString :: "sidecar_env \<Rightarrow> ustr \<Rightarrow> out option" where
  "parseJsonString env s =
     (let t = trim s in
      if t = [] \<or> (hd t \<noteq> 123 \<and> hd t \<noteq> 91) then None
      else map_option toJsonValueOrNull (JSON_parse (sc_read env) t))"

definition clipSummary :: "sidecar_env \<Rightarrow> ustr \<Rightarrow> nat \<Rightarrow> ustr" where
  "clipSummary env s limit = clipTextPreview (sc_text env) s
     \<lparr>co_maxGraphemes = Some (Some (of_nat limit)), co_locale = None, co_ellipsis = None\<rparr>"

definition getRecordValue :: "out \<Rightarrow> string \<Rightarrow> out option" where
  "getRecordValue v k = (case v of ObjOut es \<Rightarrow> map_of es (lit k) | _ \<Rightarrow> None)"

fun nonblank :: "out option \<Rightarrow> ustr option" where
  "nonblank (Some (StrOut s)) = (if trim s = [] then None else Some (trim s))"
| "nonblank _ = None"

fun getStringField :: "out \<Rightarrow> string list \<Rightarrow> ustr option" where
  "getStringField v [] = None"
| "getStringField v (k # ks) =
     (case nonblank (getRecordValue v k) of Some s \<Rightarrow> Some s | None \<Rightarrow> getStringField v ks)"

fun isJsonObject :: "out \<Rightarrow> bool" where
  "isJsonObject (ObjOut _) \<longleftrightarrow> True"
| "isJsonObject _ \<longleftrightarrow> False"

definition getBooleanField :: "out \<Rightarrow> string \<Rightarrow> bool option" where
  "getBooleanField v k = (case getRecordValue v k of Some (BoolOut b) \<Rightarrow> Some b | _ \<Rightarrow> None)"

definition getStringArrayField :: "out \<Rightarrow> string \<Rightarrow> ustr list" where
  "getStringArrayField v k = (case getRecordValue v k of
     Some (ArrOut vs) \<Rightarrow> List.map_filter (\<lambda>x. case x of StrOut s \<Rightarrow> if trim s = [] then None else Some s | _ \<Rightarrow> None) vs
   | _ \<Rightarrow> [])"

definition getObjectArrayField :: "out \<Rightarrow> string \<Rightarrow> out list" where
  "getObjectArrayField v k = (case getRecordValue v k of Some (ArrOut vs) \<Rightarrow> filter isJsonObject vs | _ \<Rightarrow> [])"

section \<open>Validation reports\<close>

datatype validation_status = ValidationPassed | ValidationFailed | ValidationReplan

record validation_finding =
  vf_stepId :: "ustr option"
  vf_severity :: risk_level
  vf_title :: ustr
  vf_detail :: ustr
  vf_retryable :: bool

record validation_acceptance =
  va_criterion :: ustr
  va_passed :: bool
  va_detail :: ustr

record shown_report =
  vr_status :: validation_status
  vr_summary :: ustr
  vr_checkedStepIds :: "ustr list"
  vr_needsReplan :: bool
  vr_findings :: "validation_finding list"
  vr_acceptance :: "validation_acceptance list"

definition named :: "('a \<times> string) list \<Rightarrow> ustr option \<Rightarrow> 'a option" where
  "named tbl s = map_option fst (find (\<lambda>e. Some (lit (snd e)) = s) tbl)"

definition toValidationSeverity :: "ustr option \<Rightarrow> risk_level" where
  "toValidationSeverity s = orElse (named risk_level_names s) RMedium"

definition toValidationStatus :: "ustr option \<Rightarrow> validation_status option" where
  "toValidationStatus s = named [(ValidationPassed, ''passed''), (ValidationFailed, ''failed''),
     (ValidationReplan, ''needs_replan'')] s"

definition parseValidationFinding :: "out \<Rightarrow> validation_finding" where
  "parseValidationFinding v =
     \<lparr>vf_stepId = getStringField v [''stepId''], vf_severity = toValidationSeverity (getStringField v [''severity'']),
      vf_title = orElse (getStringField v [''title'']) (word FindingWord),
      vf_detail = orElse (getStringField v [''detail'']) [],
      vf_retryable = orElse (getBooleanField v ''retryable'') False\<rparr>"

definition parseValidationAcceptance :: "out \<Rightarrow> validation_acceptance" where
  "parseValidationAcceptance v =
     \<lparr>va_criterion = orElse (getStringField v [''criterion'']) (word CriterionWord),
      va_passed = orElse (getBooleanField v ''passed'') False,
      va_detail = orElse (getStringField v [''detail'']) []\<rparr>"

definition parseSidecarValidationReport :: "out \<Rightarrow> shown_report option" where
  "parseSidecarValidationReport v =
     (let r = (case getRecordValue v ''report'' of Some x \<Rightarrow> if isJsonObject x then x else v | None \<Rightarrow> v) in
      if \<not> isJsonObject r then None
      else do {
        status \<leftarrow> toValidationStatus (getStringField r [''status'']);
        summary \<leftarrow> getStringField r [''summary''];
        needsReplan \<leftarrow> getBooleanField r ''needsReplan'';
        Some \<lparr>vr_status = status, vr_summary = summary, vr_checkedStepIds = getStringArrayField r ''checkedStepIds'',
          vr_needsReplan = needsReplan,
          vr_findings = map parseValidationFinding (getObjectArrayField r ''findings''),
          vr_acceptance = map parseValidationAcceptance (getObjectArrayField r ''acceptance'')\<rparr> })"

section \<open>What a tool's input says\<close>

definition blank_free :: "out list \<Rightarrow> ustr list" where
  "blank_free vs = List.map_filter (\<lambda>v. nonblank (Some v)) vs"

fun collectStringValuesForKeys :: "string list \<Rightarrow> nat \<Rightarrow> out \<Rightarrow> ustr list" where
  "collectStringValuesForKeys keys depth (ArrOut vs) =
     (if 4 < depth then [] else concat (map (collectStringValuesForKeys keys (depth + 1)) vs))"
| "collectStringValuesForKeys keys depth (ObjOut es) =
     (if 4 < depth then []
      else concat (map (\<lambda>(k, item).
        if one_of keys k
        then (case item of StrOut s \<Rightarrow> blank_free [item] | ArrOut vs \<Rightarrow> blank_free vs
              | _ \<Rightarrow> collectStringValuesForKeys keys (depth + 1) item)
        else collectStringValuesForKeys keys (depth + 1) item) es))"
| "collectStringValuesForKeys keys depth _ = []"

fun unique_texts :: "ustr list \<Rightarrow> ustr list \<Rightarrow> ustr list" where
  "unique_texts seen [] = []"
| "unique_texts seen (v # vs) =
     (let n = trim (collapse_spaces v) in
      if n = [] \<or> n \<in> set seen then unique_texts seen vs else n # unique_texts (n # seen) vs)"

definition uniqueNonEmptyStrings :: "ustr list \<Rightarrow> ustr list" where
  "uniqueNonEmptyStrings vs = unique_texts [] vs"

definition formatStringList :: "sidecar_env \<Rightarrow> ustr list \<Rightarrow> nat \<Rightarrow> ustr option" where
  "formatStringList env vs limit =
     (let normalized = uniqueNonEmptyStrings vs;
          visible = map (\<lambda>v. clipSummary env v 42) (take limit normalized);
          joined = join_texts (word ListSeparator) visible
      in if normalized = [] then None
         else if length visible < length normalized
         then Some (joined @ word MoreBefore @ lit (show_nat (length normalized)) @ word MoreAfter)
         else Some joined)"

definition collectStringList :: "sidecar_env \<Rightarrow> out \<Rightarrow> string list \<Rightarrow> nat \<Rightarrow> ustr option" where
  "collectStringList env v keys limit = formatStringList env (collectStringValuesForKeys keys 0 v) limit"

definition collectFirstString :: "sidecar_env \<Rightarrow> out \<Rightarrow> string list \<Rightarrow> ustr option" where
  "collectFirstString env v keys = collectStringList env v keys 1"

text \<open>The case-insensitive patterns are ASCII; Unicode case folding maps two more characters to ASCII
  letters, the long s and the Kelvin sign.\<close>

definition fold_case :: "ustr \<Rightarrow> ustr" where
  "fold_case s = map (\<lambda>c. if 65 \<le> c \<and> c \<le> 90 then c + 32 else if c = 0x17f then 115
     else if c = 0x212a then 107 else c) s"

definition begins :: "string \<Rightarrow> ustr \<Rightarrow> bool" where
  "begins w s \<longleftrightarrow> take (length w) (fold_case s) = lit w"

definition strip_www :: "ustr \<Rightarrow> ustr" where
  "strip_www s = (if begins ''www.'' s then drop 4 s else s)"

definition host_char :: "nat \<Rightarrow> bool" where
  "host_char c \<longleftrightarrow> c \<noteq> 47 \<and> c \<noteq> 63 \<and> c \<noteq> 35 \<and> \<not> is_js_space c"

definition host_at :: "ustr \<Rightarrow> ustr option" where
  "host_at s = (let h = takeWhile host_char s; r = dropWhile host_char s in
     if h \<noteq> [] \<and> (r = [] \<or> \<not> is_js_space (hd r)) then Some h else None)"

definition host_pattern :: "ustr \<Rightarrow> ustr option" where
  "host_pattern s =
     (case (if begins ''https://'' s then host_at (drop 8 s)
            else if begins ''http://'' s then host_at (drop 7 s) else None) of
        Some h \<Rightarrow> Some h | None \<Rightarrow> host_at s)"

definition extractUrlHost :: "sidecar_env \<Rightarrow> ustr \<Rightarrow> ustr option" where
  "extractUrlHost env s =
     (case (case sc_hostname env s of Some h \<Rightarrow> Some h | None \<Rightarrow> host_pattern s) of
        None \<Rightarrow> None
      | Some h \<Rightarrow> (let host = trim (strip_www h) in if host = [] then None else Some host))"

definition collectUrlDomains :: "sidecar_env \<Rightarrow> out \<Rightarrow> nat \<Rightarrow> ustr option" where
  "collectUrlDomains env v limit =
     formatStringList env (List.map_filter (extractUrlHost env) (collectStringValuesForKeys SIDECAR_URL_KEYS 0 v)) limit"

definition createDetailItem :: "ui_word \<Rightarrow> ustr option \<Rightarrow> ustr option" where
  "createDetailItem label v =
     (if orElse v [] = [] then None else Some (word label @ word Colon @ orElse v []))"

definition compactDetailItems :: "ustr option list \<Rightarrow> ustr list" where
  "compactDetailItems xs = uniqueNonEmptyStrings (filter (\<lambda>s. s \<noteq> []) (List.map_filter id xs))"

definition joinTargetParts :: "sidecar_env \<Rightarrow> ustr option list \<Rightarrow> ustr \<Rightarrow> ustr" where
  "joinTargetParts env parts fallback =
     (let n = uniqueNonEmptyStrings (filter (\<lambda>s. s \<noteq> []) (List.map_filter id parts)) in
      if n = [] then fallback else join_texts (word Dot) (map (\<lambda>p. clipSummary env p 52) n))"

section \<open>What a tool's result says\<close>

definition TOOL_RESULT_TEXT_KEYS :: "string list" where
  "TOOL_RESULT_TEXT_KEYS = [''text'', ''content'', ''summary'', ''message'', ''title'', ''description'']"

definition TOOL_RESULT_CONTAINER_KEYS :: "string list" where
  "TOOL_RESULT_CONTAINER_KEYS = [''toolResult'', ''result'', ''output'', ''data'', ''response'', ''artifact'']"

definition RESULT_HEADING_PATTERN :: "ustr \<Rightarrow> bool" where
  "RESULT_HEADING_PATTERN s \<longleftrightarrow>
     list_ex (\<lambda>w. begins w s \<and>
       (let r = dropWhile is_js_space (drop (length w) s) in
        list_all is_js_space r \<or> (hd r = 58 \<and> list_all is_js_space (tl r))))
     [''detailed result'', ''detailed results'', ''result'', ''results'', ''tool result'', ''output'']"

text \<open>A label, a colon and the space around it; the value is what follows.\<close>

definition after_label :: "string list \<Rightarrow> ustr \<Rightarrow> ustr option" where
  "after_label labels s =
     (case find (\<lambda>w. begins w s \<and> take 1 (dropWhile is_js_space (drop (length w) s)) = [58]) labels of
        None \<Rightarrow> None
      | Some w \<Rightarrow> Some (dropWhile is_js_space (drop 1 (dropWhile is_js_space (drop (length w) s)))))"

definition RESULT_FIELD_LABEL_PATTERN :: "ustr \<Rightarrow> ustr option" where
  "RESULT_FIELD_LABEL_PATTERN s =
     after_label [''title'', ''summary'', ''content'', ''result'', ''answer'', ''description''] s"

definition URL_FIELD_LABEL_PATTERN :: "ustr \<Rightarrow> bool" where
  "URL_FIELD_LABEL_PATTERN s \<longleftrightarrow> after_label [''url''] s \<noteq> None"

fun unix_newlines :: "ustr \<Rightarrow> ustr" where
  "unix_newlines [] = []"
| "unix_newlines (c # s) = (if c = 13
     then (case s of d # t \<Rightarrow> if d = 10 then 10 # unix_newlines t else 10 # unix_newlines s | [] \<Rightarrow> [10])
     else c # unix_newlines s)"

fun split_newlines :: "ustr \<Rightarrow> ustr list" where
  "split_newlines [] = [[]]"
| "split_newlines (c # s) =
     (if c = 10 then [] # split_newlines s
      else (case split_newlines s of l # ls \<Rightarrow> (c # l) # ls | [] \<Rightarrow> [[c]]))"

definition cleanReadableToolText :: "sidecar_env \<Rightarrow> ustr \<Rightarrow> ustr option" where
  "cleanReadableToolText env s =
     (let lines = filter (\<lambda>l. l \<noteq> [] \<and> \<not> RESULT_HEADING_PATTERN l)
            (map (\<lambda>l. trim (collapse_spaces l)) (split_newlines (unix_newlines s)));
          content = (case find (\<lambda>l. RESULT_FIELD_LABEL_PATTERN l \<noteq> None \<and> \<not> URL_FIELD_LABEL_PATTERN l) lines of
              Some l \<Rightarrow> Some l | None \<Rightarrow> find (\<lambda>l. \<not> URL_FIELD_LABEL_PATTERN l) lines)
      in case content of
           None \<Rightarrow> None
         | Some l \<Rightarrow> (let n = trim (orElse (RESULT_FIELD_LABEL_PATTERN l) l) in
             if n = [] then None else Some (clipSummary env n 96)))"

function collectReadableToolTexts :: "sidecar_env \<Rightarrow> nat \<Rightarrow> out \<Rightarrow> ustr list \<Rightarrow> ustr list" where
  "collectReadableToolTexts env depth v texts =
     (if 5 < depth \<or> 4 \<le> length texts then texts
      else (case v of
          StrOut s \<Rightarrow> (case parseJsonString env s of
              Some p \<Rightarrow> collectReadableToolTexts env (depth + 1) p texts
            | None \<Rightarrow> (case cleanReadableToolText env s of
                Some c \<Rightarrow> if c = [] then texts else texts @ [c]
              | None \<Rightarrow> texts))
        | ArrOut vs \<Rightarrow> foldl (\<lambda>ts item. collectReadableToolTexts env (depth + 1) item ts) texts vs
        | ObjOut es \<Rightarrow>
            (let fs = filter (\<lambda>e. one_of TOOL_RESULT_TEXT_KEYS (fst e)) es @
                      filter (\<lambda>e. one_of TOOL_RESULT_CONTAINER_KEYS (fst e)) es
             in foldl (\<lambda>ts e. collectReadableToolTexts env (depth + 1) (snd e) ts) texts fs)
        | _ \<Rightarrow> texts))"
  by pat_completeness auto
termination by (relation "measure (\<lambda>(env, depth, v, texts). 6 - depth)") auto

declare collectReadableToolTexts.simps [simp del]

text \<open>A string that holds JSON is summarised by the value it holds, which weighs less than the string.\<close>

lemma toJsonValueOrNull_id [simp]: "toJsonValueOrNull v = v"
  by (induction v) (auto intro!: map_idI)

lemma length_trim: "length (trim s) \<le> length s"
  unfolding trim_def length_rev
  by (metis length_dropWhile_le length_rev order_trans)

lemma parseJsonString_weight:
  assumes "parseJsonString env s = Some v"
  shows "weight v \<le> length s"
proof -
  have "JSON_parse (sc_read env) (trim s) = Some v"
    using assms by (auto simp: parseJsonString_def Let_def option.map_ident split: if_splits)
  from parse_weight [OF this] length_trim [of s] show ?thesis by simp
qed

fun is_text :: "out \<Rightarrow> bool" where
  "is_text (StrOut s) \<longleftrightarrow> trim s \<noteq> []"
| "is_text _ \<longleftrightarrow> False"

lemma weight_member: "v \<in> set vs \<Longrightarrow> weight v < weight (ArrOut vs)"
  by (simp add: member_le_sum_list le_imp_less_Suc)

function summarizeJsonValue :: "sidecar_env \<Rightarrow> out \<Rightarrow> ustr" where
  "summarizeJsonValue env (StrOut s) =
     (case parseJsonString env s of
        Some p \<Rightarrow> summarizeJsonValue env p
      | None \<Rightarrow> orElse (cleanReadableToolText env s) (clipSummary env s 96))"
| "summarizeJsonValue env NullOut = lit ''null''"
| "summarizeJsonValue env (NumOut n) = (case n of Some q \<Rightarrow> sc_show env q | None \<Rightarrow> lit ''Infinity'')"
| "summarizeJsonValue env (BoolOut b) = (if b then lit ''true'' else lit ''false'')"
| "summarizeJsonValue env (ArrOut vs) =
     (case collectReadableToolTexts env 0 (ArrOut vs) [] of
        t # _ \<Rightarrow> t
      | [] \<Rightarrow> (case find is_text vs of
          Some t \<Rightarrow> summarizeJsonValue env t
        | None \<Rightarrow> clipSummary env (stringifyJsonValue env (ArrOut vs)) 96))"
| "summarizeJsonValue env (ObjOut es) =
     (case getStringField (ObjOut es) [''path'', ''file'', ''filePath'', ''relativePath'', ''query'', ''pattern'',
        ''command'', ''url'', ''summary'', ''reason'', ''root''] of
        Some p \<Rightarrow> p
      | None \<Rightarrow> (case collectReadableToolTexts env 0 (ObjOut es) [] of
          t # _ \<Rightarrow> t
        | [] \<Rightarrow> clipSummary env (stringifyJsonValue env (ObjOut es)) 96))"
  by pat_completeness auto
termination
proof (relation "measure (\<lambda>(env, v). weight v)", goal_cases)
  case (2 env s p)
  then show ?case using parseJsonString_weight [of env s p] by (simp add: le_imp_less_Suc)
next
  case (3 env vs t)
  then have "t \<in> set vs" by (auto simp: find_Some_iff)
  then show ?case using weight_member [of t vs] by simp
qed simp

declare summarizeJsonValue.simps [simp del]

fun collectPathCandidates :: "out \<Rightarrow> ustr list" where
  "collectPathCandidates (ArrOut vs) = concat (map collectPathCandidates vs)"
| "collectPathCandidates (ObjOut es) =
     concat (map (\<lambda>(k, item). case item of
        StrOut s \<Rightarrow> if one_of SIDECAR_FILE_PATH_KEYS k then blank_free [item] else []
      | _ \<Rightarrow> collectPathCandidates item) es)"
| "collectPathCandidates _ = []"

section \<open>Descriptions of tool payloads\<close>

record descriptor =
  dc_targetPreview :: ustr
  dc_summary :: ustr
  dc_detailItems :: "ustr list"

definition described :: "ustr \<Rightarrow> ustr option list \<Rightarrow> descriptor" where
  "described t details = \<lparr>dc_targetPreview = t, dc_summary = t, dc_detailItems = compactDetailItems details\<rparr>"

definition describeToolPayload :: "sidecar_env \<Rightarrow> ustr \<Rightarrow> out \<Rightarrow> descriptor" where
  "describeToolPayload env toolName v =
     (let platform = getToolPlatform toolName;
          query = collectFirstString env v SIDECAR_QUERY_KEYS;
          scope = collectStringList env v SIDECAR_PATH_SCOPE_KEYS 2;
          url = collectFirstString env v SIDECAR_URL_KEYS;
          domains = nullish (collectStringList env v SIDECAR_DOMAIN_KEYS 2) (collectUrlDomains env v 2);
          command = collectFirstString env v SIDECAR_COMMAND_KEYS;
          item = createDetailItem
      in if one_of WEB_SEARCH_TOOL_NAMES toolName
         then described (joinTargetParts env [query, domains] (word WebSearchWord))
           [item PlatformLabel platform, item QueryLabel query, item SiteLabel domains]
         else if one_of WEB_FETCH_TOOL_NAMES toolName
         then described (joinTargetParts env [nullish url (nullish domains query)] (word WebPageWord))
           [item PlatformLabel platform, item UrlLabel url, item SiteLabel domains]
         else if one_of FILE_SEARCH_TOOL_NAMES toolName
         then described (joinTargetParts env [query, nullish scope (Some (word WorkspaceWord))] (word WorkspaceWord))
           [item SearchLabel query, item ScopeLabel (nullish scope (Some (word WorkspaceWord)))]
         else if one_of FILE_READ_TOOL_NAMES toolName
         then described (joinTargetParts env [scope] (word FileWord)) [item FileWord scope]
         else if one_of DIRECTORY_TOOL_NAMES toolName
         then described (joinTargetParts env [scope] (word ProjectWord))
           [item DirectoryLabel (nullish scope (Some (word ProjectWord)))]
         else if one_of GIT_TOOL_NAMES toolName
         then described (joinTargetParts env [scope] (word GitWord))
           [item ScopeLabel (nullish scope (Some (word RepositoryWord)))]
         else if orElse command [] \<noteq> []
         then described (orElse command []) [item CommandLabel command]
         else described (summarizeJsonValue env v) [])"

definition getRuntimePreviewValue :: "sidecar_env \<Rightarrow> ustr option \<Rightarrow> out" where
  "getRuntimePreviewValue env preview =
     (let n = trim (orElse preview []) in
      if n = [] then StrOut [] else orElse (parseJsonString env n) (StrOut n))"

definition truthy_or :: "ustr \<Rightarrow> ustr \<Rightarrow> ustr" where
  "truthy_or s d = (if s = [] then d else s)"

definition describeRuntimeToolPreview :: "sidecar_env \<Rightarrow> ustr \<Rightarrow> ustr option \<Rightarrow> descriptor" where
  "describeRuntimeToolPreview env toolName preview =
     (let d = describeToolPayload env toolName (getRuntimePreviewValue env preview) in
      d\<lparr>dc_targetPreview := truthy_or (dc_targetPreview d) (word TaskWord),
        dc_summary := truthy_or (dc_summary d) (word ExecutingWord)\<rparr>)"

section \<open>File changes\<close>

text \<open>The payload of an event of a file-changing tool: of a legacy event, or of a runtime event.\<close>

fun isSidecarFileMutationEvent :: "ui_event \<Rightarrow> bool" where
  "isSidecarFileMutationEvent (ToolStart n _) \<longleftrightarrow> one_of SIDECAR_FILE_MUTATION_TOOL_NAMES n"
| "isSidecarFileMutationEvent (ToolResult n _) \<longleftrightarrow> one_of SIDECAR_FILE_MUTATION_TOOL_NAMES n"
| "isSidecarFileMutationEvent _ \<longleftrightarrow> False"

fun isAgentRuntimeToolEvent :: "runtime_body \<Rightarrow> tool_run option" where
  "isAgentRuntimeToolEvent (ToolStarted t) = Some t"
| "isAgentRuntimeToolEvent (ToolCompleted t _ _) = Some t"
| "isAgentRuntimeToolEvent (OtherRuntime _) = None"

fun runtime_tool :: "ui_event \<Rightarrow> tool_run option" where
  "runtime_tool (AgentEvent e) = isAgentRuntimeToolEvent (re_body e)"
| "runtime_tool _ = None"

definition isRuntimeFileMutationEvent :: "ui_event \<Rightarrow> bool" where
  "isRuntimeFileMutationEvent e \<longleftrightarrow> (case runtime_tool e of
     Some t \<Rightarrow> one_of SIDECAR_FILE_MUTATION_TOOL_NAMES (tr_toolName t) | None \<Rightarrow> False)"

definition hasSidecarFileMutationEvent :: "ui_event list \<Rightarrow> bool" where
  "hasSidecarFileMutationEvent es \<longleftrightarrow> list_ex (\<lambda>e. isSidecarFileMutationEvent e \<or> isRuntimeFileMutationEvent e) es"

definition extractVisibleAgentRuntimeEvents :: "ui_event list \<Rightarrow> sidecar_runtime_event list" where
  "extractVisibleAgentRuntimeEvents es = List.map_filter (\<lambda>e. case e of
     AgentEvent r \<Rightarrow> if re_visibility r = UserVisible \<or> re_type (re_body r) \<in> set TIMELINE_DEBUG_EVENT_TYPES
       then Some r else None
   | _ \<Rightarrow> None) es"

definition preview_paths :: "sidecar_env \<Rightarrow> ustr option \<Rightarrow> ustr list" where
  "preview_paths env preview = (let p = orElse preview [] in
     if p = [] then [] else collectPathCandidates (orElse (parseJsonString env p) (StrOut p)))"

fun changed_by :: "sidecar_env \<Rightarrow> ui_event \<Rightarrow> ustr list" where
  "changed_by env (ToolStart n v) =
     (if one_of SIDECAR_FILE_MUTATION_TOOL_NAMES n then collectPathCandidates v else [])"
| "changed_by env (ToolResult n v) =
     (if one_of SIDECAR_FILE_MUTATION_TOOL_NAMES n then collectPathCandidates v else [])"
| "changed_by env (AgentEvent e) = (case isAgentRuntimeToolEvent (re_body e) of
     Some t \<Rightarrow> if one_of SIDECAR_FILE_MUTATION_TOOL_NAMES (tr_toolName t) then preview_paths env (tr_preview t) else []
   | None \<Rightarrow> [])"
| "changed_by env _ = []"

fun first_paths :: "(ustr \<Rightarrow> ustr) \<Rightarrow> ustr list \<Rightarrow> ustr list \<Rightarrow> ustr list" where
  "first_paths f seen [] = []"
| "first_paths f seen (p # ps) =
     (if f p = [] \<or> f p \<in> set seen then first_paths f seen ps
      else p # first_paths f (f p # seen) ps)"

definition extractSidecarChangedFilePaths :: "sidecar_env \<Rightarrow> ui_event list \<Rightarrow> ustr list" where
  "extractSidecarChangedFilePaths env es =
     first_paths (normalizeFileSystemPath (sc_paths env) comparing) [] (concat (map (changed_by env) es))"

end
