(* ===== verification/SidecarTools.thy ===== *)
theory SidecarTools
  imports SidecarEvents
begin

text \<open>
  What the assistant shows of a sidecar's answer (\<open>src/composables/ai/sidecar-events.ts\<close>), second part:
  the tool calls that a stream of events amounts to, the line of activity, and the projections of whole
  responses (plan, plan record, validation, execution, token usage).
\<close>

section \<open>Tool calls\<close>

datatype call_status = CallPending | CallRunning | CallSucceeded | CallFailed | CallDenied

record tool_call =
  tc_id :: ustr
  tc_name :: ustr
  tc_status :: call_status
  tc_summary :: ustr
  tc_targetPreview :: "ustr option"
  tc_detailItems :: "ustr list option"

definition createToolCallId :: "ui_event \<Rightarrow> nat \<Rightarrow> ustr" where
  "createToolCallId e index = (let i = lit (show_nat index) in case e of
     ApprovalRequired q \<Rightarrow> lit ''sidecar-approval:'' @ aq_id q
   | ToolStart n _ \<Rightarrow> lit ''sidecar-tool:'' @ i @ [58] @ n
   | ToolResult n _ \<Rightarrow> lit ''sidecar-tool:'' @ i @ [58] @ n
   | MessageDelta _ \<Rightarrow> lit ''sidecar-event:'' @ i @ lit '':message_delta''
   | AgentEvent _ \<Rightarrow> lit ''sidecar-event:'' @ i @ lit '':agent_event''
   | PlanReadyEvent _ \<Rightarrow> lit ''sidecar-event:'' @ i @ lit '':plan_ready''
   | PlanRecordEvent _ _ \<Rightarrow> lit ''sidecar-event:'' @ i @ lit '':plan_record''
   | DiffReady _ \<Rightarrow> lit ''sidecar-event:'' @ i @ lit '':diff_ready''
   | Done _ _ \<Rightarrow> lit ''sidecar-event:'' @ i @ lit '':done''
   | ErrorEvent _ \<Rightarrow> lit ''sidecar-event:'' @ i @ lit '':error'')"

definition createRuntimeToolCallId :: "ustr \<Rightarrow> tool_run \<Rightarrow> ustr" where
  "createRuntimeToolCallId eventId t = lit ''runtime-tool:'' @
     (if orElse (tr_toolUseId t) [] = [] then eventId else orElse (tr_toolUseId t) [])"

fun first_index :: "('a \<Rightarrow> bool) \<Rightarrow> 'a list \<Rightarrow> nat option" where
  "first_index P [] = None"
| "first_index P (x # xs) = (if P x then Some 0 else map_option Suc (first_index P xs))"

fun last_index :: "('a \<Rightarrow> bool) \<Rightarrow> 'a list \<Rightarrow> nat option" where
  "last_index P [] = None"
| "last_index P (x # xs) = (case last_index P xs of Some i \<Rightarrow> Some (Suc i) | None \<Rightarrow> if P x then Some 0 else None)"

definition running_as :: "ustr \<Rightarrow> tool_call \<Rightarrow> bool" where
  "running_as n c \<longleftrightarrow> tc_name c = n \<and> tc_status c = CallRunning"

definition findRuntimeToolCallIndex :: "tool_call list \<Rightarrow> ustr \<Rightarrow> tool_run \<Rightarrow> nat option" where
  "findRuntimeToolCallIndex cs eventId t =
     (case first_index (\<lambda>c. tc_id c = createRuntimeToolCallId eventId t) cs of
        Some i \<Rightarrow> Some i | None \<Rightarrow> last_index (running_as (tr_toolName t)) cs)"

definition some_items :: "ustr list \<Rightarrow> ustr list option" where
  "some_items xs = (if xs = [] then None else Some xs)"

definition appendRuntimeToolStarted :: "sidecar_env \<Rightarrow> ustr \<Rightarrow> tool_run \<Rightarrow> tool_call list \<Rightarrow> tool_call list" where
  "appendRuntimeToolStarted env eventId t cs =
     (if findRuntimeToolCallIndex cs eventId t \<noteq> None then cs
      else (let d = describeRuntimeToolPreview env (tr_toolName t) (tr_preview t) in
        cs @ [\<lparr>tc_id = createRuntimeToolCallId eventId t, tc_name = tr_toolName t, tc_status = CallRunning,
               tc_summary = dc_summary d, tc_targetPreview = Some (dc_targetPreview d),
               tc_detailItems = some_items (dc_detailItems d)\<rparr>]))"

definition kept_text :: "ustr option \<Rightarrow> ustr \<Rightarrow> ustr option" where
  "kept_text old new = Some (if orElse old [] = [] then new else orElse old [])"

definition kept_items :: "ustr list option \<Rightarrow> ustr list \<Rightarrow> ustr list option" where
  "kept_items old new = (if orElse old [] \<noteq> [] then old else if new \<noteq> [] then Some new else old)"

definition appendRuntimeToolCompleted ::
    "sidecar_env \<Rightarrow> ustr \<Rightarrow> tool_run \<Rightarrow> bool \<Rightarrow> ustr option \<Rightarrow> tool_call list \<Rightarrow> tool_call list" where
  "appendRuntimeToolCompleted env eventId t ok err cs =
     (let d = describeRuntimeToolPreview env (tr_toolName t) (tr_preview t);
          summary = (if ok then truthy_or (summarizeJsonValue env (getRuntimePreviewValue env (tr_preview t))) (dc_summary d)
                     else orElse err (word ToolFailedWord));
          status = (if ok then CallSucceeded else CallFailed)
      in case findRuntimeToolCallIndex cs eventId t of
           Some i \<Rightarrow> cs[i := (let c = cs ! i in c\<lparr>tc_status := status, tc_summary := summary,
             tc_targetPreview := kept_text (tc_targetPreview c) (dc_targetPreview d),
             tc_detailItems := kept_items (tc_detailItems c) (dc_detailItems d)\<rparr>)]
         | None \<Rightarrow> cs @ [\<lparr>tc_id = createRuntimeToolCallId eventId t, tc_name = tr_toolName t, tc_status = status,
             tc_summary = summary, tc_targetPreview = Some (dc_targetPreview d),
             tc_detailItems = some_items (dc_detailItems d)\<rparr>])"

fun applyRuntimeToolEventToToolCalls :: "sidecar_env \<Rightarrow> sidecar_runtime_event \<Rightarrow> tool_call list \<Rightarrow> tool_call list" where
  "applyRuntimeToolEventToToolCalls env e cs = (case re_body e of
     ToolStarted t \<Rightarrow> appendRuntimeToolStarted env (re_id e) t cs
   | ToolCompleted t ok err \<Rightarrow> appendRuntimeToolCompleted env (re_id e) t ok err cs
   | OtherRuntime _ \<Rightarrow> cs)"

definition runtimeToolNames :: "ui_event list \<Rightarrow> ustr list" where
  "runtimeToolNames es = map tr_toolName (List.map_filter runtime_tool es)"

definition legacy_started :: "sidecar_env \<Rightarrow> nat \<Rightarrow> ustr \<Rightarrow> out \<Rightarrow> tool_call" where
  "legacy_started env index n v = (let d = describeToolPayload env n v in
     \<lparr>tc_id = createToolCallId (ToolStart n v) index, tc_name = n, tc_status = CallRunning,
      tc_summary = dc_summary d, tc_targetPreview = Some (dc_targetPreview d),
      tc_detailItems = Some (dc_detailItems d)\<rparr>)"

definition legacy_result :: "sidecar_env \<Rightarrow> nat \<Rightarrow> ustr \<Rightarrow> out \<Rightarrow> tool_call list \<Rightarrow> tool_call list" where
  "legacy_result env index n v cs =
     (let summary = summarizeJsonValue env v in
      case last_index (running_as n) cs of
        Some i \<Rightarrow> cs[i := (cs ! i)\<lparr>tc_status := CallSucceeded, tc_summary := summary\<rparr>]
      | None \<Rightarrow> (let d = describeToolPayload env n v in
          cs @ [\<lparr>tc_id = createToolCallId (ToolResult n v) index, tc_name = n, tc_status = CallSucceeded,
                 tc_summary = summary,
                 tc_targetPreview = (if dc_detailItems d = [] then None else Some (dc_targetPreview d)),
                 tc_detailItems = some_items (dc_detailItems d)\<rparr>]))"

definition awaiting_call :: "nat \<Rightarrow> approval_request \<Rightarrow> tool_call" where
  "awaiting_call index q =
     \<lparr>tc_id = createToolCallId (ApprovalRequired q) index, tc_name = aq_toolName q, tc_status = CallPending,
      tc_summary = word AwaitApproval @ aq_summary q, tc_targetPreview = Some (aq_summary q), tc_detailItems = None\<rparr>"

text \<open>One turn of the loop; \<open>names\<close> are the tools that have a runtime event somewhere in the stream.\<close>

fun tool_call_step :: "sidecar_env \<Rightarrow> ustr list \<Rightarrow> tool_call list \<Rightarrow> nat \<times> ui_event \<Rightarrow> tool_call list" where
  "tool_call_step env names cs (index, ToolStart n v) =
     (if n \<in> set names then cs else cs @ [legacy_started env index n v])"
| "tool_call_step env names cs (index, ToolResult n v) =
     (if n \<in> set names then cs else legacy_result env index n v cs)"
| "tool_call_step env names cs (index, ApprovalRequired q) = cs @ [awaiting_call index q]"
| "tool_call_step env names cs (index, AgentEvent e) = applyRuntimeToolEventToToolCalls env e cs"
| "tool_call_step env names cs (index, _) = cs"

definition mapSidecarEventsToToolCalls :: "sidecar_env \<Rightarrow> ui_event list \<Rightarrow> tool_call list" where
  "mapSidecarEventsToToolCalls env es =
     foldl (tool_call_step env (runtimeToolNames es)) [] (enumerate 0 es)"

section \<open>The line of activity\<close>

text \<open>The case-insensitive patterns on tool names; the start-of-string anchor is needed once.\<close>

fun mentions :: "string list \<Rightarrow> ustr \<Rightarrow> bool" where
  "mentions ws [] \<longleftrightarrow> False"
| "mentions ws (c # s) \<longleftrightarrow> list_ex (\<lambda>w. begins w (c # s)) ws \<or> mentions ws s"

definition WEB_TOOL_NAME_PATTERN :: "ustr \<Rightarrow> bool" where
  "WEB_TOOL_NAME_PATTERN n \<longleftrightarrow> mentions [''web'', ''tavily''] n"

definition FILE_SEARCH_TOOL_NAME_PATTERN :: "ustr \<Rightarrow> bool" where
  "FILE_SEARCH_TOOL_NAME_PATTERN n \<longleftrightarrow> mentions [''search_files'', ''search_project_files'', ''search_text'',
     ''search_symbols'', ''grep_in_files'', ''mastra_workspace_grep''] n"

definition DIRECTORY_TOOL_NAME_PATTERN :: "ustr \<Rightarrow> bool" where
  "DIRECTORY_TOOL_NAME_PATTERN n \<longleftrightarrow> mentions [''list_dir'', ''list_directory'', ''directory_tree'',
     ''get_project_tree'', ''list_project_files'', ''mastra_workspace_list_files''] n"

definition FILE_READ_TOOL_NAME_PATTERN :: "ustr \<Rightarrow> bool" where
  "FILE_READ_TOOL_NAME_PATTERN n \<longleftrightarrow>
     mentions [''read_'', ''get_file_info'', ''open_nodes'', ''mastra_workspace_lsp_inspect''] n"

definition FILE_MUTATION_TOOL_NAME_PATTERN :: "ustr \<Rightarrow> bool" where
  "FILE_MUTATION_TOOL_NAME_PATTERN n \<longleftrightarrow> mentions [''write_file'', ''edit_file'', ''create_directory'', ''move_file'',
     ''delete_file'', ''patch'', ''mastra_workspace_write_file'', ''mastra_workspace_edit_file'',
     ''mastra_workspace_ast_edit'', ''mastra_workspace_mkdir'', ''mastra_workspace_delete''] n"

definition COMMAND_TOOL_NAME_PATTERN :: "ustr \<Rightarrow> bool" where
  "COMMAND_TOOL_NAME_PATTERN n \<longleftrightarrow> mentions [''run_'', ''shell'', ''command'', ''install_package''] n"

definition GIT_TOOL_NAME_PATTERN :: "ustr \<Rightarrow> bool" where
  "GIT_TOOL_NAME_PATTERN n \<longleftrightarrow> begins ''git_'' n \<or> mentions [''get_git_'', ''create_commit'', ''stage_file''] n"

definition TIME_TOOL_NAME_PATTERN :: "ustr \<Rightarrow> bool" where
  "TIME_TOOL_NAME_PATTERN n \<longleftrightarrow> mentions [''time''] n"

definition COMMAND_ACTIVITY_TOOL_NAMES :: "string list" where
  "COMMAND_ACTIVITY_TOOL_NAMES = [''run_command'', ''mastra_workspace_execute_command'']"

definition getToolDetailValue :: "tool_call \<Rightarrow> ui_word \<Rightarrow> ustr option" where
  "getToolDetailValue c label =
     (let prefix = word label @ word Colon in
      case find (\<lambda>d. take (length prefix) d = prefix) (orElse (tc_detailItems c) []) of
        None \<Rightarrow> None
      | Some d \<Rightarrow> (let t = trim (drop (length prefix) d) in if t = [] then None else Some t))"

definition isActiveToolCall :: "tool_call \<Rightarrow> bool" where
  "isActiveToolCall c \<longleftrightarrow> tc_status c = CallRunning"

definition isPendingToolCall :: "tool_call \<Rightarrow> bool" where
  "isPendingToolCall c \<longleftrightarrow> tc_status c = CallPending"

text \<open>Verbs, while the call runs and afterwards.\<close>

datatype verb =
    CreateDirVerb | MoveVerb | DeleteVerb | WriteVerb | EditVerb | ReadWebVerb | SearchWebVerb
  | ListDirVerb | ReadFileVerb | GitVerb | RunVerb | TimeVerb | ProcessVerb | TaskVerb

fun doing :: "verb \<Rightarrow> ustr" where
  "doing CreateDirVerb = [27491, 22312, 21019, 24314, 30446, 24405]"
| "doing MoveVerb = [27491, 22312, 31227, 21160]"
| "doing DeleteVerb = [27491, 22312, 21024, 38500]"
| "doing WriteVerb = [27491, 22312, 20889, 20837]"
| "doing EditVerb = [27491, 22312, 32534, 36753]"
| "doing ReadWebVerb = [27491, 22312, 35835, 21462, 32593, 39029]"
| "doing SearchWebVerb = [27491, 22312, 32852, 32593, 25628, 32034]"
| "doing ListDirVerb = [27491, 22312, 26597, 30475, 30446, 24405]"
| "doing ReadFileVerb = [27491, 22312, 35835, 21462]"
| "doing GitVerb = [27491, 22312, 26816, 26597, 32, 71, 105, 116, 32, 21464, 26356]"
| "doing RunVerb = [27491, 22312, 36816, 34892]"
| "doing TimeVerb = [27491, 22312, 33719, 21462, 26102, 38388]"
| "doing ProcessVerb = [27491, 22312, 22788, 29702]"
| "doing TaskVerb = [27491, 22312, 22788, 29702, 20219, 21153]"

fun did :: "verb \<Rightarrow> ustr" where
  "did CreateDirVerb = [24050, 21019, 24314, 30446, 24405]"
| "did MoveVerb = [24050, 31227, 21160]"
| "did DeleteVerb = [24050, 21024, 38500]"
| "did WriteVerb = [24050, 20889, 20837]"
| "did EditVerb = [24050, 32534, 36753]"
| "did ReadWebVerb = [35835, 21462, 32593, 39029]"
| "did SearchWebVerb = [32852, 32593, 25628, 32034]"
| "did ListDirVerb = [26597, 30475, 30446, 24405]"
| "did ReadFileVerb = [26597, 30475, 25991, 20214]"
| "did GitVerb = [26597, 30475, 32, 71, 105, 116, 32, 21464, 26356]"
| "did RunVerb = [36816, 34892]"
| "did TimeVerb = [33719, 21462, 26102, 38388]"
| "did ProcessVerb = [22788, 29702]"
| "did TaskVerb = [22788, 29702, 20219, 21153]"

definition said :: "tool_call \<Rightarrow> verb \<Rightarrow> ustr" where
  "said c v = (if isActiveToolCall c then doing v else did v)"

definition getMutationVerb :: "tool_call \<Rightarrow> ustr" where
  "getMutationVerb c = said c
     (if tc_name c = lit ''create_directory'' then CreateDirVerb
      else if tc_name c = lit ''move_file'' then MoveVerb
      else if tc_name c = lit ''delete_file'' then DeleteVerb
      else if tc_name c = lit ''write_file'' then WriteVerb else EditVerb)"

definition quoted :: "ustr \<Rightarrow> ustr" where
  "quoted s = [0x300c] @ s @ [0x300d]"

definition buildToolActivityText :: "tool_call \<Rightarrow> ustr" where
  "buildToolActivityText c =
     (let target = truthy_or (trim (orElse (tc_targetPreview c) [])) (trim (tc_summary c));
          query = nullish (getToolDetailValue c QueryLabel) (getToolDetailValue c SearchLabel);
          scope = getToolDetailValue c ScopeLabel;
          file = orElse (getToolDetailValue c FileWord) target;
          directory = orElse (getToolDetailValue c DirectoryLabel) target;
          site = getToolDetailValue c SiteLabel;
          url = getToolDetailValue c UrlLabel;
          status = (\<lambda>w. if target = [] then w else w @ [32] @ target);
          about = orElse (nullish query (nullish url site)) target;
          searched = orElse query target
      in if isPendingToolCall c then status [31561, 24453, 30830, 35748]
         else if tc_status c = CallFailed then status [25191, 34892, 22833, 36133]
         else if tc_status c = CallDenied then status [24050, 20572, 27490]
         else if WEB_TOOL_NAME_PATTERN (tc_name c)
         then (let v = said c (if url \<noteq> None \<and> query = None then ReadWebVerb else SearchWebVerb);
                   hint = (if site \<noteq> None \<and> query \<noteq> None then [65292, 31449, 28857, 32] @ orElse site [] else [])
               in if about = [] then v else v @ quoted about @ hint)
         else if FILE_SEARCH_TOOL_NAME_PATTERN (tc_name c)
         then (if isActiveToolCall c
               then (if searched = [] then [27491, 22312, 25628, 32034, 24037, 20316, 21306]
                     else [27491, 22312, 25628, 32034] @ quoted searched @ (case scope of Some s \<Rightarrow> [65292, 33539, 22260, 32] @ s | None \<Rightarrow> []))
               else (let hint = orElse scope (word WorkspaceWord) in
                     if searched = [] then [25628, 32034, 32] @ hint else [22312, 32] @ hint @ [32, 25628, 32034] @ quoted searched))
         else if DIRECTORY_TOOL_NAME_PATTERN (tc_name c) then said c ListDirVerb @ [32] @ directory
         else if FILE_READ_TOOL_NAME_PATTERN (tc_name c) then said c ReadFileVerb @ [32] @ file
         else if FILE_MUTATION_TOOL_NAME_PATTERN (tc_name c) then getMutationVerb c @ [32] @ file
         else if GIT_TOOL_NAME_PATTERN (tc_name c) then said c GitVerb
         else if COMMAND_TOOL_NAME_PATTERN (tc_name c)
         then said c RunVerb @ [32] @
           (if one_of COMMAND_ACTIVITY_TOOL_NAMES (tc_name c)
            then orElse (getToolDetailValue c CommandLabel) (word CommandLabel) else target)
         else if TIME_TOOL_NAME_PATTERN (tc_name c) then said c TimeVerb
         else if target = [] then said c TaskVerb else said c ProcessVerb @ [32] @ target)"

definition buildSidecarLiveActivityText :: "tool_call list \<Rightarrow> ustr \<Rightarrow> ustr" where
  "buildSidecarLiveActivityText cs fallback =
     (case find (\<lambda>c. tc_status c = CallRunning \<or> tc_status c = CallPending) (rev cs) of
        Some c \<Rightarrow> buildToolActivityText c
      | None \<Rightarrow> (case find (\<lambda>c. tc_status c = CallSucceeded) (rev cs) of
          Some c \<Rightarrow> buildToolActivityText c | None \<Rightarrow> fallback))"

definition buildCompletedSidecarActivityText :: "tool_call list \<Rightarrow> ustr \<Rightarrow> ustr" where
  "buildCompletedSidecarActivityText cs fallback =
     (case find (\<lambda>c. tc_status c = CallSucceeded \<or> tc_status c = CallFailed \<or> tc_status c = CallDenied \<or>
            tc_status c = CallPending \<or> tc_status c = CallRunning) (rev cs) of
        Some c \<Rightarrow> buildToolActivityText c
      | None \<Rightarrow> truthy_or fallback [35831, 27714, 22788, 29702, 20013])"

datatype tool_stream_status = ToolStreaming | ToolStreamCompleted | ToolStreamCancelled

definition projectSidecarEventsToToolState ::
    "sidecar_env \<Rightarrow> ui_event list \<Rightarrow> ustr \<Rightarrow> tool_stream_status \<Rightarrow> tool_call list \<times> ustr" where
  "projectSidecarEventsToToolState env es fallback status =
     (let cs = mapSidecarEventsToToolCalls env es in
      (cs, if status = ToolStreaming then buildSidecarLiveActivityText cs fallback
           else buildCompletedSidecarActivityText cs fallback))"

section \<open>Parts of a response\<close>

fun extractPlanReadyEvent :: "ui_event list \<Rightarrow> plan_ready option" where
  "extractPlanReadyEvent [] = None"
| "extractPlanReadyEvent (e # es) = (case e of PlanReadyEvent p \<Rightarrow> Some p | _ \<Rightarrow> extractPlanReadyEvent es)"

definition extractPlan :: "ui_event list \<Rightarrow> agent_plan option" where
  "extractPlan es = map_option py_plan (extractPlanReadyEvent es)"

fun extractPlanRecordEvent :: "ui_event list \<Rightarrow> (plan_record \<times> plan_record list) option" where
  "extractPlanRecordEvent [] = None"
| "extractPlanRecordEvent (e # es) =
     (case e of PlanRecordEvent r vs \<Rightarrow> Some (r, vs) | _ \<Rightarrow> extractPlanRecordEvent es)"

fun extractErrorMessage :: "ui_event list \<Rightarrow> ustr option" where
  "extractErrorMessage [] = None"
| "extractErrorMessage (e # es) = (case e of ErrorEvent m \<Rightarrow> Some m | _ \<Rightarrow> extractErrorMessage es)"

definition full_text :: "ustr option \<Rightarrow> ustr option" where
  "full_text s = (if orElse s [] = [] then None else s)"

definition planReadyToMetadata :: "plan_ready \<Rightarrow> plan_metadata" where
  "planReadyToMetadata e =
     \<lparr>md_planId = py_planId e, md_threadId = full_text (py_threadId e), md_version = py_version e,
      md_status = py_status e, md_createdAt = full_text (py_createdAt e), md_updatedAt = full_text (py_updatedAt e),
      md_approvedAt = py_approvedAt e, md_executedAt = py_executedAt e,
      md_rejectionReason = py_rejectionReason e, md_errorMessage = py_errorMessage e,
      md_summary = full_text (pl_summary (py_plan e)), md_requiresApproval = pl_requiresApproval (py_plan e),
      md_userRequest = None\<rparr>"

definition planRecordToMetadata :: "plan_record \<Rightarrow> plan_metadata" where
  "planRecordToMetadata r =
     \<lparr>md_planId = pr_planId r, md_threadId = Some (pr_threadId r), md_version = pr_version r,
      md_status = pr_status r, md_createdAt = Some (pr_createdAt r), md_updatedAt = Some (pr_updatedAt r),
      md_approvedAt = Some (pr_approvedAt r), md_executedAt = Some (pr_executedAt r),
      md_rejectionReason = Some (pr_rejectionReason r), md_errorMessage = Some (pr_errorMessage r),
      md_summary = full_text (pl_summary (pr_plan r)), md_requiresApproval = pl_requiresApproval (pr_plan r),
      md_userRequest = None\<rparr>"

definition planRecordToVersionSummary :: "plan_record \<Rightarrow> plan_metadata" where
  "planRecordToVersionSummary r = (planRecordToMetadata r)\<lparr>md_userRequest := Some (pr_userRequest r)\<rparr>"

definition hasMeaningfulText :: "ustr option \<Rightarrow> bool" where
  "hasMeaningfulText s \<longleftrightarrow> (case s of None \<Rightarrow> False | Some t \<Rightarrow> trim t \<noteq> [])"

definition meaningful :: "ustr option \<Rightarrow> ustr option" where
  "meaningful s = (if hasMeaningfulText s then s else None)"

text \<open>\<open>findLastEventByType\<close> for the two types it is used with.\<close>

fun last_done :: "ui_event list \<Rightarrow> (ustr \<times> usage option) option" where
  "last_done [] = None"
| "last_done (e # es) = (case last_done es of Some x \<Rightarrow> Some x
     | None \<Rightarrow> (case e of Done r u \<Rightarrow> Some (r, u) | _ \<Rightarrow> None))"

fun last_delta :: "ui_event list \<Rightarrow> ustr option" where
  "last_delta [] = None"
| "last_delta (e # es) = (case last_delta es of Some x \<Rightarrow> Some x
     | None \<Rightarrow> (case e of MessageDelta t \<Rightarrow> Some t | _ \<Rightarrow> None))"

definition extractDoneResult :: "ui_event list \<Rightarrow> ustr option" where
  "extractDoneResult es = meaningful (map_option fst (last_done es))"

definition DEFAULT_INPUT_TOKEN_DETAILS :: input_details where
  "DEFAULT_INPUT_TOKEN_DETAILS =
     \<lparr>id_noCacheTokens = Some 0, id_cacheReadTokens = Some 0, id_cacheWriteTokens = Some 0\<rparr>"

definition DEFAULT_OUTPUT_TOKEN_DETAILS :: output_details where
  "DEFAULT_OUTPUT_TOKEN_DETAILS = \<lparr>od_textTokens = None, od_reasoningTokens = None\<rparr>"

definition normalizeLanguageModelUsage :: "usage \<Rightarrow> usage" where
  "normalizeLanguageModelUsage u =
     u\<lparr>us_inputTokenDetails := Some (orElse (us_inputTokenDetails u) DEFAULT_INPUT_TOKEN_DETAILS),
       us_outputTokenDetails := Some (orElse (us_outputTokenDetails u) DEFAULT_OUTPUT_TOKEN_DETAILS)\<rparr>"

definition extractLatestDoneUsage :: "ui_event list \<Rightarrow> usage option" where
  "extractLatestDoneUsage es =
     map_option normalizeLanguageModelUsage (Option.bind (last_done es) snd)"

fun ends_stream :: "ui_event \<Rightarrow> bool" where
  "ends_stream (Done _ _) \<longleftrightarrow> True"
| "ends_stream (ErrorEvent _) \<longleftrightarrow> True"
| "ends_stream _ \<longleftrightarrow> False"

definition resolveSidecarOfficialUsage :: "sidecar_response \<Rightarrow> bool \<times> usage option" where
  "resolveSidecarOfficialUsage r = (list_ex ends_stream (sr_events r), extractLatestDoneUsage (sr_events r))"

definition extractLatestMessageDelta :: "ui_event list \<Rightarrow> ustr option" where
  "extractLatestMessageDelta es = meaningful (last_delta es)"

section \<open>Projections\<close>

definition numbered_title :: "nat \<times> plan_step \<Rightarrow> ustr" where
  "numbered_title x = lit (show_nat (fst x + 1)) @ lit ''. '' @ st_title (snd x)"

definition buildAssistantContent :: "ustr \<Rightarrow> agent_plan option \<Rightarrow> ustr option \<Rightarrow> ustr" where
  "buildAssistantContent goal plan result =
     (if orElse result [] \<noteq> [] then orElse result []
      else case plan of
        None \<Rightarrow> [80, 108, 97, 110, 32, 27169, 24335, 27809, 26377, 25910, 21040, 26377, 25928, 35745, 21010, 12290]
      | Some p \<Rightarrow> join_texts [10]
          ([[24050, 29983, 25104, 35745, 21010, 65306] @ goal, []] @ map numbered_title (enumerate 0 (pl_steps p))))"

record plan_projection =
  pp_goal :: ustr
  pp_summary :: "ustr option"
  pp_metadata :: "plan_metadata option"
  pp_steps :: "task_step list"
  pp_toolCalls :: "tool_call list"
  pp_content :: ustr
  pp_error :: "ustr option"

definition projectSidecarPlanResponse :: "sidecar_env \<Rightarrow> sidecar_response \<Rightarrow> ustr \<Rightarrow> plan_projection" where
  "projectSidecarPlanResponse env r fallbackGoal =
     (let es = sr_events r; ready = extractPlanReadyEvent es;
          plan = nullish (map_option py_plan ready) (extractPlan es);
          goal = orElse (map_option pl_goal plan) fallbackGoal
      in \<lparr>pp_goal = goal, pp_summary = Option.bind plan pl_summary,
          pp_metadata = (if plan = None then None else map_option planReadyToMetadata ready),
          pp_steps = (case plan of None \<Rightarrow> [] | Some p \<Rightarrow> mapSidecarPlanToTaskSteps p),
          pp_toolCalls = mapSidecarEventsToToolCalls env es,
          pp_content = buildAssistantContent goal plan (extractDoneResult es),
          pp_error = nullish (extractErrorMessage es) (if plan = None
            then Some [115, 105, 100, 101, 99, 97, 114, 32, 26410, 36820, 22238, 32, 112, 108, 97, 110, 95, 114, 101, 97, 100, 121, 32, 20107, 20214, 65292, 35745, 21010, 27809, 26377, 29983, 25104, 12290] else None)\<rparr>)"

record record_projection =
  rq_record :: "plan_record option"
  rq_versions :: "plan_metadata list"
  rq_metadata :: "plan_metadata option"
  rq_error :: "ustr option"

definition projectSidecarPlanRecordResponse :: "sidecar_response \<Rightarrow> record_projection" where
  "projectSidecarPlanRecordResponse r =
     (let e = extractPlanRecordEvent (sr_events r) in
      \<lparr>rq_record = map_option fst e,
       rq_versions = (case e of None \<Rightarrow> [] | Some (_, vs) \<Rightarrow> map planRecordToVersionSummary vs),
       rq_metadata = map_option (\<lambda>x. planRecordToMetadata (fst x)) e,
       rq_error = extractErrorMessage (sr_events r)\<rparr>)"

fun validator_output :: "ui_event list \<Rightarrow> out option" where
  "validator_output [] = None"
| "validator_output (e # es) = (case e of
     ToolResult n v \<Rightarrow> if n = lit ''plan_validator'' then Some v else validator_output es
   | _ \<Rightarrow> validator_output es)"

definition projectSidecarPlanValidationResponse :: "sidecar_response \<Rightarrow> shown_report option \<times> ustr option" where
  "projectSidecarPlanValidationResponse r =
     (let report = Option.bind (validator_output (sr_events r)) parseSidecarValidationReport in
      (report, nullish (extractErrorMessage (sr_events r))
         (if report = None then Some [115, 105, 100, 101, 99, 97, 114, 32, 26410, 36820, 22238, 26377, 25928, 30340, 35745, 21010, 39564, 35777, 25253, 21578, 12290] else None)))"

text \<open>The confirmation shown for an approval; the options are two constants.\<close>

definition TOOL_CONFIRMATION_OPTIONS :: json_value where
  "TOOL_CONFIRMATION_OPTIONS = JArr [
     JObj [(''id'', JStr (lit ''allow-once'')), (''label'', JStr [20801, 35768]), (''tone'', JStr (lit ''primary''))],
     JObj [(''id'', JStr (lit ''stop'')), (''label'', JStr [25298, 32477]), (''tone'', JStr (lit ''danger''))]]"

definition mapSidecarApprovalToToolConfirmation :: "approval_request \<Rightarrow> ustr \<Rightarrow> confirmation" where
  "mapSidecarApprovalToToolConfirmation q sessionId =
     \<lparr>co_id = aq_id q, co_rest = JObj [(''runId'', JStr (lit ''sidecar:'' @ sessionId)),
        (''stepId'', JStr (lit ''sidecar:'' @ aq_id q)),
        (''toolName'', JStr (lit (mapSidecarToolNameToAiToolName (aq_toolName q)))),
        (''question'', JStr (aq_question q)), (''summary'', JStr (aq_summary q)),
        (''riskLevel'', enum_name risk_level_names (aq_riskLevel q)), (''impact'', JStr (aq_summary q)),
        (''reversible'', JBool (aq_reversible q)), (''createdAt'', JStr (aq_createdAt q)),
        (''options'', TOOL_CONFIRMATION_OPTIONS)]\<rparr>"

fun first_approval :: "ui_event list \<Rightarrow> approval_request option" where
  "first_approval [] = None"
| "first_approval (e # es) = (case e of ApprovalRequired q \<Rightarrow> Some q | _ \<Rightarrow> first_approval es)"

definition extractPendingConfirmation :: "sidecar_response \<Rightarrow> confirmation option" where
  "extractPendingConfirmation r = map_option
     (\<lambda>q. mapSidecarApprovalToToolConfirmation q (sr_sessionId r)) (first_approval (sr_events r))"

record execute_projection =
  xp_toolCalls :: "tool_call list"
  xp_content :: ustr
  xp_error :: "ustr option"
  xp_confirmation :: "confirmation option"
  xp_changedPaths :: "ustr list"
  xp_hasFileMutations :: bool

definition projectSidecarExecuteResponse :: "sidecar_env \<Rightarrow> sidecar_response \<Rightarrow> execute_projection" where
  "projectSidecarExecuteResponse env r =
     (let es = sr_events r; error = extractErrorMessage es; confirm = extractPendingConfirmation r in
      \<lparr>xp_toolCalls = mapSidecarEventsToToolCalls env es,
       xp_content = (if orElse error [] \<noteq> [] then [65, 103, 101, 110, 116, 32, 25191, 34892, 22833, 36133, 65306] @ orElse error []
         else orElse (nullish (extractDoneResult es) (nullish (meaningful (sr_result r)) (extractLatestMessageDelta es)))
           (if confirm = None then [65, 103, 101, 110, 116, 32, 24050, 23436, 25104, 12290] else [])),
       xp_error = error, xp_confirmation = confirm,
       xp_changedPaths = extractSidecarChangedFilePaths env es,
       xp_hasFileMutations = hasSidecarFileMutationEvent es\<rparr>)"

section \<open>Finding calls\<close>

lemma first_index_Some: "first_index P xs = Some i \<Longrightarrow> i < length xs \<and> P (xs ! i)"
  by (induction xs arbitrary: i) (auto split: if_splits)

lemma first_index_None: "first_index P xs = None \<longleftrightarrow> (\<forall>x \<in> set xs. \<not> P x)"
  by (induction xs) auto

lemma last_index_Some: "last_index P xs = Some i \<Longrightarrow> i < length xs \<and> P (xs ! i)"
  by (induction xs arbitrary: i) (auto split: option.splits if_splits)

lemma last_index_None: "last_index P xs = None \<longleftrightarrow> (\<forall>x \<in> set xs. \<not> P x)"
  by (induction xs) (auto split: option.splits)

lemma found_in_range: "findRuntimeToolCallIndex cs e t = Some i \<Longrightarrow> i < length cs"
  by (auto simp: findRuntimeToolCallIndex_def dest: first_index_Some last_index_Some split: option.splits)

lemma not_found_fresh: "findRuntimeToolCallIndex cs e t = None \<Longrightarrow>
    createRuntimeToolCallId e t \<notin> tc_id ` set cs"
  by (auto simp: findRuntimeToolCallIndex_def first_index_None split: option.splits)

text \<open>Each turn keeps the identifiers there are and may add one, whose shape tells what it is.\<close>

definition added_id :: "nat \<Rightarrow> ui_event \<Rightarrow> ustr list \<Rightarrow> ustr \<Rightarrow> bool" where
  "added_id index e ids i \<longleftrightarrow>
     (case e of ToolStart n _ \<Rightarrow> i = lit ''sidecar-tool:'' @ lit (show_nat index) @ [58] @ n
      | ToolResult n _ \<Rightarrow> i = lit ''sidecar-tool:'' @ lit (show_nat index) @ [58] @ n
      | ApprovalRequired q \<Rightarrow> i = lit ''sidecar-approval:'' @ aq_id q
      | AgentEvent _ \<Rightarrow> take 13 i = lit ''runtime-tool:'' \<and> i \<notin> set ids
      | _ \<Rightarrow> False)"

lemma map_update_same: "f x = f (xs ! i) \<Longrightarrow> map f (xs[i := x]) = map f xs"
  by (cases "i < length xs") (simp_all add: map_update list_update_same_conv list_update_beyond)

lemma completed_ids:
  "map tc_id (appendRuntimeToolCompleted env ev t ok err cs) = map tc_id cs \<or>
   (findRuntimeToolCallIndex cs ev t = None \<and>
    map tc_id (appendRuntimeToolCompleted env ev t ok err cs) = map tc_id cs @ [createRuntimeToolCallId ev t])"
  by (cases "findRuntimeToolCallIndex cs ev t")
    (simp_all add: appendRuntimeToolCompleted_def Let_def map_update_same)

lemma started_ids:
  "map tc_id (appendRuntimeToolStarted env ev t cs) = map tc_id cs \<or>
   (findRuntimeToolCallIndex cs ev t = None \<and>
    map tc_id (appendRuntimeToolStarted env ev t cs) = map tc_id cs @ [createRuntimeToolCallId ev t])"
  by (simp add: appendRuntimeToolStarted_def Let_def)

lemma runtime_id_shape: "take 13 (createRuntimeToolCallId ev t) = lit ''runtime-tool:''"
  by (simp add: createRuntimeToolCallId_def lit_def)

lemma step_ids:
  "map tc_id (tool_call_step env names cs (k, e)) = map tc_id cs \<or>
   (\<exists>i. map tc_id (tool_call_step env names cs (k, e)) = map tc_id cs @ [i] \<and> added_id k e (map tc_id cs) i)"
proof (cases e)
  case (ToolResult n v)
  then show ?thesis
    by (auto simp: legacy_result_def Let_def map_update_same added_id_def createToolCallId_def split: option.split)
next
  case (AgentEvent r)
  have ok: "added_id k e (map tc_id cs) (createRuntimeToolCallId (re_id r) t)"
    if "findRuntimeToolCallIndex cs (re_id r) t = None" for t
    using not_found_fresh [OF that] runtime_id_shape AgentEvent by (simp add: added_id_def)
  show ?thesis
  proof (cases "re_body r")
    case (ToolStarted t)
    with AgentEvent ok [of t] started_ids [of env "re_id r" t cs] show ?thesis by auto
  next
    case (ToolCompleted t b err)
    with AgentEvent ok [of t] completed_ids [of env "re_id r" t b err cs] show ?thesis by auto
  qed (simp add: AgentEvent)
qed (auto simp: added_id_def legacy_started_def awaiting_call_def createToolCallId_def Let_def)

fun approvals :: "ui_event list \<Rightarrow> ustr list" where
  "approvals [] = []"
| "approvals (ApprovalRequired q # es) = aq_id q # approvals es"
| "approvals (e # es) = approvals es"

lemma approvals_append: "approvals (a @ b) = approvals a @ approvals b"
  by (induction a rule: approvals.induct) auto

definition is_approval_id :: "ustr \<Rightarrow> bool" where
  "is_approval_id i \<longleftrightarrow> take 17 i = lit ''sidecar-approval:''"

definition legacy_id :: "nat \<Rightarrow> ustr \<Rightarrow> ustr" where
  "legacy_id k n = lit ''sidecar-tool:'' @ lit (show_nat k) @ [58] @ n"

lemma colon_not_digit: "58 \<notin> set (lit (show_nat k))"
  by (auto simp: lit_def dest!: show_nat_digits)

lemma legacy_id_inj: "legacy_id k n = legacy_id m p \<Longrightarrow> k = m"
proof -
  assume "legacy_id k n = legacy_id m p"
  then have e: "lit (show_nat k) @ 58 # n = lit (show_nat m) @ 58 # p" by (simp add: legacy_id_def)
  have "takeWhile (\<lambda>c. c \<noteq> 58) (lit (show_nat i) @ 58 # q) = lit (show_nat i)" for i q
    using colon_not_digit [of i] by (subst takeWhile_append2) auto
  with e have "lit (show_nat k) = lit (show_nat m)" by metis
  then show ?thesis by simp
qed

lemma id_shapes:
  "\<not> is_approval_id (legacy_id k n)" "take 13 (legacy_id k n) = lit ''sidecar-tool:''"
  "is_approval_id (lit ''sidecar-approval:'' @ a)"
  "take 13 i = lit ''runtime-tool:'' \<Longrightarrow> \<not> is_approval_id i"
  "take 13 i = lit ''runtime-tool:'' \<Longrightarrow> i \<noteq> legacy_id k n"
proof -
  show "\<not> is_approval_id (legacy_id k n)" "take 13 (legacy_id k n) = lit ''sidecar-tool:''"
    "is_approval_id (lit ''sidecar-approval:'' @ a)"
    by (simp_all add: is_approval_id_def legacy_id_def lit_def)
  assume r: "take 13 i = lit ''runtime-tool:''"
  show "\<not> is_approval_id i"
  proof
    assume "is_approval_id i"
    then have "take 13 (take 17 i) = take 13 (lit ''sidecar-approval:'')" by (simp add: is_approval_id_def)
    with r show False by (simp add: lit_def)
  qed
  show "i \<noteq> legacy_id k n" using r by (auto simp: legacy_id_def lit_def)
qed

text \<open>After \<open>k\<close> events: the identifiers that are not approvals are distinct, those of the legacy calls
  carry a number below \<open>k\<close>.\<close>

definition ids_ok :: "nat \<Rightarrow> ustr list \<Rightarrow> bool" where
  "ids_ok k ids \<longleftrightarrow> distinct (filter (\<lambda>i. \<not> is_approval_id i) ids) \<and>
     (\<forall>m n. legacy_id m n \<in> set ids \<longrightarrow> m < k)"

lemma ids_ok_add:
  assumes "\<And>m p. legacy_id m p = i \<Longrightarrow> m < Suc k" and "i \<notin> set ids" and "ids_ok k ids"
  shows "ids_ok (Suc k) (ids @ [i])"
proof -
  have "m < Suc k" if "legacy_id m p \<in> set ids" for m p
    using that assms(3) less_SucI unfolding ids_ok_def by blast
  with assms show ?thesis unfolding ids_ok_def by auto
qed

lemma ids_ok_step:
  assumes "ids_ok k (map tc_id cs)"
  shows "ids_ok (Suc k) (map tc_id (tool_call_step env names cs (k, e)))"
proof -
  let ?ids = "map tc_id cs" and ?new = "map tc_id (tool_call_step env names cs (k, e))"
  consider "?new = ?ids" | i where "?new = ?ids @ [i]" "added_id k e ?ids i"
    using step_ids [of env names cs k e] by blast
  then show ?thesis
  proof cases
    case 1
    with assms show ?thesis by (auto simp: ids_ok_def intro: less_SucI)
  next
    case 2
    then consider (legacy) n where "i = legacy_id k n" | (approval) a where "i = lit ''sidecar-approval:'' @ a"
      | (runtime) "take 13 i = lit ''runtime-tool:''" "i \<notin> set ?ids"
      by (auto simp: added_id_def legacy_id_def split: ui_event.splits)
    then show ?thesis
    proof cases
      case (legacy n)
      have "m < Suc k" if "legacy_id m p = i" for m p using that legacy legacy_id_inj by blast
      moreover have "i \<notin> set ?ids" using assms legacy unfolding ids_ok_def by blast
      ultimately show ?thesis using assms unfolding 2(1) by (rule ids_ok_add)
    next
      case (approval a)
      then have "is_approval_id i" using id_shapes(3) by simp
      with assms id_shapes(1) show ?thesis unfolding 2(1) ids_ok_def
        by (fastforce intro: less_SucI)
    next
      case runtime
      have "m < Suc k" if "legacy_id m p = i" for m p using that id_shapes(5) [OF runtime(1)] by blast
      with runtime(2) assms show ?thesis unfolding 2(1) by (intro ids_ok_add)
    qed
  qed
qed

lemma approval_ids_step:
  "filter is_approval_id (map tc_id (tool_call_step env names cs (k, e))) =
   filter is_approval_id (map tc_id cs) @ map (\<lambda>a. lit ''sidecar-approval:'' @ a) (approvals [e])"
proof (cases "\<exists>q. e = ApprovalRequired q")
  case True
  then obtain q where "e = ApprovalRequired q" by blast
  then show ?thesis using id_shapes(3) [of "aq_id q"] by (simp add: awaiting_call_def createToolCallId_def)
next
  case False
  then have "approvals [e] = []" by (cases e) auto
  moreover have "\<not> is_approval_id i" if "added_id k e (map tc_id cs) i" for i
    using that False id_shapes(1,4) unfolding added_id_def legacy_id_def by (cases e) auto
  ultimately show ?thesis using step_ids [of env names cs k e] by auto
qed

text \<open>C29: Whatever the stream of events, no two tool calls other than approvals share an identifier, so an
  update addressed to one call never changes another; and the approvals are exactly those requested,
  in their order.\<close>

theorem tool_call_ids_are_unique:
  "distinct (filter (\<lambda>i. \<not> is_approval_id i) (map tc_id (mapSidecarEventsToToolCalls env es))) \<and>
   filter is_approval_id (map tc_id (mapSidecarEventsToToolCalls env es)) =
     map (\<lambda>a. lit ''sidecar-approval:'' @ a) (approvals es)"
proof -
  have "ids_ok (k + length es) (map tc_id (foldl (tool_call_step env names) cs (enumerate k es))) \<and>
      filter is_approval_id (map tc_id (foldl (tool_call_step env names) cs (enumerate k es))) =
        filter is_approval_id (map tc_id cs) @ map (\<lambda>a. lit ''sidecar-approval:'' @ a) (approvals es)"
    if "ids_ok k (map tc_id cs)" for names cs k
    using that
  proof (induction es arbitrary: cs k)
    case (Cons e es)
    from Cons.IH [OF ids_ok_step [OF Cons.prems]] show ?case
      using approvals_append [of "[e]" es] by (simp add: approval_ids_step)
  qed (simp add: approvals_append)
  from this [of 0 "[]"] show ?thesis
    by (simp add: mapSidecarEventsToToolCalls_def ids_ok_def)
qed

section \<open>One run of a tool at a time\<close>

definition run_summary :: "sidecar_env \<Rightarrow> tool_run \<Rightarrow> bool \<Rightarrow> ustr option \<Rightarrow> ustr" where
  "run_summary env t ok err =
     (if ok then truthy_or (summarizeJsonValue env (getRuntimePreviewValue env (tr_preview t)))
              (dc_summary (describeRuntimeToolPreview env (tr_toolName t) (tr_preview t)))
      else orElse err (word ToolFailedWord))"

definition ended :: "sidecar_env \<Rightarrow> tool_run \<Rightarrow> bool \<Rightarrow> ustr option \<Rightarrow> tool_call \<Rightarrow> tool_call" where
  "ended env t ok err c =
     (let d = describeRuntimeToolPreview env (tr_toolName t) (tr_preview t) in
      c\<lparr>tc_status := (if ok then CallSucceeded else CallFailed), tc_summary := run_summary env t ok err,
        tc_targetPreview := kept_text (tc_targetPreview c) (dc_targetPreview d),
        tc_detailItems := kept_items (tc_detailItems c) (dc_detailItems d)\<rparr>)"

definition begun :: "sidecar_env \<Rightarrow> ustr \<Rightarrow> tool_run \<Rightarrow> tool_call" where
  "begun env eventId t =
     (let d = describeRuntimeToolPreview env (tr_toolName t) (tr_preview t) in
      \<lparr>tc_id = createRuntimeToolCallId eventId t, tc_name = tr_toolName t, tc_status = CallRunning,
       tc_summary = dc_summary d, tc_targetPreview = Some (dc_targetPreview d),
       tc_detailItems = some_items (dc_detailItems d)\<rparr>)"

text \<open>What a list of calls keyed by the name of the tool would do: a start adds a call; an end gives its
  outcome to the call of that tool that runs, and to no other, and adds a call of its own when none
  runs. Legacy events count for the tools without runtime events.\<close>

definition settle :: "ustr \<Rightarrow> (tool_call \<Rightarrow> tool_call) \<Rightarrow> tool_call \<Rightarrow> tool_call list \<Rightarrow> tool_call list" where
  "settle n g alone cs =
     (if list_ex (running_as n) cs then map (\<lambda>c. if running_as n c then g c else c) cs else cs @ [alone])"

definition unstarted :: "sidecar_env \<Rightarrow> ustr \<Rightarrow> tool_run \<Rightarrow> bool \<Rightarrow> ustr option \<Rightarrow> tool_call" where
  "unstarted env ev t ok err =
     (begun env ev t)\<lparr>tc_status := (if ok then CallSucceeded else CallFailed), tc_summary := run_summary env t ok err\<rparr>"

definition legacy_unstarted :: "sidecar_env \<Rightarrow> nat \<Rightarrow> ustr \<Rightarrow> out \<Rightarrow> tool_call" where
  "legacy_unstarted env index n v = (let d = describeToolPayload env n v in
     \<lparr>tc_id = createToolCallId (ToolResult n v) index, tc_name = n, tc_status = CallSucceeded,
      tc_summary = summarizeJsonValue env v,
      tc_targetPreview = (if dc_detailItems d = [] then None else Some (dc_targetPreview d)),
      tc_detailItems = some_items (dc_detailItems d)\<rparr>)"

fun by_tool :: "sidecar_env \<Rightarrow> ustr list \<Rightarrow> tool_call list \<Rightarrow> nat \<times> ui_event \<Rightarrow> tool_call list" where
  "by_tool env names cs (index, AgentEvent e) = (case re_body e of
     ToolStarted t \<Rightarrow> cs @ [begun env (re_id e) t]
   | ToolCompleted t ok err \<Rightarrow>
       settle (tr_toolName t) (ended env t ok err) (unstarted env (re_id e) t ok err) cs
   | OtherRuntime _ \<Rightarrow> cs)"
| "by_tool env names cs (index, ToolStart n v) =
     (if n \<in> set names then cs else cs @ [legacy_started env index n v])"
| "by_tool env names cs (index, ToolResult n v) =
     (if n \<in> set names then cs
      else settle n (\<lambda>c. c\<lparr>tc_status := CallSucceeded, tc_summary := summarizeJsonValue env v\<rparr>)
        (legacy_unstarted env index n v) cs)"
| "by_tool env names cs (index, ApprovalRequired q) = cs @ [awaiting_call index q]"
| "by_tool env names cs (index, _) = cs"

text \<open>A stream in which no tool is started while it runs. Runtime events go by the identifier of their run
  where they have one and by their own otherwise: that of a start is new, and an end that carries the
  identifier of a call carries that of the call of its tool that runs. So an end may have an identifier of its own, a
  run may end without a start, and legacy events may come with or without runtime events. \<open>seen\<close> are
  the identifiers of the calls so far, \<open>live\<close> the calls that run; those of legacy events have no
  identifier that an event could carry.\<close>

fun one_at_a_time :: "ustr list \<Rightarrow> ustr list \<Rightarrow> (ustr \<times> ustr) list \<Rightarrow> ui_event list \<Rightarrow> bool" where
  "one_at_a_time names seen live [] \<longleftrightarrow> True"
| "one_at_a_time names seen live (AgentEvent e # es) \<longleftrightarrow> (case re_body e of
     ToolStarted t \<Rightarrow> (let i = createRuntimeToolCallId (re_id e) t in
       i \<notin> set seen \<and> tr_toolName t \<notin> snd ` set live \<and>
       one_at_a_time names (i # seen) ((i, tr_toolName t) # live) es)
   | ToolCompleted t _ _ \<Rightarrow> (let i = createRuntimeToolCallId (re_id e) t; n = tr_toolName t in
       (i \<in> set seen \<longrightarrow> (i, n) \<in> set live) \<and>
       one_at_a_time names (if n \<in> snd ` set live then seen else i # seen) (filter (\<lambda>x. snd x \<noteq> n) live) es)
   | OtherRuntime _ \<Rightarrow> one_at_a_time names seen live es)"
| "one_at_a_time names seen live (ToolStart n _ # es) \<longleftrightarrow>
     (if n \<in> set names then one_at_a_time names seen live es
      else n \<notin> snd ` set live \<and> one_at_a_time names seen (([], n) # live) es)"
| "one_at_a_time names seen live (ToolResult n _ # es) \<longleftrightarrow>
     (if n \<in> set names then one_at_a_time names seen live es
      else one_at_a_time names seen (filter (\<lambda>x. snd x \<noteq> n) live) es)"
| "one_at_a_time names seen live (_ # es) \<longleftrightarrow> one_at_a_time names seen live es"

definition runtime_id :: "ustr \<Rightarrow> bool" where
  "runtime_id i \<longleftrightarrow> take 13 i = lit ''runtime-tool:''"

definition live_key :: "tool_call \<Rightarrow> ustr \<times> ustr" where
  "live_key c = (if runtime_id (tc_id c) then tc_id c else [], tc_name c)"

definition tracking :: "ustr list \<Rightarrow> (ustr \<times> ustr) list \<Rightarrow> tool_call list \<Rightarrow> bool" where
  "tracking seen live cs \<longleftrightarrow>
     (\<forall>c \<in> set cs. runtime_id (tc_id c) \<longrightarrow> tc_id c \<in> set seen) \<and>
     distinct (filter runtime_id (map tc_id cs)) \<and>
     set live = live_key ` {c \<in> set cs. tc_status c = CallRunning} \<and>
     (\<forall>n. length (filter (running_as n) cs) \<le> 1)"

lemma tracking_empty [simp]: "tracking [] [] []"
  by (simp add: tracking_def)

lemma running_names: "tracking seen live cs \<Longrightarrow> list_ex (running_as n) cs \<longleftrightarrow> n \<in> snd ` set live"
  by (auto simp: tracking_def list_ex_iff running_as_def live_key_def image_iff)

lemma update_single:
  "length (filter P xs) \<le> 1 \<Longrightarrow> j < length xs \<Longrightarrow> P (xs ! j) \<Longrightarrow>
   xs[j := g (xs ! j)] = map (\<lambda>c. if P c then g c else c) xs"
proof (induction xs arbitrary: j)
  case (Cons x xs)
  show ?case
  proof (cases j)
    case 0
    with Cons.prems have "filter P xs = []" by simp
    then have "map (\<lambda>c. if P c then g c else c) xs = xs" by (intro map_idI) (auto simp: filter_empty_conv)
    with 0 Cons.prems show ?thesis by simp
  next
    case (Suc k)
    with Cons.prems have k: "length (filter P xs) \<le> 1" "k < length xs" "P (xs ! k)" by (auto split: if_splits)
    then have "xs ! k \<in> set (filter P xs)" by simp
    with Cons.prems(1) have "\<not> P x" by (cases "filter P xs") auto
    with Suc Cons.IH [OF k] show ?thesis by simp
  qed
qed simp

lemma tracking_begun:
  assumes "tracking seen live cs" and "tc_status c = CallRunning" and "tc_name c \<notin> snd ` set live"
    and "runtime_id (tc_id c) \<longrightarrow> tc_id c \<notin> set seen"
    and "seen' = (if runtime_id (tc_id c) then tc_id c # seen else seen)" and "live' = live_key c # live"
  shows "tracking seen' live' (cs @ [c])"
proof -
  have "filter (running_as (tc_name c)) cs = []"
    using running_names [OF assms(1)] assms(3) by (auto simp: list_ex_iff filter_empty_conv)
  moreover have "filter (running_as n) [c] = (if n = tc_name c then [c] else [])" for n
    using assms(2) by (simp add: running_as_def)
  ultimately have "length (filter (running_as n) (cs @ [c])) \<le> 1" for n
    using assms(1) by (cases "n = tc_name c") (simp_all add: tracking_def)
  with assms show ?thesis by (auto simp: tracking_def)
qed

lemma tracking_settled:
  assumes "tracking seen live cs"
    and "\<And>c. tc_id (g c) = tc_id c" and "\<And>c. tc_status (g c) \<noteq> CallRunning"
    and "tc_status alone \<noteq> CallRunning" and "runtime_id (tc_id alone) \<longrightarrow> n \<in> snd ` set live \<or> tc_id alone \<notin> set seen"
    and "seen' = (if n \<in> snd ` set live \<or> \<not> runtime_id (tc_id alone) then seen else tc_id alone # seen)"
    and "live' = filter (\<lambda>x. snd x \<noteq> n) live"
  shows "tracking seen' live' (settle n g alone cs)"
proof -
  let ?h = "\<lambda>c. if running_as n c then g c else c"
  have ids: "map tc_id (map ?h cs) = map tc_id cs" using assms(2) by simp
  have run: "{c \<in> set (map ?h cs). tc_status c = CallRunning} = {c \<in> set cs. tc_status c = CallRunning \<and> tc_name c \<noteq> n}"
    using assms(3) by (auto simp: running_as_def image_iff split: if_splits)
  have keys: "set live' = live_key ` {c \<in> set cs. tc_status c = CallRunning \<and> tc_name c \<noteq> n}"
    using assms(1,7) by (auto simp: tracking_def live_key_def)
  have few: "length (filter (running_as m) (map ?h cs)) \<le> 1" for m
  proof -
    have "filter (\<lambda>c. running_as m (?h c)) cs = filter (\<lambda>c. running_as m c \<and> m \<noteq> n) cs"
      using assms(3) by (intro filter_cong) (auto simp: running_as_def)
    moreover have "length (filter (running_as m) cs) \<le> 1" using assms(1) by (simp add: tracking_def)
    ultimately show ?thesis by (cases "m = n") (simp_all add: filter_map comp_def)
  qed
  show ?thesis
  proof (cases "n \<in> snd ` set live")
    case True
    then have s: "settle n g alone cs = map ?h cs" "seen' = seen"
      using running_names [OF assms(1), of n] assms(6) by (simp_all add: settle_def)
    have "\<forall>c \<in> set (map ?h cs). runtime_id (tc_id c) \<longrightarrow> tc_id c \<in> set seen"
      using assms(1,2) by (auto simp: tracking_def)
    then show ?thesis using assms(1) few unfolding tracking_def s ids run keys by simp
  next
    case False
    then have none: "\<not> list_ex (running_as n) cs" using running_names [OF assms(1), of n] by simp
    then have "live' = live" using False assms(7) by (auto simp: filter_id_conv)
    then show ?thesis using assms(1,4,5,6) False none
      by (auto simp: tracking_def settle_def running_as_def)
  qed
qed

lemma runtime_id_of [simp]: "runtime_id (createRuntimeToolCallId ev t)"
  using runtime_id_shape by (simp add: runtime_id_def)

lemma begun_simps [simp]: "tc_id (begun env ev t) = createRuntimeToolCallId ev t" "tc_name (begun env ev t) = tr_toolName t"
  "tc_status (begun env ev t) = CallRunning"
  by (simp_all add: begun_def Let_def)

lemma unstarted_simps [simp]: "tc_id (unstarted env ev t ok err) = createRuntimeToolCallId ev t"
  "tc_status (unstarted env ev t ok err) \<noteq> CallRunning"
  by (simp_all add: unstarted_def)

lemma ended_simps [simp]: "tc_id (ended env t ok err c) = tc_id c" "tc_name (ended env t ok err c) = tc_name c"
  "tc_status (ended env t ok err c) \<noteq> CallRunning"
  by (simp_all add: ended_def Let_def)

lemma started_refines:
  assumes "tracking seen live cs" and "createRuntimeToolCallId ev t \<notin> set seen"
    and "tr_toolName t \<notin> snd ` set live"
  shows "appendRuntimeToolStarted env ev t cs = cs @ [begun env ev t]"
proof -
  have "\<not> list_ex (running_as (tr_toolName t)) cs" using running_names [OF assms(1)] assms(3) by simp
  moreover have "tc_id c \<noteq> createRuntimeToolCallId ev t" if "c \<in> set cs" for c
    using assms(1,2) that runtime_id_of [of ev t] by (auto simp: tracking_def)
  ultimately have "findRuntimeToolCallIndex cs ev t = None"
    by (auto simp: findRuntimeToolCallIndex_def first_index_None last_index_None list_ex_iff split: option.split)
  then show ?thesis by (simp add: appendRuntimeToolStarted_def begun_def Let_def)
qed

text \<open>The call an end is given to: the one of its tool that runs.\<close>

lemma found_is_running:
  assumes "tracking seen live cs"
    and "createRuntimeToolCallId ev t \<in> set seen \<longrightarrow> (createRuntimeToolCallId ev t, tr_toolName t) \<in> set live"
  shows "case findRuntimeToolCallIndex cs ev t of
      Some j \<Rightarrow> j < length cs \<and> running_as (tr_toolName t) (cs ! j)
    | None \<Rightarrow> \<not> list_ex (running_as (tr_toolName t)) cs"
proof (cases "first_index (\<lambda>c. tc_id c = createRuntimeToolCallId ev t) cs")
  case None
  show ?thesis
  proof (cases "last_index (running_as (tr_toolName t)) cs")
    case none: None
    then show ?thesis using None last_index_None [of "running_as (tr_toolName t)" cs]
      by (simp add: findRuntimeToolCallIndex_def list_ex_iff)
  next
    case (Some j)
    then show ?thesis using None last_index_Some [OF Some] by (simp add: findRuntimeToolCallIndex_def)
  qed
next
  case (Some j)
  let ?i = "createRuntimeToolCallId ev t"
  have j: "j < length cs" "tc_id (cs ! j) = ?i" using first_index_Some [OF Some] by auto
  then have "?i \<in> set seen" using assms(1) runtime_id_of [of ev t] by (metis nth_mem tracking_def)
  then have "(?i, tr_toolName t) \<in> live_key ` {c \<in> set cs. tc_status c = CallRunning}"
    using assms by (simp add: tracking_def)
  then obtain c where "c \<in> set cs" "tc_status c = CallRunning" "live_key c = (?i, tr_toolName t)" by auto
  moreover have "?i \<noteq> []" by (simp add: createRuntimeToolCallId_def lit_def)
  ultimately have c: "c \<in> set cs" "tc_id c = ?i" "running_as (tr_toolName t) c"
    by (auto simp: live_key_def running_as_def split: if_splits)
  obtain k where k: "k < length cs" "cs ! k = c" using c(1) by (auto simp: in_set_conv_nth)
  have "distinct (map tc_id (filter (\<lambda>c. runtime_id (tc_id c)) cs))"
    using assms(1) by (simp add: tracking_def filter_map comp_def)
  then have "cs ! j = c" using j c by (auto simp: distinct_map inj_on_def dest!: bspec [of _ _ "cs ! j"])
  then show ?thesis using Some j c(3) by (simp add: findRuntimeToolCallIndex_def)
qed

lemma completed_refines:
  assumes "tracking seen live cs"
    and "createRuntimeToolCallId ev t \<in> set seen \<longrightarrow> (createRuntimeToolCallId ev t, tr_toolName t) \<in> set live"
  shows "appendRuntimeToolCompleted env ev t ok err cs =
    settle (tr_toolName t) (ended env t ok err) (unstarted env ev t ok err) cs"
proof (cases "findRuntimeToolCallIndex cs ev t")
  case None
  then have "\<not> list_ex (running_as (tr_toolName t)) cs" using found_is_running [OF assms] by simp
  with None show ?thesis
    by (simp add: appendRuntimeToolCompleted_def settle_def unstarted_def begun_def run_summary_def Let_def)
next
  case (Some j)
  then have j: "j < length cs" "running_as (tr_toolName t) (cs ! j)" using found_is_running [OF assms] by simp_all
  have one: "length (filter (running_as (tr_toolName t)) cs) \<le> 1" using assms(1) by (simp add: tracking_def)
  have "appendRuntimeToolCompleted env ev t ok err cs = cs[j := ended env t ok err (cs ! j)]"
    unfolding appendRuntimeToolCompleted_def Let_def Some by (simp add: ended_def run_summary_def Let_def)
  moreover have "list_ex (running_as (tr_toolName t)) cs" using j by (auto simp: list_ex_iff)
  ultimately show ?thesis using update_single [OF one j] by (simp add: settle_def)
qed

lemma legacy_refines:
  assumes "tracking seen live cs"
  shows "legacy_result env k n v cs =
    settle n (\<lambda>c. c\<lparr>tc_status := CallSucceeded, tc_summary := summarizeJsonValue env v\<rparr>) (legacy_unstarted env k n v) cs"
proof (cases "last_index (running_as n) cs")
  case None
  then show ?thesis using last_index_None [of "running_as n" cs]
    by (simp add: legacy_result_def settle_def legacy_unstarted_def Let_def list_ex_iff)
next
  case (Some j)
  have one: "length (filter (running_as n) cs) \<le> 1" using assms by (simp add: tracking_def)
  have "list_ex (running_as n) cs" using last_index_Some [OF Some] by (auto simp: list_ex_iff)
  moreover have "cs[j := (cs ! j)\<lparr>tc_status := CallSucceeded, tc_summary := summarizeJsonValue env v\<rparr>] =
      map (\<lambda>c. if running_as n c then c\<lparr>tc_status := CallSucceeded, tc_summary := summarizeJsonValue env v\<rparr> else c) cs"
    using update_single [OF one, of j "\<lambda>c. c\<lparr>tc_status := CallSucceeded, tc_summary := summarizeJsonValue env v\<rparr>"]
      last_index_Some [OF Some] by simp
  ultimately show ?thesis using Some by (simp add: legacy_result_def settle_def Let_def)
qed

lemma other_ids [simp]: "\<not> runtime_id (createToolCallId (ToolStart n v) k)" "\<not> runtime_id (createToolCallId (ToolResult n v) k)"
  "\<not> runtime_id (createToolCallId (ApprovalRequired q) k)"
  by (simp_all add: runtime_id_def createToolCallId_def lit_def Let_def)

lemma one_at_a_time_refines:
  assumes "tracking seen live cs" and "one_at_a_time names seen live es"
  shows "foldl (tool_call_step env names) cs (enumerate k es) = foldl (by_tool env names) cs (enumerate k es)"
  using assms
proof (induction es arbitrary: k cs seen live)
  case (Cons e es)
  note go = Cons.IH [of _ _ _ "Suc k"]
  show ?case
  proof (cases e)
    case (AgentEvent r)
    show ?thesis
    proof (cases "re_body r")
      case (ToolStarted t)
      let ?i = "createRuntimeToolCallId (re_id r) t"
      have new: "?i \<notin> set seen" "tr_toolName t \<notin> snd ` set live"
        "one_at_a_time names (?i # seen) ((?i, tr_toolName t) # live) es"
        using Cons.prems(2) AgentEvent ToolStarted by (simp_all add: Let_def)
      have "tracking (?i # seen) ((?i, tr_toolName t) # live) (cs @ [begun env (re_id r) t])"
        by (rule tracking_begun [OF Cons.prems(1)]) (simp_all add: new live_key_def)
      from go [OF this new(3)] show ?thesis
        using AgentEvent ToolStarted started_refines [OF Cons.prems(1) new(1,2)] by simp
    next
      case (ToolCompleted t ok err)
      let ?i = "createRuntimeToolCallId (re_id r) t" and ?n = "tr_toolName t"
      have new: "?i \<in> set seen \<longrightarrow> (?i, ?n) \<in> set live"
        "one_at_a_time names (if ?n \<in> snd ` set live then seen else ?i # seen) (filter (\<lambda>x. snd x \<noteq> ?n) live) es"
        using Cons.prems(2) AgentEvent ToolCompleted by (simp_all add: Let_def)
      have "tracking (if ?n \<in> snd ` set live then seen else ?i # seen) (filter (\<lambda>x. snd x \<noteq> ?n) live)
          (settle ?n (ended env t ok err) (unstarted env (re_id r) t ok err) cs)"
        by (rule tracking_settled [OF Cons.prems(1)]) (simp_all, use new(1) in force)
      from go [OF this new(2)] show ?thesis
        using AgentEvent ToolCompleted completed_refines [OF Cons.prems(1) new(1)] by simp
    next
      case (OtherRuntime x)
      then show ?thesis using go [OF Cons.prems(1)] Cons.prems(2) AgentEvent by simp
    qed
  next
    case (ToolStart n v)
    show ?thesis
    proof (cases "n \<in> set names")
      case True
      then show ?thesis using go [OF Cons.prems(1)] Cons.prems(2) ToolStart by simp
    next
      case False
      then have new: "n \<notin> snd ` set live" "one_at_a_time names seen (([], n) # live) es"
        using Cons.prems(2) ToolStart by simp_all
      have "tracking seen (([], n) # live) (cs @ [legacy_started env k n v])"
        by (rule tracking_begun [OF Cons.prems(1)]) (simp_all add: new legacy_started_def live_key_def Let_def)
      from go [OF this new(2)] show ?thesis using ToolStart False by simp
    qed
  next
    case (ToolResult n v)
    show ?thesis
    proof (cases "n \<in> set names")
      case True
      then show ?thesis using go [OF Cons.prems(1)] Cons.prems(2) ToolResult by simp
    next
      case False
      then have new: "one_at_a_time names seen (filter (\<lambda>x. snd x \<noteq> n) live) es"
        using Cons.prems(2) ToolResult by simp
      have "tracking seen (filter (\<lambda>x. snd x \<noteq> n) live)
          (settle n (\<lambda>c. c\<lparr>tc_status := CallSucceeded, tc_summary := summarizeJsonValue env v\<rparr>) (legacy_unstarted env k n v) cs)"
        by (rule tracking_settled [OF Cons.prems(1)]) (simp_all add: legacy_unstarted_def Let_def)
      from go [OF this new] show ?thesis using ToolResult False legacy_refines [OF Cons.prems(1)] by simp
    qed
  next
    case (ApprovalRequired q)
    have "tracking seen live (cs @ [awaiting_call k q])"
      using Cons.prems(1) by (auto simp: tracking_def awaiting_call_def running_as_def)
    from go [OF this] show ?thesis using Cons.prems(2) ApprovalRequired by simp
  qed (use go [OF Cons.prems(1)] Cons.prems(2) in simp_all)
qed simp

text \<open>C10: As long as no tool is started while it runs, and no identifier serves two runs, every outcome
  reaches the call it belongs to: the list of calls is the one a list keyed by the name of the tool
  would give. Every start adds one call, in order; an end gives its outcome to the call of its tool
  that runs and changes no other, with or without an identifier of the run; an end that no start came
  before has a call of its own. This holds of runtime events, of legacy events, and of both together.\<close>

theorem sequential_runs_keep_their_results:
  assumes "one_at_a_time (runtimeToolNames es) [] [] es"
  shows "mapSidecarEventsToToolCalls env es = foldl (by_tool env (runtimeToolNames es)) [] (enumerate 0 es)"
  unfolding mapSidecarEventsToToolCalls_def by (rule one_at_a_time_refines [OF tracking_empty assms])

abbreviation tool_event :: "ustr \<Rightarrow> runtime_body \<Rightarrow> ui_event" where
  "tool_event i b \<equiv> AgentEvent \<lparr>re_id = i, re_visibility = UserVisible, re_body = b\<rparr>"

abbreviation run_of :: "ustr \<Rightarrow> ustr \<Rightarrow> ustr option \<Rightarrow> tool_run" where
  "run_of useId n preview \<equiv> \<lparr>tr_toolUseId = Some useId, tr_toolName = n, tr_preview = preview\<rparr>"

definition plain_sidecar :: sidecar_env where
  "plain_sidecar = \<lparr>sc_text = plain_env,
     sc_paths = \<lparr>pa_normalize = id, pa_basename = id, pa_dirname = id, pa_lower = id\<rparr>,
     sc_read = (\<lambda>_. Some 0), sc_show = (\<lambda>_. [48]), sc_hostname = (\<lambda>_. None)\<rparr>"

abbreviation unnamed_run :: "ustr \<Rightarrow> ustr option \<Rightarrow> tool_run" where
  "unnamed_run n preview \<equiv> \<lparr>tr_toolUseId = None, tr_toolName = n, tr_preview = preview\<rparr>"

text \<open>A run with an identifier, one without, whose end has the identifier of its own event, a legacy run
  and a legacy result without a start.\<close>

theorem sequential_runs_keep_their_results_witness:
  "let es = [tool_event [49] (ToolStarted (run_of [97] [120] None)),
             tool_event [50] (ToolStarted (unnamed_run [121] None)),
             ToolStart [122] (StrOut []),
             tool_event [51] (ToolCompleted (unnamed_run [121] None) False (Some [33])),
             tool_event [52] (ToolCompleted (run_of [97] [120] None) True None),
             ToolResult [122] (StrOut []), ToolResult [119] (StrOut [])];
       cs = mapSidecarEventsToToolCalls plain_sidecar es
   in map tc_name cs = [[120], [121], [122], [119]] \<and>
      map tc_status cs = [CallSucceeded, CallFailed, CallSucceeded, CallSucceeded]"
proof -
  let ?es = "[tool_event [49] (ToolStarted (run_of [97] [120] None)),
             tool_event [50] (ToolStarted (unnamed_run [121] None)),
             ToolStart [122] (StrOut []),
             tool_event [51] (ToolCompleted (unnamed_run [121] None) False (Some [33])),
             tool_event [52] (ToolCompleted (run_of [97] [120] None) True None),
             ToolResult [122] (StrOut []), ToolResult [119] (StrOut [])]"
  have names: "runtimeToolNames ?es = [[120], [121], [121], [120]]"
    by (simp add: runtimeToolNames_def map_filter_simps)
  have "one_at_a_time (runtimeToolNames ?es) [] [] ?es"
    unfolding names by (simp add: Let_def createRuntimeToolCallId_def orElse_def lit_def)
  note whole = sequential_runs_keep_their_results [OF this, of plain_sidecar, unfolded names]
  show ?thesis
    unfolding Let_def whole
    by (simp add: settle_def running_as_def begun_def ended_def unstarted_def legacy_started_def legacy_unstarted_def Let_def)
qed

text \<open>When a tool is called twice at once the second call is dropped, and when the second call ends
  first its result is shown as the result of the first, which still runs; the end of the first
  then overwrites it. Nothing is left of the second call: neither its input nor its outcome.\<close>

theorem parallel_call_is_lost:
  assumes "a \<noteq> []" and "b \<noteq> []" and "a \<noteq> b"
  shows "let first = run_of a n p; second = run_of b n q;
             started = [tool_event i (ToolStarted first), tool_event j (ToolStarted second)];
             half = started @ [tool_event k (ToolCompleted (run_of b n r) True None)];
             full = half @ [tool_event l (ToolCompleted (run_of a n s) True None)]
         in mapSidecarEventsToToolCalls env started = [begun env i first] \<and>
            mapSidecarEventsToToolCalls env half = [ended env (run_of b n r) True None (begun env i first)] \<and>
            map tc_id (mapSidecarEventsToToolCalls env full) = [lit ''runtime-tool:'' @ a] \<and>
            map tc_summary (mapSidecarEventsToToolCalls env full) = [run_summary env (run_of a n s) True None]"
proof -
  have ids: "createRuntimeToolCallId i (run_of a n p) = lit ''runtime-tool:'' @ a"
      "createRuntimeToolCallId i (run_of b n p) = lit ''runtime-tool:'' @ b" for i p
    using assms by (simp_all add: createRuntimeToolCallId_def orElse_def)
  have begun: "tc_id (begun env i (run_of a n p)) = lit ''runtime-tool:'' @ a"
      "tc_name (begun env i (run_of a n p)) = n" "tc_status (begun env i (run_of a n p)) = CallRunning" for i p
    by (simp_all add: begun_def Let_def ids)
  have one: "appendRuntimeToolStarted env i (run_of a n p) [] = [begun env i (run_of a n p)]" for i p
    by (simp add: appendRuntimeToolStarted_def findRuntimeToolCallIndex_def begun_def Let_def)
  have two: "appendRuntimeToolStarted env j (run_of b n q) [begun env i (run_of a n p)] = [begun env i (run_of a n p)]"
    using assms
    by (simp add: appendRuntimeToolStarted_def findRuntimeToolCallIndex_def begun ids running_as_def)
  have three: "appendRuntimeToolCompleted env k (run_of b n r) True None [begun env i (run_of a n p)] =
      [ended env (run_of b n r) True None (begun env i (run_of a n p))]"
    using assms
    by (simp add: appendRuntimeToolCompleted_def findRuntimeToolCallIndex_def begun ids running_as_def Let_def
        ended_def run_summary_def)
  have four: "appendRuntimeToolCompleted env l (run_of a n s) True None
      [ended env (run_of b n r) True None (begun env i (run_of a n p))] =
      [ended env (run_of a n s) True None (ended env (run_of b n r) True None (begun env i (run_of a n p)))]"
    by (simp add: appendRuntimeToolCompleted_def findRuntimeToolCallIndex_def begun ids Let_def)
      (simp add: ended_def run_summary_def Let_def)
  have summary: "tc_summary (ended env t ok err c) = run_summary env t ok err" for t ok err c
    by (simp add: ended_def Let_def)
  show ?thesis
    by (simp add: Let_def mapSidecarEventsToToolCalls_def one two three four begun ids summary)
qed

theorem parallel_call_is_lost_witness:
  "map tc_id (mapSidecarEventsToToolCalls env
     [tool_event [49] (ToolStarted (run_of [97] [120] None)), tool_event [50] (ToolStarted (run_of [98] [120] None)),
      tool_event [51] (ToolCompleted (run_of [98] [120] None) True None),
      tool_event [52] (ToolCompleted (run_of [97] [120] None) True None)]) = [lit ''runtime-tool:'' @ [97]]"
  using parallel_call_is_lost [of "[97]" "[98]" "[120]" None None "[49]" "[50]" "[51]" None "[52]" None env]
  by (simp add: Let_def)

section \<open>Runtime previews and legacy payloads\<close>

lemma trim_framed: "\<lbrakk>s \<noteq> []; \<not> is_js_space (hd s); \<not> is_js_space (last s)\<rbrakk> \<Longrightarrow> trim s = s"
proof -
  assume "s \<noteq> []" "\<not> is_js_space (hd s)" "\<not> is_js_space (last s)"
  then have "dropWhile is_js_space s = s" "dropWhile is_js_space (rev s) = rev s"
    by (simp_all only: dropWhile_eq_self_iff hd_rev) simp_all
  then show ?thesis by (simp add: trim_def)
qed

fun is_container :: "out \<Rightarrow> bool" where
  "is_container (ArrOut _) \<longleftrightarrow> True"
| "is_container (ObjOut _) \<longleftrightarrow> True"
| "is_container _ \<longleftrightarrow> False"

lemma stringified_framed:
  "is_container v \<Longrightarrow> json_stringify nt v \<noteq> [] \<and> (hd (json_stringify nt v) = 91 \<or> hd (json_stringify nt v) = 123) \<and>
   (last (json_stringify nt v) = 93 \<or> last (json_stringify nt v) = 125)"
  by (cases v) auto

lemma stringified_trim: "is_container v \<Longrightarrow> trim (json_stringify nt v) = json_stringify nt v"
  using stringified_framed [of v nt] by (intro trim_framed) (auto simp: is_js_space_def)

lemma preview_value:
  assumes "json_ok (sc_show env) (sc_read env) v" "is_container v"
  shows "getRuntimePreviewValue env (Some (stringifyJsonValue env v)) = v"
proof -
  have "parseJsonString env (stringifyJsonValue env v) = Some v"
    using stringified_framed [OF assms(2), of "sc_show env"] parse_stringify [OF assms(1)]
    by (auto simp: parseJsonString_def stringifyJsonValue_def stringified_trim [OF assms(2)] option.map_ident)
  then show ?thesis
    using stringified_framed [OF assms(2), of "sc_show env"]
    by (simp add: getRuntimePreviewValue_def stringifyJsonValue_def orElse_def stringified_trim [OF assms(2)])
qed

text \<open>A runtime event whose preview is the JSON text of a tool's input describes the tool exactly as
  the legacy event that carries the input itself, except that an empty description is replaced by a
  word.\<close>

theorem preview_describes_like_payload:
  assumes "json_ok (sc_show env) (sc_read env) v" and "is_container v"
  shows "describeRuntimeToolPreview env n (Some (stringifyJsonValue env v)) =
    (let d = describeToolPayload env n v in
     d\<lparr>dc_targetPreview := truthy_or (dc_targetPreview d) (word TaskWord),
       dc_summary := truthy_or (dc_summary d) (word ExecutingWord)\<rparr>)"
  by (simp add: describeRuntimeToolPreview_def preview_value [OF assms])

theorem preview_describes_like_payload_witness:
  "let v = ObjOut [(lit ''path'', StrOut (lit ''a b'')), (lit ''all'', ArrOut [NumOut (Some 0), NullOut])];
       d = describeToolPayload plain_sidecar (lit ''read_file'') v
   in describeRuntimeToolPreview plain_sidecar (lit ''read_file'') (Some (stringifyJsonValue plain_sidecar v)) =
      d\<lparr>dc_targetPreview := truthy_or (dc_targetPreview d) (word TaskWord),
        dc_summary := truthy_or (dc_summary d) (word ExecutingWord)\<rparr>"
proof -
  have zero: "read_number [48] = Some ([48], [])" by code_simp
  have "json_ok (sc_show plain_sidecar) (sc_read plain_sidecar)
      (ObjOut [(lit ''path'', StrOut (lit ''a b'')), (lit ''all'', ArrOut [NumOut (Some 0), NullOut])])"
    by (simp add: plain_sidecar_def number_ok_def zero text_ok_def lit_def js_object_def jm_set_def
        is_index_def is_digit_def)
  from preview_describes_like_payload [OF this] show ?thesis by (simp add: Let_def)
qed

section \<open>Changed files\<close>

lemma first_paths_distinct:
  "distinct (map f (first_paths f seen ps)) \<and> f ` set (first_paths f seen ps) \<inter> insert [] (set seen) = {}"
proof (induction ps arbitrary: seen)
  case (Cons p ps)
  from Cons [of "f p # seen"] Cons [of seen] show ?case by auto
qed simp

lemma first_paths_set:
  "set (first_paths f seen ps) \<subseteq> set ps \<and>
   f ` set (first_paths f seen ps) \<union> insert [] (set seen) = f ` set ps \<union> insert [] (set seen)"
proof (induction ps arbitrary: seen)
  case (Cons p ps)
  show ?case
  proof (cases "f p = [] \<or> f p \<in> set seen")
    case True
    then show ?thesis using Cons [of seen] by auto
  next
    case False
    then show ?thesis using Cons [of "f p # seen"] by auto
  qed
qed simp

lemma without_element: "\<lbrakk>x \<notin> A; insert x A = insert x B\<rbrakk> \<Longrightarrow> A = B - {x}"
  by auto

lemma changed_by_mutation: "changed_by env e \<noteq> [] \<Longrightarrow> isSidecarFileMutationEvent e \<or> isRuntimeFileMutationEvent e"
  by (cases e) (auto simp: isRuntimeFileMutationEvent_def split: option.splits if_splits)

text \<open>C35: The changed files of an answer: one path for every file named by an event of a file-changing
  tool, files being the same when their normal forms are, in the order and spelling of the first
  mention, and none without such an event.\<close>

theorem changed_files_are_those_named:
  "let f = normalizeFileSystemPath (sc_paths env) comparing; ps = extractSidecarChangedFilePaths env es;
       candidates = concat (map (changed_by env) es)
   in distinct (map f ps) \<and> set ps \<subseteq> set candidates \<and> f ` set ps = f ` set candidates - {[]} \<and>
      (ps = [] \<or> hasSidecarFileMutationEvent es)"
proof -
  let ?f = "normalizeFileSystemPath (sc_paths env) comparing"
  let ?cs = "concat (map (changed_by env) es)"
  let ?ps = "first_paths ?f [] ?cs"
  have "?f ` set ?ps = ?f ` set ?cs - {[]}"
  proof -
    have "[] \<notin> ?f ` set ?ps" using first_paths_distinct [of ?f "[]" ?cs] by blast
    moreover have "insert [] (?f ` set ?ps) = insert [] (?f ` set ?cs)"
      using first_paths_set [of ?f "[]" ?cs] by simp
    ultimately show ?thesis by (rule without_element)
  qed
  moreover have "?ps = [] \<or> hasSidecarFileMutationEvent es"
  proof (cases "?ps = []")
    case False
    with first_paths_set [of ?f "[]" ?cs] have "?cs \<noteq> []" by (metis list.set(1) set_empty subset_empty)
    then obtain e where "e \<in> set es" "changed_by env e \<noteq> []" by auto
    with changed_by_mutation [of env e] show ?thesis
      by (auto simp: hasSidecarFileMutationEvent_def list_ex_iff)
  qed simp
  ultimately show ?thesis
    using first_paths_distinct [of ?f "[]" ?cs] first_paths_set [of ?f "[]" ?cs]
    by (simp add: extractSidecarChangedFilePaths_def Let_def)
qed

section \<open>The schema of a tool call\<close>

text \<open>The checks of \<open>aiChatMessageToolCallSchema\<close> that the types do not make.\<close>

definition tool_call_valid :: "tool_call \<Rightarrow> bool" where
  "tool_call_valid c \<longleftrightarrow> tc_id c \<noteq> [] \<and> tc_name c \<noteq> [] \<and> tc_targetPreview c \<noteq> Some [] \<and>
     opt_all (list_all (\<lambda>s. s \<noteq> [])) (tc_detailItems c)"

text \<open>What the schema of the events promises, and that a legacy event has a description.\<close>

fun event_ok :: "sidecar_env \<Rightarrow> ui_event \<Rightarrow> bool" where
  "event_ok env (ToolStart n v) \<longleftrightarrow> n \<noteq> [] \<and> dc_targetPreview (describeToolPayload env n v) \<noteq> []"
| "event_ok env (ToolResult n v) \<longleftrightarrow> n \<noteq> [] \<and> dc_targetPreview (describeToolPayload env n v) \<noteq> []"
| "event_ok env (AgentEvent e) \<longleftrightarrow> (case isAgentRuntimeToolEvent (re_body e) of
     Some t \<Rightarrow> tr_toolName t \<noteq> [] | None \<Rightarrow> True)"
| "event_ok env (ApprovalRequired q) \<longleftrightarrow> aq_toolName q \<noteq> [] \<and> aq_summary q \<noteq> []"
| "event_ok env _ \<longleftrightarrow> True"

lemma unique_texts_nonempty: "list_all (\<lambda>s. s \<noteq> []) (unique_texts seen vs)"
  by (induction vs arbitrary: seen) (auto simp: Let_def)

lemma details_nonempty: "list_all (\<lambda>s. s \<noteq> []) (dc_detailItems (describeToolPayload env n v))"
  by (simp add: describeToolPayload_def Let_def described_def compactDetailItems_def
      uniqueNonEmptyStrings_def unique_texts_nonempty)

lemma runtime_description:
  "list_all (\<lambda>s. s \<noteq> []) (dc_detailItems (describeRuntimeToolPreview env n p))"
  "dc_targetPreview (describeRuntimeToolPreview env n p) \<noteq> []"
  by (simp_all add: describeRuntimeToolPreview_def Let_def details_nonempty truthy_or_def)

lemma runtime_id_nonempty: "createRuntimeToolCallId e t \<noteq> []"
  by (simp add: createRuntimeToolCallId_def lit_def)

lemma some_items_ok: "list_all P xs \<Longrightarrow> opt_all (list_all P) (some_items xs)"
  by (simp add: some_items_def opt_all_def)

lemma kept_items_ok: "\<lbrakk>opt_all (list_all P) old; list_all P new\<rbrakk> \<Longrightarrow> opt_all (list_all P) (kept_items old new)"
  by (simp add: kept_items_def opt_all_def)

lemma list_all_update: "\<lbrakk>list_all P xs; i < length xs \<Longrightarrow> P (xs ! i) \<Longrightarrow> P y\<rbrakk> \<Longrightarrow> list_all P (xs[i := y])"
  by (cases "i < length xs") (auto simp: list_all_length nth_list_update list_update_beyond)

lemma valid_step:
  assumes "list_all tool_call_valid cs" "event_ok env e"
  shows "list_all tool_call_valid (tool_call_step env names cs (k, e))"
proof (cases e)
  case (AgentEvent r)
  show ?thesis
  proof (cases "re_body r")
    case (ToolStarted t)
    with assms AgentEvent show ?thesis
      by (auto simp: appendRuntimeToolStarted_def Let_def tool_call_valid_def runtime_id_nonempty
          runtime_description some_items_ok)
  next
    case (ToolCompleted t ok err)
    then have "tr_toolName t \<noteq> []" using assms(2) AgentEvent by simp
    then show ?thesis
      using assms(1) AgentEvent ToolCompleted
      by (auto simp: appendRuntimeToolCompleted_def Let_def tool_call_valid_def runtime_id_nonempty
          runtime_description some_items_ok kept_items_ok kept_text_def intro!: list_all_update split: option.split)
  qed (use assms AgentEvent in simp)
next
  case (ToolStart n v)
  with assms show ?thesis
    by (auto simp: legacy_started_def Let_def tool_call_valid_def createToolCallId_def lit_def opt_all_def
        details_nonempty)
next
  case (ToolResult n v)
  with assms show ?thesis
    by (auto simp: legacy_result_def Let_def tool_call_valid_def createToolCallId_def lit_def
        details_nonempty some_items_ok intro!: list_all_update split: option.split)
next
  case (ApprovalRequired q)
  with assms show ?thesis
    by (auto simp: awaiting_call_def tool_call_valid_def createToolCallId_def lit_def opt_all_def)
qed (use assms in simp_all)

text \<open>C28: The tool calls of a stream of valid events pass the schema under which messages are stored, when
  every legacy event of the stream has a description; runtime events always have one.\<close>

theorem tool_calls_can_be_stored:
  assumes "list_all (event_ok env) es"
  shows "list_all tool_call_valid (mapSidecarEventsToToolCalls env es)"
proof -
  have "list_all tool_call_valid (foldl (tool_call_step env names) cs (enumerate k es))"
    if "list_all tool_call_valid cs" "list_all (event_ok env) es" for cs k names
    using that by (induction es arbitrary: cs k) (simp_all add: valid_step)
  from this [of "[]"] assms show ?thesis by (simp add: mapSidecarEventsToToolCalls_def)
qed

theorem tool_calls_can_be_stored_witness:
  "list_all tool_call_valid (mapSidecarEventsToToolCalls plain_sidecar
     [tool_event [49] (ToolStarted (run_of [97] [120] None)),
      tool_event [51] (ToolCompleted (run_of [97] [120] None) False None)])"
  by (rule tool_calls_can_be_stored) simp

lemma blank_summary:
  assumes "list_all is_js_space s" and "tx_nfc (sc_text env) s = s"
  shows "summarizeJsonValue env (StrOut s) = []"
proof -
  have space32: "is_js_space 32" and space10: "is_js_space 10" by (simp_all add: is_js_space_def)
  have blank: "trim t = []" if "list_all is_js_space t" for t
  proof -
    have "dropWhile is_js_space t = []" using that by (simp only: dropWhile_eq_Nil_conv list_all_iff)
    then show ?thesis unfolding trim_def by (simp only: rev.simps dropWhile.simps)
  qed
  have collapse: "list_all is_js_space (collapse_spaces t)" if "list_all is_js_space t" for t
    using that
  proof (induction t rule: collapse_spaces.induct)
    case (2 c cs)
    from "2.prems" have c: "is_js_space c" "list_all is_js_space (dropWhile is_js_space cs)"
      by (auto simp: list_all_iff dest: set_dropWhileD)
    from "2.IH"(1) [OF this] c(1) show ?case by (simp add: space32)
  qed simp
  have unix: "list_all is_js_space (unix_newlines t)" if "list_all is_js_space t" for t
    using that
  proof (induction t rule: unix_newlines.induct)
    case (2 c s)
    then show ?case
      by (subst unix_newlines.simps(2)) (auto simp: space10 simp del: unix_newlines.simps(2) split: list.split)
  qed simp
  have split: "list_all (list_all is_js_space) (split_newlines t)" if "list_all is_js_space t" for t
    using that by (induction t) (auto split: list.splits)
  have "parseJsonString env s = None" using blank [OF assms(1)] by (simp add: parseJsonString_def)
  moreover have "filter (\<lambda>l. l \<noteq> [] \<and> \<not> RESULT_HEADING_PATTERN l)
      (map (\<lambda>l. trim (collapse_spaces l)) (split_newlines (unix_newlines s))) = []"
    using split [OF unix [OF assms(1)]] blank collapse
    by (auto simp: filter_empty_conv list_all_iff [of "list_all is_js_space"])
  then have "cleanReadableToolText env s = None"
    by (simp add: cleanReadableToolText_def)
  moreover have "clipSummary env s 96 = []"
    using blank [OF collapse [OF assms(1)]] assms(2)
    by (simp add: clipSummary_def clipTextPreview_def normalizePreviewText_def Let_def)
  ultimately show ?thesis by (simp add: summarizeJsonValue.simps orElse_def)
qed

text \<open>The tools that have no description of their own.\<close>

definition undescribed :: "ustr \<Rightarrow> bool" where
  "undescribed n \<longleftrightarrow> \<not> list_ex (\<lambda>t. one_of t n) [WEB_SEARCH_TOOL_NAMES, WEB_FETCH_TOOL_NAMES, FILE_SEARCH_TOOL_NAMES,
     FILE_READ_TOOL_NAMES, DIRECTORY_TOOL_NAMES, GIT_TOOL_NAMES]"

lemma blank_description:
  assumes "undescribed n" and "list_all is_js_space s" and "tx_nfc (sc_text env) s = s"
  shows "describeToolPayload env n (StrOut s) = \<lparr>dc_targetPreview = [], dc_summary = [], dc_detailItems = []\<rparr>"
proof -
  have "collectFirstString env (StrOut s) keys = None" for keys
    by (simp add: collectFirstString_def collectStringList_def formatStringList_def uniqueNonEmptyStrings_def)
  then show ?thesis
    using assms(1) blank_summary [OF assms(2,3)]
    by (simp add: describeToolPayload_def undescribed_def Let_def orElse_def described_def
        compactDetailItems_def uniqueNonEmptyStrings_def map_filter_simps)
qed

text \<open>A tool without a description of its own that is started with a blank string gives a tool call
  that the schema of stored messages refuses.\<close>

theorem blank_input_cannot_be_stored:
  assumes "undescribed n" and "list_all is_js_space s" and "tx_nfc (sc_text env) s = s"
  shows "map tool_call_valid (mapSidecarEventsToToolCalls env [ToolStart n (StrOut s)]) = [False]"
  using blank_description [OF assms]
  by (simp add: mapSidecarEventsToToolCalls_def runtimeToolNames_def map_filter_simps legacy_started_def
      tool_call_valid_def Let_def)

theorem blank_input_cannot_be_stored_witness:
  "map tool_call_valid (mapSidecarEventsToToolCalls plain_sidecar
     [ToolStart (lit ''get_current_time'') (StrOut [])]) = [False]"
  by (rule blank_input_cannot_be_stored)
    (simp_all add: undescribed_def one_of_def WEB_SEARCH_TOOL_NAMES_def WEB_FETCH_TOOL_NAMES_def
      FILE_SEARCH_TOOL_NAMES_def FILE_READ_TOOL_NAMES_def DIRECTORY_TOOL_NAMES_def GIT_TOOL_NAMES_def
      plain_sidecar_def)

end
