(* ===== verification/ConversationSchema.thy ===== *)
theory ConversationSchema
  imports AiConversation SidecarTools
begin

text \<open>
  The stored conversations: the schemas of \<open>src/types/ai/conversation.schema.ts\<close>, with the checks of a
  tool call (\<open>aiChatMessageToolCallSchema\<close> in \<open>src/types/ai/schema.ts\<close>) written out, and what a restart
  makes of the store (\<open>afterHydrate\<close> in \<open>src/store/aiConversation.ts\<close>). The other parts of a message are
  JSON to the store; their checks are the parameter \<open>rest\<close>, which returns the value without unknown keys.
\<close>

section \<open>Tool calls in a message\<close>

definition call_status_names :: "(call_status \<times> string) list" where
  "call_status_names = [(CallPending, ''pending''), (CallRunning, ''running''), (CallSucceeded, ''succeeded''),
     (CallFailed, ''failed''), (CallDenied, ''denied'')]"

definition tool_call_json :: "tool_call \<Rightarrow> json_value" where
  "tool_call_json c = JObj ([(''id'', JStr (tc_id c)), (''name'', JStr (tc_name c)),
     (''status'', enum_name call_status_names (tc_status c)), (''summary'', JStr (tc_summary c))] @
     jopt ''targetPreview'' JStr (tc_targetPreview c) @ jopt ''detailItems'' jstrings (tc_detailItems c))"

fun znonnegative :: "json_value \<Rightarrow> rat option" where
  "znonnegative (JInt i) = (if 0 \<le> i then Some (of_int i) else None)"
| "znonnegative (JFloat q) = (if 0 \<le> q then Some q else None)"
| "znonnegative _ = None"

text \<open>The parsed call; the elapsed time, which no tool call of the program has, is only checked.\<close>

definition aiChatMessageToolCallSchema :: "json_value \<Rightarrow> tool_call option" where
  "aiChatMessageToolCallSchema v = do {
     fs \<leftarrow> zobject v;
     i \<leftarrow> zmin1 (jfield fs ''id'');
     n \<leftarrow> zmin1 (jfield fs ''name'');
     st \<leftarrow> zenum call_status_names (jfield fs ''status'');
     sm \<leftarrow> zstring (jfield fs ''summary'');
     tp \<leftarrow> zoptional zmin1 (jfield fs ''targetPreview'');
     di \<leftarrow> zoptional (zarray zmin1) (jfield fs ''detailItems'');
     _ \<leftarrow> zoptional znonnegative (jfield fs ''elapsedMs'');
     Some \<lparr>tc_id = i, tc_name = n, tc_status = st, tc_summary = sm, tc_targetPreview = tp, tc_detailItems = di\<rparr> }"

definition message_tool_calls :: "chat_message \<Rightarrow> tool_call list option option" where
  "message_tool_calls m =
     zoptional (zarray aiChatMessageToolCallSchema) (jfield (orElse (zobject (cm_rest m)) []) ''toolCalls'')"

definition aiChatMessageSchema :: "rest_schema \<Rightarrow> chat_message \<Rightarrow> chat_message option" where
  "aiChatMessageSchema rest m = do {
     check (cm_createdAt m \<noteq> []);
     _ \<leftarrow> message_tool_calls m;
     r \<leftarrow> rest ''aiChatMessageSchema'' (cm_rest m);
     Some (m\<lparr>cm_rest := r\<rparr>) }"

section \<open>Threads\<close>

definition aiConversationThreadSchema :: "rest_schema \<Rightarrow> thread \<Rightarrow> thread option" where
  "aiConversationThreadSchema rest t = do {
     i \<leftarrow> trimmed1 (th_id t);
     ti \<leftarrow> trimmed1 (th_title t);
     u \<leftarrow> trimmed1 (th_updatedAt t);
     c \<leftarrow> trimmed1 (th_createdAt t);
     ms \<leftarrow> all_parse (aiChatMessageSchema rest) (th_messages t);
     sc \<leftarrow> opt_parse (rest ''aiConversationScrollStateSchema'') (th_scrollState t);
     Some \<lparr>th_id = i, th_title = ti, th_titleStatus = th_titleStatus t, th_updatedAt = u, th_createdAt = c,
       th_messages = ms, th_scrollState = sc\<rparr> }"

definition aiConversationPersistSchema :: "rest_schema \<Rightarrow> conversation \<Rightarrow> (ustr option \<times> thread list) option" where
  "aiConversationPersistSchema rest s = do {
     a \<leftarrow> opt_parse trimmed1 (cv_active s);
     ts \<leftarrow> all_parse (aiConversationThreadSchema rest) (cv_threads s);
     Some (a, ts) }"

text \<open>The legacy snapshot is checked on \<open>store.activeMessages\<close>. That key once held the only conversation;
  today it is the getter of the active one.\<close>

definition aiConversationLegacyPersistSchema :: "rest_schema \<Rightarrow> conversation \<Rightarrow> chat_message list option" where
  "aiConversationLegacyPersistSchema rest s = all_parse (aiChatMessageSchema rest) (activeMessages s)"

definition conversation_restart ::
    "(ustr \<Rightarrow> ustr) \<Rightarrow> ustr \<Rightarrow> ustr \<Rightarrow> rest_schema \<Rightarrow> conversation \<Rightarrow> conversation" where
  "conversation_restart nfc fresh now rest s =
     hydrate nfc fresh now (aiConversationPersistSchema rest s) (aiConversationLegacyPersistSchema rest s)"

section \<open>What the schemas accept\<close>

lemma jfield_here [simp]: "jfield ((k, v) # fs) k = v"
  by (simp add: jfield_def)

lemma jfield_there [simp]: "j \<noteq> k \<Longrightarrow> jfield ((k, v) # fs) j = jfield fs j"
  by (simp add: jfield_def)

lemma jfield_none [simp]: "jfield [] k = JUndefined"
  by (simp add: jfield_def)

lemma jfield_jopt_other [simp]: "j \<noteq> k \<Longrightarrow> jfield (jopt k f x @ fs) j = jfield fs j"
  by (cases x) (simp_all add: jopt_def)

lemma jfield_jopt_last [simp]: "jfield (jopt k f x) j = (case x of Some y \<Rightarrow> if j = k then f y else JUndefined | None \<Rightarrow> JUndefined)"
  by (cases x) (simp_all add: jopt_def)

lemma jfield_jopt [simp]: "jfield fs k = JUndefined \<Longrightarrow>
    jfield (jopt k f x @ fs) k = (case x of Some y \<Rightarrow> f y | None \<Rightarrow> JUndefined)"
  by (cases x) (simp_all add: jopt_def)

lemma call_status_read [simp]: "zenum call_status_names (enum_name call_status_names st) = Some st"
  by (cases st) (simp_all add: zenum_def enum_name_def call_status_names_def)

lemma strings_parse: "zarray zmin1 (jstrings xs) = (if list_all (\<lambda>s. s \<noteq> []) xs then Some xs else None)"
  by (auto simp: zarray_def jstrings_def zall_strings strings_valid_def list_all_iff)

lemma strings_never_undefined [simp]: "jstrings xs \<noteq> JUndefined"
  by (simp add: jstrings_def)

text \<open>A tool call passes its schema, unchanged, exactly when it is valid.\<close>

lemma tool_call_schema:
  "aiChatMessageToolCallSchema (tool_call_json c) = (if tool_call_valid c then Some c else None)"
  by (cases "tc_targetPreview c"; cases "tc_detailItems c")
    (auto simp: aiChatMessageToolCallSchema_def tool_call_json_def tool_call_valid_def zoptional_def
      strings_parse opt_all_def jopt_def split: if_splits)

lemma bad_thread:
  assumes "t \<in> set (cv_threads s)" "m \<in> set (th_messages t)" "aiChatMessageSchema rest m = None"
  shows "aiConversationPersistSchema rest s = None"
proof -
  have "aiConversationThreadSchema rest t = None"
    using all_parse_None [OF assms(2), of "aiChatMessageSchema rest"] assms(3)
    by (simp add: aiConversationThreadSchema_def split: bind_splits)
  with all_parse_None [OF assms(1), of "aiConversationThreadSchema rest"] show ?thesis
    by (simp add: aiConversationPersistSchema_def split: bind_splits)
qed

section \<open>Restart\<close>

text \<open>A single stored message that its schema refuses costs the user every conversation but the active
  one, and that one too when the message is in it: after the restart there is one thread, which
  holds the active messages when they all pass and nothing otherwise.\<close>

theorem one_bad_message_loses_history:
  assumes "t \<in> set (cv_threads s)" and "m \<in> set (th_messages t)" and "aiChatMessageSchema rest m = None"
  shows "map th_messages (cv_threads (conversation_restart nfc fresh now rest s)) =
    [case all_parse (aiChatMessageSchema rest) (activeMessages s) of
       Some ms \<Rightarrow> normalizeMessages ms | None \<Rightarrow> []]"
  by (simp add: conversation_restart_def bad_thread [OF assms] hydrate_def aiConversationLegacyPersistSchema_def
      migrateLegacyMessages_def ensureActiveThread_def createThread_def Let_def split: option.split)

definition keep_all :: rest_schema where
  "keep_all _ v = Some v"

definition message_with :: "tool_call list \<Rightarrow> chat_message" where
  "message_with cs = \<lparr>cm_role = RAssistant, cm_content = [104], cm_createdAt = [49], cm_stream = None,
     cm_rest = JObj [(''toolCalls'', JArr (map tool_call_json cs))]\<rparr>"

definition two_threads :: "tool_call list \<Rightarrow> conversation" where
  "two_threads cs = \<lparr>cv_threads =
     [\<lparr>th_id = [97], th_title = [97], th_titleStatus = Temporary, th_updatedAt = [49], th_createdAt = [49],
       th_messages = [message_with []], th_scrollState = None\<rparr>,
      \<lparr>th_id = [98], th_title = [98], th_titleStatus = Temporary, th_updatedAt = [49], th_createdAt = [49],
       th_messages = [message_with cs], th_scrollState = None\<rparr>],
     cv_active = Some [98]\<rparr>"

lemma message_with_schema:
  "aiChatMessageSchema keep_all (message_with cs) =
     (if list_all tool_call_valid cs then Some (message_with cs) else None)"
proof -
  have "zall aiChatMessageToolCallSchema (map tool_call_json cs) =
      (if list_all tool_call_valid cs then Some cs else None)"
    by (induction cs) (auto simp: tool_call_schema)
  then show ?thesis
    by (simp add: aiChatMessageSchema_def message_with_def message_tool_calls_def check_def keep_all_def
        zoptional_def zarray_def orElse_def)
qed

text \<open>An assistant message with the call of a tool that was started with an empty string.\<close>

theorem one_bad_message_loses_history_witness:
  "let bad = mapSidecarEventsToToolCalls plain_sidecar [ToolStart (lit ''get_current_time'') (StrOut [])] in
   map th_messages (cv_threads (conversation_restart id [120] [50] keep_all (two_threads bad))) = [[]]"
proof -
  let ?bad = "mapSidecarEventsToToolCalls plain_sidecar [ToolStart (lit ''get_current_time'') (StrOut [])]"
  have u: "undescribed (lit ''get_current_time'')"
    by (simp add: undescribed_def one_of_def WEB_SEARCH_TOOL_NAMES_def WEB_FETCH_TOOL_NAMES_def
        FILE_SEARCH_TOOL_NAMES_def FILE_READ_TOOL_NAMES_def DIRECTORY_TOOL_NAMES_def GIT_TOOL_NAMES_def)
  have d: "describeToolPayload plain_sidecar (lit ''get_current_time'') (StrOut []) =
      \<lparr>dc_targetPreview = [], dc_summary = [], dc_detailItems = []\<rparr>"
    by (rule blank_description [OF u]) (simp_all add: plain_sidecar_def)
  have "\<not> list_all tool_call_valid ?bad"
    by (simp add: mapSidecarEventsToToolCalls_def runtimeToolNames_def map_filter_simps legacy_started_def
        tool_call_valid_def Let_def d)
  then have bad: "aiChatMessageSchema keep_all (message_with ?bad) = None"
    by (simp add: message_with_schema)
  have "activeMessages (two_threads ?bad) = [message_with ?bad]"
    by (simp add: activeMessages_def activeThread_def find_thread_def two_threads_def)
  with one_bad_message_loses_history [OF _ _ bad, of "cv_threads (two_threads ?bad) ! 1" "two_threads ?bad" id "[120]" "[50]"]
  show ?thesis using bad by (simp add: two_threads_def)
qed

text \<open>The threads of a hydrated store.\<close>

definition hydrated_thread :: "(ustr \<Rightarrow> ustr) \<Rightarrow> thread \<Rightarrow> thread" where
  "hydrated_thread nfc t = syncThreadMeta nfc (t\<lparr>th_messages := normalizeMessages (th_messages t)\<rparr>)"

lemma hydrated_thread_fields [simp]: "th_id (hydrated_thread nfc t) = th_id t"
  "th_messages (hydrated_thread nfc t) = normalizeMessages (th_messages t)"
  by (simp_all add: hydrated_thread_def)

lemma normalizeMessages_Nil [simp]: "normalizeMessages ms = [] \<longleftrightarrow> ms = []"
  by (simp add: normalizeMessages_def)

lemma find_hydrated: "find_thread i (map (hydrated_thread nfc) ts) = map_option (hydrated_thread nfc) (find_thread i ts)"
  by (induction ts) (simp_all add: find_thread_def)

lemma filter_hydrated: "filter (\<lambda>t. th_messages t \<noteq> []) (map (hydrated_thread nfc) ts) =
    map (hydrated_thread nfc) (filter (\<lambda>t. th_messages t \<noteq> []) ts)"
  by (induction ts) simp_all

lemma hydrated_threads: "normalizeHydratedThreads nfc ts i = trimThreads (map (hydrated_thread nfc) ts) i"
  by (simp add: normalizeHydratedThreads_def hydrated_thread_def [abs_def])

text \<open>What a schema leaves of a message: the keys it knows.\<close>

definition stored_message :: "rest_schema \<Rightarrow> chat_message \<Rightarrow> chat_message" where
  "stored_message rest m = m\<lparr>cm_rest := the (rest ''aiChatMessageSchema'' (cm_rest m))\<rparr>"

lemma all_parse_map: "all_parse f xs = Some ys \<Longrightarrow> ys = map (\<lambda>x. the (f x)) xs \<and> (\<forall>x \<in> set xs. f x \<noteq> None)"
  by (induction xs arbitrary: ys) (auto simp: bind_eq_Some_conv)

lemma stored_thread:
  assumes "aiConversationThreadSchema rest t = Some u"
  shows "th_id u = trim (th_id t)" "th_messages u = map (stored_message rest) (th_messages t)" "trim (th_id t) \<noteq> []"
proof -
  obtain ms where ms: "all_parse (aiChatMessageSchema rest) (th_messages t) = Some ms" "th_messages u = ms"
    and i: "trimmed1 (th_id t) = Some (th_id u)"
    using assms by (auto simp: aiConversationThreadSchema_def bind_eq_Some_conv)
  from i show "th_id u = trim (th_id t)" "trim (th_id t) \<noteq> []" by (auto simp: trimmed1_def split: if_splits)
  have "the (aiChatMessageSchema rest m) = stored_message rest m" if "aiChatMessageSchema rest m \<noteq> None" for m
    using that by (auto simp: aiChatMessageSchema_def stored_message_def bind_eq_Some_conv check_def split: if_splits)
  with all_parse_map [OF ms(1)] show "th_messages u = map (stored_message rest) (th_messages t)"
    by (simp add: ms(2))
qed

lemma restart_history:
  assumes ok: "conversation_ok s" and schema: "aiConversationPersistSchema rest s = Some (active, ts)"
  shows "historyThreads (conversation_restart nfc fresh now rest s) =
      map (\<lambda>t. hydrated_thread nfc (the (aiConversationThreadSchema rest t))) (historyThreads s)"
    and "cv_active (conversation_restart nfc fresh now rest s) = map_option trim (cv_active s)"
    and "list_all (\<lambda>t. aiConversationThreadSchema rest t \<noteq> None) (historyThreads s)"
proof -
  let ?g = "hydrated_thread nfc" and ?p = "\<lambda>t. the (aiConversationThreadSchema rest t)"
  let ?full = "filter (\<lambda>t. th_messages t \<noteq> []) (cv_threads s)"
  obtain a where a: "find_thread (cv_active s) (cv_threads s) = Some a"
    using ok by (cases "find_thread (cv_active s) (cv_threads s)") (auto simp: conversation_ok_def find_thread_none)
  from find_thread_some [OF a] have act: "cv_active s = Some (th_id a)" "a \<in> set (cv_threads s)" by auto
  have parsed: "opt_parse trimmed1 (cv_active s) = Some active"
    "all_parse (aiConversationThreadSchema rest) (cv_threads s) = Some ts"
    using schema by (auto simp: aiConversationPersistSchema_def bind_eq_Some_conv)
  then have ts: "ts = map ?p (cv_threads s)" and all: "\<And>t. t \<in> set (cv_threads s) \<Longrightarrow> aiConversationThreadSchema rest t = Some (?p t)"
    using all_parse_map [OF parsed(2)] by auto
  note stored = stored_thread [OF all]
  have active: "active = Some (trim (th_id a))" "trim (th_id a) \<noteq> []"
    using parsed(1) act(1) by (auto simp: opt_parse_def trimmed1_def split: if_splits)
  have "?p a \<in> set ts" "active = Some (th_id (?p a))" using act(2) stored(1) active(1) by (simp_all add: ts)
  then have "find_thread active ts \<noteq> None" unfolding find_thread_none by blast
  then obtain b where b: "find_thread active ts = Some b" by blast
  have full: "filter (\<lambda>t. th_messages t \<noteq> []) ts = map ?p ?full"
    unfolding ts filter_map comp_def by (intro arg_cong [where f = "map ?p"] filter_cong) (auto simp: stored)
  have short: "length ?full \<le> AI_CONVERSATION_HISTORY_LIMIT"
    using ok by (simp add: conversation_ok_def historyThreads_def)
  let ?ts = "map ?g (map ?p ?full) @ (if th_messages b = [] then [?g b] else [])"
  have nonempty: "active \<noteq> Some []" "active \<noteq> None" using active by auto
  have threads: "normalizeHydratedThreads nfc ts active = ?ts"
    unfolding hydrated_threads using short nonempty
    by (simp add: trimThreads_def Let_def find_hydrated filter_hydrated b full)
  from find_thread_some [OF b] have b_in: "active = Some (th_id b)" "b \<in> set ts" by auto
  have "b \<in> set (map ?p ?full)" if "th_messages b \<noteq> []"
    using b_in(2) that unfolding full [symmetric] by simp
  then have here: "?g b \<in> set ?ts" by (cases "th_messages b = []") auto
  have "active = Some (th_id (?g b))" using b_in(1) by simp
  with here have found: "find_thread active ?ts \<noteq> None" "?ts \<noteq> []"
    unfolding find_thread_none by (blast, metis empty_iff list.set(1))
  have eq: "conversation_restart nfc fresh now rest s = \<lparr>cv_threads = ?ts, cv_active = active\<rparr>"
  proof -
    have "conversation_restart nfc fresh now rest s = ensureActiveThread nfc fresh now active ?ts"
      unfolding threads [symmetric] by (simp add: conversation_restart_def schema hydrate_def)
    also have "\<dots> = \<lparr>cv_threads = ?ts, cv_active = active\<rparr>"
      using nonempty by (simp only: ensureActiveThread_def found if_False if_True simp_thms)
    finally show ?thesis .
  qed
  have "filter (\<lambda>t. th_messages t \<noteq> []) (map ?g (map ?p ?full)) = map ?g (map ?p ?full)"
    unfolding full [symmetric] by (simp add: filter_hydrated)
  then show "historyThreads (conversation_restart nfc fresh now rest s) = map (\<lambda>t. ?g (?p t)) (historyThreads s)"
    unfolding eq by (simp add: historyThreads_def comp_def)
  show "cv_active (conversation_restart nfc fresh now rest s) = map_option trim (cv_active s)"
    unfolding eq by (simp add: act(1) active(1))
  show "list_all (\<lambda>t. aiConversationThreadSchema rest t \<noteq> None) (historyThreads s)"
    using all by (auto simp: historyThreads_def list_all_iff)
qed

text \<open>C9: After any sequence of actions, a restart of a store that its schema accepts keeps every
  conversation that has messages, in order and under its trimmed identifier, with as many
  messages. Each message is the one that was stored but for two things: an answer that was streaming is a
  cancelled one, and of the parts that are JSON to the store only what the schema knows comes back
  (the patches of a message and the summary of its files do not). The active conversation stays
  active.\<close>

theorem restart_keeps_conversations:
  assumes "s = run_events (conversation_step nfc) (hydrate nfc f t current legacy) es"
    and "aiConversationPersistSchema rest s = Some (active, ts)"
  shows "let s' = conversation_restart nfc fresh now rest s in
    map th_id (historyThreads s') = map (\<lambda>t. trim (th_id t)) (historyThreads s) \<and>
    map th_messages (historyThreads s') =
      map (\<lambda>t. normalizeMessages (map (stored_message rest) (th_messages t))) (historyThreads s) \<and>
    cv_active s' = map_option trim (cv_active s)"
proof -
  have "conversation_ok s" unfolding assms(1) by (rule conversations.inv_run)
  note restart = restart_history [OF this assms(2)]
  have "th_id (the (aiConversationThreadSchema rest t)) = trim (th_id t) \<and>
      th_messages (the (aiConversationThreadSchema rest t)) = map (stored_message rest) (th_messages t)"
    if member: "t \<in> set (historyThreads s)" for t
  proof -
    obtain u where "aiConversationThreadSchema rest t = Some u"
      using restart(3) member by (auto simp: list_all_iff)
    with stored_thread [OF this] show ?thesis by simp
  qed
  then show ?thesis by (simp add: Let_def restart)
qed

text \<open>A message with patches, which its schema does not know.\<close>

definition drop_patches :: rest_schema where
  "drop_patches _ v = Some (case v of JObj fs \<Rightarrow> JObj (filter (\<lambda>f. fst f \<noteq> ''patches'') fs) | _ \<Rightarrow> v)"

definition patched_message :: chat_message where
  "patched_message = \<lparr>cm_role = RAssistant, cm_content = [104], cm_createdAt = [49], cm_stream = Some Streaming,
     cm_rest = JObj [(''patches'', JArr [])]\<rparr>"

definition patched_conversation :: conversation where
  "patched_conversation = run_events (conversation_step id) (hydrate id [97] [50] None None)
     [AppendMessage [98] [51] patched_message]"

lemma patched_title: "deriveTemporaryConversationTitle id [patched_message] = [104]"
  by (simp add: deriveTemporaryConversationTitle_def patched_message_def clipUnicodeText_def normalizeTitleSource_def
      trim_def is_js_space_def TEMPORARY_TITLE_MAX_CHARS_def)

lemma patched_eq: "patched_conversation = \<lparr>cv_threads =
     [\<lparr>th_id = [97], th_title = [104], th_titleStatus = Temporary, th_updatedAt = [49], th_createdAt = [50],
       th_messages = [patched_message], th_scrollState = None\<rparr>], cv_active = Some [97]\<rparr>"
  by (simp add: patched_conversation_def hydrate_def ensureActiveThread_def appendMessage_def patchActiveThread_def
      createThread_def replaceThreadsState_def normalizeThreads_def trimThreads_def syncThreadMeta_def map_thread_def
      activeThread_def find_thread_def patched_title last_time_def Let_def AI_CONVERSATION_HISTORY_LIMIT_def)
    (simp add: patched_message_def)

lemma patched_storable: "aiConversationPersistSchema drop_patches patched_conversation \<noteq> None"
  by (simp add: patched_eq aiConversationPersistSchema_def aiConversationThreadSchema_def aiChatMessageSchema_def
      patched_message_def message_tool_calls_def drop_patches_def zoptional_def orElse_def check_def
      opt_parse_def trimmed1_def trim_def is_js_space_def)

theorem restart_keeps_conversations_witness:
  "let s' = conversation_restart id [121] [51] drop_patches patched_conversation in
   map th_messages (historyThreads patched_conversation) = [[patched_message]] \<and>
   map th_messages (historyThreads s') = [[patched_message\<lparr>cm_stream := Some Cancelled, cm_rest := JObj []\<rparr>]] \<and>
   cv_active s' = Some [97]"
proof -
  obtain a ts where "aiConversationPersistSchema drop_patches patched_conversation = Some (a, ts)"
    using patched_storable by auto
  note whole = restart_keeps_conversations [OF patched_conversation_def this, of "[121]" "[51]"]
  have "historyThreads patched_conversation = cv_threads patched_conversation"
    by (simp add: patched_eq historyThreads_def)
  moreover have "normalizeMessages [stored_message drop_patches patched_message] =
      [patched_message\<lparr>cm_stream := Some Cancelled, cm_rest := JObj []\<rparr>]"
    by (simp add: normalizeMessages_def stored_message_def patched_message_def drop_patches_def normalizeHydratedMessage_def)
  ultimately show ?thesis using whole by (simp add: patched_eq Let_def trim_def is_js_space_def)
qed

end
