(* ===== verification/Spec2Isabelle.thy ===== *)
theory Spec2Isabelle
  imports RunReport TerminalRun TerminalFacade EventBus ShadowCompare PlanUtils PlanStore PlanWorkflowStore FieldPreview
    ModelOutput HashKeys Budget McpPool EditorStore SessionPlugin PatchSummary GitStore AgentStore ConversationSchema
begin

text \<open>
  A verification library for the shell workbench in this repository: a desktop editor and terminal
  (front end in \<open>src/\<close>, TypeScript and Vue) whose AI assistant runs in a sidecar process
  (\<open>agent-sidecar/src/\<close>, TypeScript). Paths below are relative to the repository's root.

  \<^bold>\<open>The parts and how they interact.\<close> The Rust backend sends terminal events. The event bus
  checks and delivers them. The terminal facade is its client: it correlates the start of a run
  (reply of the dispatch and start event, in either order), routes and buffers the keyboard input,
  and writes to the run store (output of each run) and the runtime store (state and diagnostics); two
  facades are built, each with a run store of its own, and share the one runtime store.
  The composable that runs the current script uses facade, bus and editor store, and a watchdog. The
  editor store keeps documents, terminal output, logs and results; its session snapshot passes through
  a schema, a debounced storage adapter and the session service to a file, and back at the next
  start. The run report reads the editor store's logs and output. The Git store caches what the
  backend says of one repository at a time. The assistant shows what the sidecar streams: its events
  are projected to tool calls, activities and token usage, kept in the conversation and agent
  stores, checked by schemas when a stored state comes back, and its patches are previewed and
  summarised. In the sidecar, plans are generated, normalised, checked by schemas and kept in two
  databases: the plan store and, event-sourced, the workflow store. The sidecar also bounds what a
  model reads (output budget, token budget) and keeps a pool of MCP server processes whose tools are
  filtered by policy. Text previews, paths and hash keys are pure functions used throughout.

  \<^bold>\<open>Which theory models what: shared.\<close>
  \<^item> \<open>Prelude\<close>: values of type \<open>unknown\<close>, JavaScript maps as ordered association lists, strings,
    fallible operations on a state, and the locales \<open>keyed_store\<close> and \<open>machine\<close>.
  \<^item> \<open>Zod\<close>: the parts of the schema library that the schemas of the program are composed of.
  \<^item> \<open>Json\<close>: \<open>JSON.parse\<close>, next to the \<open>JSON.stringify\<close> of \<open>ModelOutput\<close>.
  \<^item> \<open>Uri\<close>: \<open>encodeURIComponent\<close> and its inverse; the locale \<open>codec\<close> is the contract of a pair of
    encoder and decoder, which the references of \<open>PatchSummary\<close> satisfy too.
  \<^item> \<open>Regex\<close>: a backtracking matcher for regular expressions, and the declarative meaning of a pattern.
  \<^item> \<open>Paths\<close>, \<open>HashKeys\<close>: \<open>src/utils/path.ts\<close> and \<open>src/utils/hash.ts\<close>.
  \<^item> \<open>TextPreview\<close>, \<open>FieldPreview\<close>: \<open>src/utils/text-preview.ts\<close>; the locale
    \<open>grapheme_segmenter\<close> is the contract of a segmentation.

  \<^bold>\<open>Which theory models what: terminal and runs.\<close>
  \<^item> \<open>RunStore\<close>, \<open>RuntimeState\<close>, \<open>TerminalFacade\<close>: \<open>src/services/terminal/runStore.ts\<close>,
    \<open>src/store/terminal.ts\<close> and \<open>src/services/terminal/facade.ts\<close>. The facade's locales
    \<open>run_sink\<close> and \<open>active_run\<close> state what it relies on in the two stores; the machine
    \<open>terminal_system\<close> holds the shared runtime store and every facade that works on it.
  \<^item> \<open>EventBus\<close>, \<open>ShadowCompare\<close>: \<open>src/services/terminal/eventBus.ts\<close> and \<open>shadowCompare.ts\<close>.
  \<^item> \<open>RunLog\<close>: \<open>src/utils/terminal-run.ts\<close> and the types of logs, results and history entries.
  \<^item> \<open>TerminalRun\<close>: \<open>src/composables/useTerminalRun.ts\<close> and \<open>src/utils/error.ts\<close>, over the editor
    store: one event per stretch of code between two awaits, per timer and per event of the bus.
  \<^item> \<open>RunReport\<close>: \<open>src/utils/structured-run-report.ts\<close>, its regular expressions as terms of \<open>Regex\<close>.

  \<^bold>\<open>Which theory models what: editor, session and Git.\<close>
  \<^item> \<open>TerminalOutput\<close>, \<open>EditorStore\<close>: \<open>src/store/editor.ts\<close>.
  \<^item> \<open>SessionSchema\<close>, \<open>SessionStorage\<close>, \<open>SessionPlugin\<close>: \<open>src/types/session/index.ts\<close>,
    \<open>src/services/session/store.ts\<close> and \<open>src/store/plugins/tauriSessionStorage.ts\<close>.
  \<^item> \<open>GitStore\<close>: \<open>src/store/git.ts\<close>.

  \<^bold>\<open>Which theory models what: the assistant in the front end.\<close>
  \<^item> \<open>AiConversation\<close>, \<open>AgentStore\<close>: \<open>src/store/aiConversation.ts\<close> and \<open>src/store/aiAgent.ts\<close>.
  \<^item> \<open>ConversationSchema\<close>: \<open>src/types/ai/conversation.schema.ts\<close>, and the checks of a tool call in
    \<open>src/types/ai/schema.ts\<close>.
  \<^item> \<open>SidecarEvents\<close>, \<open>SidecarTools\<close>: \<open>src/composables/ai/sidecar-events.ts\<close>.
  \<^item> \<open>PatchPreview\<close>, \<open>PatchSummary\<close>: \<open>patch-preview.ts\<close>, \<open>patch-summary.ts\<close> and \<open>diff-ref.ts\<close> of
    \<open>src/components/business/ai/edit/\<close>.

  \<^bold>\<open>Which theory models what: the sidecar.\<close>
  \<^item> \<open>PlanSchema\<close>, \<open>PlanWorkflowSchema\<close>: \<open>agent-sidecar/src/schemas/plan.ts\<close> and
    \<open>plan-workflow.ts\<close>, as parsers of run-time values.
  \<^item> \<open>PlanUtils\<close>, \<open>PlanStore\<close>, \<open>PlanProjection\<close>, \<open>PlanWorkflowStore\<close>: the files
    \<open>plan-utils.ts\<close>, \<open>plan-store.ts\<close> and \<open>plan-workflow-store.ts\<close> of
    \<open>agent-sidecar/src/engines/plan/\<close>. The locale \<open>workflow_steps\<close> lifts a relation that
    each database step keeps to every operation of the workflow store.
  \<^item> \<open>ModelOutput\<close>, \<open>Budget\<close>: \<open>agent-sidecar/src/models/output-budget.ts\<close> and
    \<open>agent-sidecar/src/engines/budget/budget.ts\<close>.
  \<^item> \<open>McpTools\<close>, \<open>McpPool\<close>: \<open>agent-sidecar/src/tools/mcp-gateway.ts\<close>, its pure part and its pool.

  \<^bold>\<open>How state and operations correspond.\<close> Every store is a record with the source's fields, every
  method a function on it under the source's name. An \<open>async\<close> method that others can interleave
  with is cut at its awaits: each stretch is one step, chosen by an event, and properties quantify
  over all sequences of events; the reply of the backend is part of the event that resumes the
  method. An \<open>async\<close> method over a database is a state-passing function that returns an error or a
  value together with the state it leaves.

  \<^bold>\<open>What the lemmas show.\<close> The locale \<open>machine\<close> is interpreted on every store whose operations
  interleave (run store, runtime store, facade, bus, shadow comparison, script runs, editor, Git,
  conversations, agent store, workflow store, pool): each has an invariant that every step keeps.
  Stores with caches or flags refine the history of the calls made on them (run output, terminal
  output, shadow comparison, storage adapter, token usage, workflow projection, tool calls of a
  stream). What is stored comes back: the session and a diff reference as they were, a conversation
  with the keys its schema knows, runs in progress as paused ones. The loops and
  recursions that do not obviously end are shown to (budget sharing, compaction of cyclic values).
  Bounds are proved for everything that claims one (previews, diagnostics, compaction, the timeline
  of a report). Some properties state defects: they describe, for all states of a kind or on a
  concrete run, behaviour the code has and cannot intend. This theory holds the properties that need
  several components: the session across a restart, and what a restart makes of token usage.

  \<^bold>\<open>Parameters.\<close> Clock readings, random identifiers, SHA-256, \<open>z.string().datetime()\<close>,
  \<open>Intl.Segmenter\<close>, Unicode normalisation, and the settling of promises are arguments or
  events, universally quantified. Libraries are fields of an environment: \<open>pathe\<close> and the tables of
  \<open>toLowerCase\<close> (\<open>path_env\<close>), the store plugin of Tauri (\<open>store_api\<close>, whose documented laws are
  \<open>store_laws\<close>), \<open>Date\<close> and the clock format (\<open>report_env\<close>, \<open>run_env\<close>), the numerals of doubles and the host of
  a URL (\<open>sidecar_env\<close>). Checks of JSON values that a store only passes on are parameters
  (\<open>rest_schema\<close>, of the agent store and the conversation schemas). Where the code leaves a key out
  that a schema requires (\<open>pe_schemaVersion\<close>, \<open>we_eventSchemaVersion\<close>), the value \<open>None\<close> is the
  code as it is and \<open>Some 1\<close> is what it intends; a property names the case it is about.

  \<^bold>\<open>Numbers, strings and fuel.\<close> Strings are lists of code points or of UTF-16 code units, as each
  theory says, or of characters where only equality and concatenation matter. Hashes are \<open>32 word\<close>;
  the divisions of the run report are rounded to double precision; weights of previews are exact
  rationals. Recursion is structural or has a termination proof, with two exceptions. The readers of
  \<open>Json\<close> take fuel: \<open>JSON_parse\<close> gives twice the length of the text plus one, and \<open>more_fuel\<close> and
  \<open>parse_fuel\<close> show that more changes nothing. A repetition in \<open>Regex\<close> runs at most as often as the
  text is long, which \<open>rests_iff\<close> shows to lose no match, as every useful round consumes a unit.

  \<^bold>\<open>Not modelled.\<close> Vue components and the composables that mix reactivity, requests and rendering
  (\<open>useAiAssistant.ts\<close>, \<open>useAiAgentRun.ts\<close>, \<open>useIntegratedTerminal.ts\<close>), the adapter to the terminal
  widget, the typed wrappers around Tauri commands, the stores of application settings and SSH
  connections, shell completion (a ranking over a generated catalog), the sidecar's orchestration of
  the agent library, its web search and HTTP server, and the rewriting of provider requests: they
  decide little themselves or depend on libraries that are not in the source. The Rust backend is
  seen through its replies and events. Generated bundles and vendored code are not part of the
  program's own logic.
\<close>

section \<open>The editor's session across a restart\<close>

text \<open>C4: Whatever the user did in the editor and whatever the storage adapter did before, the snapshot the
  editor last handed to the adapter is the one the next process reads at its start, field by field,
  once the debounce has passed and the queue has drained over a store that works.\<close>

theorem editor_session_survives_restart:
  assumes "store_laws api" and "snapshot_valid isdt start"
    and "list_all (\<lambda>c. opt_all isdt (call_time c)) calls" and "list_all store_works events"
    and "io_load io" "io_access io" "io_save io"
    and "snap = ed_session (run_events (editor_step env) (new_editor start) calls)"
    and "item = JObj [(''sessionSnapshot'', snapshot_json snap)]"
    and "p = run_events (plugin_step api isdt) (start_process d)
      (events @ [SetItem EDITOR_SESSION_KEY (Some item)])"
    and "q = run_events (plugin_step api isdt) p (SessionPlugin.settle io p)"
    and "r = plugin_step api isdt (start_process (pl_disk q)) (Hydrate io True)"
  shows "plugin_getItem EDITOR_SESSION_KEY r = Some item \<and>
    persistedEditorStoreSchema isdt item = Some snap"
proof -
  have "snapshot_valid isdt snap"
    using editor_run_valid [of isdt "new_editor start" calls env] assms(2,3,8)
    by (simp add: new_editor_def)
  from set_then_restart [OF assms(1) this assms(4-7)] schema_snapshot_json [OF this] show ?thesis
    by (simp add: assms(9-12))
qed

theorem editor_session_survives_restart_witness:
  "let step = plugin_step plain_store (\<lambda>s. s \<noteq> []);
       snap = ed_session (run_events (editor_step plain_paths) (new_editor small_snapshot)
         [OpenFile [50] [101] \<lparr>sf_path = [47, 97], sf_name = [97], sf_content = [], sf_encoding = Utf8\<rparr>]);
       item = JObj [(''sessionSnapshot'', snapshot_json snap)];
       p = run_events step (start_process fresh_disk)
         ([Hydrate all_works False] @ [SetItem EDITOR_SESSION_KEY (Some item)]);
       q = run_events step p (SessionPlugin.settle all_works p)
   in plugin_getItem EDITOR_SESSION_KEY (step (start_process (pl_disk q)) (Hydrate all_works True)) =
      Some item"
proof -
  let ?calls = "[OpenFile [50] [101]
    \<lparr>sf_path = [47, 97], sf_name = [97], sf_content = [], sf_encoding = Utf8\<rparr>]"
  have "list_all (\<lambda>c. opt_all (\<lambda>s. s \<noteq> []) (call_time c)) ?calls" by (simp add: opt_all_def)
  moreover have "list_all store_works [Hydrate all_works False]" by simp
  moreover have "io_load all_works" "io_access all_works" "io_save all_works"
    by (simp_all add: all_works_def)
  ultimately show ?thesis
    using editor_session_survives_restart [OF plain_store_laws small_snapshot_valid _ _ _ _ _ refl refl refl refl refl,
      of ?calls "[Hydrate all_works False]" all_works fresh_disk plain_paths]
    unfolding Let_def by blast
qed

section \<open>Token usage and the recovery of runs\<close>

text \<open>The life of the agent store across sessions: actions and direct writes, and restarts. An event that
  keeps the usage is one that neither sets it nor clears it, as a new or a cleared plan does.\<close>

datatype agent_life = InSession agent_event | RestartAt ustr

fun life_step :: "rest_schema \<Rightarrow> agent \<Rightarrow> agent_life \<Rightarrow> agent" where
  "life_step rest s (InSession e) = agent_step s e"
| "life_step rest s (RestartAt now) = agent_restart rest now s"

fun keeps_usage :: "agent_life \<Rightarrow> bool" where
  "keeps_usage (InSession (SetUsage u)) = False"
| "keeps_usage (InSession ClearUsage) = False"
| "keeps_usage (InSession (BeginPlanning goal)) = False"
| "keeps_usage (InSession (FailPlanning goal message)) = False"
| "keeps_usage (InSession ClearPlan) = False"
| "keeps_usage e = True"

lemma usage_kept: "keeps_usage (InSession e) \<Longrightarrow> ag_usage (agent_step s e) = ag_usage s"
  by (cases e) (auto simp: plan_ops setClassification_def applyPlanMetadata_def setPlanStatus_def
    clearPendingToolConfirmation_def Let_def upsertRun_def upsertRunStep_def show_active_run_def
    setRuns_def upsertStepDetail_def setStepWebSources_def appendStepToolResults_def
    appendStepFinalAnswer_def appendPatchSummary_def appendToolActivity_def split: option.split)

lemma refused_usage:
  assumes "ug_latest (ag_usage s) = Some u" and "us_outputTokenDetails u = Some empty_output_details"
  shows "aiAgentPersistSchema rest (persisted s) = None" "agent_restart rest now s = persisted s"
proof -
  have "refused (persisted s)" using assms by (simp add: refused_def persisted_def)
  then show none: "aiAgentPersistSchema rest (persisted s) = None" by (rule refused_schema)
  show "agent_restart rest now s = persisted s" by (simp add: agent_restart_def afterHydrate_def none)
qed

lemma refused_life:
  assumes "ug_latest (ag_usage s) = Some u" and "us_outputTokenDetails u = Some empty_output_details"
    and "list_all keeps_usage es"
  shows "ug_latest (ag_usage (run_events (life_step rest) s es)) = Some u"
  using assms(1,3)
proof (induction es arbitrary: s)
  case (Cons e es)
  have "ag_usage (life_step rest s e) = ag_usage s"
  proof (cases e)
    case (InSession x)
    with Cons.prems(2) show ?thesis using usage_kept by simp
  next
    case (RestartAt now)
    then show ?thesis using refused_usage(2) [OF Cons.prems(1) assms(2)] by (simp add: persisted_def)
  qed
  with Cons show ?case by simp
qed simp

text \<open>C27: A model that reports its usage without the details of the output is enough to stop the recovery
  of runs: the projection of the answer puts an empty object in their place and the agent store keeps
  it. From then on, through any number of actions and restarts, until the usage is set again or
  cleared (by itself, by a new or failed planning or by clearing the plan), the schema refuses what is
  stored at every start, whatever the rest of it: the restart leaves the stored state as it is and pauses no run.\<close>

theorem usage_without_details_stops_recovery:
  assumes "last_done (sr_events r) = Some (text, Some u)" and "us_outputTokenDetails u = None"
    and "s' = run_events (life_step rest) (setLatestOfficialUsage (snd (resolveSidecarOfficialUsage r)) s) es"
    and "list_all keeps_usage es"
  shows "aiAgentPersistSchema rest (persisted s') = None \<and> agent_restart rest now s' = persisted s' \<and>
    ag_runs (agent_restart rest now s') = ag_runs s'"
proof -
  let ?u = "normalizeLanguageModelUsage u"
  have "ug_latest (ag_usage (setLatestOfficialUsage (snd (resolveSidecarOfficialUsage r)) s)) = Some ?u"
    by (simp add: resolveSidecarOfficialUsage_def extractLatestDoneUsage_def assms(1) setLatestOfficialUsage_def Let_def)
  moreover have details: "us_outputTokenDetails ?u = Some empty_output_details"
    by (simp add: normalizeLanguageModelUsage_def assms(2) orElse_def DEFAULT_OUTPUT_TOKEN_DETAILS_def
        empty_output_details_def)
  ultimately have "ug_latest (ag_usage s') = Some ?u" unfolding assms(3) using assms(4) by (rule refused_life)
  from refused_usage [OF this details] show ?thesis by (simp add: persisted_def)
qed

definition sample_usage :: usage where
  "sample_usage = \<lparr>us_inputTokens = 1, us_inputTokenDetails = None, us_outputTokens = 1, us_outputTokenDetails = None,
     us_totalTokens = 2, us_cachedInputTokens = None, us_reasoningTokens = None\<rparr>"

definition sample_response :: sidecar_response where
  "sample_response = \<lparr>sr_sessionId = [49], sr_events = [Done [111] (Some sample_usage)], sr_result = None\<rparr>"

text \<open>A run that a restart pauses, and does not pause once the usage is there, not at the second start either.\<close>

theorem usage_without_details_stops_recovery_witness:
  "let s' = run_events (life_step any_rest) (setLatestOfficialUsage (snd (resolveSidecarOfficialUsage sample_response)) one_run)
         [InSession (SetError [33]), RestartAt [51]]
   in map ru_status (ag_runs (agent_restart any_rest [51] one_run)) = [PausedRun] \<and>
      map ru_status (ag_runs (agent_restart any_rest [52] s')) = [RunningStep]"
proof -
  let ?t = "setLatestOfficialUsage (snd (resolveSidecarOfficialUsage sample_response)) one_run"
  let ?s' = "run_events (life_step any_rest) ?t [InSession (SetError [33]), RestartAt [51]]"
  have r: "last_done (sr_events sample_response) = Some ([111], Some sample_usage)"
    "us_outputTokenDetails sample_usage = None"
    by (simp_all add: sample_response_def sample_usage_def)
  note stops = usage_without_details_stops_recovery [OF r refl]
  have "ag_runs ?s' = ag_runs ?t"
    using stops [where rest = any_rest and s = one_run and es = "[InSession (SetError [33])]" and now = "[51]"]
    by (simp add: persisted_def)
  then have "map ru_status (ag_runs ?s') = [RunningStep]"
    by (simp add: setLatestOfficialUsage_def Let_def one_run_def upsertRun_def new_agent_def plain_run_def split: option.split)
  then have "map ru_status (ag_runs (agent_restart any_rest [52] ?s')) = [RunningStep]"
    using stops [where rest = any_rest and s = one_run and now = "[52]" and
      es = "[InSession (SetError [33]), RestartAt [51]]"] by (simp add: persisted_def [abs_def])
  with one_run_restarts show ?thesis by (simp only: Let_def simp_thms)
qed

end
